(* ===== verification/Prelude.thy ===== *)
theory Prelude
  imports Main "HOL-Library.Word" "HOL-Library.Monad_Syntax"
begin

text \<open>
  Shared vocabulary of the development: the machine types of the C sources, the return
  codes of \<open>include/common/common.h\<close>, byte-addressed memory with the little-endian
  struct layout used by \<open>memcpy\<close>/\<open>fwrite\<close> of structs, and the shape of a C \<open>for\<close> loop
  with early \<open>return\<close>.  Everything the component theories share lives here, together
  with the collections of rewrite rules that carry their proofs.

  Conventions used in every theory:
  \<^item> an unsigned C integer that is a counter or a data value is an Isabelle word of the
    same width, so additions wrap exactly as in C; an unsigned integer that is used as an
    array index is a \<open>nat\<close>, and the places where the C arithmetic can leave the range
    of the array are written out with \<open>u32_add\<close> and \<open>u32_sub\<close>;
  \<^item> a nullable pointer argument is an \<open>option\<close>, \<open>None\<close> being \<open>NULL\<close>;
  \<^item> an operation whose C code has undefined behaviour on some input (an array index out
    of range, a division by zero) or may loop for ever has a result of type \<open>option\<close>;
    \<open>None\<close> then means that the call has no defined result.
\<close>

unbundle bit_operations_syntax

section \<open>Machine types and return codes\<close>

type_synonym u8 = "8 word"
type_synonym u16 = "16 word"
type_synonym u32 = "32 word"
type_synonym u64 = "64 word"

datatype ret_code =
    RET_OK
  | RET_ERR_PARAM
  | RET_ERR_NO_SPACE
  | RET_ERR_BAD_BLOCK
  | RET_ERR_OVERWRITE
  | RET_ERR_NOT_MAPPED
  | RET_ERR_NOT_INIT
  | RET_ERR_INTERNAL
  | RET_ERR_CHECKSUM
  | RET_ERR_TIMEOUT
  | RET_ERR_BUSY
  | RET_ERR_NOT_SUPPORT
  | RET_ERR_DIF_CRC
  | RET_ERR_DIF_APP_TAG
  | RET_ERR_DIF_REF_TAG

text \<open>The numeric values the enumeration gives to the codes.\<close>

fun ret_code_value :: "ret_code \<Rightarrow> int" where
  "ret_code_value RET_OK = 0"
| "ret_code_value RET_ERR_PARAM = -1"
| "ret_code_value RET_ERR_NO_SPACE = -2"
| "ret_code_value RET_ERR_BAD_BLOCK = -3"
| "ret_code_value RET_ERR_OVERWRITE = -4"
| "ret_code_value RET_ERR_NOT_MAPPED = -5"
| "ret_code_value RET_ERR_NOT_INIT = -6"
| "ret_code_value RET_ERR_INTERNAL = -7"
| "ret_code_value RET_ERR_CHECKSUM = -8"
| "ret_code_value RET_ERR_TIMEOUT = -9"
| "ret_code_value RET_ERR_BUSY = -10"
| "ret_code_value RET_ERR_NOT_SUPPORT = -11"
| "ret_code_value RET_ERR_DIF_CRC = -12"
| "ret_code_value RET_ERR_DIF_APP_TAG = -13"
| "ret_code_value RET_ERR_DIF_REF_TAG = -14"

instantiation ret_code :: linorder
begin

definition less_eq_ret_code :: "ret_code \<Rightarrow> ret_code \<Rightarrow> bool" where
  "less_eq_ret_code a b \<longleftrightarrow> ret_code_value a \<le> ret_code_value b"

definition less_ret_code :: "ret_code \<Rightarrow> ret_code \<Rightarrow> bool" where
  "less_ret_code a b \<longleftrightarrow> ret_code_value a < ret_code_value b"

instance
proof
  fix x y z :: ret_code
  show "(x < y) = (x \<le> y \<and> \<not> y \<le> x)"
    by (auto simp: less_eq_ret_code_def less_ret_code_def)
  show "x \<le> x"
    by (simp add: less_eq_ret_code_def)
  show "x \<le> y \<Longrightarrow> y \<le> z \<Longrightarrow> x \<le> z"
    by (simp add: less_eq_ret_code_def)
  show "x \<le> y \<Longrightarrow> y \<le> x \<Longrightarrow> x = y"
    by (cases x; cases y) (simp_all add: less_eq_ret_code_def)
  show "x \<le> y \<or> y \<le> x"
    by (auto simp: less_eq_ret_code_def)
qed

end

section \<open>Collections of rewrite rules\<close>

named_theorems geometry "definitions of the sizes fixed by the C macros"
named_theorems frame_simps "fields that an operation leaves alone"
named_theorems word_counters "how the counters of the code advance"

section \<open>Unsigned 32-bit arithmetic on array indices\<close>

definition u32_add :: "nat \<Rightarrow> nat \<Rightarrow> nat" where
  "u32_add a b = (a + b) mod 2 ^ 32"

definition u32_sub :: "nat \<Rightarrow> nat \<Rightarrow> nat" where
  "u32_sub a b = (a + 2 ^ 32 - b) mod 2 ^ 32"

lemma u32_add_small: "a + b < 4294967296 \<Longrightarrow> u32_add a b = a + b"
  by (simp add: u32_add_def)

lemma u32_sub_small: "b \<le> a \<Longrightarrow> a < 4294967296 \<Longrightarrow> u32_sub a b = a - b"
  by (simp add: u32_sub_def mod_if)

lemma u32_sub_wraps: "a < b \<Longrightarrow> b < 4294967296 \<Longrightarrow> u32_sub a b = 4294967296 + a - b"
  by (simp add: u32_sub_def)

section \<open>The flash page\<close>

definition NAND_PAGE_SIZE :: nat where [geometry]:
  "NAND_PAGE_SIZE = 4096"

lemma NAND_PAGE_SIZE_pos [simp]: "0 < NAND_PAGE_SIZE" "NAND_PAGE_SIZE \<noteq> 0"
  by (simp_all add: NAND_PAGE_SIZE_def)

section \<open>Byte-addressed memory\<close>

text \<open>
  \<open>memcpy\<close> out of and into a mapped region: the region is a function from byte offsets to
  bytes.
\<close>

definition mem_read :: "(nat \<Rightarrow> u8) \<Rightarrow> nat \<Rightarrow> nat \<Rightarrow> u8 list" where
  "mem_read m off n = map m [off..<off + n]"

definition mem_write :: "(nat \<Rightarrow> u8) \<Rightarrow> nat \<Rightarrow> u8 list \<Rightarrow> nat \<Rightarrow> u8" where
  "mem_write m off bs = (\<lambda>a. if off \<le> a \<and> a < off + length bs then bs ! (a - off) else m a)"

lemma length_mem_read [simp]: "length (mem_read m off n) = n"
  by (simp add: mem_read_def)

lemma nth_mem_read [simp]: "i < n \<Longrightarrow> mem_read m off n ! i = m (off + i)"
  by (simp add: mem_read_def)

lemma mem_read_write_same: "length bs = n \<Longrightarrow> mem_read (mem_write m off bs) off n = bs"
  by (rule nth_equalityI) (simp_all add: mem_write_def)

lemma mem_read_write_disjoint:
  "off + length bs \<le> off' \<or> off' + n \<le> off \<Longrightarrow>
   mem_read (mem_write m off bs) off' n = mem_read m off' n"
  by (auto simp: mem_read_def mem_write_def)

section \<open>Little-endian words\<close>

definition u32_bytes :: "u32 \<Rightarrow> u8 list" where
  "u32_bytes w = [ucast w, ucast (drop_bit 8 w), ucast (drop_bit 16 w), ucast (drop_bit 24 w)]"

fun u32_of_bytes :: "u8 list \<Rightarrow> u32" where
  "u32_of_bytes [a, b, c, d] =
     ucast a OR push_bit 8 (ucast b) OR push_bit 16 (ucast c) OR push_bit 24 (ucast d)"
| "u32_of_bytes _ = 0"

lemma length_u32_bytes [simp]: "length (u32_bytes w) = 4"
  by (simp add: u32_bytes_def)

lemma u32_of_bytes_inverse [simp]: "u32_of_bytes (u32_bytes w) = w"
proof (rule bit_word_eqI)
  fix n
  assume "n < LENGTH(32)"
  then consider "n < 8" | "8 \<le> n" "n < 16" | "16 \<le> n" "n < 24" | "24 \<le> n" "n < 32"
    by fastforce
  then show "bit (u32_of_bytes (u32_bytes w)) n = bit w n"
    by cases (auto simp: u32_bytes_def bit_simps)
qed

lemma u32_bytes_inj: "u32_bytes v = u32_bytes w \<longleftrightarrow> v = w"
  by (metis u32_of_bytes_inverse)

text \<open>A record that is an array of 32-bit fields, as \<open>fwrite\<close> lays it out.\<close>

definition words_bytes :: "u32 list \<Rightarrow> u8 list" where
  "words_bytes ws = concat (map u32_bytes ws)"

fun words_of_bytes :: "nat \<Rightarrow> u8 list \<Rightarrow> u32 list" where
  "words_of_bytes 0 bs = []"
| "words_of_bytes (Suc n) bs = u32_of_bytes (take 4 bs) # words_of_bytes n (drop 4 bs)"

lemma length_words_bytes [simp]: "length (words_bytes ws) = 4 * length ws"
  by (induction ws) (simp_all add: words_bytes_def)

lemma words_of_bytes_append: "words_of_bytes (length ws) (words_bytes ws @ bs) = ws"
  by (induction ws) (simp_all add: words_bytes_def)

lemma words_of_bytes_inverse [simp]: "words_of_bytes (length ws) (words_bytes ws) = ws"
  using words_of_bytes_append [of ws "[]"] by simp

section \<open>Loops with early return\<close>

text \<open>
  The body of a C loop either falls through to the next iteration with an updated state or
  leaves the function with a result.  \<open>None\<close> is an iteration without a defined result.
\<close>

datatype ('r, 's) ctl = Next 's | Leave 'r 's

fun for_each :: "'a list \<Rightarrow> ('a \<Rightarrow> 's \<Rightarrow> ('r, 's) ctl option) \<Rightarrow> 's \<Rightarrow> ('r, 's) ctl option" where
  "for_each [] body s = Some (Next s)"
| "for_each (x # xs) body s =
     (case body x s of
        None \<Rightarrow> None
      | Some (Leave r s') \<Rightarrow> Some (Leave r s')
      | Some (Next s') \<Rightarrow> for_each xs body s')"

lemma for_each_append:
  "for_each (xs @ ys) body s =
     (case for_each xs body s of
        None \<Rightarrow> None
      | Some (Leave r s') \<Rightarrow> Some (Leave r s')
      | Some (Next s') \<Rightarrow> for_each ys body s')"
  by (induction xs arbitrary: s) (auto split: option.splits ctl.splits)

lemma for_each_skip: "(\<And>x. x \<in> set xs \<Longrightarrow> body x s = Some (Next s)) \<Longrightarrow> for_each xs body s = Some (Next s)"
  by (induction xs) simp_all

lemma for_each_first:
  assumes "\<And>i. i < k \<Longrightarrow> body i s = Some (Next s)" "body k s = Some (Leave r s')" "k < n"
  shows "for_each [0..<n] body s = Some (Leave r s')"
proof -
  have "[0..<n] = [0..<k] @ k # [Suc k..<n]"
    using assms(3) by (metis upt_add_eq_append upt_conv_Cons le_add_diff_inverse less_imp_le zero_le)
  moreover have "for_each [0..<k] body s = Some (Next s)" by (rule for_each_skip) (simp add: assms(1))
  ultimately show ?thesis by (simp add: for_each_append assms(2))
qed

text \<open>
  Invariant rule: \<open>I\<close> may mention the iterations that are still to come, \<open>Q\<close> holds where
  the loop returns early.  The rule gives that the loop has a defined result.
\<close>

lemma for_each_rule:
  assumes body: "\<And>x ys s. I (x # ys) s \<Longrightarrow>
      (\<exists>s'. body x s = Some (Next s') \<and> I ys s') \<or> (\<exists>r s'. body x s = Some (Leave r s') \<and> Q r s')"
    and start: "I xs s"
  shows "(\<exists>s'. for_each xs body s = Some (Next s') \<and> I [] s') \<or>
         (\<exists>r s'. for_each xs body s = Some (Leave r s') \<and> Q r s')"
  using start
proof (induction xs arbitrary: s)
  case Nil
  then show ?case by simp
next
  case (Cons x xs)
  from body [OF Cons.prems] show ?case
    by (auto dest: Cons.IH)
qed

text \<open>The partial version: whatever the loop returns satisfies the invariant.\<close>

lemma for_each_invariant:
  assumes body: "\<And>x s c. x \<in> set xs \<Longrightarrow> I s \<Longrightarrow> body x s = Some c \<Longrightarrow>
      (case c of Next s' \<Rightarrow> I s' | Leave r s' \<Rightarrow> Q r s')"
    and start: "I s" and result: "for_each xs body s = Some c"
  shows "case c of Next s' \<Rightarrow> I s' | Leave r s' \<Rightarrow> Q r s'"
  using assms
proof (induction xs arbitrary: s)
  case Nil
  then show ?case by auto
next
  case (Cons x xs)
  from Cons.prems(3) obtain d where d: "body x s = Some d"
    by (auto split: option.splits)
  show ?case
  proof (cases d)
    case (Next s')
    with Cons.prems(1) [of x s d] Cons.prems(2) d have "I s'" by simp
    moreover from Next d Cons.prems(3) have "for_each xs body s' = Some c" by simp
    ultimately show ?thesis
      using Cons.IH [of s'] Cons.prems(1) by auto
  next
    case (Leave r s')
    with Cons.prems(1) [of x s d] Cons.prems(2,3) d show ?thesis by auto
  qed
qed

text \<open>The same for loops whose every iteration has a defined result.\<close>

fun loop_each :: "'a list \<Rightarrow> ('a \<Rightarrow> 's \<Rightarrow> ('r, 's) ctl) \<Rightarrow> 's \<Rightarrow> ('r, 's) ctl" where
  "loop_each [] body s = Next s"
| "loop_each (x # xs) body s =
     (case body x s of Leave r s' \<Rightarrow> Leave r s' | Next s' \<Rightarrow> loop_each xs body s')"

lemma loop_each_append:
  "loop_each (xs @ ys) body s =
     (case loop_each xs body s of Leave r s' \<Rightarrow> Leave r s' | Next s' \<Rightarrow> loop_each ys body s')"
  by (induction xs arbitrary: s) (auto split: ctl.splits)

lemma loop_each_invariant:
  assumes body: "\<And>x s. x \<in> set xs \<Longrightarrow> I s \<Longrightarrow> (case body x s of Next s' \<Rightarrow> I s' | Leave r s' \<Rightarrow> Q r s')"
    and start: "I s"
  shows "case loop_each xs body s of Next s' \<Rightarrow> I s' | Leave r s' \<Rightarrow> Q r s'"
  using assms
proof (induction xs arbitrary: s)
  case (Cons x xs)
  show ?case
  proof (cases "body x s")
    case (Next s')
    with Cons.prems(1) [of x s] Cons.prems(2) have "I s'" by simp
    with Cons.IH [of s'] Cons.prems(1) have "case loop_each xs body s' of Next s' \<Rightarrow> I s' | Leave r s' \<Rightarrow> Q r s'"
      by simp
    with Next show ?thesis by simp
  next
    case (Leave r s')
    with Cons.prems(1) [of x s] Cons.prems(2) show ?thesis by simp
  qed
qed simp

lemma loop_each_Next:
  "(\<And>x. x \<in> set xs \<Longrightarrow> body x s = Next s) \<Longrightarrow> loop_each xs body s = Next s"
  by (induction xs) auto

text \<open>Searches and loops over lists from the library.\<close>

lemma find_SomeD: "find P xs = Some x \<Longrightarrow> x \<in> set xs \<and> P x"
  by (auto simp: find_Some_iff)

lemma fold_invariant_set: "(\<And>x s. x \<in> set xs \<Longrightarrow> I s \<Longrightarrow> I (f x s)) \<Longrightarrow> I s \<Longrightarrow> I (fold f xs s)"
  by (induction xs arbitrary: s) auto

text \<open>A loop without early return, some iterations of which have no defined result.\<close>

fun fold_option :: "('a \<Rightarrow> 's \<Rightarrow> 's option) \<Rightarrow> 'a list \<Rightarrow> 's \<Rightarrow> 's option" where
  "fold_option body [] s = Some s"
| "fold_option body (x # xs) s = do { s \<leftarrow> body x s; fold_option body xs s }"

lemma fold_option_append:
  "fold_option body (xs @ ys) s = do { s \<leftarrow> fold_option body xs s; fold_option body ys s }"
  by (induction xs arbitrary: s) (auto split: bind_splits)

lemma fold_option_stuck: "x \<in> set xs \<Longrightarrow> (\<And>s. body x s = None) \<Longrightarrow> fold_option body xs s = None"
  by (induction xs arbitrary: s) (auto split: bind_splits)

lemma fold_option_invariant:
  assumes body: "\<And>x s s'. x \<in> set xs \<Longrightarrow> I s \<Longrightarrow> body x s = Some s' \<Longrightarrow> I s'"
    and start: "I s" and result: "fold_option body xs s = Some s'"
  shows "I s'"
  using assms by (induction xs arbitrary: s) (auto split: bind_splits)

lemma fold_option_total:
  assumes body: "\<And>x s. x \<in> set xs \<Longrightarrow> I s \<Longrightarrow> \<exists>s'. body x s = Some s' \<and> I s'"
    and start: "I s"
  shows "\<exists>s'. fold_option body xs s = Some s' \<and> I s'"
  using assms by (induction xs arbitrary: s) (fastforce split: bind_splits)+

section \<open>Bits of words\<close>

lemma word_xor_cancel [simp]: "x XOR z = y XOR z \<longleftrightarrow> x = y" for x y z :: "'a :: len word"
  by (metis xor.assoc xor_self_eq xor.right_neutral)

lemma word_xor_cancel_left [simp]: "z XOR x = z XOR y \<longleftrightarrow> x = y" for x y z :: "'a :: len word"
  by (metis word_xor_cancel xor.commute)

lemma word_and_split: "w = (w AND m) XOR (w AND NOT m)" for w m :: "'a :: len word"
  by (rule bit_word_eqI) (auto simp: bit_and_iff bit_xor_iff bit_not_iff)

lemma bit_0xFF: "bit (0xFF :: 'a :: len word) i \<longleftrightarrow> i < LENGTH('a) \<and> i < 8"
  using bit_mask_iff [where 'a = "'a word", of 8 i] by (auto simp: mask_eq_exp_minus_1)

lemma bit_0xFF_u32: "bit (0xFF :: u32) i \<longleftrightarrow> i < 8"
  by (auto simp: bit_0xFF simp del: bit_numeral_word_iff)

lemma bit_clear_low:
  fixes w m :: "'a :: len word"
  assumes "\<And>i. bit m i \<longleftrightarrow> i < k"
  shows "i < k \<Longrightarrow> \<not> bit (w AND NOT m) i"
  by (simp add: bit_and_iff bit_not_iff assms)

lemma drop_bit_clear_low:
  fixes b :: u8 and c m :: "'a :: len word"
  assumes "\<And>i. bit m i \<longleftrightarrow> i < 8"
  shows "drop_bit 8 ((c XOR ucast b) AND NOT m) = drop_bit 8 c"
  by (rule bit_word_eqI) (auto simp: bit_simps assms dest: bit_imp_le_length)

lemma unat_and_le_right: "unat (a AND b) \<le> unat b" for a b :: "'a :: len word"
  using word_and_le1 [of a b] by (simp add: word_le_nat_alt)

lemma ucast_u8_inj:
  fixes a b :: u8
  assumes eq: "(ucast a :: 'a :: len word) = ucast b" and wide: "8 \<le> LENGTH('a)"
  shows "a = b"
proof (rule bit_word_eqI)
  fix n
  assume "n < LENGTH(8)"
  moreover have "bit (ucast a :: 'a word) n = bit (ucast b :: 'a word) n" by (simp only: eq)
  ultimately show "bit a n = bit b n" using wide by (simp add: bit_ucast_iff)
qed

end
