(* ===== verification/Checksum.thy ===== *)
theory Checksum
  imports Prelude
begin

text \<open>
  The interface that every running checksum of the firmware meets: CRC-32 (twice, in
  \<open>utils/utils.c\<close> and \<open>modules/nand/nand.c\<close>), CRC-16, the additive checksum of snapshots
  and log entries, and the page ECC words.  A checksum absorbs a buffer byte by byte with a
  step function; what it can detect follows from how injective that step is.
\<close>

locale state_checksum =
  fixes step :: "'w \<Rightarrow> u8 \<Rightarrow> 'w"
  assumes step_inj_state: "step c b = step c' b \<Longrightarrow> c = c'"
begin

lemma absorb_inj_state: "foldl step c bs = foldl step c' bs \<Longrightarrow> c = c'"
proof (induction bs arbitrary: c c')
  case Nil
  then show ?case by simp
next
  case (Cons b bs)
  then have "step c b = step c' b" by simp
  then show ?case by (rule step_inj_state)
qed

text \<open>A common suffix never hides a difference between two prefixes.\<close>

lemma absorb_suffix:
  "foldl step c (xs @ zs) = foldl step c (ys @ zs) \<longleftrightarrow> foldl step c xs = foldl step c ys"
  by (auto dest: absorb_inj_state)

end

locale byte_checksum = state_checksum step for step :: "'w \<Rightarrow> u8 \<Rightarrow> 'w" +
  assumes step_inj_byte: "step c b = step c b' \<Longrightarrow> b = b'"
begin

text \<open>Corrupting exactly one byte always changes the checksum.\<close>

lemma absorb_one_byte:
  assumes "b \<noteq> b'"
  shows "foldl step c (xs @ b # ys) \<noteq> foldl step c (xs @ b' # ys)"
proof
  assume "foldl step c (xs @ b # ys) = foldl step c (xs @ b' # ys)"
  then have "foldl step (step (foldl step c xs) b) ys = foldl step (step (foldl step c xs) b') ys"
    by simp
  then have "step (foldl step c xs) b = step (foldl step c xs) b'"
    by (rule absorb_inj_state)
  with assms show False by (auto dest: step_inj_byte)
qed

lemma absorb_list_update:
  assumes "i < length xs" and "xs ! i \<noteq> b"
  shows "foldl step c (xs[i := b]) \<noteq> foldl step c xs"
proof -
  have "xs = take i xs @ xs ! i # drop (Suc i) xs"
    using assms(1) by (simp add: id_take_nth_drop)
  moreover have "xs[i := b] = take i xs @ b # drop (Suc i) xs"
    using assms(1) by (simp add: upd_conv_take_nth_drop)
  ultimately show ?thesis
    using absorb_one_byte [of b "xs ! i"] assms(2) by metis
qed

end

section \<open>The reflected shift register behind CRC-16 and CRC-32\<close>

text \<open>One shift of a reflected linear feedback register with feedback polynomial \<open>P\<close>.\<close>

definition lfsr_bit :: "'a :: len word \<Rightarrow> 'a word \<Rightarrow> 'a word" where
  "lfsr_bit P c = drop_bit 1 c XOR (if bit c 0 then P else 0)"

definition lfsr_step :: "'a :: len word \<Rightarrow> 'a word \<Rightarrow> u8 \<Rightarrow> 'a word" where
  "lfsr_step P c b = (lfsr_bit P ^^ 8) (c XOR ucast b)"

lemma lfsr_bit_branch:
  "(if c AND 1 \<noteq> 0 then drop_bit 1 c XOR P else drop_bit 1 c) = lfsr_bit P c"
  by (simp add: lfsr_bit_def and_one_eq bit_0 odd_iff_mod_2_eq_one)

lemma lfsr_bit_xor: "lfsr_bit P (x XOR y) = lfsr_bit P x XOR lfsr_bit P y"
  by (auto simp: lfsr_bit_def bit_xor_iff drop_bit_xor intro!: bit_word_eqI)

lemma lfsr_bits_xor: "(lfsr_bit P ^^ n) (x XOR y) = (lfsr_bit P ^^ n) x XOR (lfsr_bit P ^^ n) y"
  by (induction n) (simp_all add: lfsr_bit_xor)

lemma lfsr_bits_clear:
  "(\<And>i. i < n \<Longrightarrow> \<not> bit y i) \<Longrightarrow> (lfsr_bit P ^^ n) y = drop_bit n y"
proof (induction n)
  case (Suc n)
  then have "(lfsr_bit P ^^ n) y = drop_bit n y" by simp
  then have "(lfsr_bit P ^^ Suc n) y = lfsr_bit P (drop_bit n y)" by simp
  also have "\<dots> = drop_bit (Suc n) y"
    using Suc.prems [of n] by (simp add: lfsr_bit_def bit_drop_bit_eq)
  finally show ?case .
qed simp

lemma lfsr_bit_inj:
  fixes P x y :: "'a :: len word"
  assumes top: "bit P (LENGTH('a) - 1)" and eq: "lfsr_bit P x = lfsr_bit P y"
  shows "x = y"
proof -
  have "bit (lfsr_bit P c) (LENGTH('a) - 1) = bit c 0" for c
    using top bit_imp_le_length [of c "LENGTH('a)"]
    by (auto simp: lfsr_bit_def bit_xor_iff bit_drop_bit_eq)
  with eq have b0: "bit x 0 = bit y 0" by metis
  with eq have d: "drop_bit 1 x = drop_bit 1 y"
    by (simp add: lfsr_bit_def split: if_splits)
  show "x = y"
  proof (rule bit_word_eqI)
    fix n
    show "bit x n = bit y n"
    proof (cases n)
      case (Suc m)
      have "bit (drop_bit 1 x) m = bit (drop_bit 1 y) m" by (simp only: d)
      then show ?thesis using Suc by (simp add: bit_drop_bit_eq)
    qed (use b0 in simp)
  qed
qed

lemma lfsr_bits_inj:
  fixes P x y :: "'a :: len word"
  assumes "bit P (LENGTH('a) - 1)"
  shows "(lfsr_bit P ^^ n) x = (lfsr_bit P ^^ n) y \<Longrightarrow> x = y"
  by (induction n) (auto dest: lfsr_bit_inj [OF assms])

lemma lfsr_step_checksum:
  fixes P :: "'a :: len word"
  assumes "bit P (LENGTH('a) - 1)" and "8 \<le> LENGTH('a)"
  shows "byte_checksum (lfsr_step P)"
proof
  fix c c' :: "'a word" and b b' :: u8
  show "lfsr_step P c b = lfsr_step P c' b \<Longrightarrow> c = c'"
    by (auto simp: lfsr_step_def dest: lfsr_bits_inj [OF assms(1)])
  show "lfsr_step P c b = lfsr_step P c b' \<Longrightarrow> b = b'"
    using assms(2) by (auto simp: lfsr_step_def dest!: lfsr_bits_inj [OF assms(1)] intro: ucast_u8_inj)
qed

text \<open>
  A byte-wise lookup table holds the eight-fold shift of its index.  Shifting the entry at an
  even index gives the entry at half that index, and an odd entry differs from the even one
  before it by a constant, so 256 shifts verify a whole table.
\<close>

lemma lfsr_bits_8:
  "(lfsr_bit P ^^ 8) c = lfsr_bit P (lfsr_bit P (lfsr_bit P (lfsr_bit P
     (lfsr_bit P (lfsr_bit P (lfsr_bit P (lfsr_bit P c)))))))"
  by (simp add: numeral_eq_Suc)

fun lfsr_pairs :: "'a :: len word \<Rightarrow> 'a word \<Rightarrow> 'a word list \<Rightarrow> 'a word list \<Rightarrow> bool" where
  "lfsr_pairs P t1 (x # xs) (e # d # ts) = (lfsr_bit P e = x \<and> d = e XOR t1 \<and> lfsr_pairs P t1 xs ts)"
| "lfsr_pairs P t1 xs ts = (ts = [])"

lemma lfsr_pairs_nth:
  "lfsr_pairs P t1 xs ts \<Longrightarrow> 2 * j < length ts \<Longrightarrow>
   lfsr_bit P (ts ! (2 * j)) = xs ! j \<and> ts ! Suc (2 * j) = ts ! (2 * j) XOR t1"
proof (induction P t1 xs ts arbitrary: j rule: lfsr_pairs.induct)
  case (1 P t1 x xs e d ts)
  then show ?case by (cases j) simp_all
qed simp_all

lemma lfsr_table_nth:
  fixes P :: "u32"
  assumes pairs: "lfsr_pairs P ((lfsr_bit P ^^ 8) 1) T T" and len: "length T = 256"
    and "bit P 31" and "T ! 0 = 0"
  shows "k < 256 \<Longrightarrow> T ! k = (lfsr_bit P ^^ 8) (of_nat k)"
proof (induction k rule: less_induct)
  case (less k)
  define j where "j = k div 2"
  have half: "lfsr_bit P (T ! (2 * j)) = T ! j" "T ! Suc (2 * j) = T ! (2 * j) XOR (lfsr_bit P ^^ 8) 1"
    using lfsr_pairs_nth [OF pairs, of j] len less.prems by (simp_all add: j_def)
  have even_case: "T ! (2 * j) = (lfsr_bit P ^^ 8) (of_nat (2 * j))" if "0 < k"
  proof -
    have "drop_bit 1 (of_nat (2 * j) :: u32) = of_nat j"
      using less.prems by (simp add: word_unat_eq_iff unat_div drop_bit_eq_div unat_word_ariths unat_of_nat j_def)
    then have "lfsr_bit P (of_nat (2 * j)) = of_nat j"
      by (simp add: lfsr_bit_def bit_0)
    moreover have "T ! j = (lfsr_bit P ^^ 8) (of_nat j)"
      using less that by (simp add: j_def)
    ultimately have "lfsr_bit P (T ! (2 * j)) = (lfsr_bit P ^^ 8) (lfsr_bit P (of_nat (2 * j)))"
      using half(1) by simp
    also have "\<dots> = lfsr_bit P ((lfsr_bit P ^^ 8) (of_nat (2 * j)))"
      by (simp only: funpow_swap1)
    finally show ?thesis
      using lfsr_bit_inj [of P] assms(3) by simp
  qed
  consider "k = 0" | "0 < k" "k = 2 * j" | "0 < k" "k = Suc (2 * j)"
    unfolding j_def by linarith
  then show ?case
  proof cases
    case 1
    have "(lfsr_bit P ^^ n) 0 = 0" for n
      by (induction n) (simp_all add: lfsr_bit_def)
    with 1 assms(4) show ?thesis by simp
  next
    case 2
    with even_case show ?thesis by metis
  next
    case 3
    have "(of_nat (Suc (2 * j)) :: u32) = of_nat (2 * j) XOR 1"
      by (simp add: xor_one_eq)
    then have "(lfsr_bit P ^^ 8) (of_nat k) = (lfsr_bit P ^^ 8) (of_nat (2 * j)) XOR (lfsr_bit P ^^ 8) 1"
      using 3 by (simp only: lfsr_bits_xor)
    with 3 half(2) even_case show ?thesis by simp
  qed
qed

lemma table_step_is_lfsr_step:
  fixes P crc :: u32
  assumes table: "\<And>k. k < 256 \<Longrightarrow> T ! k = (lfsr_bit P ^^ 8) (of_nat k)"
  shows "T ! unat ((crc XOR ucast b) AND 0xFF) XOR drop_bit 8 crc = lfsr_step P crc b"
proof -
  let ?z = "crc XOR ucast b :: u32"
  let ?lo = "?z AND 0xFF" and ?hi = "?z AND NOT 0xFF"
  have "unat ?lo < 256"
    using unat_and_le_right [of ?z "0xFF"] by simp
  then have lo: "T ! unat ?lo = (lfsr_bit P ^^ 8) ?lo"
    using table [of "unat ?lo"] by simp
  have hi: "(lfsr_bit P ^^ 8) ?hi = drop_bit 8 ?hi"
    by (rule lfsr_bits_clear) (rule bit_clear_low [OF bit_0xFF_u32])
  have d: "drop_bit 8 ?hi = drop_bit 8 crc"
    by (rule drop_bit_clear_low [OF bit_0xFF_u32])
  have "?z = ?lo XOR ?hi"
    by (rule word_and_split)
  then have "(lfsr_bit P ^^ 8) ?z = (lfsr_bit P ^^ 8) ?lo XOR (lfsr_bit P ^^ 8) ?hi"
    by (metis lfsr_bits_xor)
  then show ?thesis by (simp only: lfsr_step_def lo hi d)
qed

section \<open>Additive checksums\<close>

definition sum_step :: "u32 \<Rightarrow> u8 \<Rightarrow> u32" where
  "sum_step c b = c + ucast b"

interpretation byte_sum: byte_checksum sum_step
  by unfold_locales (auto simp: sum_step_def dest: ucast_u8_inj)

end
