(* ===== verification/Utils.thy ===== *)
theory Utils
  imports Checksum
begin

text \<open>
  The utility functions of \<open>utils/utils.h\<close> (bit, alignment and arithmetic helpers, all of
  them \<open>static inline\<close>) and of \<open>utils/utils.c\<close> (bounded copies, CRC-32, CRC-16).  A buffer
  is the list of its bytes; the length argument is at most the length of that list.
  The delay loops and the version banner have no state and are left out.
\<close>

section \<open>Bit operations\<close>

definition utils_set_bit :: "u32 option \<Rightarrow> nat \<Rightarrow> u32 option" where
  "utils_set_bit val bitno =
     (case val of None \<Rightarrow> None | Some v \<Rightarrow> Some (if bitno < 32 then v OR push_bit bitno 1 else v))"

definition utils_clear_bit :: "u32 option \<Rightarrow> nat \<Rightarrow> u32 option" where
  "utils_clear_bit val bitno =
     (case val of None \<Rightarrow> None
      | Some v \<Rightarrow> Some (if bitno < 32 then v AND NOT (push_bit bitno 1) else v))"

definition utils_test_bit :: "u32 \<Rightarrow> nat \<Rightarrow> bool" where
  "utils_test_bit val bitno = (if 32 \<le> bitno then False else val AND push_bit bitno 1 \<noteq> 0)"

definition utils_toggle_bit :: "u32 option \<Rightarrow> nat \<Rightarrow> u32 option" where
  "utils_toggle_bit val bitno =
     (case val of None \<Rightarrow> None | Some v \<Rightarrow> Some (if bitno < 32 then v XOR push_bit bitno 1 else v))"

section \<open>Alignment\<close>

definition utils_align_up :: "u32 \<Rightarrow> u32 \<Rightarrow> u32" where
  "utils_align_up val align =
     (if align = 0 then val else (val + align - 1) AND NOT (align - 1))"

definition utils_align_down :: "u32 \<Rightarrow> u32 \<Rightarrow> u32" where
  "utils_align_down val align = (if align = 0 then val else val AND NOT (align - 1))"

definition utils_is_aligned :: "u32 \<Rightarrow> u32 \<Rightarrow> bool" where
  "utils_is_aligned val align = (if align = 0 then True else val mod align = 0)"

section \<open>Arithmetic\<close>

definition utils_min_u32 :: "u32 \<Rightarrow> u32 \<Rightarrow> u32" where
  "utils_min_u32 a b = (if a < b then a else b)"

definition utils_max_u32 :: "u32 \<Rightarrow> u32 \<Rightarrow> u32" where
  "utils_max_u32 a b = (if a > b then a else b)"

text \<open>
  \<open>utils_abs\<close> on an \<open>int32_t\<close> given by its value; negating \<open>INT32_MIN\<close> is a signed overflow,
  so it has no defined result.
\<close>

definition utils_abs :: "int \<Rightarrow> int option" where
  "utils_abs val = (if val < 0 then (if val = - (2 ^ 31) then None else Some (- val)) else Some val)"

function utils_log2_loop :: "u32 \<Rightarrow> u32 \<Rightarrow> u32" where
  "utils_log2_loop val result =
     (if 1 < val then utils_log2_loop (drop_bit 1 val) (result + 1) else result)"
  by pat_completeness auto
termination
proof (relation "measure (\<lambda>(val, result). unat val)")
  fix val result :: u32
  assume "1 < val"
  then have "0 < unat val" by (simp add: word_less_nat_alt)
  then have "unat val div 2 < unat val" by simp
  then show "((drop_bit 1 val, result + 1), (val, result)) \<in> measure (\<lambda>(val, result). unat val)"
    by (simp add: drop_bit_eq_div unat_div)
qed simp

declare utils_log2_loop.simps [simp del]

definition utils_log2 :: "u32 \<Rightarrow> u32" where
  "utils_log2 val = (if val = 0 then 0 else utils_log2_loop val 0)"

section \<open>Bounded copies\<close>

definition utils_memcpy_safe ::
    "u8 list option \<Rightarrow> nat \<Rightarrow> u8 list option \<Rightarrow> nat \<Rightarrow> ret_code \<times> u8 list option" where
  "utils_memcpy_safe dst dst_size src src_size =
     (case (dst, src) of
        (Some d, Some s) \<Rightarrow>
          if dst_size < src_size then (RET_ERR_OVERWRITE, dst)
          else (RET_OK, Some (take src_size s @ drop src_size d))
      | _ \<Rightarrow> (RET_ERR_PARAM, dst))"

text \<open>The scan of \<open>utils_strnlen\<close>; running off the end of the buffer is undefined.\<close>

fun strnlen_scan :: "u8 list \<Rightarrow> nat \<Rightarrow> nat option" where
  "strnlen_scan str 0 = Some 0"
| "strnlen_scan [] (Suc n) = None"
| "strnlen_scan (c # cs) (Suc n) = (if c \<noteq> 0 then map_option Suc (strnlen_scan cs n) else Some 0)"

definition utils_strnlen :: "u8 list option \<Rightarrow> nat \<Rightarrow> nat option" where
  "utils_strnlen str max_len =
     (case str of None \<Rightarrow> Some 0 | Some s \<Rightarrow> strnlen_scan s max_len)"

definition utils_strcpy_safe ::
    "u8 list option \<Rightarrow> nat \<Rightarrow> u8 list option \<Rightarrow> (ret_code \<times> u8 list option) option" where
  "utils_strcpy_safe dst dst_size src =
     (case (dst, src) of
        (Some d, Some s) \<Rightarrow>
          (case utils_strnlen (Some s) dst_size of
             None \<Rightarrow> None
           | Some src_len \<Rightarrow>
               if dst_size \<le> src_len then Some (RET_ERR_OVERWRITE, dst)
               else Some (RET_OK, Some ((take src_len s @ drop src_len d)[src_len := 0])))
      | _ \<Rightarrow> Some (RET_ERR_PARAM, dst))"

section \<open>CRC-32 and CRC-16\<close>

definition g_crc32_table :: "u32 list" where
  "g_crc32_table =
  [0x00000000, 0x77073096, 0xEE0E612C, 0x990951BA, 0x076DC419, 0x706AF48F,
   0xE963A535, 0x9E6495A3, 0x0EDB8832, 0x79DCB8A4, 0xE0D5E91E, 0x97D2D988,
   0x09B64C2B, 0x7EB17CBD, 0xE7B82D07, 0x90BF1D91, 0x1DB71064, 0x6AB020F2,
   0xF3B97148, 0x84BE41DE, 0x1ADAD47D, 0x6DDDE4EB, 0xF4D4B551, 0x83D385C7,
   0x136C9856, 0x646BA8C0, 0xFD62F97A, 0x8A65C9EC, 0x14015C4F, 0x63066CD9,
   0xFA0F3D63, 0x8D080DF5, 0x3B6E20C8, 0x4C69105E, 0xD56041E4, 0xA2677172,
   0x3C03E4D1, 0x4B04D447, 0xD20D85FD, 0xA50AB56B, 0x35B5A8FA, 0x42B2986C,
   0xDBBBC9D6, 0xACBCF940, 0x32D86CE3, 0x45DF5C75, 0xDCD60DCF, 0xABD13D59,
   0x26D930AC, 0x51DE003A, 0xC8D75180, 0xBFD06116, 0x21B4F4B5, 0x56B3C423,
   0xCFBA9599, 0xB8BDA50F, 0x2802B89E, 0x5F058808, 0xC60CD9B2, 0xB10BE924,
   0x2F6F7C87, 0x58684C11, 0xC1611DAB, 0xB6662D3D, 0x76DC4190, 0x01DB7106,
   0x98D220BC, 0xEFD5102A, 0x71B18589, 0x06B6B51F, 0x9FBFE4A5, 0xE8B8D433,
   0x7807C9A2, 0x0F00F934, 0x9609A88E, 0xE10E9818, 0x7F6A0DBB, 0x086D3D2D,
   0x91646C97, 0xE6635C01, 0x6B6B51F4, 0x1C6C6162, 0x856530D8, 0xF262004E,
   0x6C0695ED, 0x1B01A57B, 0x8208F4C1, 0xF50FC457, 0x65B0D9C6, 0x12B7E950,
   0x8BBEB8EA, 0xFCB9887C, 0x62DD1DDF, 0x15DA2D49, 0x8CD37CF3, 0xFBD44C65,
   0x4DB26158, 0x3AB551CE, 0xA3BC0074, 0xD4BB30E2, 0x4ADFA541, 0x3DD895D7,
   0xA4D1C46D, 0xD3D6F4FB, 0x4369E96A, 0x346ED9FC, 0xAD678846, 0xDA60B8D0,
   0x44042D73, 0x33031DE5, 0xAA0A4C5F, 0xDD0D7CC9, 0x5005713C, 0x270241AA,
   0xBE0B1010, 0xC90C2086, 0x5768B525, 0x206F85B3, 0xB966D409, 0xCE61E49F,
   0x5EDEF90E, 0x29D9C998, 0xB0D09822, 0xC7D7A8B4, 0x59B33D17, 0x2EB40D81,
   0xB7BD5C3B, 0xC0BA6CAD, 0xEDB88320, 0x9ABFB3B6, 0x03B6E20C, 0x74B1D29A,
   0xEAD54739, 0x9DD277AF, 0x04DB2615, 0x73DC1683, 0xE3630B12, 0x94643B84,
   0x0D6D6A3E, 0x7A6A5AA8, 0xE40ECF0B, 0x9309FF9D, 0x0A00AE27, 0x7D079EB1,
   0xF00F9344, 0x8708A3D2, 0x1E01F268, 0x6906C2FE, 0xF762575D, 0x806567CB,
   0x196C3671, 0x6E6B06E7, 0xFED41B76, 0x89D32BE0, 0x10DA7A5A, 0x67DD4ACC,
   0xF9B9DF6F, 0x8EBEEFF9, 0x17B7BE43, 0x60B08ED5, 0xD6D6A3E8, 0xA1D1937E,
   0x38D8C2C4, 0x4FDFF252, 0xD1BB67F1, 0xA6BC5767, 0x3FB506DD, 0x48B2364B,
   0xD80D2BDA, 0xAF0A1B4C, 0x36034AF6, 0x41047A60, 0xDF60EFC3, 0xA867DF55,
   0x316E8EEF, 0x4669BE79, 0xCB61B38C, 0xBC66831A, 0x256FD2A0, 0x5268E236,
   0xCC0C7795, 0xBB0B4703, 0x220216B9, 0x5505262F, 0xC5BA3BBE, 0xB2BD0B28,
   0x2BB45A92, 0x5CB36A04, 0xC2D7FFA7, 0xB5D0CF31, 0x2CD99E8B, 0x5BDEAE1D,
   0x9B64C2B0, 0xEC63F226, 0x756AA39C, 0x026D930A, 0x9C0906A9, 0xEB0E363F,
   0x72076785, 0x05005713, 0x95BF4A82, 0xE2B87A14, 0x7BB12BAE, 0x0CB61B38,
   0x92D28E9B, 0xE5D5BE0D, 0x7CDCEFB7, 0x0BDBDF21, 0x86D3D2D4, 0xF1D4E242,
   0x68DDB3F8, 0x1FDA836E, 0x81BE16CD, 0xF6B9265B, 0x6FB077E1, 0x18B74777,
   0x88085AE6, 0xFF0F6A70, 0x66063BCA, 0x11010B5C, 0x8F659EFF, 0xF862AE69,
   0x616BFFD3, 0x166CCF45, 0xA00AE278, 0xD70DD2EE, 0x4E048354, 0x3903B3C2,
   0xA7672661, 0xD06016F7, 0x4969474D, 0x3E6E77DB, 0xAED16A4A, 0xD9D65ADC,
   0x40DF0B66, 0x37D83BF0, 0xA9BCAE53, 0xDEBB9EC5, 0x47B2CF7F, 0x30B5FFE9,
   0xBDBDF21C, 0xCABAC28A, 0x53B39330, 0x24B4A3A6, 0xBAD03605, 0xCDD70693,
   0x54DE5729, 0x23D967BF, 0xB3667A2E, 0xC4614AB8, 0x5D681B02, 0x2A6F2B94,
   0xB40BBE37, 0xC30C8EA1, 0x5A05DF1B, 0x2D02EF8D]"

text \<open>One iteration of the loop over the bytes.\<close>

definition utils_crc32_step :: "u32 \<Rightarrow> u8 \<Rightarrow> u32" where
  "utils_crc32_step crc b =
     g_crc32_table ! unat ((crc XOR ucast b) AND 0xFF) XOR drop_bit 8 crc"

definition utils_crc32 :: "u8 list option \<Rightarrow> nat \<Rightarrow> u32" where
  "utils_crc32 data len =
     (case data of
        None \<Rightarrow> 0
      | Some d \<Rightarrow> if len = 0 then 0
                  else foldl utils_crc32_step 0xFFFFFFFF (take len d) XOR 0xFFFFFFFF)"

definition utils_crc16_bit :: "u16 \<Rightarrow> u16" where
  "utils_crc16_bit crc = (if crc AND 1 \<noteq> 0 then drop_bit 1 crc XOR 0xA001 else drop_bit 1 crc)"

definition utils_crc16_step :: "u16 \<Rightarrow> u8 \<Rightarrow> u16" where
  "utils_crc16_step crc b = (utils_crc16_bit ^^ 8) (crc XOR ucast b)"

definition utils_crc16 :: "u8 list option \<Rightarrow> nat \<Rightarrow> u16" where
  "utils_crc16 data len =
     (case data of
        None \<Rightarrow> 0
      | Some d \<Rightarrow> if len = 0 then 0 else foldl utils_crc16_step 0xFFFF (take len d))"

section \<open>The checksums\<close>

lemma crc32_table_pairs:
  "lfsr_pairs 0xEDB88320 ((lfsr_bit 0xEDB88320 ^^ 8) 1) g_crc32_table g_crc32_table"
  by (simp add: g_crc32_table_def lfsr_bits_8 flip: lfsr_bit_branch)

lemma g_crc32_table_nth: "k < 256 \<Longrightarrow> g_crc32_table ! k = (lfsr_bit 0xEDB88320 ^^ 8) (of_nat k)"
  by (rule lfsr_table_nth [OF crc32_table_pairs]) (simp_all add: g_crc32_table_def)

lemma utils_crc32_step_lfsr: "utils_crc32_step = lfsr_step 0xEDB88320"
  by (intro ext) (simp only: utils_crc32_step_def table_step_is_lfsr_step [OF g_crc32_table_nth])

lemma utils_crc16_step_lfsr: "utils_crc16_step = lfsr_step 0xA001"
proof -
  have "utils_crc16_bit = lfsr_bit 0xA001"
    by (intro ext) (simp only: utils_crc16_bit_def lfsr_bit_branch)
  then show ?thesis
    by (intro ext) (simp only: utils_crc16_step_def lfsr_step_def)
qed

interpretation crc32: byte_checksum utils_crc32_step
  unfolding utils_crc32_step_lfsr by (rule lfsr_step_checksum) simp_all

interpretation crc16: byte_checksum utils_crc16_step
  unfolding utils_crc16_step_lfsr by (rule lfsr_step_checksum) simp_all

text \<open>The reference: the register shifted bit by bit, no table.\<close>

definition crc32_reference :: "u8 list option \<Rightarrow> nat \<Rightarrow> u32" where
  "crc32_reference data len =
     (case data of
        None \<Rightarrow> 0
      | Some d \<Rightarrow> if len = 0 then 0
                  else NOT (foldl (lfsr_step 0xEDB88320) (NOT 0) (take len d)))"

text \<open>
  C40: the table-driven CRC-32 of \<open>utils_crc32\<close> computes, on every buffer and length
  (\<open>NULL\<close> and zero length included), the value of the bit-by-bit reflected register with
  polynomial \<open>0xEDB88320\<close>; the 256 entries of the table are verified on the way.
\<close>

theorem utils_crc32_is_bitwise: "utils_crc32 data len = crc32_reference data len"
proof -
  have ones: "(0xFFFFFFFF :: u32) = NOT 0"
    by simp
  show ?thesis
    unfolding utils_crc32_def ones
    by (simp add: crc32_reference_def utils_crc32_step_lfsr split: option.split)
qed

text \<open>
  Both CRCs detect the corruption of any single byte of the covered range.
\<close>

theorem utils_crc_detects_byte:
  assumes "i < len" and "len \<le> length d" and "d ! i \<noteq> b"
  shows "utils_crc32 (Some (d[i := b])) len \<noteq> utils_crc32 (Some d) len
    \<and> utils_crc16 (Some (d[i := b])) len \<noteq> utils_crc16 (Some d) len"
proof -
  have take: "take len (d[i := b]) = (take len d)[i := b]"
    by (simp add: take_update_swap)
  have "i < length (take len d)" "take len d ! i \<noteq> b"
    using assms by simp_all
  then show ?thesis
    using crc32.absorb_list_update crc16.absorb_list_update assms(1)
    by (simp add: utils_crc32_def utils_crc16_def take)
qed

theorem utils_crc_detects_byte_witness:
  "utils_crc32 (Some ([1, 2, 3][1 := 7])) 3 \<noteq> utils_crc32 (Some [1, 2, 3]) 3
    \<and> utils_crc16 (Some ([1, 2, 3][1 := 7])) 3 \<noteq> utils_crc16 (Some [1, 2, 3]) 3"
  by (rule utils_crc_detects_byte) simp_all

section \<open>Alignment and logarithm\<close>

lemma mask_and: "x AND NOT (2 ^ k - 1) = push_bit k (drop_bit k x)" for x :: u32
proof -
  have "2 ^ k - 1 = (mask k :: u32)" by (simp add: mask_eq_exp_minus_1 push_bit_eq_mult)
  then show ?thesis
    by (auto simp: bit_simps intro!: bit_word_eqI)
qed

lemma unat_two_power: "k < 32 \<Longrightarrow> unat ((2 :: u32) ^ k) = 2 ^ k"
proof -
  assume "k < 32"
  then have "(2 :: nat) ^ k < 2 ^ 32" by (intro power_strict_increasing) simp_all
  moreover have "(2 :: u32) ^ k = of_nat (2 ^ k)" by simp
  ultimately show "unat ((2 :: u32) ^ k) = 2 ^ k" by (simp only: unat_of_nat) simp
qed

lemma two_power_nonzero: "k < 32 \<Longrightarrow> (2 :: u32) ^ k \<noteq> 0"
  by (metis unat_two_power unat_0 power_not_zero zero_neq_numeral)

lemma unat_round_down:
  fixes x :: u32
  assumes "k < 32"
  shows "unat (push_bit k (drop_bit k x)) = unat x div 2 ^ k * 2 ^ k"
proof -
  have "unat x div 2 ^ k * 2 ^ k < 2 ^ 32"
    by (rule le_less_trans [OF div_times_less_eq_dividend]) (use unsigned_less [of x] in simp)
  moreover have "unat x div 2 ^ k < 2 ^ 32"
    by (rule le_less_trans [OF div_le_dividend]) (use unsigned_less [of x] in simp)
  ultimately show ?thesis using assms
    by (simp add: push_bit_eq_mult drop_bit_eq_div unat_word_ariths unat_div unat_two_power mult.commute)
qed

lemma utils_align_down_unat: "k < 32 \<Longrightarrow> unat (utils_align_down val (2 ^ k)) = unat val div 2 ^ k * 2 ^ k"
  by (simp only: utils_align_down_def two_power_nonzero if_False mask_and unat_round_down simp_thms)

lemma utils_align_up_unat:
  assumes "k < 32"
  shows "unat (utils_align_up val (2 ^ k)) = ((unat val + 2 ^ k - 1) mod 2 ^ 32) div 2 ^ k * 2 ^ k"
proof -
  have "val + 2 ^ k - 1 = of_nat (unat val + 2 ^ k - 1)"
    by (subst of_nat_diff) (simp_all add: trans_le_add2)
  then have "unat (val + 2 ^ k - 1) = (unat val + 2 ^ k - 1) mod 2 ^ 32"
    by (simp only: unat_of_nat) simp
  with assms show ?thesis
    by (simp only: utils_align_up_def two_power_nonzero if_False mask_and unat_round_down simp_thms)
qed

text \<open>
  With a power of two as alignment, \<open>utils_align_up\<close> is the least multiple that is not
  below the value, as long as that multiple is representable, and \<open>utils_align_down\<close> is the
  greatest multiple that is not above it.
\<close>

theorem utils_align_up_least:
  assumes "k < 32" and "unat val + 2 ^ k \<le> 2 ^ 32"
  shows "2 ^ k dvd unat (utils_align_up val (2 ^ k))
    \<and> unat val \<le> unat (utils_align_up val (2 ^ k))
    \<and> unat (utils_align_up val (2 ^ k)) < unat val + 2 ^ k
    \<and> 2 ^ k dvd unat (utils_align_down val (2 ^ k))
    \<and> unat (utils_align_down val (2 ^ k)) \<le> unat val
    \<and> unat val < unat (utils_align_down val (2 ^ k)) + 2 ^ k"
proof -
  let ?b = "2 ^ k :: nat" and ?v = "unat val"
  have b: "0 < ?b" by simp
  have "?v + ?b - 1 < 2 ^ 32" using assms(2) by simp
  then have "unat (utils_align_up val (2 ^ k)) = (?v + ?b - 1) div ?b * ?b"
    using assms(1) by (simp add: utils_align_up_unat)
  moreover have "?v \<le> (?v + ?b - 1) div ?b * ?b" "(?v + ?b - 1) div ?b * ?b < ?v + ?b"
    using dividend_less_div_times [OF b, of "?v + ?b - 1"] div_times_less_eq_dividend [of "?v + ?b - 1" ?b]
      one_le_power [of "2 :: nat" k] by linarith+
  moreover have "?v div ?b * ?b \<le> ?v" "?v < ?v div ?b * ?b + ?b"
    using dividend_less_div_times [OF b, of ?v] div_times_less_eq_dividend [of ?v ?b] by linarith+
  ultimately show ?thesis
    using assms(1) by (simp add: utils_align_down_unat)
qed

theorem utils_align_up_least_witness:
  "2 ^ 12 dvd unat (utils_align_up 5000 (2 ^ 12))
    \<and> unat (5000 :: u32) \<le> unat (utils_align_up 5000 (2 ^ 12))
    \<and> unat (utils_align_up 5000 (2 ^ 12)) < unat (5000 :: u32) + 2 ^ 12
    \<and> 2 ^ 12 dvd unat (utils_align_down 5000 (2 ^ 12))
    \<and> unat (utils_align_down 5000 (2 ^ 12)) \<le> unat (5000 :: u32)
    \<and> unat (5000 :: u32) < unat (utils_align_down 5000 (2 ^ 12)) + 2 ^ 12"
  by (rule utils_align_up_least) simp_all

lemma utils_log2_loop_bounds:
  "0 < unat val \<Longrightarrow>
   \<exists>e. utils_log2_loop val result = result + of_nat e \<and> 2 ^ e \<le> unat val \<and> unat val < 2 ^ (e + 1)"
proof (induction val result rule: utils_log2_loop.induct)
  case (1 val result)
  show ?case
  proof (cases "1 < val")
    case True
    let ?w = "drop_bit 1 val"
    have w: "unat ?w = unat val div 2" by (simp add: unat_div drop_bit_eq_div)
    have "1 < unat val" using True by (simp add: word_less_nat_alt)
    then have "0 < unat ?w" unfolding w by simp
    from "1.IH" [OF True this] obtain e where "utils_log2_loop ?w (result + 1) = result + 1 + of_nat e"
      "2 ^ e \<le> unat val div 2" "unat val div 2 < 2 ^ (e + 1)"
      by (auto simp only: w)
    then have "utils_log2_loop val result = result + of_nat (Suc e)"
      "2 ^ Suc e \<le> unat val" "unat val < 2 ^ (Suc e + 1)"
      using True by (simp_all add: utils_log2_loop.simps [of val] algebra_simps)
    then show ?thesis by blast
  next
    case False
    then have "unat val = 1" using "1.prems"(1) by (simp add: word_less_nat_alt)
    with False show ?thesis
      by (intro exI [of _ 0]) (simp add: utils_log2_loop.simps [of val])
  qed
qed

text \<open>
  \<open>utils_log2\<close> terminates and returns the floor of the binary logarithm of every
  non-zero value.
\<close>

theorem utils_log2_floor:
  assumes "val \<noteq> 0"
  shows "2 ^ unat (utils_log2 val) \<le> unat val \<and> unat val < 2 ^ (unat (utils_log2 val) + 1)"
proof -
  have "0 < unat val" using assms by (simp add: unat_gt_0)
  from utils_log2_loop_bounds [OF this, of 0] obtain e where
    e: "utils_log2_loop val 0 = of_nat e" "2 ^ e \<le> unat val" "unat val < 2 ^ (e + 1)" by auto
  have "unat val < 2 ^ 32" using unsigned_less [of val, where 'a = nat] by simp
  with e(2) less_exp [of e] have "e < 2 ^ 32" by linarith
  then have "unat (of_nat e :: u32) = e" by (simp add: unat_of_nat)
  with e assms show ?thesis by (simp add: utils_log2_def)
qed


theorem utils_log2_floor_witness:
  "2 ^ unat (utils_log2 1000) \<le> unat (1000 :: u32)
    \<and> unat (1000 :: u32) < 2 ^ (unat (utils_log2 1000) + 1)"
  by (rule utils_log2_floor) simp

section \<open>The bounded string copy\<close>

lemma strnlen_scan_facts:
  "strnlen_scan s n = Some k \<Longrightarrow>
   k \<le> n \<and> k \<le> length s \<and> (\<forall>i<k. s ! i \<noteq> 0) \<and> (k < n \<longrightarrow> k < length s \<and> s ! k = 0)"
proof (induction s n arbitrary: k rule: strnlen_scan.induct)
  case (3 c cs n)
  then show ?case
    by (cases k) (auto simp: nth_Cons split: if_splits nat.splits)
qed auto

lemma strnlen_scan_intro:
  "k < n \<Longrightarrow> k < length s \<Longrightarrow> \<forall>i<k. s ! i \<noteq> 0 \<Longrightarrow> s ! k = 0 \<Longrightarrow> strnlen_scan s n = Some k"
proof (induction s n arbitrary: k rule: strnlen_scan.induct)
  case (3 c cs n)
  show ?case
  proof (cases k)
    case 0
    with "3.prems" show ?thesis by simp
  next
    case (Suc m)
    with "3.prems" have "c \<noteq> 0" "\<forall>i<m. cs ! i \<noteq> 0" by force+
    with "3.prems" "3.IH" [of m] Suc show ?thesis by simp
  qed
qed auto

text \<open>
  A successful \<open>utils_strcpy_safe\<close> leaves a terminated copy of the source string in the
  destination, strictly inside \<open>dst_size\<close>, and writes nothing behind the terminator.
\<close>

theorem utils_strcpy_safe_copies:
  assumes copied: "utils_strcpy_safe (Some d) n (Some s) = Some (RET_OK, Some d')"
    and room: "n \<le> length d"
  shows "\<exists>k<n. utils_strnlen (Some s) n = Some k \<and> utils_strnlen (Some d') n = Some k
    \<and> take k d' = take k s \<and> d' ! k = 0 \<and> drop (Suc k) d' = drop (Suc k) d \<and> length d' = length d"
proof -
  from copied obtain k where k: "strnlen_scan s n = Some k" "k < n"
    and d': "d' = (take k s @ drop k d)[k := 0]"
    by (auto simp: utils_strcpy_safe_def utils_strnlen_def split: option.splits if_splits)
  note facts = strnlen_scan_facts [OF k(1)]
  then have len: "length (take k s) = k" by simp
  with d' k(2) room have "length d' = length d" "take k d' = take k s" "d' ! k = 0"
    "drop (Suc k) d' = drop (Suc k) d"
    by (simp_all add: take_update_cancel drop_update_cancel)
  moreover have "\<forall>i<k. d' ! i \<noteq> 0"
    using facts d' len by (simp add: nth_append)
  ultimately show ?thesis
    using k strnlen_scan_intro [of k n d'] room
    by (intro exI [of _ k]) (simp add: utils_strnlen_def)
qed

theorem utils_strcpy_safe_copies_witness:
  "\<exists>k<4. utils_strnlen (Some [65, 66, 0]) 4 = Some k \<and> utils_strnlen (Some [65, 66, 0, 9]) 4 = Some k
    \<and> take k [65, 66, 0, 9] = take k ([65, 66, 0] :: u8 list) \<and> ([65, 66, 0, 9] :: u8 list) ! k = 0
    \<and> drop (Suc k) [65, 66, 0, 9] = drop (Suc k) ([7, 7, 7, 9] :: u8 list)
    \<and> length [65, 66, 0, 9 :: u8] = length [7, 7, 7, 9 :: u8]"
proof (rule utils_strcpy_safe_copies)
  show "utils_strcpy_safe (Some [7, 7, 7, 9]) 4 (Some [65, 66, 0]) = Some (RET_OK, Some [65, 66, 0, 9])"
    by code_simp
qed simp

end
