(* ===== verification/MsgQueue.thy ===== *)
theory MsgQueue
  imports Prelude "HOL-Library.Multiset"
begin

text \<open>
  The message queues between the firmware modules, \<open>ipc/msg_queue.h\<close> and
  \<open>ipc/msg_queue.c\<close>.  A queue is a linked list of heap nodes with a head and a tail
  pointer, kept by descending priority.  The model keeps the pointers: nodes live in a heap
  \<open>mq_heap\<close>, \<open>malloc\<close> hands out the addresses in increasing order and fails when the
  environment says so, \<open>free\<close> removes a node, and following a pointer to a node that is not
  allocated has no defined result.  The abstraction \<open>queue_at\<close> relates a queue to the list of
  its messages.
\<close>

section \<open>Data\<close>

datatype msg_type =
    MSG_TYPE_NAND_READ | MSG_TYPE_NAND_WRITE | MSG_TYPE_NAND_ERASE
  | MSG_TYPE_NAND_READ_RESP | MSG_TYPE_NAND_WRITE_RESP | MSG_TYPE_NAND_ERASE_RESP
  | MSG_TYPE_FTL_READ | MSG_TYPE_FTL_WRITE | MSG_TYPE_FTL_TRIM
  | MSG_TYPE_FTL_READ_RESP | MSG_TYPE_FTL_WRITE_RESP | MSG_TYPE_FTL_TRIM_RESP
  | MSG_TYPE_HOST_CMD | MSG_TYPE_HOST_CMD_COMPLETE
  | MSG_TYPE_MGR_HEALTH_CHECK | MSG_TYPE_MGR_ERROR_REPORT | MSG_TYPE_MGR_CONFIG
  | MSG_TYPE_LOG_WRITE

datatype msg_priority =
  MSG_PRIORITY_LOW | MSG_PRIORITY_NORMAL | MSG_PRIORITY_HIGH | MSG_PRIORITY_URGENT

fun priority_value :: "msg_priority \<Rightarrow> nat" where
  "priority_value MSG_PRIORITY_LOW = 0"
| "priority_value MSG_PRIORITY_NORMAL = 1"
| "priority_value MSG_PRIORITY_HIGH = 2"
| "priority_value MSG_PRIORITY_URGENT = 3"

instantiation msg_priority :: linorder
begin

definition less_eq_msg_priority :: "msg_priority \<Rightarrow> msg_priority \<Rightarrow> bool" where
  "less_eq_msg_priority a b \<longleftrightarrow> priority_value a \<le> priority_value b"

definition less_msg_priority :: "msg_priority \<Rightarrow> msg_priority \<Rightarrow> bool" where
  "less_msg_priority a b \<longleftrightarrow> priority_value a < priority_value b"

instance
proof
  fix x y :: msg_priority
  show "x \<le> y \<Longrightarrow> y \<le> x \<Longrightarrow> x = y"
    by (cases x; cases y) (simp_all add: less_eq_msg_priority_def)
qed (auto simp: less_eq_msg_priority_def less_msg_priority_def)

end

text \<open>Module numbers are the values of \<open>module_id_t\<close>; larger values can be passed in.\<close>

definition MODULE_MAX :: nat where
  "MODULE_MAX = 5"

record msg_header =
  hdr_type :: msg_type
  hdr_priority :: msg_priority
  hdr_src_module :: nat
  hdr_dst_module :: nat
  hdr_msg_id :: u32
  hdr_timestamp :: u32
  hdr_data_len :: u32

text \<open>The payload union is kept as its bytes; the queue copies it and never looks inside.\<close>

record message =
  msg_hdr :: msg_header
  msg_data :: "u8 list"

abbreviation msg_prio :: "message \<Rightarrow> msg_priority" where
  "msg_prio m \<equiv> hdr_priority (msg_hdr m)"

record msg_node =
  node_msg :: message
  node_next :: "nat option"

record msg_queue =
  q_head :: "nat option"
  q_tail :: "nat option"
  q_count :: u32
  q_max_size :: u32
  q_is_initialized :: bool

record mq_state =
  mq_heap :: "nat \<rightharpoonup> msg_node"
  mq_brk :: nat
  mq_malloc_fails :: "nat \<Rightarrow> bool"
  mq_queues :: "nat \<Rightarrow> msg_queue"
  mq_msg_id_counter :: u32
  mq_clock :: u32

section \<open>Operations\<close>

definition get_timestamp_ms :: "mq_state \<Rightarrow> u32 \<times> mq_state" where
  "get_timestamp_ms s = (mq_clock s, s\<lparr>mq_clock := mq_clock s + 1\<rparr>)"

definition create_node :: "mq_state \<Rightarrow> message option \<Rightarrow> nat option \<times> mq_state" where
  "create_node s msg =
     (case msg of
        None \<Rightarrow> (None, s)
      | Some m \<Rightarrow>
          let a = mq_brk s; s = s\<lparr>mq_brk := Suc a\<rparr> in
          if mq_malloc_fails s a then (None, s)
          else (Some a, s\<lparr>mq_heap := (mq_heap s)(a \<mapsto> \<lparr>node_msg = m, node_next = None\<rparr>)\<rparr>))"

definition destroy_node :: "mq_state \<Rightarrow> nat option \<Rightarrow> mq_state option" where
  "destroy_node s node =
     (case node of
        None \<Rightarrow> Some s
      | Some a \<Rightarrow> if a \<in> dom (mq_heap s) then Some (s\<lparr>mq_heap := (mq_heap s)(a := None)\<rparr>)
                  else None)"

abbreviation upd_queue :: "nat \<Rightarrow> (msg_queue \<Rightarrow> msg_queue) \<Rightarrow> mq_state \<Rightarrow> mq_state" where
  "upd_queue i f s \<equiv> s\<lparr>mq_queues := (mq_queues s)(i := f (mq_queues s i))\<rparr>"

abbreviation set_next :: "nat \<Rightarrow> nat option \<Rightarrow> (nat \<rightharpoonup> msg_node) \<Rightarrow> (nat \<rightharpoonup> msg_node)" where
  "set_next a p h \<equiv> h(a := map_option (\<lambda>n. n\<lparr>node_next := p\<rparr>) (h a))"

definition msg_queue_init :: "mq_state \<Rightarrow> nat \<Rightarrow> u32 \<Rightarrow> ret_code \<times> mq_state" where
  "msg_queue_init s module_id queue_size =
     (if MODULE_MAX \<le> module_id then (RET_ERR_PARAM, s)
      else if queue_size = 0 then (RET_ERR_PARAM, s)
      else (RET_OK, upd_queue module_id (\<lambda>_. \<lparr>q_head = None, q_tail = None, q_count = 0,
               q_max_size = queue_size, q_is_initialized = True\<rparr>) s))"

text \<open>The loop shared by \<open>msg_queue_deinit\<close> and \<open>msg_queue_clear\<close>: free every node.\<close>

partial_function (option) free_nodes :: "mq_state \<Rightarrow> nat option \<Rightarrow> mq_state option" where
  "free_nodes s node =
     (case node of
        None \<Rightarrow> Some s
      | Some a \<Rightarrow>
          (case mq_heap s a of
             None \<Rightarrow> None
           | Some n \<Rightarrow>
               (case destroy_node s (Some a) of
                  None \<Rightarrow> None
                | Some s' \<Rightarrow> free_nodes s' (node_next n))))"

definition msg_queue_deinit :: "mq_state \<Rightarrow> nat \<Rightarrow> (ret_code \<times> mq_state) option" where
  "msg_queue_deinit s module_id =
     (if MODULE_MAX \<le> module_id then Some (RET_ERR_PARAM, s)
      else if \<not> q_is_initialized (mq_queues s module_id) then Some (RET_ERR_NOT_INIT, s)
      else do {
        s \<leftarrow> free_nodes s (q_head (mq_queues s module_id));
        Some (RET_OK, upd_queue module_id (\<lambda>_. \<lparr>q_head = None, q_tail = None, q_count = 0,
                q_max_size = 0, q_is_initialized = False\<rparr>) s)
      })"

text \<open>
  The search of \<open>msg_queue_send\<close>: step over the nodes whose priority is not below the new
  one; the result is the pair of pointers \<open>prev\<close> and \<open>cur\<close>.
\<close>

partial_function (option) find_slot ::
    "mq_state \<Rightarrow> msg_priority \<Rightarrow> nat option \<times> nat option \<Rightarrow> (nat option \<times> nat option) option"
where
  "find_slot s new_prio slot =
     (case snd slot of
        None \<Rightarrow> Some slot
      | Some a \<Rightarrow>
          (case mq_heap s a of
             None \<Rightarrow> None
           | Some n \<Rightarrow> if new_prio \<le> msg_prio (node_msg n)
                       then find_slot s new_prio (Some a, node_next n)
                       else Some slot))"

text \<open>The insertion of node \<open>a\<close> into a queue that is not empty.\<close>

definition link_node :: "mq_state \<Rightarrow> nat \<Rightarrow> nat \<Rightarrow> nat option \<times> nat option \<Rightarrow> mq_state option" where
  "link_node s i a slot =
     (case slot of
        (None, cur) \<Rightarrow>
          Some (upd_queue i (\<lambda>q. q\<lparr>q_head := Some a\<rparr>)
                 (s\<lparr>mq_heap := set_next a (q_head (mq_queues s i)) (mq_heap s)\<rparr>))
      | (Some prev, None) \<Rightarrow>
          (case q_tail (mq_queues s i) of
             None \<Rightarrow> None
           | Some t \<Rightarrow> if t \<in> dom (mq_heap s)
                       then Some (upd_queue i (\<lambda>q. q\<lparr>q_tail := Some a\<rparr>)
                                   (s\<lparr>mq_heap := set_next t (Some a) (mq_heap s)\<rparr>))
                       else None)
      | (Some prev, Some cur) \<Rightarrow>
          Some (s\<lparr>mq_heap := set_next prev (Some a) (set_next a (Some cur) (mq_heap s))\<rparr>))"

definition stamp :: "u32 \<Rightarrow> u32 \<Rightarrow> message \<Rightarrow> message" where
  "stamp i t m = m\<lparr>msg_hdr := (msg_hdr m)\<lparr>hdr_msg_id := i, hdr_timestamp := t\<rparr>\<rparr>"

definition msg_queue_send :: "mq_state \<Rightarrow> message option \<Rightarrow> (ret_code \<times> mq_state) option" where
  "msg_queue_send s msg =
     (case msg of
        None \<Rightarrow> Some (RET_ERR_PARAM, s)
      | Some m \<Rightarrow>
          let dst = hdr_dst_module (msg_hdr m) in
          if MODULE_MAX \<le> dst then Some (RET_ERR_PARAM, s)
          else if \<not> q_is_initialized (mq_queues s dst) then Some (RET_ERR_NOT_INIT, s)
          else if q_max_size (mq_queues s dst) \<le> q_count (mq_queues s dst)
          then Some (RET_ERR_NO_SPACE, s)
          else
            (case create_node s (Some m) of
               (None, s) \<Rightarrow> Some (RET_ERR_INTERNAL, s)
             | (Some a, s) \<Rightarrow> do {
                 let i = mq_msg_id_counter s;
                 let s = s\<lparr>mq_msg_id_counter := i + 1\<rparr>;
                 let (t, s) = get_timestamp_ms s;
                 let s = s\<lparr>mq_heap := (mq_heap s)(a := map_option
                            (\<lambda>n. n\<lparr>node_msg := stamp i t (node_msg n)\<rparr>) (mq_heap s a))\<rparr>;
                 s \<leftarrow> (case q_head (mq_queues s dst) of
                         None \<Rightarrow> Some (upd_queue dst (\<lambda>q. q\<lparr>q_head := Some a, q_tail := Some a\<rparr>) s)
                       | Some h \<Rightarrow> do {
                           slot \<leftarrow> find_slot s (msg_prio m) (None, Some h);
                           link_node s dst a slot
                         });
                 Some (RET_OK, upd_queue dst (\<lambda>q. q\<lparr>q_count := q_count q + 1\<rparr>) s)
               }))"

text \<open>
  \<open>msg_queue_recv\<close>: the flag says whether the output pointer is not \<open>NULL\<close>; the received
  message is the second component.
\<close>

definition msg_queue_recv ::
    "mq_state \<Rightarrow> nat \<Rightarrow> bool \<Rightarrow> (ret_code \<times> message option \<times> mq_state) option" where
  "msg_queue_recv s module_id has_buf =
     (if MODULE_MAX \<le> module_id then Some (RET_ERR_PARAM, None, s)
      else if \<not> has_buf then Some (RET_ERR_PARAM, None, s)
      else if \<not> q_is_initialized (mq_queues s module_id) then Some (RET_ERR_NOT_INIT, None, s)
      else if q_count (mq_queues s module_id) = 0 then Some (RET_ERR_BUSY, None, s)
      else do {
        a \<leftarrow> q_head (mq_queues s module_id);
        n \<leftarrow> mq_heap s a;
        let s = upd_queue module_id (\<lambda>q. q\<lparr>q_head := node_next n, q_count := q_count q - 1\<rparr>) s;
        let s = (if q_head (mq_queues s module_id) = None
                 then upd_queue module_id (\<lambda>q. q\<lparr>q_tail := None\<rparr>) s else s);
        s \<leftarrow> destroy_node s (Some a);
        Some (RET_OK, Some (node_msg n), s)
      })"

text \<open>The polling loop of the blocking receive; \<open>waited\<close> counts the failed polls.\<close>

function recv_poll ::
    "mq_state \<Rightarrow> nat \<Rightarrow> nat \<Rightarrow> nat \<Rightarrow> (ret_code \<times> message option \<times> mq_state) option" where
  "recv_poll s module_id timeout_ms waited =
     (case msg_queue_recv s module_id True of
        None \<Rightarrow> None
      | Some (ret, m, s') \<Rightarrow>
          if ret = RET_OK then Some (RET_OK, m, s')
          else if 0 < timeout_ms then
            (if timeout_ms \<le> waited + 1 then Some (RET_ERR_TIMEOUT, None, s')
             else recv_poll s' module_id timeout_ms (waited + 1))
          else Some (ret, None, s'))"
  by pat_completeness auto
termination
  by (relation "measure (\<lambda>(s, module_id, timeout_ms, waited). timeout_ms - waited)") auto

declare recv_poll.simps [simp del]

definition msg_queue_recv_blocking ::
    "mq_state \<Rightarrow> nat \<Rightarrow> bool \<Rightarrow> nat \<Rightarrow> (ret_code \<times> message option \<times> mq_state) option" where
  "msg_queue_recv_blocking s module_id has_buf timeout_ms =
     (if MODULE_MAX \<le> module_id then Some (RET_ERR_PARAM, None, s)
      else if \<not> has_buf then Some (RET_ERR_PARAM, None, s)
      else if \<not> q_is_initialized (mq_queues s module_id) then Some (RET_ERR_NOT_INIT, None, s)
      else recv_poll s module_id timeout_ms 0)"

definition msg_queue_get_count :: "mq_state \<Rightarrow> nat \<Rightarrow> u32" where
  "msg_queue_get_count s module_id =
     (if MODULE_MAX \<le> module_id then 0
      else if \<not> q_is_initialized (mq_queues s module_id) then 0
      else q_count (mq_queues s module_id))"

definition msg_queue_is_empty :: "mq_state \<Rightarrow> nat \<Rightarrow> bool" where
  "msg_queue_is_empty s module_id =
     (if MODULE_MAX \<le> module_id then True
      else if \<not> q_is_initialized (mq_queues s module_id) then True
      else q_count (mq_queues s module_id) = 0)"

definition msg_queue_is_full :: "mq_state \<Rightarrow> nat \<Rightarrow> bool" where
  "msg_queue_is_full s module_id =
     (if MODULE_MAX \<le> module_id then True
      else if \<not> q_is_initialized (mq_queues s module_id) then True
      else q_max_size (mq_queues s module_id) \<le> q_count (mq_queues s module_id))"

definition msg_queue_clear :: "mq_state \<Rightarrow> nat \<Rightarrow> (ret_code \<times> mq_state) option" where
  "msg_queue_clear s module_id =
     (if MODULE_MAX \<le> module_id then Some (RET_ERR_PARAM, s)
      else if \<not> q_is_initialized (mq_queues s module_id) then Some (RET_ERR_NOT_INIT, s)
      else do {
        s \<leftarrow> free_nodes s (q_head (mq_queues s module_id));
        Some (RET_OK, upd_queue module_id (\<lambda>q. q\<lparr>q_head := None, q_tail := None, q_count := 0\<rparr>) s)
      })"

section \<open>Linked lists in the heap\<close>

text \<open>\<open>lseg h p as r\<close>: starting at pointer \<open>p\<close>, the nodes \<open>as\<close> are linked and lead to \<open>r\<close>.\<close>

fun lseg :: "(nat \<rightharpoonup> msg_node) \<Rightarrow> nat option \<Rightarrow> nat list \<Rightarrow> nat option \<Rightarrow> bool" where
  "lseg h p [] r \<longleftrightarrow> p = r"
| "lseg h p (a # as) r \<longleftrightarrow>
     p = Some a \<and> (case h a of None \<Rightarrow> False | Some n \<Rightarrow> lseg h (node_next n) as r)"

definition contents :: "(nat \<rightharpoonup> msg_node) \<Rightarrow> nat list \<Rightarrow> message list" where
  "contents h as = map (\<lambda>a. node_msg (the (h a))) as"

lemma contents_simps [simp]:
  "contents h [] = []"
  "contents h (a # as) = node_msg (the (h a)) # contents h as"
  "contents h (as @ bs) = contents h as @ contents h bs"
  by (simp_all add: contents_def)

lemma length_contents [simp]: "length (contents h as) = length as"
  by (simp add: contents_def)

lemma lseg_append: "lseg h p (as @ bs) r \<longleftrightarrow> (\<exists>q. lseg h p as q \<and> lseg h q bs r)"
  by (induction as arbitrary: p) (auto split: option.splits)

lemma lseg_cong:
  assumes "\<And>a. a \<in> set as \<Longrightarrow> map_option node_next (h' a) = map_option node_next (h a)"
  shows "lseg h' p as r \<longleftrightarrow> lseg h p as r"
  using assms
proof (induction as arbitrary: p)
  case (Cons a as)
  from Cons.prems [of a] have "map_option node_next (h' a) = map_option node_next (h a)" by simp
  with Cons show ?case by (cases "h a"; cases "h' a") simp_all
qed simp

lemma lseg_dom: "lseg h p as r \<Longrightarrow> set as \<subseteq> dom h"
  by (induction as arbitrary: p) (auto split: option.splits)

lemma lseg_head: "lseg h p as r \<Longrightarrow> p = (if as = [] then r else Some (hd as))"
  by (cases as) auto

lemma contents_cong:
  assumes "\<And>a. a \<in> set as \<Longrightarrow> map_option node_msg (h' a) = map_option node_msg (h a)"
    and "set as \<subseteq> dom h"
  shows "contents h' as = contents h as"
  unfolding contents_def
proof (rule map_cong [OF refl])
  fix a assume "a \<in> set as"
  with assms(1) [of a] assms(2) show "node_msg (the (h' a)) = node_msg (the (h a))"
    by (cases "h a"; cases "h' a") auto
qed

text \<open>Redirecting the last pointer of a segment.\<close>

lemma lseg_redirect:
  assumes "lseg h p (xs @ [l]) r" and "l \<notin> set xs"
  shows "lseg (set_next l q h) p (xs @ [l]) q"
proof -
  from assms obtain n where "lseg h p xs (Some l)" "h l = Some n"
    by (auto simp: lseg_append split: option.splits)
  moreover from assms(2) have "lseg (set_next l q h) p xs (Some l) = lseg h p xs (Some l)"
    by (intro lseg_cong) auto
  ultimately show ?thesis by (auto simp: lseg_append)
qed

lemma set_next_node_msg [simp]:
  "map_option node_msg (set_next a q h b) = map_option node_msg (h b)"
  by (simp add: option.map_comp o_def)

lemma dom_set_next [simp]: "dom (set_next a q h) = dom h"
  by (auto simp: dom_def)

lemma lseg_set_next_other:
  "a \<notin> set as \<Longrightarrow> lseg (set_next a q h) p as r \<longleftrightarrow> lseg h p as r"
  by (rule lseg_cong) auto

lemma free_nodes_frees:
  "lseg (mq_heap s) p as None \<Longrightarrow> distinct as \<Longrightarrow>
   free_nodes s p = Some (s\<lparr>mq_heap := mq_heap s |` (- set as)\<rparr>)"
proof (induction as arbitrary: s p)
  case Nil
  then show ?case by (simp add: free_nodes.simps)
next
  case (Cons a as)
  then obtain n where n: "p = Some a" "mq_heap s a = Some n"
      "lseg (mq_heap s) (node_next n) as None"
    by (auto split: option.splits)
  have "lseg ((mq_heap s)(a := None)) (node_next n) as None"
    using n(3) Cons.prems(2) by (subst lseg_cong [where h = "mq_heap s"]) auto
  then have "free_nodes (s\<lparr>mq_heap := (mq_heap s)(a := None)\<rparr>) (node_next n) =
        Some (s\<lparr>mq_heap := ((mq_heap s)(a := None)) |` (- set as)\<rparr>)"
    using Cons.IH [of "s\<lparr>mq_heap := (mq_heap s)(a := None)\<rparr>" "node_next n"] Cons.prems(2)
    by (simp del: fun_upd_apply)
  moreover have "((mq_heap s)(a := None)) |` (- set as) = mq_heap s |` (- set (a # as))"
    by (rule ext) (auto simp: restrict_map_def)
  ultimately show ?case
    using n by (subst free_nodes.simps) (simp add: destroy_node_def domI)
qed

section \<open>What a queue holds\<close>

text \<open>Insertion by priority, behind the messages of the same priority.\<close>

definition enqueue_prio :: "message \<Rightarrow> message list \<Rightarrow> message list" where
  "enqueue_prio m q =
     takeWhile (\<lambda>x. msg_prio m \<le> msg_prio x) q @ m # dropWhile (\<lambda>x. msg_prio m \<le> msg_prio x) q"

definition urgency :: "message \<Rightarrow> nat" where
  "urgency m = 3 - priority_value (msg_prio m)"

lemma urgency_le [simp]: "urgency x \<le> urgency y \<longleftrightarrow> msg_prio y \<le> msg_prio x"
  by (cases "msg_prio x"; cases "msg_prio y") (simp_all add: urgency_def less_eq_msg_priority_def)

lemma urgency_less [simp]: "urgency x < urgency y \<longleftrightarrow> msg_prio y < msg_prio x"
  by (simp only: not_le [symmetric] urgency_le)

text \<open>The queue of module \<open>i\<close> is the linked list of the nodes \<open>as\<close>.\<close>

definition queue_ok :: "mq_state \<Rightarrow> nat \<Rightarrow> nat list \<Rightarrow> bool" where
  "queue_ok s i as \<longleftrightarrow>
     lseg (mq_heap s) (q_head (mq_queues s i)) as None \<and> distinct as \<and>
     q_tail (mq_queues s i) = (if as = [] then None else Some (last as)) \<and>
     unat (q_count (mq_queues s i)) = length as \<and>
     (q_is_initialized (mq_queues s i) \<longrightarrow> q_count (mq_queues s i) \<le> q_max_size (mq_queues s i)) \<and>
     sorted (map urgency (contents (mq_heap s) as)) \<and>
     (\<forall>a\<in>set as. a < mq_brk s)"

definition mq_inv :: "mq_state \<Rightarrow> (nat \<Rightarrow> nat list) \<Rightarrow> bool" where
  "mq_inv s own \<longleftrightarrow>
     (\<forall>i<MODULE_MAX. queue_ok s i (own i)) \<and>
     (\<forall>i<MODULE_MAX. \<forall>j<MODULE_MAX. i \<noteq> j \<longrightarrow> set (own i) \<inter> set (own j) = {})"

text \<open>\<open>mq_rep s Q\<close>: the state is well formed and queue \<open>i\<close> holds the messages \<open>Q i\<close>.\<close>

definition mq_rep :: "mq_state \<Rightarrow> (nat \<Rightarrow> message list) \<Rightarrow> bool" where
  "mq_rep s Q \<longleftrightarrow>
     (\<exists>own. mq_inv s own \<and> (\<forall>i<MODULE_MAX. Q i = contents (mq_heap s) (own i)))"

text \<open>No node is lost: every allocated node is in some queue.\<close>

definition mq_no_leak :: "mq_state \<Rightarrow> bool" where
  "mq_no_leak s \<longleftrightarrow>
     (\<exists>own. mq_inv s own \<and> dom (mq_heap s) = (\<Union>i<MODULE_MAX. set (own i)))"

section \<open>The operations on the linked lists\<close>

lemma find_slot_finds:
  assumes "lseg (mq_heap s) p as None"
    and P: "\<And>a. P a \<longleftrightarrow> new_prio \<le> msg_prio (node_msg (the (mq_heap s a)))"
  shows "find_slot s new_prio (prev, p) =
    Some (if takeWhile P as = [] then prev else Some (last (takeWhile P as)),
          if dropWhile P as = [] then None else Some (hd (dropWhile P as)))"
  using assms(1)
proof (induction as arbitrary: p prev)
  case Nil
  then show ?case by (simp add: find_slot.simps)
next
  case (Cons a as)
  then obtain n where "p = Some a" "mq_heap s a = Some n" "lseg (mq_heap s) (node_next n) as None"
    by (auto split: option.splits)
  moreover from this have "P a \<longleftrightarrow> new_prio \<le> msg_prio (node_msg n)" by (simp add: P)
  ultimately show ?case
    using Cons.IH [of "node_next n" "Some a"]
    by (subst find_slot.simps) simp
qed

lemma link_node_links:
  assumes seg: "lseg (mq_heap s) (q_head (mq_queues s i)) (xs @ ys) None"
    and tail: "q_tail (mq_queues s i) = Some (last (xs @ ys))" and ne: "xs @ ys \<noteq> []"
    and dist: "distinct (xs @ ys)" and a: "a \<notin> set (xs @ ys)"
    and n: "mq_heap s a = Some n" "node_next n = None"
  shows "\<exists>h' q'. link_node s i a (if xs = [] then None else Some (last xs),
                                if ys = [] then None else Some (hd ys)) =
           Some (s\<lparr>mq_heap := h', mq_queues := (mq_queues s)(i := q')\<rparr>) \<and>
         lseg h' (q_head q') (xs @ a # ys) None \<and> q_tail q' = Some (last (xs @ a # ys)) \<and>
         q_count q' = q_count (mq_queues s i) \<and> q_max_size q' = q_max_size (mq_queues s i) \<and>
         q_is_initialized q' = q_is_initialized (mq_queues s i) \<and>
         (\<forall>b. map_option node_msg (h' b) = map_option node_msg (mq_heap s b)) \<and>
         (\<forall>b. b \<notin> insert a (set (xs @ ys)) \<longrightarrow> h' b = mq_heap s b)"
proof (cases xs rule: rev_cases)
  case Nil
  let ?h = "set_next a (q_head (mq_queues s i)) (mq_heap s)"
  have "lseg ?h (q_head (mq_queues s i)) ys None"
    using seg a Nil by (subst lseg_set_next_other) simp_all
  then show ?thesis
    using Nil tail ne n
    by (auto simp: link_node_def intro!: exI [of _ ?h] exI [of _ "(mq_queues s i)\<lparr>q_head := Some a\<rparr>"]
        split: option.splits)
next
  case (snoc zs l)
  then have l: "l \<notin> set zs" "l \<notin> set ys" "l \<noteq> a" "a \<notin> set zs" "a \<notin> set ys" "a \<noteq> l"
    using dist a by auto
  show ?thesis
  proof (cases ys)
    case Nil
    let ?h = "set_next l (Some a) (mq_heap s)"
    have "lseg ?h (q_head (mq_queues s i)) (zs @ [l]) (Some a)"
      using seg snoc Nil l by (intro lseg_redirect [where r = None]) simp_all
    then have "lseg ?h (q_head (mq_queues s i)) ((zs @ [l]) @ [a]) None"
      using n l by (subst lseg_append) simp
    moreover have "l \<in> dom (mq_heap s)" using lseg_dom [OF seg] snoc by auto
    ultimately show ?thesis
      using snoc Nil tail l
      by (auto simp: link_node_def intro!: exI [of _ ?h] exI [of _ "(mq_queues s i)\<lparr>q_tail := Some a\<rparr>"]
          split: option.splits)
  next
    case (Cons y ys')
    let ?g = "set_next a (Some y) (mq_heap s)"
    let ?h = "set_next l (Some a) ?g"
    from seg snoc have "lseg (mq_heap s) (q_head (mq_queues s i)) ((zs @ [l]) @ ys) None" by simp
    then obtain r where r: "lseg (mq_heap s) (q_head (mq_queues s i)) (zs @ [l]) r"
        "lseg (mq_heap s) r ys None"
      by (subst (asm) lseg_append) blast
    from lseg_head [OF r(2)] Cons have y: "r = Some y" by simp
    have "lseg ?g (q_head (mq_queues s i)) (zs @ [l]) r"
      using r(1) l by (subst lseg_set_next_other) auto
    then have 1: "lseg ?h (q_head (mq_queues s i)) (zs @ [l]) (Some a)"
      by (rule lseg_redirect) (simp add: l)
    have 2: "lseg ?h (Some y) ys None"
      using r(2) l y by (subst lseg_set_next_other, simp)+ simp
    have "lseg ?h (q_head (mq_queues s i)) ((zs @ [l]) @ a # ys) None"
      using 1 2 n l by (subst lseg_append) (auto simp: lseg_append)
    then show ?thesis
      using snoc Cons tail l
      by (intro exI [of _ ?h] exI [of _ "mq_queues s i"])
         (auto simp: link_node_def option.map_comp o_def)
  qed
qed

lemma queue_ok_frame:
  assumes "queue_ok s j as" "mq_queues s' j = mq_queues s j" "mq_brk s \<le> mq_brk s'"
    and heap: "\<And>b. b \<in> set as \<Longrightarrow> mq_heap s' b = mq_heap s b"
  shows "queue_ok s' j as" and "contents (mq_heap s') as = contents (mq_heap s) as"
proof -
  show c: "contents (mq_heap s') as = contents (mq_heap s) as"
    using heap by (simp add: contents_def)
  have "lseg (mq_heap s') p as None = lseg (mq_heap s) p as None" for p
    using heap by (intro lseg_cong) simp
  with c assms(1-3) show "queue_ok s' j as"
    by (auto simp: queue_ok_def)
qed

lemma sorted_enqueue_prio:
  assumes "sorted (map urgency q)"
  shows "sorted (map urgency (enqueue_prio m q))"
proof -
  let ?P = "\<lambda>x. msg_prio m \<le> msg_prio x"
  have "sorted (map urgency (takeWhile ?P q @ dropWhile ?P q))" using assms by simp
  moreover have "\<forall>x\<in>set (dropWhile ?P q). urgency m \<le> urgency x"
  proof (cases "dropWhile ?P q")
    case (Cons y ys)
    then have "\<not> ?P y" by (metis hd_dropWhile list.distinct(1) list.sel(1))
    then have "urgency m \<le> urgency y" by simp
    moreover from \<open>sorted (map urgency (takeWhile ?P q @ dropWhile ?P q))\<close> Cons
    have "\<forall>x\<in>set ys. urgency y \<le> urgency x"
      by (simp only: map_append sorted_append list.map sorted_simps) auto
    ultimately show ?thesis using Cons by fastforce
  qed (simp del: dropWhile_eq_Nil_conv)
  moreover have "\<forall>x\<in>set (takeWhile ?P q). urgency x \<le> urgency m"
    by (auto dest: set_takeWhileD)
  ultimately show ?thesis
    by (simp add: enqueue_prio_def sorted_append del: takeWhile_dropWhile_id urgency_le)
qed

lemma dom_eq_map_optionI: "(\<And>b. map_option f (h' b) = map_option f (h b)) \<Longrightarrow> dom h' = dom h"
  by (rule set_eqI) (metis domIff option.map_disc_iff)

lemma takeWhile_dropWhile_set: "set (takeWhile P xs) \<union> set (dropWhile P xs) = set xs"
  by (metis set_append takeWhile_dropWhile_id)

lemma takeWhile_dropWhile_length: "length (takeWhile P xs) + length (dropWhile P xs) = length xs"
  by (metis length_append takeWhile_dropWhile_id)

lemma unat_plus_one [word_counters]: "a < b \<Longrightarrow> unat (a + 1) = Suc (unat a)" for a b :: "'a :: len word"
proof -
  assume "a < b"
  then have "Suc (unat a) \<le> unat b" by (simp add: word_less_nat_alt)
  also have "unat b < 2 ^ LENGTH('a)" by (rule unsigned_less)
  finally have "Suc (unat a) < 2 ^ LENGTH('a)" .
  then show ?thesis by (simp add: unat_word_ariths)
qed

lemma queue_ok_dom: "queue_ok s i as \<Longrightarrow> set as \<subseteq> dom (mq_heap s)"
  by (metis queue_ok_def lseg_dom)

lemma stamp_prio [simp]: "msg_prio (stamp i t m) = msg_prio m"
  by (simp add: stamp_def)

lemma contents_takeWhile:
  "contents h (takeWhile (\<lambda>a. P (node_msg (the (h a)))) as) = takeWhile P (contents h as)"
  "contents h (dropWhile (\<lambda>a. P (node_msg (the (h a)))) as) = dropWhile P (contents h as)"
  by (induction as) simp_all

text \<open>
  \<open>msg_queue_send\<close> past its guards: the state with the new node allocated and stamped, then
  the linking, then the count.
\<close>

definition with_node :: "mq_state \<Rightarrow> message \<Rightarrow> mq_state" where
  "with_node s m = s\<lparr>mq_brk := Suc (mq_brk s), mq_msg_id_counter := mq_msg_id_counter s + 1,
     mq_clock := mq_clock s + 1,
     mq_heap := (mq_heap s)(mq_brk s \<mapsto>
       \<lparr>node_msg = stamp (mq_msg_id_counter s) (mq_clock s) m, node_next = None\<rparr>)\<rparr>"

lemma with_node_queues [simp]:
  "mq_queues (with_node s m) = mq_queues s" "mq_malloc_fails (with_node s m) = mq_malloc_fails s"
  by (simp_all add: with_node_def)

definition link_into :: "mq_state \<Rightarrow> nat \<Rightarrow> nat \<Rightarrow> msg_priority \<Rightarrow> mq_state option" where
  "link_into s i a p =
     (case q_head (mq_queues s i) of
        None \<Rightarrow> Some (upd_queue i (\<lambda>q. q\<lparr>q_head := Some a, q_tail := Some a\<rparr>) s)
      | Some h \<Rightarrow> do { slot \<leftarrow> find_slot s p (None, Some h); link_node s i a slot })"

lemma msg_queue_send_past_guards:
  assumes "dst = hdr_dst_module (msg_hdr m)" "dst < MODULE_MAX"
    and "q_is_initialized (mq_queues s dst)"
    and "q_count (mq_queues s dst) < q_max_size (mq_queues s dst)"
    and "\<not> mq_malloc_fails s (mq_brk s)"
  shows "msg_queue_send s (Some m) = do {
      s' \<leftarrow> link_into (with_node s m) dst (mq_brk s) (msg_prio m);
      Some (RET_OK, upd_queue dst (\<lambda>q. q\<lparr>q_count := q_count q + 1\<rparr>) s') }"
  using assms
  by (simp add: msg_queue_send_def create_node_def get_timestamp_ms_def with_node_def Let_def
      link_into_def not_le [symmetric] cong: option.case_cong)

lemma link_into_links:
  assumes seg: "lseg (mq_heap s) (q_head (mq_queues s i)) as None" and dist: "distinct as"
    and tail: "q_tail (mq_queues s i) = (if as = [] then None else Some (last as))"
    and a: "a \<notin> set as" and n: "mq_heap s a = Some n" "node_next n = None"
    and P: "\<And>b. P b \<longleftrightarrow> p \<le> msg_prio (node_msg (the (mq_heap s b)))"
  shows "\<exists>h' q'. link_into s i a p =
           Some (s\<lparr>mq_heap := h', mq_queues := (mq_queues s)(i := q')\<rparr>) \<and>
         lseg h' (q_head q') (takeWhile P as @ a # dropWhile P as) None \<and>
         q_tail q' = Some (last (takeWhile P as @ a # dropWhile P as)) \<and>
         q_count q' = q_count (mq_queues s i) \<and> q_max_size q' = q_max_size (mq_queues s i) \<and>
         q_is_initialized q' = q_is_initialized (mq_queues s i) \<and>
         (\<forall>b. map_option node_msg (h' b) = map_option node_msg (mq_heap s b)) \<and>
         (\<forall>b. b \<notin> insert a (set as) \<longrightarrow> h' b = mq_heap s b)"
proof (cases "as = []")
  case True
  with seg n show ?thesis
    by (auto simp: link_into_def intro!: exI [of _ "mq_heap s"]
        exI [of _ "(mq_queues s i)\<lparr>q_head := Some a, q_tail := Some a\<rparr>"])
next
  case False
  let ?slot = "(if takeWhile P as = [] then None else Some (last (takeWhile P as)),
                if dropWhile P as = [] then None else Some (hd (dropWhile P as)))"
  from False seg obtain h where head: "q_head (mq_queues s i) = Some h" by (cases as) auto
  have "find_slot s p (None, Some h) = Some ?slot"
    using find_slot_finds [OF _ P, of "Some h" as None] seg head by simp
  with head have "link_into s i a p = link_node s i a ?slot"
    by (simp add: link_into_def del: takeWhile_eq_Nil_iff dropWhile_eq_Nil_conv)
  moreover have "takeWhile P as @ dropWhile P as = as" by simp
  moreover note link_node_links [of s i "takeWhile P as" "dropWhile P as" a n] seg dist tail a n False
  ultimately show ?thesis
    by (simp del: takeWhile_eq_Nil_iff dropWhile_eq_Nil_conv)
qed

text \<open>
  Sending links the new node, whose address is the next free one, at the position where the
  priorities first drop; no other node changes.
\<close>

lemma send_links:
  assumes ok: "queue_ok s dst as" and dst: "dst = hdr_dst_module (msg_hdr m)" "dst < MODULE_MAX"
    and init: "q_is_initialized (mq_queues s dst)"
    and space: "q_count (mq_queues s dst) < q_max_size (mq_queues s dst)"
    and alloc: "\<not> mq_malloc_fails s (mq_brk s)"
  shows "\<exists>h' q' as'. msg_queue_send s (Some m) =
        Some (RET_OK, (with_node s m)\<lparr>mq_heap := h', mq_queues := (mq_queues s)(dst := q')\<rparr>) \<and>
      queue_ok ((with_node s m)\<lparr>mq_heap := h', mq_queues := (mq_queues s)(dst := q')\<rparr>) dst as' \<and>
      set as' = insert (mq_brk s) (set as) \<and>
      contents h' as' = enqueue_prio (stamp (mq_msg_id_counter s) (mq_clock s) m)
                                    (contents (mq_heap s) as) \<and>
      (\<forall>b. b \<notin> insert (mq_brk s) (set as) \<longrightarrow> h' b = mq_heap s b) \<and>
      dom h' = insert (mq_brk s) (dom (mq_heap s)) \<and>
      q_is_initialized q' \<and> q_max_size q' = q_max_size (mq_queues s dst) \<and>
      q_count q' = q_count (mq_queues s dst) + 1"
proof -
  let ?a = "mq_brk s" and ?m = "stamp (mq_msg_id_counter s) (mq_clock s) m"
  let ?s = "with_node s m"
  let ?P = "\<lambda>b. msg_prio m \<le> msg_prio (node_msg (the (mq_heap ?s b)))"
  let ?as = "takeWhile ?P as @ ?a # dropWhile ?P as"
  have fresh: "?a \<notin> set as" using ok by (auto simp: queue_ok_def)
  have same: "mq_heap ?s b = mq_heap s b" if "b \<noteq> ?a" for b using that by (simp add: with_node_def)
  have seg0: "lseg (mq_heap ?s) (q_head (mq_queues ?s dst)) as None"
    using ok fresh by (subst lseg_cong [where h = "mq_heap s"]) (auto simp: same queue_ok_def)
  have n: "mq_heap ?s ?a = Some \<lparr>node_msg = ?m, node_next = None\<rparr>" by (simp add: with_node_def)
  have "distinct as" "q_tail (mq_queues ?s dst) = (if as = [] then None else Some (last as))"
    using ok by (simp_all add: queue_ok_def)
  from link_into_links [OF seg0 this fresh n _ refl, of "msg_prio m"]
  obtain h' q' where link: "link_into ?s dst ?a (msg_prio m) =
           Some (?s\<lparr>mq_heap := h', mq_queues := (mq_queues s)(dst := q')\<rparr>)"
      and seg: "lseg h' (q_head q') ?as None" and tl: "q_tail q' = Some (last ?as)"
      and cnt: "q_count q' = q_count (mq_queues s dst)" "q_max_size q' = q_max_size (mq_queues s dst)"
         "q_is_initialized q' = q_is_initialized (mq_queues s dst)"
      and msgs: "\<And>b. map_option node_msg (h' b) = map_option node_msg (mq_heap ?s b)"
      and frame: "\<And>b. b \<notin> insert ?a (set as) \<Longrightarrow> h' b = mq_heap ?s b"
    unfolding with_node_queues by auto
  have dom': "dom h' = insert ?a (dom (mq_heap s))"
    using dom_eq_map_optionI [of node_msg h' "mq_heap ?s", OF msgs] by (simp add: with_node_def)
  have as_dom: "set as \<subseteq> dom (mq_heap s)" using ok by (rule queue_ok_dom)
  have "contents h' ?as = contents (mq_heap ?s) ?as"
    using msgs as_dom by (intro contents_cong) (auto simp: with_node_def dest: set_takeWhileD set_dropWhileD)
  also have "\<dots> = enqueue_prio ?m (contents (mq_heap ?s) as)"
    using n by (simp add: enqueue_prio_def contents_takeWhile [where P = "\<lambda>x. msg_prio m \<le> msg_prio x"])
  also have "contents (mq_heap ?s) as = contents (mq_heap s) as"
    unfolding contents_def by (rule map_cong [OF refl]) (metis fresh same)
  finally have c: "contents h' ?as = enqueue_prio ?m (contents (mq_heap s) as)" .
  have perm: "set ?as = insert ?a (set as)" "length ?as = Suc (length as)"
    by (simp_all add: takeWhile_dropWhile_set takeWhile_dropWhile_length)
  have "distinct ?as" using ok perm by (intro card_distinct) (simp add: queue_ok_def fresh distinct_card)
  moreover have "sorted (map urgency (contents h' ?as))"
    using ok by (simp only: c) (simp add: sorted_enqueue_prio queue_ok_def)
  ultimately have "queue_ok ((with_node s m)\<lparr>mq_heap := h',
      mq_queues := (mq_queues s)(dst := q'\<lparr>q_count := q_count q' + 1\<rparr>)\<rparr>) dst ?as"
    using ok seg tl cnt space init perm unfolding queue_ok_def
    by (auto simp: with_node_def unat_plus_one [OF space] inc_le)
  moreover have "msg_queue_send s (Some m) = Some (RET_OK, (with_node s m)\<lparr>mq_heap := h',
      mq_queues := (mq_queues s)(dst := q'\<lparr>q_count := q_count q' + 1\<rparr>)\<rparr>)"
    using msg_queue_send_past_guards [OF dst init space alloc] link by simp
  ultimately show ?thesis
    using c cnt dom' perm frame same init
    by (intro exI [of _ h'] exI [of _ "q'\<lparr>q_count := q_count q' + 1\<rparr>"] exI [of _ ?as]) auto
qed
lemma queue_ok_nonempty_iff:
  "queue_ok s i as \<Longrightarrow> q_count (mq_queues s i) = 0 \<longleftrightarrow> as = []"
  by (auto simp: queue_ok_def unat_eq_0)

lemma unat_minus_one [word_counters]: "a \<noteq> 0 \<Longrightarrow> unat (a - 1) = unat a - 1" for a :: "'a :: len word"
proof -
  assume "a \<noteq> 0"
  then have "1 \<le> a" by (simp add: word_le_nat_alt Suc_le_eq unat_gt_0)
  then show ?thesis by (simp add: unat_sub)
qed

text \<open>Receiving unlinks and frees the first node.\<close>

lemma recv_takes:
  assumes ok: "queue_ok s i (a # as)" and i: "i < MODULE_MAX"
    and init: "q_is_initialized (mq_queues s i)"
  shows "\<exists>q'. msg_queue_recv s i True =
        Some (RET_OK, Some (node_msg (the (mq_heap s a))),
              s\<lparr>mq_heap := (mq_heap s)(a := None), mq_queues := (mq_queues s)(i := q')\<rparr>) \<and>
      queue_ok (s\<lparr>mq_heap := (mq_heap s)(a := None), mq_queues := (mq_queues s)(i := q')\<rparr>) i as \<and>
      q_is_initialized q' \<and> q_max_size q' = q_max_size (mq_queues s i)"
proof -
  let ?q = "mq_queues s i" and ?h = "(mq_heap s)(a := None)"
  from ok obtain n where n: "q_head ?q = Some a" "mq_heap s a = Some n"
      "lseg (mq_heap s) (node_next n) as None" and a: "a \<notin> set as"
    by (auto simp: queue_ok_def split: option.splits)
  let ?q' = "?q\<lparr>q_head := node_next n, q_count := q_count ?q - 1,
                q_tail := if as = [] then None else q_tail ?q\<rparr>"
  have nxt: "node_next n = None \<longleftrightarrow> as = []" using lseg_head [OF n(3)] by simp
  have cnt: "q_count ?q \<noteq> 0" using queue_ok_nonempty_iff [OF ok] by simp
  have "msg_queue_recv s i True = Some (RET_OK, Some (node_msg (the (mq_heap s a))),
              s\<lparr>mq_heap := ?h, mq_queues := (mq_queues s)(i := ?q')\<rparr>)"
    using i init n cnt nxt by (auto simp: msg_queue_recv_def Let_def destroy_node_def)
  moreover have "lseg ?h (node_next n) as None"
    using n(3) a by (subst lseg_cong [where h = "mq_heap s"]) auto
  moreover have "contents ?h as = contents (mq_heap s) as"
    using a by (auto simp: contents_def)
  moreover have "q_count ?q - 1 \<le> q_max_size ?q" if "q_count ?q \<le> q_max_size ?q"
    using that cnt unat_minus_one [OF cnt] by (simp add: word_le_nat_alt)
  ultimately show ?thesis
    using ok init unat_minus_one [OF cnt]
    by (intro exI [of _ ?q']) (auto simp: queue_ok_def)
qed

lemma recv_nothing:
  "queue_ok s i [] \<Longrightarrow> i < MODULE_MAX \<Longrightarrow> q_is_initialized (mq_queues s i) \<Longrightarrow>
   msg_queue_recv s i True = Some (RET_ERR_BUSY, None, s)"
  using queue_ok_nonempty_iff [of s i "[]"] by (simp add: msg_queue_recv_def)

lemma free_queue:
  "queue_ok s i as \<Longrightarrow>
   free_nodes s (q_head (mq_queues s i)) = Some (s\<lparr>mq_heap := mq_heap s |` (- set as)\<rparr>)"
  by (simp add: queue_ok_def free_nodes_frees)

section \<open>The queues together\<close>

text \<open>An operation on one queue may touch its nodes and a fresh one; the others stay.\<close>

lemma mq_inv_update:
  assumes inv: "mq_inv s own" and i: "i < MODULE_MAX" and ok: "queue_ok s' i as"
    and queues: "\<And>j. j \<noteq> i \<Longrightarrow> mq_queues s' j = mq_queues s j"
    and heap: "\<And>b. b \<notin> insert (mq_brk s) (set (own i)) \<Longrightarrow> mq_heap s' b = mq_heap s b"
    and sub: "set as \<subseteq> insert (mq_brk s) (set (own i))" and brk: "mq_brk s \<le> mq_brk s'"
  shows "mq_inv s' (own(i := as))"
    and "j < MODULE_MAX \<Longrightarrow> j \<noteq> i \<Longrightarrow> contents (mq_heap s') (own j) = contents (mq_heap s) (own j)"
proof -
  have frame: "mq_heap s' b = mq_heap s b" "b \<noteq> mq_brk s" "b \<notin> set (own i)"
    if "j < MODULE_MAX" "j \<noteq> i" "b \<in> set (own j)" for j b
  proof -
    from inv that(1) have "queue_ok s j (own j)" by (simp add: mq_inv_def)
    then show "b \<noteq> mq_brk s" using that(3) by (auto simp: queue_ok_def)
    moreover show "b \<notin> set (own i)" using inv that i unfolding mq_inv_def by blast
    ultimately show "mq_heap s' b = mq_heap s b" by (intro heap) simp
  qed
  have other: "queue_ok s' j (own j)" "contents (mq_heap s') (own j) = contents (mq_heap s) (own j)"
    if "j < MODULE_MAX" "j \<noteq> i" for j
    using queue_ok_frame [of s j "own j" s'] inv that brk queues frame(1) by (auto simp: mq_inv_def)
  show "j < MODULE_MAX \<Longrightarrow> j \<noteq> i \<Longrightarrow> contents (mq_heap s') (own j) = contents (mq_heap s) (own j)"
    by (rule other)
  have "set as \<inter> set (own j) = {}" if "j < MODULE_MAX" "j \<noteq> i" for j
    using sub frame(2,3) that by fastforce
  with other(1) ok inv show "mq_inv s' (own(i := as))"
    unfolding mq_inv_def by (auto simp: Int_commute)
qed

lemma mq_rep_queue:
  assumes "mq_rep s Q"
  obtains own where "mq_inv s own" "\<And>i. i < MODULE_MAX \<Longrightarrow> queue_ok s i (own i)"
    "\<And>i. i < MODULE_MAX \<Longrightarrow> Q i = contents (mq_heap s) (own i)"
  using assms unfolding mq_rep_def mq_inv_def by blast

lemma mq_rep_update:
  assumes "mq_inv s own" "\<And>i. i < MODULE_MAX \<Longrightarrow> Q i = contents (mq_heap s) (own i)"
    and "i < MODULE_MAX" "queue_ok s' i as"
    and "\<And>j. j \<noteq> i \<Longrightarrow> mq_queues s' j = mq_queues s j"
    and "\<And>b. b \<notin> insert (mq_brk s) (set (own i)) \<Longrightarrow> mq_heap s' b = mq_heap s b"
    and "set as \<subseteq> insert (mq_brk s) (set (own i))" "mq_brk s \<le> mq_brk s'"
  shows "mq_rep s' (Q(i := contents (mq_heap s') as))"
  unfolding mq_rep_def
  using mq_inv_update [OF assms(1,3-8)] assms(2) by (intro exI [of _ "own(i := as)"]) auto

section \<open>Priority queues with a stable order\<close>

text \<open>
  What a priority queue with several classes promises of one insertion: nothing is lost, the
  most urgent come first, and the members of a class keep the order of arrival.
\<close>

locale priority_fifo =
  fixes put :: "'m \<Rightarrow> 'm list \<Rightarrow> 'm list"
    and rank :: "'m \<Rightarrow> nat"
  assumes put_mset: "mset (put m q) = add_mset m (mset q)"
    and put_sorted: "sorted (map rank q) \<Longrightarrow> sorted (map rank (put m q))"
    and put_class: "sorted (map rank q) \<Longrightarrow> filter (\<lambda>x. rank x = k) (put m q) =
        filter (\<lambda>x. rank x = k) q @ (if rank m = k then [m] else [])"
begin

lemma put_all_mset: "mset (fold put ms q) = mset q + mset ms"
  by (induction ms arbitrary: q) (simp_all add: put_mset)

lemma put_all_sorted: "sorted (map rank q) \<Longrightarrow> sorted (map rank (fold put ms q))"
  by (induction ms arbitrary: q) (simp_all add: put_sorted)

lemma put_all_class:
  "sorted (map rank q) \<Longrightarrow>
   filter (\<lambda>x. rank x = k) (fold put ms q) = filter (\<lambda>x. rank x = k) (q @ ms)"
  by (induction ms arbitrary: q) (simp_all add: put_class put_sorted)

text \<open>Hence a queue that was filled from empty is the stable sort of the arrivals.\<close>

lemma put_all_stable_sort: "fold put ms [] = sort_key rank ms"
proof (rule properties_for_sort_key [symmetric])
  show "mset (fold put ms []) = mset ms" by (simp add: put_all_mset)
  show "filter (\<lambda>x. rank k = rank x) (fold put ms []) = filter (\<lambda>x. rank k = rank x) ms" for k
    using put_all_class [where k = "rank k" and q = "[]"] by (simp add: eq_commute)
  show "sorted (map rank (fold put ms []))" by (simp add: put_all_sorted)
qed

end

lemma filter_class_dropWhile:
  assumes "sorted (map urgency q)"
  shows "filter (\<lambda>x. urgency x = urgency m) (dropWhile (\<lambda>x. msg_prio m \<le> msg_prio x) q) = []"
  using assms by (induction q) (auto simp: not_le filter_empty_conv simp flip: urgency_less urgency_le)

lemma filter_enqueue_prio:
  assumes "sorted (map urgency q)"
  shows "filter (\<lambda>x. urgency x = k) (enqueue_prio m q) =
         filter (\<lambda>x. urgency x = k) q @ (if urgency m = k then [m] else [])"
proof -
  let ?P = "\<lambda>x. msg_prio m \<le> msg_prio x" and ?F = "filter (\<lambda>x. urgency x = k)"
  have "?F q = ?F (takeWhile ?P q) @ ?F (dropWhile ?P q)"
    by (metis filter_append takeWhile_dropWhile_id)
  with filter_class_dropWhile [OF assms, of m] show ?thesis
    by (auto simp: enqueue_prio_def)
qed

lemma mset_enqueue_prio: "mset (enqueue_prio m q) = add_mset m (mset q)"
  unfolding enqueue_prio_def
  by (metis mset_append mset.simps(2) takeWhile_dropWhile_id union_mset_add_mset_right)

interpretation mq: priority_fifo enqueue_prio urgency
  by unfold_locales (simp_all add: mset_enqueue_prio sorted_enqueue_prio filter_enqueue_prio)

section \<open>The message queue keeps its promises\<close>

text \<open>The state at program start: no node, no queue initialised.\<close>

definition mq_boot :: "mq_state" where
  "mq_boot = \<lparr>mq_heap = Map.empty, mq_brk = 0, mq_malloc_fails = (\<lambda>_. False),
     mq_queues = (\<lambda>_. \<lparr>q_head = None, q_tail = None, q_count = 0, q_max_size = 0,
                        q_is_initialized = False\<rparr>),
     mq_msg_id_counter = 0, mq_clock = 0\<rparr>"

lemma mq_rep_boot: "mq_rep mq_boot (\<lambda>_. [])"
  unfolding mq_rep_def
  by (intro exI [of _ "\<lambda>_. []"]) (simp add: mq_inv_def queue_ok_def mq_boot_def)

lemma msg_queue_init_rep:
  assumes "mq_rep s Q" "i < MODULE_MAX" "n \<noteq> 0" "msg_queue_init s i n = (r, s')"
  shows "r = RET_OK" "mq_rep s' (Q(i := []))" "q_is_initialized (mq_queues s' i)"
    "q_max_size (mq_queues s' i) = n" "q_count (mq_queues s' i) = 0"
    "mq_malloc_fails s' = mq_malloc_fails s"
proof -
  from assms(1) obtain own where own: "mq_inv s own" "\<And>i. i < MODULE_MAX \<Longrightarrow> queue_ok s i (own i)"
    "\<And>i. i < MODULE_MAX \<Longrightarrow> Q i = contents (mq_heap s) (own i)"
    using mq_rep_queue [OF assms(1)] by metis
  have s': "s' = upd_queue i (\<lambda>_. \<lparr>q_head = None, q_tail = None, q_count = 0,
               q_max_size = n, q_is_initialized = True\<rparr>) s" and "r = RET_OK"
    using assms by (auto simp: msg_queue_init_def)
  then show "r = RET_OK" "q_is_initialized (mq_queues s' i)"
    "q_max_size (mq_queues s' i) = n" "q_count (mq_queues s' i) = 0"
    "mq_malloc_fails s' = mq_malloc_fails s" by simp_all
  have "mq_rep s' (Q(i := contents (mq_heap s') []))"
    by (rule mq_rep_update [OF own(1,3) assms(2)]) (simp_all add: s' queue_ok_def)
  then show "mq_rep s' (Q(i := []))" by simp
qed

lemma send_rep:
  assumes "mq_rep s Q" and dst: "dst = hdr_dst_module (msg_hdr m)" "dst < MODULE_MAX"
    and init: "q_is_initialized (mq_queues s dst)"
    and space: "q_count (mq_queues s dst) < q_max_size (mq_queues s dst)"
    and alloc: "\<not> mq_malloc_fails s (mq_brk s)"
  shows "\<exists>s'. msg_queue_send s (Some m) = Some (RET_OK, s') \<and>
      mq_rep s' (Q(dst := enqueue_prio (stamp (mq_msg_id_counter s) (mq_clock s) m) (Q dst))) \<and>
      mq_msg_id_counter s' = mq_msg_id_counter s + 1 \<and> mq_clock s' = mq_clock s + 1 \<and>
      mq_malloc_fails s' = mq_malloc_fails s \<and>
      q_is_initialized (mq_queues s' dst) \<and>
      q_count (mq_queues s' dst) = q_count (mq_queues s dst) + 1 \<and>
      q_max_size (mq_queues s' dst) = q_max_size (mq_queues s dst)"
proof -
  from assms(1) obtain own where own: "mq_inv s own" "\<And>i. i < MODULE_MAX \<Longrightarrow> queue_ok s i (own i)"
    "\<And>i. i < MODULE_MAX \<Longrightarrow> Q i = contents (mq_heap s) (own i)"
    using mq_rep_queue [OF assms(1)] by metis
  from send_links [OF own(2) [OF dst(2)] dst init space alloc] obtain h' q' as'
    where s': "msg_queue_send s (Some m) =
        Some (RET_OK, (with_node s m)\<lparr>mq_heap := h', mq_queues := (mq_queues s)(dst := q')\<rparr>)"
      "queue_ok ((with_node s m)\<lparr>mq_heap := h', mq_queues := (mq_queues s)(dst := q')\<rparr>) dst as'"
      and "set as' = insert (mq_brk s) (set (own dst))"
      and c: "contents h' as' = enqueue_prio (stamp (mq_msg_id_counter s) (mq_clock s) m) (Q dst)"
      and "\<forall>b. b \<notin> insert (mq_brk s) (set (own dst)) \<longrightarrow> h' b = mq_heap s b"
      and q': "q_is_initialized q'" "q_max_size q' = q_max_size (mq_queues s dst)"
      "q_count q' = q_count (mq_queues s dst) + 1"
    using own(3) [OF dst(2)] by metis
  then have "mq_rep ((with_node s m)\<lparr>mq_heap := h', mq_queues := (mq_queues s)(dst := q')\<rparr>)
      (Q(dst := contents h' as'))"
    using mq_rep_update [OF own(1,3) dst(2) s'(2)] by (simp add: with_node_def)
  then show ?thesis
    using s'(1) c q' by (auto simp: with_node_def)
qed

text \<open>
  On a well-formed set of queues, a send to an initialised queue that has room puts the
  message, stamped with the next id and time, into that queue in front of the first message of
  lower priority and behind all others, and leaves the other queues alone.
\<close>

theorem msg_queue_send_enqueues:
  assumes "mq_rep s Q" and "dst = hdr_dst_module (msg_hdr m)" "dst < MODULE_MAX"
    and "q_is_initialized (mq_queues s dst)"
    and "q_count (mq_queues s dst) < q_max_size (mq_queues s dst)"
    and "\<not> mq_malloc_fails s (mq_brk s)"
  shows "\<exists>s'. msg_queue_send s (Some m) = Some (RET_OK, s') \<and>
      mq_rep s' (Q(dst := enqueue_prio (stamp (mq_msg_id_counter s) (mq_clock s) m) (Q dst))) \<and>
      mq_msg_id_counter s' = mq_msg_id_counter s + 1 \<and>
      msg_queue_get_count s' dst = msg_queue_get_count s dst + 1"
  using send_rep [OF assms] assms(3,4) by (auto simp: msg_queue_get_count_def)

text \<open>A queue of three messages for the host, used to try the properties out.\<close>

definition demo_message :: "msg_priority \<Rightarrow> u8 \<Rightarrow> message" where
  "demo_message p d = \<lparr>msg_hdr = \<lparr>hdr_type = MSG_TYPE_HOST_CMD, hdr_priority = p,
     hdr_src_module = 1, hdr_dst_module = 2, hdr_msg_id = 0, hdr_timestamp = 0,
     hdr_data_len = 1\<rparr>, msg_data = [d]\<rparr>"

definition demo_queue :: "mq_state" where
  "demo_queue = snd (msg_queue_init mq_boot 2 3)"

lemma demo_queue:
  "mq_rep demo_queue ((\<lambda>_. [])(2 := []))" "q_is_initialized (mq_queues demo_queue 2)"
  "q_max_size (mq_queues demo_queue 2) = 3" "q_count (mq_queues demo_queue 2) = 0"
  "mq_malloc_fails demo_queue = (\<lambda>_. False)" "msg_queue_get_count demo_queue 2 = 0"
  "mq_msg_id_counter demo_queue = 0" "mq_clock demo_queue = 0"
proof -
  show "mq_rep demo_queue ((\<lambda>_. [])(2 := []))"
    by (rule msg_queue_init_rep(2) [OF mq_rep_boot, of 2 3 RET_OK])
       (simp_all add: demo_queue_def msg_queue_init_def MODULE_MAX_def)
qed (simp_all add: demo_queue_def mq_boot_def msg_queue_init_def MODULE_MAX_def
    msg_queue_get_count_def)

lemma demo_message_dst [simp]: "hdr_dst_module (msg_hdr (demo_message p d)) = 2"
  by (simp add: demo_message_def)

theorem msg_queue_send_enqueues_witness:
  "\<exists>s'. msg_queue_send demo_queue (Some (demo_message MSG_PRIORITY_HIGH 7)) = Some (RET_OK, s') \<and>
      msg_queue_get_count s' 2 = 1"
  using msg_queue_send_enqueues [OF demo_queue(1), of 2 "demo_message MSG_PRIORITY_HIGH 7"]
  by (auto simp: demo_queue MODULE_MAX_def)

text \<open>
  A receive from an initialised queue that holds messages returns the first of them, the
  oldest one of the highest priority present, and removes exactly that one; on an empty queue
  it reports BUSY and changes nothing.
\<close>

theorem msg_queue_recv_dequeues:
  assumes "mq_rep s Q" "i < MODULE_MAX" "q_is_initialized (mq_queues s i)"
  shows "case Q i of
      [] \<Rightarrow> msg_queue_recv s i True = Some (RET_ERR_BUSY, None, s)
    | m # ms \<Rightarrow> (\<exists>s'. msg_queue_recv s i True = Some (RET_OK, Some m, s') \<and> mq_rep s' (Q(i := ms)) \<and>
                 (\<forall>x\<in>set ms. msg_prio x \<le> msg_prio m))"
proof -
  obtain own where own: "mq_inv s own" "\<And>i. i < MODULE_MAX \<Longrightarrow> queue_ok s i (own i)"
    "\<And>i. i < MODULE_MAX \<Longrightarrow> Q i = contents (mq_heap s) (own i)"
    using mq_rep_queue [OF assms(1)] by metis
  show ?thesis
  proof (cases "own i")
    case Nil
    with own(2,3) [OF assms(2)] recv_nothing [of s i] assms show ?thesis by simp
  next
    case (Cons a as)
    with own(2) [OF assms(2)] have ok: "queue_ok s i (a # as)" by simp
    from recv_takes [OF ok assms(2,3)] obtain q' where s': "msg_queue_recv s i True =
        Some (RET_OK, Some (node_msg (the (mq_heap s a))),
              s\<lparr>mq_heap := (mq_heap s)(a := None), mq_queues := (mq_queues s)(i := q')\<rparr>)"
      "queue_ok (s\<lparr>mq_heap := (mq_heap s)(a := None), mq_queues := (mq_queues s)(i := q')\<rparr>) i as"
      by blast
    have "mq_rep (s\<lparr>mq_heap := (mq_heap s)(a := None), mq_queues := (mq_queues s)(i := q')\<rparr>)
        (Q(i := contents ((mq_heap s)(a := None)) as))"
      using mq_rep_update [OF own(1,3) assms(2) s'(2)] Cons by auto
    moreover have "contents ((mq_heap s)(a := None)) as = contents (mq_heap s) as"
      using ok by (auto simp: contents_def queue_ok_def)
    ultimately show ?thesis
      using s' own(3) [OF assms(2)] Cons ok by (auto simp: queue_ok_def)
  qed
qed

theorem msg_queue_recv_dequeues_witness:
  "msg_queue_recv demo_queue 2 True = Some (RET_ERR_BUSY, None, demo_queue)"
  using msg_queue_recv_dequeues [OF demo_queue(1), of 2] demo_queue(2) by (simp add: MODULE_MAX_def)

text \<open>The messages as the queue stamps them when they arrive one after the other.\<close>

fun stamped :: "u32 \<Rightarrow> u32 \<Rightarrow> message list \<Rightarrow> message list" where
  "stamped i t [] = []"
| "stamped i t (m # ms) = stamp i t m # stamped (i + 1) (t + 1) ms"

fun send_all :: "mq_state \<Rightarrow> message list \<Rightarrow> mq_state option" where
  "send_all s [] = Some s"
| "send_all s (m # ms) =
     (case msg_queue_send s (Some m) of Some (RET_OK, s') \<Rightarrow> send_all s' ms | _ \<Rightarrow> None)"

lemma send_all_enqueues:
  assumes "mq_rep s Q" and "dst < MODULE_MAX" and "q_is_initialized (mq_queues s dst)"
    and "\<forall>m\<in>set ms. hdr_dst_module (msg_hdr m) = dst"
    and "unat (q_count (mq_queues s dst)) + length ms \<le> unat (q_max_size (mq_queues s dst))"
    and "mq_malloc_fails s = (\<lambda>_. False)"
  shows "\<exists>s'. send_all s ms = Some s' \<and>
      mq_rep s' (Q(dst := fold enqueue_prio (stamped (mq_msg_id_counter s) (mq_clock s) ms) (Q dst)))"
  using assms
proof (induction ms arbitrary: s Q)
  case (Cons m ms)
  then have space: "q_count (mq_queues s dst) < q_max_size (mq_queues s dst)"
    by (simp add: word_less_nat_alt)
  from send_rep [OF Cons.prems(1) _ _ _ space] Cons.prems obtain s' where
    s': "msg_queue_send s (Some m) = Some (RET_OK, s')"
      "mq_rep s' (Q(dst := enqueue_prio (stamp (mq_msg_id_counter s) (mq_clock s) m) (Q dst)))"
      "mq_msg_id_counter s' = mq_msg_id_counter s + 1" "mq_clock s' = mq_clock s + 1"
      "mq_malloc_fails s' = mq_malloc_fails s" "q_is_initialized (mq_queues s' dst)"
      "q_count (mq_queues s' dst) = q_count (mq_queues s dst) + 1"
      "q_max_size (mq_queues s' dst) = q_max_size (mq_queues s dst)"
    by auto
  from Cons.IH [OF s'(2)] s' Cons.prems unat_plus_one [OF space] show ?case
    by (simp add: fun_upd_same del: fun_upd_apply)
qed simp

text \<open>
  C6: messages sent one after the other into an empty queue with room for them stand there as
  the stable sort of the arrivals by descending priority: first in, first out within each
  priority, for every interleaving of priorities.
\<close>

theorem msg_queue_is_stable_priority_queue:
  assumes "mq_rep s Q" and "Q dst = []" and "dst < MODULE_MAX"
    and "q_is_initialized (mq_queues s dst)"
    and "\<forall>m\<in>set ms. hdr_dst_module (msg_hdr m) = dst"
    and "length ms \<le> unat (q_max_size (mq_queues s dst))"
    and "mq_malloc_fails s = (\<lambda>_. False)"
  shows "\<exists>s'. send_all s ms = Some s' \<and>
      mq_rep s' (Q(dst := sort_key urgency (stamped (mq_msg_id_counter s) (mq_clock s) ms)))"
proof -
  from mq_rep_queue [OF assms(1)] assms(2,3) have "unat (q_count (mq_queues s dst)) = 0"
    by (metis contents_simps(1) length_0_conv length_contents queue_ok_def)
  with send_all_enqueues [OF assms(1,3,4,5) _ assms(7)] assms(2,6) show ?thesis
    by (simp add: mq.put_all_stable_sort)
qed

theorem msg_queue_is_stable_priority_queue_witness:
  "\<exists>s'. send_all demo_queue [demo_message MSG_PRIORITY_LOW 1, demo_message MSG_PRIORITY_HIGH 2,
                            demo_message MSG_PRIORITY_HIGH 3] = Some s' \<and>
      mq_rep s' ((\<lambda>_. [])(2 := [stamp 1 1 (demo_message MSG_PRIORITY_HIGH 2),
        stamp 2 2 (demo_message MSG_PRIORITY_HIGH 3), stamp 0 0 (demo_message MSG_PRIORITY_LOW 1)]))"
proof -
  have "sort_key urgency (stamped 0 0 [demo_message MSG_PRIORITY_LOW 1,
          demo_message MSG_PRIORITY_HIGH 2, demo_message MSG_PRIORITY_HIGH 3]) =
        [stamp 1 1 (demo_message MSG_PRIORITY_HIGH 2),
        stamp 2 2 (demo_message MSG_PRIORITY_HIGH 3), stamp 0 0 (demo_message MSG_PRIORITY_LOW 1)]"
    by (simp add: demo_message_def urgency_def stamp_def)
  then show ?thesis
    using msg_queue_is_stable_priority_queue [OF demo_queue(1), of 2 "[demo_message MSG_PRIORITY_LOW 1,
        demo_message MSG_PRIORITY_HIGH 2, demo_message MSG_PRIORITY_HIGH 3]"]
    by (simp add: demo_queue MODULE_MAX_def)
qed

text \<open>
  The blocking receive always returns.  With a message at hand it behaves as the plain
  receive; on an empty queue it gives up with TIMEOUT after the given number of polls, and with
  timeout 0 it reports BUSY at once.
\<close>

theorem msg_queue_recv_blocking_returns:
  assumes "mq_rep s Q" "i < MODULE_MAX" "q_is_initialized (mq_queues s i)"
  shows "msg_queue_recv_blocking s i True timeout =
      (if Q i \<noteq> [] then msg_queue_recv s i True
       else if timeout = 0 then Some (RET_ERR_BUSY, None, s)
       else Some (RET_ERR_TIMEOUT, None, s))"
proof (cases "Q i")
  case Nil
  have recv: "msg_queue_recv s i True = Some (RET_ERR_BUSY, None, s)"
  proof -
    from mq_rep_queue [OF assms(1)] Nil assms(2) have "queue_ok s i []"
      by (metis length_0_conv length_contents)
    then show ?thesis using assms by (intro recv_nothing)
  qed
  have "recv_poll s i timeout w = Some (RET_ERR_TIMEOUT, None, s)" if "w < timeout" for w
    using that
  proof (induction "timeout - w" arbitrary: w)
    case (Suc k)
    then show ?case
      by (subst recv_poll.simps) (simp add: recv)
  qed simp
  moreover have "recv_poll s i 0 0 = Some (RET_ERR_BUSY, None, s)"
    by (subst recv_poll.simps) (simp add: recv)
  ultimately show ?thesis
    using assms Nil by (simp add: msg_queue_recv_blocking_def)
next
  case (Cons m ms)
  obtain own where own: "queue_ok s i (own i)" "Q i = contents (mq_heap s) (own i)"
    using mq_rep_queue [OF assms(1)] assms(2) by metis
  with Cons obtain a as where "queue_ok s i (a # as)" by (cases "own i") auto
  from recv_takes [OF this assms(2,3)] obtain m' s' where "msg_queue_recv s i True = Some (RET_OK, m', s')"
    by blast
  then have "recv_poll s i timeout 0 = msg_queue_recv s i True"
    by (subst recv_poll.simps) simp
  with assms Cons show ?thesis by (simp add: msg_queue_recv_blocking_def)
qed

theorem msg_queue_recv_blocking_returns_witness:
  "msg_queue_recv_blocking demo_queue 2 True 5 = Some (RET_ERR_TIMEOUT, None, demo_queue)"
  using msg_queue_recv_blocking_returns [OF demo_queue(1), of 2 5] demo_queue(2)
  by (simp add: MODULE_MAX_def)

section \<open>Histories\<close>

datatype mq_op =
    Op_init nat u32 | Op_deinit nat | Op_send "message option" | Op_recv nat bool
  | Op_recv_blocking nat bool nat | Op_clear nat

fun mq_exec :: "mq_op \<Rightarrow> mq_state \<Rightarrow> mq_state option" where
  "mq_exec (Op_init i n) s = Some (snd (msg_queue_init s i n))"
| "mq_exec (Op_deinit i) s = map_option snd (msg_queue_deinit s i)"
| "mq_exec (Op_send m) s = map_option snd (msg_queue_send s m)"
| "mq_exec (Op_recv i b) s = map_option (snd \<circ> snd) (msg_queue_recv s i b)"
| "mq_exec (Op_recv_blocking i b t) s = map_option (snd \<circ> snd) (msg_queue_recv_blocking s i b t)"
| "mq_exec (Op_clear i) s = map_option snd (msg_queue_clear s i)"

fun mq_run :: "mq_op list \<Rightarrow> mq_state \<Rightarrow> mq_state option" where
  "mq_run [] s = Some s"
| "mq_run (p # ps) s = do { s \<leftarrow> mq_exec p s; mq_run ps s }"

text \<open>Initialising a queue a second time is what a careful caller does not do.\<close>

fun mq_allowed :: "mq_op \<Rightarrow> mq_state \<Rightarrow> bool" where
  "mq_allowed (Op_init i n) s = (\<not> (i < MODULE_MAX \<and> q_is_initialized (mq_queues s i)))"
| "mq_allowed _ s = True"

fun mq_careful :: "mq_op list \<Rightarrow> mq_state \<Rightarrow> bool" where
  "mq_careful [] s = True"
| "mq_careful (p # ps) s =
     (mq_allowed p s \<and> (case mq_exec p s of None \<Rightarrow> True | Some s' \<Rightarrow> mq_careful ps s'))"

text \<open>Every allocated node is in a queue, and a queue that is not initialised has none.\<close>

definition mq_owned :: "mq_state \<Rightarrow> (nat \<Rightarrow> nat list) \<Rightarrow> bool" where
  "mq_owned s own \<longleftrightarrow>
     dom (mq_heap s) = (\<Union>i<MODULE_MAX. set (own i)) \<and>
     (\<forall>i<MODULE_MAX. \<not> q_is_initialized (mq_queues s i) \<longrightarrow> own i = [])"

definition mq_keeps :: "mq_state \<Rightarrow> (nat \<Rightarrow> nat list) \<Rightarrow> bool \<Rightarrow> mq_state \<Rightarrow> bool" where
  "mq_keeps s own allowed s' \<longleftrightarrow>
     (\<exists>own'. mq_inv s' own' \<and> (allowed \<longrightarrow> mq_owned s own \<longrightarrow> mq_owned s' own'))"

lemma mq_keeps_refl: "mq_inv s own \<Longrightarrow> mq_keeps s own b s"
  by (auto simp: mq_keeps_def)

lemma mq_keeps_update:
  assumes inv: "mq_inv s own" and i: "i < MODULE_MAX" and ok: "queue_ok s' i as"
    and queues: "\<And>j. j \<noteq> i \<Longrightarrow> mq_queues s' j = mq_queues s j"
    and heap: "\<And>b. b \<notin> insert (mq_brk s) (set (own i)) \<Longrightarrow> mq_heap s' b = mq_heap s b"
    and sub: "set as \<subseteq> insert (mq_brk s) (set (own i))" and brk: "mq_brk s \<le> mq_brk s'"
    and owned: "allowed \<Longrightarrow> mq_owned s own \<Longrightarrow> dom (mq_heap s') = dom (mq_heap s) - set (own i) \<union> set as \<and>
                (q_is_initialized (mq_queues s' i) \<or> as = [])"
  shows "mq_keeps s own allowed s'"
proof -
  have "mq_owned s' (own(i := as))" if a: "allowed" and o: "mq_owned s own"
  proof -
    have "(\<Union>j<MODULE_MAX. set ((own(i := as)) j)) = (\<Union>j<MODULE_MAX. set (own j)) - set (own i) \<union> set as"
      using i inv unfolding mq_inv_def by (auto split: if_splits) blast+
    with o owned [OF a o] queues i show ?thesis by (auto simp: mq_owned_def)
  qed
  with mq_inv_update [OF assms(1-7)] show ?thesis by (auto simp: mq_keeps_def)
qed
lemma send_defined:
  assumes inv: "mq_inv s own"
  shows "\<exists>r s'. msg_queue_send s m = Some (r, s') \<and> mq_keeps s own b s'"
proof (cases m)
  case None
  with mq_keeps_refl [OF inv] show ?thesis by (simp add: msg_queue_send_def)
next
  case (Some msg)
  define i where "i = hdr_dst_module (msg_hdr msg)"
  consider (guard) r where "msg_queue_send s m = Some (r, s)"
    | (fail) "msg_queue_send s m = Some (RET_ERR_INTERNAL, s\<lparr>mq_brk := Suc (mq_brk s)\<rparr>)"
    | (ok) "i < MODULE_MAX" "q_is_initialized (mq_queues s i)"
        "q_count (mq_queues s i) < q_max_size (mq_queues s i)" "\<not> mq_malloc_fails s (mq_brk s)"
  proof -
    have "(\<exists>r. msg_queue_send s m = Some (r, s)) \<or>
        msg_queue_send s m = Some (RET_ERR_INTERNAL, s\<lparr>mq_brk := Suc (mq_brk s)\<rparr>) \<or>
        i < MODULE_MAX \<and> q_is_initialized (mq_queues s i) \<and>
        q_count (mq_queues s i) < q_max_size (mq_queues s i) \<and> \<not> mq_malloc_fails s (mq_brk s)"
      by (cases "i < MODULE_MAX"; cases "q_is_initialized (mq_queues s i)";
          cases "q_count (mq_queues s i) < q_max_size (mq_queues s i)"; cases "mq_malloc_fails s (mq_brk s)")
         (simp_all add: Some msg_queue_send_def i_def create_node_def Let_def not_less)
    then show ?thesis using guard fail ok by blast
  qed
  then show ?thesis
  proof cases
    case guard
    with mq_keeps_refl [OF inv] show ?thesis by auto
  next
    case fail
    have "mq_inv (s\<lparr>mq_brk := Suc (mq_brk s)\<rparr>) own"
      using inv by (auto simp: mq_inv_def queue_ok_def less_Suc_eq)
    then have "mq_keeps s own b (s\<lparr>mq_brk := Suc (mq_brk s)\<rparr>)"
      by (auto simp: mq_keeps_def mq_owned_def)
    with fail show ?thesis by auto
  next
    case ok
    have q: "queue_ok s i (own i)" using inv ok by (simp add: mq_inv_def)
    from send_links [OF q i_def ok] obtain h' q' as' where s':
        "msg_queue_send s (Some msg) = Some (RET_OK,
           (with_node s msg)\<lparr>mq_heap := h', mq_queues := (mq_queues s)(i := q')\<rparr>)"
        "queue_ok ((with_node s msg)\<lparr>mq_heap := h', mq_queues := (mq_queues s)(i := q')\<rparr>) i as'"
        "set as' = insert (mq_brk s) (set (own i))" "q_is_initialized q'"
        "\<And>b. b \<notin> insert (mq_brk s) (set (own i)) \<Longrightarrow> h' b = mq_heap s b"
        "dom h' = insert (mq_brk s) (dom (mq_heap s))"
      by blast
    have "mq_keeps s own b ((with_node s msg)\<lparr>mq_heap := h', mq_queues := (mq_queues s)(i := q')\<rparr>)"
      by (rule mq_keeps_update [OF inv ok(1) s'(2)])
         (use s' queue_ok_dom [OF q] in \<open>auto simp: with_node_def\<close>)
    with s'(1) Some show ?thesis by auto
  qed
qed

lemma recv_defined:
  assumes inv: "mq_inv s own"
  shows "\<exists>r m s'. msg_queue_recv s i buf = Some (r, m, s') \<and> mq_keeps s own b s' \<and>
                   (r = RET_OK \<or> s' = s)"
proof -
  consider (guard) r m where "msg_queue_recv s i buf = Some (r, m, s)"
    | (ok) "i < MODULE_MAX" "q_is_initialized (mq_queues s i)" "q_count (mq_queues s i) \<noteq> 0" buf
    by (cases "i < MODULE_MAX"; cases "q_is_initialized (mq_queues s i)";
        cases "q_count (mq_queues s i) = 0"; cases buf) (simp_all add: msg_queue_recv_def not_less)
  then show ?thesis
  proof cases
    case guard
    with mq_keeps_refl [OF inv] show ?thesis by auto
  next
    case ok
    have q: "queue_ok s i (own i)" using inv ok by (simp add: mq_inv_def)
    with ok queue_ok_nonempty_iff obtain a as where as: "own i = a # as" by (cases "own i") auto
    from recv_takes [OF q [unfolded as] ok(1,2)] obtain q' where s': "msg_queue_recv s i True =
        Some (RET_OK, Some (node_msg (the (mq_heap s a))),
              s\<lparr>mq_heap := (mq_heap s)(a := None), mq_queues := (mq_queues s)(i := q')\<rparr>)"
      "queue_ok (s\<lparr>mq_heap := (mq_heap s)(a := None), mq_queues := (mq_queues s)(i := q')\<rparr>) i as"
      "q_is_initialized q'"
      by blast
    have "mq_keeps s own b (s\<lparr>mq_heap := (mq_heap s)(a := None), mq_queues := (mq_queues s)(i := q')\<rparr>)"
      by (rule mq_keeps_update [OF inv ok(1) s'(2)])
         (use s' as queue_ok_dom [OF q] q in \<open>auto simp: queue_ok_def\<close>)
    with s'(1) ok(4) show ?thesis by auto
  qed
qed

lemma recv_poll_defined:
  "mq_inv s own \<Longrightarrow> \<exists>r m s'. recv_poll s i t w = Some (r, m, s') \<and> mq_keeps s own b s'"
proof (induction s i t w rule: recv_poll.induct)
  case (1 s i t w)
  from recv_defined [OF 1(2), of i True] obtain r m s' where recv: "msg_queue_recv s i True = Some (r, m, s')"
      and keeps: "mq_keeps s own b s'" and same: "r \<noteq> RET_OK \<Longrightarrow> s' = s" by blast
  show ?case
    using 1(1) [OF recv refl refl] same keeps 1(2)
    by (subst recv_poll.simps) (auto simp: recv)
qed

lemma free_defined:
  assumes inv: "mq_inv s own" and i: "i < MODULE_MAX"
    and q: "q_head q = None" "q_tail q = None" "q_count q = 0"
  shows "\<exists>s'. free_nodes s (q_head (mq_queues s i)) = Some s' \<and>
              mq_keeps s own b (upd_queue i (\<lambda>_. q) s') \<and> mq_queues s' = mq_queues s"
proof -
  have ok: "queue_ok s i (own i)" using inv i by (simp add: mq_inv_def)
  have "mq_keeps s own b (upd_queue i (\<lambda>_. q) (s\<lparr>mq_heap := mq_heap s |` (- set (own i))\<rparr>))"
    by (rule mq_keeps_update [OF inv i, where as = "[]"])
       (use q queue_ok_dom [OF ok] in \<open>auto simp: queue_ok_def restrict_map_def dom_def\<close>)
  with free_queue [OF ok] show ?thesis by simp
qed

lemma mq_exec_defined:
  assumes inv: "mq_inv s own"
  shows "\<exists>s'. mq_exec p s = Some s' \<and> mq_keeps s own (mq_allowed p s) s'"
proof (cases p)
  case (Op_init i n)
  show ?thesis
  proof (cases "i < MODULE_MAX \<and> n \<noteq> 0")
    case True
    then have "mq_keeps s own (mq_allowed p s) (snd (msg_queue_init s i n))"
      by (intro mq_keeps_update [OF inv, where i = i and as = "[]"])
         (auto simp: msg_queue_init_def queue_ok_def Op_init mq_owned_def)
    with Op_init show ?thesis by simp
  next
    case False
    with mq_keeps_refl [OF inv] Op_init show ?thesis by (auto simp: msg_queue_init_def)
  qed
next
  case (Op_deinit i)
  show ?thesis
  proof (cases "i < MODULE_MAX")
    case True
    from free_defined [OF inv True, of "\<lparr>q_head = None, q_tail = None, q_count = 0,
                q_max_size = 0, q_is_initialized = False\<rparr>" "mq_allowed p s"] mq_keeps_refl [OF inv]
    show ?thesis by (auto simp: msg_queue_deinit_def Op_deinit)
  next
    case False
    with mq_keeps_refl [OF inv] Op_deinit show ?thesis by (simp add: msg_queue_deinit_def)
  qed
next
  case (Op_clear i)
  show ?thesis
  proof (cases "i < MODULE_MAX")
    case True
    from free_defined [OF inv True, of "(mq_queues s i)\<lparr>q_head := None, q_tail := None, q_count := 0\<rparr>"
        "mq_allowed p s"] mq_keeps_refl [OF inv]
    show ?thesis by (auto simp: msg_queue_clear_def Op_clear)
  next
    case False
    with mq_keeps_refl [OF inv] Op_clear show ?thesis by (simp add: msg_queue_clear_def)
  qed
next
  case (Op_send m)
  with send_defined [OF inv, of m True] show ?thesis by auto
next
  case (Op_recv i buf)
  with recv_defined [OF inv, of i buf True] show ?thesis by auto
next
  case (Op_recv_blocking i buf t)
  with recv_poll_defined [OF inv, of i t 0 True] mq_keeps_refl [OF inv] show ?thesis
    by (auto simp: msg_queue_recv_blocking_def)
qed

lemma mq_run_defined:
  "mq_inv s own \<Longrightarrow> \<exists>s' own'. mq_run ps s = Some s' \<and> mq_inv s' own' \<and>
     (mq_careful ps s \<longrightarrow> mq_owned s own \<longrightarrow> mq_owned s' own')"
proof (induction ps arbitrary: s own)
  case (Cons p ps)
  from mq_exec_defined [OF Cons.prems, of p] obtain s1 own1 where
    "mq_exec p s = Some s1" "mq_inv s1 own1"
    "mq_allowed p s \<longrightarrow> mq_owned s own \<longrightarrow> mq_owned s1 own1"
    by (auto simp: mq_keeps_def)
  with Cons.IH [of s1 own1] show ?case by auto
qed auto

text \<open>
  C39: whatever sequence of queue operations runs from program start, and whenever \<open>malloc\<close>
  fails, no operation follows a dangling or missing pointer, and afterwards every queue is a
  well-formed list, sorted by priority, whose count is its length and within its capacity.
\<close>

theorem msg_queue_histories_are_safe:
  "\<exists>s' Q. mq_run ps (mq_boot\<lparr>mq_malloc_fails := f\<rparr>) = Some s' \<and> mq_rep s' Q \<and>
     (\<forall>i<MODULE_MAX. unat (q_count (mq_queues s' i)) = length (Q i) \<and> sorted (map urgency (Q i)))"
proof -
  have "mq_inv (mq_boot\<lparr>mq_malloc_fails := f\<rparr>) (\<lambda>_. [])"
    by (simp add: mq_inv_def queue_ok_def mq_boot_def)
  from mq_run_defined [OF this, of ps] obtain s' own' where
    "mq_run ps (mq_boot\<lparr>mq_malloc_fails := f\<rparr>) = Some s'" "mq_inv s' own'" by blast
  moreover from this have "mq_rep s' (\<lambda>i. contents (mq_heap s') (own' i))"
    unfolding mq_rep_def by blast
  ultimately show ?thesis
    by (intro exI [of _ s'] exI [of _ "\<lambda>i. contents (mq_heap s') (own' i)"])
       (simp add: mq_inv_def queue_ok_def)
qed

theorem msg_queue_histories_are_safe_witness:
  "\<exists>s' Q. mq_run [Op_init 2 3, Op_send (Some (demo_message MSG_PRIORITY_LOW 1)), Op_recv 2 True,
                Op_recv_blocking 2 True 9, Op_init 2 1, Op_deinit 2]
         (mq_boot\<lparr>mq_malloc_fails := (\<lambda>a. a = 0)\<rparr>) = Some s' \<and> mq_rep s' Q"
  using msg_queue_histories_are_safe [of "[Op_init 2 3, Op_send (Some (demo_message MSG_PRIORITY_LOW 1)),
      Op_recv 2 True, Op_recv_blocking 2 True 9, Op_init 2 1, Op_deinit 2]" "\<lambda>a. a = 0"]
  by blast

text \<open>
  If no queue is initialised while it is already in use, no message node is ever lost:
  every node still allocated is in one of the queues, so after the last queue is shut down the
  heap is empty.
\<close>

theorem msg_queue_careful_histories_do_not_leak:
  assumes "mq_careful ps (mq_boot\<lparr>mq_malloc_fails := f\<rparr>)"
    and "mq_run ps (mq_boot\<lparr>mq_malloc_fails := f\<rparr>) = Some s'"
    and "\<forall>i<MODULE_MAX. \<not> q_is_initialized (mq_queues s' i)"
  shows "mq_heap s' = Map.empty"
proof -
  have "mq_inv (mq_boot\<lparr>mq_malloc_fails := f\<rparr>) (\<lambda>_. [])" "mq_owned (mq_boot\<lparr>mq_malloc_fails := f\<rparr>) (\<lambda>_. [])"
    by (simp_all add: mq_inv_def queue_ok_def mq_boot_def mq_owned_def)
  from mq_run_defined [OF this(1), of ps] this(2) assms obtain own' where "mq_owned s' own'" by auto
  with assms(3) have "dom (mq_heap s') = {}" by (simp add: mq_owned_def)
  then show ?thesis by simp
qed

theorem msg_queue_careful_histories_do_not_leak_witness:
  "\<exists>s'. mq_run [Op_init 2 3, Op_send (Some (demo_message MSG_PRIORITY_LOW 1)), Op_deinit 2]
         (mq_boot\<lparr>mq_malloc_fails := (\<lambda>_. False)\<rparr>) = Some s' \<and> mq_heap s' = Map.empty"
proof -
  let ?ps = "[Op_init 2 3, Op_send (Some (demo_message MSG_PRIORITY_LOW 1)), Op_deinit 2]"
  let ?s = "mq_boot\<lparr>mq_malloc_fails := (\<lambda>_. False)\<rparr>"
  note defs = mq_boot_def msg_queue_init_def msg_queue_send_def create_node_def
    get_timestamp_ms_def MODULE_MAX_def msg_queue_deinit_def free_nodes.simps destroy_node_def
  have "mq_careful ?ps ?s" by (simp add: defs)
  moreover have "\<exists>s'. mq_run ?ps ?s = Some s' \<and> (\<forall>i<MODULE_MAX. \<not> q_is_initialized (mq_queues s' i))"
    by (simp add: defs)
  ultimately show ?thesis
    using msg_queue_careful_histories_do_not_leak [of ?ps "\<lambda>_. False"] by blast
qed

text \<open>Initialising a queue in use drops its nodes without freeing them.\<close>

lemma msg_queue_init_leaks:
  "map_option (\<lambda>s. (card (dom (mq_heap s)), msg_queue_get_count s 2))
     (mq_run [Op_init 2 3, Op_send (Some (demo_message MSG_PRIORITY_LOW 1)), Op_init 2 3] mq_boot) =
   Some (1, 0)"
  by (simp add: mq_boot_def msg_queue_init_def msg_queue_send_def create_node_def get_timestamp_ms_def
      MODULE_MAX_def msg_queue_get_count_def)

end
