(* ===== verification/PageStore.thy ===== *)
theory PageStore
  imports Prelude
begin

text \<open>
  The interface shared by every layer that stores pages under numbers: the mirrored and striped
  arrays of the RAID layer and the flash translation layer.  A write that succeeds is read back
  until the next write to the same page, and does not disturb other pages.  What follows from
  this for a sequence of writes is proved here once.
\<close>

fun write_all :: "('s \<Rightarrow> 'k \<Rightarrow> 'v \<Rightarrow> 's option) \<Rightarrow> 's \<Rightarrow> ('k \<times> 'v) list \<Rightarrow> 's option" where
  "write_all wr s [] = Some s"
| "write_all wr s ((k, v) # kvs) = do { s \<leftarrow> wr s k v; write_all wr s kvs }"

lemma write_all_append:
  "write_all wr s (xs @ ys) = do { s \<leftarrow> write_all wr s xs; write_all wr s ys }"
  by (induction xs arbitrary: s) (auto split: bind_splits)

locale page_store =
  fixes wr :: "'s \<Rightarrow> 'k \<Rightarrow> 'v \<Rightarrow> 's option"
    and rd :: "'s \<Rightarrow> 'k \<Rightarrow> 'v option"
    and ok :: "'s \<Rightarrow> bool"
  assumes wr_ok: "ok s \<Longrightarrow> wr s k v = Some s' \<Longrightarrow> ok s'"
    and rd_wr_same: "ok s \<Longrightarrow> wr s k v = Some s' \<Longrightarrow> rd s' k = Some v"
    and rd_wr_other: "ok s \<Longrightarrow> wr s k v = Some s' \<Longrightarrow> k' \<noteq> k \<Longrightarrow> rd s' k' = rd s k'"
begin

lemma write_all_ok: "ok s \<Longrightarrow> write_all wr s kvs = Some s' \<Longrightarrow> ok s'"
proof (induction kvs arbitrary: s)
  case (Cons kv kvs)
  then obtain s1 where "wr s (fst kv) (snd kv) = Some s1" "write_all wr s1 kvs = Some s'"
    by (cases kv) (auto split: bind_splits)
  with Cons show ?case by (blast intro: wr_ok)
qed simp

text \<open>Reading after a sequence of writes yields the last value written, else the old one.\<close>

lemma read_after_writes:
  assumes "ok s" and "write_all wr s kvs = Some s'"
  shows "rd s' k = (case map_of (rev kvs) k of Some v \<Rightarrow> Some v | None \<Rightarrow> rd s k)"
  using assms
proof (induction kvs arbitrary: s)
  case (Cons kv kvs)
  obtain k0 v0 where kv: "kv = (k0, v0)" by (cases kv)
  with Cons.prems(2) obtain s1 where s1: "wr s k0 v0 = Some s1" "write_all wr s1 kvs = Some s'"
    by (auto split: bind_splits)
  note Cons.IH [OF wr_ok [OF Cons.prems(1) s1(1)] s1(2)]
  with kv rd_wr_same [OF Cons.prems(1) s1(1)] rd_wr_other [OF Cons.prems(1) s1(1)] show ?case
    by (cases "k = k0") (auto simp: map_add_def split: option.splits)
qed simp

text \<open>Pages that no write names are as before.\<close>

lemma unwritten_pages_keep:
  "ok s \<Longrightarrow> write_all wr s kvs = Some s' \<Longrightarrow> k \<notin> fst ` set kvs \<Longrightarrow> rd s' k = rd s k"
proof -
  assume "ok s" "write_all wr s kvs = Some s'" "k \<notin> fst ` set kvs"
  moreover from this(3) have "map_of (rev kvs) k = None" by (simp add: map_of_eq_None_iff)
  ultimately show ?thesis by (simp add: read_after_writes)
qed

end

end
