(* ===== verification/Raid.thy ===== *)
theory Raid
  imports PageStore
begin

text \<open>
  The RAID layer, \<open>modules/raid/raid.c\<close> and \<open>raid.h\<close>: RAID 0 striping and RAID 1 mirroring
  over at most eight members, each with its own page buffer.  The members' buffers are byte
  memories; a member without a buffer has a null pointer, and copying through it, like a
  division by a stripe size of zero, has no defined result.  The console report
  \<open>raid_print_status\<close> is output only and not modelled.
\<close>

section \<open>Data\<close>

definition RAID_MAX_MEMBERS :: nat where
  "RAID_MAX_MEMBERS = 8"

definition MEMBER_LPNS :: nat where
  "MEMBER_LPNS = 1024"

definition UINT64_MAX :: nat where
  "UINT64_MAX = 2 ^ 64 - 1"

datatype raid_level = RAID_LEVEL_0 | RAID_LEVEL_1 | RAID_LEVEL_MAX

datatype raid_state = RAID_STATE_UNINIT | RAID_STATE_READY | RAID_STATE_DEGRADED | RAID_STATE_ERROR

record raid_config =
  cfg_level :: raid_level
  cfg_member_count :: nat
  cfg_stripe_size :: nat
  cfg_auto_rebuild :: bool

record raid_member =
  mb_is_valid :: bool
  mb_is_online :: bool
  mb_ftl_instance_id :: u32
  mb_total_lpns :: nat
  mb_read_count :: u64
  mb_write_count :: u64
  mb_error_count :: u64

text \<open>The private data of a member adds the buffer to what \<open>raid_get_member_info\<close> reports.\<close>

record raid_member_priv = raid_member +
  mb_data_buffer :: "(nat \<Rightarrow> u8) option"
  mb_buffer_size :: nat

record raid_stats =
  rst_total_reads :: u64
  rst_total_writes :: u64
  rst_total_read_bytes :: u64
  rst_total_write_bytes :: u64
  rst_rebuild_count :: u64
  rst_error_count :: u64

record raid_controller =
  r_is_initialized :: bool
  r_config :: raid_config
  r_state :: raid_state
  r_members :: "nat \<Rightarrow> raid_member_priv"
  r_stats :: raid_stats
  r_logical_capacity :: nat

text \<open>The zeroed global \<open>g_raid\<close> at program start, and after the \<open>memset\<close>.\<close>

definition zero_member :: raid_member_priv where
  "zero_member = \<lparr>mb_is_valid = False, mb_is_online = False, mb_ftl_instance_id = 0,
     mb_total_lpns = 0, mb_read_count = 0, mb_write_count = 0, mb_error_count = 0,
     mb_data_buffer = None, mb_buffer_size = 0\<rparr>"

definition raid_zero :: raid_controller where
  "raid_zero = \<lparr>r_is_initialized = False,
     r_config = \<lparr>cfg_level = RAID_LEVEL_0, cfg_member_count = 0, cfg_stripe_size = 0,
                 cfg_auto_rebuild = False\<rparr>,
     r_state = RAID_STATE_UNINIT, r_members = (\<lambda>_. zero_member),
     r_stats = \<lparr>rst_total_reads = 0, rst_total_writes = 0, rst_total_read_bytes = 0,
                rst_total_write_bytes = 0, rst_rebuild_count = 0, rst_error_count = 0\<rparr>,
     r_logical_capacity = 0\<rparr>"

abbreviation online :: "raid_controller \<Rightarrow> nat \<Rightarrow> bool" where
  "online r i \<equiv> mb_is_valid (r_members r i) \<and> mb_is_online (r_members r i)"

abbreviation upd_member ::
    "nat \<Rightarrow> (raid_member_priv \<Rightarrow> raid_member_priv) \<Rightarrow> raid_controller \<Rightarrow> raid_controller" where
  "upd_member i f r \<equiv> r\<lparr>r_members := (r_members r)(i := f (r_members r i))\<rparr>"

abbreviation upd_stats :: "(raid_stats \<Rightarrow> raid_stats) \<Rightarrow> raid_controller \<Rightarrow> raid_controller" where
  "upd_stats f r \<equiv> r\<lparr>r_stats := f (r_stats r)\<rparr>"

section \<open>Operations\<close>

definition calculate_logical_capacity :: "raid_controller \<Rightarrow> nat" where
  "calculate_logical_capacity r =
     (let min_capacity = fold (\<lambda>i m. if online r i \<and> mb_total_lpns (r_members r i) < m
                                     then mb_total_lpns (r_members r i) else m)
                           [0..<RAID_MAX_MEMBERS] UINT64_MAX in
      if min_capacity = UINT64_MAX then 0
      else (case cfg_level (r_config r) of
              RAID_LEVEL_0 \<Rightarrow> min_capacity * cfg_member_count (r_config r)
            | RAID_LEVEL_1 \<Rightarrow> min_capacity
            | RAID_LEVEL_MAX \<Rightarrow> 0))"

definition raid0_map :: "raid_controller \<Rightarrow> nat \<Rightarrow> (nat \<times> nat) option" where
  "raid0_map r lpn =
     (let ss = cfg_stripe_size (r_config r); n = cfg_member_count (r_config r) in
      if ss = 0 \<or> n = 0 then None
      else (let stripe = lpn div ss; offset = lpn mod ss in
            Some (stripe mod n, stripe div n * ss + offset)))"

definition member_read ::
    "raid_controller \<Rightarrow> nat \<Rightarrow> nat \<Rightarrow> bool \<Rightarrow> (ret_code \<times> u8 list option \<times> raid_controller) option" where
  "member_read r i lpn has_buf =
     (if RAID_MAX_MEMBERS \<le> i then Some (RET_ERR_PARAM, None, r)
      else if \<not> has_buf then Some (RET_ERR_PARAM, None, r)
      else if \<not> online r i then Some (RET_ERR_INTERNAL, None, r)
      else if mb_total_lpns (r_members r i) \<le> lpn then Some (RET_ERR_PARAM, None, r)
      else do {
        m \<leftarrow> mb_data_buffer (r_members r i);
        let page = mem_read m (lpn * NAND_PAGE_SIZE) NAND_PAGE_SIZE;
        let r = upd_member i (\<lambda>mb. mb\<lparr>mb_read_count := mb_read_count mb + 1\<rparr>) r;
        let r = upd_stats (\<lambda>st. st\<lparr>rst_total_reads := rst_total_reads st + 1,
                  rst_total_read_bytes := rst_total_read_bytes st + of_nat NAND_PAGE_SIZE\<rparr>) r;
        Some (RET_OK, Some page, r)
      })"

definition member_write ::
    "raid_controller \<Rightarrow> nat \<Rightarrow> nat \<Rightarrow> u8 list option \<Rightarrow> (ret_code \<times> raid_controller) option" where
  "member_write r i lpn buf =
     (if RAID_MAX_MEMBERS \<le> i then Some (RET_ERR_PARAM, r)
      else case buf of
        None \<Rightarrow> Some (RET_ERR_PARAM, r)
      | Some bs \<Rightarrow>
          if \<not> online r i then Some (RET_ERR_INTERNAL, r)
          else if mb_total_lpns (r_members r i) \<le> lpn then Some (RET_ERR_PARAM, r)
          else if length bs < NAND_PAGE_SIZE then None
          else do {
            m \<leftarrow> mb_data_buffer (r_members r i);
            let m = mem_write m (lpn * NAND_PAGE_SIZE) (take NAND_PAGE_SIZE bs);
            let r = upd_member i (\<lambda>mb. mb\<lparr>mb_data_buffer := Some m,
                                           mb_write_count := mb_write_count mb + 1\<rparr>) r;
            let r = upd_stats (\<lambda>st. st\<lparr>rst_total_writes := rst_total_writes st + 1,
                      rst_total_write_bytes := rst_total_write_bytes st + of_nat NAND_PAGE_SIZE\<rparr>) r;
            Some (RET_OK, r)
          })"

definition raid_init :: "raid_controller \<Rightarrow> raid_config option \<Rightarrow> ret_code \<times> raid_controller" where
  "raid_init r config =
     (case config of
        None \<Rightarrow> (RET_ERR_PARAM, r)
      | Some c \<Rightarrow>
          if cfg_level c = RAID_LEVEL_MAX then (RET_ERR_PARAM, r)
          else if cfg_member_count c = 0 \<or> RAID_MAX_MEMBERS < cfg_member_count c then (RET_ERR_PARAM, r)
          else if cfg_level c = RAID_LEVEL_1 \<and> cfg_member_count c mod 2 \<noteq> 0 then (RET_ERR_PARAM, r)
          else if r_is_initialized r then (RET_OK, r)
          else (RET_OK, raid_zero\<lparr>r_config := c, r_state := RAID_STATE_READY, r_is_initialized := True\<rparr>))"

definition raid_deinit :: "raid_controller \<Rightarrow> ret_code \<times> raid_controller" where
  "raid_deinit r =
     (if \<not> r_is_initialized r then (RET_OK, r)
      else (RET_OK, r\<lparr>r_members := (\<lambda>i. if i < RAID_MAX_MEMBERS
                                       then (r_members r i)\<lparr>mb_data_buffer := None\<rparr> else r_members r i),
                      r_is_initialized := False, r_state := RAID_STATE_UNINIT\<rparr>))"

text \<open>The flag \<open>alloc\<close> says whether \<open>calloc\<close> delivers the buffer.\<close>

definition raid_add_member :: "raid_controller \<Rightarrow> bool \<Rightarrow> nat \<Rightarrow> u32 \<Rightarrow> ret_code \<times> raid_controller" where
  "raid_add_member r alloc i ftl_instance_id =
     (if \<not> r_is_initialized r then (RET_ERR_NOT_INIT, r)
      else if RAID_MAX_MEMBERS \<le> i then (RET_ERR_PARAM, r)
      else if mb_is_valid (r_members r i) then (RET_ERR_INTERNAL, r)
      else
        let r = upd_member i (\<lambda>mb. mb\<lparr>mb_total_lpns := MEMBER_LPNS\<rparr>) r;
            buffer_size = MEMBER_LPNS * NAND_PAGE_SIZE in
        if \<not> alloc
        then (RET_ERR_NO_SPACE, upd_member i (\<lambda>mb. mb\<lparr>mb_data_buffer := None\<rparr>) r)
        else
          let r = upd_member i (\<lambda>mb. mb\<lparr>mb_data_buffer := Some (\<lambda>_. 0), mb_is_valid := True,
                    mb_is_online := True, mb_ftl_instance_id := ftl_instance_id,
                    mb_buffer_size := buffer_size, mb_read_count := 0, mb_write_count := 0,
                    mb_error_count := 0\<rparr>) r in
          (RET_OK, r\<lparr>r_logical_capacity := calculate_logical_capacity r\<rparr>))"

definition raid_remove_member :: "raid_controller \<Rightarrow> nat \<Rightarrow> ret_code \<times> raid_controller" where
  "raid_remove_member r i =
     (if \<not> r_is_initialized r then (RET_ERR_NOT_INIT, r)
      else if RAID_MAX_MEMBERS \<le> i then (RET_ERR_PARAM, r)
      else if \<not> mb_is_valid (r_members r i) then (RET_OK, r)
      else
        let r = upd_member i (\<lambda>mb. mb\<lparr>mb_data_buffer := None, mb_is_valid := False,
                                       mb_is_online := False\<rparr>) r in
        (RET_OK, r\<lparr>r_logical_capacity := calculate_logical_capacity r\<rparr>))"

text \<open>
  The mirror loops of \<open>raid_read\<close> and \<open>raid_write\<close>.  The read loop leaves at the first member
  that delivers the page; when it runs to the end the caller reports INTERNAL.
\<close>

definition mirror_read_body ::
    "nat \<Rightarrow> nat \<Rightarrow> raid_controller \<Rightarrow> (u8 list option, raid_controller) ctl option" where
  "mirror_read_body lpn i r =
     (if online r i then do {
        (ret, page, r) \<leftarrow> member_read r i lpn True;
        Some (if ret = RET_OK then Leave page r else Next r)
      } else Some (Next r))"

definition mirror_write_body ::
    "nat \<Rightarrow> u8 list \<Rightarrow> nat \<Rightarrow> raid_controller \<Rightarrow> (ret_code, raid_controller) ctl option" where
  "mirror_write_body lpn bs i r =
     (if online r i then do {
        (ret, r) \<leftarrow> member_write r i lpn (Some bs);
        Some (if ret \<noteq> RET_OK
              then Leave ret (upd_member i (\<lambda>mb. mb\<lparr>mb_error_count := mb_error_count mb + 1\<rparr>) r)
              else Next r)
      } else Some (Next r))"

definition count_error :: "ret_code \<Rightarrow> raid_controller \<Rightarrow> raid_controller" where
  "count_error ret r =
     (if ret \<noteq> RET_OK then upd_stats (\<lambda>st. st\<lparr>rst_error_count := rst_error_count st + 1\<rparr>) r else r)"

definition raid_read ::
    "raid_controller \<Rightarrow> nat \<Rightarrow> bool \<Rightarrow> (ret_code \<times> u8 list option \<times> raid_controller) option" where
  "raid_read r lpn has_buf =
     (if \<not> r_is_initialized r then Some (RET_ERR_NOT_INIT, None, r)
      else if \<not> has_buf then Some (RET_ERR_PARAM, None, r)
      else if r_logical_capacity r \<le> lpn then Some (RET_ERR_PARAM, None, r)
      else do {
        (ret, page, r) \<leftarrow>
          (case cfg_level (r_config r) of
             RAID_LEVEL_0 \<Rightarrow> do {
               (i, member_lpn) \<leftarrow> raid0_map r lpn;
               member_read r i member_lpn True
             }
           | RAID_LEVEL_1 \<Rightarrow> do {
               c \<leftarrow> for_each [0..<cfg_member_count (r_config r)] (mirror_read_body lpn) r;
               Some (case c of Leave page r \<Rightarrow> (RET_OK, page, r) | Next r \<Rightarrow> (RET_ERR_INTERNAL, None, r))
             }
           | RAID_LEVEL_MAX \<Rightarrow> Some (RET_ERR_NOT_SUPPORT, None, r));
        Some (ret, page, count_error ret r)
      })"

definition raid_write ::
    "raid_controller \<Rightarrow> nat \<Rightarrow> u8 list option \<Rightarrow> (ret_code \<times> raid_controller) option" where
  "raid_write r lpn buf =
     (if \<not> r_is_initialized r then Some (RET_ERR_NOT_INIT, r)
      else case buf of
        None \<Rightarrow> Some (RET_ERR_PARAM, r)
      | Some bs \<Rightarrow>
          if r_logical_capacity r \<le> lpn then Some (RET_ERR_PARAM, r)
          else do {
            (ret, r) \<leftarrow>
              (case cfg_level (r_config r) of
                 RAID_LEVEL_0 \<Rightarrow> do {
                   (i, member_lpn) \<leftarrow> raid0_map r lpn;
                   member_write r i member_lpn (Some bs)
                 }
               | RAID_LEVEL_1 \<Rightarrow> do {
                   c \<leftarrow> for_each [0..<cfg_member_count (r_config r)] (mirror_write_body lpn bs) r;
                   Some (case c of Leave ret r \<Rightarrow> (ret, r) | Next r \<Rightarrow> (RET_OK, r))
                 }
               | RAID_LEVEL_MAX \<Rightarrow> Some (RET_ERR_NOT_SUPPORT, r));
            Some (ret, count_error ret r)
          })"

definition raid_get_state :: "raid_controller \<Rightarrow> raid_state" where
  "raid_get_state r = (if \<not> r_is_initialized r then RAID_STATE_UNINIT else r_state r)"

definition raid_get_config :: "raid_controller \<Rightarrow> bool \<Rightarrow> ret_code \<times> raid_config option" where
  "raid_get_config r has_buf =
     (if \<not> has_buf then (RET_ERR_PARAM, None)
      else if \<not> r_is_initialized r then (RET_ERR_NOT_INIT, None)
      else (RET_OK, Some (r_config r)))"

definition raid_get_stats :: "raid_controller \<Rightarrow> bool \<Rightarrow> ret_code \<times> raid_stats option" where
  "raid_get_stats r has_buf =
     (if \<not> has_buf then (RET_ERR_PARAM, None)
      else if \<not> r_is_initialized r then (RET_ERR_NOT_INIT, None)
      else (RET_OK, Some (r_stats r)))"

definition raid_get_member_info ::
    "raid_controller \<Rightarrow> nat \<Rightarrow> bool \<Rightarrow> ret_code \<times> raid_member option" where
  "raid_get_member_info r i has_buf =
     (if \<not> has_buf then (RET_ERR_PARAM, None)
      else if RAID_MAX_MEMBERS \<le> i then (RET_ERR_PARAM, None)
      else if \<not> r_is_initialized r then (RET_ERR_NOT_INIT, None)
      else (RET_OK, Some (raid_member.truncate (r_members r i))))"

definition raid_get_logical_capacity :: "raid_controller \<Rightarrow> nat" where
  "raid_get_logical_capacity r = (if \<not> r_is_initialized r then 0 else r_logical_capacity r)"

section \<open>Striping\<close>

definition raid0_unmap :: "raid_controller \<Rightarrow> nat \<times> nat \<Rightarrow> nat" where
  "raid0_unmap r p =
     (let ss = cfg_stripe_size (r_config r); n = cfg_member_count (r_config r) in
      (snd p div ss * n + fst p) * ss + snd p mod ss)"

lemma raid0_unmap_map: "raid0_map r lpn = Some p \<Longrightarrow> raid0_unmap r p = lpn"
  by (auto simp: raid0_map_def raid0_unmap_def Let_def div_mult_mod_eq split: if_splits)

lemma raid0_map_inj: "raid0_map r lpn = Some p \<Longrightarrow> raid0_map r lpn' = Some p \<Longrightarrow> lpn' = lpn"
  using raid0_unmap_map by metis

lemma raid0_map_unmap:
  assumes "0 < cfg_stripe_size (r_config r)" "i < cfg_member_count (r_config r)"
  shows "raid0_map r (raid0_unmap r (i, l)) = Some (i, l)"
  using assms by (simp add: raid0_map_def raid0_unmap_def Let_def div_mult_mod_eq)

lemma raid0_map_member:
  "raid0_map r lpn = Some (i, l) \<Longrightarrow> i < cfg_member_count (r_config r)"
  by (auto simp: raid0_map_def Let_def split: if_splits)

lemma raid0_map_bound:
  assumes map: "raid0_map r lpn = Some (i, l)" and dvd: "cfg_stripe_size (r_config r) dvd c"
    and lpn: "lpn < c * cfg_member_count (r_config r)"
  shows "l < c"
proof -
  let ?ss = "cfg_stripe_size (r_config r)" and ?n = "cfg_member_count (r_config r)"
  from map have pos: "0 < ?ss" "0 < ?n" and l: "l = lpn div ?ss div ?n * ?ss + lpn mod ?ss"
    by (auto simp: raid0_map_def Let_def split: if_splits)
  from dvd obtain k where k: "c = ?ss * k" by blast
  have "lpn < ?ss * (?n * k)" using lpn k by (simp add: ac_simps)
  then have "lpn div ?ss < ?n * k" using pos by (simp add: div_less_iff_less_mult mult.commute)
  then have "lpn div ?ss div ?n < k" using pos by (simp add: div_less_iff_less_mult mult.commute)
  then have "Suc (lpn div ?ss div ?n) * ?ss \<le> k * ?ss" by (intro mult_le_mono1) simp
  moreover have "lpn mod ?ss < ?ss" using pos by simp
  ultimately show ?thesis using k l by (simp add: mult.commute)
qed

lemma raid0_unmap_bound:
  assumes i: "i < cfg_member_count (r_config r)" and l: "l < c"
    and dvd: "cfg_stripe_size (r_config r) dvd c"
  shows "raid0_unmap r (i, l) < c * cfg_member_count (r_config r)"
proof -
  let ?ss = "cfg_stripe_size (r_config r)" and ?n = "cfg_member_count (r_config r)"
  from dvd obtain k where k: "c = ?ss * k" by blast
  with l have ss: "0 < ?ss" by (cases "?ss = 0") auto
  have "l div ?ss < k" using l k ss by (simp add: div_less_iff_less_mult mult.commute)
  then have "Suc (l div ?ss) * ?n \<le> k * ?n" by (intro mult_le_mono1) simp
  with i have "Suc (l div ?ss * ?n + i) \<le> k * ?n" by simp
  then have "Suc (l div ?ss * ?n + i) * ?ss \<le> k * ?n * ?ss" by (intro mult_le_mono1)
  moreover have "l mod ?ss < ?ss" using ss by simp
  ultimately show ?thesis by (simp add: raid0_unmap_def Let_def k ac_simps)
qed

section \<open>Well-formed arrays\<close>

text \<open>A member that is in the array has its buffer, of 1024 pages.\<close>

definition raid_ok :: "raid_controller \<Rightarrow> bool" where
  "raid_ok r \<longleftrightarrow>
     r_is_initialized r \<longrightarrow>
       (\<forall>i<RAID_MAX_MEMBERS. mb_is_valid (r_members r i) \<longrightarrow>
          mb_is_online (r_members r i) \<and> mb_data_buffer (r_members r i) \<noteq> None \<and>
          mb_total_lpns (r_members r i) = MEMBER_LPNS) \<and>
       r_logical_capacity r = calculate_logical_capacity r \<and>
       0 < cfg_member_count (r_config r) \<and> cfg_member_count (r_config r) \<le> RAID_MAX_MEMBERS \<and>
       cfg_level (r_config r) \<noteq> RAID_LEVEL_MAX"

text \<open>Everything but the pages, the statistics and the per-member counters.\<close>

definition same_shape :: "raid_controller \<Rightarrow> raid_controller \<Rightarrow> bool" where
  "same_shape r r' \<longleftrightarrow>
     r_is_initialized r' = r_is_initialized r \<and> r_config r' = r_config r \<and> r_state r' = r_state r \<and>
     r_logical_capacity r' = r_logical_capacity r \<and>
     (\<forall>i. mb_is_valid (r_members r' i) = mb_is_valid (r_members r i) \<and>
          mb_is_online (r_members r' i) = mb_is_online (r_members r i) \<and>
          mb_total_lpns (r_members r' i) = mb_total_lpns (r_members r i) \<and>
          (mb_data_buffer (r_members r' i) = None) = (mb_data_buffer (r_members r i) = None))"

lemma same_shape_refl [simp]: "same_shape r r"
  by (simp add: same_shape_def)

lemma same_shape_trans: "same_shape r r' \<Longrightarrow> same_shape r' r'' \<Longrightarrow> same_shape r r''"
  by (simp add: same_shape_def)

lemma same_shape_simps:
  assumes "same_shape r r'"
  shows "r_is_initialized r' = r_is_initialized r" "r_config r' = r_config r"
    "r_logical_capacity r' = r_logical_capacity r" "mb_is_online (r_members r' i) = mb_is_online (r_members r i)"
    "mb_is_valid (r_members r' i) = mb_is_valid (r_members r i)"
    "mb_total_lpns (r_members r' i) = mb_total_lpns (r_members r i)"
    "raid0_map r' lpn = raid0_map r lpn"
  using assms by (simp_all add: same_shape_def raid0_map_def)

lemma same_shape_ok: "same_shape r r' \<Longrightarrow> raid_ok r' = raid_ok r"
proof -
  assume s: "same_shape r r'"
  then have "(mb_data_buffer (r_members r' i) = None) = (mb_data_buffer (r_members r i) = None)" for i
    by (simp_all add: same_shape_def)
  with same_shape_simps [OF s] show ?thesis
    by (simp add: raid_ok_def calculate_logical_capacity_def del: not_None_eq cong: if_cong raid_level.case_cong)
qed

lemma count_error_shape [simp]:
  "same_shape r (count_error ret r)" "r_members (count_error ret r) = r_members r"
  by (simp_all add: count_error_def same_shape_def)

lemma count_error_OK [simp]: "count_error RET_OK r = r"
  by (simp add: count_error_def)

text \<open>The pages as the members hold them.\<close>

definition member_page :: "raid_controller \<Rightarrow> nat \<Rightarrow> nat \<Rightarrow> u8 list" where
  "member_page r i l =
     mem_read (the (mb_data_buffer (r_members r i))) (l * NAND_PAGE_SIZE) NAND_PAGE_SIZE"

lemma page_offsets_disjoint:
  "k \<noteq> l \<Longrightarrow> k * n + n \<le> l * n \<or> l * n + n \<le> k * n" for k l n :: nat
  by (metis add.commute linorder_neqE_nat mult_Suc mult_le_mono1 Suc_leI)

lemma member_read_online:
  assumes "raid_ok r" "r_is_initialized r" "i < RAID_MAX_MEMBERS" "online r i" "l < MEMBER_LPNS"
  shows "\<exists>r'. member_read r i l True = Some (RET_OK, Some (member_page r i l), r') \<and>
    same_shape r r' \<and> (\<forall>j k. member_page r' j k = member_page r j k)"
  using assms
  by (auto simp: member_read_def raid_ok_def member_page_def same_shape_def Let_def not_le)

lemma member_write_online:
  assumes "raid_ok r" "r_is_initialized r" "i < RAID_MAX_MEMBERS" "online r i" "l < MEMBER_LPNS"
    and len: "NAND_PAGE_SIZE \<le> length bs"
  shows "\<exists>r'. member_write r i l (Some bs) = Some (RET_OK, r') \<and> same_shape r r' \<and>
    (\<forall>j k. member_page r' j k = (if j = i \<and> k = l then take NAND_PAGE_SIZE bs else member_page r j k))"
proof -
  from assms obtain m where m: "mb_data_buffer (r_members r i) = Some m"
      "mb_total_lpns (r_members r i) = MEMBER_LPNS"
    by (auto simp: raid_ok_def)
  have same: "mem_read (mem_write m (l * NAND_PAGE_SIZE) (take NAND_PAGE_SIZE bs)) (l * NAND_PAGE_SIZE)
        NAND_PAGE_SIZE = take NAND_PAGE_SIZE bs"
    by (rule mem_read_write_same) (use len in simp)
  have other: "mem_read (mem_write m (l * NAND_PAGE_SIZE) (take NAND_PAGE_SIZE bs)) (k * NAND_PAGE_SIZE)
        NAND_PAGE_SIZE = mem_read m (k * NAND_PAGE_SIZE) NAND_PAGE_SIZE" if "k \<noteq> l" for k
    using page_offsets_disjoint [OF that] len by (intro mem_read_write_disjoint) auto
  from same other assms m show ?thesis
    by (simp add: member_write_def Let_def not_le same_shape_def member_page_def)
qed

lemma member_access_offline:
  "\<not> online r i \<Longrightarrow> i < RAID_MAX_MEMBERS \<Longrightarrow> member_read r i l True = Some (RET_ERR_INTERNAL, None, r)"
  "\<not> online r i \<Longrightarrow> i < RAID_MAX_MEMBERS \<Longrightarrow> member_write r i l (Some bs) = Some (RET_ERR_INTERNAL, r)"
  by (auto simp: member_read_def member_write_def)

text \<open>Every page number the array accepts is a page of each of its members.\<close>

lemma min_capacity:
  assumes "\<And>i. i \<in> set xs \<Longrightarrow> online r i \<Longrightarrow> mb_total_lpns (r_members r i) = MEMBER_LPNS"
    and "m = UINT64_MAX \<or> m = MEMBER_LPNS"
  shows "fold (\<lambda>i m. if online r i \<and> mb_total_lpns (r_members r i) < m
               then mb_total_lpns (r_members r i) else m) xs m =
         (if m = MEMBER_LPNS \<or> (\<exists>i\<in>set xs. online r i) then MEMBER_LPNS else UINT64_MAX)"
  using assms
proof (induction xs arbitrary: m)
  case (Cons x xs)
  then show ?case
    by (cases "online r x") (auto simp: UINT64_MAX_def MEMBER_LPNS_def)
qed auto

lemma raid_capacity:
  assumes "raid_ok r" "r_is_initialized r"
  shows "r_logical_capacity r =
    (if \<exists>i<RAID_MAX_MEMBERS. online r i
     then (if cfg_level (r_config r) = RAID_LEVEL_0 then MEMBER_LPNS * cfg_member_count (r_config r)
           else MEMBER_LPNS)
     else 0)"
proof -
  have "\<forall>i<RAID_MAX_MEMBERS. online r i \<longrightarrow> mb_total_lpns (r_members r i) = MEMBER_LPNS"
    using assms by (simp add: raid_ok_def)
  then show ?thesis
    using assms min_capacity [of "[0..<RAID_MAX_MEMBERS]" r UINT64_MAX]
    by (auto simp: raid_ok_def calculate_logical_capacity_def Let_def MEMBER_LPNS_def UINT64_MAX_def
        split: raid_level.splits)
qed

section \<open>Mirroring\<close>

lemma mirror_body_step:
  "\<not> online r i \<Longrightarrow> mirror_write_body l bs i r = Some (Next r)"
  "\<not> online r i \<Longrightarrow> mirror_read_body l i r = Some (Next r)"
  "online r i \<Longrightarrow> member_write r i l (Some bs) = Some (RET_OK, r1) \<Longrightarrow>
   mirror_write_body l bs i r = Some (Next r1)"
  "online r i \<Longrightarrow> member_read r i l True = Some (RET_OK, page, r1) \<Longrightarrow>
   mirror_read_body l i r = Some (Leave page r1)"
  by (auto simp: mirror_write_body_def mirror_read_body_def)

text \<open>The write loop stores the page on every online member it visits.\<close>

lemma mirror_write_loop:
  assumes "raid_ok r" "r_is_initialized r" "set is \<subseteq> {..<RAID_MAX_MEMBERS}" "l < MEMBER_LPNS"
    and "NAND_PAGE_SIZE \<le> length bs"
  shows "\<exists>r'. for_each is (mirror_write_body l bs) r = Some (Next r') \<and> same_shape r r' \<and>
    (\<forall>j k. member_page r' j k =
       (if j \<in> set is \<and> online r j \<and> k = l then take NAND_PAGE_SIZE bs else member_page r j k))"
  using assms
proof (induction "is" arbitrary: r)
  case (Cons i "is")
  show ?case
  proof (cases "online r i")
    case True
    from Cons.prems obtain r1 where r1: "member_write r i l (Some bs) = Some (RET_OK, r1)"
        "same_shape r r1" "\<forall>j k. member_page r1 j k =
           (if j = i \<and> k = l then take NAND_PAGE_SIZE bs else member_page r j k)"
      using member_write_online [of r i l bs] True by auto
    note same = same_shape_simps [OF r1(2)] same_shape_ok [OF r1(2)]
    from Cons.prems same obtain r2 where r2: "for_each is (mirror_write_body l bs) r1 = Some (Next r2)"
        "same_shape r1 r2" "\<forall>j k. member_page r2 j k =
       (if j \<in> set is \<and> online r1 j \<and> k = l then take NAND_PAGE_SIZE bs else member_page r1 j k)"
      using Cons.IH [of r1] by auto
    show ?thesis
      using r1 r2 True same same_shape_trans [OF r1(2) r2(2)] mirror_body_step(3) [OF True r1(1)]
      by auto
  next
    case False
    with Cons.IH [of r] Cons.prems mirror_body_step(1) [OF False] show ?thesis by auto
  qed
qed simp

text \<open>The read loop returns the page of the first online member.\<close>

lemma mirror_read_loop:
  assumes "raid_ok r" "r_is_initialized r" "set is \<subseteq> {..<RAID_MAX_MEMBERS}" "l < MEMBER_LPNS"
    and "\<exists>i\<in>set is. online r i"
  shows "\<exists>r' i. for_each is (mirror_read_body l) r = Some (Leave (Some (member_page r i l)) r') \<and>
    i \<in> set is \<and> online r i \<and> same_shape r r' \<and> (\<forall>j k. member_page r' j k = member_page r j k)"
  using assms
proof (induction "is" arbitrary: r)
  case (Cons i "is")
  show ?case
  proof (cases "online r i")
    case True
    with Cons.prems obtain r1 where r1: "member_read r i l True = Some (RET_OK, Some (member_page r i l), r1)"
        "same_shape r r1" "\<forall>j k. member_page r1 j k = member_page r j k"
      using member_read_online [of r i l] by auto
    with True mirror_body_step(4) [OF True r1(1)] show ?thesis by auto
  next
    case False
    with Cons.IH [of r] Cons.prems mirror_body_step(2) [OF False] show ?thesis by auto
  qed
qed simp

lemma mirror_loop_idle:
  assumes "\<forall>i\<in>set is. \<not> online r i"
  shows "for_each is (mirror_read_body l) r = Some (Next r)"
    "for_each is (mirror_write_body l bs) r = Some (Next r)"
  using assms by (induction "is") (auto simp: mirror_body_step)

text \<open>All online members that take part in the mirror hold the same pages.\<close>

definition mirrored :: "raid_controller \<Rightarrow> bool" where
  "mirrored r \<longleftrightarrow>
     (\<forall>i<cfg_member_count (r_config r). \<forall>j<cfg_member_count (r_config r). \<forall>l<MEMBER_LPNS.
        online r i \<longrightarrow> online r j \<longrightarrow> member_page r i l = member_page r j l)"

text \<open>An array that serves: RAID 0 with a stripe size, RAID 1 in sync with a live member.\<close>

definition raid_serving :: "raid_controller \<Rightarrow> bool" where
  "raid_serving r \<longleftrightarrow> raid_ok r \<and> r_is_initialized r \<and>
     (case cfg_level (r_config r) of
        RAID_LEVEL_0 \<Rightarrow> 0 < cfg_stripe_size (r_config r)
      | RAID_LEVEL_1 \<Rightarrow> mirrored r \<and> (\<exists>i<cfg_member_count (r_config r). online r i)
      | RAID_LEVEL_MAX \<Rightarrow> False)"

text \<open>The page the array shows under a number, if it accepts the number at all.\<close>

definition raid_view :: "raid_controller \<Rightarrow> nat \<Rightarrow> u8 list option" where
  "raid_view r lpn =
     (if r_logical_capacity r \<le> lpn then None
      else if cfg_level (r_config r) = RAID_LEVEL_0
      then (case raid0_map r lpn of
              Some (i, l) \<Rightarrow> if online r i \<and> l < MEMBER_LPNS then Some (member_page r i l) else None
            | None \<Rightarrow> None)
      else Some (member_page r (LEAST i. online r i) lpn))"

lemma level_cases:
  assumes "raid_serving r"
  obtains (L0) "cfg_level (r_config r) = RAID_LEVEL_0" "0 < cfg_stripe_size (r_config r)"
      "0 < cfg_member_count (r_config r)"
    | (L1) "cfg_level (r_config r) = RAID_LEVEL_1" "mirrored r"
      "\<exists>i<cfg_member_count (r_config r). online r i"
  using assms
  by (cases "cfg_level (r_config r)") (auto simp: raid_serving_def raid_ok_def)

lemma mirrored_least:
  assumes "mirrored r" "i < cfg_member_count (r_config r)" "online r i" "l < MEMBER_LPNS"
  shows "member_page r (LEAST i. online r i) l = member_page r i l"
proof -
  have "online r (LEAST i. online r i)" using assms(3) by (rule LeastI)
  moreover have "(LEAST i. online r i) \<le> i" using assms(3) by (rule Least_le)
  ultimately show ?thesis
    using assms(1) [unfolded mirrored_def, rule_format, of "LEAST i. online r i" i l] assms(2-4) by simp
qed
section \<open>The array as a map from page numbers to pages\<close>

lemma raid_view_cong:
  assumes s: "same_shape r r'" and p: "\<forall>j k. member_page r' j k = member_page r j k"
  shows "raid_view r' lpn = raid_view r lpn"
  using same_shape_simps [OF s] p by (auto simp: raid_view_def split: option.splits)

lemma mirrored_cong:
  assumes "same_shape r r'" "\<forall>j k. member_page r' j k = member_page r j k"
  shows "mirrored r' = mirrored r"
  using same_shape_simps [OF assms(1)] assms(2) by (simp add: mirrored_def)

lemma raid_serving_cong:
  assumes "same_shape r r'" "mirrored r \<Longrightarrow> mirrored r'" "raid_serving r"
  shows "raid_serving r'"
  using assms(2,3) same_shape_simps [OF assms(1)] same_shape_ok [OF assms(1)]
  by (auto simp: raid_serving_def split: raid_level.splits)

lemma count_error_pages [simp]: "member_page (count_error ret r) j k = member_page r j k"
  by (simp add: member_page_def)

lemma raid_serving_capacity:
  assumes "raid_serving r" "lpn < r_logical_capacity r"
  shows "cfg_level (r_config r) = RAID_LEVEL_1 \<Longrightarrow> lpn < MEMBER_LPNS"
    "cfg_member_count (r_config r) \<le> RAID_MAX_MEMBERS"
  using assms raid_capacity [of r] by (auto simp: raid_serving_def raid_ok_def split: if_splits)

lemma raid_read_view:
  assumes serving: "raid_serving r"
  shows "\<exists>ret page r'. raid_read r lpn True = Some (ret, page, r') \<and> same_shape r r' \<and>
      (\<forall>j k. member_page r' j k = member_page r j k) \<and> page = raid_view r lpn \<and>
      (ret = RET_OK \<longleftrightarrow> raid_view r lpn \<noteq> None)"
proof (cases "lpn < r_logical_capacity r")
  case False
  with serving show ?thesis by (simp add: raid_read_def raid_view_def raid_serving_def)
next
  case True
  note cap = raid_serving_capacity [OF serving True]
  from serving have ok: "raid_ok r" "r_is_initialized r" by (simp_all add: raid_serving_def)
  from serving show ?thesis
  proof (cases rule: level_cases)
    case L0
    then obtain i l where map: "raid0_map r lpn = Some (i, l)" by (auto simp: raid0_map_def Let_def)
    with raid0_map_member cap(2) have i: "i < RAID_MAX_MEMBERS" by fastforce
    consider "\<not> online r i" | "online r i" "MEMBER_LPNS \<le> l" | "online r i" "l < MEMBER_LPNS"
      by linarith
    then show ?thesis
    proof cases
      case 1
      with i L0 ok True map show ?thesis
        by (auto simp: raid_read_def raid_view_def member_access_offline)
    next
      case 2
      moreover from 2 ok i have "member_read r i l True = Some (RET_ERR_PARAM, None, r)"
        by (simp add: member_read_def raid_ok_def)
      ultimately show ?thesis using i L0 ok True map by (simp add: raid_read_def raid_view_def)
    next
      case 3
      with member_read_online [OF ok i] L0 ok True map show ?thesis
        by (fastforce simp: raid_read_def raid_view_def)
    qed
  next
    case L1
    have "\<exists>i\<in>set [0..<cfg_member_count (r_config r)]. online r i" using L1(3) by auto
    with mirror_read_loop [OF ok, of "[0..<cfg_member_count (r_config r)]" lpn] cap L1(1)
    obtain r' i where loop: "for_each [0..<cfg_member_count (r_config r)] (mirror_read_body lpn) r =
          Some (Leave (Some (member_page r i lpn)) r')" "i < cfg_member_count (r_config r)" "online r i"
        "same_shape r r'" "\<forall>j k. member_page r' j k = member_page r j k"
      by fastforce
    moreover have "member_page r i lpn = member_page r (LEAST i. online r i) lpn"
      using mirrored_least [OF L1(2) loop(2,3), of lpn] cap L1(1) by simp
    ultimately show ?thesis
      using L1 ok True by (simp add: raid_read_def raid_view_def)
  qed
qed

lemma mirrored_write:
  assumes m: "mirrored r" and s: "same_shape r r'"
    and pages: "\<forall>j k. member_page r' j k =
      (if j < cfg_member_count (r_config r) \<and> online r j \<and> k = l then v else member_page r j k)"
  shows "mirrored r'"
proof -
  note same = same_shape_simps [OF s]
  have "member_page r' i k = member_page r' j k"
    if "i < cfg_member_count (r_config r)" "j < cfg_member_count (r_config r)" "k < MEMBER_LPNS"
      "online r i" "online r j" for i j k
    using that pages m [unfolded mirrored_def, rule_format, of i j k] by simp
  then show ?thesis unfolding mirrored_def same by blast
qed

lemma raid_write_view:
  assumes serving: "raid_serving r" and len: "NAND_PAGE_SIZE \<le> length bs"
  shows "\<exists>ret r'. raid_write r lpn (Some bs) = Some (ret, r') \<and> raid_serving r' \<and> same_shape r r' \<and>
      (if raid_view r lpn = None then ret \<noteq> RET_OK \<and> raid_view r' = raid_view r
       else ret = RET_OK \<and> raid_view r' = (raid_view r)(lpn \<mapsto> take NAND_PAGE_SIZE bs))"
proof (cases "lpn < r_logical_capacity r")
  case False
  with serving show ?thesis by (simp add: raid_write_def raid_view_def raid_serving_def)
next
  case True
  note cap = raid_serving_capacity [OF serving True]
  from serving have ok: "raid_ok r" "r_is_initialized r" by (simp_all add: raid_serving_def)
  have failed: "raid_serving (count_error ret r)" "raid_view (count_error ret r) = raid_view r" for ret
    using serving raid_serving_cong [of r "count_error ret r"] mirrored_cong [of r "count_error ret r"]
      raid_view_cong [of r "count_error ret r"] by auto
  from serving show ?thesis
  proof (cases rule: level_cases)
    case L0
    then obtain i l where map: "raid0_map r lpn = Some (i, l)" by (auto simp: raid0_map_def Let_def)
    with raid0_map_member cap(2) have i: "i < RAID_MAX_MEMBERS" by fastforce
    consider "\<not> online r i" | "online r i" "MEMBER_LPNS \<le> l" | "online r i" "l < MEMBER_LPNS"
      by linarith
    then show ?thesis
    proof cases
      case 1
      with i L0 ok True map failed show ?thesis
        by (auto simp: raid_write_def raid_view_def [of r lpn] member_access_offline)
    next
      case 2
      moreover from 2 ok i have "member_write r i l (Some bs) = Some (RET_ERR_PARAM, r)"
        by (simp add: member_write_def raid_ok_def)
      ultimately show ?thesis using i L0 ok True map failed
        by (simp add: raid_write_def raid_view_def [of r lpn])
    next
      case 3
      from member_write_online [OF ok i 3 len] obtain r' where
        r': "member_write r i l (Some bs) = Some (RET_OK, r')" "same_shape r r'"
        "\<forall>j k. member_page r' j k = (if j = i \<and> k = l then take NAND_PAGE_SIZE bs else member_page r j k)"
        by blast
      note same = same_shape_simps [OF r'(2)]
      have "raid_serving r'"
        using L0 serving same same_shape_ok [OF r'(2)] by (simp add: raid_serving_def)
      moreover have "raid_view r' k = ((raid_view r)(lpn \<mapsto> take NAND_PAGE_SIZE bs)) k" for k
      proof -
        from L0 obtain p where p: "raid0_map r k = Some p" by (auto simp: raid0_map_def Let_def)
        have "p = (i, l) \<longleftrightarrow> k = lpn" using p map raid0_map_inj by auto
        then have "member_page r' (fst p) (snd p) =
            (if k = lpn then take NAND_PAGE_SIZE bs else member_page r (fst p) (snd p))"
          using r'(3) by (metis fst_conv prod.collapse snd_conv)
        then show ?thesis
          using L0(1) same p map True 3 by (cases "k = lpn") (auto simp: raid_view_def split_beta)
      qed
      ultimately show ?thesis
        using L0 ok True map 3 r'(1,2) by (auto simp: raid_write_def raid_view_def [of r lpn])
    qed
  next
    case L1
    let ?is = "[0..<cfg_member_count (r_config r)]"
    from mirror_write_loop [OF ok, of ?is lpn bs] cap L1(1) len
    obtain r' where r': "for_each ?is (mirror_write_body lpn bs) r = Some (Next r')" "same_shape r r'"
        "\<forall>j k. member_page r' j k = (if j < cfg_member_count (r_config r) \<and> online r j \<and> k = lpn
            then take NAND_PAGE_SIZE bs else member_page r j k)"
      by fastforce
    note same = same_shape_simps [OF r'(2)]
    have serving': "raid_serving r'"
      using raid_serving_cong [OF r'(2) _ serving] mirrored_write [OF _ r'(2,3)] by blast
    from L1(3) obtain i where i: "i < cfg_member_count (r_config r)" "online r i" by blast
    then have least: "(LEAST i. online r i) < cfg_member_count (r_config r)" "online r (LEAST i. online r i)"
      using LeastI [of "online r" i] Least_le [of "online r" i] by auto
    have "raid_view r' k = ((raid_view r)(lpn \<mapsto> take NAND_PAGE_SIZE bs)) k" for k
      using L1(1) same r'(3) True least by (simp add: raid_view_def)
    then show ?thesis
      using L1 ok True r'(1,2) serving' by (auto simp: raid_write_def raid_view_def [of r lpn])
  qed
qed


text \<open>
  Writing and reading whole pages: the array is a page store, whatever its level.
\<close>

definition raid_wr :: "raid_controller \<Rightarrow> nat \<Rightarrow> u8 list \<Rightarrow> raid_controller option" where
  "raid_wr r lpn page =
     (if length page = NAND_PAGE_SIZE
      then (case raid_write r lpn (Some page) of Some (RET_OK, r') \<Rightarrow> Some r' | _ \<Rightarrow> None)
      else None)"

definition raid_rd :: "raid_controller \<Rightarrow> nat \<Rightarrow> u8 list option" where
  "raid_rd r lpn = (case raid_read r lpn True of Some (RET_OK, page, _) \<Rightarrow> page | _ \<Rightarrow> None)"

lemma raid_rd_view: "raid_serving r \<Longrightarrow> raid_rd r lpn = raid_view r lpn"
  using raid_read_view [of r lpn] by (auto simp: raid_rd_def split: ret_code.splits)

lemma raid_wr_view:
  assumes "raid_serving r" "raid_wr r lpn page = Some r'"
  shows "raid_serving r'" "raid_view r' = (raid_view r)(lpn \<mapsto> page)"
  using assms raid_write_view [of r page lpn]
  by (auto simp: raid_wr_def split: if_splits option.splits ret_code.splits)

interpretation array: page_store raid_wr raid_rd raid_serving
  by unfold_locales (auto simp: raid_rd_view raid_wr_view)

text \<open>Losing members of a mirror.\<close>

lemma capacity_of_update:
  "calculate_logical_capacity (r\<lparr>r_logical_capacity := x\<rparr>) = calculate_logical_capacity r"
  by (simp add: calculate_logical_capacity_def cong: if_cong raid_level.case_cong)

lemma raid_remove_view:
  assumes serving: "raid_serving r" and level: "cfg_level (r_config r) = RAID_LEVEL_1"
    and survivor: "i < cfg_member_count (r_config r)" "i \<noteq> j" "online r i"
    and remove: "raid_remove_member r j = (ret, r')"
  shows "raid_serving r'" "raid_view r' = raid_view r" "r_config r' = r_config r"
    "k \<noteq> j \<Longrightarrow> online r' k = online r k"
proof -
  let ?r = "upd_member j (\<lambda>mb. mb\<lparr>mb_data_buffer := None, mb_is_valid := False, mb_is_online := False\<rparr>) r"
  let ?r' = "?r\<lparr>r_logical_capacity := calculate_logical_capacity ?r\<rparr>"
  from serving have ok: "raid_ok r" "r_is_initialized r" "mirrored r" 
    using level by (simp_all add: raid_serving_def)
  from ok have le: "cfg_member_count (r_config r) \<le> RAID_MAX_MEMBERS" by (simp add: raid_ok_def)
  consider (nothing) "r' = r"
    | (removed) "r' = ?r'" "j < RAID_MAX_MEMBERS"
    using remove ok by (auto simp: raid_remove_member_def Let_def split: if_splits)
  then have "raid_serving r' \<and> raid_view r' = raid_view r \<and> r_config r' = r_config r \<and>
      (k \<noteq> j \<longrightarrow> online r' k = online r k)"
  proof cases
    case nothing
    with serving show ?thesis by simp
  next
    case removed
    have ok': "raid_ok r'"
      using ok(1,2) removed capacity_of_update [where r = ?r and x = "calculate_logical_capacity ?r"]
      by (simp add: raid_ok_def)
    have page: "member_page r' k l = member_page r k l" if "k \<noteq> j" for k l
      using removed that by (simp add: member_page_def)
    have on: "online r' k \<longleftrightarrow> k \<noteq> j \<and> online r k" for k using removed by simp
    have cfg: "r_config r' = r_config r" "r_is_initialized r'" using removed ok by simp_all
    have mirror: "mirrored r'"
    proof -
      have "member_page r' a l = member_page r' b l"
        if "a < cfg_member_count (r_config r)" "b < cfg_member_count (r_config r)" "l < MEMBER_LPNS"
          "online r' a" "online r' b" for a b l
      proof -
        from that(4,5) on have "a \<noteq> j" "b \<noteq> j" "online r a" "online r b" by blast+
        with ok(3) [unfolded mirrored_def, rule_format, of a b l] that(1-3) page show ?thesis by simp
      qed
      then show ?thesis unfolding mirrored_def cfg by blast
    qed
    have serving': "raid_serving r'"
      using ok' cfg level mirror survivor on by (auto simp: raid_serving_def)
    have cap: "r_logical_capacity r' = r_logical_capacity r"
      using raid_capacity [OF ok' cfg(2)] raid_capacity [OF ok(1,2)] cfg level on survivor le
      by (metis order_less_le_trans raid_level.distinct(1))
    have "raid_view r' l = raid_view r l" if "l < r_logical_capacity r" for l
    proof -
      have l: "l < MEMBER_LPNS" using raid_serving_capacity(1) [OF serving that level] .
      then have "member_page r' (LEAST i. online r' i) l = member_page r' i l"
        using mirrored_least [OF mirror] survivor cfg on by simp
      also have "\<dots> = member_page r (LEAST i. online r i) l"
        using mirrored_least [OF ok(3) survivor(1,3) l] page survivor by simp
      finally show ?thesis using cap that level cfg by (simp add: raid_view_def)
    qed
    moreover have "raid_view r' l = raid_view r l" if "\<not> l < r_logical_capacity r" for l
      using that cap by (simp add: raid_view_def)
    ultimately have "raid_view r' = raid_view r" by blast
    then show ?thesis using serving' cfg on by simp
  qed
  then show "raid_serving r'" "raid_view r' = raid_view r" "r_config r' = r_config r"
    "k \<noteq> j \<Longrightarrow> online r' k = online r k" by blast+
qed

section \<open>Histories of the array\<close>

lemma raid_zero_ok [simp]: "raid_ok raid_zero"
  by (simp add: raid_ok_def raid_zero_def)

lemma raid_init_ok:
  assumes "raid_ok r" "raid_init r c = (ret, r')"
  shows "raid_ok r'"
proof (cases "r' = r")
  case False
  with assms(2) obtain cfg where cfg: "r' = raid_zero\<lparr>r_config := cfg, r_state := RAID_STATE_READY,
        r_is_initialized := True\<rparr>" "cfg_level cfg \<noteq> RAID_LEVEL_MAX" "0 < cfg_member_count cfg"
      "cfg_member_count cfg \<le> RAID_MAX_MEMBERS"
    by (auto simp: raid_init_def split: option.splits if_splits)
  have "calculate_logical_capacity r' = 0"
    unfolding cfg(1) calculate_logical_capacity_def
    by (subst min_capacity) (auto simp: raid_zero_def zero_member_def MEMBER_LPNS_def UINT64_MAX_def)
  with cfg show ?thesis by (simp add: raid_ok_def) (simp add: raid_zero_def zero_member_def)
qed (use assms in simp)

lemma raid_deinit_ok: "raid_ok r \<Longrightarrow> raid_deinit r = (ret, r') \<Longrightarrow> raid_ok r'"
  by (auto simp: raid_deinit_def raid_ok_def split: if_splits)

lemma raid_add_member_ok:
  assumes ok: "raid_ok r" and add: "raid_add_member r alloc i d = (ret, r')"
  shows "raid_ok r'"
proof -
  let ?r = "upd_member i (\<lambda>mb. mb\<lparr>mb_total_lpns := MEMBER_LPNS, mb_data_buffer := Some (\<lambda>_. 0), mb_is_valid := True,
      mb_is_online := True, mb_ftl_instance_id := d, mb_buffer_size := MEMBER_LPNS * NAND_PAGE_SIZE,
      mb_read_count := 0, mb_write_count := 0, mb_error_count := 0\<rparr>) r"
  let ?f = "upd_member i (\<lambda>mb. mb\<lparr>mb_total_lpns := MEMBER_LPNS, mb_data_buffer := None\<rparr>) r"
  consider "r' = r" | "r' = ?f" "\<not> mb_is_valid (r_members r i)"
    | "r' = ?r\<lparr>r_logical_capacity := calculate_logical_capacity ?r\<rparr>"
    using add by (auto simp: raid_add_member_def Let_def split: if_splits)
  then show ?thesis
  proof cases
    case 2
    then have "calculate_logical_capacity r' = calculate_logical_capacity r"
      unfolding calculate_logical_capacity_def
      by (intro arg_cong2 [where f = Let] fold_cong ext) (auto cong: if_cong raid_level.case_cong)
    with ok 2 show ?thesis by (simp add: raid_ok_def)
  next
    case 3
    then show ?thesis
      using ok capacity_of_update [where r = ?r and x = "calculate_logical_capacity ?r"]
      by (simp add: raid_ok_def)
  qed (use ok in simp)
qed

lemma raid_remove_member_ok:
  assumes ok: "raid_ok r" and remove: "raid_remove_member r i = (ret, r')"
  shows "raid_ok r'"
proof -
  let ?r = "upd_member i (\<lambda>mb. mb\<lparr>mb_data_buffer := None, mb_is_valid := False, mb_is_online := False\<rparr>) r"
  consider "r' = r" | "r' = ?r\<lparr>r_logical_capacity := calculate_logical_capacity ?r\<rparr>"
    using remove by (auto simp: raid_remove_member_def Let_def split: if_splits)
  then show ?thesis
    using ok capacity_of_update [where r = ?r and x = "calculate_logical_capacity ?r"]
    by cases (simp_all add: raid_ok_def)
qed

lemma member_access_defined:
  assumes "raid_ok r" "r_is_initialized r" "NAND_PAGE_SIZE \<le> length bs"
  shows "\<exists>ret page r'. member_read r i l b = Some (ret, page, r') \<and> same_shape r r'"
    "\<exists>ret r'. member_write r i l (Some bs) = Some (ret, r') \<and> same_shape r r'"
  using assms
  by (auto simp: member_read_def member_write_def raid_ok_def same_shape_def Let_def not_le)

lemma mirror_loops_defined:
  assumes "raid_ok r" "r_is_initialized r" "NAND_PAGE_SIZE \<le> length bs"
  shows "\<exists>c. for_each is (mirror_read_body l) r = Some c \<and>
           same_shape r (case c of Next r' \<Rightarrow> r' | Leave _ r' \<Rightarrow> r')"
    "\<exists>c. for_each is (mirror_write_body l bs) r = Some c \<and>
           same_shape r (case c of Next r' \<Rightarrow> r' | Leave _ r' \<Rightarrow> r')"
proof -
  have keep: "raid_ok s" "r_is_initialized s" if "same_shape r s" for s
    using that assms same_shape_ok same_shape_simps(1) by auto
  let ?I = "\<lambda>_ s. same_shape r s" and ?Q = "\<lambda>_ s. same_shape r s"
  have rd: "(\<exists>s'. mirror_read_body l i s = Some (Next s') \<and> same_shape r s') \<or>
        (\<exists>x s'. mirror_read_body l i s = Some (Leave x s') \<and> same_shape r s')" if s: "same_shape r s" for i s
  proof -
    obtain ret page s' where "member_read s i l True = Some (ret, page, s')" "same_shape s s'"
      using member_access_defined(1) [OF keep [OF s] assms(3), of i l True] by blast
    with same_shape_trans [OF s] show ?thesis by (simp add: mirror_read_body_def)
  qed
  have "(\<exists>s'. for_each is (mirror_read_body l) r = Some (Next s') \<and> ?I [] s') \<or>
        (\<exists>x s'. for_each is (mirror_read_body l) r = Some (Leave x s') \<and> ?Q x s')"
    by (rule for_each_rule [where I = ?I]) (use rd in auto)
  then show "\<exists>c. for_each is (mirror_read_body l) r = Some c \<and>
           same_shape r (case c of Next r' \<Rightarrow> r' | Leave _ r' \<Rightarrow> r')" by auto
  have err: "same_shape s (upd_member i (\<lambda>mb. mb\<lparr>mb_error_count := n\<rparr>) s)" for s i n
    by (simp add: same_shape_def)
  have wr: "(\<exists>s'. mirror_write_body l bs i s = Some (Next s') \<and> same_shape r s') \<or>
        (\<exists>x s'. mirror_write_body l bs i s = Some (Leave x s') \<and> same_shape r s')" if s: "same_shape r s" for i s
  proof -
    obtain ret s' where "member_write s i l (Some bs) = Some (ret, s')" "same_shape s s'"
      using member_access_defined(2) [OF keep [OF s] assms(3), of i l] by blast
    with same_shape_trans [OF s] same_shape_trans [OF _ err] show ?thesis
      by (simp add: mirror_write_body_def)
  qed
  have "(\<exists>s'. for_each is (mirror_write_body l bs) r = Some (Next s') \<and> ?I [] s') \<or>
        (\<exists>x s'. for_each is (mirror_write_body l bs) r = Some (Leave x s') \<and> ?Q x s')"
    by (rule for_each_rule [where I = ?I]) (use wr in auto)
  then show "\<exists>c. for_each is (mirror_write_body l bs) r = Some c \<and>
           same_shape r (case c of Next r' \<Rightarrow> r' | Leave _ r' \<Rightarrow> r')" by auto
qed
lemma raid_access_defined:
  assumes ok: "raid_ok r" and stripe: "r_is_initialized r \<longrightarrow> 0 < cfg_stripe_size (r_config r)"
    and len: "NAND_PAGE_SIZE \<le> length bs"
  shows "\<exists>ret page r'. raid_read r lpn b = Some (ret, page, r') \<and> same_shape r r'"
    "\<exists>ret r'. raid_write r lpn (Some bs) = Some (ret, r') \<and> same_shape r r'"
proof -
  show "\<exists>ret page r'. raid_read r lpn b = Some (ret, page, r') \<and> same_shape r r'"
  proof (cases "r_is_initialized r \<and> b \<and> lpn < r_logical_capacity r")
    case True
    show ?thesis
    proof (cases "cfg_level (r_config r)")
      case RAID_LEVEL_0
      moreover obtain i l where "raid0_map r lpn = Some (i, l)"
        using True stripe ok by (auto simp: raid0_map_def Let_def raid_ok_def)
      moreover obtain ret page r' where "member_read r i l True = Some (ret, page, r')" "same_shape r r'"
        using member_access_defined(1) [OF ok _ len] True by blast
      ultimately show ?thesis
        using True same_shape_trans [OF _ count_error_shape(1)] by (simp add: raid_read_def)
    next
      case RAID_LEVEL_1
      moreover obtain c where "for_each [0..<cfg_member_count (r_config r)] (mirror_read_body lpn) r = Some c"
          "same_shape r (case c of Next r' \<Rightarrow> r' | Leave _ r' \<Rightarrow> r')"
        using mirror_loops_defined(1) [OF ok _ len] True by blast
      ultimately show ?thesis
        using True same_shape_trans [OF _ count_error_shape(1)]
        by (cases c) (simp_all add: raid_read_def)
    next
      case RAID_LEVEL_MAX
      with True show ?thesis by (simp add: raid_read_def)
    qed
  qed (auto simp: raid_read_def)
  show "\<exists>ret r'. raid_write r lpn (Some bs) = Some (ret, r') \<and> same_shape r r'"
  proof (cases "r_is_initialized r \<and> lpn < r_logical_capacity r")
    case True
    show ?thesis
    proof (cases "cfg_level (r_config r)")
      case RAID_LEVEL_0
      moreover obtain i l where "raid0_map r lpn = Some (i, l)"
        using True stripe ok by (auto simp: raid0_map_def Let_def raid_ok_def)
      moreover obtain ret r' where "member_write r i l (Some bs) = Some (ret, r')" "same_shape r r'"
        using member_access_defined(2) [OF ok _ len] True by blast
      ultimately show ?thesis
        using True same_shape_trans [OF _ count_error_shape(1)] by (simp add: raid_write_def)
    next
      case RAID_LEVEL_1
      moreover obtain c where "for_each [0..<cfg_member_count (r_config r)] (mirror_write_body lpn bs) r = Some c"
          "same_shape r (case c of Next r' \<Rightarrow> r' | Leave _ r' \<Rightarrow> r')"
        using mirror_loops_defined(2) [OF ok _ len] True by blast
      ultimately show ?thesis
        using True same_shape_trans [OF _ count_error_shape(1)]
        by (cases c) (simp_all add: raid_write_def)
    next
      case RAID_LEVEL_MAX
      with True show ?thesis by (simp add: raid_write_def)
    qed
  qed (auto simp: raid_write_def)
qed

datatype raid_op =
    Op_raid_init "raid_config option" | Op_raid_deinit | Op_raid_add bool nat u32
  | Op_raid_remove nat | Op_raid_read nat bool | Op_raid_write nat "u8 list option"

fun raid_exec :: "raid_op \<Rightarrow> raid_controller \<Rightarrow> raid_controller option" where
  "raid_exec (Op_raid_init c) r = Some (snd (raid_init r c))"
| "raid_exec Op_raid_deinit r = Some (snd (raid_deinit r))"
| "raid_exec (Op_raid_add alloc i d) r = Some (snd (raid_add_member r alloc i d))"
| "raid_exec (Op_raid_remove i) r = Some (snd (raid_remove_member r i))"
| "raid_exec (Op_raid_read lpn b) r = map_option (snd \<circ> snd) (raid_read r lpn b)"
| "raid_exec (Op_raid_write lpn bs) r = map_option snd (raid_write r lpn bs)"

fun raid_run :: "raid_op list \<Rightarrow> raid_controller \<Rightarrow> raid_controller option" where
  "raid_run [] r = Some r"
| "raid_run (p # ps) r = do { r \<leftarrow> raid_exec p r; raid_run ps r }"

text \<open>What the callers must respect: a stripe size that is not zero and whole page buffers.\<close>

fun raid_legal :: "raid_op \<Rightarrow> bool" where
  "raid_legal (Op_raid_init (Some c)) = (0 < cfg_stripe_size c)"
| "raid_legal (Op_raid_write lpn (Some bs)) = (NAND_PAGE_SIZE \<le> length bs)"
| "raid_legal _ = True"

definition raid_inv :: "raid_controller \<Rightarrow> bool" where
  "raid_inv r \<longleftrightarrow> raid_ok r \<and> (r_is_initialized r \<longrightarrow> 0 < cfg_stripe_size (r_config r))"

lemma raid_exec_inv:
  assumes inv: "raid_inv r" and legal: "raid_legal p"
  shows "\<exists>r'. raid_exec p r = Some r' \<and> raid_inv r'"
proof -
  have ok: "raid_ok r" and stripe: "r_is_initialized r \<longrightarrow> 0 < cfg_stripe_size (r_config r)"
    using inv by (simp_all add: raid_inv_def)
  have shape: "raid_inv r'" if "same_shape r r'" for r'
    using inv same_shape_ok [OF that] same_shape_simps [OF that] by (simp add: raid_inv_def)
  have len: "NAND_PAGE_SIZE \<le> length (replicate NAND_PAGE_SIZE (0 :: u8))" by simp
  show ?thesis
  proof (cases p)
    case (Op_raid_init c)
    with raid_init_ok [OF ok, of c] legal stripe show ?thesis
      by (cases c) (auto simp: raid_inv_def raid_init_def split: if_splits)
  next
    case Op_raid_deinit
    with raid_deinit_ok [OF ok] stripe show ?thesis
      by (auto simp: raid_inv_def raid_deinit_def)
  next
    case (Op_raid_add alloc i d)
    have "r_config (snd (raid_add_member r alloc i d)) = r_config r"
      "r_is_initialized (snd (raid_add_member r alloc i d)) = r_is_initialized r"
      by (auto simp: raid_add_member_def Let_def)
    with raid_add_member_ok [OF ok] stripe Op_raid_add show ?thesis
      by (simp add: raid_inv_def) (metis prod.collapse)
  next
    case (Op_raid_remove i)
    have "r_config (snd (raid_remove_member r i)) = r_config r"
      "r_is_initialized (snd (raid_remove_member r i)) = r_is_initialized r"
      by (auto simp: raid_remove_member_def Let_def)
    with raid_remove_member_ok [OF ok] stripe Op_raid_remove show ?thesis
      by (simp add: raid_inv_def) (metis prod.collapse)
  next
    case (Op_raid_read lpn b)
    with raid_access_defined(1) [OF ok stripe len, of lpn b] shape show ?thesis by auto
  next
    case (Op_raid_write lpn bs)
    show ?thesis
    proof (cases bs)
      case None
      with Op_raid_write inv show ?thesis by (auto simp: raid_write_def)
    next
      case (Some page)
      with raid_access_defined(2) [OF ok stripe, of page lpn] shape legal Op_raid_write
      show ?thesis by auto
    qed
  qed
qed

section \<open>What the array promises\<close>

text \<open>Two members, each 1024 pages, in stripes of four.\<close>

definition raid_demo :: "raid_level \<Rightarrow> raid_controller" where
  "raid_demo level =
     snd (raid_add_member (snd (raid_add_member (snd (raid_init raid_zero
       (Some \<lparr>cfg_level = level, cfg_member_count = 2, cfg_stripe_size = 4, cfg_auto_rebuild = False\<rparr>)))
       True 0 10)) True 1 11)"

lemma raid_demo_fields:
  assumes "level \<noteq> RAID_LEVEL_MAX"
  shows "raid_ok (raid_demo level)" "r_is_initialized (raid_demo level)"
    "cfg_level (r_config (raid_demo level)) = level" "cfg_member_count (r_config (raid_demo level)) = 2"
    "cfg_stripe_size (r_config (raid_demo level)) = 4"
    "online (raid_demo level) i \<longleftrightarrow> i < 2" "i < 2 \<Longrightarrow> member_page (raid_demo level) i l = replicate NAND_PAGE_SIZE 0"
proof -
  show "raid_ok (raid_demo level)"
    unfolding raid_demo_def
    by (intro raid_add_member_ok [OF raid_add_member_ok [OF raid_init_ok [OF raid_zero_ok prod.collapse [symmetric]]
          prod.collapse [symmetric]] prod.collapse [symmetric]])
  have members: "r_members (raid_demo level) i = (if i < 2 then
      \<lparr>mb_is_valid = True, mb_is_online = True, mb_ftl_instance_id = 10 + of_nat i,
       mb_total_lpns = MEMBER_LPNS, mb_read_count = 0, mb_write_count = 0, mb_error_count = 0,
       mb_data_buffer = Some (\<lambda>_. 0), mb_buffer_size = MEMBER_LPNS * NAND_PAGE_SIZE\<rparr> else zero_member)"
    using assms
    by (auto simp: raid_demo_def raid_init_def raid_zero_def raid_add_member_def Let_def zero_member_def
        RAID_MAX_MEMBERS_def less_2_cases_iff)
  then show "online (raid_demo level) i \<longleftrightarrow> i < 2" by (simp add: zero_member_def)
  show "member_page (raid_demo level) i l = replicate NAND_PAGE_SIZE 0" if "i < 2"
    using members that by (simp add: member_page_def mem_read_def map_replicate_const)
qed (use assms in \<open>simp_all add: raid_demo_def raid_init_def raid_zero_def raid_add_member_def
        Let_def zero_member_def RAID_MAX_MEMBERS_def\<close>)

lemma raid_demo_online:
  assumes "level \<noteq> RAID_LEVEL_MAX" "0 < n"
  shows "\<exists>i<n. online (raid_demo level) i"
  using raid_demo_fields(6) [OF assms(1), of 0] assms(2) by (intro exI [of _ 0]) simp

lemma raid_demo_serving:
  assumes level: "level \<noteq> RAID_LEVEL_MAX"
  shows "raid_serving (raid_demo level)"
proof -
  define r where "r = raid_demo level"
  note f = raid_demo_fields [OF level, folded r_def]
  have "mirrored r"
    unfolding mirrored_def f(4) by (intro allI impI) (simp only: f(7))
  then have "raid_serving r"
    unfolding raid_serving_def f(3) f(4) f(5)
    using f(1,2) level raid_demo_online [OF level, of 2, folded r_def] by (simp split: raid_level.split)
  then show ?thesis by (simp add: r_def)
qed

lemma raid_demo_view:
  assumes level: "level \<noteq> RAID_LEVEL_MAX" and lpn: "lpn < 1024"
  shows "raid_view (raid_demo level) lpn = Some (replicate NAND_PAGE_SIZE 0)"
proof -
  note f = raid_demo_fields [OF level]
  have "MEMBER_LPNS \<le> r_logical_capacity (raid_demo level)"
    unfolding raid_capacity [OF f(1,2)] f(4)
    using raid_demo_online [OF level, of RAID_MAX_MEMBERS] by (simp add: RAID_MAX_MEMBERS_def)
  then have cap: "\<not> r_logical_capacity (raid_demo level) \<le> lpn" using lpn by (simp add: MEMBER_LPNS_def)
  have least: "(LEAST i. online (raid_demo level) i) = 0"
    using f(6) by (intro Least_equality) simp_all
  obtain i l where map: "raid0_map (raid_demo level) lpn = Some (i, l)"
    using f(4) f(5) by (auto simp: raid0_map_def Let_def)
  from raid0_map_member [OF map] f(4) have i: "i < 2" by simp
  then have on: "online (raid_demo level) i" by (simp only: f(6))
  have l: "l < MEMBER_LPNS"
    using raid0_map_bound [OF map, of MEMBER_LPNS] f(4) f(5) lpn by (simp add: MEMBER_LPNS_def)
  show ?thesis
    unfolding raid_view_def f(3) map least using cap on l f(7) [OF i] f(7) [of 0]
    by (cases "level = RAID_LEVEL_0") simp_all
qed


text \<open>
  C7: on a serving array, RAID 0 with a stripe size or RAID 1 in sync with a live member, a write
  of a page changes the map from page numbers to pages at exactly that number and succeeds, if the
  array shows that number at all, and otherwise fails and changes no page; a RAID 1 array stays in
  sync.
\<close>

theorem raid_write_updates_view:
  assumes "raid_serving r" and "NAND_PAGE_SIZE \<le> length bs"
  shows "\<exists>ret r'. raid_write r lpn (Some bs) = Some (ret, r') \<and> raid_serving r' \<and>
      (if raid_view r lpn = None then ret \<noteq> RET_OK \<and> raid_view r' = raid_view r
       else ret = RET_OK \<and> raid_view r' = (raid_view r)(lpn \<mapsto> take NAND_PAGE_SIZE bs))"
  using raid_write_view [OF assms, of lpn] by blast

theorem raid_write_updates_view_witness:
  "\<exists>r'. raid_write (raid_demo RAID_LEVEL_1) 7 (Some (replicate NAND_PAGE_SIZE 3)) = Some (RET_OK, r') \<and>
     raid_view r' 7 = Some (replicate NAND_PAGE_SIZE 3)"
  using raid_write_updates_view [of "raid_demo RAID_LEVEL_1" "replicate NAND_PAGE_SIZE 3" 7]
    raid_demo_serving [of RAID_LEVEL_1] raid_demo_view [of RAID_LEVEL_1 7] by auto

text \<open>
  A read of a serving array returns the page it shows under the number, and fails without a
  page when it shows none; neither the pages nor the configuration change.
\<close>

theorem raid_read_returns_view:
  assumes "raid_serving r"
  shows "\<exists>ret r'. raid_read r lpn True = Some (ret, raid_view r lpn, r') \<and>
      (ret = RET_OK \<longleftrightarrow> raid_view r lpn \<noteq> None) \<and> raid_view r' = raid_view r \<and> raid_serving r'"
proof -
  obtain ret r' where r': "raid_read r lpn True = Some (ret, raid_view r lpn, r')" "same_shape r r'"
      "\<forall>j k. member_page r' j k = member_page r j k" "ret = RET_OK \<longleftrightarrow> raid_view r lpn \<noteq> None"
    using raid_read_view [OF assms, of lpn] by blast
  have "raid_view r' = raid_view r" using raid_view_cong [OF r'(2,3)] by blast
  moreover have "raid_serving r'"
    using raid_serving_cong [OF r'(2) _ assms] mirrored_cong [OF r'(2,3)] by blast
  ultimately show ?thesis using r' by blast
qed

theorem raid_read_returns_view_witness:
  "\<exists>r'. raid_read (raid_demo RAID_LEVEL_0) 7 True = Some (RET_OK, Some (replicate NAND_PAGE_SIZE 0), r')"
  using raid_read_returns_view [of "raid_demo RAID_LEVEL_0" 7]
    raid_demo_serving [of RAID_LEVEL_0] raid_demo_view [of RAID_LEVEL_0 7] by auto

text \<open>
  After any sequence of successful page writes to a serving array, reading a page returns
  the last data written to it, or what it held before when no write named it.
\<close>

theorem raid_last_write_wins:
  assumes "raid_serving r" and "write_all raid_wr r kvs = Some r'"
  shows "raid_rd r' lpn = (case map_of (rev kvs) lpn of Some page \<Rightarrow> Some page | None \<Rightarrow> raid_rd r lpn)"
  by (rule array.read_after_writes [OF assms])

theorem raid_last_write_wins_witness:
  "\<exists>r'. write_all raid_wr (raid_demo RAID_LEVEL_0)
          [(5, replicate NAND_PAGE_SIZE 1), (9, replicate NAND_PAGE_SIZE 2), (5, replicate NAND_PAGE_SIZE 3)] = Some r' \<and>
        raid_rd r' 5 = Some (replicate NAND_PAGE_SIZE 3)"
proof -
  have wr: "\<exists>r'. raid_wr r lpn page = Some r' \<and> raid_serving r' \<and> (\<forall>k. raid_view r k \<noteq> None \<longrightarrow> raid_view r' k \<noteq> None)"
    if "raid_serving r" "raid_view r lpn \<noteq> None" "length page = NAND_PAGE_SIZE" for r lpn page
    using raid_write_view [OF that(1), of page lpn] that by (auto simp: raid_wr_def)
  let ?r = "raid_demo RAID_LEVEL_0"
  have r: "raid_serving ?r" "raid_view ?r 5 \<noteq> None" "raid_view ?r 9 \<noteq> None"
    by (simp_all add: raid_demo_serving raid_demo_view)
  from wr [OF r(1,2), of "replicate NAND_PAGE_SIZE 1"] r obtain r1 where r1:
    "raid_wr ?r 5 (replicate NAND_PAGE_SIZE 1) = Some r1" "raid_serving r1"
    "raid_view r1 5 \<noteq> None" "raid_view r1 9 \<noteq> None" by auto
  from wr [OF r1(2,4), of "replicate NAND_PAGE_SIZE 2"] r1 obtain r2 where r2:
    "raid_wr r1 9 (replicate NAND_PAGE_SIZE 2) = Some r2" "raid_serving r2" "raid_view r2 5 \<noteq> None" by auto
  from wr [OF r2(2,3), of "replicate NAND_PAGE_SIZE 3"] obtain r3 where
    "raid_wr r2 5 (replicate NAND_PAGE_SIZE 3) = Some r3" by auto
  with r1 r2 have run: "write_all raid_wr ?r [(5, replicate NAND_PAGE_SIZE 1), (9, replicate NAND_PAGE_SIZE 2),
      (5, replicate NAND_PAGE_SIZE 3)] = Some r3" by simp
  from raid_last_write_wins [OF r(1) run, of 5] run show ?thesis by simp
qed

text \<open>
  C38: a mirror survives the loss of members.  Removing a member from a RAID 1 array in sync
  leaves the array serving the same pages under the same numbers, as long as one member of the
  mirror stays.
\<close>

theorem raid1_survives_member_loss:
  assumes "raid_serving r" and "cfg_level (r_config r) = RAID_LEVEL_1"
    and "i < cfg_member_count (r_config r)" "i \<noteq> j" "online r i"
    and "raid_remove_member r j = (ret, r')"
  shows "raid_serving r' \<and> (\<forall>lpn. raid_rd r' lpn = raid_rd r lpn)"
  using raid_remove_view [OF assms] assms(1) by (simp add: raid_rd_view)

theorem raid1_survives_member_loss_witness:
  "raid_rd (snd (raid_remove_member (raid_demo RAID_LEVEL_1) 0)) 7 = Some (replicate NAND_PAGE_SIZE 0)"
proof -
  have l: "RAID_LEVEL_1 \<noteq> RAID_LEVEL_MAX" by simp
  note f = raid_demo_fields [OF l]
  have on: "online (raid_demo RAID_LEVEL_1) 1" unfolding f(6) by simp
  have n: "1 < cfg_member_count (r_config (raid_demo RAID_LEVEL_1))" unfolding f(4) by simp
  from raid1_survives_member_loss [OF raid_demo_serving [OF l] f(3) n _ on prod.collapse [symmetric], of 0]
  have "raid_rd (snd (raid_remove_member (raid_demo RAID_LEVEL_1) 0)) 7 = raid_rd (raid_demo RAID_LEVEL_1) 7"
    by simp
  also have "\<dots> = Some (replicate NAND_PAGE_SIZE 0)"
    unfolding raid_rd_view [OF raid_demo_serving [OF l]] by (rule raid_demo_view [OF l]) simp
  finally show ?thesis .
qed

text \<open>
  Striping loses no page and wastes none.  With a stripe size that divides the 1024 pages of
  a member, \<open>raid0_map\<close> is a bijection between the page numbers of the array and the pages of
  its members.
\<close>

theorem raid0_map_bijective:
  assumes "0 < cfg_member_count (r_config r)" and "cfg_stripe_size (r_config r) dvd MEMBER_LPNS"
  shows "bij_betw (the \<circ> raid0_map r) {..<MEMBER_LPNS * cfg_member_count (r_config r)}
           ({..<cfg_member_count (r_config r)} \<times> {..<MEMBER_LPNS})"
proof (rule bij_betw_byWitness [where f' = "raid0_unmap r"])
  let ?n = "cfg_member_count (r_config r)" and ?ss = "cfg_stripe_size (r_config r)"
  have ss: "0 < ?ss" using assms(2) by (auto simp: MEMBER_LPNS_def intro: Nat.gr0I)
  then have some: "raid0_map r lpn = Some ((the \<circ> raid0_map r) lpn)" for lpn
    using assms(1) by (simp add: raid0_map_def Let_def)
  show "\<forall>lpn\<in>{..<MEMBER_LPNS * ?n}. raid0_unmap r ((the \<circ> raid0_map r) lpn) = lpn"
    using raid0_unmap_map [OF some] by blast
  show "\<forall>p\<in>{..<?n} \<times> {..<MEMBER_LPNS}. (the \<circ> raid0_map r) (raid0_unmap r p) = p"
    using raid0_map_unmap [OF ss] by auto
  show "(the \<circ> raid0_map r) ` {..<MEMBER_LPNS * ?n} \<subseteq> {..<?n} \<times> {..<MEMBER_LPNS}"
  proof
    fix p assume "p \<in> (the \<circ> raid0_map r) ` {..<MEMBER_LPNS * ?n}"
    then obtain lpn where lpn: "lpn < MEMBER_LPNS * ?n" and p: "p = (the \<circ> raid0_map r) lpn" by blast
    have map: "raid0_map r lpn = Some (fst p, snd p)" unfolding p by (simp only: prod.collapse some)
    from raid0_map_member [OF map] raid0_map_bound [OF map assms(2) lpn]
    show "p \<in> {..<?n} \<times> {..<MEMBER_LPNS}" by (simp add: mem_Times_iff)
  qed
  show "raid0_unmap r ` ({..<?n} \<times> {..<MEMBER_LPNS}) \<subseteq> {..<MEMBER_LPNS * ?n}"
    using raid0_unmap_bound [OF _ _ assms(2)] by auto
qed

theorem raid0_map_bijective_witness:
  "bij_betw (the \<circ> raid0_map (raid_demo RAID_LEVEL_0)) {..<2048} ({..<2} \<times> {..<1024})"
proof -
  have l: "RAID_LEVEL_0 \<noteq> RAID_LEVEL_MAX" by simp
  note f = raid_demo_fields(4,5) [OF l]
  show ?thesis
    using raid0_map_bijective [of "raid_demo RAID_LEVEL_0", unfolded f] by (simp add: MEMBER_LPNS_def)
qed

text \<open>
  Whatever sequence of array operations runs from program start, under any allocation
  failures, no operation divides by zero or copies through a null buffer, and the array stays well
  formed, provided every configuration has a stripe size that is not zero and every buffer written
  holds a page.
\<close>

theorem raid_histories_are_safe:
  assumes "\<forall>p\<in>set ps. raid_legal p"
  shows "\<exists>r'. raid_run ps raid_zero = Some r' \<and> raid_ok r'"
proof -
  have "\<exists>r'. raid_run ps r = Some r' \<and> raid_inv r'" if "raid_inv r" for r
    using that assms
  proof (induction ps arbitrary: r)
    case (Cons p ps)
    from raid_exec_inv [of r p] Cons.prems obtain r1 where "raid_exec p r = Some r1" "raid_inv r1" by auto
    with Cons.IH [of r1] Cons.prems show ?case by simp
  qed simp
  moreover have "raid_inv raid_zero"
    unfolding raid_inv_def using raid_zero_ok by (simp add: raid_zero_def)
  ultimately show ?thesis
    unfolding raid_inv_def by blast
qed

theorem raid_histories_are_safe_witness:
  "\<exists>r'. raid_run [Op_raid_init (Some \<lparr>cfg_level = RAID_LEVEL_0, cfg_member_count = 3, cfg_stripe_size = 5,
       cfg_auto_rebuild = False\<rparr>), Op_raid_add True 2 0, Op_raid_read 12 True, Op_raid_add False 1 0,
       Op_raid_write 1 None, Op_raid_deinit, Op_raid_read 0 True] raid_zero = Some r' \<and> raid_ok r'"
  by (rule raid_histories_are_safe) simp

section \<open>Where the array breaks its promises\<close>

text \<open>A stripe size of zero is accepted by \<open>raid_init\<close> and then divides by zero.\<close>

lemma raid_zero_stripe_undefined:
  assumes "r_is_initialized r" "cfg_level (r_config r) = RAID_LEVEL_0" "cfg_stripe_size (r_config r) = 0"
    and "lpn < r_logical_capacity r"
  shows "raid_read r lpn True = None" "raid_write r lpn (Some bs) = None"
  using assms by (simp_all add: raid_read_def raid_write_def raid0_map_def)

text \<open>A mirror whose first members are missing acknowledges writes it does not store.\<close>

lemma raid1_write_without_members_acknowledged:
  assumes "r_is_initialized r" "cfg_level (r_config r) = RAID_LEVEL_1" "lpn < r_logical_capacity r"
    and "\<forall>i<cfg_member_count (r_config r). \<not> online r i"
  shows "raid_write r lpn (Some bs) = Some (RET_OK, r)"
    "\<exists>r'. raid_read r lpn True = Some (RET_ERR_INTERNAL, None, r')"
  using assms mirror_loop_idle [of "[0..<cfg_member_count (r_config r)]" r]
  by (auto simp: raid_read_def raid_write_def)

text \<open>
  A member added to a mirror in use starts with zero pages and is not rebuilt; when its index
  comes first, reads return its zeroes.
\<close>

lemma raid1_added_member_is_stale:
  assumes "r_is_initialized r" "\<not> mb_is_valid (r_members r i)" "i < RAID_MAX_MEMBERS"
    and "raid_add_member r True i d = (ret, r')"
  shows "member_page r' i l = replicate NAND_PAGE_SIZE 0" "online r' i"
    "k \<noteq> i \<Longrightarrow> member_page r' k l = member_page r k l"
  using assms
  by (auto simp: raid_add_member_def Let_def member_page_def mem_read_def map_replicate_const)

end

