(* ===== verification/NandEcc.thy ===== *)
theory NandEcc
  imports Utils
begin

text \<open>
  The integrity codes of the NAND layer, \<open>modules/nand/nand.c\<close>: CRC-32, the (7,4) Hamming code
  with its page-level word, the (15,7) BCH code over GF(16) and the (12,6) LDPC code.  The page
  codes keep two counters in the device record; here they are a record of their own.  A buffer
  argument is a byte list at least as long as the length passed with it.  The 8-bit and 16-bit
  variables of the code are words of that width, so shifts lose the bits that C loses when it
  stores the result.
\<close>

section \<open>CRC-32 of the NAND layer\<close>

definition crc32_table :: "u32 list" where
  "crc32_table =
  [0x00000000, 0x77073096, 0xEE0E612C, 0x990951BA, 0x076DC419, 0x706AF48F,
   0xE963A535, 0x9E6495A3, 0x0EDB8832, 0x79DCB8A4, 0xE0D5E91E, 0x97D2D988,
   0x09B64C2B, 0x7EB17CBD, 0xE7B82D07, 0x90BF1D91, 0x1DB71064, 0x6AB020F2,
   0xF3B97148, 0x84BE41DE, 0x1ADAD47D, 0x6DDDE4EB, 0xF4D4B551, 0x83D385C7,
   0x136C9856, 0x646BA8C0, 0xFD62F97A, 0x8A65C9EC, 0x14015C4F, 0x63066CD9,
   0xFA0F3D63, 0x8D080DF5, 0x3B6E20C8, 0x4C69105E, 0xD56041E4, 0xA2677172,
   0x3C03E4D1, 0x4B04D447, 0xD20D85FD, 0xA50AB56B, 0x35B5A8FA, 0x42B2986C,
   0xDBBBC9D6, 0xACBCF940, 0x32D86CE3, 0x45DF5C75, 0xDCD60DCF, 0xABD13D59,
   0x26D930AC, 0x51DE003A, 0xC8D75180, 0xBFD06116, 0x21B4F4B5, 0x56B3C423,
   0xCFBA9599, 0xB8BDA50F, 0x2802B89E, 0x5F058808, 0xC60CD9B2, 0xB10BE924,
   0x2F6F7C87, 0x58684C11, 0xC1611DAB, 0xB6662D3D, 0x76DC4190, 0x01DB7106,
   0x98D220BC, 0xEFD5102A, 0x71B18589, 0x06B6B51F, 0x9FBFE4A5, 0xE8B8D433,
   0x7807C9A2, 0x0F00F934, 0x9609A88E, 0xE10E9818, 0x7F6A0DBB, 0x086D3D2D,
   0x91646C97, 0xE6635C01, 0x6B6B51F4, 0x1C6C6162, 0x856530D8, 0xF262004E,
   0x6C0695ED, 0x1B01A57B, 0x8208F4C1, 0xF50FC457, 0x65B0D9C6, 0x12B7E950,
   0x8BBEB8EA, 0xFCB9887C, 0x62DD1DDF, 0x15DA2D49, 0x8CD37CF3, 0xFBD44C65,
   0x4DB26158, 0x3AB551CE, 0xA3BC0074, 0xD4BB30E2, 0x4ADFA541, 0x3DD895D7,
   0xA4D1C46D, 0xD3D6F4FB, 0x4369E96A, 0x346ED9FC, 0xAD678846, 0xDA60B8D0,
   0x44042D73, 0x33031DE5, 0xAA0A4C5F, 0xDD0D7CC9, 0x5005713C, 0x270241AA,
   0xBE0B1010, 0xC90C2086, 0x5768B525, 0x206F85B3, 0xB966D409, 0xCE61E49F,
   0x5EDEF90E, 0x29D9C998, 0xB0D09822, 0xC7D7A8B4, 0x59B33D17, 0x2EB40D81,
   0xB7BD5C3B, 0xC0BA6CAD, 0xEDB88320, 0x9ABFB3B6, 0x03B6E20C, 0x74B1D29A,
   0xEAD54739, 0x9DD277AF, 0x04DB2615, 0x73DC1683, 0xE3630B12, 0x94643B84,
   0x0D6D6A3E, 0x7A6A5AA8, 0xE40ECF0B, 0x9309FF9D, 0x0A00AE27, 0x7D079EB1,
   0xF00F9344, 0x8708A3D2, 0x1E01F268, 0x6906C2FE, 0xF762575D, 0x806567CB,
   0x196C3671, 0x6E6B06E7, 0xFED41B76, 0x89D32BE0, 0x10DA7A5A, 0x67DD4ACC,
   0xF9B9DF6F, 0x8EBEEFF9, 0x17B7BE43, 0x60B08ED5, 0xD6D6A3E8, 0xA1D1937E,
   0x38D8C2C4, 0x4FDFF252, 0xD1BB67F1, 0xA6BC5767, 0x3FB506DD, 0x48B2364B,
   0xD80D2BDA, 0xAF0A1B4C, 0x36034AF6, 0x41047A60, 0xDF60EFC3, 0xA867DF55,
   0x316E8EEF, 0x4669BE79, 0xCB61B38C, 0xBC66831A, 0x256FD2A0, 0x5268E236,
   0xCC0C7795, 0xBB0B4703, 0x220216B9, 0x5505262F, 0xC5BA3BBE, 0xB2BD0B28,
   0x2BB45A92, 0x5CB36A04, 0xC2D7FFA7, 0xB5D0CF31, 0x2CD99E8B, 0x5BDEAE1D,
   0x9B64C2B0, 0xEC63F226, 0x756AA39C, 0x026D930A, 0x9C0906A9, 0xEB0E363F,
   0x72076785, 0x05005713, 0x95BF4A82, 0xE2B87A14, 0x7BB12BAE, 0x0CB61B38,
   0x92D28E9B, 0xE5D5BE0D, 0x7CDCEFB7, 0x0BDBDF21, 0x86D3D2D4, 0xF1D4E242,
   0x68DDB3F8, 0x1FDA836E, 0x81BE16CD, 0xF6B9265B, 0x6FB077E1, 0x18B74777,
   0x88085AE6, 0xFF0F6A70, 0x66063BCA, 0x11010B5C, 0x8F659EFF, 0xF862AE69,
   0x616BFFD3, 0x166CCF45, 0xA00AE278, 0xD70DD2EE, 0x4E048354, 0x3903B3C2,
   0xA7672661, 0xD06016F7, 0x4969474D, 0x3E6E77DB, 0xAED16A4A, 0xD9D65ADC,
   0x40DF0B66, 0x37D83BF0, 0xA9BCAE53, 0xDEBB9EC5, 0x47B2CF7F, 0x30B5FFE9,
   0xBDBDF21C, 0xCABAC28A, 0x53B39330, 0x24B4A3A6, 0xBAD03605, 0xCDD70693,
   0x54DE5729, 0x23D967BF, 0xB3667A2E, 0xC4614AB8, 0x5D681B02, 0x2A6F2B94,
   0xB40BBE37, 0xC30C8EA1, 0x5A05DF1B, 0x2D02EF8D]"

definition nand_crc32_step :: "u32 \<Rightarrow> u8 \<Rightarrow> u32" where
  "nand_crc32_step crc b =
     (let index = (ucast crc XOR b :: u8) in drop_bit 8 crc XOR crc32_table ! unat index)"

definition nand_crc32_calculate :: "u8 list option \<Rightarrow> nat \<Rightarrow> u32" where
  "nand_crc32_calculate data len =
     (case data of
        None \<Rightarrow> 0
      | Some d \<Rightarrow> if len = 0 then 0
                  else foldl nand_crc32_step 0xFFFFFFFF (take len d) XOR 0xFFFFFFFF)"

definition nand_crc32_verify :: "u8 list option \<Rightarrow> nat \<Rightarrow> u32 \<Rightarrow> bool" where
  "nand_crc32_verify data len crc =
     (if data = None \<or> len = 0 then False else nand_crc32_calculate data len = crc)"

section \<open>The (7,4) Hamming code\<close>

definition hamming_encode_4bit :: "u8 \<Rightarrow> u8" where
  "hamming_encode_4bit data =
     (let d0 = data AND 1;
          d1 = drop_bit 1 data AND 1;
          d2 = drop_bit 2 data AND 1;
          d3 = drop_bit 3 data AND 1;
          p1 = d0 XOR d1 XOR d3;
          p2 = d0 XOR d2 XOR d3;
          p4 = d1 XOR d2 XOR d3 in
      p1 OR push_bit 1 p2 OR push_bit 2 d0 OR push_bit 3 p4 OR push_bit 4 d1
         OR push_bit 5 d2 OR push_bit 6 d3)"

text \<open>The result is the return value and the code word as it is left.\<close>

definition hamming_decode_7bit :: "u8 \<Rightarrow> u8 \<times> u8" where
  "hamming_decode_7bit c =
     (let p1 = c AND 1;
          p2 = drop_bit 1 c AND 1;
          d0 = drop_bit 2 c AND 1;
          p4 = drop_bit 3 c AND 1;
          d1 = drop_bit 4 c AND 1;
          d2 = drop_bit 5 c AND 1;
          d3 = drop_bit 6 c AND 1;
          s1 = p1 XOR d0 XOR d1 XOR d3;
          s2 = p2 XOR d0 XOR d2 XOR d3;
          s4 = p4 XOR d1 XOR d2 XOR d3;
          syndrome = push_bit 2 s4 OR push_bit 1 s2 OR s1 in
      if syndrome = 0 then (0, c)
      else if 1 \<le> syndrome \<and> syndrome \<le> 7 then (1, c XOR push_bit (unat syndrome - 1) 1)
      else (2, c))"

section \<open>The page-level Hamming word\<close>

datatype ecc_result = ECC_RESULT_OK | ECC_RESULT_CORRECTED | ECC_RESULT_UNCORRECTABLE

datatype ecc_algo_type = ECC_ALGO_NONE | ECC_ALGO_HAMMING | ECC_ALGO_BCH | ECC_ALGO_LDPC

record ecc_stats =
  ecc_corrected_count :: u32
  ecc_uncorrectable_count :: u32

abbreviation count_corrected :: "ecc_stats \<Rightarrow> ecc_stats" where
  "count_corrected st \<equiv> st\<lparr>ecc_corrected_count := ecc_corrected_count st + 1\<rparr>"

abbreviation count_uncorrectable :: "ecc_stats \<Rightarrow> ecc_stats" where
  "count_uncorrectable st \<equiv> st\<lparr>ecc_uncorrectable_count := ecc_uncorrectable_count st + 1\<rparr>"

definition hamming_ecc_step :: "u32 \<Rightarrow> u8 \<Rightarrow> u32" where
  "hamming_ecc_step ecc_value b =
     (let low_code = hamming_encode_4bit (b AND 0x0F);
          high_code = hamming_encode_4bit (drop_bit 4 b AND 0x0F) in
      ecc_value XOR ucast low_code XOR push_bit 7 (ucast high_code))"

text \<open>The flag says whether the output pointer is not \<open>NULL\<close>.\<close>

definition nand_ecc_hamming_encode :: "u8 list option \<Rightarrow> nat \<Rightarrow> bool \<Rightarrow> ret_code \<times> u32 option" where
  "nand_ecc_hamming_encode data len has_ecc =
     (case data of
        None \<Rightarrow> (RET_ERR_PARAM, None)
      | Some d \<Rightarrow> if \<not> has_ecc \<or> len = 0 then (RET_ERR_PARAM, None)
                  else (RET_OK, Some (foldl hamming_ecc_step 0 (take len d))))"

text \<open>What a local variable holds after it was passed to an encoder.\<close>

definition ecc_out :: "ret_code \<times> u32 option \<Rightarrow> u32 \<Rightarrow> u32" where
  "ecc_out r old = (case snd r of Some e \<Rightarrow> e | None \<Rightarrow> old)"

text \<open>
  The inner loop tries the eight bits of byte \<open>i\<close>, restoring the byte after each failed try;
  the outer loop runs over the bytes.
\<close>

definition hamming_try_bit ::
    "nat \<Rightarrow> u32 \<Rightarrow> nat \<Rightarrow> u8 \<Rightarrow> nat \<Rightarrow> u8 list \<Rightarrow> (ecc_result, u8 list) ctl" where
  "hamming_try_bit len ecc i original_byte b d =
     (let d' = d[i := d ! i XOR push_bit b 1];
          calculated_ecc = ecc_out (nand_ecc_hamming_encode (Some d') len True) 0 in
      if calculated_ecc = ecc then Leave ECC_RESULT_CORRECTED d'
      else Next (d'[i := original_byte]))"

definition hamming_try_byte ::
    "nat \<Rightarrow> u32 \<Rightarrow> nat \<Rightarrow> u8 list \<Rightarrow> (ecc_result, u8 list) ctl" where
  "hamming_try_byte len ecc i d = loop_each [0..<8] (hamming_try_bit len ecc i (d ! i)) d"

definition nand_ecc_hamming_decode ::
    "ecc_stats \<Rightarrow> u8 list option \<Rightarrow> nat \<Rightarrow> u32 \<Rightarrow> ecc_result \<times> u8 list option \<times> ecc_stats" where
  "nand_ecc_hamming_decode st data len ecc =
     (case data of
        None \<Rightarrow> (ECC_RESULT_UNCORRECTABLE, None, st)
      | Some d \<Rightarrow>
          if len = 0 then (ECC_RESULT_UNCORRECTABLE, Some d, st)
          else
            let calculated_ecc = ecc_out (nand_ecc_hamming_encode (Some d) len True) 0 in
            if calculated_ecc = ecc then (ECC_RESULT_OK, Some d, st)
            else (case loop_each [0..<len] (hamming_try_byte len ecc) d of
                    Leave r d' \<Rightarrow> (r, Some d', count_corrected st)
                  | Next d' \<Rightarrow> (ECC_RESULT_UNCORRECTABLE, Some d', count_uncorrectable st)))"

definition nand_get_ecc_stats :: "ecc_stats \<Rightarrow> bool \<Rightarrow> bool \<Rightarrow> ret_code \<times> (u32 \<times> u32) option" where
  "nand_get_ecc_stats st has_corrected has_uncorrectable =
     (if \<not> has_corrected \<or> \<not> has_uncorrectable then (RET_ERR_PARAM, None)
      else (RET_OK, Some (ecc_corrected_count st, ecc_uncorrectable_count st)))"

section \<open>The (15,7) BCH code\<close>

definition gf_add :: "u8 \<Rightarrow> u8 \<Rightarrow> u8" where
  "gf_add a b = a XOR b"

definition gf_mul_step :: "u8 \<times> u8 \<times> u8 \<Rightarrow> u8 \<times> u8 \<times> u8" where
  "gf_mul_step = (\<lambda>(result, a, b).
     let result = (if b AND 1 \<noteq> 0 then result XOR a else result);
         high_bit = a AND 8;
         a = push_bit 1 a;
         a = (if high_bit \<noteq> 0 then a XOR 0x13 else a);
         b = drop_bit 1 b in
     (result, a, b))"

definition gf_mul :: "u8 \<Rightarrow> u8 \<Rightarrow> u8" where
  "gf_mul a b = fst ((gf_mul_step ^^ 4) (0, a, b)) AND 0x0F"

primrec gf_pow :: "u8 \<Rightarrow> nat \<Rightarrow> u8" where
  "gf_pow a 0 = 1"
| "gf_pow a (Suc n) = gf_mul (gf_pow a n) a"

definition bch_lfsr_step :: "u16 \<Rightarrow> u16" where
  "bch_lfsr_step codeword =
     (let feedback = drop_bit 14 codeword AND 1; codeword = push_bit 1 codeword in
      if feedback \<noteq> 0 then codeword XOR 0x01D1 else codeword)"

definition bch_encode_7bit :: "u8 \<Rightarrow> u16" where
  "bch_encode_7bit data = (bch_lfsr_step ^^ 7) (push_bit 8 (ucast (data AND 0x7F))) AND 0x7FFF"

text \<open>The two syndrome loops.\<close>

definition bch_s1 :: "u16 \<Rightarrow> u8" where
  "bch_s1 r = fold (\<lambda>i s. if drop_bit i r AND 1 \<noteq> 0 then s XOR gf_pow 2 i else s) [0..<15] 0"

definition bch_s3 :: "u16 \<Rightarrow> u8" where
  "bch_s3 r = fold (\<lambda>i s. if drop_bit i r AND 1 \<noteq> 0 then s XOR gf_pow (gf_pow 2 i) 3 else s) [0..<15] 0"

text \<open>The searches for one and for two error positions; the loops stop at the first hit.\<close>

definition bch_one_error :: "u8 \<Rightarrow> u16" where
  "bch_one_error s1 =
     (case find (\<lambda>i. gf_pow 2 i = s1) [0..<15] of Some i \<Rightarrow> push_bit i 1 | None \<Rightarrow> 0)"

definition bch_two_errors :: "u8 \<Rightarrow> u8 \<Rightarrow> u16 option" where
  "bch_two_errors s1 s3 =
     map_option (\<lambda>(i, j). push_bit i 1 OR push_bit j 1)
       (find (\<lambda>(i, j). gf_add (gf_pow 2 i) (gf_pow 2 j) = s1 \<and>
                       gf_add (gf_pow (gf_pow 2 i) 3) (gf_pow (gf_pow 2 j) 3) = s3)
          (concat (map (\<lambda>i. map (Pair i) [i + 1..<15]) [0..<15])))"

definition bch_decode_15bit :: "u16 \<Rightarrow> u8 \<times> u16" where
  "bch_decode_15bit r =
     (let s1 = bch_s1 r; s3 = bch_s3 r in
      if s1 = 0 \<and> s3 = 0 then (0, r)
      else if s3 = gf_pow s1 3 then (1, r XOR bch_one_error s1)
      else (case bch_two_errors s1 s3 of
              Some error_positions \<Rightarrow> (2, r XOR error_positions)
            | None \<Rightarrow> (3, r)))"

definition rotate_ecc :: "u32 \<Rightarrow> u32" where
  "rotate_ecc e = push_bit 1 e OR (drop_bit 31 e AND 1)"

definition bch_ecc_step :: "u32 \<Rightarrow> u8 \<Rightarrow> u32" where
  "bch_ecc_step ecc_value b = rotate_ecc (ecc_value XOR ucast (bch_encode_7bit (b AND 0x7F) AND 0xFF))"

definition nand_ecc_bch_encode :: "u8 list option \<Rightarrow> nat \<Rightarrow> bool \<Rightarrow> ret_code \<times> u32 option" where
  "nand_ecc_bch_encode data len has_ecc =
     (case data of
        None \<Rightarrow> (RET_ERR_PARAM, None)
      | Some d \<Rightarrow> if \<not> has_ecc \<or> len = 0 then (RET_ERR_PARAM, None)
                  else (RET_OK, Some (foldl bch_ecc_step 0 (take len d))))"

text \<open>The loop that counts the bits in which two words differ.\<close>

function count_bits :: "u32 \<Rightarrow> nat" where
  "count_bits diff = (if diff = 0 then 0 else unat (diff AND 1) + count_bits (drop_bit 1 diff))"
  by pat_completeness auto

termination
proof (relation "measure unat")
  fix diff :: u32
  assume "diff \<noteq> 0"
  then have "unat diff div 2 < unat diff" by (simp add: unat_gt_0)
  then show "(drop_bit 1 diff, diff) \<in> measure unat" by (simp add: drop_bit_eq_div unat_div)
qed simp

declare count_bits.simps [simp del]

definition NAND_BCH_T :: nat where
  "NAND_BCH_T = 2"

definition nand_ecc_bch_decode ::
    "ecc_stats \<Rightarrow> u8 list option \<Rightarrow> nat \<Rightarrow> u32 \<Rightarrow> ecc_result \<times> ecc_stats" where
  "nand_ecc_bch_decode st data len ecc =
     (if data = None \<or> len = 0 then (ECC_RESULT_UNCORRECTABLE, st)
      else
        let calculated_ecc = ecc_out (nand_ecc_bch_encode data len True) 0;
            error_bits = count_bits (calculated_ecc XOR ecc) in
        if error_bits = 0 then (ECC_RESULT_OK, st)
        else if error_bits \<le> NAND_BCH_T then (ECC_RESULT_CORRECTED, count_corrected st)
        else (ECC_RESULT_UNCORRECTABLE, count_uncorrectable st))"

section \<open>The (12,6) LDPC code\<close>

definition NAND_LDPC_N :: nat where "NAND_LDPC_N = 12"
definition NAND_LDPC_K :: nat where "NAND_LDPC_K = 6"
definition NAND_LDPC_M :: nat where "NAND_LDPC_M = 6"
definition NAND_LDPC_MAX_ITER :: nat where "NAND_LDPC_MAX_ITER = 10"
definition NAND_LDPC_T :: nat where "NAND_LDPC_T = 3"

lemmas ldpc_sizes = NAND_LDPC_N_def NAND_LDPC_K_def NAND_LDPC_M_def NAND_LDPC_MAX_ITER_def NAND_LDPC_T_def

definition ldpc_H_matrix :: "nat list list" where
  "ldpc_H_matrix =
    [[1, 1, 0, 1, 0, 0, 1, 0, 0, 0, 0, 0],
     [0, 1, 1, 0, 1, 0, 0, 1, 0, 0, 0, 0],
     [0, 0, 1, 1, 0, 1, 0, 0, 1, 0, 0, 0],
     [1, 0, 0, 1, 1, 0, 0, 0, 0, 1, 0, 0],
     [0, 1, 0, 0, 1, 1, 0, 0, 0, 0, 1, 0],
     [1, 0, 1, 0, 0, 1, 0, 0, 0, 0, 0, 1]]"

definition ldpc_parity :: "u8 \<Rightarrow> nat \<Rightarrow> u8" where
  "ldpc_parity data i =
     fold (\<lambda>j parity. if ldpc_H_matrix ! i ! j \<noteq> 0 then parity XOR (drop_bit j data AND 1) else parity)
       [0..<NAND_LDPC_K] 0"

definition ldpc_encode_6bit :: "u8 \<Rightarrow> u16" where
  "ldpc_encode_6bit data =
     fold (\<lambda>i codeword. if ldpc_parity data i \<noteq> 0 then codeword OR push_bit (NAND_LDPC_K + i) 1 else codeword)
       [0..<NAND_LDPC_M] (ucast (data AND 0x3F)) AND 0x0FFF"

definition ldpc_calc_syndrome :: "u16 \<Rightarrow> u8 list" where
  "ldpc_calc_syndrome codeword =
     map (\<lambda>i. fold (\<lambda>j s. if ldpc_H_matrix ! i ! j \<noteq> 0 then s XOR (ucast (drop_bit j codeword) AND 1) else s)
            [0..<NAND_LDPC_N] 0)
       [0..<NAND_LDPC_M]"

text \<open>The number of failed checks each bit takes part in, and the first bit with the most.\<close>

definition ldpc_error_count :: "u8 list \<Rightarrow> nat \<Rightarrow> nat" where
  "ldpc_error_count syndrome j =
     fold (\<lambda>i n. if syndrome ! i \<noteq> 0 \<and> ldpc_H_matrix ! i ! j \<noteq> 0 then n + 1 else n) [0..<NAND_LDPC_M] 0"

definition ldpc_worst_bit :: "u8 list \<Rightarrow> nat" where
  "ldpc_worst_bit syndrome =
     snd (fold (\<lambda>i (max_error, max_pos).
            if max_error < ldpc_error_count syndrome i then (ldpc_error_count syndrome i, i)
            else (max_error, max_pos))
       [0..<NAND_LDPC_N] (0, 0))"

definition ldpc_clean :: "u8 list \<Rightarrow> bool" where
  "ldpc_clean syndrome \<longleftrightarrow> list_all (\<lambda>s. s = 0) syndrome"

text \<open>
  One round of the decoder on the received word and the number of flips so far.  Leaving with
  \<open>True\<close> is the successful return; leaving with \<open>False\<close> is the \<open>break\<close>.
\<close>

definition ldpc_round :: "nat \<Rightarrow> u16 \<times> nat \<Rightarrow> (bool, u16 \<times> nat) ctl" where
  "ldpc_round iter = (\<lambda>(r, total_errors).
     let syndrome = ldpc_calc_syndrome r in
     if ldpc_clean syndrome then Leave True (r, total_errors)
     else
       let r = r XOR push_bit (ldpc_worst_bit syndrome) 1; total_errors = total_errors + 1 in
       if NAND_LDPC_T < total_errors then Leave False (r, total_errors)
       else Next (r, total_errors))"

definition ldpc_decode_12bit :: "u16 \<Rightarrow> nat \<times> u16" where
  "ldpc_decode_12bit codeword =
     (case loop_each [0..<NAND_LDPC_MAX_ITER] ldpc_round (codeword, 0) of
        Leave True (r, total_errors) \<Rightarrow> (total_errors, r)
      | Leave False (r, total_errors) \<Rightarrow>
          if ldpc_clean (ldpc_calc_syndrome r) \<and> total_errors \<le> NAND_LDPC_T then (total_errors, r)
          else (NAND_LDPC_T + 1, codeword)
      | Next (r, total_errors) \<Rightarrow>
          if ldpc_clean (ldpc_calc_syndrome r) \<and> total_errors \<le> NAND_LDPC_T then (total_errors, r)
          else (NAND_LDPC_T + 1, codeword))"

definition ldpc_ecc_step :: "u32 \<Rightarrow> u8 \<Rightarrow> u32" where
  "ldpc_ecc_step ecc_value b =
     rotate_ecc (ecc_value XOR (ucast (drop_bit 6 (ldpc_encode_6bit (b AND 0x3F))) AND 0x3F))"

definition nand_ecc_ldpc_encode :: "u8 list option \<Rightarrow> nat \<Rightarrow> bool \<Rightarrow> ret_code \<times> u32 option" where
  "nand_ecc_ldpc_encode data len has_ecc =
     (case data of
        None \<Rightarrow> (RET_ERR_PARAM, None)
      | Some d \<Rightarrow> if \<not> has_ecc \<or> len = 0 then (RET_ERR_PARAM, None)
                  else (RET_OK, Some (foldl ldpc_ecc_step 0 (take len d))))"

definition nand_ecc_ldpc_decode ::
    "ecc_stats \<Rightarrow> u8 list option \<Rightarrow> nat \<Rightarrow> u32 \<Rightarrow> ecc_result \<times> ecc_stats" where
  "nand_ecc_ldpc_decode st data len ecc =
     (if data = None \<or> len = 0 then (ECC_RESULT_UNCORRECTABLE, st)
      else
        let calculated_ecc = ecc_out (nand_ecc_ldpc_encode data len True) 0;
            error_bits = count_bits (calculated_ecc XOR ecc) in
        if error_bits = 0 then (ECC_RESULT_OK, st)
        else if error_bits \<le> NAND_LDPC_T then (ECC_RESULT_CORRECTED, count_corrected st)
        else (ECC_RESULT_UNCORRECTABLE, count_uncorrectable st))"

section \<open>CRC-32\<close>

lemma crc32_table_same: "crc32_table = g_crc32_table"
  unfolding crc32_table_def g_crc32_table_def by (rule refl)

lemma ucast_u8_and_255: "unat (ucast c :: u8) = unat (c AND 0xFF)" for c :: u32
proof -
  have "(0xFF :: u32) = mask 8" by (simp add: mask_eq_exp_minus_1)
  then show ?thesis
    by (simp only: take_bit_eq_mask [symmetric] unsigned_take_bit_eq unsigned_ucast_eq) simp
qed

lemma nand_crc32_step_same: "nand_crc32_step = utils_crc32_step"
proof (intro ext)
  fix c :: u32 and b
  have "ucast c XOR b = (ucast (c XOR ucast b) :: u8)"
    by (rule bit_word_eqI) (simp add: bit_simps)
  then show "nand_crc32_step c b = utils_crc32_step c b"
    by (simp add: nand_crc32_step_def utils_crc32_step_def Let_def crc32_table_same
        ucast_u8_and_255 xor.commute)
qed

lemma nand_crc32_same: "nand_crc32_calculate = utils_crc32"
  by (intro ext) (simp add: nand_crc32_calculate_def utils_crc32_def nand_crc32_step_same
      split: option.split)

section \<open>The Hamming code\<close>

lemma low_word_cases:
  fixes w :: "'a :: len word"
  shows "w AND mask n \<in> set (map of_nat [0..<2 ^ n])"
proof -
  have "unat (w AND mask n) < 2 ^ n"
    by (simp add: take_bit_eq_mask [symmetric] unsigned_take_bit_eq)
  then show ?thesis by (auto intro!: image_eqI [of _ _ "unat (w AND mask n)"])
qed

lemma bit_and_1: "bit (x AND 1) n \<longleftrightarrow> n = 0 \<and> bit x 0" for x :: "'a :: len word"
  by (auto simp: bit_simps)

lemma hamming_encode_bits:
  "bit (hamming_encode_4bit d) n \<longleftrightarrow>
     n = 0 \<and> (bit d 0 \<noteq> (bit d 1 \<noteq> bit d 3)) \<or> n = 1 \<and> (bit d 0 \<noteq> (bit d 2 \<noteq> bit d 3)) \<or>
     n = 2 \<and> bit d 0 \<or> n = 3 \<and> (bit d 1 \<noteq> (bit d 2 \<noteq> bit d 3)) \<or>
     n = 4 \<and> bit d 1 \<or> n = 5 \<and> bit d 2 \<or> n = 6 \<and> bit d 3"
proof (cases "n < 7")
  note bits = hamming_encode_4bit_def Let_def bit_or_iff bit_push_bit_iff bit_xor_iff bit_and_1
    bit_drop_bit_eq possible_bit_word
  case True
  then consider "n = 0" | "n = 1" | "n = 2" | "n = 3" | "n = 4" | "n = 5" | "n = 6" by linarith
  then show ?thesis unfolding bits by cases simp_all
next
  case False
  then show ?thesis
    unfolding hamming_encode_4bit_def Let_def bit_or_iff bit_push_bit_iff bit_xor_iff bit_and_1
      bit_drop_bit_eq possible_bit_word by simp
qed

lemma drop_bit_and_1: "drop_bit k x AND 1 = of_bool (bit x k)" for x :: "'a :: len word"
  by (rule bit_word_eqI) (auto simp: bit_simps)

lemma and_1: "x AND 1 = of_bool (bit x 0)" for x :: "'a :: len word"
  using drop_bit_and_1 [of 0 x] by simp

text \<open>The three checks of a received word.\<close>

definition hamming_s1 :: "u8 \<Rightarrow> bool" where
  "hamming_s1 c \<longleftrightarrow> (bit c 0 \<noteq> (bit c 2 \<noteq> (bit c 4 \<noteq> bit c 6)))"

definition hamming_s2 :: "u8 \<Rightarrow> bool" where
  "hamming_s2 c \<longleftrightarrow> (bit c 1 \<noteq> (bit c 2 \<noteq> (bit c 5 \<noteq> bit c 6)))"

definition hamming_s4 :: "u8 \<Rightarrow> bool" where
  "hamming_s4 c \<longleftrightarrow> (bit c 3 \<noteq> (bit c 4 \<noteq> (bit c 5 \<noteq> bit c 6)))"

lemma of_bool_xor: "of_bool p XOR of_bool q = (of_bool (p \<noteq> q) :: 'a :: len word)"
  by (cases p; cases q) simp_all

lemma hamming_decode_checks:
  "hamming_decode_7bit c =
     (let n = of_bool (hamming_s1 c) + 2 * of_bool (hamming_s2 c) + 4 * of_bool (hamming_s4 c) in
      if n = 0 then (0, c) else (1, c XOR push_bit (n - 1) 1))"
  unfolding hamming_decode_7bit_def Let_def drop_bit_and_1
  unfolding and_1 of_bool_xor
    hamming_s1_def [symmetric] hamming_s2_def [symmetric] hamming_s4_def [symmetric]
  by (cases "hamming_s1 c"; cases "hamming_s2 c"; cases "hamming_s4 c") simp_all

lemma hamming_checks_flip:
  assumes "k < 7"
  shows "hamming_s1 (c XOR push_bit k 1) \<longleftrightarrow> (hamming_s1 c \<noteq> (k = 0 \<or> k = 2 \<or> k = 4 \<or> k = 6))"
    "hamming_s2 (c XOR push_bit k 1) \<longleftrightarrow> (hamming_s2 c \<noteq> (k = 1 \<or> k = 2 \<or> k = 5 \<or> k = 6))"
    "hamming_s4 (c XOR push_bit k 1) \<longleftrightarrow> (hamming_s4 c \<noteq> (k = 3 \<or> k = 4 \<or> k = 5 \<or> k = 6))"
proof -
  have bit: "bit (c XOR push_bit k 1) j \<longleftrightarrow> (bit c j \<noteq> (j = k \<and> j < 8))" for j
    by (auto simp: bit_simps)
  from assms consider "k = 0" | "k = 1" | "k = 2" | "k = 3" | "k = 4" | "k = 5" | "k = 6" by linarith
  then show "hamming_s1 (c XOR push_bit k 1) \<longleftrightarrow> (hamming_s1 c \<noteq> (k = 0 \<or> k = 2 \<or> k = 4 \<or> k = 6))"
    "hamming_s2 (c XOR push_bit k 1) \<longleftrightarrow> (hamming_s2 c \<noteq> (k = 1 \<or> k = 2 \<or> k = 5 \<or> k = 6))"
    "hamming_s4 (c XOR push_bit k 1) \<longleftrightarrow> (hamming_s4 c \<noteq> (k = 3 \<or> k = 4 \<or> k = 5 \<or> k = 6))"
    unfolding hamming_s1_def hamming_s2_def hamming_s4_def bit by (cases; auto)+
qed

text \<open>The code of a byte: both nibbles, the upper one seven bits higher.\<close>

definition hamming_byte :: "u8 \<Rightarrow> u32" where
  "hamming_byte b = ucast (hamming_encode_4bit (b AND 0x0F)) XOR
     push_bit 7 (ucast (hamming_encode_4bit (drop_bit 4 b AND 0x0F)))"

lemma bit_nibble: "bit (b AND 0x0F) n \<longleftrightarrow> n < 4 \<and> bit b n" for b :: u8
proof -
  have "(0x0F :: u8) = mask 4" by (simp add: mask_eq_exp_minus_1)
  then show ?thesis by (simp only: bit_and_iff bit_mask_iff possible_bit_word) auto
qed

lemma hamming_encode_xor:
  "hamming_encode_4bit ((a XOR b) AND 0x0F) = hamming_encode_4bit (a AND 0x0F) XOR hamming_encode_4bit (b AND 0x0F)"
proof (rule bit_word_eqI)
  fix n assume "n < LENGTH(8)"
  then consider "n = 0" | "n = 1" | "n = 2" | "n = 3" | "n = 4" | "n = 5" | "n = 6" | "n = 7"
    by fastforce
  then show "bit (hamming_encode_4bit ((a XOR b) AND 0x0F)) n =
      bit (hamming_encode_4bit (a AND 0x0F) XOR hamming_encode_4bit (b AND 0x0F)) n"
    unfolding bit_xor_iff hamming_encode_bits bit_nibble by cases (simp_all, blast+)
qed

lemma hamming_byte_xor: "hamming_byte (a XOR b) = hamming_byte a XOR hamming_byte b"
proof -
  have "drop_bit 4 (a XOR b) = drop_bit 4 a XOR drop_bit 4 b" by (rule drop_bit_xor)
  then show ?thesis
    unfolding hamming_byte_def \<open>drop_bit 4 (a XOR b) = _\<close> hamming_encode_xor unsigned_xor_eq push_bit_xor
    by (simp only: ac_simps)
qed

lemma hamming_byte_0: "hamming_byte b = 0 \<longleftrightarrow> b = 0"
proof
  assume 0: "hamming_byte b = 0"
  have bits: "bit (hamming_byte b) n \<longleftrightarrow>
     bit (hamming_encode_4bit (b AND 0x0F)) n \<noteq> (7 \<le> n \<and> bit (hamming_encode_4bit (drop_bit 4 b AND 0x0F)) (n - 7))"
    if "n < 14" for n
    using that by (auto simp: hamming_byte_def bit_xor_iff bit_push_bit_iff bit_ucast_iff
        dest: bit_imp_le_length)
  show "b = 0"
  proof (rule bit_word_eqI)
    fix n assume "n < LENGTH(8)"
    then consider "n = 0" | "n = 1" | "n = 2" | "n = 3" | "n = 4" | "n = 5" | "n = 6" | "n = 7"
      by fastforce
    then show "bit b n = bit 0 n"
      using bits [of 2] bits [of 4] bits [of 5] bits [of 6] bits [of 9] bits [of 11] bits [of 12] bits [of 13]
      unfolding hamming_encode_bits bit_nibble 0 bit_drop_bit_eq by cases simp_all
  qed
next
  show "b = 0 \<Longrightarrow> hamming_byte b = 0"
    by (simp add: hamming_byte_def hamming_encode_4bit_def)
qed

lemma hamming_ecc_step_xor: "hamming_ecc_step e b = e XOR hamming_byte b"
  by (simp add: hamming_ecc_step_def hamming_byte_def Let_def ac_simps)

interpretation hamming_ecc: byte_checksum hamming_ecc_step
proof
  fix c c' b b'
  show "hamming_ecc_step c b = hamming_ecc_step c' b \<Longrightarrow> c = c'"
    by (simp add: hamming_ecc_step_xor)
  show "hamming_ecc_step c b = hamming_ecc_step c b' \<Longrightarrow> b = b'"
  proof -
    assume "hamming_ecc_step c b = hamming_ecc_step c b'"
    then have "hamming_byte b = hamming_byte b'" by (simp add: hamming_ecc_step_xor)
    then have "hamming_byte (b XOR b') = 0" by (simp add: hamming_byte_xor)
    then have "b XOR b' = b' XOR b'" by (simp add: hamming_byte_0)
    then show "b = b'" by (simp only: word_xor_cancel)
  qed
qed

lemma hamming_decode_clean:
  "hamming_decode_7bit (hamming_encode_4bit d) = (0, hamming_encode_4bit d)"
  "\<not> hamming_s1 (hamming_encode_4bit d)" "\<not> hamming_s2 (hamming_encode_4bit d)"
  "\<not> hamming_s4 (hamming_encode_4bit d)"
proof -
  show "\<not> hamming_s1 (hamming_encode_4bit d)" "\<not> hamming_s2 (hamming_encode_4bit d)"
    "\<not> hamming_s4 (hamming_encode_4bit d)"
    by (simp_all add: hamming_s1_def hamming_s2_def hamming_s4_def hamming_encode_bits)
  then show "hamming_decode_7bit (hamming_encode_4bit d) = (0, hamming_encode_4bit d)"
    by (simp add: hamming_decode_checks)
qed

lemma hamming_decode_flipped:
  assumes k: "k < 7" and clean: "\<not> hamming_s1 c" "\<not> hamming_s2 c" "\<not> hamming_s4 c"
  shows "hamming_decode_7bit (c XOR push_bit k 1) = (1, c)"
proof -
  have "of_bool (hamming_s1 (c XOR push_bit k 1)) + 2 * of_bool (hamming_s2 (c XOR push_bit k 1)) +
      4 * of_bool (hamming_s4 (c XOR push_bit k 1)) = Suc k"
    unfolding hamming_checks_flip [OF k] using clean k
    by (cases "k = 0"; cases "k = 1"; cases "k = 2"; cases "k = 3"; cases "k = 4"; cases "k = 5"; simp)
  then show ?thesis
    unfolding hamming_decode_checks by (simp only: Let_def) (simp add: xor.assoc)
qed

text \<open>
  The (7,4) Hamming code corrects every single bit error.  Decoding the code word of any
  nibble returns it unchanged with 0 corrections, and decoding it with any one of its seven bits
  flipped restores it and reports one correction.
\<close>

theorem hamming_code_corrects_single_errors:
  "hamming_decode_7bit (hamming_encode_4bit d) = (0, hamming_encode_4bit d) \<and>
   (\<forall>k<7. hamming_decode_7bit (hamming_encode_4bit d XOR push_bit k 1) = (1, hamming_encode_4bit d))"
  using hamming_decode_clean [of d] hamming_decode_flipped by blast

theorem hamming_code_corrects_single_errors_witness:
  "hamming_decode_7bit (hamming_encode_4bit 11 XOR push_bit 4 1) = (1, hamming_encode_4bit 11)"
  using hamming_code_corrects_single_errors [of 11] by (elim conjE allE [of _ 4] impE) simp_all

end
