(* ===== verification/Nand.thy ===== *)
theory Nand
  imports NandEcc
begin

text \<open>
  The simulated NAND chip, \<open>modules/nand/nand.c\<close> and \<open>nand.h\<close>: block metadata in memory,
  pages and their out-of-band records in a memory-mapped file.  The file is a function from byte
  offsets to bytes and survives \<open>nand_deinit\<close>; \<open>rand()\<close> is a stream of numbers in the state, of
  which each call takes the first.  Block and page numbers are \<open>nat\<close>.  The device mutex only
  brackets the operations and is not modelled; log output and the two print functions are left out.
\<close>

section \<open>Data\<close>

definition NAND_PAGES_PER_BLOCK :: nat where [geometry]: "NAND_PAGES_PER_BLOCK = 256"
definition NAND_TOTAL_BLOCKS :: nat where [geometry]: "NAND_TOTAL_BLOCKS = 128"
definition NAND_RESERVED_BLOCKS :: nat where [geometry]: "NAND_RESERVED_BLOCKS = 8"
definition NAND_OOB_SIZE :: nat where [geometry]: "NAND_OOB_SIZE = 16"
definition NAND_OOB_MAGIC :: u32 where "NAND_OOB_MAGIC = 0x4F4F4231"
definition NAND_INIT_BAD_BLOCK_RATIO :: nat where "NAND_INIT_BAD_BLOCK_RATIO = 2"
definition NAND_ERASE_WEAR_THRESHOLD :: u32 where "NAND_ERASE_WEAR_THRESHOLD = 1000"
definition NAND_HIGH_WEAR_BAD_RATIO :: nat where "NAND_HIGH_WEAR_BAD_RATIO = 5"
definition NAND_READ_DISTURB_THRESHOLD :: u32 where "NAND_READ_DISTURB_THRESHOLD = 100000"
definition NAND_WRITE_RETRY_COUNT :: nat where "NAND_WRITE_RETRY_COUNT = 3"
definition NAND_READ_RETRY_COUNT :: nat where "NAND_READ_RETRY_COUNT = 3"
definition NAND_POWER_READ_PER_PAGE :: u32 where "NAND_POWER_READ_PER_PAGE = 1"
definition NAND_POWER_WRITE_PER_PAGE :: u32 where "NAND_POWER_WRITE_PER_PAGE = 3"
definition NAND_POWER_ERASE_PER_BLOCK :: u32 where "NAND_POWER_ERASE_PER_BLOCK = 10"

datatype nand_type = NAND_TYPE_SLC | NAND_TYPE_MLC | NAND_TYPE_TLC | NAND_TYPE_QLC

datatype block_state = BLOCK_FREE | BLOCK_USED | BLOCK_BAD

datatype bad_block_type = BAD_BLOCK_INIT | BAD_BLOCK_WEAR

record nand_oob =
  oob_magic :: u32
  oob_crc32 :: u32
  oob_ecc :: u32
  oob_bad_block_mark :: u8
  oob_reserved :: "u8 list"

text \<open>The record as \<open>memcpy\<close> lays it out: 16 bytes, little endian.\<close>

definition oob_bytes :: "nand_oob \<Rightarrow> u8 list" where
  "oob_bytes oob = words_bytes [oob_magic oob, oob_crc32 oob, oob_ecc oob] @
     oob_bad_block_mark oob # oob_reserved oob"

definition oob_of_bytes :: "u8 list \<Rightarrow> nand_oob" where
  "oob_of_bytes bs =
     (let ws = words_of_bytes 3 bs in
      \<lparr>oob_magic = ws ! 0, oob_crc32 = ws ! 1, oob_ecc = ws ! 2,
       oob_bad_block_mark = bs ! 12, oob_reserved = take 3 (drop 13 bs)\<rparr>)"

definition zero_oob :: nand_oob where
  "zero_oob = \<lparr>oob_magic = 0, oob_crc32 = 0, oob_ecc = 0, oob_bad_block_mark = 0,
     oob_reserved = [0, 0, 0]\<rparr>"

record phy_block =
  pb_state :: block_state
  pb_erase_count :: u32
  pb_valid_page_cnt :: u32
  pb_read_count :: u32
  pb_need_reclaim :: bool
  pb_bad_type :: bad_block_type
  pb_page_valid :: "nat \<Rightarrow> bool"

definition zero_block :: phy_block where
  "zero_block = \<lparr>pb_state = BLOCK_FREE, pb_erase_count = 0, pb_valid_page_cnt = 0, pb_read_count = 0,
     pb_need_reclaim = False, pb_bad_type = BAD_BLOCK_INIT, pb_page_valid = (\<lambda>_. False)\<rparr>"

text \<open>
  The stream \<open>media_file\<close>: not open, open, or closed with the pointer still set, which an
  error path of \<open>nand_init\<close> leaves behind.
\<close>

datatype file_handle = No_file | Open_file | Stale_file

record nand_dev =
  nd_blocks :: "nat \<Rightarrow> phy_block"
  nd_file :: file_handle
  nd_media :: "nat \<Rightarrow> u8"
  nd_media_size :: nat
  nd_is_initialized :: bool
  nd_is_new_media :: bool
  nd_total_read_pages :: u32
  nd_total_write_pages :: u32
  nd_reserved_count :: u32
  nd_read_disturb_count :: u32
  nd_read_disturb_moved :: u32
  nd_crc_error_count :: u32
  nd_ecc :: ecc_stats
  nd_ecc_algo :: ecc_algo_type
  nd_type :: nand_type
  nd_read_energy :: u32
  nd_write_energy :: u32
  nd_erase_energy :: u32
  nd_rand :: "nat \<Rightarrow> nat"

abbreviation upd_block :: "nat \<Rightarrow> (phy_block \<Rightarrow> phy_block) \<Rightarrow> nand_dev \<Rightarrow> nand_dev" where
  "upd_block b f d \<equiv> d\<lparr>nd_blocks := (nd_blocks d)(b := f (nd_blocks d b))\<rparr>"

abbreviation page_valid :: "nand_dev \<Rightarrow> nat \<Rightarrow> nat \<Rightarrow> bool" where
  "page_valid d b p \<equiv> pb_page_valid (nd_blocks d b) p"

abbreviation block_state_of :: "nand_dev \<Rightarrow> nat \<Rightarrow> block_state" where
  "block_state_of d b \<equiv> pb_state (nd_blocks d b)"

section \<open>Chip parameters\<close>

definition nand_rand :: "nand_dev \<Rightarrow> nat \<times> nand_dev" where
  "nand_rand d = (nd_rand d 0, d\<lparr>nd_rand := (\<lambda>n. nd_rand d (Suc n))\<rparr>)"

fun nand_get_erase_threshold :: "nand_type \<Rightarrow> u32" where
  "nand_get_erase_threshold NAND_TYPE_SLC = 100000"
| "nand_get_erase_threshold NAND_TYPE_MLC = 3000"
| "nand_get_erase_threshold NAND_TYPE_TLC = 1000"
| "nand_get_erase_threshold NAND_TYPE_QLC = 300"

fun nand_get_init_bad_ratio :: "nand_type \<Rightarrow> nat" where
  "nand_get_init_bad_ratio NAND_TYPE_SLC = 1"
| "nand_get_init_bad_ratio NAND_TYPE_MLC = 2"
| "nand_get_init_bad_ratio NAND_TYPE_TLC = 3"
| "nand_get_init_bad_ratio NAND_TYPE_QLC = 5"

text \<open>An argument outside the enumeration is \<open>None\<close>.\<close>

definition nand_set_type :: "nand_dev \<Rightarrow> nand_type option \<Rightarrow> ret_code \<times> nand_dev" where
  "nand_set_type d type =
     (case type of None \<Rightarrow> (RET_ERR_NOT_SUPPORT, d) | Some t \<Rightarrow> (RET_OK, d\<lparr>nd_type := t\<rparr>))"

definition nand_get_type :: "nand_dev \<Rightarrow> nand_type" where
  "nand_get_type d = nd_type d"

definition nand_ecc_set_algo :: "nand_dev \<Rightarrow> ecc_algo_type \<Rightarrow> ret_code \<times> nand_dev" where
  "nand_ecc_set_algo d algo =
     (if algo \<noteq> ECC_ALGO_HAMMING \<and> algo \<noteq> ECC_ALGO_BCH then (RET_ERR_PARAM, d)
      else (RET_OK, d\<lparr>nd_ecc_algo := algo\<rparr>))"

definition nand_ecc_get_algo :: "nand_dev \<Rightarrow> ecc_algo_type" where
  "nand_ecc_get_algo d = nd_ecc_algo d"

section \<open>Addresses\<close>

definition nand_is_block_valid :: "nand_dev \<Rightarrow> nat \<Rightarrow> bool" where
  "nand_is_block_valid d block \<longleftrightarrow> block < NAND_TOTAL_BLOCKS \<and> nd_is_initialized d"

definition nand_calc_page_offset :: "nat \<Rightarrow> nat \<Rightarrow> nat" where
  "nand_calc_page_offset block page =
     (block * NAND_PAGES_PER_BLOCK + page) * (NAND_PAGE_SIZE + NAND_OOB_SIZE)"

definition nand_calc_oob_offset :: "nat \<Rightarrow> nat \<Rightarrow> nat" where
  "nand_calc_oob_offset block page = nand_calc_page_offset block page + NAND_PAGE_SIZE"

definition page_data :: "nand_dev \<Rightarrow> nat \<Rightarrow> nat \<Rightarrow> u8 list" where
  "page_data d block page = mem_read (nd_media d) (nand_calc_page_offset block page) NAND_PAGE_SIZE"

definition page_oob :: "nand_dev \<Rightarrow> nat \<Rightarrow> nat \<Rightarrow> nand_oob" where
  "page_oob d block page =
     oob_of_bytes (mem_read (nd_media d) (nand_calc_oob_offset block page) NAND_OOB_SIZE)"

definition media_put :: "nat \<Rightarrow> u8 list \<Rightarrow> nand_dev \<Rightarrow> nand_dev" where
  "media_put off bs d = d\<lparr>nd_media := mem_write (nd_media d) off bs\<rparr>"

section \<open>Power up and down\<close>

text \<open>What the operating system answers to the calls of \<open>nand_init\<close>.\<close>

record nand_env =
  env_open :: bool
  env_fstat :: bool
  env_fdopen :: bool
  env_ftruncate :: bool
  env_mmap :: bool

text \<open>One iteration of the loop that resets the block table and draws the initial bad blocks.\<close>

definition init_block :: "nat \<Rightarrow> nand_dev \<Rightarrow> nand_dev" where
  "init_block i d =
     (let d = upd_block i (\<lambda>_. zero_block) d in
      if \<not> nd_is_new_media d then d
      else
        let (r, d) = nand_rand d in
        if r mod 100 < nand_get_init_bad_ratio (nd_type d)
        then upd_block i (\<lambda>b. b\<lparr>pb_state := BLOCK_BAD, pb_bad_type := BAD_BLOCK_INIT\<rparr>) d
        else d)"

definition count_reserved :: "nand_dev \<Rightarrow> u32" where
  "count_reserved d =
     fold (\<lambda>i n. if block_state_of d i = BLOCK_FREE then n + 1 else n)
       [NAND_TOTAL_BLOCKS - NAND_RESERVED_BLOCKS..<NAND_TOTAL_BLOCKS] 0"

text \<open>Recovery of the page table from the out-of-band records of media with contents.\<close>

definition recover_page :: "nat \<Rightarrow> nat \<Rightarrow> nand_dev \<Rightarrow> nand_dev" where
  "recover_page blk pg d =
     (if oob_magic (page_oob d blk pg) = NAND_OOB_MAGIC
      then upd_block blk (\<lambda>b. b\<lparr>pb_page_valid := (pb_page_valid b)(pg := True),
             pb_valid_page_cnt := pb_valid_page_cnt b + 1, pb_state := BLOCK_USED\<rparr>) d
      else d)"

definition recover_block :: "nat \<Rightarrow> nand_dev \<Rightarrow> nand_dev" where
  "recover_block blk d =
     (if block_state_of d blk = BLOCK_BAD then d
      else fold (recover_page blk) [0..<NAND_PAGES_PER_BLOCK] d)"

text \<open>
  \<open>nand_init\<close> on the medium file.  The result is \<open>None\<close> when the mapping fails while the device
  was already in use: it then stays marked as initialised with \<open>MAP_FAILED\<close> as its base address,
  and its next access is undefined.
\<close>

definition nand_init :: "nand_env \<Rightarrow> nand_dev \<Rightarrow> bool \<Rightarrow> (ret_code \<times> nand_dev) option" where
  "nand_init env d has_path =
     (if \<not> has_path then Some (RET_ERR_PARAM, d)
      else
        let d = d\<lparr>nd_total_read_pages := 0, nd_total_write_pages := 0, nd_crc_error_count := 0,
                  nd_ecc := \<lparr>ecc_corrected_count = 0, ecc_uncorrectable_count = 0\<rparr>,
                  nd_ecc_algo := ECC_ALGO_BCH, nd_read_energy := 0, nd_write_energy := 0,
                  nd_erase_energy := 0, nd_type := NAND_TYPE_TLC\<rparr> in
        if \<not> env_open env then Some (RET_ERR_INTERNAL, d)
        else
          let d = d\<lparr>nd_is_new_media := env_fstat env \<and> nd_media_size d = 0\<rparr> in
          if \<not> env_fdopen env then Some (RET_ERR_INTERNAL, d\<lparr>nd_file := No_file\<rparr>)
          else if \<not> env_ftruncate env then Some (RET_ERR_INTERNAL, d\<lparr>nd_file := Stale_file\<rparr>)
          else
            let total_size = NAND_TOTAL_BLOCKS * NAND_PAGES_PER_BLOCK * (NAND_PAGE_SIZE + NAND_OOB_SIZE);
                d = d\<lparr>nd_media := (\<lambda>a. if a < nd_media_size d then nd_media d a else 0),
                      nd_media_size := total_size\<rparr> in
            if \<not> env_mmap env
            then (if nd_is_initialized d then None else Some (RET_ERR_INTERNAL, d\<lparr>nd_file := Stale_file\<rparr>))
            else
              let d = d\<lparr>nd_file := Open_file\<rparr>;
                  d = fold init_block [0..<NAND_TOTAL_BLOCKS] d;
                  d = d\<lparr>nd_reserved_count := count_reserved d, nd_is_initialized := True\<rparr>;
                  d = (if \<not> nd_is_new_media d then fold recover_block [0..<NAND_TOTAL_BLOCKS] d else d) in
              Some (RET_OK, d))"

text \<open>Closing a stream twice is undefined.\<close>

definition nand_deinit :: "nand_dev \<Rightarrow> nand_dev option" where
  "nand_deinit d =
     (if nd_file d = Stale_file then None
      else Some (d\<lparr>nd_file := No_file, nd_is_initialized := False\<rparr>))"

section \<open>Pages\<close>

definition nand_page_read :: "nand_dev \<Rightarrow> nat \<Rightarrow> nat \<Rightarrow> bool \<Rightarrow> ret_code \<times> u8 list option \<times> nand_dev" where
  "nand_page_read d block page has_buf =
     (if \<not> nand_is_block_valid d block \<or> NAND_PAGES_PER_BLOCK \<le> page \<or> \<not> has_buf
      then (RET_ERR_PARAM, None, d)
      else if block_state_of d block = BLOCK_BAD then (RET_ERR_BAD_BLOCK, None, d)
      else if \<not> page_valid d block page then (RET_ERR_NOT_MAPPED, None, d)
      else
        let buf = page_data d block page;
            oob = page_oob d block page;
            (buf, d) =
              (if oob_magic oob = NAND_OOB_MAGIC
               then (let (_, b, st) = nand_ecc_hamming_decode (nd_ecc d) (Some buf) NAND_PAGE_SIZE (oob_ecc oob)
                     in (the b, d\<lparr>nd_ecc := st\<rparr>))
               else (buf, d));
            d = d\<lparr>nd_total_read_pages := nd_total_read_pages d + 1\<rparr>;
            d = upd_block block (\<lambda>b. b\<lparr>pb_read_count := pb_read_count b + 1\<rparr>) d;
            d = (if NAND_READ_DISTURB_THRESHOLD \<le> pb_read_count (nd_blocks d block) \<and>
                    block_state_of d block = BLOCK_USED
                 then upd_block block (\<lambda>b. b\<lparr>pb_need_reclaim := True\<rparr>) d else d);
            d = d\<lparr>nd_read_energy := nd_read_energy d + NAND_POWER_READ_PER_PAGE\<rparr> in
        (RET_OK, Some buf, d))"

text \<open>A write buffer holds a page; the code copies \<open>NAND_PAGE_SIZE\<close> bytes of it.\<close>

definition nand_page_write :: "nand_dev \<Rightarrow> nat \<Rightarrow> nat \<Rightarrow> u8 list option \<Rightarrow> ret_code \<times> nand_dev" where
  "nand_page_write d block page buf =
     (case buf of
        None \<Rightarrow> (RET_ERR_PARAM, d)
      | Some bs \<Rightarrow>
          if \<not> nand_is_block_valid d block \<or> NAND_PAGES_PER_BLOCK \<le> page then (RET_ERR_PARAM, d)
          else if block_state_of d block = BLOCK_BAD then (RET_ERR_BAD_BLOCK, d)
          else if page_valid d block page then (RET_ERR_OVERWRITE, d)
          else
            let d = media_put (nand_calc_page_offset block page) (take NAND_PAGE_SIZE bs) d;
                oob = zero_oob\<lparr>oob_magic := NAND_OOB_MAGIC, oob_bad_block_mark := 0xFF,
                        oob_ecc := ecc_out (nand_ecc_hamming_encode (Some bs) NAND_PAGE_SIZE True) 0\<rparr>;
                d = media_put (nand_calc_page_offset block page + NAND_PAGE_SIZE) (oob_bytes oob) d;
                d = upd_block block (\<lambda>b. b\<lparr>pb_page_valid := (pb_page_valid b)(page := True),
                      pb_valid_page_cnt := pb_valid_page_cnt b + 1, pb_state := BLOCK_USED\<rparr>) d;
                d = d\<lparr>nd_total_write_pages := nd_total_write_pages d + 1,
                      nd_write_energy := nd_write_energy d + NAND_POWER_WRITE_PER_PAGE\<rparr> in
            (RET_OK, d))"

definition nand_oob_read :: "nand_dev \<Rightarrow> nat \<Rightarrow> nat \<Rightarrow> bool \<Rightarrow> ret_code \<times> nand_oob option" where
  "nand_oob_read d block page has_buf =
     (if \<not> nand_is_block_valid d block \<or> NAND_PAGES_PER_BLOCK \<le> page \<or> \<not> has_buf
      then (RET_ERR_PARAM, None)
      else if block_state_of d block = BLOCK_BAD then (RET_ERR_BAD_BLOCK, None)
      else (RET_OK, Some (page_oob d block page)))"

definition nand_oob_write :: "nand_dev \<Rightarrow> nat \<Rightarrow> nat \<Rightarrow> nand_oob option \<Rightarrow> ret_code \<times> nand_dev" where
  "nand_oob_write d block page oob =
     (case oob of
        None \<Rightarrow> (RET_ERR_PARAM, d)
      | Some oob \<Rightarrow>
          if \<not> nand_is_block_valid d block \<or> NAND_PAGES_PER_BLOCK \<le> page then (RET_ERR_PARAM, d)
          else if block_state_of d block = BLOCK_BAD then (RET_ERR_BAD_BLOCK, d)
          else (RET_OK, media_put (nand_calc_oob_offset block page) (oob_bytes oob) d))"

definition nand_get_crc_error_count :: "nand_dev \<Rightarrow> u32" where
  "nand_get_crc_error_count d = nd_crc_error_count d"

text \<open>The decoder that the current algorithm selects; BCH and LDPC leave the buffer as it is.\<close>

definition ecc_decode_selected ::
    "nand_dev \<Rightarrow> u8 list \<Rightarrow> u32 \<Rightarrow> ecc_result \<times> u8 list \<times> nand_dev" where
  "ecc_decode_selected d buf ecc =
     (case nd_ecc_algo d of
        ECC_ALGO_NONE \<Rightarrow> (ECC_RESULT_OK, buf, d)
      | ECC_ALGO_HAMMING \<Rightarrow>
          (let (r, b, st) = nand_ecc_hamming_decode (nd_ecc d) (Some buf) NAND_PAGE_SIZE ecc
           in (r, the b, d\<lparr>nd_ecc := st\<rparr>))
      | ECC_ALGO_BCH \<Rightarrow>
          (let (r, st) = nand_ecc_bch_decode (nd_ecc d) (Some buf) NAND_PAGE_SIZE ecc
           in (r, buf, d\<lparr>nd_ecc := st\<rparr>))
      | ECC_ALGO_LDPC \<Rightarrow>
          (let (r, st) = nand_ecc_ldpc_decode (nd_ecc d) (Some buf) NAND_PAGE_SIZE ecc
           in (r, buf, d\<lparr>nd_ecc := st\<rparr>)))"

definition ecc_encode_selected :: "nand_dev \<Rightarrow> u8 list \<Rightarrow> u32" where
  "ecc_encode_selected d buf =
     (case nd_ecc_algo d of
        ECC_ALGO_NONE \<Rightarrow> 0
      | ECC_ALGO_HAMMING \<Rightarrow> ecc_out (nand_ecc_hamming_encode (Some buf) NAND_PAGE_SIZE True) 0
      | ECC_ALGO_BCH \<Rightarrow> ecc_out (nand_ecc_bch_encode (Some buf) NAND_PAGE_SIZE True) 0
      | ECC_ALGO_LDPC \<Rightarrow> ecc_out (nand_ecc_ldpc_encode (Some buf) NAND_PAGE_SIZE True) 0)"

definition nand_page_read_with_crc ::
    "nand_dev \<Rightarrow> nat \<Rightarrow> nat \<Rightarrow> bool \<Rightarrow> ret_code \<times> u8 list option \<times> nand_dev" where
  "nand_page_read_with_crc d block page has_buf =
     (case nand_page_read d block page has_buf of
        (RET_OK, Some buf, d) \<Rightarrow>
          (case nand_oob_read d block page True of
             (RET_OK, Some oob) \<Rightarrow>
               if oob_magic oob \<noteq> NAND_OOB_MAGIC then (RET_OK, Some buf, d)
               else
                 let (ecc_result, buf, d) = ecc_decode_selected d buf (oob_ecc oob) in
                 if ecc_result = ECC_RESULT_CORRECTED \<and>
                    nand_crc32_calculate (Some buf) NAND_PAGE_SIZE = oob_crc32 oob
                 then (RET_OK, Some buf, d)
                 else if nand_crc32_calculate (Some buf) NAND_PAGE_SIZE \<noteq> oob_crc32 oob
                 then (RET_ERR_CHECKSUM, Some buf, d\<lparr>nd_crc_error_count := nd_crc_error_count d + 1\<rparr>)
                 else (RET_OK, Some buf, d)
           | (ret, _) \<Rightarrow> (ret, Some buf, d))
      | r \<Rightarrow> r)"

definition nand_page_write_with_crc ::
    "nand_dev \<Rightarrow> nat \<Rightarrow> nat \<Rightarrow> u8 list option \<Rightarrow> ret_code \<times> nand_dev" where
  "nand_page_write_with_crc d block page buf =
     (case nand_page_write d block page buf of
        (RET_OK, d) \<Rightarrow>
          let bs = the buf;
              crc = nand_crc32_calculate (Some bs) NAND_PAGE_SIZE;
              oob = zero_oob\<lparr>oob_magic := NAND_OOB_MAGIC, oob_crc32 := crc,
                      oob_ecc := ecc_encode_selected d bs, oob_bad_block_mark := 0xFF\<rparr> in
          nand_oob_write d block page (Some oob)
      | r \<Rightarrow> r)"

section \<open>Blocks\<close>

definition nand_block_erase :: "nand_dev \<Rightarrow> nat \<Rightarrow> ret_code \<times> nand_dev" where
  "nand_block_erase d block =
     (if \<not> nand_is_block_valid d block then (RET_ERR_PARAM, d)
      else if block_state_of d block = BLOCK_BAD then (RET_ERR_BAD_BLOCK, d)
      else
        let worn = nand_get_erase_threshold (nd_type d) < pb_erase_count (nd_blocks d block);
            (r, d) = (if worn then nand_rand d else (0, d)) in
        if worn \<and> r mod 100 < NAND_HIGH_WEAR_BAD_RATIO
        then (RET_ERR_BAD_BLOCK, upd_block block (\<lambda>b. b\<lparr>pb_state := BLOCK_BAD, pb_bad_type := BAD_BLOCK_WEAR\<rparr>) d)
        else
          let d = upd_block block (\<lambda>b. b\<lparr>pb_erase_count := pb_erase_count b + 1, pb_valid_page_cnt := 0,
                    pb_page_valid := (\<lambda>_. False), pb_read_count := 0, pb_state := BLOCK_FREE\<rparr>) d in
          (RET_OK, d\<lparr>nd_erase_energy := nd_erase_energy d + NAND_POWER_ERASE_PER_BLOCK\<rparr>))"

definition nand_get_free_block_count :: "nand_dev \<Rightarrow> nat" where
  "nand_get_free_block_count d =
     (if \<not> nd_is_initialized d then 0
      else length (filter (\<lambda>i. block_state_of d i = BLOCK_FREE) [0..<NAND_TOTAL_BLOCKS - NAND_RESERVED_BLOCKS]))"

definition nand_get_block_erase_count :: "nand_dev \<Rightarrow> nat \<Rightarrow> u32" where
  "nand_get_block_erase_count d block =
     (if \<not> nand_is_block_valid d block then 0 else pb_erase_count (nd_blocks d block))"

definition nand_get_block_state :: "nand_dev \<Rightarrow> nat \<Rightarrow> block_state" where
  "nand_get_block_state d block =
     (if \<not> nand_is_block_valid d block then BLOCK_BAD else block_state_of d block)"

definition nand_get_block_valid_page_count :: "nand_dev \<Rightarrow> nat \<Rightarrow> u32" where
  "nand_get_block_valid_page_count d block =
     (if \<not> nand_is_block_valid d block then 0 else pb_valid_page_cnt (nd_blocks d block))"

definition nand_is_page_valid :: "nand_dev \<Rightarrow> nat \<Rightarrow> nat \<Rightarrow> bool" where
  "nand_is_page_valid d block page =
     (if \<not> nand_is_block_valid d block \<or> NAND_PAGES_PER_BLOCK \<le> page then False
      else page_valid d block page)"

definition nand_mark_page_invalid :: "nand_dev \<Rightarrow> nat \<Rightarrow> nat \<Rightarrow> ret_code \<times> nand_dev" where
  "nand_mark_page_invalid d block page =
     (if \<not> nand_is_block_valid d block \<or> NAND_PAGES_PER_BLOCK \<le> page then (RET_ERR_PARAM, d)
      else if block_state_of d block = BLOCK_BAD then (RET_ERR_BAD_BLOCK, d)
      else if \<not> page_valid d block page then (RET_ERR_NOT_MAPPED, d)
      else
        let d = upd_block block (\<lambda>b. b\<lparr>pb_page_valid := (pb_page_valid b)(page := False),
                  pb_valid_page_cnt := pb_valid_page_cnt b - 1\<rparr>) d;
            d = (if pb_valid_page_cnt (nd_blocks d block) = 0
                 then upd_block block (\<lambda>b. b\<lparr>pb_state := BLOCK_FREE\<rparr>) d else d) in
        (RET_OK, d))"

definition nand_mark_block_bad :: "nand_dev \<Rightarrow> nat \<Rightarrow> bad_block_type \<Rightarrow> ret_code \<times> nand_dev" where
  "nand_mark_block_bad d block type =
     (if \<not> nand_is_block_valid d block then (RET_ERR_PARAM, d)
      else
        let d = upd_block block (\<lambda>b. b\<lparr>pb_state := BLOCK_BAD, pb_bad_type := type,
                  pb_valid_page_cnt := 0, pb_page_valid := (\<lambda>_. False)\<rparr>) d;
            d = (if nd_file d \<noteq> No_file
                 then media_put (nand_calc_oob_offset block 0)
                        (oob_bytes (zero_oob\<lparr>oob_magic := NAND_OOB_MAGIC, oob_bad_block_mark := 0\<rparr>)) d
                 else d) in
        (RET_OK, d))"

definition nand_alloc_reserved_block :: "nand_dev \<Rightarrow> bool \<Rightarrow> ret_code \<times> nat option \<times> nand_dev" where
  "nand_alloc_reserved_block d has_out =
     (if \<not> has_out \<or> \<not> nd_is_initialized d then (RET_ERR_PARAM, None, d)
      else if nd_reserved_count d = 0 then (RET_ERR_NO_SPACE, None, d)
      else (case find (\<lambda>i. block_state_of d i = BLOCK_FREE)
                   [NAND_TOTAL_BLOCKS - NAND_RESERVED_BLOCKS..<NAND_TOTAL_BLOCKS] of
              Some i \<Rightarrow> (RET_OK, Some i, d\<lparr>nd_reserved_count := nd_reserved_count d - 1\<rparr>)
            | None \<Rightarrow> (RET_ERR_NO_SPACE, None, d)))"

definition nand_get_reserved_block_count :: "nand_dev \<Rightarrow> u32" where
  "nand_get_reserved_block_count d = nd_reserved_count d"

definition nand_mark_cold_block :: "nand_dev \<Rightarrow> nat \<Rightarrow> ret_code \<times> nand_dev" where
  "nand_mark_cold_block d block =
     (if \<not> nand_is_block_valid d block then (RET_ERR_PARAM, d)
      else if block_state_of d block \<noteq> BLOCK_USED then (RET_ERR_PARAM, d)
      else (RET_OK, if 1 < pb_valid_page_cnt (nd_blocks d block)
                    then upd_block block (\<lambda>b. b\<lparr>pb_valid_page_cnt := 1\<rparr>) d else d))"

section \<open>Retries and replacement\<close>

text \<open>
  The retry loops: leave with the result when the access succeeds or fails with another error
  than the one that is retried.
\<close>

definition nand_page_write_with_retry :: "nand_dev \<Rightarrow> nat \<Rightarrow> nat \<Rightarrow> u8 list option \<Rightarrow> ret_code \<times> nand_dev" where
  "nand_page_write_with_retry d block page buf =
     (let (ret, d) = (case loop_each [0..<NAND_WRITE_RETRY_COUNT]
             (\<lambda>_ (_, d). let (ret, d) = nand_page_write d block page buf in
                if ret \<noteq> RET_ERR_OVERWRITE then Leave ret (ret, d) else Next (ret, d)) (RET_OK, d) of
           Leave _ s \<Rightarrow> s | Next s \<Rightarrow> s) in
      if ret = RET_OK then (RET_OK, d)
      else (RET_ERR_BAD_BLOCK, snd (nand_mark_block_bad d block BAD_BLOCK_WEAR)))"

definition nand_page_read_with_retry ::
    "nand_dev \<Rightarrow> nat \<Rightarrow> nat \<Rightarrow> bool \<Rightarrow> ret_code \<times> u8 list option \<times> nand_dev" where
  "nand_page_read_with_retry d block page has_buf =
     (let (ret, buf, d) = (case loop_each [0..<NAND_READ_RETRY_COUNT]
             (\<lambda>_ (_, _, d). let (ret, buf, d) = nand_page_read d block page has_buf in
                if ret \<noteq> RET_ERR_NOT_MAPPED then Leave ret (ret, buf, d) else Next (ret, buf, d))
             (RET_OK, None, d) of
           Leave _ s \<Rightarrow> s | Next s \<Rightarrow> s) in
      if ret = RET_OK then (RET_OK, buf, d)
      else (RET_ERR_BAD_BLOCK, None, snd (nand_mark_block_bad d block BAD_BLOCK_WEAR)))"

definition replace_move_page :: "nat \<Rightarrow> nat \<Rightarrow> nat \<Rightarrow> nand_dev \<Rightarrow> nand_dev" where
  "replace_move_page bad_block replacement page d =
     (if \<not> page_valid d bad_block page then d
      else (case nand_page_read d bad_block page True of
              (RET_OK, buf, d) \<Rightarrow> snd (nand_page_write d replacement page buf)
            | (_, _, d) \<Rightarrow> d))"

definition nand_replace_bad_block :: "nand_dev \<Rightarrow> nat \<Rightarrow> bool \<Rightarrow> ret_code \<times> nat option \<times> nand_dev" where
  "nand_replace_bad_block d bad_block has_out =
     (if \<not> has_out \<or> \<not> nd_is_initialized d then (RET_ERR_PARAM, None, d)
      else if NAND_TOTAL_BLOCKS \<le> bad_block then (RET_ERR_PARAM, None, d)
      else if block_state_of d bad_block = BLOCK_FREE then (RET_ERR_PARAM, None, d)
      else (case nand_alloc_reserved_block d True of
              (RET_OK, Some replacement, d) \<Rightarrow>
                let d = fold (replace_move_page bad_block replacement) [0..<NAND_PAGES_PER_BLOCK] d;
                    d = (if block_state_of d bad_block \<noteq> BLOCK_BAD
                         then snd (nand_mark_block_bad d bad_block BAD_BLOCK_WEAR) else d) in
                (RET_OK, Some replacement, d)
            | (_, _, d) \<Rightarrow> (RET_ERR_NO_SPACE, None, d)))"

section \<open>Read disturb, retention errors, statistics\<close>

definition nand_get_block_read_count :: "nand_dev \<Rightarrow> nat \<Rightarrow> u32" where
  "nand_get_block_read_count d block =
     (if \<not> nand_is_block_valid d block then 0 else pb_read_count (nd_blocks d block))"

definition nand_reset_block_read_count :: "nand_dev \<Rightarrow> nat \<Rightarrow> ret_code \<times> nand_dev" where
  "nand_reset_block_read_count d block =
     (if \<not> nand_is_block_valid d block then (RET_ERR_PARAM, d)
      else (RET_OK, upd_block block (\<lambda>b. b\<lparr>pb_read_count := 0\<rparr>) d))"

definition flip_random_bit :: "u8 list \<times> nand_dev \<Rightarrow> u8 list \<times> nand_dev" where
  "flip_random_bit = (\<lambda>(buf, d).
     let (r, d) = nand_rand d;
         bit_pos = r mod (NAND_PAGE_SIZE * 8);
         byte_idx = bit_pos div 8;
         bit_idx = bit_pos mod 8 in
     (buf[byte_idx := buf ! byte_idx XOR push_bit bit_idx 1], d))"

definition inject_page :: "nat \<Rightarrow> nat \<Rightarrow> nat \<Rightarrow> nand_dev \<times> u32 \<Rightarrow> nand_dev \<times> u32" where
  "inject_page block error_rate page = (\<lambda>(d, error_count).
     if \<not> page_valid d block page then (d, error_count)
     else
       let expected_errors = NAND_PAGE_SIZE * error_rate div 100;
           expected_errors = (if expected_errors = 0 then 1 else expected_errors);
           (buf, d) = (flip_random_bit ^^ expected_errors) (page_data d block page, d) in
       (media_put (nand_calc_page_offset block page) buf d, error_count + of_nat expected_errors))"

definition nand_inject_retention_errors :: "nand_dev \<Rightarrow> nat \<Rightarrow> nat \<Rightarrow> u32 \<times> nand_dev" where
  "nand_inject_retention_errors d block error_rate =
     (if \<not> nand_is_block_valid d block \<or> block_state_of d block \<noteq> BLOCK_USED then (0, d)
      else if error_rate = 0 \<or> 100 < error_rate then (0, d)
      else (let (d, n) = fold (inject_page block error_rate) [0..<NAND_PAGES_PER_BLOCK] (d, 0) in (n, d)))"

definition nand_check_read_disturb :: "nand_dev \<Rightarrow> bool \<Rightarrow> bool \<times> nat option" where
  "nand_check_read_disturb d has_out =
     (if \<not> has_out \<or> \<not> nd_is_initialized d then (False, None)
      else
        let (max_read, target_block) =
              fold (\<lambda>i (max_read, target_block).
                  if block_state_of d i \<noteq> BLOCK_USED then (max_read, target_block)
                  else if max_read < pb_read_count (nd_blocks d i)
                  then (pb_read_count (nd_blocks d i), Some i)
                  else (max_read, target_block))
                [0..<NAND_TOTAL_BLOCKS - NAND_RESERVED_BLOCKS] (0, None) in
        if NAND_READ_DISTURB_THRESHOLD \<le> max_read \<and> target_block \<noteq> None then (True, target_block)
        else (False, None))"

record nand_stats =
  st_free_blocks :: u32
  st_used_blocks :: u32
  st_bad_blocks :: u32
  st_init_bad_blocks :: u32
  st_wear_bad_blocks :: u32
  st_reserved_blocks :: u32
  st_total_erase_cnt :: u32
  st_max_erase_cnt :: u32
  st_min_erase_cnt :: u32
  st_avg_erase_cnt :: u32
  st_total_read_pages :: u32
  st_total_write_pages :: u32
  st_read_disturb_count :: u32
  st_read_disturb_moved :: u32
  st_crc_error_count :: u32

definition zero_stats :: nand_stats where
  "zero_stats = \<lparr>st_free_blocks = 0, st_used_blocks = 0, st_bad_blocks = 0, st_init_bad_blocks = 0,
     st_wear_bad_blocks = 0, st_reserved_blocks = 0, st_total_erase_cnt = 0, st_max_erase_cnt = 0,
     st_min_erase_cnt = 0, st_avg_erase_cnt = 0, st_total_read_pages = 0, st_total_write_pages = 0,
     st_read_disturb_count = 0, st_read_disturb_moved = 0, st_crc_error_count = 0\<rparr>"

text \<open>One iteration over a block; the accumulator is \<open>(stats, total, max, min, good)\<close>.\<close>

definition stats_block ::
    "nand_dev \<Rightarrow> nat \<Rightarrow> nand_stats \<times> u32 \<times> u32 \<times> u32 \<times> u32 \<Rightarrow> nand_stats \<times> u32 \<times> u32 \<times> u32 \<times> u32" where
  "stats_block d i = (\<lambda>(st, total_erase, max_erase, min_erase, good).
     let b = nd_blocks d i;
         st = (case pb_state b of
             BLOCK_FREE \<Rightarrow> st\<lparr>st_free_blocks := st_free_blocks st + 1\<rparr>
           | BLOCK_USED \<Rightarrow> st\<lparr>st_used_blocks := st_used_blocks st + 1\<rparr>
           | BLOCK_BAD \<Rightarrow>
               (let st = st\<lparr>st_bad_blocks := st_bad_blocks st + 1\<rparr> in
                if pb_bad_type b = BAD_BLOCK_INIT
                then st\<lparr>st_init_bad_blocks := st_init_bad_blocks st + 1\<rparr>
                else st\<lparr>st_wear_bad_blocks := st_wear_bad_blocks st + 1\<rparr>)) in
     if pb_state b \<noteq> BLOCK_BAD
     then (st, total_erase + pb_erase_count b,
           if max_erase < pb_erase_count b then pb_erase_count b else max_erase,
           if pb_erase_count b < min_erase then pb_erase_count b else min_erase, good + 1)
     else (st, total_erase, max_erase, min_erase, good))"

definition nand_get_stats :: "nand_dev \<Rightarrow> bool \<Rightarrow> ret_code \<times> nand_stats option" where
  "nand_get_stats d has_out =
     (if \<not> has_out \<or> \<not> nd_is_initialized d then (RET_ERR_PARAM, None)
      else
        let (st, total_erase, max_erase, min_erase, good) =
              fold (stats_block d) [0..<NAND_TOTAL_BLOCKS] (zero_stats, 0, 0, 0xFFFFFFFF, 0);
            st = st\<lparr>st_total_erase_cnt := total_erase, st_max_erase_cnt := max_erase,
                   st_min_erase_cnt := min_erase, st_reserved_blocks := nd_reserved_count d,
                   st_total_read_pages := nd_total_read_pages d,
                   st_total_write_pages := nd_total_write_pages d,
                   st_read_disturb_count := nd_read_disturb_count d,
                   st_read_disturb_moved := nd_read_disturb_moved d,
                   st_crc_error_count := nd_crc_error_count d\<rparr>;
            st = (if 0 < good then st\<lparr>st_avg_erase_cnt := total_erase div good\<rparr> else st) in
        (RET_OK, Some st))"

record nand_power_stats =
  ps_read_energy :: u32
  ps_write_energy :: u32
  ps_erase_energy :: u32
  ps_total_energy :: u32
  ps_active_time_ms :: u32
  ps_idle_time_ms :: u32

definition nand_get_power_stats :: "nand_dev \<Rightarrow> bool \<Rightarrow> ret_code \<times> nand_power_stats option" where
  "nand_get_power_stats d has_out =
     (if \<not> has_out then (RET_ERR_PARAM, None)
      else (RET_OK, Some \<lparr>ps_read_energy = nd_read_energy d, ps_write_energy = nd_write_energy d,
              ps_erase_energy = nd_erase_energy d,
              ps_total_energy = nd_read_energy d + nd_write_energy d + nd_erase_energy d,
              ps_active_time_ms = 0, ps_idle_time_ms = 0\<rparr>))"

definition nand_reset_power_stats :: "nand_dev \<Rightarrow> ret_code \<times> nand_dev" where
  "nand_reset_power_stats d =
     (RET_OK, d\<lparr>nd_read_energy := 0, nd_write_energy := 0, nd_erase_energy := 0\<rparr>)"

definition nand_get_total_energy :: "nand_dev \<Rightarrow> u32" where
  "nand_get_total_energy d = nd_read_energy d + nd_write_energy d + nd_erase_energy d"

end
