(* ===== verification/FtlState.thy ===== *)
theory FtlState
  imports Nand Complex_Main
begin

text \<open>
  The state of the flash translation layer, \<open>modules/ftl/ftl.c\<close> and \<open>ftl.h\<close>, with the page
  allocator.  The record holds the statics of \<open>g_ftl_dev\<close>, the NAND chip below it and the host
  files that the snapshot and the write-ahead log use.  Logical and physical page numbers are
  \<open>nat\<close>; the unmapped entries of the tables hold the same sentinel as in the code.
\<close>

section \<open>Geometry\<close>

definition FTL_TOTAL_LPNS :: nat where [geometry]:
  "FTL_TOTAL_LPNS = NAND_TOTAL_BLOCKS * NAND_PAGES_PER_BLOCK * 7 div 10"
definition FTL_GC_TRIGGER_THRESHOLD :: nat where "FTL_GC_TRIGGER_THRESHOLD = 5"
definition FTL_WEAR_DIFF_THRESHOLD :: u32 where "FTL_WEAR_DIFF_THRESHOLD = 50"
definition FTL_STATIC_WEAR_THRESHOLD :: u32 where "FTL_STATIC_WEAR_THRESHOLD = 100"
definition FTL_STATIC_WEAR_INTERVAL :: u32 where "FTL_STATIC_WEAR_INTERVAL = 1000"
definition FTL_INVALID_PPN :: nat where "FTL_INVALID_PPN = 0xFFFFFFFF"
definition FTL_INVALID_LPN :: nat where "FTL_INVALID_LPN = 0xFFFFFFFF"
definition FTL_INVALID_BLOCK :: nat where "FTL_INVALID_BLOCK = 0xFFFFFFFF"
definition FTL_META_MAGIC :: u32 where "FTL_META_MAGIC = 0x46544C31"
definition FTL_META_VERSION :: u32 where "FTL_META_VERSION = 0x00010000"
definition FTL_WAL_MAGIC :: u32 where "FTL_WAL_MAGIC = 0x57414C31"
definition FTL_GC_CAT_AGE_WEIGHT :: u32 where "FTL_GC_CAT_AGE_WEIGHT = 100"
definition FTL_GC_WINDOW_SIZE :: nat where "FTL_GC_WINDOW_SIZE = 32"
definition FTL_GC_D_CHOICES_D :: nat where "FTL_GC_D_CHOICES_D = 5"
definition FTL_LOGICAL_BLOCK_PAGES :: nat where [geometry]: "FTL_LOGICAL_BLOCK_PAGES = 64"
definition FTL_HOT_DATA_THRESHOLD :: u32 where "FTL_HOT_DATA_THRESHOLD = 10"
definition FTL_HOT_COLD_CHECK_INTERVAL :: u32 where "FTL_HOT_COLD_CHECK_INTERVAL = 100"
definition FTL_COLD_DATA_THRESHOLD :: u32 where "FTL_COLD_DATA_THRESHOLD = 2"

abbreviation FTL_TOTAL_PPNS :: nat where
  "FTL_TOTAL_PPNS \<equiv> NAND_TOTAL_BLOCKS * NAND_PAGES_PER_BLOCK"

abbreviation FTL_LOGICAL_BLOCKS :: nat where
  "FTL_LOGICAL_BLOCKS \<equiv> FTL_TOTAL_LPNS div FTL_LOGICAL_BLOCK_PAGES"

abbreviation FTL_USER_BLOCKS :: nat where
  "FTL_USER_BLOCKS \<equiv> NAND_TOTAL_BLOCKS - NAND_RESERVED_BLOCKS"

section \<open>Data\<close>

datatype gc_algo_type =
    GC_ALGO_GREEDY | GC_ALGO_COST_BENEFIT | GC_ALGO_CAT | GC_ALGO_WINDOWED
  | GC_ALGO_D_CHOICES | GC_ALGO_FRA

datatype map_mode = MAP_MODE_PAGE | MAP_MODE_HYBRID

record block_map_entry =
  be_physical_block :: nat
  be_is_valid :: bool
  be_is_hot :: bool
  be_access_count :: u32

text \<open>
  The host files: contents by path, which paths can be created, and whether a write reaches
  the medium.
\<close>

record host_files =
  hf_files :: "string \<Rightarrow> u8 list option"
  hf_can_create :: "string \<Rightarrow> bool"
  hf_writable :: bool

record ftl_dev =
  fs_nand :: nand_dev
  fs_files :: host_files
  fs_l2p :: "nat \<Rightarrow> nat"
  fs_rmap :: "nat \<Rightarrow> nat"
  fs_cur_block :: nat
  fs_cur_page :: nat
  fs_host_write_pages :: u32
  fs_nand_write_pages :: u32
  fs_gc_count :: u32
  fs_gc_moved_pages :: u32
  fs_wear_leveling_count :: u32
  fs_static_wear_count :: u32
  fs_static_wear_moved_pages :: u32
  fs_trim_count :: u32
  fs_trim_pages :: u32
  fs_bad_block_replace_count :: u32
  fs_bad_block_moved_pages :: u32
  fs_write_since_last_check :: u32
  fs_gc_algo :: gc_algo_type
  fs_map_mode :: map_mode
  fs_wal_file :: "string option"
  fs_wal_sequence :: u32
  fs_wal_entry_count :: u32
  fs_wal_enabled :: bool
  fs_block_map :: "nat \<Rightarrow> block_map_entry"
  fs_hot_cold_check_count :: u32
  fs_hot_cold_migration_count :: u32
  fs_is_initialized :: bool

text \<open>One write to a table each; a write outside \<open>reverse_map\<close> is undefined.\<close>

abbreviation set_l2p :: "nat \<Rightarrow> nat \<Rightarrow> ftl_dev \<Rightarrow> ftl_dev" where
  "set_l2p lpn ppn s \<equiv> s\<lparr>fs_l2p := (fs_l2p s)(lpn := ppn)\<rparr>"

abbreviation set_rmap :: "nat \<Rightarrow> nat \<Rightarrow> ftl_dev \<Rightarrow> ftl_dev" where
  "set_rmap ppn lpn s \<equiv> s\<lparr>fs_rmap := (fs_rmap s)(ppn := lpn)\<rparr>"

definition set_rmap_checked :: "nat \<Rightarrow> nat \<Rightarrow> ftl_dev \<Rightarrow> ftl_dev option" where
  "set_rmap_checked ppn lpn s = (if ppn < FTL_TOTAL_PPNS then Some (set_rmap ppn lpn s) else None)"

section \<open>Addresses\<close>

definition ppn_to_block :: "nat \<Rightarrow> nat" where
  "ppn_to_block ppn = ppn div NAND_PAGES_PER_BLOCK"

definition ppn_to_page :: "nat \<Rightarrow> nat" where
  "ppn_to_page ppn = ppn mod NAND_PAGES_PER_BLOCK"

definition block_page_to_ppn :: "nat \<Rightarrow> nat \<Rightarrow> nat" where
  "block_page_to_ppn block page = (block * NAND_PAGES_PER_BLOCK + page) mod 2 ^ 32"

definition ftl_is_ppn_valid :: "nat \<Rightarrow> bool" where
  "ftl_is_ppn_valid ppn \<longleftrightarrow> ppn < FTL_TOTAL_PPNS"

definition lpn_to_logical_block :: "nat \<Rightarrow> nat" where
  "lpn_to_logical_block lpn = lpn div FTL_LOGICAL_BLOCK_PAGES"

definition lpn_to_block_offset :: "nat \<Rightarrow> nat" where
  "lpn_to_block_offset lpn = lpn mod FTL_LOGICAL_BLOCK_PAGES"

section \<open>Allocation\<close>

definition ftl_find_next_free_block :: "nand_dev \<Rightarrow> nat \<Rightarrow> nat option" where
  "ftl_find_next_free_block d start_block =
     (case find (\<lambda>i. nand_get_block_state d i = BLOCK_FREE) [start_block..<FTL_USER_BLOCKS] of
        Some i \<Rightarrow> Some i
      | None \<Rightarrow> find (\<lambda>i. nand_get_block_state d i = BLOCK_FREE) [0..<start_block])"

definition ftl_alloc_phy_page :: "ftl_dev \<Rightarrow> nat option \<times> ftl_dev" where
  "ftl_alloc_phy_page s =
     (if fs_cur_page s < NAND_PAGES_PER_BLOCK
      then (Some (block_page_to_ppn (fs_cur_block s) (fs_cur_page s)), s\<lparr>fs_cur_page := fs_cur_page s + 1\<rparr>)
      else (case ftl_find_next_free_block (fs_nand s) (u32_add (fs_cur_block s) 1) of
              None \<Rightarrow> (None, s)
            | Some next_block \<Rightarrow>
                (Some (block_page_to_ppn next_block 0), s\<lparr>fs_cur_block := next_block, fs_cur_page := 1\<rparr>)))"

text \<open>A call into the NAND layer from the FTL: the chip is updated, the result returned.\<close>

definition with_nand :: "(nand_dev \<Rightarrow> 'r \<times> nand_dev) \<Rightarrow> ftl_dev \<Rightarrow> 'r \<times> ftl_dev" where
  "with_nand f s = (let (r, d) = f (fs_nand s) in (r, s\<lparr>fs_nand := d\<rparr>))"

text \<open>
  \<open>nand_page_read\<close> into a buffer on the stack whose result code the caller ignores: a failing
  read leaves the buffer as it was.
\<close>

definition read_into :: "nat \<Rightarrow> nat \<Rightarrow> u8 list \<Rightarrow> ftl_dev \<Rightarrow> u8 list \<times> ftl_dev" where
  "read_into block page page_buf s =
     (case nand_page_read (fs_nand s) block page True of
        (_, Some bs, d) \<Rightarrow> (bs, s\<lparr>fs_nand := d\<rparr>)
      | (_, None, d) \<Rightarrow> (page_buf, s\<lparr>fs_nand := d\<rparr>))"

section \<open>Set up\<close>

definition empty_map_entry :: block_map_entry where
  "empty_map_entry = \<lparr>be_physical_block = FTL_INVALID_BLOCK, be_is_valid = False, be_is_hot = False,
     be_access_count = 0\<rparr>"

definition ftl_init :: "ftl_dev \<Rightarrow> ret_code \<times> ftl_dev" where
  "ftl_init s =
     (let s = s\<lparr>fs_l2p := (\<lambda>i. if i < FTL_TOTAL_LPNS then FTL_INVALID_PPN else fs_l2p s i),
                fs_rmap := (\<lambda>i. if i < FTL_TOTAL_PPNS then FTL_INVALID_LPN else fs_rmap s i)\<rparr> in
      case ftl_find_next_free_block (fs_nand s) 0 of
        None \<Rightarrow> (RET_ERR_NO_SPACE, s)
      | Some first_block \<Rightarrow>
          (RET_OK, s\<lparr>fs_cur_block := first_block, fs_cur_page := 0,
             fs_host_write_pages := 0, fs_nand_write_pages := 0, fs_gc_count := 0,
             fs_gc_moved_pages := 0, fs_wear_leveling_count := 0, fs_static_wear_count := 0,
             fs_static_wear_moved_pages := 0, fs_trim_count := 0, fs_trim_pages := 0,
             fs_bad_block_replace_count := 0, fs_bad_block_moved_pages := 0,
             fs_write_since_last_check := 0, fs_hot_cold_check_count := 0,
             fs_hot_cold_migration_count := 0, fs_wal_file := None, fs_wal_sequence := 0,
             fs_wal_entry_count := 0, fs_wal_enabled := True,
             fs_block_map := (\<lambda>i. if i < FTL_LOGICAL_BLOCKS then empty_map_entry else fs_block_map s i),
             fs_gc_algo := GC_ALGO_GREEDY, fs_map_mode := MAP_MODE_PAGE, fs_is_initialized := True\<rparr>))"

definition ftl_deinit :: "ftl_dev \<Rightarrow> ftl_dev" where
  "ftl_deinit s = s\<lparr>fs_is_initialized := False\<rparr>"

definition ftl_set_gc_algo :: "ftl_dev \<Rightarrow> gc_algo_type \<Rightarrow> ftl_dev" where
  "ftl_set_gc_algo s algo = s\<lparr>fs_gc_algo := algo\<rparr>"

definition ftl_get_gc_algo :: "ftl_dev \<Rightarrow> gc_algo_type" where
  "ftl_get_gc_algo s = fs_gc_algo s"

text \<open>An argument outside the enumeration is \<open>None\<close>.\<close>

definition ftl_set_map_mode :: "ftl_dev \<Rightarrow> map_mode option \<Rightarrow> ret_code \<times> ftl_dev" where
  "ftl_set_map_mode s mode =
     (if \<not> fs_is_initialized s then (RET_ERR_NOT_INIT, s)
      else (case mode of None \<Rightarrow> (RET_ERR_NOT_SUPPORT, s) | Some m \<Rightarrow> (RET_OK, s\<lparr>fs_map_mode := m\<rparr>)))"

definition ftl_get_map_mode :: "ftl_dev \<Rightarrow> map_mode" where
  "ftl_get_map_mode s = fs_map_mode s"

section \<open>Statistics\<close>

definition ftl_get_host_write_pages :: "ftl_dev \<Rightarrow> u32" where
  "ftl_get_host_write_pages s = fs_host_write_pages s"

definition ftl_get_nand_write_pages :: "ftl_dev \<Rightarrow> u32" where
  "ftl_get_nand_write_pages s = fs_nand_write_pages s"

definition ftl_get_gc_count :: "ftl_dev \<Rightarrow> u32" where
  "ftl_get_gc_count s = fs_gc_count s"

text \<open>The quotient of two counters; the code rounds it to a \<open>double\<close>.\<close>

definition ftl_get_write_amplification_factor :: "ftl_dev \<Rightarrow> rat" where
  "ftl_get_write_amplification_factor s =
     (if fs_host_write_pages s = 0 then 0
      else of_nat (unat (fs_nand_write_pages s)) / of_nat (unat (fs_host_write_pages s)))"

record ftl_stats =
  fst_total_lpns :: nat
  fst_used_lpns :: u32
  fst_host_write_pages :: u32
  fst_nand_write_pages :: u32
  fst_gc_count :: u32
  fst_gc_moved_pages :: u32
  fst_wear_leveling_count :: u32
  fst_static_wear_count :: u32
  fst_static_wear_moved_pages :: u32
  fst_trim_count :: u32
  fst_trim_pages :: u32
  fst_bad_block_replace_count :: u32
  fst_bad_block_moved_pages :: u32
  fst_hot_cold_migration_count :: u32
  fst_hot_block_count :: u32
  fst_cold_block_count :: u32
  fst_waf :: rat

definition ftl_get_stats :: "ftl_dev \<Rightarrow> bool \<Rightarrow> ret_code \<times> ftl_stats option" where
  "ftl_get_stats s has_out =
     (if \<not> has_out \<or> \<not> fs_is_initialized s then (RET_ERR_PARAM, None)
      else
        let used = fold (\<lambda>i n. if fs_l2p s i \<noteq> FTL_INVALID_PPN then n + 1 else n) [0..<FTL_TOTAL_LPNS] 0;
            (hot, cold) =
              (if fs_map_mode s = MAP_MODE_HYBRID
               then fold (\<lambda>i (hot, cold).
                      if be_is_valid (fs_block_map s i)
                      then if be_is_hot (fs_block_map s i) then (hot + 1, cold) else (hot, cold + 1)
                      else (hot, cold)) [0..<FTL_LOGICAL_BLOCKS] (0, 0)
               else (0, 0)) in
        (RET_OK, Some
          \<lparr>fst_total_lpns = FTL_TOTAL_LPNS, fst_used_lpns = used,
           fst_host_write_pages = fs_host_write_pages s, fst_nand_write_pages = fs_nand_write_pages s,
           fst_gc_count = fs_gc_count s, fst_gc_moved_pages = fs_gc_moved_pages s,
           fst_wear_leveling_count = fs_wear_leveling_count s,
           fst_static_wear_count = fs_static_wear_count s,
           fst_static_wear_moved_pages = fs_static_wear_moved_pages s,
           fst_trim_count = fs_trim_count s, fst_trim_pages = fs_trim_pages s,
           fst_bad_block_replace_count = fs_bad_block_replace_count s,
           fst_bad_block_moved_pages = fs_bad_block_moved_pages s,
           fst_hot_cold_migration_count = fs_hot_cold_migration_count s,
           fst_hot_block_count = hot, fst_cold_block_count = cold,
           fst_waf = ftl_get_write_amplification_factor s\<rparr>))"

definition ftl_get_bad_block_stats :: "ftl_dev \<Rightarrow> bool \<Rightarrow> bool \<Rightarrow> ret_code \<times> (u32 \<times> u32) option" where
  "ftl_get_bad_block_stats s has_count has_moved =
     (if \<not> has_count \<or> \<not> has_moved then (RET_ERR_PARAM, None)
      else (RET_OK, Some (fs_bad_block_replace_count s, fs_bad_block_moved_pages s)))"

end
