(* ===== verification/Gc.thy ===== *)
theory Gc
  imports FtlState
begin

text \<open>
  Garbage collection and wear leveling of \<open>modules/ftl/ftl.c\<close>: the six ways of choosing a victim
  block, one collection, the loop in \<open>ftl_write\<close> that collects until enough blocks are free, the
  dynamic check that marks a cold block, and static wear leveling.  The scores that the code
  computes in \<open>double\<close> are rational numbers here; an erase count of \<open>2 ^ 32 - 1\<close>, whose successor
  is zero, is the one case in which the quotients of the two differ in kind.
\<close>

section \<open>Victim selection\<close>

text \<open>
  The scan that keeps the first used block with the fewest valid pages; the accumulator is the
  best count so far and its block.
\<close>

definition scan_fewest :: "nand_dev \<Rightarrow> nat \<Rightarrow> u32 \<times> nat option \<Rightarrow> u32 \<times> nat option" where
  "scan_fewest d i = (\<lambda>(min_valid_pages, victim).
     if nand_get_block_state d i \<noteq> BLOCK_USED then (min_valid_pages, victim)
     else
       let valid_pages = nand_get_block_valid_page_count d i in
       if valid_pages < min_valid_pages then (valid_pages, Some i) else (min_valid_pages, victim))"

definition gc_select_greedy :: "ftl_dev \<Rightarrow> nat option" where
  "gc_select_greedy s = snd (fold (scan_fewest (fs_nand s)) [0..<FTL_USER_BLOCKS] (257, None))"

definition invalid_ratio :: "nand_dev \<Rightarrow> nat \<Rightarrow> rat" where
  "invalid_ratio d i = of_nat (unat (256 - nand_get_block_valid_page_count d i)) / 256"

text \<open>The scan that keeps the first used block with the highest score.\<close>

definition scan_highest :: "nand_dev \<Rightarrow> (nat \<Rightarrow> rat) \<Rightarrow> nat \<Rightarrow> rat \<times> nat option \<Rightarrow> rat \<times> nat option" where
  "scan_highest d score i = (\<lambda>(max_score, victim).
     if nand_get_block_state d i \<noteq> BLOCK_USED then (max_score, victim)
     else if max_score < score i then (score i, Some i) else (max_score, victim))"

definition cost_benefit_score :: "nand_dev \<Rightarrow> nat \<Rightarrow> rat" where
  "cost_benefit_score d i =
     invalid_ratio d i / of_nat (unat (nand_get_block_erase_count d i + 1))"

definition gc_select_cost_benefit :: "ftl_dev \<Rightarrow> nat option" where
  "gc_select_cost_benefit s =
     snd (fold (scan_highest (fs_nand s) (cost_benefit_score (fs_nand s))) [0..<FTL_USER_BLOCKS] (-1, None))"

definition max_used_erase :: "nand_dev \<Rightarrow> u32" where
  "max_used_erase d =
     fold (\<lambda>i m. if nand_get_block_state d i = BLOCK_USED \<and> m < nand_get_block_erase_count d i
            then nand_get_block_erase_count d i else m) [0..<FTL_USER_BLOCKS] 0"

definition cat_score :: "nand_dev \<Rightarrow> u32 \<Rightarrow> nat \<Rightarrow> rat" where
  "cat_score d max_erase i =
     (let erase_cnt = nand_get_block_erase_count d i;
          age_factor = (if 0 < max_erase
            then of_nat (unat (max_erase - erase_cnt + FTL_GC_CAT_AGE_WEIGHT)) / of_nat (unat max_erase)
            else 1) in
      invalid_ratio d i * age_factor / of_nat (unat (erase_cnt + 1)))"

definition gc_select_cat :: "ftl_dev \<Rightarrow> nat option" where
  "gc_select_cat s =
     (let d = fs_nand s in
      snd (fold (scan_highest d (cat_score d (max_used_erase d))) [0..<FTL_USER_BLOCKS] (-1, None)))"

definition gc_select_windowed :: "ftl_dev \<Rightarrow> nat option" where
  "gc_select_windowed s =
     (let window_start = (if FTL_GC_WINDOW_SIZE \<le> fs_cur_block s
                          then fs_cur_block s - FTL_GC_WINDOW_SIZE else 0) in
      case snd (fold (scan_fewest (fs_nand s)) [window_start..<Suc (fs_cur_block s)] (257, None)) of
        None \<Rightarrow> gc_select_greedy s
      | Some victim \<Rightarrow> Some victim)"

definition used_blocks :: "nand_dev \<Rightarrow> nat list" where
  "used_blocks d = filter (\<lambda>i. nand_get_block_state d i = BLOCK_USED) [0..<FTL_USER_BLOCKS]"

definition gc_select_d_choices :: "ftl_dev \<Rightarrow> nat option" where
  "gc_select_d_choices s =
     (let used = used_blocks (fs_nand s); used_count = length used in
      if used_count = 0 then None
      else if used_count < FTL_GC_D_CHOICES_D then gc_select_greedy s
      else snd (fold (\<lambda>i (min_valid, victim).
              let idx = unat (fs_gc_count s * 7 + of_nat i * 13) mod used_count;
                  block = used ! idx;
                  valid_pages = nand_get_block_valid_page_count (fs_nand s) block in
              if valid_pages < min_valid then (valid_pages, Some block) else (min_valid, victim))
            [0..<FTL_GC_D_CHOICES_D] (257, None)))"

definition gc_select_fra :: "ftl_dev \<Rightarrow> nat option" where
  "gc_select_fra s =
     (case find (\<lambda>i. nand_get_block_state (fs_nand s) i = BLOCK_USED \<and>
                     nand_get_block_valid_page_count (fs_nand s) i = 0) [0..<FTL_USER_BLOCKS] of
        Some i \<Rightarrow> Some i
      | None \<Rightarrow> gc_select_greedy s)"

definition gc_select_victim_block :: "ftl_dev \<Rightarrow> nat option" where
  "gc_select_victim_block s =
     (case fs_gc_algo s of
        GC_ALGO_GREEDY \<Rightarrow> gc_select_greedy s
      | GC_ALGO_COST_BENEFIT \<Rightarrow> gc_select_cost_benefit s
      | GC_ALGO_CAT \<Rightarrow> gc_select_cat s
      | GC_ALGO_WINDOWED \<Rightarrow> gc_select_windowed s
      | GC_ALGO_D_CHOICES \<Rightarrow> gc_select_d_choices s
      | GC_ALGO_FRA \<Rightarrow> gc_select_fra s)"

section \<open>One collection\<close>

text \<open>
  The table updates after a page has moved, and one iteration of the loop over the pages of the
  victim; the loop state is the page buffer with the device.
\<close>

definition remap :: "nat \<Rightarrow> nat \<Rightarrow> nat \<Rightarrow> ftl_dev \<Rightarrow> ftl_dev" where
  "remap lpn old_ppn new_ppn s =
     set_rmap old_ppn FTL_INVALID_LPN (set_rmap new_ppn lpn (set_l2p lpn new_ppn s))"

definition gc_move_page ::
    "nat \<Rightarrow> nat \<Rightarrow> u8 list \<times> ftl_dev \<Rightarrow> (ret_code, u8 list \<times> ftl_dev) ctl" where
  "gc_move_page victim_block page = (\<lambda>(page_buf, s).
     if \<not> nand_is_page_valid (fs_nand s) victim_block page then Next (page_buf, s)
     else
       let old_ppn = block_page_to_ppn victim_block page;
           lpn = fs_rmap s old_ppn in
       if lpn = FTL_INVALID_LPN then Next (page_buf, s)
       else
         let (page_buf, s) = read_into victim_block page page_buf s in
         case ftl_alloc_phy_page s of
           (None, s) \<Rightarrow> Leave RET_ERR_NO_SPACE (page_buf, s)
         | (Some new_ppn, s) \<Rightarrow>
             let (ret, s) = with_nand (\<lambda>d. nand_page_write d (ppn_to_block new_ppn)
                              (ppn_to_page new_ppn) (Some page_buf)) s in
             if ret \<noteq> RET_OK then Leave RET_ERR_INTERNAL (page_buf, s)
             else
               let s = s\<lparr>fs_nand_write_pages := fs_nand_write_pages s + 1,
                         fs_gc_moved_pages := fs_gc_moved_pages s + 1\<rparr> in
               Next (page_buf, remap lpn old_ppn new_ppn s))"

text \<open>The page buffer on the stack; its first contents are never used, as the victim is readable.\<close>

definition blank_page :: "u8 list" where
  "blank_page = replicate NAND_PAGE_SIZE 0"

definition gc_do_recycle :: "ftl_dev \<Rightarrow> ret_code \<times> ftl_dev" where
  "gc_do_recycle s =
     (case gc_select_victim_block s of
        None \<Rightarrow> (RET_ERR_NO_SPACE, s)
      | Some victim_block \<Rightarrow>
          let s = s\<lparr>fs_gc_count := fs_gc_count s + 1\<rparr> in
          case loop_each [0..<NAND_PAGES_PER_BLOCK] (gc_move_page victim_block) (blank_page, s) of
            Leave ret (_, s) \<Rightarrow> (ret, s)
          | Next (_, s) \<Rightarrow> with_nand (\<lambda>d. nand_block_erase d victim_block) s)"

definition ftl_trigger_gc :: "ftl_dev \<Rightarrow> ret_code \<times> ftl_dev" where
  "ftl_trigger_gc s =
     (if \<not> fs_is_initialized s then (RET_ERR_NOT_INIT, s) else gc_do_recycle s)"

text \<open>
  The loop in front of every write.  Nothing bounds the number of collections, so the loop is a
  partial function: \<open>None\<close> is a loop that does not end.
\<close>

partial_function (option) gc_until_free :: "ftl_dev \<Rightarrow> (ret_code \<times> ftl_dev) option" where
  "gc_until_free s =
     (if nand_get_free_block_count (fs_nand s) \<le> FTL_GC_TRIGGER_THRESHOLD
      then (let r = gc_do_recycle s in
            if fst r \<noteq> RET_OK then Some (RET_ERR_NO_SPACE, snd r) else gc_until_free (snd r))
      else Some (RET_OK, s))"

section \<open>Dynamic wear leveling\<close>

text \<open>One iteration of the scan: \<open>(max_erase, min_erase, cold_block)\<close>.\<close>

definition wear_scan :: "nand_dev \<Rightarrow> nat \<Rightarrow> u32 \<times> u32 \<times> nat option \<Rightarrow> u32 \<times> u32 \<times> nat option" where
  "wear_scan d i = (\<lambda>(max_erase, min_erase, cold_block).
     if nand_get_block_state d i = BLOCK_BAD then (max_erase, min_erase, cold_block)
     else
       let erase_cnt = nand_get_block_erase_count d i;
           max_erase = (if max_erase < erase_cnt then erase_cnt else max_erase) in
       if erase_cnt < min_erase
       then (max_erase, erase_cnt, if nand_get_block_state d i = BLOCK_USED then Some i else cold_block)
       else (max_erase, min_erase, cold_block))"

definition wear_leveling_check :: "ftl_dev \<Rightarrow> ftl_dev" where
  "wear_leveling_check s =
     (let (max_erase, min_erase, cold_block) =
            fold (wear_scan (fs_nand s)) [0..<FTL_USER_BLOCKS] (0, 0xFFFFFFFF, None) in
      case cold_block of
        None \<Rightarrow> s
      | Some cold_block \<Rightarrow>
          if FTL_WEAR_DIFF_THRESHOLD < max_erase - min_erase
          then (let (ret, s) = with_nand (\<lambda>d. nand_mark_cold_block d cold_block) s in
                if ret = RET_OK then s\<lparr>fs_wear_leveling_count := fs_wear_leveling_count s + 1\<rparr> else s)
          else s)"

section \<open>Static wear leveling\<close>

text \<open>
  One iteration of the loop that moves the pages of a block to the same offsets of another; the
  loop of \<open>ftl_handle_read_disturb\<close> has the same body.  The state is the page buffer, the
  number of moved pages and the device.
\<close>

definition relocate_page :: "nat \<Rightarrow> nat \<Rightarrow> nat \<Rightarrow> u8 list \<times> u32 \<times> ftl_dev \<Rightarrow> u8 list \<times> u32 \<times> ftl_dev" where
  "relocate_page src_block dst_block page = (\<lambda>(page_buf, moved_pages, s).
     if \<not> nand_is_page_valid (fs_nand s) src_block page then (page_buf, moved_pages, s)
     else
       let old_ppn = block_page_to_ppn src_block page;
           lpn = fs_rmap s old_ppn in
       if lpn = FTL_INVALID_LPN then (page_buf, moved_pages, s)
       else
         let (page_buf, s) = read_into src_block page page_buf s;
             (ret, s) = with_nand (\<lambda>d. nand_page_write d dst_block page (Some page_buf)) s in
         if ret \<noteq> RET_OK then (page_buf, moved_pages, s)
         else
           let s = s\<lparr>fs_nand_write_pages := fs_nand_write_pages s + 1\<rparr>;
               s = remap lpn old_ppn (block_page_to_ppn dst_block page) s in
           (page_buf, moved_pages + 1, snd (with_nand (\<lambda>d. nand_mark_page_invalid d src_block page) s)))"

text \<open>\<open>(max_erase, max_erase_block, min_erase, min_erase_block)\<close>\<close>

definition static_wear_scan ::
    "nand_dev \<Rightarrow> nat \<Rightarrow> u32 \<times> nat option \<times> u32 \<times> nat option \<Rightarrow> u32 \<times> nat option \<times> u32 \<times> nat option" where
  "static_wear_scan d i = (\<lambda>(max_erase, max_erase_block, min_erase, min_erase_block).
     let state = nand_get_block_state d i in
     if state = BLOCK_BAD then (max_erase, max_erase_block, min_erase, min_erase_block)
     else
       let erase_cnt = nand_get_block_erase_count d i;
           (max_erase, max_erase_block) =
             (if state = BLOCK_USED \<and> max_erase < erase_cnt then (erase_cnt, Some i)
              else (max_erase, max_erase_block));
           (min_erase, min_erase_block) =
             (if state = BLOCK_FREE \<and> erase_cnt < min_erase then (erase_cnt, Some i)
              else (min_erase, min_erase_block)) in
       (max_erase, max_erase_block, min_erase, min_erase_block))"

definition static_wear_leveling_check :: "ftl_dev \<Rightarrow> ftl_dev" where
  "static_wear_leveling_check s =
     (case fold (static_wear_scan (fs_nand s)) [0..<FTL_USER_BLOCKS] (0, None, 0xFFFFFFFF, None) of
        (max_erase, Some src_block, min_erase, Some dst_block) \<Rightarrow>
          if FTL_STATIC_WEAR_THRESHOLD < max_erase - min_erase
          then
            let (_, moved_pages, s) =
                  fold (relocate_page src_block dst_block) [0..<NAND_PAGES_PER_BLOCK] (blank_page, 0, s);
                (_, s) = with_nand (\<lambda>d. nand_block_erase d src_block) s in
            s\<lparr>fs_static_wear_count := fs_static_wear_count s + 1,
              fs_static_wear_moved_pages := fs_static_wear_moved_pages s + moved_pages\<rparr>
          else s
      | _ \<Rightarrow> s)"

end
