(* ===== verification/FtlLog.thy ===== *)
theory FtlLog
  imports FtlState
begin

text \<open>
  Power-loss protection of \<open>modules/ftl/ftl.c\<close>: the write-ahead log and the snapshot.  Both are
  files of little-endian records, modelled byte by byte; the result of a replay is \<open>None\<close> when
  a record makes the code write outside the reverse map.
\<close>

section \<open>Records and checksums\<close>

datatype wal_op_type = WAL_OP_WRITE | WAL_OP_ERASE | WAL_OP_TRIM

fun wal_op_value :: "wal_op_type \<Rightarrow> u32" where
  "wal_op_value WAL_OP_WRITE = 0"
| "wal_op_value WAL_OP_ERASE = 1"
| "wal_op_value WAL_OP_TRIM = 2"

record wal_entry =
  we_magic :: u32
  we_op :: u32
  we_lpn :: u32
  we_old_ppn :: u32
  we_new_ppn :: u32
  we_sequence :: u32
  we_checksum :: u32

definition WAL_ENTRY_SIZE :: nat where "WAL_ENTRY_SIZE = 28"

definition wal_entry_bytes :: "wal_entry \<Rightarrow> u8 list" where
  "wal_entry_bytes e = words_bytes [we_magic e, we_op e, we_lpn e, we_old_ppn e, we_new_ppn e,
     we_sequence e, we_checksum e]"

definition wal_entry_of_bytes :: "u8 list \<Rightarrow> wal_entry" where
  "wal_entry_of_bytes bs =
     (let ws = words_of_bytes 7 bs in
      \<lparr>we_magic = ws ! 0, we_op = ws ! 1, we_lpn = ws ! 2, we_old_ppn = ws ! 3, we_new_ppn = ws ! 4,
       we_sequence = ws ! 5, we_checksum = ws ! 6\<rparr>)"

definition ftl_calc_checksum :: "u8 list \<Rightarrow> nat \<Rightarrow> u32" where
  "ftl_calc_checksum data len = fold (\<lambda>i checksum. checksum + ucast (data ! i)) [0..<len] 0"

text \<open>The bytes in front of the field \<open>checksum\<close>, which is the last one.\<close>

definition wal_calculate_checksum :: "wal_entry \<Rightarrow> u32" where
  "wal_calculate_checksum e =
     fold (\<lambda>i checksum. checksum + ucast (wal_entry_bytes e ! i)) [0..<WAL_ENTRY_SIZE - 4] 0"

section \<open>Files\<close>

definition file_contents :: "host_files \<Rightarrow> string \<Rightarrow> u8 list option" where
  "file_contents h path = hf_files h path"

definition file_put :: "host_files \<Rightarrow> string \<Rightarrow> u8 list \<Rightarrow> host_files" where
  "file_put h path bs = h\<lparr>hf_files := (hf_files h)(path := Some bs)\<rparr>"

section \<open>Write-ahead log\<close>

definition ftl_wal_init :: "ftl_dev \<Rightarrow> string option \<Rightarrow> ret_code \<times> ftl_dev" where
  "ftl_wal_init s file_path =
     (case file_path of
        None \<Rightarrow> (RET_ERR_PARAM, s)
      | Some path \<Rightarrow>
          if \<not> hf_can_create (fs_files s) path then (RET_ERR_INTERNAL, s\<lparr>fs_wal_file := None\<rparr>)
          else
            let bs = (case file_contents (fs_files s) path of None \<Rightarrow> [] | Some bs \<Rightarrow> bs);
                count = of_nat (length bs div WAL_ENTRY_SIZE) in
            (RET_OK, s\<lparr>fs_files := file_put (fs_files s) path bs, fs_wal_file := Some path,
                       fs_wal_sequence := count, fs_wal_entry_count := count\<rparr>))"

definition ftl_wal_append :: "ftl_dev \<Rightarrow> wal_entry option \<Rightarrow> ret_code \<times> ftl_dev" where
  "ftl_wal_append s entry =
     (case (entry, fs_wal_file s) of
        (Some e, Some path) \<Rightarrow>
          let e = e\<lparr>we_magic := FTL_WAL_MAGIC, we_sequence := fs_wal_sequence s\<rparr>;
              e = e\<lparr>we_checksum := wal_calculate_checksum e\<rparr>;
              s = s\<lparr>fs_wal_sequence := fs_wal_sequence s + 1\<rparr> in
          if \<not> hf_writable (fs_files s) then (RET_ERR_INTERNAL, s)
          else
            let bs = (case file_contents (fs_files s) path of None \<Rightarrow> [] | Some bs \<Rightarrow> bs) in
            (RET_OK, s\<lparr>fs_files := file_put (fs_files s) path (bs @ wal_entry_bytes e),
                       fs_wal_entry_count := fs_wal_entry_count s + 1\<rparr>)
      | _ \<Rightarrow> (RET_ERR_PARAM, s))"

definition wal_log_write :: "ftl_dev \<Rightarrow> nat \<Rightarrow> nat \<Rightarrow> nat \<Rightarrow> ret_code \<times> ftl_dev" where
  "wal_log_write s lpn old_ppn new_ppn =
     (if \<not> fs_wal_enabled s \<or> fs_wal_file s = None then (RET_OK, s)
      else ftl_wal_append s (Some \<lparr>we_magic = 0, we_op = wal_op_value WAL_OP_WRITE, we_lpn = of_nat lpn,
             we_old_ppn = of_nat old_ppn, we_new_ppn = of_nat new_ppn, we_sequence = 0, we_checksum = 0\<rparr>))"

definition wal_log_trim :: "ftl_dev \<Rightarrow> nat \<Rightarrow> ret_code \<times> ftl_dev" where
  "wal_log_trim s lpn =
     (if \<not> fs_wal_enabled s \<or> fs_wal_file s = None then (RET_OK, s)
      else ftl_wal_append s (Some \<lparr>we_magic = 0, we_op = wal_op_value WAL_OP_TRIM, we_lpn = of_nat lpn,
             we_old_ppn = of_nat (fs_l2p s lpn), we_new_ppn = of_nat FTL_INVALID_PPN, we_sequence = 0,
             we_checksum = 0\<rparr>))"

text \<open>The effect of one record of the log, and the loop over the complete records of the file.\<close>

definition wal_replay_entry :: "wal_entry \<Rightarrow> ftl_dev \<Rightarrow> ftl_dev option" where
  "wal_replay_entry e s =
     (if we_magic e \<noteq> FTL_WAL_MAGIC then Some s
      else if wal_calculate_checksum e \<noteq> we_checksum e then Some s
      else
        let lpn = unat (we_lpn e); old_ppn = unat (we_old_ppn e); new_ppn = unat (we_new_ppn e) in
        if we_op e = wal_op_value WAL_OP_WRITE then
          if lpn < FTL_TOTAL_LPNS \<and> new_ppn \<noteq> FTL_INVALID_PPN then do {
            s \<leftarrow> (if old_ppn \<noteq> FTL_INVALID_PPN then set_rmap_checked old_ppn FTL_INVALID_LPN s else Some s);
            set_rmap_checked new_ppn lpn (set_l2p lpn new_ppn s)
          } else Some s
        else if we_op e = wal_op_value WAL_OP_TRIM then
          if lpn < FTL_TOTAL_LPNS \<and> fs_l2p s lpn \<noteq> FTL_INVALID_PPN then do {
            s \<leftarrow> set_rmap_checked (fs_l2p s lpn) FTL_INVALID_LPN s;
            Some (set_l2p lpn FTL_INVALID_PPN s)
          } else Some s
        else Some s)"

fun wal_records :: "nat \<Rightarrow> u8 list \<Rightarrow> wal_entry list" where
  "wal_records 0 bs = []"
| "wal_records (Suc n) bs =
     wal_entry_of_bytes (take WAL_ENTRY_SIZE bs) # wal_records n (drop WAL_ENTRY_SIZE bs)"

definition ftl_wal_replay :: "ftl_dev \<Rightarrow> string option \<Rightarrow> (ret_code \<times> ftl_dev) option" where
  "ftl_wal_replay s file_path =
     (case file_path of
        None \<Rightarrow> Some (RET_ERR_PARAM, s)
      | Some path \<Rightarrow>
          (case file_contents (fs_files s) path of
             None \<Rightarrow> Some (RET_OK, s)
           | Some bs \<Rightarrow> do {
               s \<leftarrow> fold_option wal_replay_entry (wal_records (length bs div WAL_ENTRY_SIZE) bs) s;
               Some (RET_OK, s)
             }))"

definition ftl_wal_clear :: "ftl_dev \<Rightarrow> ret_code \<times> ftl_dev" where
  "ftl_wal_clear s =
     (if fs_wal_file s = None then (RET_OK, s)
      else (RET_OK, s\<lparr>fs_wal_file := None, fs_wal_sequence := 0, fs_wal_entry_count := 0\<rparr>))"

definition ftl_wal_enable :: "ftl_dev \<Rightarrow> bool \<Rightarrow> ftl_dev" where
  "ftl_wal_enable s enable = s\<lparr>fs_wal_enabled := enable\<rparr>"

definition ftl_wal_is_enabled :: "ftl_dev \<Rightarrow> bool" where
  "ftl_wal_is_enabled s = fs_wal_enabled s"

section \<open>Snapshot\<close>

record ftl_meta_header =
  mh_magic :: u32
  mh_version :: u32
  mh_checksum :: u32
  mh_host_write_pages :: u32
  mh_nand_write_pages :: u32
  mh_gc_count :: u32
  mh_cur_write_block :: u32
  mh_cur_write_page :: u32

definition META_HEADER_SIZE :: nat where "META_HEADER_SIZE = 32"

definition meta_header_bytes :: "ftl_meta_header \<Rightarrow> u8 list" where
  "meta_header_bytes h = words_bytes [mh_magic h, mh_version h, mh_checksum h, mh_host_write_pages h,
     mh_nand_write_pages h, mh_gc_count h, mh_cur_write_block h, mh_cur_write_page h]"

definition meta_header_of_bytes :: "u8 list \<Rightarrow> ftl_meta_header" where
  "meta_header_of_bytes bs =
     (let ws = words_of_bytes 8 bs in
      \<lparr>mh_magic = ws ! 0, mh_version = ws ! 1, mh_checksum = ws ! 2, mh_host_write_pages = ws ! 3,
       mh_nand_write_pages = ws ! 4, mh_gc_count = ws ! 5, mh_cur_write_block = ws ! 6,
       mh_cur_write_page = ws ! 7\<rparr>)"

definition snapshot_header :: "ftl_dev \<Rightarrow> ftl_meta_header" where
  "snapshot_header s =
     (let h = \<lparr>mh_magic = FTL_META_MAGIC, mh_version = FTL_META_VERSION, mh_checksum = 0,
               mh_host_write_pages = fs_host_write_pages s, mh_nand_write_pages = fs_nand_write_pages s,
               mh_gc_count = fs_gc_count s, mh_cur_write_block = of_nat (fs_cur_block s),
               mh_cur_write_page = of_nat (fs_cur_page s)\<rparr> in
      h\<lparr>mh_checksum := ftl_calc_checksum (meta_header_bytes h) META_HEADER_SIZE\<rparr>)"

definition ftl_save_snapshot :: "ftl_dev \<Rightarrow> string option \<Rightarrow> ret_code \<times> ftl_dev" where
  "ftl_save_snapshot s file_path =
     (case file_path of
        None \<Rightarrow> (RET_ERR_PARAM, s)
      | Some path \<Rightarrow>
          if \<not> fs_is_initialized s then (RET_ERR_PARAM, s)
          else if \<not> hf_can_create (fs_files s) path then (RET_ERR_INTERNAL, s)
          else
            let bs = (if hf_writable (fs_files s)
                      then meta_header_bytes (snapshot_header s) @
                           words_bytes (map (\<lambda>i. of_nat (fs_l2p s i)) [0..<FTL_TOTAL_LPNS])
                      else []) in
            (RET_OK, s\<lparr>fs_files := file_put (fs_files s) path bs\<rparr>))"

text \<open>The reverse map is built anew from the table that was read.\<close>

definition rebuild_rmap :: "ftl_dev \<Rightarrow> ftl_dev" where
  "rebuild_rmap s =
     (let s = s\<lparr>fs_rmap := (\<lambda>i. if i < FTL_TOTAL_PPNS then FTL_INVALID_LPN else fs_rmap s i)\<rparr> in
      fold (\<lambda>lpn s. if fs_l2p s lpn \<noteq> FTL_INVALID_PPN \<and> fs_l2p s lpn < FTL_TOTAL_PPNS
              then set_rmap (fs_l2p s lpn) lpn s else s) [0..<FTL_TOTAL_LPNS] s)"

text \<open>A short file leaves the entries that could be read in the table.\<close>

definition ftl_load_snapshot :: "ftl_dev \<Rightarrow> string option \<Rightarrow> ret_code \<times> ftl_dev" where
  "ftl_load_snapshot s file_path =
     (case file_path of
        None \<Rightarrow> (RET_ERR_PARAM, s)
      | Some path \<Rightarrow>
          (case file_contents (fs_files s) path of
             None \<Rightarrow> (RET_ERR_INTERNAL, s)
           | Some bs \<Rightarrow>
               if length bs < META_HEADER_SIZE then (RET_ERR_INTERNAL, s)
               else
                 let h = meta_header_of_bytes (take META_HEADER_SIZE bs) in
                 if mh_magic h \<noteq> FTL_META_MAGIC then (RET_ERR_CHECKSUM, s)
                 else if mh_checksum h \<noteq>
                    ftl_calc_checksum (meta_header_bytes (h\<lparr>mh_checksum := 0\<rparr>)) META_HEADER_SIZE
                 then (RET_ERR_CHECKSUM, s)
                 else
                   let n = min FTL_TOTAL_LPNS ((length bs - META_HEADER_SIZE) div 4);
                       ws = words_of_bytes n (drop META_HEADER_SIZE bs);
                       s = s\<lparr>fs_l2p := (\<lambda>i. if i < n then unat (ws ! i) else fs_l2p s i)\<rparr> in
                   if n \<noteq> FTL_TOTAL_LPNS then (RET_ERR_INTERNAL, s)
                   else
                     let s = s\<lparr>fs_host_write_pages := mh_host_write_pages h,
                               fs_nand_write_pages := mh_nand_write_pages h, fs_gc_count := mh_gc_count h,
                               fs_cur_block := unat (mh_cur_write_block h),
                               fs_cur_page := unat (mh_cur_write_page h)\<rparr> in
                     (RET_OK, (rebuild_rmap s)\<lparr>fs_is_initialized := True\<rparr>)))"

end
