(* ===== verification/HybridMap.thy ===== *)
theory HybridMap
  imports FtlState
begin

text \<open>
  Hybrid mapping of \<open>modules/ftl/ftl.c\<close>: the table of logical blocks, the access counters that
  tell hot blocks from cold ones, and the migration between page and block mapping.  A migration
  is \<open>None\<close> when it would write outside the reverse map.
\<close>

definition set_entry :: "nat \<Rightarrow> (block_map_entry \<Rightarrow> block_map_entry) \<Rightarrow> ftl_dev \<Rightarrow> ftl_dev" where
  "set_entry i f s = s\<lparr>fs_block_map := (fs_block_map s)(i := f (fs_block_map s i))\<rparr>"

definition ftl_get_block_map_entry :: "ftl_dev \<Rightarrow> nat \<Rightarrow> bool \<Rightarrow> ret_code \<times> block_map_entry option" where
  "ftl_get_block_map_entry s logical_block has_entry =
     (if \<not> has_entry \<or> \<not> fs_is_initialized s then (RET_ERR_PARAM, None)
      else if FTL_LOGICAL_BLOCKS \<le> logical_block then (RET_ERR_PARAM, None)
      else if \<not> be_is_valid (fs_block_map s logical_block) then (RET_ERR_NOT_MAPPED, None)
      else (RET_OK, Some (fs_block_map s logical_block)))"

text \<open>\<open>(page_mapped, block_mapped, hot, cold)\<close>; the argument says that no output pointer is \<open>NULL\<close>.\<close>

definition ftl_get_hybrid_map_stats :: "ftl_dev \<Rightarrow> bool \<Rightarrow> ret_code \<times> (u32 \<times> u32 \<times> u32 \<times> u32) option" where
  "ftl_get_hybrid_map_stats s has_outs =
     (if \<not> has_outs then (RET_ERR_PARAM, None)
      else (RET_OK, Some (fold (\<lambda>i (page_mapped, block_mapped, hot, cold).
              if \<not> be_is_valid (fs_block_map s i) then (page_mapped, block_mapped, hot, cold)
              else if be_is_hot (fs_block_map s i) then (page_mapped + 1, block_mapped, hot + 1, cold)
              else (page_mapped, block_mapped + 1, hot, cold + 1)) [0..<FTL_LOGICAL_BLOCKS] (0, 0, 0, 0))))"

definition hybrid_update_access_count :: "nat \<Rightarrow> ftl_dev \<Rightarrow> ftl_dev" where
  "hybrid_update_access_count lpn s =
     (let logical_block = lpn_to_logical_block lpn in
      if FTL_LOGICAL_BLOCKS \<le> logical_block then s
      else if \<not> be_is_valid (fs_block_map s logical_block) then s
      else set_entry logical_block (\<lambda>e. e\<lparr>be_access_count := be_access_count e + 1\<rparr>) s)"

text \<open>The offsets of a logical block that the loops over it visit before they break.\<close>

definition block_offsets :: "nat \<Rightarrow> nat list" where
  "block_offsets base_lpn = takeWhile (\<lambda>i. base_lpn + i < FTL_TOTAL_LPNS) [0..<FTL_LOGICAL_BLOCK_PAGES]"

definition upgrade_page :: "nat \<Rightarrow> nat \<Rightarrow> nat \<Rightarrow> ftl_dev \<Rightarrow> ftl_dev option" where
  "upgrade_page physical_block base_lpn i s =
     (let lpn = base_lpn + i; ppn = block_page_to_ppn physical_block i in
      if nand_is_page_valid (fs_nand s) physical_block i
      then set_rmap_checked ppn lpn (set_l2p lpn ppn s)
      else set_rmap_checked ppn FTL_INVALID_LPN (set_l2p lpn FTL_INVALID_PPN s))"

definition hybrid_upgrade_to_hot :: "nat \<Rightarrow> ftl_dev \<Rightarrow> (ret_code \<times> ftl_dev) option" where
  "hybrid_upgrade_to_hot logical_block s =
     (if \<not> be_is_valid (fs_block_map s logical_block) then Some (RET_ERR_NOT_MAPPED, s)
      else if be_is_hot (fs_block_map s logical_block) then Some (RET_OK, s)
      else do {
        let physical_block = be_physical_block (fs_block_map s logical_block);
        let base_lpn = logical_block * FTL_LOGICAL_BLOCK_PAGES;
        s \<leftarrow> fold_option (upgrade_page physical_block base_lpn) (block_offsets base_lpn) s;
        let s = set_entry logical_block (\<lambda>e. e\<lparr>be_is_hot := True\<rparr>) s;
        Some (RET_OK, s\<lparr>fs_hot_cold_migration_count := fs_hot_cold_migration_count s + 1\<rparr>)
      })"

definition downgrade_page :: "nat \<Rightarrow> nat \<Rightarrow> ftl_dev \<Rightarrow> ftl_dev option" where
  "downgrade_page base_lpn i s =
     (let lpn = base_lpn + i in
      if fs_l2p s lpn = FTL_INVALID_PPN then Some s
      else do {
        s' \<leftarrow> set_rmap_checked (fs_l2p s lpn) FTL_INVALID_LPN s;
        Some (set_l2p lpn FTL_INVALID_PPN s')
      })"

definition hybrid_downgrade_to_cold :: "nat \<Rightarrow> ftl_dev \<Rightarrow> (ret_code \<times> ftl_dev) option" where
  "hybrid_downgrade_to_cold logical_block s =
     (if \<not> be_is_valid (fs_block_map s logical_block) then Some (RET_ERR_NOT_MAPPED, s)
      else if \<not> be_is_hot (fs_block_map s logical_block) then Some (RET_OK, s)
      else
        let base_lpn = logical_block * FTL_LOGICAL_BLOCK_PAGES in
        case find (\<lambda>i. fs_l2p s (base_lpn + i) \<noteq> FTL_INVALID_PPN) (block_offsets base_lpn) of
          None \<Rightarrow> Some (RET_OK, set_entry logical_block (\<lambda>e. e\<lparr>be_is_valid := False, be_is_hot := False\<rparr>) s)
        | Some i \<Rightarrow> do {
            let physical_block = ppn_to_block (fs_l2p s (base_lpn + i));
            let s = set_entry logical_block (\<lambda>e. e\<lparr>be_physical_block := physical_block\<rparr>) s;
            s \<leftarrow> fold_option (downgrade_page base_lpn) (block_offsets base_lpn) s;
            let s = set_entry logical_block (\<lambda>e. e\<lparr>be_is_hot := False\<rparr>) s;
            Some (RET_OK, s\<lparr>fs_hot_cold_migration_count := fs_hot_cold_migration_count s + 1\<rparr>)
          })"

text \<open>One iteration of the migration: promote, demote or leave, then halve the access count.\<close>

definition migrate_block :: "nat \<Rightarrow> ftl_dev \<Rightarrow> ftl_dev option" where
  "migrate_block i s =
     (if \<not> be_is_valid (fs_block_map s i) then Some s
      else do {
        let e = fs_block_map s i;
        s \<leftarrow> (if FTL_HOT_DATA_THRESHOLD \<le> be_access_count e \<and> \<not> be_is_hot e
             then map_option snd (hybrid_upgrade_to_hot i s)
             else if be_access_count e < FTL_COLD_DATA_THRESHOLD \<and> be_is_hot e
             then map_option snd (hybrid_downgrade_to_cold i s)
             else Some s);
        Some (set_entry i (\<lambda>e. e\<lparr>be_access_count := be_access_count e div 2\<rparr>) s)
      })"

definition ftl_hot_cold_migration :: "ftl_dev \<Rightarrow> (ret_code \<times> ftl_dev) option" where
  "ftl_hot_cold_migration s =
     (if \<not> fs_is_initialized s then Some (RET_ERR_NOT_INIT, s)
      else do {
        s \<leftarrow> fold_option migrate_block [0..<FTL_LOGICAL_BLOCKS] s;
        Some (RET_OK, s)
      })"

end
