(* ===== verification/Ftl.thy ===== *)
theory Ftl
  imports Gc FtlLog HybridMap
begin

text \<open>
  The host interface of the flash translation layer, \<open>modules/ftl/ftl.c\<close>: read, write, TRIM,
  secure erase, bad-block replacement and read-disturb handling.  A result \<open>None\<close> is a call that
  collects garbage for ever or that leaves the tables.
\<close>

section \<open>Bad blocks\<close>

definition replace_remap_page :: "nat \<Rightarrow> nat \<Rightarrow> nat \<Rightarrow> u32 \<times> ftl_dev \<Rightarrow> u32 \<times> ftl_dev" where
  "replace_remap_page block new_block page = (\<lambda>(moved_pages, s).
     let old_ppn = block_page_to_ppn block page;
         new_ppn = block_page_to_ppn new_block page;
         lpn = fs_rmap s old_ppn in
     if lpn = FTL_INVALID_LPN then (moved_pages, s)
     else (moved_pages + 1, remap lpn old_ppn new_ppn s))"

definition ftl_replace_bad_block :: "ftl_dev \<Rightarrow> nat \<Rightarrow> ret_code \<times> ftl_dev" where
  "ftl_replace_bad_block s block =
     (if \<not> fs_is_initialized s then (RET_ERR_NOT_INIT, s)
      else if NAND_TOTAL_BLOCKS \<le> block then (RET_ERR_PARAM, s)
      else (case nand_replace_bad_block (fs_nand s) block True of
              (RET_OK, Some new_block, d) \<Rightarrow>
                let (moved_pages, s) = fold (replace_remap_page block new_block) [0..<NAND_PAGES_PER_BLOCK]
                                         (0, s\<lparr>fs_nand := d\<rparr>);
                    s = s\<lparr>fs_bad_block_replace_count := fs_bad_block_replace_count s + 1,
                          fs_bad_block_moved_pages := fs_bad_block_moved_pages s + moved_pages\<rparr>;
                    s = (if fs_cur_block s = block then s\<lparr>fs_cur_block := new_block\<rparr> else s) in
                (RET_OK, s)
            | (ret, _, d) \<Rightarrow> (ret, s\<lparr>fs_nand := d\<rparr>)))"

section \<open>Read\<close>

definition ftl_read :: "ftl_dev \<Rightarrow> nat \<Rightarrow> bool \<Rightarrow> ret_code \<times> u8 list option \<times> ftl_dev" where
  "ftl_read s lpn has_buf =
     (if \<not> fs_is_initialized s \<or> \<not> has_buf then (RET_ERR_PARAM, None, s)
      else if FTL_TOTAL_LPNS \<le> lpn then (RET_ERR_PARAM, None, s)
      else if fs_l2p s lpn = FTL_INVALID_PPN then (RET_ERR_NOT_MAPPED, None, s)
      else
        let ppn = fs_l2p s lpn;
            block = ppn_to_block ppn;
            (ret, buf, d) = nand_page_read (fs_nand s) block (ppn_to_page ppn) True;
            s = s\<lparr>fs_nand := d\<rparr> in
        if ret = RET_ERR_BAD_BLOCK then (RET_ERR_BAD_BLOCK, buf, snd (ftl_replace_bad_block s block))
        else if ret = RET_OK \<and> fs_map_mode s = MAP_MODE_HYBRID
        then (ret, buf, hybrid_update_access_count lpn s)
        else (ret, buf, s))"

section \<open>Write\<close>

text \<open>
  Writing the data: a bad block is replaced and the write is tried once more on a newly
  allocated page.  The result carries the page that was finally used.
\<close>

definition write_data :: "u8 list \<Rightarrow> nat \<Rightarrow> ftl_dev \<Rightarrow> ret_code \<times> nat \<times> ftl_dev" where
  "write_data buf new_ppn s =
     (let (ret, s) = with_nand (\<lambda>d. nand_page_write d (ppn_to_block new_ppn) (ppn_to_page new_ppn) (Some buf)) s in
      if ret \<noteq> RET_ERR_BAD_BLOCK then (ret, new_ppn, s)
      else
        let (ret, s) = ftl_replace_bad_block s (ppn_to_block new_ppn) in
        if ret \<noteq> RET_OK then (ret, new_ppn, s)
        else (case ftl_alloc_phy_page s of
                (None, s) \<Rightarrow> (RET_ERR_NO_SPACE, new_ppn, s)
              | (Some new_ppn, s) \<Rightarrow>
                  let (ret, s) = with_nand (\<lambda>d. nand_page_write d (ppn_to_block new_ppn) (ppn_to_page new_ppn)
                                   (Some buf)) s in
                  (ret, new_ppn, s)))"

text \<open>The bookkeeping after the data is on the medium.\<close>

definition write_commit :: "nat \<Rightarrow> nat \<Rightarrow> ftl_dev \<Rightarrow> ftl_dev option" where
  "write_commit lpn new_ppn s =
     do {
       let s = s\<lparr>fs_host_write_pages := fs_host_write_pages s + 1,
                 fs_nand_write_pages := fs_nand_write_pages s + 1\<rparr>;
       s \<leftarrow> (if fs_l2p s lpn \<noteq> FTL_INVALID_PPN
            then (let old_ppn = fs_l2p s lpn;
                      (_, s) = with_nand (\<lambda>d. nand_mark_page_invalid d (ppn_to_block old_ppn)
                                 (ppn_to_page old_ppn)) s in
                  set_rmap_checked old_ppn FTL_INVALID_LPN s)
            else Some s);
       set_rmap_checked new_ppn lpn (set_l2p lpn new_ppn s)
     }"

definition write_wear :: "ftl_dev \<Rightarrow> ftl_dev" where
  "write_wear s =
     (let s = wear_leveling_check s;
          s = s\<lparr>fs_write_since_last_check := fs_write_since_last_check s + 1\<rparr> in
      if FTL_STATIC_WEAR_INTERVAL \<le> fs_write_since_last_check s
      then static_wear_leveling_check (s\<lparr>fs_write_since_last_check := 0\<rparr>)
      else s)"

definition write_hybrid :: "nat \<Rightarrow> nat \<Rightarrow> ftl_dev \<Rightarrow> ftl_dev option" where
  "write_hybrid lpn new_ppn s =
     (if fs_map_mode s \<noteq> MAP_MODE_HYBRID then Some s
      else
        let logical_block = lpn_to_logical_block lpn;
            s = (if logical_block < FTL_LOGICAL_BLOCKS
                 then hybrid_update_access_count lpn
                        (if be_is_valid (fs_block_map s logical_block) then s
                         else set_entry logical_block (\<lambda>_. \<lparr>be_physical_block = ppn_to_block new_ppn,
                                be_is_valid = True, be_is_hot = False, be_access_count = 0\<rparr>) s)
                 else s);
            s = s\<lparr>fs_hot_cold_check_count := fs_hot_cold_check_count s + 1\<rparr> in
        if FTL_HOT_COLD_CHECK_INTERVAL \<le> fs_hot_cold_check_count s
        then map_option snd (ftl_hot_cold_migration (s\<lparr>fs_hot_cold_check_count := 0\<rparr>))
        else Some s)"

definition ftl_write :: "ftl_dev \<Rightarrow> nat \<Rightarrow> u8 list option \<Rightarrow> (ret_code \<times> ftl_dev) option" where
  "ftl_write s lpn buf =
     (case buf of
        None \<Rightarrow> Some (RET_ERR_PARAM, s)
      | Some bs \<Rightarrow>
          if \<not> fs_is_initialized s then Some (RET_ERR_PARAM, s)
          else if FTL_TOTAL_LPNS \<le> lpn then Some (RET_ERR_PARAM, s)
          else do {
            (ret, s) \<leftarrow> gc_until_free s;
            if ret \<noteq> RET_OK then Some (RET_ERR_NO_SPACE, s)
            else (case ftl_alloc_phy_page s of
                    (None, s) \<Rightarrow> Some (RET_ERR_NO_SPACE, s)
                  | (Some new_ppn, s) \<Rightarrow>
                      let (ret, s) = wal_log_write s lpn (fs_l2p s lpn) new_ppn in
                      if ret \<noteq> RET_OK then Some (ret, s)
                      else
                        let (ret, new_ppn, s) = write_data bs new_ppn s in
                        if ret \<noteq> RET_OK then Some (ret, s)
                        else do {
                          s \<leftarrow> write_commit lpn new_ppn s;
                          s \<leftarrow> write_hybrid lpn new_ppn (write_wear s);
                          Some (RET_OK, s)
                        })
          })"

section \<open>TRIM and secure erase\<close>

text \<open>One iteration; reading the table past its end is undefined.\<close>

definition trim_page :: "nat \<Rightarrow> nat \<Rightarrow> u32 \<times> ftl_dev \<Rightarrow> (u32 \<times> ftl_dev) option" where
  "trim_page lpn i = (\<lambda>(trimmed, s).
     let cur_lpn = u32_add lpn i in
     if FTL_TOTAL_LPNS \<le> cur_lpn then None
     else if fs_l2p s cur_lpn = FTL_INVALID_PPN then Some (trimmed, s)
     else
       let ppn = fs_l2p s cur_lpn;
           (_, s) = wal_log_trim s cur_lpn;
           (_, s) = with_nand (\<lambda>d. nand_mark_page_invalid d (ppn_to_block ppn) (ppn_to_page ppn)) s in
       do {
         s \<leftarrow> set_rmap_checked ppn FTL_INVALID_LPN (set_l2p cur_lpn FTL_INVALID_PPN s);
         Some (trimmed + 1, s)
       })"

definition clip_count :: "nat \<Rightarrow> nat \<Rightarrow> nat" where
  "clip_count lpn count =
     (if FTL_TOTAL_LPNS < u32_add lpn count then FTL_TOTAL_LPNS - lpn else count)"

definition ftl_trim :: "ftl_dev \<Rightarrow> nat \<Rightarrow> nat \<Rightarrow> (ret_code \<times> ftl_dev) option" where
  "ftl_trim s lpn count =
     (if \<not> fs_is_initialized s then Some (RET_ERR_NOT_INIT, s)
      else if count = 0 then Some (RET_ERR_PARAM, s)
      else if FTL_TOTAL_LPNS \<le> lpn then Some (RET_ERR_PARAM, s)
      else do {
        (trimmed, s) \<leftarrow> fold_option (trim_page lpn) [0..<clip_count lpn count] (0, s);
        Some (RET_OK, s\<lparr>fs_trim_count := fs_trim_count s + 1, fs_trim_pages := fs_trim_pages s + trimmed\<rparr>)
      })"

definition erase_pattern :: "nat \<Rightarrow> u8" where
  "erase_pattern pass =
     (if pass mod 4 = 0 then 0x00 else if pass mod 4 = 1 then 0xFF
      else if pass mod 4 = 2 then 0xAA else 0x55)"

definition generate_erase_pattern :: "nat \<Rightarrow> nat \<Rightarrow> u8 list" where
  "generate_erase_pattern n pass = replicate n (erase_pattern pass)"

text \<open>The loop over the pages for one pass; \<open>has_mem\<close> tells whether \<open>malloc\<close> gives a buffer.\<close>

definition erase_pass :: "nat \<Rightarrow> nat \<Rightarrow> nat \<Rightarrow> ftl_dev \<Rightarrow> (ret_code, ftl_dev) ctl option" where
  "erase_pass lpn count pass =
     for_each [0..<count] (\<lambda>i s. do {
       (ret, s) \<leftarrow> ftl_write s (u32_add lpn i) (Some (generate_erase_pattern NAND_PAGE_SIZE pass));
       Some (if ret \<noteq> RET_OK then Leave ret s else Next s)
     })"

definition ftl_secure_erase :: "ftl_dev \<Rightarrow> bool \<Rightarrow> nat \<Rightarrow> nat \<Rightarrow> nat \<Rightarrow> (ret_code \<times> ftl_dev) option" where
  "ftl_secure_erase s has_mem lpn count passes =
     (if \<not> fs_is_initialized s then Some (RET_ERR_NOT_INIT, s)
      else if count = 0 then Some (RET_ERR_PARAM, s)
      else if passes = 0 then Some (RET_ERR_PARAM, s)
      else if FTL_TOTAL_LPNS \<le> lpn then Some (RET_ERR_PARAM, s)
      else
        let count = clip_count lpn count in
        if \<not> has_mem then Some (RET_ERR_INTERNAL, s)
        else do {
          c \<leftarrow> for_each [0..<passes] (erase_pass lpn count) s;
          (case c of
             Leave ret s \<Rightarrow> Some (ret, s)
           | Next s \<Rightarrow> ftl_trim s lpn count)
        })"

definition ftl_secure_erase_all :: "ftl_dev \<Rightarrow> bool \<Rightarrow> nat \<Rightarrow> (ret_code \<times> ftl_dev) option" where
  "ftl_secure_erase_all s has_mem passes =
     (if \<not> fs_is_initialized s then Some (RET_ERR_NOT_INIT, s)
      else if passes = 0 then Some (RET_ERR_PARAM, s)
      else ftl_secure_erase s has_mem 0 FTL_TOTAL_LPNS passes)"

section \<open>Read disturb\<close>

definition ftl_handle_read_disturb :: "ftl_dev \<Rightarrow> ret_code \<times> ftl_dev" where
  "ftl_handle_read_disturb s =
     (if \<not> fs_is_initialized s then (RET_ERR_NOT_INIT, s)
      else (case nand_check_read_disturb (fs_nand s) True of
              (True, Some src_block) \<Rightarrow>
                (case ftl_find_next_free_block (fs_nand s) 0 of
                   None \<Rightarrow> (RET_ERR_NO_SPACE, s)
                 | Some dst_block \<Rightarrow>
                     let (_, _, s) = fold (relocate_page src_block dst_block) [0..<NAND_PAGES_PER_BLOCK]
                                       (blank_page, 0, s) in
                     (RET_OK, snd (with_nand (\<lambda>d. nand_block_erase d src_block) s)))
            | _ \<Rightarrow> (RET_OK, s)))"

end
