(* ===== verification/NandStore.thy ===== *)
theory NandStore
  imports Nand PageStore
begin

text \<open>
  The NAND chip of \<open>Nand\<close> as a store of pages: the abstraction \<open>chip_page\<close> of the device to a partial
  map from block and page numbers to page contents, the invariants \<open>chip_ok\<close> (the error-correction
  word of every readable page fits its data) and \<open>chip_acct\<close> (counts of valid pages), what every
  operation does to the three, and the interpretation of the page-store interface.
\<close>

section \<open>The out-of-band record\<close>

lemma oob_round_trip:
  assumes "length (oob_reserved oob) = 3"
  shows "oob_of_bytes (oob_bytes oob) = oob"
proof -
  define ws where "ws = [oob_magic oob, oob_crc32 oob, oob_ecc oob]"
  have "words_of_bytes (length ws) (oob_bytes oob) = ws"
    unfolding oob_bytes_def ws_def by (rule words_of_bytes_append)
  then have ws: "words_of_bytes 3 (oob_bytes oob) = [oob_magic oob, oob_crc32 oob, oob_ecc oob]"
    unfolding ws_def by (simp only: list.size numeral_3_eq_3 add_0 add_Suc_right Nat.add_0_right One_nat_def)
  have "oob_bytes oob ! 12 = oob_bad_block_mark oob" "drop 13 (oob_bytes oob) = oob_reserved oob"
    by (simp_all add: oob_bytes_def nth_append)
  with ws assms show ?thesis by (simp add: oob_of_bytes_def)
qed

lemma length_oob_bytes: "length (oob_reserved oob) = 3 \<Longrightarrow> length (oob_bytes oob) = NAND_OOB_SIZE"
  by (simp add: oob_bytes_def NAND_OOB_SIZE_def)

section \<open>Pages on the medium\<close>

definition on_chip :: "nat \<Rightarrow> nat \<Rightarrow> bool" where
  "on_chip b p \<longleftrightarrow> b < NAND_TOTAL_BLOCKS \<and> p < NAND_PAGES_PER_BLOCK"

definition NAND_MEDIA_SIZE :: nat where
  "NAND_MEDIA_SIZE = NAND_TOTAL_BLOCKS * NAND_PAGES_PER_BLOCK * (NAND_PAGE_SIZE + NAND_OOB_SIZE)"

text \<open>The frames of two different pages do not overlap.\<close>

lemma page_frames_disjoint:
  assumes "p < NAND_PAGES_PER_BLOCK" "p' < NAND_PAGES_PER_BLOCK" "(b, p) \<noteq> (b', p')"
  shows "nand_calc_page_offset b p + NAND_PAGE_SIZE + NAND_OOB_SIZE \<le> nand_calc_page_offset b' p' \<or>
         nand_calc_page_offset b' p' + NAND_PAGE_SIZE + NAND_OOB_SIZE \<le> nand_calc_page_offset b p"
proof -
  define i where "i = b * NAND_PAGES_PER_BLOCK + p"
  define j where "j = b' * NAND_PAGES_PER_BLOCK + p'"
  have "i div NAND_PAGES_PER_BLOCK = b" "i mod NAND_PAGES_PER_BLOCK = p"
    "j div NAND_PAGES_PER_BLOCK = b'" "j mod NAND_PAGES_PER_BLOCK = p'"
    using assms(1,2) by (simp_all add: i_def j_def NAND_PAGES_PER_BLOCK_def)
  with assms(3) have "i \<noteq> j" by auto
  then have "i + 1 \<le> j \<or> j + 1 \<le> i" by auto
  then have "(i + 1) * (NAND_PAGE_SIZE + NAND_OOB_SIZE) \<le> j * (NAND_PAGE_SIZE + NAND_OOB_SIZE) \<or>
      (j + 1) * (NAND_PAGE_SIZE + NAND_OOB_SIZE) \<le> i * (NAND_PAGE_SIZE + NAND_OOB_SIZE)"
    by (meson mult_le_mono1)
  then show ?thesis
    by (simp add: nand_calc_page_offset_def i_def j_def algebra_simps)
qed

text \<open>The error-correction word that \<open>nand_page_write\<close> stores, and when a page agrees with its own.\<close>

definition page_ecc :: "u8 list \<Rightarrow> u32" where
  "page_ecc bs = ecc_out (nand_ecc_hamming_encode (Some bs) NAND_PAGE_SIZE True) 0"

definition clean_page :: "nand_dev \<Rightarrow> nat \<Rightarrow> nat \<Rightarrow> bool" where
  "clean_page d b p \<longleftrightarrow>
     oob_magic (page_oob d b p) = NAND_OOB_MAGIC \<and> oob_ecc (page_oob d b p) = page_ecc (page_data d b p)"

lemma hamming_decode_clean_page:
  "nand_ecc_hamming_decode st (Some bs) NAND_PAGE_SIZE (page_ecc bs) = (ECC_RESULT_OK, Some bs, st)"
  by (simp add: nand_ecc_hamming_decode_def page_ecc_def)

definition write_oob :: "u8 list \<Rightarrow> nand_oob" where
  "write_oob bs = zero_oob\<lparr>oob_magic := NAND_OOB_MAGIC, oob_bad_block_mark := 0xFF, oob_ecc := page_ecc bs\<rparr>"

lemma length_write_oob [simp]: "length (oob_reserved (write_oob bs)) = 3"
  by (simp add: write_oob_def zero_oob_def)

text \<open>What a successful page write leaves on the medium.\<close>

definition store_page :: "nat \<Rightarrow> nat \<Rightarrow> u8 list \<Rightarrow> nand_dev \<Rightarrow> nand_dev" where
  "store_page b p bs d =
     media_put (nand_calc_page_offset b p + NAND_PAGE_SIZE) (oob_bytes (write_oob bs))
       (media_put (nand_calc_page_offset b p) bs d)"

lemma store_page_fields [simp]:
  "nd_blocks (store_page b p bs d) = nd_blocks d"
  "nd_is_initialized (store_page b p bs d) = nd_is_initialized d"
  by (simp_all add: store_page_def media_put_def)

lemma page_data_store_same:
  "length bs = NAND_PAGE_SIZE \<Longrightarrow> page_data (store_page b p bs d) b p = bs"
  by (simp add: page_data_def store_page_def media_put_def mem_read_write_disjoint mem_read_write_same)

lemma page_oob_store_same:
  "page_oob (store_page b p bs d) b p = write_oob bs"
  by (simp add: page_oob_def store_page_def media_put_def nand_calc_oob_offset_def
      mem_read_write_same length_oob_bytes oob_round_trip)

lemma page_store_other:
  assumes "p < NAND_PAGES_PER_BLOCK" "p' < NAND_PAGES_PER_BLOCK" "(b, p) \<noteq> (b', p')"
    and "length bs = NAND_PAGE_SIZE"
  shows "page_data (store_page b p bs d) b' p' = page_data d b' p'"
    and "page_oob (store_page b p bs d) b' p' = page_oob d b' p'"
proof -
  note dis = page_frames_disjoint [OF assms(1-3)]
  show "page_data (store_page b p bs d) b' p' = page_data d b' p'"
    unfolding page_data_def store_page_def media_put_def using dis assms(4)
    by (elim disjE) (simp_all add: mem_read_write_disjoint length_oob_bytes)
  show "page_oob (store_page b p bs d) b' p' = page_oob d b' p'"
    unfolding page_oob_def store_page_def media_put_def nand_calc_oob_offset_def using dis assms(4)
    by (elim disjE) (simp_all add: mem_read_write_disjoint length_oob_bytes)
qed

section \<open>The chip as a store of pages\<close>

text \<open>
  The abstraction: a partial map from block and page numbers to the data of the readable pages.
\<close>

definition chip_page :: "nand_dev \<Rightarrow> nat \<Rightarrow> nat \<Rightarrow> u8 list option" where
  "chip_page d b p =
     (if on_chip b p \<and> block_state_of d b \<noteq> BLOCK_BAD \<and> page_valid d b p then Some (page_data d b p) else None)"

definition chip_ok :: "nand_dev \<Rightarrow> bool" where
  "chip_ok d \<longleftrightarrow> nd_is_initialized d \<and>
     (\<forall>b p. on_chip b p \<and> block_state_of d b \<noteq> BLOCK_BAD \<and> page_valid d b p \<longrightarrow> clean_page d b p)"

lemma chip_ok_initialized: "chip_ok d \<Longrightarrow> nd_is_initialized d"
  by (simp add: chip_ok_def)

lemma block_valid_on_chip:
  "nd_is_initialized d \<Longrightarrow> nand_is_block_valid d b \<longleftrightarrow> b < NAND_TOTAL_BLOCKS"
  by (simp add: nand_is_block_valid_def)

subsection \<open>Write\<close>

lemma page_write_cases:
  assumes "length bs = NAND_PAGE_SIZE"
  shows "nand_page_write d b p (Some bs) =
     (if \<not> nd_is_initialized d \<or> \<not> on_chip b p then (RET_ERR_PARAM, d)
      else if block_state_of d b = BLOCK_BAD then (RET_ERR_BAD_BLOCK, d)
      else if page_valid d b p then (RET_ERR_OVERWRITE, d)
      else (RET_OK,
        upd_block b (\<lambda>k. k\<lparr>pb_page_valid := (pb_page_valid k)(p := True),
            pb_valid_page_cnt := pb_valid_page_cnt k + 1, pb_state := BLOCK_USED\<rparr>) (store_page b p bs d)
          \<lparr>nd_total_write_pages := nd_total_write_pages d + 1,
           nd_write_energy := nd_write_energy d + NAND_POWER_WRITE_PER_PAGE\<rparr>))"
  using assms
  by (auto simp: nand_page_write_def nand_is_block_valid_def on_chip_def Let_def store_page_def
      write_oob_def page_ecc_def media_put_def)

lemma page_write_okD:
  assumes "nand_page_write d b p (Some bs) = (RET_OK, d')" "length bs = NAND_PAGE_SIZE"
  shows "on_chip b p" "nd_is_initialized d" "block_state_of d b \<noteq> BLOCK_BAD" "\<not> page_valid d b p"
    and "d' = upd_block b (\<lambda>k. k\<lparr>pb_page_valid := (pb_page_valid k)(p := True),
            pb_valid_page_cnt := pb_valid_page_cnt k + 1, pb_state := BLOCK_USED\<rparr>) (store_page b p bs d)
          \<lparr>nd_total_write_pages := nd_total_write_pages d + 1,
           nd_write_energy := nd_write_energy d + NAND_POWER_WRITE_PER_PAGE\<rparr>"
  using assms by (simp_all add: page_write_cases split: if_splits)

lemma page_write_failed:
  assumes "length bs = NAND_PAGE_SIZE" "nand_page_write d b p (Some bs) = (ret, d')" "ret \<noteq> RET_OK"
  shows "d' = d"
  using assms by (auto simp: page_write_cases split: if_splits)

lemma page_write_succeeds:
  assumes "length bs = NAND_PAGE_SIZE" "nd_is_initialized d" "on_chip b p"
    "block_state_of d b \<noteq> BLOCK_BAD" "\<not> page_valid d b p"
  shows "\<exists>d'. nand_page_write d b p (Some bs) = (RET_OK, d')"
  using assms by (simp add: page_write_cases)

text \<open>Reads off what an operation does to the pages from the medium and the block table.\<close>

lemma page_data_media: "nd_media d' = nd_media d \<Longrightarrow> page_data d' = page_data d"
  by (rule ext)+ (simp add: page_data_def)

lemma page_oob_media: "nd_media d' = nd_media d \<Longrightarrow> page_oob d' = page_oob d"
  by (rule ext)+ (simp add: page_oob_def)

lemma page_write_pages:
  assumes w: "nand_page_write d b p (Some bs) = (RET_OK, d')" and len: "length bs = NAND_PAGE_SIZE"
  shows "on_chip b' p' \<Longrightarrow> page_data d' b' p' = (if (b', p') = (b, p) then bs else page_data d b' p')"
    and "on_chip b' p' \<Longrightarrow> page_oob d' b' p' = (if (b', p') = (b, p) then write_oob bs else page_oob d b' p')"
proof -
  note d = page_write_okD [OF w len]
  have m: "nd_media d' = nd_media (store_page b p bs d)" by (simp add: d(5))
  assume b': "on_chip b' p'"
  show "page_data d' b' p' = (if (b', p') = (b, p) then bs else page_data d b' p')"
    using d(1) b' len page_data_store_same [of bs b p d] page_store_other(1) [of p p' b b' bs d]
    by (auto simp: page_data_media [OF m] on_chip_def)
  show "page_oob d' b' p' = (if (b', p') = (b, p) then write_oob bs else page_oob d b' p')"
    using d(1) b' len page_oob_store_same [of b p bs d] page_store_other(2) [of p p' b b' bs d]
    by (auto simp: page_oob_media [OF m] on_chip_def)
qed

lemma page_write_blocks:
  assumes "nand_page_write d b p (Some bs) = (RET_OK, d')" "length bs = NAND_PAGE_SIZE"
  shows "nd_blocks d' = (nd_blocks d)(b := (nd_blocks d b)
      \<lparr>pb_page_valid := (pb_page_valid (nd_blocks d b))(p := True),
       pb_valid_page_cnt := pb_valid_page_cnt (nd_blocks d b) + 1, pb_state := BLOCK_USED\<rparr>)"
    and "nd_is_initialized d'"
  using page_write_okD [OF assms] by (simp_all add: store_page_def media_put_def)

lemma page_write_chip_page:
  assumes "nand_page_write d b p (Some bs) = (RET_OK, d')" "length bs = NAND_PAGE_SIZE"
  shows "chip_page d' b' p' = (if (b', p') = (b, p) then Some bs else chip_page d b' p')"
  using page_write_okD(1-4) [OF assms] page_write_pages(1) [OF assms, of b' p']
  by (auto simp: chip_page_def page_write_blocks [OF assms])

lemma page_write_free: "nand_page_write d b p (Some bs) = (RET_OK, d') \<Longrightarrow> length bs = NAND_PAGE_SIZE \<Longrightarrow>
    chip_page d b p = None"
  by (auto dest: page_write_okD simp: chip_page_def)

lemma page_write_chip_ok:
  assumes ok: "chip_ok d" and w: "nand_page_write d b p (Some bs) = (ret, d')" and len: "length bs = NAND_PAGE_SIZE"
  shows "chip_ok d'"
proof (cases "ret = RET_OK")
  case True
  note w' = w [unfolded True]
  note b = page_write_blocks [OF w' len] and pg = page_write_pages [OF w' len] and D = page_write_okD [OF w' len]
  show ?thesis unfolding chip_ok_def
  proof (intro conjI allI impI)
    fix b' p'
    assume "on_chip b' p' \<and> block_state_of d' b' \<noteq> BLOCK_BAD \<and> page_valid d' b' p'"
    then show "clean_page d' b' p'"
      using ok D(3) unfolding chip_ok_def clean_page_def
      by (cases "(b', p') = (b, p)") (auto simp: pg b write_oob_def split: if_splits)
  qed (rule b(2))
next
  case False
  with page_write_failed [OF len w] ok show ?thesis by simp
qed

subsection \<open>Read\<close>

text \<open>Operations that leave every page and every block as it is, read counts aside.\<close>

definition same_store :: "nand_dev \<Rightarrow> nand_dev \<Rightarrow> bool" where
  "same_store d d' \<longleftrightarrow> nd_media d' = nd_media d \<and> nd_is_initialized d' = nd_is_initialized d \<and>
     (\<forall>b. block_state_of d' b = block_state_of d b \<and> page_valid d' b = page_valid d b \<and>
          pb_valid_page_cnt (nd_blocks d' b) = pb_valid_page_cnt (nd_blocks d b) \<and>
          pb_erase_count (nd_blocks d' b) = pb_erase_count (nd_blocks d b))"

lemma same_store_refl [simp]: "same_store d d"
  by (simp add: same_store_def)

lemma same_store_trans: "same_store d d' \<Longrightarrow> same_store d' d'' \<Longrightarrow> same_store d d''"
  by (simp add: same_store_def)

lemma same_store_chip:
  assumes "same_store d d'"
  shows "chip_page d' = chip_page d" and "chip_ok d' = chip_ok d"
    and "nand_get_block_state d' = nand_get_block_state d"
    and "nand_get_block_valid_page_count d' = nand_get_block_valid_page_count d"
    and "nand_get_block_erase_count d' = nand_get_block_erase_count d"
    and "nand_is_page_valid d' = nand_is_page_valid d"
proof -
  from assms have m: "nd_media d' = nd_media d" and i: "nd_is_initialized d' = nd_is_initialized d"
    and b: "block_state_of d' b = block_state_of d b" "page_valid d' b = page_valid d b"
      "pb_valid_page_cnt (nd_blocks d' b) = pb_valid_page_cnt (nd_blocks d b)"
      "pb_erase_count (nd_blocks d' b) = pb_erase_count (nd_blocks d b)" for b
    by (simp_all add: same_store_def)
  show "chip_page d' = chip_page d"
    by (rule ext)+ (simp add: chip_page_def b page_data_media [OF m])
  show "chip_ok d' = chip_ok d"
    by (simp add: chip_ok_def clean_page_def b i page_data_media [OF m] page_oob_media [OF m])
  show "nand_get_block_state d' = nand_get_block_state d"
    "nand_get_block_valid_page_count d' = nand_get_block_valid_page_count d"
    "nand_get_block_erase_count d' = nand_get_block_erase_count d"
    by (rule ext, simp add: nand_get_block_state_def nand_get_block_valid_page_count_def
        nand_get_block_erase_count_def nand_is_block_valid_def b i)+
  show "nand_is_page_valid d' = nand_is_page_valid d"
    by (rule ext)+ (simp add: nand_is_page_valid_def nand_is_block_valid_def b i)
qed

lemma page_read_fails:
  assumes "nd_is_initialized d" "on_chip b p" "chip_page d b p = None"
  shows "nand_page_read d b p True =
     (if block_state_of d b = BLOCK_BAD then RET_ERR_BAD_BLOCK else RET_ERR_NOT_MAPPED, None, d)"
  using assms by (auto simp: nand_page_read_def nand_is_block_valid_def on_chip_def chip_page_def)

lemma page_read_ok:
  assumes ok: "chip_ok d" and pg: "chip_page d b p = Some bs"
  obtains d' where "nand_page_read d b p True = (RET_OK, Some bs, d')" "same_store d d'"
proof -
  from pg have c: "on_chip b p" "block_state_of d b \<noteq> BLOCK_BAD" "page_valid d b p" "bs = page_data d b p"
    by (auto simp: chip_page_def split: if_splits)
  with ok have clean: "clean_page d b p" and i: "nd_is_initialized d" by (auto simp: chip_ok_def)
  have dec: "(if oob_magic (page_oob d b p) = NAND_OOB_MAGIC
       then (let (_, b, st) = nand_ecc_hamming_decode (nd_ecc d) (Some (page_data d b p)) NAND_PAGE_SIZE
               (oob_ecc (page_oob d b p))
             in (the b, d\<lparr>nd_ecc := st\<rparr>)) else (page_data d b p, d)) = (page_data d b p, d)"
    using clean by (simp add: clean_page_def hamming_decode_clean_page)
  show thesis
    by (rule that [of "snd (snd (nand_page_read d b p True))"])
       (use c i in \<open>simp_all add: nand_page_read_def dec block_valid_on_chip on_chip_def Let_def same_store_def\<close>)
qed

subsection \<open>Erase and marks\<close>

lemma erase_cases:
  assumes "nd_is_initialized d" "b < NAND_TOTAL_BLOCKS"
  obtains (bad) "nand_block_erase d b = (RET_ERR_BAD_BLOCK, d)" "block_state_of d b = BLOCK_BAD"
  | (worn) d' where "nand_block_erase d b = (RET_ERR_BAD_BLOCK, d')" "nd_media d' = nd_media d"
      "nd_is_initialized d'" "block_state_of d b \<noteq> BLOCK_BAD"
      "nd_blocks d' = (nd_blocks d)(b := (nd_blocks d b)\<lparr>pb_state := BLOCK_BAD, pb_bad_type := BAD_BLOCK_WEAR\<rparr>)"
  | (erased) d' where "nand_block_erase d b = (RET_OK, d')" "nd_media d' = nd_media d"
      "nd_is_initialized d'" "block_state_of d b \<noteq> BLOCK_BAD"
      "nd_blocks d' = (nd_blocks d)(b := (nd_blocks d b)\<lparr>pb_erase_count := pb_erase_count (nd_blocks d b) + 1,
         pb_valid_page_cnt := 0, pb_page_valid := (\<lambda>_. False), pb_read_count := 0, pb_state := BLOCK_FREE\<rparr>)"
proof (cases "block_state_of d b = BLOCK_BAD")
  case True
  then show ?thesis using assms bad by (simp add: nand_block_erase_def nand_is_block_valid_def)
next
  case False
  define worn where "worn \<longleftrightarrow> nand_get_erase_threshold (nd_type d) < pb_erase_count (nd_blocks d b)"
  define r where "r = (if worn then nand_rand d else (0, d))"
  have r: "nd_media (snd r) = nd_media d" "nd_is_initialized (snd r)" "nd_blocks (snd r) = nd_blocks d"
    using assms by (simp_all add: r_def nand_rand_def)
  have e: "nand_block_erase d b =
     (if worn \<and> fst r mod 100 < NAND_HIGH_WEAR_BAD_RATIO
      then (RET_ERR_BAD_BLOCK, upd_block b (\<lambda>k. k\<lparr>pb_state := BLOCK_BAD, pb_bad_type := BAD_BLOCK_WEAR\<rparr>) (snd r))
      else (RET_OK, upd_block b (\<lambda>k. k\<lparr>pb_erase_count := pb_erase_count k + 1, pb_valid_page_cnt := 0,
                    pb_page_valid := (\<lambda>_. False), pb_read_count := 0, pb_state := BLOCK_FREE\<rparr>) (snd r)
         \<lparr>nd_erase_energy := nd_erase_energy (snd r) + NAND_POWER_ERASE_PER_BLOCK\<rparr>))"
    using False assms by (simp add: nand_block_erase_def nand_is_block_valid_def r_def worn_def Let_def split: prod.split)
  show ?thesis
    by (cases "worn \<and> fst r mod 100 < NAND_HIGH_WEAR_BAD_RATIO")
       (use False r e in \<open>auto intro: worn erased\<close>)
qed

lemma erase_result:
  "nd_is_initialized d \<Longrightarrow> b < NAND_TOTAL_BLOCKS \<Longrightarrow> nand_block_erase d b = (ret, d') \<Longrightarrow>
   ret = RET_OK \<or> ret = RET_ERR_BAD_BLOCK"
  by (erule (1) erase_cases) auto

text \<open>Successful or not, an erase takes exactly the pages of its block from the store.\<close>

lemma erase_chip_page:
  assumes "nd_is_initialized d" "b < NAND_TOTAL_BLOCKS" "nand_block_erase d b = (ret, d')"
  shows "chip_page d' b' p' = (if b' = b then None else chip_page d b' p')"
  using assms(1,2)
proof (cases rule: erase_cases)
  case bad
  with assms(3) show ?thesis by (auto simp: chip_page_def)
next
  case (worn d1)
  with assms(3) have "d' = d1" by simp
  with worn(5) show ?thesis by (simp add: chip_page_def page_data_media [OF worn(2)])
next
  case (erased d1)
  with assms(3) have "d' = d1" by simp
  with erased(5) show ?thesis by (simp add: chip_page_def page_data_media [OF erased(2)])
qed

text \<open>Fewer valid pages on the same medium are still clean.\<close>

lemma chip_ok_fewer:
  assumes "chip_ok d" "nd_media d' = nd_media d" "nd_is_initialized d'"
    and "\<And>b p. on_chip b p \<Longrightarrow> block_state_of d' b \<noteq> BLOCK_BAD \<Longrightarrow> page_valid d' b p \<Longrightarrow>
           block_state_of d b \<noteq> BLOCK_BAD \<and> page_valid d b p"
  shows "chip_ok d'"
  using assms(1,3,4) by (auto simp: chip_ok_def clean_page_def page_data_media [OF assms(2)] page_oob_media [OF assms(2)])

lemma erase_chip_ok:
  assumes "chip_ok d" "b < NAND_TOTAL_BLOCKS" "nand_block_erase d b = (ret, d')"
  shows "chip_ok d'"
  using chip_ok_initialized [OF assms(1)] assms(2)
proof (cases rule: erase_cases)
  case bad
  with assms show ?thesis by simp
next
  case (worn d1)
  with assms show ?thesis by (auto intro!: chip_ok_fewer [OF assms(1)] split: if_splits)
next
  case (erased d1)
  with assms show ?thesis by (auto intro!: chip_ok_fewer [OF assms(1)] split: if_splits)
qed

lemma mark_invalid_eq:
  assumes "nd_is_initialized d" "on_chip b p"
  shows "nand_mark_page_invalid d b p =
     (if block_state_of d b = BLOCK_BAD then (RET_ERR_BAD_BLOCK, d)
      else if \<not> page_valid d b p then (RET_ERR_NOT_MAPPED, d)
      else (RET_OK, d\<lparr>nd_blocks := (nd_blocks d)(b := (nd_blocks d b)
         \<lparr>pb_page_valid := (pb_page_valid (nd_blocks d b))(p := False),
          pb_valid_page_cnt := pb_valid_page_cnt (nd_blocks d b) - 1,
          pb_state := (if pb_valid_page_cnt (nd_blocks d b) = 1 then BLOCK_FREE else block_state_of d b)\<rparr>)\<rparr>))"
  using assms by (auto simp: nand_mark_page_invalid_def nand_is_block_valid_def on_chip_def Let_def fun_eq_iff)

lemma mark_invalid_chip:
  assumes "chip_ok d" "on_chip b p" "nand_mark_page_invalid d b p = (ret, d')"
  shows "chip_page d' b' p' = (if (b', p') = (b, p) then None else chip_page d b' p')" and "chip_ok d'"
proof -
  note e = mark_invalid_eq [OF chip_ok_initialized [OF assms(1)] assms(2)]
  show "chip_page d' b' p' = (if (b', p') = (b, p) then None else chip_page d b' p')"
  proof -
    from assms(3) have m: "nd_media d' = nd_media d" unfolding e by (auto split: if_splits)
    show ?thesis
      using assms(3) unfolding e by (auto simp: chip_page_def page_data_media [OF m] split: if_splits)
  qed
  show "chip_ok d'"
    using assms(3) chip_ok_initialized [OF assms(1)] unfolding e
    by (auto intro!: chip_ok_fewer [OF assms(1)] assms(1) split: if_splits)
qed

lemma mark_cold_chip:
  assumes "nand_mark_cold_block d b = (ret, d')"
  shows "chip_page d' = chip_page d" and "chip_ok d \<Longrightarrow> chip_ok d'"
    and "nand_get_block_state d' = nand_get_block_state d"
    and "nd_is_initialized d' = nd_is_initialized d"
proof -
  from assms have m: "nd_media d' = nd_media d" and i: "nd_is_initialized d' = nd_is_initialized d"
    and b: "block_state_of d' b' = block_state_of d b'" "page_valid d' b' = page_valid d b'" for b'
    by (auto simp: nand_mark_cold_block_def split: if_splits)
  show "chip_page d' = chip_page d"
    by (rule ext)+ (simp add: chip_page_def b page_data_media [OF m])
  show "chip_ok d \<Longrightarrow> chip_ok d'"
    by (simp add: chip_ok_def clean_page_def b i page_data_media [OF m] page_oob_media [OF m])
  show "nand_get_block_state d' = nand_get_block_state d"
    by (rule ext) (simp add: nand_get_block_state_def nand_is_block_valid_def b i)
  show "nd_is_initialized d' = nd_is_initialized d" by (rule i)
qed

text \<open>Marking a block bad overwrites the out-of-band record of its first page only.\<close>

lemma mark_bad_facts:
  assumes i: "nd_is_initialized d" and b: "b < NAND_TOTAL_BLOCKS" and e: "nand_mark_block_bad d b t = (ret, d')"
  shows "ret = RET_OK" "nd_is_initialized d'"
    and "nd_blocks d' = (nd_blocks d)(b := (nd_blocks d b)\<lparr>pb_state := BLOCK_BAD, pb_bad_type := t,
           pb_valid_page_cnt := 0, pb_page_valid := (\<lambda>_. False)\<rparr>)"
    and "on_chip b' p' \<Longrightarrow> page_data d' b' p' = page_data d b' p'"
    and "on_chip b' p' \<Longrightarrow> b' \<noteq> b \<Longrightarrow> page_oob d' b' p' = page_oob d b' p'"
proof -
  define bs where "bs = oob_bytes (zero_oob\<lparr>oob_magic := NAND_OOB_MAGIC, oob_bad_block_mark := 0\<rparr>)"
  have len: "length bs = NAND_OOB_SIZE" by (simp add: bs_def length_oob_bytes zero_oob_def)
  have eq: "nd_blocks d' = (nd_blocks d)(b := (nd_blocks d b)\<lparr>pb_state := BLOCK_BAD, pb_bad_type := t,
           pb_valid_page_cnt := 0, pb_page_valid := (\<lambda>_. False)\<rparr>) \<and> ret = RET_OK \<and> nd_is_initialized d' \<and>
      (nd_media d' = nd_media d \<or> nd_media d' = mem_write (nd_media d) (nand_calc_oob_offset b 0) bs)"
    using e i b by (auto simp: nand_mark_block_bad_def nand_is_block_valid_def Let_def media_put_def bs_def split: if_splits)
  then show "ret = RET_OK" "nd_is_initialized d'"
    "nd_blocks d' = (nd_blocks d)(b := (nd_blocks d b)\<lparr>pb_state := BLOCK_BAD, pb_bad_type := t,
           pb_valid_page_cnt := 0, pb_page_valid := (\<lambda>_. False)\<rparr>)" by simp_all
  have z: "(0::nat) < NAND_PAGES_PER_BLOCK" by (simp add: NAND_PAGES_PER_BLOCK_def)
  assume p': "on_chip b' p'"
  show "page_data d' b' p' = page_data d b' p'"
  proof (cases "(b', p') = (b, 0)")
    case True
    then show ?thesis using eq len
      by (auto simp: page_data_def mem_read_write_disjoint nand_calc_oob_offset_def)
  next
    case False
    with page_frames_disjoint [OF z, of p' b b'] p' eq len show ?thesis
      by (auto simp: page_data_def mem_read_write_disjoint nand_calc_oob_offset_def on_chip_def)
  qed
  show "page_oob d' b' p' = page_oob d b' p'" if "b' \<noteq> b"
    using page_frames_disjoint [OF z, of p' b b'] p' eq len that
    by (auto simp: page_oob_def mem_read_write_disjoint nand_calc_oob_offset_def on_chip_def)
qed

lemma mark_bad_chip:
  assumes "chip_ok d" "b < NAND_TOTAL_BLOCKS" "nand_mark_block_bad d b t = (ret, d')"
  shows "chip_page d' b' p' = (if b' = b then None else chip_page d b' p')" and "chip_ok d'"
proof -
  note f = mark_bad_facts [OF chip_ok_initialized [OF assms(1)] assms(2,3)]
  show "chip_page d' b' p' = (if b' = b then None else chip_page d b' p')"
    using f(4) [of b' p'] by (auto simp: chip_page_def f(3))
  show "chip_ok d'"
    using assms(1) f(2,4,5) by (auto simp: chip_ok_def clean_page_def f(3) split: if_splits)
qed

section \<open>Accounting of valid pages\<close>

definition valid_pages :: "phy_block \<Rightarrow> nat set" where
  "valid_pages k = {p. p < NAND_PAGES_PER_BLOCK \<and> pb_page_valid k p}"

text \<open>
  A block that is not bad counts its valid pages correctly and is free exactly when it has none.
\<close>

definition block_acct :: "phy_block \<Rightarrow> bool" where
  "block_acct k \<longleftrightarrow> (pb_state k \<noteq> BLOCK_BAD \<longrightarrow>
     pb_valid_page_cnt k = of_nat (card (valid_pages k)) \<and> (pb_state k = BLOCK_FREE \<longleftrightarrow> valid_pages k = {}))"

definition chip_acct :: "nand_dev \<Rightarrow> bool" where
  "chip_acct d \<longleftrightarrow> (\<forall>b<NAND_TOTAL_BLOCKS. block_acct (nd_blocks d b))"

text \<open>The same for all blocks outside of a set.\<close>

definition chip_acct_but :: "nat set \<Rightarrow> nand_dev \<Rightarrow> bool" where
  "chip_acct_but C d \<longleftrightarrow> (\<forall>b<NAND_TOTAL_BLOCKS. b \<notin> C \<longrightarrow> block_acct (nd_blocks d b))"

lemma chip_acct_but_empty: "chip_acct_but {} d = chip_acct d"
  by (simp add: chip_acct_but_def chip_acct_def)

text \<open>The part of it that survives a cold mark: free blocks hold no valid page.\<close>

definition free_clear :: "nand_dev \<Rightarrow> bool" where
  "free_clear d \<longleftrightarrow> (\<forall>b p. on_chip b p \<and> block_state_of d b = BLOCK_FREE \<longrightarrow> \<not> page_valid d b p)"

lemma finite_valid_pages [simp]: "finite (valid_pages k)"
  by (simp add: valid_pages_def)

lemma card_valid_pages: "card (valid_pages k) \<le> 256"
proof -
  have "card (valid_pages k) \<le> card {..<NAND_PAGES_PER_BLOCK}"
    by (rule card_mono) (auto simp: valid_pages_def)
  then show ?thesis by (simp add: NAND_PAGES_PER_BLOCK_def)
qed

lemma unat_valid_count [simp]: "unat (of_nat (card (valid_pages k)) :: u32) = card (valid_pages k)"
  using card_valid_pages [of k] by (simp add: unsigned_of_nat take_bit_nat_eq_self)

lemma chip_acct_free_clear: "chip_acct d \<Longrightarrow> free_clear d"
  by (fastforce simp: chip_acct_def free_clear_def block_acct_def on_chip_def valid_pages_def)

lemma block_acct_bad [simp]: "pb_state k = BLOCK_BAD \<Longrightarrow> block_acct k"
  by (simp add: block_acct_def)

lemma block_acct_write:
  assumes "block_acct k" "p < NAND_PAGES_PER_BLOCK" "\<not> pb_page_valid k p" "pb_state k \<noteq> BLOCK_BAD"
  shows "block_acct (k\<lparr>pb_page_valid := (pb_page_valid k)(p := True),
      pb_valid_page_cnt := pb_valid_page_cnt k + 1, pb_state := BLOCK_USED\<rparr>)"
proof -
  define k' where "k' = k\<lparr>pb_page_valid := (pb_page_valid k)(p := True),
      pb_valid_page_cnt := pb_valid_page_cnt k + 1, pb_state := BLOCK_USED\<rparr>"
  have v: "valid_pages k' = insert p (valid_pages k)" "p \<notin> valid_pages k"
    using assms(2,3) by (auto simp: valid_pages_def k'_def)
  then have "card (valid_pages k') = Suc (card (valid_pages k))" by simp
  with v assms(1,4) have "block_acct k'" by (simp add: block_acct_def k'_def)
  then show ?thesis by (simp add: k'_def)
qed

lemma block_acct_invalidate:
  assumes "block_acct k" "p < NAND_PAGES_PER_BLOCK" "pb_page_valid k p" "pb_state k \<noteq> BLOCK_BAD"
  shows "block_acct (k\<lparr>pb_page_valid := (pb_page_valid k)(p := False),
      pb_valid_page_cnt := pb_valid_page_cnt k - 1,
      pb_state := (if pb_valid_page_cnt k = 1 then BLOCK_FREE else pb_state k)\<rparr>)"
proof -
  define k' where "k' = k\<lparr>pb_page_valid := (pb_page_valid k)(p := False),
      pb_valid_page_cnt := pb_valid_page_cnt k - 1,
      pb_state := (if pb_valid_page_cnt k = 1 then BLOCK_FREE else pb_state k)\<rparr>"
  have v: "valid_pages k = insert p (valid_pages k')" "p \<notin> valid_pages k'"
    using assms(2,3) by (auto simp: valid_pages_def k'_def)
  have card: "card (valid_pages k) = Suc (card (valid_pages k'))"
    unfolding v(1) using v(2) by (simp del: v)
  have cnt: "pb_valid_page_cnt k = of_nat (card (valid_pages k))"
    using assms(1,4) by (simp add: block_acct_def)
  have "pb_valid_page_cnt k = 1 \<longleftrightarrow> unat (pb_valid_page_cnt k) = unat (1 :: u32)"
    by (simp only: word_unat_eq_iff)
  also have "\<dots> \<longleftrightarrow> card (valid_pages k) = 1" unfolding cnt unat_valid_count by simp
  finally have one: "pb_valid_page_cnt k = 1 \<longleftrightarrow> valid_pages k' = {}" by (simp add: card)
  have used: "pb_state k \<noteq> BLOCK_FREE" using assms(1,4) v(1) by (auto simp: block_acct_def)
  have "pb_valid_page_cnt k' = pb_valid_page_cnt k - 1" by (simp add: k'_def)
  also have "\<dots> = of_nat (card (valid_pages k'))" unfolding cnt card by simp
  finally have "pb_valid_page_cnt k' = of_nat (card (valid_pages k'))" .
  moreover have "pb_state k' = BLOCK_FREE \<longleftrightarrow> valid_pages k' = {}"
    using one used by (simp add: k'_def)
  ultimately have "block_acct k'" by (simp add: block_acct_def)
  then show ?thesis by (simp add: k'_def)
qed

lemma chip_acct_but_update:
  assumes "chip_acct_but C d" "nd_blocks d' = (nd_blocks d)(b := k)" "block_acct (nd_blocks d b) \<Longrightarrow> block_acct k"
  shows "chip_acct_but C d'"
  using assms by (simp add: chip_acct_but_def)

lemma chip_acct_but_write:
  assumes "chip_acct_but C d" "nand_page_write d b p (Some bs) = (ret, d')" "length bs = NAND_PAGE_SIZE"
  shows "chip_acct_but C d'"
proof (cases "ret = RET_OK")
  case True
  note w = assms(2) [unfolded True]
  show ?thesis
    using assms(1) page_write_blocks(1) [OF w assms(3)]
  proof (rule chip_acct_but_update)
    show "block_acct (nd_blocks d b) \<Longrightarrow> block_acct ((nd_blocks d b)
      \<lparr>pb_page_valid := (pb_page_valid (nd_blocks d b))(p := True),
       pb_valid_page_cnt := pb_valid_page_cnt (nd_blocks d b) + 1, pb_state := BLOCK_USED\<rparr>)"
      using page_write_okD(1,3,4) [OF w assms(3)] by (intro block_acct_write) (simp_all add: on_chip_def)
  qed
next
  case False
  with page_write_failed [OF assms(3,2)] assms(1) show ?thesis by simp
qed

lemma chip_acct_but_erase:
  assumes "chip_acct_but C d" "nd_is_initialized d" "b < NAND_TOTAL_BLOCKS" "nand_block_erase d b = (ret, d')"
  shows "chip_acct_but C d'"
  using assms(2,3)
proof (cases rule: erase_cases)
  case bad
  with assms show ?thesis by simp
next
  case (worn d1)
  with assms(4) have "d' = d1" by simp
  then show ?thesis using chip_acct_but_update [OF assms(1) worn(5)] by simp
next
  case (erased d1)
  with assms(4) have "d' = d1" by simp
  then show ?thesis using chip_acct_but_update [OF assms(1) erased(5)] by (simp add: block_acct_def valid_pages_def)
qed

lemma chip_acct_but_mark_invalid:
  assumes "chip_acct_but C d" "nd_is_initialized d" "on_chip b p" "nand_mark_page_invalid d b p = (ret, d')"
  shows "chip_acct_but C d'"
proof -
  have k: "p < NAND_PAGES_PER_BLOCK" using assms(3) by (simp add: on_chip_def)
  consider "d' = d" | "page_valid d b p" "block_state_of d b \<noteq> BLOCK_BAD"
    "nd_blocks d' = (nd_blocks d)(b := (nd_blocks d b)
         \<lparr>pb_page_valid := (pb_page_valid (nd_blocks d b))(p := False),
          pb_valid_page_cnt := pb_valid_page_cnt (nd_blocks d b) - 1,
          pb_state := (if pb_valid_page_cnt (nd_blocks d b) = 1 then BLOCK_FREE else block_state_of d b)\<rparr>)"
    using assms(4) unfolding mark_invalid_eq [OF assms(2,3)] by (auto split: if_splits simp del: fun_upd_apply)
  then show ?thesis
  proof cases
    case 2
    from chip_acct_but_update [OF assms(1) 2(3)] block_acct_invalidate [OF _ k 2(1,2)] show ?thesis by blast
  qed (use assms(1) in simp)
qed

lemma chip_acct_but_mark_bad:
  assumes "chip_acct_but C d" "nd_is_initialized d" "b < NAND_TOTAL_BLOCKS" "nand_mark_block_bad d b t = (ret, d')"
  shows "chip_acct_but C d'"
  using chip_acct_but_update [OF assms(1) mark_bad_facts(3) [OF assms(2-4)]] by simp

lemmas chip_acct_write = chip_acct_but_write [where C = "{}", simplified chip_acct_but_empty]
lemmas chip_acct_erase = chip_acct_but_erase [where C = "{}", simplified chip_acct_but_empty]
lemmas chip_acct_mark_invalid = chip_acct_but_mark_invalid [where C = "{}", simplified chip_acct_but_empty]
lemmas chip_acct_mark_bad = chip_acct_but_mark_bad [where C = "{}", simplified chip_acct_but_empty]

lemma chip_acct_same_store:
  assumes "same_store d d'"
  shows "chip_acct d' = chip_acct d" and "free_clear d' = free_clear d"
proof -
  have "block_acct (nd_blocks d' b) = block_acct (nd_blocks d b)" for b
    using assms by (simp add: same_store_def block_acct_def valid_pages_def)
  then show "chip_acct d' = chip_acct d" by (simp add: chip_acct_def)
  show "free_clear d' = free_clear d"
    using assms by (simp add: same_store_def free_clear_def)
qed

text \<open>The same operations keep free blocks clear, without the counts.\<close>

lemma free_clear_write:
  assumes "free_clear d" "nand_page_write d b p (Some bs) = (ret, d')" "length bs = NAND_PAGE_SIZE"
  shows "free_clear d'"
proof (cases "ret = RET_OK")
  case True
  show ?thesis
    using assms(1) by (auto simp: free_clear_def page_write_blocks [OF assms(2) [unfolded True] assms(3)])
next
  case False
  with page_write_failed [OF assms(3,2)] assms(1) show ?thesis by simp
qed

lemma free_clear_erase:
  assumes "free_clear d" "nd_is_initialized d" "b < NAND_TOTAL_BLOCKS" "nand_block_erase d b = (ret, d')"
  shows "free_clear d'"
  using assms(2,3)
proof (cases rule: erase_cases)
  case bad
  with assms show ?thesis by simp
next
  case (worn d1)
  with assms(4) have "d' = d1" by simp
  with assms(1) worn(5) show ?thesis by (simp add: free_clear_def)
next
  case (erased d1)
  with assms(4) have "d' = d1" by simp
  with assms(1) erased(5) show ?thesis by (simp add: free_clear_def)
qed

lemma free_clear_mark_bad:
  assumes "free_clear d" "nd_is_initialized d" "b < NAND_TOTAL_BLOCKS" "nand_mark_block_bad d b t = (ret, d')"
  shows "free_clear d'"
  using assms(1) mark_bad_facts(3) [OF assms(2-4)] by (simp add: free_clear_def)

section \<open>Moving the pages of a block to its replacement\<close>

lemma chip_page_length: "chip_page d b p = Some bs \<Longrightarrow> length bs = NAND_PAGE_SIZE"
  by (auto simp: chip_page_def page_data_def split: if_splits)

lemma chip_page_bad: "block_state_of d b = BLOCK_BAD \<Longrightarrow> chip_page d b p = None"
  by (simp add: chip_page_def)

lemma chip_page_beyond: "NAND_PAGES_PER_BLOCK \<le> p \<Longrightarrow> chip_page d b p = None"
  by (simp add: chip_page_def on_chip_def)

text \<open>What has to hold of the blocks for the next page to be moved, and what one move does.\<close>

definition moving :: "nat \<Rightarrow> nat \<Rightarrow> nat \<Rightarrow> nand_dev \<Rightarrow> bool" where
  "moving b nb n d \<longleftrightarrow> chip_ok d \<and> block_state_of d nb \<noteq> BLOCK_BAD \<and>
     (\<forall>p<NAND_PAGES_PER_BLOCK. n \<le> p \<longrightarrow> \<not> page_valid d nb p)"

lemma replace_move_page_step:
  assumes mv: "moving b nb p d" and b: "on_chip b p" "on_chip nb p" "nb \<noteq> b"
  defines "d' \<equiv> replace_move_page b nb p d"
  shows "moving b nb (Suc p) d'"
    and "chip_page d' b' p' = (if (b', p') = (nb, p) then chip_page d b p else chip_page d b' p')"
    and "block_state_of d' b = block_state_of d b" "free_clear d \<Longrightarrow> free_clear d'" "chip_acct d \<Longrightarrow> chip_acct d'"
proof -
  from mv have ok: "chip_ok d" and i: "nd_is_initialized d" by (simp_all add: moving_def chip_ok_initialized)
  have nb: "block_state_of d nb \<noteq> BLOCK_BAD" "\<not> page_valid d nb p" "chip_page d nb p = None"
    using mv b(2) by (simp_all add: moving_def on_chip_def chip_page_def)
  have "moving b nb (Suc p) d' \<and>
      (\<forall>b' p'. chip_page d' b' p' = (if (b', p') = (nb, p) then chip_page d b p else chip_page d b' p')) \<and>
      block_state_of d' b = block_state_of d b \<and> (free_clear d \<longrightarrow> free_clear d') \<and> (chip_acct d \<longrightarrow> chip_acct d')"
  proof (cases "chip_page d b p")
    case None
    then have "d' = d"
      using page_read_fails [OF i b(1) None] b(1)
      by (auto simp: d'_def replace_move_page_def chip_page_def)
    with mv nb None show ?thesis by (simp add: moving_def)
  next
    case (Some bs)
    from page_read_ok [OF ok Some] obtain d1
      where d1: "nand_page_read d b p True = (RET_OK, Some bs, d1)" "same_store d d1" .
    note same = same_store_chip [OF d1(2)]
    have len: "length bs = NAND_PAGE_SIZE" by (rule chip_page_length [OF Some])
    have "block_state_of d1 nb \<noteq> BLOCK_BAD" "\<not> page_valid d1 nb p" "nd_is_initialized d1"
      using d1(2) nb i by (simp_all add: same_store_def)
    from page_write_succeeds [OF len this(3) b(2) this(1,2)]
    obtain d2 where d2: "nand_page_write d1 nb p (Some bs) = (RET_OK, d2)" ..
    have d': "d' = d2"
      using Some by (simp add: d'_def replace_move_page_def d1(1) d2 chip_page_def split: if_splits)
    note w = page_write_blocks(1) [OF d2 len]
    have "chip_ok d1" "free_clear d1 = free_clear d" "chip_acct d1 = chip_acct d"
      using ok same(2) chip_acct_same_store [OF d1(2)] by simp_all
    with page_write_chip_ok [OF _ d2 len] chip_acct_write [OF _ d2 len] free_clear_write [OF _ d2 len]
    have "chip_ok d2" "free_clear d \<longrightarrow> free_clear d2" "chip_acct d \<longrightarrow> chip_acct d2" by simp_all
    moreover have "moving b nb (Suc p) d2"
      using mv d1(2) \<open>chip_ok d2\<close> by (auto simp: moving_def w same_store_def)
    moreover have "block_state_of d2 b = block_state_of d b"
      using b(3) d1(2) by (simp add: w same_store_def)
    ultimately show ?thesis
      unfolding d' using Some page_write_chip_page [OF d2 len] by (simp add: same(1))
  qed
  then show "moving b nb (Suc p) d'" "chip_page d' b' p' = (if (b', p') = (nb, p) then chip_page d b p else chip_page d b' p')"
    "block_state_of d' b = block_state_of d b" "free_clear d \<Longrightarrow> free_clear d'" "chip_acct d \<Longrightarrow> chip_acct d'"
    by blast+
qed

lemma replace_moves:
  assumes "moving b nb 0 d" "b < NAND_TOTAL_BLOCKS" "nb < NAND_TOTAL_BLOCKS" "nb \<noteq> b" "n \<le> NAND_PAGES_PER_BLOCK"
  defines "d' \<equiv> fold (replace_move_page b nb) [0..<n] d"
  shows "moving b nb n d' \<and> (\<forall>b' p'. chip_page d' b' p' = (if b' = nb \<and> p' < n then chip_page d b p' else chip_page d b' p')) \<and>
      block_state_of d' b = block_state_of d b \<and> (free_clear d \<longrightarrow> free_clear d') \<and> (chip_acct d \<longrightarrow> chip_acct d')"
  using assms(5) unfolding d'_def
proof (induction n)
  case (Suc n)
  then have n: "on_chip b n" "on_chip nb n" using assms(2,3) by (simp_all add: on_chip_def)
  from Suc have IH: "moving b nb n (fold (replace_move_page b nb) [0..<n] d)" by simp
  note step = replace_move_page_step [OF IH n assms(4)]
  show ?case
    using Suc step assms(4) by (auto simp: less_Suc_eq)
qed (use assms(1) in simp)

lemma find_upt_earlier:
  assumes "find P [m..<n] = Some k" "m \<le> i" "i < k"
  shows "\<not> P i"
proof
  assume "P i"
  from assms(1) obtain j where j: "j < n - m" "k = m + j" "\<forall>j'<j. \<not> P (m + j')"
    by (auto simp: find_Some_iff)
  from j(2) assms(2,3) have "i - m < j" by linarith
  with j(3) have "\<not> P (m + (i - m))" by blast
  with assms(2) \<open>P i\<close> show False by simp
qed

lemma alloc_reserved_facts:
  assumes "nand_alloc_reserved_block d True = (RET_OK, Some nb, d')"
  shows "nb < NAND_TOTAL_BLOCKS" "NAND_TOTAL_BLOCKS - NAND_RESERVED_BLOCKS \<le> nb" "block_state_of d nb = BLOCK_FREE"
    and "\<And>i. NAND_TOTAL_BLOCKS - NAND_RESERVED_BLOCKS \<le> i \<Longrightarrow> i < nb \<Longrightarrow> block_state_of d i \<noteq> BLOCK_FREE"
    and "same_store d d'"
proof -
  from assms obtain "find (\<lambda>i. block_state_of d i = BLOCK_FREE)
      [NAND_TOTAL_BLOCKS - NAND_RESERVED_BLOCKS..<NAND_TOTAL_BLOCKS] = Some nb"
    and d': "d' = d\<lparr>nd_reserved_count := nd_reserved_count d - 1\<rparr>"
    by (auto simp: nand_alloc_reserved_block_def split: if_splits option.splits)
  from this(1) show "nb < NAND_TOTAL_BLOCKS" "NAND_TOTAL_BLOCKS - NAND_RESERVED_BLOCKS \<le> nb"
    "block_state_of d nb = BLOCK_FREE"
    by (auto dest!: find_SomeD simp del: upt_Suc)
  show "block_state_of d i \<noteq> BLOCK_FREE" if "NAND_TOTAL_BLOCKS - NAND_RESERVED_BLOCKS \<le> i" "i < nb" for i
    using \<open>find _ _ = _\<close> that by (rule find_upt_earlier)
  show "same_store d d'" by (simp add: d' same_store_def)
qed

lemma alloc_reserved_failed:
  "nand_alloc_reserved_block d True = (ret, nb, d') \<Longrightarrow> ret \<noteq> RET_OK \<or> nb = None \<Longrightarrow> d' = d \<and> ret \<noteq> RET_OK"
  by (auto simp: nand_alloc_reserved_block_def split: if_splits option.splits)

lemma replace_bad_block_facts:
  assumes ok: "chip_ok d" and free: "free_clear d"
    and r: "nand_replace_bad_block d b True = (RET_OK, Some nb, d')"
  shows "b < NAND_TOTAL_BLOCKS" "nb < NAND_TOTAL_BLOCKS" "nb \<noteq> b" "block_state_of d nb = BLOCK_FREE"
    and "chip_page d' b' p' = (if b' = b then None else if b' = nb then chip_page d b p' else chip_page d b' p')"
    and "chip_ok d'" "free_clear d'" "chip_acct d \<Longrightarrow> chip_acct d'"
    and "NAND_TOTAL_BLOCKS - NAND_RESERVED_BLOCKS \<le> nb" "block_state_of d' b = BLOCK_BAD"
    and "\<And>i. NAND_TOTAL_BLOCKS - NAND_RESERVED_BLOCKS \<le> i \<Longrightarrow> i < nb \<Longrightarrow> block_state_of d i \<noteq> BLOCK_FREE"
proof -
  from r have b: "b < NAND_TOTAL_BLOCKS" "block_state_of d b \<noteq> BLOCK_FREE"
    by (auto simp: nand_replace_bad_block_def split: if_splits)
  with r obtain d1 where d1: "nand_alloc_reserved_block d True = (RET_OK, Some nb, d1)"
    by (auto simp: nand_replace_bad_block_def Let_def split: if_splits prod.splits ret_code.splits option.splits)
  note a = alloc_reserved_facts [OF d1]
  define d2 where "d2 = fold (replace_move_page b nb) [0..<NAND_PAGES_PER_BLOCK] d1"
  have d': "d' = (if block_state_of d2 b \<noteq> BLOCK_BAD then snd (nand_mark_block_bad d2 b BAD_BLOCK_WEAR) else d2)"
    using r d1 b chip_ok_initialized [OF ok] by (auto simp: nand_replace_bad_block_def d2_def Let_def)
  have nb: "nb \<noteq> b" using a(3) b(2) by auto
  note same = same_store_chip [OF a(5)] chip_acct_same_store [OF a(5)]
  have mv: "moving b nb 0 d1"
    using a(1,3,5) free ok by (auto simp: moving_def same same_store_def free_clear_def on_chip_def)
  from replace_moves [OF mv b(1) a(1) nb order.refl]
  have m: "chip_ok d2" "chip_page d2 b' p' = (if b' = nb \<and> p' < NAND_PAGES_PER_BLOCK then chip_page d1 b p' else chip_page d1 b' p')"
    "block_state_of d2 b = block_state_of d1 b" "free_clear d1 \<longrightarrow> free_clear d2" "chip_acct d1 \<longrightarrow> chip_acct d2" for b' p'
    by (simp_all add: d2_def moving_def)
  have m2: "chip_page d2 b' p' = (if b' = nb then chip_page d b p' else chip_page d b' p')" for b' p'
    by (cases "p' < NAND_PAGES_PER_BLOCK") (simp_all add: m(2) same(1) chip_page_beyond)
  show "b < NAND_TOTAL_BLOCKS" "nb < NAND_TOTAL_BLOCKS" "nb \<noteq> b" "block_state_of d nb = BLOCK_FREE"
    using b a nb by simp_all
  show "NAND_TOTAL_BLOCKS - NAND_RESERVED_BLOCKS \<le> nb" by (rule a(2))
  show "block_state_of d i \<noteq> BLOCK_FREE" if "NAND_TOTAL_BLOCKS - NAND_RESERVED_BLOCKS \<le> i" "i < nb" for i
    using that by (rule a(4))
  obtain ret d3 where d3: "nand_mark_block_bad d2 b BAD_BLOCK_WEAR = (ret, d3)" by (metis prod.exhaust)
  note bad = mark_bad_chip [OF m(1) b(1) d3] chip_acct_mark_bad [OF _ chip_ok_initialized [OF m(1)] b(1) d3]
    free_clear_mark_bad [OF _ chip_ok_initialized [OF m(1)] b(1) d3]
  show "block_state_of d' b = BLOCK_BAD"
    using mark_bad_facts(3) [OF chip_ok_initialized [OF m(1)] b(1) d3] by (simp add: d' d3)
  show "chip_page d' b' p' = (if b' = b then None else if b' = nb then chip_page d b p' else chip_page d b' p')"
    using nb bad(1) m2 chip_page_bad [of d2 b p'] by (auto simp: d' d3)
  show "chip_ok d'" using bad(2) m(1) by (simp add: d' d3)
  show "free_clear d'" using bad(4) m(4) free same by (simp add: d' d3)
  show "chip_acct d \<Longrightarrow> chip_acct d'" using bad(3) m(5) same by (simp add: d' d3)
qed

lemma replace_bad_block_failed:
  "nand_replace_bad_block d b True = (ret, nb, d') \<Longrightarrow> ret \<noteq> RET_OK \<Longrightarrow> d' = d"
  by (auto simp: nand_replace_bad_block_def Let_def dest: alloc_reserved_failed
      split: if_splits prod.splits ret_code.splits option.splits)

lemma replace_bad_block_Some:
  "nand_replace_bad_block d b True = (RET_OK, nb, d') \<Longrightarrow> nb \<noteq> None"
  by (auto simp: nand_replace_bad_block_def Let_def split: if_splits prod.splits ret_code.splits option.splits)

section \<open>The chip implements a page store\<close>

definition chip_wr :: "nand_dev \<Rightarrow> nat \<times> nat \<Rightarrow> u8 list \<Rightarrow> nand_dev option" where
  "chip_wr d k bs =
     (if length bs \<noteq> NAND_PAGE_SIZE then None
      else (case nand_page_write d (fst k) (snd k) (Some bs) of
              (ret, d') \<Rightarrow> if ret = RET_OK then Some d' else None))"

definition chip_rd :: "nand_dev \<Rightarrow> nat \<times> nat \<Rightarrow> u8 list option" where
  "chip_rd d k = (case nand_page_read d (fst k) (snd k) True of (ret, buf, _) \<Rightarrow> if ret = RET_OK then buf else None)"

lemma chip_wr_SomeD:
  "chip_wr d k bs = Some d' \<Longrightarrow> length bs = NAND_PAGE_SIZE \<and> nand_page_write d (fst k) (snd k) (Some bs) = (RET_OK, d')"
  by (auto simp: chip_wr_def split: if_splits prod.splits)

lemma chip_rd_page: "chip_ok d \<Longrightarrow> chip_rd d k = chip_page d (fst k) (snd k)"
proof (cases "chip_page d (fst k) (snd k)")
  case None
  assume "chip_ok d"
  then have i: "nd_is_initialized d" by (rule chip_ok_initialized)
  show ?thesis
  proof (cases "on_chip (fst k) (snd k)")
    case True
    with None page_read_fails [OF i True None] show ?thesis by (simp add: chip_rd_def)
  next
    case False
    with None i show ?thesis
      by (auto simp: chip_rd_def nand_page_read_def nand_is_block_valid_def on_chip_def)
  qed
next
  case (Some bs)
  assume "chip_ok d"
  from page_read_ok [OF this Some] obtain d' where "nand_page_read d (fst k) (snd k) True = (RET_OK, Some bs, d')" .
  with Some show ?thesis by (simp add: chip_rd_def)
qed

interpretation chip: page_store chip_wr chip_rd chip_ok
proof
  fix d d' :: nand_dev and k k' bs
  assume ok: "chip_ok d" and "chip_wr d k bs = Some d'"
  then have w: "nand_page_write d (fst k) (snd k) (Some bs) = (RET_OK, d')" "length bs = NAND_PAGE_SIZE"
    by (auto dest: chip_wr_SomeD)
  note ok' = page_write_chip_ok [OF ok w]
  show "chip_ok d'" by (rule ok')
  show "chip_rd d' k = Some bs"
    by (simp add: chip_rd_page [OF ok'] page_write_chip_page [OF w])
  show "chip_rd d' k' = chip_rd d k'" if "k' \<noteq> k"
    using that by (cases k; cases k') (auto simp: chip_rd_page [OF ok'] chip_rd_page [OF ok] page_write_chip_page [OF w])
qed

section \<open>An empty chip\<close>

definition empty_chip :: nand_dev where
  "empty_chip = \<lparr>nd_blocks = (\<lambda>_. zero_block), nd_file = Open_file, nd_media = (\<lambda>_. 0),
     nd_media_size = NAND_MEDIA_SIZE, nd_is_initialized = True, nd_is_new_media = True, nd_total_read_pages = 0,
     nd_total_write_pages = 0, nd_reserved_count = 8, nd_read_disturb_count = 0, nd_read_disturb_moved = 0,
     nd_crc_error_count = 0, nd_ecc = \<lparr>ecc_corrected_count = 0, ecc_uncorrectable_count = 0\<rparr>,
     nd_ecc_algo = ECC_ALGO_HAMMING, nd_type = NAND_TYPE_TLC, nd_read_energy = 0, nd_write_energy = 0,
     nd_erase_energy = 0, nd_rand = (\<lambda>_. 99)\<rparr>"

lemma empty_chip_ok: "chip_ok empty_chip"
  by (simp add: chip_ok_def empty_chip_def zero_block_def)

lemma empty_chip_acct: "chip_acct empty_chip"
  by (simp add: chip_acct_def block_acct_def empty_chip_def zero_block_def valid_pages_def)

lemma empty_chip_write:
  assumes "on_chip b p"
  shows "\<exists>d. nand_page_write empty_chip b p (Some (replicate NAND_PAGE_SIZE v)) = (RET_OK, d)"
  using page_write_succeeds [OF length_replicate _ assms, of empty_chip]
  by (simp add: empty_chip_def zero_block_def)

section \<open>Properties\<close>

text \<open>C35: a page write either fails and changes nothing, or stores exactly its page, which was not
  readable before, and keeps the chip consistent.\<close>

lemma page_write_stores:
  assumes "chip_ok d" "length bs = NAND_PAGE_SIZE"
  shows "case nand_page_write d b p (Some bs) of (ret, d') \<Rightarrow>
     chip_ok d' \<and>
     (if ret = RET_OK then chip_page d b p = None \<and>
        (\<forall>b' p'. chip_page d' b' p' = (if (b', p') = (b, p) then Some bs else chip_page d b' p'))
      else d' = d)"
proof -
  obtain ret d' where w: "nand_page_write d b p (Some bs) = (ret, d')" by (metis prod.exhaust)
  show ?thesis
    using page_write_chip_ok [OF assms(1) w assms(2)] page_write_failed [OF assms(2) w] w
      page_write_free [OF _ assms(2)] page_write_chip_page [OF _ assms(2)]
    by (cases "ret = RET_OK") simp_all
qed

lemma page_write_stores_witness:
  "case nand_page_write empty_chip 3 7 (Some (replicate NAND_PAGE_SIZE 0xA5)) of (ret, d') \<Rightarrow>
     ret = RET_OK \<and> chip_page d' 3 7 = Some (replicate NAND_PAGE_SIZE 0xA5) \<and> chip_page d' 3 8 = None"
proof -
  have "on_chip 3 7" by (simp add: on_chip_def NAND_TOTAL_BLOCKS_def NAND_PAGES_PER_BLOCK_def)
  then obtain d where d: "nand_page_write empty_chip 3 7 (Some (replicate NAND_PAGE_SIZE 0xA5)) = (RET_OK, d)"
    using empty_chip_write by blast
  show ?thesis
    using page_write_stores [OF empty_chip_ok, of "replicate NAND_PAGE_SIZE 0xA5" 3 7]
    by (simp add: d) (simp add: chip_page_def empty_chip_def zero_block_def)
qed

text \<open>After any sequence of page writes that succeeded, reading a page yields the last data
  written to it, and the old contents where nothing was written.\<close>

lemma chip_read_after_writes:
  assumes "chip_ok d" "write_all chip_wr d kvs = Some d'"
  shows "chip_rd d' k = (case map_of (rev kvs) k of Some bs \<Rightarrow> Some bs | None \<Rightarrow> chip_rd d k)"
  using assms by (rule chip.read_after_writes)

lemma chip_read_after_writes_witness:
  "\<exists>d'. write_all chip_wr empty_chip [((0, 0), replicate NAND_PAGE_SIZE 1)] = Some d' \<and>
     chip_rd d' (0, 0) = Some (replicate NAND_PAGE_SIZE 1)"
proof -
  have "on_chip 0 0" by (simp add: on_chip_def NAND_TOTAL_BLOCKS_def NAND_PAGES_PER_BLOCK_def)
  then obtain d where d: "nand_page_write empty_chip 0 0 (Some (replicate NAND_PAGE_SIZE 1)) = (RET_OK, d)"
    using empty_chip_write by blast
  then have "write_all chip_wr empty_chip [((0, 0), replicate NAND_PAGE_SIZE 1)] = Some d"
    by (simp add: chip_wr_def)
  with chip_read_after_writes [OF empty_chip_ok this, of "(0, 0)"] show ?thesis by simp
qed

text \<open>Erasing, invalidating and marking bad take exactly the pages they name from the store, whether
  or not the call reports success, and keep the chip consistent.\<close>

lemma chip_removals:
  assumes "chip_ok d" "on_chip b p"
  shows "(\<forall>b' p'. chip_page (snd (nand_block_erase d b)) b' p' = (if b' = b then None else chip_page d b' p')) \<and>
     (\<forall>b' p'. chip_page (snd (nand_mark_block_bad d b t)) b' p' = (if b' = b then None else chip_page d b' p')) \<and>
     (\<forall>b' p'. chip_page (snd (nand_mark_page_invalid d b p)) b' p' =
        (if (b', p') = (b, p) then None else chip_page d b' p')) \<and>
     chip_ok (snd (nand_block_erase d b)) \<and> chip_ok (snd (nand_mark_block_bad d b t)) \<and>
     chip_ok (snd (nand_mark_page_invalid d b p))"
proof -
  have b: "b < NAND_TOTAL_BLOCKS" using assms(2) by (simp add: on_chip_def)
  note e = erase_chip_page [OF chip_ok_initialized [OF assms(1)] b prod.collapse [symmetric]]
    erase_chip_ok [OF assms(1) b prod.collapse [symmetric]]
    mark_bad_chip [OF assms(1) b prod.collapse [symmetric]] mark_invalid_chip [OF assms prod.collapse [symmetric]]
  show ?thesis by (simp only: e simp_thms)
qed

lemma chip_removals_witness:
  "\<exists>d. nand_page_write empty_chip 0 0 (Some (replicate NAND_PAGE_SIZE 1)) = (RET_OK, d) \<and>
     chip_page d 0 0 \<noteq> None \<and> chip_page (snd (nand_block_erase d 0)) 0 0 = None"
proof -
  have c: "on_chip 0 0" by (simp add: on_chip_def NAND_TOTAL_BLOCKS_def NAND_PAGES_PER_BLOCK_def)
  then obtain d where d: "nand_page_write empty_chip 0 0 (Some (replicate NAND_PAGE_SIZE 1)) = (RET_OK, d)"
    using empty_chip_write by blast
  have "chip_ok d" "chip_page d 0 0 \<noteq> None"
    using page_write_chip_ok [OF empty_chip_ok d] page_write_chip_page [OF d] by simp_all
  with d chip_removals [OF \<open>chip_ok d\<close> c] show ?thesis by simp
qed

text \<open>C36: replacing a block takes the first free block of the reserved area at the end of the chip, moves
  every readable page to the same offset of it, marks the old block as bad, so that no page of it is
  readable, and touches no page of any other block.\<close>

lemma replacement_moves_pages:
  assumes "chip_ok d" "chip_acct d" "nand_replace_bad_block d b True = (RET_OK, Some nb, d')"
  shows "NAND_TOTAL_BLOCKS - NAND_RESERVED_BLOCKS \<le> nb \<and> nb < NAND_TOTAL_BLOCKS \<and> nb \<noteq> b \<and>
     block_state_of d nb = BLOCK_FREE \<and>
     (\<forall>i. NAND_TOTAL_BLOCKS - NAND_RESERVED_BLOCKS \<le> i \<and> i < nb \<longrightarrow> block_state_of d i \<noteq> BLOCK_FREE) \<and>
     block_state_of d' b = BLOCK_BAD \<and> chip_ok d' \<and> chip_acct d' \<and>
     chip_page d' b' p = (if b' = b then None else if b' = nb then chip_page d b p else chip_page d b' p)"
  using replace_bad_block_facts [OF assms(1) chip_acct_free_clear [OF assms(2)] assms(3)] assms(2) by blast

lemma replacement_moves_pages_witness:
  "\<exists>d d'. nand_page_write empty_chip 0 5 (Some (replicate NAND_PAGE_SIZE 1)) = (RET_OK, d) \<and>
     nand_replace_bad_block d 0 True = (RET_OK, Some 120, d') \<and>
     chip_page d' 120 5 = Some (replicate NAND_PAGE_SIZE 1) \<and> chip_page d' 0 5 = None"
proof -
  have c: "on_chip 0 5" by (simp add: on_chip_def NAND_TOTAL_BLOCKS_def NAND_PAGES_PER_BLOCK_def)
  then obtain d where d: "nand_page_write empty_chip 0 5 (Some (replicate NAND_PAGE_SIZE 1)) = (RET_OK, d)"
    using empty_chip_write by blast
  have D: "chip_ok d" "chip_acct d" "chip_page d 0 5 = Some (replicate NAND_PAGE_SIZE 1)"
    using page_write_chip_ok [OF empty_chip_ok d] chip_acct_write [OF empty_chip_acct d] page_write_chip_page [OF d]
    by simp_all
  have "nd_reserved_count d = 8" "block_state_of d 0 = BLOCK_USED" "block_state_of d 120 = BLOCK_FREE" "nd_is_initialized d"
    using page_write_okD(5) [OF d] by (simp_all add: store_page_def media_put_def empty_chip_def zero_block_def)
  then obtain d' where r: "nand_replace_bad_block d 0 True = (RET_OK, Some 120, d')"
    by (simp add: nand_replace_bad_block_def nand_alloc_reserved_block_def NAND_TOTAL_BLOCKS_def
        NAND_RESERVED_BLOCKS_def Let_def upt_conv_Cons)
  with d D replacement_moves_pages [OF D(1,2) r, of 0 5] replacement_moves_pages [OF D(1,2) r, of 120 5]
  show ?thesis by simp
qed

end
