(* ===== verification/FtlSafety.thy ===== *)
theory FtlSafety
  imports Ftl NandStore
begin

text \<open>
  What the FTL's own work does to the contents it stores: the abstraction \<open>logical\<close> of the device to a
  map from logical page numbers to data, the invariant \<open>ftl_inv\<close> (the two tables are inverse to each
  other and lead to readable pages, nothing is readable behind the write position), and the relation
  \<open>keeps\<close> between the states before and after allocation, garbage collection, static wear leveling,
  bad-block replacement and read-disturb handling: contents and invariant stay.
\<close>

section \<open>Page numbers\<close>

lemma ppn_round_trip:
  assumes "on_chip b p"
  shows "block_page_to_ppn b p < FTL_TOTAL_PPNS" "ppn_to_block (block_page_to_ppn b p) = b"
    "ppn_to_page (block_page_to_ppn b p) = p"
  using assms by (simp_all add: on_chip_def block_page_to_ppn_def ppn_to_block_def ppn_to_page_def
      NAND_TOTAL_BLOCKS_def NAND_PAGES_PER_BLOCK_def)

lemma ppn_on_chip:
  assumes "ppn < FTL_TOTAL_PPNS"
  shows "on_chip (ppn_to_block ppn) (ppn_to_page ppn)"
    "block_page_to_ppn (ppn_to_block ppn) (ppn_to_page ppn) = ppn"
  using assms by (auto simp: on_chip_def block_page_to_ppn_def ppn_to_block_def ppn_to_page_def
      NAND_TOTAL_BLOCKS_def NAND_PAGES_PER_BLOCK_def)

lemma ppn_eq_iff:
  "ppn < FTL_TOTAL_PPNS \<Longrightarrow> ppn' < FTL_TOTAL_PPNS \<Longrightarrow>
   ppn = ppn' \<longleftrightarrow> ppn_to_block ppn = ppn_to_block ppn' \<and> ppn_to_page ppn = ppn_to_page ppn'"
  by (metis ppn_on_chip(2))

lemma ftl_bounds: "FTL_TOTAL_PPNS = 32768" "FTL_TOTAL_LPNS = 22937"
  by (simp_all add: FTL_TOTAL_LPNS_def NAND_TOTAL_BLOCKS_def NAND_PAGES_PER_BLOCK_def)

lemma ppn_not_invalid: "ppn < FTL_TOTAL_PPNS \<Longrightarrow> ppn \<noteq> FTL_INVALID_PPN"
  by (simp add: ftl_bounds FTL_INVALID_PPN_def)

lemma lpn_not_invalid: "lpn < FTL_TOTAL_LPNS \<Longrightarrow> lpn \<noteq> FTL_INVALID_LPN"
  by (simp add: ftl_bounds FTL_INVALID_LPN_def)

section \<open>The logical contents and the invariant\<close>

definition ppn_page :: "nand_dev \<Rightarrow> nat \<Rightarrow> u8 list option" where
  "ppn_page d ppn = chip_page d (ppn_to_block ppn) (ppn_to_page ppn)"

lemma ppn_page_beyond: "\<not> ppn < FTL_TOTAL_PPNS \<Longrightarrow> ppn_page d ppn = None"
  by (auto simp: ppn_page_def chip_page_def on_chip_def ppn_to_block_def NAND_PAGES_PER_BLOCK_def NAND_TOTAL_BLOCKS_def)

text \<open>The abstraction of the device: the data of each logical page.\<close>

definition logical :: "ftl_dev \<Rightarrow> nat \<Rightarrow> u8 list option" where
  "logical s lpn =
     (if lpn < FTL_TOTAL_LPNS \<and> fs_l2p s lpn \<noteq> FTL_INVALID_PPN then ppn_page (fs_nand s) (fs_l2p s lpn) else None)"

text \<open>The two tables are inverse to each other and lead to readable pages.\<close>

definition map_ok :: "ftl_dev \<Rightarrow> bool" where
  "map_ok s \<longleftrightarrow>
     (\<forall>lpn<FTL_TOTAL_LPNS. fs_l2p s lpn \<noteq> FTL_INVALID_PPN \<longrightarrow>
        fs_l2p s lpn < FTL_TOTAL_PPNS \<and> fs_rmap s (fs_l2p s lpn) = lpn \<and> ppn_page (fs_nand s) (fs_l2p s lpn) \<noteq> None) \<and>
     (\<forall>ppn<FTL_TOTAL_PPNS. fs_rmap s ppn \<noteq> FTL_INVALID_LPN \<longrightarrow>
        fs_rmap s ppn < FTL_TOTAL_LPNS \<and> fs_l2p s (fs_rmap s ppn) = ppn)"

text \<open>Nothing is readable at or behind the write position.\<close>

definition frontier :: "ftl_dev \<Rightarrow> bool" where
  "frontier s \<longleftrightarrow> fs_cur_block s < NAND_TOTAL_BLOCKS \<and> fs_cur_page s \<le> NAND_PAGES_PER_BLOCK \<and>
     (\<forall>p\<ge>fs_cur_page s. chip_page (fs_nand s) (fs_cur_block s) p = None)"

definition ftl_inv :: "ftl_dev \<Rightarrow> bool" where
  "ftl_inv s \<longleftrightarrow> fs_is_initialized s \<and> chip_ok (fs_nand s) \<and> free_clear (fs_nand s) \<and> map_ok s \<and> frontier s"

lemma map_okD:
  assumes "map_ok s"
  shows "lpn < FTL_TOTAL_LPNS \<Longrightarrow> fs_l2p s lpn \<noteq> FTL_INVALID_PPN \<Longrightarrow>
      fs_l2p s lpn < FTL_TOTAL_PPNS \<and> fs_rmap s (fs_l2p s lpn) = lpn \<and> ppn_page (fs_nand s) (fs_l2p s lpn) \<noteq> None"
    and "ppn < FTL_TOTAL_PPNS \<Longrightarrow> fs_rmap s ppn \<noteq> FTL_INVALID_LPN \<Longrightarrow>
      fs_rmap s ppn < FTL_TOTAL_LPNS \<and> fs_l2p s (fs_rmap s ppn) = ppn"
  using assms by (simp_all add: map_ok_def)

text \<open>What depends on the tables and the chip only.\<close>

lemma map_ok_cong:
  assumes "fs_l2p s' = fs_l2p s" "fs_rmap s' = fs_rmap s" "\<And>ppn. ppn_page (fs_nand s') ppn = ppn_page (fs_nand s) ppn"
  shows "map_ok s' = map_ok s" "logical s' = logical s"
  using assms by (simp_all add: map_ok_def logical_def fun_eq_iff)

text \<open>The same over any assignment of data to physical pages, which need not be that of a chip.\<close>

definition tables_ok :: "(nat \<Rightarrow> 'v option) \<Rightarrow> (nat \<Rightarrow> nat) \<Rightarrow> (nat \<Rightarrow> nat) \<Rightarrow> bool" where
  "tables_ok P l r \<longleftrightarrow>
     (\<forall>lpn<FTL_TOTAL_LPNS. l lpn \<noteq> FTL_INVALID_PPN \<longrightarrow> l lpn < FTL_TOTAL_PPNS \<and> r (l lpn) = lpn \<and> P (l lpn) \<noteq> None) \<and>
     (\<forall>ppn<FTL_TOTAL_PPNS. r ppn \<noteq> FTL_INVALID_LPN \<longrightarrow> r ppn < FTL_TOTAL_LPNS \<and> l (r ppn) = ppn)"

definition tables_view :: "(nat \<Rightarrow> 'v option) \<Rightarrow> (nat \<Rightarrow> nat) \<Rightarrow> nat \<Rightarrow> 'v option" where
  "tables_view P l lpn = (if lpn < FTL_TOTAL_LPNS \<and> l lpn \<noteq> FTL_INVALID_PPN then P (l lpn) else None)"

lemma map_ok_tables: "map_ok s \<longleftrightarrow> tables_ok (ppn_page (fs_nand s)) (fs_l2p s) (fs_rmap s)"
  by (simp add: map_ok_def tables_ok_def)

lemma logical_tables: "logical s = tables_view (ppn_page (fs_nand s)) (fs_l2p s)"
  by (simp add: logical_def tables_view_def fun_eq_iff)

lemma tables_okD:
  assumes "tables_ok P l r"
  shows "lpn < FTL_TOTAL_LPNS \<Longrightarrow> l lpn \<noteq> FTL_INVALID_PPN \<Longrightarrow> l lpn < FTL_TOTAL_PPNS \<and> r (l lpn) = lpn \<and> P (l lpn) \<noteq> None"
    and "ppn < FTL_TOTAL_PPNS \<Longrightarrow> r ppn \<noteq> FTL_INVALID_LPN \<Longrightarrow> r ppn < FTL_TOTAL_LPNS \<and> l (r ppn) = ppn"
  using assms by (simp_all add: tables_ok_def)

lemma tables_unmapped:
  assumes "tables_ok P l r" "ppn < FTL_TOTAL_PPNS" "P ppn = None"
  shows "r ppn = FTL_INVALID_LPN"
  using tables_okD [OF assms(1)] assms(2,3) ppn_not_invalid [OF assms(2)] by metis

text \<open>Copying a mapped page to an unused one and redirecting the tables keeps the contents.\<close>

lemma tables_remap:
  assumes ok: "tables_ok P l r" and old: "old < FTL_TOTAL_PPNS" "r old \<noteq> FTL_INVALID_LPN"
    and new: "new < FTL_TOTAL_PPNS" "P new = None"
  defines "l' \<equiv> l(r old := new)" and "r' \<equiv> r(new := r old, old := FTL_INVALID_LPN)" and "P' \<equiv> P(new := P old)"
  shows "tables_ok P' l' r'" "tables_view P' l' = tables_view P l"
proof -
  define lpn where "lpn = r old"
  have lpn: "lpn < FTL_TOTAL_LPNS" "l lpn = old" using tables_okD(2) [OF ok old] by (simp_all add: lpn_def)
  then have data: "P old \<noteq> None"
    using tables_okD(1) [OF ok lpn(1)] ppn_not_invalid [OF old(1)] by simp
  with new(2) have ne: "new \<noteq> old" by auto
  have free: "r new = FTL_INVALID_LPN" by (rule tables_unmapped [OF ok new])
  note t = l'_def r'_def P'_def lpn_def [symmetric]
  have other: "l x \<noteq> new \<and> l x \<noteq> old"
    if "x < FTL_TOTAL_LPNS" "l x \<noteq> FTL_INVALID_PPN" "x \<noteq> lpn" for x
    using tables_okD(1) [OF ok that(1,2)] that(3) new(2) by (auto simp: lpn_def)
  show "tables_ok P' l' r'" unfolding tables_ok_def
  proof (intro conjI allI impI)
    fix x assume x: "x < FTL_TOTAL_LPNS" "l' x \<noteq> FTL_INVALID_PPN"
    show "l' x < FTL_TOTAL_PPNS" "r' (l' x) = x" "P' (l' x) \<noteq> None"
      using x other [of x] tables_okD(1) [OF ok x(1)] new(1) ne data by (auto simp: t)
  next
    fix ppn assume p: "ppn < FTL_TOTAL_PPNS" "r' ppn \<noteq> FTL_INVALID_LPN"
    show "r' ppn < FTL_TOTAL_LPNS" "l' (r' ppn) = ppn"
      using p tables_okD(2) [OF ok p(1)] lpn ne by (auto simp: t split: if_splits)
  qed
  show "tables_view P' l' = tables_view P l"
  proof (rule ext)
    fix x
    show "tables_view P' l' x = tables_view P l x"
      using other [of x] lpn ppn_not_invalid [OF new(1)] ppn_not_invalid [OF old(1)]
      by (cases "x = lpn") (auto simp: tables_view_def t)
  qed
qed

lemma tables_weaker:
  assumes "tables_ok P l r" "\<And>ppn. ppn < FTL_TOTAL_PPNS \<Longrightarrow> r ppn \<noteq> FTL_INVALID_LPN \<Longrightarrow> P' ppn = P ppn"
  shows "tables_ok P' l r" "tables_view P' l = tables_view P l"
proof -
  have same: "P' (l lpn) = P (l lpn)" if "lpn < FTL_TOTAL_LPNS" "l lpn \<noteq> FTL_INVALID_PPN" for lpn
    using tables_okD(1) [OF assms(1) that] that(1) by (intro assms(2)) (auto dest: lpn_not_invalid)
  show "tables_ok P' l r" using assms(1) same by (simp add: tables_ok_def)
  show "tables_view P' l = tables_view P l" using same by (auto simp: tables_view_def fun_eq_iff)
qed

lemma map_ok_weaker_chip:
  assumes "map_ok s" "fs_l2p s' = fs_l2p s" "fs_rmap s' = fs_rmap s"
    and "\<And>ppn. ppn < FTL_TOTAL_PPNS \<Longrightarrow> fs_rmap s ppn \<noteq> FTL_INVALID_LPN \<Longrightarrow>
           ppn_page (fs_nand s') ppn = ppn_page (fs_nand s) ppn"
  shows "map_ok s'" "logical s' = logical s"
  using tables_weaker [OF assms(1) [unfolded map_ok_tables], of "ppn_page (fs_nand s')"] assms(2-4)
  by (simp_all add: map_ok_tables logical_tables)

lemma remap_keeps:
  assumes "map_ok s" "old < FTL_TOTAL_PPNS" "fs_rmap s old \<noteq> FTL_INVALID_LPN"
    and "new < FTL_TOTAL_PPNS" "ppn_page (fs_nand s) new = None"
    and "ppn_page (fs_nand s') = (ppn_page (fs_nand s))(new := ppn_page (fs_nand s) old)"
    and "fs_l2p s' = fs_l2p s" "fs_rmap s' = fs_rmap s"
  shows "map_ok (remap (fs_rmap s old) old new s')" "logical (remap (fs_rmap s old) old new s') = logical s"
    and "fs_rmap (remap (fs_rmap s old) old new s') = (fs_rmap s)(new := fs_rmap s old, old := FTL_INVALID_LPN)"
  using tables_remap [OF assms(1) [unfolded map_ok_tables] assms(2-5)] assms(6-8)
  by (simp_all add: map_ok_tables logical_tables remap_def)

section \<open>Steps that keep the contents\<close>

text \<open>Settings that internal moves of data leave alone.\<close>

definition same_config :: "ftl_dev \<Rightarrow> ftl_dev \<Rightarrow> bool" where
  "same_config s s' \<longleftrightarrow> fs_map_mode s' = fs_map_mode s \<and> fs_wear_leveling_count s' = fs_wear_leveling_count s \<and>
     fs_write_since_last_check s' = fs_write_since_last_check s \<and> fs_files s' = fs_files s \<and>
     fs_wal_file s' = fs_wal_file s \<and> fs_wal_enabled s' = fs_wal_enabled s"

definition keeps :: "ftl_dev \<Rightarrow> ftl_dev \<Rightarrow> bool" where
  "keeps s s' \<longleftrightarrow> ftl_inv s' \<and> logical s' = logical s \<and> same_config s s' \<and>
     (chip_acct (fs_nand s) \<longrightarrow> chip_acct (fs_nand s'))"

lemma same_config_refl [simp]: "same_config s s"
  by (simp add: same_config_def)

lemma same_config_trans: "same_config s s' \<Longrightarrow> same_config s' s'' \<Longrightarrow> same_config s s''"
  by (simp add: same_config_def)

lemma keeps_refl: "ftl_inv s \<Longrightarrow> keeps s s"
  by (simp add: keeps_def)

lemma keeps_trans: "keeps s s' \<Longrightarrow> keeps s' s'' \<Longrightarrow> keeps s s''"
  by (auto simp: keeps_def intro: same_config_trans)

lemma with_nand_eq: "with_nand f s = (fst (f (fs_nand s)), s\<lparr>fs_nand := snd (f (fs_nand s))\<rparr>)"
  by (simp add: with_nand_def split_beta)

lemma block_state_get: "nand_get_block_state d b = BLOCK_FREE \<Longrightarrow> b < NAND_TOTAL_BLOCKS \<and> block_state_of d b = BLOCK_FREE"
  "nand_get_block_state d b = BLOCK_USED \<Longrightarrow> b < NAND_TOTAL_BLOCKS \<and> block_state_of d b = BLOCK_USED"
  by (auto simp: nand_get_block_state_def nand_is_block_valid_def split: if_splits)

subsection \<open>Allocation\<close>

lemma find_next_free_block_free:
  "ftl_find_next_free_block d start = Some b \<Longrightarrow> b < NAND_TOTAL_BLOCKS \<and> block_state_of d b = BLOCK_FREE"
  by (auto simp: ftl_find_next_free_block_def dest!: find_SomeD dest: block_state_get split: option.splits)

lemma free_clear_page: "free_clear d \<Longrightarrow> block_state_of d b = BLOCK_FREE \<Longrightarrow> chip_page d b p = None"
  by (auto simp: free_clear_def chip_page_def)

lemma alloc_facts:
  assumes inv: "ftl_inv s" and a: "ftl_alloc_phy_page s = (Some ppn, s')"
  shows "ppn < FTL_TOTAL_PPNS" "ppn_page (fs_nand s) ppn = None"
    and "fs_nand s' = fs_nand s" "fs_l2p s' = fs_l2p s" "fs_rmap s' = fs_rmap s" "same_config s s'"
    and "fs_is_initialized s' = fs_is_initialized s"
    and "fs_cur_block s' = ppn_to_block ppn" "fs_cur_page s' = Suc (ppn_to_page ppn)"
    and "fs_cur_block s' = fs_cur_block s \<and> fs_cur_page s' = Suc (fs_cur_page s) \<or>
         block_state_of (fs_nand s) (ppn_to_block ppn) = BLOCK_FREE"
    and "ftl_inv s'"
proof -
  have f: "fs_cur_block s < NAND_TOTAL_BLOCKS" "\<forall>p\<ge>fs_cur_page s. chip_page (fs_nand s) (fs_cur_block s) p = None"
    and inv': "fs_is_initialized s" "chip_ok (fs_nand s)" "free_clear (fs_nand s)" "map_ok s"
    using inv by (simp_all add: ftl_inv_def frontier_def)
  define P where "P \<longleftrightarrow> ppn < FTL_TOTAL_PPNS \<and> ppn_page (fs_nand s) ppn = None \<and> fs_nand s' = fs_nand s \<and>
      fs_l2p s' = fs_l2p s \<and> fs_rmap s' = fs_rmap s \<and> same_config s s' \<and> fs_is_initialized s' \<and>
      fs_cur_block s' = ppn_to_block ppn \<and> fs_cur_page s' = Suc (ppn_to_page ppn) \<and>
      (fs_cur_block s' = fs_cur_block s \<and> fs_cur_page s' = Suc (fs_cur_page s) \<or>
         block_state_of (fs_nand s) (ppn_to_block ppn) = BLOCK_FREE) \<and>
      (\<forall>p\<ge>fs_cur_page s'. chip_page (fs_nand s) (fs_cur_block s') p = None)"
  have P
  proof (cases "fs_cur_page s < NAND_PAGES_PER_BLOCK")
    case True
    with f(1) have c: "on_chip (fs_cur_block s) (fs_cur_page s)" by (simp add: on_chip_def)
    with a True f(2) inv'(1) show ?thesis
      by (auto simp: P_def ftl_alloc_phy_page_def ppn_round_trip ppn_page_def same_config_def)
  next
    case False
    with a obtain b where b: "ftl_find_next_free_block (fs_nand s) (u32_add (fs_cur_block s) 1) = Some b"
      and s': "ppn = block_page_to_ppn b 0" "s' = s\<lparr>fs_cur_block := b, fs_cur_page := 1\<rparr>"
      by (auto simp: ftl_alloc_phy_page_def split: option.splits)
    from find_next_free_block_free [OF b] have b': "b < NAND_TOTAL_BLOCKS" "block_state_of (fs_nand s) b = BLOCK_FREE"
      by simp_all
    then have c: "on_chip b 0" by (simp add: on_chip_def NAND_PAGES_PER_BLOCK_def)
    show ?thesis
      using b' free_clear_page [OF inv'(3) b'(2)] inv'(1)
      by (simp add: P_def s' ppn_round_trip [OF c] ppn_page_def same_config_def)
  qed
  then have "map_ok s'" using map_ok_cong(1) [of s' s] inv'(4) by (simp add: P_def)
  moreover have "frontier s'"
    using \<open>P\<close> ppn_on_chip(1) [of ppn] by (auto simp: P_def frontier_def on_chip_def)
  ultimately show "ftl_inv s'" using \<open>P\<close> inv' by (simp add: ftl_inv_def P_def)
  show "ppn < FTL_TOTAL_PPNS" "ppn_page (fs_nand s) ppn = None"
    "fs_nand s' = fs_nand s" "fs_l2p s' = fs_l2p s" "fs_rmap s' = fs_rmap s" "same_config s s'"
    "fs_is_initialized s' = fs_is_initialized s"
    "fs_cur_block s' = ppn_to_block ppn" "fs_cur_page s' = Suc (ppn_to_page ppn)"
    "fs_cur_block s' = fs_cur_block s \<and> fs_cur_page s' = Suc (fs_cur_page s) \<or>
         block_state_of (fs_nand s) (ppn_to_block ppn) = BLOCK_FREE"
    using \<open>P\<close> inv'(1) unfolding P_def by blast+
qed

lemma alloc_none: "ftl_alloc_phy_page s = (None, s') \<Longrightarrow> s' = s"
  by (auto simp: ftl_alloc_phy_page_def split: if_splits option.splits)

lemma alloc_keeps:
  assumes "ftl_inv s" "ftl_alloc_phy_page s = (r, s')"
  shows "keeps s s'"
proof (cases r)
  case None
  with alloc_none [of s s'] assms show ?thesis by (simp add: keeps_refl)
next
  case (Some ppn)
  note f = alloc_facts [OF assms(1) assms(2) [unfolded Some]]
  have "logical s' = logical s" using map_ok_cong(2) [of s' s] f(3-5) by simp
  with f show ?thesis by (simp add: keeps_def)
qed

subsection \<open>Changes of the chip alone\<close>

text \<open>A chip with the same or fewer pages, all mapped ones included, can replace the chip of the device.\<close>

lemma ftl_inv_chip:
  assumes inv: "ftl_inv s" and s': "s' = s\<lparr>fs_nand := d\<rparr>" and d: "chip_ok d" "free_clear d"
    and mapped: "\<And>ppn. ppn < FTL_TOTAL_PPNS \<Longrightarrow> fs_rmap s ppn \<noteq> FTL_INVALID_LPN \<Longrightarrow>
        ppn_page d ppn = ppn_page (fs_nand s) ppn"
    and fewer: "\<And>b p. chip_page d b p = None \<or> chip_page d b p = chip_page (fs_nand s) b p"
  shows "ftl_inv s'" "logical s' = logical s"
proof -
  have "map_ok s" using inv by (simp add: ftl_inv_def)
  from map_ok_weaker_chip [OF this, of s'] mapped have m: "map_ok s'" "logical s' = logical s" by (simp_all add: s')
  have "chip_page d (fs_cur_block s) p = None" if "p \<ge> fs_cur_page s" for p
    using fewer [of "fs_cur_block s" p] inv that by (auto simp: ftl_inv_def frontier_def)
  then have "frontier s'" using inv by (simp add: ftl_inv_def frontier_def s')
  with m inv d show "ftl_inv s'" "logical s' = logical s" by (simp_all add: ftl_inv_def s')
qed

lemma read_into_ok:
  assumes inv: "ftl_inv s" and pg: "chip_page (fs_nand s) b p = Some bs" and r: "read_into b p old s = (buf, s')"
  shows "buf = bs" "keeps s s'" "\<exists>d. s' = s\<lparr>fs_nand := d\<rparr> \<and> same_store (fs_nand s) d"
proof -
  have "chip_ok (fs_nand s)" using inv by (simp add: ftl_inv_def)
  from page_read_ok [OF this pg] obtain d
    where d: "nand_page_read (fs_nand s) b p True = (RET_OK, Some bs, d)" "same_store (fs_nand s) d" .
  with r have s': "s' = s\<lparr>fs_nand := d\<rparr>" "buf = bs" by (auto simp: read_into_def)
  note same = same_store_chip [OF d(2)] chip_acct_same_store [OF d(2)]
  have "ftl_inv s'" "logical s' = logical s"
    using ftl_inv_chip [OF inv s'(1)] inv same by (simp_all add: ftl_inv_def ppn_page_def)
  with same show "keeps s s'" by (simp add: keeps_def s' same_config_def)
  show "buf = bs" "\<exists>d. s' = s\<lparr>fs_nand := d\<rparr> \<and> same_store (fs_nand s) d" using s' d(2) by auto
qed

section \<open>Garbage collection\<close>

subsection \<open>The victim is a block in use\<close>

lemma scan_fewest_used:
  "snd (fold (scan_fewest d) xs (m, v)) = Some i \<Longrightarrow> v = Some i \<or> (i \<in> set xs \<and> nand_get_block_state d i = BLOCK_USED)"
  by (induction xs arbitrary: m v) (auto simp: scan_fewest_def Let_def split: if_splits)

lemma scan_highest_used:
  "snd (fold (scan_highest d sc) xs (m, v)) = Some i \<Longrightarrow> v = Some i \<or> (i \<in> set xs \<and> nand_get_block_state d i = BLOCK_USED)"
  by (induction xs arbitrary: m v) (auto simp: scan_highest_def Let_def split: if_splits)

lemma gc_select_greedy_used: "gc_select_greedy s = Some i \<Longrightarrow> nand_get_block_state (fs_nand s) i = BLOCK_USED"
  by (auto simp: gc_select_greedy_def dest: scan_fewest_used)

lemma gc_select_d_choices_used:
  assumes "gc_select_d_choices s = Some i"
  shows "nand_get_block_state (fs_nand s) i = BLOCK_USED"
proof -
  define used where "used = used_blocks (fs_nand s)"
  define pick where "pick = (\<lambda>i (min_valid, victim).
      let idx = unat (fs_gc_count s * 7 + of_nat i * 13) mod length used;
          block = used ! idx;
          valid_pages = nand_get_block_valid_page_count (fs_nand s) block in
      if valid_pages < min_valid then (valid_pages, Some block) else (min_valid, victim))"
  have member: "nand_get_block_state (fs_nand s) b = BLOCK_USED" if "b \<in> set used" for b
    using that by (simp add: used_def used_blocks_def)
  show ?thesis
  proof (cases "length used < FTL_GC_D_CHOICES_D")
    case True
    with assms show ?thesis
      by (auto simp: gc_select_d_choices_def Let_def used_def intro: gc_select_greedy_used split: if_splits)
  next
    case False
    then have ne: "used ! (n mod length used) \<in> set used" for n
      by (intro nth_mem mod_less_divisor) (auto simp: FTL_GC_D_CHOICES_D_def)
    have step: "snd (pick k mv) = snd mv \<or> snd (pick k mv) \<in> Some ` set used" for k mv
      by (cases mv) (simp add: pick_def Let_def ne)
    have "snd (fold pick xs mv) = snd mv \<or> snd (fold pick xs mv) \<in> Some ` set used" for xs mv
    proof (induction xs arbitrary: mv)
      case (Cons k xs)
      from Cons [of "pick k mv"] step [of k mv] show ?case by auto
    qed simp
    from this [of "[0..<FTL_GC_D_CHOICES_D]" "(257, None)"]
    have "snd (fold pick [0..<FTL_GC_D_CHOICES_D] (257, None)) = Some i \<Longrightarrow> i \<in> set used" by auto
    moreover have "snd (fold pick [0..<FTL_GC_D_CHOICES_D] (257, None)) = Some i"
      using assms False unfolding gc_select_d_choices_def Let_def used_def [symmetric] pick_def
      by (simp split: if_splits)
    ultimately show ?thesis by (blast intro: member)
  qed
qed

lemma victim_used: "gc_select_victim_block s = Some i \<Longrightarrow> nand_get_block_state (fs_nand s) i = BLOCK_USED"
  by (auto simp: gc_select_victim_block_def gc_select_cost_benefit_def gc_select_cat_def gc_select_windowed_def
      gc_select_fra_def Let_def split: gc_algo_type.splits option.splits
      dest: gc_select_greedy_used gc_select_d_choices_used scan_fewest_used scan_highest_used find_SomeD)

subsection \<open>Writing a page that was just allocated\<close>

lemma write_allocated:
  assumes inv: "ftl_inv s" and ppn: "ppn < FTL_TOTAL_PPNS" "ppn_page (fs_nand s) ppn = None"
    and pos: "fs_cur_block s = ppn_to_block ppn" "ppn_to_page ppn < fs_cur_page s"
    and len: "length bs = NAND_PAGE_SIZE"
    and w: "nand_page_write (fs_nand s) (ppn_to_block ppn) (ppn_to_page ppn) (Some bs) = (ret, d)"
  shows "chip_ok d" "free_clear d" "chip_acct (fs_nand s) \<Longrightarrow> chip_acct d"
    and "ret = RET_OK \<Longrightarrow> ppn_page d = (ppn_page (fs_nand s))(ppn := Some bs)" "ret \<noteq> RET_OK \<Longrightarrow> d = fs_nand s"
    and "frontier (s\<lparr>fs_nand := d\<rparr>)"
    and "block_state_of (fs_nand s) b = BLOCK_USED \<Longrightarrow> block_state_of d b = BLOCK_USED"
    and "ret = RET_OK \<Longrightarrow> block_state_of d (ppn_to_block ppn) = BLOCK_USED"
proof -
  have s: "chip_ok (fs_nand s)" "free_clear (fs_nand s)" "frontier s" using inv by (simp_all add: ftl_inv_def)
  show "chip_ok d" by (rule page_write_chip_ok [OF s(1) w len])
  show "free_clear d" by (rule free_clear_write [OF s(2) w len])
  show "chip_acct (fs_nand s) \<Longrightarrow> chip_acct d" by (rule chip_acct_write [OF _ w len])
  show failed: "ret \<noteq> RET_OK \<Longrightarrow> d = fs_nand s" by (rule page_write_failed [OF len w])
  have pages: "chip_page d b' p' = (if (b', p') = (ppn_to_block ppn, ppn_to_page ppn) then Some bs
      else chip_page (fs_nand s) b' p')" if "ret = RET_OK" for b' p'
    by (rule page_write_chip_page [OF w [unfolded that] len])
  show "ret = RET_OK \<Longrightarrow> ppn_page d = (ppn_page (fs_nand s))(ppn := Some bs)"
  proof (rule ext)
    fix q assume "ret = RET_OK"
    note c = page_write_okD(1) [OF w [unfolded this] len]
    show "ppn_page d q = ((ppn_page (fs_nand s))(ppn := Some bs)) q"
    proof (cases "q < FTL_TOTAL_PPNS")
      case True
      then show ?thesis using pages [OF \<open>ret = RET_OK\<close>] ppn_eq_iff [OF True ppn(1)] by (auto simp: ppn_page_def)
    next
      case False
      then show ?thesis using False ppn(1) by (auto simp: ppn_page_beyond)
    qed
  qed
  show "frontier (s\<lparr>fs_nand := d\<rparr>)"
    using s(3) pages failed pos by (cases "ret = RET_OK") (auto simp: frontier_def)
  show "block_state_of (fs_nand s) b = BLOCK_USED \<Longrightarrow> block_state_of d b = BLOCK_USED"
    using page_write_blocks(1) [OF _ len, of "fs_nand s" "ppn_to_block ppn" "ppn_to_page ppn" d] failed w
    by (cases "ret = RET_OK") auto
  show "ret = RET_OK \<Longrightarrow> block_state_of d (ppn_to_block ppn) = BLOCK_USED"
    using page_write_blocks(1) [OF _ len, of "fs_nand s" "ppn_to_block ppn" "ppn_to_page ppn" d] w by simp
qed

subsection \<open>One page of the victim\<close>

definition collecting :: "ftl_dev \<Rightarrow> nat \<Rightarrow> nat \<Rightarrow> ftl_dev \<Rightarrow> bool" where
  "collecting s0 v p s \<longleftrightarrow> keeps s0 s \<and> v < NAND_TOTAL_BLOCKS \<and> block_state_of (fs_nand s) v = BLOCK_USED \<and>
     (\<forall>q<p. fs_rmap s (block_page_to_ppn v q) = FTL_INVALID_LPN)"

lemma gc_move_page_step:
  assumes c: "collecting s0 v p s" and p: "p < NAND_PAGES_PER_BLOCK"
  shows "case gc_move_page v p (buf, s) of
     Next (_, s') \<Rightarrow> collecting s0 v (Suc p) s' | Leave ret (_, s') \<Rightarrow> ret \<noteq> RET_OK \<and> keeps s0 s'"
proof -
  define old where "old = block_page_to_ppn v p"
  from c have k: "keeps s0 s" and v: "v < NAND_TOTAL_BLOCKS" "block_state_of (fs_nand s) v = BLOCK_USED"
    and low: "\<And>q. q < p \<Longrightarrow> fs_rmap s (block_page_to_ppn v q) = FTL_INVALID_LPN"
    by (simp_all add: collecting_def)
  have on: "on_chip v p" using v(1) p by (simp add: on_chip_def)
  note old = ppn_round_trip [OF on, folded old_def]
  have inv: "ftl_inv s" using k by (simp add: keeps_def)
  then have s: "map_ok s" "nd_is_initialized (fs_nand s)" "frontier s"
    by (simp_all add: ftl_inv_def chip_ok_initialized)
  have skip: "collecting s0 v (Suc p) s" if "fs_rmap s old = FTL_INVALID_LPN"
    using c that by (auto simp: collecting_def less_Suc_eq old_def)
  show ?thesis
  proof (cases "nand_is_page_valid (fs_nand s) v p \<and> fs_rmap s old \<noteq> FTL_INVALID_LPN")
    case False
    have "fs_rmap s old = FTL_INVALID_LPN"
    proof (rule ccontr)
      assume a: "fs_rmap s old \<noteq> FTL_INVALID_LPN"
      with map_okD [OF s(1)] old(1) ppn_not_invalid [OF old(1)] have "ppn_page (fs_nand s) old \<noteq> None" by metis
      with old on False a s(2) show False
        by (auto simp: ppn_page_def chip_page_def nand_is_page_valid_def nand_is_block_valid_def on_chip_def split: if_splits)
    qed
    from skip [OF this] this False show ?thesis by (auto simp: gc_move_page_def old_def Let_def)
  next
    case True
    then have "fs_rmap s old \<noteq> FTL_INVALID_LPN" by simp
    with map_okD [OF s(1)] old(1) ppn_not_invalid [OF old(1)] have "ppn_page (fs_nand s) old \<noteq> None" by metis
    then obtain bs where bs: "chip_page (fs_nand s) v p = Some bs" using old by (auto simp: ppn_page_def)
    obtain b1 s1 where r: "read_into v p buf s = (b1, s1)" by (metis prod.exhaust)
    from read_into_ok [OF inv bs r] obtain d1 where s1: "b1 = bs" "keeps s s1" "s1 = s\<lparr>fs_nand := d1\<rparr>"
      "same_store (fs_nand s) d1" by blast
    obtain new s2 where a: "ftl_alloc_phy_page s1 = (new, s2)" by (metis prod.exhaust)
    have inv1: "ftl_inv s1" using s1(2) by (simp add: keeps_def)
    note k2 = alloc_keeps [OF inv1 a]
    show ?thesis
    proof (cases new)
      case None
      then show ?thesis
        using True keeps_trans [OF k keeps_trans [OF s1(2) k2]]
        by (simp add: gc_move_page_def old_def [symmetric] r a Let_def)
    next
      case (Some ppn)
      note f = alloc_facts [OF inv1 a [unfolded Some]]
      obtain ret d3 where w: "nand_page_write (fs_nand s2) (ppn_to_block ppn) (ppn_to_page ppn) (Some bs) = (ret, d3)"
        by (metis prod.exhaust)
      have pos: "fs_cur_block s2 = ppn_to_block ppn" "ppn_to_page ppn < fs_cur_page s2" using f(8,9) by simp_all
      have free: "ppn_page (fs_nand s2) ppn = None" using f(2,3) by simp
      note wa = write_allocated [OF f(11) f(1) free pos chip_page_length [OF bs] w]
      have same: "chip_page (fs_nand s2) = chip_page (fs_nand s)" "block_state_of (fs_nand s2) v = BLOCK_USED"
        using same_store_chip(1) [OF s1(4)] s1(4) v(2) f(3) by (simp_all add: s1(3) same_store_def)
      show ?thesis
      proof (cases "ret = RET_OK")
        case False
        then show ?thesis
          using True keeps_trans [OF k keeps_trans [OF s1(2) k2]] wa(5)
          by (simp add: gc_move_page_def old_def [symmetric] r a Some s1(1) with_nand_eq w Let_def)
      next
        case ok: True
        define s3 where "s3 = s2\<lparr>fs_nand := d3, fs_nand_write_pages := fs_nand_write_pages s2 + 1,
            fs_gc_moved_pages := fs_gc_moved_pages s2 + 1\<rparr>"
        define s' where "s' = remap (fs_rmap s2 old) old ppn s3"
        have rm: "fs_rmap s2 = fs_rmap s" using f(5) by (simp add: s1(3))
        have step: "gc_move_page v p (buf, s) = Next (bs, s')"
          using True by (simp add: gc_move_page_def old_def [symmetric] r a Some s1(1) with_nand_eq w ok Let_def
              s'_def s3_def rm)
        have "ppn_page (fs_nand s3) = (ppn_page (fs_nand s2))(ppn := ppn_page (fs_nand s2) old)"
          using wa(4) [OF ok] bs old by (simp add: s3_def ppn_page_def same fun_eq_iff)
        from remap_keeps [OF _ old(1) _ f(1) free this] f(11) True
        have m: "map_ok s'" "logical s' = logical s2" "fs_rmap s' = (fs_rmap s)(ppn := fs_rmap s old, old := FTL_INVALID_LPN)"
          by (simp_all add: s'_def s3_def rm ftl_inv_def)
        have fields: "fs_nand s' = d3" "fs_is_initialized s' = fs_is_initialized s2" "same_config s2 s'"
          "frontier s' = frontier (s2\<lparr>fs_nand := d3\<rparr>)"
          by (simp_all add: s'_def s3_def remap_def same_config_def frontier_def)
        have "ftl_inv s'" using m(1) wa(1,2,6) f(11) by (simp add: ftl_inv_def fields)
        then have k3: "keeps s2 s'" using m(2) wa(3) by (simp add: keeps_def fields)
        have "block_page_to_ppn v q \<noteq> ppn" if "q \<le> p" for q
        proof
          assume e: "block_page_to_ppn v q = ppn"
          have "on_chip v q" using on that by (simp add: on_chip_def)
          then have "ppn_to_block ppn = v" "ppn_to_page ppn = q" using ppn_round_trip e by auto
          then have "fs_cur_block s1 = v" "fs_cur_page s1 = q" using f(8-10) same(2) f(3) by auto
          then have "chip_page (fs_nand s1) v p = None" using inv1 that by (simp add: ftl_inv_def frontier_def)
          then show False using bs same(1) f(3) by simp
        qed
        then have "\<forall>q<Suc p. fs_rmap s' (block_page_to_ppn v q) = FTL_INVALID_LPN"
          using low by (auto simp: m(3) old_def less_Suc_eq)
        with keeps_trans [OF k keeps_trans [OF s1(2) keeps_trans [OF k2 k3]]] v(1) wa(7) [OF same(2)]
        show ?thesis by (simp add: step collecting_def fields)
      qed
    qed
  qed
qed

subsection \<open>One collection\<close>

lemma gc_loop:
  assumes "collecting s0 v 0 s" "n \<le> NAND_PAGES_PER_BLOCK"
  shows "case loop_each [0..<n] (gc_move_page v) (buf, s) of
     Next (_, s') \<Rightarrow> collecting s0 v n s' | Leave ret (_, s') \<Rightarrow> ret \<noteq> RET_OK \<and> keeps s0 s'"
  using assms(2)
proof (induction n)
  case (Suc n)
  then have IH: "case loop_each [0..<n] (gc_move_page v) (buf, s) of
     Next (_, s') \<Rightarrow> collecting s0 v n s' | Leave ret (_, s') \<Rightarrow> ret \<noteq> RET_OK \<and> keeps s0 s'" by simp
  show ?case
  proof (cases "loop_each [0..<n] (gc_move_page v) (buf, s)")
    case (Next x)
    obtain b1 s1 where x: "x = (b1, s1)" by (metis prod.exhaust)
    with IH Next have "collecting s0 v n s1" by simp
    from gc_move_page_step [OF this, of b1] Suc.prems show ?thesis
      by (auto simp: loop_each_append Next x split: ctl.splits)
  next
    case (Leave ret x)
    with IH show ?thesis by (simp add: loop_each_append)
  qed
qed (use assms(1) in simp)

text \<open>Erasing a block that no table entry leads to keeps the contents.\<close>

lemma erase_unmapped:
  assumes inv: "ftl_inv s" and v: "v < NAND_TOTAL_BLOCKS"
    and unmapped: "\<And>q. q < NAND_PAGES_PER_BLOCK \<Longrightarrow> fs_rmap s (block_page_to_ppn v q) = FTL_INVALID_LPN"
    and e: "nand_block_erase (fs_nand s) v = (ret, d)"
  shows "keeps s (s\<lparr>fs_nand := d\<rparr>)"
proof -
  have s: "chip_ok (fs_nand s)" "nd_is_initialized (fs_nand s)" "free_clear (fs_nand s)"
    using inv by (simp_all add: ftl_inv_def chip_ok_initialized)
  note pages = erase_chip_page [OF s(2) v e]
  have "ppn_page d ppn = ppn_page (fs_nand s) ppn" if "ppn < FTL_TOTAL_PPNS" "fs_rmap s ppn \<noteq> FTL_INVALID_LPN" for ppn
    using unmapped [of "ppn_to_page ppn"] that ppn_on_chip [OF that(1)] by (auto simp: ppn_page_def pages on_chip_def)
  from ftl_inv_chip [OF inv refl erase_chip_ok [OF s(1) v e] free_clear_erase [OF s(3,2) v e] this] pages
  have "ftl_inv (s\<lparr>fs_nand := d\<rparr>)" "logical (s\<lparr>fs_nand := d\<rparr>) = logical s" by simp_all
  with chip_acct_erase [OF _ s(2) v e] show ?thesis by (simp add: keeps_def same_config_def)
qed

lemma keeps_counters:
  assumes "keeps s0 s" "fs_nand s' = fs_nand s" "fs_l2p s' = fs_l2p s" "fs_rmap s' = fs_rmap s"
    "fs_cur_block s' = fs_cur_block s" "fs_cur_page s' = fs_cur_page s" "fs_is_initialized s' = fs_is_initialized s"
    "same_config s s'"
  shows "keeps s0 s'"
proof -
  have "map_ok s' = map_ok s" "logical s' = logical s" using map_ok_cong [of s' s] assms by simp_all
  moreover have "frontier s' = frontier s" using assms by (simp add: frontier_def)
  ultimately show ?thesis
    using assms same_config_trans [of s0 s s'] by (simp add: keeps_def ftl_inv_def)
qed

theorem gc_do_recycle_keeps:
  assumes inv: "ftl_inv s" and r: "gc_do_recycle s = (ret, s')"
  shows "keeps s s'"
proof (cases "gc_select_victim_block s")
  case None
  with r inv show ?thesis by (simp add: gc_do_recycle_def keeps_refl)
next
  case (Some v)
  define s1 where "s1 = s\<lparr>fs_gc_count := fs_gc_count s + 1\<rparr>"
  have k1: "keeps s s1" by (rule keeps_counters [OF keeps_refl [OF inv]]) (simp_all add: s1_def same_config_def)
  from block_state_get(2) [OF victim_used [OF Some]]
  have "collecting s v 0 s1" using k1 by (simp add: collecting_def) (simp add: s1_def)
  note loop = gc_loop [OF this order.refl, of blank_page]
  show ?thesis
  proof (cases "loop_each [0..<NAND_PAGES_PER_BLOCK] (gc_move_page v) (blank_page, s1)")
    case (Leave ret' x)
    with loop r Some show ?thesis by (cases x) (simp add: gc_do_recycle_def s1_def Let_def)
  next
    case (Next x)
    obtain b2 s2 where x: "x = (b2, s2)" by (metis prod.exhaust)
    with loop Next have c: "collecting s v NAND_PAGES_PER_BLOCK s2" by simp
    then have k2: "keeps s s2" and v: "v < NAND_TOTAL_BLOCKS"
      and un: "\<And>q. q < NAND_PAGES_PER_BLOCK \<Longrightarrow> fs_rmap s2 (block_page_to_ppn v q) = FTL_INVALID_LPN"
      by (simp_all add: collecting_def)
    have inv2: "ftl_inv s2" using k2 by (simp add: keeps_def)
    obtain ret3 d where e: "nand_block_erase (fs_nand s2) v = (ret3, d)" by (metis prod.exhaust)
    have "s' = s2\<lparr>fs_nand := d\<rparr>"
      using r Some Next by (simp add: gc_do_recycle_def x s1_def [symmetric] with_nand_eq e Let_def)
    with keeps_trans [OF k2 erase_unmapped [OF inv2 v un e]] show ?thesis by simp
  qed
qed

lemma gc_until_free_keeps:
  assumes "gc_until_free s = Some (ret, s')" "ftl_inv s"
  shows "keeps s s'"
proof -
  have "ftl_inv s \<longrightarrow> keeps s (snd (ret, s'))"
    using assms(1)
  proof (rule gc_until_free.raw_induct [where P = "\<lambda>s r. ftl_inv s \<longrightarrow> keeps s (snd r)", rotated])
    fix f s r
    assume IH: "\<And>s r. f s = Some r \<Longrightarrow> ftl_inv s \<longrightarrow> keeps s (snd r)"
      and r: "(if nand_get_free_block_count (fs_nand s) \<le> FTL_GC_TRIGGER_THRESHOLD
         then let r = gc_do_recycle s in if fst r \<noteq> RET_OK then Some (RET_ERR_NO_SPACE, snd r) else f (snd r)
         else Some (RET_OK, s)) = Some r"
    obtain ret1 s1 where g: "gc_do_recycle s = (ret1, s1)" by (metis prod.exhaust)
    show "ftl_inv s \<longrightarrow> keeps s (snd r)"
    proof
      assume inv: "ftl_inv s"
      note k = gc_do_recycle_keeps [OF inv g]
      then have "ftl_inv s1" by (simp add: keeps_def)
      with IH [of s1 r] k r g show "keeps s (snd r)"
        by (auto simp: Let_def keeps_refl [OF inv] intro: keeps_trans split: if_splits)
    qed
  qed
  with assms(2) show ?thesis by simp
qed

section \<open>Moving a block to a free one\<close>

definition relocating :: "ftl_dev \<Rightarrow> nat \<Rightarrow> nat \<Rightarrow> nat \<Rightarrow> ftl_dev \<Rightarrow> bool" where
  "relocating s0 src dst p s \<longleftrightarrow>
     fs_is_initialized s \<and> chip_ok (fs_nand s) \<and> map_ok s \<and> frontier s \<and> logical s = logical s0 \<and> same_config s0 s \<and>
     (chip_acct (fs_nand s0) \<longrightarrow> chip_acct (fs_nand s)) \<and>
     (\<forall>b. b \<noteq> src \<and> block_state_of (fs_nand s) b = BLOCK_FREE \<longrightarrow> (\<forall>q<NAND_PAGES_PER_BLOCK. b < NAND_TOTAL_BLOCKS \<longrightarrow> \<not> page_valid (fs_nand s) b q)) \<and>
     src < NAND_TOTAL_BLOCKS \<and> dst < NAND_TOTAL_BLOCKS \<and> src \<noteq> dst \<and> fs_cur_block s \<noteq> dst \<and>
     block_state_of (fs_nand s) src \<noteq> BLOCK_BAD \<and> block_state_of (fs_nand s) dst \<noteq> BLOCK_BAD \<and>
     (\<forall>q<NAND_PAGES_PER_BLOCK. p \<le> q \<longrightarrow> \<not> page_valid (fs_nand s) dst q) \<and>
     (\<forall>q<p. fs_rmap s (block_page_to_ppn src q) = FTL_INVALID_LPN)"

lemma relocate_page_step:
  assumes c: "relocating s0 src dst p s" and p: "p < NAND_PAGES_PER_BLOCK"
  shows "relocating s0 src dst (Suc p) (snd (snd (relocate_page src dst p (buf, n, s))))"
proof -
  define old where "old = block_page_to_ppn src p"
  define new where "new = block_page_to_ppn dst p"
  have on: "on_chip src p" "on_chip dst p" using c p by (simp_all add: relocating_def on_chip_def)
  note old = ppn_round_trip [OF on(1), folded old_def] and new = ppn_round_trip [OF on(2), folded new_def]
  have s: "map_ok s" "chip_ok (fs_nand s)" "nd_is_initialized (fs_nand s)" "src \<noteq> dst"
    "block_state_of (fs_nand s) src \<noteq> BLOCK_BAD" "block_state_of (fs_nand s) dst \<noteq> BLOCK_BAD" "\<not> page_valid (fs_nand s) dst p"
    using c p by (simp_all add: relocating_def chip_ok_initialized)
  have mapped: "ppn_page (fs_nand s) old \<noteq> None" if "fs_rmap s old \<noteq> FTL_INVALID_LPN"
    using that map_okD [OF s(1)] old(1) ppn_not_invalid [OF old(1)] by metis
  show ?thesis
  proof (cases "nand_is_page_valid (fs_nand s) src p \<and> fs_rmap s old \<noteq> FTL_INVALID_LPN")
    case False
    have "fs_rmap s old = FTL_INVALID_LPN \<or> ppn_page (fs_nand s) old = None"
      using False on(1) s(3) old
      by (auto simp: ppn_page_def chip_page_def nand_is_page_valid_def nand_is_block_valid_def on_chip_def split: if_splits)
    then have "fs_rmap s old = FTL_INVALID_LPN" using mapped by (elim disjE) (simp, rule ccontr, simp)
    then have "relocating s0 src dst (Suc p) s" using c by (auto simp: relocating_def less_Suc_eq old_def)
    with False \<open>fs_rmap s old = FTL_INVALID_LPN\<close> show ?thesis by (auto simp: relocate_page_def old_def Let_def)
  next
    case True
    then obtain bs where bs: "chip_page (fs_nand s) src p = Some bs" using mapped old by (auto simp: ppn_page_def)
    note len = chip_page_length [OF bs]
    from page_read_ok [OF s(2) bs] obtain d1
      where r: "nand_page_read (fs_nand s) src p True = (RET_OK, Some bs, d1)" "same_store (fs_nand s) d1" .
    note same = same_store_chip [OF r(2)] chip_acct_same_store [OF r(2)]
    have st1: "block_state_of d1 b = block_state_of (fs_nand s) b" "page_valid d1 b = page_valid (fs_nand s) b"
      "nd_is_initialized d1" for b using r(2) s(3) by (simp_all add: same_store_def)
    from page_write_succeeds [OF len st1(3) on(2)] s(6,7)
    obtain d2 where w: "nand_page_write d1 dst p (Some bs) = (RET_OK, d2)" by (auto simp: st1)
    note wb = page_write_blocks [OF w len] and wp = page_write_chip_page [OF w len]
    have ok2: "chip_ok d2" using page_write_chip_ok [OF _ w len] same(2) s(2) by simp
    obtain ret d3 where m: "nand_mark_page_invalid d2 src p = (ret, d3)" by (metis prod.exhaust)
    note mi = mark_invalid_chip [OF ok2 on(1) m]
    have me: "d3 = d2 \<or> (\<exists>st. st \<noteq> BLOCK_BAD \<and> nd_blocks d3 = (nd_blocks d2)(src := (nd_blocks d2 src)
        \<lparr>pb_page_valid := (pb_page_valid (nd_blocks d2 src))(p := False),
         pb_valid_page_cnt := pb_valid_page_cnt (nd_blocks d2 src) - 1, pb_state := st\<rparr>))"
      using m s(4,5) unfolding mark_invalid_eq [OF wb(2) on(1)] by (auto simp: wb(1) st1 split: if_splits)
    define s2 where "s2 = s\<lparr>fs_nand := d2, fs_nand_write_pages := fs_nand_write_pages s + 1\<rparr>"
    define s3 where "s3 = remap (fs_rmap s old) old new s2"
    define s4 where "s4 = s3\<lparr>fs_nand := d3\<rparr>"
    have res: "snd (snd (relocate_page src dst p (buf, n, s))) = s4"
      using True by (simp add: relocate_page_def old_def [symmetric] new_def [symmetric] read_into_def r(1) with_nand_eq w m
          Let_def s4_def s3_def s2_def remap_def)
    have free: "ppn_page (fs_nand s) new = None" using s(7) new by (simp add: ppn_page_def chip_page_def)
    have "ppn_page (fs_nand s2) = (ppn_page (fs_nand s))(new := ppn_page (fs_nand s) old)"
    proof (rule ext)
      fix q
      show "ppn_page (fs_nand s2) q = ((ppn_page (fs_nand s))(new := ppn_page (fs_nand s) old)) q"
      proof (cases "q < FTL_TOTAL_PPNS")
        case True
        then show ?thesis using ppn_eq_iff [OF True new(1)] bs
          by (auto simp: s2_def ppn_page_def wp same(1) new old)
      next
        case False
        then show ?thesis using new(1) by (auto simp: ppn_page_beyond)
      qed
    qed
    from remap_keeps [OF s(1) old(1) _ new(1) free this] True
    have m3: "map_ok s3" "logical s3 = logical s" "fs_rmap s3 = (fs_rmap s)(new := fs_rmap s old, old := FTL_INVALID_LPN)"
      by (simp_all add: s3_def s2_def)
    have ne: "new \<noteq> old" using s(4) old new by metis
    have f: "fs_nand s3 = d2" by (simp add: s3_def s2_def remap_def)
    have "ppn_page (fs_nand s4) ppn = ppn_page (fs_nand s3) ppn"
      if "ppn < FTL_TOTAL_PPNS" "fs_rmap s3 ppn \<noteq> FTL_INVALID_LPN" for ppn
      using that ne ppn_eq_iff [OF that(1) old(1)] old by (auto simp: s4_def f ppn_page_def mi(1) m3(3) split: if_splits)
    from map_ok_weaker_chip [OF m3(1), of s4] this
    have m4: "map_ok s4" "logical s4 = logical s3" by (simp_all add: s4_def)
    have pg4: "chip_page d3 b q = (if (b, q) = (src, p) then None else if (b, q) = (dst, p) then Some bs
        else chip_page (fs_nand s) b q)" for b q by (auto simp: mi(1) wp same(1))
    have fields: "fs_nand s4 = d3" "fs_is_initialized s4 = fs_is_initialized s" "fs_cur_block s4 = fs_cur_block s"
      "fs_cur_page s4 = fs_cur_page s" "fs_rmap s4 = (fs_rmap s)(new := fs_rmap s old, old := FTL_INVALID_LPN)" "same_config s s4"
      by (simp_all add: s4_def m3(3)) (simp_all add: s3_def s2_def remap_def same_config_def)
    have c': "logical s = logical s0" "same_config s0 s" "fs_is_initialized s" "fs_cur_block s \<noteq> dst"
      "src < NAND_TOTAL_BLOCKS" "dst < NAND_TOTAL_BLOCKS" "frontier s" "chip_acct (fs_nand s0) \<longrightarrow> chip_acct (fs_nand s)"
      using c by (simp_all add: relocating_def)
    have front: "frontier s4" using c'(4,7) by (auto simp: frontier_def fields pg4)
    have acct: "chip_acct (fs_nand s0) \<longrightarrow> chip_acct d3"
      using c'(8) chip_acct_mark_invalid [OF _ wb(2) on(1) m] chip_acct_write [OF _ w len] same by simp
    have st4: "block_state_of d3 src \<noteq> BLOCK_BAD" "block_state_of d3 dst = BLOCK_USED"
      "\<And>b. b \<noteq> src \<Longrightarrow> b \<noteq> dst \<Longrightarrow> block_state_of d3 b = block_state_of (fs_nand s) b \<and> page_valid d3 b = page_valid (fs_nand s) b"
      "\<And>q. q \<noteq> p \<Longrightarrow> page_valid d3 dst q = page_valid (fs_nand s) dst q"
      using me s(4,5) by (auto simp: wb(1) st1)
    have clear: "\<not> page_valid d3 b q"
      if "b \<noteq> src" "block_state_of d3 b = BLOCK_FREE" "q < NAND_PAGES_PER_BLOCK" "b < NAND_TOTAL_BLOCKS" for b q
      using that c st4(2) st4(3) [of b] by (cases "b = dst") (auto simp: relocating_def)
    have ahead: "\<not> page_valid d3 dst q" if "q < NAND_PAGES_PER_BLOCK" "Suc p \<le> q" for q
      using that c st4(4) [of q] by (simp add: relocating_def)
    have behind: "fs_rmap s4 (block_page_to_ppn src q) = FTL_INVALID_LPN" if "q < Suc p" for q
    proof -
      have "on_chip src q" using on(1) that by (simp add: on_chip_def)
      from ppn_round_trip [OF this] have "block_page_to_ppn src q \<noteq> new" using s(4) new(2) by metis
      with c that show ?thesis by (auto simp: fields relocating_def less_Suc_eq old_def)
    qed
    show ?thesis
      unfolding res relocating_def fields(1-3)
      using m4 m3(2) mi(2) c'(1-6) s(4) front acct st4(1,2) clear ahead behind same_config_trans [OF c'(2) fields(6)]
      by simp
  qed
qed

text \<open>The whole move with the erase of the source, as static wear leveling and the handling of read
  disturb do it.\<close>

definition relocate_block :: "nat \<Rightarrow> nat \<Rightarrow> ftl_dev \<Rightarrow> u8 list \<times> u32 \<times> ftl_dev" where
  "relocate_block src dst s = fold (relocate_page src dst) [0..<NAND_PAGES_PER_BLOCK] (blank_page, 0, s)"

lemma relocate_block_keeps:
  assumes inv: "ftl_inv s" and src: "block_state_of (fs_nand s) src = BLOCK_USED" "src < NAND_TOTAL_BLOCKS"
    and dst: "block_state_of (fs_nand s) dst = BLOCK_FREE" "dst < NAND_TOTAL_BLOCKS" "fs_cur_block s \<noteq> dst"
    and r: "relocate_block src dst s = (buf, n, s1)"
  shows "keeps s (snd (with_nand (\<lambda>d. nand_block_erase d src) s1))"
proof -
  have start: "relocating s src dst 0 s"
    using inv src dst by (auto simp: relocating_def ftl_inv_def free_clear_def on_chip_def)
  have "relocating s src dst n (snd (snd (fold (relocate_page src dst) [0..<n] (b, k, s))))"
    if "n \<le> NAND_PAGES_PER_BLOCK" for n b k
    using that
  proof (induction n)
    case (Suc n)
    obtain b1 k1 t where t: "fold (relocate_page src dst) [0..<n] (b, k, s) = (b1, k1, t)" by (metis prod.exhaust)
    with Suc have "relocating s src dst n t" by simp
    from relocate_page_step [OF this, of b1 k1] Suc.prems show ?case by (simp add: t)
  qed (use start in simp)
  from this [OF order.refl, of blank_page 0] r
  have R: "relocating s src dst NAND_PAGES_PER_BLOCK s1" by (simp add: relocate_block_def)
  then have s1: "fs_is_initialized s1" "chip_ok (fs_nand s1)" "map_ok s1" "frontier s1" "logical s1 = logical s"
    "same_config s s1" "chip_acct (fs_nand s) \<longrightarrow> chip_acct (fs_nand s1)"
    and un: "\<And>q. q < NAND_PAGES_PER_BLOCK \<Longrightarrow> fs_rmap s1 (block_page_to_ppn src q) = FTL_INVALID_LPN"
    by (simp_all add: relocating_def)
  have clear: "\<not> page_valid (fs_nand s1) b q"
    if "b \<noteq> src" "block_state_of (fs_nand s1) b = BLOCK_FREE" "on_chip b q" for b q
    using R that by (simp add: relocating_def on_chip_def)
  obtain ret d where e: "nand_block_erase (fs_nand s1) src = (ret, d)" by (metis prod.exhaust)
  note i = chip_ok_initialized [OF s1(2)]
  note pages = erase_chip_page [OF i src(2) e]
  define s2 where "s2 = s1\<lparr>fs_nand := d\<rparr>"
  have "ppn_page d ppn = ppn_page (fs_nand s1) ppn" if "ppn < FTL_TOTAL_PPNS" "fs_rmap s1 ppn \<noteq> FTL_INVALID_LPN" for ppn
    using un [of "ppn_to_page ppn"] that ppn_on_chip [OF that(1)] by (auto simp: ppn_page_def pages on_chip_def)
  from map_ok_weaker_chip [OF s1(3), of s2] this have m: "map_ok s2" "logical s2 = logical s1" by (simp_all add: s2_def)
  have "frontier s2" using s1(4) by (auto simp: frontier_def s2_def pages)
  moreover have "free_clear d"
    using i src(2)
  proof (cases rule: erase_cases)
    case bad
    with R show ?thesis by (simp add: relocating_def)
  next
    case (worn d1)
    with e have "d = d1" by simp
    with worn(5) clear show ?thesis by (auto simp: free_clear_def split: if_splits)
  next
    case (erased d1)
    with e have "d = d1" by simp
    with erased(5) clear show ?thesis by (auto simp: free_clear_def split: if_splits)
  qed
  ultimately have "ftl_inv s2"
    using s1(1) m(1) erase_chip_ok [OF s1(2) src(2) e] by (simp add: ftl_inv_def) (simp add: s2_def)
  moreover have "same_config s s2" using s1(6) by (simp add: s2_def same_config_def)
  ultimately show ?thesis
    using m(2) s1(5,7) chip_acct_erase [OF _ i src(2) e]
    by (simp add: keeps_def with_nand_eq e flip: s2_def) (simp add: s2_def)
qed

section \<open>Wear leveling\<close>

lemma wear_leveling_check_facts:
  assumes inv: "ftl_inv s"
  defines "s' \<equiv> wear_leveling_check s"
  shows "ftl_inv s'" "logical s' = logical s" "fs_map_mode s' = fs_map_mode s"
    and "nand_get_block_state (fs_nand s') = nand_get_block_state (fs_nand s)" "fs_cur_block s' = fs_cur_block s"
    and "fs_write_since_last_check s' = fs_write_since_last_check s"
    and "fs_wear_leveling_count s' = fs_wear_leveling_count s \<Longrightarrow> s' = s"
proof -
  consider "s' = s" | b d where "nand_mark_cold_block (fs_nand s) b = (RET_OK, d)"
      "s' = s\<lparr>fs_nand := d, fs_wear_leveling_count := fs_wear_leveling_count s + 1\<rparr>"
    | b ret d where "nand_mark_cold_block (fs_nand s) b = (ret, d)" "ret \<noteq> RET_OK" "s' = s\<lparr>fs_nand := d\<rparr>"
  proof -
    obtain mx mn cold where scan: "fold (wear_scan (fs_nand s)) [0..<FTL_USER_BLOCKS] (0, 0xFFFFFFFF, None) = (mx, mn, cold)"
      by (metis prod.exhaust)
    show thesis
    proof (cases "cold \<noteq> None \<and> FTL_WEAR_DIFF_THRESHOLD < mx - mn")
      case False
      then have "s' = s" by (auto simp: s'_def wear_leveling_check_def scan split: option.splits)
      then show thesis by (rule that(1))
    next
      case True
      then obtain b where b: "cold = Some b" by auto
      obtain ret d where m: "nand_mark_cold_block (fs_nand s) b = (ret, d)" by (metis prod.exhaust)
      show thesis
        using that(2) [of b d] that(3) [OF m] m True
        by (cases "ret = RET_OK") (simp_all add: s'_def wear_leveling_check_def scan b with_nand_eq)
    qed
  qed
  then have "ftl_inv s' \<and> logical s' = logical s \<and> fs_map_mode s' = fs_map_mode s \<and>
      nand_get_block_state (fs_nand s') = nand_get_block_state (fs_nand s) \<and> fs_cur_block s' = fs_cur_block s \<and>
      fs_write_since_last_check s' = fs_write_since_last_check s \<and>
      (fs_wear_leveling_count s' = fs_wear_leveling_count s \<longrightarrow> s' = s)"
  proof cases
    case 1
    with inv show ?thesis by simp
  next
    case (2 b d)
    note cold = mark_cold_chip [OF 2(1)]
    have clear: "free_clear d"
      using inv 2(1) by (auto simp: ftl_inv_def free_clear_def nand_mark_cold_block_def split: if_splits)
    have "map_ok s' = map_ok s" "logical s' = logical s"
      using map_ok_cong [of s' s] cold(1) by (simp_all add: 2(2) ppn_page_def)
    with inv clear cold show ?thesis by (simp add: ftl_inv_def frontier_def 2(2))
  next
    case (3 b ret d)
    then have "d = fs_nand s" by (auto simp: nand_mark_cold_block_def split: if_splits)
    with 3 inv show ?thesis by simp
  qed
  then show "ftl_inv s'" "logical s' = logical s" "fs_map_mode s' = fs_map_mode s"
    "nand_get_block_state (fs_nand s') = nand_get_block_state (fs_nand s)" "fs_cur_block s' = fs_cur_block s"
    "fs_write_since_last_check s' = fs_write_since_last_check s"
    "fs_wear_leveling_count s' = fs_wear_leveling_count s \<Longrightarrow> s' = s" by blast+
qed

lemma static_wear_scan_blocks:
  assumes "fold (static_wear_scan d) xs (a0, None, b0, None) = (a, Some src, b, Some dst)"
  shows "nand_get_block_state d src = BLOCK_USED \<and> nand_get_block_state d dst = BLOCK_FREE"
proof -
  define I where "I = (\<lambda>(a :: u32, src, b :: u32, dst).
      (case src of None \<Rightarrow> True | Some i \<Rightarrow> nand_get_block_state d i = BLOCK_USED) \<and>
      (case dst of None \<Rightarrow> True | Some i \<Rightarrow> nand_get_block_state d i = BLOCK_FREE))"
  have "I (fold (static_wear_scan d) xs (a0, None, b0, None))"
    by (rule fold_invariant_set) (auto simp: I_def static_wear_scan_def Let_def split: if_splits option.splits)
  with assms show ?thesis by (simp add: I_def)
qed

lemma static_wear_keeps:
  assumes inv: "ftl_inv s" and cur: "nand_get_block_state (fs_nand s) (fs_cur_block s) \<noteq> BLOCK_FREE"
  shows "keeps s (static_wear_leveling_check s)"
proof -
  obtain a src b dst where scan: "fold (static_wear_scan (fs_nand s)) [0..<FTL_USER_BLOCKS] (0, None, 0xFFFFFFFF, None) =
      (a, src, b, dst)" by (metis prod.exhaust)
  show ?thesis
  proof (cases "src \<noteq> None \<and> dst \<noteq> None \<and> FTL_STATIC_WEAR_THRESHOLD < a - b")
    case False
    then have "static_wear_leveling_check s = s"
      by (auto simp: static_wear_leveling_check_def scan split: option.splits)
    with inv show ?thesis by (simp add: keeps_refl)
  next
    case True
    then obtain i j where ij: "src = Some i" "dst = Some j" by auto
    from static_wear_scan_blocks [OF scan [unfolded ij]]
    have st: "nand_get_block_state (fs_nand s) i = BLOCK_USED" "nand_get_block_state (fs_nand s) j = BLOCK_FREE" by simp_all
    obtain buf n s1 where r: "relocate_block i j s = (buf, n, s1)" by (metis prod.exhaust)
    obtain ret s2 where e: "with_nand (\<lambda>d. nand_block_erase d i) s1 = (ret, s2)" by (metis prod.exhaust)
    have ne: "fs_cur_block s \<noteq> j" using cur st(2) by auto
    have k: "keeps s s2"
      using relocate_block_keeps [OF inv _ _ _ _ ne r] block_state_get(2) [OF st(1)] block_state_get(1) [OF st(2)] e by simp
    have "static_wear_leveling_check s = s2\<lparr>fs_static_wear_count := fs_static_wear_count s2 + 1,
              fs_static_wear_moved_pages := fs_static_wear_moved_pages s2 + n\<rparr>"
      using True r e by (simp add: static_wear_leveling_check_def scan ij relocate_block_def Let_def)
    then show ?thesis using keeps_counters [OF k] by (simp add: same_config_def)
  qed
qed

lemma write_wear_facts:
  assumes inv: "ftl_inv s" and cur: "nand_get_block_state (fs_nand s) (fs_cur_block s) \<noteq> BLOCK_FREE"
  defines "s' \<equiv> write_wear s"
  shows "ftl_inv s'" "logical s' = logical s" "fs_map_mode s' = fs_map_mode s"
    and "fs_wear_leveling_count s' = fs_wear_leveling_count s \<Longrightarrow> chip_acct (fs_nand s) \<Longrightarrow> chip_acct (fs_nand s')"
proof -
  define s1 where "s1 = wear_leveling_check s"
  note w = wear_leveling_check_facts [OF inv, folded s1_def]
  define s2 where "s2 = s1\<lparr>fs_write_since_last_check :=
     (if FTL_STATIC_WEAR_INTERVAL \<le> fs_write_since_last_check s1 + 1 then 0 else fs_write_since_last_check s1 + 1)\<rparr>"
  have same: "map_ok s2 = map_ok s1" "logical s2 = logical s1" using map_ok_cong [of s2 s1] by (simp_all add: s2_def)
  have inv2: "ftl_inv s2" using w(1) same(1) by (simp add: ftl_inv_def frontier_def s2_def)
  have "nand_get_block_state (fs_nand s2) (fs_cur_block s2) \<noteq> BLOCK_FREE" using cur w(4,5) by (simp add: s2_def)
  note k = static_wear_keeps [OF inv2 this]
  have s': "s' = (if FTL_STATIC_WEAR_INTERVAL \<le> fs_write_since_last_check s1 + 1 then static_wear_leveling_check s2 else s2)"
    by (simp add: s'_def write_wear_def s1_def [symmetric] s2_def Let_def)
  then have k': "keeps s2 s'" using k inv2 by (simp add: keeps_refl)
  then show "ftl_inv s'" "logical s' = logical s" "fs_map_mode s' = fs_map_mode s"
    using same(2) w(2,3) by (simp_all add: keeps_def same_config_def) (simp add: s2_def)
  show "fs_wear_leveling_count s' = fs_wear_leveling_count s \<Longrightarrow> chip_acct (fs_nand s) \<Longrightarrow> chip_acct (fs_nand s')"
    using k' w(7) by (simp add: keeps_def same_config_def) (auto simp: s2_def)
qed

section \<open>Bad-block replacement\<close>

text \<open>The assignment of data to physical pages after the first \<open>n\<close> pages of the block have moved.\<close>

definition pages_moved :: "(nat \<Rightarrow> 'v option) \<Rightarrow> nat \<Rightarrow> nat \<Rightarrow> nat \<Rightarrow> nat \<Rightarrow> 'v option" where
  "pages_moved P b nb n ppn =
     (if ppn < FTL_TOTAL_PPNS \<and> ppn_to_block ppn = nb \<and> ppn_to_page ppn < n
      then P (block_page_to_ppn b (ppn_to_page ppn)) else P ppn)"

lemma replace_remap_loop:
  assumes ok: "tables_ok P (fs_l2p s) (fs_rmap s)" and b: "b < NAND_TOTAL_BLOCKS" "nb < NAND_TOTAL_BLOCKS" "nb \<noteq> b"
    and free: "\<And>q. q < NAND_PAGES_PER_BLOCK \<Longrightarrow> P (block_page_to_ppn nb q) = None" and n: "n \<le> NAND_PAGES_PER_BLOCK"
    and t: "t = snd (fold (replace_remap_page b nb) [0..<n] (m, s))"
  shows "tables_ok (pages_moved P b nb n) (fs_l2p t) (fs_rmap t) \<and>
     tables_view (pages_moved P b nb n) (fs_l2p t) = tables_view P (fs_l2p s) \<and>
     (\<forall>q<n. fs_rmap t (block_page_to_ppn b q) = FTL_INVALID_LPN) \<and>
     t = s\<lparr>fs_l2p := fs_l2p t, fs_rmap := fs_rmap t\<rparr>"
  using n unfolding t
proof (induction n)
  case 0
  have "pages_moved P b nb 0 = P" by (simp add: pages_moved_def fun_eq_iff)
  with ok show ?case by simp
next
  case (Suc n)
  obtain m1 u where u: "fold (replace_remap_page b nb) [0..<n] (m, s) = (m1, u)" by (metis prod.exhaust)
  define Q where "Q = pages_moved P b nb n"
  define old where "old = block_page_to_ppn b n"
  define new where "new = block_page_to_ppn nb n"
  have on: "on_chip b n" "on_chip nb n" using b Suc.prems by (simp_all add: on_chip_def)
  note old = ppn_round_trip [OF on(1), folded old_def] and new = ppn_round_trip [OF on(2), folded new_def]
  have IH: "tables_ok Q (fs_l2p u) (fs_rmap u)" "tables_view Q (fs_l2p u) = tables_view P (fs_l2p s)"
    "\<And>q. q < n \<Longrightarrow> fs_rmap u (block_page_to_ppn b q) = FTL_INVALID_LPN" "u = s\<lparr>fs_l2p := fs_l2p u, fs_rmap := fs_rmap u\<rparr>"
    using Suc u by (simp_all add: Q_def)
  have Qn: "Q new = None" using free [of n] Suc.prems new by (simp add: Q_def pages_moved_def new_def)
  have Qo: "Q old = P old" using b(3) old by (simp add: Q_def pages_moved_def)
  have next_Q: "pages_moved P b nb (Suc n) = Q(new := Q old)"
  proof (rule ext)
    fix x
    show "pages_moved P b nb (Suc n) x = (Q(new := Q old)) x"
      using ppn_eq_iff [of x new] new Qo
      by (cases "x < FTL_TOTAL_PPNS") (auto simp: Q_def pages_moved_def less_Suc_eq old_def)
  qed
  have ne: "block_page_to_ppn b q \<noteq> new" if "q < Suc n" for q
  proof -
    have "on_chip b q" using on(1) that by (simp add: on_chip_def)
    from ppn_round_trip [OF this] show ?thesis using b(3) new(2) by metis
  qed
  show ?case
  proof (cases "fs_rmap u old = FTL_INVALID_LPN")
    case True
    have "fs_rmap u new = FTL_INVALID_LPN" by (rule tables_unmapped [OF IH(1) new(1) Qn])
    then have "\<And>ppn. ppn < FTL_TOTAL_PPNS \<Longrightarrow> fs_rmap u ppn \<noteq> FTL_INVALID_LPN \<Longrightarrow> (Q(new := Q old)) ppn = Q ppn" by auto
    note w = tables_weaker [OF IH(1) this]
    have "replace_remap_page b nb n (m1, u) = (m1, u)"
      using True by (simp add: replace_remap_page_def old_def)
    then have stay: "snd (fold (replace_remap_page b nb) [0..<Suc n] (m, s)) = u" by (simp add: u)
    show ?thesis unfolding stay next_Q
      using w IH True by (auto simp: less_Suc_eq old_def)
  next
    case False
    note r = tables_remap [OF IH(1) old(1) False new(1) Qn]
    have "\<forall>q<Suc n. ((fs_rmap u)(new := fs_rmap u old, old := FTL_INVALID_LPN)) (block_page_to_ppn b q) = FTL_INVALID_LPN"
      using IH(3) ne by (auto simp: less_Suc_eq old_def)
    moreover have "remap l old new u = s\<lparr>fs_l2p := (fs_l2p u)(l := new), fs_rmap := (fs_rmap u)(new := l, old := FTL_INVALID_LPN)\<rparr>" for l
      by (subst IH(4)) (simp add: remap_def)
    moreover have "snd (fold (replace_remap_page b nb) [0..<Suc n] (m, s)) = remap (fs_rmap u old) old new u"
      using False by (simp add: u replace_remap_page_def old_def new_def Let_def)
    ultimately show ?thesis
      using r IH(2) unfolding next_Q by (simp add: remap_def del: fun_upd_apply)
  qed
qed

lemma replace_keeps:
  assumes inv: "ftl_inv s" and cur: "fs_cur_block s = b \<or> nand_get_block_state (fs_nand s) (fs_cur_block s) \<noteq> BLOCK_FREE"
    and r: "ftl_replace_bad_block s b = (ret, s')"
  shows "keeps s s'"
proof -
  have init: "fs_is_initialized s" "chip_ok (fs_nand s)" "free_clear (fs_nand s)" "map_ok s" "frontier s"
    using inv by (simp_all add: ftl_inv_def)
  show ?thesis
  proof (cases "b < NAND_TOTAL_BLOCKS")
    case False
    with r init inv show ?thesis by (simp add: ftl_replace_bad_block_def keeps_refl)
  next
    case True
    obtain ret1 onb d where rep: "nand_replace_bad_block (fs_nand s) b True = (ret1, onb, d)" by (metis prod.exhaust)
    show ?thesis
    proof (cases "ret1 = RET_OK")
      case False
      with replace_bad_block_failed [OF rep] have "d = fs_nand s" by simp
      with r rep init True False inv show ?thesis
        by (cases ret1) (simp_all add: ftl_replace_bad_block_def keeps_refl)
    next
      case ok: True
      from replace_bad_block_Some [OF rep [unfolded ok]] obtain nb where nb: "onb = Some nb" by auto
      note f = replace_bad_block_facts [OF init(2,3) rep [unfolded ok nb]]
      obtain m t where t: "fold (replace_remap_page b nb) [0..<NAND_PAGES_PER_BLOCK] (0, s\<lparr>fs_nand := d\<rparr>) = (m, t)"
        by (metis prod.exhaust)
      define P where "P = ppn_page (fs_nand s)"
      have on: "on_chip nb q" if "q < NAND_PAGES_PER_BLOCK" for q using f(2) that by (simp add: on_chip_def)
      have "P (block_page_to_ppn nb q) = None" if "q < NAND_PAGES_PER_BLOCK" for q
        using free_clear_page [OF init(3) f(4)] ppn_round_trip [OF on [OF that]] by (simp add: P_def ppn_page_def)
      note loop = replace_remap_loop [where s = "s\<lparr>fs_nand := d\<rparr>" and m = 0 and P = P, OF _ f(1-3) this order.refl refl, unfolded t]
      define Q where "Q = pages_moved P b nb NAND_PAGES_PER_BLOCK"
      have L: "tables_ok Q (fs_l2p t) (fs_rmap t)" "tables_view Q (fs_l2p t) = logical s"
        "\<And>q. q < NAND_PAGES_PER_BLOCK \<Longrightarrow> fs_rmap t (block_page_to_ppn b q) = FTL_INVALID_LPN"
        "t = s\<lparr>fs_nand := d, fs_l2p := fs_l2p t, fs_rmap := fs_rmap t\<rparr>"
        using loop init(4) by (simp_all add: map_ok_tables logical_tables P_def Q_def)
      have dQ: "ppn_page d ppn = Q ppn" if "ppn < FTL_TOTAL_PPNS" "fs_rmap t ppn \<noteq> FTL_INVALID_LPN" for ppn
      proof -
        note c = ppn_on_chip [OF that(1)]
        have "ppn_to_block ppn \<noteq> b" using L(3) [of "ppn_to_page ppn"] that(2) c by (auto simp: on_chip_def)
        moreover have "on_chip b (ppn_to_page ppn)" "ppn_to_page ppn < NAND_PAGES_PER_BLOCK" using c(1) f(1) by (simp_all add: on_chip_def)
        ultimately show ?thesis
          using that(1) by (simp add: ppn_page_def f(5) Q_def pages_moved_def P_def ppn_round_trip)
      qed
      note W = tables_weaker [OF L(1) dQ]
      define u where "u = t\<lparr>fs_bad_block_replace_count := fs_bad_block_replace_count t + 1,
          fs_bad_block_moved_pages := fs_bad_block_moved_pages t + m,
          fs_cur_block := (if fs_cur_block t = b then nb else fs_cur_block t)\<rparr>"
      have s': "s' = u"
        using r rep init True by (auto simp: ftl_replace_bad_block_def ok nb t Let_def u_def)
      have nd: "fs_nand u = d" "fs_l2p u = fs_l2p t" "fs_rmap u = fs_rmap t" "fs_is_initialized u"
        "fs_cur_page u = fs_cur_page s" "fs_cur_block u = (if fs_cur_block s = b then nb else fs_cur_block s)" "same_config s u"
        using init(1) by (simp_all add: u_def) (subst L(4), simp add: same_config_def)+
      have "map_ok u" "logical u = logical s" using W L(2) by (simp_all add: map_ok_tables logical_tables nd)
      moreover have "frontier u"
      proof -
        have "fs_cur_block s \<noteq> nb" using f(3,4) cur init(5)
          by (auto simp: nand_get_block_state_def frontier_def block_valid_on_chip [OF chip_ok_initialized [OF init(2)]])
        with init(5) f(1,2) show ?thesis by (auto simp: frontier_def nd f(5))
      qed
      ultimately show ?thesis using f(6-8) nd(4,7) by (simp add: s' keeps_def ftl_inv_def nd(1))
    qed
  qed
qed

section \<open>Writing\<close>

text \<open>The data is on a page that was unused, the tables are as before.\<close>

definition data_on :: "ftl_dev \<Rightarrow> u8 list \<Rightarrow> nat \<Rightarrow> ftl_dev \<Rightarrow> bool" where
  "data_on t bs ppn s \<longleftrightarrow> ppn < FTL_TOTAL_PPNS \<and> ppn_page (fs_nand t) ppn = None \<and>
     ppn_page (fs_nand s) = (ppn_page (fs_nand t))(ppn := Some bs) \<and> fs_l2p s = fs_l2p t \<and> fs_rmap s = fs_rmap t \<and>
     fs_is_initialized s \<and> chip_ok (fs_nand s) \<and> free_clear (fs_nand s) \<and> frontier s \<and> same_config t s \<and>
     (chip_acct (fs_nand t) \<longrightarrow> chip_acct (fs_nand s)) \<and> fs_cur_block s = ppn_to_block ppn"

lemma write_allocated_data_on:
  assumes inv: "ftl_inv s" and ppn: "ppn < FTL_TOTAL_PPNS" "ppn_page (fs_nand s) ppn = None"
    and pos: "fs_cur_block s = ppn_to_block ppn" "ppn_to_page ppn < fs_cur_page s" and len: "length bs = NAND_PAGE_SIZE"
    and w: "with_nand (\<lambda>d. nand_page_write d (ppn_to_block ppn) (ppn_to_page ppn) (Some bs)) s = (ret, s')"
  shows "ret = RET_OK \<Longrightarrow> data_on s bs ppn s'" "ret \<noteq> RET_OK \<Longrightarrow> s' = s"
proof -
  obtain d where d: "nand_page_write (fs_nand s) (ppn_to_block ppn) (ppn_to_page ppn) (Some bs) = (ret, d)"
    and s': "s' = s\<lparr>fs_nand := d\<rparr>"
    using w by (simp add: with_nand_eq) (metis prod.collapse)
  note wa = write_allocated [OF inv ppn pos len d]
  show "ret = RET_OK \<Longrightarrow> data_on s bs ppn s'"
    using inv wa ppn pos by (simp add: data_on_def s' ftl_inv_def same_config_def)
  show "ret \<noteq> RET_OK \<Longrightarrow> s' = s" using wa(5) by (simp add: s')
qed

lemma write_data_facts:
  assumes inv: "ftl_inv s" and ppn0: "ppn0 < FTL_TOTAL_PPNS" "ppn_page (fs_nand s) ppn0 = None"
    and pos: "fs_cur_block s = ppn_to_block ppn0" "ppn_to_page ppn0 < fs_cur_page s" and len: "length bs = NAND_PAGE_SIZE"
    and w: "write_data bs ppn0 s = (ret, ppn, s')"
  shows "ret \<noteq> RET_OK \<Longrightarrow> keeps s s'" "ret = RET_OK \<Longrightarrow> \<exists>t. keeps s t \<and> data_on t bs ppn s'"
proof -
  obtain ret1 s1 where w1: "with_nand (\<lambda>d. nand_page_write d (ppn_to_block ppn0) (ppn_to_page ppn0) (Some bs)) s = (ret1, s1)"
    by (metis prod.exhaust)
  note d1 = write_allocated_data_on [OF inv ppn0 pos len w1]
  have "(ret \<noteq> RET_OK \<longrightarrow> keeps s s') \<and> (ret = RET_OK \<longrightarrow> (\<exists>t. keeps s t \<and> data_on t bs ppn s'))"
  proof (cases "ret1 = RET_ERR_BAD_BLOCK")
    case False
    then have "ret = ret1" "ppn = ppn0" "s' = s1" using w by (simp_all add: write_data_def w1)
    with d1 keeps_refl [OF inv] show ?thesis by auto
  next
    case True
    then have s1: "s1 = s" using d1(2) by simp
    obtain ret2 s2 where r: "ftl_replace_bad_block s (ppn_to_block ppn0) = (ret2, s2)" by (metis prod.exhaust)
    have k2: "keeps s s2" by (rule replace_keeps [OF inv _ r]) (simp add: pos(1))
    then have inv2: "ftl_inv s2" by (simp add: keeps_def)
    show ?thesis
    proof (cases "ret2 = RET_OK")
      case False
      with w True k2 show ?thesis by (auto simp: write_data_def w1 s1 r)
    next
      case ok2: True
      obtain a3 s3 where a3: "ftl_alloc_phy_page s2 = (a3, s3)" by (metis prod.exhaust)
      note k3 = keeps_trans [OF k2 alloc_keeps [OF inv2 a3]]
      show ?thesis
      proof (cases a3)
        case None
        with w True ok2 a3 k3 show ?thesis by (auto simp: write_data_def w1 s1 r)
      next
        case (Some ppn1)
        note g = alloc_facts [OF inv2 a3 [unfolded Some]]
        have pos3: "fs_cur_block s3 = ppn_to_block ppn1" "ppn_to_page ppn1 < fs_cur_page s3" using g(8,9) by simp_all
        have free3: "ppn_page (fs_nand s3) ppn1 = None" using g(2,3) by simp
        obtain ret4 s4 where w4: "with_nand (\<lambda>d. nand_page_write d (ppn_to_block ppn1) (ppn_to_page ppn1) (Some bs)) s3 = (ret4, s4)"
          by (metis prod.exhaust)
        note d4 = write_allocated_data_on [OF g(11,1) free3 pos3 len w4]
        have "ret = ret4" "ppn = ppn1" "s' = s4" using w True ok2 Some by (simp_all add: write_data_def w1 s1 r a3 w4)
        with d4 k3 show ?thesis by auto
      qed
    qed
  qed
  then show "ret \<noteq> RET_OK \<Longrightarrow> keeps s s'" "ret = RET_OK \<Longrightarrow> \<exists>t. keeps s t \<and> data_on t bs ppn s'" by blast+
qed

text \<open>Redirecting a logical page to new data at the level of the tables.\<close>

lemma tables_write:
  assumes ok: "tables_ok P l r" and lpn: "lpn < FTL_TOTAL_LPNS" and new: "new < FTL_TOTAL_PPNS" "P new = None"
  defines "r1 \<equiv> if l lpn \<noteq> FTL_INVALID_PPN then r(l lpn := FTL_INVALID_LPN) else r"
  shows "tables_ok (P(new := Some v)) (l(lpn := new)) (r1(new := lpn))"
    "tables_view (P(new := Some v)) (l(lpn := new)) = (tables_view P l)(lpn := Some v)"
    "(r1(new := lpn)) ppn \<noteq> FTL_INVALID_LPN \<Longrightarrow> l lpn \<noteq> FTL_INVALID_PPN \<Longrightarrow> ppn \<noteq> l lpn"
proof -
  have other: "l x \<noteq> new \<and> l x \<noteq> l lpn" if "x < FTL_TOTAL_LPNS" "l x \<noteq> FTL_INVALID_PPN" "x \<noteq> lpn" for x
    using tables_okD(1) [OF ok that(1,2)] tables_okD(1) [OF ok lpn] that new(2) by metis
  have old: "l lpn \<noteq> new" if "l lpn \<noteq> FTL_INVALID_PPN"
    using tables_okD(1) [OF ok lpn that] new(2) by auto
  show "tables_ok (P(new := Some v)) (l(lpn := new)) (r1(new := lpn))" unfolding tables_ok_def
  proof (intro conjI allI impI)
    fix x assume x: "x < FTL_TOTAL_LPNS" "(l(lpn := new)) x \<noteq> FTL_INVALID_PPN"
    show "(l(lpn := new)) x < FTL_TOTAL_PPNS" "(r1(new := lpn)) ((l(lpn := new)) x) = x"
      "(P(new := Some v)) ((l(lpn := new)) x) \<noteq> None"
      using x other [of x] tables_okD(1) [OF ok x(1)] new(1) by (auto simp: r1_def split: if_splits)
  next
    fix ppn assume p: "ppn < FTL_TOTAL_PPNS" "(r1(new := lpn)) ppn \<noteq> FTL_INVALID_LPN"
    show "(r1(new := lpn)) ppn < FTL_TOTAL_LPNS" "(l(lpn := new)) ((r1(new := lpn)) ppn) = ppn"
      using p tables_okD(2) [OF ok p(1)] lpn ppn_not_invalid [OF p(1)] by (auto simp: r1_def split: if_splits)
  qed
  show "tables_view (P(new := Some v)) (l(lpn := new)) = (tables_view P l)(lpn := Some v)"
    using other lpn ppn_not_invalid [OF new(1)] by (auto simp: tables_view_def fun_eq_iff)
  show "(r1(new := lpn)) ppn \<noteq> FTL_INVALID_LPN \<Longrightarrow> l lpn \<noteq> FTL_INVALID_PPN \<Longrightarrow> ppn \<noteq> l lpn"
    using old by (auto simp: r1_def split: if_splits)
qed

lemma write_commit_facts:
  assumes inv: "ftl_inv t" and acct: "chip_acct (fs_nand t)" and d: "data_on t bs ppn s" and lpn: "lpn < FTL_TOTAL_LPNS"
  shows "\<exists>s'. write_commit lpn ppn s = Some s' \<and> ftl_inv s' \<and> chip_acct (fs_nand s') \<and>
     logical s' = (logical t)(lpn := Some bs) \<and> same_config t s' \<and>
     nand_get_block_state (fs_nand s') (fs_cur_block s') \<noteq> BLOCK_FREE"
proof -
  from d have D: "ppn < FTL_TOTAL_PPNS" "ppn_page (fs_nand t) ppn = None"
    "ppn_page (fs_nand s) = (ppn_page (fs_nand t))(ppn := Some bs)" "fs_l2p s = fs_l2p t" "fs_rmap s = fs_rmap t"
    "fs_is_initialized s" "chip_ok (fs_nand s)" "free_clear (fs_nand s)" "frontier s" "same_config t s"
    "chip_acct (fs_nand s)" "fs_cur_block s = ppn_to_block ppn"
    using acct by (simp_all add: data_on_def)
  have ok: "tables_ok (ppn_page (fs_nand t)) (fs_l2p t) (fs_rmap t)"
    using inv by (simp add: ftl_inv_def map_ok_tables)
  note T = tables_write(1,2) [where v = bs, OF ok lpn D(1,2)] tables_write(3) [OF ok lpn D(1,2)]
  define old where "old = fs_l2p t lpn"
  define d where "d = (if old \<noteq> FTL_INVALID_PPN
      then snd (nand_mark_page_invalid (fs_nand s) (ppn_to_block old) (ppn_to_page old)) else fs_nand s)"
  define s' where "s' = s\<lparr>fs_host_write_pages := fs_host_write_pages s + 1, fs_nand_write_pages := fs_nand_write_pages s + 1,
      fs_nand := d, fs_l2p := (fs_l2p t)(lpn := ppn),
      fs_rmap := (if fs_l2p t lpn \<noteq> FTL_INVALID_PPN then (fs_rmap t)(fs_l2p t lpn := FTL_INVALID_LPN) else fs_rmap t)(ppn := lpn)\<rparr>"
  have old: "old < FTL_TOTAL_PPNS" "on_chip (ppn_to_block old) (ppn_to_page old)" if "old \<noteq> FTL_INVALID_PPN"
    using tables_okD(1) [OF ok lpn] ppn_on_chip(1) [of old] that by (simp_all add: old_def)
  have res: "write_commit lpn ppn s = Some s'"
    using old(1) D(1,4,5)
    by (simp add: write_commit_def with_nand_eq set_rmap_checked_def Let_def s'_def d_def old_def split_beta)
  have chip: "chip_ok d" "chip_acct d"
    "chip_page d b p = (if old \<noteq> FTL_INVALID_PPN \<and> (b, p) = (ppn_to_block old, ppn_to_page old) then None
        else chip_page (fs_nand s) b p)" for b p
  proof -
    have "chip_ok d \<and> chip_acct d \<and> chip_page d b p =
       (if old \<noteq> FTL_INVALID_PPN \<and> (b, p) = (ppn_to_block old, ppn_to_page old) then None else chip_page (fs_nand s) b p)"
    proof (cases "old = FTL_INVALID_PPN")
      case False
      obtain ret d0 where m: "nand_mark_page_invalid (fs_nand s) (ppn_to_block old) (ppn_to_page old) = (ret, d0)"
        by (metis prod.exhaust)
      with mark_invalid_chip [OF D(7) old(2) [OF False] m] False
        chip_acct_mark_invalid [OF D(11) chip_ok_initialized [OF D(7)] old(2) [OF False] m]
      show ?thesis by (simp add: d_def)
    qed (use D(7,11) in \<open>simp add: d_def\<close>)
    then show "chip_ok d" "chip_acct d"
      "chip_page d b p = (if old \<noteq> FTL_INVALID_PPN \<and> (b, p) = (ppn_to_block old, ppn_to_page old) then None
        else chip_page (fs_nand s) b p)" by blast+
  qed
  have "ppn_page d q = (ppn_page (fs_nand s)) q" if "q < FTL_TOTAL_PPNS" "fs_rmap s' q \<noteq> FTL_INVALID_LPN" for q
  proof (cases "old = FTL_INVALID_PPN")
    case False
    then have "q \<noteq> old" using T(3) [of q] that(2) by (simp add: s'_def old_def del: fun_upd_apply)
    with ppn_eq_iff [OF that(1) old(1) [OF False]] show ?thesis by (auto simp: ppn_page_def chip(3))
  qed (simp add: ppn_page_def chip(3))
  then have "ppn_page d q = ((ppn_page (fs_nand t))(ppn := Some bs)) q"
    if "q < FTL_TOTAL_PPNS" "fs_rmap s' q \<noteq> FTL_INVALID_LPN" for q
    using that D(3) by metis
  from tables_weaker [OF T(1), of "ppn_page d"] this
  have "map_ok s'" "logical s' = (logical t)(lpn := Some bs)"
    using T(2) by (simp_all add: map_ok_tables logical_tables s'_def)
  moreover have "frontier s'" using D(9) by (auto simp: frontier_def s'_def chip(3))
  moreover have "ppn_page d ppn = Some bs"
    using D(1-3) old(1) ppn_eq_iff [OF D(1), of old] tables_okD(1) [OF ok lpn]
    by (auto simp: ppn_page_def chip(3) fun_eq_iff old_def split: if_splits)
  then have "block_state_of d (ppn_to_block ppn) \<noteq> BLOCK_FREE"
    using free_clear_page [OF chip_acct_free_clear [OF chip(2)]] by (auto simp: ppn_page_def)
  ultimately show ?thesis
    using res chip(1,2) D(6,10,12) chip_acct_free_clear [OF chip(2)]
    by (auto simp: ftl_inv_def s'_def same_config_def nand_get_block_state_def)
qed

lemma wal_append_fields:
  assumes "ftl_wal_append s e = (ret, s')"
  shows "fs_nand s' = fs_nand s" "fs_l2p s' = fs_l2p s" "fs_rmap s' = fs_rmap s" "fs_cur_block s' = fs_cur_block s"
    "fs_cur_page s' = fs_cur_page s" "fs_is_initialized s' = fs_is_initialized s" "fs_map_mode s' = fs_map_mode s"
    "fs_wear_leveling_count s' = fs_wear_leveling_count s"
  using assms by (auto simp: ftl_wal_append_def Let_def split: option.splits if_splits)

text \<open>States that differ in the log and in statistics only.\<close>

lemma ftl_inv_log:
  assumes "fs_nand s' = fs_nand s" "fs_l2p s' = fs_l2p s" "fs_rmap s' = fs_rmap s" "fs_cur_block s' = fs_cur_block s"
    "fs_cur_page s' = fs_cur_page s" "fs_is_initialized s' = fs_is_initialized s"
  shows "ftl_inv s' = ftl_inv s" "logical s' = logical s" "frontier s' = frontier s" "map_ok s' = map_ok s"
  using assms map_ok_cong [of s' s] by (simp_all add: ftl_inv_def frontier_def)

lemma wal_log_write_fields:
  assumes "wal_log_write s lpn old new = (ret, s')"
  shows "ftl_inv s' = ftl_inv s" "logical s' = logical s" "fs_nand s' = fs_nand s" "fs_map_mode s' = fs_map_mode s"
    "fs_wear_leveling_count s' = fs_wear_leveling_count s" "fs_cur_block s' = fs_cur_block s" "fs_cur_page s' = fs_cur_page s"
  using assms wal_append_fields ftl_inv_log [of s' s]
  by (auto simp: wal_log_write_def split: if_splits)

end
