(* ===== verification/FtlHost.thy ===== *)
theory FtlHost
  imports FtlSafety PageStore
begin

text \<open>
  The host's view of the FTL: reads, writes and trims as operations on the map \<open>logical\<close>, set up, the
  interpretation of the page-store interface on them, and the choice of the victim of greedy
  garbage collection.
\<close>

text \<open>What a device has to satisfy to be written to in page mode: the invariant with exact accounting.\<close>

definition ftl_ready :: "ftl_dev \<Rightarrow> bool" where
  "ftl_ready s \<longleftrightarrow> ftl_inv s \<and> chip_acct (fs_nand s) \<and> fs_map_mode s = MAP_MODE_PAGE"

lemma keeps_ready: "ftl_ready s \<Longrightarrow> keeps s s' \<Longrightarrow> ftl_ready s' \<and> logical s' = logical s \<and>
    fs_wear_leveling_count s' = fs_wear_leveling_count s"
  by (simp add: ftl_ready_def keeps_def same_config_def)

lemma ftl_write_facts:
  assumes ready: "ftl_ready s" and len: "length bs = NAND_PAGE_SIZE" and w: "ftl_write s lpn (Some bs) = Some (ret, s')"
  shows "ret \<noteq> RET_OK \<Longrightarrow> ftl_ready s' \<and> logical s' = logical s"
    and "ret = RET_OK \<Longrightarrow> lpn < FTL_TOTAL_LPNS \<and> ftl_inv s' \<and> fs_map_mode s' = MAP_MODE_PAGE \<and>
        logical s' = (logical s)(lpn := Some bs) \<and>
        (fs_wear_leveling_count s' = fs_wear_leveling_count s \<longrightarrow> chip_acct (fs_nand s'))"
proof -
  have init: "fs_is_initialized s" using ready by (simp add: ftl_ready_def ftl_inv_def)
  have *: "if ret = RET_OK then lpn < FTL_TOTAL_LPNS \<and> ftl_inv s' \<and> fs_map_mode s' = MAP_MODE_PAGE \<and>
        logical s' = (logical s)(lpn := Some bs) \<and>
        (fs_wear_leveling_count s' = fs_wear_leveling_count s \<longrightarrow> chip_acct (fs_nand s'))
     else ftl_ready s' \<and> logical s' = logical s"
  proof (cases "lpn < FTL_TOTAL_LPNS")
    case False
    with w init ready show ?thesis by (simp add: ftl_write_def split: if_splits)
  next
    case lpn: True
    with w init obtain ret1 s1 where g: "gc_until_free s = Some (ret1, s1)"
      by (auto simp: ftl_write_def split: bind_splits)
    have k1: "keeps s s1" by (rule gc_until_free_keeps [OF g]) (use ready in \<open>simp add: ftl_ready_def\<close>)
    note r1 = keeps_ready [OF ready k1]
    then have inv1: "ftl_inv s1" by (simp add: ftl_ready_def)
    show ?thesis
    proof (cases "ret1 = RET_OK")
      case False
      with w init lpn g r1 show ?thesis by (auto simp: ftl_write_def)
    next
      case ok1: True
      obtain a s2 where a: "ftl_alloc_phy_page s1 = (a, s2)" by (metis prod.exhaust)
      have k2: "keeps s1 s2" by (rule alloc_keeps [OF inv1 a])
      note r2 = keeps_ready [OF conjunct1 [OF r1] k2]
      show ?thesis
      proof (cases a)
        case None
        with w init lpn g ok1 a r1 r2 show ?thesis by (auto simp: ftl_write_def)
      next
        case (Some ppn0)
        note f = alloc_facts [OF inv1 a [unfolded Some]]
        obtain ret3 s3 where l: "wal_log_write s2 lpn (fs_l2p s2 lpn) ppn0 = (ret3, s3)" by (metis prod.exhaust)
        note L = wal_log_write_fields [OF l]
        have r3: "ftl_ready s3" using r2 L by (simp add: ftl_ready_def)
        have log3: "logical s3 = logical s" "fs_wear_leveling_count s3 = fs_wear_leveling_count s"
          using r1 r2 L by simp_all
        show ?thesis
        proof (cases "ret3 = RET_OK")
          case False
          with w init lpn g ok1 a Some l r3 log3 show ?thesis by (auto simp: ftl_write_def)
        next
          case ok3: True
          obtain ret4 ppn s4 where wd: "write_data bs ppn0 s3 = (ret4, ppn, s4)" by (metis prod.exhaust)
          have inv3: "ftl_inv s3" using r3 by (simp add: ftl_ready_def)
          have pos: "ppn_page (fs_nand s3) ppn0 = None" "fs_cur_block s3 = ppn_to_block ppn0" "ppn_to_page ppn0 < fs_cur_page s3"
            using f L by simp_all
          note D = write_data_facts [OF inv3 f(1) pos len wd]
          show ?thesis
          proof (cases "ret4 = RET_OK")
            case False
            with keeps_ready [OF r3 D(1)] w init lpn g ok1 a Some l ok3 wd log3 show ?thesis
              by (auto simp: ftl_write_def)
          next
            case ok4: True
            from D(2) [OF ok4] obtain t where t: "keeps s3 t" "data_on t bs ppn s4" by blast
            note rt = keeps_ready [OF r3 t(1)]
            from write_commit_facts [OF _ _ t(2) lpn] rt obtain s5 where s5: "write_commit lpn ppn s4 = Some s5"
              "ftl_inv s5" "chip_acct (fs_nand s5)" "logical s5 = (logical t)(lpn := Some bs)" "same_config t s5"
              "nand_get_block_state (fs_nand s5) (fs_cur_block s5) \<noteq> BLOCK_FREE"
              by (auto simp: ftl_ready_def)
            note ww = write_wear_facts [OF s5(2,6)]
            have mode: "fs_map_mode (write_wear s5) = MAP_MODE_PAGE"
              using ww(3) s5(5) rt by (simp add: same_config_def ftl_ready_def)
            have "ret = RET_OK \<and> s' = write_wear s5"
              using w init lpn g ok1 a Some l ok3 wd ok4 s5(1) mode by (simp add: ftl_write_def write_hybrid_def)
            with ww mode s5(3-5) rt log3 lpn show ?thesis by (simp add: same_config_def)
          qed
        qed
      qed
    qed
  qed
  then show "ret \<noteq> RET_OK \<Longrightarrow> ftl_ready s' \<and> logical s' = logical s"
    and "ret = RET_OK \<Longrightarrow> lpn < FTL_TOTAL_LPNS \<and> ftl_inv s' \<and> fs_map_mode s' = MAP_MODE_PAGE \<and>
        logical s' = (logical s)(lpn := Some bs) \<and>
        (fs_wear_leveling_count s' = fs_wear_leveling_count s \<longrightarrow> chip_acct (fs_nand s'))" by simp_all
qed

text \<open>On a chip without wear, wear leveling marks no block as cold.\<close>

lemma wear_scan_even:
  assumes "\<And>b. nand_get_block_erase_count d b = 0"
  shows "\<exists>m c. fold (wear_scan d) [0..<n] (0, 0xFFFFFFFF, None) = (0, m, c) \<and> (m = 0 \<or> c = None)"
proof (induction n)
  case (Suc n)
  then obtain m c where "fold (wear_scan d) [0..<n] (0, 0xFFFFFFFF, None) = (0, m, c)" "m = 0 \<or> c = None" by blast
  moreover have "\<exists>m' c'. wear_scan d n (0, m, c) = (0, m', c') \<and> (m' = 0 \<or> c' = None)"
    using \<open>m = 0 \<or> c = None\<close> unfolding wear_scan_def by (simp add: assms Let_def)
  ultimately show ?case by simp
qed simp

lemma write_wear_count:
  assumes inv: "ftl_inv s" and cur: "nand_get_block_state (fs_nand s) (fs_cur_block s) \<noteq> BLOCK_FREE"
    and w: "wear_leveling_check s = s"
  shows "fs_wear_leveling_count (write_wear s) = fs_wear_leveling_count s"
proof -
  define s2 where "s2 = s\<lparr>fs_write_since_last_check := 0\<rparr>"
  have "map_ok s2 = map_ok s" by (rule map_ok_cong) (simp_all add: s2_def)
  then have "ftl_inv s2" using inv by (simp add: ftl_inv_def frontier_def s2_def)
  from static_wear_keeps [OF this] cur have "keeps s2 (static_wear_leveling_check s2)" by (simp add: s2_def)
  then show ?thesis by (simp add: write_wear_def Let_def w s2_def keeps_def same_config_def)
qed

lemma wear_leveling_even:
  assumes "\<And>b. nand_get_block_erase_count (fs_nand s) b = 0"
  shows "wear_leveling_check s = s"
  using wear_scan_even [OF assms, of FTL_USER_BLOCKS]
  by (auto simp: wear_leveling_check_def FTL_WEAR_DIFF_THRESHOLD_def split: option.splits)

text \<open>When no collection is needed and the write position lies in a good block, a write succeeds.\<close>

lemma ftl_write_succeeds:
  assumes ready: "ftl_ready s" and len: "length bs = NAND_PAGE_SIZE" and lpn: "lpn < FTL_TOTAL_LPNS"
    and room: "FTL_GC_TRIGGER_THRESHOLD < nand_get_free_block_count (fs_nand s)" "fs_cur_page s < NAND_PAGES_PER_BLOCK"
      "nand_get_block_state (fs_nand s) (fs_cur_block s) \<noteq> BLOCK_BAD"
    and wal: "fs_wal_file s \<noteq> None \<longrightarrow> hf_writable (fs_files s)"
  shows "\<exists>s'. ftl_write s lpn (Some bs) = Some (RET_OK, s') \<and>
     ((\<forall>b. nand_get_block_erase_count (fs_nand s) b = 0) \<longrightarrow> fs_l2p s lpn = FTL_INVALID_PPN \<longrightarrow>
        fs_wear_leveling_count s' = fs_wear_leveling_count s)"
proof -
  have inv: "ftl_inv s" "fs_is_initialized s" "chip_acct (fs_nand s)" "chip_ok (fs_nand s)"
    using ready by (simp_all add: ftl_ready_def ftl_inv_def)
  have g: "gc_until_free s = Some (RET_OK, s)" using room(1) by (subst gc_until_free.simps) simp
  obtain ppn0 s2 where a: "ftl_alloc_phy_page s = (Some ppn0, s2)" using room(2) by (simp add: ftl_alloc_phy_page_def)
  note f = alloc_facts [OF inv(1) a]
  obtain ret3 s3 where l: "wal_log_write s2 lpn (fs_l2p s2 lpn) ppn0 = (ret3, s3)" by (metis prod.exhaust)
  note L = wal_log_write_fields [OF l]
  have ok3: "ret3 = RET_OK"
    using l wal f(6) by (auto simp: wal_log_write_def ftl_wal_append_def same_config_def Let_def split: if_splits option.splits)
  have inv3: "ftl_inv s3" using f(11) L by simp
  have pos: "ppn_page (fs_nand s3) ppn0 = None" "fs_cur_block s3 = ppn_to_block ppn0" "ppn_to_page ppn0 < fs_cur_page s3"
    using f L by simp_all
  have cb: "ppn_to_block ppn0 = fs_cur_block s"
    using a room(2) inv(1) by (auto simp: ftl_alloc_phy_page_def ppn_round_trip on_chip_def ftl_inv_def frontier_def)
  note on = ppn_on_chip(1) [OF f(1)]
  have st: "block_state_of (fs_nand s) (ppn_to_block ppn0) \<noteq> BLOCK_BAD" "\<not> page_valid (fs_nand s) (ppn_to_block ppn0) (ppn_to_page ppn0)"
    using room(3) f(2) on chip_ok_initialized [OF inv(4)]
    by (auto simp: cb nand_get_block_state_def ppn_page_def chip_page_def nand_is_block_valid_def on_chip_def split: if_splits)
  from page_write_succeeds [OF len chip_ok_initialized [OF inv(4)] on st]
  obtain d where d: "nand_page_write (fs_nand s) (ppn_to_block ppn0) (ppn_to_page ppn0) (Some bs) = (RET_OK, d)" ..
  then have wd: "write_data bs ppn0 s3 = (RET_OK, ppn0, s3\<lparr>fs_nand := d\<rparr>)"
    using L(3) f(3) by (simp add: write_data_def with_nand_eq)
  from write_data_facts(2) [OF inv3 f(1) pos len wd refl] obtain t where t: "keeps s3 t" "data_on t bs ppn0 (s3\<lparr>fs_nand := d\<rparr>)"
    by blast
  have "ftl_inv t" "chip_acct (fs_nand t)" using t(1) inv(3) L f(3) by (simp_all add: keeps_def)
  from write_commit_facts [OF this t(2) lpn] obtain s5 where
    s5: "write_commit lpn ppn0 (s3\<lparr>fs_nand := d\<rparr>) = Some s5" "ftl_inv s5" "same_config t s5"
      "nand_get_block_state (fs_nand s5) (fs_cur_block s5) \<noteq> BLOCK_FREE" by blast
  have "fs_map_mode (write_wear s5) = MAP_MODE_PAGE"
    using write_wear_facts(3) [OF s5(2,4)] s5(3) t(1) L f(6) ready by (simp add: same_config_def keeps_def ftl_ready_def)
  then have res: "ftl_write s lpn (Some bs) = Some (RET_OK, write_wear s5)"
    using lpn inv(2) g a l ok3 wd s5(1) by (simp add: ftl_write_def write_hybrid_def)
  have "fs_wear_leveling_count (write_wear s5) = fs_wear_leveling_count s"
    if even: "\<And>b. nand_get_block_erase_count (fs_nand s) b = 0" and new: "fs_l2p s lpn = FTL_INVALID_PPN"
  proof -
    have "fs_l2p s3 lpn = FTL_INVALID_PPN" using l wal_append_fields(2) new f(4) by (auto simp: wal_log_write_def split: if_splits)
    then have "fs_nand s5 = d" using s5(1) by (auto simp: write_commit_def set_rmap_checked_def Let_def split: if_splits)
    moreover have "nand_get_block_erase_count d b = 0" for b
      using even [of b] page_write_blocks [OF d len] chip_ok_initialized [OF inv(4)]
      by (auto simp: nand_get_block_erase_count_def nand_is_block_valid_def split: if_splits)
    ultimately have w: "wear_leveling_check s5 = s5" by (intro wear_leveling_even) simp
    have "fs_wear_leveling_count (write_wear s5) = fs_wear_leveling_count s5" by (rule write_wear_count [OF s5(2,4) w])
    then show ?thesis using s5(3) t(1) L f(6) by (simp add: same_config_def keeps_def)
  qed
  with res show ?thesis by blast
qed

section \<open>Reading\<close>

lemma ftl_read_facts:
  assumes inv: "ftl_inv s" and lpn: "lpn < FTL_TOTAL_LPNS"
  shows "case ftl_read s lpn True of (ret, buf, s') \<Rightarrow>
     (case logical s lpn of None \<Rightarrow> ret = RET_ERR_NOT_MAPPED \<and> buf = None \<and> s' = s
      | Some bs \<Rightarrow> ret = RET_OK \<and> buf = Some bs \<and> ftl_inv s' \<and> logical s' = logical s)"
proof (cases "fs_l2p s lpn = FTL_INVALID_PPN")
  case True
  with inv lpn show ?thesis by (simp add: ftl_read_def logical_def ftl_inv_def)
next
  case False
  then have "ppn_page (fs_nand s) (fs_l2p s lpn) \<noteq> None"
    using map_okD(1) [of s lpn] inv lpn by (simp add: ftl_inv_def)
  then obtain bs where bs: "chip_page (fs_nand s) (ppn_to_block (fs_l2p s lpn)) (ppn_to_page (fs_l2p s lpn)) = Some bs"
    by (auto simp: ppn_page_def)
  have "chip_ok (fs_nand s)" "fs_is_initialized s" using inv by (simp_all add: ftl_inv_def)
  from page_read_ok [OF this(1) bs] obtain d where
    d: "nand_page_read (fs_nand s) (ppn_to_block (fs_l2p s lpn)) (ppn_to_page (fs_l2p s lpn)) True = (RET_OK, Some bs, d)"
      "same_store (fs_nand s) d" .
  note same = same_store_chip [OF d(2)] chip_acct_same_store [OF d(2)]
  have I: "ftl_inv (s\<lparr>fs_nand := d\<rparr>)" "logical (s\<lparr>fs_nand := d\<rparr>) = logical s"
    using ftl_inv_chip [OF inv refl] inv same by (simp_all add: ftl_inv_def ppn_page_def)
  have H: "ftl_inv (hybrid_update_access_count lpn u) = ftl_inv u" "logical (hybrid_update_access_count lpn u) = logical u" for u
    using ftl_inv_log [of "hybrid_update_access_count lpn u" u]
    by (simp_all add: hybrid_update_access_count_def set_entry_def Let_def)
  show ?thesis
    using False lpn \<open>fs_is_initialized s\<close> I d(1) bs H by (simp add: ftl_read_def logical_def ppn_page_def Let_def)
qed

section \<open>TRIM\<close>

lemma tables_trim:
  assumes ok: "tables_ok P l r" and lpn: "lpn < FTL_TOTAL_LPNS" "l lpn \<noteq> FTL_INVALID_PPN"
  shows "tables_ok P (l(lpn := FTL_INVALID_PPN)) (r(l lpn := FTL_INVALID_LPN))"
    "tables_view P (l(lpn := FTL_INVALID_PPN)) = (tables_view P l)(lpn := None)"
proof -
  have other: "l x \<noteq> l lpn" if "x < FTL_TOTAL_LPNS" "l x \<noteq> FTL_INVALID_PPN" "x \<noteq> lpn" for x
    using tables_okD(1) [OF ok that(1,2)] tables_okD(1) [OF ok lpn] that(3) by metis
  show "tables_ok P (l(lpn := FTL_INVALID_PPN)) (r(l lpn := FTL_INVALID_LPN))" unfolding tables_ok_def
  proof (intro conjI allI impI)
    fix x assume x: "x < FTL_TOTAL_LPNS" "(l(lpn := FTL_INVALID_PPN)) x \<noteq> FTL_INVALID_PPN"
    show "(l(lpn := FTL_INVALID_PPN)) x < FTL_TOTAL_PPNS" "(r(l lpn := FTL_INVALID_LPN)) ((l(lpn := FTL_INVALID_PPN)) x) = x"
      "P ((l(lpn := FTL_INVALID_PPN)) x) \<noteq> None"
      using x other [of x] tables_okD(1) [OF ok x(1)] by (auto split: if_splits)
  next
    fix ppn assume p: "ppn < FTL_TOTAL_PPNS" "(r(l lpn := FTL_INVALID_LPN)) ppn \<noteq> FTL_INVALID_LPN"
    show "(r(l lpn := FTL_INVALID_LPN)) ppn < FTL_TOTAL_LPNS" "(l(lpn := FTL_INVALID_PPN)) ((r(l lpn := FTL_INVALID_LPN)) ppn) = ppn"
      using p tables_okD(2) [OF ok p(1)] by (auto split: if_splits)
  qed
  show "tables_view P (l(lpn := FTL_INVALID_PPN)) = (tables_view P l)(lpn := None)"
    by (auto simp: tables_view_def fun_eq_iff)
qed

lemma wal_log_trim_fields:
  assumes "wal_log_trim s lpn = (ret, s')"
  shows "fs_nand s' = fs_nand s" "fs_l2p s' = fs_l2p s" "fs_rmap s' = fs_rmap s" "fs_cur_block s' = fs_cur_block s"
    "fs_cur_page s' = fs_cur_page s" "fs_is_initialized s' = fs_is_initialized s" "fs_map_mode s' = fs_map_mode s"
  using assms wal_append_fields by (auto simp: wal_log_trim_def split: if_splits)

lemma trim_page_facts:
  assumes ready: "ftl_ready s" and i: "u32_add lpn i = x" "x < FTL_TOTAL_LPNS"
  shows "\<exists>n' s'. trim_page lpn i (n, s) = Some (n', s') \<and> ftl_ready s' \<and> logical s' = (logical s)(x := None)"
proof (cases "fs_l2p s x = FTL_INVALID_PPN")
  case True
  then have "logical s = (logical s)(x := None)" by (auto simp: logical_def fun_eq_iff)
  with True i ready show ?thesis by (simp add: trim_page_def)
next
  case False
  define old where "old = fs_l2p s x"
  have s: "chip_ok (fs_nand s)" "chip_acct (fs_nand s)" "tables_ok (ppn_page (fs_nand s)) (fs_l2p s) (fs_rmap s)"
    "frontier s" "fs_is_initialized s" "fs_map_mode s = MAP_MODE_PAGE"
    using ready by (simp_all add: ftl_ready_def ftl_inv_def map_ok_tables)
  have old: "old < FTL_TOTAL_PPNS" using tables_okD(1) [OF s(3) i(2)] False by (simp add: old_def)
  note on = ppn_on_chip(1) [OF old]
  obtain ret s1 where l: "wal_log_trim s x = (ret, s1)" by (metis prod.exhaust)
  note L = wal_log_trim_fields [OF l]
  obtain ret2 d where m: "nand_mark_page_invalid (fs_nand s) (ppn_to_block old) (ppn_to_page old) = (ret2, d)"
    by (metis prod.exhaust)
  note M = mark_invalid_chip [OF s(1) on m] chip_acct_mark_invalid [OF s(2) chip_ok_initialized [OF s(1)] on m]
  define s' where "s' = s1\<lparr>fs_nand := d, fs_l2p := (fs_l2p s)(x := FTL_INVALID_PPN), fs_rmap := (fs_rmap s)(old := FTL_INVALID_LPN)\<rparr>"
  have res: "trim_page lpn i (n, s) = Some (n + 1, s')"
    using False i(2) old by (simp add: trim_page_def i(1) l with_nand_eq L m Let_def set_rmap_checked_def s'_def flip: old_def)
  note T = tables_trim [OF s(3) i(2) False, folded old_def]
  have "ppn_page d q = ppn_page (fs_nand s) q"
    if "q < FTL_TOTAL_PPNS" "((fs_rmap s)(old := FTL_INVALID_LPN)) q \<noteq> FTL_INVALID_LPN" for q
    using that ppn_eq_iff [OF that(1) old] by (auto simp: ppn_page_def M(1) split: if_splits)
  from tables_weaker [OF T(1) this] T(2) have "map_ok s'" "logical s' = (logical s)(x := None)"
    by (simp_all add: map_ok_tables logical_tables s'_def)
  moreover have "frontier s'" using s(4) by (auto simp: frontier_def s'_def L M(1))
  ultimately show ?thesis
    using res M(2,3) s(5,6) L chip_acct_free_clear [OF M(3)] by (auto simp: ftl_ready_def ftl_inv_def s'_def)
qed

lemma trim_loop:
  assumes "ftl_ready s" "lpn + n \<le> FTL_TOTAL_LPNS"
  shows "\<exists>k s'. fold_option (trim_page lpn) [0..<n] (0, s) = Some (k, s') \<and> ftl_ready s' \<and>
     logical s' = (\<lambda>x. if lpn \<le> x \<and> x < lpn + n then None else logical s x)"
  using assms(2)
proof (induction n)
  case 0
  with assms(1) show ?case by (auto simp: fun_eq_iff)
next
  case (Suc n)
  then obtain k t where t: "fold_option (trim_page lpn) [0..<n] (0, s) = Some (k, t)" "ftl_ready t"
    "logical t = (\<lambda>x. if lpn \<le> x \<and> x < lpn + n then None else logical s x)" by auto
  have x: "u32_add lpn n = lpn + n" "lpn + n < FTL_TOTAL_LPNS"
    using Suc.prems by (simp_all add: u32_add_small ftl_bounds)
  from trim_page_facts [OF t(2) x, of k] obtain k' s' where s': "trim_page lpn n (k, t) = Some (k', s')"
    "ftl_ready s'" "logical s' = (logical t)(lpn + n := None)" by blast
  have "fold_option (trim_page lpn) ([0..<n] @ [n]) (0, s) = Some (k', s')"
    using t(1) s'(1) by (simp add: fold_option_append)
  moreover have "logical s' = (\<lambda>x. if lpn \<le> x \<and> x < lpn + Suc n then None else logical s x)"
    by (auto simp: s'(3) t(3) fun_eq_iff)
  ultimately show ?case using s'(2) by auto
qed

lemma ftl_trim_facts:
  assumes ready: "ftl_ready s" and lpn: "lpn < FTL_TOTAL_LPNS" "0 < count" "lpn + count < 2 ^ 32"
  shows "\<exists>s'. ftl_trim s lpn count = Some (RET_OK, s') \<and> ftl_ready s' \<and>
     logical s' = (\<lambda>x. if lpn \<le> x \<and> x < lpn + count then None else logical s x)"
proof -
  have clip: "clip_count lpn count = min count (FTL_TOTAL_LPNS - lpn)"
    using lpn by (auto simp: clip_count_def u32_add_small ftl_bounds)
  have le: "lpn + clip_count lpn count \<le> FTL_TOTAL_LPNS" using lpn by (simp add: clip)
  from trim_loop [OF ready le] obtain k t where t: "fold_option (trim_page lpn) [0..<clip_count lpn count] (0, s) = Some (k, t)"
    "ftl_ready t" "logical t = (\<lambda>x. if lpn \<le> x \<and> x < lpn + clip_count lpn count then None else logical s x)" by blast
  define s' where "s' = t\<lparr>fs_trim_count := fs_trim_count t + 1, fs_trim_pages := fs_trim_pages t + k\<rparr>"
  have "ftl_trim s lpn count = Some (RET_OK, s')"
    using t(1) lpn ready by (simp add: ftl_trim_def ftl_ready_def ftl_inv_def s'_def)
  moreover have "ftl_inv s' = ftl_inv t" "logical s' = logical t" using ftl_inv_log [of s' t] by (simp_all add: s'_def)
  moreover have "logical t = (\<lambda>x. if lpn \<le> x \<and> x < lpn + count then None else logical s x)"
    by (auto simp: t(3) clip fun_eq_iff logical_def)
  ultimately show ?thesis using t(2) by (auto simp: ftl_ready_def s'_def)
qed

section \<open>Start\<close>

lemma ftl_init_facts:
  assumes "chip_ok (fs_nand s)" "chip_acct (fs_nand s)" "ftl_init s = (RET_OK, s')"
  shows "ftl_ready s' \<and> logical s' = (\<lambda>_. None) \<and> fs_nand s' = fs_nand s \<and> fs_wal_file s' = None \<and> fs_cur_page s' = 0 \<and>
     nand_get_block_state (fs_nand s') (fs_cur_block s') = BLOCK_FREE"
proof -
  from assms(3) obtain b where b: "ftl_find_next_free_block (fs_nand s) 0 = Some b"
    by (auto simp: ftl_init_def Let_def split: option.splits)
  note fb = find_next_free_block_free [OF b]
  have s': "fs_nand s' = fs_nand s" "fs_cur_block s' = b" "fs_cur_page s' = 0" "fs_map_mode s' = MAP_MODE_PAGE"
    "fs_is_initialized s'" "fs_wal_file s' = None"
    "\<And>i. i < FTL_TOTAL_LPNS \<Longrightarrow> fs_l2p s' i = FTL_INVALID_PPN" "\<And>i. i < FTL_TOTAL_PPNS \<Longrightarrow> fs_rmap s' i = FTL_INVALID_LPN"
    using assms(3) b by (auto simp: ftl_init_def Let_def)
  have "map_ok s'" by (simp add: map_ok_def s'(7,8))
  moreover have "logical s' = (\<lambda>_. None)" by (auto simp: logical_def s'(7) fun_eq_iff)
  moreover have clear: "free_clear (fs_nand s)" by (rule chip_acct_free_clear [OF assms(2)])
  moreover have "frontier s'" using fb free_clear_page [OF clear] by (simp add: frontier_def s')
  ultimately show ?thesis
    using assms(1,2) s' fb chip_ok_initialized [OF assms(1)]
    by (simp add: ftl_ready_def ftl_inv_def nand_get_block_state_def nand_is_block_valid_def)
qed

section \<open>The page store of the host\<close>

definition ftl_wr :: "ftl_dev \<Rightarrow> nat \<Rightarrow> u8 list \<Rightarrow> ftl_dev option" where
  "ftl_wr s lpn bs =
     (if length bs \<noteq> NAND_PAGE_SIZE then None
      else (case ftl_write s lpn (Some bs) of
              None \<Rightarrow> None
            | Some (ret, s') \<Rightarrow>
                if ret = RET_OK \<and> fs_wear_leveling_count s' = fs_wear_leveling_count s then Some s' else None))"

definition ftl_rd :: "ftl_dev \<Rightarrow> nat \<Rightarrow> u8 list option" where
  "ftl_rd s lpn = (case ftl_read s lpn True of (ret, buf, _) \<Rightarrow> if ret = RET_OK then buf else None)"

lemma ftl_rd_logical: "ftl_inv s \<Longrightarrow> ftl_rd s lpn = logical s lpn"
proof (cases "lpn < FTL_TOTAL_LPNS")
  case True
  assume "ftl_inv s"
  from ftl_read_facts [OF this True] show ?thesis by (auto simp: ftl_rd_def split: option.splits prod.splits)
next
  case False
  then show ?thesis by (simp add: ftl_rd_def ftl_read_def logical_def)
qed

lemma ftl_wr_SomeD:
  assumes "ftl_ready s" "ftl_wr s lpn bs = Some s'"
  shows "ftl_ready s' \<and> logical s' = (logical s)(lpn := Some bs)"
proof -
  from assms(2) have w: "length bs = NAND_PAGE_SIZE" "ftl_write s lpn (Some bs) = Some (RET_OK, s')"
    "fs_wear_leveling_count s' = fs_wear_leveling_count s"
    by (auto simp: ftl_wr_def split: if_splits option.splits)
  from ftl_write_facts(2) [OF assms(1) w(1,2) refl] w(3) show ?thesis by (simp add: ftl_ready_def)
qed

interpretation host: page_store ftl_wr ftl_rd ftl_ready
proof
  fix s s' :: ftl_dev and lpn lpn' bs
  assume r: "ftl_ready s" and w: "ftl_wr s lpn bs = Some s'"
  note f = ftl_wr_SomeD [OF r w]
  then have i: "ftl_inv s'" "ftl_inv s" using r by (simp_all add: ftl_ready_def)
  show "ftl_ready s'" using f by simp
  show "ftl_rd s' lpn = Some bs" using f by (simp add: ftl_rd_logical [OF i(1)])
  show "ftl_rd s' lpn' = ftl_rd s lpn'" if "lpn' \<noteq> lpn"
    using f that by (simp add: ftl_rd_logical [OF i(1)] ftl_rd_logical [OF i(2)])
qed

text \<open>
  A run of host writes with the code of each; some may fail.  The run is quiet when no write but perhaps
  the last one moves the counter of wear leveling, that is, marks a block as cold: after a cold mark the
  account of that block is wrong (\<open>cold_mark_frees_live_block\<close>), and a later collection may lose its pages.
\<close>

fun host_writes :: "ftl_dev \<Rightarrow> (nat \<times> u8 list) list \<Rightarrow> (ret_code list \<times> ftl_dev) option" where
  "host_writes s [] = Some ([], s)"
| "host_writes s ((lpn, bs) # ws) = do {
     (ret, s1) \<leftarrow> ftl_write s lpn (Some bs);
     (rets, s') \<leftarrow> host_writes s1 ws;
     Some (ret # rets, s') }"

fun quiet :: "ftl_dev \<Rightarrow> (nat \<times> u8 list) list \<Rightarrow> bool" where
  "quiet s [] \<longleftrightarrow> True"
| "quiet s ((lpn, bs) # ws) \<longleftrightarrow> (case ftl_write s lpn (Some bs) of
     None \<Rightarrow> False
   | Some (ret, s1) \<Rightarrow> (ws = [] \<or> fs_wear_leveling_count s1 = fs_wear_leveling_count s) \<and> quiet s1 ws)"

definition stored :: "(nat \<times> u8 list) list \<Rightarrow> ret_code list \<Rightarrow> (nat \<times> u8 list) list" where
  "stored ws rets = map fst (filter (\<lambda>(w, ret). ret = RET_OK) (zip ws rets))"

lemma stored_Cons [simp]: "stored (w # ws) (ret # rets) = (if ret = RET_OK then [w] else []) @ stored ws rets"
  by (simp add: stored_def)

lemma stored_Nil [simp]: "stored [] rets = []"
  by (simp add: stored_def)

lemma host_writes_logical:
  assumes "ftl_ready s" "\<forall>w \<in> set ws. length (snd w) = NAND_PAGE_SIZE" "host_writes s ws = Some (rets, s')" "quiet s ws"
  shows "length rets = length ws \<and> ftl_inv s' \<and>
     logical s' lpn = (case map_of (rev (stored ws rets)) lpn of Some bs \<Rightarrow> Some bs | None \<Rightarrow> logical s lpn)"
  using assms
proof (induction ws arbitrary: s rets)
  case Nil
  then show ?case by (simp add: ftl_ready_def)
next
  case (Cons w ws)
  obtain l bs where w: "w = (l, bs)" by (cases w)
  from Cons.prems(3) obtain ret s1 rets1 where s1: "ftl_write s l (Some bs) = Some (ret, s1)"
    "host_writes s1 ws = Some (rets1, s')" and r: "rets = ret # rets1" by (auto simp: w split: bind_splits)
  from Cons.prems(2) have len: "length bs = NAND_PAGE_SIZE" by (simp add: w)
  note f = ftl_write_facts [OF Cons.prems(1) len s1(1)]
  have l1: "logical s1 = (if ret = RET_OK then (logical s)(l := Some bs) else logical s)" and i1: "ftl_inv s1"
    using f by (auto simp: ftl_ready_def)
  show ?case
  proof (cases "ws = []")
    case True
    with s1(2) l1 i1 show ?thesis by (simp add: r w)
  next
    case False
    with Cons.prems(4) s1(1) have "fs_wear_leveling_count s1 = fs_wear_leveling_count s" "quiet s1 ws" by (simp_all add: w)
    moreover from this(1) f have "ftl_ready s1" by (cases "ret = RET_OK") (auto simp: ftl_ready_def)
    ultimately have "length rets1 = length ws \<and> ftl_inv s' \<and>
       logical s' lpn = (case map_of (rev (stored ws rets1)) lpn of Some bs \<Rightarrow> Some bs | None \<Rightarrow> logical s1 lpn)"
      using Cons.prems(2) s1(2) by (intro Cons.IH) simp_all
    then show ?thesis using l1 by (auto simp: r w map_add_def split: option.splits)
  qed
qed

text \<open>Writes of a range of pages, which are different ones, are what the device holds afterwards.\<close>

lemma range_written:
  assumes "ftl_ready s" "write_all ftl_wr s (map (\<lambda>i. (a + i, page i)) [0..<n]) = Some f" "i < n"
  shows "logical f (a + i) = Some (page i)"
proof -
  let ?w = "map (\<lambda>i. (a + i, page i)) [0..<n]"
  have "distinct (map fst (rev ?w))" by (simp add: rev_map comp_def distinct_map inj_on_def)
  then have "map_of (rev ?w) (a + i) = Some (page i)" using assms(3) by (auto simp: map_of_eq_Some_iff)
  with host.read_after_writes [OF assms(1,2), of "a + i"] ftl_rd_logical [of f "a + i"] host.write_all_ok [OF assms(1,2)]
  show ?thesis by (simp add: ftl_ready_def)
qed

section \<open>A device to try the properties on\<close>

definition blank_ftl :: ftl_dev where
  "blank_ftl = \<lparr>fs_nand = empty_chip,
     fs_files = \<lparr>hf_files = (\<lambda>_. None), hf_can_create = (\<lambda>_. True), hf_writable = True\<rparr>,
     fs_l2p = (\<lambda>_. FTL_INVALID_PPN), fs_rmap = (\<lambda>_. FTL_INVALID_LPN), fs_cur_block = 0, fs_cur_page = 0,
     fs_host_write_pages = 0, fs_nand_write_pages = 0, fs_gc_count = 0, fs_gc_moved_pages = 0,
     fs_wear_leveling_count = 0, fs_static_wear_count = 0, fs_static_wear_moved_pages = 0, fs_trim_count = 0,
     fs_trim_pages = 0, fs_bad_block_replace_count = 0, fs_bad_block_moved_pages = 0,
     fs_write_since_last_check = 0, fs_gc_algo = GC_ALGO_GREEDY, fs_map_mode = MAP_MODE_PAGE,
     fs_wal_file = None, fs_wal_sequence = 0, fs_wal_entry_count = 0, fs_wal_enabled = True,
     fs_block_map = (\<lambda>_. empty_map_entry), fs_hot_cold_check_count = 0, fs_hot_cold_migration_count = 0,
     fs_is_initialized = False\<rparr>"

definition example_ftl :: ftl_dev where
  "example_ftl = snd (ftl_init blank_ftl)"

lemma blank_ftl_init: "ftl_init blank_ftl = (RET_OK, example_ftl)"
proof -
  have "[0..<FTL_USER_BLOCKS] = 0 # [1..<FTL_USER_BLOCKS]"
    by (simp add: upt_conv_Cons NAND_TOTAL_BLOCKS_def NAND_RESERVED_BLOCKS_def)
  then have "ftl_find_next_free_block empty_chip 0 = Some 0"
    by (simp add: ftl_find_next_free_block_def nand_get_block_state_def nand_is_block_valid_def empty_chip_def zero_block_def
        NAND_TOTAL_BLOCKS_def)
  then show ?thesis by (simp add: example_ftl_def ftl_init_def Let_def) (simp add: blank_ftl_def)
qed

lemma example_ftl_facts:
  "ftl_ready example_ftl" "logical example_ftl = (\<lambda>_. None)" "fs_nand example_ftl = empty_chip"
  "fs_wal_file example_ftl = None" "fs_cur_page example_ftl = 0"
  "nand_get_block_state (fs_nand example_ftl) (fs_cur_block example_ftl) = BLOCK_FREE"
proof -
  have n: "fs_nand blank_ftl = empty_chip" by (simp add: blank_ftl_def)
  from ftl_init_facts [OF _ _ blank_ftl_init] empty_chip_ok empty_chip_acct
  show "ftl_ready example_ftl" "logical example_ftl = (\<lambda>_. None)" "fs_nand example_ftl = empty_chip"
    "fs_wal_file example_ftl = None" "fs_cur_page example_ftl = 0"
    "nand_get_block_state (fs_nand example_ftl) (fs_cur_block example_ftl) = BLOCK_FREE"
    unfolding n by blast+
qed

lemma example_ftl_free: "FTL_GC_TRIGGER_THRESHOLD < nand_get_free_block_count (fs_nand example_ftl)"
proof -
  have "filter (\<lambda>i. block_state_of empty_chip i = BLOCK_FREE) xs = xs" for xs
    by (simp add: empty_chip_def zero_block_def)
  then show ?thesis
    by (simp add: example_ftl_facts(3) nand_get_free_block_count_def FTL_GC_TRIGGER_THRESHOLD_def
        NAND_TOTAL_BLOCKS_def NAND_RESERVED_BLOCKS_def) (simp add: empty_chip_def)
qed

lemma example_ftl_write:
  assumes "lpn < FTL_TOTAL_LPNS" "length bs = NAND_PAGE_SIZE"
  obtains s where "ftl_write example_ftl lpn (Some bs) = Some (RET_OK, s)" "ftl_wr example_ftl lpn bs = Some s"
proof -
  have "nand_get_block_erase_count (fs_nand example_ftl) b = 0" for b
    by (simp add: example_ftl_facts(3) nand_get_block_erase_count_def empty_chip_def zero_block_def)
  moreover have "fs_l2p example_ftl lpn = FTL_INVALID_PPN"
    using example_ftl_facts(2) assms(1) map_okD(1) [of example_ftl lpn] example_ftl_facts(1)
    by (fastforce simp: logical_def ftl_ready_def ftl_inv_def fun_eq_iff split: if_splits)
  ultimately obtain s where "ftl_write example_ftl lpn (Some bs) = Some (RET_OK, s)"
      "fs_wear_leveling_count s = fs_wear_leveling_count example_ftl"
    using ftl_write_succeeds [OF example_ftl_facts(1) assms(2,1) example_ftl_free] example_ftl_facts
    by (auto simp: NAND_PAGES_PER_BLOCK_def)
  with that show thesis by (simp add: ftl_wr_def assms(2))
qed

section \<open>Properties\<close>

text \<open>C1: a host write either succeeds and replaces exactly the contents of its logical page, or fails and
  leaves the contents of every logical page as they were, garbage collection, bad-block replacement
  and wear leveling on the way included.  The full invariant holds again afterwards unless the call
  has marked a block as cold; the mapping part of it holds in any case.\<close>

theorem ftl_write_refines:
  assumes "ftl_ready s" "length bs = NAND_PAGE_SIZE" "ftl_write s lpn (Some bs) = Some (ret, s')"
  shows "if ret = RET_OK
     then ftl_inv s' \<and> logical s' = (logical s)(lpn := Some bs) \<and>
       (fs_wear_leveling_count s' = fs_wear_leveling_count s \<longrightarrow> ftl_ready s')
     else ftl_ready s' \<and> logical s' = logical s"
  using ftl_write_facts [OF assms] by (auto simp: ftl_ready_def)

lemma ftl_write_refines_witness:
  "\<exists>s. ftl_write example_ftl 5 (Some (replicate NAND_PAGE_SIZE 7)) = Some (RET_OK, s) \<and>
     logical s 5 = Some (replicate NAND_PAGE_SIZE 7) \<and> logical s 6 = None"
proof -
  have "5 < FTL_TOTAL_LPNS" by (simp add: ftl_bounds)
  then obtain s where s: "ftl_write example_ftl 5 (Some (replicate NAND_PAGE_SIZE 7)) = Some (RET_OK, s)"
    by (rule example_ftl_write [OF _ length_replicate])
  from ftl_write_refines [OF example_ftl_facts(1) length_replicate s] s show ?thesis
    by (simp add: example_ftl_facts(2))
qed

text \<open>C13: a host read returns the contents of its logical page, or the error for an unmapped page, and
  changes no contents.\<close>

theorem ftl_read_refines:
  assumes "ftl_inv s" "lpn < FTL_TOTAL_LPNS"
  shows "case ftl_read s lpn True of (ret, buf, s') \<Rightarrow>
     (case logical s lpn of None \<Rightarrow> ret = RET_ERR_NOT_MAPPED \<and> buf = None \<and> s' = s
      | Some bs \<Rightarrow> ret = RET_OK \<and> buf = Some bs \<and> ftl_inv s' \<and> logical s' = logical s)"
  using assms by (rule ftl_read_facts)

lemma ftl_read_refines_witness:
  "\<exists>s s'. ftl_write example_ftl 5 (Some (replicate NAND_PAGE_SIZE 7)) = Some (RET_OK, s) \<and>
     ftl_read s 5 True = (RET_OK, Some (replicate NAND_PAGE_SIZE 7), s')"
proof -
  have l: "5 < FTL_TOTAL_LPNS" by (simp add: ftl_bounds)
  then obtain s where s: "ftl_write example_ftl 5 (Some (replicate NAND_PAGE_SIZE 7)) = Some (RET_OK, s)"
    by (rule example_ftl_write [OF _ length_replicate])
  from ftl_write_facts(2) [OF example_ftl_facts(1) length_replicate s refl]
  have "ftl_inv s" "logical s 5 = Some (replicate NAND_PAGE_SIZE 7)" by simp_all
  with ftl_read_refines [OF this(1) l] s show ?thesis by (auto split: prod.splits)
qed

text \<open>C5: after any sequence of host writes of whole pages, successful and failed ones mixed, a read returns
  the data of the last write to its logical page that returned success, and the old contents where none
  did.  The one condition is that no write but perhaps the last one made wear leveling mark a block as
  cold, which the repository's own accounting does not survive.\<close>

theorem host_reads_last_write:
  assumes "ftl_ready s" "\<forall>w \<in> set ws. length (snd w) = NAND_PAGE_SIZE" "host_writes s ws = Some (rets, s')" "quiet s ws"
  shows "length rets = length ws \<and>
     ftl_rd s' lpn = (case map_of (rev (stored ws rets)) lpn of Some bs \<Rightarrow> Some bs | None \<Rightarrow> ftl_rd s lpn)"
proof -
  note h = host_writes_logical [OF assms, of lpn]
  moreover have "ftl_inv s" using assms(1) by (simp add: ftl_ready_def)
  ultimately show ?thesis by (simp add: ftl_rd_logical split: option.splits)
qed

lemma host_reads_last_write_witness:
  "\<exists>s rets. host_writes example_ftl [(FTL_TOTAL_LPNS, replicate NAND_PAGE_SIZE 3), (5, replicate NAND_PAGE_SIZE 7)] = Some (rets, s) \<and>
     rets = [RET_ERR_PARAM, RET_OK] \<and> ftl_rd s 5 = Some (replicate NAND_PAGE_SIZE 7) \<and>
     ftl_rd s FTL_TOTAL_LPNS = None \<and> ftl_rd s 3 = None"
proof -
  let ?ws = "[(FTL_TOTAL_LPNS, replicate NAND_PAGE_SIZE (3::u8)), (5, replicate NAND_PAGE_SIZE 7)]"
  have "5 < FTL_TOTAL_LPNS" by (simp add: ftl_bounds)
  then obtain s where s: "ftl_write example_ftl 5 (Some (replicate NAND_PAGE_SIZE 7)) = Some (RET_OK, s)"
    "ftl_wr example_ftl 5 (replicate NAND_PAGE_SIZE 7) = Some s" by (rule example_ftl_write [OF _ length_replicate])
  have f: "ftl_write example_ftl FTL_TOTAL_LPNS (Some (replicate NAND_PAGE_SIZE 3)) = Some (RET_ERR_PARAM, example_ftl)"
    using example_ftl_facts(1) by (simp add: ftl_write_def ftl_ready_def ftl_inv_def)
  have w: "host_writes example_ftl ?ws = Some ([RET_ERR_PARAM, RET_OK], s)" by (simp add: f s(1))
  have q: "quiet example_ftl ?ws" by (simp add: f s(1))
  have "ftl_rd example_ftl l = None" for l
    using ftl_rd_logical [of example_ftl l] example_ftl_facts(1,2) by (simp add: ftl_ready_def)
  moreover note host_reads_last_write [OF example_ftl_facts(1) _ w q, of 5] host_reads_last_write [OF example_ftl_facts(1) _ w q, of 3]
    host_reads_last_write [OF example_ftl_facts(1) _ w q, of FTL_TOTAL_LPNS]
  ultimately show ?thesis using w \<open>5 < FTL_TOTAL_LPNS\<close> by (simp add: stored_def)
qed

lemma read_disturb_target_used:
  assumes "nand_check_read_disturb d True = (True, Some b)"
  shows "block_state_of d b = BLOCK_USED \<and> b < NAND_TOTAL_BLOCKS"
proof -
  define f where "f = (\<lambda>i (max_read, target_block).
      if block_state_of d i \<noteq> BLOCK_USED then (max_read, target_block)
      else if max_read < pb_read_count (nd_blocks d i) then (pb_read_count (nd_blocks d i), Some i)
      else (max_read, target_block))"
  have "case snd (fold f [0..<FTL_USER_BLOCKS] (0, None)) of None \<Rightarrow> True
      | Some b \<Rightarrow> block_state_of d b = BLOCK_USED \<and> b < NAND_TOTAL_BLOCKS"
    by (rule fold_invariant_set [where I = "\<lambda>s. case snd s of None \<Rightarrow> True
        | Some b \<Rightarrow> block_state_of d b = BLOCK_USED \<and> b < NAND_TOTAL_BLOCKS"])
       (auto simp: f_def split: if_splits option.splits)
  moreover have "snd (fold f [0..<FTL_USER_BLOCKS] (0, None)) = Some b"
    using assms unfolding nand_check_read_disturb_def f_def [symmetric] by (auto simp: Let_def split: if_splits prod.splits)
  ultimately show ?thesis by simp
qed

lemma read_disturb_keeps:
  assumes inv: "ftl_inv s" and cur: "nand_get_block_state (fs_nand s) (fs_cur_block s) \<noteq> BLOCK_FREE"
  shows "keeps s (snd (ftl_handle_read_disturb s))"
proof -
  obtain hit src where c: "nand_check_read_disturb (fs_nand s) True = (hit, src)" by (metis prod.exhaust)
  have init: "fs_is_initialized s" using inv by (simp add: ftl_inv_def)
  show ?thesis
  proof (cases "hit \<and> src \<noteq> None")
    case False
    then have "ftl_handle_read_disturb s = (RET_OK, s)"
      using init by (auto simp: ftl_handle_read_disturb_def c split: bool.splits option.splits)
    then show ?thesis using keeps_refl [OF inv] by simp
  next
    case True
    then obtain i where i: "src = Some i" by auto
    from True have h: "hit = True" by simp
    note used = read_disturb_target_used [OF c [unfolded i h]]
    show ?thesis
    proof (cases "ftl_find_next_free_block (fs_nand s) 0")
      case None
      then show ?thesis using init True keeps_refl [OF inv] by (simp add: ftl_handle_read_disturb_def c i)
    next
      case (Some j)
      note free = find_next_free_block_free [OF Some]
      have ne: "fs_cur_block s \<noteq> j"
        using cur free chip_ok_initialized inv
        by (auto simp: nand_get_block_state_def nand_is_block_valid_def ftl_inv_def)
      obtain buf n s1 where r: "relocate_block i j s = (buf, n, s1)" by (metis prod.exhaust)
      have "keeps s (snd (with_nand (\<lambda>d. nand_block_erase d i) s1))"
        using relocate_block_keeps [OF inv _ _ _ _ ne r] used True free by blast
      then show ?thesis
        using init True Some r by (simp add: ftl_handle_read_disturb_def c i relocate_block_def)
    qed
  qed
qed

text \<open>C3: as long as the block being written is not marked free, every internal movement of data (a garbage
  collection under any of the six selections, static wear leveling, read-disturb handling and the
  replacement of any block) keeps the mapping consistent and the contents of every logical page,
  whether or not the call succeeds.\<close>

theorem maintenance_keeps_contents:
  assumes "ftl_inv s" "nand_get_block_state (fs_nand s) (fs_cur_block s) \<noteq> BLOCK_FREE"
  shows "keeps s (snd (ftl_trigger_gc s)) \<and> keeps s (static_wear_leveling_check s) \<and>
     keeps s (snd (ftl_handle_read_disturb s)) \<and> keeps s (snd (ftl_replace_bad_block s b))"
proof (intro conjI)
  have "fs_is_initialized s" using assms(1) by (simp add: ftl_inv_def)
  then show "keeps s (snd (ftl_trigger_gc s))"
    using gc_do_recycle_keeps [OF assms(1) prod.collapse [symmetric]] by (simp add: ftl_trigger_gc_def)
  show "keeps s (static_wear_leveling_check s)" by (rule static_wear_keeps [OF assms])
  show "keeps s (snd (ftl_handle_read_disturb s))" by (rule read_disturb_keeps [OF assms])
  show "keeps s (snd (ftl_replace_bad_block s b))"
    by (rule replace_keeps [OF assms(1) _ prod.collapse [symmetric]]) (use assms(2) in simp)
qed

text \<open>A device with one logical page on the first page of the first block.\<close>

lemma one_page_device:
  assumes w: "nand_page_write empty_chip 0 0 (Some (replicate NAND_PAGE_SIZE v)) = (RET_OK, d)"
  defines "s \<equiv> example_ftl\<lparr>fs_nand := d, fs_l2p := (\<lambda>_. FTL_INVALID_PPN)(5 := 0),
     fs_rmap := (\<lambda>_. FTL_INVALID_LPN)(0 := 5), fs_cur_block := 0, fs_cur_page := 1\<rparr>"
  shows "ftl_ready s" "logical s 5 = Some (replicate NAND_PAGE_SIZE v)"
    "nand_get_block_state (fs_nand s) (fs_cur_block s) = BLOCK_USED"
proof -
  have d: "chip_ok d" "chip_acct d" "nd_is_initialized d" "block_state_of d 0 = BLOCK_USED"
    "chip_page d b p = (if (b, p) = (0, 0) then Some (replicate NAND_PAGE_SIZE v) else None)" for b p
    using page_write_chip_ok [OF empty_chip_ok w] chip_acct_write [OF empty_chip_acct w] page_write_blocks [OF w]
      page_write_chip_page [OF w] by (auto simp: chip_page_def empty_chip_def zero_block_def)
  have p0: "ppn_page d 0 = Some (replicate NAND_PAGE_SIZE v)"
    by (simp add: ppn_page_def d(5) ppn_to_block_def ppn_to_page_def)
  have b: "(5::nat) < FTL_TOTAL_LPNS" "(0::nat) < FTL_TOTAL_PPNS" "(0::nat) \<noteq> FTL_INVALID_PPN"
    by (simp_all add: ftl_bounds FTL_INVALID_PPN_def)
  have init: "fs_is_initialized example_ftl" "fs_map_mode example_ftl = MAP_MODE_PAGE"
    using example_ftl_facts(1) by (simp_all add: ftl_ready_def ftl_inv_def)
  have "map_ok s" using b p0 by (simp add: map_ok_def s_def)
  moreover have "frontier s" by (simp add: frontier_def s_def d(5) NAND_TOTAL_BLOCKS_def NAND_PAGES_PER_BLOCK_def)
  ultimately show "ftl_ready s"
    using d(1,2) init chip_acct_free_clear [OF d(2)] by (simp add: ftl_ready_def ftl_inv_def s_def)
  show "logical s 5 = Some (replicate NAND_PAGE_SIZE v)" using b p0 by (simp add: logical_def s_def)
  show "nand_get_block_state (fs_nand s) (fs_cur_block s) = BLOCK_USED"
    using d(3,4) by (simp add: s_def nand_get_block_state_def nand_is_block_valid_def NAND_TOTAL_BLOCKS_def)
qed

lemma maintenance_keeps_contents_witness:
  "\<exists>s. logical s 5 = Some (replicate NAND_PAGE_SIZE 7) \<and>
     logical (snd (ftl_trigger_gc s)) 5 = Some (replicate NAND_PAGE_SIZE 7) \<and>
     logical (snd (ftl_replace_bad_block s 0)) 5 = Some (replicate NAND_PAGE_SIZE 7)"
proof -
  have "on_chip 0 0" by (simp add: on_chip_def NAND_TOTAL_BLOCKS_def NAND_PAGES_PER_BLOCK_def)
  then obtain d where w: "nand_page_write empty_chip 0 0 (Some (replicate NAND_PAGE_SIZE 7)) = (RET_OK, d)"
    using empty_chip_write by blast
  define s where "s = example_ftl\<lparr>fs_nand := d, fs_l2p := (\<lambda>_. FTL_INVALID_PPN)(5 := 0),
     fs_rmap := (\<lambda>_. FTL_INVALID_LPN)(0 := 5), fs_cur_block := 0, fs_cur_page := 1\<rparr>"
  note o = one_page_device [OF w, folded s_def]
  have "ftl_inv s" "nand_get_block_state (fs_nand s) (fs_cur_block s) \<noteq> BLOCK_FREE"
    using o by (simp_all add: ftl_ready_def)
  from maintenance_keeps_contents [OF this, of 0] o(2) show ?thesis by (auto simp: keeps_def)
qed

text \<open>C16: TRIM of a range whose end does not wrap always has a defined result, succeeds, unmaps exactly the
  pages of the range (clipped to the capacity) and keeps the invariant.\<close>

theorem ftl_trim_clears:
  assumes "ftl_ready s" "lpn < FTL_TOTAL_LPNS" "0 < count" "lpn + count < 2 ^ 32"
  shows "\<exists>s'. ftl_trim s lpn count = Some (RET_OK, s') \<and> ftl_ready s' \<and>
     logical s' = (\<lambda>x. if lpn \<le> x \<and> x < lpn + count then None else logical s x)"
  using assms by (rule ftl_trim_facts)

lemma ftl_trim_clears_witness:
  "\<exists>s'. ftl_trim example_ftl 100 50000 = Some (RET_OK, s') \<and> logical s' = (\<lambda>_. None)"
proof -
  have "100 < FTL_TOTAL_LPNS" by (simp add: ftl_bounds)
  from ftl_trim_clears [OF example_ftl_facts(1) this, of 50000] show ?thesis
    by (auto simp: example_ftl_facts(2) fun_eq_iff)
qed

text \<open>A TRIM whose range wraps past the largest 32-bit number defeats the clipping: the loop reads the
  mapping table past its end, whatever the state.\<close>

theorem ftl_trim_wraps:
  assumes "fs_is_initialized s" "lpn < FTL_TOTAL_LPNS" "count < 2 ^ 32" "2 ^ 32 \<le> lpn + count"
  shows "ftl_trim s lpn count = None"
proof -
  have "u32_add lpn count = lpn + count - 4294967296"
    using assms(2-4) by (simp add: u32_add_def ftl_bounds mod_if)
  then have clip: "clip_count lpn count = count"
    using assms(2,3) by (auto simp: clip_count_def)
  define i where "i = FTL_TOTAL_LPNS - lpn"
  have i: "i \<in> set [0..<count]" "u32_add lpn i = FTL_TOTAL_LPNS"
    using assms(2-4) by (simp_all add: i_def u32_add_small ftl_bounds)
  have "fold_option (trim_page lpn) [0..<count] x = None" for x
    by (rule fold_option_stuck [OF i(1)]) (simp add: trim_page_def i(2) split_beta)
  moreover have "0 < count" using assms(2,4) by (simp add: ftl_bounds)
  ultimately show ?thesis using assms by (simp add: ftl_trim_def clip)
qed

lemma ftl_trim_wraps_witness: "ftl_trim example_ftl 1 4294967295 = None"
  by (rule ftl_trim_wraps) (use example_ftl_facts(1) in \<open>simp_all add: ftl_ready_def ftl_inv_def ftl_bounds\<close>)

text \<open>Initialisation on a consistent chip gives a device that satisfies the invariant, with nothing
  mapped.\<close>

theorem ftl_init_ready:
  assumes "chip_ok (fs_nand s)" "chip_acct (fs_nand s)" "ftl_init s = (RET_OK, s')"
  shows "ftl_ready s' \<and> logical s' = (\<lambda>_. None)"
  using ftl_init_facts [OF assms] by simp

lemma ftl_init_ready_witness: "ftl_ready (snd (ftl_init blank_ftl))"
  using ftl_init_ready [OF _ _ blank_ftl_init] empty_chip_ok empty_chip_acct
  by (simp add: blank_ftl_def example_ftl_def)

text \<open>C15: a write cannot fail while more than the threshold of blocks is free, the write position is inside
  a block that is not bad, and the log can be written.\<close>

theorem ftl_write_available:
  assumes "ftl_ready s" "length bs = NAND_PAGE_SIZE" "lpn < FTL_TOTAL_LPNS"
    and "FTL_GC_TRIGGER_THRESHOLD < nand_get_free_block_count (fs_nand s)" "fs_cur_page s < NAND_PAGES_PER_BLOCK"
    and "nand_get_block_state (fs_nand s) (fs_cur_block s) \<noteq> BLOCK_BAD"
    and "fs_wal_file s \<noteq> None \<longrightarrow> hf_writable (fs_files s)"
  shows "\<exists>s'. ftl_write s lpn (Some bs) = Some (RET_OK, s')"
  using ftl_write_succeeds [OF assms] by blast

lemma ftl_write_available_witness:
  "\<exists>s'. ftl_write example_ftl 0 (Some (replicate NAND_PAGE_SIZE 0)) = Some (RET_OK, s')"
  using ftl_write_available [OF example_ftl_facts(1) length_replicate _ example_ftl_free, of 0 0] example_ftl_facts
  by (simp add: ftl_bounds NAND_PAGES_PER_BLOCK_def)

section \<open>Greedy selection\<close>

definition fewest :: "nand_dev \<Rightarrow> nat \<Rightarrow> u32 \<times> nat option \<Rightarrow> bool" where
  "fewest d n = (\<lambda>(m, v).
     (\<forall>j<n. nand_get_block_state d j = BLOCK_USED \<longrightarrow> m \<le> nand_get_block_valid_page_count d j) \<and>
     (\<forall>i. v = Some i \<longrightarrow> i < n \<and> nand_get_block_state d i = BLOCK_USED \<and> nand_get_block_valid_page_count d i = m \<and>
        (\<forall>j<i. nand_get_block_state d j = BLOCK_USED \<longrightarrow> m < nand_get_block_valid_page_count d j)))"

lemma scan_fewest_step: "fewest d n mv \<Longrightarrow> fewest d (Suc n) (scan_fewest d n mv)"
  by (cases mv) (auto simp: fewest_def scan_fewest_def Let_def less_Suc_eq intro: order_less_le_trans)

lemma scan_fewest_all: "fewest d n (fold (scan_fewest d) [0..<n] (m, None))"
proof (induction n)
  case (Suc n)
  then show ?case by (simp add: scan_fewest_step)
qed (simp add: fewest_def)

text \<open>Greedy selection picks a block in use with the fewest valid pages of all blocks in use, the first
  of them when there are several.\<close>

theorem greedy_picks_fewest:
  assumes "gc_select_greedy s = Some v"
  shows "v < FTL_USER_BLOCKS \<and> nand_get_block_state (fs_nand s) v = BLOCK_USED \<and>
     (\<forall>j<FTL_USER_BLOCKS. nand_get_block_state (fs_nand s) j = BLOCK_USED \<longrightarrow>
        nand_get_block_valid_page_count (fs_nand s) v \<le> nand_get_block_valid_page_count (fs_nand s) j \<and>
        (j < v \<longrightarrow> nand_get_block_valid_page_count (fs_nand s) v < nand_get_block_valid_page_count (fs_nand s) j))"
proof -
  obtain m v' where f: "fold (scan_fewest (fs_nand s)) [0..<FTL_USER_BLOCKS] (257, None) = (m, v')" by (metis prod.exhaust)
  with assms have "v' = Some v" by (simp add: gc_select_greedy_def)
  with scan_fewest_all [of "fs_nand s" FTL_USER_BLOCKS 257] f show ?thesis by (simp add: fewest_def)
qed

lemma greedy_picks_fewest_witness:
  "\<exists>d. nand_page_write empty_chip 0 0 (Some (replicate NAND_PAGE_SIZE 7)) = (RET_OK, d) \<and>
     gc_select_greedy (example_ftl\<lparr>fs_nand := d\<rparr>) = Some 0 \<and> nand_get_block_state d 0 = BLOCK_USED"
proof -
  have "on_chip 0 0" by (simp add: on_chip_def NAND_TOTAL_BLOCKS_def NAND_PAGES_PER_BLOCK_def)
  then obtain d where w: "nand_page_write empty_chip 0 0 (Some (replicate NAND_PAGE_SIZE 7)) = (RET_OK, d)"
    using empty_chip_write by blast
  note b = page_write_blocks [OF w length_replicate]
  have st: "nand_get_block_state d i = (if i = 0 then BLOCK_USED else if i < NAND_TOTAL_BLOCKS then BLOCK_FREE else BLOCK_BAD)" for i
    using b by (auto simp: nand_get_block_state_def nand_is_block_valid_def empty_chip_def zero_block_def NAND_TOTAL_BLOCKS_def)
  have cnt: "nand_get_block_valid_page_count d 0 = 1"
    using b by (simp add: nand_get_block_valid_page_count_def nand_is_block_valid_def empty_chip_def zero_block_def NAND_TOTAL_BLOCKS_def)
  have rest: "fold (scan_fewest d) [1..<n] x = x" for n x
    by (induction n) (auto simp: scan_fewest_def st split_beta)
  have "[0..<FTL_USER_BLOCKS] = 0 # [1..<FTL_USER_BLOCKS]"
    by (simp add: upt_conv_Cons NAND_TOTAL_BLOCKS_def NAND_RESERVED_BLOCKS_def)
  then have "gc_select_greedy (example_ftl\<lparr>fs_nand := d\<rparr>) = Some 0"
    using rest by (simp add: gc_select_greedy_def scan_fewest_def st cnt)
  with greedy_picks_fewest [OF this] w show ?thesis by auto
qed

end
