(* ===== verification/NandLife.thy ===== *)
theory NandLife
  imports NandStore
begin

text \<open>
  The life of a chip: what \<open>nand_init\<close> recovers from the medium and what a power cycle keeps, the
  chips reachable from power-up by any sequence of operations, pages with checksums, and the
  statistics.
\<close>

section \<open>Power up\<close>

definition marked_pages :: "nand_dev \<Rightarrow> nat \<Rightarrow> nat \<Rightarrow> nat set" where
  "marked_pages d blk n = {p. p < n \<and> oob_magic (page_oob d blk p) = NAND_OOB_MAGIC}"

lemma marked_pages_Suc:
  "marked_pages d blk (Suc n) =
     (if oob_magic (page_oob d blk n) = NAND_OOB_MAGIC then insert n (marked_pages d blk n) else marked_pages d blk n)"
  by (auto simp: marked_pages_def less_Suc_eq)

lemma recover_pages:
  assumes "nd_blocks d blk = zero_block"
  defines "d' \<equiv> \<lambda>n. fold (recover_page blk) [0..<n] d"
  shows "nd_media (d' n) = nd_media d \<and> nd_is_initialized (d' n) = nd_is_initialized d \<and>
     (\<forall>b. b \<noteq> blk \<longrightarrow> nd_blocks (d' n) b = nd_blocks d b) \<and>
     pb_page_valid (nd_blocks (d' n) blk) = (\<lambda>p. p \<in> marked_pages d blk n) \<and>
     pb_valid_page_cnt (nd_blocks (d' n) blk) = of_nat (card (marked_pages d blk n)) \<and>
     pb_state (nd_blocks (d' n) blk) = (if marked_pages d blk n = {} then BLOCK_FREE else BLOCK_USED)"
proof (induction n)
  case 0
  then show ?case by (simp add: d'_def assms(1) marked_pages_def zero_block_def fun_eq_iff)
next
  case (Suc n)
  have step: "d' (Suc n) = recover_page blk n (d' n)" by (simp add: d'_def)
  have oob: "page_oob (d' n) = page_oob d" using Suc by (intro page_oob_media) simp
  have "n \<notin> marked_pages d blk n" "finite (marked_pages d blk n)" by (simp_all add: marked_pages_def)
  with Suc show ?case
    by (auto simp: step recover_page_def oob marked_pages_Suc fun_eq_iff)
qed

text \<open>What recovery makes of the table: a block that is not bad has the pages whose records are marked.\<close>

definition recovered_as :: "nand_dev \<Rightarrow> nat \<Rightarrow> phy_block \<Rightarrow> bool" where
  "recovered_as d blk k \<longleftrightarrow> pb_page_valid k = (\<lambda>p. p \<in> marked_pages d blk NAND_PAGES_PER_BLOCK) \<and>
     pb_valid_page_cnt k = of_nat (card (marked_pages d blk NAND_PAGES_PER_BLOCK)) \<and>
     pb_state k = (if marked_pages d blk NAND_PAGES_PER_BLOCK = {} then BLOCK_FREE else BLOCK_USED)"

lemma recover_block_zero:
  assumes "nd_blocks d blk = zero_block"
  shows "nd_media (recover_block blk d) = nd_media d" "nd_is_initialized (recover_block blk d) = nd_is_initialized d"
    and "b \<noteq> blk \<Longrightarrow> nd_blocks (recover_block blk d) b = nd_blocks d b"
    and "recovered_as d blk (nd_blocks (recover_block blk d) blk)"
  using recover_pages [OF assms, of NAND_PAGES_PER_BLOCK] assms
  by (simp_all add: recover_block_def recovered_as_def zero_block_def)

lemma marked_pages_media: "nd_media d' = nd_media d \<Longrightarrow> marked_pages d' = marked_pages d"
  by (rule ext)+ (simp add: marked_pages_def page_oob_media [of d' d])

lemma recover_blocks:
  assumes "\<And>b. nd_blocks d b = zero_block \<or> m \<le> b" "n \<le> m"
  shows "nd_media (fold recover_block [0..<n] d) = nd_media d \<and>
     nd_is_initialized (fold recover_block [0..<n] d) = nd_is_initialized d \<and>
     (\<forall>b. (b < n \<longrightarrow> recovered_as d b (nd_blocks (fold recover_block [0..<n] d) b)) \<and>
          (n \<le> b \<longrightarrow> nd_blocks (fold recover_block [0..<n] d) b = nd_blocks d b))"
  using assms(2)
proof (induction n)
  case (Suc n)
  define d' where "d' = fold recover_block [0..<n] d"
  have IH: "nd_media d' = nd_media d" "nd_is_initialized d' = nd_is_initialized d"
    "\<And>b. b < n \<Longrightarrow> recovered_as d b (nd_blocks d' b)" "\<And>b. n \<le> b \<Longrightarrow> nd_blocks d' b = nd_blocks d b"
    using Suc by (auto simp: d'_def)
  have z: "nd_blocks d' n = zero_block" using IH(4) [of n] assms(1) [of n] Suc.prems by auto
  have rec: "recovered_as d' b = recovered_as d b" for b
    by (simp add: recovered_as_def fun_eq_iff marked_pages_media [OF IH(1)])
  show ?case
    using recover_block_zero [OF z] IH by (auto simp: rec less_Suc_eq simp flip: d'_def)
qed simp

lemma init_blocks:
  fixes n :: nat and d :: nand_dev
  defines "d' \<equiv> fold init_block [0..<n] d"
  shows "nd_media d' = nd_media d \<and> nd_media_size d' = nd_media_size d \<and> nd_is_new_media d' = nd_is_new_media d \<and>
     (\<forall>b<n. nd_blocks d' b = zero_block \<or>
        nd_is_new_media d \<and> nd_blocks d' b = zero_block\<lparr>pb_state := BLOCK_BAD, pb_bad_type := BAD_BLOCK_INIT\<rparr>)"
  unfolding d'_def
proof (induction n)
  case (Suc n)
  then show ?case
    by (auto simp: init_block_def nand_rand_def Let_def less_Suc_eq)
qed simp

lemma nand_init_facts:
  assumes "nand_init env d True = Some (RET_OK, d')"
  shows "nd_is_initialized d'"
    and "nd_media d' = (\<lambda>a. if a < nd_media_size d then nd_media d a else 0)"
    and "env_fstat env \<and> nd_media_size d = 0 \<Longrightarrow> b < NAND_TOTAL_BLOCKS \<Longrightarrow> nd_blocks d' b = zero_block \<or>
           nd_blocks d' b = zero_block\<lparr>pb_state := BLOCK_BAD, pb_bad_type := BAD_BLOCK_INIT\<rparr>"
    and "\<not> (env_fstat env \<and> nd_media_size d = 0) \<Longrightarrow> b < NAND_TOTAL_BLOCKS \<Longrightarrow> recovered_as d' b (nd_blocks d' b)"
proof -
  define m where "m = (\<lambda>a. if a < nd_media_size d then nd_media d a else 0)"
  define is_new where "is_new \<longleftrightarrow> env_fstat env \<and> nd_media_size d = 0"
  define d1 where "d1 = d\<lparr>nd_total_read_pages := 0, nd_total_write_pages := 0, nd_crc_error_count := 0,
      nd_ecc := \<lparr>ecc_corrected_count = 0, ecc_uncorrectable_count = 0\<rparr>, nd_ecc_algo := ECC_ALGO_BCH,
      nd_read_energy := 0, nd_write_energy := 0, nd_erase_energy := 0, nd_type := NAND_TYPE_TLC,
      nd_is_new_media := is_new, nd_media := m, nd_media_size := NAND_MEDIA_SIZE, nd_file := Open_file\<rparr>"
  define d2 where "d2 = fold init_block [0..<NAND_TOTAL_BLOCKS] d1"
  define d3 where "d3 = d2\<lparr>nd_reserved_count := count_reserved d2, nd_is_initialized := True\<rparr>"
  have d': "d' = (if \<not> is_new then fold recover_block [0..<NAND_TOTAL_BLOCKS] d3 else d3)"
  proof -
    have i: "nd_is_new_media d2 = is_new" using init_blocks [of NAND_TOTAL_BLOCKS d1] by (simp add: d2_def d1_def)
    then have i3: "nd_is_new_media d3 = is_new" by (simp add: d3_def)
    have env: "env_open env" "env_fdopen env" "env_ftruncate env" "env_mmap env"
      using assms by (auto simp: nand_init_def Let_def split: if_splits)
    have "nand_init env d True = Some (RET_OK, if \<not> nd_is_new_media d3
        then fold recover_block [0..<NAND_TOTAL_BLOCKS] d3 else d3)"
      unfolding nand_init_def Let_def d3_def d2_def d1_def m_def is_new_def NAND_MEDIA_SIZE_def
      by (simp add: env cong: if_cong)
    with assms have "d' = (if \<not> nd_is_new_media d3 then fold recover_block [0..<NAND_TOTAL_BLOCKS] d3 else d3)"
      by simp
    then show ?thesis by (simp add: i3)
  qed
  have b: "nd_blocks d3 b = zero_block \<or> is_new \<and>
      nd_blocks d3 b = zero_block\<lparr>pb_state := BLOCK_BAD, pb_bad_type := BAD_BLOCK_INIT\<rparr>" if "b < NAND_TOTAL_BLOCKS" for b
    using init_blocks [of NAND_TOTAL_BLOCKS d1] that by (simp add: d3_def d2_def d1_def)
  have m3: "nd_media d3 = m" using init_blocks [of NAND_TOTAL_BLOCKS d1] by (simp add: d3_def d2_def d1_def)
  have old: "nd_media d' = m \<and> nd_is_initialized d' \<and> (\<forall>b<NAND_TOTAL_BLOCKS. recovered_as d3 b (nd_blocks d' b))"
    if new: "\<not> is_new"
  proof -
    have "nd_blocks d3 b = zero_block \<or> NAND_TOTAL_BLOCKS \<le> b" for b using b [of b] new by fastforce
    from recover_blocks [OF this order.refl] show ?thesis using new m3 by (simp add: d') (simp add: d3_def)
  qed
  show init: "nd_is_initialized d'" using old by (cases is_new) (simp_all add: d' d3_def)
  show media: "nd_media d' = (\<lambda>a. if a < nd_media_size d then nd_media d a else 0)"
    using old m3 unfolding m_def [symmetric] by (cases is_new) (simp_all add: d')
  show "nd_blocks d' b = zero_block \<or> nd_blocks d' b = zero_block\<lparr>pb_state := BLOCK_BAD, pb_bad_type := BAD_BLOCK_INIT\<rparr>"
    if "env_fstat env \<and> nd_media_size d = 0" "b < NAND_TOTAL_BLOCKS"
    using b [OF that(2)] that(1) by (auto simp: d' is_new_def)
  show "recovered_as d' b (nd_blocks d' b)"
    if "\<not> (env_fstat env \<and> nd_media_size d = 0)" "b < NAND_TOTAL_BLOCKS"
    using old that m3 by (simp add: is_new_def recovered_as_def marked_pages_media [of d' d3])
qed

lemma block_acct_recovered: "recovered_as d b k \<Longrightarrow> block_acct k"
proof -
  assume r: "recovered_as d b k"
  then have "valid_pages k = marked_pages d b NAND_PAGES_PER_BLOCK"
    by (auto simp: recovered_as_def valid_pages_def marked_pages_def)
  with r show ?thesis by (simp add: recovered_as_def block_acct_def)
qed

lemma nand_init_chip_acct:
  assumes "nand_init env d True = Some (RET_OK, d')"
  shows "chip_acct d'"
  unfolding chip_acct_def
proof (intro allI impI)
  fix b
  assume b: "b < NAND_TOTAL_BLOCKS"
  show "block_acct (nd_blocks d' b)"
  proof (cases "env_fstat env \<and> nd_media_size d = 0")
    case True
    from nand_init_facts(3) [OF assms True b] show ?thesis
      by (auto simp: block_acct_def zero_block_def valid_pages_def)
  next
    case False
    from nand_init_facts(4) [OF assms False b] show ?thesis by (rule block_acct_recovered)
  qed
qed

lemma nand_init_new_chip_ok:
  assumes "nand_init env d True = Some (RET_OK, d')" "env_fstat env" "nd_media_size d = 0"
  shows "chip_ok d'"
  using nand_init_facts(1,3) [OF assms(1)] assms(2,3)
  by (fastforce simp: chip_ok_def on_chip_def zero_block_def)

text \<open>A frame of the chip lies within the medium file.\<close>

lemma page_frame_in_media:
  assumes "on_chip b p"
  shows "nand_calc_page_offset b p + NAND_PAGE_SIZE + NAND_OOB_SIZE \<le> NAND_MEDIA_SIZE"
proof -
  have "b * NAND_PAGES_PER_BLOCK + p + 1 \<le> NAND_TOTAL_BLOCKS * NAND_PAGES_PER_BLOCK"
    using assms by (simp add: on_chip_def NAND_TOTAL_BLOCKS_def NAND_PAGES_PER_BLOCK_def)
  from mult_le_mono1 [OF this, of "NAND_PAGE_SIZE + NAND_OOB_SIZE"] show ?thesis
    by (simp add: nand_calc_page_offset_def NAND_MEDIA_SIZE_def algebra_simps)
qed

text \<open>After a power cycle a page is readable when its record is marked, whatever the table said before.\<close>

lemma power_cycle_page:
  assumes d: "nd_media_size d = NAND_MEDIA_SIZE" "nand_deinit d = Some d1" "nand_init env d1 True = Some (RET_OK, d2)"
    and p: "on_chip b p" "oob_magic (page_oob d b p) = NAND_OOB_MAGIC"
  shows "chip_page d2 b p = Some (page_data d b p)"
proof -
  from d(2) have d1: "nd_media d1 = nd_media d" "nd_media_size d1 = NAND_MEDIA_SIZE"
    using d(1) by (auto simp: nand_deinit_def split: if_splits)
  have size: "0 < nd_media_size d1"
    by (simp add: d1 NAND_MEDIA_SIZE_def NAND_TOTAL_BLOCKS_def NAND_PAGES_PER_BLOCK_def)
  note f = nand_init_facts(2,4) [OF d(3)]
  have frame: "page_data d2 b p = page_data d b p" "page_oob d2 b p = page_oob d b p"
    using page_frame_in_media [OF p(1)] d1
    by (auto simp: page_data_def page_oob_def nand_calc_oob_offset_def mem_read_def f(1) intro!: arg_cong [where f = oob_of_bytes])
  have "recovered_as d2 b (nd_blocks d2 b)" using f(2) [of b] size p(1) by (simp add: on_chip_def)
  moreover have "p \<in> marked_pages d2 b NAND_PAGES_PER_BLOCK"
    using p by (simp add: marked_pages_def on_chip_def frame)
  ultimately show ?thesis using p(1) by (auto simp: chip_page_def recovered_as_def frame split: if_splits)
qed

section \<open>Reachable chips\<close>

lemma hamming_decode_length:
  assumes "nand_ecc_hamming_decode st (Some bs) n ecc = (r, b, st')"
  shows "\<exists>bs'. b = Some bs' \<and> length bs' = length bs"
proof -
  have try_byte: "case hamming_try_byte n ecc i d of Next d' \<Rightarrow> length d' = length bs | Leave _ d' \<Rightarrow> length d' = length bs"
    if "length d = length bs" for i d
    unfolding hamming_try_byte_def
    by (rule loop_each_invariant) (use that in \<open>auto simp: hamming_try_bit_def Let_def\<close>)
  have "case loop_each [0..<n] (hamming_try_byte n ecc) bs of Next d' \<Rightarrow> length d' = length bs | Leave _ d' \<Rightarrow> length d' = length bs"
    by (rule loop_each_invariant) (use try_byte in auto)
  with assms show ?thesis
    by (auto simp: nand_ecc_hamming_decode_def Let_def split: if_splits ctl.splits)
qed

lemma page_read_same_store:
  assumes "nand_page_read d b p has_buf = (ret, buf, d')"
  shows "same_store d d'" and "buf = Some bs \<Longrightarrow> length bs = NAND_PAGE_SIZE"
proof -
  have *: "same_store d d' \<and> (case buf of Some bs \<Rightarrow> length bs = NAND_PAGE_SIZE | None \<Rightarrow> True)"
  proof (cases "oob_magic (page_oob d b p) = NAND_OOB_MAGIC")
    case False
    with assms show ?thesis
      by (auto simp: nand_page_read_def Let_def same_store_def page_data_def split: if_splits)
  next
    case True
    obtain r bs st where dec:
      "nand_ecc_hamming_decode (nd_ecc d) (Some (page_data d b p)) NAND_PAGE_SIZE (oob_ecc (page_oob d b p)) = (r, Some bs, st)"
      and len: "length bs = NAND_PAGE_SIZE"
      by (metis hamming_decode_length prod.exhaust page_data_def length_mem_read)
    with True assms show ?thesis
      by (auto simp: nand_page_read_def Let_def same_store_def split: if_splits)
  qed
  then show "same_store d d'" "buf = Some bs \<Longrightarrow> length bs = NAND_PAGE_SIZE" by auto
qed

text \<open>Operations that change counters or bytes only keep the table and the accounting.\<close>

definition same_table :: "nand_dev \<Rightarrow> nand_dev \<Rightarrow> bool" where
  "same_table d d' \<longleftrightarrow> nd_is_initialized d' = nd_is_initialized d \<and>
     (\<forall>b. block_state_of d' b = block_state_of d b \<and> page_valid d' b = page_valid d b \<and>
          pb_valid_page_cnt (nd_blocks d' b) = pb_valid_page_cnt (nd_blocks d b))"

definition acct_inv :: "nat set \<Rightarrow> nand_dev \<Rightarrow> bool" where
  "acct_inv C d \<longleftrightarrow> nd_is_initialized d \<and> chip_acct_but C d"

lemma same_table_acct: "same_table d d' \<Longrightarrow> acct_inv C d \<Longrightarrow> acct_inv C d'"
  by (simp add: same_table_def acct_inv_def chip_acct_but_def block_acct_def valid_pages_def)

lemma same_store_table: "same_store d d' \<Longrightarrow> same_table d d'"
  by (simp add: same_store_def same_table_def)

lemma same_table_trans: "same_table d d' \<Longrightarrow> same_table d' d'' \<Longrightarrow> same_table d d''"
  by (simp add: same_table_def)

lemma same_table_refl [simp]: "same_table d d"
  by (simp add: same_table_def)

lemma page_write_acct:
  assumes "acct_inv C d" "length bs = NAND_PAGE_SIZE"
  shows "acct_inv C (snd (nand_page_write d b p (Some bs)))"
proof -
  have "nd_is_initialized (snd (nand_page_write d b p (Some bs)))"
    using assms by (simp add: page_write_cases acct_inv_def store_page_def media_put_def)
  with assms chip_acct_but_write [OF _ prod.collapse [symmetric] assms(2)] show ?thesis
    by (simp add: acct_inv_def)
qed

lemma oob_write_table: "same_table d (snd (nand_oob_write d b p oob))"
  by (auto simp: nand_oob_write_def same_table_def media_put_def split: option.splits)

lemma page_write_with_crc_acct:
  assumes "acct_inv C d" "length bs = NAND_PAGE_SIZE"
  shows "acct_inv C (snd (nand_page_write_with_crc d b p (Some bs)))"
proof -
  obtain ret d1 where w: "nand_page_write d b p (Some bs) = (ret, d1)" by (metis prod.exhaust)
  have "acct_inv C d1" using page_write_acct [OF assms, of b p] w by simp
  then show ?thesis
    using same_table_acct [OF oob_write_table]
    by (cases ret) (simp_all add: nand_page_write_with_crc_def w Let_def)
qed

lemma ecc_decode_table: "same_table d (snd (snd (ecc_decode_selected d buf ecc)))"
  by (auto simp: ecc_decode_selected_def same_table_def split: ecc_algo_type.splits prod.splits)

lemma page_read_with_crc_table: "same_table d (snd (snd (nand_page_read_with_crc d b p has_buf)))"
proof -
  obtain ret buf d1 where r: "nand_page_read d b p has_buf = (ret, buf, d1)" by (metis prod.exhaust)
  have d1: "same_table d d1" by (rule same_store_table [OF page_read_same_store(1) [OF r]])
  have dec: "same_table d (d2\<lparr>nd_crc_error_count := n\<rparr>)" "same_table d d2"
    if "ecc_decode_selected d1 x ecc = (y, z, d2)" for x ecc y z d2 n
    using d1 ecc_decode_table [of d1 x ecc] that by (simp_all add: same_table_def)
  show ?thesis
  proof (cases "ret = RET_OK \<and> buf \<noteq> None \<and> (\<exists>oob. nand_oob_read d1 b p True = (RET_OK, Some oob))")
    case False
    then show ?thesis using d1
      by (auto simp: nand_page_read_with_crc_def r nand_oob_read_def split: ret_code.splits option.splits)
  next
    case True
    then obtain bs oob where o: "ret = RET_OK" "buf = Some bs" "nand_oob_read d1 b p True = (RET_OK, Some oob)" by blast
    obtain y z d2 where e: "ecc_decode_selected d1 bs (oob_ecc oob) = (y, z, d2)" by (metis prod.exhaust)
    show ?thesis using d1 dec [OF e] by (simp add: nand_page_read_with_crc_def r o e Let_def)
  qed
qed

lemma mark_bad_acct: "acct_inv C d \<Longrightarrow> acct_inv C (snd (nand_mark_block_bad d b t))"
proof (cases "b < NAND_TOTAL_BLOCKS")
  case True
  assume "acct_inv C d"
  then show ?thesis
    using chip_acct_but_mark_bad [OF _ _ True prod.collapse [symmetric]] mark_bad_facts(2) [OF _ True prod.collapse [symmetric]]
    by (simp add: acct_inv_def)
qed (simp add: nand_mark_block_bad_def nand_is_block_valid_def)

lemma erase_acct: "acct_inv C d \<Longrightarrow> acct_inv C (snd (nand_block_erase d b))"
proof (cases "b < NAND_TOTAL_BLOCKS")
  case True
  assume a: "acct_inv C d"
  then have i: "nd_is_initialized d" by (simp add: acct_inv_def)
  have "nd_is_initialized (snd (nand_block_erase d b))"
    using i True by (cases rule: erase_cases) (use i in simp_all)
  with chip_acct_but_erase [OF _ i True prod.collapse [symmetric]] a show ?thesis by (simp add: acct_inv_def)
qed (simp add: nand_block_erase_def nand_is_block_valid_def)

lemma mark_invalid_acct: "acct_inv C d \<Longrightarrow> acct_inv C (snd (nand_mark_page_invalid d b p))"
proof (cases "on_chip b p")
  case True
  assume a: "acct_inv C d"
  then have i: "nd_is_initialized d" by (simp add: acct_inv_def)
  with a chip_acct_but_mark_invalid [OF _ i True prod.collapse [symmetric]] show ?thesis
    by (simp add: acct_inv_def mark_invalid_eq [OF i True])
qed (auto simp: nand_mark_page_invalid_def nand_is_block_valid_def on_chip_def)

lemma replace_move_acct: "acct_inv C d \<Longrightarrow> acct_inv C (replace_move_page b nb p d)"
proof -
  assume a: "acct_inv C d"
  obtain ret buf d1 where r: "nand_page_read d b p True = (ret, buf, d1)" by (metis prod.exhaust)
  have d1: "acct_inv C d1" by (rule same_table_acct [OF same_store_table [OF page_read_same_store(1) [OF r]] a])
  have w: "acct_inv C (snd (nand_page_write d1 nb p buf))"
    using d1 page_write_acct [OF d1] page_read_same_store(2) [OF r]
    by (cases buf) (simp_all add: nand_page_write_def)
  show ?thesis
    using a d1 w by (cases ret) (simp_all add: replace_move_page_def r)
qed

lemma replace_bad_block_acct: "acct_inv C d \<Longrightarrow> acct_inv C (snd (snd (nand_replace_bad_block d b has_out)))"
proof -
  assume a: "acct_inv C d"
  obtain ret nb d1 where r: "nand_alloc_reserved_block d True = (ret, nb, d1)" by (metis prod.exhaust)
  have d1: "acct_inv C d1"
    using r a by (auto simp: nand_alloc_reserved_block_def acct_inv_def chip_acct_but_def split: if_splits option.splits)
  have f: "acct_inv C (fold (replace_move_page b x) [0..<NAND_PAGES_PER_BLOCK] d1)" for x
    by (rule fold_invariant_set [where I = "acct_inv C", OF replace_move_acct d1])
  show ?thesis
    using a d1 f mark_bad_acct [OF f]
    by (cases ret; cases nb) (simp_all add: nand_replace_bad_block_def r Let_def)
qed

lemma retry_loop_inv:
  assumes "\<And>x s. I s \<Longrightarrow> (case body x s of Leave _ s' \<Rightarrow> I s' | Next s' \<Rightarrow> I s')" "I s"
  shows "I (case loop_each xs body s of Leave _ s' \<Rightarrow> s' | Next s' \<Rightarrow> s')"
  using loop_each_invariant [where I = I and Q = "\<lambda>_. I" and body = body and xs = xs and s = s] assms by (auto split: ctl.splits)

lemma write_with_retry_acct:
  assumes "acct_inv C d" "length bs = NAND_PAGE_SIZE"
  shows "acct_inv C (snd (nand_page_write_with_retry d b p (Some bs)))"
proof -
  define body :: "nat \<Rightarrow> ret_code \<times> nand_dev \<Rightarrow> (ret_code, ret_code \<times> nand_dev) ctl"
    where "body = (\<lambda>_ (_, d). let (ret, d) = nand_page_write d b p (Some bs) in
       if ret \<noteq> RET_ERR_OVERWRITE then Leave ret (ret, d) else Next (ret, d))"
  have "acct_inv C (snd (case loop_each [0..<NAND_WRITE_RETRY_COUNT] body (RET_OK, d) of Leave _ s \<Rightarrow> s | Next s \<Rightarrow> s))"
  proof (rule retry_loop_inv [where I = "\<lambda>s. acct_inv C (snd s)"])
    show "case body x s of Leave _ s' \<Rightarrow> acct_inv C (snd s') | Next s' \<Rightarrow> acct_inv C (snd s')"
      if "acct_inv C (snd s)" for x s
      using page_write_acct [OF that assms(2), of b p] by (auto simp: body_def Let_def split: prod.splits)
  qed (use assms in simp)
  then show ?thesis
    unfolding nand_page_write_with_retry_def body_def [symmetric]
    by (auto simp: Let_def mark_bad_acct split: prod.splits)
qed

lemma read_with_retry_acct:
  assumes "acct_inv C d"
  shows "acct_inv C (snd (snd (nand_page_read_with_retry d b p has_buf)))"
proof -
  define body :: "nat \<Rightarrow> ret_code \<times> u8 list option \<times> nand_dev \<Rightarrow> (ret_code, ret_code \<times> u8 list option \<times> nand_dev) ctl"
    where "body = (\<lambda>_ (_, _, d). let (ret, buf, d) = nand_page_read d b p has_buf in
       if ret \<noteq> RET_ERR_NOT_MAPPED then Leave ret (ret, buf, d) else Next (ret, buf, d))"
  have "acct_inv C (snd (snd (case loop_each [0..<NAND_READ_RETRY_COUNT] body (RET_OK, None, d) of
      Leave _ s \<Rightarrow> s | Next s \<Rightarrow> s)))"
  proof (rule retry_loop_inv [where I = "\<lambda>s. acct_inv C (snd (snd s))"])
    show "case body x s of Leave _ s' \<Rightarrow> acct_inv C (snd (snd s')) | Next s' \<Rightarrow> acct_inv C (snd (snd s'))"
      if "acct_inv C (snd (snd s))" for x s
      using that same_table_acct [OF same_store_table [OF page_read_same_store(1)], of "snd (snd s)" b p has_buf]
      by (auto simp: body_def Let_def split: prod.splits)
  qed (use assms in simp)
  then show ?thesis
    unfolding nand_page_read_with_retry_def body_def [symmetric]
    by (auto simp: Let_def mark_bad_acct split: prod.splits)
qed

lemma inject_table: "same_table d (snd (nand_inject_retention_errors d b rate))"
proof -
  have flips: "same_table d (snd ((flip_random_bit ^^ n) (buf, d)))" for n buf d
    by (induction n) (auto simp: flip_random_bit_def nand_rand_def same_table_def Let_def split: prod.splits)
  have page: "same_table d1 (fst (inject_page b rate p (d1, c)))" for p d1 c
  proof -
    define n where "n = (if NAND_PAGE_SIZE * rate div 100 = 0 then 1 else NAND_PAGE_SIZE * rate div 100)"
    obtain buf d2 where f: "(flip_random_bit ^^ n) (page_data d1 b p, d1) = (buf, d2)" by (metis prod.exhaust)
    with flips [of d1 n "page_data d1 b p"] have "same_table d1 d2" by simp
    then show ?thesis
      using f by (simp add: inject_page_def Let_def media_put_def same_table_def flip: n_def)
  qed
  have "same_table d (fst (inject_page b rate p s))" if "same_table d (fst s)" for p and s :: "nand_dev \<times> u32"
    using same_table_trans [OF that page] by (cases s) simp
  then have "same_table d (fst (fold (inject_page b rate) [0..<NAND_PAGES_PER_BLOCK] (d, 0)))"
    by (intro fold_invariant_set [where I = "\<lambda>s. same_table d (fst s)"]) simp_all
  then show ?thesis by (auto simp: nand_inject_retention_errors_def split: prod.splits)
qed

lemma page_read_table: "same_table d (snd (snd (nand_page_read d b p has_buf)))"
  by (cases "nand_page_read d b p has_buf") (auto dest: page_read_same_store(1) intro: same_store_table)

text \<open>The operations of the chip as steps, the cold mark apart; buffers hold a whole page.\<close>

inductive chip_step :: "nand_dev \<Rightarrow> nand_dev \<Rightarrow> bool" where
  do_write: "length bs = NAND_PAGE_SIZE \<Longrightarrow> chip_step d (snd (nand_page_write d b p (Some bs)))"
| do_write_with_crc: "length bs = NAND_PAGE_SIZE \<Longrightarrow> chip_step d (snd (nand_page_write_with_crc d b p (Some bs)))"
| do_write_with_retry: "length bs = NAND_PAGE_SIZE \<Longrightarrow> chip_step d (snd (nand_page_write_with_retry d b p (Some bs)))"
| do_read: "chip_step d (snd (snd (nand_page_read d b p has_buf)))"
| do_read_with_crc: "chip_step d (snd (snd (nand_page_read_with_crc d b p has_buf)))"
| do_read_with_retry: "chip_step d (snd (snd (nand_page_read_with_retry d b p has_buf)))"
| do_oob_write: "chip_step d (snd (nand_oob_write d b p oob))"
| do_erase: "chip_step d (snd (nand_block_erase d b))"
| do_invalidate: "chip_step d (snd (nand_mark_page_invalid d b p))"
| do_mark_bad: "chip_step d (snd (nand_mark_block_bad d b t))"
| do_replace: "chip_step d (snd (snd (nand_replace_bad_block d b has_out)))"
| do_alloc: "chip_step d (snd (snd (nand_alloc_reserved_block d has_out)))"
| do_inject: "chip_step d (snd (nand_inject_retention_errors d b rate))"
| do_reset_read_count: "chip_step d (snd (nand_reset_block_read_count d b))"
| do_set_type: "chip_step d (snd (nand_set_type d type))"
| do_set_algo: "chip_step d (snd (nand_ecc_set_algo d algo))"
| do_reset_power: "chip_step d (snd (nand_reset_power_stats d))"

text \<open>
  Histories of a chip from its power-up on, with the set of the blocks that were marked cold and not
  erased since.
\<close>

inductive chip_reachable :: "nat set \<Rightarrow> nand_dev \<Rightarrow> bool" where
  boot: "nand_init env d True = Some (RET_OK, d') \<Longrightarrow> chip_reachable {} d'"
| step: "chip_reachable C d \<Longrightarrow> chip_step d d' \<Longrightarrow> chip_reachable C d'"
| cold: "chip_reachable C d \<Longrightarrow> chip_reachable (insert b C) (snd (nand_mark_cold_block d b))"
| erased: "chip_reachable C d \<Longrightarrow> nand_block_erase d b = (RET_OK, d') \<Longrightarrow> chip_reachable (C - {b}) d'"

lemma chip_step_acct: "chip_step d d' \<Longrightarrow> acct_inv C d \<Longrightarrow> acct_inv C d'"
proof (induction rule: chip_step.induct)
  case (do_reset_read_count d b)
  have "same_table d (snd (nand_reset_block_read_count d b))" by (auto simp: same_table_def nand_reset_block_read_count_def)
  with do_reset_read_count show ?case by (rule same_table_acct [rotated])
next
  case (do_set_type d type)
  have "same_table d (snd (nand_set_type d type))" by (auto simp: same_table_def nand_set_type_def split: option.splits)
  with do_set_type show ?case by (rule same_table_acct [rotated])
next
  case (do_set_algo d algo)
  have "same_table d (snd (nand_ecc_set_algo d algo))" by (auto simp: same_table_def nand_ecc_set_algo_def)
  with do_set_algo show ?case by (rule same_table_acct [rotated])
next
  case (do_reset_power d)
  have "same_table d (snd (nand_reset_power_stats d))" by (auto simp: same_table_def nand_reset_power_stats_def)
  with do_reset_power show ?case by (rule same_table_acct [rotated])
next
  case (do_alloc d has_out)
  have "same_table d (snd (snd (nand_alloc_reserved_block d has_out)))"
    by (auto simp: same_table_def nand_alloc_reserved_block_def split: option.splits)
  with do_alloc show ?case by (rule same_table_acct [rotated])
next
  case (do_read d)
  then show ?case by (rule same_table_acct [OF page_read_table])
next
  case (do_read_with_crc d)
  then show ?case by (rule same_table_acct [OF page_read_with_crc_table])
next
  case (do_oob_write d)
  then show ?case by (rule same_table_acct [OF oob_write_table])
next
  case (do_inject d)
  then show ?case by (rule same_table_acct [OF inject_table])
next
  case (do_write bs d)
  show ?case by (rule page_write_acct [OF do_write(2,1)])
next
  case (do_write_with_crc bs d)
  show ?case by (rule page_write_with_crc_acct [OF do_write_with_crc(2,1)])
next
  case (do_write_with_retry bs d)
  show ?case by (rule write_with_retry_acct [OF do_write_with_retry(2,1)])
next
  case (do_read_with_retry d)
  show ?case by (rule read_with_retry_acct [OF do_read_with_retry])
next
  case (do_erase d)
  show ?case by (rule erase_acct [OF do_erase])
next
  case (do_invalidate d)
  show ?case by (rule mark_invalid_acct [OF do_invalidate])
next
  case (do_mark_bad d)
  show ?case by (rule mark_bad_acct [OF do_mark_bad])
next
  case (do_replace d)
  show ?case by (rule replace_bad_block_acct [OF do_replace])
qed

lemma cold_acct: "acct_inv C d \<Longrightarrow> acct_inv (insert b C) (snd (nand_mark_cold_block d b))"
  by (auto simp: acct_inv_def chip_acct_but_def nand_mark_cold_block_def)

lemma erased_acct:
  assumes "acct_inv C d" "nand_block_erase d b = (RET_OK, d')"
  shows "acct_inv (C - {b}) d'"
proof -
  from assms have i: "nd_is_initialized d" and c: "chip_acct_but C d" by (simp_all add: acct_inv_def)
  have b: "b < NAND_TOTAL_BLOCKS" using assms(2) by (auto simp: nand_block_erase_def nand_is_block_valid_def split: if_splits)
  from i b show ?thesis
  proof (cases rule: erase_cases)
    case (erased d1)
    with assms(2) have "d' = d1" by simp
    with c i erased show ?thesis
      by (auto simp: acct_inv_def chip_acct_but_def block_acct_def valid_pages_def)
  qed (use assms(2) in simp_all)
qed

text \<open>C8: after power-up and any sequence of the chip's operations, every block that is not bad and not
  marked cold since its last erase counts its valid pages exactly and is marked free exactly when it
  has none.  Blocks marked cold are left out because their count is wrong from then on
  (\<open>cold_mark_frees_live_block\<close>); the mark does not spoil the account of any other block, and a
  successful erase repairs the one of its block.\<close>

lemma reachable_blocks_account:
  assumes "chip_reachable C d" "b < NAND_TOTAL_BLOCKS" "b \<notin> C" "block_state_of d b \<noteq> BLOCK_BAD"
  shows "unat (pb_valid_page_cnt (nd_blocks d b)) = card {p. p < NAND_PAGES_PER_BLOCK \<and> page_valid d b p} \<and>
     (block_state_of d b = BLOCK_FREE \<longleftrightarrow> (\<forall>p<NAND_PAGES_PER_BLOCK. \<not> page_valid d b p))"
proof -
  from assms(1) have "acct_inv C d"
  proof (induction rule: chip_reachable.induct)
    case (boot env d d')
    then show ?case by (simp add: acct_inv_def chip_acct_but_empty nand_init_chip_acct nand_init_facts(1))
  next
    case (step C d d')
    then show ?case using chip_step_acct by blast
  next
    case (cold C d b)
    then show ?case by (intro cold_acct)
  next
    case (erased C d b d')
    then show ?case by (intro erased_acct)
  qed
  with assms(2-4) have a: "pb_valid_page_cnt (nd_blocks d b) = of_nat (card (valid_pages (nd_blocks d b)))"
    "block_state_of d b = BLOCK_FREE \<longleftrightarrow> valid_pages (nd_blocks d b) = {}"
    by (auto simp: acct_inv_def chip_acct_but_def block_acct_def)
  then show ?thesis unfolding a by (simp add: valid_pages_def [symmetric]) (auto simp: valid_pages_def)
qed

definition good_env :: nand_env where
  "good_env = \<lparr>env_open = True, env_fstat = True, env_fdopen = True, env_ftruncate = True, env_mmap = True\<rparr>"

definition blank_device :: nand_dev where
  "blank_device = empty_chip\<lparr>nd_is_initialized := False, nd_file := No_file, nd_media_size := 0\<rparr>"

lemma good_env_boots: "\<exists>d'. nand_init good_env d True = Some (RET_OK, d')"
  by (simp add: nand_init_def good_env_def Let_def)

text \<open>A history that marks one block as cold and writes another one, on a chip with an old medium.\<close>

lemma page_write_not_bad:
  assumes "block_state_of d b' \<noteq> BLOCK_BAD" "length bs = NAND_PAGE_SIZE"
  shows "block_state_of (snd (nand_page_write d b p (Some bs))) b' \<noteq> BLOCK_BAD"
proof -
  obtain ret d' where w: "nand_page_write d b p (Some bs) = (ret, d')" by (metis prod.exhaust)
  with assms page_write_failed [OF assms(2) w] page_write_blocks [OF _ assms(2), of d b p d'] show ?thesis
    by (cases "ret = RET_OK") auto
qed

lemma reachable_blocks_account_witness:
  "\<exists>d. nand_init good_env (blank_device\<lparr>nd_media_size := NAND_MEDIA_SIZE\<rparr>) True = Some (RET_OK, d) \<and>
     (let d' = snd (nand_page_write (snd (nand_mark_cold_block
          (snd (nand_page_write d 1 0 (Some (replicate NAND_PAGE_SIZE 1)))) 1)) 0 0 (Some (replicate NAND_PAGE_SIZE 2)))
      in unat (pb_valid_page_cnt (nd_blocks d' 0)) = card {p. p < NAND_PAGES_PER_BLOCK \<and> page_valid d' 0 p})"
proof -
  let ?d0 = "blank_device\<lparr>nd_media_size := NAND_MEDIA_SIZE\<rparr>"
  from good_env_boots obtain d where d: "nand_init good_env ?d0 True = Some (RET_OK, d)" by blast
  define d1 where "d1 = snd (nand_page_write d 1 0 (Some (replicate NAND_PAGE_SIZE 1)))"
  have "recovered_as d 0 (nd_blocks d 0)"
    by (rule nand_init_facts(4) [OF d])
      (simp_all add: NAND_MEDIA_SIZE_def NAND_TOTAL_BLOCKS_def NAND_PAGES_PER_BLOCK_def)
  then have "block_state_of d1 0 \<noteq> BLOCK_BAD"
    unfolding d1_def by (intro page_write_not_bad) (simp_all add: recovered_as_def)
  then have "block_state_of (snd (nand_mark_cold_block d1 1)) 0 \<noteq> BLOCK_BAD"
    by (simp add: nand_mark_cold_block_def)
  then have bad: "block_state_of (snd (nand_page_write (snd (nand_mark_cold_block d1 1)) 0 0 (Some (replicate NAND_PAGE_SIZE 2)))) 0 \<noteq> BLOCK_BAD"
    by (rule page_write_not_bad) simp
  have "chip_reachable (insert 1 {}) (snd (nand_page_write (snd (nand_mark_cold_block d1 1)) 0 0 (Some (replicate NAND_PAGE_SIZE 2))))"
    unfolding d1_def
    by (rule chip_reachable.step [OF chip_reachable.cold [OF chip_reachable.step [OF chip_reachable.boot [OF d] do_write]] do_write]) simp_all
  from reachable_blocks_account [OF this _ _ bad] d show ?thesis
    by (auto simp: NAND_TOTAL_BLOCKS_def Let_def d1_def)
qed

text \<open>C12: whatever is readable on a chip in use is readable with the same data after the power was
  cycled.\<close>

lemma power_cycle_keeps_pages:
  assumes "chip_ok d" "nd_media_size d = NAND_MEDIA_SIZE" "nand_deinit d = Some d1"
    and "nand_init env d1 True = Some (RET_OK, d2)" "chip_page d b p = Some bs"
  shows "chip_page d2 b p = Some bs"
proof -
  from assms(5) have p: "on_chip b p" "bs = page_data d b p" and "clean_page d b p"
    using assms(1) by (auto simp: chip_page_def chip_ok_def split: if_splits)
  then have "oob_magic (page_oob d b p) = NAND_OOB_MAGIC" by (simp add: clean_page_def)
  from power_cycle_page [OF assms(2-4) p(1) this] p(2) show ?thesis by simp
qed

lemma power_cycle_keeps_pages_witness:
  "\<exists>d d1 d2. nand_page_write empty_chip 2 9 (Some (replicate NAND_PAGE_SIZE 0x11)) = (RET_OK, d) \<and>
     nand_deinit d = Some d1 \<and> nand_init good_env d1 True = Some (RET_OK, d2) \<and>
     chip_page d2 2 9 = Some (replicate NAND_PAGE_SIZE 0x11)"
proof -
  have c: "on_chip 2 9" by (simp add: on_chip_def NAND_TOTAL_BLOCKS_def NAND_PAGES_PER_BLOCK_def)
  then obtain d where d: "nand_page_write empty_chip 2 9 (Some (replicate NAND_PAGE_SIZE 0x11)) = (RET_OK, d)"
    using empty_chip_write by blast
  have f: "nd_media_size d = NAND_MEDIA_SIZE" "nd_file d = Open_file"
    using page_write_okD(5) [OF d] by (simp_all add: store_page_def media_put_def empty_chip_def)
  then obtain d1 where d1: "nand_deinit d = Some d1" by (simp add: nand_deinit_def)
  from good_env_boots obtain d2 where d2: "nand_init good_env d1 True = Some (RET_OK, d2)" by blast
  have "chip_ok d" "chip_page d 2 9 = Some (replicate NAND_PAGE_SIZE 0x11)"
    using page_write_chip_ok [OF empty_chip_ok d] page_write_chip_page [OF d] by simp_all
  from power_cycle_keeps_pages [OF this(1) f(1) d1 d2 this(2)] d d1 d2 show ?thesis by blast
qed

text \<open>An erase does not survive a power cycle: the page of an erased block, gone from the chip, is
  readable again with its old data after the next power-up.\<close>

lemma erased_page_returns:
  assumes "chip_ok d" "nd_media_size d = NAND_MEDIA_SIZE" "chip_page d b p = Some bs"
    and "nand_block_erase d b = (RET_OK, d1)" "nand_deinit d1 = Some d2" "nand_init env d2 True = Some (RET_OK, d3)"
  shows "chip_page d1 b p = None \<and> chip_page d3 b p = Some bs"
proof -
  have b: "on_chip b p" "bs = page_data d b p" "clean_page d b p"
    using assms(1,3) by (auto simp: chip_page_def chip_ok_def split: if_splits)
  have i: "nd_is_initialized d" and b0: "b < NAND_TOTAL_BLOCKS"
    using chip_ok_initialized [OF assms(1)] b(1) by (simp_all add: on_chip_def)
  have m: "nd_media d1 = nd_media d"
    using i b0 by (cases rule: erase_cases) (use assms(4) in simp_all)
  have s: "nd_media_size d1 = NAND_MEDIA_SIZE"
    using assms(2,4) by (auto simp: nand_block_erase_def nand_rand_def Let_def split: if_splits prod.splits)
  have "oob_magic (page_oob d1 b p) = NAND_OOB_MAGIC"
    using b(3) by (simp add: page_oob_media [OF m] clean_page_def)
  from power_cycle_page [OF s assms(5,6) b(1) this] erase_chip_page [OF i b0 assms(4), of b p]
  show ?thesis by (simp add: page_data_media [OF m] b(2))
qed

lemma erased_page_returns_witness:
  "\<exists>d d1 d2 d3. nand_page_write empty_chip 2 9 (Some (replicate NAND_PAGE_SIZE 0x11)) = (RET_OK, d) \<and>
     nand_block_erase d 2 = (RET_OK, d1) \<and> nand_deinit d1 = Some d2 \<and> nand_init good_env d2 True = Some (RET_OK, d3) \<and>
     chip_page d1 2 9 = None \<and> chip_page d3 2 9 = Some (replicate NAND_PAGE_SIZE 0x11)"
proof -
  have c: "on_chip 2 9" by (simp add: on_chip_def NAND_TOTAL_BLOCKS_def NAND_PAGES_PER_BLOCK_def)
  then obtain d where d: "nand_page_write empty_chip 2 9 (Some (replicate NAND_PAGE_SIZE 0x11)) = (RET_OK, d)"
    using empty_chip_write by blast
  have f: "nd_media_size d = NAND_MEDIA_SIZE" "nd_file d = Open_file"
    using page_write_okD(5) [OF d] by (simp_all add: store_page_def media_put_def empty_chip_def)
  have "nand_is_block_valid d 2" "block_state_of d 2 \<noteq> BLOCK_BAD" "pb_erase_count (nd_blocks d 2) = 0" "nd_type d = NAND_TYPE_TLC"
    using page_write_okD(5) [OF d]
    by (simp_all add: store_page_def media_put_def empty_chip_def zero_block_def nand_is_block_valid_def NAND_TOTAL_BLOCKS_def)
  then obtain d1 where d1: "nand_block_erase d 2 = (RET_OK, d1)" "nd_file d1 = Open_file"
    using f by (simp add: nand_block_erase_def Let_def)
  then obtain d2 where d2: "nand_deinit d1 = Some d2" by (simp add: nand_deinit_def)
  from good_env_boots obtain d3 where d3: "nand_init good_env d2 True = Some (RET_OK, d3)" by blast
  have "chip_ok d" "chip_page d 2 9 = Some (replicate NAND_PAGE_SIZE 0x11)"
    using page_write_chip_ok [OF empty_chip_ok d] page_write_chip_page [OF d] by simp_all
  from erased_page_returns [OF this(1) f(1) this(2) d1(1) d2 d3] d d1 d2 d3 show ?thesis by blast
qed

text \<open>C37: a cold mark on a block with at least two valid pages, followed by the invalidation of one of
  them, marks the block free although another page of it is still readable.\<close>

lemma cold_mark_frees_live_block:
  assumes "nd_is_initialized d" "on_chip b p" "on_chip b q" "p \<noteq> q" "block_state_of d b = BLOCK_USED"
    and "chip_page d b p = Some bs" "page_valid d b q" "1 < pb_valid_page_cnt (nd_blocks d b)"
  shows "let d' = snd (nand_mark_page_invalid (snd (nand_mark_cold_block d b)) b q) in
     nand_get_block_state d' b = BLOCK_FREE \<and> chip_page d' b p = Some bs"
proof -
  have b: "nand_is_block_valid d b" "b < NAND_TOTAL_BLOCKS"
    using assms(1,2) by (simp_all add: nand_is_block_valid_def on_chip_def)
  define d1 where "d1 = upd_block b (\<lambda>k. k\<lparr>pb_valid_page_cnt := 1\<rparr>) d"
  have cold: "snd (nand_mark_cold_block d b) = d1"
    using b assms(5,8) by (simp add: nand_mark_cold_block_def d1_def)
  have i: "nd_is_initialized d1" by (simp add: d1_def assms(1))
  have d': "snd (nand_mark_page_invalid d1 b q) = d\<lparr>nd_blocks := (nd_blocks d)(b := (nd_blocks d b)
      \<lparr>pb_page_valid := (page_valid d b)(q := False), pb_valid_page_cnt := 0, pb_state := BLOCK_FREE\<rparr>)\<rparr>"
    using assms(5,7) by (simp add: mark_invalid_eq [OF i assms(3)]) (simp add: d1_def)
  show ?thesis
    using assms(4,6) b
    by (auto simp: cold d' Let_def nand_get_block_state_def nand_is_block_valid_def chip_page_def page_data_def
        split: if_splits)
qed

lemma cold_mark_frees_live_block_witness:
  "\<exists>d. nand_page_write (snd (nand_page_write empty_chip 0 0 (Some (replicate NAND_PAGE_SIZE 1)))) 0 1
        (Some (replicate NAND_PAGE_SIZE 2)) = (RET_OK, d) \<and>
     (let d' = snd (nand_mark_page_invalid (snd (nand_mark_cold_block d 0)) 0 1) in
      nand_get_block_state d' 0 = BLOCK_FREE \<and> chip_page d' 0 0 = Some (replicate NAND_PAGE_SIZE 1))"
proof -
  have c: "on_chip 0 0" "on_chip 0 1"
    by (simp_all add: on_chip_def NAND_TOTAL_BLOCKS_def NAND_PAGES_PER_BLOCK_def)
  obtain d1 where d1: "nand_page_write empty_chip 0 0 (Some (replicate NAND_PAGE_SIZE 1)) = (RET_OK, d1)"
    using empty_chip_write [OF c(1)] by blast
  note b1 = page_write_blocks [OF d1 length_replicate]
  have "\<not> page_valid d1 0 1" "block_state_of d1 0 \<noteq> BLOCK_BAD" by (simp_all add: b1 empty_chip_def zero_block_def)
  from page_write_succeeds [OF length_replicate b1(2) c(2) this(2,1)]
  obtain d where d: "nand_page_write d1 0 1 (Some (replicate NAND_PAGE_SIZE 2)) = (RET_OK, d)" by blast
  note b2 = page_write_blocks [OF d length_replicate]
  have p: "chip_page d 0 0 = Some (replicate NAND_PAGE_SIZE 1)"
    using page_write_chip_page [OF d] page_write_chip_page [OF d1] by simp
  have "block_state_of d 0 = BLOCK_USED" "page_valid d 0 1" "1 < pb_valid_page_cnt (nd_blocks d 0)"
    by (simp_all add: b2(1) b1(1) empty_chip_def zero_block_def)
  from cold_mark_frees_live_block [OF b2(2) c zero_neq_one this(1) p this(2,3)] d d1 show ?thesis by auto
qed

section \<open>Pages with checksums\<close>

definition crc_oob :: "nand_dev \<Rightarrow> u8 list \<Rightarrow> nand_oob" where
  "crc_oob d bs = zero_oob\<lparr>oob_magic := NAND_OOB_MAGIC, oob_crc32 := nand_crc32_calculate (Some bs) NAND_PAGE_SIZE,
     oob_ecc := ecc_encode_selected d bs, oob_bad_block_mark := 0xFF\<rparr>"

lemma oob_put_page:
  assumes "length (oob_reserved oob) = 3"
  shows "page_data (media_put (nand_calc_oob_offset b p) (oob_bytes oob) d) b p = page_data d b p"
    and "page_oob (media_put (nand_calc_oob_offset b p) (oob_bytes oob) d) b p = oob"
  using assms
  by (simp_all add: page_data_def page_oob_def media_put_def nand_calc_oob_offset_def mem_read_write_disjoint
      mem_read_write_same length_oob_bytes oob_round_trip)

lemma page_read_algo: "nand_page_read d b p True = (ret, buf, d') \<Longrightarrow> nd_ecc_algo d' = nd_ecc_algo d"
  by (auto simp: nand_page_read_def Let_def split: if_splits prod.splits)

lemma crc_page_reads_back:
  assumes w: "nand_page_write_with_crc d b p (Some bs) = (RET_OK, d1)" "length bs = NAND_PAGE_SIZE"
    and algo: "nd_ecc_algo d = ECC_ALGO_HAMMING"
  shows "\<exists>d2. nand_page_read_with_crc d1 b p True = (RET_OK, Some bs, d2)"
proof -
  obtain ret d0 where d0: "nand_page_write d b p (Some bs) = (ret, d0)" by (metis prod.exhaust)
  have ret: "ret = RET_OK" using w(1) by (cases ret) (simp_all add: nand_page_write_with_crc_def d0)
  note d0 = d0 [unfolded ret] and W = page_write_okD [OF d0 [unfolded ret] w(2)]
  have a0: "nd_ecc_algo d0 = ECC_ALGO_HAMMING" using algo by (simp add: W(5) store_page_def media_put_def)
  have t: "on_chip b p" "nd_is_initialized d0" "block_state_of d0 b = BLOCK_USED" "page_valid d0 b p" "page_data d0 b p = bs"
    using W(1) page_write_blocks [OF d0 w(2)] page_write_pages(1) [OF d0 w(2) W(1)] by simp_all
  have d1: "d1 = media_put (nand_calc_oob_offset b p) (oob_bytes (crc_oob d0 bs)) d0"
    using w(1) t(1-3)
    by (simp add: nand_page_write_with_crc_def d0 crc_oob_def Let_def nand_oob_write_def nand_is_block_valid_def on_chip_def)
  have len: "length (oob_reserved (crc_oob d0 bs)) = 3" by (simp add: crc_oob_def zero_oob_def)
  have pg: "page_data d1 b p = bs" "page_oob d1 b p = crc_oob d0 bs"
    using oob_put_page [OF len, of b p d0] t(5) by (simp_all add: d1)
  have oob: "oob_magic (crc_oob d0 bs) = NAND_OOB_MAGIC" "oob_ecc (crc_oob d0 bs) = page_ecc bs"
    "oob_crc32 (crc_oob d0 bs) = nand_crc32_calculate (Some bs) NAND_PAGE_SIZE"
    by (simp_all add: crc_oob_def ecc_encode_selected_def a0 page_ecc_def)
  define d2 where "d2 = snd (snd (nand_page_read d1 b p True))"
  have valid: "nand_is_block_valid d1 b" "p < NAND_PAGES_PER_BLOCK" "block_state_of d1 b = BLOCK_USED" "page_valid d1 b p"
    using t by (simp_all add: d1 media_put_def nand_is_block_valid_def on_chip_def)
  have r: "nand_page_read d1 b p True = (RET_OK, Some bs, d2)"
    using valid by (simp add: d2_def nand_page_read_def pg oob hamming_decode_clean_page Let_def)
  have s: "same_store d1 d2" by (rule page_read_same_store(1) [OF r])
  have a2: "nd_ecc_algo d2 = ECC_ALGO_HAMMING"
    using page_read_algo [OF r] a0 by (simp add: d1 media_put_def)
  have "page_oob d2 b p = crc_oob d0 bs" using s pg(2) page_oob_media [of d2 d1] by (simp add: same_store_def)
  then have o: "nand_oob_read d2 b p True = (RET_OK, Some (crc_oob d0 bs))"
    using s valid by (simp add: nand_oob_read_def same_store_def nand_is_block_valid_def)
  show ?thesis
    by (simp add: nand_page_read_with_crc_def r o oob ecc_decode_selected_def a2 hamming_decode_clean_page Let_def)
qed


text \<open>With the Hamming code selected, a page written with its checksum is read back with its
  checksum verified and its data unchanged.\<close>

lemma crc_page_round_trip:
  assumes w: "nand_page_write_with_crc d b p (Some bs) = (RET_OK, d1)" "length bs = NAND_PAGE_SIZE"
    and algo: "nd_ecc_algo d = ECC_ALGO_HAMMING"
  shows "\<exists>d2. nand_page_read_with_crc d1 b p True = (RET_OK, Some bs, d2)"
  using assms by (rule crc_page_reads_back)

lemma crc_page_round_trip_witness:
  "\<exists>d1 d2. nand_page_write_with_crc empty_chip 2 4 (Some (replicate NAND_PAGE_SIZE 0x3C)) = (RET_OK, d1) \<and>
     nand_page_read_with_crc d1 2 4 True = (RET_OK, Some (replicate NAND_PAGE_SIZE 0x3C), d2)"
proof -
  have c: "on_chip 2 4" by (simp add: on_chip_def NAND_TOTAL_BLOCKS_def NAND_PAGES_PER_BLOCK_def)
  then obtain d0 where d0: "nand_page_write empty_chip 2 4 (Some (replicate NAND_PAGE_SIZE 0x3C)) = (RET_OK, d0)"
    using empty_chip_write by blast
  have "nand_is_block_valid d0 2" "block_state_of d0 2 = BLOCK_USED" "4 < NAND_PAGES_PER_BLOCK"
    using c page_write_blocks [OF d0 length_replicate] by (simp_all add: nand_is_block_valid_def on_chip_def)
  then obtain d1 where w: "nand_page_write_with_crc empty_chip 2 4 (Some (replicate NAND_PAGE_SIZE 0x3C)) = (RET_OK, d1)"
    by (simp add: nand_page_write_with_crc_def d0 nand_oob_write_def Let_def)
  have "nd_ecc_algo empty_chip = ECC_ALGO_HAMMING" by (simp add: empty_chip_def)
  from crc_page_round_trip [OF w length_replicate this] w show ?thesis by blast
qed

lemma crc_read_checked:
  assumes r: "nand_page_read_with_crc d b p True = (RET_OK, Some bs, d')"
    and m: "oob_magic (page_oob d b p) = NAND_OOB_MAGIC"
  shows "nand_crc32_calculate (Some bs) NAND_PAGE_SIZE = oob_crc32 (page_oob d b p)"
proof -
  obtain ret buf d1 where e: "nand_page_read d b p True = (ret, buf, d1)" by (metis prod.exhaust)
  have oob: "page_oob d1 = page_oob d"
    using page_read_same_store(1) [OF e] page_oob_media [of d1 d] by (simp add: same_store_def)
  obtain bs1 where b1: "ret = RET_OK" "buf = Some bs1"
    using r by (cases ret; cases buf) (auto simp: nand_page_read_with_crc_def e)
  note read = nand_page_read_with_crc_def [of d b p True, unfolded e b1, simplified]
  show ?thesis
  proof (cases "nand_oob_read d1 b p True = (RET_OK, Some (page_oob d b p))")
    case True
    obtain y z d2 where dec: "ecc_decode_selected d1 bs1 (oob_ecc (page_oob d b p)) = (y, z, d2)" by (metis prod.exhaust)
    show ?thesis using r m by (auto simp: read True dec Let_def split: if_splits)
  next
    case False
    then show ?thesis using r by (auto simp: read nand_oob_read_def oob split: if_splits)
  qed
qed

text \<open>A read with checksum never returns, as good data, a page that differs in exactly one byte from
  the one whose checksum is stored.\<close>

lemma crc_read_no_bad_byte:
  assumes "nand_page_read_with_crc d b p True = (RET_OK, Some (bs[i := v]), d')"
    and "oob_magic (page_oob d b p) = NAND_OOB_MAGIC" "oob_crc32 (page_oob d b p) = nand_crc32_calculate (Some bs) NAND_PAGE_SIZE"
    and "length bs = NAND_PAGE_SIZE"
  shows "bs[i := v] = bs"
proof (rule ccontr)
  assume ne: "bs[i := v] \<noteq> bs"
  then have i: "i < length bs" "bs ! i \<noteq> v" by (metis list_update_beyond not_less, metis list_update_id)
  have "nand_crc32_calculate (Some (bs[i := v])) NAND_PAGE_SIZE = nand_crc32_calculate (Some bs) NAND_PAGE_SIZE"
    using crc_read_checked [OF assms(1,2)] assms(3) by simp
  then show False
    using crc32.absorb_list_update [OF i, of "0xFFFFFFFF"] assms(4)
    by (simp add: nand_crc32_same utils_crc32_def)
qed

lemma crc_read_no_bad_byte_witness:
  "\<exists>d1 d2. nand_page_read_with_crc d1 2 4 True = (RET_OK, Some ((replicate NAND_PAGE_SIZE 0x3C)[0 := 0x3C]), d2) \<and>
     oob_magic (page_oob d1 2 4) = NAND_OOB_MAGIC \<and>
     (replicate NAND_PAGE_SIZE 0x3C)[0 := 0x3C] = replicate NAND_PAGE_SIZE (0x3C :: u8)"
proof -
  define bs :: "u8 list" where "bs = replicate NAND_PAGE_SIZE 0x3C"
  have len: "length bs = NAND_PAGE_SIZE" by (simp add: bs_def)
  have same: "bs[0 := 0x3C] = bs" by (rule nth_equalityI) (simp_all add: bs_def nth_list_update)
  have c: "on_chip 2 4" by (simp add: on_chip_def NAND_TOTAL_BLOCKS_def NAND_PAGES_PER_BLOCK_def)
  then obtain d0 where d0: "nand_page_write empty_chip 2 4 (Some bs) = (RET_OK, d0)"
    using empty_chip_write unfolding bs_def by blast
  have v: "nand_is_block_valid d0 2" "block_state_of d0 2 = BLOCK_USED" "4 < NAND_PAGES_PER_BLOCK"
    using c page_write_blocks [OF d0 len] by (simp_all add: nand_is_block_valid_def on_chip_def)
  define d1 where "d1 = media_put (nand_calc_oob_offset 2 4) (oob_bytes (crc_oob d0 bs)) d0"
  have w: "nand_page_write_with_crc empty_chip 2 4 (Some bs) = (RET_OK, d1)"
    using v by (simp add: nand_page_write_with_crc_def d0 nand_oob_write_def Let_def crc_oob_def d1_def)
  have algo: "nd_ecc_algo empty_chip = ECC_ALGO_HAMMING" by (simp add: empty_chip_def)
  from crc_page_reads_back [OF w len algo] same obtain d2
    where r: "nand_page_read_with_crc d1 2 4 True = (RET_OK, Some (bs[0 := 0x3C]), d2)" by auto
  have "page_oob d1 2 4 = crc_oob d0 bs"
    using oob_put_page(2) [of "crc_oob d0 bs" 2 4 d0] by (simp add: d1_def crc_oob_def zero_oob_def)
  then have m: "oob_magic (page_oob d1 2 4) = NAND_OOB_MAGIC"
    "oob_crc32 (page_oob d1 2 4) = nand_crc32_calculate (Some bs) NAND_PAGE_SIZE"
    by (simp_all add: crc_oob_def)
  from crc_read_no_bad_byte [OF r m len] r m(1) show ?thesis by (auto simp: bs_def)
qed

section \<open>Statistics\<close>

lemma stats_sum:
  "case fold (stats_block d) xs (st, x) of (st', y) \<Rightarrow>
     st_free_blocks st' + st_used_blocks st' + st_bad_blocks st' =
       st_free_blocks st + st_used_blocks st + st_bad_blocks st + of_nat (length xs) \<and>
     st_init_bad_blocks st' + st_wear_bad_blocks st' - st_bad_blocks st' =
       st_init_bad_blocks st + st_wear_bad_blocks st - st_bad_blocks st"
proof (induction xs arbitrary: st x)
  case (Cons i xs)
  obtain st1 x1 where s: "stats_block d i (st, x) = (st1, x1)" by (metis prod.exhaust)
  then have "st_free_blocks st1 + st_used_blocks st1 + st_bad_blocks st1 =
       st_free_blocks st + st_used_blocks st + st_bad_blocks st + 1"
    "st_init_bad_blocks st1 + st_wear_bad_blocks st1 - st_bad_blocks st1 =
       st_init_bad_blocks st + st_wear_bad_blocks st - st_bad_blocks st"
    by (auto simp: stats_block_def Let_def split: prod.splits block_state.splits if_splits)
  with Cons [of st1 x1] show ?case by (simp add: s split: prod.splits)
qed simp

text \<open>The statistics partition the blocks of the chip: free, used and bad blocks add up to all blocks,
  and the bad ones are those bad from the start plus those worn out.\<close>

lemma stats_partition_blocks:
  assumes "nand_get_stats d True = (RET_OK, Some st)"
  shows "st_free_blocks st + st_used_blocks st + st_bad_blocks st = of_nat NAND_TOTAL_BLOCKS \<and>
     st_init_bad_blocks st + st_wear_bad_blocks st = st_bad_blocks st"
proof -
  obtain st1 x1 where f: "fold (stats_block d) [0..<NAND_TOTAL_BLOCKS] (zero_stats, 0, 0, 0xFFFFFFFF, 0) = (st1, x1)"
    by (metis prod.exhaust)
  have "st_free_blocks st1 + st_used_blocks st1 + st_bad_blocks st1 = of_nat NAND_TOTAL_BLOCKS"
    "st_init_bad_blocks st1 + st_wear_bad_blocks st1 - st_bad_blocks st1 = 0"
    using stats_sum [where d = d and xs = "[0..<NAND_TOTAL_BLOCKS]" and st = zero_stats and x = "(0, 0, 0xFFFFFFFF, 0)"] f
    by (simp_all add: zero_stats_def)
  moreover have "st_free_blocks st = st_free_blocks st1 \<and> st_used_blocks st = st_used_blocks st1 \<and>
      st_bad_blocks st = st_bad_blocks st1 \<and> st_init_bad_blocks st = st_init_bad_blocks st1 \<and>
      st_wear_bad_blocks st = st_wear_bad_blocks st1"
    using assms f by (cases x1) (auto simp: nand_get_stats_def Let_def split: if_splits)
  ultimately show ?thesis by simp
qed

lemma stats_partition_blocks_witness:
  "\<exists>st. nand_get_stats empty_chip True = (RET_OK, Some st) \<and>
     st_free_blocks st + st_used_blocks st + st_bad_blocks st = 128"
proof -
  have "nd_is_initialized empty_chip" by (simp add: empty_chip_def)
  then obtain st where st: "nand_get_stats empty_chip True = (RET_OK, Some st)"
    by (simp add: nand_get_stats_def Let_def split_beta)
  from stats_partition_blocks [OF st] st show ?thesis by (simp add: NAND_TOTAL_BLOCKS_def)
qed

end
