(* ===== verification/FtlRecovery.thy ===== *)
theory FtlRecovery
  imports FtlHost NandLife
begin

text \<open>
  Recovery: records and headers survive the way to the file and back, a logged write is applied when
  the log is replayed, and a snapshot survives a power cycle of the chip.
\<close>

section \<open>The write-ahead log\<close>

lemma wal_entry_round_trip: "wal_entry_of_bytes (wal_entry_bytes e) = e"
proof -
  define ws where "ws = [we_magic e, we_op e, we_lpn e, we_old_ppn e, we_new_ppn e, we_sequence e, we_checksum e]"
  have len: "length ws = 7" by (simp add: ws_def)
  have "words_of_bytes 7 (wal_entry_bytes e) = ws"
    unfolding wal_entry_bytes_def ws_def [symmetric] using words_of_bytes_inverse [of ws] by (simp only: len)
  then show ?thesis unfolding wal_entry_of_bytes_def Let_def by (simp only:) (simp add: ws_def)
qed

lemma length_wal_entry_bytes [simp]: "length (wal_entry_bytes e) = WAL_ENTRY_SIZE"
  by (simp add: wal_entry_bytes_def WAL_ENTRY_SIZE_def)

text \<open>The checksum does not cover its own field, which is the last one.\<close>

lemma wal_checksum_ignores_itself: "wal_calculate_checksum (e\<lparr>we_checksum := c\<rparr>) = wal_calculate_checksum e"
proof -
  have "wal_entry_bytes (e\<lparr>we_checksum := c\<rparr>) ! i = wal_entry_bytes e ! i" if "i < 24" for i
    using that by (simp add: wal_entry_bytes_def words_bytes_def nth_append)
  then show ?thesis
    unfolding wal_calculate_checksum_def by (intro fold_cong) (auto simp: WAL_ENTRY_SIZE_def)
qed

lemma wal_records_append:
  "length bs = n * WAL_ENTRY_SIZE \<Longrightarrow> wal_records (Suc n) (bs @ wal_entry_bytes e) = wal_records n bs @ [e]"
proof (induction n arbitrary: bs)
  case 0
  then show ?case by (simp add: wal_entry_round_trip)
next
  case (Suc n)
  then have "WAL_ENTRY_SIZE \<le> length bs" "length (drop WAL_ENTRY_SIZE bs) = n * WAL_ENTRY_SIZE" by simp_all
  with Suc.IH [of "drop WAL_ENTRY_SIZE bs"] show ?case by (simp del: wal_records.simps(2) add: wal_records.simps(2) [of n] wal_records.simps(2) [of "Suc n"])
qed

definition logged_entry :: "ftl_dev \<Rightarrow> nat \<Rightarrow> nat \<Rightarrow> nat \<Rightarrow> wal_entry" where
  "logged_entry s lpn old new =
     (let e = \<lparr>we_magic = FTL_WAL_MAGIC, we_op = wal_op_value WAL_OP_WRITE, we_lpn = of_nat lpn, we_old_ppn = of_nat old,
               we_new_ppn = of_nat new, we_sequence = fs_wal_sequence s, we_checksum = 0\<rparr> in
      e\<lparr>we_checksum := wal_calculate_checksum e\<rparr>)"

lemma unat_small: "n < 2 ^ 32 \<Longrightarrow> unat (of_nat n :: u32) = n"
  by (simp add: unsigned_of_nat take_bit_nat_eq_self)

lemma replay_logged:
  assumes "lpn < FTL_TOTAL_LPNS" "new < FTL_TOTAL_PPNS" "old = FTL_INVALID_PPN \<or> old < FTL_TOTAL_PPNS"
  shows "wal_replay_entry (logged_entry s lpn old new) u =
     Some (set_rmap new lpn (set_l2p lpn new (if old \<noteq> FTL_INVALID_PPN then set_rmap old FTL_INVALID_LPN u else u)))"
proof -
  define e where "e = \<lparr>we_magic = FTL_WAL_MAGIC, we_op = wal_op_value WAL_OP_WRITE, we_lpn = of_nat lpn, we_old_ppn = of_nat old,
               we_new_ppn = of_nat new, we_sequence = fs_wal_sequence s, we_checksum = 0\<rparr>"
  have l: "logged_entry s lpn old new = e\<lparr>we_checksum := wal_calculate_checksum e\<rparr>"
    by (simp add: logged_entry_def e_def Let_def)
  have u: "unat (of_nat lpn :: u32) = lpn" "unat (of_nat new :: u32) = new" "unat (of_nat old :: u32) = old"
    using assms by (auto simp: unat_small ftl_bounds FTL_INVALID_PPN_def)
  have ok: "wal_calculate_checksum (e\<lparr>we_checksum := wal_calculate_checksum e\<rparr>) =
      we_checksum (e\<lparr>we_checksum := wal_calculate_checksum e\<rparr>)"
    by (simp add: wal_checksum_ignores_itself)
  have f: "we_magic (logged_entry s lpn old new) = FTL_WAL_MAGIC" "we_op (logged_entry s lpn old new) = wal_op_value WAL_OP_WRITE"
    "unat (we_lpn (logged_entry s lpn old new)) = lpn" "unat (we_old_ppn (logged_entry s lpn old new)) = old"
    "unat (we_new_ppn (logged_entry s lpn old new)) = new"
    "wal_calculate_checksum (logged_entry s lpn old new) = we_checksum (logged_entry s lpn old new)"
    by (simp_all only: l ok) (simp_all add: e_def u)
  show ?thesis
    unfolding wal_replay_entry_def f Let_def
    using assms ppn_not_invalid [OF assms(2)] by (auto simp: set_rmap_checked_def)
qed

text \<open>The set up of a device leaves its files alone.\<close>

lemma example_ftl_files:
  "fs_files example_ftl = \<lparr>hf_files = (\<lambda>_. None), hf_can_create = (\<lambda>_. True), hf_writable = True\<rparr>"
  "fs_wal_enabled example_ftl"
proof -
  have "\<exists>b. ftl_find_next_free_block (fs_nand blank_ftl) 0 = Some b"
    using blank_ftl_init by (cases "ftl_find_next_free_block (fs_nand blank_ftl) 0") (simp_all add: ftl_init_def Let_def)
  then show "fs_files example_ftl = \<lparr>hf_files = (\<lambda>_. None), hf_can_create = (\<lambda>_. True), hf_writable = True\<rparr>"
    "fs_wal_enabled example_ftl"
    by (auto simp: example_ftl_def ftl_init_def Let_def) (simp_all add: blank_ftl_def)
qed

text \<open>C14: a logged write is replayed: after \<open>wal_log_write\<close> has returned success, replaying the log file,
  on any device, applies the records that were there before and then redirects the logical page to
  its new physical page in both tables.\<close>

theorem logged_write_is_replayed:
  assumes l: "wal_log_write s lpn old new = (RET_OK, s')" "fs_wal_enabled s" "fs_wal_file s = Some path"
    and contents: "file_contents (fs_files s) path = Some bs" "length bs = n * WAL_ENTRY_SIZE"
    and range: "lpn < FTL_TOTAL_LPNS" "new < FTL_TOTAL_PPNS" "old = FTL_INVALID_PPN \<or> old < FTL_TOTAL_PPNS"
    and t: "fs_files t = fs_files s'" "fold_option wal_replay_entry (wal_records n bs) t = Some u"
  shows "ftl_wal_replay t (Some path) =
     Some (RET_OK, set_rmap new lpn (set_l2p lpn new
       (if old \<noteq> FTL_INVALID_PPN then set_rmap old FTL_INVALID_LPN u else u)))"
proof -
  have wr: "hf_writable (fs_files s)"
    using l by (auto simp: wal_log_write_def ftl_wal_append_def Let_def split: if_splits)
  have "fs_files s' = file_put (fs_files s) path (bs @ wal_entry_bytes (logged_entry s lpn old new))"
    using l contents(1) wr by (auto simp: wal_log_write_def ftl_wal_append_def Let_def logged_entry_def)
  then have c: "file_contents (fs_files t) path = Some (bs @ wal_entry_bytes (logged_entry s lpn old new))"
    by (simp add: t(1) file_contents_def file_put_def)
  have n: "length (bs @ wal_entry_bytes (logged_entry s lpn old new)) div WAL_ENTRY_SIZE = Suc n"
    using contents(2) by (simp add: WAL_ENTRY_SIZE_def)
  show ?thesis
    unfolding ftl_wal_replay_def option.case c n wal_records_append [OF contents(2)] fold_option_append t(2)
      bind.bind_lunit fold_option.simps replay_logged [OF range, of s u] ..
qed

lemma logged_write_is_replayed_witness:
  "\<exists>s s1 s2. ftl_wal_init example_ftl (Some ''wal'') = (RET_OK, s1) \<and> wal_log_write s1 3 FTL_INVALID_PPN 7 = (RET_OK, s2) \<and>
     ftl_wal_replay s2 (Some ''wal'') = Some (RET_OK, s) \<and> fs_l2p s 3 = 7 \<and> fs_rmap s 7 = 3"
proof -
  obtain s1 where s1: "ftl_wal_init example_ftl (Some ''wal'') = (RET_OK, s1)" "fs_wal_file s1 = Some ''wal''"
    "fs_wal_enabled s1" "hf_writable (fs_files s1)" "file_contents (fs_files s1) ''wal'' = Some []"
    using example_ftl_files by (simp add: ftl_wal_init_def file_contents_def file_put_def Let_def)
  then obtain s2 where s2: "wal_log_write s1 3 FTL_INVALID_PPN 7 = (RET_OK, s2)"
    by (simp add: wal_log_write_def ftl_wal_append_def Let_def)
  have "fold_option wal_replay_entry (wal_records 0 []) s2 = Some s2" by simp
  from logged_write_is_replayed [OF s2 s1(3,2,5) _ _ _ _ refl this] s1(1) s2 show ?thesis by (auto simp: ftl_bounds)
qed

section \<open>Snapshots\<close>

lemma meta_header_round_trip: "meta_header_of_bytes (meta_header_bytes h) = h"
proof -
  define ws where "ws = [mh_magic h, mh_version h, mh_checksum h, mh_host_write_pages h,
     mh_nand_write_pages h, mh_gc_count h, mh_cur_write_block h, mh_cur_write_page h]"
  have len: "length ws = 8" by (simp add: ws_def)
  have "words_of_bytes 8 (meta_header_bytes h) = ws"
    unfolding meta_header_bytes_def ws_def [symmetric] using words_of_bytes_inverse [of ws] by (simp only: len)
  then show ?thesis unfolding meta_header_of_bytes_def Let_def by (simp only:) (simp add: ws_def)
qed

lemma length_meta_header_bytes [simp]: "length (meta_header_bytes h) = META_HEADER_SIZE"
  by (simp add: meta_header_bytes_def META_HEADER_SIZE_def)

lemma snapshot_header_fields:
  "mh_magic (snapshot_header s) = FTL_META_MAGIC" "mh_version (snapshot_header s) = FTL_META_VERSION"
  "mh_host_write_pages (snapshot_header s) = fs_host_write_pages s"
  "mh_nand_write_pages (snapshot_header s) = fs_nand_write_pages s" "mh_gc_count (snapshot_header s) = fs_gc_count s"
  "mh_cur_write_block (snapshot_header s) = of_nat (fs_cur_block s)"
  "mh_cur_write_page (snapshot_header s) = of_nat (fs_cur_page s)"
  by (simp_all add: snapshot_header_def Let_def)

lemma snapshot_header_checksum:
  "mh_checksum (snapshot_header s) =
     ftl_calc_checksum (meta_header_bytes ((snapshot_header s)\<lparr>mh_checksum := 0\<rparr>)) META_HEADER_SIZE"
  by (simp add: snapshot_header_def Let_def)

text \<open>The loop that fills the reverse map, for a table with an inverse.\<close>

lemma rebuild_loop:
  assumes "\<And>lpn. lpn < n \<Longrightarrow> fs_l2p s lpn \<noteq> FTL_INVALID_PPN \<Longrightarrow> fs_l2p s lpn < FTL_TOTAL_PPNS \<Longrightarrow> r (fs_l2p s lpn) = lpn"
  shows "fold (\<lambda>lpn s. if fs_l2p s lpn \<noteq> FTL_INVALID_PPN \<and> fs_l2p s lpn < FTL_TOTAL_PPNS
              then set_rmap (fs_l2p s lpn) lpn s else s) [0..<n] s =
     s\<lparr>fs_rmap := (\<lambda>ppn. if ppn < FTL_TOTAL_PPNS \<and> ppn \<noteq> FTL_INVALID_PPN \<and> (\<exists>lpn<n. fs_l2p s lpn = ppn)
                          then r ppn else fs_rmap s ppn)\<rparr>"
  using assms
proof (induction n)
  case (Suc n)
  define filled where "filled n = (\<lambda>ppn. if ppn < FTL_TOTAL_PPNS \<and> ppn \<noteq> FTL_INVALID_PPN \<and> (\<exists>lpn<n. fs_l2p s lpn = ppn)
                          then r ppn else fs_rmap s ppn)" for n
  have "r (fs_l2p s n) = n" if "fs_l2p s n \<noteq> FTL_INVALID_PPN" "fs_l2p s n < FTL_TOTAL_PPNS"
    using Suc.prems [of n] that by simp
  then have "filled (Suc n) = (if fs_l2p s n \<noteq> FTL_INVALID_PPN \<and> fs_l2p s n < FTL_TOTAL_PPNS
      then (filled n)(fs_l2p s n := n) else filled n)"
    by (auto simp: fun_eq_iff filled_def less_Suc_eq)
  moreover note Suc.IH [OF Suc.prems, folded filled_def]
  ultimately show ?case unfolding filled_def [symmetric] by simp
qed simp

lemma rebuild_rmap_inverse:
  assumes ok: "tables_ok P (fs_l2p s) r" and p: "ppn < FTL_TOTAL_PPNS"
  shows "fs_rmap (rebuild_rmap s) ppn = r ppn"
proof -
  have inv: "r (fs_l2p s lpn) = lpn" if "lpn < FTL_TOTAL_LPNS" "fs_l2p s lpn \<noteq> FTL_INVALID_PPN" for lpn
    using tables_okD(1) [OF ok that] by simp
  define s0 where "s0 = s\<lparr>fs_rmap := (\<lambda>i. if i < FTL_TOTAL_PPNS then FTL_INVALID_LPN else fs_rmap s i)\<rparr>"
  have "fs_rmap (rebuild_rmap s) ppn = (if \<exists>lpn<FTL_TOTAL_LPNS. fs_l2p s lpn = ppn then r ppn else FTL_INVALID_LPN)"
    unfolding rebuild_rmap_def Let_def s0_def [symmetric]
    by (subst rebuild_loop [of _ _ r]) (use inv p ppn_not_invalid [OF p] in \<open>auto simp: s0_def\<close>)
  also have "\<dots> = r ppn" using tables_okD(2) [OF ok p] by metis
  finally show ?thesis .
qed

lemma rebuild_rmap_fields:
  "fs_l2p (rebuild_rmap s) = fs_l2p s" "fs_nand (rebuild_rmap s) = fs_nand s"
  "fs_host_write_pages (rebuild_rmap s) = fs_host_write_pages s" "fs_nand_write_pages (rebuild_rmap s) = fs_nand_write_pages s"
  "fs_gc_count (rebuild_rmap s) = fs_gc_count s" "fs_cur_block (rebuild_rmap s) = fs_cur_block s"
  "fs_cur_page (rebuild_rmap s) = fs_cur_page s"
proof -
  have "\<exists>r. rebuild_rmap s = s\<lparr>fs_rmap := r\<rparr>"
  proof -
    define s0 where "s0 = s\<lparr>fs_rmap := (\<lambda>i. if i < FTL_TOTAL_PPNS then FTL_INVALID_LPN else fs_rmap s i)\<rparr>"
    have "\<exists>r. fold (\<lambda>lpn s. if fs_l2p s lpn \<noteq> FTL_INVALID_PPN \<and> fs_l2p s lpn < FTL_TOTAL_PPNS
              then set_rmap (fs_l2p s lpn) lpn s else s) xs s0 = s\<lparr>fs_rmap := r\<rparr>" for xs
      by (rule fold_invariant_set) (auto simp: s0_def)
    then show ?thesis unfolding rebuild_rmap_def Let_def s0_def by blast
  qed
  then obtain r where "rebuild_rmap s = s\<lparr>fs_rmap := r\<rparr>" by blast
  then show "fs_l2p (rebuild_rmap s) = fs_l2p s" "fs_nand (rebuild_rmap s) = fs_nand s"
    "fs_host_write_pages (rebuild_rmap s) = fs_host_write_pages s" "fs_nand_write_pages (rebuild_rmap s) = fs_nand_write_pages s"
    "fs_gc_count (rebuild_rmap s) = fs_gc_count s" "fs_cur_block (rebuild_rmap s) = fs_cur_block s"
    "fs_cur_page (rebuild_rmap s) = fs_cur_page s"
    by simp_all
qed

text \<open>Loading the file that a snapshot wrote.\<close>

lemma load_of_snapshot:
  assumes file_is: "file_contents (fs_files t) path = Some (meta_header_bytes (snapshot_header s) @
                           words_bytes (map (\<lambda>i. of_nat (fs_l2p s i)) [0..<FTL_TOTAL_LPNS]))"
    and small: "\<And>i. i < FTL_TOTAL_LPNS \<Longrightarrow> fs_l2p s i < 2 ^ 32" "fs_cur_block s < 2 ^ 32" "fs_cur_page s < 2 ^ 32"
  shows "ftl_load_snapshot t (Some path) =
     (RET_OK, (rebuild_rmap (t\<lparr>fs_l2p := (\<lambda>i. if i < FTL_TOTAL_LPNS then fs_l2p s i else fs_l2p t i),
        fs_host_write_pages := fs_host_write_pages s, fs_nand_write_pages := fs_nand_write_pages s,
        fs_gc_count := fs_gc_count s, fs_cur_block := fs_cur_block s, fs_cur_page := fs_cur_page s\<rparr>))
        \<lparr>fs_is_initialized := True\<rparr>)"
proof -
  define bs where "bs = meta_header_bytes (snapshot_header s) @
                           words_bytes (map (\<lambda>i. of_nat (fs_l2p s i)) [0..<FTL_TOTAL_LPNS])"
  define ws where "ws = map (\<lambda>i. of_nat (fs_l2p s i) :: u32) [0..<FTL_TOTAL_LPNS]"
  have len: "length bs = META_HEADER_SIZE + 4 * FTL_TOTAL_LPNS" by (simp add: bs_def)
  then have n: "(length bs - META_HEADER_SIZE) div 4 = FTL_TOTAL_LPNS" by simp
  have h: "meta_header_of_bytes (take META_HEADER_SIZE bs) = snapshot_header s"
    by (simp add: bs_def meta_header_round_trip)
  have w: "words_of_bytes FTL_TOTAL_LPNS (drop META_HEADER_SIZE bs) = ws"
    using words_of_bytes_inverse [of ws] by (simp add: bs_def ws_def)
  have l: "(\<lambda>i. if i < FTL_TOTAL_LPNS then unat (ws ! i) else fs_l2p t i) =
      (\<lambda>i. if i < FTL_TOTAL_LPNS then fs_l2p s i else fs_l2p t i)"
    using small(1) by (auto simp: fun_eq_iff ws_def unat_small)
  have u: "unat (of_nat (fs_cur_block s) :: u32) = fs_cur_block s" "unat (of_nat (fs_cur_page s) :: u32) = fs_cur_page s"
    using small(2,3) by (simp_all add: unat_small)
  have "\<not> length bs < META_HEADER_SIZE" by (simp add: len)
  then show ?thesis
    unfolding ftl_load_snapshot_def option.case file_is [folded bs_def] Let_def h snapshot_header_fields
      snapshot_header_checksum [symmetric] n min.idem w l u
    by simp
qed

text \<open>A snapshot restores the device: when the snapshot of a device with consistent tables has been
  written, loading it on a device whose chip still holds the pages that were readable brings back
  both tables, the contents of every logical page, the write position and the counters, whatever the
  tables of the second device held before.\<close>

lemma snapshot_restores:
  assumes ok: "map_ok s" "fs_cur_block s < 2 ^ 32" "fs_cur_page s < 2 ^ 32"
    and save: "ftl_save_snapshot s (Some path) = (RET_OK, s')" "hf_writable (fs_files s)"
    and chip: "fs_files t = fs_files s'"
      "\<And>ppn. ppn_page (fs_nand s) ppn \<noteq> None \<Longrightarrow> ppn_page (fs_nand t) ppn = ppn_page (fs_nand s) ppn"
  obtains t' where "ftl_load_snapshot t (Some path) = (RET_OK, t')" "map_ok t'" "logical t' = logical s"
    "\<And>lpn. lpn < FTL_TOTAL_LPNS \<Longrightarrow> fs_l2p t' lpn = fs_l2p s lpn"
    "\<And>ppn. ppn < FTL_TOTAL_PPNS \<Longrightarrow> fs_rmap t' ppn = fs_rmap s ppn"
    "fs_cur_block t' = fs_cur_block s" "fs_cur_page t' = fs_cur_page s" "fs_is_initialized t'"
proof -
  have small: "fs_l2p s i < 2 ^ 32" if "i < FTL_TOTAL_LPNS" for i
    using map_okD(1) [OF ok(1) that] by (cases "fs_l2p s i = FTL_INVALID_PPN") (auto simp: FTL_INVALID_PPN_def ftl_bounds)
  have "file_contents (fs_files t) path = Some (meta_header_bytes (snapshot_header s) @
                           words_bytes (map (\<lambda>i. of_nat (fs_l2p s i)) [0..<FTL_TOTAL_LPNS]))"
    using save chip(1) by (auto simp: ftl_save_snapshot_def Let_def file_contents_def file_put_def split: if_splits)
  note load = load_of_snapshot [OF this small ok(2,3)]
  define u where "u = t\<lparr>fs_l2p := (\<lambda>i. if i < FTL_TOTAL_LPNS then fs_l2p s i else fs_l2p t i),
        fs_host_write_pages := fs_host_write_pages s, fs_nand_write_pages := fs_nand_write_pages s,
        fs_gc_count := fs_gc_count s, fs_cur_block := fs_cur_block s, fs_cur_page := fs_cur_page s\<rparr>"
  have u: "fs_l2p u lpn = fs_l2p s lpn" if "lpn < FTL_TOTAL_LPNS" for lpn using that by (simp add: u_def)
  have tab: "tables_ok (ppn_page (fs_nand s)) (fs_l2p u) (fs_rmap s)"
    using ok(1) by (simp add: map_ok_tables tables_ok_def u)
  define t' where "t' = (rebuild_rmap u)\<lparr>fs_is_initialized := True\<rparr>"
  have l: "fs_l2p t' lpn = fs_l2p s lpn" if "lpn < FTL_TOTAL_LPNS" for lpn
    using u [OF that] by (simp add: t'_def rebuild_rmap_fields)
  have r: "fs_rmap t' ppn = fs_rmap s ppn" if "ppn < FTL_TOTAL_PPNS" for ppn
    using rebuild_rmap_inverse [OF tab that] by (simp add: t'_def)
  have nand: "fs_nand t' = fs_nand t" by (simp add: t'_def rebuild_rmap_fields u_def)
  have page: "ppn_page (fs_nand t') (fs_l2p s lpn) = ppn_page (fs_nand s) (fs_l2p s lpn)"
    if "lpn < FTL_TOTAL_LPNS" "fs_l2p s lpn \<noteq> FTL_INVALID_PPN" for lpn
    using map_okD(1) [OF ok(1) that] chip(2) by (simp add: nand)
  show ?thesis
  proof (rule that)
    show "ftl_load_snapshot t (Some path) = (RET_OK, t')" using load by (simp add: t'_def u_def)
    show "map_ok t'" unfolding map_ok_def
      using map_okD [OF ok(1)] by (auto simp: l r page)
    show "logical t' = logical s" by (auto simp: logical_def fun_eq_iff l page)
    show "fs_cur_block t' = fs_cur_block s" "fs_cur_page t' = fs_cur_page s" "fs_is_initialized t'"
      by (simp_all add: t'_def rebuild_rmap_fields u_def)
  qed (simp_all add: l r)
qed

text \<open>C4: a snapshot survives a power cycle: when the snapshot of a device in use has been written, the chip
  shut down and powered up again, loading the snapshot brings back both tables and the contents of
  every logical page, whatever the tables of the new device held before.\<close>

theorem snapshot_survives_power_cycle:
  assumes inv: "ftl_inv s" "nd_media_size (fs_nand s) = NAND_MEDIA_SIZE"
    and save: "ftl_save_snapshot s (Some path) = (RET_OK, s')" "hf_writable (fs_files s)"
    and cycle: "nand_deinit (fs_nand s') = Some d" "nand_init env d True = Some (RET_OK, fs_nand t)"
    and files: "fs_files t = fs_files s'"
  shows "\<exists>t'. ftl_load_snapshot t (Some path) = (RET_OK, t') \<and> map_ok t' \<and> logical t' = logical s \<and>
     (\<forall>lpn<FTL_TOTAL_LPNS. fs_l2p t' lpn = fs_l2p s lpn) \<and> (\<forall>ppn<FTL_TOTAL_PPNS. fs_rmap t' ppn = fs_rmap s ppn) \<and>
     fs_cur_block t' = fs_cur_block s \<and> fs_cur_page t' = fs_cur_page s \<and> fs_is_initialized t'"
proof -
  have nand: "fs_nand s' = fs_nand s" and ok: "map_ok s" "fs_cur_block s < 2 ^ 32" "fs_cur_page s < 2 ^ 32"
    using inv(1) save(1) by (auto simp: ftl_inv_def frontier_def ftl_save_snapshot_def Let_def NAND_TOTAL_BLOCKS_def
        NAND_PAGES_PER_BLOCK_def split: if_splits)
  have page: "ppn_page (fs_nand t) ppn = ppn_page (fs_nand s) ppn" if "ppn_page (fs_nand s) ppn \<noteq> None" for ppn
    using power_cycle_keeps_pages [OF _ inv(2) _ cycle(2)] inv(1) cycle(1) that nand by (auto simp: ppn_page_def ftl_inv_def)
  show ?thesis by (rule snapshot_restores [OF ok save files page]) blast+
qed

lemma snapshot_survives_power_cycle_witness:
  "\<exists>s s' d d2 t. ftl_save_snapshot example_ftl (Some ''snap'') = (RET_OK, s') \<and> nand_deinit (fs_nand s') = Some d \<and>
     nand_init good_env d True = Some (RET_OK, d2) \<and>
     ftl_load_snapshot (s'\<lparr>fs_nand := d2, fs_l2p := (\<lambda>_. 3)\<rparr>) (Some ''snap'') = (RET_OK, t) \<and> logical t 5 = None"
proof -
  have inv: "ftl_inv example_ftl" using example_ftl_facts(1) by (simp add: ftl_ready_def)
  have size: "nd_media_size (fs_nand example_ftl) = NAND_MEDIA_SIZE"
    by (simp add: example_ftl_facts(3) empty_chip_def)
  obtain s' where save: "ftl_save_snapshot example_ftl (Some ''snap'') = (RET_OK, s')" "fs_nand s' = fs_nand example_ftl"
    using inv by (simp add: ftl_save_snapshot_def Let_def ftl_inv_def example_ftl_files)
  obtain d where d: "nand_deinit (fs_nand s') = Some d"
    by (simp add: save(2) nand_deinit_def example_ftl_facts(3) empty_chip_def)
  obtain d2 where d2: "nand_init good_env d True = Some (RET_OK, d2)" using good_env_boots by blast
  define t where "t = s'\<lparr>fs_nand := d2, fs_l2p := (\<lambda>_. 3)\<rparr>"
  have "hf_writable (fs_files example_ftl)" by (simp add: example_ftl_files)
  from snapshot_survives_power_cycle [OF inv size save(1) this d, of good_env t] d2 save(1) d
  show ?thesis by (auto simp: t_def example_ftl_facts(2))
qed

end
