(* ===== verification/HostAdmin.thy ===== *)
theory HostAdmin
  imports Ftl MsgQueue
begin

text \<open>
  The host interface, \<open>modules/host_if/host_if.c\<close> and \<open>host_if.h\<close>: its state, the identify and health data
  structures as the byte images the host receives, and the administrative commands.  Host memory
  is a flat space of bytes; a data buffer is an address in it, \<open>None\<close> the null pointer.  The commands
  do not look at the length of the buffer except where the code does.
\<close>

section \<open>Data\<close>

text \<open>Operation codes; the two sets of commands overlap, so a code is a number.\<close>

abbreviation (input) NVME_CMD_FLUSH :: nat where "NVME_CMD_FLUSH \<equiv> 0x00"
abbreviation (input) NVME_CMD_WRITE :: nat where "NVME_CMD_WRITE \<equiv> 0x01"
abbreviation (input) NVME_CMD_READ :: nat where "NVME_CMD_READ \<equiv> 0x02"
abbreviation (input) NVME_CMD_WRITE_ZEROES :: nat where "NVME_CMD_WRITE_ZEROES \<equiv> 0x08"
abbreviation (input) NVME_CMD_DATASET_MGMT :: nat where "NVME_CMD_DATASET_MGMT \<equiv> 0x09"
abbreviation (input) NVME_ADMIN_GET_LOG_PAGE :: nat where "NVME_ADMIN_GET_LOG_PAGE \<equiv> 0x02"
abbreviation (input) NVME_ADMIN_IDENTIFY :: nat where "NVME_ADMIN_IDENTIFY \<equiv> 0x06"
abbreviation (input) NVME_ADMIN_SET_FEATURE :: nat where "NVME_ADMIN_SET_FEATURE \<equiv> 0x09"
abbreviation (input) NVME_ADMIN_GET_FEATURE :: nat where "NVME_ADMIN_GET_FEATURE \<equiv> 0x0A"

text \<open>Delete and create queue, abort, event request, firmware activate and download, format.\<close>

definition admin_no_operation :: "nat list" where
  "admin_no_operation = [0x01, 0x00, 0x05, 0x04, 0x08, 0x0C, 0x11, 0x10, 0x80]"

datatype nvme_status =
    NVME_STATUS_SUCCESS | NVME_STATUS_INVALID_OPCODE | NVME_STATUS_INVALID_FIELD
  | NVME_STATUS_DATA_TRANSFER | NVME_STATUS_ABORTED | NVME_STATUS_INTERNAL_ERROR

record nvme_cmd =
  cmd_opcode :: nat
  cmd_nsid :: u32
  cmd_slba :: u64
  cmd_nlb :: u32
  cmd_cid :: u16
  cmd_fua :: u8
  cmd_lr :: u8
  cmd_data_buf :: "nat option"
  cmd_data_len :: nat
  cmd_is_admin :: bool

record nvme_cqe =
  cqe_dw0 :: u32
  cqe_reserved :: u32
  cqe_sqhd :: u16
  cqe_sqid :: u16
  cqe_cid :: u16
  cqe_status :: nvme_status
  cqe_phase_tag :: u8

text \<open>The features that can be set; the state keeps one value for each.\<close>

datatype nvme_feature =
    FEAT_ARBITRATION | FEAT_POWER_MGMT | FEAT_TEMP_THRESHOLD | FEAT_ERROR_RECOVERY | FEAT_VOLATILE_WC
  | FEAT_NUM_QUEUES | FEAT_IRQ_COALESCE | FEAT_WRITE_ATOMICITY | FEAT_ASYNC_EVENT | FEAT_AUTO_PST
  | FEAT_KEEP_ALIVE | FEAT_HCTM

definition feature_of_id :: "nat \<Rightarrow> nvme_feature option" where
  "feature_of_id i =
     map_of [(0x01, FEAT_ARBITRATION), (0x02, FEAT_POWER_MGMT), (0x04, FEAT_TEMP_THRESHOLD),
       (0x05, FEAT_ERROR_RECOVERY), (0x06, FEAT_VOLATILE_WC), (0x07, FEAT_NUM_QUEUES),
       (0x08, FEAT_IRQ_COALESCE), (0x0A, FEAT_WRITE_ATOMICITY), (0x0B, FEAT_ASYNC_EVENT),
       (0x0C, FEAT_AUTO_PST), (0x0F, FEAT_KEEP_ALIVE), (0x10, FEAT_HCTM)] i"

record host_if_config =
  hc_queue_size :: nat
  hc_max_cmd :: u32
  hc_lba_size :: u32
  hc_total_lbas :: u64
  hc_is_nvm :: bool

record host_if_stats =
  hst_total_cmds :: u64
  hst_read_cmds :: u64
  hst_write_cmds :: u64
  hst_trim_cmds :: u64
  hst_completed_cmds :: u64
  hst_failed_cmds :: u64
  hst_total_read_bytes :: u64
  hst_total_write_bytes :: u64
  hst_avg_latency_us :: u32

record performance_stats =
  pf_read_iops :: u64
  pf_write_iops :: u64
  pf_total_iops :: u64
  pf_read_bw_bps :: u64
  pf_write_bw_bps :: u64
  pf_total_bw_bps :: u64
  pf_min_latency_us :: u64
  pf_max_latency_us :: u64
  pf_avg_latency_us :: u64
  pf_total_latency_us :: u64
  pf_latency_count :: u64
  pf_window_start_ms :: u64
  pf_window_read_cmds :: u64
  pf_window_write_cmds :: u64
  pf_window_read_bytes :: u64
  pf_window_write_bytes :: u64

text \<open>
  The device.  The submission queue is a linked list that only this module reaches, kept as a list
  with the counter of the code; the completion queue is a ring whose slots are \<open>None\<close> until they are
  written, and \<open>None\<close> as a whole where the pointer is null.
\<close>

record host_if_dev =
  hi_config :: host_if_config
  hi_stats :: host_if_stats
  hi_perf :: performance_stats
  hi_sq :: "nvme_cmd list"
  hi_sq_count :: nat
  hi_cq_buf :: "nvme_cqe option list option"
  hi_cq_head :: nat
  hi_cq_tail :: nat
  hi_cq_count :: nat
  hi_phase_tag :: u8
  hi_id_ctrl :: "u8 list"
  hi_id_ns :: "u8 list"
  hi_smart_log :: "u8 list"
  hi_feature :: "nvme_feature \<Rightarrow> u32"
  hi_plp_enabled :: bool
  hi_wal_dirty :: bool
  hi_power_cycles :: u64
  hi_unsafe_shutdowns :: u64
  hi_power_on_hours :: u64
  hi_is_initialized :: bool

text \<open>What the module works with: itself, the FTL, the message queues, host memory, its static counters, and the
  outcomes of \<open>malloc\<close>.\<close>

record host_sys =
  hs_if :: host_if_dev
  hs_ftl :: ftl_dev
  hs_mq :: mq_state
  hs_mem :: "nat \<Rightarrow> u8"
  hs_timestamp :: u64
  hs_cid_counter :: u16
  hs_malloc_count :: nat
  hs_malloc_fails :: "nat \<Rightarrow> bool"

definition upd_if :: "(host_if_dev \<Rightarrow> host_if_dev) \<Rightarrow> host_sys \<Rightarrow> host_sys" where
  "upd_if f s = s\<lparr>hs_if := f (hs_if s)\<rparr>"

definition host_malloc :: "host_sys \<Rightarrow> bool \<times> host_sys" where
  "host_malloc s = (\<not> hs_malloc_fails s (hs_malloc_count s), s\<lparr>hs_malloc_count := hs_malloc_count s + 1\<rparr>)"

section \<open>Byte images\<close>

text \<open>A structure is an image of its size that starts as zeroes and receives its fields at their offsets.\<close>

definition put_bytes :: "nat \<times> u8 list \<Rightarrow> u8 list \<Rightarrow> u8 list" where
  "put_bytes = (\<lambda>(off, bs) img. take off img @ bs @ drop (off + length bs) img)"

definition struct_image :: "nat \<Rightarrow> (nat \<times> u8 list) list \<Rightarrow> u8 list" where
  "struct_image n fs = fold put_bytes fs (replicate n 0)"

definition le16 :: "u16 \<Rightarrow> u8 list" where
  "le16 w = [ucast w, ucast (drop_bit 8 w)]"

definition le64 :: "u64 \<Rightarrow> u8 list" where
  "le64 w = u32_bytes (ucast w) @ u32_bytes (ucast (drop_bit 32 w))"

definition ascii :: "string \<Rightarrow> u8 list" where
  "ascii s = map of_char s"

definition NVME_ID_CTRL_SIZE :: nat where "NVME_ID_CTRL_SIZE = 2656"
definition NVME_ID_NS_SIZE :: nat where "NVME_ID_NS_SIZE = 4288"
definition NVME_SMART_LOG_SIZE :: nat where "NVME_SMART_LOG_SIZE = 516"
definition WCTEMP_OFFSET :: nat where "WCTEMP_OFFSET = 110"

text \<open>In the order of the assignments; fields set to zero stay as they are.\<close>

definition id_ctrl_fields :: "(nat \<times> u8 list) list" where
  "id_ctrl_fields =
     [(0, le16 0x1EDC), (2, le16 0x1EDC), (4, ascii ''FTLFW20260001'' @ [0]),
      (24, ascii ''FTL-Firmware NVMe SSD'' @ [0]), (64, ascii ''1.0.0''), (73, [0x00, 0x0B, 0xBA]),
      (78, le16 0x0001), (80, u32_bytes 0x00020000), (77, [6]), (76, [0]), (72, [4]),
      (100, le16 0x003F), (102, [3]), (103, [3]), (104, [0x03]), (105, [0x07]), (106, [63]), (107, [4]),
      (WCTEMP_OFFSET, le16 345), (112, le16 358), (114, le16 100), (116, u32_bytes 0), (120, u32_bytes 0),
      (124, le64 107374182400), (140, le64 107374182400),
      (352, [0x66]), (353, [0x44]), (354, le16 1024), (356, u32_bytes 1), (360, le16 0x003F), (362, le16 0x0001),
      (364, [0x03]), (365, [0x01]), (366, le16 0), (368, le16 0), (376, u32_bytes 0), (380, u32_bytes 1),
      (608, [0x01]), (610, le16 10000), (616, u32_bytes 0), (620, u32_bytes 0),
      (704, [0x03]), (706, le16 500), (712, u32_bytes 5000), (716, u32_bytes 5000),
      (736, [0x04]), (738, le16 50), (744, u32_bytes 50000), (748, u32_bytes 100000)]"

definition host_if_fill_id_ctrl :: "host_if_dev \<Rightarrow> host_if_dev" where
  "host_if_fill_id_ctrl h = h\<lparr>hi_id_ctrl := struct_image NVME_ID_CTRL_SIZE id_ctrl_fields\<rparr>"

definition id_ns_fields :: "(nat \<times> u8 list) list" where
  "id_ns_fields =
     [(0, le64 26214400), (8, le64 26214400), (16, le64 13107200),
      (24, [0x0F]), (25, [3]), (26, [0x00]), (27, [0x03]), (28, [0x0F]), (29, [0x00]), (30, [0x01]), (31, [0x3F]),
      (32, [0x80]), (34, le16 0), (36, le16 0), (38, le16 0),
      (46, le16 128), (64, le16 128), (66, le16 128), (72, le16 128), (48, le64 107374182400), (56, le64 0),
      (128, [12]), (129, [0]), (131, [0]), (132, [9]), (135, [2]), (136, [12]), (137, [8]), (139, [1]),
      (140, [12]), (141, [64]), (143, [3]),
      (104, le16 0x1234), (106, le16 0x5678), (108, le16 0x9ABC), (110, le16 0xDEF0),
      (112, le16 0x1111), (114, le16 0x2222), (116, le16 0x3333), (118, le16 0x4444),
      (120, [0x00, 0x0B, 0xBA, 0x00, 0x00, 0x00, 0x00, 0x01]),
      (92, u32_bytes 1), (99, [0]), (100, le16 0), (102, le16 0)]"

definition host_if_fill_id_ns :: "host_if_dev \<Rightarrow> host_if_dev" where
  "host_if_fill_id_ns h = h\<lparr>hi_id_ns := struct_image NVME_ID_NS_SIZE id_ns_fields\<rparr>"

text \<open>
  The health log.  The result of \<open>nand_get_stats\<close> is not tested: where it gives no statistics the
  code reads an uninitialised structure.
\<close>

definition u16_at :: "u8 list \<Rightarrow> nat \<Rightarrow> u16" where
  "u16_at img off = ucast (img ! off) OR push_bit 8 (ucast (img ! (off + 1)))"

definition smart_avail_spare :: "u32 \<Rightarrow> u8" where
  "smart_avail_spare bad_blocks = ucast ((of_nat NAND_TOTAL_BLOCKS - bad_blocks) * 100 div of_nat NAND_TOTAL_BLOCKS)"

definition smart_critical_warning :: "u8 \<Rightarrow> u16 \<Rightarrow> u8" where
  "smart_critical_warning avail_spare wctemp =
     (if avail_spare < 10 then 0x01 else 0) OR (if wctemp < 318 then 0x02 else 0)"

definition smart_log_fields :: "host_if_dev \<Rightarrow> nand_stats \<Rightarrow> (nat \<times> u8 list) list" where
  "smart_log_fields h st =
     (let avail_spare = smart_avail_spare (st_bad_blocks st) in
      [(4, [avail_spare]), (5, [10]), (2, le16 318),
       (0, [smart_critical_warning avail_spare (u16_at (hi_id_ctrl h) WCTEMP_OFFSET)]), (6, [5]),
       (33, le64 (hst_total_read_bytes (hi_stats h) div (512 * 1024))),
       (49, le64 (hst_total_write_bytes (hi_stats h) div (512 * 1024))),
       (65, le64 (hst_read_cmds (hi_stats h))), (81, le64 (hst_write_cmds (hi_stats h))),
       (97, le64 10), (113, le64 (hi_power_cycles h)), (129, le64 (hi_power_on_hours h)),
       (145, le64 (hi_unsafe_shutdowns h)), (161, le64 (ucast (st_crc_error_count st))),
       (177, le64 (hst_failed_cmds (hi_stats h))),
       (204, le16 318), (206, le16 320), (208, le16 315), (196, u32_bytes 0), (200, u32_bytes 0)])"

definition host_if_fill_smart_log :: "host_sys \<Rightarrow> host_sys option" where
  "host_if_fill_smart_log s =
     (case nand_get_stats (fs_nand (hs_ftl s)) True of
        (_, None) \<Rightarrow> None
      | (_, Some st) \<Rightarrow>
          Some (upd_if (\<lambda>h. h\<lparr>hi_smart_log := struct_image NVME_SMART_LOG_SIZE (smart_log_fields h st)\<rparr>) s))"

section \<open>Administrative commands\<close>

definition store :: "nat \<Rightarrow> u8 list \<Rightarrow> host_sys \<Rightarrow> host_sys" where
  "store a bs s = s\<lparr>hs_mem := mem_write (hs_mem s) a bs\<rparr>"

definition low_byte :: "u32 \<Rightarrow> nat" where
  "low_byte w = unat (w AND 0xFF)"

definition host_if_process_identify :: "nvme_cmd \<Rightarrow> host_sys \<Rightarrow> nvme_status \<times> host_sys" where
  "host_if_process_identify c s =
     (let cns = low_byte (cmd_nsid c) in
      case cmd_data_buf c of
        None \<Rightarrow> (NVME_STATUS_INVALID_FIELD, s)
      | Some a \<Rightarrow>
          if cmd_data_len c < 4096 then (NVME_STATUS_INVALID_FIELD, s)
          else if cns = 0x01 then (NVME_STATUS_SUCCESS, store a (hi_id_ctrl (hs_if s)) s)
          else if cns = 0x00 then (NVME_STATUS_SUCCESS, store a (hi_id_ns (hs_if s)) s)
          else if cns = 0x02 then (NVME_STATUS_SUCCESS, store a (u32_bytes 1) (store a (replicate 4096 0) s))
          else (NVME_STATUS_INVALID_FIELD, s))"

definition host_if_process_get_log_page :: "nvme_cmd \<Rightarrow> host_sys \<Rightarrow> (nvme_status \<times> host_sys) option" where
  "host_if_process_get_log_page c s =
     (let log_id = low_byte (cmd_nsid c) in
      case cmd_data_buf c of
        None \<Rightarrow> Some (NVME_STATUS_INVALID_FIELD, s)
      | Some a \<Rightarrow>
          if log_id = 0x02 then do {
            s \<leftarrow> host_if_fill_smart_log s;
            Some (NVME_STATUS_SUCCESS, store a (take (cmd_data_len c) (hi_smart_log (hs_if s))) s)
          }
          else if log_id = 0x01 then Some (NVME_STATUS_SUCCESS, store a (replicate (cmd_data_len c) 0) s)
          else if log_id = 0x03
          then Some (NVME_STATUS_SUCCESS,
                 store (a + 8) (ascii ''1.0.0'') (store a [0x01] (store a (replicate (cmd_data_len c) 0) s)))
          else if log_id = 0x05 then Some (NVME_STATUS_SUCCESS, store a (replicate (cmd_data_len c) 0) s)
          else Some (NVME_STATUS_INVALID_FIELD, s))"

definition host_if_process_set_feature :: "nvme_cmd \<Rightarrow> host_sys \<Rightarrow> nvme_status \<times> host_sys" where
  "host_if_process_set_feature c s =
     (let value = ucast (cmd_slba c AND 0xFFFFFFFF) in
      case feature_of_id (low_byte (cmd_nsid c)) of
        None \<Rightarrow> (NVME_STATUS_INVALID_FIELD, s)
      | Some f \<Rightarrow> (NVME_STATUS_SUCCESS, upd_if (\<lambda>h. h\<lparr>hi_feature := (hi_feature h)(f := value)\<rparr>) s))"

definition host_if_process_get_feature :: "nvme_cmd \<Rightarrow> host_sys \<Rightarrow> nvme_status \<times> host_sys" where
  "host_if_process_get_feature c s =
     (case feature_of_id (low_byte (cmd_nsid c)) of
        None \<Rightarrow> (NVME_STATUS_INVALID_FIELD, s)
      | Some f \<Rightarrow>
          (NVME_STATUS_SUCCESS,
           case cmd_data_buf c of
             Some a \<Rightarrow> if 4 \<le> cmd_data_len c then store a (u32_bytes (hi_feature (hs_if s) f)) s else s
           | None \<Rightarrow> s))"

definition host_if_process_admin_cmd :: "nvme_cmd \<Rightarrow> host_sys \<Rightarrow> (nvme_status \<times> host_sys) option" where
  "host_if_process_admin_cmd c s =
     (if cmd_opcode c = NVME_ADMIN_IDENTIFY then Some (host_if_process_identify c s)
      else if cmd_opcode c = NVME_ADMIN_GET_LOG_PAGE then host_if_process_get_log_page c s
      else if cmd_opcode c = NVME_ADMIN_SET_FEATURE then Some (host_if_process_set_feature c s)
      else if cmd_opcode c = NVME_ADMIN_GET_FEATURE then Some (host_if_process_get_feature c s)
      else if cmd_opcode c \<in> set admin_no_operation then Some (NVME_STATUS_SUCCESS, s)
      else Some (NVME_STATUS_INVALID_OPCODE, s))"

end
