(* ===== verification/HostIf.thy ===== *)
theory HostIf
  imports HostAdmin
begin

text \<open>
  The host interface, continued: the commands that reach the FTL, the submission and completion
  queues, the processing loop, and the statistics, of \<open>modules/host_if/host_if.c\<close>.  An outer
  \<open>None\<close> is undefined behaviour or a collection in the FTL that does not end.
\<close>

definition MODULE_HOST_IF :: nat where "MODULE_HOST_IF = 2"

section \<open>Statistics of performance\<close>

definition host_timestamp_ms :: "host_sys \<Rightarrow> u64 \<times> host_sys" where
  "host_timestamp_ms s = (hs_timestamp s, s\<lparr>hs_timestamp := hs_timestamp s + 1\<rparr>)"

definition roll_window :: "u64 \<Rightarrow> performance_stats \<Rightarrow> performance_stats" where
  "roll_window now p =
     (let p = (if pf_window_start_ms p = 0 then p\<lparr>pf_window_start_ms := now\<rparr> else p) in
      if 1000 \<le> now - pf_window_start_ms p
      then p\<lparr>pf_read_iops := pf_window_read_cmds p, pf_write_iops := pf_window_write_cmds p,
             pf_total_iops := pf_window_read_cmds p + pf_window_write_cmds p,
             pf_read_bw_bps := pf_window_read_bytes p, pf_write_bw_bps := pf_window_write_bytes p,
             pf_total_bw_bps := pf_window_read_bytes p + pf_window_write_bytes p,
             pf_window_start_ms := now, pf_window_read_cmds := 0, pf_window_write_cmds := 0,
             pf_window_read_bytes := 0, pf_window_write_bytes := 0\<rparr>
      else p)"

definition count_window :: "bool \<Rightarrow> u32 \<Rightarrow> performance_stats \<Rightarrow> performance_stats" where
  "count_window is_read bytes p =
     (if is_read
      then p\<lparr>pf_window_read_cmds := pf_window_read_cmds p + 1,
             pf_window_read_bytes := pf_window_read_bytes p + ucast bytes\<rparr>
      else p\<lparr>pf_window_write_cmds := pf_window_write_cmds p + 1,
             pf_window_write_bytes := pf_window_write_bytes p + ucast bytes\<rparr>)"

text \<open>The count of samples can wrap to zero, and the division by it is then undefined.\<close>

definition count_latency :: "u64 \<Rightarrow> performance_stats \<Rightarrow> performance_stats option" where
  "count_latency latency_us p =
     (let p = (if pf_latency_count p = 0
               then p\<lparr>pf_min_latency_us := latency_us, pf_max_latency_us := latency_us\<rparr>
               else p\<lparr>pf_min_latency_us := min (pf_min_latency_us p) latency_us,
                      pf_max_latency_us := max (pf_max_latency_us p) latency_us\<rparr>);
          p = p\<lparr>pf_total_latency_us := pf_total_latency_us p + latency_us,
                pf_latency_count := pf_latency_count p + 1\<rparr> in
      if pf_latency_count p = 0 then None
      else Some (p\<lparr>pf_avg_latency_us := pf_total_latency_us p div pf_latency_count p\<rparr>))"

definition update_performance_stats :: "bool \<Rightarrow> u32 \<Rightarrow> u64 \<Rightarrow> host_sys \<Rightarrow> host_sys option" where
  "update_performance_stats is_read bytes latency_us s =
     (let (now, s) = host_timestamp_ms s in
      do {
        p \<leftarrow> count_latency latency_us (count_window is_read bytes (roll_window now (hi_perf (hs_if s))));
        Some (upd_if (\<lambda>h. h\<lparr>hi_perf := p\<rparr>) s)
      })"

section \<open>Commands on data\<close>

definition upd_stats :: "(host_if_stats \<Rightarrow> host_if_stats) \<Rightarrow> host_sys \<Rightarrow> host_sys" where
  "upd_stats f = upd_if (\<lambda>h. h\<lparr>hi_stats := f (hi_stats h)\<rparr>)"

text \<open>First page, number of pages and the place of the i-th page in the buffer, in 32 bits.\<close>

definition cmd_lpn :: "nvme_cmd \<Rightarrow> nat" where
  "cmd_lpn c = unat (ucast (cmd_slba c) :: u32)"

definition cmd_count :: "nvme_cmd \<Rightarrow> nat" where
  "cmd_count c = unat (cmd_nlb c + 1)"

definition page_offset :: "nat \<Rightarrow> nat" where
  "page_offset i = i * NAND_PAGE_SIZE mod 2 ^ 32"

definition cmd_bytes :: "nvme_cmd \<Rightarrow> u32" where
  "cmd_bytes c = (cmd_nlb c + 1) * of_nat NAND_PAGE_SIZE"

definition read_page_body :: "nvme_cmd \<Rightarrow> nat \<Rightarrow> host_sys \<Rightarrow> (nvme_status, host_sys) ctl option" where
  "read_page_body c i s =
     (let (ret, out, f) = ftl_read (hs_ftl s) (u32_add (cmd_lpn c) i) (cmd_data_buf c \<noteq> None);
          s = s\<lparr>hs_ftl := f\<rparr>;
          s = (case (cmd_data_buf c, out) of (Some a, Some bs) \<Rightarrow> store (a + page_offset i) bs s | _ \<Rightarrow> s) in
      Some (if ret \<noteq> RET_OK then Leave NVME_STATUS_INTERNAL_ERROR s else Next s))"

definition process_read_cmd :: "nvme_cmd \<Rightarrow> host_sys \<Rightarrow> (nvme_status \<times> host_sys) option" where
  "process_read_cmd c s =
     do {
       r \<leftarrow> for_each [0..<cmd_count c] (read_page_body c) s;
       (case r of
          Leave st s \<Rightarrow> Some (st, s)
        | Next s \<Rightarrow> Some (NVME_STATUS_SUCCESS, upd_stats (\<lambda>t. t\<lparr>hst_read_cmds := hst_read_cmds t + 1,
            hst_total_cmds := hst_total_cmds t + 1,
            hst_total_read_bytes := hst_total_read_bytes t + ucast (cmd_bytes c)\<rparr>) s))
     }"

text \<open>The loop that writes pages, from host memory or from a buffer of zeroes.\<close>

definition write_page_body ::
    "(host_sys \<Rightarrow> nat \<Rightarrow> u8 list option) \<Rightarrow> nvme_cmd \<Rightarrow> nat \<Rightarrow> host_sys \<Rightarrow> (nvme_status, host_sys) ctl option" where
  "write_page_body src c i s =
     do {
       (ret, f) \<leftarrow> ftl_write (hs_ftl s) (u32_add (cmd_lpn c) i) (src s i);
       Some (if ret \<noteq> RET_OK then Leave NVME_STATUS_INTERNAL_ERROR (s\<lparr>hs_ftl := f\<rparr>) else Next (s\<lparr>hs_ftl := f\<rparr>))
     }"

definition cmd_page :: "nvme_cmd \<Rightarrow> host_sys \<Rightarrow> nat \<Rightarrow> u8 list option" where
  "cmd_page c s i = map_option (\<lambda>a. mem_read (hs_mem s) (a + page_offset i) NAND_PAGE_SIZE) (cmd_data_buf c)"

definition write_pages ::
    "(host_sys \<Rightarrow> nat \<Rightarrow> u8 list option) \<Rightarrow> nvme_cmd \<Rightarrow> host_sys \<Rightarrow> (nvme_status \<times> host_sys) option" where
  "write_pages src c s =
     do {
       r \<leftarrow> for_each [0..<cmd_count c] (write_page_body src c) s;
       (case r of
          Leave st s \<Rightarrow> Some (st, s)
        | Next s \<Rightarrow> Some (NVME_STATUS_SUCCESS, upd_stats (\<lambda>t. t\<lparr>hst_write_cmds := hst_write_cmds t + 1,
            hst_total_cmds := hst_total_cmds t + 1,
            hst_total_write_bytes := hst_total_write_bytes t + ucast (cmd_bytes c)\<rparr>) s))
     }"

definition process_write_cmd :: "nvme_cmd \<Rightarrow> host_sys \<Rightarrow> (nvme_status \<times> host_sys) option" where
  "process_write_cmd c s = write_pages (cmd_page c) c s"

definition process_write_zeroes_cmd :: "nvme_cmd \<Rightarrow> host_sys \<Rightarrow> (nvme_status \<times> host_sys) option" where
  "process_write_zeroes_cmd c s =
     (let (ok, s) = host_malloc s in
      if \<not> ok then Some (NVME_STATUS_INTERNAL_ERROR, s)
      else write_pages (\<lambda>_ _. Some (replicate NAND_PAGE_SIZE 0)) c s)"

definition process_trim_cmd :: "nvme_cmd \<Rightarrow> host_sys \<Rightarrow> (nvme_status \<times> host_sys) option" where
  "process_trim_cmd c s =
     do {
       (ret, f) \<leftarrow> ftl_trim (hs_ftl s) (cmd_lpn c) (cmd_count c);
       let s = s\<lparr>hs_ftl := f\<rparr>;
       Some (if ret \<noteq> RET_OK then (NVME_STATUS_INTERNAL_ERROR, s)
             else (NVME_STATUS_SUCCESS, upd_stats (\<lambda>t. t\<lparr>hst_trim_cmds := hst_trim_cmds t + 1,
                     hst_total_cmds := hst_total_cmds t + 1\<rparr>) s))
     }"

section \<open>The queues\<close>

text \<open>A write outside the ring is undefined.\<close>

definition add_cqe :: "nvme_cqe option \<Rightarrow> host_if_dev \<Rightarrow> (ret_code \<times> host_if_dev) option" where
  "add_cqe cqe h =
     (case cqe of
        None \<Rightarrow> Some (RET_ERR_PARAM, h)
      | Some e \<Rightarrow>
          if hc_queue_size (hi_config h) \<le> hi_cq_count h then Some (RET_ERR_NO_SPACE, h)
          else (case hi_cq_buf h of
                  None \<Rightarrow> None
                | Some buf \<Rightarrow>
                    if length buf \<le> hi_cq_tail h then None
                    else
                      let h = h\<lparr>hi_cq_buf := Some (buf[hi_cq_tail h := Some (e\<lparr>cqe_phase_tag := hi_phase_tag h\<rparr>)]),
                                hi_cq_tail := (hi_cq_tail h + 1) mod hc_queue_size (hi_config h),
                                hi_cq_count := hi_cq_count h + 1\<rparr> in
                      Some (RET_OK, if hi_cq_tail h = 0
                              then h\<lparr>hi_phase_tag := if hi_phase_tag h = 0 then 1 else 0\<rparr> else h)))"

definition create_cmd_node :: "nvme_cmd option \<Rightarrow> host_sys \<Rightarrow> nvme_cmd option \<times> host_sys" where
  "create_cmd_node c s =
     (case c of
        None \<Rightarrow> (None, s)
      | Some c \<Rightarrow> (let (ok, s) = host_malloc s in (if ok then Some c else None, s)))"

definition host_if_submit_cmd :: "nvme_cmd option \<Rightarrow> host_sys \<Rightarrow> ret_code \<times> host_sys" where
  "host_if_submit_cmd cmd s =
     (if cmd = None then (RET_ERR_PARAM, s)
      else if \<not> hi_is_initialized (hs_if s) then (RET_ERR_NOT_INIT, s)
      else if hc_queue_size (hi_config (hs_if s)) \<le> hi_sq_count (hs_if s) then (RET_ERR_NO_SPACE, s)
      else (case create_cmd_node cmd s of
              (None, s) \<Rightarrow> (RET_ERR_INTERNAL, s)
            | (Some c, s) \<Rightarrow>
                let (c, s) = (if cmd_cid c = 0
                              then (c\<lparr>cmd_cid := hs_cid_counter s\<rparr>, s\<lparr>hs_cid_counter := hs_cid_counter s + 1\<rparr>)
                              else (c, s)) in
                (RET_OK, upd_if (\<lambda>h. h\<lparr>hi_sq := hi_sq h @ [c], hi_sq_count := hi_sq_count h + 1\<rparr>) s)))"

definition host_if_poll_cq :: "bool \<Rightarrow> host_sys \<Rightarrow> (ret_code \<times> nvme_cqe option \<times> host_sys) option" where
  "host_if_poll_cq has_out s =
     (if \<not> has_out then Some (RET_ERR_PARAM, None, s)
      else if \<not> hi_is_initialized (hs_if s) then Some (RET_ERR_NOT_INIT, None, s)
      else if hi_cq_count (hs_if s) = 0 then Some (RET_ERR_BUSY, None, s)
      else (case hi_cq_buf (hs_if s) of
              None \<Rightarrow> None
            | Some buf \<Rightarrow>
                if length buf \<le> hi_cq_head (hs_if s) then None
                else do {
                  e \<leftarrow> buf ! hi_cq_head (hs_if s);
                  Some (RET_OK, Some e, upd_if (\<lambda>h. h\<lparr>hi_cq_head := (hi_cq_head h + 1) mod hc_queue_size (hi_config h),
                                                       hi_cq_count := hi_cq_count h - 1\<rparr>) s)
                }))"

section \<open>Processing\<close>

text \<open>The dispatch; the result says also whether the command counts as a read.\<close>

definition host_if_execute :: "nvme_cmd \<Rightarrow> host_sys \<Rightarrow> (nvme_status \<times> bool \<times> host_sys) option" where
  "host_if_execute c s =
     (if cmd_is_admin c then map_option (\<lambda>(st, s). (st, False, s)) (host_if_process_admin_cmd c s)
      else if cmd_opcode c = NVME_CMD_READ then map_option (\<lambda>(st, s). (st, True, s)) (process_read_cmd c s)
      else if cmd_opcode c = NVME_CMD_WRITE then map_option (\<lambda>(st, s). (st, False, s)) (process_write_cmd c s)
      else if cmd_opcode c = NVME_CMD_WRITE_ZEROES
      then map_option (\<lambda>(st, s). (st, False, s)) (process_write_zeroes_cmd c s)
      else if cmd_opcode c = NVME_CMD_DATASET_MGMT then map_option (\<lambda>(st, s). (st, False, s)) (process_trim_cmd c s)
      else if cmd_opcode c = NVME_CMD_FLUSH then Some (NVME_STATUS_SUCCESS, False, s)
      else Some (NVME_STATUS_INVALID_OPCODE, False, s))"

definition cmd_latency_us :: "nvme_cmd \<Rightarrow> u64" where
  "cmd_latency_us c = ucast (10 + (cmd_nlb c + 1) * 5)"

definition completion_of :: "nvme_cmd \<Rightarrow> nvme_status \<Rightarrow> host_if_dev \<Rightarrow> nvme_cqe" where
  "completion_of c st h =
     \<lparr>cqe_dw0 = 0, cqe_reserved = 0, cqe_sqhd = of_nat (hi_sq_count h), cqe_sqid = 0, cqe_cid = cmd_cid c,
      cqe_status = st, cqe_phase_tag = 0\<rparr>"

definition count_command :: "nvme_status \<Rightarrow> host_if_stats \<Rightarrow> host_if_stats" where
  "count_command st t =
     (if st = NVME_STATUS_SUCCESS then t\<lparr>hst_completed_cmds := hst_completed_cmds t + 1\<rparr>
      else t\<lparr>hst_failed_cmds := hst_failed_cmds t + 1\<rparr>)"

text \<open>One round of the loop; the result of \<open>add_cqe\<close> is not tested.\<close>

definition process_one :: "host_sys \<Rightarrow> host_sys option" where
  "process_one s =
     (case hi_sq (hs_if s) of
        [] \<Rightarrow> None
      | c # rest \<Rightarrow> do {
          (st, is_read, s) \<leftarrow> host_if_execute c (upd_if (\<lambda>h. h\<lparr>hi_sq := rest, hi_sq_count := hi_sq_count h - 1\<rparr>) s);
          s \<leftarrow> (if st = NVME_STATUS_SUCCESS \<and> cmd_opcode c \<in> {NVME_CMD_READ, NVME_CMD_WRITE, NVME_CMD_WRITE_ZEROES}
               then update_performance_stats is_read (cmd_bytes c) (cmd_latency_us c) s else Some s);
          (_, h) \<leftarrow> add_cqe (Some (completion_of c st (hs_if s))) (hs_if s);
          Some (upd_stats (count_command st) (s\<lparr>hs_if := h\<rparr>))
        })"

partial_function (option) process_loop :: "host_sys \<Rightarrow> host_sys option" where
  "process_loop s =
     (if hi_sq_count (hs_if s) = 0 then Some s else do { s \<leftarrow> process_one s; process_loop s })"

definition host_if_process :: "host_sys \<Rightarrow> (ret_code \<times> host_sys) option" where
  "host_if_process s =
     (if \<not> hi_is_initialized (hs_if s) then Some (RET_ERR_NOT_INIT, s)
      else do { s \<leftarrow> process_loop s; Some (RET_OK, s) })"

section \<open>Set up\<close>

definition zero_host_stats :: host_if_stats where
  "zero_host_stats = \<lparr>hst_total_cmds = 0, hst_read_cmds = 0, hst_write_cmds = 0, hst_trim_cmds = 0,
     hst_completed_cmds = 0, hst_failed_cmds = 0, hst_total_read_bytes = 0, hst_total_write_bytes = 0,
     hst_avg_latency_us = 0\<rparr>"

definition zero_perf :: performance_stats where
  "zero_perf = \<lparr>pf_read_iops = 0, pf_write_iops = 0, pf_total_iops = 0, pf_read_bw_bps = 0, pf_write_bw_bps = 0,
     pf_total_bw_bps = 0, pf_min_latency_us = 0, pf_max_latency_us = 0, pf_avg_latency_us = 0,
     pf_total_latency_us = 0, pf_latency_count = 0, pf_window_start_ms = 0, pf_window_read_cmds = 0,
     pf_window_write_cmds = 0, pf_window_read_bytes = 0, pf_window_write_bytes = 0\<rparr>"

text \<open>The zeroed device with its configuration.\<close>

definition blank_host_if :: "host_if_config \<Rightarrow> host_if_dev" where
  "blank_host_if c = \<lparr>hi_config = c, hi_stats = zero_host_stats, hi_perf = zero_perf, hi_sq = [], hi_sq_count = 0,
     hi_cq_buf = None, hi_cq_head = 0, hi_cq_tail = 0, hi_cq_count = 0, hi_phase_tag = 0,
     hi_id_ctrl = replicate NVME_ID_CTRL_SIZE 0, hi_id_ns = replicate NVME_ID_NS_SIZE 0,
     hi_smart_log = replicate NVME_SMART_LOG_SIZE 0, hi_feature = (\<lambda>_. 0), hi_plp_enabled = False,
     hi_wal_dirty = False, hi_power_cycles = 0, hi_unsafe_shutdowns = 0, hi_power_on_hours = 0,
     hi_is_initialized = False\<rparr>"

definition default_feature :: "nvme_feature \<Rightarrow> u32" where
  "default_feature f =
     (case f of FEAT_ARBITRATION \<Rightarrow> 1 | FEAT_TEMP_THRESHOLD \<Rightarrow> 345 | FEAT_VOLATILE_WC \<Rightarrow> 1
      | FEAT_NUM_QUEUES \<Rightarrow> 0x0000FFFF | _ \<Rightarrow> 0)"

definition host_if_init :: "host_if_config option \<Rightarrow> host_sys \<Rightarrow> ret_code \<times> host_sys" where
  "host_if_init config s =
     (case config of
        None \<Rightarrow> (RET_ERR_PARAM, s)
      | Some c \<Rightarrow>
          if hc_queue_size c = 0 then (RET_ERR_PARAM, s)
          else
            let (ok, s) = host_malloc (s\<lparr>hs_if := blank_host_if c\<rparr>) in
            if \<not> ok then (RET_ERR_INTERNAL, s)
            else
              let s = s\<lparr>hs_mq := snd (msg_queue_init (hs_mq s) MODULE_HOST_IF (of_nat (hc_queue_size c)))\<rparr>;
                  h = (hs_if s)\<lparr>hi_cq_buf := Some (replicate (hc_queue_size c) None), hi_phase_tag := 1\<rparr>;
                  h = host_if_fill_id_ns (host_if_fill_id_ctrl h) in
              (RET_OK, s\<lparr>hs_if := h\<lparr>hi_feature := default_feature, hi_plp_enabled := True, hi_wal_dirty := False,
                 hi_power_cycles := 1, hi_unsafe_shutdowns := 0, hi_power_on_hours := 0,
                 hi_is_initialized := True\<rparr>\<rparr>))"

text \<open>The queue pointers are left as they are, so the freed nodes stay reachable.\<close>

definition host_if_deinit :: "host_sys \<Rightarrow> (ret_code \<times> host_sys) option" where
  "host_if_deinit s =
     (if \<not> hi_is_initialized (hs_if s) then Some (RET_ERR_NOT_INIT, s)
      else do {
        (_, q) \<leftarrow> msg_queue_deinit (hs_mq s) MODULE_HOST_IF;
        Some (RET_OK, upd_if (\<lambda>h. h\<lparr>hi_cq_buf := None, hi_is_initialized := False\<rparr>) (s\<lparr>hs_mq := q\<rparr>))
      })"

section \<open>Reports\<close>

definition host_if_get_stats :: "bool \<Rightarrow> host_sys \<Rightarrow> ret_code \<times> host_if_stats option" where
  "host_if_get_stats has_out s =
     (if \<not> has_out then (RET_ERR_PARAM, None)
      else if \<not> hi_is_initialized (hs_if s) then (RET_ERR_NOT_INIT, None)
      else (RET_OK, Some (hi_stats (hs_if s))))"

definition host_if_reset_stats :: "host_sys \<Rightarrow> ret_code \<times> host_sys" where
  "host_if_reset_stats s =
     (if \<not> hi_is_initialized (hs_if s) then (RET_ERR_NOT_INIT, s)
      else (RET_OK, upd_stats (\<lambda>_. zero_host_stats) s))"

definition host_if_get_performance_stats :: "bool \<Rightarrow> host_sys \<Rightarrow> ret_code \<times> performance_stats option" where
  "host_if_get_performance_stats has_out s =
     (if \<not> has_out then (RET_ERR_PARAM, None)
      else if \<not> hi_is_initialized (hs_if s) then (RET_ERR_NOT_INIT, None)
      else (RET_OK, Some (hi_perf (hs_if s))))"

definition host_if_reset_performance_stats :: "host_sys \<Rightarrow> ret_code \<times> host_sys" where
  "host_if_reset_performance_stats s =
     (if \<not> hi_is_initialized (hs_if s) then (RET_ERR_NOT_INIT, s)
      else (RET_OK, upd_if (\<lambda>h. h\<lparr>hi_perf := zero_perf\<lparr>pf_min_latency_us := - 1\<rparr>\<rparr>) s))"

definition host_if_get_id_ctrl :: "bool \<Rightarrow> host_sys \<Rightarrow> ret_code \<times> u8 list option" where
  "host_if_get_id_ctrl has_out s =
     (if \<not> has_out then (RET_ERR_PARAM, None)
      else if \<not> hi_is_initialized (hs_if s) then (RET_ERR_NOT_INIT, None)
      else (RET_OK, Some (hi_id_ctrl (hs_if s))))"

definition host_if_get_id_ns :: "bool \<Rightarrow> host_sys \<Rightarrow> ret_code \<times> u8 list option" where
  "host_if_get_id_ns has_out s =
     (if \<not> has_out then (RET_ERR_PARAM, None)
      else if \<not> hi_is_initialized (hs_if s) then (RET_ERR_NOT_INIT, None)
      else (RET_OK, Some (hi_id_ns (hs_if s))))"

definition host_if_get_smart_log :: "bool \<Rightarrow> host_sys \<Rightarrow> (ret_code \<times> u8 list option \<times> host_sys) option" where
  "host_if_get_smart_log has_out s =
     (if \<not> has_out then Some (RET_ERR_PARAM, None, s)
      else if \<not> hi_is_initialized (hs_if s) then Some (RET_ERR_NOT_INIT, None, s)
      else do { s \<leftarrow> host_if_fill_smart_log s; Some (RET_OK, Some (hi_smart_log (hs_if s)), s) })"

section \<open>Power loss\<close>

definition host_if_plp_simulate_power_loss :: "host_sys \<Rightarrow> ret_code \<times> host_sys" where
  "host_if_plp_simulate_power_loss s =
     (if \<not> hi_is_initialized (hs_if s) then (RET_ERR_NOT_INIT, s)
      else (RET_OK, upd_if (\<lambda>h. h\<lparr>hi_wal_dirty := True, hi_unsafe_shutdowns := hi_unsafe_shutdowns h + 1\<rparr>) s))"

definition host_if_plp_recovery :: "host_sys \<Rightarrow> ret_code \<times> host_sys" where
  "host_if_plp_recovery s =
     (if \<not> hi_is_initialized (hs_if s) then (RET_ERR_NOT_INIT, s)
      else if \<not> hi_wal_dirty (hs_if s) then (RET_OK, s)
      else (RET_OK, upd_if (\<lambda>h. h\<lparr>hi_wal_dirty := False, hi_power_cycles := hi_power_cycles h + 1\<rparr>) s))"

definition host_if_get_power_status :: "host_sys \<Rightarrow> ret_code \<times> (u64 \<times> u64 \<times> u64) option" where
  "host_if_get_power_status s =
     (if \<not> hi_is_initialized (hs_if s) then (RET_ERR_NOT_INIT, None)
      else (RET_OK, Some (hi_power_cycles (hs_if s), hi_unsafe_shutdowns (hs_if s), hi_power_on_hours (hs_if s))))"

end
