(* ===== verification/BoundedFifo.thy ===== *)
theory BoundedFifo
  imports Prelude
begin

text \<open>
  Queues in fixed arrays: the values a ring holds, given by its head and its count or by its head and
  its tail, and the interface of a bounded queue that drops what finds it full.
\<close>

section \<open>Rings\<close>

text \<open>The \<open>k\<close> values that a ring of \<open>n\<close> slots holds from slot \<open>h\<close> on.\<close>

definition ring :: "nat \<Rightarrow> nat \<Rightarrow> nat \<Rightarrow> (nat \<Rightarrow> 'a) \<Rightarrow> 'a list" where
  "ring n h k f = map (\<lambda>i. f ((h + i) mod n)) [0..<k]"

lemma length_ring [simp]: "length (ring n h k f) = k"
  by (simp add: ring_def)

lemma ring_0 [simp]: "ring n h 0 f = []"
  by (simp add: ring_def)

lemma ring_first: "ring n h (Suc k) f = f (h mod n) # ring n (Suc h mod n) k f"
  by (rule nth_equalityI) (simp_all add: ring_def nth_Cons mod_simps del: upt_Suc split: nat.split)

lemma ring_last: "ring n h (Suc k) f = ring n h k f @ [f ((h + k) mod n)]"
  by (simp add: ring_def)

lemma ring_slot_differs: "h < n \<Longrightarrow> i < k \<Longrightarrow> k < n \<Longrightarrow> (h + i) mod n \<noteq> (h + k) mod (n :: nat)"
  by (auto simp: mod_if)

lemma ring_other: "h < n \<Longrightarrow> k < n \<Longrightarrow> length xs = n \<Longrightarrow> ring n h k ((!) (xs[(h + k) mod n := x])) = ring n h k ((!) xs)"
  using ring_slot_differs [of h n _ k] by (force simp: ring_def)

text \<open>A ring given by its head and tail, which never holds as many values as it has slots.\<close>

definition ring_count :: "nat \<Rightarrow> nat \<Rightarrow> nat \<Rightarrow> nat" where
  "ring_count n h t = (t + n - h) mod n"

lemma ring_count_facts:
  assumes "h < n" "t < n"
  shows "ring_count n h t < n" "t = (h + ring_count n h t) mod n" "ring_count n h t = 0 \<longleftrightarrow> h = t"
    and "h \<noteq> t \<Longrightarrow> ring_count n h t = Suc (ring_count n (Suc h mod n) t)"
    and "Suc (ring_count n h t) < n \<Longrightarrow> ring_count n h (Suc t mod n) = Suc (ring_count n h t)"
proof -
  have k: "ring_count n h t = (if h \<le> t then t - h else t + n - h)"
    using assms by (auto simp: ring_count_def mod_if)
  show "ring_count n h t < n" "t = (h + ring_count n h t) mod n" "ring_count n h t = 0 \<longleftrightarrow> h = t"
    using assms by (auto simp: k)
  show "ring_count n h t = Suc (ring_count n (Suc h mod n) t)" if "h \<noteq> t"
    using assms that by (auto simp: k ring_count_def mod_if)
  show "ring_count n h (Suc t mod n) = Suc (ring_count n h t)" if "Suc (ring_count n h t) < n"
    using assms that by (auto simp: k ring_count_def mod_if split: if_splits)
qed

section \<open>A bounded first-in first-out queue\<close>

text \<open>
  The interface of a queue with a capacity whose writer does not notice when it is full.  What the
  reader sees of an element is its observation.
\<close>

locale bounded_fifo =
  fixes put :: "'e \<Rightarrow> 's \<Rightarrow> 's"
    and get :: "'s \<Rightarrow> ('o \<times> 's) option"
    and contents :: "'s \<Rightarrow> 'o list"
    and obs :: "'e \<Rightarrow> 'o"
    and cap :: "'s \<Rightarrow> nat"
    and ok :: "'s \<Rightarrow> bool"
  assumes put_contents: "ok s \<Longrightarrow> ok (put e s) \<and> cap (put e s) = cap s \<and>
      contents (put e s) = (if length (contents s) < cap s then contents s @ [obs e] else contents s)"
    and get_contents: "ok s \<Longrightarrow> contents s = x # xs \<Longrightarrow> \<exists>s'. get s = Some (x, s') \<and> ok s' \<and> cap s' = cap s \<and> contents s' = xs"
    and bounded: "ok s \<Longrightarrow> length (contents s) \<le> cap s"
begin

text \<open>A burst of elements is kept as far as there is room; the rest is lost.\<close>

lemma put_all_contents:
  "ok s \<Longrightarrow> ok (fold put es s) \<and> cap (fold put es s) = cap s \<and>
     contents (fold put es s) = take (cap s) (contents s @ map obs es)"
proof (induction es arbitrary: s)
  case Nil
  then show ?case using bounded by simp
next
  case (Cons e es)
  note p = put_contents [OF Cons.prems, of e]
  show ?case
  proof (cases "length (contents s) < cap s")
    case True
    then have "cap s - length (contents s) = Suc (cap s - Suc (length (contents s)))" by simp
    with Cons.IH [of "put e s"] p True show ?thesis by simp
  next
    case False
    with Cons.IH [of "put e s"] p bounded [OF Cons.prems] show ?thesis by simp
  qed
qed

fun get_all :: "nat \<Rightarrow> 's \<Rightarrow> ('o list \<times> 's) option" where
  "get_all 0 s = Some ([], s)"
| "get_all (Suc n) s = do { (x, s) \<leftarrow> get s; (xs, s) \<leftarrow> get_all n s; Some (x # xs, s) }"

text \<open>The reader receives the contents in order.\<close>

lemma get_all_contents:
  "ok s \<Longrightarrow> contents s = xs @ ys \<Longrightarrow> \<exists>s'. get_all (length xs) s = Some (xs, s') \<and> ok s' \<and> cap s' = cap s \<and> contents s' = ys"
proof (induction xs arbitrary: s)
  case (Cons x xs)
  with get_contents [of s x "xs @ ys"] obtain s1 where "get s = Some (x, s1)" "ok s1" "cap s1 = cap s" "contents s1 = xs @ ys"
    by auto
  with Cons.IH [of s1] show ?case by auto
qed simp

end

end
