(* ===== verification/HostQueue.thy ===== *)
theory HostQueue
  imports HostIf FtlHost BoundedFifo
begin

text \<open>
  The queues of the host interface: the completion ring as a bounded first-in first-out queue, and the
  processing loop, which answers the submitted commands in their order.
\<close>

section \<open>The completion queue\<close>

text \<open>What the host learns from a completion: the command and its status.\<close>

definition cqe_obs :: "nvme_cqe \<Rightarrow> u16 \<times> nvme_status" where
  "cqe_obs e = (cqe_cid e, cqe_status e)"

definition ring_slot :: "host_if_dev \<Rightarrow> nat \<Rightarrow> nat" where
  "ring_slot h i = (hi_cq_head h + i) mod hc_queue_size (hi_config h)"

definition cq_ok :: "host_if_dev \<Rightarrow> bool" where
  "cq_ok h \<longleftrightarrow> 0 < hc_queue_size (hi_config h) \<and>
     (\<exists>buf. hi_cq_buf h = Some buf \<and> length buf = hc_queue_size (hi_config h) \<and>
        (\<forall>i<hi_cq_count h. buf ! ring_slot h i \<noteq> None)) \<and>
     hi_cq_head h < hc_queue_size (hi_config h) \<and> hi_cq_count h \<le> hc_queue_size (hi_config h) \<and>
     hi_cq_tail h = ring_slot h (hi_cq_count h)"

definition cq_entries :: "host_if_dev \<Rightarrow> nvme_cqe list" where
  "cq_entries h = map (\<lambda>i. the (the (hi_cq_buf h) ! ring_slot h i)) [0..<hi_cq_count h]"

definition cq_contents :: "host_if_dev \<Rightarrow> (u16 \<times> nvme_status) list" where
  "cq_contents h = map cqe_obs (cq_entries h)"

definition cq_put :: "nvme_cqe \<Rightarrow> host_if_dev \<Rightarrow> host_if_dev" where
  "cq_put e h = (case add_cqe (Some e) h of Some (_, h') \<Rightarrow> h' | None \<Rightarrow> h)"

lemma ring_slot_cases:
  "hi_cq_head h < hc_queue_size (hi_config h) \<Longrightarrow> i \<le> hc_queue_size (hi_config h) \<Longrightarrow>
   ring_slot h i = (if hi_cq_head h + i < hc_queue_size (hi_config h) then hi_cq_head h + i
                    else hi_cq_head h + i - hc_queue_size (hi_config h))"
  by (auto simp: ring_slot_def mod_if)

lemma ring_slot_inj:
  "hi_cq_head h < hc_queue_size (hi_config h) \<Longrightarrow> i < hc_queue_size (hi_config h) \<Longrightarrow> j < hc_queue_size (hi_config h) \<Longrightarrow>
   ring_slot h i = ring_slot h j \<longleftrightarrow> i = j"
  by (auto simp: ring_slot_cases split: if_splits)

lemma add_cqe_room:
  assumes ok: "cq_ok h" and room: "hi_cq_count h < hc_queue_size (hi_config h)"
  shows "\<exists>h' p. add_cqe (Some e) h = Some (RET_OK, h') \<and> cq_ok h' \<and> hi_config h' = hi_config h \<and>
     cq_entries h' = cq_entries h @ [e\<lparr>cqe_phase_tag := p\<rparr>]"
proof -
  let ?n = "hc_queue_size (hi_config h)" and ?k = "hi_cq_count h"
  from ok obtain buf where buf: "hi_cq_buf h = Some buf" "length buf = ?n" "\<And>i. i < ?k \<Longrightarrow> buf ! ring_slot h i \<noteq> None"
    and n: "0 < ?n" "hi_cq_head h < ?n" and tail: "hi_cq_tail h = ring_slot h ?k"
    by (auto simp: cq_ok_def)
  have t: "ring_slot h ?k < ?n" using n by (simp add: ring_slot_def)
  define e' where "e' = e\<lparr>cqe_phase_tag := hi_phase_tag h\<rparr>"
  define h1 where "h1 = h\<lparr>hi_cq_buf := Some (buf[ring_slot h ?k := Some e']),
      hi_cq_tail := (ring_slot h ?k + 1) mod ?n, hi_cq_count := ?k + 1\<rparr>"
  define h' where "h' = (if hi_cq_tail h1 = 0 then h1\<lparr>hi_phase_tag := if hi_phase_tag h1 = 0 then 1 else 0\<rparr> else h1)"
  have add: "add_cqe (Some e) h = Some (RET_OK, h')"
    using room t by (simp add: add_cqe_def buf tail h'_def h1_def e'_def Let_def)
  have f: "hi_config h' = hi_config h" "hi_cq_buf h' = Some (buf[ring_slot h ?k := Some e'])" "hi_cq_head h' = hi_cq_head h"
    "hi_cq_count h' = Suc ?k" "hi_cq_tail h' = (ring_slot h ?k + 1) mod ?n"
    by (simp_all add: h'_def h1_def)
  have slot: "ring_slot h' = ring_slot h" by (simp add: fun_eq_iff ring_slot_def f)
  have old: "buf[ring_slot h ?k := Some e'] ! ring_slot h i = buf ! ring_slot h i" if "i < ?k" for i
  proof -
    have "ring_slot h ?k \<noteq> ring_slot h i" using ring_slot_inj [OF n(2), of ?k i] room that by simp
    then show ?thesis by simp
  qed
  have new: "buf[ring_slot h ?k := Some e'] ! ring_slot h ?k = Some e'" using t by (simp add: buf(2))
  have "cq_ok h'"
    using n room old new buf(2,3) by (auto simp: cq_ok_def f slot less_Suc_eq) (simp add: ring_slot_def mod_Suc_eq)
  moreover have "cq_entries h' = cq_entries h @ [e']"
    using old new by (simp add: cq_entries_def f slot buf(1))
  ultimately show ?thesis using add f(1) unfolding e'_def by blast
qed

lemma add_cqe_full: "hc_queue_size (hi_config h) \<le> hi_cq_count h \<Longrightarrow> add_cqe (Some e) h = Some (RET_ERR_NO_SPACE, h)"
  by (simp add: add_cqe_def)

lemma length_cq_entries [simp]: "length (cq_entries h) = hi_cq_count h"
  by (simp add: cq_entries_def)

lemma length_cq_contents [simp]: "length (cq_contents h) = hi_cq_count h"
  by (simp add: cq_contents_def)

text \<open>Taking the oldest completion, as \<open>host_if_poll_cq\<close> does it.\<close>

definition cq_get :: "host_if_dev \<Rightarrow> ((u16 \<times> nvme_status) \<times> host_if_dev) option" where
  "cq_get h =
     (if hi_cq_count h = 0 then None
      else do {
        buf \<leftarrow> hi_cq_buf h;
        e \<leftarrow> buf ! hi_cq_head h;
        Some (cqe_obs e, h\<lparr>hi_cq_head := (hi_cq_head h + 1) mod hc_queue_size (hi_config h), hi_cq_count := hi_cq_count h - 1\<rparr>)
      })"

lemma cq_take_first:
  assumes ok: "cq_ok h" and ne: "hi_cq_count h \<noteq> 0"
  defines "h' \<equiv> h\<lparr>hi_cq_head := (hi_cq_head h + 1) mod hc_queue_size (hi_config h), hi_cq_count := hi_cq_count h - 1\<rparr>"
  shows "cq_ok h'" "\<exists>buf e. hi_cq_buf h = Some buf \<and> hi_cq_head h < length buf \<and> buf ! hi_cq_head h = Some e \<and> cq_entries h = e # cq_entries h'"
proof -
  let ?n = "hc_queue_size (hi_config h)"
  from ok obtain buf where buf: "hi_cq_buf h = Some buf" "length buf = ?n" "\<And>i. i < hi_cq_count h \<Longrightarrow> buf ! ring_slot h i \<noteq> None"
    and n: "0 < ?n" "hi_cq_head h < ?n" and tail: "hi_cq_tail h = ring_slot h (hi_cq_count h)" "hi_cq_count h \<le> ?n"
    by (auto simp: cq_ok_def)
  have slot: "ring_slot h' i = ring_slot h (Suc i)" for i
    by (simp add: h'_def ring_slot_def mod_add_left_eq)
  have zero: "ring_slot h 0 = hi_cq_head h" using n by (simp add: ring_slot_def)
  show "cq_ok h'"
    unfolding cq_ok_def slot using n buf tail ne by (auto simp: h'_def)
  obtain k where k: "hi_cq_count h = Suc k" using ne by (cases "hi_cq_count h") simp_all
  obtain e where e: "buf ! hi_cq_head h = Some e" using buf(3) [of 0] ne zero by auto
  have "[0..<Suc k] = 0 # map Suc [0..<k]" by (simp add: upt_conv_Cons map_Suc_upt)
  then have "cq_entries h = e # cq_entries h'"
    by (simp add: cq_entries_def k zero buf(1) e slot comp_def) (simp add: h'_def k buf(1))
  with buf n e show "\<exists>buf e. hi_cq_buf h = Some buf \<and> hi_cq_head h < length buf \<and> buf ! hi_cq_head h = Some e \<and> cq_entries h = e # cq_entries h'"
    by auto
qed

interpretation cq: bounded_fifo cq_put cq_get cq_contents cqe_obs "\<lambda>h. hc_queue_size (hi_config h)" cq_ok
proof
  fix h :: host_if_dev and e x xs
  assume ok: "cq_ok h"
  then have le: "hi_cq_count h \<le> hc_queue_size (hi_config h)" by (simp add: cq_ok_def)
  show "cq_ok (cq_put e h) \<and> hc_queue_size (hi_config (cq_put e h)) = hc_queue_size (hi_config h) \<and>
      cq_contents (cq_put e h) = (if length (cq_contents h) < hc_queue_size (hi_config h)
        then cq_contents h @ [cqe_obs e] else cq_contents h)"
  proof (cases "hi_cq_count h < hc_queue_size (hi_config h)")
    case True
    from add_cqe_room [OF ok True] obtain h' p where "add_cqe (Some e) h = Some (RET_OK, h')" "cq_ok h'"
      "hi_config h' = hi_config h" "cq_entries h' = cq_entries h @ [e\<lparr>cqe_phase_tag := p\<rparr>]" by blast
    with True show ?thesis by (simp add: cq_put_def cq_contents_def cqe_obs_def)
  next
    case False
    with ok show ?thesis by (simp add: cq_put_def add_cqe_full)
  qed
  show "\<exists>h'. cq_get h = Some (x, h') \<and> cq_ok h' \<and> hc_queue_size (hi_config h') = hc_queue_size (hi_config h) \<and> cq_contents h' = xs"
    if c: "cq_contents h = x # xs"
  proof -
    from c have ne: "hi_cq_count h \<noteq> 0" by (metis length_cq_contents length_0_conv list.discI)
    from cq_take_first [OF ok ne] c ne show ?thesis by (auto simp: cq_get_def cq_contents_def)
  qed
  show "length (cq_contents h) \<le> hc_queue_size (hi_config h)" using le by simp
qed

section \<open>What the execution of a command leaves alone\<close>

text \<open>The queues and the counts of completed and failed commands.\<close>

definition same_queues :: "host_if_dev \<Rightarrow> host_if_dev \<Rightarrow> bool" where
  "same_queues h h' \<longleftrightarrow> hi_config h' = hi_config h \<and> hi_sq h' = hi_sq h \<and> hi_sq_count h' = hi_sq_count h \<and>
     hi_cq_buf h' = hi_cq_buf h \<and> hi_cq_head h' = hi_cq_head h \<and> hi_cq_tail h' = hi_cq_tail h \<and>
     hi_cq_count h' = hi_cq_count h \<and> hi_is_initialized h' = hi_is_initialized h \<and> hi_perf h' = hi_perf h \<and>
     hst_completed_cmds (hi_stats h') = hst_completed_cmds (hi_stats h) \<and>
     hst_failed_cmds (hi_stats h') = hst_failed_cmds (hi_stats h)"

lemma same_queues_refl: "same_queues h h"
  by (simp add: same_queues_def)

lemma same_queues_trans: "same_queues h1 h2 \<Longrightarrow> same_queues h2 h3 \<Longrightarrow> same_queues h1 h3"
  by (simp add: same_queues_def)

lemma same_queues_cq: "same_queues h h' \<Longrightarrow> cq_ok h' = cq_ok h \<and> cq_contents h' = cq_contents h"
proof -
  assume q: "same_queues h h'"
  then have "ring_slot h' = ring_slot h" by (simp add: same_queues_def ring_slot_def fun_eq_iff)
  with q show ?thesis by (simp add: same_queues_def cq_ok_def cq_contents_def cq_entries_def)
qed

lemma host_malloc_if: "host_malloc s = (ok, s') \<Longrightarrow> hs_if s' = hs_if s"
  by (auto simp: host_malloc_def)

lemma cq_stats [simp]:
  "cq_ok (h\<lparr>hi_stats := t\<rparr>) = cq_ok h" "cq_contents (h\<lparr>hi_stats := t\<rparr>) = cq_contents h"
  using same_queues_cq [of h "h\<lparr>hi_stats := (hi_stats h)\<lparr>hst_read_cmds := 0\<rparr>\<rparr>"]
  by (simp_all add: cq_ok_def cq_contents_def cq_entries_def ring_slot_def)

lemma read_loop_if: "for_each xs (read_page_body c) s = Some r \<Longrightarrow>
    (case r of Next s' \<Rightarrow> hs_if s' = hs_if s | Leave st s' \<Rightarrow> hs_if s' = hs_if s)"
  by (rule for_each_invariant [where I = "\<lambda>t. hs_if t = hs_if s" and Q = "\<lambda>_ t. hs_if t = hs_if s"])
    (auto simp: read_page_body_def Let_def store_def split: prod.splits option.splits if_splits)

lemma write_loop_if: "for_each xs (write_page_body src c) s = Some r \<Longrightarrow>
    (case r of Next s' \<Rightarrow> hs_if s' = hs_if s | Leave st s' \<Rightarrow> hs_if s' = hs_if s)"
  by (rule for_each_invariant [where I = "\<lambda>t. hs_if t = hs_if s" and Q = "\<lambda>_ t. hs_if t = hs_if s"])
    (auto simp: write_page_body_def split: prod.splits option.splits if_splits bind_splits)

lemma process_read_cmd_queues: "process_read_cmd c s = Some (st, s') \<Longrightarrow> same_queues (hs_if s) (hs_if s')"
  by (auto simp: process_read_cmd_def upd_stats_def upd_if_def same_queues_def split: bind_splits ctl.splits dest!: read_loop_if)

lemma write_pages_queues: "write_pages src c s = Some (st, s') \<Longrightarrow> same_queues (hs_if s) (hs_if s')"
  by (auto simp: write_pages_def upd_stats_def upd_if_def same_queues_def split: bind_splits ctl.splits dest!: write_loop_if)

lemma process_write_zeroes_cmd_queues: "process_write_zeroes_cmd c s = Some (st, s') \<Longrightarrow> same_queues (hs_if s) (hs_if s')"
proof -
  assume p: "process_write_zeroes_cmd c s = Some (st, s')"
  obtain ok s1 where m: "host_malloc s = (ok, s1)" by (metis prod.exhaust)
  then have "hs_if s1 = hs_if s" by (rule host_malloc_if)
  with p m show ?thesis
    using write_pages_queues [of _ c s1 st s'] same_queues_refl
    by (auto simp: process_write_zeroes_cmd_def split: if_splits)
qed

lemma process_trim_cmd_queues: "process_trim_cmd c s = Some (st, s') \<Longrightarrow> same_queues (hs_if s) (hs_if s')"
  by (auto simp: process_trim_cmd_def upd_stats_def upd_if_def same_queues_def Let_def split: bind_splits if_splits)

lemma fill_smart_log_queues: "host_if_fill_smart_log s = Some s' \<Longrightarrow> same_queues (hs_if s) (hs_if s')"
  by (auto simp: host_if_fill_smart_log_def upd_if_def same_queues_def split: prod.splits option.splits)

lemma store_if [simp]: "hs_if (store a bs s) = hs_if s"
  by (simp add: store_def)

lemma process_identify_queues: "host_if_process_identify c s = (st, s') \<Longrightarrow> same_queues (hs_if s) (hs_if s')"
  by (auto simp: host_if_process_identify_def Let_def same_queues_refl split: option.splits if_splits)

lemma process_get_log_page_queues: "host_if_process_get_log_page c s = Some (st, s') \<Longrightarrow> same_queues (hs_if s) (hs_if s')"
  by (auto simp: host_if_process_get_log_page_def Let_def same_queues_refl fill_smart_log_queues
          split: option.splits if_splits bind_splits)

lemma process_set_feature_queues: "host_if_process_set_feature c s = (st, s') \<Longrightarrow> same_queues (hs_if s) (hs_if s')"
  by (auto simp: host_if_process_set_feature_def upd_if_def same_queues_def Let_def split: option.splits)

lemma process_get_feature_queues: "host_if_process_get_feature c s = (st, s') \<Longrightarrow> same_queues (hs_if s) (hs_if s')"
  by (auto simp: host_if_process_get_feature_def same_queues_refl split: option.splits if_splits)

lemma if_eqE:
  assumes "(if P then x else y) = z"
  obtains "P" "x = z" | "\<not> P" "y = z"
  using assms by (auto split: if_splits)

lemma process_admin_cmd_queues:
  assumes "host_if_process_admin_cmd c s = Some (st, s')"
  shows "same_queues (hs_if s) (hs_if s')"
  using assms unfolding host_if_process_admin_cmd_def option.inject
  by (elim if_eqE) (simp_all only: option.inject prod.inject same_queues_refl process_identify_queues
      process_get_log_page_queues process_set_feature_queues process_get_feature_queues)

lemma map_option_SomeD: "map_option f x = Some y \<Longrightarrow> \<exists>z. x = Some z \<and> y = f z"
  by (cases x) auto

lemma host_if_execute_queues:
  assumes "host_if_execute c s = Some (st, r, s')"
  shows "same_queues (hs_if s) (hs_if s')"
  using assms unfolding host_if_execute_def process_write_cmd_def
  by (elim if_eqE; (drule map_option_SomeD)?)
    (auto simp: same_queues_refl intro: process_admin_cmd_queues
        process_read_cmd_queues write_pages_queues process_write_zeroes_cmd_queues process_trim_cmd_queues)

lemma update_performance_stats_frame:
  "update_performance_stats r b l s = Some s' \<Longrightarrow>
   (\<exists>p. hs_if s' = (hs_if s)\<lparr>hi_perf := p\<rparr> \<and> pf_latency_count p = pf_latency_count (hi_perf (hs_if s)) + 1) \<and>
   hs_ftl s' = hs_ftl s \<and> hs_mem s' = hs_mem s"
  by (auto simp: update_performance_stats_def host_timestamp_ms_def upd_if_def Let_def count_latency_def count_window_def
      roll_window_def split: bind_splits if_splits)

lemma update_performance_stats_defined:
  "pf_latency_count (hi_perf (hs_if s)) + 1 \<noteq> 0 \<Longrightarrow> \<exists>s'. update_performance_stats r b l s = Some s'"
  by (auto simp: update_performance_stats_def host_timestamp_ms_def upd_if_def Let_def count_latency_def count_window_def
      roll_window_def)

lemma cq_perf [simp]:
  "cq_ok (h\<lparr>hi_perf := p\<rparr>) = cq_ok h" "cq_contents (h\<lparr>hi_perf := p\<rparr>) = cq_contents h"
  by (simp_all add: cq_ok_def cq_contents_def cq_entries_def ring_slot_def)

section \<open>Processing\<close>

definition sq_ok :: "host_if_dev \<Rightarrow> bool" where
  "sq_ok h \<longleftrightarrow> hi_sq_count h = length (hi_sq h)"

definition host_ok :: "host_if_dev \<Rightarrow> bool" where
  "host_ok h \<longleftrightarrow> hi_is_initialized h \<and> sq_ok h \<and> cq_ok h"

text \<open>The commands that the module has answered.\<close>

definition answered :: "host_if_dev \<Rightarrow> u64" where
  "answered h = hst_completed_cmds (hi_stats h) + hst_failed_cmds (hi_stats h)"

definition popped :: "host_sys \<Rightarrow> host_sys" where
  "popped s = upd_if (\<lambda>h. h\<lparr>hi_sq := tl (hi_sq h), hi_sq_count := hi_sq_count h - 1\<rparr>) s"

lemma popped_facts:
  assumes "host_ok (hs_if s)" "hi_sq (hs_if s) = c # cs"
  shows "hi_config (hs_if (popped s)) = hi_config (hs_if s)" "hi_sq (hs_if (popped s)) = cs" "host_ok (hs_if (popped s))"
    "answered (hs_if (popped s)) = answered (hs_if s)" "cq_contents (hs_if (popped s)) = cq_contents (hs_if s)"
    "hi_perf (hs_if (popped s)) = hi_perf (hs_if s)" "hs_ftl (popped s) = hs_ftl s" "hs_mem (popped s) = hs_mem s"
  using assms by (simp_all add: popped_def upd_if_def host_ok_def sq_ok_def answered_def cq_ok_def cq_contents_def
      cq_entries_def ring_slot_def)

text \<open>The part of a round behind the execution.\<close>

lemma round_ends:
  assumes ok: "host_ok (hs_if s1)"
    and u: "(if st = NVME_STATUS_SUCCESS \<and> cmd_opcode c \<in> {NVME_CMD_READ, NVME_CMD_WRITE, NVME_CMD_WRITE_ZEROES}
            then update_performance_stats r (cmd_bytes c) (cmd_latency_us c) s1 else Some s1) = Some s2"
    and a: "add_cqe (Some (completion_of c st (hs_if s2))) (hs_if s2) = Some (x, h)"
  defines "s' \<equiv> upd_stats (count_command st) (s2\<lparr>hs_if := h\<rparr>)"
  shows "host_ok (hs_if s')" "hi_sq (hs_if s') = hi_sq (hs_if s1)" "hi_config (hs_if s') = hi_config (hs_if s1)"
    "answered (hs_if s') = answered (hs_if s1) + 1" "hs_ftl s' = hs_ftl s1" "hs_mem s' = hs_mem s1"
    "pf_latency_count (hi_perf (hs_if s')) \<in> {pf_latency_count (hi_perf (hs_if s1)), pf_latency_count (hi_perf (hs_if s1)) + 1}"
    "cq_contents (hs_if s') = take (hc_queue_size (hi_config (hs_if s1))) (cq_contents (hs_if s1) @ [(cmd_cid c, st)])"
proof -
  obtain p where s2: "hs_if s2 = (hs_if s1)\<lparr>hi_perf := p\<rparr>" "hs_ftl s2 = hs_ftl s1" "hs_mem s2 = hs_mem s1"
    "pf_latency_count p \<in> {pf_latency_count (hi_perf (hs_if s1)), pf_latency_count (hi_perf (hs_if s1)) + 1}"
  proof -
    have "\<exists>p. hs_if s2 = (hs_if s1)\<lparr>hi_perf := p\<rparr> \<and> hs_ftl s2 = hs_ftl s1 \<and> hs_mem s2 = hs_mem s1 \<and>
      pf_latency_count p \<in> {pf_latency_count (hi_perf (hs_if s1)), pf_latency_count (hi_perf (hs_if s1)) + 1}"
    proof (cases "st = NVME_STATUS_SUCCESS \<and> cmd_opcode c \<in> {NVME_CMD_READ, NVME_CMD_WRITE, NVME_CMD_WRITE_ZEROES}")
      case True
      with u have "update_performance_stats r (cmd_bytes c) (cmd_latency_us c) s1 = Some s2" by simp
      from update_performance_stats_frame [OF this] show ?thesis by auto
    next
      case False
      with u have "s2 = s1" by auto
      then show ?thesis by (intro exI [of _ "hi_perf (hs_if s1)"]) simp
    qed
    with that show thesis by blast
  qed
  have cq: "cq_ok (hs_if s2)" using ok by (simp add: s2 host_ok_def)
  have h: "h = cq_put (completion_of c st (hs_if s2)) (hs_if s2)" using a by (simp add: cq_put_def)
  note put = cq.put_contents [OF cq, of "completion_of c st (hs_if s2)", folded h]
  have frame: "hi_sq h = hi_sq (hs_if s2)" "hi_sq_count h = hi_sq_count (hs_if s2)" "hi_config h = hi_config (hs_if s2)"
      "hi_is_initialized h = hi_is_initialized (hs_if s2)" "hi_stats h = hi_stats (hs_if s2)" "hi_perf h = hi_perf (hs_if s2)"
    using a by (auto simp: add_cqe_def Let_def split: if_splits option.splits)
  have s'h: "hs_if s' = h\<lparr>hi_stats := count_command st (hi_stats h)\<rparr>" by (simp add: s'_def upd_stats_def upd_if_def)
  show "host_ok (hs_if s')" using ok put by (simp add: s'h host_ok_def sq_ok_def frame s2)
  show "hi_sq (hs_if s') = hi_sq (hs_if s1)" "hi_config (hs_if s') = hi_config (hs_if s1)" by (simp_all add: s'h frame s2)
  show "hs_ftl s' = hs_ftl s1" "hs_mem s' = hs_mem s1" by (simp_all add: s'_def upd_stats_def upd_if_def s2)
  show "pf_latency_count (hi_perf (hs_if s')) \<in> {pf_latency_count (hi_perf (hs_if s1)), pf_latency_count (hi_perf (hs_if s1)) + 1}"
    using s2(4) by (simp add: s'h frame s2(1))
  show "answered (hs_if s') = answered (hs_if s1) + 1"
    by (cases "st = NVME_STATUS_SUCCESS") (simp_all add: answered_def s'h count_command_def frame s2)
  show "cq_contents (hs_if s') = take (hc_queue_size (hi_config (hs_if s1))) (cq_contents (hs_if s1) @ [(cmd_cid c, st)])"
    using put cq.bounded [OF cq] by (auto simp: s'h s2 cqe_obs_def completion_of_def)
qed

lemma executed_ok:
  assumes "same_queues h h'" "host_ok h"
  shows "host_ok h'" "hi_sq h' = hi_sq h" "hi_config h' = hi_config h" "answered h' = answered h" "cq_contents h' = cq_contents h"
    "hi_perf h' = hi_perf h"
  using assms same_queues_cq [OF assms(1)] by (auto simp: same_queues_def host_ok_def sq_ok_def answered_def)

lemma process_one_step:
  assumes ok: "host_ok (hs_if s)" and sq: "hi_sq (hs_if s) = c # cs" and p: "process_one s = Some s'"
  shows "\<exists>st r s1. host_if_execute c (popped s) = Some (st, r, s1) \<and> hs_ftl s' = hs_ftl s1 \<and> hs_mem s' = hs_mem s1 \<and>
     host_ok (hs_if s') \<and> hi_sq (hs_if s') = cs \<and> hi_config (hs_if s') = hi_config (hs_if s) \<and>
     answered (hs_if s') = answered (hs_if s) + 1 \<and>
     pf_latency_count (hi_perf (hs_if s')) \<in> {pf_latency_count (hi_perf (hs_if s)), pf_latency_count (hi_perf (hs_if s)) + 1} \<and>
     cq_contents (hs_if s') = take (hc_queue_size (hi_config (hs_if s))) (cq_contents (hs_if s) @ [(cmd_cid c, st)])"
proof -
  have pop: "upd_if (\<lambda>h. h\<lparr>hi_sq := cs, hi_sq_count := hi_sq_count h - 1\<rparr>) s = popped s"
    by (simp add: popped_def upd_if_def sq)
  from p obtain st r s1 s2 x h where e: "host_if_execute c (popped s) = Some (st, r, s1)"
    and u: "(if st = NVME_STATUS_SUCCESS \<and> cmd_opcode c \<in> {NVME_CMD_READ, NVME_CMD_WRITE, NVME_CMD_WRITE_ZEROES}
            then update_performance_stats r (cmd_bytes c) (cmd_latency_us c) s1 else Some s1) = Some s2"
    and a: "add_cqe (Some (completion_of c st (hs_if s2))) (hs_if s2) = Some (x, h)"
    and s': "s' = upd_stats (count_command st) (s2\<lparr>hs_if := h\<rparr>)"
    unfolding process_one_def sq list.case pop by (auto split: bind_splits prod.splits)
  note f = popped_facts [OF ok sq]
  note x = executed_ok [OF host_if_execute_queues [OF e] f(3)]
  note r = round_ends [OF x(1) u a, folded s']
  show ?thesis
    by (intro exI [of _ st] exI [of _ r] exI [of _ s1]) (use e r x f in simp)
qed

lemma process_one_defined:
  assumes ok: "host_ok (hs_if s)" and sq: "hi_sq (hs_if s) = c # cs" and e: "host_if_execute c (popped s) = Some (st, r, s1)"
    and lat: "pf_latency_count (hi_perf (hs_if s)) + 1 \<noteq> 0"
  shows "\<exists>s'. process_one s = Some s'"
proof -
  have pop: "upd_if (\<lambda>h. h\<lparr>hi_sq := cs, hi_sq_count := hi_sq_count h - 1\<rparr>) s = popped s"
    by (simp add: popped_def upd_if_def sq)
  note f = popped_facts [OF ok sq]
  note x = executed_ok [OF host_if_execute_queues [OF e] f(3)]
  obtain s2 where u: "(if st = NVME_STATUS_SUCCESS \<and> cmd_opcode c \<in> {NVME_CMD_READ, NVME_CMD_WRITE, NVME_CMD_WRITE_ZEROES}
            then update_performance_stats r (cmd_bytes c) (cmd_latency_us c) s1 else Some s1) = Some s2"
  proof -
    have "\<exists>s2. update_performance_stats r (cmd_bytes c) (cmd_latency_us c) s1 = Some s2"
      by (rule update_performance_stats_defined) (use lat in \<open>simp add: x f\<close>)
    with that show thesis by (cases "st = NVME_STATUS_SUCCESS \<and> cmd_opcode c \<in> {NVME_CMD_READ, NVME_CMD_WRITE, NVME_CMD_WRITE_ZEROES}") auto
  qed
  have cq: "cq_ok (hs_if s2)"
  proof (cases "s2 = s1")
    case True
    then show ?thesis using x(1) by (simp add: host_ok_def)
  next
    case False
    with u have "update_performance_stats r (cmd_bytes c) (cmd_latency_us c) s1 = Some s2" by (auto split: if_splits)
    from update_performance_stats_frame [OF this] show ?thesis using x(1) by (auto simp: host_ok_def)
  qed
  have "\<exists>x h. add_cqe (Some (completion_of c st (hs_if s2))) (hs_if s2) = Some (x, h)"
    using add_cqe_room [OF cq] add_cqe_full [of "hs_if s2"] by (meson not_less)
  then obtain x h where "add_cqe (Some (completion_of c st (hs_if s2))) (hs_if s2) = Some (x, h)" by blast
  then show ?thesis
    by (simp only: process_one_def sq list.case pop e bind.bind_lunit prod.case u option.inject) simp
qed

lemma take_take_append: "take n (take n xs @ ys) = take n (xs @ ys)"
  by (cases "length xs \<le> n") simp_all

lemma process_loop_completes:
  assumes "host_ok (hs_if s)" "process_loop s = Some s'"
  shows "\<exists>sts. length sts = length (hi_sq (hs_if s)) \<and> host_ok (hs_if s') \<and> hi_sq (hs_if s') = [] \<and>
     answered (hs_if s') = answered (hs_if s) + of_nat (length (hi_sq (hs_if s))) \<and>
     cq_contents (hs_if s') = take (hc_queue_size (hi_config (hs_if s)))
       (cq_contents (hs_if s) @ zip (map cmd_cid (hi_sq (hs_if s))) sts)"
  using assms
proof (induction "hi_sq (hs_if s)" arbitrary: s)
  case Nil
  then have "hi_sq_count (hs_if s) = 0" by (simp add: host_ok_def sq_ok_def)
  with Nil.prems(2) have "s' = s" by (simp add: process_loop.simps)
  moreover have "length (cq_contents (hs_if s)) \<le> hc_queue_size (hi_config (hs_if s))"
    using Nil.prems(1) cq.bounded by (simp add: host_ok_def)
  ultimately show ?case using Nil by (intro exI [of _ "[]"]) simp
next
  case (Cons c cs)
  then have "hi_sq_count (hs_if s) \<noteq> 0" by (simp add: host_ok_def sq_ok_def flip: Cons.hyps(2))
  with Cons.prems(2) obtain s1 where s1: "process_one s = Some s1" "process_loop s1 = Some s'"
    by (subst (asm) process_loop.simps) (auto split: bind_splits)
  from process_one_step [OF Cons.prems(1) Cons.hyps(2) [symmetric] s1(1)] obtain st where
    st: "host_ok (hs_if s1)" "hi_sq (hs_if s1) = cs" "hi_config (hs_if s1) = hi_config (hs_if s)"
      "answered (hs_if s1) = answered (hs_if s) + 1"
      "cq_contents (hs_if s1) = take (hc_queue_size (hi_config (hs_if s))) (cq_contents (hs_if s) @ [(cmd_cid c, st)])"
    by blast
  from Cons.hyps(1) [OF st(2) [symmetric] st(1) s1(2)] obtain sts where
    sts: "length sts = length cs" "host_ok (hs_if s')" "hi_sq (hs_if s') = []"
      "answered (hs_if s') = answered (hs_if s1) + of_nat (length cs)"
      "cq_contents (hs_if s') = take (hc_queue_size (hi_config (hs_if s))) (cq_contents (hs_if s1) @ zip (map cmd_cid cs) sts)"
    by (auto simp: st(2,3))
  have "cq_contents (hs_if s') = take (hc_queue_size (hi_config (hs_if s)))
      ((cq_contents (hs_if s) @ [(cmd_cid c, st)]) @ zip (map cmd_cid cs) sts)"
    unfolding sts(5) st(5) by (rule take_take_append)
  then show ?case
    using sts st(4) by (intro exI [of _ "st # sts"]) (simp flip: Cons.hyps(2))
qed

text \<open>C17: processing answers every submitted command in the order of submission and empties the submission
  queue; the completions appear behind those that the host has not yet taken, as far as the
  completion queue has room.  Those beyond it are lost, although they are counted as answered.\<close>

theorem processing_answers_in_order:
  assumes "host_ok (hs_if s)" "host_if_process s = Some (ret, s')"
  shows "ret = RET_OK \<and> host_ok (hs_if s') \<and> hi_sq (hs_if s') = [] \<and>
     answered (hs_if s') = answered (hs_if s) + of_nat (length (hi_sq (hs_if s))) \<and>
     (\<exists>sts. length sts = length (hi_sq (hs_if s)) \<and>
        cq_contents (hs_if s') = take (hc_queue_size (hi_config (hs_if s)))
          (cq_contents (hs_if s) @ zip (map cmd_cid (hi_sq (hs_if s))) sts))"
proof -
  from assms have "process_loop s = Some s'" "ret = RET_OK"
    by (auto simp: host_if_process_def host_ok_def split: if_splits bind_splits)
  with process_loop_completes [OF assms(1)] show ?thesis by blast
qed

text \<open>Polling takes the completions one by one from the front.\<close>

theorem poll_takes_oldest:
  assumes "host_ok (hs_if s)"
  shows "\<exists>cqe s'. host_if_poll_cq True s =
       Some (if cq_contents (hs_if s) = [] then RET_ERR_BUSY else RET_OK, cqe, s') \<and>
     (case cq_contents (hs_if s) of
        [] \<Rightarrow> cqe = None \<and> s' = s
      | x # xs \<Rightarrow> map_option cqe_obs cqe = Some x \<and> cq_contents (hs_if s') = xs \<and> host_ok (hs_if s'))"
proof (cases "hi_cq_count (hs_if s) = 0")
  case True
  then have "cq_contents (hs_if s) = []" by (metis length_cq_contents length_0_conv)
  with True assms show ?thesis by (simp add: host_if_poll_cq_def host_ok_def)
next
  case False
  have ok: "cq_ok (hs_if s)" "hi_is_initialized (hs_if s)" using assms by (simp_all add: host_ok_def)
  define h' where "h' = (hs_if s)\<lparr>hi_cq_head := (hi_cq_head (hs_if s) + 1) mod hc_queue_size (hi_config (hs_if s)),
      hi_cq_count := hi_cq_count (hs_if s) - 1\<rparr>"
  from cq_take_first [OF ok(1) False, folded h'_def] obtain buf e where
    b: "cq_ok h'" "hi_cq_buf (hs_if s) = Some buf" "hi_cq_head (hs_if s) < length buf" "buf ! hi_cq_head (hs_if s) = Some e"
      "cq_entries (hs_if s) = e # cq_entries h'"
    by blast
  have "host_if_poll_cq True s = Some (RET_OK, Some e, s\<lparr>hs_if := h'\<rparr>)"
    using b False ok by (simp add: host_if_poll_cq_def upd_if_def h'_def)
  moreover have "host_ok h'" using assms b(1) by (simp add: host_ok_def sq_ok_def h'_def)
  ultimately show ?thesis using b(5) by (simp add: cq_contents_def)
qed

text \<open>An initialised module with room for two completions and three commands to process.\<close>

definition example_cmd :: nvme_cmd where
  "example_cmd = \<lparr>cmd_opcode = NVME_CMD_FLUSH, cmd_nsid = 1, cmd_slba = 0, cmd_nlb = 0, cmd_cid = 7, cmd_fua = 0,
     cmd_lr = 0, cmd_data_buf = None, cmd_data_len = 0, cmd_is_admin = False\<rparr>"

definition example_host :: "nat \<Rightarrow> nvme_cmd list \<Rightarrow> ftl_dev \<Rightarrow> host_sys" where
  "example_host n cs f =
     \<lparr>hs_if = (blank_host_if \<lparr>hc_queue_size = n, hc_max_cmd = 0, hc_lba_size = 4096, hc_total_lbas = 0, hc_is_nvm = True\<rparr>)
        \<lparr>hi_sq := cs, hi_sq_count := length cs, hi_cq_buf := Some (replicate n None), hi_phase_tag := 1,
         hi_is_initialized := True\<rparr>,
      hs_ftl = f, hs_mq = \<lparr>mq_heap = Map.empty, mq_brk = 0, mq_malloc_fails = (\<lambda>_. False), mq_queues = (\<lambda>_. \<lparr>q_head = None,
        q_tail = None, q_count = 0, q_max_size = 0, q_is_initialized = False\<rparr>), mq_msg_id_counter = 0, mq_clock = 0\<rparr>,
      hs_mem = of_nat, hs_timestamp = 5, hs_cid_counter = 0, hs_malloc_count = 0,
      hs_malloc_fails = (\<lambda>_. False)\<rparr>"

lemma example_host_facts:
  "0 < n \<Longrightarrow> host_ok (hs_if (example_host n cs f))" "hi_sq (hs_if (example_host n cs f)) = cs"
  "hs_ftl (example_host n cs f) = f" "hs_mem (example_host n cs f) = of_nat"
  "cq_contents (hs_if (example_host n cs f)) = []" "hc_queue_size (hi_config (hs_if (example_host n cs f))) = n"
  "pf_latency_count (hi_perf (hs_if (example_host n cs f))) = 0"
  by (simp_all add: example_host_def blank_host_if_def zero_perf_def host_ok_def sq_ok_def cq_ok_def cq_contents_def
      cq_entries_def ring_slot_def)

lemma process_one_flush:
  assumes ok: "host_ok (hs_if s)" and sq: "hi_sq (hs_if s) = c # cs" and c: "\<not> cmd_is_admin c" "cmd_opcode c = NVME_CMD_FLUSH"
    and lat: "pf_latency_count (hi_perf (hs_if s)) + 1 \<noteq> 0"
  obtains s' where "process_one s = Some s'" "host_ok (hs_if s')" "hi_sq (hs_if s') = cs"
    "hi_config (hs_if s') = hi_config (hs_if s)"
    "cq_contents (hs_if s') = take (hc_queue_size (hi_config (hs_if s))) (cq_contents (hs_if s) @ [(cmd_cid c, NVME_STATUS_SUCCESS)])"
proof -
  have e: "host_if_execute c (popped s) = Some (NVME_STATUS_SUCCESS, False, popped s)"
    using c by (simp add: host_if_execute_def)
  from process_one_defined [OF ok sq e lat] obtain s' where s': "process_one s = Some s'" ..
  from process_one_step [OF ok sq s'] e show thesis by (auto intro: that [OF s'])
qed

lemma process_loop_one: "host_ok (hs_if s) \<Longrightarrow> hi_sq (hs_if s) = [c] \<Longrightarrow> process_one s = Some s' \<Longrightarrow> host_ok (hs_if s') \<Longrightarrow>
    hi_sq (hs_if s') = [] \<Longrightarrow> process_loop s = Some s'"
  by (simp add: process_loop.simps [of s] process_loop.simps [of s'] host_ok_def sq_ok_def)

lemma processing_answers_in_order_witness:
  "\<exists>ret s'. host_if_process (example_host 2 [example_cmd] example_ftl) = Some (ret, s') \<and> ret = RET_OK \<and>
     hi_sq (hs_if s') = [] \<and> map fst (cq_contents (hs_if s')) = [7]"
proof -
  let ?s = "example_host 2 [example_cmd] example_ftl"
  have ok: "host_ok (hs_if ?s)" by (simp add: example_host_facts)
  obtain s' where s': "process_one ?s = Some s'" "host_ok (hs_if s')" "hi_sq (hs_if s') = []"
    by (rule process_one_flush [OF ok, of example_cmd "[]"]) (simp_all add: example_host_facts example_cmd_def)
  then have p: "host_if_process ?s = Some (RET_OK, s')"
    using ok process_loop_one [OF ok _ s'] by (simp add: host_if_process_def host_ok_def example_host_facts)
  from processing_answers_in_order [OF ok p] p show ?thesis
    by (auto simp: example_host_facts example_cmd_def length_Suc_conv)
qed

lemma poll_takes_oldest_witness:
  "host_if_poll_cq True (example_host 2 [] example_ftl) = Some (RET_ERR_BUSY, None, example_host 2 [] example_ftl)"
  using poll_takes_oldest [of "example_host 2 [] example_ftl"] by (auto simp: example_host_facts)

end
