(* ===== verification/HostFlow.thy ===== *)
theory HostFlow
  imports HostQueue
begin

text \<open>
  The host interface over the FTL: what a write followed by a read does with host memory, and the
  administrative commands that answer with a structure or a feature value.
\<close>

section \<open>Data through the interface\<close>

text \<open>Page \<open>i\<close> of a buffer, and the pages a write command stores.\<close>

definition host_page :: "(nat \<Rightarrow> u8) \<Rightarrow> nat \<Rightarrow> nat \<Rightarrow> u8 list" where
  "host_page m a i = mem_read m (a + i * NAND_PAGE_SIZE) NAND_PAGE_SIZE"

definition cmd_writes :: "nvme_cmd \<Rightarrow> (nat \<Rightarrow> u8) \<Rightarrow> nat \<Rightarrow> (nat \<times> u8 list) list" where
  "cmd_writes c m a = map (\<lambda>i. (cmd_lpn c + i, host_page m a i)) [0..<cmd_count c]"

lemma page_offset_small: "i < FTL_TOTAL_LPNS \<Longrightarrow> page_offset i = i * NAND_PAGE_SIZE"
  by (simp add: page_offset_def ftl_bounds NAND_PAGE_SIZE_def)

lemma length_host_page [simp]: "length (host_page m a i) = NAND_PAGE_SIZE"
  by (simp add: host_page_def)

lemma write_loop_ok:
  assumes "cmd_data_buf c = Some a" "\<And>i. i \<in> set is \<Longrightarrow> cmd_lpn c + i < FTL_TOTAL_LPNS"
    and "write_all ftl_wr (hs_ftl s) (map (\<lambda>i. (cmd_lpn c + i, host_page (hs_mem s) a i)) is) = Some f"
  shows "for_each is (write_page_body (cmd_page c) c) s = Some (Next (s\<lparr>hs_ftl := f\<rparr>))"
  using assms(2,3)
proof (induction "is" arbitrary: s)
  case (Cons i "is")
  have i: "i < FTL_TOTAL_LPNS" "cmd_lpn c + i < FTL_TOTAL_LPNS" using Cons.prems(1) [of i] by simp_all
  then have add: "u32_add (cmd_lpn c) i = cmd_lpn c + i" by (simp add: u32_add_small ftl_bounds)
  have page: "cmd_page c s i = Some (host_page (hs_mem s) a i)"
    by (simp add: cmd_page_def assms(1) page_offset_small [OF i(1)] host_page_def)
  from Cons.prems(2) obtain f1 where f1: "ftl_wr (hs_ftl s) (cmd_lpn c + i) (host_page (hs_mem s) a i) = Some f1"
    "write_all ftl_wr f1 (map (\<lambda>i. (cmd_lpn c + i, host_page (hs_mem s) a i)) is) = Some f" by (auto split: bind_splits)
  from f1(1) have "ftl_write (hs_ftl s) (cmd_lpn c + i) (Some (host_page (hs_mem s) a i)) = Some (RET_OK, f1)"
    by (auto simp: ftl_wr_def split: if_splits option.splits)
  then have "write_page_body (cmd_page c) c i s = Some (Next (s\<lparr>hs_ftl := f1\<rparr>))"
    by (simp add: write_page_body_def page add)
  with Cons.IH [of "s\<lparr>hs_ftl := f1\<rparr>"] Cons.prems(1) f1(2) show ?case by simp
qed simp

lemma cmd_count_range: "i < cmd_count c \<Longrightarrow> cmd_lpn c + cmd_count c \<le> n \<Longrightarrow> cmd_lpn c + i < n"
  by simp

lemma process_write_cmd_stores:
  assumes "cmd_data_buf c = Some a" "cmd_lpn c + cmd_count c \<le> FTL_TOTAL_LPNS"
    and "write_all ftl_wr (hs_ftl s) (cmd_writes c (hs_mem s) a) = Some f"
  obtains s' where "process_write_cmd c s = Some (NVME_STATUS_SUCCESS, s')" "hs_ftl s' = f" "hs_mem s' = hs_mem s"
proof -
  have "for_each [0..<cmd_count c] (write_page_body (cmd_page c) c) s = Some (Next (s\<lparr>hs_ftl := f\<rparr>))"
    by (rule write_loop_ok [OF assms(1)]) (use assms(2,3) in \<open>simp_all add: cmd_writes_def\<close>)
  with that show thesis by (simp add: process_write_cmd_def write_pages_def upd_stats_def upd_if_def)
qed

lemma written_pages:
  assumes "ftl_ready s" "write_all ftl_wr s (cmd_writes c m a) = Some f" "i < cmd_count c"
  shows "logical f (cmd_lpn c + i) = Some (host_page m a i)"
  using range_written [OF assms(1) assms(2) [unfolded cmd_writes_def] assms(3)] .

lemma host_page_other:
  assumes "length bs = NAND_PAGE_SIZE" "i \<noteq> k"
  shows "host_page (mem_write m (b + k * NAND_PAGE_SIZE) bs) b i = host_page m b i"
proof -
  from assms(2) consider "Suc i \<le> k" | "Suc k \<le> i" by linarith
  then have "i * NAND_PAGE_SIZE + NAND_PAGE_SIZE \<le> k * NAND_PAGE_SIZE \<or> k * NAND_PAGE_SIZE + NAND_PAGE_SIZE \<le> i * NAND_PAGE_SIZE"
    by (metis add.commute mult_Suc mult_le_mono1)
  then show ?thesis unfolding host_page_def by (intro mem_read_write_disjoint) (auto simp: assms(1))
qed

lemma read_loop_ok:
  assumes buf: "cmd_data_buf c = Some b" and inv: "ftl_inv (hs_ftl s)" and n: "cmd_lpn c + n \<le> FTL_TOTAL_LPNS"
    and P: "\<And>i. i < n \<Longrightarrow> logical (hs_ftl s) (cmd_lpn c + i) = Some (P i) \<and> length (P i) = NAND_PAGE_SIZE"
  shows "\<exists>s'. for_each [0..<n] (read_page_body c) s = Some (Next s') \<and> ftl_inv (hs_ftl s') \<and>
     logical (hs_ftl s') = logical (hs_ftl s) \<and> (\<forall>i<n. host_page (hs_mem s') b i = P i)"
  using n P
proof (induction n)
  case 0
  with inv show ?case by simp
next
  case (Suc n)
  then obtain s1 where s1: "for_each [0..<n] (read_page_body c) s = Some (Next s1)" "ftl_inv (hs_ftl s1)"
    "logical (hs_ftl s1) = logical (hs_ftl s)" "\<forall>i<n. host_page (hs_mem s1) b i = P i" by auto
  have lpn: "cmd_lpn c + n < FTL_TOTAL_LPNS" "n < FTL_TOTAL_LPNS" using Suc.prems(1) by simp_all
  then have add: "u32_add (cmd_lpn c) n = cmd_lpn c + n" by (simp add: u32_add_small ftl_bounds)
  have Pn: "logical (hs_ftl s) (cmd_lpn c + n) = Some (P n)" "length (P n) = NAND_PAGE_SIZE" using Suc.prems(2) [of n] by simp_all
  obtain f where f: "ftl_read (hs_ftl s1) (cmd_lpn c + n) True = (RET_OK, Some (P n), f)" "ftl_inv f" "logical f = logical (hs_ftl s1)"
    using ftl_read_facts [OF s1(2) lpn(1)] Pn s1(3) by (auto split: prod.splits)
  define s2 where "s2 = store (b + n * NAND_PAGE_SIZE) (P n) (s1\<lparr>hs_ftl := f\<rparr>)"
  have "read_page_body c n s1 = Some (Next s2)"
    by (simp add: read_page_body_def add buf f(1) page_offset_small [OF lpn(2)] s2_def)
  with s1(1) have "for_each [0..<Suc n] (read_page_body c) s = Some (Next s2)" by (simp add: for_each_append)
  moreover have "host_page (hs_mem s2) b i = P i" if "i < Suc n" for i
  proof (cases "i = n")
    case True
    then show ?thesis using Pn(2) by (simp add: s2_def store_def host_page_def mem_read_write_same)
  next
    case False
    then show ?thesis using that s1(4) Pn(2) by (simp add: s2_def store_def host_page_other)
  qed
  ultimately show ?case using f s1(3) by (auto simp: s2_def store_def)
qed

lemma process_read_cmd_fills:
  assumes "cmd_data_buf c = Some b" "ftl_inv (hs_ftl s)" "cmd_lpn c + cmd_count c \<le> FTL_TOTAL_LPNS"
    and "\<And>i. i < cmd_count c \<Longrightarrow> logical (hs_ftl s) (cmd_lpn c + i) = Some (P i) \<and> length (P i) = NAND_PAGE_SIZE"
  obtains s' where "process_read_cmd c s = Some (NVME_STATUS_SUCCESS, s')" "\<forall>i<cmd_count c. host_page (hs_mem s') b i = P i"
    "ftl_inv (hs_ftl s')" "logical (hs_ftl s') = logical (hs_ftl s)"
proof -
  from read_loop_ok [OF assms] obtain s' where "for_each [0..<cmd_count c] (read_page_body c) s = Some (Next s')"
    "\<forall>i<cmd_count c. host_page (hs_mem s') b i = P i" "ftl_inv (hs_ftl s')" "logical (hs_ftl s') = logical (hs_ftl s)" by blast
  with that show thesis by (simp add: process_read_cmd_def upd_stats_def upd_if_def)
qed

section \<open>A write followed by a read\<close>

lemma process_one_write:
  assumes ok: "host_ok (hs_if s)" and sq: "hi_sq (hs_if s) = c # cs" and op: "\<not> cmd_is_admin c" "cmd_opcode c = NVME_CMD_WRITE"
    and buf: "cmd_data_buf c = Some a" and n: "cmd_lpn c + cmd_count c \<le> FTL_TOTAL_LPNS"
    and w: "write_all ftl_wr (hs_ftl s) (cmd_writes c (hs_mem s) a) = Some f"
    and lat: "pf_latency_count (hi_perf (hs_if s)) + 1 \<noteq> 0"
  obtains s' where "process_one s = Some s'" "hs_ftl s' = f" "hs_mem s' = hs_mem s" "host_ok (hs_if s')" "hi_sq (hs_if s') = cs"
    "hi_config (hs_if s') = hi_config (hs_if s)"
    "pf_latency_count (hi_perf (hs_if s')) \<in> {pf_latency_count (hi_perf (hs_if s)), pf_latency_count (hi_perf (hs_if s)) + 1}"
    "cq_contents (hs_if s') = take (hc_queue_size (hi_config (hs_if s))) (cq_contents (hs_if s) @ [(cmd_cid c, NVME_STATUS_SUCCESS)])"
proof -
  note pf = popped_facts [OF ok sq]
  obtain t where t: "process_write_cmd c (popped s) = Some (NVME_STATUS_SUCCESS, t)" "hs_ftl t = f" "hs_mem t = hs_mem (popped s)"
    by (rule process_write_cmd_stores [OF buf n, of "popped s" f]) (use w in \<open>simp_all add: pf\<close>)
  then have e: "host_if_execute c (popped s) = Some (NVME_STATUS_SUCCESS, False, t)"
    using op by (simp add: host_if_execute_def)
  from process_one_defined [OF ok sq e lat] obtain s' where s': "process_one s = Some s'" ..
  from process_one_step [OF ok sq s'] e t pf show thesis by (auto intro: that [OF s'])
qed

lemma process_one_read:
  assumes ok: "host_ok (hs_if s)" and sq: "hi_sq (hs_if s) = c # cs" and op: "\<not> cmd_is_admin c" "cmd_opcode c = NVME_CMD_READ"
    and buf: "cmd_data_buf c = Some b" and n: "cmd_lpn c + cmd_count c \<le> FTL_TOTAL_LPNS" and inv: "ftl_inv (hs_ftl s)"
    and P: "\<And>i. i < cmd_count c \<Longrightarrow> logical (hs_ftl s) (cmd_lpn c + i) = Some (P i) \<and> length (P i) = NAND_PAGE_SIZE"
    and lat: "pf_latency_count (hi_perf (hs_if s)) + 1 \<noteq> 0"
  obtains s' where "process_one s = Some s'" "host_ok (hs_if s')" "hi_sq (hs_if s') = cs"
    "\<forall>i<cmd_count c. host_page (hs_mem s') b i = P i" "logical (hs_ftl s') = logical (hs_ftl s)"
    "cq_contents (hs_if s') = take (hc_queue_size (hi_config (hs_if s))) (cq_contents (hs_if s) @ [(cmd_cid c, NVME_STATUS_SUCCESS)])"
proof -
  note pf = popped_facts [OF ok sq]
  obtain t where t: "process_read_cmd c (popped s) = Some (NVME_STATUS_SUCCESS, t)"
    "\<forall>i<cmd_count c. host_page (hs_mem t) b i = P i" "logical (hs_ftl t) = logical (hs_ftl (popped s))"
    by (rule process_read_cmd_fills [OF buf _ n, of "popped s" P]) (use P inv in \<open>simp_all add: pf\<close>)
  then have e: "host_if_execute c (popped s) = Some (NVME_STATUS_SUCCESS, True, t)"
    using op by (simp add: host_if_execute_def)
  from process_one_defined [OF ok sq e lat] obtain s' where s': "process_one s = Some s'" ..
  from process_one_step [OF ok sq s'] e t pf show thesis by (auto intro: that [OF s'])
qed

text \<open>C2: a write and a read of the same pages, processed one after the other, copy the write's buffer as it was
  before into the read's buffer, through the FTL and the flash; both are answered with success.  The
  buffers may overlap.\<close>

theorem host_write_then_read:
  assumes "host_ok (hs_if s)" "hi_sq (hs_if s) = [w, r]"
    and "\<not> cmd_is_admin w" "cmd_opcode w = NVME_CMD_WRITE" "cmd_data_buf w = Some a"
    and "\<not> cmd_is_admin r" "cmd_opcode r = NVME_CMD_READ" "cmd_data_buf r = Some b"
    and "cmd_slba r = cmd_slba w" "cmd_nlb r = cmd_nlb w" "cmd_lpn w + cmd_count w \<le> FTL_TOTAL_LPNS"
    and "ftl_ready (hs_ftl s)" "write_all ftl_wr (hs_ftl s) (cmd_writes w (hs_mem s) a) = Some f"
    and "pf_latency_count (hi_perf (hs_if s)) < 0xFFFFFFFFFFFFFFFE"
  shows "\<exists>s'. host_if_process s = Some (RET_OK, s') \<and>
     (\<forall>i<cmd_count w. host_page (hs_mem s') b i = host_page (hs_mem s) a i) \<and>
     cq_contents (hs_if s') = take (hc_queue_size (hi_config (hs_if s)))
       (cq_contents (hs_if s) @ [(cmd_cid w, NVME_STATUS_SUCCESS), (cmd_cid r, NVME_STATUS_SUCCESS)])"
proof -
  let ?l = "\<lambda>s. pf_latency_count (hi_perf (hs_if s))"
  have nowrap: "x + 1 \<noteq> 0 \<and> x + 1 + 1 \<noteq> 0" if "x < 0xFFFFFFFFFFFFFFFE" for x :: u64
  proof -
    have "unat x < 18446744073709551614" using that by (simp add: word_less_nat_alt)
    then show ?thesis by (auto simp: unat_word_ariths dest!: arg_cong [where f = unat])
  qed
  from process_one_write [OF assms(1,2,3,4,5,11,13)] nowrap [OF assms(14)] obtain s1 where s1: "process_one s = Some s1"
    "hs_ftl s1 = f" "host_ok (hs_if s1)" "hi_sq (hs_if s1) = [r]" "hi_config (hs_if s1) = hi_config (hs_if s)"
    "?l s1 \<in> {?l s, ?l s + 1}"
    "cq_contents (hs_if s1) = take (hc_queue_size (hi_config (hs_if s))) (cq_contents (hs_if s) @ [(cmd_cid w, NVME_STATUS_SUCCESS)])"
    by blast
  have same: "cmd_lpn r = cmd_lpn w" "cmd_count r = cmd_count w" using assms(9,10) by (simp_all add: cmd_lpn_def cmd_count_def)
  have lat: "?l s1 + 1 \<noteq> 0" using s1(6) nowrap [OF assms(14)] by auto
  have inv: "ftl_inv (hs_ftl s1)" using host.write_all_ok [OF assms(12,13)] by (simp add: s1(2) ftl_ready_def)
  have P: "logical (hs_ftl s1) (cmd_lpn r + i) = Some (host_page (hs_mem s) a i) \<and> length (host_page (hs_mem s) a i) = NAND_PAGE_SIZE"
    if "i < cmd_count r" for i
    using written_pages [OF assms(12,13), of i] that by (simp add: s1(2) same)
  from assms(11) have n: "cmd_lpn r + cmd_count r \<le> FTL_TOTAL_LPNS" by (simp add: same)
  from process_one_read [OF s1(3,4) assms(6-8) n inv P lat] obtain s2 where s2: "process_one s1 = Some s2" "host_ok (hs_if s2)"
    "hi_sq (hs_if s2) = []" "\<forall>i<cmd_count r. host_page (hs_mem s2) b i = host_page (hs_mem s) a i"
    "cq_contents (hs_if s2) = take (hc_queue_size (hi_config (hs_if s1))) (cq_contents (hs_if s1) @ [(cmd_cid r, NVME_STATUS_SUCCESS)])"
    by blast
  have "process_loop s1 = Some s2" by (rule process_loop_one [OF s1(3,4) s2(1-3)])
  then have "host_if_process s = Some (RET_OK, s2)"
    using assms(1,2) s1(1) by (simp add: host_if_process_def host_ok_def sq_ok_def process_loop.simps [of s])
  moreover have "cq_contents (hs_if s2) = take (hc_queue_size (hi_config (hs_if s)))
       ((cq_contents (hs_if s) @ [(cmd_cid w, NVME_STATUS_SUCCESS)]) @ [(cmd_cid r, NVME_STATUS_SUCCESS)])"
    unfolding s2(5) s1(5,7) by (rule take_take_append)
  ultimately show ?thesis using s2(4) by (auto simp: same)
qed

lemma host_write_then_read_witness:
  "\<exists>s'. host_if_process (example_host 4 [example_cmd\<lparr>cmd_opcode := 1, cmd_data_buf := Some 100\<rparr>,
        example_cmd\<lparr>cmd_opcode := 2, cmd_cid := 8, cmd_data_buf := Some 9000\<rparr>] example_ftl) = Some (RET_OK, s') \<and>
     host_page (hs_mem s') 9000 0 = host_page of_nat 100 0 \<and>
     cq_contents (hs_if s') = [(7, NVME_STATUS_SUCCESS), (8, NVME_STATUS_SUCCESS)]"
proof -
  let ?w = "example_cmd\<lparr>cmd_opcode := 1, cmd_data_buf := Some 100\<rparr>"
    and ?r = "example_cmd\<lparr>cmd_opcode := 2, cmd_cid := 8, cmd_data_buf := Some 9000\<rparr>"
  let ?s = "example_host 4 [?w, ?r] example_ftl"
  have c: "cmd_lpn ?w = 0" "cmd_count ?w = 1" by (simp_all add: cmd_lpn_def cmd_count_def example_cmd_def)
  have "0 < FTL_TOTAL_LPNS" by (simp add: ftl_bounds)
  then obtain f where f: "ftl_wr example_ftl 0 (host_page of_nat 100 0) = Some f"
    by (rule example_ftl_write [OF _ length_host_page])
  moreover have "cmd_writes ?w of_nat 100 = [(0, host_page of_nat 100 0)]" unfolding cmd_writes_def c by simp
  ultimately have "write_all ftl_wr (hs_ftl ?s) (cmd_writes ?w (hs_mem ?s) 100) = Some f" by (simp add: example_host_facts)
  from host_write_then_read [OF _ _ _ _ _ _ _ _ _ _ _ _ this, of ?r 9000] example_ftl_facts(1) show ?thesis
    by (simp add: example_host_facts c ftl_bounds del: One_nat_def) (simp add: example_cmd_def)
qed

section \<open>Identify and features\<close>

lemma put_bytes_image:
  assumes "length img = n" "off + length bs \<le> k" "k \<le> n"
  shows "length (put_bytes (off, bs) img) = n" "drop k (put_bytes (off, bs) img) = drop k img"
  using assms by (simp_all add: put_bytes_def)

text \<open>An image has the size of its structure, and is zero behind its last field.\<close>

lemma struct_image_facts:
  assumes "\<forall>(off, bs) \<in> set fs. off + length bs \<le> k" "k \<le> n"
  shows "length (struct_image n fs) = n \<and> drop k (struct_image n fs) = replicate (n - k) 0"
  using assms(1)
proof (induction fs rule: rev_induct)
  case Nil
  then show ?case by (simp add: struct_image_def)
next
  case (snoc f fs)
  obtain off bs where f: "f = (off, bs)" by (cases f)
  with snoc put_bytes_image [of "struct_image n fs" n off bs k] assms(2) show ?case
    by (simp add: struct_image_def)
qed

lemma length_bytes_of [simp]: "length (le16 w) = 2" "length (le64 v) = 8" "length (ascii cs) = length cs"
  by (simp_all add: le16_def le64_def ascii_def)

lemma id_ns_image:
  "length (struct_image NVME_ID_NS_SIZE id_ns_fields) = 4288"
  "drop 4096 (struct_image NVME_ID_NS_SIZE id_ns_fields) = replicate 192 0"
  using struct_image_facts [of id_ns_fields 4096 NVME_ID_NS_SIZE]
  by (simp_all add: id_ns_fields_def NVME_ID_NS_SIZE_def del: upt_Suc)

lemma host_if_init_identify:
  assumes "host_if_init (Some c) s = (RET_OK, s')"
  shows "hi_id_ns (hs_if s') = struct_image NVME_ID_NS_SIZE id_ns_fields" "hi_is_initialized (hs_if s')"
    "hi_feature (hs_if s') = default_feature"
  using assms
  by (auto simp: host_if_init_def Let_def host_if_fill_id_ns_def split: if_splits prod.splits)

text \<open>The namespace structure is 4288 bytes long; Identify Namespace checks for a buffer of 4096 bytes
  and copies all of the structure, so it zeroes the 192 bytes behind a buffer of the checked size.\<close>

theorem identify_namespace_overruns:
  assumes "host_if_init (Some config) s = (RET_OK, s1)"
    and "low_byte (cmd_nsid c) = 0" "cmd_data_buf c = Some a" "cmd_data_len c = 4096"
  shows "\<exists>s2. host_if_process_identify c s1 = (NVME_STATUS_SUCCESS, s2) \<and> (\<forall>j<192. hs_mem s2 (a + 4096 + j) = 0)"
proof -
  note i = id_ns_image
  have "struct_image NVME_ID_NS_SIZE id_ns_fields ! (4096 + j) = 0" if "j < 192" for j
  proof -
    have "drop 4096 (struct_image NVME_ID_NS_SIZE id_ns_fields) ! j = 0" using that by (simp add: i(2))
    then show ?thesis by (simp add: i(1))
  qed
  then show ?thesis
    using assms(2-4) host_if_init_identify(1) [OF assms(1)] i(1)
    by (simp add: host_if_process_identify_def store_def mem_write_def)
qed

text \<open>Get Feature writes to the buffer, if it has room for four bytes, the low 32 bits of the value that the
  last Set Feature of the same feature carried.\<close>

theorem feature_round_trip:
  assumes "low_byte (cmd_nsid g) = low_byte (cmd_nsid c)" "feature_of_id (low_byte (cmd_nsid c)) \<noteq> None"
    and "cmd_data_buf g = Some a" "4 \<le> cmd_data_len g"
  shows "\<exists>s1 s2. host_if_process_set_feature c s = (NVME_STATUS_SUCCESS, s1) \<and>
     host_if_process_get_feature g s1 = (NVME_STATUS_SUCCESS, s2) \<and>
     mem_read (hs_mem s2) a 4 = u32_bytes (ucast (cmd_slba c)) \<and>
     (\<forall>f. feature_of_id (low_byte (cmd_nsid c)) \<noteq> Some f \<longrightarrow> hi_feature (hs_if s2) f = hi_feature (hs_if s) f)"
proof -
  obtain f where f: "feature_of_id (low_byte (cmd_nsid c)) = Some f" using assms(2) by auto
  have low: "ucast (cmd_slba c AND 0xFFFFFFFF) = (ucast (cmd_slba c) :: u32)"
  proof -
    have m: "(0xFFFFFFFF :: u64) = mask 32" by (simp add: mask_eq_exp_minus_1)
    show ?thesis unfolding m by (rule bit_word_eqI) (simp add: bit_simps)
  qed
  show ?thesis
    using assms f
    by (simp add: host_if_process_set_feature_def host_if_process_get_feature_def upd_if_def store_def Let_def low
        mem_read_write_same)
qed

lemma identify_namespace_overruns_witness:
  "\<exists>s1 s2. host_if_init (Some \<lparr>hc_queue_size = 2, hc_max_cmd = 0, hc_lba_size = 4096, hc_total_lbas = 0, hc_is_nvm = True\<rparr>)
       (example_host 2 [] example_ftl) = (RET_OK, s1) \<and>
     host_if_process_identify (example_cmd\<lparr>cmd_nsid := 0, cmd_data_buf := Some 1000, cmd_data_len := 4096\<rparr>) s1
       = (NVME_STATUS_SUCCESS, s2) \<and>
     hs_mem s2 5096 = 0 \<and> hs_mem (example_host 2 [] example_ftl) 5096 = 232"
proof -
  let ?cfg = "\<lparr>hc_queue_size = 2, hc_max_cmd = 0, hc_lba_size = 4096, hc_total_lbas = 0, hc_is_nvm = True\<rparr>"
    and ?c = "example_cmd\<lparr>cmd_nsid := 0, cmd_data_buf := Some 1000, cmd_data_len := 4096\<rparr>"
  obtain s1 where s1: "host_if_init (Some ?cfg) (example_host 2 [] example_ftl) = (RET_OK, s1)"
    by (simp add: host_if_init_def host_malloc_def Let_def) (simp add: example_host_def)
  have "low_byte (cmd_nsid ?c) = 0" "cmd_data_buf ?c = Some 1000" "cmd_data_len ?c = 4096" by (simp_all add: low_byte_def)
  from identify_namespace_overruns [OF s1 this] obtain s2 where s2: "host_if_process_identify ?c s1 = (NVME_STATUS_SUCCESS, s2)"
    "\<forall>j<192. hs_mem s2 (1000 + 4096 + j) = 0" by blast
  from s2(2) [rule_format, of 0] s1 s2(1) show ?thesis by (auto simp: example_host_facts)
qed

lemma feature_round_trip_witness:
  "\<exists>s1 s2. host_if_process_set_feature (example_cmd\<lparr>cmd_nsid := 4, cmd_slba := 300\<rparr>) (example_host 2 [] example_ftl) = (NVME_STATUS_SUCCESS, s1) \<and>
     host_if_process_get_feature (example_cmd\<lparr>cmd_nsid := 4, cmd_data_buf := Some 60, cmd_data_len := 4\<rparr>) s1 = (NVME_STATUS_SUCCESS, s2) \<and>
     mem_read (hs_mem s2) 60 4 = [44, 1, 0, 0]"
proof -
  let ?c = "example_cmd\<lparr>cmd_nsid := 4, cmd_slba := 300\<rparr>"
    and ?g = "example_cmd\<lparr>cmd_nsid := 4, cmd_data_buf := Some 60, cmd_data_len := 4\<rparr>"
  have "u32_bytes (ucast (300 :: u64)) = [44, 1, 0, 0]" by code_simp
  with feature_round_trip [of ?g ?c 60 "example_host 2 [] example_ftl"] show ?thesis
    by (auto simp: low_byte_def feature_of_id_def)
qed

end
