(* ===== verification/Dif.thy ===== *)
theory Dif
  imports Checksum
begin

text \<open>
  End-to-end data protection of \<open>modules/host_if/host_if.c\<close> and \<open>host_if.h\<close>: protection
  information of eight bytes for each logical block, with a checksum, an application tag and a
  reference tag, generated on the way in and verified on the way out.
\<close>

section \<open>Data\<close>

datatype dif_type = DIF_TYPE_DISABLED | DIF_TYPE1 | DIF_TYPE2 | DIF_TYPE3

record dif_protection =
  pi_crc :: u16
  pi_app_tag :: u16
  pi_ref_tag :: u32

record dif_config =
  dc_type :: dif_type
  dc_guard_check_enable :: bool
  dc_app_tag_check_enable :: bool
  dc_ref_tag_check_enable :: bool
  dc_app_tag :: u16
  dc_app_tag_mask :: u16

record dif_stats =
  ds_crc_errors :: u64
  ds_app_tag_errors :: u64
  ds_ref_tag_errors :: u64
  ds_total_checks :: u64

record dif_state =
  dif_config_of :: dif_config
  dif_stats_of :: dif_stats
  dif_is_initialized :: bool

section \<open>The checksum\<close>

definition crc16_t10pi_table :: "u16 list" where
  "crc16_t10pi_table =
  [0x0000, 0x8BB7, 0x9CD9, 0x176E, 0xB205, 0x39B2, 0x2EDC, 0xA56B,
   0xEFBD, 0x640A, 0x7364, 0xF8D3, 0x5DB8, 0xD60F, 0xC161, 0x4AD6,
   0x54CD, 0xDF7A, 0xC814, 0x43A3, 0xE6C8, 0x6D7F, 0x7A11, 0xF1A6,
   0xBB70, 0x30C7, 0x27A9, 0xAC1E, 0x0975, 0x82C2, 0x95AC, 0x1E1B,
   0xA99A, 0x222D, 0x3543, 0xBEF4, 0x1B9F, 0x9028, 0x8746, 0x0CF1,
   0x4627, 0xCD90, 0xDAFE, 0x5149, 0xF422, 0x7F95, 0x68FB, 0xE34C,
   0xFD57, 0x76E0, 0x618E, 0xEA39, 0x4F52, 0xC4E5, 0xD38B, 0x583C,
   0x12EA, 0x995D, 0x8E33, 0x0584, 0xA0EF, 0x2B58, 0x3C36, 0xB781,
   0x883D, 0x038A, 0x14E4, 0x9F53, 0x3A38, 0xB18F, 0xA6E1, 0x2D56,
   0x6780, 0xEC37, 0xFB59, 0x70EE, 0xD585, 0x5E32, 0x495C, 0xC2EB,
   0xDCF0, 0x5747, 0x4029, 0xCB9E, 0x6EF5, 0xE542, 0xF22C, 0x799B,
   0x334D, 0xB8FA, 0xAF94, 0x2423, 0x8148, 0x0AFF, 0x1D91, 0x9626,
   0x21A7, 0xAA10, 0xBD7E, 0x36C9, 0x93A2, 0x1815, 0x0F7B, 0x84CC,
   0xCE1A, 0x45AD, 0x52C3, 0xD974, 0x7C1F, 0xF7A8, 0xE0C6, 0x6B71,
   0x756A, 0xFEDD, 0xE9B3, 0x6204, 0xC76F, 0x4CD8, 0x5BB6, 0xD001,
   0x9AD7, 0x1160, 0x060E, 0x8DB9, 0x28D2, 0xA365, 0xB40B, 0x3FBC,
   0x1083, 0x9B34, 0x8C5A, 0x07ED, 0xA286, 0x2931, 0x3E5F, 0xB5E8,
   0xFF3E, 0x7489, 0x63E7, 0xE850, 0x4D3B, 0xC68C, 0xD1E2, 0x5A55,
   0x444E, 0xCFF9, 0xD897, 0x5320, 0xF64B, 0x7DFC, 0x6A92, 0xE125,
   0xABF3, 0x2044, 0x372A, 0xBC9D, 0x19F6, 0x9241, 0x852F, 0x0E98,
   0xB919, 0x32AE, 0x25C0, 0xAE77, 0x0B1C, 0x80AB, 0x97C5, 0x1C72,
   0x56A4, 0xDD13, 0xCA7D, 0x41CA, 0xE4A1, 0x6F16, 0x7878, 0xF3CF,
   0xEDD4, 0x6663, 0x710D, 0xFABA, 0x5FD1, 0xD466, 0xC308, 0x48BF,
   0x0269, 0x89DE, 0x9EB0, 0x1507, 0xB06C, 0x3BDB, 0x2CB5, 0xA702,
   0x98BE, 0x1309, 0x0467, 0x8FD0, 0x2ABB, 0xA10C, 0xB662, 0x3DD5,
   0x7703, 0xFCB4, 0xEBDA, 0x606D, 0xC506, 0x4EB1, 0x59DF, 0xD268,
   0xCC73, 0x47C4, 0x50AA, 0xDB1D, 0x7E76, 0xF5C1, 0xE2AF, 0x6918,
   0x23CE, 0xA879, 0xBF17, 0x34A0, 0x91CB, 0x1A7C, 0x0D12, 0x86A5,
   0x3124, 0xBA93, 0xADFD, 0x264A, 0x8321, 0x0896, 0x1FF8, 0x944F,
   0xDE99, 0x552E, 0x4240, 0xC9F7, 0x6C9C, 0xE72B, 0xF045, 0x7BF2,
   0x65E9, 0xEE5E, 0xF930, 0x7287, 0xD7EC, 0x5C5B, 0x4B35, 0xC082,
   0x8A54, 0x01E3, 0x168D, 0x9D3A, 0x3851, 0xB3E6, 0xA488, 0x2F3F]"

text \<open>One iteration of the loop over the bytes.\<close>

definition dif_crc16_step :: "u16 \<Rightarrow> u8 \<Rightarrow> u16" where
  "dif_crc16_step crc b =
     push_bit 8 crc XOR crc16_t10pi_table ! unat ((drop_bit 8 crc XOR ucast b) AND 0xFF)"

definition dif_crc16 :: "u8 list option \<Rightarrow> nat \<Rightarrow> u16" where
  "dif_crc16 data len =
     (case data of
        None \<Rightarrow> 0
      | Some d \<Rightarrow> if len = 0 then 0 else foldl dif_crc16_step 0xFFFF (take len d))"

section \<open>Set up and statistics\<close>

definition zero_dif_stats :: dif_stats where
  "zero_dif_stats = \<lparr>ds_crc_errors = 0, ds_app_tag_errors = 0, ds_ref_tag_errors = 0, ds_total_checks = 0\<rparr>"

definition dif_init :: "dif_state \<Rightarrow> dif_config option \<Rightarrow> ret_code \<times> dif_state" where
  "dif_init s config =
     (case config of
        None \<Rightarrow> (RET_ERR_PARAM, s)
      | Some c \<Rightarrow> (RET_OK, \<lparr>dif_config_of = c, dif_stats_of = zero_dif_stats, dif_is_initialized = True\<rparr>))"

definition dif_get_config :: "dif_state \<Rightarrow> bool \<Rightarrow> ret_code \<times> dif_config option" where
  "dif_get_config s has_out = (if \<not> has_out then (RET_ERR_PARAM, None) else (RET_OK, Some (dif_config_of s)))"

definition dif_get_stats :: "dif_state \<Rightarrow> bool \<Rightarrow> ret_code \<times> dif_stats option" where
  "dif_get_stats s has_out = (if \<not> has_out then (RET_ERR_PARAM, None) else (RET_OK, Some (dif_stats_of s)))"

definition dif_reset_stats :: "dif_state \<Rightarrow> ret_code \<times> dif_state" where
  "dif_reset_stats s = (RET_OK, s\<lparr>dif_stats_of := zero_dif_stats\<rparr>)"

section \<open>Generation and verification\<close>

text \<open>The number of blocks, and the part of the data that belongs to one of them: the last block takes the rest.\<close>

definition dif_lba_count :: "nat \<Rightarrow> nat" where
  "dif_lba_count data_len = (if data_len div NAND_PAGE_SIZE = 0 then 1 else data_len div NAND_PAGE_SIZE)"

definition dif_lba_len :: "nat \<Rightarrow> nat \<Rightarrow> nat" where
  "dif_lba_len data_len i =
     (if i = dif_lba_count data_len - 1 then data_len - i * NAND_PAGE_SIZE else NAND_PAGE_SIZE)"

text \<open>The bytes of a block; reading past the end of the buffer is undefined.\<close>

definition dif_lba_data :: "u8 list \<Rightarrow> nat \<Rightarrow> nat \<Rightarrow> u8 list option" where
  "dif_lba_data d data_len i =
     (if i * NAND_PAGE_SIZE + dif_lba_len data_len i \<le> length d
      then Some (take (dif_lba_len data_len i) (drop (i * NAND_PAGE_SIZE) d)) else None)"

definition dif_ref_tag :: "dif_type \<Rightarrow> u64 \<Rightarrow> nat \<Rightarrow> u32" where
  "dif_ref_tag type lba i = (case type of DIF_TYPE1 \<Rightarrow> ucast (lba + of_nat i) | _ \<Rightarrow> 0)"

text \<open>One block; a write past the end of the array of protection information is undefined.\<close>

definition dif_generate_block ::
    "dif_config \<Rightarrow> u8 list \<Rightarrow> nat \<Rightarrow> u64 \<Rightarrow> nat \<Rightarrow> dif_protection list \<Rightarrow> dif_protection list option" where
  "dif_generate_block c d data_len lba i protection =
     do {
       bs \<leftarrow> dif_lba_data d data_len i;
       if i < length protection
       then Some (protection[i := \<lparr>pi_crc = dif_crc16 (Some bs) (dif_lba_len data_len i),
              pi_app_tag = dc_app_tag c, pi_ref_tag = dif_ref_tag (dc_type c) lba i\<rparr>])
       else None
     }"

definition dif_generate ::
    "dif_state \<Rightarrow> u8 list option \<Rightarrow> nat \<Rightarrow> u64 \<Rightarrow> dif_protection list option \<Rightarrow>
     (ret_code \<times> dif_protection list option) option" where
  "dif_generate s data data_len lba protection =
     (case (data, protection) of
        (Some d, Some p) \<Rightarrow>
          if data_len = 0 then Some (RET_ERR_PARAM, protection)
          else if \<not> dif_is_initialized s then Some (RET_ERR_NOT_INIT, protection)
          else if dc_type (dif_config_of s) = DIF_TYPE_DISABLED then Some (RET_ERR_NOT_SUPPORT, protection)
          else do {
            p \<leftarrow> fold_option (dif_generate_block (dif_config_of s) d data_len lba) [0..<dif_lba_count data_len] p;
            Some (RET_OK, Some p)
          }
      | _ \<Rightarrow> Some (RET_ERR_PARAM, protection))"

text \<open>The checks on one block, in the order of the code.\<close>

definition count_dif_error :: "ret_code \<Rightarrow> dif_state \<Rightarrow> dif_state" where
  "count_dif_error ret s =
     s\<lparr>dif_stats_of := (case ret of
        RET_ERR_DIF_CRC \<Rightarrow> (dif_stats_of s)\<lparr>ds_crc_errors := ds_crc_errors (dif_stats_of s) + 1\<rparr>
      | RET_ERR_DIF_APP_TAG \<Rightarrow> (dif_stats_of s)\<lparr>ds_app_tag_errors := ds_app_tag_errors (dif_stats_of s) + 1\<rparr>
      | RET_ERR_DIF_REF_TAG \<Rightarrow> (dif_stats_of s)\<lparr>ds_ref_tag_errors := ds_ref_tag_errors (dif_stats_of s) + 1\<rparr>
      | _ \<Rightarrow> dif_stats_of s)\<rparr>"

definition dif_check_block ::
    "dif_config \<Rightarrow> u8 list \<Rightarrow> nat \<Rightarrow> u64 \<Rightarrow> nat \<Rightarrow> dif_protection \<Rightarrow> ret_code" where
  "dif_check_block c bs len lba i p =
     (if dc_guard_check_enable c \<and> dif_crc16 (Some bs) len \<noteq> pi_crc p then RET_ERR_DIF_CRC
      else if dc_app_tag_check_enable c \<and> pi_app_tag p AND dc_app_tag_mask c \<noteq> dc_app_tag c AND dc_app_tag_mask c
      then RET_ERR_DIF_APP_TAG
      else if dc_ref_tag_check_enable c \<and> dc_type c = DIF_TYPE1 \<and> pi_ref_tag p \<noteq> ucast (lba + of_nat i)
      then RET_ERR_DIF_REF_TAG
      else RET_OK)"

text \<open>Neither the data nor the protection information is read when no check needs it.\<close>

definition dif_reads_protection :: "dif_config \<Rightarrow> bool" where
  "dif_reads_protection c \<longleftrightarrow> dc_guard_check_enable c \<or> dc_app_tag_check_enable c \<or>
     (dc_ref_tag_check_enable c \<and> dc_type c = DIF_TYPE1)"

definition dif_verify_block ::
    "u8 list \<Rightarrow> nat \<Rightarrow> u64 \<Rightarrow> dif_protection list \<Rightarrow> nat \<Rightarrow> dif_state \<Rightarrow> (ret_code \<times> u64, dif_state) ctl option" where
  "dif_verify_block d data_len lba protection i s =
     do {
       let c = dif_config_of s;
       bs \<leftarrow> (if dc_guard_check_enable c then dif_lba_data d data_len i else Some []);
       if length protection \<le> i \<and> dif_reads_protection c then None
       else
         let ret = dif_check_block c bs (dif_lba_len data_len i) lba i (protection ! i) in
         if ret = RET_OK then Some (Next s)
         else Some (Leave (ret, lba + of_nat i) (count_dif_error ret s))
     }"

text \<open>The result carries the block number stored through \<open>error_lba\<close> when that pointer is not null.\<close>

definition dif_verify ::
    "dif_state \<Rightarrow> u8 list option \<Rightarrow> nat \<Rightarrow> u64 \<Rightarrow> dif_protection list option \<Rightarrow> bool \<Rightarrow>
     (ret_code \<times> u64 option \<times> dif_state) option" where
  "dif_verify s data data_len lba protection has_error_lba =
     (case (data, protection) of
        (Some d, Some p) \<Rightarrow>
          if data_len = 0 then Some (RET_ERR_PARAM, None, s)
          else if \<not> dif_is_initialized s then Some (RET_ERR_NOT_INIT, None, s)
          else if dc_type (dif_config_of s) = DIF_TYPE_DISABLED then Some (RET_ERR_NOT_SUPPORT, None, s)
          else do {
            let s = s\<lparr>dif_stats_of := (dif_stats_of s)\<lparr>ds_total_checks :=
                        ds_total_checks (dif_stats_of s) + of_nat (dif_lba_count data_len)\<rparr>\<rparr>;
            c \<leftarrow> for_each [0..<dif_lba_count data_len] (dif_verify_block d data_len lba p) s;
            (case c of
               Leave (ret, l) s \<Rightarrow> Some (ret, if has_error_lba then Some l else None, s)
             | Next s \<Rightarrow> Some (RET_OK, None, s))
          }
      | _ \<Rightarrow> Some (RET_ERR_PARAM, None, s))"

section \<open>The checksum\<close>

text \<open>
  A table that is linear in its index is spanned by the entries at the powers of two; an index selects
  them by its bits, lowest first.
\<close>

fun span :: "u16 list \<Rightarrow> nat \<Rightarrow> u16" where
  "span [] k = 0"
| "span (g # gs) k = (if odd k then g else 0) XOR span gs (k div 2)"

fun spanned :: "u16 list \<Rightarrow> u16 list" where
  "spanned [] = [0]"
| "spanned (g # gs) = concat (map (\<lambda>x. [x, g XOR x]) (spanned gs))"

lemma length_pairs: "length (concat (map (\<lambda>x. [f x, g x]) xs)) = 2 * length xs"
  by (induction xs) simp_all

lemma nth_pairs:
  "k < 2 * length xs \<Longrightarrow> concat (map (\<lambda>x. [f x, g x]) xs) ! k = (if odd k then g (xs ! (k div 2)) else f (xs ! (k div 2)))"
proof (induction xs arbitrary: k)
  case (Cons x xs)
  consider "k = 0" | "k = 1" | j where "k = Suc (Suc j)" by (metis One_nat_def not0_implies_Suc)
  then show ?case using Cons by cases simp_all
qed simp

lemma length_spanned [simp]: "length (spanned gs) = 2 ^ length gs"
  by (induction gs) (simp_all add: length_pairs)

lemma spanned_nth: "k < 2 ^ length gs \<Longrightarrow> spanned gs ! k = span gs k"
  by (induction gs arbitrary: k) (auto simp: nth_pairs)

lemma span_append: "span (xs @ ys) k = span xs k XOR span ys (k div 2 ^ length xs)"
  by (induction xs arbitrary: k) (simp_all add: xor.assoc div_mult2_eq)

lemma span_linear:
  assumes "\<And>x y. f (x XOR y) = f x XOR f y" "f 0 = 0"
  shows "f (span gs k) = span (map f gs) k"
  by (induction gs arbitrary: k) (simp_all add: assms)

lemma span_xor: "span gs (i XOR j) = span gs i XOR span gs j"
proof (induction gs arbitrary: i j)
  case (Cons g gs)
  have "(i XOR j) div 2 = (i div 2) XOR (j div 2)"
    using drop_bit_xor [of 1 i j] by (simp add: drop_bit_eq_div)
  moreover have "odd (i XOR j) \<longleftrightarrow> odd i \<noteq> odd j" by (simp add: even_xor_iff)
  ultimately show ?case using Cons by (simp add: xor.assoc xor.left_commute xor.commute)
qed simp

lemma of_nat_span: "k < 2 ^ n \<Longrightarrow> (of_nat k :: u16) = span (map (\<lambda>i. 2 ^ i) [0..<n]) k"
proof (induction n arbitrary: k)
  case (Suc n)
  have gens: "map (\<lambda>i. 2 ^ i :: u16) [0..<Suc n] = 1 # map (push_bit 1) (map (\<lambda>i. 2 ^ i) [0..<n])"
    by (simp add: upt_conv_Cons map_Suc_upt [symmetric] push_bit_eq_mult del: upt_Suc)
  have "span (map (push_bit 1) gs) j = push_bit 1 (span gs j)" for gs :: "u16 list" and j
    by (rule span_linear [symmetric]) (simp_all add: push_bit_xor)
  moreover have "of_nat (k div 2) = span (map (\<lambda>i. 2 ^ i) [0..<n]) (k div 2)"
    using Suc by simp
  moreover have "(of_nat k :: u16) = (if odd k then 1 else 0) XOR push_bit 1 (of_nat (k div 2))"
  proof -
    have "(of_nat k :: u16) = of_nat (k mod 2) + 2 * of_nat (k div 2)"
      by (metis mod_mult_div_eq of_nat_add of_nat_mult of_nat_numeral)
    moreover have "1 + 2 * w = 1 XOR (2 * w)" for w :: u16
      by (simp add: one_xor_eq)
    ultimately show ?thesis by (auto simp: push_bit_eq_mult odd_iff_mod_2_eq_one mult.commute [of _ 2])
  qed
  ultimately show ?case unfolding gens span.simps by (simp only:)
qed simp

abbreviation t10pi_table_gens :: "u16 list" where
  "t10pi_table_gens \<equiv> [0x8BB7, 0x9CD9, 0xB205, 0xEFBD, 0x54CD, 0xA99A, 0x883D, 0x1083]"

lemma t10pi_table_spanned: "crc16_t10pi_table = spanned t10pi_table_gens"
  by (simp add: crc16_t10pi_table_def)

lemma t10pi_table_nth: "k < 256 \<Longrightarrow> crc16_t10pi_table ! k = span t10pi_table_gens k"
  unfolding t10pi_table_spanned by (rule spanned_nth) simp

text \<open>The low bytes of the table are all different, which makes every step injective.\<close>

lemma t10pi_low_byte: "span t10pi_table_gens k AND 0xFF = span [0xB7, 0xD9, 0x05, 0xBD, 0xCD, 0x9A, 0x3D, 0x83] k"
  by (subst span_linear [of "\<lambda>x. x AND 0xFF"]) (auto simp: bit_simps intro!: bit_word_eqI)

lemma t10pi_low_byte_zero:
  assumes "k < 256" "span [0xB7, 0xD9, 0x05, 0xBD, 0xCD, 0x9A, 0x3D, 0x83] k = 0"
  shows "k = 0"
proof (rule ccontr)
  let ?gs = "[0xB7, 0xD9, 0x05, 0xBD, 0xCD, 0x9A, 0x3D, 0x83]"
  assume "k \<noteq> 0"
  then obtain j where j: "k = Suc j" by (cases k) simp_all
  have "list_all (\<lambda>x. x \<noteq> 0) (tl (spanned ?gs))" by simp
  moreover have "j < length (tl (spanned ?gs))" using assms(1) j by simp
  ultimately have "tl (spanned ?gs) ! j \<noteq> 0" unfolding list_all_length by blast
  then show False using assms spanned_nth [of k ?gs] j by (simp add: nth_tl del: spanned.simps span.simps)
qed

lemma dif_crc16_step_index: "unat ((drop_bit 8 crc XOR ucast b :: u16) AND 0xFF) < 256"
  using unat_and_le_right [of "drop_bit 8 crc XOR ucast b :: u16" "0xFF"] by simp

lemma dif_crc16_step_span:
  "dif_crc16_step crc b = push_bit 8 crc XOR span t10pi_table_gens (unat ((drop_bit 8 crc XOR ucast b :: u16) AND 0xFF))"
  by (simp only: dif_crc16_step_def t10pi_table_nth [OF dif_crc16_step_index])

lemma bit_0xFF_u16: "bit (0xFF :: u16) n \<longleftrightarrow> n < 8"
proof -
  have "(0xFF :: u16) = mask 8" by (simp add: mask_eq_exp_minus_1)
  then have "bit (0xFF :: u16) n \<longleftrightarrow> bit (mask 8 :: u16) n" by (simp only:)
  also have "\<dots> \<longleftrightarrow> n < 8" by (auto simp: bit_mask_iff)
  finally show ?thesis .
qed

lemma dif_index_byte: "(drop_bit 8 crc XOR ucast b :: u16) AND 0xFF = drop_bit 8 crc XOR ucast b" for b :: u8
  by (rule bit_word_eqI) (auto simp: bit_simps bit_0xFF_u16 simp del: bit_numeral_word_iff dest: bit_imp_le_length)

lemma xor_below_256: "i XOR j < 256" if "i < 256" "j < 256" for i j :: nat
proof -
  have "take_bit 8 (i XOR j) = i XOR j" using that by (simp add: take_bit_xor take_bit_nat_eq_self)
  then show ?thesis using take_bit_nat_less_exp [of 8 "i XOR j"] by simp
qed

lemma xor_zero_eq: "i XOR j = 0 \<Longrightarrow> i = j" for i j :: nat
  by (metis xor.assoc xor.left_neutral xor.right_neutral xor_self_eq)

lemma unat_cong: "unat x = unat y \<Longrightarrow> x = y" for x y :: u16
  by (simp add: word_unat_eq_iff)

interpretation dif_crc: byte_checksum dif_crc16_step
proof
  fix c c' :: u16 and b b' :: u8
  let ?i = "\<lambda>c b. unat ((drop_bit 8 c XOR ucast b :: u16) AND 0xFF)"
  have index: "drop_bit 8 c XOR ucast b = (drop_bit 8 c' XOR ucast b' :: u16)"
    if "dif_crc16_step c b = dif_crc16_step c' b'" for c c' :: u16 and b b' :: u8
  proof -
    have "(push_bit 8 c XOR span t10pi_table_gens (?i c b)) AND 0xFF = (push_bit 8 c' XOR span t10pi_table_gens (?i c' b')) AND 0xFF"
      using that by (simp only: dif_crc16_step_span)
    moreover have "(push_bit 8 x XOR y) AND 0xFF = y AND 0xFF" for x y :: u16
      by (rule bit_word_eqI) (auto simp: bit_simps bit_0xFF_u16 simp del: bit_numeral_word_iff)
    ultimately have "span t10pi_table_gens (?i c b) AND 0xFF = span t10pi_table_gens (?i c' b') AND 0xFF" by (simp only:)
    then have "span [0xB7, 0xD9, 0x05, 0xBD, 0xCD, 0x9A, 0x3D, 0x83] (?i c b XOR ?i c' b') = 0"
      by (simp only: t10pi_low_byte span_xor xor_self_eq)
    moreover have "?i c b XOR ?i c' b' < 256"
      by (rule xor_below_256 [OF dif_crc16_step_index dif_crc16_step_index])
    ultimately have "?i c b XOR ?i c' b' = 0" using t10pi_low_byte_zero by blast
    then have "?i c b = ?i c' b'" by (rule xor_zero_eq)
    then have "(drop_bit 8 c XOR ucast b :: u16) AND 0xFF = (drop_bit 8 c' XOR ucast b') AND 0xFF" by (rule unat_cong)
    then show ?thesis unfolding dif_index_byte .
  qed
  show "c = c'" if e: "dif_crc16_step c b = dif_crc16_step c' b"
  proof -
    have i: "drop_bit 8 c = drop_bit 8 c'" using index [OF e] by simp
    with e have p: "push_bit 8 c = push_bit 8 c'" by (simp add: dif_crc16_step_def)
    show ?thesis
    proof (rule bit_word_eqI)
      fix n assume "n < LENGTH(16)"
      then show "bit c n = bit c' n"
        using arg_cong [OF p, of "\<lambda>w. bit w (n + 8)"] arg_cong [OF i, of "\<lambda>w. bit w (n - 8)"]
        by (cases "n < 8") (simp_all add: bit_simps)
    qed
  qed
  show "b = b'" if "dif_crc16_step c b = dif_crc16_step c b'"
    using index [OF that] by (auto intro: ucast_u8_inj)
qed

text \<open>The reference: the register shifted bit by bit with the polynomial of the comment.\<close>

definition t10pi_bit :: "u16 \<Rightarrow> u16" where
  "t10pi_bit c = (if c AND 0x8000 = 0 then push_bit 1 c else push_bit 1 c XOR 0x8BB7)"

definition t10pi_entry :: "nat \<Rightarrow> u16" where
  "t10pi_entry i = (t10pi_bit ^^ 8) (push_bit 8 (of_nat i))"

lemma bit_0x8000: "bit (0x8000 :: u16) n \<longleftrightarrow> n = 15"
proof -
  have "(0x8000 :: u16) = push_bit 15 1" by simp
  then show ?thesis by (simp only: bit_push_bit_iff bit_1_iff) auto
qed

lemma t10pi_bit_top: "c AND 0x8000 = 0 \<longleftrightarrow> \<not> bit c 15" for c :: u16
proof -
  have "bit (c AND 0x8000) n \<longleftrightarrow> bit c 15 \<and> n = 15" for n by (auto simp: bit_and_iff bit_0x8000 simp del: bit_numeral_word_iff)
  moreover have "c AND 0x8000 = 0 \<longleftrightarrow> (\<forall>n. \<not> bit (c AND 0x8000) n)" by (metis bit_0_eq bit_word_eqI bot_apply bot_bool_def)
  ultimately show ?thesis by simp
qed

lemma t10pi_bit_xor: "t10pi_bit (x XOR y) = t10pi_bit x XOR t10pi_bit y"
  by (auto simp: t10pi_bit_def t10pi_bit_top bit_xor_iff push_bit_xor intro!: bit_word_eqI)

lemma t10pi_bits_xor: "(t10pi_bit ^^ n) (x XOR y) = (t10pi_bit ^^ n) x XOR (t10pi_bit ^^ n) y"
  by (induction n) (simp_all add: t10pi_bit_xor)

lemma t10pi_bits_zero: "(t10pi_bit ^^ n) 0 = 0"
  by (induction n) (simp_all add: t10pi_bit_def)

lemma funpow_8: "(f ^^ 8) x = f (f (f (f (f (f (f (f x)))))))"
  by (simp add: numeral_eq_Suc)

lemma t10pi_entry_span:
  assumes "k < 256"
  shows "t10pi_entry k = span [0x8BB7, 0x9CD9, 0xB205, 0xEFBD, 0x54CD, 0xA99A, 0xD883, 0x3AB1] k"
proof -
  define f where "f x = (t10pi_bit ^^ 8) (push_bit 8 x)" for x
  have f: "f (x XOR y) = f x XOR f y" "f 0 = 0" for x y
    by (simp_all add: f_def push_bit_xor t10pi_bits_xor t10pi_bits_zero)
  have "t10pi_entry k = f (span (map (\<lambda>i. 2 ^ i) [0..<8]) k)"
    using of_nat_span [of k 8] assms by (simp add: t10pi_entry_def f_def)
  also have "\<dots> = span (map f (map (\<lambda>i. 2 ^ i) [0..<8])) k" by (rule span_linear) (simp_all add: f)
  also have "map f (map (\<lambda>i. 2 ^ i) [0..<8]) = map f [1, 2, 4, 8, 16, 32, 64, 128]"
    by (simp add: upt_conv_Cons)
  also have "\<dots> = [0x8BB7, 0x9CD9, 0xB205, 0xEFBD, 0x54CD, 0xA99A, 0xD883, 0x3AB1]"
    by (simp add: f_def funpow_8 t10pi_bit_def)
  finally show ?thesis .
qed

text \<open>C20: the table of \<open>dif_crc16\<close> is the table of the polynomial of T10 PI for the first 64 entries and
  for no other: a quarter of it is right.\<close>

theorem dif_crc16_table_deviates:
  assumes "k < 256"
  shows "crc16_t10pi_table ! k = t10pi_entry k \<longleftrightarrow> k < 64"
proof -
  let ?low = "[0x8BB7, 0x9CD9, 0xB205, 0xEFBD, 0x54CD, 0xA99A] :: u16 list"
  have split: "span (?low @ hi) k = span ?low k XOR span hi (k div 64)" for hi
    by (simp only: span_append) simp
  have "k div 64 < 4" using assms by simp
  then consider "k div 64 = 0" | "k div 64 = 1" | "k div 64 = 2" | "k div 64 = 3" by linarith
  then have "span [0x883D, 0x1083] (k div 64) = span [0xD883, 0x3AB1] (k div 64) \<longleftrightarrow> k div 64 = 0"
    by cases simp_all
  moreover have "crc16_t10pi_table ! k = span (?low @ [0x883D, 0x1083]) k"
    "t10pi_entry k = span (?low @ [0xD883, 0x3AB1]) k"
    using t10pi_table_nth [OF assms] t10pi_entry_span [OF assms] by (simp_all only: append.simps)
  ultimately have "crc16_t10pi_table ! k = t10pi_entry k \<longleftrightarrow> k div 64 = 0"
    by (simp only: split) simp
  also have "\<dots> \<longleftrightarrow> k < 64" by (simp add: div_eq_0_iff)
  finally show ?thesis .
qed

lemma dif_crc16_table_deviates_witness: "crc16_t10pi_table ! 64 \<noteq> t10pi_entry 64 \<and> crc16_t10pi_table ! 63 = t10pi_entry 63"
  using dif_crc16_table_deviates [of 64] dif_crc16_table_deviates [of 63] by simp

section \<open>Protection\<close>

lemma length_dif_lba_data: "dif_lba_data d n i = Some bs \<Longrightarrow> length bs = dif_lba_len n i"
  by (auto simp: dif_lba_data_def split: if_splits)

lemma dif_lba_data_some:
  assumes "n \<le> length d" "0 < n" "i < dif_lba_count n"
  shows "dif_lba_data d n i = Some (take (dif_lba_len n i) (drop (i * NAND_PAGE_SIZE) d))"
proof -
  have "(n div NAND_PAGE_SIZE) * NAND_PAGE_SIZE \<le> n" by simp
  moreover have "Suc i * NAND_PAGE_SIZE \<le> (n div NAND_PAGE_SIZE) * NAND_PAGE_SIZE" if "n div NAND_PAGE_SIZE \<noteq> 0"
    using assms(3) that by (intro mult_right_mono) (simp_all add: dif_lba_count_def)
  ultimately have "Suc i * NAND_PAGE_SIZE \<le> n \<or> n div NAND_PAGE_SIZE = 0" by linarith
  then have "i * NAND_PAGE_SIZE + dif_lba_len n i \<le> n"
    using assms(3) by (auto simp: dif_lba_len_def dif_lba_count_def split: if_splits)
  then show ?thesis using assms(1) by (simp add: dif_lba_data_def)
qed

definition dif_entry :: "dif_config \<Rightarrow> u8 list \<Rightarrow> nat \<Rightarrow> u64 \<Rightarrow> nat \<Rightarrow> dif_protection" where
  "dif_entry c d n lba i =
     \<lparr>pi_crc = dif_crc16 (dif_lba_data d n i) (dif_lba_len n i), pi_app_tag = dc_app_tag c,
      pi_ref_tag = dif_ref_tag (dc_type c) lba i\<rparr>"

lemma generate_blocks:
  assumes "n \<le> length d" "0 < n" "m \<le> dif_lba_count n" "m \<le> length p"
  shows "fold_option (dif_generate_block c d n lba) [0..<m] p = Some (map (dif_entry c d n lba) [0..<m] @ drop m p)"
  using assms(3,4)
proof (induction m)
  case (Suc m)
  have e: "dif_generate_block c d n lba m q = Some (q[m := dif_entry c d n lba m])" if "m < length q" for q
    using dif_lba_data_some [OF assms(1,2), of m] Suc.prems(1) that
    by (simp add: dif_generate_block_def dif_entry_def)
  have "(map (dif_entry c d n lba) [0..<m] @ drop m p)[m := dif_entry c d n lba m] =
      map (dif_entry c d n lba) [0..<Suc m] @ drop (Suc m) p"
    using Suc.prems(2) by (simp add: list_update_append) (simp add: Cons_nth_drop_Suc [symmetric])
  moreover have "m < length (map (dif_entry c d n lba) [0..<m] @ drop m p)" using Suc.prems(2) by simp
  ultimately show ?case using Suc e by (simp add: fold_option_append)
qed simp

lemma dif_generate_result:
  assumes "dif_is_initialized s" "dc_type (dif_config_of s) \<noteq> DIF_TYPE_DISABLED"
    and "0 < n" "n \<le> length d" "dif_lba_count n \<le> length p"
  shows "dif_generate s (Some d) n lba (Some p) =
     Some (RET_OK, Some (map (dif_entry (dif_config_of s) d n lba) [0..<dif_lba_count n] @ drop (dif_lba_count n) p))"
  using assms generate_blocks [OF assms(4,3) order_refl assms(5)] by (simp add: dif_generate_def)

lemma dif_entry_passes:
  "dif_check_block c bs (dif_lba_len n i) lba i (dif_entry c d n lba i) = RET_OK"
  if "dc_guard_check_enable c \<Longrightarrow> dif_lba_data d n i = Some bs"
  using that by (auto simp: dif_check_block_def dif_entry_def dif_ref_tag_def)

lemma dif_verify_block_passes:
  assumes "0 < n" "n \<le> length d" "i < dif_lba_count n" "i < length q" "dif_config_of s = c"
    and "q ! i = dif_entry c d' n lba i" "dc_guard_check_enable c \<Longrightarrow> dif_lba_data d n i = dif_lba_data d' n i"
  shows "dif_verify_block d n lba q i s = Some (Next s)"
proof (cases "dc_guard_check_enable c")
  case True
  obtain bs where bs: "dif_lba_data d n i = Some bs" using dif_lba_data_some [OF assms(2,1,3)] by blast
  with True assms(7) have "dif_check_block c bs (dif_lba_len n i) lba i (dif_entry c d' n lba i) = RET_OK"
    by (simp add: dif_entry_passes)
  with True bs assms(4-6) show ?thesis by (simp add: dif_verify_block_def Let_def)
next
  case False
  then have "dif_check_block c [] (dif_lba_len n i) lba i (dif_entry c d' n lba i) = RET_OK"
    by (intro dif_entry_passes) simp
  with False assms(4-6) show ?thesis by (simp add: dif_verify_block_def Let_def)
qed

definition checked :: "nat \<Rightarrow> dif_state \<Rightarrow> dif_state" where
  "checked n s = s\<lparr>dif_stats_of := (dif_stats_of s)\<lparr>ds_total_checks :=
                        ds_total_checks (dif_stats_of s) + of_nat (dif_lba_count n)\<rparr>\<rparr>"

lemma checked_fields [simp]: "dif_config_of (checked n s) = dif_config_of s" "dif_is_initialized (checked n s) = dif_is_initialized s"
  by (simp_all add: checked_def)

lemma dif_verify_eq:
  assumes "dif_is_initialized s" "dc_type (dif_config_of s) \<noteq> DIF_TYPE_DISABLED" "0 < n"
  shows "dif_verify s (Some d) n lba (Some q) e =
     (case for_each [0..<dif_lba_count n] (dif_verify_block d n lba q) (checked n s) of
        None \<Rightarrow> None
      | Some (Leave (ret, l) s) \<Rightarrow> Some (ret, if e then Some l else None, s)
      | Some (Next s) \<Rightarrow> Some (RET_OK, None, s))"
  using assms by (simp add: dif_verify_def checked_def Let_def split: option.split ctl.split)

lemma generated_nth:
  assumes "dif_generate s (Some d) n lba (Some p) = Some (RET_OK, Some q)" "dif_lba_count n \<le> length p"
    "dif_is_initialized s" "dc_type (dif_config_of s) \<noteq> DIF_TYPE_DISABLED" "0 < n" "n \<le> length d"
  shows "length q = length p" "i < dif_lba_count n \<Longrightarrow> q ! i = dif_entry (dif_config_of s) d n lba i"
  using assms dif_generate_result [OF assms(3-6,2)] by (auto simp: nth_append)

text \<open>C18: protection information that was generated for some data passes the verification of the same data
  at the same address, and one check per block is counted.\<close>

theorem dif_round_trip:
  assumes "dif_is_initialized s" "dc_type (dif_config_of s) \<noteq> DIF_TYPE_DISABLED"
    and "0 < n" "n \<le> length d" "dif_lba_count n \<le> length p"
  shows "\<exists>q. dif_generate s (Some d) n lba (Some p) = Some (RET_OK, Some q) \<and>
     (\<forall>e. dif_verify s (Some d) n lba (Some q) e = Some (RET_OK, None, checked n s))"
proof -
  obtain q where g: "dif_generate s (Some d) n lba (Some p) = Some (RET_OK, Some q)"
    using dif_generate_result [OF assms] by blast
  note q = generated_nth [OF g assms(5,1-4)]
  have "for_each [0..<dif_lba_count n] (dif_verify_block d n lba q) (checked n s) = Some (Next (checked n s))"
    by (rule for_each_skip, rule dif_verify_block_passes [OF assms(3,4)]) (use q assms(5) in auto)
  with g show ?thesis by (simp add: dif_verify_eq [OF assms(1-3)])
qed

text \<open>The block a byte belongs to, and its place there.\<close>

definition dif_block_of :: "nat \<Rightarrow> nat \<Rightarrow> nat" where
  "dif_block_of n j = min (j div NAND_PAGE_SIZE) (dif_lba_count n - 1)"

lemma dif_block_of:
  assumes "j < n"
  shows "dif_block_of n j < dif_lba_count n" "dif_block_of n j * NAND_PAGE_SIZE \<le> j"
    "j - dif_block_of n j * NAND_PAGE_SIZE < dif_lba_len n (dif_block_of n j)"
proof -
  have "0 < dif_lba_count n" by (simp add: dif_lba_count_def)
  then show a: "dif_block_of n j < dif_lba_count n" unfolding dif_block_of_def by linarith
  have "dif_block_of n j * NAND_PAGE_SIZE \<le> (j div NAND_PAGE_SIZE) * NAND_PAGE_SIZE"
    by (rule mult_le_mono1) (simp add: dif_block_of_def)
  then show b: "dif_block_of n j * NAND_PAGE_SIZE \<le> j" by (meson div_times_less_eq_dividend le_trans)
  show "j - dif_block_of n j * NAND_PAGE_SIZE < dif_lba_len n (dif_block_of n j)"
  proof (cases "dif_block_of n j = dif_lba_count n - 1")
    case True
    with assms b show ?thesis by (simp add: dif_lba_len_def)
  next
    case False
    then have "dif_block_of n j = j div NAND_PAGE_SIZE" by (simp add: dif_block_of_def min_def split: if_splits)
    moreover have "j - j div NAND_PAGE_SIZE * NAND_PAGE_SIZE < NAND_PAGE_SIZE"
      by (simp add: minus_div_mult_eq_mod)
    ultimately show ?thesis using False by (simp add: dif_lba_len_def)
  qed
qed

lemma dif_lba_data_update_before:
  assumes "i < dif_block_of n j"
  shows "dif_lba_data (d[j := v]) n i = dif_lba_data d n i"
proof -
  have "Suc i \<le> j div NAND_PAGE_SIZE" "i \<noteq> dif_lba_count n - 1" using assms by (auto simp: dif_block_of_def)
  then have "Suc i * NAND_PAGE_SIZE \<le> j" using less_eq_div_iff_mult_less_eq [of NAND_PAGE_SIZE "Suc i" j] by simp
  then have "take NAND_PAGE_SIZE (drop (i * NAND_PAGE_SIZE) (d[j := v])) = take NAND_PAGE_SIZE (drop (i * NAND_PAGE_SIZE) d)"
    by (simp add: drop_update_swap take_update_cancel)
  with \<open>i \<noteq> dif_lba_count n - 1\<close> show ?thesis by (simp add: dif_lba_data_def dif_lba_len_def)
qed

text \<open>C19: with the guard enabled every corruption of a single byte is found, reported with the code for a
  checksum error and the address of the block the byte lies in, and counted.\<close>

theorem dif_detects_corruption:
  assumes s: "dif_is_initialized s" "dc_type (dif_config_of s) \<noteq> DIF_TYPE_DISABLED" "dc_guard_check_enable (dif_config_of s)"
    and g: "dif_generate s (Some d) n lba (Some p) = Some (RET_OK, Some q)" "n \<le> length d" "dif_lba_count n \<le> length p"
    and j: "j < n" "d ! j \<noteq> v"
  shows "dif_verify s (Some (d[j := v])) n lba (Some q) True =
     Some (RET_ERR_DIF_CRC, Some (lba + of_nat (dif_block_of n j)), count_dif_error RET_ERR_DIF_CRC (checked n s))"
proof -
  define k where "k = dif_block_of n j"
  define c where "c = dif_config_of s"
  have n: "0 < n" using j(1) by simp
  note k = dif_block_of [OF j(1), folded k_def]
  note q = generated_nth [OF g(1,3) s(1,2) n g(2), folded c_def]
  have before: "dif_verify_block (d[j := v]) n lba q i (checked n s) = Some (Next (checked n s))" if "i < k" for i
    by (rule dif_verify_block_passes [OF n _ _ _ _ q(2)])
      (use that k(1) g(2,3) q(1) dif_lba_data_update_before [of i n j d v] in \<open>auto simp: c_def k_def\<close>)
  define bs where "bs = take (dif_lba_len n k) (drop (k * NAND_PAGE_SIZE) d)"
  have d: "dif_lba_data d n k = Some bs" using dif_lba_data_some [OF g(2) n k(1)] by (simp add: bs_def)
  have "dif_lba_data (d[j := v]) n k = Some (take (dif_lba_len n k) (drop (k * NAND_PAGE_SIZE) (d[j := v])))"
    using dif_lba_data_some [of n "d[j := v]" k] g(2) n k(1) by simp
  also have "take (dif_lba_len n k) (drop (k * NAND_PAGE_SIZE) (d[j := v])) = bs[j - k * NAND_PAGE_SIZE := v]"
    using k(2) by (simp add: bs_def drop_update_swap take_update_swap)
  finally have d': "dif_lba_data (d[j := v]) n k = Some (bs[j - k * NAND_PAGE_SIZE := v])" .
  have len: "length bs = dif_lba_len n k" by (rule length_dif_lba_data [OF d])
  have at: "bs ! (j - k * NAND_PAGE_SIZE) = d ! j" using k(2,3) g(2) j(1) len by (simp add: bs_def)
  have "foldl dif_crc16_step 0xFFFF (bs[j - k * NAND_PAGE_SIZE := v]) \<noteq> foldl dif_crc16_step 0xFFFF bs"
    using dif_crc.absorb_list_update [of "j - k * NAND_PAGE_SIZE" bs v "0xFFFF"] k(3) j(2) len at by simp
  moreover have "0 < dif_lba_len n k" using k(3) by simp
  ultimately have "dif_crc16 (Some (bs[j - k * NAND_PAGE_SIZE := v])) (dif_lba_len n k) \<noteq> dif_crc16 (Some bs) (dif_lba_len n k)"
    by (simp add: dif_crc16_def len [symmetric])
  then have "dif_check_block c (bs[j - k * NAND_PAGE_SIZE := v]) (dif_lba_len n k) lba k (q ! k) = RET_ERR_DIF_CRC"
    using s(3) by (simp add: dif_check_block_def q(2) [OF k(1)] dif_entry_def d c_def)
  then have fails: "dif_verify_block (d[j := v]) n lba q k (checked n s) =
      Some (Leave (RET_ERR_DIF_CRC, lba + of_nat k) (count_dif_error RET_ERR_DIF_CRC (checked n s)))"
    using s(3) k(1) g(3) q(1) d' by (simp add: dif_verify_block_def c_def [symmetric])
  then show ?thesis
    using for_each_first [where body = "dif_verify_block (d[j := v]) n lba q", OF before fails k(1)]
    by (simp add: dif_verify_eq [OF s(1,2) n] k_def)
qed

text \<open>With reference tags of type 1 data read from another address than it was protected for is found at
  its first block, whatever the other checks are set to, as long as the addresses differ in their low
  32 bits.\<close>

theorem dif_detects_misplacement:
  assumes s: "dif_is_initialized s" "dc_type (dif_config_of s) = DIF_TYPE1" "dc_ref_tag_check_enable (dif_config_of s)"
    and g: "dif_generate s (Some d) n lba (Some p) = Some (RET_OK, Some q)" "0 < n" "n \<le> length d" "dif_lba_count n \<le> length p"
    and lba: "(ucast lba :: u32) \<noteq> ucast lba'"
  shows "dif_verify s (Some d) n lba' (Some q) True =
     Some (RET_ERR_DIF_REF_TAG, Some lba', count_dif_error RET_ERR_DIF_REF_TAG (checked n s))"
proof -
  have en: "dc_type (dif_config_of s) \<noteq> DIF_TYPE_DISABLED" using s(2) by simp
  have k: "0 < dif_lba_count n" by (simp add: dif_lba_count_def)
  note q = generated_nth [OF g(1,4) s(1) en g(2,3)]
  obtain bs where d: "dif_lba_data d n 0 = Some bs" using dif_lba_data_some [OF g(3,2) k] by blast
  have "dif_check_block (dif_config_of s) x (dif_lba_len n 0) lba' 0 (q ! 0) = RET_ERR_DIF_REF_TAG"
    if "dc_guard_check_enable (dif_config_of s) \<Longrightarrow> x = bs" for x
    using that s lba d by (auto simp: dif_check_block_def q(2) [OF k] dif_entry_def dif_ref_tag_def)
  then have "dif_verify_block d n lba' q 0 (checked n s) =
      Some (Leave (RET_ERR_DIF_REF_TAG, lba') (count_dif_error RET_ERR_DIF_REF_TAG (checked n s)))"
    using d k g(4) q(1) by (cases "dc_guard_check_enable (dif_config_of s)") (auto simp: dif_verify_block_def Let_def)
  from for_each_first [where body = "dif_verify_block d n lba' q", OF _ this k]
  show ?thesis by (simp add: dif_verify_eq [OF s(1) en g(2)])
qed

section \<open>A configuration to try the properties on\<close>

definition blank_pi :: dif_protection where
  "blank_pi = \<lparr>pi_crc = 0, pi_app_tag = 0, pi_ref_tag = 0\<rparr>"

definition blank_config :: dif_config where
  "blank_config = \<lparr>dc_type = DIF_TYPE_DISABLED, dc_guard_check_enable = False, dc_app_tag_check_enable = False,
     dc_ref_tag_check_enable = False, dc_app_tag = 0, dc_app_tag_mask = 0\<rparr>"

definition example_dif :: dif_state where
  "example_dif = snd (dif_init \<lparr>dif_config_of = blank_config, dif_stats_of = zero_dif_stats, dif_is_initialized = False\<rparr>
     (Some \<lparr>dc_type = DIF_TYPE1, dc_guard_check_enable = True, dc_app_tag_check_enable = True,
        dc_ref_tag_check_enable = True, dc_app_tag = 0x1234, dc_app_tag_mask = 0xFF00\<rparr>))"

lemma example_dif_facts:
  "dif_is_initialized example_dif" "dc_type (dif_config_of example_dif) = DIF_TYPE1"
  "dc_guard_check_enable (dif_config_of example_dif)" "dc_ref_tag_check_enable (dif_config_of example_dif)"
  by (simp_all add: example_dif_def dif_init_def)

lemma example_dif_generates:
  obtains q where "dif_generate example_dif (Some (replicate 8192 7)) 8192 5 (Some [blank_pi, blank_pi]) = Some (RET_OK, Some q)"
proof -
  have "dif_lba_count 8192 = 2" by (simp add: dif_lba_count_def NAND_PAGE_SIZE_def)
  then show ?thesis
    using dif_generate_result [of example_dif 8192 "replicate 8192 7" "[blank_pi, blank_pi]" 5] example_dif_facts that by auto
qed

lemma dif_round_trip_witness:
  "\<exists>q. dif_generate example_dif (Some (replicate 8192 7)) 8192 5 (Some [blank_pi, blank_pi]) = Some (RET_OK, Some q) \<and>
     dif_verify example_dif (Some (replicate 8192 7)) 8192 5 (Some q) True = Some (RET_OK, None, checked 8192 example_dif)"
proof -
  have "dif_lba_count 8192 = 2" by (simp add: dif_lba_count_def NAND_PAGE_SIZE_def)
  then show ?thesis
    using dif_round_trip [of example_dif 8192 "replicate 8192 7" "[blank_pi, blank_pi]" 5] example_dif_facts by auto
qed

lemma dif_detects_corruption_witness:
  "\<exists>q s. dif_generate example_dif (Some (replicate 8192 7)) 8192 5 (Some [blank_pi, blank_pi]) = Some (RET_OK, Some q) \<and>
     dif_verify example_dif (Some ((replicate 8192 7)[5000 := 9])) 8192 5 (Some q) True = Some (RET_ERR_DIF_CRC, Some 6, s)"
proof -
  have c: "dif_lba_count 8192 = 2" "dif_block_of 8192 5000 = 1"
    by (simp_all add: dif_lba_count_def dif_block_of_def NAND_PAGE_SIZE_def)
  obtain q where q: "dif_generate example_dif (Some (replicate 8192 7)) 8192 5 (Some [blank_pi, blank_pi]) = Some (RET_OK, Some q)"
    by (rule example_dif_generates)
  have "replicate 8192 (7 :: u8) ! 5000 \<noteq> 9" by simp
  with dif_detects_corruption [OF _ _ _ q, of 5000 9] example_dif_facts q show ?thesis by (simp add: c)
qed

lemma dif_detects_misplacement_witness:
  "\<exists>q s. dif_generate example_dif (Some (replicate 8192 7)) 8192 5 (Some [blank_pi, blank_pi]) = Some (RET_OK, Some q) \<and>
     dif_verify example_dif (Some (replicate 8192 7)) 8192 9 (Some q) True = Some (RET_ERR_DIF_REF_TAG, Some 9, s)"
proof -
  have c: "dif_lba_count 8192 = 2" by (simp add: dif_lba_count_def NAND_PAGE_SIZE_def)
  obtain q where q: "dif_generate example_dif (Some (replicate 8192 7)) 8192 5 (Some [blank_pi, blank_pi]) = Some (RET_OK, Some q)"
    by (rule example_dif_generates)
  have "(ucast (5 :: u64) :: u32) \<noteq> ucast (9 :: u64)" by simp
  with dif_detects_misplacement [OF _ _ _ q, of 9] example_dif_facts q show ?thesis by (simp add: c)
qed

end
