(* ===== verification/NvmeCtrl.thy ===== *)
theory NvmeCtrl
  imports Ftl
begin

text \<open>
  The NVMe controller, \<open>src/protocol/nvme/nvme_controller.c\<close> and \<open>include/protocol/nvme_controller.h\<close>:
  registers, submission and completion rings, the administrative and data commands, asynchronous
  events, temperature sensors and firmware slots.  Indices into the rings are natural numbers; the
  16-bit arithmetic of their sizes is written out.  An outer \<open>None\<close> is undefined behaviour: an
  access outside of an array, a division by zero, or a loop that does not end.  What only logs is left out.
\<close>

section \<open>Constants\<close>

definition NVME_VERSION :: u32 where "NVME_VERSION = 0x00010400"
definition NVME_ADMIN_QSIZE :: nat where "NVME_ADMIN_QSIZE = 256"
definition NVME_AER_MAX_PENDING :: nat where "NVME_AER_MAX_PENDING = 4"
definition NVME_AER_QUEUE_SIZE :: nat where "NVME_AER_QUEUE_SIZE = 16"
definition NVME_TEMP_SENSOR_COUNT :: nat where "NVME_TEMP_SENSOR_COUNT = 8"
definition NVME_FW_SLOT_COUNT :: nat where "NVME_FW_SLOT_COUNT = 7"
definition NVME_FW_MAX_IMAGE_SIZE :: u64 where "NVME_FW_MAX_IMAGE_SIZE = 0x1000000"
definition NVME_AER_TYPE_SMART_HEALTH :: u32 where "NVME_AER_TYPE_SMART_HEALTH = 2"
definition NVME_AER_TYPE_NOTICE :: u32 where "NVME_AER_TYPE_NOTICE = 3"
definition NVME_LOG_SMART_HEALTH :: u8 where "NVME_LOG_SMART_HEALTH = 2"

definition NVME_SC_SUCCESS :: u16 where "NVME_SC_SUCCESS = 0x0000"
definition NVME_SC_INVALID_OPCODE :: u16 where "NVME_SC_INVALID_OPCODE = 0x0001"
definition NVME_SC_INVALID_FIELD :: u16 where "NVME_SC_INVALID_FIELD = 0x0002"
definition NVME_SC_INTERNAL_ERROR :: u16 where "NVME_SC_INTERNAL_ERROR = 0x0006"
definition NVME_SC_AER_LIMIT_EXCEEDED :: u16 where "NVME_SC_AER_LIMIT_EXCEEDED = 0x0605"
definition NVME_SC_INVALID_FW_SLOT :: u16 where "NVME_SC_INVALID_FW_SLOT = 0x0106"
definition NVME_SC_INVALID_FW_IMAGE :: u16 where "NVME_SC_INVALID_FW_IMAGE = 0x0107"

text \<open>Register offsets.\<close>

abbreviation (input) NVME_REG_CAP :: nat where "NVME_REG_CAP \<equiv> 0x00"
abbreviation (input) NVME_REG_VS :: nat where "NVME_REG_VS \<equiv> 0x08"
abbreviation (input) NVME_REG_INTMS :: nat where "NVME_REG_INTMS \<equiv> 0x0C"
abbreviation (input) NVME_REG_INTMC :: nat where "NVME_REG_INTMC \<equiv> 0x10"
abbreviation (input) NVME_REG_CC :: nat where "NVME_REG_CC \<equiv> 0x14"
abbreviation (input) NVME_REG_CSTS :: nat where "NVME_REG_CSTS \<equiv> 0x1C"
abbreviation (input) NVME_REG_AQA :: nat where "NVME_REG_AQA \<equiv> 0x24"
abbreviation (input) NVME_REG_ASQ :: nat where "NVME_REG_ASQ \<equiv> 0x28"
abbreviation (input) NVME_REG_ACQ :: nat where "NVME_REG_ACQ \<equiv> 0x30"

text \<open>Operation codes.\<close>

abbreviation (input) NVME_ADMIN_DELETE_IOSQ :: u8 where "NVME_ADMIN_DELETE_IOSQ \<equiv> 0x00"
abbreviation (input) NVME_ADMIN_CREATE_IOSQ :: u8 where "NVME_ADMIN_CREATE_IOSQ \<equiv> 0x01"
abbreviation (input) NVME_ADMIN_GET_LOG_PAGE :: u8 where "NVME_ADMIN_GET_LOG_PAGE \<equiv> 0x02"
abbreviation (input) NVME_ADMIN_DELETE_IOCQ :: u8 where "NVME_ADMIN_DELETE_IOCQ \<equiv> 0x04"
abbreviation (input) NVME_ADMIN_CREATE_IOCQ :: u8 where "NVME_ADMIN_CREATE_IOCQ \<equiv> 0x05"
abbreviation (input) NVME_ADMIN_IDENTIFY :: u8 where "NVME_ADMIN_IDENTIFY \<equiv> 0x06"
abbreviation (input) NVME_ADMIN_ABORT :: u8 where "NVME_ADMIN_ABORT \<equiv> 0x08"
abbreviation (input) NVME_ADMIN_SET_FEATURES :: u8 where "NVME_ADMIN_SET_FEATURES \<equiv> 0x09"
abbreviation (input) NVME_ADMIN_GET_FEATURES :: u8 where "NVME_ADMIN_GET_FEATURES \<equiv> 0x0A"
abbreviation (input) NVME_ADMIN_ASYNC_EVENT :: u8 where "NVME_ADMIN_ASYNC_EVENT \<equiv> 0x0C"
abbreviation (input) NVME_ADMIN_FW_DOWNLOAD :: u8 where "NVME_ADMIN_FW_DOWNLOAD \<equiv> 0x11"
abbreviation (input) NVME_ADMIN_FW_ACTIVATE :: u8 where "NVME_ADMIN_FW_ACTIVATE \<equiv> 0x10"
abbreviation (input) NVME_ADMIN_FORMAT_NVM :: u8 where "NVME_ADMIN_FORMAT_NVM \<equiv> 0x80"
abbreviation (input) NVME_ADMIN_KEEP_ALIVE :: u8 where "NVME_ADMIN_KEEP_ALIVE \<equiv> 0x18"
abbreviation (input) NVME_IO_FLUSH :: u8 where "NVME_IO_FLUSH \<equiv> 0x00"
abbreviation (input) NVME_IO_WRITE :: u8 where "NVME_IO_WRITE \<equiv> 0x01"
abbreviation (input) NVME_IO_READ :: u8 where "NVME_IO_READ \<equiv> 0x02"
abbreviation (input) NVME_IO_WRITE_UNCORRECTABLE :: u8 where "NVME_IO_WRITE_UNCORRECTABLE \<equiv> 0x04"
abbreviation (input) NVME_IO_COMPARE :: u8 where "NVME_IO_COMPARE \<equiv> 0x05"
abbreviation (input) NVME_IO_WRITE_ZEROES :: u8 where "NVME_IO_WRITE_ZEROES \<equiv> 0x08"
abbreviation (input) NVME_IO_DATASET_MGMT :: u8 where "NVME_IO_DATASET_MGMT \<equiv> 0x09"
abbreviation (input) NVME_IO_VERIFY :: u8 where "NVME_IO_VERIFY \<equiv> 0x0C"

section \<open>Data\<close>

record nvme_command =
  nc_opcode :: u8
  nc_flags :: u8
  nc_cid :: u16
  nc_nsid :: u32
  nc_mptr :: u64
  nc_prp1 :: u64
  nc_prp2 :: u64
  nc_cdw10 :: u32
  nc_cdw11 :: u32
  nc_cdw12 :: u32
  nc_cdw13 :: u32
  nc_cdw14 :: u32
  nc_cdw15 :: u32

record nvme_completion =
  cp_dw0 :: u32
  cp_rsvd1 :: u32
  cp_sqhd :: u16
  cp_sqid :: u16
  cp_cid :: u16
  cp_status :: u16

datatype nvme_ctrl_state = NVME_CTRL_STATE_RESET | NVME_CTRL_STATE_READY | NVME_CTRL_STATE_ERROR

record nvme_ctrl_regs =
  r_cap :: u64
  r_vs :: u32
  r_intms :: u32
  r_intmc :: u32
  r_cc :: u32
  r_csts :: u32
  r_nssr :: u32
  r_aqa :: u32
  r_asq :: u64
  r_acq :: u64

record nvme_sq =
  sq_qid :: u16
  sq_size :: nat
  sq_head :: nat
  sq_tail :: nat
  sq_cqid :: u16
  sq_is_admin :: bool
  sq_entries :: "nvme_command list option"

record nvme_cq =
  cq_qid :: u16
  cq_size :: nat
  cq_head :: nat
  cq_tail :: nat
  cq_vector :: u16
  cq_phase :: bool
  cq_is_admin :: bool
  cq_entries :: "nvme_completion list option"

record nvme_ctrl_dev =
  ct_state :: nvme_ctrl_state
  ct_regs :: nvme_ctrl_regs
  ct_admin_sq :: nvme_sq
  ct_admin_cq :: nvme_cq
  ct_io_sq :: nvme_sq
  ct_io_cq :: nvme_cq
  ct_io_sq_count :: u32
  ct_io_cq_count :: u32
  ct_namespace_size :: u64
  ct_lba_size :: u32
  ct_initialized :: bool

record nvme_aer_pending =
  ap_active :: bool
  ap_cid :: u16

record nvme_aer_event =
  ae_event_type :: u32
  ae_event_info :: u32
  ae_log_page :: u8

record nvme_temp_sensor =
  ts_current :: nat
  ts_warning :: nat
  ts_critical :: nat
  ts_highest :: nat
  ts_min_temp :: nat
  ts_max_temp :: nat

datatype nvme_fw_slot_state = NVME_FW_SLOT_EMPTY | NVME_FW_SLOT_VALID | NVME_FW_SLOT_RUNNING

record nvme_fw_slot =
  fw_state :: nvme_fw_slot_state
  fw_version :: "u8 list"
  fw_image_size :: u32

record nvme_fw_download_ctx =
  fd_active :: bool
  fd_downloaded_size :: u64

text \<open>The variables of the module, with the FTL below it, the values that \<open>rand\<close> will return and the outcomes of
  \<open>calloc\<close>.\<close>

record nvme_sys =
  nv_ctrl :: nvme_ctrl_dev
  nv_aer_pending :: "nvme_aer_pending list"
  nv_aer_queue :: "nvme_aer_event list"
  nv_aer_head :: nat
  nv_aer_tail :: nat
  nv_aer_count :: nat
  nv_aer_mask :: u32
  nv_temp :: "nvme_temp_sensor list"
  nv_warning_time :: u32
  nv_critical_time :: u32
  nv_warning_active :: bool
  nv_critical_active :: bool
  nv_temp_counter :: u32
  nv_fw_slots :: "nvme_fw_slot list"
  nv_fw_download :: nvme_fw_download_ctx
  nv_fw_running :: nat
  nv_fw_next_boot :: nat
  nv_fw_version :: "u8 list"
  nv_ftl :: ftl_dev
  nv_rand :: "nat \<Rightarrow> nat"
  nv_rand_count :: nat
  nv_calloc_count :: nat
  nv_calloc_fails :: "nat \<Rightarrow> bool"

definition upd_ctrl :: "(nvme_ctrl_dev \<Rightarrow> nvme_ctrl_dev) \<Rightarrow> nvme_sys \<Rightarrow> nvme_sys" where
  "upd_ctrl f s = s\<lparr>nv_ctrl := f (nv_ctrl s)\<rparr>"

definition upd_regs :: "(nvme_ctrl_regs \<Rightarrow> nvme_ctrl_regs) \<Rightarrow> nvme_sys \<Rightarrow> nvme_sys" where
  "upd_regs f = upd_ctrl (\<lambda>c. c\<lparr>ct_regs := f (ct_regs c)\<rparr>)"

section \<open>Completions and rings\<close>

text \<open>The status code moves up by one bit; the bit of the phase is left clear.\<close>

definition set_completion_status :: "u16 \<Rightarrow> nvme_completion \<Rightarrow> nvme_completion" where
  "set_completion_status status_code cpl = cpl\<lparr>cp_status := push_bit 1 status_code\<rparr>"

definition sq_fetch_cmd :: "nvme_sq \<Rightarrow> (nvme_command option \<times> nvme_sq) option" where
  "sq_fetch_cmd sq =
     (if sq_head sq = sq_tail sq then Some (None, sq)
      else (case sq_entries sq of
              None \<Rightarrow> None
            | Some es \<Rightarrow>
                if sq_head sq < length es \<and> 0 < sq_size sq
                then Some (Some (es ! sq_head sq), sq\<lparr>sq_head := (sq_head sq + 1) mod sq_size sq\<rparr>)
                else None))"

definition cq_post_completion :: "nvme_completion \<Rightarrow> nvme_cq \<Rightarrow> nvme_cq option" where
  "cq_post_completion cpl cq =
     (case cq_entries cq of
        None \<Rightarrow> None
      | Some es \<Rightarrow>
          if cq_tail cq < length es \<and> 0 < cq_size cq
          then let cq = cq\<lparr>cq_entries := Some (es[cq_tail cq := cpl]), cq_tail := (cq_tail cq + 1) mod cq_size cq\<rparr> in
               Some (if cq_tail cq = 0 then cq\<lparr>cq_phase := \<not> cq_phase cq\<rparr> else cq)
          else None)"

definition blank_completion :: nvme_completion where
  "blank_completion = \<lparr>cp_dw0 = 0, cp_rsvd1 = 0, cp_sqhd = 0, cp_sqid = 0, cp_cid = 0, cp_status = 0\<rparr>"

text \<open>An array from \<open>calloc\<close>: \<open>None\<close> when memory is short.\<close>

definition calloc_array :: "nat \<Rightarrow> 'a \<Rightarrow> nvme_sys \<Rightarrow> 'a list option \<times> nvme_sys" where
  "calloc_array n x s =
     (if nv_calloc_fails s (nv_calloc_count s) then None else Some (replicate n x),
      s\<lparr>nv_calloc_count := nv_calloc_count s + 1\<rparr>)"

definition blank_command :: nvme_command where
  "blank_command = \<lparr>nc_opcode = 0, nc_flags = 0, nc_cid = 0, nc_nsid = 0, nc_mptr = 0, nc_prp1 = 0, nc_prp2 = 0,
     nc_cdw10 = 0, nc_cdw11 = 0, nc_cdw12 = 0, nc_cdw13 = 0, nc_cdw14 = 0, nc_cdw15 = 0\<rparr>"

section \<open>Asynchronous events\<close>

definition aer_enqueue :: "nvme_aer_event \<Rightarrow> nvme_sys \<Rightarrow> ret_code \<times> nvme_sys" where
  "aer_enqueue e s =
     (if NVME_AER_QUEUE_SIZE \<le> nv_aer_count s then (RET_ERR_INTERNAL, s)
      else (RET_OK, s\<lparr>nv_aer_queue := (nv_aer_queue s)[nv_aer_tail s := e],
               nv_aer_tail := (nv_aer_tail s + 1) mod NVME_AER_QUEUE_SIZE, nv_aer_count := nv_aer_count s + 1\<rparr>))"

definition nvme_ctrl_post_aer_event :: "u32 \<Rightarrow> u32 \<Rightarrow> u8 \<Rightarrow> nvme_sys \<Rightarrow> ret_code \<times> nvme_sys" where
  "nvme_ctrl_post_aer_event event_type event_info log_page s =
     (if event_type = NVME_AER_TYPE_SMART_HEALTH \<and> nv_aer_mask s AND push_bit (unat (event_info AND 0x1F)) 1 = 0
      then (RET_OK, s)
      else aer_enqueue \<lparr>ae_event_type = event_type, ae_event_info = event_info, ae_log_page = log_page\<rparr> s)"

text \<open>The first waiting request, if there is one.\<close>

definition aer_first_pending :: "nvme_aer_pending list \<Rightarrow> nat option" where
  "aer_first_pending ps = find (\<lambda>i. ap_active (ps ! i)) [0..<NVME_AER_MAX_PENDING]"

definition aer_dw0 :: "nvme_aer_event \<Rightarrow> u32" where
  "aer_dw0 e = push_bit 24 (ucast (ae_log_page e)) OR (ae_event_type e AND 0x0000FFFF)"

definition aer_completion :: "u16 \<Rightarrow> nvme_aer_event \<Rightarrow> nat \<Rightarrow> nvme_completion" where
  "aer_completion cid e sqhd =
     set_completion_status NVME_SC_SUCCESS
       (blank_completion\<lparr>cp_cid := cid, cp_sqid := 0, cp_sqhd := of_nat sqhd, cp_dw0 := aer_dw0 e\<rparr>)"

text \<open>One round of the loop, for the request in slot \<open>i\<close>.\<close>

definition aer_complete_one :: "nat \<Rightarrow> nvme_sys \<Rightarrow> nvme_sys option" where
  "aer_complete_one i s =
     do {
       let event = nv_aer_queue s ! nv_aer_head s;
       let cpl = aer_completion (ap_cid (nv_aer_pending s ! i)) event (sq_head (ct_admin_sq (nv_ctrl s)));
       cq \<leftarrow> cq_post_completion cpl (ct_admin_cq (nv_ctrl s));
       Some (s\<lparr>nv_aer_head := (nv_aer_head s + 1) mod NVME_AER_QUEUE_SIZE, nv_aer_count := nv_aer_count s - 1,
               nv_ctrl := (nv_ctrl s)\<lparr>ct_admin_cq := cq\<rparr>,
               nv_aer_pending := (nv_aer_pending s)[i := (nv_aer_pending s ! i)\<lparr>ap_active := False\<rparr>]\<rparr>)
     }"

partial_function (option) aer_try_complete :: "nvme_sys \<Rightarrow> nvme_sys option" where
  "aer_try_complete s =
     (if nv_aer_count s = 0 then Some s
      else (case aer_first_pending (nv_aer_pending s) of
              None \<Rightarrow> Some s
            | Some i \<Rightarrow> do { s \<leftarrow> aer_complete_one i s; aer_try_complete s }))"

section \<open>Temperature\<close>

definition upd_sensor :: "nat \<Rightarrow> (nvme_temp_sensor \<Rightarrow> nvme_temp_sensor) \<Rightarrow> nvme_sys \<Rightarrow> nvme_sys" where
  "upd_sensor i f s = s\<lparr>nv_temp := (nv_temp s)[i := f (nv_temp s ! i)]\<rparr>"

definition check_critical :: "nvme_sys \<Rightarrow> nvme_sys" where
  "check_critical s =
     (let comp = nv_temp s ! 0 in
      if ts_critical comp \<le> ts_current comp
      then
        let s = (if \<not> nv_critical_active s
                 then snd (nvme_ctrl_post_aer_event NVME_AER_TYPE_SMART_HEALTH 1 NVME_LOG_SMART_HEALTH
                        (s\<lparr>nv_critical_active := True\<rparr>))
                 else s) in
        s\<lparr>nv_critical_time := nv_critical_time s + 1\<rparr>
      else s\<lparr>nv_critical_active := False\<rparr>)"

definition check_warning :: "nvme_sys \<Rightarrow> nvme_sys" where
  "check_warning s =
     (let comp = nv_temp s ! 0 in
      if ts_warning comp \<le> ts_current comp
      then
        let s = (if \<not> nv_warning_active s
                 then snd (nvme_ctrl_post_aer_event NVME_AER_TYPE_SMART_HEALTH 1 NVME_LOG_SMART_HEALTH
                        (s\<lparr>nv_warning_active := True\<rparr>))
                 else s) in
        s\<lparr>nv_warning_time := nv_warning_time s + 1\<rparr>
      else s\<lparr>nv_warning_active := False\<rparr>)"

definition temp_check_thresholds :: "nvme_sys \<Rightarrow> nvme_sys" where
  "temp_check_thresholds s = check_warning (check_critical s)"

text \<open>The random walk of one sensor.\<close>

definition temp_walk :: "nat \<Rightarrow> u32 \<Rightarrow> nvme_temp_sensor \<Rightarrow> nvme_temp_sensor" where
  "temp_walk r io_activity t =
     (let new_temp = int (ts_current t) + int (r mod 3) - 1 + (if 0 < io_activity then 1 else - 1);
          new_temp = (if new_temp < int (ts_min_temp t) then int (ts_min_temp t) else new_temp);
          new_temp = (if int (ts_max_temp t) < new_temp then int (ts_max_temp t) else new_temp);
          current = nat (new_temp mod 65536) in
      t\<lparr>ts_current := current, ts_highest := (if ts_highest t < current then current else ts_highest t)\<rparr>)"

definition update_sensor :: "u32 \<Rightarrow> nat \<Rightarrow> nvme_sys \<Rightarrow> nvme_sys" where
  "update_sensor io_activity i s =
     (if ts_current (nv_temp s ! i) = 0 \<or> ts_min_temp (nv_temp s ! i) = 0 then s
      else upd_sensor i (temp_walk (nv_rand s (nv_rand_count s)) io_activity) (s\<lparr>nv_rand_count := nv_rand_count s + 1\<rparr>))"

definition nvme_ctrl_update_temperature :: "u32 \<Rightarrow> nvme_sys \<Rightarrow> nvme_sys" where
  "nvme_ctrl_update_temperature io_activity s =
     temp_check_thresholds (fold (update_sensor io_activity) [0..<NVME_TEMP_SENSOR_COUNT] s)"

section \<open>Administrative commands\<close>

definition complete :: "u32 \<Rightarrow> u16 \<Rightarrow> nvme_completion \<Rightarrow> nvme_completion" where
  "complete dw0 st cpl = set_completion_status st (cpl\<lparr>cp_dw0 := dw0\<rparr>)"

definition admin_identify :: "nvme_command \<Rightarrow> nvme_completion \<Rightarrow> nvme_completion" where
  "admin_identify cmd cpl =
     (if nc_cdw10 cmd AND 0xFF \<in> {0x01, 0x00, 0x02} then complete 0 NVME_SC_SUCCESS cpl
      else complete 0 NVME_SC_INVALID_FIELD cpl)"

definition admin_get_log_page :: "nvme_command \<Rightarrow> nvme_completion \<Rightarrow> nvme_completion" where
  "admin_get_log_page cmd cpl = complete 0 NVME_SC_SUCCESS cpl"

definition low16 :: "u32 \<Rightarrow> u16" where "low16 w = ucast (w AND 0xFFFF)"
definition high16 :: "u32 \<Rightarrow> u16" where "high16 w = ucast (drop_bit 16 w AND 0xFFFF)"

definition admin_create_iocq :: "nvme_command \<Rightarrow> nvme_completion \<times> nvme_sys \<Rightarrow> nvme_completion \<times> nvme_sys" where
  "admin_create_iocq cmd = (\<lambda>(cpl, s).
     let qsize = unat (high16 (nc_cdw10 cmd));
         (entries, s) = calloc_array (qsize + 1) blank_completion s in
     (complete 0 NVME_SC_SUCCESS cpl,
      upd_ctrl (\<lambda>c. c\<lparr>ct_io_cq := \<lparr>cq_qid = low16 (nc_cdw10 cmd), cq_size = (qsize + 1) mod 65536, cq_head = 0, cq_tail = 0,
          cq_vector = low16 (nc_cdw11 cmd), cq_phase = True, cq_is_admin = False, cq_entries = entries\<rparr>,
        ct_io_cq_count := ct_io_cq_count c + 1\<rparr>) s))"

definition admin_create_iosq :: "nvme_command \<Rightarrow> nvme_completion \<times> nvme_sys \<Rightarrow> nvme_completion \<times> nvme_sys" where
  "admin_create_iosq cmd = (\<lambda>(cpl, s).
     let qsize = unat (high16 (nc_cdw10 cmd));
         (entries, s) = calloc_array (qsize + 1) blank_command s in
     (complete 0 NVME_SC_SUCCESS cpl,
      upd_ctrl (\<lambda>c. c\<lparr>ct_io_sq := \<lparr>sq_qid = low16 (nc_cdw10 cmd), sq_size = (qsize + 1) mod 65536, sq_head = 0, sq_tail = 0,
          sq_cqid = low16 (nc_cdw11 cmd), sq_is_admin = False, sq_entries = entries\<rparr>,
        ct_io_sq_count := ct_io_sq_count c + 1\<rparr>) s))"

text \<open>The number of queues granted for a requested number, both less one.\<close>

definition queues_granted :: "u16 \<Rightarrow> u16" where
  "queues_granted n = (if n < 2 then n else 1)"

definition admin_set_features :: "nvme_command \<Rightarrow> nvme_completion \<times> nvme_sys \<Rightarrow> nvme_completion \<times> nvme_sys" where
  "admin_set_features cmd = (\<lambda>(cpl, s).
     let fid = nc_cdw10 cmd AND 0xFF; v = nc_cdw11 cmd in
     if fid = 0x04
     then (complete v NVME_SC_SUCCESS cpl,
           if 0 < low16 v then upd_sensor 0 (\<lambda>t. t\<lparr>ts_warning := unat (low16 v)\<rparr>) s else s)
     else if fid = 0x07
     then (complete (push_bit 16 (ucast (queues_granted (high16 v))) OR ucast (queues_granted (low16 v))) NVME_SC_SUCCESS cpl, s)
     else if fid = 0x0B then (complete v NVME_SC_SUCCESS cpl, s\<lparr>nv_aer_mask := v AND 0x1F\<rparr>)
     else (complete v NVME_SC_SUCCESS cpl, s))"

definition admin_get_features :: "nvme_command \<Rightarrow> nvme_sys \<Rightarrow> nvme_completion \<Rightarrow> nvme_completion" where
  "admin_get_features cmd s cpl =
     (let fid = nc_cdw10 cmd AND 0xFF in
      complete (if fid = 0x04 then of_nat (ts_warning (nv_temp s ! 0))
                else if fid = 0x0B then nv_aer_mask s
                else if fid = 0x07 then push_bit 16 1 OR 1
                else 0) NVME_SC_SUCCESS cpl)"

text \<open>A request that can wait is marked by \<open>0xAE01\<close> in a reserved field of the completion.\<close>

definition AER_HELD :: u32 where "AER_HELD = 0xAE01"

definition admin_async_event :: "nvme_command \<Rightarrow> nvme_completion \<times> nvme_sys \<Rightarrow> nvme_completion \<times> nvme_sys" where
  "admin_async_event cmd = (\<lambda>(cpl, s).
     case find (\<lambda>i. \<not> ap_active (nv_aer_pending s ! i)) [0..<NVME_AER_MAX_PENDING] of
       None \<Rightarrow> (set_completion_status NVME_SC_AER_LIMIT_EXCEEDED cpl, s)
     | Some i \<Rightarrow>
         (cpl\<lparr>cp_rsvd1 := AER_HELD, cp_cid := nc_cid cmd, cp_sqid := 0\<rparr>,
          s\<lparr>nv_aer_pending := (nv_aer_pending s)[i := \<lparr>ap_active = True, ap_cid = nc_cid cmd\<rparr>]\<rparr>))"

definition admin_fw_download :: "nvme_command \<Rightarrow> nvme_completion \<times> nvme_sys \<Rightarrow> nvme_completion \<times> nvme_sys" where
  "admin_fw_download cmd = (\<lambda>(cpl, s).
     let offset_bytes = (push_bit 32 (ucast (nc_cdw11 cmd)) OR ucast (nc_cdw10 cmd)) * 4;
         data_len = 4096;
         s = (if offset_bytes = 0 then s\<lparr>nv_fw_download := \<lparr>fd_active = True, fd_downloaded_size = 0\<rparr>\<rparr> else s) in
     if \<not> fd_active (nv_fw_download s) then (set_completion_status NVME_SC_INVALID_FIELD cpl, s)
     else if offset_bytes \<noteq> fd_downloaded_size (nv_fw_download s) then (set_completion_status NVME_SC_INVALID_FIELD cpl, s)
     else if NVME_FW_MAX_IMAGE_SIZE < offset_bytes + data_len then (set_completion_status NVME_SC_INVALID_FIELD cpl, s)
     else (complete 0 NVME_SC_SUCCESS cpl,
           s\<lparr>nv_fw_download := (nv_fw_download s)\<lparr>fd_downloaded_size := fd_downloaded_size (nv_fw_download s) + data_len\<rparr>\<rparr>))"

definition upd_slot :: "nat \<Rightarrow> (nvme_fw_slot \<Rightarrow> nvme_fw_slot) \<Rightarrow> nvme_sys \<Rightarrow> nvme_sys" where
  "upd_slot i f s = s\<lparr>nv_fw_slots := (nv_fw_slots s)[i := f (nv_fw_slots s ! i)]\<rparr>"

definition fw_version_2_3_0 :: "u8 list" where
  "fw_version_2_3_0 = map of_char ''v2.3.0'' @ [0, 0]"

text \<open>The version string of the running firmware keeps seven characters.\<close>

definition fw_activate_now :: "nat \<Rightarrow> nvme_sys \<Rightarrow> nvme_sys" where
  "fw_activate_now slot s =
     (let s = (if 1 \<le> nv_fw_running s \<and> nv_fw_running s \<le> NVME_FW_SLOT_COUNT
               then upd_slot (nv_fw_running s - 1) (\<lambda>f. f\<lparr>fw_state := NVME_FW_SLOT_VALID\<rparr>) s else s);
          s = upd_slot (slot - 1) (\<lambda>f. f\<lparr>fw_state := NVME_FW_SLOT_RUNNING\<rparr>) s;
          s = s\<lparr>nv_fw_running := slot, nv_fw_next_boot := slot,
                nv_fw_version := take 7 (fw_version (nv_fw_slots s ! (slot - 1))) @ [0]\<rparr> in
      snd (nvme_ctrl_post_aer_event NVME_AER_TYPE_NOTICE 0 0x00 s))"

definition fw_commit :: "nat \<Rightarrow> nat \<Rightarrow> nvme_sys \<Rightarrow> nvme_sys" where
  "fw_commit slot action s =
     (let s = upd_slot (slot - 1) (\<lambda>_. \<lparr>fw_state = NVME_FW_SLOT_VALID, fw_version = fw_version_2_3_0,
                fw_image_size = ucast (fd_downloaded_size (nv_fw_download s))\<rparr>) s;
          s = s\<lparr>nv_fw_download := \<lparr>fd_active = False, fd_downloaded_size = 0\<rparr>\<rparr> in
      if action = 1 then s\<lparr>nv_fw_next_boot := slot\<rparr>
      else if action = 2 then fw_activate_now slot s
      else s)"

definition admin_fw_activate :: "nvme_command \<Rightarrow> nvme_completion \<times> nvme_sys \<Rightarrow> nvme_completion \<times> nvme_sys" where
  "admin_fw_activate cmd = (\<lambda>(cpl, s).
     let slot = unat (nc_cdw10 cmd AND 0x07); action = unat (drop_bit 8 (nc_cdw10 cmd) AND 0x07) in
     if slot < 1 \<or> NVME_FW_SLOT_COUNT < slot then (set_completion_status NVME_SC_INVALID_FW_SLOT cpl, s)
     else if action = 3
     then (if fw_state (nv_fw_slots s ! (slot - 1)) = NVME_FW_SLOT_EMPTY
           then (set_completion_status NVME_SC_INVALID_FW_IMAGE cpl, s)
           else (complete 0 NVME_SC_SUCCESS cpl, s\<lparr>nv_fw_next_boot := slot\<rparr>))
     else if \<not> fd_active (nv_fw_download s) \<or> fd_downloaded_size (nv_fw_download s) = 0
     then (set_completion_status NVME_SC_INVALID_FW_IMAGE cpl, s)
     else if action = 0 \<and> slot = nv_fw_running s then (set_completion_status NVME_SC_INVALID_FW_SLOT cpl, s)
     else (complete 0 NVME_SC_SUCCESS cpl, fw_commit slot action s))"

definition nvme_ctrl_process_admin_cmd :: "nvme_command \<Rightarrow> nvme_sys \<Rightarrow> nvme_completion \<times> nvme_sys" where
  "nvme_ctrl_process_admin_cmd cmd s =
     (let cpl = blank_completion\<lparr>cp_cid := nc_cid cmd, cp_sqid := 0\<rparr>; op = nc_opcode cmd in
      if op = NVME_ADMIN_CREATE_IOSQ then admin_create_iosq cmd (cpl, s)
      else if op = NVME_ADMIN_GET_LOG_PAGE then (admin_get_log_page cmd cpl, s)
      else if op = NVME_ADMIN_CREATE_IOCQ then admin_create_iocq cmd (cpl, s)
      else if op = NVME_ADMIN_IDENTIFY then (admin_identify cmd cpl, s)
      else if op = NVME_ADMIN_SET_FEATURES then admin_set_features cmd (cpl, s)
      else if op = NVME_ADMIN_GET_FEATURES then (admin_get_features cmd s cpl, s)
      else if op = NVME_ADMIN_ASYNC_EVENT then admin_async_event cmd (cpl, s)
      else if op = NVME_ADMIN_FW_DOWNLOAD then admin_fw_download cmd (cpl, s)
      else if op = NVME_ADMIN_FW_ACTIVATE then admin_fw_activate cmd (cpl, s)
      else if op \<in> {NVME_ADMIN_DELETE_IOSQ, NVME_ADMIN_DELETE_IOCQ, NVME_ADMIN_ABORT, NVME_ADMIN_FORMAT_NVM,
                   NVME_ADMIN_KEEP_ALIVE}
      then (set_completion_status NVME_SC_SUCCESS cpl, s)
      else (set_completion_status NVME_SC_INVALID_OPCODE cpl, s))"

end
