(* ===== verification/NvmeIo.thy ===== *)
theory NvmeIo
  imports NvmeCtrl
begin

text \<open>
  The NVMe controller, continued: data commands, the processing of the queues, set up, registers,
  doorbells, and the structures handed to the host, of \<open>src/protocol/nvme/nvme_controller.c\<close>.
\<close>

section \<open>Data commands\<close>

text \<open>Read, write, flush and TRIM do not reach the FTL; their calls of it are commented out in the source.\<close>

definition io_read :: "nvme_command \<Rightarrow> nvme_completion \<Rightarrow> nvme_completion" where
  "io_read cmd cpl = complete 0 NVME_SC_SUCCESS cpl"

definition io_write :: "nvme_command \<Rightarrow> nvme_completion \<Rightarrow> nvme_completion" where
  "io_write cmd cpl = complete 0 NVME_SC_SUCCESS cpl"

definition io_flush :: "nvme_command \<Rightarrow> nvme_completion \<Rightarrow> nvme_completion" where
  "io_flush cmd cpl = complete 0 NVME_SC_SUCCESS cpl"

definition io_dataset_mgmt :: "nvme_command \<Rightarrow> nvme_completion \<Rightarrow> nvme_completion" where
  "io_dataset_mgmt cmd cpl = complete 0 NVME_SC_SUCCESS cpl"

definition nvme_slba :: "nvme_command \<Rightarrow> u64" where
  "nvme_slba cmd = push_bit 32 (ucast (nc_cdw11 cmd)) OR ucast (nc_cdw10 cmd)"

text \<open>The number of blocks, in 16 bits.\<close>

definition nvme_nlb :: "nvme_command \<Rightarrow> nat" where
  "nvme_nlb cmd = (unat (nc_cdw12 cmd AND 0xFFFF) + 1) mod 65536"

definition zero_page :: "u8 list" where
  "zero_page = replicate 4096 0"

definition nvme_lpn :: "nvme_command \<Rightarrow> nat \<Rightarrow> nat" where
  "nvme_lpn cmd i = unat (ucast (nvme_slba cmd + of_nat i) :: u32)"

definition write_zeroes_body :: "nvme_command \<Rightarrow> nat \<Rightarrow> ftl_dev \<Rightarrow> (u16, ftl_dev) ctl option" where
  "write_zeroes_body cmd i f =
     do {
       (ret, f) \<leftarrow> ftl_write f (nvme_lpn cmd i) (Some zero_page);
       Some (if ret \<noteq> RET_OK then Leave NVME_SC_INTERNAL_ERROR f else Next f)
     }"

definition io_write_zeroes :: "nvme_command \<Rightarrow> nvme_completion \<times> nvme_sys \<Rightarrow> (nvme_completion \<times> nvme_sys) option" where
  "io_write_zeroes cmd = (\<lambda>(cpl, s).
     do {
       r \<leftarrow> for_each [0..<nvme_nlb cmd] (write_zeroes_body cmd) (nv_ftl s);
       Some (case r of
               Leave st f \<Rightarrow> (set_completion_status st cpl, s\<lparr>nv_ftl := f\<rparr>)
             | Next f \<Rightarrow> (set_completion_status NVME_SC_SUCCESS cpl, s\<lparr>nv_ftl := f\<rparr>))
     })"

definition nvme_ctrl_process_io_cmd :: "nvme_command \<Rightarrow> nvme_sys \<Rightarrow> (nvme_completion \<times> nvme_sys) option" where
  "nvme_ctrl_process_io_cmd cmd s =
     (let cpl = blank_completion\<lparr>cp_cid := nc_cid cmd, cp_sqid := sq_qid (ct_io_sq (nv_ctrl s))\<rparr>; op = nc_opcode cmd in
      if op = NVME_IO_FLUSH then Some (io_flush cmd cpl, s)
      else if op = NVME_IO_WRITE then Some (io_write cmd cpl, s)
      else if op = NVME_IO_READ then Some (io_read cmd cpl, s)
      else if op = NVME_IO_WRITE_ZEROES then io_write_zeroes cmd (cpl, s)
      else if op = NVME_IO_DATASET_MGMT then Some (io_dataset_mgmt cmd cpl, s)
      else if op \<in> {NVME_IO_WRITE_UNCORRECTABLE, NVME_IO_COMPARE, NVME_IO_VERIFY}
      then Some (set_completion_status NVME_SC_SUCCESS cpl, s)
      else Some (set_completion_status NVME_SC_INVALID_OPCODE cpl, s))"

section \<open>Processing the queues\<close>

text \<open>
  The head of the submission queue that the loops put into the completion before the command is
  processed is erased again by the command, which clears the completion first.
\<close>

partial_function (option) admin_loop :: "nvme_sys \<Rightarrow> nvme_sys option" where
  "admin_loop s =
     (case sq_fetch_cmd (ct_admin_sq (nv_ctrl s)) of
        None \<Rightarrow> None
      | Some (None, _) \<Rightarrow> Some s
      | Some (Some cmd, sq) \<Rightarrow>
          (let (cpl, s) = nvme_ctrl_process_admin_cmd cmd (upd_ctrl (\<lambda>c. c\<lparr>ct_admin_sq := sq\<rparr>) s) in
           if cp_rsvd1 cpl = AER_HELD then admin_loop s
           else do {
             cq \<leftarrow> cq_post_completion cpl (ct_admin_cq (nv_ctrl s));
             admin_loop (upd_ctrl (\<lambda>c. c\<lparr>ct_admin_cq := cq\<rparr>) s)
           }))"

partial_function (option) io_loop :: "u32 \<Rightarrow> nvme_sys \<Rightarrow> (u32 \<times> nvme_sys) option" where
  "io_loop n s =
     (case sq_fetch_cmd (ct_io_sq (nv_ctrl s)) of
        None \<Rightarrow> None
      | Some (None, _) \<Rightarrow> Some (n, s)
      | Some (Some cmd, sq) \<Rightarrow>
          do {
            (cpl, s) \<leftarrow> nvme_ctrl_process_io_cmd cmd (upd_ctrl (\<lambda>c. c\<lparr>ct_io_sq := sq\<rparr>) s);
            cq \<leftarrow> cq_post_completion cpl (ct_io_cq (nv_ctrl s));
            io_loop (n + 1) (upd_ctrl (\<lambda>c. c\<lparr>ct_io_cq := cq\<rparr>) s)
          })"

definition temp_tick :: "u32 \<Rightarrow> nvme_sys \<Rightarrow> nvme_sys" where
  "temp_tick io_cmd_count s =
     (let s = s\<lparr>nv_temp_counter := nv_temp_counter s + 1\<rparr> in
      if 8 \<le> nv_temp_counter s then nvme_ctrl_update_temperature io_cmd_count (s\<lparr>nv_temp_counter := 0\<rparr>) else s)"

definition nvme_ctrl_process :: "nvme_sys \<Rightarrow> nvme_sys option" where
  "nvme_ctrl_process s =
     (if \<not> ct_initialized (nv_ctrl s) \<or> ct_state (nv_ctrl s) \<noteq> NVME_CTRL_STATE_READY then Some s
      else do {
        s \<leftarrow> admin_loop s;
        (n, s) \<leftarrow> (if sq_entries (ct_io_sq (nv_ctrl s)) \<noteq> None then io_loop 0 s else Some (0, s));
        s \<leftarrow> aer_try_complete s;
        Some (temp_tick n s)
      })"

section \<open>Set up\<close>

definition nvme_ctrl_aer_init :: "nvme_sys \<Rightarrow> nvme_sys" where
  "nvme_ctrl_aer_init s =
     s\<lparr>nv_aer_pending := replicate NVME_AER_MAX_PENDING \<lparr>ap_active = False, ap_cid = 0\<rparr>,
       nv_aer_queue := replicate NVME_AER_QUEUE_SIZE \<lparr>ae_event_type = 0, ae_event_info = 0, ae_log_page = 0\<rparr>,
       nv_aer_head := 0, nv_aer_tail := 0, nv_aer_count := 0, nv_aer_mask := 0x1F\<rparr>"

definition temp_sensor_init :: "nat \<Rightarrow> nat \<Rightarrow> nat \<Rightarrow> nat \<Rightarrow> nat \<Rightarrow> nvme_temp_sensor" where
  "temp_sensor_init current warning critical min_temp max_temp =
     \<lparr>ts_current = current, ts_warning = warning, ts_critical = critical, ts_highest = current, ts_min_temp = min_temp,
      ts_max_temp = max_temp\<rparr>"

definition nvme_ctrl_temp_init :: "nvme_sys \<Rightarrow> nvme_sys" where
  "nvme_ctrl_temp_init s =
     s\<lparr>nv_temp := [temp_sensor_init 313 343 358 293 363, temp_sensor_init 308 348 358 288 358,
         temp_sensor_init 308 348 358 288 358, temp_sensor_init 318 353 368 293 368,
         temp_sensor_init 300 328 338 283 323, temp_sensor_init 310 343 353 293 353,
         temp_sensor_init 0 0 0 0 0, temp_sensor_init 0 0 0 0 0],
       nv_warning_time := 0, nv_critical_time := 0, nv_warning_active := False, nv_critical_active := False,
       nv_temp_counter := 0\<rparr>"

definition fw_version_2_2_0 :: "u8 list" where
  "fw_version_2_2_0 = map of_char ''v2.2.0'' @ [0, 0]"

definition nvme_ctrl_fw_init :: "nvme_sys \<Rightarrow> nvme_sys" where
  "nvme_ctrl_fw_init s =
     s\<lparr>nv_fw_slots := \<lparr>fw_state = NVME_FW_SLOT_RUNNING, fw_version = fw_version_2_2_0, fw_image_size = 0\<rparr> #
         replicate 6 \<lparr>fw_state = NVME_FW_SLOT_EMPTY, fw_version = replicate 8 0, fw_image_size = 0\<rparr>,
       nv_fw_running := 1, nv_fw_next_boot := 1, nv_fw_version := fw_version_2_2_0,
       nv_fw_download := \<lparr>fd_active = False, fd_downloaded_size = 0\<rparr>\<rparr>"

definition zero_sq :: nvme_sq where
  "zero_sq = \<lparr>sq_qid = 0, sq_size = 0, sq_head = 0, sq_tail = 0, sq_cqid = 0, sq_is_admin = False, sq_entries = None\<rparr>"

definition zero_cq :: nvme_cq where
  "zero_cq = \<lparr>cq_qid = 0, cq_size = 0, cq_head = 0, cq_tail = 0, cq_vector = 0, cq_phase = False, cq_is_admin = False,
     cq_entries = None\<rparr>"

definition zero_regs :: nvme_ctrl_regs where
  "zero_regs = \<lparr>r_cap = 0, r_vs = 0, r_intms = 0, r_intmc = 0, r_cc = 0, r_csts = 0, r_nssr = 0, r_aqa = 0, r_asq = 0,
     r_acq = 0\<rparr>"

definition nvme_ctrl_init :: "nvme_sys \<Rightarrow> ret_code \<times> nvme_sys" where
  "nvme_ctrl_init s =
     (let s = nvme_ctrl_fw_init (nvme_ctrl_temp_init (nvme_ctrl_aer_init s));
          (sq_es, s) = calloc_array NVME_ADMIN_QSIZE blank_command s;
          (cq_es, s) = calloc_array NVME_ADMIN_QSIZE blank_completion s in
      (RET_OK,
       s\<lparr>nv_ctrl := \<lparr>ct_state = NVME_CTRL_STATE_RESET,
           ct_regs = zero_regs\<lparr>r_cap := 0x03FF OR push_bit 16 1 OR push_bit 36 0x0F, r_vs := NVME_VERSION\<rparr>,
           ct_admin_sq = zero_sq\<lparr>sq_size := NVME_ADMIN_QSIZE, sq_is_admin := True, sq_entries := sq_es\<rparr>,
           ct_admin_cq = zero_cq\<lparr>cq_size := NVME_ADMIN_QSIZE, cq_phase := True, cq_is_admin := True, cq_entries := cq_es\<rparr>,
           ct_io_sq = zero_sq, ct_io_cq = zero_cq, ct_io_sq_count = 0, ct_io_cq_count = 0,
           ct_namespace_size = 26214400, ct_lba_size = 4096, ct_initialized = True\<rparr>\<rparr>))"

text \<open>The pointers to the freed arrays stay; nothing follows them before the next initialisation.\<close>

definition nvme_ctrl_deinit :: "nvme_sys \<Rightarrow> ret_code \<times> nvme_sys" where
  "nvme_ctrl_deinit s =
     (if \<not> ct_initialized (nv_ctrl s) then (RET_OK, s)
      else (RET_OK, upd_ctrl (\<lambda>c. c\<lparr>ct_initialized := False, ct_state := NVME_CTRL_STATE_RESET\<rparr>) s))"

section \<open>Registers and doorbells\<close>

definition nvme_ctrl_write_cc :: "u32 \<Rightarrow> nvme_sys \<Rightarrow> nvme_sys" where
  "nvme_ctrl_write_cc value s =
     (let s = upd_regs (\<lambda>r. r\<lparr>r_cc := value\<rparr>) s in
      if value AND 0x01 \<noteq> 0
      then upd_regs (\<lambda>r. r\<lparr>r_csts := r_csts r OR 0x01\<rparr>) (upd_ctrl (\<lambda>c. c\<lparr>ct_state := NVME_CTRL_STATE_READY\<rparr>) s)
      else upd_regs (\<lambda>r. r\<lparr>r_csts := r_csts r AND NOT 0x01\<rparr>) (upd_ctrl (\<lambda>c. c\<lparr>ct_state := NVME_CTRL_STATE_RESET\<rparr>) s))"

definition nvme_ctrl_write_aqa :: "u32 \<Rightarrow> nvme_sys \<Rightarrow> nvme_sys" where
  "nvme_ctrl_write_aqa value = upd_regs (\<lambda>r. r\<lparr>r_aqa := value\<rparr>)"

text \<open>One half of a 64-bit register.\<close>

definition write_half :: "u32 \<Rightarrow> bool \<Rightarrow> u64 \<Rightarrow> u64" where
  "write_half value is_high w =
     (if is_high then (w AND 0xFFFFFFFF) OR push_bit 32 (ucast value) else (w AND 0xFFFFFFFF00000000) OR ucast value)"

definition nvme_ctrl_write_asq :: "u32 \<Rightarrow> bool \<Rightarrow> nvme_sys \<Rightarrow> nvme_sys" where
  "nvme_ctrl_write_asq value is_high = upd_regs (\<lambda>r. r\<lparr>r_asq := write_half value is_high (r_asq r)\<rparr>)"

definition nvme_ctrl_write_acq :: "u32 \<Rightarrow> bool \<Rightarrow> nvme_sys \<Rightarrow> nvme_sys" where
  "nvme_ctrl_write_acq value is_high = upd_regs (\<lambda>r. r\<lparr>r_acq := write_half value is_high (r_acq r)\<rparr>)"

definition nvme_ctrl_sq_doorbell :: "u16 \<Rightarrow> u32 \<Rightarrow> nvme_sys \<Rightarrow> nvme_sys option" where
  "nvme_ctrl_sq_doorbell qid value s =
     (let sq = (if qid = 0 then ct_admin_sq (nv_ctrl s) else ct_io_sq (nv_ctrl s)) in
      if sq_size sq = 0 then None
      else
        let sq = sq\<lparr>sq_tail := unat value mod sq_size sq\<rparr> in
        Some (upd_ctrl (\<lambda>c. if qid = 0 then c\<lparr>ct_admin_sq := sq\<rparr> else c\<lparr>ct_io_sq := sq\<rparr>) s))"

definition nvme_ctrl_cq_doorbell :: "u16 \<Rightarrow> u32 \<Rightarrow> nvme_sys \<Rightarrow> nvme_sys option" where
  "nvme_ctrl_cq_doorbell qid value s =
     (let cq = (if qid = 0 then ct_admin_cq (nv_ctrl s) else ct_io_cq (nv_ctrl s)) in
      if cq_size cq = 0 then None
      else
        let cq = cq\<lparr>cq_head := unat value mod cq_size cq\<rparr> in
        Some (upd_ctrl (\<lambda>c. if qid = 0 then c\<lparr>ct_admin_cq := cq\<rparr> else c\<lparr>ct_io_cq := cq\<rparr>) s))"

definition nvme_ctrl_get_state :: "nvme_sys \<Rightarrow> nvme_ctrl_state" where
  "nvme_ctrl_get_state s = ct_state (nv_ctrl s)"

definition nvme_ctrl_get_regs :: "nvme_sys \<Rightarrow> nvme_ctrl_regs" where
  "nvme_ctrl_get_regs s = ct_regs (nv_ctrl s)"

definition nvme_ctrl_read_reg :: "nat \<Rightarrow> nvme_sys \<Rightarrow> u32" where
  "nvme_ctrl_read_reg offset s =
     (let r = ct_regs (nv_ctrl s) in
      if offset = NVME_REG_CAP then ucast (r_cap r AND 0xFFFFFFFF)
      else if offset = NVME_REG_CAP + 4 then ucast (drop_bit 32 (r_cap r))
      else if offset = NVME_REG_VS then r_vs r
      else if offset = NVME_REG_INTMS then r_intms r
      else if offset = NVME_REG_INTMC then r_intmc r
      else if offset = NVME_REG_CC then r_cc r
      else if offset = NVME_REG_CSTS then r_csts r
      else if offset = NVME_REG_AQA then r_aqa r
      else if offset = NVME_REG_ASQ then ucast (r_asq r AND 0xFFFFFFFF)
      else if offset = NVME_REG_ASQ + 4 then ucast (drop_bit 32 (r_asq r))
      else if offset = NVME_REG_ACQ then ucast (r_acq r AND 0xFFFFFFFF)
      else if offset = NVME_REG_ACQ + 4 then ucast (drop_bit 32 (r_acq r))
      else 0)"

definition nvme_ctrl_write_reg :: "nat \<Rightarrow> u32 \<Rightarrow> nvme_sys \<Rightarrow> nvme_sys" where
  "nvme_ctrl_write_reg offset value s =
     (if offset = NVME_REG_INTMS then upd_regs (\<lambda>r. r\<lparr>r_intms := r_intms r OR value\<rparr>) s
      else if offset = NVME_REG_INTMC then upd_regs (\<lambda>r. r\<lparr>r_intmc := r_intmc r AND NOT value\<rparr>) s
      else if offset = NVME_REG_CC then nvme_ctrl_write_cc value s
      else if offset = NVME_REG_AQA then nvme_ctrl_write_aqa value s
      else if offset = NVME_REG_ASQ then nvme_ctrl_write_asq value False s
      else if offset = NVME_REG_ASQ + 4 then nvme_ctrl_write_asq value True s
      else if offset = NVME_REG_ACQ then nvme_ctrl_write_acq value False s
      else if offset = NVME_REG_ACQ + 4 then nvme_ctrl_write_acq value True s
      else s)"

section \<open>Structures for the host\<close>

text \<open>Runs of bytes written to a buffer at their offsets; a write past its end is undefined.\<close>

definition put_run :: "nat \<times> u8 list \<Rightarrow> u8 list \<Rightarrow> u8 list option" where
  "put_run = (\<lambda>(off, bs) buf.
     if off + length bs \<le> length buf then Some (take off buf @ bs @ drop (off + length bs) buf) else None)"

text \<open>The buffer is cleared for its stated length, then receives the runs.\<close>

definition fill_buffer :: "nat \<Rightarrow> (nat \<times> u8 list) list \<Rightarrow> u8 list \<Rightarrow> u8 list option" where
  "fill_buffer len runs buf =
     do { buf \<leftarrow> put_run (0, replicate len 0) buf; fold_option put_run runs buf }"

definition le16_bytes :: "nat \<Rightarrow> u8 list" where
  "le16_bytes n = [of_nat n, of_nat (n div 256)]"

definition smart_runs :: "nat \<Rightarrow> nvme_sys \<Rightarrow> (nat \<times> u8 list) list" where
  "smart_runs len s =
     [(0, [if nv_warning_active s \<or> nv_critical_active s then 0x02 else 0x00]),
      (1, le16_bytes (ts_current (nv_temp s ! 0))), (3, [0x64]), (4, [0x0A]), (5, [0x00]), (6, [0x00])] @
     (if 112 < len then [(112, [0x01])] else []) @
     (if 195 < len then [(192, u32_bytes (nv_warning_time s))] else []) @
     (if 199 < len then [(196, u32_bytes (nv_critical_time s))] else []) @
     map (\<lambda>i. (200 + i * 2, le16_bytes (ts_current (nv_temp s ! i))))
       (takeWhile (\<lambda>i. 200 + i * 2 + 1 < len) [0..<NVME_TEMP_SENSOR_COUNT])"

definition nvme_ctrl_fill_smart_log :: "u8 list option \<Rightarrow> nat \<Rightarrow> nvme_sys \<Rightarrow> u8 list option option" where
  "nvme_ctrl_fill_smart_log buf len s =
     (case buf of
        None \<Rightarrow> Some None
      | Some b \<Rightarrow> if len = 0 then Some (Some b) else map_option Some (fill_buffer len (smart_runs len s) b))"

definition fw_slot_runs :: "nat \<Rightarrow> nvme_sys \<Rightarrow> (nat \<times> u8 list) list" where
  "fw_slot_runs len s =
     [(0, [of_nat (nv_fw_running s)]), (1, [of_nat (nv_fw_next_boot s)])] @
     map (\<lambda>i. (8 + i * 8, fw_version (nv_fw_slots s ! i)))
       (filter (\<lambda>i. fw_state (nv_fw_slots s ! i) \<noteq> NVME_FW_SLOT_EMPTY)
         (takeWhile (\<lambda>i. 8 + i * 8 + 7 < len) [0..<NVME_FW_SLOT_COUNT]))"

definition nvme_ctrl_fill_fw_slot_log :: "u8 list option \<Rightarrow> nat \<Rightarrow> nvme_sys \<Rightarrow> u8 list option option" where
  "nvme_ctrl_fill_fw_slot_log buf len s =
     (case buf of
        None \<Rightarrow> Some None
      | Some b \<Rightarrow> if len = 0 then Some (Some b) else map_option Some (fill_buffer len (fw_slot_runs len s) b))"

definition identify_namespace_runs :: "(nat \<times> u8 list) list" where
  "identify_namespace_runs =
     [(0, u32_bytes 262144), (8, u32_bytes 262144), (16, u32_bytes 262144), (24, replicate 8 0),
      (128, [0x00, 0x00, 0x0C, 0x00])]"

definition nvme_ctrl_fill_identify_namespace :: "u8 list \<Rightarrow> nat \<Rightarrow> u32 \<Rightarrow> u8 list option" where
  "nvme_ctrl_fill_identify_namespace buf len nsid = fill_buffer len identify_namespace_runs buf"

definition identify_controller_runs :: "nvme_sys \<Rightarrow> (nat \<times> u8 list) list" where
  "identify_controller_runs s =
     [(0, [0x34, 0x12]), (2, [0x34, 0x12]), (4, map of_char ''FTLFW00000000000001''),
      (24, map of_char ''FTL-Firmware NVMe Controller''), (64, nv_fw_version s), (72, [0x07]), (73, [0x00, 0x00, 0x00]),
      (76, [0x00]), (77, [0x00]), (78, [0x01, 0x00]), (80, [0x00, 0x04, 0x01, 0x00]), (92, [0x01, 0x00, 0x00, 0x00]),
      (111, [0x00]), (320, [0x01, 0x00]), (256, [0x09, 0x00]), (258, [0x00]), (259, [0x03]), (260, [0x11]), (261, [0x00]),
      (262, [0x00]), (263, [0x00]), (264, [0x00]), (265, [0x00]), (266, le16_bytes (ts_warning (nv_temp s ! 0))),
      (268, le16_bytes (ts_critical (nv_temp s ! 0))), (512, [0x06]), (513, [0x04]), (514, [0xFF, 0x00]),
      (516, [0x01, 0x00, 0x00, 0x00]), (520, [0x00, 0x00]), (524, [0x00]), (525, [0x00]), (526, [0x00, 0x00]),
      (528, [0x00, 0x00]), (536, [0x00, 0x00, 0x00, 0x00]), (768, map of_char ''nqn.2026-08.io.ftlfw:subsystem''),
      (1792, [0x04, 0x00, 0x00, 0x00]), (1796, [0x01, 0x00, 0x00, 0x00]), (1800, [0x00, 0x00])]"

definition nvme_ctrl_fill_identify_controller :: "u8 list \<Rightarrow> nat \<Rightarrow> nvme_sys \<Rightarrow> u8 list option" where
  "nvme_ctrl_fill_identify_controller buf len s = fill_buffer len (identify_controller_runs s) buf"

end
