(* ===== verification/NvmeState.thy ===== *)
theory NvmeState
  imports NvmeIo BoundedFifo
begin

text \<open>
  The state of the NVMe controller: its rings as the queues of commands and completions they stand for,
  the well-formedness of rings, sensors, event queue and firmware slots, and what the temperature
  model and the administrative commands keep of it.
\<close>

section \<open>Submission and completion rings\<close>

text \<open>Rings of size zero come from a 16-bit size that wraps; nothing can be queued in them.\<close>

definition sq_ok :: "nvme_sq \<Rightarrow> bool" where
  "sq_ok q \<longleftrightarrow> (if sq_size q = 0 then sq_head q = 0 \<and> sq_tail q = 0
     else sq_head q < sq_size q \<and> sq_tail q < sq_size q \<and> (\<forall>es. sq_entries q = Some es \<longrightarrow> length es = sq_size q))"

definition cq_ok :: "nvme_cq \<Rightarrow> bool" where
  "cq_ok q \<longleftrightarrow> (if cq_size q = 0 then cq_head q = 0 \<and> cq_tail q = 0
     else cq_head q < cq_size q \<and> cq_tail q < cq_size q \<and> (\<forall>es. cq_entries q = Some es \<longrightarrow> length es = cq_size q))"

text \<open>The commands the host has queued and the completions it has not yet taken.\<close>

definition sq_pending :: "nvme_sq \<Rightarrow> nvme_command list" where
  "sq_pending q = ring (sq_size q) (sq_head q) (ring_count (sq_size q) (sq_head q) (sq_tail q)) ((!) (the (sq_entries q)))"

definition cq_waiting :: "nvme_cq \<Rightarrow> nvme_completion list" where
  "cq_waiting q = ring (cq_size q) (cq_head q) (ring_count (cq_size q) (cq_head q) (cq_tail q)) ((!) (the (cq_entries q)))"

lemma sq_fetch_empty: "sq_ok q \<Longrightarrow> sq_pending q = [] \<Longrightarrow> sq_fetch_cmd q = Some (None, q)"
  using ring_count_facts(3) [of "sq_head q" "sq_size q" "sq_tail q"]
  by (cases "sq_size q = 0") (auto simp: sq_ok_def sq_pending_def sq_fetch_cmd_def ring_def)

lemma sq_fetch_first:
  assumes "sq_ok q" "sq_entries q \<noteq> None" "sq_pending q = c # cs"
  defines "q' \<equiv> q\<lparr>sq_head := (sq_head q + 1) mod sq_size q\<rparr>"
  shows "sq_fetch_cmd q = Some (Some c, q')" "sq_ok q'" "sq_pending q' = cs"
proof -
  have n: "0 < sq_size q" "sq_head q < sq_size q" "sq_tail q < sq_size q"
    using assms(1,3) by (auto simp: sq_ok_def sq_pending_def ring_def ring_count_def split: if_splits)
  obtain es where es: "sq_entries q = Some es" "length es = sq_size q" using assms(1,2) n by (auto simp: sq_ok_def)
  have ne: "sq_head q \<noteq> sq_tail q"
    using assms(3) ring_count_facts(3) [OF n(2,3)] by (auto simp: sq_pending_def ring_def)
  have p: "sq_pending q = es ! sq_head q # ring (sq_size q) (Suc (sq_head q) mod sq_size q)
      (ring_count (sq_size q) (Suc (sq_head q) mod sq_size q) (sq_tail q)) ((!) es)"
    using ring_count_facts(4) [OF n(2,3) ne] n by (simp add: sq_pending_def es(1) ring_first)
  show "sq_fetch_cmd q = Some (Some c, q')" using p assms(3) ne es n by (simp add: sq_fetch_cmd_def q'_def)
  show "sq_ok q'" using assms(1) n by (simp add: sq_ok_def q'_def)
  show "sq_pending q' = cs" using p assms(3) es by (simp add: sq_pending_def q'_def)
qed

lemma cq_post_room:
  assumes "cq_ok q" "cq_entries q \<noteq> None" "length (cq_waiting q) + 1 < cq_size q"
  obtains q' where "cq_post_completion cpl q = Some q'" "cq_ok q'" "cq_entries q' \<noteq> None" "cq_size q' = cq_size q"
    "cq_waiting q' = cq_waiting q @ [cpl]"
proof -
  let ?n = "cq_size q" and ?h = "cq_head q" and ?t = "cq_tail q"
  let ?k = "ring_count ?n ?h ?t"
  have n: "0 < ?n" "?h < ?n" "?t < ?n" using assms(1,3) by (auto simp: cq_ok_def split: if_splits)
  obtain es where es: "cq_entries q = Some es" "length es = ?n" using assms(1,2) n by (auto simp: cq_ok_def)
  note f = ring_count_facts [OF n(2,3)]
  define q1 where "q1 = q\<lparr>cq_entries := Some (es[?t := cpl]), cq_tail := (?t + 1) mod ?n\<rparr>"
  define q' where "q' = (if cq_tail q1 = 0 then q1\<lparr>cq_phase := \<not> cq_phase q1\<rparr> else q1)"
  have post: "cq_post_completion cpl q = Some q'" using es n by (simp add: cq_post_completion_def q'_def q1_def Let_def)
  have q': "cq_size q' = ?n" "cq_head q' = ?h" "cq_tail q' = Suc ?t mod ?n" "cq_entries q' = Some (es[?t := cpl])"
    by (simp_all add: q'_def q1_def)
  have "length (cq_waiting q) = ?k" by (simp add: cq_waiting_def)
  then have room: "Suc ?k < ?n" using assms(3) by simp
  have "cq_waiting q' = ring ?n ?h (Suc ?k) ((!) (es[?t := cpl]))" using f(5) [OF room] by (simp add: cq_waiting_def q')
  also have "\<dots> = ring ?n ?h ?k ((!) (es[?t := cpl])) @ [cpl]" using f(2) es n by (simp add: ring_last flip: f(2))
  also have "ring ?n ?h ?k ((!) (es[?t := cpl])) = cq_waiting q"
    using ring_other [OF n(2) f(1) es(2), of cpl] by (simp add: cq_waiting_def es(1) flip: f(2))
  finally show thesis using post q' n es by (intro that [of q']) (simp_all add: cq_ok_def)
qed

lemma cq_post_ok: "cq_ok q \<Longrightarrow> cq_post_completion cpl q = Some q' \<Longrightarrow> cq_ok q' \<and> cq_size q' = cq_size q \<and> cq_entries q' \<noteq> None"
  by (auto simp: cq_post_completion_def cq_ok_def Let_def split: option.splits if_splits)

section \<open>The state of the controller\<close>

text \<open>A sensor stays in its range, and its record of the highest temperature is at least the current one.\<close>

definition sensor_ok :: "nvme_temp_sensor \<Rightarrow> bool" where
  "sensor_ok t \<longleftrightarrow> ts_min_temp t \<le> ts_current t \<and> ts_current t \<le> ts_max_temp t \<and> ts_max_temp t < 65536 \<and>
     ts_warning t < 65536 \<and> ts_current t \<le> ts_highest t"

definition temp_ok :: "nvme_sys \<Rightarrow> bool" where
  "temp_ok s \<longleftrightarrow> length (nv_temp s) = NVME_TEMP_SENSOR_COUNT \<and> (\<forall>t \<in> set (nv_temp s). sensor_ok t)"

definition aer_ok :: "nvme_sys \<Rightarrow> bool" where
  "aer_ok s \<longleftrightarrow> length (nv_aer_pending s) = NVME_AER_MAX_PENDING \<and> length (nv_aer_queue s) = NVME_AER_QUEUE_SIZE \<and>
     nv_aer_head s < NVME_AER_QUEUE_SIZE \<and> nv_aer_count s \<le> NVME_AER_QUEUE_SIZE \<and>
     nv_aer_tail s = (nv_aer_head s + nv_aer_count s) mod NVME_AER_QUEUE_SIZE"

definition fw_ok :: "nvme_sys \<Rightarrow> bool" where
  "fw_ok s \<longleftrightarrow> length (nv_fw_slots s) = NVME_FW_SLOT_COUNT \<and> (\<forall>f \<in> set (nv_fw_slots s). length (fw_version f) = 8) \<and>
     nv_fw_running s \<in> {1..NVME_FW_SLOT_COUNT} \<and> nv_fw_next_boot s \<in> {1..NVME_FW_SLOT_COUNT} \<and>
     length (nv_fw_version s) = 8 \<and> fd_downloaded_size (nv_fw_download s) \<le> NVME_FW_MAX_IMAGE_SIZE"

definition rings_ok :: "nvme_ctrl_dev \<Rightarrow> bool" where
  "rings_ok c \<longleftrightarrow> sq_ok (ct_admin_sq c) \<and> cq_ok (ct_admin_cq c) \<and> sq_ok (ct_io_sq c) \<and> cq_ok (ct_io_cq c)"

definition nvme_wf :: "nvme_sys \<Rightarrow> bool" where
  "nvme_wf s \<longleftrightarrow> temp_ok s \<and> aer_ok s \<and> fw_ok s \<and> rings_ok (nv_ctrl s)"

named_theorems nvme_defs

lemmas nvme_ok_defs = temp_ok_def aer_ok_def fw_ok_def

lemma upd_ctrl_sel [simp]:
  "nv_ctrl (upd_ctrl f s) = f (nv_ctrl s)" "temp_ok (upd_ctrl f s) = temp_ok s" "aer_ok (upd_ctrl f s) = aer_ok s"
  "fw_ok (upd_ctrl f s) = fw_ok s" "nv_ftl (upd_ctrl f s) = nv_ftl s"
  by (simp_all add: upd_ctrl_def nvme_ok_defs)

lemma upd_regs_sel [simp]:
  "nv_ctrl (upd_regs f s) = (nv_ctrl s)\<lparr>ct_regs := f (ct_regs (nv_ctrl s))\<rparr>" "temp_ok (upd_regs f s) = temp_ok s"
  "aer_ok (upd_regs f s) = aer_ok s" "fw_ok (upd_regs f s) = fw_ok s" "nv_ftl (upd_regs f s) = nv_ftl s"
  by (simp_all add: upd_regs_def)

lemma rings_ok_upd [simp]:
  "rings_ok (c\<lparr>ct_regs := r\<rparr>) = rings_ok c" "rings_ok (c\<lparr>ct_state := st\<rparr>) = rings_ok c"
  "rings_ok (c\<lparr>ct_initialized := b\<rparr>) = rings_ok c"
  by (simp_all add: rings_ok_def)

subsection \<open>Events\<close>

lemma aer_enqueue_facts:
  assumes "aer_ok s" "aer_enqueue e s = (ret, s')"
  shows "aer_ok s'" "temp_ok s' = temp_ok s" "fw_ok s' = fw_ok s" "nv_ctrl s' = nv_ctrl s" "nv_ftl s' = nv_ftl s"
    "nv_temp s' = nv_temp s" "nv_warning_active s' = nv_warning_active s" "nv_critical_active s' = nv_critical_active s"
    "nv_rand_count s' = nv_rand_count s"
  using assms by (auto simp: aer_enqueue_def nvme_ok_defs NVME_AER_QUEUE_SIZE_def mod_Suc_eq split: if_splits)

lemma post_aer_facts:
  assumes "aer_ok s" "s' = snd (nvme_ctrl_post_aer_event t i l s)"
  shows "aer_ok s'" "temp_ok s' = temp_ok s" "fw_ok s' = fw_ok s" "nv_ctrl s' = nv_ctrl s" "nv_ftl s' = nv_ftl s"
    "nv_temp s' = nv_temp s" "nv_warning_active s' = nv_warning_active s" "nv_critical_active s' = nv_critical_active s"
    "nv_rand_count s' = nv_rand_count s"
proof -
  have "s' = s \<or> (\<exists>e ret. aer_enqueue e s = (ret, s'))"
    using assms(2) by (auto simp: nvme_ctrl_post_aer_event_def prod_eq_iff)
  then have "aer_ok s' \<and> temp_ok s' = temp_ok s \<and> fw_ok s' = fw_ok s \<and> nv_ctrl s' = nv_ctrl s \<and> nv_ftl s' = nv_ftl s \<and>
    nv_temp s' = nv_temp s \<and> nv_warning_active s' = nv_warning_active s \<and> nv_critical_active s' = nv_critical_active s \<and>
    nv_rand_count s' = nv_rand_count s"
  proof (elim disjE exE)
    fix e ret
    assume "aer_enqueue e s = (ret, s')"
    from aer_enqueue_facts [OF assms(1) this] show ?thesis by simp
  qed (use assms(1) in simp)
  then show "aer_ok s'" "temp_ok s' = temp_ok s" "fw_ok s' = fw_ok s" "nv_ctrl s' = nv_ctrl s" "nv_ftl s' = nv_ftl s"
    "nv_temp s' = nv_temp s" "nv_warning_active s' = nv_warning_active s" "nv_critical_active s' = nv_critical_active s"
    "nv_rand_count s' = nv_rand_count s" by simp_all
qed

subsection \<open>Temperature\<close>

lemma sensor_ok_walk: "sensor_ok t \<Longrightarrow> ts_min_temp t \<noteq> 0 \<Longrightarrow> sensor_ok (temp_walk r io t)"
proof -
  assume t: "sensor_ok t" "ts_min_temp t \<noteq> 0"
  define n1 where "n1 = int (ts_current t) + int (r mod 3) - 1 + (if 0 < io then 1 else - 1)"
  define n2 where "n2 = (if n1 < int (ts_min_temp t) then int (ts_min_temp t) else n1)"
  define n3 where "n3 = (if int (ts_max_temp t) < n2 then int (ts_max_temp t) else n2)"
  have n3: "int (ts_min_temp t) \<le> n3" "n3 \<le> int (ts_max_temp t)" using t(1) by (auto simp: n3_def n2_def sensor_ok_def)
  then have c: "nat (n3 mod 65536) = nat n3" using t(1) by (simp add: sensor_ok_def)
  have "temp_walk r io t = t\<lparr>ts_current := nat n3, ts_highest := (if ts_highest t < nat n3 then nat n3 else ts_highest t)\<rparr>"
    unfolding c [symmetric] unfolding temp_walk_def Let_def n3_def n2_def n1_def by (rule refl)
  then show ?thesis using t(1) n3 by (auto simp: sensor_ok_def)
qed

lemma update_sensor_facts:
  assumes "temp_ok s" "i < NVME_TEMP_SENSOR_COUNT"
    and "s' = update_sensor io i s"
  shows "temp_ok s'" "aer_ok s' = aer_ok s" "fw_ok s' = fw_ok s" "nv_ctrl s' = nv_ctrl s" "nv_ftl s' = nv_ftl s"
proof -
  have i: "nv_temp s ! i \<in> set (nv_temp s)" "i < length (nv_temp s)" using assms(1,2) by (simp_all add: temp_ok_def)
  show "temp_ok s'"
  proof (cases "ts_current (nv_temp s ! i) = 0 \<or> ts_min_temp (nv_temp s ! i) = 0")
    case True
    with assms(1) show ?thesis by (simp add: assms(3) update_sensor_def)
  next
    case False
    with i assms(1) have "sensor_ok (temp_walk r io (nv_temp s ! i))" for r by (intro sensor_ok_walk) (auto simp: temp_ok_def)
    with False i assms(1) show ?thesis
      by (auto simp: assms(3) update_sensor_def upd_sensor_def temp_ok_def dest!: subsetD [OF set_update_subset_insert])
  qed
  show "aer_ok s' = aer_ok s" "fw_ok s' = fw_ok s" "nv_ctrl s' = nv_ctrl s" "nv_ftl s' = nv_ftl s"
    by (auto simp: assms(3) update_sensor_def upd_sensor_def nvme_ok_defs)
qed

lemma check_facts:
  assumes "aer_ok s"
  shows "aer_ok (check_critical s)" "temp_ok (check_critical s) = temp_ok s" "fw_ok (check_critical s) = fw_ok s"
    "nv_ctrl (check_critical s) = nv_ctrl s" "nv_ftl (check_critical s) = nv_ftl s" "nv_temp (check_critical s) = nv_temp s"
    and "aer_ok (check_warning s)" "temp_ok (check_warning s) = temp_ok s" "fw_ok (check_warning s) = fw_ok s"
    "nv_ctrl (check_warning s) = nv_ctrl s" "nv_ftl (check_warning s) = nv_ftl s" "nv_temp (check_warning s) = nv_temp s"
proof -
  have c: "aer_ok (t\<lparr>nv_critical_time := x\<rparr>) = aer_ok t" "aer_ok (t\<lparr>nv_warning_time := x\<rparr>) = aer_ok t"
    "aer_ok (t\<lparr>nv_critical_active := b\<rparr>) = aer_ok t" "aer_ok (t\<lparr>nv_warning_active := b\<rparr>) = aer_ok t"
    "temp_ok (t\<lparr>nv_critical_time := x\<rparr>) = temp_ok t" "temp_ok (t\<lparr>nv_warning_time := x\<rparr>) = temp_ok t"
    "temp_ok (t\<lparr>nv_critical_active := b\<rparr>) = temp_ok t" "temp_ok (t\<lparr>nv_warning_active := b\<rparr>) = temp_ok t"
    "fw_ok (t\<lparr>nv_critical_time := x\<rparr>) = fw_ok t" "fw_ok (t\<lparr>nv_warning_time := x\<rparr>) = fw_ok t"
    "fw_ok (t\<lparr>nv_critical_active := b\<rparr>) = fw_ok t" "fw_ok (t\<lparr>nv_warning_active := b\<rparr>) = fw_ok t" for t x b
    by (simp_all add: nvme_ok_defs)
  note p = post_aer_facts [of "s\<lparr>nv_critical_active := True\<rparr>", OF _ refl, of NVME_AER_TYPE_SMART_HEALTH 1 NVME_LOG_SMART_HEALTH]
    post_aer_facts [of "s\<lparr>nv_warning_active := True\<rparr>", OF _ refl, of NVME_AER_TYPE_SMART_HEALTH 1 NVME_LOG_SMART_HEALTH]
  show "aer_ok (check_critical s)" "temp_ok (check_critical s) = temp_ok s" "fw_ok (check_critical s) = fw_ok s"
    "nv_ctrl (check_critical s) = nv_ctrl s" "nv_ftl (check_critical s) = nv_ftl s" "nv_temp (check_critical s) = nv_temp s"
    "aer_ok (check_warning s)" "temp_ok (check_warning s) = temp_ok s" "fw_ok (check_warning s) = fw_ok s"
    "nv_ctrl (check_warning s) = nv_ctrl s" "nv_ftl (check_warning s) = nv_ftl s" "nv_temp (check_warning s) = nv_temp s"
    using assms p by (simp_all add: check_critical_def check_warning_def Let_def c)
qed

lemma update_temperature_facts:
  assumes "nvme_wf s" "s' = nvme_ctrl_update_temperature io s"
  shows "nvme_wf s'" "nv_ctrl s' = nv_ctrl s" "nv_ftl s' = nv_ftl s"
proof -
  have "temp_ok u \<and> aer_ok u \<and> fw_ok u \<and> nv_ctrl u = nv_ctrl s \<and> nv_ftl u = nv_ftl s"
    if "u = fold (update_sensor io) [0..<n] s" "n \<le> NVME_TEMP_SENSOR_COUNT" for n u
    using that
  proof (induction n arbitrary: u)
    case 0
    with assms(1) show ?case by (simp add: nvme_wf_def)
  next
    case (Suc n)
    define v where "v = fold (update_sensor io) [0..<n] s"
    have v: "temp_ok v \<and> aer_ok v \<and> fw_ok v \<and> nv_ctrl v = nv_ctrl s \<and> nv_ftl v = nv_ftl s"
      using Suc.IH [OF v_def] Suc.prems(2) by simp
    have "u = update_sensor io n v" using Suc.prems(1) by (simp add: v_def)
    from update_sensor_facts [OF _ _ this] v Suc.prems(2) show ?case by simp
  qed
  from this [OF refl order.refl] have "nvme_wf s' \<and> nv_ctrl s' = nv_ctrl s \<and> nv_ftl s' = nv_ftl s"
    using assms(1) by (simp add: assms(2) nvme_ctrl_update_temperature_def temp_check_thresholds_def nvme_wf_def check_facts)
  then show "nvme_wf s'" "nv_ctrl s' = nv_ctrl s" "nv_ftl s' = nv_ftl s" by simp_all
qed

subsection \<open>Administrative commands\<close>

text \<open>What a command leaves as it is: the administrative queues and the FTL.\<close>

definition same_admin :: "nvme_ctrl_dev \<Rightarrow> nvme_ctrl_dev \<Rightarrow> bool" where
  "same_admin c c' \<longleftrightarrow> ct_admin_sq c' = ct_admin_sq c \<and> ct_admin_cq c' = ct_admin_cq c \<and> ct_regs c' = ct_regs c \<and>
     ct_state c' = ct_state c \<and> ct_initialized c' = ct_initialized c"

lemma same_admin_refl [simp]: "same_admin c c"
  by (simp add: same_admin_def)

definition admin_keeps :: "nvme_sys \<Rightarrow> nvme_sys \<Rightarrow> bool" where
  "admin_keeps s s' \<longleftrightarrow> nvme_wf s' \<and> same_admin (nv_ctrl s) (nv_ctrl s') \<and> nv_ftl s' = nv_ftl s"

lemma admin_keeps_refl [simp]: "nvme_wf s \<Longrightarrow> admin_keeps s s"
  by (simp add: admin_keeps_def)

lemma calloc_array_facts:
  assumes "calloc_array n x s = (xs, s')"
  shows "temp_ok s' = temp_ok s" "aer_ok s' = aer_ok s" "fw_ok s' = fw_ok s" "nv_ctrl s' = nv_ctrl s" "nv_ftl s' = nv_ftl s"
    "xs \<noteq> None \<Longrightarrow> length (the xs) = n"
  using assms by (auto simp: calloc_array_def nvme_ok_defs split: if_splits)

lemma create_iocq_keeps: "nvme_wf s \<Longrightarrow> admin_keeps s (snd (admin_create_iocq cmd (cpl, s)))"
proof -
  assume wf: "nvme_wf s"
  define q where "q = unat (high16 (nc_cdw10 cmd))"
  obtain es t where c: "calloc_array (q + 1) blank_completion s = (es, t)" by (metis prod.exhaust)
  have q: "q < 65536" unfolding q_def by (rule order_less_le_trans [OF unsigned_less]) simp
  note f = calloc_array_facts [OF c]
  have "cq_ok \<lparr>cq_qid = i, cq_size = (q + 1) mod 65536, cq_head = 0, cq_tail = 0, cq_vector = v, cq_phase = True,
      cq_is_admin = False, cq_entries = es\<rparr>" for i v
    using f(6) q by (auto simp: cq_ok_def mod_if)
  with wf f show ?thesis
    by (simp add: admin_create_iocq_def c [simplified] admin_keeps_def nvme_wf_def rings_ok_def same_admin_def flip: q_def)
qed

lemma create_iosq_keeps: "nvme_wf s \<Longrightarrow> admin_keeps s (snd (admin_create_iosq cmd (cpl, s)))"
proof -
  assume wf: "nvme_wf s"
  define q where "q = unat (high16 (nc_cdw10 cmd))"
  obtain es t where c: "calloc_array (q + 1) blank_command s = (es, t)" by (metis prod.exhaust)
  have q: "q < 65536" unfolding q_def by (rule order_less_le_trans [OF unsigned_less]) simp
  note f = calloc_array_facts [OF c]
  have "sq_ok \<lparr>sq_qid = i, sq_size = (q + 1) mod 65536, sq_head = 0, sq_tail = 0, sq_cqid = v,
      sq_is_admin = False, sq_entries = es\<rparr>" for i v
    using f(6) q by (auto simp: sq_ok_def mod_if)
  with wf f show ?thesis
    by (simp add: admin_create_iosq_def c [simplified] admin_keeps_def nvme_wf_def rings_ok_def same_admin_def flip: q_def)
qed

lemma set_features_keeps: "nvme_wf s \<Longrightarrow> admin_keeps s (snd (admin_set_features cmd (cpl, s)))"
proof -
  assume wf: "nvme_wf s"
  then have t: "nv_temp s ! 0 \<in> set (nv_temp s)" by (simp add: nvme_wf_def temp_ok_def NVME_TEMP_SENSOR_COUNT_def)
  have "unat (low16 v) < 65536" for v by (rule order_less_le_trans [OF unsigned_less]) simp
  with wf t have "temp_ok (upd_sensor 0 (\<lambda>t. t\<lparr>ts_warning := unat (low16 (nc_cdw11 cmd))\<rparr>) s)"
    by (auto simp: nvme_wf_def temp_ok_def upd_sensor_def sensor_ok_def dest!: subsetD [OF set_update_subset_insert])
  then have "nvme_wf (upd_sensor 0 (\<lambda>t. t\<lparr>ts_warning := unat (low16 (nc_cdw11 cmd))\<rparr>) s)"
    using wf by (simp add: nvme_wf_def upd_sensor_def aer_ok_def fw_ok_def)
  moreover have "nvme_wf (s\<lparr>nv_aer_mask := m\<rparr>)" for m using wf by (simp add: nvme_wf_def nvme_ok_defs)
  ultimately show ?thesis using wf by (auto simp: admin_set_features_def Let_def admin_keeps_def upd_sensor_def)
qed

lemma async_event_keeps: "nvme_wf s \<Longrightarrow> admin_keeps s (snd (admin_async_event cmd (cpl, s)))"
  by (auto simp: admin_async_event_def admin_keeps_def nvme_wf_def nvme_ok_defs split: option.splits)

lemma fw_download_keeps: "nvme_wf s \<Longrightarrow> admin_keeps s (snd (admin_fw_download cmd (cpl, s)))"
proof -
  assume wf: "nvme_wf s"
  define off :: u64 where "off = (push_bit 32 (ucast (nc_cdw11 cmd)) OR ucast (nc_cdw10 cmd)) * 4"
  define t where "t = (if off = 0 then s\<lparr>nv_fw_download := \<lparr>fd_active = True, fd_downloaded_size = 0\<rparr>\<rparr> else s)"
  have t: "nvme_wf t" "nv_ctrl t = nv_ctrl s" "nv_ftl t = nv_ftl s"
    using wf by (auto simp: t_def nvme_wf_def nvme_ok_defs)
  have "fw_ok (t\<lparr>nv_fw_download := (nv_fw_download t)\<lparr>fd_downloaded_size := off + 4096\<rparr>\<rparr>)" if "off + 4096 \<le> NVME_FW_MAX_IMAGE_SIZE"
    using t(1) that by (simp add: nvme_wf_def fw_ok_def)
  then have "admin_keeps s (t\<lparr>nv_fw_download := (nv_fw_download t)\<lparr>fd_downloaded_size := off + 4096\<rparr>\<rparr>)"
    if "off + 4096 \<le> NVME_FW_MAX_IMAGE_SIZE"
    using t that by (simp add: admin_keeps_def nvme_wf_def temp_ok_def aer_ok_def)
  moreover have "admin_keeps s t" using t by (simp add: admin_keeps_def)
  moreover have "admin_fw_download cmd (cpl, s) =
     (if \<not> fd_active (nv_fw_download t) \<or> off \<noteq> fd_downloaded_size (nv_fw_download t) \<or> NVME_FW_MAX_IMAGE_SIZE < off + 4096
      then (set_completion_status NVME_SC_INVALID_FIELD cpl, t)
      else (complete 0 NVME_SC_SUCCESS cpl, t\<lparr>nv_fw_download := (nv_fw_download t)\<lparr>fd_downloaded_size := off + 4096\<rparr>\<rparr>))"
    unfolding admin_fw_download_def prod.case Let_def off_def t_def by auto
  ultimately show ?thesis by (auto simp: not_less)
qed

lemma upd_slot_facts:
  assumes "fw_ok s" "\<And>f. length (fw_version f) = 8 \<Longrightarrow> length (fw_version (g f)) = 8" "i < NVME_FW_SLOT_COUNT"
  shows "fw_ok (upd_slot i g s)"
proof -
  have "nv_fw_slots s ! i \<in> set (nv_fw_slots s)" using assms(1,3) by (simp add: fw_ok_def)
  with assms show ?thesis
    by (auto simp: fw_ok_def upd_slot_def dest!: subsetD [OF set_update_subset_insert])
qed

lemma upd_slot_sel [simp]:
  "temp_ok (upd_slot i g s) = temp_ok s" "aer_ok (upd_slot i g s) = aer_ok s" "nv_ctrl (upd_slot i g s) = nv_ctrl s"
  "nv_ftl (upd_slot i g s) = nv_ftl s" "nv_fw_running (upd_slot i g s) = nv_fw_running s"
  by (simp_all add: upd_slot_def nvme_ok_defs)

lemma fw_activate_now_facts:
  assumes "temp_ok s" "aer_ok s" "fw_ok s" "slot \<in> {1..NVME_FW_SLOT_COUNT}"
  defines "s' \<equiv> fw_activate_now slot s"
  shows "temp_ok s' \<and> aer_ok s' \<and> fw_ok s' \<and> nv_ctrl s' = nv_ctrl s \<and> nv_ftl s' = nv_ftl s"
proof -
  define t where "t = upd_slot (slot - 1) (\<lambda>f. f\<lparr>fw_state := NVME_FW_SLOT_RUNNING\<rparr>)
     (if 1 \<le> nv_fw_running s \<and> nv_fw_running s \<le> NVME_FW_SLOT_COUNT
      then upd_slot (nv_fw_running s - 1) (\<lambda>f. f\<lparr>fw_state := NVME_FW_SLOT_VALID\<rparr>) s else s)"
  have t: "fw_ok t" "temp_ok t" "aer_ok t" "nv_ctrl t = nv_ctrl s" "nv_ftl t = nv_ftl s"
    using assms(1-4) by (auto simp: t_def intro!: upd_slot_facts)
  define u where "u = t\<lparr>nv_fw_running := slot, nv_fw_next_boot := slot,
                nv_fw_version := take 7 (fw_version (nv_fw_slots t ! (slot - 1))) @ [0]\<rparr>"
  have "nv_fw_slots t ! (slot - 1) \<in> set (nv_fw_slots t)" using t(1) assms(4) by (auto simp: fw_ok_def)
  then have u: "fw_ok u" "temp_ok u" "aer_ok u" "nv_ctrl u = nv_ctrl s" "nv_ftl u = nv_ftl s"
    using t assms(4) by (simp_all add: u_def nvme_ok_defs)
  have "s' = snd (nvme_ctrl_post_aer_event NVME_AER_TYPE_NOTICE 0 0 u)"
    by (simp add: s'_def fw_activate_now_def Let_def u_def t_def)
  from post_aer_facts [OF u(3) this] u show ?thesis by simp
qed

lemma fw_commit_facts:
  assumes "temp_ok s" "aer_ok s" "fw_ok s" "slot \<in> {1..NVME_FW_SLOT_COUNT}" "s' = fw_commit slot action s"
  shows "temp_ok s' \<and> aer_ok s' \<and> fw_ok s' \<and> nv_ctrl s' = nv_ctrl s \<and> nv_ftl s' = nv_ftl s"
proof -
  define t where "t = upd_slot (slot - 1) (\<lambda>_. \<lparr>fw_state = NVME_FW_SLOT_VALID, fw_version = fw_version_2_3_0,
                fw_image_size = ucast (fd_downloaded_size (nv_fw_download s))\<rparr>) s"
  define u where "u = t\<lparr>nv_fw_download := \<lparr>fd_active = False, fd_downloaded_size = 0\<rparr>\<rparr>"
  have "fw_ok t" unfolding t_def using assms(3,4) by (intro upd_slot_facts) (auto simp: fw_version_2_3_0_def)
  then have u: "temp_ok u" "aer_ok u" "fw_ok u" "nv_ctrl u = nv_ctrl s" "nv_ftl u = nv_ftl s"
    using assms(1,2) by (simp_all add: u_def nvme_ok_defs) (simp_all add: t_def upd_slot_def)
  have "s' = (if action = 1 then u\<lparr>nv_fw_next_boot := slot\<rparr> else if action = 2 then fw_activate_now slot u else u)"
    by (simp add: assms(5) fw_commit_def Let_def u_def t_def)
  with u fw_activate_now_facts [OF u(1-3) assms(4)] assms(4) show ?thesis by (auto simp: nvme_ok_defs)
qed

lemma fw_activate_keeps: "nvme_wf s \<Longrightarrow> admin_keeps s (snd (admin_fw_activate cmd (cpl, s)))"
proof -
  assume wf: "nvme_wf s"
  define slot where "slot = unat (nc_cdw10 cmd AND 0x07)"
  define action where "action = unat (drop_bit 8 (nc_cdw10 cmd) AND 0x07)"
  have "admin_keeps s (s\<lparr>nv_fw_next_boot := slot\<rparr>)" "admin_keeps s (fw_commit slot action s)"
    if "slot \<in> {1..NVME_FW_SLOT_COUNT}"
    using wf that fw_commit_facts [of s slot _ action, OF _ _ _ _ refl] by (auto simp: admin_keeps_def nvme_wf_def nvme_ok_defs)
  then show ?thesis using wf by (auto simp: admin_fw_activate_def Let_def not_less simp flip: slot_def action_def)
qed

lemma admin_cmd_keeps:
  assumes "nvme_wf s"
  shows "admin_keeps s (snd (nvme_ctrl_process_admin_cmd cmd s))"
  using assms create_iocq_keeps create_iosq_keeps set_features_keeps async_event_keeps fw_download_keeps fw_activate_keeps
  by (simp add: nvme_ctrl_process_admin_cmd_def Let_def)

end
