(* ===== verification/NvmeLoops.thy ===== *)
theory NvmeLoops
  imports NvmeState
begin

text \<open>
  The processing loops of the NVMe controller: the administrative and the data loop answer a batch of
  commands in order, and the event loop hands queued events to waiting requests.
\<close>

section \<open>Queues of commands\<close>

text \<open>A burst of completions; in a ring with room for all of them they stand behind those already there.\<close>

definition post_all :: "nvme_completion list \<Rightarrow> nvme_cq \<Rightarrow> nvme_cq" where
  "post_all cpls q = fold (\<lambda>cpl q. the (cq_post_completion cpl q)) cpls q"

definition cq_usable :: "nvme_cq \<Rightarrow> bool" where
  "cq_usable q \<longleftrightarrow> cq_ok q \<and> cq_entries q \<noteq> None \<and> 0 < cq_size q"

definition sq_usable :: "nvme_sq \<Rightarrow> bool" where
  "sq_usable q \<longleftrightarrow> sq_ok q \<and> sq_entries q \<noteq> None"

lemma post_all_simps [simp]:
  "post_all [] q = q" "post_all (c # cs) q = post_all cs (the (cq_post_completion c q))"
  "post_all (xs @ ys) q = post_all ys (post_all xs q)"
  by (simp_all add: post_all_def)

lemma cq_post_defined:
  assumes "cq_usable q"
  shows "\<exists>q'. cq_post_completion cpl q = Some q' \<and> cq_usable q' \<and> cq_size q' = cq_size q"
proof -
  obtain es where "cq_entries q = Some es" "length es = cq_size q" "cq_tail q < cq_size q" "0 < cq_size q"
    using assms by (auto simp: cq_usable_def cq_ok_def split: if_splits)
  then obtain q' where q': "cq_post_completion cpl q = Some q'" by (simp add: cq_post_completion_def Let_def)
  with cq_post_ok [OF _ q'] assms show ?thesis by (auto simp: cq_usable_def)
qed

lemma post_all_usable: "cq_usable q \<Longrightarrow> cq_usable (post_all cpls q) \<and> cq_size (post_all cpls q) = cq_size q"
proof (induction cpls arbitrary: q)
  case (Cons c cs)
  from cq_post_defined [OF Cons.prems, of c] Cons.IH show ?case by auto
qed simp

lemma post_all_waiting:
  "cq_usable q \<Longrightarrow> length (cq_waiting q) + length cpls < cq_size q \<Longrightarrow> cq_waiting (post_all cpls q) = cq_waiting q @ cpls"
proof (induction cpls arbitrary: q)
  case (Cons c cs)
  obtain q' where q': "cq_post_completion c q = Some q'" "cq_ok q'" "cq_entries q' \<noteq> None" "cq_size q' = cq_size q"
    "cq_waiting q' = cq_waiting q @ [c]"
    by (rule cq_post_room [of q c]) (use Cons.prems in \<open>simp_all add: cq_usable_def\<close>)
  with Cons.IH [of q'] Cons.prems show ?case by (simp add: cq_usable_def)
qed simp

subsection \<open>Administrative commands\<close>

text \<open>What a batch of commands does apart from the rings: the completions in order, without the requests held back.\<close>

fun admin_batch :: "nvme_command list \<Rightarrow> nvme_sys \<Rightarrow> nvme_completion list \<times> nvme_sys" where
  "admin_batch [] s = ([], s)"
| "admin_batch (c # cs) s =
     (let (cpl, s) = nvme_ctrl_process_admin_cmd c s; (cpls, s) = admin_batch cs s in
      (if cp_rsvd1 cpl = AER_HELD then cpls else cpl # cpls, s))"

definition with_admin :: "nvme_sq \<Rightarrow> nvme_cq \<Rightarrow> nvme_sys \<Rightarrow> nvme_sys" where
  "with_admin sq cq = upd_ctrl (\<lambda>c. c\<lparr>ct_admin_sq := sq, ct_admin_cq := cq\<rparr>)"

lemma with_admin_simps [simp]:
  "with_admin a b (with_admin c d s) = with_admin a b s"
  "ct_admin_sq (nv_ctrl (with_admin a b s)) = a" "ct_admin_cq (nv_ctrl (with_admin a b s)) = b"
  "with_admin (ct_admin_sq (nv_ctrl s)) (ct_admin_cq (nv_ctrl s)) s = s"
  by (simp_all add: with_admin_def upd_ctrl_def)

lemma with_admin_eqs:
  "upd_ctrl (\<lambda>c. c\<lparr>ct_admin_sq := q\<rparr>) s = with_admin q (ct_admin_cq (nv_ctrl s)) s"
  "upd_ctrl (\<lambda>c. c\<lparr>ct_admin_cq := p\<rparr>) s = with_admin (ct_admin_sq (nv_ctrl s)) p s"
  by (simp_all add: with_admin_def upd_ctrl_def)

lemma nvme_wf_with_admin: "nvme_wf s \<Longrightarrow> sq_ok a \<Longrightarrow> cq_ok b \<Longrightarrow> nvme_wf (with_admin a b s)"
  by (simp add: nvme_wf_def with_admin_def rings_ok_def)

lemma aer_enqueue_frame: "aer_enqueue e (s\<lparr>nv_ctrl := c\<rparr>) = map_prod id (\<lambda>s. s\<lparr>nv_ctrl := c\<rparr>) (aer_enqueue e s)"
  by (simp add: aer_enqueue_def)

lemma post_aer_frame:
  "nvme_ctrl_post_aer_event t i l (s\<lparr>nv_ctrl := c\<rparr>) = map_prod id (\<lambda>s. s\<lparr>nv_ctrl := c\<rparr>) (nvme_ctrl_post_aer_event t i l s)"
  by (simp add: nvme_ctrl_post_aer_event_def aer_enqueue_frame)

lemma upd_slot_frame: "upd_slot i g (s\<lparr>nv_ctrl := c\<rparr>) = (upd_slot i g s)\<lparr>nv_ctrl := c\<rparr>"
  by (simp add: upd_slot_def)

lemma fw_activate_now_frame: "fw_activate_now slot (s\<lparr>nv_ctrl := c\<rparr>) = (fw_activate_now slot s)\<lparr>nv_ctrl := c\<rparr>"
proof -
  define h where "h = (\<lambda>s :: nvme_sys. upd_slot (slot - 1) (\<lambda>f. f\<lparr>fw_state := NVME_FW_SLOT_RUNNING\<rparr>)
     (if 1 \<le> nv_fw_running s \<and> nv_fw_running s \<le> NVME_FW_SLOT_COUNT
      then upd_slot (nv_fw_running s - 1) (\<lambda>f. f\<lparr>fw_state := NVME_FW_SLOT_VALID\<rparr>) s else s))"
  define k where "k = (\<lambda>s :: nvme_sys. s\<lparr>nv_fw_running := slot, nv_fw_next_boot := slot,
                nv_fw_version := take 7 (fw_version (nv_fw_slots s ! (slot - 1))) @ [0]\<rparr>)"
  have "h (s\<lparr>nv_ctrl := c\<rparr>) = (h s)\<lparr>nv_ctrl := c\<rparr>" by (simp add: h_def upd_slot_frame)
  moreover have "k (t\<lparr>nv_ctrl := c\<rparr>) = (k t)\<lparr>nv_ctrl := c\<rparr>" for t :: nvme_sys by (simp add: k_def)
  moreover have "fw_activate_now slot t = snd (nvme_ctrl_post_aer_event NVME_AER_TYPE_NOTICE 0 0 (k (h t)))" for t
    by (simp add: fw_activate_now_def Let_def h_def k_def)
  ultimately show ?thesis by (simp add: post_aer_frame)
qed

lemma fw_commit_frame: "fw_commit slot a (s\<lparr>nv_ctrl := c\<rparr>) = (fw_commit slot a s)\<lparr>nv_ctrl := c\<rparr>"
proof -
  define h where "h = (\<lambda>s :: nvme_sys. (upd_slot (slot - 1) (\<lambda>_. \<lparr>fw_state = NVME_FW_SLOT_VALID, fw_version = fw_version_2_3_0,
                fw_image_size = ucast (fd_downloaded_size (nv_fw_download s))\<rparr>) s)
      \<lparr>nv_fw_download := \<lparr>fd_active = False, fd_downloaded_size = 0\<rparr>\<rparr>)"
  have "h (s\<lparr>nv_ctrl := c\<rparr>) = (h s)\<lparr>nv_ctrl := c\<rparr>" by (simp add: h_def upd_slot_frame)
  moreover have "fw_commit slot a t = (if a = 1 then (h t)\<lparr>nv_fw_next_boot := slot\<rparr>
      else if a = 2 then fw_activate_now slot (h t) else h t)" for t
    by (simp add: fw_commit_def Let_def h_def)
  ultimately show ?thesis by (simp add: fw_activate_now_frame)
qed

lemma admin_cmd_frame:
  "nvme_ctrl_process_admin_cmd c (with_admin a b s) = map_prod id (with_admin a b) (nvme_ctrl_process_admin_cmd c s)"
proof -
  have w: "with_admin a b t = t\<lparr>nv_ctrl := (nv_ctrl t)\<lparr>ct_admin_sq := a, ct_admin_cq := b\<rparr>\<rparr>" for t
    by (simp add: with_admin_def upd_ctrl_def)
  have n: "nv_ctrl (fw_commit i j s) = nv_ctrl s" for i j
  proof -
    have "fw_commit i j s = fw_commit i j (s\<lparr>nv_ctrl := nv_ctrl s\<rparr>)" by simp
    also have "\<dots> = (fw_commit i j s)\<lparr>nv_ctrl := nv_ctrl s\<rparr>" by (rule fw_commit_frame)
    finally have "nv_ctrl (fw_commit i j s) = nv_ctrl ((fw_commit i j s)\<lparr>nv_ctrl := nv_ctrl s\<rparr>)" by simp
    then show ?thesis by simp
  qed
  have "admin_create_iosq c (cpl, with_admin a b s) = map_prod id (with_admin a b) (admin_create_iosq c (cpl, s))"
    "admin_create_iocq c (cpl, with_admin a b s) = map_prod id (with_admin a b) (admin_create_iocq c (cpl, s))" for cpl
    by (simp_all add: admin_create_iosq_def admin_create_iocq_def calloc_array_def upd_ctrl_def w Let_def)
  moreover have "admin_set_features c (cpl, with_admin a b s) = map_prod id (with_admin a b) (admin_set_features c (cpl, s))" for cpl
    by (simp add: admin_set_features_def upd_sensor_def w Let_def)
  moreover have "admin_async_event c (cpl, with_admin a b s) = map_prod id (with_admin a b) (admin_async_event c (cpl, s))" for cpl
    by (simp add: admin_async_event_def w split: option.split)
  moreover have "admin_fw_download c (cpl, with_admin a b s) = map_prod id (with_admin a b) (admin_fw_download c (cpl, s))" for cpl
    by (auto simp: admin_fw_download_def w Let_def)
  moreover have "admin_fw_activate c (cpl, with_admin a b s) = map_prod id (with_admin a b) (admin_fw_activate c (cpl, s))" for cpl
    by (simp add: admin_fw_activate_def w Let_def fw_commit_frame n)
  moreover have "admin_get_features c (with_admin a b s) cpl = admin_get_features c s cpl" for cpl
    by (simp add: admin_get_features_def w Let_def)
  ultimately show ?thesis by (simp add: nvme_ctrl_process_admin_cmd_def Let_def)
qed

lemma admin_batch_frame: "admin_batch cs (with_admin a b s) = map_prod id (with_admin a b) (admin_batch cs s)"
proof (induction cs arbitrary: s)
  case (Cons c cs)
  obtain cpl t where t: "nvme_ctrl_process_admin_cmd c s = (cpl, t)" by (metis prod.exhaust)
  obtain cpls u where u: "admin_batch cs t = (cpls, u)" by (metis prod.exhaust)
  from Cons.IH [of t] show ?case by (simp add: admin_cmd_frame t u)
qed simp

lemma admin_batch_keeps: "nvme_wf s \<Longrightarrow> admin_keeps s (snd (admin_batch cs s))"
proof (induction cs arbitrary: s)
  case (Cons c cs)
  obtain cpl t where t: "nvme_ctrl_process_admin_cmd c s = (cpl, t)" by (metis prod.exhaust)
  obtain cpls u where u: "admin_batch cs t = (cpls, u)" by (metis prod.exhaust)
  from admin_cmd_keeps [OF Cons.prems, of c] Cons.IH [of t] t u show ?case
    by (auto simp: admin_keeps_def same_admin_def)
qed simp

lemma admin_loop_runs:
  assumes "sq_usable (ct_admin_sq (nv_ctrl s))" "cq_usable (ct_admin_cq (nv_ctrl s))"
    and "sq_pending (ct_admin_sq (nv_ctrl s)) = cs" "admin_batch cs s = (cpls, t)"
  shows "\<exists>sq. admin_loop s = Some (with_admin sq (post_all cpls (ct_admin_cq (nv_ctrl s))) t) \<and> sq_usable sq \<and> sq_pending sq = []"
  using assms
proof (induction cs arbitrary: s cpls t)
  case Nil
  let ?q = "ct_admin_sq (nv_ctrl s)"
  have "sq_fetch_cmd ?q = Some (None, ?q)" using Nil.prems by (intro sq_fetch_empty) (simp_all add: sq_usable_def)
  then have "admin_loop s = Some s" by (subst admin_loop.simps) simp
  with Nil.prems show ?case by (intro exI [of _ ?q]) simp
next
  case (Cons c cs)
  let ?q = "ct_admin_sq (nv_ctrl s)" and ?p = "ct_admin_cq (nv_ctrl s)"
  define q' where "q' = ?q\<lparr>sq_head := (sq_head ?q + 1) mod sq_size ?q\<rparr>"
  note f = sq_fetch_first [of ?q c cs, folded q'_def]
  have q': "sq_fetch_cmd ?q = Some (Some c, q')" "sq_usable q'" "sq_pending q' = cs"
    using Cons.prems f by (simp_all add: sq_usable_def) (simp add: q'_def)
  obtain cpl s1 where s1: "nvme_ctrl_process_admin_cmd c s = (cpl, s1)" by (metis prod.exhaust)
  obtain cpls' where b: "admin_batch cs s1 = (cpls', t)" "cpls = (if cp_rsvd1 cpl = AER_HELD then cpls' else cpl # cpls')"
    using Cons.prems(4) s1 by (auto split: prod.splits)
  have proc: "nvme_ctrl_process_admin_cmd c (with_admin q' ?p s) = (cpl, with_admin q' ?p s1)"
    by (simp add: admin_cmd_frame s1)
  show ?case
  proof (cases "cp_rsvd1 cpl = AER_HELD")
    case True
    then have l: "admin_loop s = admin_loop (with_admin q' ?p s1)"
      by (subst admin_loop.simps) (simp add: q'(1) with_admin_eqs proc)
    from Cons.IH [of "with_admin q' ?p s1"] q' Cons.prems(2) b True show ?thesis by (simp add: l admin_batch_frame)
  next
    case False
    obtain p' where p': "cq_post_completion cpl ?p = Some p'" "cq_usable p'" using cq_post_defined [OF Cons.prems(2)] by blast
    have l: "admin_loop s = admin_loop (with_admin q' p' s1)"
      using False by (subst admin_loop.simps) (simp add: q'(1) with_admin_eqs proc p')
    from Cons.IH [of "with_admin q' p' s1"] q' p' b False show ?thesis by (simp add: l admin_batch_frame)
  qed
qed

subsection \<open>Data commands\<close>

fun io_batch :: "nvme_command list \<Rightarrow> nvme_sys \<Rightarrow> (nvme_completion list \<times> nvme_sys) option" where
  "io_batch [] s = Some ([], s)"
| "io_batch (c # cs) s =
     do {
       (cpl, s) \<leftarrow> nvme_ctrl_process_io_cmd c s;
       (cpls, s) \<leftarrow> io_batch cs s;
       Some (cpl # cpls, s)
     }"

definition with_io :: "nvme_sq \<Rightarrow> nvme_cq \<Rightarrow> nvme_sys \<Rightarrow> nvme_sys" where
  "with_io sq cq = upd_ctrl (\<lambda>c. c\<lparr>ct_io_sq := sq, ct_io_cq := cq\<rparr>)"

lemma with_io_simps [simp]:
  "with_io a b (with_io c d s) = with_io a b s"
  "ct_io_sq (nv_ctrl (with_io a b s)) = a" "ct_io_cq (nv_ctrl (with_io a b s)) = b"
  "with_io (ct_io_sq (nv_ctrl s)) (ct_io_cq (nv_ctrl s)) s = s"
  by (simp_all add: with_io_def upd_ctrl_def)

lemma with_io_eqs:
  "upd_ctrl (\<lambda>c. c\<lparr>ct_io_sq := q\<rparr>) s = with_io q (ct_io_cq (nv_ctrl s)) s"
  "upd_ctrl (\<lambda>c. c\<lparr>ct_io_cq := p\<rparr>) s = with_io (ct_io_sq (nv_ctrl s)) p s"
  by (simp_all add: with_io_def upd_ctrl_def)

lemma io_cmd_frame:
  assumes "sq_qid a = sq_qid (ct_io_sq (nv_ctrl s))"
  shows "nvme_ctrl_process_io_cmd c (with_io a b s) = map_option (map_prod id (with_io a b)) (nvme_ctrl_process_io_cmd c s)"
proof -
  have w: "with_io a b t = t\<lparr>nv_ctrl := (nv_ctrl t)\<lparr>ct_io_sq := a, ct_io_cq := b\<rparr>\<rparr>" for t
    by (simp add: with_io_def upd_ctrl_def)
  have "io_write_zeroes c (cpl, with_io a b s) = map_option (map_prod id (with_io a b)) (io_write_zeroes c (cpl, s))" for cpl
    by (cases "for_each [0..<nvme_nlb c] (write_zeroes_body c) (nv_ftl s)") (auto simp: io_write_zeroes_def w split: ctl.split)
  with assms show ?thesis by (simp add: nvme_ctrl_process_io_cmd_def Let_def)
qed

lemma io_cmd_ctrl: "nvme_ctrl_process_io_cmd c s = Some (cpl, s') \<Longrightarrow> \<exists>f. s' = s\<lparr>nv_ftl := f\<rparr>"
proof -
  assume r: "nvme_ctrl_process_io_cmd c s = Some (cpl, s')"
  have "s' = s \<or> (\<exists>cpl0. io_write_zeroes c (cpl0, s) = Some (cpl, s'))"
    using r by (auto simp: nvme_ctrl_process_io_cmd_def Let_def split: if_splits)
  moreover have "\<exists>f. t = s\<lparr>nv_ftl := f\<rparr>" if "io_write_zeroes c (cpl0, s) = Some (cpl1, t)" for cpl0 cpl1 t
  proof -
    from that obtain r where "(case r of Leave st f \<Rightarrow> (set_completion_status st cpl0, s\<lparr>nv_ftl := f\<rparr>)
             | Next f \<Rightarrow> (set_completion_status NVME_SC_SUCCESS cpl0, s\<lparr>nv_ftl := f\<rparr>)) = (cpl1, t)"
      by (cases "for_each [0..<nvme_nlb c] (write_zeroes_body c) (nv_ftl s)") (auto simp: io_write_zeroes_def)
    then show ?thesis by (cases r) auto
  qed
  moreover have "\<exists>f. s = s\<lparr>nv_ftl := f\<rparr>" by (intro exI [of _ "nv_ftl s"]) simp
  ultimately show ?thesis by blast
qed

lemma io_batch_frame:
  assumes "sq_qid a = sq_qid (ct_io_sq (nv_ctrl s))"
  shows "io_batch cs (with_io a b s) = map_option (map_prod id (with_io a b)) (io_batch cs s)"
  using assms
proof (induction cs arbitrary: s)
  case (Cons c cs)
  show ?case
  proof (cases "nvme_ctrl_process_io_cmd c s")
    case None
    with Cons.prems show ?thesis by (simp add: io_cmd_frame)
  next
    case (Some r)
    obtain cpl t where r: "r = (cpl, t)" by (cases r)
    from io_cmd_ctrl [of c s cpl t] Some r have "sq_qid a = sq_qid (ct_io_sq (nv_ctrl t))" using Cons.prems by auto
    from Cons.IH [OF this] Cons.prems Some r show ?thesis
      by (cases "io_batch cs t") (auto simp: io_cmd_frame)
  qed
qed simp

lemma io_batch_ctrl: "io_batch cs s = Some (cpls, s') \<Longrightarrow> (\<exists>f. s' = s\<lparr>nv_ftl := f\<rparr>) \<and> length cpls = length cs"
proof (induction cs arbitrary: s cpls)
  case Nil
  then show ?case by (auto intro!: exI [of _ "nv_ftl s"])
next
  case (Cons c cs)
  then obtain cpl t cpls' where "nvme_ctrl_process_io_cmd c s = Some (cpl, t)" "io_batch cs t = Some (cpls', s')" "cpls = cpl # cpls'"
    by (auto split: bind_splits prod.splits)
  moreover from io_cmd_ctrl [OF this(1)] obtain f where "t = s\<lparr>nv_ftl := f\<rparr>" by blast
  moreover from Cons.IH [OF calculation(2)] obtain g where "s' = t\<lparr>nv_ftl := g\<rparr>" "length cpls' = length cs" by blast
  ultimately show ?case by (auto intro!: exI [of _ g])
qed

lemma io_loop_runs:
  assumes "sq_usable (ct_io_sq (nv_ctrl s))" "cq_usable (ct_io_cq (nv_ctrl s))"
    and "sq_pending (ct_io_sq (nv_ctrl s)) = cs" "io_batch cs s = Some (cpls, t)"
  shows "\<exists>sq. io_loop n s = Some (n + of_nat (length cs), with_io sq (post_all cpls (ct_io_cq (nv_ctrl s))) t) \<and>
     sq_usable sq \<and> sq_pending sq = []"
  using assms
proof (induction cs arbitrary: s cpls t n)
  case Nil
  let ?q = "ct_io_sq (nv_ctrl s)"
  have "sq_fetch_cmd ?q = Some (None, ?q)" using Nil.prems by (intro sq_fetch_empty) (simp_all add: sq_usable_def)
  then have "io_loop n s = Some (n, s)" by (subst io_loop.simps) simp
  with Nil.prems show ?case by (intro exI [of _ ?q]) simp
next
  case (Cons c cs)
  let ?q = "ct_io_sq (nv_ctrl s)" and ?p = "ct_io_cq (nv_ctrl s)"
  define q' where "q' = ?q\<lparr>sq_head := (sq_head ?q + 1) mod sq_size ?q\<rparr>"
  note f = sq_fetch_first [of ?q c cs, folded q'_def]
  have q': "sq_fetch_cmd ?q = Some (Some c, q')" "sq_usable q'" "sq_pending q' = cs" "sq_qid q' = sq_qid ?q"
    using Cons.prems f by (simp_all add: sq_usable_def) (simp_all add: q'_def)
  from Cons.prems(4) obtain cpl s1 cpls' where s1: "nvme_ctrl_process_io_cmd c s = Some (cpl, s1)"
    and b: "io_batch cs s1 = Some (cpls', t)" "cpls = cpl # cpls'"
    by (auto split: bind_splits prod.splits)
  from io_cmd_ctrl [OF s1] obtain g where g: "s1 = s\<lparr>nv_ftl := g\<rparr>" by blast
  obtain p' where p': "cq_post_completion cpl ?p = Some p'" "cq_usable p'" using cq_post_defined [OF Cons.prems(2)] by blast
  have l: "io_loop n s = io_loop (n + 1) (with_io q' p' s1)"
    by (subst io_loop.simps) (simp add: q'(1,4) with_io_eqs io_cmd_frame s1 p')
  have "io_batch cs (with_io q' p' s1) = Some (cpls', with_io q' p' t)"
    using q'(4) b by (simp add: io_batch_frame g)
  with Cons.IH [of "with_io q' p' s1" cpls' "with_io q' p' t" "n + 1"] q' p' b show ?case by (simp add: l add.assoc)
qed

section \<open>Delivery of events\<close>

text \<open>The queued events, and the slots of the requests that wait for one.\<close>

definition aer_events :: "nvme_sys \<Rightarrow> nvme_aer_event list" where
  "aer_events s = ring NVME_AER_QUEUE_SIZE (nv_aer_head s) (nv_aer_count s) ((!) (nv_aer_queue s))"

definition aer_waiting :: "nvme_sys \<Rightarrow> nat list" where
  "aer_waiting s = filter (\<lambda>i. ap_active (nv_aer_pending s ! i)) [0..<NVME_AER_MAX_PENDING]"

definition aer_delivery :: "nvme_sys \<Rightarrow> nvme_completion list" where
  "aer_delivery s = map (\<lambda>(i, e). aer_completion (ap_cid (nv_aer_pending s ! i)) e (sq_head (ct_admin_sq (nv_ctrl s))))
     (zip (aer_waiting s) (aer_events s))"

lemma find_filter: "find P xs = (case filter P xs of [] \<Rightarrow> None | x # _ \<Rightarrow> Some x)"
  by (induction xs) auto

lemma aer_first_pending_waiting:
  "aer_first_pending (nv_aer_pending s) = (case aer_waiting s of [] \<Rightarrow> None | i # _ \<Rightarrow> Some i)"
  by (simp add: aer_first_pending_def aer_waiting_def find_filter)

lemma aer_events_Cons:
  assumes "nv_aer_head s < NVME_AER_QUEUE_SIZE" "nv_aer_count s = Suc k"
  shows "aer_events s = nv_aer_queue s ! nv_aer_head s #
     ring NVME_AER_QUEUE_SIZE (Suc (nv_aer_head s) mod NVME_AER_QUEUE_SIZE) k ((!) (nv_aer_queue s))"
  using assms by (simp add: aer_events_def ring_first)

interpretation aer: bounded_fifo
  "\<lambda>e s. snd (aer_enqueue e s)"
  "\<lambda>s. case aer_events s of [] \<Rightarrow> None
     | e # _ \<Rightarrow> Some (e, s\<lparr>nv_aer_head := (nv_aer_head s + 1) mod NVME_AER_QUEUE_SIZE, nv_aer_count := nv_aer_count s - 1\<rparr>)"
  aer_events id "\<lambda>_. NVME_AER_QUEUE_SIZE" aer_ok
proof
  fix s :: nvme_sys and e x xs
  assume ok: "aer_ok s"
  have len: "length (aer_events s) = nv_aer_count s" by (simp add: aer_events_def)
  show "aer_ok (snd (aer_enqueue e s)) \<and> NVME_AER_QUEUE_SIZE = NVME_AER_QUEUE_SIZE \<and>
      aer_events (snd (aer_enqueue e s)) = (if length (aer_events s) < NVME_AER_QUEUE_SIZE then aer_events s @ [id e] else aer_events s)"
  proof (cases "nv_aer_count s < NVME_AER_QUEUE_SIZE")
    case True
    define s' where "s' = snd (aer_enqueue e s)"
    have s': "nv_aer_head s' = nv_aer_head s" "nv_aer_count s' = Suc (nv_aer_count s)"
      "nv_aer_queue s' = (nv_aer_queue s)[(nv_aer_head s + nv_aer_count s) mod NVME_AER_QUEUE_SIZE := e]"
      using True ok by (simp_all add: s'_def aer_enqueue_def aer_ok_def)
    have "aer_events s' = aer_events s @ [e]"
      using ok True ring_other [of "nv_aer_head s" NVME_AER_QUEUE_SIZE "nv_aer_count s" "nv_aer_queue s" e]
      by (simp add: aer_events_def s' ring_last aer_ok_def NVME_AER_QUEUE_SIZE_def)
    with aer_enqueue_facts(1) [OF ok, of e "fst (aer_enqueue e s)" s'] True show ?thesis by (simp add: s'_def len)
  next
    case False
    with ok show ?thesis by (simp add: aer_enqueue_def len)
  qed
  show "length (aer_events s) \<le> NVME_AER_QUEUE_SIZE" using ok by (simp add: len aer_ok_def)
  show "\<exists>s'. (case aer_events s of [] \<Rightarrow> None
      | e # _ \<Rightarrow> Some (e, s\<lparr>nv_aer_head := (nv_aer_head s + 1) mod NVME_AER_QUEUE_SIZE, nv_aer_count := nv_aer_count s - 1\<rparr>)) = Some (x, s') \<and>
      aer_ok s' \<and> NVME_AER_QUEUE_SIZE = NVME_AER_QUEUE_SIZE \<and> aer_events s' = xs"
    if e: "aer_events s = x # xs"
  proof -
    obtain k where k: "nv_aer_count s = Suc k" using e len by (cases "nv_aer_count s") auto
    have h: "nv_aer_head s < NVME_AER_QUEUE_SIZE" using ok by (simp add: aer_ok_def)
    define s' where "s' = s\<lparr>nv_aer_head := (nv_aer_head s + 1) mod NVME_AER_QUEUE_SIZE, nv_aer_count := nv_aer_count s - 1\<rparr>"
    have "aer_events s' = xs" using aer_events_Cons [OF h k] e k by (simp add: s'_def aer_events_def)
    moreover have "aer_ok s'" using ok k by (auto simp: s'_def aer_ok_def NVME_AER_QUEUE_SIZE_def mod_simps)
    ultimately show ?thesis using e by (simp add: s'_def)
  qed
qed

lemma aer_complete_one_facts:
  assumes ok: "aer_ok s" and cq: "cq_usable (ct_admin_cq (nv_ctrl s))" and w: "aer_waiting s = i # is" and e: "aer_events s = e # es"
  defines "cpl \<equiv> aer_completion (ap_cid (nv_aer_pending s ! i)) e (sq_head (ct_admin_sq (nv_ctrl s)))"
  shows "\<exists>s'. aer_complete_one i s = Some s' \<and> aer_ok s' \<and> aer_waiting s' = is \<and> aer_events s' = es \<and>
     nv_ctrl s' = (nv_ctrl s)\<lparr>ct_admin_cq := the (cq_post_completion cpl (ct_admin_cq (nv_ctrl s)))\<rparr> \<and>
     cq_usable (ct_admin_cq (nv_ctrl s')) \<and> temp_ok s' = temp_ok s \<and> fw_ok s' = fw_ok s \<and> nv_ftl s' = nv_ftl s \<and>
     (\<forall>j \<in> set is. nv_aer_pending s' ! j = nv_aer_pending s ! j)"
proof -
  have len: "length (nv_aer_pending s) = 4" "nv_aer_head s < NVME_AER_QUEUE_SIZE" using ok by (simp_all add: aer_ok_def NVME_AER_MAX_PENDING_def)
  obtain k where k: "nv_aer_count s = Suc k" using e by (cases "nv_aer_count s") (auto simp: aer_events_def)
  note ev = aer_events_Cons [OF len(2) k]
  then have head: "nv_aer_queue s ! nv_aer_head s = e" using e by simp
  obtain q where q: "cq_post_completion cpl (ct_admin_cq (nv_ctrl s)) = Some q" "cq_usable q"
    using cq_post_defined [OF cq] by blast
  define s' where "s' = s\<lparr>nv_aer_head := (nv_aer_head s + 1) mod NVME_AER_QUEUE_SIZE, nv_aer_count := nv_aer_count s - 1,
               nv_ctrl := (nv_ctrl s)\<lparr>ct_admin_cq := q\<rparr>,
               nv_aer_pending := (nv_aer_pending s)[i := (nv_aer_pending s ! i)\<lparr>ap_active := False\<rparr>]\<rparr>"
  have res: "aer_complete_one i s = Some s'" by (simp add: aer_complete_one_def head q(1) s'_def flip: cpl_def)
  have "distinct (aer_waiting s)" by (simp add: aer_waiting_def)
  then have i: "i \<notin> set is" using w by simp
  have "i \<in> set (aer_waiting s)" using w by simp
  then have i4: "i < 4" by (simp add: aer_waiting_def NVME_AER_MAX_PENDING_def)
  have wait: "aer_waiting s' = is"
  proof -
    have "ap_active (nv_aer_pending s' ! j) \<longleftrightarrow> ap_active (nv_aer_pending s ! j) \<and> j \<noteq> i" for j
      using len(1) i4 by (cases "j = i") (simp_all add: s'_def)
    then have "aer_waiting s' = filter (\<lambda>j. j \<noteq> i) (aer_waiting s)" by (simp add: aer_waiting_def conj_commute)
    also have "\<dots> = is" using w i by (auto simp: filter_id_conv)
    finally show ?thesis .
  qed
  have "aer_events s' = es" using ev e k by (simp add: s'_def aer_events_def)
  moreover have "aer_ok s'" using ok k by (auto simp: s'_def aer_ok_def NVME_AER_QUEUE_SIZE_def mod_simps)
  moreover have "\<forall>j \<in> set is. nv_aer_pending s' ! j = nv_aer_pending s ! j" 
  proof
    fix j assume "j \<in> set is"
    then have "i \<noteq> j" using i by blast
    then show "nv_aer_pending s' ! j = nv_aer_pending s ! j" by (simp add: s'_def)
  qed
  moreover have "temp_ok s' = temp_ok s" "fw_ok s' = fw_ok s" "nv_ftl s' = nv_ftl s" "nv_ctrl s' = (nv_ctrl s)\<lparr>ct_admin_cq := q\<rparr>"
    by (simp_all add: s'_def temp_ok_def fw_ok_def)
  ultimately show ?thesis using res wait q by simp
qed

lemma aer_try_complete_runs:
  assumes "aer_ok s" "cq_usable (ct_admin_cq (nv_ctrl s))"
  shows "\<exists>s'. aer_try_complete s = Some s' \<and> aer_ok s' \<and> aer_waiting s' = drop (length (aer_events s)) (aer_waiting s) \<and>
     aer_events s' = drop (length (aer_waiting s)) (aer_events s) \<and>
     nv_ctrl s' = (nv_ctrl s)\<lparr>ct_admin_cq := post_all (aer_delivery s) (ct_admin_cq (nv_ctrl s))\<rparr> \<and>
     temp_ok s' = temp_ok s \<and> fw_ok s' = fw_ok s \<and> nv_ftl s' = nv_ftl s"
  using assms
proof (induction "aer_waiting s" arbitrary: s)
  case Nil
  have "aer_try_complete s = Some s"
    using Nil.hyps by (subst aer_try_complete.simps) (simp add: aer_first_pending_waiting flip: Nil.hyps)
  with Nil show ?case by (simp add: aer_delivery_def flip: Nil.hyps)
next
  case (Cons i "is")
  note w = Cons.hyps(2) [symmetric]
  show ?case
  proof (cases "aer_events s")
    case Nil
    then have "nv_aer_count s = 0" by (metis aer_events_def length_ring list.size(3))
    then have "aer_try_complete s = Some s" by (subst aer_try_complete.simps) simp
    with Nil Cons.prems show ?thesis by (simp add: aer_delivery_def)
  next
    case (Cons e es)
    define cpl where "cpl = aer_completion (ap_cid (nv_aer_pending s ! i)) e (sq_head (ct_admin_sq (nv_ctrl s)))"
    from aer_complete_one_facts [OF Cons.prems w Cons, folded cpl_def] obtain s1 where s1: "aer_complete_one i s = Some s1" "aer_ok s1"
      "aer_waiting s1 = is" "aer_events s1 = es"
      "nv_ctrl s1 = (nv_ctrl s)\<lparr>ct_admin_cq := the (cq_post_completion cpl (ct_admin_cq (nv_ctrl s)))\<rparr>"
      "cq_usable (ct_admin_cq (nv_ctrl s1))" "temp_ok s1 = temp_ok s" "fw_ok s1 = fw_ok s" "nv_ftl s1 = nv_ftl s"
      "\<forall>j \<in> set is. nv_aer_pending s1 ! j = nv_aer_pending s ! j" by blast
    have "nv_aer_count s \<noteq> 0" using Cons by (metis aer_events_def length_ring list.distinct(1) length_0_conv)
    then have step: "aer_try_complete s = aer_try_complete s1"
      by (subst aer_try_complete.simps) (simp add: aer_first_pending_waiting w s1(1))
    have "aer_delivery s = cpl # aer_delivery s1"
      using s1(10) by (auto simp: aer_delivery_def w Cons s1(3,4,5) cpl_def dest: set_zip_leftD)
    with Cons.hyps(1) [OF s1(3) [symmetric] s1(2,6)] w Cons s1(3-9) step show ?thesis by simp
  qed
qed

lemma aer_delivery_length: "length (aer_delivery s) \<le> 4"
proof -
  have "length (aer_waiting s) \<le> length [0..<NVME_AER_MAX_PENDING]" unfolding aer_waiting_def by (rule length_filter_le)
  then show ?thesis by (simp add: aer_delivery_def NVME_AER_MAX_PENDING_def)
qed

section \<open>Processing\<close>

lemma temp_tick_facts:
  assumes "nvme_wf s"
  shows "nvme_wf (temp_tick n s)" "nv_ctrl (temp_tick n s) = nv_ctrl s" "nv_ftl (temp_tick n s) = nv_ftl s"
proof -
  have wf: "nvme_wf (s\<lparr>nv_temp_counter := k\<rparr>)" for k using assms by (simp add: nvme_wf_def nvme_ok_defs)
  note u = update_temperature_facts [OF wf refl]
  show "nvme_wf (temp_tick n s)" "nv_ctrl (temp_tick n s) = nv_ctrl s" "nv_ftl (temp_tick n s) = nv_ftl s"
    using wf u by (simp_all add: temp_tick_def Let_def)
qed

lemma io_cmd_with_admin:
  "nvme_ctrl_process_io_cmd c (with_admin a b s) = map_option (map_prod id (with_admin a b)) (nvme_ctrl_process_io_cmd c s)"
proof -
  have w: "with_admin a b t = t\<lparr>nv_ctrl := (nv_ctrl t)\<lparr>ct_admin_sq := a, ct_admin_cq := b\<rparr>\<rparr>" for t
    by (simp add: with_admin_def upd_ctrl_def)
  have "io_write_zeroes c (cpl, with_admin a b s) = map_option (map_prod id (with_admin a b)) (io_write_zeroes c (cpl, s))" for cpl
    by (cases "for_each [0..<nvme_nlb c] (write_zeroes_body c) (nv_ftl s)") (auto simp: io_write_zeroes_def w split: ctl.split)
  then show ?thesis by (simp add: nvme_ctrl_process_io_cmd_def Let_def) (simp add: w)
qed

lemma io_batch_with_admin:
  "io_batch cs (with_admin a b s) = map_option (map_prod id (with_admin a b)) (io_batch cs s)"
proof (induction cs arbitrary: s)
  case (Cons c cs)
  show ?case
  proof (cases "nvme_ctrl_process_io_cmd c s")
    case (Some r)
    obtain cpl t where r: "r = (cpl, t)" by (cases r)
    from Cons.IH [of t] Some r show ?thesis by (cases "io_batch cs t") (auto simp: io_cmd_with_admin)
  qed (simp add: io_cmd_with_admin)
qed simp

lemma nvme_ctrl_process_runs:
  assumes wf: "nvme_wf s" and on: "ct_initialized (nv_ctrl s)" "ct_state (nv_ctrl s) = NVME_CTRL_STATE_READY"
    and admin: "sq_usable (ct_admin_sq (nv_ctrl s))" "cq_usable (ct_admin_cq (nv_ctrl s))"
    and acmds: "admin_batch (sq_pending (ct_admin_sq (nv_ctrl s))) s = (acpls, t)"
    and io: "sq_usable (ct_io_sq (nv_ctrl t))" "cq_usable (ct_io_cq (nv_ctrl t))"
    and icmds: "io_batch (sq_pending (ct_io_sq (nv_ctrl t))) t = Some (icpls, u)"
  shows "\<exists>s'. nvme_ctrl_process s = Some s' \<and> nvme_wf s' \<and> nv_ftl s' = nv_ftl u \<and>
     sq_pending (ct_admin_sq (nv_ctrl s')) = [] \<and> sq_pending (ct_io_sq (nv_ctrl s')) = [] \<and>
     (\<exists>d. length d \<le> 4 \<and> ct_admin_cq (nv_ctrl s') = post_all (acpls @ d) (ct_admin_cq (nv_ctrl s))) \<and>
     ct_io_cq (nv_ctrl s') = post_all icpls (ct_io_cq (nv_ctrl t))"
proof -
  from admin_loop_runs [OF admin refl acmds] obtain sq where
    al: "admin_loop s = Some (with_admin sq (post_all acpls (ct_admin_cq (nv_ctrl s))) t)" "sq_usable sq" "sq_pending sq = []"
    by blast
  define cq where "cq = post_all acpls (ct_admin_cq (nv_ctrl s))"
  have cq: "cq_usable cq" using post_all_usable [OF admin(2)] by (simp add: cq_def)
  define s1 where "s1 = with_admin sq cq t"
  have wft: "nvme_wf t" using admin_batch_keeps [OF wf, of "sq_pending (ct_admin_sq (nv_ctrl s))"] acmds
    by (simp add: admin_keeps_def)
  have io1: "ct_io_sq (nv_ctrl s1) = ct_io_sq (nv_ctrl t)" "ct_io_cq (nv_ctrl s1) = ct_io_cq (nv_ctrl t)"
    by (simp_all add: s1_def with_admin_def)
  have wf1: "nvme_wf s1" using wft al(2) cq by (simp add: s1_def nvme_wf_with_admin sq_usable_def cq_usable_def)
  from io_batch_ctrl [OF icmds] obtain f where u: "u = t\<lparr>nv_ftl := f\<rparr>" by blast
  have wf_ftl: "aer_ok (t\<lparr>nv_ftl := f\<rparr>) = aer_ok t" "temp_ok (t\<lparr>nv_ftl := f\<rparr>) = temp_ok t" "fw_ok (t\<lparr>nv_ftl := f\<rparr>) = fw_ok t"
    by (simp_all add: nvme_ok_defs)
  have ib: "io_batch (sq_pending (ct_io_sq (nv_ctrl s1))) s1 = Some (icpls, with_admin sq cq u)"
    unfolding io1 using icmds by (simp add: s1_def io_batch_with_admin)
  from io_loop_runs [of s1, OF _ _ refl ib, of 0] io io1 obtain sq2 where
    il: "io_loop 0 s1 = Some (of_nat (length (sq_pending (ct_io_sq (nv_ctrl t)))),
        with_io sq2 (post_all icpls (ct_io_cq (nv_ctrl t))) (with_admin sq cq u))" "sq_usable sq2" "sq_pending sq2 = []"
    by auto
  define s2 where "s2 = with_io sq2 (post_all icpls (ct_io_cq (nv_ctrl t))) (with_admin sq cq u)"
  have c2: "ct_admin_sq (nv_ctrl s2) = sq" "ct_admin_cq (nv_ctrl s2) = cq" "ct_io_sq (nv_ctrl s2) = sq2"
    "ct_io_cq (nv_ctrl s2) = post_all icpls (ct_io_cq (nv_ctrl t))" "nv_ftl s2 = nv_ftl u"
    "aer_ok s2" "temp_ok s2" "fw_ok s2"
    using wft wf_ftl by (simp_all add: s2_def with_io_def with_admin_def u nvme_wf_def)
  from aer_try_complete_runs [of s2] c2 cq obtain s3 where s3: "aer_try_complete s2 = Some s3" "aer_ok s3" "temp_ok s3" "fw_ok s3"
    "nv_ftl s3 = nv_ftl u" "nv_ctrl s3 = (nv_ctrl s2)\<lparr>ct_admin_cq := post_all (aer_delivery s2) cq\<rparr>"
    by auto
  have wf3: "nvme_wf s3"
    using s3 c2 al(2) il(2) post_all_usable [OF cq, of "aer_delivery s2"] post_all_usable [OF io(2), of icpls]
    by (simp add: nvme_wf_def rings_ok_def sq_usable_def cq_usable_def)
  have proc: "nvme_ctrl_process s = Some (temp_tick (of_nat (length (sq_pending (ct_io_sq (nv_ctrl t))))) s3)"
    using on io(1) by (simp add: nvme_ctrl_process_def al(1) io1 il(1) s3(1) sq_usable_def flip: cq_def s1_def s2_def)
  show ?thesis
    using proc temp_tick_facts [OF wf3] s3 c2 al(3) il(3) aer_delivery_length [of s2]
    by (auto simp: cq_def intro!: exI [of _ "aer_delivery s2"])
qed

end
