(* ===== verification/NvmeHistory.thy ===== *)
theory NvmeHistory
  imports NvmeLoops FtlHost
begin

text \<open>
  Histories of the NVMe controller and its properties: everything the host, the timer and the device can
  do from an initialisation on, and what holds of commands, events, registers and firmware slots.
\<close>

section \<open>Histories\<close>

text \<open>The host also writes commands into the arrays of the submission queues.\<close>

definition host_writes_entry :: "bool \<Rightarrow> nat \<Rightarrow> nvme_command \<Rightarrow> nvme_sys \<Rightarrow> nvme_sys" where
  "host_writes_entry admin i c s =
     (let put = (\<lambda>q. q\<lparr>sq_entries := map_option (\<lambda>es. es[i := c]) (sq_entries q)\<rparr>) in
      upd_ctrl (\<lambda>d. if admin then d\<lparr>ct_admin_sq := put (ct_admin_sq d)\<rparr> else d\<lparr>ct_io_sq := put (ct_io_sq d)\<rparr>) s)"

inductive nvme_reachable :: "bool \<Rightarrow> nvme_sys \<Rightarrow> bool" where
  start: "nvme_ctrl_init s0 = (ret, s) \<Longrightarrow> nvme_reachable False s"
| admin: "nvme_reachable direct s \<Longrightarrow> nvme_ctrl_process_admin_cmd c s = (cpl, s') \<Longrightarrow> nvme_reachable direct s'"
| io: "nvme_reachable direct s \<Longrightarrow> nvme_ctrl_process_io_cmd c s = Some (cpl, s') \<Longrightarrow> nvme_reachable direct s'"
| entry: "nvme_reachable direct s \<Longrightarrow> nvme_reachable direct (host_writes_entry a i c s)"
| sq_bell: "nvme_reachable direct s \<Longrightarrow> nvme_ctrl_sq_doorbell qid v s = Some s' \<Longrightarrow> nvme_reachable direct s'"
| cq_bell: "nvme_reachable direct s \<Longrightarrow> nvme_ctrl_cq_doorbell qid v s = Some s' \<Longrightarrow> nvme_reachable direct s'"
| work: "nvme_reachable direct s \<Longrightarrow> nvme_ctrl_process s = Some s' \<Longrightarrow> nvme_reachable direct s'"
| reg: "nvme_reachable direct s \<Longrightarrow> nvme_reachable direct (nvme_ctrl_write_reg off v s)"
| pointer: "nvme_reachable direct s \<Longrightarrow> nvme_reachable True (upd_regs f s)"
| flash: "nvme_reachable direct s \<Longrightarrow> nvme_reachable direct (s\<lparr>nv_ftl := f\<rparr>)"
| event: "nvme_reachable direct s \<Longrightarrow> nvme_reachable direct (snd (nvme_ctrl_post_aer_event t i l s))"
| temp: "nvme_reachable direct s \<Longrightarrow> nvme_reachable direct (nvme_ctrl_update_temperature n s)"
| stop: "nvme_reachable direct s \<Longrightarrow> nvme_ctrl_deinit s = (ret, s') \<Longrightarrow> nvme_reachable direct s'"

text \<open>While the controller is set up, it is ready exactly if it says so, and that is what the host asked for.\<close>

definition ready_ok :: "nvme_ctrl_dev \<Rightarrow> bool" where
  "ready_ok c \<longleftrightarrow> (ct_initialized c \<longrightarrow> (ct_state c = NVME_CTRL_STATE_READY \<longleftrightarrow> bit (r_csts (ct_regs c)) 0) \<and>
     (bit (r_csts (ct_regs c)) 0 \<longleftrightarrow> bit (r_cc (ct_regs c)) 0))"

lemma same_admin_ready: "same_admin c c' \<Longrightarrow> ready_ok c' = ready_ok c"
  by (simp add: same_admin_def ready_ok_def)

lemma ready_ok_rings [simp]:
  "ready_ok (c\<lparr>ct_admin_sq := q\<rparr>) = ready_ok c" "ready_ok (c\<lparr>ct_admin_cq := p\<rparr>) = ready_ok c"
  "ready_ok (c\<lparr>ct_io_sq := q\<rparr>) = ready_ok c" "ready_ok (c\<lparr>ct_io_cq := p\<rparr>) = ready_ok c"
  by (simp_all add: ready_ok_def)

lemma rings_ok_rings [simp]:
  "rings_ok c \<Longrightarrow> sq_ok q \<Longrightarrow> rings_ok (c\<lparr>ct_admin_sq := q\<rparr>)" "rings_ok c \<Longrightarrow> cq_ok p \<Longrightarrow> rings_ok (c\<lparr>ct_admin_cq := p\<rparr>)"
  "rings_ok c \<Longrightarrow> sq_ok q \<Longrightarrow> rings_ok (c\<lparr>ct_io_sq := q\<rparr>)" "rings_ok c \<Longrightarrow> cq_ok p \<Longrightarrow> rings_ok (c\<lparr>ct_io_cq := p\<rparr>)"
  by (simp_all add: rings_ok_def)

definition nvme_inv :: "bool \<Rightarrow> nvme_sys \<Rightarrow> bool" where
  "nvme_inv dw s \<longleftrightarrow> nvme_wf s \<and> (dw \<or> ready_ok (nv_ctrl s))"

lemma nvme_inv_upd: "nvme_inv dw s \<Longrightarrow> rings_ok (f (nv_ctrl s)) \<Longrightarrow> dw \<or> ready_ok (f (nv_ctrl s)) \<Longrightarrow> nvme_inv dw (upd_ctrl f s)"
  by (simp add: nvme_inv_def nvme_wf_def)

lemma admin_cmd_inv: "nvme_inv dw s \<Longrightarrow> nvme_ctrl_process_admin_cmd c s = (cpl, s') \<Longrightarrow> nvme_inv dw s'"
  using admin_cmd_keeps [of s c] same_admin_ready by (auto simp: nvme_inv_def admin_keeps_def)

lemma nvme_inv_ftl [simp]: "nvme_inv dw (s\<lparr>nv_ftl := f\<rparr>) = nvme_inv dw s"
  by (simp add: nvme_inv_def nvme_wf_def nvme_ok_defs)

lemma io_cmd_inv: "nvme_inv dw s \<Longrightarrow> nvme_ctrl_process_io_cmd c s = Some (cpl, s') \<Longrightarrow> nvme_inv dw s'"
  using io_cmd_ctrl by fastforce

lemma sq_fetch_ok: "sq_ok q \<Longrightarrow> sq_fetch_cmd q = Some (c, q') \<Longrightarrow> sq_ok q'"
  by (auto simp: sq_fetch_cmd_def sq_ok_def split: if_splits option.splits)

lemma nvme_inv_rings: "nvme_inv dw s \<Longrightarrow> rings_ok (nv_ctrl s) \<and> (dw \<or> ready_ok (nv_ctrl s))"
  by (simp add: nvme_inv_def nvme_wf_def)

lemma admin_loop_inv:
  assumes "admin_loop s = Some s'" "nvme_inv dw s"
  shows "nvme_inv dw s'"
proof (rule admin_loop.raw_induct [where P = "\<lambda>s s'. nvme_inv dw s \<longrightarrow> nvme_inv dw s'", OF _ assms(1), rule_format, OF _ assms(2)],
    goal_cases)
  case (1 loop s s')
  from 1(2) obtain c sq where f: "sq_fetch_cmd (ct_admin_sq (nv_ctrl s)) = Some (c, sq)" by (auto split: option.splits)
  show ?case
  proof (cases c)
    case None
    with 1(2,3) f show ?thesis by simp
  next
    case (Some cmd)
    define s1 where "s1 = upd_ctrl (\<lambda>c. c\<lparr>ct_admin_sq := sq\<rparr>) s"
    have "sq_ok sq" using sq_fetch_ok [OF _ f] nvme_inv_rings [OF 1(3)] by (simp add: rings_ok_def)
    then have i1: "nvme_inv dw s1" using nvme_inv_rings [OF 1(3)] 1(3) by (simp add: s1_def nvme_inv_upd)
    obtain cpl s2 where p: "nvme_ctrl_process_admin_cmd cmd s1 = (cpl, s2)" by (metis prod.exhaust)
    have i2: "nvme_inv dw s2" by (rule admin_cmd_inv [OF i1 p])
    show ?thesis
    proof (cases "cp_rsvd1 cpl = AER_HELD")
      case True
      with 1(2) f Some p have "loop s2 = Some s'" by (simp flip: s1_def)
      from 1(1) [OF this i2] show ?thesis .
    next
      case False
      with 1(2) f Some p obtain q where q: "cq_post_completion cpl (ct_admin_cq (nv_ctrl s2)) = Some q"
        "loop (upd_ctrl (\<lambda>c. c\<lparr>ct_admin_cq := q\<rparr>) s2) = Some s'" by (auto simp flip: s1_def split: bind_splits)
      have "cq_ok q" using cq_post_ok [OF _ q(1)] nvme_inv_rings [OF i2] by (simp add: rings_ok_def)
      then have "nvme_inv dw (upd_ctrl (\<lambda>c. c\<lparr>ct_admin_cq := q\<rparr>) s2)" using nvme_inv_rings [OF i2] i2 by (simp add: nvme_inv_upd)
      from 1(1) [OF q(2) this] show ?thesis .
    qed
  qed
qed

lemma io_loop_inv:
  assumes "io_loop n s = Some (m, s')" "nvme_inv dw s"
  shows "nvme_inv dw s'"
proof -
  have "nvme_inv dw s \<longrightarrow> nvme_inv dw (snd (m, s'))"
  proof (rule io_loop.raw_induct [where P = "\<lambda>n s r. nvme_inv dw s \<longrightarrow> nvme_inv dw (snd r)", OF _ assms(1)], intro impI, goal_cases)
    case (1 loop n s r)
    from 1(2) obtain c sq where f: "sq_fetch_cmd (ct_io_sq (nv_ctrl s)) = Some (c, sq)" by (auto split: option.splits)
    show ?case
    proof (cases c)
      case None
      with 1(2,3) f show ?thesis by auto
    next
      case (Some cmd)
      define s1 where "s1 = upd_ctrl (\<lambda>c. c\<lparr>ct_io_sq := sq\<rparr>) s"
      have "sq_ok sq" using sq_fetch_ok [OF _ f] nvme_inv_rings [OF 1(3)] by (simp add: rings_ok_def)
      then have i1: "nvme_inv dw s1" using nvme_inv_rings [OF 1(3)] 1(3) by (simp add: s1_def nvme_inv_upd)
      with 1(2) f Some obtain cpl s2 q where p: "nvme_ctrl_process_io_cmd cmd s1 = Some (cpl, s2)"
        "cq_post_completion cpl (ct_io_cq (nv_ctrl s2)) = Some q" "loop (n + 1) (upd_ctrl (\<lambda>c. c\<lparr>ct_io_cq := q\<rparr>) s2) = Some r"
        by (auto simp flip: s1_def split: bind_splits)
      have i2: "nvme_inv dw s2" by (rule io_cmd_inv [OF i1 p(1)])
      have "cq_ok q" using cq_post_ok [OF _ p(2)] nvme_inv_rings [OF i2] by (simp add: rings_ok_def)
      then have "nvme_inv dw (upd_ctrl (\<lambda>c. c\<lparr>ct_io_cq := q\<rparr>) s2)" using nvme_inv_rings [OF i2] i2 by (simp add: nvme_inv_upd)
      with 1(1) [OF p(3)] show ?thesis by blast
    qed
  qed
  then show ?thesis using assms(2) by simp
qed

lemma aer_loop_inv:
  assumes "aer_try_complete s = Some s'" "nvme_inv dw s"
  shows "nvme_inv dw s'"
proof (rule aer_try_complete.raw_induct [where P = "\<lambda>s s'. nvme_inv dw s \<longrightarrow> nvme_inv dw s'", OF _ assms(1), rule_format, OF _ assms(2)],
    goal_cases)
  case (1 loop s s')
  show ?case
  proof (cases "nv_aer_count s = 0 \<or> aer_first_pending (nv_aer_pending s) = None")
    case True
    with 1(2,3) show ?thesis by (auto split: if_splits)
  next
    case False
    then obtain i k where i: "aer_first_pending (nv_aer_pending s) = Some i" "nv_aer_count s = Suc k" by (cases "nv_aer_count s") auto
    with 1(2) obtain s1 where s1: "aer_complete_one i s = Some s1" "loop s1 = Some s'" by (auto split: bind_splits)
    from s1(1) obtain cpl q where q: "cq_post_completion cpl (ct_admin_cq (nv_ctrl s)) = Some q"
      "s1 = s\<lparr>nv_aer_head := (nv_aer_head s + 1) mod NVME_AER_QUEUE_SIZE, nv_aer_count := nv_aer_count s - 1,
               nv_ctrl := (nv_ctrl s)\<lparr>ct_admin_cq := q\<rparr>,
               nv_aer_pending := (nv_aer_pending s)[i := (nv_aer_pending s ! i)\<lparr>ap_active := False\<rparr>]\<rparr>"
      by (auto simp: aer_complete_one_def split: bind_splits)
    have cq: "cq_ok q" using cq_post_ok [OF _ q(1)] nvme_inv_rings [OF 1(3)] by (simp add: rings_ok_def)
    have "aer_ok s1" using 1(3) i(2) by (auto simp: q(2) nvme_inv_def nvme_wf_def aer_ok_def NVME_AER_QUEUE_SIZE_def mod_simps)
    then have "nvme_inv dw s1" using 1(3) cq by (simp add: q(2) nvme_inv_def nvme_wf_def temp_ok_def fw_ok_def)
    from 1(1) [OF s1(2) this] show ?thesis .
  qed
qed

lemma process_inv: "nvme_ctrl_process s = Some s' \<Longrightarrow> nvme_inv dw s \<Longrightarrow> nvme_inv dw s'"
proof -
  assume p: "nvme_ctrl_process s = Some s'" and inv: "nvme_inv dw s"
  show ?thesis
  proof (cases "\<not> ct_initialized (nv_ctrl s) \<or> ct_state (nv_ctrl s) \<noteq> NVME_CTRL_STATE_READY")
    case True
    with p inv show ?thesis by (simp add: nvme_ctrl_process_def)
  next
    case False
    with p obtain s1 n s2 s3 where s: "admin_loop s = Some s1"
      "(if sq_entries (ct_io_sq (nv_ctrl s1)) \<noteq> None then io_loop 0 s1 else Some (0, s1)) = Some (n, s2)"
      "aer_try_complete s2 = Some s3" "s' = temp_tick n s3"
      unfolding nvme_ctrl_process_def by (simp only: if_False) (auto split: bind_splits simp del: not_None_eq)
    have i1: "nvme_inv dw s1" by (rule admin_loop_inv [OF s(1) inv])
    have i2: "nvme_inv dw s2"
    proof (cases "sq_entries (ct_io_sq (nv_ctrl s1)) = None")
      case True
      with s(2) i1 show ?thesis by simp
    next
      case False
      with s(2) have "io_loop 0 s1 = Some (n, s2)" by simp
      from io_loop_inv [OF this i1] show ?thesis .
    qed
    have "nvme_inv dw s3" by (rule aer_loop_inv [OF s(3) i2])
    then show ?thesis using temp_tick_facts [of s3 n] by (simp add: s(4) nvme_inv_def)
  qed
qed

lemma init_inv: "nvme_ctrl_init s0 = (ret, s) \<Longrightarrow> nvme_inv dw s"
proof -
  assume i: "nvme_ctrl_init s0 = (ret, s)"
  define a where "a = nvme_ctrl_fw_init (nvme_ctrl_temp_init (nvme_ctrl_aer_init s0))"
  have a: "temp_ok a" "aer_ok a" "fw_ok a"
    by (simp_all add: a_def nvme_ctrl_fw_init_def nvme_ctrl_temp_init_def nvme_ctrl_aer_init_def temp_ok_def aer_ok_def fw_ok_def
        sensor_ok_def temp_sensor_init_def NVME_TEMP_SENSOR_COUNT_def NVME_AER_MAX_PENDING_def NVME_AER_QUEUE_SIZE_def
        NVME_FW_SLOT_COUNT_def NVME_FW_MAX_IMAGE_SIZE_def fw_version_2_2_0_def)
  obtain es b where b: "calloc_array NVME_ADMIN_QSIZE blank_command a = (es, b)" by (metis prod.exhaust)
  obtain fs d where d: "calloc_array NVME_ADMIN_QSIZE blank_completion b = (fs, d)" by (metis prod.exhaust)
  note f = calloc_array_facts [OF b] calloc_array_facts [OF d]
  have d': "temp_ok (d\<lparr>nv_ctrl := c\<rparr>)" "aer_ok (d\<lparr>nv_ctrl := c\<rparr>)" "fw_ok (d\<lparr>nv_ctrl := c\<rparr>)" for c
    using a f by (simp_all add: temp_ok_def aer_ok_def fw_ok_def)
  have "sq_ok (zero_sq\<lparr>sq_size := NVME_ADMIN_QSIZE, sq_is_admin := True, sq_entries := es\<rparr>)"
    "cq_ok (zero_cq\<lparr>cq_size := NVME_ADMIN_QSIZE, cq_phase := True, cq_is_admin := True, cq_entries := fs\<rparr>)"
    "sq_ok zero_sq" "cq_ok zero_cq"
    using f(6,12) by (auto simp: sq_ok_def cq_ok_def zero_sq_def zero_cq_def NVME_ADMIN_QSIZE_def)
  with d' i show ?thesis
    by (auto simp: nvme_ctrl_init_def b d nvme_inv_def nvme_wf_def rings_ok_def ready_ok_def zero_regs_def simp flip: a_def)
qed

lemma write_cc_facts:
  "nv_ctrl (nvme_ctrl_write_cc v s) = (nv_ctrl s)\<lparr>ct_state := (if bit v 0 then NVME_CTRL_STATE_READY else NVME_CTRL_STATE_RESET),
     ct_regs := (ct_regs (nv_ctrl s))\<lparr>r_cc := v, r_csts := (if bit v 0 then r_csts (ct_regs (nv_ctrl s)) OR 1
        else r_csts (ct_regs (nv_ctrl s)) AND NOT 1)\<rparr>\<rparr>"
  "temp_ok (nvme_ctrl_write_cc v s) = temp_ok s" "aer_ok (nvme_ctrl_write_cc v s) = aer_ok s" "fw_ok (nvme_ctrl_write_cc v s) = fw_ok s"
  by (simp_all add: nvme_ctrl_write_cc_def Let_def and_one_eq odd_iff_mod_2_eq_one [symmetric] bit_0)

lemma write_reg_inv: "nvme_inv dw s \<Longrightarrow> nvme_inv dw (nvme_ctrl_write_reg off v s)"
proof -
  assume inv: "nvme_inv dw s"
  have r: "nvme_inv dw (upd_regs f s)" if "\<And>r. r_csts (f r) = r_csts r \<and> r_cc (f r) = r_cc r" for f
    using inv that by (simp add: nvme_inv_def nvme_wf_def ready_ok_def)
  have "nvme_inv dw (nvme_ctrl_write_cc v s)"
    using inv by (auto simp: nvme_inv_def nvme_wf_def ready_ok_def write_cc_facts bit_simps)
  with r inv show ?thesis
    by (simp add: nvme_ctrl_write_reg_def nvme_ctrl_write_aqa_def nvme_ctrl_write_asq_def nvme_ctrl_write_acq_def)
qed

lemma sq_ok_tail [simp]: "sq_ok q \<Longrightarrow> 0 < sq_size q \<Longrightarrow> sq_ok (q\<lparr>sq_tail := n mod sq_size q\<rparr>)"
  by (simp add: sq_ok_def)

lemma cq_ok_head [simp]: "cq_ok q \<Longrightarrow> 0 < cq_size q \<Longrightarrow> cq_ok (q\<lparr>cq_head := n mod cq_size q\<rparr>)"
  by (simp add: cq_ok_def)

lemma doorbell_inv:
  assumes "nvme_inv dw s"
  shows "nvme_ctrl_sq_doorbell qid v s = Some s' \<Longrightarrow> nvme_inv dw s'"
    "nvme_ctrl_cq_doorbell qid v s = Some s' \<Longrightarrow> nvme_inv dw s'"
  using assms nvme_inv_rings [OF assms]
  by (cases "qid = 0"; auto simp: nvme_ctrl_sq_doorbell_def nvme_ctrl_cq_doorbell_def Let_def rings_ok_def
      intro!: nvme_inv_upd split: if_splits)+

lemma entry_inv: "nvme_inv dw s \<Longrightarrow> nvme_inv dw (host_writes_entry a i c s)"
proof -
  assume inv: "nvme_inv dw s"
  have q: "sq_ok (q\<lparr>sq_entries := map_option (\<lambda>es. es[i := c]) (sq_entries q)\<rparr>)" if "sq_ok q" for q
    using that by (auto simp: sq_ok_def)
  show ?thesis using inv q by (auto simp: host_writes_entry_def Let_def nvme_inv_def nvme_wf_def rings_ok_def ready_ok_def)
qed

lemma post_aer_inv: "nvme_inv dw s \<Longrightarrow> nvme_inv dw (snd (nvme_ctrl_post_aer_event t i l s))"
  using post_aer_facts [OF _ refl] by (simp add: nvme_inv_def nvme_wf_def)

lemma deinit_inv: "nvme_inv dw s \<Longrightarrow> nvme_ctrl_deinit s = (ret, s') \<Longrightarrow> nvme_inv dw s'"
  by (auto simp: nvme_ctrl_deinit_def nvme_inv_def nvme_wf_def ready_ok_def split: if_splits)

text \<open>C9: whatever commands, register writes, doorbells and events arrive after an initialisation, in any order
  and whether or not memory was short, the state stays well formed: rings and their indices fit, every
  temperature is in the range of its sensor and the running firmware slot exists.  This includes the
  writes of any register values through the pointer of \<open>nvme_ctrl_get_regs\<close> and the calls of the FTL
  that the transports make past the controller.  As long as there was none of those since the initialisation, CSTS.RDY, the state of the
  controller and CC.EN agree while the controller is set up; after one they need not.\<close>

theorem nvme_state_well_formed:
  assumes "nvme_reachable direct s"
  shows "nvme_wf s \<and> (direct \<or> ready_ok (nv_ctrl s))"
proof -
  have "nvme_inv direct s" using assms
  proof induction
    case (temp direct s n)
    then show ?case using update_temperature_facts [OF _ refl, of s] by (simp add: nvme_inv_def)
  next
    case (flash direct s f)
    then show ?case by simp
  next
    case (pointer direct s f)
    then show ?case by (simp add: nvme_inv_def nvme_wf_def)
  qed (auto intro: init_inv admin_cmd_inv io_cmd_inv entry_inv doorbell_inv process_inv write_reg_inv post_aer_inv deinit_inv)
  then show ?thesis by (simp add: nvme_inv_def)
qed

section \<open>A controller to try\<close>

definition blank_nvme :: nvme_sys where
  "blank_nvme = \<lparr>nv_ctrl = \<lparr>ct_state = NVME_CTRL_STATE_RESET, ct_regs = zero_regs, ct_admin_sq = zero_sq, ct_admin_cq = zero_cq,
       ct_io_sq = zero_sq, ct_io_cq = zero_cq, ct_io_sq_count = 0, ct_io_cq_count = 0, ct_namespace_size = 0, ct_lba_size = 0,
       ct_initialized = False\<rparr>,
     nv_aer_pending = [], nv_aer_queue = [], nv_aer_head = 0, nv_aer_tail = 0, nv_aer_count = 0, nv_aer_mask = 0, nv_temp = [],
     nv_warning_time = 0, nv_critical_time = 0, nv_warning_active = False, nv_critical_active = False, nv_temp_counter = 0,
     nv_fw_slots = [], nv_fw_download = \<lparr>fd_active = False, fd_downloaded_size = 0\<rparr>, nv_fw_running = 0, nv_fw_next_boot = 0,
     nv_fw_version = [], nv_ftl = example_ftl, nv_rand = (\<lambda>_. 0), nv_rand_count = 0, nv_calloc_count = 0,
     nv_calloc_fails = (\<lambda>_. False)\<rparr>"

definition nvme_boot :: nvme_sys where
  "nvme_boot = snd (nvme_ctrl_init blank_nvme)"

lemma nvme_boot_inv: "nvme_inv dw nvme_boot"
  using init_inv [of blank_nvme] by (simp add: nvme_boot_def prod_eq_iff)

text \<open>A controller that is ready, with two short queue pairs and one command in each.\<close>

definition nvme_busy :: "nvme_command \<Rightarrow> nvme_command \<Rightarrow> nvme_sys" where
  "nvme_busy a c = nvme_boot\<lparr>nv_ctrl := (nv_ctrl nvme_boot)\<lparr>ct_state := NVME_CTRL_STATE_READY,
     ct_admin_sq := zero_sq\<lparr>sq_size := 8, sq_tail := 1, sq_entries := Some (replicate 8 a)\<rparr>,
     ct_admin_cq := zero_cq\<lparr>cq_size := 8, cq_entries := Some (replicate 8 blank_completion)\<rparr>,
     ct_io_sq := zero_sq\<lparr>sq_size := 8, sq_tail := 1, sq_entries := Some (replicate 8 c)\<rparr>,
     ct_io_cq := zero_cq\<lparr>cq_size := 8, cq_entries := Some (replicate 8 blank_completion)\<rparr>\<rparr>\<rparr>"

lemma nvme_boot_ftl: "nv_ftl nvme_boot = example_ftl"
  by (simp add: nvme_boot_def nvme_ctrl_init_def calloc_array_def Let_def nvme_ctrl_fw_init_def nvme_ctrl_temp_init_def
      nvme_ctrl_aer_init_def blank_nvme_def)

lemma nvme_busy_facts:
  "ct_initialized (nv_ctrl (nvme_busy a c))" "ct_state (nv_ctrl (nvme_busy a c)) = NVME_CTRL_STATE_READY"
  "sq_usable (ct_admin_sq (nv_ctrl (nvme_busy a c)))" "cq_usable (ct_admin_cq (nv_ctrl (nvme_busy a c)))"
  "sq_usable (ct_io_sq (nv_ctrl (nvme_busy a c)))" "cq_usable (ct_io_cq (nv_ctrl (nvme_busy a c)))"
  "sq_pending (ct_admin_sq (nv_ctrl (nvme_busy a c))) = [a]" "sq_pending (ct_io_sq (nv_ctrl (nvme_busy a c))) = [c]"
  "cq_waiting (ct_admin_cq (nv_ctrl (nvme_busy a c))) = []" "cq_waiting (ct_io_cq (nv_ctrl (nvme_busy a c))) = []"
  "cq_size (ct_admin_cq (nv_ctrl (nvme_busy a c))) = 8" "cq_size (ct_io_cq (nv_ctrl (nvme_busy a c))) = 8"
  "nv_ftl (nvme_busy a c) = example_ftl" "nvme_wf (nvme_busy a c)"
proof -
  note b1 = nvme_boot_ftl
  have b2: "ct_initialized (nv_ctrl nvme_boot)"
    by (simp add: nvme_boot_def nvme_ctrl_init_def calloc_array_def Let_def nvme_ctrl_fw_init_def nvme_ctrl_temp_init_def
        nvme_ctrl_aer_init_def blank_nvme_def)
  have q: "sq_ok (zero_sq\<lparr>sq_size := 8, sq_tail := 1, sq_entries := Some (replicate 8 x)\<rparr>)"
    "cq_ok (zero_cq\<lparr>cq_size := 8, cq_entries := Some (replicate 8 y)\<rparr>)" for x y
    by (simp_all add: sq_ok_def cq_ok_def zero_sq_def zero_cq_def)
  show "ct_initialized (nv_ctrl (nvme_busy a c))" "ct_state (nv_ctrl (nvme_busy a c)) = NVME_CTRL_STATE_READY"
    "sq_usable (ct_admin_sq (nv_ctrl (nvme_busy a c)))" "cq_usable (ct_admin_cq (nv_ctrl (nvme_busy a c)))"
    "sq_usable (ct_io_sq (nv_ctrl (nvme_busy a c)))" "cq_usable (ct_io_cq (nv_ctrl (nvme_busy a c)))"
    "sq_pending (ct_admin_sq (nv_ctrl (nvme_busy a c))) = [a]" "sq_pending (ct_io_sq (nv_ctrl (nvme_busy a c))) = [c]"
    "cq_waiting (ct_admin_cq (nv_ctrl (nvme_busy a c))) = []" "cq_waiting (ct_io_cq (nv_ctrl (nvme_busy a c))) = []"
    "cq_size (ct_admin_cq (nv_ctrl (nvme_busy a c))) = 8" "cq_size (ct_io_cq (nv_ctrl (nvme_busy a c))) = 8"
    "nv_ftl (nvme_busy a c) = example_ftl"
    using b1 b2 q by (simp_all add: nvme_busy_def sq_usable_def cq_usable_def zero_sq_def zero_cq_def sq_pending_def cq_waiting_def
        ring_count_def ring_def)
  show "nvme_wf (nvme_busy a c)"
    using nvme_boot_inv q by (simp add: nvme_inv_def nvme_wf_def nvme_busy_def rings_ok_def nvme_ok_defs)
qed

section \<open>Properties\<close>

text \<open>
  A register write keeps the agreement; a transport that sets CSTS.RDY through the pointer breaks it and
  nothing else.
\<close>

lemma nvme_state_well_formed_witness:
  "nvme_wf (nvme_ctrl_write_reg 0x14 1 nvme_boot) \<and> ready_ok (nv_ctrl (nvme_ctrl_write_reg 0x14 1 nvme_boot)) \<and>
   nvme_wf (upd_regs (\<lambda>r. r\<lparr>r_csts := 1\<rparr>) nvme_boot) \<and> \<not> ready_ok (nv_ctrl (upd_regs (\<lambda>r. r\<lparr>r_csts := 1\<rparr>) nvme_boot))"
proof -
  have s: "nvme_reachable False nvme_boot"
    by (rule nvme_reachable.start [of blank_nvme RET_OK]) (simp add: nvme_boot_def nvme_ctrl_init_def calloc_array_def Let_def)
  have "\<not> ready_ok (nv_ctrl (upd_regs (\<lambda>r. r\<lparr>r_csts := 1\<rparr>) nvme_boot))"
    by (simp add: ready_ok_def nvme_boot_def nvme_ctrl_init_def calloc_array_def Let_def zero_regs_def nvme_ctrl_fw_init_def
        nvme_ctrl_temp_init_def nvme_ctrl_aer_init_def blank_nvme_def)
  with nvme_state_well_formed [OF nvme_reachable.reg [OF s, of "0x14" 1]]
    nvme_state_well_formed [OF nvme_reachable.pointer [OF s, of "\<lambda>r. r\<lparr>r_csts := 1\<rparr>"]]
  show ?thesis by simp
qed



text \<open>C11: events are handed out in the order they came, to the waiting requests from the first slot on, as many
  as there are of both; the rest of either keeps waiting.\<close>

theorem nvme_events_delivered:
  assumes "aer_ok s" "cq_usable (ct_admin_cq (nv_ctrl s))"
    and "length (cq_waiting (ct_admin_cq (nv_ctrl s))) + 4 < cq_size (ct_admin_cq (nv_ctrl s))"
  shows "\<exists>s'. aer_try_complete s = Some s' \<and> aer_events s' = drop (length (aer_waiting s)) (aer_events s) \<and>
     aer_waiting s' = drop (length (aer_events s)) (aer_waiting s) \<and>
     cq_waiting (ct_admin_cq (nv_ctrl s')) = cq_waiting (ct_admin_cq (nv_ctrl s)) @
       map (\<lambda>(i, e). aer_completion (ap_cid (nv_aer_pending s ! i)) e (sq_head (ct_admin_sq (nv_ctrl s))))
         (zip (aer_waiting s) (aer_events s))"
proof -
  from aer_try_complete_runs [OF assms(1,2)] obtain s' where s': "aer_try_complete s = Some s'"
    "aer_waiting s' = drop (length (aer_events s)) (aer_waiting s)" "aer_events s' = drop (length (aer_waiting s)) (aer_events s)"
    "nv_ctrl s' = (nv_ctrl s)\<lparr>ct_admin_cq := post_all (aer_delivery s) (ct_admin_cq (nv_ctrl s))\<rparr>" by blast
  with post_all_waiting [OF assms(2), of "aer_delivery s"] aer_delivery_length [of s] assms(3)
  show ?thesis by (simp add: aer_delivery_def)
qed

lemma nvme_events_delivered_witness:
  "\<exists>s'. aer_try_complete (nvme_busy blank_command blank_command\<lparr>nv_aer_pending := [\<lparr>ap_active = False, ap_cid = 0\<rparr>,
       \<lparr>ap_active = True, ap_cid = 7\<rparr>, \<lparr>ap_active = True, ap_cid = 8\<rparr>, \<lparr>ap_active = False, ap_cid = 0\<rparr>],
     nv_aer_queue := replicate 16 \<lparr>ae_event_type = 2, ae_event_info = 1, ae_log_page = 2\<rparr>,
     nv_aer_head := 15, nv_aer_tail := 0, nv_aer_count := 1\<rparr>) = Some s' \<and> aer_waiting s' = [2] \<and> aer_events s' = [] \<and>
     map cp_cid (cq_waiting (ct_admin_cq (nv_ctrl s'))) = [7]"
proof -
  define s where "s = nvme_busy blank_command blank_command\<lparr>nv_aer_pending := [\<lparr>ap_active = False, ap_cid = 0\<rparr>,
       \<lparr>ap_active = True, ap_cid = 7\<rparr>, \<lparr>ap_active = True, ap_cid = 8\<rparr>, \<lparr>ap_active = False, ap_cid = 0\<rparr>],
     nv_aer_queue := replicate 16 \<lparr>ae_event_type = 2, ae_event_info = 1, ae_log_page = 2\<rparr>,
     nv_aer_head := 15, nv_aer_tail := 0, nv_aer_count := 1\<rparr>"
  have c: "nv_ctrl s = nv_ctrl (nvme_busy blank_command blank_command)" by (simp add: s_def)
  note f = nvme_busy_facts [of blank_command blank_command, folded c]
  have "[0..<4] = [0, 1, 2, 3::nat]" by (simp add: upt_conv_Cons)
  then have w: "aer_ok s" "aer_waiting s = [1, 2]" "aer_events s = [\<lparr>ae_event_type = 2, ae_event_info = 1, ae_log_page = 2\<rparr>]"
    by (simp_all add: s_def aer_ok_def aer_waiting_def aer_events_def ring_def NVME_AER_MAX_PENDING_def NVME_AER_QUEUE_SIZE_def)
  have "ap_cid (nv_aer_pending s ! 1) = 7" by (simp add: s_def)
  with nvme_events_delivered [OF w(1) f(4), unfolded f w]
  show ?thesis unfolding s_def [symmetric] by (auto simp: aer_completion_def set_completion_status_def)
qed

lemma map_of_const: "map_of (rev (map (\<lambda>i. (g i, z)) xs)) k = (if k \<in> g ` set xs then Some z else None)"
  by (induction xs rule: rev_induct) auto

lemma write_zeroes_loop:
  "write_all ftl_wr f (map (\<lambda>i. (nvme_lpn cmd i, zero_page)) xs) = Some f' \<Longrightarrow>
     for_each xs (write_zeroes_body cmd) f = Some (Next f')"
proof (induction xs arbitrary: f)
  case (Cons i xs)
  then obtain f1 where f1: "ftl_wr f (nvme_lpn cmd i) zero_page = Some f1"
    "write_all ftl_wr f1 (map (\<lambda>i. (nvme_lpn cmd i, zero_page)) xs) = Some f'" by (auto split: bind_splits)
  then have "ftl_write f (nvme_lpn cmd i) (Some zero_page) = Some (RET_OK, f1)"
    by (auto simp: ftl_wr_def split: if_splits option.splits)
  with Cons.IH [OF f1(2)] show ?case by (simp add: write_zeroes_body_def)
qed simp

text \<open>Write Zeroes stores a page of zeros under every logical page of its range and touches no other page,
  when the FTL takes the writes; the numbers of the pages are cut to 32 bits.\<close>

theorem write_zeroes_clears_range:
  assumes "nc_opcode cmd = NVME_IO_WRITE_ZEROES" "ftl_ready (nv_ftl s)"
    and "write_all ftl_wr (nv_ftl s) (map (\<lambda>i. (nvme_lpn cmd i, zero_page)) [0..<nvme_nlb cmd]) = Some f"
  shows "\<exists>cpl. nvme_ctrl_process_io_cmd cmd s = Some (cpl, s\<lparr>nv_ftl := f\<rparr>) \<and> cp_status cpl = 0 \<and> cp_cid cpl = nc_cid cmd \<and>
     (\<forall>lpn. ftl_rd f lpn = (if \<exists>i<nvme_nlb cmd. lpn = nvme_lpn cmd i then Some zero_page else ftl_rd (nv_ftl s) lpn))"
proof -
  have "ftl_rd f lpn = (if \<exists>i<nvme_nlb cmd. lpn = nvme_lpn cmd i then Some zero_page else ftl_rd (nv_ftl s) lpn)" for lpn
    using host.read_after_writes [OF assms(2,3), of lpn] by (auto simp: map_of_const split: if_splits)
  moreover have "\<exists>cpl. nvme_ctrl_process_io_cmd cmd s = Some (cpl, s\<lparr>nv_ftl := f\<rparr>) \<and> cp_status cpl = 0 \<and> cp_cid cpl = nc_cid cmd"
    using write_zeroes_loop [OF assms(3)]
    by (simp add: nvme_ctrl_process_io_cmd_def io_write_zeroes_def assms(1) set_completion_status_def NVME_SC_SUCCESS_def Let_def)
  ultimately show ?thesis by blast
qed

lemma write_zeroes_clears_range_witness:
  "\<exists>f cpl. nvme_ctrl_process_io_cmd (blank_command\<lparr>nc_opcode := 8, nc_cdw10 := 5\<rparr>) nvme_boot = Some (cpl, nvme_boot\<lparr>nv_ftl := f\<rparr>) \<and>
     ftl_rd f 5 = Some zero_page"
proof -
  define cmd where "cmd = blank_command\<lparr>nc_opcode := 8, nc_cdw10 := 5\<rparr>"
  have c: "nc_opcode cmd = 8" "nvme_nlb cmd = 1" "nvme_lpn cmd 0 = 5"
    by (simp_all add: cmd_def blank_command_def nvme_nlb_def nvme_lpn_def nvme_slba_def)
  note b = nvme_boot_ftl
  have "5 < FTL_TOTAL_LPNS" "length zero_page = NAND_PAGE_SIZE" by (simp_all add: ftl_bounds zero_page_def NAND_PAGE_SIZE_def)
  then obtain f where "ftl_wr example_ftl 5 zero_page = Some f" by (rule example_ftl_write)
  then have w: "write_all ftl_wr (nv_ftl nvme_boot) (map (\<lambda>i. (nvme_lpn cmd i, zero_page)) [0..<nvme_nlb cmd]) = Some f"
    by (simp add: c b)
  have r: "ftl_ready (nv_ftl nvme_boot)" by (simp add: b example_ftl_facts)
  from write_zeroes_clears_range [OF c(1) r w] show ?thesis unfolding cmd_def [symmetric] using c(2,3) by force
qed

text \<open>A count of 65535, which asks for 65536 blocks, overflows the 16-bit count: nothing is written, and the
  command still reports success.\<close>

theorem write_zeroes_full_count:
  assumes "nc_opcode cmd = NVME_IO_WRITE_ZEROES" "nc_cdw12 cmd AND 0xFFFF = 0xFFFF"
  shows "\<exists>cpl. nvme_ctrl_process_io_cmd cmd s = Some (cpl, s) \<and> cp_status cpl = 0"
proof -
  have "nvme_nlb cmd = 0" by (simp add: nvme_nlb_def assms(2))
  then show ?thesis
    by (simp add: nvme_ctrl_process_io_cmd_def io_write_zeroes_def assms(1) set_completion_status_def NVME_SC_SUCCESS_def Let_def)
qed

lemma write_zeroes_full_count_witness:
  "\<exists>cpl. nvme_ctrl_process_io_cmd (blank_command\<lparr>nc_opcode := 8, nc_cdw12 := 0xFFFF\<rparr>) nvme_boot = Some (cpl, nvme_boot)"
  using write_zeroes_full_count [of "blank_command\<lparr>nc_opcode := 8, nc_cdw12 := 0xFFFF\<rparr>" nvme_boot]
  by (auto simp: blank_command_def)

lemma low_half: "(ucast (w AND 0xFFFFFFFF) :: u32) = ucast (w :: u64)"
proof -
  have m: "(0xFFFFFFFF :: u64) = mask 32" by (simp add: mask_eq_exp_minus_1)
  show ?thesis unfolding m by (rule bit_word_eqI) (simp add: bit_simps)
qed

lemma write_half_halves:
  "(ucast (write_half v h w) :: u32) = (if h then ucast w else v)"
  "(ucast (drop_bit 32 (write_half v h w)) :: u32) = (if h then v else ucast (drop_bit 32 w))"
proof -
  have m: "(0xFFFFFFFF :: u64) = mask 32" "(0xFFFFFFFF00000000 :: u64) = push_bit 32 (mask 32)"
    by (simp_all add: mask_eq_exp_minus_1 push_bit_eq_mult)
  have high: "\<not> bit v (32 + n)" for n using bit_imp_le_length [of v "32 + n"] by auto
  show "(ucast (write_half v h w) :: u32) = (if h then ucast w else v)"
    "(ucast (drop_bit 32 (write_half v h w)) :: u32) = (if h then v else ucast (drop_bit 32 w))"
    unfolding write_half_def m by (auto intro!: bit_word_eqI simp: bit_simps high)
qed

lemma write_reg_cases:
  "ct_regs (nv_ctrl (nvme_ctrl_write_reg off v s)) =
     (let r = ct_regs (nv_ctrl s) in
      if off = 0x0C then r\<lparr>r_intms := r_intms r OR v\<rparr>
      else if off = 0x10 then r\<lparr>r_intmc := r_intmc r AND NOT v\<rparr>
      else if off = 0x14 then r\<lparr>r_cc := v, r_csts := (if bit v 0 then r_csts r OR 1 else r_csts r AND NOT 1)\<rparr>
      else if off = 0x24 then r\<lparr>r_aqa := v\<rparr>
      else if off = 0x28 then r\<lparr>r_asq := write_half v False (r_asq r)\<rparr>
      else if off = 0x2C then r\<lparr>r_asq := write_half v True (r_asq r)\<rparr>
      else if off = 0x30 then r\<lparr>r_acq := write_half v False (r_acq r)\<rparr>
      else if off = 0x34 then r\<lparr>r_acq := write_half v True (r_acq r)\<rparr>
      else r)"
  by (simp add: nvme_ctrl_write_reg_def write_cc_facts nvme_ctrl_write_aqa_def nvme_ctrl_write_asq_def nvme_ctrl_write_acq_def
      Let_def)

text \<open>A register that the host may set reads back what was written to it, and a write changes no other
  register, except that enabling or disabling the controller moves CSTS; in particular a write to
  INTMC does not clear bits of INTMS.\<close>

theorem register_read_back:
  "(off \<in> {0x14, 0x24, 0x28, 0x2C, 0x30, 0x34} \<longrightarrow> nvme_ctrl_read_reg off (nvme_ctrl_write_reg off v s) = v) \<and>
   (off' \<noteq> off \<and> \<not> (off = 0x14 \<and> off' = 0x1C) \<longrightarrow>
      nvme_ctrl_read_reg off' (nvme_ctrl_write_reg off v s) = nvme_ctrl_read_reg off' s)"
proof (intro conjI impI)
  assume "off \<in> {0x14, 0x24, 0x28, 0x2C, 0x30, 0x34}"
  then show "nvme_ctrl_read_reg off (nvme_ctrl_write_reg off v s) = v"
    by (elim insertE emptyE) (simp_all add: nvme_ctrl_read_reg_def write_reg_cases low_half write_half_halves Let_def)
next
  assume ne: "off' \<noteq> off \<and> \<not> (off = 0x14 \<and> off' = 0x1C)"
  show "nvme_ctrl_read_reg off' (nvme_ctrl_write_reg off v s) = nvme_ctrl_read_reg off' s"
  proof (cases "off \<in> {0x0C, 0x10, 0x14, 0x24, 0x28, 0x2C, 0x30, 0x34}")
    case True
    then show ?thesis using ne
      by (elim insertE emptyE) (simp_all add: nvme_ctrl_read_reg_def write_reg_cases low_half write_half_halves Let_def)
  next
    case False
    then show ?thesis by (simp add: nvme_ctrl_read_reg_def write_reg_cases Let_def)
  qed
qed

lemma register_read_back_witness:
  "nvme_ctrl_read_reg 0x2C (nvme_ctrl_write_reg 0x2C 77 nvme_boot) = 77 \<and>
   nvme_ctrl_read_reg 0x0C (nvme_ctrl_write_reg 0x10 1 (nvme_ctrl_write_reg 0x0C 1 nvme_boot)) =
     nvme_ctrl_read_reg 0x0C (nvme_ctrl_write_reg 0x0C 1 nvme_boot)"
  using register_read_back [of "0x2C" 77 nvme_boot 0] register_read_back [of "0x10" 1 "nvme_ctrl_write_reg 0x0C 1 nvme_boot" "0x0C"]
  by simp

definition fw_one_running :: "nvme_sys \<Rightarrow> bool" where
  "fw_one_running s \<longleftrightarrow> (\<forall>i<NVME_FW_SLOT_COUNT. fw_state (nv_fw_slots s ! i) = NVME_FW_SLOT_RUNNING \<longleftrightarrow> i + 1 = nv_fw_running s)"

lemma post_event_fw:
  "nv_fw_slots (snd (nvme_ctrl_post_aer_event t i l s)) = nv_fw_slots s"
  "nv_fw_running (snd (nvme_ctrl_post_aer_event t i l s)) = nv_fw_running s"
  by (simp_all add: nvme_ctrl_post_aer_event_def aer_enqueue_def)

text \<open>Replacing and activating a firmware image keeps exactly the running slot marked as running, whichever
  slot it goes to; but replacing the image of the running slot without activating it is accepted, and
  leaves no slot marked as running.\<close>

theorem fw_replace_image:
  assumes "fw_ok s" "fw_one_running s" "fd_active (nv_fw_download s)" "fd_downloaded_size (nv_fw_download s) \<noteq> 0"
    and "slot \<in> {1..NVME_FW_SLOT_COUNT}" "nc_cdw10 cmd AND 0x07 = of_nat slot"
    and "drop_bit 8 (nc_cdw10 cmd) AND 0x07 = of_nat action" "action \<in> {1, 2}"
    and "admin_fw_activate cmd (cpl, s) = (cpl', s')"
  shows "cp_status cpl' = 0 \<and>
     (if action = 1 \<and> slot = nv_fw_running s
      then nv_fw_running s' = slot \<and> (\<forall>i<NVME_FW_SLOT_COUNT. fw_state (nv_fw_slots s' ! i) \<noteq> NVME_FW_SLOT_RUNNING)
      else fw_one_running s' \<and> nv_fw_running s' = (if action = 2 then slot else nv_fw_running s))"
proof -
  have n: "unat (of_nat slot :: u32) = slot" "unat (of_nat action :: u32) = action" "1 \<le> slot" "slot \<le> 7"
    using assms(5,8) by (auto simp: NVME_FW_SLOT_COUNT_def unat_of_nat)
  have res: "cpl' = complete 0 NVME_SC_SUCCESS cpl" "s' = fw_commit slot action s"
    using assms(3-9) n by (auto simp: admin_fw_activate_def assms(6,7) n NVME_FW_SLOT_COUNT_def)
  have len: "length (nv_fw_slots s) = 7" "nv_fw_running s \<in> {1..7}" using assms(1) by (auto simp: fw_ok_def NVME_FW_SLOT_COUNT_def)
  have st: "i < 7 \<Longrightarrow> fw_state (nv_fw_slots s ! i) = NVME_FW_SLOT_RUNNING \<longleftrightarrow> i + 1 = nv_fw_running s" for i
    using assms(2) by (simp add: fw_one_running_def NVME_FW_SLOT_COUNT_def)
  have "if action = 1 \<and> slot = nv_fw_running s
      then nv_fw_running s' = slot \<and> (\<forall>i<NVME_FW_SLOT_COUNT. fw_state (nv_fw_slots s' ! i) \<noteq> NVME_FW_SLOT_RUNNING)
      else fw_one_running s' \<and> nv_fw_running s' = (if action = 2 then slot else nv_fw_running s)"
  proof (cases "action = 1")
    case True
    then show ?thesis using n len st
      by (auto simp: res(2) fw_commit_def upd_slot_def fw_one_running_def NVME_FW_SLOT_COUNT_def nth_list_update)
  next
    case False
    with assms(8) have "action = 2" by simp
    moreover obtain p r where "slot = Suc p" "nv_fw_running s = Suc r" "p < 7" "r < 7"
      using n len(2) by (cases slot; cases "nv_fw_running s") auto
    ultimately show ?thesis using len(1) st
      by (auto simp: res(2) fw_commit_def fw_activate_now_def upd_slot_def fw_one_running_def NVME_FW_SLOT_COUNT_def nth_list_update
          post_event_fw Let_def split: if_splits)
  qed
  then show ?thesis by (simp add: res(1) complete_def set_completion_status_def NVME_SC_SUCCESS_def)
qed

lemma fw_replace_image_witness:
  "\<exists>cpl s'. admin_fw_activate (blank_command\<lparr>nc_cdw10 := 0x101\<rparr>) (blank_completion,
       nvme_boot\<lparr>nv_fw_download := \<lparr>fd_active = True, fd_downloaded_size = 4096\<rparr>\<rparr>) = (cpl, s') \<and>
     cp_status cpl = 0 \<and> fw_state (nv_fw_slots s' ! 0) \<noteq> NVME_FW_SLOT_RUNNING \<and> nv_fw_running s' = 1"
proof -
  define s where "s = nvme_boot\<lparr>nv_fw_download := \<lparr>fd_active = True, fd_downloaded_size = 4096\<rparr>\<rparr>"
  define cmd where "cmd = blank_command\<lparr>nc_cdw10 := 0x101\<rparr>"
  have w: "fw_ok nvme_boot" using nvme_boot_inv by (simp add: nvme_inv_def nvme_wf_def)
  have b: "nv_fw_slots nvme_boot = \<lparr>fw_state = NVME_FW_SLOT_RUNNING, fw_version = fw_version_2_2_0, fw_image_size = 0\<rparr> #
         replicate 6 \<lparr>fw_state = NVME_FW_SLOT_EMPTY, fw_version = replicate 8 0, fw_image_size = 0\<rparr>" "nv_fw_running nvme_boot = 1"
    by (simp_all add: nvme_boot_def nvme_ctrl_init_def calloc_array_def Let_def nvme_ctrl_fw_init_def)
  have s: "fw_ok s" "fw_one_running s" "fd_active (nv_fw_download s)" "fd_downloaded_size (nv_fw_download s) \<noteq> 0"
    using w b by (auto simp: s_def fw_ok_def fw_one_running_def NVME_FW_MAX_IMAGE_SIZE_def nth_Cons NVME_FW_SLOT_COUNT_def
        split: nat.split)
  have c: "nc_cdw10 cmd AND 0x07 = of_nat 1" "drop_bit 8 (nc_cdw10 cmd) AND 0x07 = of_nat 1"
    by (simp_all add: cmd_def blank_command_def)
  obtain cpl s' where r: "admin_fw_activate cmd (blank_completion, s) = (cpl, s')" by (metis prod.exhaust)
  have "nv_fw_running s = 1" using b by (simp add: s_def)
  with fw_replace_image [OF s _ c _ r] r show ?thesis unfolding s_def [symmetric] cmd_def [symmetric] by (simp add: NVME_FW_SLOT_COUNT_def)
qed

end
