(* ===== verification/Threads.thy ===== *)
theory Threads
  imports Prelude
begin

text \<open>
  The thread wrapper, \<open>modules/thread/thread.c\<close> and \<open>modules/thread/thread.h\<close>: the table of threads
  and the functions over it, on top of POSIX threads.  A POSIX thread is an entry of a table of its
  own: the slot it was started for and how far it is, its program being the program of the client.
  One step of a thread is atomic.  What happens while a caller sleeps or joins is given by a
  schedule: a list of batches of threads that each take a step.  An outer \<open>None\<close> is undefined
  behaviour, or a call that has not returned when the schedule ends.
\<close>

section \<open>Data\<close>

definition MAX_THREADS :: nat where "MAX_THREADS = 32"

datatype thread_state = THREAD_STATE_UNINIT | THREAD_STATE_READY | THREAD_STATE_RUNNING | THREAD_STATE_SUSPENDED
  | THREAD_STATE_STOPPED | THREAD_STATE_ERROR

datatype thread_priority = THREAD_PRIORITY_LOW | THREAD_PRIORITY_NORMAL | THREAD_PRIORITY_HIGH | THREAD_PRIORITY_URGENT

record 'f thread_priv =
  tp_thread_id :: nat
  tp_name :: string
  tp_pthread :: "nat option"
  tp_func :: "'f option"
  tp_arg :: nat
  tp_retval :: nat
  tp_state :: thread_state
  tp_priority :: thread_priority
  tp_start_time_ms :: u64
  tp_total_run_time_ms :: u64
  tp_run_count :: u32
  tp_error_count :: u32
  tp_is_initialized :: bool
  tp_should_stop :: bool

record thread_info =
  ti_thread_id :: nat
  ti_name :: string
  ti_state :: thread_state
  ti_priority :: thread_priority
  ti_start_time_ms :: u64
  ti_total_run_time_ms :: u64
  ti_run_count :: u32
  ti_error_count :: u32
  ti_private_data :: nat

text \<open>How far a POSIX thread is: in front of its entry function, in it, behind it, at its end, joined.\<close>

datatype 'p phase = ENTERING | INSIDE 'p | LEAVING nat | EXITED nat | JOINED

record ('f, 'p) thread_sys =
  ts_slots :: "'f thread_priv list"
  ts_thread_count :: u32
  ts_next_thread_id :: nat
  ts_initialized :: bool
  ts_pthreads :: "(nat \<times> 'p phase) list"
  ts_create_fails :: "nat \<Rightarrow> bool"
  ts_create_count :: nat
  ts_clock :: "nat \<Rightarrow> u64"
  ts_ticks :: nat
  ts_sched :: "nat list list"

definition zero_thread :: "'f thread_priv" where
  "zero_thread = \<lparr>tp_thread_id = 0, tp_name = '''', tp_pthread = None, tp_func = None, tp_arg = 0, tp_retval = 0,
     tp_state = THREAD_STATE_UNINIT, tp_priority = THREAD_PRIORITY_LOW, tp_start_time_ms = 0, tp_total_run_time_ms = 0,
     tp_run_count = 0, tp_error_count = 0, tp_is_initialized = False, tp_should_stop = False\<rparr>"

type_synonym ('f, 'p, 'z) world = "('f, 'p, 'z) thread_sys_scheme"

definition thread_timestamp_ms :: "('f, 'p, 'z) world \<Rightarrow> u64 \<times> ('f, 'p, 'z) world" where
  "thread_timestamp_ms s = (ts_clock s (ts_ticks s), s\<lparr>ts_ticks := ts_ticks s + 1\<rparr>)"

definition find_free_slot :: "('f, 'p, 'z) world \<Rightarrow> nat option" where
  "find_free_slot s = find (\<lambda>i. \<not> tp_is_initialized (ts_slots s ! i)) [0..<MAX_THREADS]"

definition find_thread_by_id :: "nat \<Rightarrow> ('f, 'p, 'z) world \<Rightarrow> nat option" where
  "find_thread_by_id thread_id s =
     find (\<lambda>i. tp_is_initialized (ts_slots s ! i) \<and> tp_thread_id (ts_slots s ! i) = thread_id) [0..<MAX_THREADS]"

definition upd_thread :: "nat \<Rightarrow> ('f thread_priv \<Rightarrow> 'f thread_priv) \<Rightarrow> ('f, 'p, 'z) world \<Rightarrow> ('f, 'p, 'z) world" where
  "upd_thread i f s = s\<lparr>ts_slots := (ts_slots s)[i := f (ts_slots s ! i)]\<rparr>"

definition set_phase :: "nat \<Rightarrow> 'p phase \<Rightarrow> ('f, 'p, 'z) world \<Rightarrow> ('f, 'p, 'z) world" where
  "set_phase t p s = s\<lparr>ts_pthreads := (ts_pthreads s)[t := (fst (ts_pthreads s ! t), p)]\<rparr>"

section \<open>The wrapper around the entry function\<close>

text \<open>
  The wrapper reads the entry function from its slot when it runs; \<open>entry\<close> gives the program of a
  function and its argument.
\<close>

definition thread_wrapper_enter :: "('f \<Rightarrow> nat \<Rightarrow> 'p) \<Rightarrow> nat \<Rightarrow> ('f, 'p, 'z) world \<Rightarrow> ('f, 'p, 'z) world option" where
  "thread_wrapper_enter entry t s =
     (let i = fst (ts_pthreads s ! t); (now, s) = thread_timestamp_ms s;
          s = upd_thread i (\<lambda>p. p\<lparr>tp_state := THREAD_STATE_RUNNING, tp_start_time_ms := now, tp_run_count := tp_run_count p + 1\<rparr>) s in
      case tp_func (ts_slots s ! i) of
        None \<Rightarrow> None
      | Some f \<Rightarrow> Some (set_phase t (INSIDE (entry f (tp_arg (ts_slots s ! i)))) s))"

definition thread_wrapper_leave :: "nat \<Rightarrow> nat \<Rightarrow> ('f, 'p, 'z) world \<Rightarrow> ('f, 'p, 'z) world" where
  "thread_wrapper_leave t retval s =
     (let i = fst (ts_pthreads s ! t); (now, s) = thread_timestamp_ms s;
          s = upd_thread i (\<lambda>p. p\<lparr>tp_retval := retval, tp_state := THREAD_STATE_STOPPED,
                tp_total_run_time_ms := tp_total_run_time_ms p + (now - tp_start_time_ms p)\<rparr>) s in
      set_phase t (EXITED retval) s)"

text \<open>One step of thread \<open>t\<close>; \<open>body\<close> is a step inside of the entry function, which goes on or returns.\<close>

definition thread_wrapper ::
    "('f \<Rightarrow> nat \<Rightarrow> 'p) \<Rightarrow> ('p \<Rightarrow> ('f, 'p, 'z) world \<Rightarrow> (('p + nat) \<times> ('f, 'p, 'z) world) option) \<Rightarrow> nat \<Rightarrow>
       ('f, 'p, 'z) world \<Rightarrow> ('f, 'p, 'z) world option" where
  "thread_wrapper entry body t s =
     (if length (ts_pthreads s) \<le> t then Some s
      else (case snd (ts_pthreads s ! t) of
              ENTERING \<Rightarrow> thread_wrapper_enter entry t s
            | INSIDE p \<Rightarrow>
                do {
                  (r, s) \<leftarrow> body p s;
                  Some (set_phase t (case r of Inl p \<Rightarrow> INSIDE p | Inr v \<Rightarrow> LEAVING v) s)
                }
            | LEAVING v \<Rightarrow> Some (thread_wrapper_leave t v s)
            | EXITED v \<Rightarrow> Some s
            | JOINED \<Rightarrow> Some s))"

section \<open>Waiting\<close>

definition run_batch :: "(nat \<Rightarrow> ('f, 'p, 'z) world \<Rightarrow> ('f, 'p, 'z) world option) \<Rightarrow> nat list \<Rightarrow> ('f, 'p, 'z) world \<Rightarrow>
    ('f, 'p, 'z) world option" where
  "run_batch step b s = fold_option step b s"

text \<open>The \<open>pthread_join\<close> of the library: the value of an exited thread, or \<open>Some None\<close> while it runs.\<close>

definition pthread_join :: "nat option \<Rightarrow> ('f, 'p, 'z) world \<Rightarrow> (nat \<times> ('f, 'p, 'z) world) option option" where
  "pthread_join h s =
     (case h of
        None \<Rightarrow> None
      | Some t \<Rightarrow>
          if length (ts_pthreads s) \<le> t then None
          else (case snd (ts_pthreads s ! t) of
                  EXITED v \<Rightarrow> Some (Some (v, set_phase t JOINED s))
                | JOINED \<Rightarrow> None
                | _ \<Rightarrow> Some None))"

fun join_rounds :: "(nat \<Rightarrow> ('f, 'p, 'z) world \<Rightarrow> ('f, 'p, 'z) world option) \<Rightarrow> nat option \<Rightarrow> nat list list \<Rightarrow>
    ('f, 'p, 'z) world \<Rightarrow> (nat \<times> ('f, 'p, 'z) world) option" where
  "join_rounds step h [] s =
     (case pthread_join h s of Some (Some (v, s)) \<Rightarrow> Some (v, s\<lparr>ts_sched := []\<rparr>) | _ \<Rightarrow> None)"
| "join_rounds step h (b # bs) s =
     (case pthread_join h s of
        None \<Rightarrow> None
      | Some (Some (v, s)) \<Rightarrow> Some (v, s\<lparr>ts_sched := b # bs\<rparr>)
      | Some None \<Rightarrow> do { s \<leftarrow> run_batch step b s; join_rounds step h bs s })"

definition wait_joined :: "(nat \<Rightarrow> ('f, 'p, 'z) world \<Rightarrow> ('f, 'p, 'z) world option) \<Rightarrow> nat option \<Rightarrow> ('f, 'p, 'z) world \<Rightarrow>
    (nat \<times> ('f, 'p, 'z) world) option" where
  "wait_joined step h s = join_rounds step h (ts_sched s) s"

definition thread_sleep :: "(nat \<Rightarrow> ('f, 'p, 'z) world \<Rightarrow> ('f, 'p, 'z) world option) \<Rightarrow> ('f, 'p, 'z) world \<Rightarrow>
    ('f, 'p, 'z) world option" where
  "thread_sleep step s =
     (case ts_sched s of [] \<Rightarrow> None | b # bs \<Rightarrow> run_batch step b (s\<lparr>ts_sched := bs\<rparr>))"

section \<open>The functions of the manager\<close>

definition thread_manager_init :: "('f, 'p, 'z) world \<Rightarrow> ret_code \<times> ('f, 'p, 'z) world" where
  "thread_manager_init s =
     (if ts_initialized s then (RET_OK, s)
      else (RET_OK, s\<lparr>ts_slots := replicate MAX_THREADS zero_thread, ts_thread_count := 0, ts_next_thread_id := 1,
                      ts_initialized := True\<rparr>))"

definition stop_slot :: "(nat \<Rightarrow> ('f, 'p, 'z) world \<Rightarrow> ('f, 'p, 'z) world option) \<Rightarrow> nat \<Rightarrow> ('f, 'p, 'z) world \<Rightarrow>
    ('f, 'p, 'z) world option" where
  "stop_slot step i s =
     (if \<not> tp_is_initialized (ts_slots s ! i) then Some s
      else do {
        s \<leftarrow> (if tp_state (ts_slots s ! i) = THREAD_STATE_RUNNING
             then map_option snd (wait_joined step (tp_pthread (ts_slots s ! i)) (upd_thread i (\<lambda>p. p\<lparr>tp_should_stop := True\<rparr>) s))
             else Some s);
        Some (upd_thread i (\<lambda>p. p\<lparr>tp_is_initialized := False\<rparr>) s)
      })"

definition thread_manager_deinit :: "(nat \<Rightarrow> ('f, 'p, 'z) world \<Rightarrow> ('f, 'p, 'z) world option) \<Rightarrow> ('f, 'p, 'z) world \<Rightarrow>
    (ret_code \<times> ('f, 'p, 'z) world) option" where
  "thread_manager_deinit step s =
     (if \<not> ts_initialized s then Some (RET_OK, s)
      else do {
        s \<leftarrow> fold_option (stop_slot step) [0..<MAX_THREADS] s;
        Some (RET_OK, s\<lparr>ts_initialized := False\<rparr>)
      })"

definition thread_create :: "string \<Rightarrow> 'f option \<Rightarrow> nat \<Rightarrow> thread_priority \<Rightarrow> ('f, 'p, 'z) world \<Rightarrow> nat \<times> ('f, 'p, 'z) world" where
  "thread_create name func arg priority s =
     (if \<not> ts_initialized s \<or> func = None then (0, s)
      else (case find_free_slot s of
              None \<Rightarrow> (0, s)
            | Some slot \<Rightarrow>
                (ts_next_thread_id s,
                 upd_thread slot (\<lambda>_. zero_thread\<lparr>tp_thread_id := ts_next_thread_id s, tp_name := take 31 name, tp_func := func,
                     tp_arg := arg, tp_priority := priority, tp_state := THREAD_STATE_READY, tp_is_initialized := True\<rparr>)
                   (s\<lparr>ts_next_thread_id := u32_add (ts_next_thread_id s) 1, ts_thread_count := ts_thread_count s + 1\<rparr>))))"

definition thread_destroy :: "(nat \<Rightarrow> ('f, 'p, 'z) world \<Rightarrow> ('f, 'p, 'z) world option) \<Rightarrow> nat \<Rightarrow> ('f, 'p, 'z) world \<Rightarrow>
    (ret_code \<times> ('f, 'p, 'z) world) option" where
  "thread_destroy step thread_id s =
     (if \<not> ts_initialized s then Some (RET_ERR_NOT_INIT, s)
      else (case find_thread_by_id thread_id s of
              None \<Rightarrow> Some (RET_ERR_PARAM, s)
            | Some i \<Rightarrow>
                do {
                  s \<leftarrow> stop_slot step i s;
                  Some (RET_OK, s\<lparr>ts_thread_count := ts_thread_count s - 1\<rparr>)
                }))"

definition thread_start :: "nat \<Rightarrow> ('f, 'p, 'z) world \<Rightarrow> ret_code \<times> ('f, 'p, 'z) world" where
  "thread_start thread_id s =
     (if \<not> ts_initialized s then (RET_ERR_NOT_INIT, s)
      else (case find_thread_by_id thread_id s of
              None \<Rightarrow> (RET_ERR_PARAM, s)
            | Some i \<Rightarrow>
                if tp_state (ts_slots s ! i) \<noteq> THREAD_STATE_READY then (RET_ERR_INTERNAL, s)
                else
                  let fails = ts_create_fails s (ts_create_count s); s = s\<lparr>ts_create_count := ts_create_count s + 1\<rparr> in
                  if fails
                  then (RET_ERR_INTERNAL, upd_thread i (\<lambda>p. p\<lparr>tp_state := THREAD_STATE_ERROR, tp_error_count := tp_error_count p + 1\<rparr>) s)
                  else (RET_OK, upd_thread i (\<lambda>p. p\<lparr>tp_pthread := Some (length (ts_pthreads s))\<rparr>)
                                  (s\<lparr>ts_pthreads := ts_pthreads s @ [(i, ENTERING)]\<rparr>))))"

definition thread_stop :: "(nat \<Rightarrow> ('f, 'p, 'z) world \<Rightarrow> ('f, 'p, 'z) world option) \<Rightarrow> nat \<Rightarrow> ('f, 'p, 'z) world \<Rightarrow>
    (ret_code \<times> ('f, 'p, 'z) world) option" where
  "thread_stop step thread_id s =
     (if \<not> ts_initialized s then Some (RET_ERR_NOT_INIT, s)
      else (case find_thread_by_id thread_id s of
              None \<Rightarrow> Some (RET_ERR_PARAM, s)
            | Some i \<Rightarrow>
                if tp_state (ts_slots s ! i) \<noteq> THREAD_STATE_RUNNING then Some (RET_OK, s)
                else do {
                  (_, s) \<leftarrow> wait_joined step (tp_pthread (ts_slots s ! i)) (upd_thread i (\<lambda>p. p\<lparr>tp_should_stop := True\<rparr>) s);
                  Some (RET_OK, upd_thread i (\<lambda>p. p\<lparr>tp_state := THREAD_STATE_STOPPED\<rparr>) s)
                }))"

text \<open>The value handed back is \<open>None\<close> where \<open>*retval\<close> is not written.\<close>

definition thread_join :: "(nat \<Rightarrow> ('f, 'p, 'z) world \<Rightarrow> ('f, 'p, 'z) world option) \<Rightarrow> nat \<Rightarrow> ('f, 'p, 'z) world \<Rightarrow>
    (ret_code \<times> nat option \<times> ('f, 'p, 'z) world) option" where
  "thread_join step thread_id s =
     (if \<not> ts_initialized s then Some (RET_ERR_NOT_INIT, None, s)
      else (case find_thread_by_id thread_id s of
              None \<Rightarrow> Some (RET_ERR_PARAM, None, s)
            | Some i \<Rightarrow>
                if tp_state (ts_slots s ! i) \<in> {THREAD_STATE_STOPPED, THREAD_STATE_ERROR}
                then Some (RET_OK, Some (tp_retval (ts_slots s ! i)), s)
                else do {
                  (v, s) \<leftarrow> wait_joined step (tp_pthread (ts_slots s ! i)) s;
                  Some (RET_OK, Some v, upd_thread i (\<lambda>p. p\<lparr>tp_state := THREAD_STATE_STOPPED\<rparr>) s)
                }))"

definition thread_get_info :: "nat \<Rightarrow> bool \<Rightarrow> ('f, 'p, 'z) world \<Rightarrow> ret_code \<times> thread_info option" where
  "thread_get_info thread_id has_info s =
     (if \<not> has_info then (RET_ERR_PARAM, None)
      else if \<not> ts_initialized s then (RET_ERR_NOT_INIT, None)
      else (case find_thread_by_id thread_id s of
              None \<Rightarrow> (RET_ERR_PARAM, None)
            | Some i \<Rightarrow>
                let p = ts_slots s ! i in
                (RET_OK, Some \<lparr>ti_thread_id = tp_thread_id p, ti_name = tp_name p, ti_state = tp_state p, ti_priority = tp_priority p,
                   ti_start_time_ms = tp_start_time_ms p, ti_total_run_time_ms = tp_total_run_time_ms p,
                   ti_run_count = tp_run_count p, ti_error_count = tp_error_count p, ti_private_data = tp_arg p\<rparr>)))"

definition thread_get_state :: "nat \<Rightarrow> ('f, 'p, 'z) world \<Rightarrow> thread_state" where
  "thread_get_state thread_id s =
     (if \<not> ts_initialized s then THREAD_STATE_UNINIT
      else (case find_thread_by_id thread_id s of None \<Rightarrow> THREAD_STATE_UNINIT | Some i \<Rightarrow> tp_state (ts_slots s ! i)))"

text \<open>\<open>self\<close> is the calling POSIX thread, \<open>None\<close> one that the manager did not start.\<close>

definition thread_get_current_id :: "nat option \<Rightarrow> ('f, 'p, 'z) world \<Rightarrow> nat" where
  "thread_get_current_id self s =
     (if \<not> ts_initialized s \<or> self = None then 0
      else (case find (\<lambda>i. tp_is_initialized (ts_slots s ! i) \<and> tp_pthread (ts_slots s ! i) = self) [0..<MAX_THREADS] of
              None \<Rightarrow> 0
            | Some i \<Rightarrow> tp_thread_id (ts_slots s ! i)))"

section \<open>Mutexes and condition variables\<close>

text \<open>
  A handle is \<open>None\<close> for \<open>NULL\<close>; what the library answers is an argument: whether \<open>malloc\<close> and the
  initialisation succeed, and the result \<open>rc\<close> of the call of the library.
\<close>

datatype pthread_result = PTHREAD_OK | PTHREAD_EBUSY | PTHREAD_ETIMEDOUT | PTHREAD_FAILED

record mutex_priv = mx_is_initialized :: bool
record cond_priv = cv_is_initialized :: bool

definition mutex_create :: "bool \<Rightarrow> pthread_result \<Rightarrow> mutex_priv option" where
  "mutex_create malloc_ok rc = (if \<not> malloc_ok then None else if rc \<noteq> PTHREAD_OK then None else Some \<lparr>mx_is_initialized = True\<rparr>)"

definition mutex_usable :: "mutex_priv option \<Rightarrow> bool" where
  "mutex_usable m = (case m of None \<Rightarrow> False | Some p \<Rightarrow> mx_is_initialized p)"

definition mutex_destroy :: "mutex_priv option \<Rightarrow> ret_code" where
  "mutex_destroy m = (if \<not> mutex_usable m then RET_ERR_PARAM else RET_OK)"

definition mutex_lock :: "pthread_result \<Rightarrow> mutex_priv option \<Rightarrow> ret_code" where
  "mutex_lock rc m = (if \<not> mutex_usable m then RET_ERR_PARAM else if rc \<noteq> PTHREAD_OK then RET_ERR_INTERNAL else RET_OK)"

definition mutex_unlock :: "pthread_result \<Rightarrow> mutex_priv option \<Rightarrow> ret_code" where
  "mutex_unlock rc m = (if \<not> mutex_usable m then RET_ERR_PARAM else if rc \<noteq> PTHREAD_OK then RET_ERR_INTERNAL else RET_OK)"

definition mutex_trylock :: "pthread_result \<Rightarrow> mutex_priv option \<Rightarrow> ret_code" where
  "mutex_trylock rc m =
     (if \<not> mutex_usable m then RET_ERR_PARAM
      else if rc = PTHREAD_OK then RET_OK else if rc = PTHREAD_EBUSY then RET_ERR_BUSY else RET_ERR_INTERNAL)"

definition cond_create :: "bool \<Rightarrow> pthread_result \<Rightarrow> cond_priv option" where
  "cond_create malloc_ok rc = (if \<not> malloc_ok then None else if rc \<noteq> PTHREAD_OK then None else Some \<lparr>cv_is_initialized = True\<rparr>)"

definition cond_usable :: "cond_priv option \<Rightarrow> bool" where
  "cond_usable c = (case c of None \<Rightarrow> False | Some p \<Rightarrow> cv_is_initialized p)"

definition cond_destroy :: "cond_priv option \<Rightarrow> ret_code" where
  "cond_destroy c = (if \<not> cond_usable c then RET_ERR_PARAM else RET_OK)"

definition cond_wait :: "pthread_result \<Rightarrow> cond_priv option \<Rightarrow> mutex_priv option \<Rightarrow> ret_code" where
  "cond_wait rc c m =
     (if \<not> cond_usable c \<or> \<not> mutex_usable m then RET_ERR_PARAM else if rc \<noteq> PTHREAD_OK then RET_ERR_INTERNAL else RET_OK)"

text \<open>The absolute time, in seconds and nanoseconds, at which a wait that starts now ends.\<close>

definition wait_deadline :: "nat \<Rightarrow> int \<times> int \<Rightarrow> int \<times> int" where
  "wait_deadline timeout_ms = (\<lambda>(sec, nsec).
     let sec = sec + int (timeout_ms div 1000); nsec = nsec + int ((timeout_ms mod 1000) * 1000000 mod 2 ^ 32) in
     if 1000000000 \<le> nsec then (sec + 1, nsec - 1000000000) else (sec, nsec))"

text \<open>The library is given the deadline; its answer may depend on it.\<close>

definition cond_timedwait :: "(int \<times> int \<Rightarrow> pthread_result) \<Rightarrow> int \<times> int \<Rightarrow> nat \<Rightarrow> cond_priv option \<Rightarrow> mutex_priv option \<Rightarrow> ret_code" where
  "cond_timedwait rc now timeout_ms c m =
     (if \<not> cond_usable c \<or> \<not> mutex_usable m then RET_ERR_PARAM
      else let r = rc (wait_deadline timeout_ms now) in
        if r = PTHREAD_OK then RET_OK else if r = PTHREAD_ETIMEDOUT then RET_ERR_TIMEOUT else RET_ERR_INTERNAL)"

definition cond_signal :: "pthread_result \<Rightarrow> cond_priv option \<Rightarrow> ret_code" where
  "cond_signal rc c = (if \<not> cond_usable c then RET_ERR_PARAM else if rc \<noteq> PTHREAD_OK then RET_ERR_INTERNAL else RET_OK)"

definition cond_broadcast :: "pthread_result \<Rightarrow> cond_priv option \<Rightarrow> ret_code" where
  "cond_broadcast rc c = (if \<not> cond_usable c then RET_ERR_PARAM else if rc \<noteq> PTHREAD_OK then RET_ERR_INTERNAL else RET_OK)"

lemma wait_deadline_exact:
  assumes "timeout_ms < 2 ^ 32" "0 \<le> nsec" "nsec < 1000000000"
  shows "case wait_deadline timeout_ms (sec, nsec) of (sec', nsec') \<Rightarrow> 0 \<le> nsec' \<and> nsec' < 1000000000 \<and>
     sec' * 1000000000 + nsec' = sec * 1000000000 + nsec + int timeout_ms * 1000000"
proof -
  have "(timeout_ms mod 1000) * 1000000 < 2 ^ 32"
    using mod_less_divisor [of 1000 timeout_ms] by (simp del: mod_less_divisor)
  then have m: "(timeout_ms mod 1000) * 1000000 mod 2 ^ 32 = (timeout_ms mod 1000) * 1000000" by simp
  define q r where qr: "q = int (timeout_ms div 1000)" "r = int (timeout_ms mod 1000)"
  have t: "int timeout_ms = q * 1000 + r" unfolding qr by (metis div_mult_mod_eq of_nat_add of_nat_mult of_nat_numeral)
  have "r < 1000" "0 \<le> r" unfolding qr by simp_all
  moreover have "wait_deadline timeout_ms (sec, nsec) =
    (if 1000000000 \<le> nsec + r * 1000000 then (sec + q + 1, nsec + r * 1000000 - 1000000000) else (sec + q, nsec + r * 1000000))"
    unfolding wait_deadline_def prod.case Let_def m qr by simp
  ultimately show ?thesis using assms(2,3) unfolding t by (simp split: if_split)
qed

end
