(* ===== verification/Dma.thy ===== *)
theory Dma
  imports Threads
begin

text \<open>
  The DMA controller, \<open>modules/dma/dma.c\<close> and \<open>modules/dma/dma.h\<close>: eight channels, each driven by a
  transfer thread.  The thread is a program over the steps its critical sections divide it into; memory is
  one space of bytes with addresses as numbers, 0 being \<open>NULL\<close>.  The mutex of a channel is not in the
  state, since what it protects is one step; the callback is recorded with its arguments.
\<close>

section \<open>Data\<close>

definition DMA_MAX_CHANNELS :: nat where "DMA_MAX_CHANNELS = 8"

datatype dma_direction = DMA_DIR_MEM_TO_MEM | DMA_DIR_MEM_TO_DEV | DMA_DIR_DEV_TO_MEM | DMA_DIR_DEV_TO_DEV
datatype dma_width = DMA_WIDTH_BYTE | DMA_WIDTH_HALFWORD | DMA_WIDTH_WORD | DMA_WIDTH_DOUBLEWORD
datatype dma_burst = DMA_BURST_1 | DMA_BURST_4 | DMA_BURST_8 | DMA_BURST_16

datatype dma_ch_state = DMA_CH_STATE_IDLE | DMA_CH_STATE_READY | DMA_CH_STATE_RUNNING | DMA_CH_STATE_PAUSED
  | DMA_CH_STATE_COMPLETE | DMA_CH_STATE_ERROR

record dma_transfer_desc =
  dd_src_addr :: nat
  dd_dst_addr :: nat
  dd_length :: nat
  dd_direction :: dma_direction
  dd_src_width :: dma_width
  dd_dst_width :: dma_width
  dd_src_burst :: dma_burst
  dd_dst_burst :: dma_burst
  dd_src_increment :: bool
  dd_dst_increment :: bool
  dd_interrupt_enable :: bool
  dd_circular_mode :: bool

record dma_channel_status =
  dc_channel_id :: nat
  dc_state :: dma_ch_state
  dc_desc :: dma_transfer_desc
  dc_transferred :: nat
  dc_start_time_ms :: u64
  dc_complete_time_ms :: u64
  dc_transfer_count :: u32
  dc_error_count :: u32
  dc_callback :: "nat option"
  dc_user_data :: nat
  dc_is_allocated :: bool

record dma_channel_priv = dma_channel_status +
  dc_thread_id :: nat

text \<open>The entry function of the transfer threads, and where such a thread is: its channel and its local variables.\<close>

datatype dma_func = DMA_TRANSFER_THREAD

datatype dma_pc =
    DT_START nat
  | DT_LOOP nat nat nat nat
  | DT_COPY nat nat nat nat
  | DT_COUNT nat nat nat nat nat
  | DT_ADVANCE nat nat nat nat nat
  | DT_FINISH nat
  | DT_CALLBACK nat nat bool nat nat

record dma_call =
  dl_callback :: nat
  dl_channel :: nat
  dl_success :: bool
  dl_transferred :: nat
  dl_user_data :: nat

record dma_sys = "(dma_func, dma_pc) thread_sys" +
  ds_channels :: "dma_channel_priv list"
  ds_initialized :: bool
  ds_mem :: "nat \<Rightarrow> u8"
  ds_calls :: "dma_call list"

definition zero_desc :: dma_transfer_desc where
  "zero_desc = \<lparr>dd_src_addr = 0, dd_dst_addr = 0, dd_length = 0, dd_direction = DMA_DIR_MEM_TO_MEM, dd_src_width = DMA_WIDTH_BYTE,
     dd_dst_width = DMA_WIDTH_BYTE, dd_src_burst = DMA_BURST_1, dd_dst_burst = DMA_BURST_1, dd_src_increment = False,
     dd_dst_increment = False, dd_interrupt_enable = False, dd_circular_mode = False\<rparr>"

definition zero_channel :: "nat \<Rightarrow> dma_channel_priv" where
  "zero_channel i = \<lparr>dc_channel_id = i, dc_state = DMA_CH_STATE_IDLE, dc_desc = zero_desc, dc_transferred = 0, dc_start_time_ms = 0,
     dc_complete_time_ms = 0, dc_transfer_count = 0, dc_error_count = 0, dc_callback = None, dc_user_data = 0, dc_is_allocated = False,
     dc_thread_id = 0\<rparr>"

abbreviation dma_ch :: "dma_sys \<Rightarrow> nat \<Rightarrow> dma_channel_priv" where
  "dma_ch s c \<equiv> ds_channels s ! c"

definition upd_ch :: "nat \<Rightarrow> (dma_channel_priv \<Rightarrow> dma_channel_priv) \<Rightarrow> dma_sys \<Rightarrow> dma_sys" where
  "upd_ch c f s = s\<lparr>ds_channels := (ds_channels s)[c := f (ds_channels s ! c)]\<rparr>"

section \<open>The transfer thread\<close>

definition dma_thread_start :: "nat \<Rightarrow> dma_sys \<Rightarrow> (dma_pc + nat) \<times> dma_sys" where
  "dma_thread_start c s =
     (if dc_state (dma_ch s c) \<noteq> DMA_CH_STATE_READY then (Inr 0, s)
      else
        let (now, s) = thread_timestamp_ms s;
            s = upd_ch c (\<lambda>h. h\<lparr>dc_state := DMA_CH_STATE_RUNNING, dc_start_time_ms := now, dc_transferred := 0\<rparr>) s;
            d = dc_desc (dma_ch s c) in
        (Inl (DT_LOOP c (dd_src_addr d) (dd_dst_addr d) (dd_length d)), s))"

definition dma_thread_check :: "nat \<Rightarrow> nat \<Rightarrow> nat \<Rightarrow> nat \<Rightarrow> dma_sys \<Rightarrow> dma_pc" where
  "dma_thread_check c src dst remaining s =
     (if remaining = 0 then DT_FINISH c
      else if dc_state (dma_ch s c) = DMA_CH_STATE_PAUSED then DT_LOOP c src dst remaining
      else if dc_state (dma_ch s c) \<noteq> DMA_CH_STATE_RUNNING then DT_FINISH c
      else DT_COPY c src dst remaining)"

definition chunk :: "nat \<Rightarrow> nat" where
  "chunk remaining = (if remaining < 4096 then remaining else 4096)"

text \<open>Copying between areas that overlap is undefined.\<close>

definition dma_thread_copy :: "nat \<Rightarrow> nat \<Rightarrow> nat \<Rightarrow> dma_sys \<Rightarrow> dma_sys option" where
  "dma_thread_copy src dst n s =
     (if src = 0 \<or> dst = 0 then Some s
      else if src < dst + n \<and> dst < src + n then None
      else Some (s\<lparr>ds_mem := mem_write (ds_mem s) dst (mem_read (ds_mem s) src n)\<rparr>))"

definition dma_thread_finish :: "nat \<Rightarrow> dma_sys \<Rightarrow> (dma_pc + nat) \<times> dma_sys" where
  "dma_thread_finish c s =
     (let s = (if dc_state (dma_ch s c) = DMA_CH_STATE_RUNNING
               then let (now, s) = thread_timestamp_ms s in
                 upd_ch c (\<lambda>h. h\<lparr>dc_state := DMA_CH_STATE_COMPLETE, dc_complete_time_ms := now,
                   dc_transfer_count := dc_transfer_count h + 1\<rparr>) s
               else upd_ch c (\<lambda>h. h\<lparr>dc_error_count := dc_error_count h + 1\<rparr>) s);
          h = dma_ch s c in
      (case dc_callback h of
         Some cb \<Rightarrow>
           if dd_interrupt_enable (dc_desc h)
           then (Inl (DT_CALLBACK (dc_channel_id h) cb (dc_state h = DMA_CH_STATE_COMPLETE) (dc_transferred h) (dc_user_data h)), s)
           else (Inr 0, s)
       | None \<Rightarrow> (Inr 0, s)))"

fun dma_transfer_thread :: "dma_pc \<Rightarrow> dma_sys \<Rightarrow> ((dma_pc + nat) \<times> dma_sys) option" where
  "dma_transfer_thread (DT_START c) s = Some (dma_thread_start c s)"
| "dma_transfer_thread (DT_LOOP c src dst remaining) s = Some (Inl (dma_thread_check c src dst remaining s), s)"
| "dma_transfer_thread (DT_COPY c src dst remaining) s =
     do { s \<leftarrow> dma_thread_copy src dst (chunk remaining) s; Some (Inl (DT_COUNT c src dst remaining (chunk remaining)), s) }"
| "dma_transfer_thread (DT_COUNT c src dst remaining n) s =
     Some (Inl (DT_ADVANCE c src dst remaining n), upd_ch c (\<lambda>h. h\<lparr>dc_transferred := u32_add (dc_transferred h) n\<rparr>) s)"
| "dma_transfer_thread (DT_ADVANCE c src dst remaining n) s =
     (let d = dc_desc (dma_ch s c) in
      Some (Inl (DT_LOOP c (if dd_src_increment d then src + n else src) (if dd_dst_increment d then dst + n else dst) (remaining - n)), s))"
| "dma_transfer_thread (DT_FINISH c) s = Some (dma_thread_finish c s)"
| "dma_transfer_thread (DT_CALLBACK c cb success transferred user_data) s =
     Some (Inr 0, s\<lparr>ds_calls := ds_calls s @ [\<lparr>dl_callback = cb, dl_channel = c, dl_success = success, dl_transferred = transferred,
                                              dl_user_data = user_data\<rparr>]\<rparr>)"

fun dma_entry :: "dma_func \<Rightarrow> nat \<Rightarrow> dma_pc" where
  "dma_entry DMA_TRANSFER_THREAD arg = DT_START arg"

definition dma_step :: "nat \<Rightarrow> dma_sys \<Rightarrow> dma_sys option" where
  "dma_step = thread_wrapper dma_entry dma_transfer_thread"

section \<open>The interface\<close>

definition dma_init :: "dma_sys \<Rightarrow> ret_code \<times> dma_sys" where
  "dma_init s =
     (if ds_initialized s then (RET_OK, s)
      else let (_, s) = thread_manager_init s in
        (RET_OK, s\<lparr>ds_channels := map zero_channel [0..<DMA_MAX_CHANNELS], ds_initialized := True\<rparr>))"

text \<open>The checks that most functions begin with.\<close>

definition dma_check :: "nat \<Rightarrow> dma_sys \<Rightarrow> ret_code" where
  "dma_check c s =
     (if \<not> ds_initialized s then RET_ERR_NOT_INIT
      else if DMA_MAX_CHANNELS \<le> c then RET_ERR_PARAM
      else if \<not> dc_is_allocated (dma_ch s c) then RET_ERR_PARAM
      else RET_OK)"

definition join_channel :: "nat \<Rightarrow> dma_sys \<Rightarrow> dma_sys option" where
  "join_channel c s =
     (if dc_thread_id (dma_ch s c) \<noteq> 0
      then do {
        (_, _, s) \<leftarrow> thread_join dma_step (dc_thread_id (dma_ch s c)) s;
        Some (upd_ch c (\<lambda>h. h\<lparr>dc_thread_id := 0\<rparr>) s)
      }
      else Some s)"

definition dma_stop_transfer :: "nat \<Rightarrow> dma_sys \<Rightarrow> (ret_code \<times> dma_sys) option" where
  "dma_stop_transfer c s =
     (if dma_check c s \<noteq> RET_OK then Some (dma_check c s, s)
      else do {
        let s = (if dc_state (dma_ch s c) \<in> {DMA_CH_STATE_RUNNING, DMA_CH_STATE_PAUSED}
                 then upd_ch c (\<lambda>h. h\<lparr>dc_state := DMA_CH_STATE_ERROR\<rparr>) s else s);
        s \<leftarrow> join_channel c s;
        Some (RET_OK, s)
      })"

definition deinit_channel :: "nat \<Rightarrow> dma_sys \<Rightarrow> dma_sys option" where
  "deinit_channel c s =
     (if dc_is_allocated (dma_ch s c) \<and> dc_state (dma_ch s c) \<in> {DMA_CH_STATE_RUNNING, DMA_CH_STATE_PAUSED}
      then map_option snd (dma_stop_transfer c s) else Some s)"

definition dma_deinit :: "dma_sys \<Rightarrow> (ret_code \<times> dma_sys) option" where
  "dma_deinit s =
     (if \<not> ds_initialized s then Some (RET_OK, s)
      else do {
        s \<leftarrow> fold_option deinit_channel [0..<DMA_MAX_CHANNELS] s;
        Some (RET_OK, s\<lparr>ds_initialized := False\<rparr>)
      })"

definition DMA_NO_CHANNEL :: nat where "DMA_NO_CHANNEL = 0xFFFFFFFF"

definition dma_alloc_channel :: "dma_sys \<Rightarrow> nat \<times> dma_sys" where
  "dma_alloc_channel s =
     (if \<not> ds_initialized s then (DMA_NO_CHANNEL, s)
      else (case find (\<lambda>i. \<not> dc_is_allocated (dma_ch s i)) [0..<DMA_MAX_CHANNELS] of
              None \<Rightarrow> (DMA_NO_CHANNEL, s)
            | Some i \<Rightarrow>
                (i, upd_ch i (\<lambda>h. h\<lparr>dc_is_allocated := True, dc_state := DMA_CH_STATE_IDLE, dc_transferred := 0\<rparr>) s)))"

definition dma_free_channel :: "nat \<Rightarrow> dma_sys \<Rightarrow> (ret_code \<times> dma_sys) option" where
  "dma_free_channel c s =
     (if dma_check c s \<noteq> RET_OK then Some (dma_check c s, s)
      else do {
        s \<leftarrow> (if dc_state (dma_ch s c) \<in> {DMA_CH_STATE_RUNNING, DMA_CH_STATE_PAUSED}
             then map_option snd (dma_stop_transfer c s) else Some s);
        Some (RET_OK, upd_ch c (\<lambda>h. h\<lparr>dc_is_allocated := False, dc_state := DMA_CH_STATE_IDLE\<rparr>) s)
      })"

definition dma_config_channel :: "nat \<Rightarrow> dma_transfer_desc option \<Rightarrow> dma_sys \<Rightarrow> ret_code \<times> dma_sys" where
  "dma_config_channel c desc s =
     (if \<not> ds_initialized s then (RET_ERR_NOT_INIT, s)
      else (case desc of
              None \<Rightarrow> (RET_ERR_PARAM, s)
            | Some d \<Rightarrow>
                if DMA_MAX_CHANNELS \<le> c then (RET_ERR_PARAM, s)
                else if \<not> dc_is_allocated (dma_ch s c) then (RET_ERR_PARAM, s)
                else if dc_state (dma_ch s c) = DMA_CH_STATE_RUNNING then (RET_ERR_BUSY, s)
                else (RET_OK, upd_ch c (\<lambda>h. h\<lparr>dc_desc := d, dc_state := DMA_CH_STATE_READY, dc_transferred := 0\<rparr>) s)))"

definition dma_resume_transfer :: "nat \<Rightarrow> dma_sys \<Rightarrow> ret_code \<times> dma_sys" where
  "dma_resume_transfer c s =
     (if dma_check c s \<noteq> RET_OK then (dma_check c s, s)
      else if dc_state (dma_ch s c) \<noteq> DMA_CH_STATE_PAUSED then (RET_ERR_INTERNAL, s)
      else (RET_OK, upd_ch c (\<lambda>h. h\<lparr>dc_state := DMA_CH_STATE_RUNNING\<rparr>) s))"

definition dma_start_transfer :: "nat \<Rightarrow> dma_sys \<Rightarrow> ret_code \<times> dma_sys" where
  "dma_start_transfer c s =
     (if dma_check c s \<noteq> RET_OK then (dma_check c s, s)
      else if dc_state (dma_ch s c) \<noteq> DMA_CH_STATE_READY \<and> dc_state (dma_ch s c) \<noteq> DMA_CH_STATE_PAUSED then (RET_ERR_BUSY, s)
      else if dc_state (dma_ch s c) = DMA_CH_STATE_PAUSED then dma_resume_transfer c s
      else
        let (id, s) = thread_create ''dma_transfer'' (Some DMA_TRANSFER_THREAD) c THREAD_PRIORITY_HIGH s;
            s = upd_ch c (\<lambda>h. h\<lparr>dc_thread_id := id\<rparr>) s in
        if id = 0
        then (RET_ERR_INTERNAL, upd_ch c (\<lambda>h. h\<lparr>dc_state := DMA_CH_STATE_ERROR, dc_error_count := dc_error_count h + 1\<rparr>) s)
        else thread_start id s)"

definition dma_pause_transfer :: "nat \<Rightarrow> dma_sys \<Rightarrow> ret_code \<times> dma_sys" where
  "dma_pause_transfer c s =
     (if dma_check c s \<noteq> RET_OK then (dma_check c s, s)
      else if dc_state (dma_ch s c) \<noteq> DMA_CH_STATE_RUNNING then (RET_ERR_INTERNAL, s)
      else (RET_OK, upd_ch c (\<lambda>h. h\<lparr>dc_state := DMA_CH_STATE_PAUSED\<rparr>) s))"

text \<open>The polling loop: whether it timed out.  Each round sleeps for one batch of the schedule.\<close>

fun wait_rounds :: "nat \<Rightarrow> u64 \<Rightarrow> nat \<Rightarrow> nat list list \<Rightarrow> dma_sys \<Rightarrow> (bool \<times> dma_sys) option" where
  "wait_rounds c start timeout_ms bs s =
     (if dc_state (dma_ch s c) \<notin> {DMA_CH_STATE_READY, DMA_CH_STATE_RUNNING, DMA_CH_STATE_PAUSED} then Some (False, s\<lparr>ts_sched := bs\<rparr>)
      else
        let (now, s) = thread_timestamp_ms s in
        if of_nat timeout_ms \<le> now - start then Some (True, s\<lparr>ts_sched := bs\<rparr>)
        else (case bs of [] \<Rightarrow> None | b # bs' \<Rightarrow> do { s \<leftarrow> run_batch dma_step b s; wait_rounds c start timeout_ms bs' s }))"

declare wait_rounds.simps [simp del]

definition dma_wait_complete :: "nat \<Rightarrow> nat \<Rightarrow> dma_sys \<Rightarrow> (ret_code \<times> dma_sys) option" where
  "dma_wait_complete c timeout_ms s =
     (if dma_check c s \<noteq> RET_OK then Some (dma_check c s, s)
      else
        let (start, s) = thread_timestamp_ms s in
        do {
          (timed_out, s) \<leftarrow> wait_rounds c start timeout_ms (ts_sched s) s;
          if timed_out then Some (RET_ERR_TIMEOUT, s)
          else do { s \<leftarrow> join_channel c s; Some (RET_OK, s) }
        })"

definition dma_set_callback :: "nat \<Rightarrow> nat option \<Rightarrow> nat \<Rightarrow> dma_sys \<Rightarrow> ret_code \<times> dma_sys" where
  "dma_set_callback c callback user_data s =
     (if dma_check c s \<noteq> RET_OK then (dma_check c s, s)
      else (RET_OK, upd_ch c (\<lambda>h. h\<lparr>dc_callback := callback, dc_user_data := user_data\<rparr>) s))"

definition dma_get_channel_status :: "nat \<Rightarrow> bool \<Rightarrow> dma_sys \<Rightarrow> ret_code \<times> dma_channel_status option" where
  "dma_get_channel_status c has_status s =
     (if \<not> has_status then (RET_ERR_PARAM, None)
      else if dma_check c s \<noteq> RET_OK then (dma_check c s, None)
      else (RET_OK, Some (dma_channel_status.truncate (dma_ch s c))))"

definition dma_get_state :: "nat \<Rightarrow> dma_sys \<Rightarrow> dma_ch_state" where
  "dma_get_state c s =
     (if \<not> ds_initialized s \<or> DMA_MAX_CHANNELS \<le> c then DMA_CH_STATE_ERROR
      else if \<not> dc_is_allocated (dma_ch s c) then DMA_CH_STATE_ERROR
      else dc_state (dma_ch s c))"

text \<open>The number of bytes is \<open>None\<close> where it is not handed out; \<open>wanted\<close> says whether the caller asked for it.\<close>

definition dma_transfer_sync :: "dma_transfer_desc option \<Rightarrow> bool \<Rightarrow> dma_sys \<Rightarrow> (ret_code \<times> nat option \<times> dma_sys) option" where
  "dma_transfer_sync desc wanted s =
     (if desc = None then Some (RET_ERR_PARAM, None, s)
      else if \<not> ds_initialized s then Some (RET_ERR_NOT_INIT, None, s)
      else
        let (c, s) = dma_alloc_channel s in
        if c = DMA_NO_CHANNEL then Some (RET_ERR_NO_SPACE, None, s)
        else
          let (ret, s) = dma_config_channel c desc s in
          if ret \<noteq> RET_OK then do { (_, s) \<leftarrow> dma_free_channel c s; Some (ret, None, s) }
          else
            let (ret, s) = dma_start_transfer c s in
            if ret \<noteq> RET_OK then do { (_, s) \<leftarrow> dma_free_channel c s; Some (ret, None, s) }
            else do {
              (ret, s) \<leftarrow> dma_wait_complete c 5000 s;
              let n = (if wanted then Some (dc_transferred (dma_ch s c)) else None);
              (_, s) \<leftarrow> dma_free_channel c s;
              Some (ret, n, s)
            })"

end
