(* ===== verification/DmaThreads.thy ===== *)
theory DmaThreads
  imports Dma
begin

text \<open>
  The transfer threads of the DMA controller and the table of threads they take their slots from, which no
  function of the controller ever clears.
\<close>

section \<open>The table of threads is never cleared\<close>

text \<open>What every step and every function but the start of a transfer keeps: which slots of the table are in use.\<close>

definition used_slots :: "dma_sys \<Rightarrow> bool list" where
  "used_slots s = map tp_is_initialized (ts_slots s)"

definition same_slots :: "dma_sys \<Rightarrow> dma_sys \<Rightarrow> bool" where
  "same_slots s s' \<longleftrightarrow> used_slots s' = used_slots s \<and> ts_initialized s' = ts_initialized s \<and>
     length (ds_channels s') = length (ds_channels s)"

lemma same_slots_refl [simp]: "same_slots s s"
  by (simp add: same_slots_def)

lemma same_slots_trans [trans]: "same_slots s t \<Longrightarrow> same_slots t u \<Longrightarrow> same_slots s u"
  by (simp add: same_slots_def)

lemma same_slots_upd_ch [simp]: "same_slots s (upd_ch c f s')  = same_slots s s'"
  by (simp add: same_slots_def used_slots_def upd_ch_def)

lemma same_slots_from [simp]:
  "same_slots (upd_ch c f s) s' = same_slots s s'" "same_slots (s\<lparr>ts_sched := b\<rparr>) s' = same_slots s s'"
  "same_slots (s\<lparr>ts_ticks := n\<rparr>) s' = same_slots s s'" "same_slots (s\<lparr>ts_create_count := n\<rparr>) s' = same_slots s s'"
  by (simp_all add: same_slots_def used_slots_def upd_ch_def)

lemma same_slots_fields [simp]:
  "same_slots s (s'\<lparr>ts_sched := b\<rparr>) = same_slots s s'" "same_slots s (s'\<lparr>ds_mem := m\<rparr>) = same_slots s s'"
  "same_slots s (s'\<lparr>ds_calls := cs\<rparr>) = same_slots s s'" "same_slots s (s'\<lparr>ds_initialized := i\<rparr>) = same_slots s s'"
  "same_slots s (s'\<lparr>ts_ticks := n\<rparr>) = same_slots s s'"
  "same_slots s (set_phase t p s') = same_slots s s'"
  by (simp_all add: same_slots_def used_slots_def set_phase_def)

lemma same_slots_upd_thread [simp]:
  "(\<And>p. tp_is_initialized (f p) = tp_is_initialized p) \<Longrightarrow> same_slots s (upd_thread i f s') = same_slots s s'"
  by (simp add: same_slots_def used_slots_def upd_thread_def map_update) (metis list_update_id map_update)

lemma timestamp_slots: "thread_timestamp_ms s = (now, s') \<Longrightarrow> same_slots s s'"
  by (auto simp: thread_timestamp_ms_def)

lemma body_slots: "dma_transfer_thread p s = Some (r, s') \<Longrightarrow> same_slots s s'"
  by (cases p) (auto simp: dma_thread_start_def dma_thread_copy_def dma_thread_finish_def thread_timestamp_ms_def Let_def
      split: if_splits option.splits)

lemma step_slots: "dma_step t s = Some s' \<Longrightarrow> same_slots s s'"
  by (auto simp: dma_step_def thread_wrapper_def thread_wrapper_enter_def thread_wrapper_leave_def thread_timestamp_ms_def Let_def
      split: if_splits phase.splits option.splits bind_splits dest: body_slots)

lemma batch_slots: "run_batch dma_step b s = Some s' \<Longrightarrow> same_slots s s'"
  unfolding run_batch_def by (rule fold_option_invariant [where I = "same_slots s"]) (auto dest: step_slots intro: same_slots_trans)

lemma pthread_join_slots: "pthread_join h s = Some (Some (v, s')) \<Longrightarrow> same_slots s s'"
  by (auto simp: pthread_join_def split: option.splits if_splits phase.splits)

lemma join_rounds_slots: "join_rounds dma_step h bs s = Some (v, s') \<Longrightarrow> same_slots s s'"
  by (induction dma_step h bs s rule: join_rounds.induct)
    (auto split: option.splits bind_splits dest: pthread_join_slots batch_slots intro: same_slots_trans)

lemma thread_join_slots: "thread_join dma_step i s = Some (ret, v, s') \<Longrightarrow> same_slots s s'"
  by (auto simp: thread_join_def wait_joined_def split: if_splits option.splits bind_splits dest: join_rounds_slots)

lemma join_channel_slots: "join_channel c s = Some s' \<Longrightarrow> same_slots s s'"
  by (auto simp: join_channel_def split: if_splits bind_splits dest: thread_join_slots)

lemma stop_slots: "dma_stop_transfer c s = Some (ret, s') \<Longrightarrow> same_slots s s'"
  by (auto simp: dma_stop_transfer_def Let_def split: if_splits bind_splits dest!: join_channel_slots)

lemma free_slots_kept: "dma_free_channel c s = Some (ret, s') \<Longrightarrow> same_slots s s'"
  by (auto simp: dma_free_channel_def split: if_splits bind_splits dest: stop_slots)

lemma wait_rounds_slots: "wait_rounds c start timeout_ms bs s = Some (b, s') \<Longrightarrow> same_slots s s'"
proof (induction bs arbitrary: s)
  case Nil
  then show ?case by (subst (asm) wait_rounds.simps) (auto simp: thread_timestamp_ms_def split: if_splits)
next
  case (Cons b bs)
  from Cons.prems show ?case
    by (subst (asm) wait_rounds.simps)
      (auto simp: thread_timestamp_ms_def split: if_splits bind_splits dest!: batch_slots Cons.IH
        intro: same_slots_trans simp: same_slots_def used_slots_def)
qed

lemma wait_slots: "dma_wait_complete c timeout_ms s = Some (ret, s') \<Longrightarrow> same_slots s s'"
  by (auto simp: dma_wait_complete_def thread_timestamp_ms_def split: if_splits bind_splits prod.splits dest!: wait_rounds_slots join_channel_slots
      simp: same_slots_def used_slots_def)

lemma deinit_slots: "dma_deinit s = Some (ret, s') \<Longrightarrow> same_slots s s'"
proof -
  assume d: "dma_deinit s = Some (ret, s')"
  have "same_slots s t" if "fold_option deinit_channel [0..<DMA_MAX_CHANNELS] s = Some t" for t
    by (rule fold_option_invariant [where I = "same_slots s", OF _ _ that])
      (auto simp: deinit_channel_def split: if_splits dest!: stop_slots intro: same_slots_trans)
  with d show ?thesis by (auto simp: dma_deinit_def split: if_splits bind_splits)
qed

lemma plain_slots:
  "same_slots s (snd (dma_alloc_channel s))" "same_slots s (snd (dma_config_channel c d s))" "same_slots s (snd (dma_pause_transfer c s))"
  "same_slots s (snd (dma_resume_transfer c s))" "same_slots s (snd (dma_set_callback c cb u s))"
  by (auto simp: dma_alloc_channel_def dma_config_channel_def dma_pause_transfer_def dma_resume_transfer_def dma_set_callback_def
      split: option.splits)

lemma init_slots: "ts_initialized s \<Longrightarrow> length (ds_channels s) = DMA_MAX_CHANNELS \<Longrightarrow> same_slots s (snd (dma_init s))"
  by (simp add: dma_init_def thread_manager_init_def same_slots_def used_slots_def)

text \<open>A start takes one free slot, if it takes any.\<close>

definition free_count :: "dma_sys \<Rightarrow> nat" where
  "free_count s = length (filter Not (take MAX_THREADS (used_slots s)))"

lemma same_slots_count: "same_slots s s' \<Longrightarrow> free_count s' = free_count s \<and> ts_initialized s' = ts_initialized s \<and>
    length (ts_slots s') = length (ts_slots s) \<and> length (ds_channels s') = length (ds_channels s)"
  by (auto simp: same_slots_def free_count_def used_slots_def dest: map_eq_imp_length_eq)

lemma thread_start_slots: "thread_start i s = (ret, s') \<Longrightarrow> same_slots s s'"
  by (auto simp: thread_start_def Let_def split: if_splits option.splits)
    (auto simp: same_slots_def used_slots_def upd_thread_def map_update list_update_same_conv)

lemma filter_not_update: "i < length bs \<Longrightarrow> \<not> bs ! i \<Longrightarrow> Suc (length (filter Not (bs[i := True]))) = length (filter Not bs)"
  by (induction bs arbitrary: i) (auto split: nat.splits simp: nth_Cons less_Suc_eq_0_disj)

lemma thread_create_slots:
  assumes "thread_create name f a pr s = (i, s')" "ts_initialized s" "length (ts_slots s) = MAX_THREADS"
  shows "ts_initialized s' \<and> length (ts_slots s') = MAX_THREADS \<and> length (ds_channels s') = length (ds_channels s) \<and> (same_slots s s' \<and> i = 0 \<or> Suc (free_count s') = free_count s)"
proof (cases "f = None \<or> find_free_slot s = None")
  case True
  with assms(1) have "s' = s" "i = 0" by (auto simp: thread_create_def split: if_splits)
  with assms show ?thesis by simp
next
  case False
  then obtain k where k: "find_free_slot s = Some k" "f \<noteq> None" by blast
  then have "k < MAX_THREADS" "\<not> tp_is_initialized (ts_slots s ! k)"
    by (auto simp: find_free_slot_def find_Some_iff)
  then have "used_slots s' = (used_slots s)[k := True]" "k < length (used_slots s)" "\<not> used_slots s ! k"
      "length (ts_slots s') = MAX_THREADS" "ts_initialized s'" "length (ds_channels s') = length (ds_channels s)"
    using assms k by (auto simp: thread_create_def used_slots_def upd_thread_def map_update)
  then show ?thesis using filter_not_update [of k "used_slots s"] assms(3) by (simp add: free_count_def used_slots_def)
qed

lemma start_slots:
  assumes "dma_start_transfer c s = (ret, s')" "ts_initialized s" "length (ts_slots s) = MAX_THREADS"
  shows "ts_initialized s' \<and> length (ts_slots s') = MAX_THREADS \<and> length (ds_channels s') = length (ds_channels s) \<and>
     (same_slots s s' \<and> \<not> (ret = RET_OK \<and> dc_state (dma_ch s c) = DMA_CH_STATE_READY) \<or> Suc (free_count s') = free_count s)"
proof (cases "dma_check c s = RET_OK \<and> dc_state (dma_ch s c) = DMA_CH_STATE_READY")
  case True
  obtain i s1 where c: "thread_create ''dma_transfer'' (Some DMA_TRANSFER_THREAD) c THREAD_PRIORITY_HIGH s = (i, s1)"
    by (metis prod.exhaust)
  note k = thread_create_slots [OF c assms(2,3)]
  have "same_slots s1 s'" "i = 0 \<Longrightarrow> ret \<noteq> RET_OK"
    using assms(1) True by (auto simp: dma_start_transfer_def c Let_def split: if_splits dest: thread_start_slots)
  with k show ?thesis using same_slots_count [of s1 s'] by (auto intro: same_slots_trans)
next
  case False
  have "same_slots s s'" "\<not> (ret = RET_OK \<and> dc_state (dma_ch s c) = DMA_CH_STATE_READY)"
    using assms(1) False plain_slots(4) [of s c] by (auto simp: dma_start_transfer_def split: if_splits)
  with assms(2,3) same_slots_count [of s s'] show ?thesis by simp
qed

section \<open>Histories\<close>

text \<open>
  Everything a client and the threads can do from the first initialisation of the process on, with the
  number of transfers that were started so far.
\<close>

inductive dma_history :: "nat \<Rightarrow> dma_sys \<Rightarrow> bool" where
  boot: "\<not> ts_initialized s0 \<Longrightarrow> \<not> ds_initialized s0 \<Longrightarrow> dma_init s0 = (ret, s) \<Longrightarrow> dma_history 0 s"
| step: "dma_history n s \<Longrightarrow> dma_step t s = Some s' \<Longrightarrow> dma_history n s'"
| init: "dma_history n s \<Longrightarrow> dma_init s = (ret, s') \<Longrightarrow> dma_history n s'"
| deinit: "dma_history n s \<Longrightarrow> dma_deinit s = Some (ret, s') \<Longrightarrow> dma_history n s'"
| alloc: "dma_history n s \<Longrightarrow> dma_alloc_channel s = (c, s') \<Longrightarrow> dma_history n s'"
| free: "dma_history n s \<Longrightarrow> dma_free_channel c s = Some (ret, s') \<Longrightarrow> dma_history n s'"
| config: "dma_history n s \<Longrightarrow> dma_config_channel c d s = (ret, s') \<Longrightarrow> dma_history n s'"
| start: "dma_history n s \<Longrightarrow> dma_start_transfer c s = (ret, s') \<Longrightarrow>
    dma_history (if ret = RET_OK \<and> dc_state (dma_ch s c) = DMA_CH_STATE_READY then n + 1 else n) s'"
| stop: "dma_history n s \<Longrightarrow> dma_stop_transfer c s = Some (ret, s') \<Longrightarrow> dma_history n s'"
| pause: "dma_history n s \<Longrightarrow> dma_pause_transfer c s = (ret, s') \<Longrightarrow> dma_history n s'"
| resume: "dma_history n s \<Longrightarrow> dma_resume_transfer c s = (ret, s') \<Longrightarrow> dma_history n s'"
| wait: "dma_history n s \<Longrightarrow> dma_wait_complete c timeout s = Some (ret, s') \<Longrightarrow> dma_history n s'"
| callback: "dma_history n s \<Longrightarrow> dma_set_callback c cb u s = (ret, s') \<Longrightarrow> dma_history n s'"
| sync: "dma_history n s \<Longrightarrow> dma_transfer_sync d wanted s = Some (ret, m, s') \<Longrightarrow>
    dma_history (if ret \<in> {RET_OK, RET_ERR_TIMEOUT} then n + 1 else n) s'"

definition slots_left :: "nat \<Rightarrow> dma_sys \<Rightarrow> bool" where
  "slots_left n s \<longleftrightarrow> ts_initialized s \<and> length (ts_slots s) = MAX_THREADS \<and> length (ds_channels s) = DMA_MAX_CHANNELS \<and>
     n + free_count s \<le> MAX_THREADS"

lemma slots_left_same: "slots_left n s \<Longrightarrow> same_slots s s' \<Longrightarrow> slots_left n s'"
  using same_slots_count [of s s'] by (simp add: slots_left_def)

lemma slots_left_start:
  "slots_left n s \<Longrightarrow> dma_start_transfer c s = (ret, s') \<Longrightarrow>
     slots_left (if ret = RET_OK \<and> dc_state (dma_ch s c) = DMA_CH_STATE_READY then n + 1 else n) s'"
  using start_slots [of c s ret s'] same_slots_count [of s s'] by (auto simp: slots_left_def)

lemma alloc_then_config:
  assumes "dma_alloc_channel s = (c, s1)" "c \<noteq> DMA_NO_CHANNEL" "length (ds_channels s) = DMA_MAX_CHANNELS"
  shows "fst (dma_config_channel c (Some d) s1) = RET_OK \<and> dc_state (dma_ch (snd (dma_config_channel c (Some d) s1)) c) = DMA_CH_STATE_READY"
  using assms by (auto simp: dma_alloc_channel_def dma_config_channel_def upd_ch_def find_Some_iff split: if_splits option.splits)

lemma start_codes: "dma_start_transfer c s = (ret, s') \<Longrightarrow> ret \<noteq> RET_ERR_TIMEOUT"
  by (auto simp: dma_start_transfer_def dma_check_def dma_resume_transfer_def thread_start_def Let_def split: if_splits prod.splits option.splits)

lemma slots_left_sync:
  assumes "slots_left n s" "dma_transfer_sync d wanted s = Some (ret, m, s')"
  shows "slots_left (if ret \<in> {RET_OK, RET_ERR_TIMEOUT} then n + 1 else n) s'"
proof -
  obtain c s1 where a: "dma_alloc_channel s = (c, s1)" by (metis prod.exhaust)
  obtain r2 s2 where b: "dma_config_channel c d s1 = (r2, s2)" by (metis prod.exhaust)
  obtain r3 s3 where e: "dma_start_transfer c s2 = (r3, s3)" by (metis prod.exhaust)
  have l2: "slots_left n s2"
    using slots_left_same [OF slots_left_same [OF assms(1)]] plain_slots(1) [of s] plain_slots(2) [of s1 c d] a b by fastforce
  note l3 = slots_left_start [OF l2 e]
  show ?thesis
  proof (cases "d = None \<or> \<not> ds_initialized s \<or> c = DMA_NO_CHANNEL")
    case True
    with assms a slots_left_same [OF assms(1), of s1] plain_slots(1) [of s] show ?thesis by (auto simp: dma_transfer_sync_def split: if_splits)
  next
    case False
    then obtain desc where d: "d = Some desc" by (cases d) auto
    from False a b d alloc_then_config [OF a, of desc] assms(1)
    have ready: "r2 = RET_OK" "dc_state (dma_ch s2 c) = DMA_CH_STATE_READY" by (simp_all add: slots_left_def)
    show ?thesis
    proof (cases "r3 = RET_OK")
      case True
      with assms(2) False a b e ready obtain s4 where w: "dma_wait_complete c 5000 s3 = Some (ret, s4)" "\<exists>r. dma_free_channel c s4 = Some (r, s')"
        by (auto simp: dma_transfer_sync_def split: bind_splits)
      have "slots_left (n + 1) s'"
        using l3 True ready w slots_left_same [OF slots_left_same [of "n + 1" s3 s4]] by (auto dest: wait_slots free_slots_kept)
      then show ?thesis by (auto simp: slots_left_def)
    next
      case False': False
      with assms(2) False a b e ready obtain r where "dma_free_channel c s3 = Some (r, s')" "ret = r3"
        by (auto simp: dma_transfer_sync_def split: bind_splits)
      with l3 False' start_codes [OF e] show ?thesis by (auto dest: free_slots_kept intro: slots_left_same)
    qed
  qed
qed

lemma history_slots: "dma_history n s \<Longrightarrow> slots_left n s"
proof (induction rule: dma_history.induct)
  case (boot s0 ret s)
  then have "ts_initialized s" "ts_slots s = replicate MAX_THREADS zero_thread" "length (ds_channels s) = DMA_MAX_CHANNELS"
    by (auto simp: dma_init_def thread_manager_init_def)
  moreover from this have "used_slots s = replicate MAX_THREADS False" by (simp add: used_slots_def zero_thread_def)
  ultimately show ?case by (simp add: slots_left_def free_count_def)
next
  case (init n s ret s')
  then show ?case using init_slots [of s] slots_left_same [of n s s'] by (simp add: slots_left_def)
next
  case (start n s c ret s')
  from slots_left_start [OF start.IH start.hyps(2)] show ?case .
next
  case (sync n s d wanted ret m s')
  from slots_left_sync [OF sync.IH sync.hyps(2)] show ?case .
next
  case (alloc n s c s')
  then show ?case using plain_slots(1) [of s] by (auto intro: slots_left_same)
next
  case (config n s c d ret s')
  then show ?case using plain_slots(2) [of s c d] by (auto intro: slots_left_same)
next
  case (pause n s c ret s')
  then show ?case using plain_slots(3) [of s c] by (auto intro: slots_left_same)
next
  case (resume n s c ret s')
  then show ?case using plain_slots(4) [of s c] by (auto intro: slots_left_same)
next
  case (callback n s c cb u ret s')
  then show ?case using plain_slots(5) [of s c cb u] by (auto intro: slots_left_same)
qed (auto intro: slots_left_same dest: step_slots deinit_slots free_slots_kept stop_slots wait_slots)

text \<open>The controller never gives back the slot a transfer takes in the table of threads: whatever its
  clients do, a process starts at most 32 transfers.\<close>

theorem dma_transfers_limited:
  assumes "dma_history n s"
  shows "n \<le> MAX_THREADS"
  using history_slots [OF assms] by (simp add: slots_left_def)

end
