(* ===== verification/DmaFlow.thy ===== *)
theory DmaFlow
  imports DmaThreads
begin

text \<open>
  What transfers of the DMA controller do to memory: one that nobody interrupts copies its whole area, one
  that is configured over a paused transfer is reported complete without a byte copied.
\<close>

section \<open>A transfer that nobody interrupts\<close>

text \<open>Memory after the first \<open>p\<close> bytes of a transfer, and the number of steps the copying loop has left.\<close>

definition copied :: "dma_transfer_desc \<Rightarrow> (nat \<Rightarrow> u8) \<Rightarrow> nat \<Rightarrow> nat \<Rightarrow> u8" where
  "copied d m p = mem_write m (dd_dst_addr d) (mem_read m (dd_src_addr d) p)"

definition plain_copy :: "dma_transfer_desc \<Rightarrow> bool" where
  "plain_copy d \<longleftrightarrow> dd_src_increment d \<and> dd_dst_increment d \<and> dd_src_addr d \<noteq> 0 \<and> dd_dst_addr d \<noteq> 0 \<and> dd_length d < 2 ^ 32 \<and>
     (dd_src_addr d + dd_length d \<le> dd_dst_addr d \<or> dd_dst_addr d + dd_length d \<le> dd_src_addr d)"

definition chunks :: "nat \<Rightarrow> nat" where
  "chunks n = (n + 4095) div 4096"

lemma chunks_less: "0 < n \<Longrightarrow> Suc (chunks (n - chunk n)) = chunks n"
  by (auto simp: chunks_def chunk_def div_if)

lemma chunks_pos: "0 < n \<Longrightarrow> 0 < chunks n"
  by (simp add: chunks_def div_greater_zero_iff)

lemma copied_0 [simp]: "copied d m 0 = m"
  by (auto simp: copied_def mem_write_def fun_eq_iff)

lemma copied_more:
  assumes "plain_copy d" "p + n \<le> dd_length d"
  shows "mem_write (copied d m p) (dd_dst_addr d + p) (mem_read (copied d m p) (dd_src_addr d + p) n) = copied d m (p + n)"
  using assms by (auto simp: copied_def plain_copy_def mem_write_def fun_eq_iff)

fun steps_left :: "nat \<Rightarrow> dma_pc phase \<Rightarrow> nat" where
  "steps_left len ENTERING = 6 + 4 * chunks len"
| "steps_left len (INSIDE (DT_START c)) = 5 + 4 * chunks len"
| "steps_left len (INSIDE (DT_LOOP c src dst r)) = 4 + 4 * chunks r"
| "steps_left len (INSIDE (DT_COPY c src dst r)) = 3 + 4 * chunks r"
| "steps_left len (INSIDE (DT_COUNT c src dst r n)) = 2 + 4 * chunks r"
| "steps_left len (INSIDE (DT_ADVANCE c src dst r n)) = 1 + 4 * chunks r"
| "steps_left len (INSIDE (DT_FINISH c)) = 3"
| "steps_left len (INSIDE (DT_CALLBACK c cb ok n u)) = 2"
| "steps_left len (LEAVING v) = 1"
| "steps_left len (EXITED v) = 0"
| "steps_left len JOINED = 0"

text \<open>What memory, channel and the slot of the thread look like wherever the thread is.\<close>

definition midway :: "dma_transfer_desc \<Rightarrow> (nat \<Rightarrow> u8) \<Rightarrow> nat \<Rightarrow> nat \<Rightarrow> nat \<Rightarrow> (nat \<Rightarrow> u8) \<Rightarrow> dma_channel_priv \<Rightarrow> nat \<Rightarrow> nat \<Rightarrow> bool" where
  "midway d m src dst r mem h n k \<longleftrightarrow> r \<le> dd_length d \<and> src = dd_src_addr d + (dd_length d - r) \<and> dst = dd_dst_addr d + (dd_length d - r) \<and>
     mem = copied d m (dd_length d - r + n) \<and> dc_transferred h = dd_length d - r + k \<and> dc_state h = DMA_CH_STATE_RUNNING"

lemma midway_advance:
  assumes "midway d m src dst r mem h (chunk r) (chunk r)"
  shows "midway d m (src + chunk r) (dst + chunk r) (r - chunk r) mem h 0 0"
proof -
  have r: "r \<le> dd_length d" and eqs: "src = dd_src_addr d + (dd_length d - r)" "dst = dd_dst_addr d + (dd_length d - r)"
    "mem = copied d m (dd_length d - r + chunk r)" "dc_transferred h = dd_length d - r + chunk r" "dc_state h = DMA_CH_STATE_RUNNING"
    using assms by (simp_all add: midway_def)
  have "chunk r \<le> r" by (simp add: chunk_def)
  with r have len: "dd_length d - (r - chunk r) = dd_length d - r + chunk r" by simp
  have "r - chunk r \<le> dd_length d" using r by (rule order_trans [OF diff_le_self])
  then show ?thesis unfolding midway_def len unfolding eqs add_0_right add.assoc by blast
qed

fun progress :: "nat \<Rightarrow> dma_transfer_desc \<Rightarrow> (nat \<Rightarrow> u8) \<Rightarrow> dma_pc phase \<Rightarrow> (nat \<Rightarrow> u8) \<Rightarrow> dma_channel_priv \<Rightarrow> thread_state \<Rightarrow> bool" where
  "progress c d m ENTERING mem h st \<longleftrightarrow> mem = m \<and> dc_state h = DMA_CH_STATE_READY \<and> st = THREAD_STATE_READY"
| "progress c d m (INSIDE (DT_START c')) mem h st \<longleftrightarrow> c' = c \<and> mem = m \<and> dc_state h = DMA_CH_STATE_READY \<and> st = THREAD_STATE_RUNNING"
| "progress c d m (INSIDE (DT_LOOP c' src dst r)) mem h st \<longleftrightarrow> c' = c \<and> midway d m src dst r mem h 0 0 \<and> st = THREAD_STATE_RUNNING"
| "progress c d m (INSIDE (DT_COPY c' src dst r)) mem h st \<longleftrightarrow> c' = c \<and> 0 < r \<and> midway d m src dst r mem h 0 0 \<and> st = THREAD_STATE_RUNNING"
| "progress c d m (INSIDE (DT_COUNT c' src dst r n)) mem h st \<longleftrightarrow>
     c' = c \<and> 0 < r \<and> n = chunk r \<and> midway d m src dst r mem h n 0 \<and> st = THREAD_STATE_RUNNING"
| "progress c d m (INSIDE (DT_ADVANCE c' src dst r n)) mem h st \<longleftrightarrow>
     c' = c \<and> 0 < r \<and> n = chunk r \<and> midway d m src dst r mem h n n \<and> st = THREAD_STATE_RUNNING"
| "progress c d m (INSIDE (DT_FINISH c')) mem h st \<longleftrightarrow> c' = c \<and> mem = copied d m (dd_length d) \<and> dc_transferred h = dd_length d \<and>
     dc_state h = DMA_CH_STATE_RUNNING \<and> st = THREAD_STATE_RUNNING"
| "progress c d m (INSIDE (DT_CALLBACK c' cb ok n u)) mem h st \<longleftrightarrow> mem = copied d m (dd_length d) \<and> dc_transferred h = dd_length d \<and>
     dc_state h = DMA_CH_STATE_COMPLETE \<and> st = THREAD_STATE_RUNNING"
| "progress c d m (LEAVING v) mem h st \<longleftrightarrow> mem = copied d m (dd_length d) \<and> dc_transferred h = dd_length d \<and>
     dc_state h = DMA_CH_STATE_COMPLETE \<and> st = THREAD_STATE_RUNNING"
| "progress c d m (EXITED v) mem h st \<longleftrightarrow> mem = copied d m (dd_length d) \<and> dc_transferred h = dd_length d \<and>
     dc_state h = DMA_CH_STATE_COMPLETE \<and> st = THREAD_STATE_STOPPED"
| "progress c d m JOINED mem h st \<longleftrightarrow> False"

definition quiet :: "(nat \<times> dma_pc phase) \<Rightarrow> bool" where
  "quiet x \<longleftrightarrow> (case snd x of EXITED v \<Rightarrow> True | JOINED \<Rightarrow> True | _ \<Rightarrow> False)"

text \<open>Thread \<open>t\<close> in slot \<open>i\<close> serves channel \<open>c\<close>, and no other thread runs.\<close>

definition serving :: "nat \<Rightarrow> nat \<Rightarrow> nat \<Rightarrow> dma_transfer_desc \<Rightarrow> dma_sys \<Rightarrow> bool" where
  "serving c t i d s \<longleftrightarrow> t < length (ts_pthreads s) \<and> fst (ts_pthreads s ! t) = i \<and>
     (\<forall>u < length (ts_pthreads s). u \<noteq> t \<longrightarrow> quiet (ts_pthreads s ! u)) \<and> i < length (ts_slots s) \<and>
     tp_func (ts_slots s ! i) = Some DMA_TRANSFER_THREAD \<and> tp_arg (ts_slots s ! i) = c \<and> tp_pthread (ts_slots s ! i) = Some t \<and>
     c < length (ds_channels s) \<and> dc_desc (dma_ch s c) = d"

definition transferring :: "nat \<Rightarrow> nat \<Rightarrow> nat \<Rightarrow> dma_transfer_desc \<Rightarrow> (nat \<Rightarrow> u8) \<Rightarrow> dma_sys \<Rightarrow> bool" where
  "transferring c t i d m s \<longleftrightarrow> serving c t i d s \<and>
     progress c d m (snd (ts_pthreads s ! t)) (ds_mem s) (dma_ch s c) (tp_state (ts_slots s ! i))"

abbreviation left_of :: "nat \<Rightarrow> dma_transfer_desc \<Rightarrow> dma_sys \<Rightarrow> nat" where
  "left_of t d s \<equiv> steps_left (dd_length d) (snd (ts_pthreads s ! t))"

text \<open>What the thread does not touch.\<close>

definition same_static :: "nat \<Rightarrow> dma_sys \<Rightarrow> dma_sys \<Rightarrow> bool" where
  "same_static c s s' \<longleftrightarrow> ts_sched s' = ts_sched s \<and> ts_clock s' = ts_clock s \<and> ts_initialized s' = ts_initialized s \<and>
     ds_initialized s' = ds_initialized s \<and> length (ds_channels s') = length (ds_channels s) \<and> length (ts_slots s') = length (ts_slots s) \<and>
     (\<forall>i < length (ts_slots s). tp_is_initialized (ts_slots s' ! i) = tp_is_initialized (ts_slots s ! i) \<and>
        tp_thread_id (ts_slots s' ! i) = tp_thread_id (ts_slots s ! i)) \<and>
     dc_thread_id (dma_ch s' c) = dc_thread_id (dma_ch s c) \<and> dc_is_allocated (dma_ch s' c) = dc_is_allocated (dma_ch s c)"

lemma same_static_refl [simp]: "same_static c s s"
  by (simp add: same_static_def)

lemma same_static_trans [trans]: "same_static c s t \<Longrightarrow> same_static c t u \<Longrightarrow> same_static c s u"
  by (simp add: same_static_def)

lemma step_quiet: "t < length (ts_pthreads s) \<Longrightarrow> quiet (ts_pthreads s ! t) \<Longrightarrow> dma_step t s = Some s"
  by (auto simp: dma_step_def thread_wrapper_def quiet_def split: phase.splits)

lemma step_outside: "length (ts_pthreads s) \<le> t \<Longrightarrow> dma_step t s = Some s"
  by (simp add: dma_step_def thread_wrapper_def)

lemma chunk_bounds: "chunk r \<le> r" "0 < r \<Longrightarrow> 0 < chunk r" "chunk r \<le> 4096"
  by (auto simp: chunk_def)

lemma step_serves:
  assumes tr: "transferring c t i d m s" and d: "plain_copy d" and go: "\<not> quiet (ts_pthreads s ! t)"
  shows "\<exists>s'. dma_step t s = Some s' \<and> transferring c t i d m s' \<and> left_of t d s' < left_of t d s \<and> same_static c s s'"
proof -
  note defs = dma_step_def thread_wrapper_def transferring_def serving_def same_static_def set_phase_def upd_ch_def upd_thread_def
    thread_timestamp_ms_def Let_def
  from tr have sv: "t < length (ts_pthreads s)" "fst (ts_pthreads s ! t) = i" "i < length (ts_slots s)"
    "tp_func (ts_slots s ! i) = Some DMA_TRANSFER_THREAD" "tp_arg (ts_slots s ! i) = c" "tp_pthread (ts_slots s ! i) = Some t"
    "c < length (ds_channels s)" "dc_desc (dma_ch s c) = d"
    and others: "\<forall>u < length (ts_pthreads s). u \<noteq> t \<longrightarrow> quiet (ts_pthreads s ! u)"
    and pr: "progress c d m (snd (ts_pthreads s ! t)) (ds_mem s) (dma_ch s c) (tp_state (ts_slots s ! i))"
    by (simp_all add: transferring_def serving_def)
  note sd = sv others
  show ?thesis
  proof (cases "snd (ts_pthreads s ! t)")
    case ENTERING
    with sd pr show ?thesis by (simp add: defs thread_wrapper_enter_def nth_list_update)
  next
    case (LEAVING v)
    with sd pr show ?thesis by (simp add: defs thread_wrapper_leave_def nth_list_update)
  next
    case (INSIDE p)
    show ?thesis
    proof (cases p)
      case (DT_START c')
      with INSIDE sd pr show ?thesis by (simp add: defs dma_thread_start_def midway_def)
    next
      case (DT_LOOP c' src dst r)
      with INSIDE sd pr show ?thesis by (auto simp: defs dma_thread_check_def midway_def)
    next
      case (DT_COPY c' src dst r)
      with INSIDE pr have mw: "c' = c" "0 < r" "midway d m src dst r (ds_mem s) (dma_ch s c) 0 0" "tp_state (ts_slots s ! i) = THREAD_STATE_RUNNING"
        by simp_all
      define p where "p = dd_length d - r"
      have p: "src = dd_src_addr d + p" "dst = dd_dst_addr d + p" "ds_mem s = copied d m p" "p + chunk r \<le> dd_length d" "r \<le> dd_length d"
        using mw(3) chunk_bounds(1) [of r] by (simp_all add: midway_def p_def)
      have "\<not> (src < dst + chunk r \<and> dst < src + chunk r)" "dd_src_addr d \<noteq> 0" "dd_dst_addr d \<noteq> 0"
        using d p(4) by (auto simp: plain_copy_def p(1,2))
      then have "dma_thread_copy src dst (chunk r) s = Some (s\<lparr>ds_mem := copied d m (p + chunk r)\<rparr>)"
        using copied_more [OF d p(4)] by (simp add: dma_thread_copy_def p(1-3))
      with INSIDE DT_COPY sd mw p show ?thesis by (simp add: defs midway_def p_def [symmetric])
    next
      case (DT_COUNT c' src dst r n)
      have "dd_length d - r + chunk r < 4294967296" if "r \<le> dd_length d"
        using d that chunk_bounds(1) [of r] by (auto simp: plain_copy_def)
      with INSIDE DT_COUNT sd pr show ?thesis by (auto simp: defs midway_def u32_add_small)
    next
      case (DT_ADVANCE c' src dst r n)
      with INSIDE pr have mw: "c' = c" "n = chunk r" "0 < r" "midway d m src dst r (ds_mem s) (dma_ch s c) (chunk r) (chunk r)"
        by auto
      note adv = midway_advance [OF mw(4)]
      have "4 + 4 * chunks (r - n) < 1 + 4 * chunks r" using chunks_less [OF mw(3)] by (simp add: mw(2))
      moreover have "dd_src_increment d" "dd_dst_increment d" using d by (simp_all add: plain_copy_def)
      ultimately show ?thesis using INSIDE DT_ADVANCE sd adv pr by (simp add: defs mw(1,2))
    next
      case (DT_FINISH c')
      with INSIDE sd pr show ?thesis by (auto simp: defs dma_thread_finish_def split: option.split)
    next
      case (DT_CALLBACK c' cb ok n u)
      with INSIDE sd pr show ?thesis by (simp add: defs)
    qed
  qed (use go in \<open>simp_all add: quiet_def\<close>)
qed

lemma batch_serves:
  assumes "transferring c t i d m s" "plain_copy d"
  shows "\<exists>s'. run_batch dma_step b s = Some s' \<and> transferring c t i d m s' \<and> left_of t d s' \<le> left_of t d s - count_list b t \<and>
     same_static c s s'"
  using assms(1)
proof (induction b arbitrary: s)
  case (Cons u b)
  have "\<exists>s1. dma_step u s = Some s1 \<and> transferring c t i d m s1 \<and> same_static c s s1 \<and>
     left_of t d s1 \<le> left_of t d s - (if u = t then 1 else 0)"
  proof (cases "length (ts_pthreads s) \<le> u \<or> quiet (ts_pthreads s ! u)")
    case True
    then have st: "dma_step u s = Some s" using step_quiet step_outside not_less by blast
    have "left_of t d s = 0" if "u = t"
      using True that Cons.prems by (auto simp: transferring_def serving_def quiet_def split: phase.splits)
    with st Cons.prems show ?thesis by auto
  next
    case False
    have "\<forall>v < length (ts_pthreads s). v \<noteq> t \<longrightarrow> quiet (ts_pthreads s ! v)"
      using Cons.prems by (simp add: transferring_def serving_def)
    with False have "u = t" by (meson not_le)
    with False step_serves [OF Cons.prems assms(2)] show ?thesis by fastforce
  qed
  then obtain s1 where s1: "dma_step u s = Some s1" "transferring c t i d m s1" "same_static c s s1"
    "left_of t d s1 \<le> left_of t d s - (if u = t then 1 else 0)" by blast
  from Cons.IH [OF s1(2)] obtain s' where "run_batch dma_step b s1 = Some s'" "transferring c t i d m s'"
    "left_of t d s' \<le> left_of t d s1 - count_list b t" "same_static c s1 s'" by blast
  with s1 show ?case by (auto simp: run_batch_def intro: same_static_trans)
qed (simp add: run_batch_def)

lemma transferring_fields [simp]:
  "transferring c t i d m (s\<lparr>ts_sched := b\<rparr>) = transferring c t i d m s"
  "transferring c t i d m (s\<lparr>ts_ticks := n\<rparr>) = transferring c t i d m s"
  by (simp_all add: transferring_def serving_def)

lemma progress_state:
  assumes "progress c d m ph mem h st"
  shows "dc_state h \<in> {DMA_CH_STATE_READY, DMA_CH_STATE_RUNNING, DMA_CH_STATE_COMPLETE}"
    and "dc_state h = DMA_CH_STATE_COMPLETE \<longleftrightarrow> steps_left (dd_length d) ph \<le> 2"
    and "dc_state h = DMA_CH_STATE_COMPLETE \<Longrightarrow> dc_transferred h = dd_length d \<and> mem = copied d m (dd_length d)"
proof -
  have "dc_state h \<in> {DMA_CH_STATE_READY, DMA_CH_STATE_RUNNING, DMA_CH_STATE_COMPLETE} \<and>
     (dc_state h = DMA_CH_STATE_COMPLETE \<longleftrightarrow> steps_left (dd_length d) ph \<le> 2) \<and>
     (dc_state h = DMA_CH_STATE_COMPLETE \<longrightarrow> dc_transferred h = dd_length d \<and> mem = copied d m (dd_length d))"
  proof (cases ph)
    case (INSIDE p)
    with assms chunks_pos show ?thesis by (cases p) (auto simp: midway_def Suc_le_eq)
  qed (use assms in simp_all)
  then show "dc_state h \<in> {DMA_CH_STATE_READY, DMA_CH_STATE_RUNNING, DMA_CH_STATE_COMPLETE}"
    "dc_state h = DMA_CH_STATE_COMPLETE \<longleftrightarrow> steps_left (dd_length d) ph \<le> 2"
    "dc_state h = DMA_CH_STATE_COMPLETE \<Longrightarrow> dc_transferred h = dd_length d \<and> mem = copied d m (dd_length d)" by blast+
qed

lemma transferring_state:
  assumes "transferring c t i d m s"
  shows "dc_state (dma_ch s c) \<in> {DMA_CH_STATE_READY, DMA_CH_STATE_RUNNING, DMA_CH_STATE_COMPLETE}"
    and "dc_state (dma_ch s c) = DMA_CH_STATE_COMPLETE \<longleftrightarrow> left_of t d s \<le> 2"
    and "dc_state (dma_ch s c) = DMA_CH_STATE_COMPLETE \<Longrightarrow> dc_transferred (dma_ch s c) = dd_length d \<and> ds_mem s = copied d m (dd_length d)"
  using progress_state [of c d m "snd (ts_pthreads s ! t)" "ds_mem s" "dma_ch s c" "tp_state (ts_slots s ! i)"] assms
  by (simp_all add: transferring_def)

text \<open>A clock that never shows five seconds to have gone by.\<close>

definition clock_slow :: "dma_sys \<Rightarrow> bool" where
  "clock_slow s \<longleftrightarrow> (\<forall>j k. ts_clock s j - ts_clock s k < 5000)"

lemma wait_serves:
  assumes "transferring c t i d m s" "plain_copy d" "clock_slow s" "start \<in> range (ts_clock s)"
    and "left_of t d s \<le> count_list (concat bs) t"
  shows "\<exists>s'. wait_rounds c start 5000 bs s = Some (False, s') \<and> transferring c t i d m s' \<and>
     dc_state (dma_ch s' c) = DMA_CH_STATE_COMPLETE \<and> left_of t d s' \<le> count_list (concat (ts_sched s')) t \<and>
     same_static c (s\<lparr>ts_sched := ts_sched s'\<rparr>) s'"
  using assms(1,3-)
proof (induction bs arbitrary: s)
  case Nil
  then have "dc_state (dma_ch s c) = DMA_CH_STATE_COMPLETE" using transferring_state(2) [of c t i d m s] by simp
  with Nil show ?case by (subst wait_rounds.simps) (simp add: same_static_def)
next
  case (Cons b bs)
  show ?case
  proof (cases "dc_state (dma_ch s c) = DMA_CH_STATE_COMPLETE")
    case True
    with Cons.prems show ?thesis by (subst wait_rounds.simps) (simp add: same_static_def)
  next
    case False
    then have wait: "dc_state (dma_ch s c) \<in> {DMA_CH_STATE_READY, DMA_CH_STATE_RUNNING, DMA_CH_STATE_PAUSED}"
      using transferring_state(1) [OF Cons.prems(1)] by auto
    define s1 where "s1 = s\<lparr>ts_ticks := Suc (ts_ticks s)\<rparr>"
    have "ts_clock s (ts_ticks s) - start < 5000" using Cons.prems(2,3) by (auto simp: clock_slow_def)
    then have time: "\<not> (of_nat 5000 :: u64) \<le> ts_clock s (ts_ticks s) - start" by simp
    from batch_serves [of c t i d m s1 b] Cons.prems(1) assms(2) obtain s2 where s2: "run_batch dma_step b s1 = Some s2"
      "transferring c t i d m s2" "left_of t d s2 \<le> left_of t d s - count_list b t" "same_static c s1 s2"
      by (auto simp: s1_def)
    have step: "wait_rounds c start 5000 (b # bs) s = wait_rounds c start 5000 bs s2"
      using wait time s2(1) by (subst wait_rounds.simps) (simp add: thread_timestamp_ms_def flip: s1_def)
    have s2': "ts_clock s2 = ts_clock s" using s2(4) by (simp add: same_static_def s1_def)
    have "clock_slow s2" "start \<in> range (ts_clock s2)" using Cons.prems(2,3) s2' by (simp_all add: clock_slow_def)
    moreover have "left_of t d s2 \<le> count_list (concat bs) t" using s2(3) Cons.prems(4) by simp
    ultimately obtain s' where "wait_rounds c start 5000 bs s2 = Some (False, s')" "transferring c t i d m s'"
      "dc_state (dma_ch s' c) = DMA_CH_STATE_COMPLETE" "left_of t d s' \<le> count_list (concat (ts_sched s')) t"
      "same_static c (s2\<lparr>ts_sched := ts_sched s'\<rparr>) s'"
      using Cons.IH [OF s2(2)] by blast
    moreover from this(5) s2(4) have "same_static c (s\<lparr>ts_sched := ts_sched s'\<rparr>) s'" by (simp add: same_static_def s1_def)
    ultimately show ?thesis unfolding step by blast
  qed
qed

lemma join_serves:
  assumes "transferring c t i d m s" "plain_copy d" "dc_state (dma_ch s c) = DMA_CH_STATE_COMPLETE"
    and "left_of t d s \<le> count_list (concat bs) t"
  shows "\<exists>v s1 b. join_rounds dma_step (Some t) bs s = Some (v, set_phase t JOINED s1\<lparr>ts_sched := b\<rparr>) \<and> transferring c t i d m s1 \<and>
     same_static c s s1 \<and> (\<exists>v. snd (ts_pthreads s1 ! t) = EXITED v)"
  using assms
proof (induction bs arbitrary: s)
  case Nil
  then obtain v where v: "snd (ts_pthreads s ! t) = EXITED v"
    by (cases "snd (ts_pthreads s ! t)") (auto simp: transferring_def elim: steps_left.elims)
  moreover have "t < length (ts_pthreads s)" using Nil.prems(1) by (simp add: transferring_def serving_def)
  ultimately have "join_rounds dma_step (Some t) [] s = Some (v, set_phase t JOINED s\<lparr>ts_sched := []\<rparr>)" by (simp add: pthread_join_def)
  with Nil.prems(1) v show ?case by (metis same_static_refl)
next
  case (Cons b bs)
  have t: "t < length (ts_pthreads s)" using Cons.prems(1) by (simp add: transferring_def serving_def)
  show ?case
  proof (cases "\<exists>v. snd (ts_pthreads s ! t) = EXITED v")
    case True
    then obtain v where v: "snd (ts_pthreads s ! t) = EXITED v" by blast
    with t have "join_rounds dma_step (Some t) (b # bs) s = Some (v, set_phase t JOINED s\<lparr>ts_sched := b # bs\<rparr>)"
      by (simp add: pthread_join_def)
    with Cons.prems(1) v show ?thesis by (metis same_static_refl)
  next
    case False
    have "snd (ts_pthreads s ! t) \<noteq> JOINED" using Cons.prems(1) by (auto simp: transferring_def)
    with False t have blocked: "pthread_join (Some t) s = Some None"
      by (cases "snd (ts_pthreads s ! t)") (auto simp: pthread_join_def)
    from batch_serves [OF Cons.prems(1,2)] obtain s1 where s1: "run_batch dma_step b s = Some s1" "transferring c t i d m s1"
      "left_of t d s1 \<le> left_of t d s - count_list b t" "same_static c s s1" by blast
    have "dc_state (dma_ch s1 c) = DMA_CH_STATE_COMPLETE"
      using transferring_state(2) [OF s1(2)] transferring_state(2) [OF Cons.prems(1)] Cons.prems(3) s1(3) by simp
    moreover have "left_of t d s1 \<le> count_list (concat bs) t" using s1(3) Cons.prems(4) by simp
    ultimately obtain v s2 b' where "join_rounds dma_step (Some t) bs s1 = Some (v, set_phase t JOINED s2\<lparr>ts_sched := b'\<rparr>)"
      "transferring c t i d m s2" "same_static c s1 s2" "\<exists>v. snd (ts_pthreads s2 ! t) = EXITED v"
      using Cons.IH [OF s1(2) Cons.prems(2)] by blast
    with s1(1,4) blocked show ?thesis by (auto intro: same_static_trans)
  qed
qed

section \<open>The synchronous transfer\<close>

text \<open>Nothing runs, and a thread and a channel can be had.\<close>

definition dma_idle :: "dma_sys \<Rightarrow> bool" where
  "dma_idle s \<longleftrightarrow> ds_initialized s \<and> ts_initialized s \<and> length (ts_slots s) = MAX_THREADS \<and> length (ds_channels s) = DMA_MAX_CHANNELS \<and>
     (\<forall>x \<in> set (ts_pthreads s). quiet x) \<and> find_free_slot s \<noteq> None \<and> ts_next_thread_id s \<noteq> 0 \<and>
     find_thread_by_id (ts_next_thread_id s) s = None \<and> (\<exists>c<DMA_MAX_CHANNELS. \<not> dc_is_allocated (dma_ch s c))"

lemma find_upt_first: "i < n \<Longrightarrow> (\<forall>j<n. P j \<longleftrightarrow> j = i) \<Longrightarrow> find P [0..<n] = Some i"
  by (auto simp: find_Some_iff intro: exI [of _ i])

lemma find_thread_same:
  "same_static c s s' \<Longrightarrow> length (ts_slots s) = MAX_THREADS \<Longrightarrow> find_thread_by_id n s' = find_thread_by_id n s"
  unfolding find_thread_by_id_def by (rule find_cong) (auto simp: same_static_def)

text \<open>The state after a start that takes slot \<open>i\<close>.\<close>

definition fresh_thread :: "nat \<Rightarrow> nat \<Rightarrow> nat option \<Rightarrow> dma_func thread_priv" where
  "fresh_thread c n h = zero_thread\<lparr>tp_thread_id := n, tp_name := take 31 ''dma_transfer'', tp_func := Some DMA_TRANSFER_THREAD,
     tp_arg := c, tp_priority := THREAD_PRIORITY_HIGH, tp_state := THREAD_STATE_READY, tp_is_initialized := True, tp_pthread := h\<rparr>"

definition started :: "nat \<Rightarrow> nat \<Rightarrow> dma_sys \<Rightarrow> dma_sys" where
  "started c i s = s\<lparr>ts_next_thread_id := u32_add (ts_next_thread_id s) 1, ts_thread_count := ts_thread_count s + 1,
     ds_channels := (ds_channels s)[c := (dma_ch s c)\<lparr>dc_thread_id := ts_next_thread_id s\<rparr>],
     ts_create_count := ts_create_count s + 1, ts_pthreads := ts_pthreads s @ [(i, ENTERING)],
     ts_slots := (ts_slots s)[i := fresh_thread c (ts_next_thread_id s) (Some (length (ts_pthreads s)))]\<rparr>"

definition can_start :: "nat \<Rightarrow> dma_sys \<Rightarrow> bool" where
  "can_start i s \<longleftrightarrow> ts_initialized s \<and> length (ts_slots s) = MAX_THREADS \<and> find_free_slot s = Some i \<and> ts_next_thread_id s \<noteq> 0 \<and>
     find_thread_by_id (ts_next_thread_id s) s = None \<and> \<not> ts_create_fails s (ts_create_count s)"

lemma can_start_slot: "can_start i s \<Longrightarrow> i < length (ts_slots s)"
  by (auto simp: can_start_def find_free_slot_def find_Some_iff)

lemma find_fresh:
  assumes "can_start i s" "ts_slots s' = (ts_slots s)[i := fresh_thread c (ts_next_thread_id s) h]"
  shows "find_thread_by_id (ts_next_thread_id s) s' = Some i"
proof -
  have i: "i < MAX_THREADS" using assms(1) by (auto simp: can_start_def find_free_slot_def find_Some_iff)
  have "j < MAX_THREADS \<Longrightarrow> \<not> (tp_is_initialized (ts_slots s ! j) \<and> tp_thread_id (ts_slots s ! j) = ts_next_thread_id s)" for j
    using assms(1) by (auto simp: can_start_def find_thread_by_id_def find_None_iff)
  with i assms show ?thesis
    unfolding find_thread_by_id_def by (intro find_upt_first) (auto simp: can_start_def fresh_thread_def nth_list_update)
qed

lemma start_ready:
  assumes "dma_check c s = RET_OK" "dc_state (dma_ch s c) = DMA_CH_STATE_READY" "can_start i s"
  shows "dma_start_transfer c s = (RET_OK, started c i s)"
    and "find_thread_by_id (ts_next_thread_id s) (started c i s) = Some i"
proof -
  define s1 where "s1 = upd_ch c (\<lambda>h. h\<lparr>dc_thread_id := ts_next_thread_id s\<rparr>) (upd_thread i (\<lambda>_. fresh_thread c (ts_next_thread_id s) None)
      (s\<lparr>ts_next_thread_id := u32_add (ts_next_thread_id s) 1, ts_thread_count := ts_thread_count s + 1\<rparr>))"
  have "ts_slots s1 = (ts_slots s)[i := fresh_thread c (ts_next_thread_id s) None]" by (simp add: s1_def upd_ch_def upd_thread_def)
  note f = find_fresh [OF assms(3) this]
  have "thread_start (ts_next_thread_id s) s1 = (RET_OK, started c i s)"
    using f can_start_slot [OF assms(3)] assms(3) by (simp add: thread_start_def can_start_def s1_def upd_ch_def upd_thread_def started_def fresh_thread_def)
  moreover have "thread_create ''dma_transfer'' (Some DMA_TRANSFER_THREAD) c THREAD_PRIORITY_HIGH s =
      (ts_next_thread_id s, upd_thread i (\<lambda>_. fresh_thread c (ts_next_thread_id s) None)
        (s\<lparr>ts_next_thread_id := u32_add (ts_next_thread_id s) 1, ts_thread_count := ts_thread_count s + 1\<rparr>))"
    using assms(3) by (simp add: thread_create_def can_start_def fresh_thread_def zero_thread_def)
  ultimately show "dma_start_transfer c s = (RET_OK, started c i s)"
    using assms by (simp add: dma_start_transfer_def s1_def can_start_def)
  show "find_thread_by_id (ts_next_thread_id s) (started c i s) = Some i"
    by (rule find_fresh [OF assms(3)]) (simp add: started_def)
qed

lemma start_serves:
  assumes idle: "dma_idle s" and d: "plain_copy d" and ok: "\<not> ts_create_fails s (ts_create_count s)" and slow: "clock_slow s"
  obtains c i s1 s2 s3 where "dma_alloc_channel s = (c, s1)" "c \<noteq> DMA_NO_CHANNEL" "dma_config_channel c (Some d) s1 = (RET_OK, s2)"
    "dma_start_transfer c s2 = (RET_OK, s3)" "transferring c (length (ts_pthreads s)) i d (ds_mem s) s3"
    "left_of (length (ts_pthreads s)) d s3 = 6 + 4 * chunks (dd_length d)" "c < DMA_MAX_CHANNELS" "ds_initialized s3" "ts_initialized s3"
    "dc_is_allocated (dma_ch s3 c)" "dc_thread_id (dma_ch s3 c) \<noteq> 0" "find_thread_by_id (dc_thread_id (dma_ch s3 c)) s3 = Some i"
    "length (ts_slots s3) = MAX_THREADS" "ts_sched s3 = ts_sched s" "clock_slow s3"
proof -
  obtain c where c: "find (\<lambda>i. \<not> dc_is_allocated (dma_ch s i)) [0..<DMA_MAX_CHANNELS] = Some c"
    using idle by (cases "find (\<lambda>i. \<not> dc_is_allocated (dma_ch s i)) [0..<DMA_MAX_CHANNELS]") (auto simp: dma_idle_def find_None_iff)
  then have c8: "c < DMA_MAX_CHANNELS" "\<not> dc_is_allocated (dma_ch s c)" by (auto simp: find_Some_iff)
  have cl: "c < length (ds_channels s)" using c8 idle by (simp add: dma_idle_def)
  obtain i where i: "find_free_slot s = Some i" using idle by (auto simp: dma_idle_def)
  define s1 where "s1 = upd_ch c (\<lambda>h. h\<lparr>dc_is_allocated := True, dc_state := DMA_CH_STATE_IDLE, dc_transferred := 0\<rparr>) s"
  have a: "dma_alloc_channel s = (c, s1)" using idle c by (simp add: dma_alloc_channel_def s1_def dma_idle_def)
  define s2 where "s2 = upd_ch c (\<lambda>h. h\<lparr>dc_desc := d, dc_state := DMA_CH_STATE_READY, dc_transferred := 0\<rparr>) s1"
  have b: "dma_config_channel c (Some d) s1 = (RET_OK, s2)"
    using idle c8 cl by (simp add: dma_config_channel_def s2_def s1_def upd_ch_def dma_idle_def)
  have f2: "ts_next_thread_id s2 = ts_next_thread_id s" "ts_initialized s2" "ts_pthreads s2 = ts_pthreads s" "ts_slots s2 = ts_slots s"
    "ts_clock s2 = ts_clock s" "ds_mem s2 = ds_mem s" "ts_sched s2 = ts_sched s" "ds_initialized s2"
    "length (ds_channels s2) = length (ds_channels s)" "dc_state (dma_ch s2 c) = DMA_CH_STATE_READY" "dc_is_allocated (dma_ch s2 c)"
    "dc_desc (dma_ch s2 c) = d"
    using idle cl by (simp_all add: s2_def s1_def upd_ch_def dma_idle_def)
  have start: "can_start i s2" using idle i ok
    by (simp add: can_start_def dma_idle_def s2_def s1_def upd_ch_def find_free_slot_def find_thread_by_id_def)
  have chk: "dma_check c s2 = RET_OK" using c8 f2 by (simp add: dma_check_def)
  note e = start_ready [OF chk f2(10) start]
  have il: "i < length (ts_slots s)" "length (ts_slots s) = MAX_THREADS"
    using can_start_slot [OF start] idle by (simp_all add: f2 dma_idle_def)
  have "\<forall>u < length (ts_pthreads s). quiet (ts_pthreads s ! u)" using idle by (simp add: dma_idle_def)
  then have "transferring c (length (ts_pthreads s)) i d (ds_mem s) (started c i s2)"
    using il cl f2 by (auto simp: transferring_def serving_def started_def fresh_thread_def nth_append less_Suc_eq)
  moreover have "left_of (length (ts_pthreads s)) d (started c i s2) = 6 + 4 * chunks (dd_length d)" "ds_initialized (started c i s2)"
    "ts_initialized (started c i s2)" "dc_is_allocated (dma_ch (started c i s2) c)"
    "dc_thread_id (dma_ch (started c i s2) c) = ts_next_thread_id s2" "length (ts_slots (started c i s2)) = MAX_THREADS"
    "ts_sched (started c i s2) = ts_sched s" "clock_slow (started c i s2)"
    using cl f2 il slow by (simp_all add: started_def clock_slow_def)
  moreover have "c \<noteq> DMA_NO_CHANNEL" using c8 by (simp add: DMA_NO_CHANNEL_def DMA_MAX_CHANNELS_def)
  moreover have "ts_next_thread_id s2 \<noteq> 0" using start by (simp add: can_start_def)
  ultimately show thesis using that [of c s1 s2 "started c i s2" i] a b e c8 by simp
qed

lemma progress_stopped:
  assumes "progress c d m ph mem h st"
  shows "st \<in> {THREAD_STATE_STOPPED, THREAD_STATE_ERROR} \<longleftrightarrow> (\<exists>v. ph = EXITED v)"
proof (cases ph)
  case (INSIDE p)
  with assms show ?thesis by (cases p) simp_all
qed (use assms in simp_all)

lemma join_channel_serves:
  assumes tr: "transferring c t i d m s" and d: "plain_copy d" and fin: "dc_state (dma_ch s c) = DMA_CH_STATE_COMPLETE"
    and left: "left_of t d s \<le> count_list (concat (ts_sched s)) t"
    and id: "ts_initialized s" "dc_thread_id (dma_ch s c) \<noteq> 0" "find_thread_by_id (dc_thread_id (dma_ch s c)) s = Some i"
  shows "\<exists>s'. join_channel c s = Some s' \<and> ds_mem s' = copied d m (dd_length d) \<and> dc_transferred (dma_ch s' c) = dd_length d \<and>
     dc_state (dma_ch s' c) = DMA_CH_STATE_COMPLETE \<and> dma_check c s' = dma_check c s \<and> (\<forall>x \<in> set (ts_pthreads s'). quiet x)"
proof -
  have c: "c < length (ds_channels s)" "t < length (ts_pthreads s)" "fst (ts_pthreads s ! t) = i" "tp_pthread (ts_slots s ! i) = Some t"
    "\<forall>u < length (ts_pthreads s). u \<noteq> t \<longrightarrow> quiet (ts_pthreads s ! u)"
    using tr by (simp_all add: transferring_def serving_def)
  note st = transferring_state(3) [OF tr fin]
  show ?thesis
  proof (cases "tp_state (ts_slots s ! i) \<in> {THREAD_STATE_STOPPED, THREAD_STATE_ERROR}")
    case True
    then obtain v where "snd (ts_pthreads s ! t) = EXITED v"
      using tr progress_stopped [of c d m "snd (ts_pthreads s ! t)" "ds_mem s" "dma_ch s c"] by (auto simp: transferring_def)
    then have "quiet (ts_pthreads s ! t)" by (simp add: quiet_def)
    with c(5) have q: "\<forall>x \<in> set (ts_pthreads s). quiet x" by (metis in_set_conv_nth)
    have "join_channel c s = Some (upd_ch c (\<lambda>h. h\<lparr>dc_thread_id := 0\<rparr>) s)"
      using True id by (simp add: join_channel_def thread_join_def)
    with c(1) st fin q show ?thesis by (simp add: upd_ch_def dma_check_def)
  next
    case False
    from join_serves [OF tr d fin left] obtain v s1 b where j: "join_rounds dma_step (Some t) (ts_sched s) s =
        Some (v, set_phase t JOINED s1\<lparr>ts_sched := b\<rparr>)" "transferring c t i d m s1" "same_static c s s1" "\<exists>v. snd (ts_pthreads s1 ! t) = EXITED v"
      by blast
    define s2 where "s2 = upd_ch c (\<lambda>h. h\<lparr>dc_thread_id := 0\<rparr>) (upd_thread i (\<lambda>p. p\<lparr>tp_state := THREAD_STATE_STOPPED\<rparr>)
        (set_phase t JOINED s1\<lparr>ts_sched := b\<rparr>))"
    have "thread_join dma_step (dc_thread_id (dma_ch s c)) s =
      Some (RET_OK, Some v, upd_thread i (\<lambda>p. p\<lparr>tp_state := THREAD_STATE_STOPPED\<rparr>) (set_phase t JOINED s1\<lparr>ts_sched := b\<rparr>))"
      using False id j(1) c(4) by (simp add: thread_join_def wait_joined_def)
    then have "join_channel c s = Some s2" using id by (simp add: join_channel_def s2_def)
    have "steps_left (dd_length d) (snd (ts_pthreads s1 ! t)) \<le> 2" using j(4) by auto
    then have "dc_state (dma_ch s1 c) = DMA_CH_STATE_COMPLETE" using transferring_state(2) [OF j(2)] by simp
    with transferring_state(3) [OF j(2)] have f: "dc_state (dma_ch s1 c) = DMA_CH_STATE_COMPLETE"
      "dc_transferred (dma_ch s1 c) = dd_length d" "ds_mem s1 = copied d m (dd_length d)" by simp_all
    have c1: "c < length (ds_channels s1)" "t < length (ts_pthreads s1)" "\<forall>u < length (ts_pthreads s1). u \<noteq> t \<longrightarrow> quiet (ts_pthreads s1 ! u)"
      using j(2) by (simp_all add: transferring_def serving_def)
    have "\<forall>x \<in> set (ts_pthreads s2). quiet x"
    proof
      fix x assume "x \<in> set (ts_pthreads s2)"
      then obtain u where u: "u < length (ts_pthreads s1)" "x = (ts_pthreads s1)[t := (fst (ts_pthreads s1 ! t), JOINED)] ! u"
        by (auto simp: in_set_conv_nth s2_def upd_ch_def upd_thread_def set_phase_def)
      with c1 show "quiet x" by (cases "u = t") (simp_all add: quiet_def)
    qed
    moreover have "ds_mem s2 = copied d m (dd_length d)" "dc_transferred (dma_ch s2 c) = dd_length d"
      "dc_state (dma_ch s2 c) = DMA_CH_STATE_COMPLETE" "dma_check c s2 = dma_check c s"
      using f c1(1) j(3) by (simp_all add: s2_def upd_ch_def upd_thread_def set_phase_def dma_check_def same_static_def)
    ultimately show ?thesis using \<open>join_channel c s = Some s2\<close> by blast
  qed
qed

text \<open>C21: on an idle controller a synchronous transfer copies its whole area, byte by byte and whatever else the
  scheduler does, reports success and the number of bytes, and leaves no thread running, provided the thread gets
  its steps and the clock does not reach the timeout.\<close>

theorem dma_sync_copies:
  assumes "dma_idle s" "plain_copy d" "\<not> ts_create_fails s (ts_create_count s)" "clock_slow s"
    and "6 + 4 * ((dd_length d + 4095) div 4096) \<le> count_list (concat (ts_sched s)) (length (ts_pthreads s))"
  shows "\<exists>s'. dma_transfer_sync (Some d) True s = Some (RET_OK, Some (dd_length d), s') \<and>
     ds_mem s' = mem_write (ds_mem s) (dd_dst_addr d) (mem_read (ds_mem s) (dd_src_addr d) (dd_length d)) \<and>
     (\<forall>x \<in> set (ts_pthreads s'). quiet x)"
proof -
  let ?t = "length (ts_pthreads s)"
  obtain c i s1 s2 s3 where st: "dma_alloc_channel s = (c, s1)" "c \<noteq> DMA_NO_CHANNEL"
    "dma_config_channel c (Some d) s1 = (RET_OK, s2)" "dma_start_transfer c s2 = (RET_OK, s3)"
    "transferring c ?t i d (ds_mem s) s3" "left_of ?t d s3 = 6 + 4 * chunks (dd_length d)" "c < DMA_MAX_CHANNELS" "ds_initialized s3"
    "ts_initialized s3" "dc_is_allocated (dma_ch s3 c)" "dc_thread_id (dma_ch s3 c) \<noteq> 0" "find_thread_by_id (dc_thread_id (dma_ch s3 c)) s3 = Some i"
    "length (ts_slots s3) = MAX_THREADS" "ts_sched s3 = ts_sched s" "clock_slow s3"
    by (rule start_serves [OF assms(1-4)])
  define s4 where "s4 = s3\<lparr>ts_ticks := Suc (ts_ticks s3)\<rparr>"
  have tr4: "transferring c ?t i d (ds_mem s) s4" "clock_slow s4" using st(5,15) by (simp_all add: s4_def clock_slow_def)
  have "left_of ?t d s4 \<le> count_list (concat (ts_sched s)) ?t" using st(6) assms(5) by (simp add: s4_def chunks_def)
  from wait_serves [OF tr4(1) assms(2) tr4(2) _ this, of "ts_clock s3 (ts_ticks s3)"] obtain s5 where
    w: "wait_rounds c (ts_clock s3 (ts_ticks s3)) 5000 (ts_sched s) s4 = Some (False, s5)" "transferring c ?t i d (ds_mem s) s5"
    "dc_state (dma_ch s5 c) = DMA_CH_STATE_COMPLETE" "left_of ?t d s5 \<le> count_list (concat (ts_sched s5)) ?t"
    "same_static c (s4\<lparr>ts_sched := ts_sched s5\<rparr>) s5" by (auto simp: s4_def)
  have id5: "dc_thread_id (dma_ch s5 c) = dc_thread_id (dma_ch s3 c)" "ts_initialized s5" "dma_check c s5 = RET_OK" "ds_initialized s5"
    using w(5) st(7-11) by (simp_all add: same_static_def s4_def dma_check_def)
  have "find_thread_by_id (dc_thread_id (dma_ch s3 c)) s5 = Some i"
    using find_thread_same [OF w(5), of "dc_thread_id (dma_ch s3 c)"] st(12,13) by (simp add: s4_def find_thread_by_id_def)
  with join_channel_serves [OF w(2) assms(2) w(3,4)] id5 st(11) obtain s6 where j: "join_channel c s5 = Some s6"
    "ds_mem s6 = copied d (ds_mem s) (dd_length d)" "dc_transferred (dma_ch s6 c) = dd_length d"
    "dc_state (dma_ch s6 c) = DMA_CH_STATE_COMPLETE" "dma_check c s6 = RET_OK" "\<forall>x \<in> set (ts_pthreads s6). quiet x"
    by auto
  have "dma_check c s3 = RET_OK" using st(7-10) by (simp add: dma_check_def)
  then have "dma_wait_complete c 5000 s3 = Some (RET_OK, s6)"
    using w(1) j(1) st(14) by (simp add: dma_wait_complete_def thread_timestamp_ms_def s4_def)
  moreover have "dma_free_channel c s6 = Some (RET_OK, upd_ch c (\<lambda>h. h\<lparr>dc_is_allocated := False, dc_state := DMA_CH_STATE_IDLE\<rparr>) s6)"
    using j(4,5) by (simp add: dma_free_channel_def)
  moreover have "ds_initialized s" using assms(1) by (simp add: dma_idle_def)
  ultimately have "dma_transfer_sync (Some d) True s =
      Some (RET_OK, Some (dd_length d), upd_ch c (\<lambda>h. h\<lparr>dc_is_allocated := False, dc_state := DMA_CH_STATE_IDLE\<rparr>) s6)"
    using st(1-4) j(3) by (simp add: dma_transfer_sync_def)
  with j(2,6) show ?thesis by (simp add: upd_ch_def copied_def)
qed

section \<open>A controller to try\<close>

definition blank_dma :: dma_sys where
  "blank_dma = \<lparr>ts_slots = [], ts_thread_count = 0, ts_next_thread_id = 0, ts_initialized = False, ts_pthreads = [],
     ts_create_fails = (\<lambda>_. False), ts_create_count = 0, ts_clock = (\<lambda>_. 0), ts_ticks = 0, ts_sched = [replicate 10 0],
     ds_channels = [], ds_initialized = False, ds_mem = (\<lambda>a. of_nat a), ds_calls = []\<rparr>"

definition dma_boot :: dma_sys where
  "dma_boot = snd (dma_init blank_dma)"

definition copy_desc :: "nat \<Rightarrow> nat \<Rightarrow> nat \<Rightarrow> dma_transfer_desc" where
  "copy_desc src dst len = zero_desc\<lparr>dd_src_addr := src, dd_dst_addr := dst, dd_length := len, dd_src_increment := True, dd_dst_increment := True\<rparr>"

lemma dma_boot_idle: "dma_idle dma_boot"
proof -
  have "[0..<MAX_THREADS] = 0 # [1..<MAX_THREADS]" by (simp add: MAX_THREADS_def upt_conv_Cons)
  then have "find_free_slot dma_boot = Some 0"
    by (simp add: find_free_slot_def dma_boot_def dma_init_def thread_manager_init_def blank_dma_def zero_thread_def MAX_THREADS_def)
  moreover have "find_thread_by_id (ts_next_thread_id dma_boot) dma_boot = None"
    by (auto simp: find_thread_by_id_def find_None_iff dma_boot_def dma_init_def thread_manager_init_def blank_dma_def zero_thread_def)
  ultimately show ?thesis
    by (auto simp: dma_idle_def dma_boot_def dma_init_def thread_manager_init_def blank_dma_def zero_channel_def DMA_MAX_CHANNELS_def
        intro!: exI [of _ 0])
qed

lemma dma_boot_fields:
  "ts_create_fails dma_boot = (\<lambda>_. False)" "ts_clock dma_boot = (\<lambda>_. 0)" "ts_sched dma_boot = [replicate 10 0]" "ts_pthreads dma_boot = []"
  "ds_mem dma_boot = (\<lambda>a. of_nat a)"
  by (simp_all add: dma_boot_def dma_init_def thread_manager_init_def blank_dma_def)

lemma copy_desc_plain: "plain_copy (copy_desc 10 90 5)"
  by (simp add: plain_copy_def copy_desc_def)

lemma dma_transfers_limited_witness: "\<exists>s. dma_history 1 s \<and> (1::nat) \<le> MAX_THREADS"
proof -
  have slow: "clock_slow dma_boot" by (simp add: clock_slow_def dma_boot_fields)
  have ok: "\<not> ts_create_fails dma_boot (ts_create_count dma_boot)" by (simp add: dma_boot_fields)
  obtain c i s1 s2 s3 where st: "dma_alloc_channel dma_boot = (c, s1)" "c \<noteq> DMA_NO_CHANNEL"
    "dma_config_channel c (Some (copy_desc 10 90 5)) s1 = (RET_OK, s2)" "dma_start_transfer c s2 = (RET_OK, s3)"
    by (rule start_serves [OF dma_boot_idle copy_desc_plain ok slow])
  have "dma_history 0 dma_boot"
    by (rule dma_history.boot [of blank_dma RET_OK]) (simp_all add: blank_dma_def dma_boot_def dma_init_def thread_manager_init_def)
  then have "dma_history 0 s2" using st by (blast intro: dma_history.alloc dma_history.config)
  moreover have "dc_state (dma_ch s2 c) = DMA_CH_STATE_READY"
    using alloc_then_config [OF st(1,2), of "copy_desc 10 90 5"] dma_boot_idle st(3) by (auto simp: dma_idle_def)
  ultimately have "dma_history 1 s3" using dma_history.start [of 0 s2 c RET_OK s3] st(4) by simp
  from this dma_transfers_limited [OF this] show ?thesis by blast
qed

lemma dma_sync_copies_witness:
  "\<exists>s'. dma_transfer_sync (Some (copy_desc 10 90 5)) True dma_boot = Some (RET_OK, Some 5, s') \<and> ds_mem s' 92 = 12"
proof -
  have "count_list (replicate 10 (0 :: nat)) 0 = 10" by (simp add: numeral_eq_Suc)
  with dma_sync_copies [OF dma_boot_idle copy_desc_plain] dma_boot_fields show ?thesis by (auto simp: clock_slow_def copy_desc_def mem_write_def)
qed

section \<open>A transfer configured over a paused one\<close>

lemma old_thread_finishes:
  assumes "t < length (ts_pthreads s)" "snd (ts_pthreads s ! t) = INSIDE (DT_LOOP c src dst r)" "0 < r" "r \<le> 4096" "0 < src" "src + r \<le> dst"
    and "c < length (ds_channels s)" "dc_state (dma_ch s c) = DMA_CH_STATE_RUNNING" "dc_transferred (dma_ch s c) = 0"
  shows "\<exists>s'. run_batch dma_step (replicate 6 t) s = Some s' \<and> dc_state (dma_ch s' c) = DMA_CH_STATE_COMPLETE \<and>
     dc_desc (dma_ch s' c) = dc_desc (dma_ch s c) \<and> dc_transferred (dma_ch s' c) = r \<and>
     ds_mem s' = mem_write (ds_mem s) dst (mem_read (ds_mem s) src r) \<and> (\<forall>u. u \<noteq> t \<longrightarrow> ts_pthreads s' ! u = ts_pthreads s ! u)"
proof -
  have ch: "chunk r = r" using assms(4) by (simp add: chunk_def)
  have six: "replicate 6 t = [t, t, t, t, t, t]" by (simp add: numeral_eq_Suc)
  define s1 where "s1 = set_phase t (INSIDE (DT_COUNT c src dst r r)) s\<lparr>ds_mem := mem_write (ds_mem s) dst (mem_read (ds_mem s) src r)\<rparr>"
  have s1: "run_batch dma_step [t, t] s = Some s1"
    using assms ch by (simp add: run_batch_def dma_step_def thread_wrapper_def set_phase_def dma_thread_check_def dma_thread_copy_def s1_def)
  have f1: "t < length (ts_pthreads s1)" "snd (ts_pthreads s1 ! t) = INSIDE (DT_COUNT c src dst r r)" "c < length (ds_channels s1)"
    "dma_ch s1 c = dma_ch s c" "ds_mem s1 = mem_write (ds_mem s) dst (mem_read (ds_mem s) src r)" "u \<noteq> t \<Longrightarrow> ts_pthreads s1 ! u = ts_pthreads s ! u" for u
    using assms by (simp_all add: s1_def set_phase_def)
  define a where "a = (if dd_src_increment (dc_desc (dma_ch s c)) then src + r else src)"
  define b where "b = (if dd_dst_increment (dc_desc (dma_ch s c)) then dst + r else dst)"
  define s2 where "s2 = set_phase t (INSIDE (DT_LOOP c a b 0)) (upd_ch c (\<lambda>h. h\<lparr>dc_transferred := r\<rparr>) s1)"
  have s2: "run_batch dma_step [t, t] s1 = Some s2"
    using assms f1 ch by (simp add: run_batch_def dma_step_def thread_wrapper_def set_phase_def upd_ch_def u32_add_small Let_def s2_def a_def b_def)
  have f2: "t < length (ts_pthreads s2)" "snd (ts_pthreads s2 ! t) = INSIDE (DT_LOOP c a b 0)" "c < length (ds_channels s2)"
    "dma_ch s2 c = (dma_ch s c)\<lparr>dc_transferred := r\<rparr>" "ds_mem s2 = ds_mem s1" "u \<noteq> t \<Longrightarrow> ts_pthreads s2 ! u = ts_pthreads s ! u" for u
    using f1 by (simp_all add: s2_def set_phase_def upd_ch_def)
  define s2a where "s2a = set_phase t (INSIDE (DT_FINISH c)) s2"
  have f2a: "dma_step t s2 = Some s2a" "t < length (ts_pthreads s2a)" "snd (ts_pthreads s2a ! t) = INSIDE (DT_FINISH c)"
    "c < length (ds_channels s2a)" "dma_ch s2a c = dma_ch s2 c" "ds_mem s2a = ds_mem s1" "u \<noteq> t \<Longrightarrow> ts_pthreads s2a ! u = ts_pthreads s ! u" for u
    using f2 by (simp_all add: dma_step_def thread_wrapper_def s2a_def set_phase_def dma_thread_check_def)
  obtain x s3 where x: "dma_thread_finish c s2a = (x, s3)" by (metis prod.exhaust)
  have f3: "dc_state (dma_ch s3 c) = DMA_CH_STATE_COMPLETE" "dc_desc (dma_ch s3 c) = dc_desc (dma_ch s c)" "dc_transferred (dma_ch s3 c) = r"
    "ds_mem s3 = ds_mem s1" "ts_pthreads s3 = ts_pthreads s2a" "dc_transferred (dma_ch s3 c) = r"
    using x f2a(4,5,6) f2(4) assms(8) by (auto simp: dma_thread_finish_def upd_ch_def thread_timestamp_ms_def Let_def split: option.splits if_splits)
  define s4 where "s4 = set_phase t (case x of Inl p \<Rightarrow> INSIDE p | Inr v \<Rightarrow> LEAVING v) s3"
  have "dma_step t s2a = Some s4" using f2a(2,3) x by (simp add: dma_step_def thread_wrapper_def s4_def)
  with s1 s2 f2a(1) have "run_batch dma_step (replicate 6 t) s = Some s4" by (simp add: run_batch_def six)
      (auto split: bind_splits)
  moreover have "dma_ch s4 c = dma_ch s3 c" "ds_mem s4 = ds_mem s3" "u \<noteq> t \<Longrightarrow> ts_pthreads s4 ! u = ts_pthreads s ! u" for u
    using f2a(7) f3(5) by (simp_all add: s4_def set_phase_def)
  ultimately show ?thesis using f3 f1(5) by auto
qed

text \<open>C22: a paused channel accepts a new configuration and a start, although its thread still runs.  The old thread
  then resumes as if it were the new one: when it is done the channel reports the new transfer complete, with the
  bytes of the old one, while the new thread has not copied anything.\<close>

theorem dma_reconfigured_transfer_lost:
  assumes "dma_check c s = RET_OK" "length (ds_channels s) = DMA_MAX_CHANNELS" "can_start i s" "dc_state (dma_ch s c) = DMA_CH_STATE_PAUSED"
    and "t < length (ts_pthreads s)" "snd (ts_pthreads s ! t) = INSIDE (DT_LOOP c src dst r)" "0 < r" "r \<le> 4096"
    and "0 < src" "src + r \<le> dst"
  shows "\<exists>s1 s2 s3. dma_config_channel c (Some d) s = (RET_OK, s1) \<and> dma_start_transfer c s1 = (RET_OK, s2) \<and>
     run_batch dma_step ([length (ts_pthreads s), length (ts_pthreads s)] @ replicate 6 t) s2 = Some s3 \<and>
     dc_state (dma_ch s3 c) = DMA_CH_STATE_COMPLETE \<and> dc_desc (dma_ch s3 c) = d \<and> dc_transferred (dma_ch s3 c) = r \<and>
     ds_mem s3 = mem_write (ds_mem s) dst (mem_read (ds_mem s) src r) \<and>
     snd (ts_pthreads s3 ! length (ts_pthreads s)) = INSIDE (DT_LOOP c (dd_src_addr d) (dd_dst_addr d) (dd_length d))"
proof -
  define u where "u = length (ts_pthreads s)"
  have c: "c < length (ds_channels s)" "ds_initialized s" "dc_is_allocated (dma_ch s c)" "c < DMA_MAX_CHANNELS"
    using assms(1,2) by (auto simp: dma_check_def split: if_splits)
  define s1 where "s1 = upd_ch c (\<lambda>h. h\<lparr>dc_desc := d, dc_state := DMA_CH_STATE_READY, dc_transferred := 0\<rparr>) s"
  have cfg: "dma_config_channel c (Some d) s = (RET_OK, s1)" using c assms(4) by (simp add: dma_config_channel_def s1_def)
  have st1: "can_start i s1" using assms(3) by (simp add: can_start_def s1_def upd_ch_def find_free_slot_def find_thread_by_id_def)
  have "dma_check c s1 = RET_OK" "dc_state (dma_ch s1 c) = DMA_CH_STATE_READY" using c by (simp_all add: dma_check_def s1_def upd_ch_def)
  note start = start_ready(1) [OF this st1]
  define s2 where "s2 = started c i s1"
  have il: "i < length (ts_slots s)" by (rule can_start_slot [OF assms(3)])
  have f2: "t < length (ts_pthreads s2)" "u < length (ts_pthreads s2)" "t \<noteq> u" "snd (ts_pthreads s2 ! t) = INSIDE (DT_LOOP c src dst r)"
    "ts_pthreads s2 ! u = (i, ENTERING)" "c < length (ds_channels s2)" "dc_state (dma_ch s2 c) = DMA_CH_STATE_READY"
    "dc_desc (dma_ch s2 c) = d" "ds_mem s2 = ds_mem s" "tp_func (ts_slots s2 ! i) = Some DMA_TRANSFER_THREAD" "tp_arg (ts_slots s2 ! i) = c"
    "i < length (ts_slots s2)" "length (ts_pthreads s2) = Suc u"
    using assms(5,6) c il by (simp_all add: s2_def started_def s1_def upd_ch_def u_def nth_append fresh_thread_def)
  define s3 where "s3 = set_phase u (INSIDE (DT_LOOP c (dd_src_addr d) (dd_dst_addr d) (dd_length d))) (the (run_batch dma_step [u, u] s2))"
  define s3 where "s3 = the (run_batch dma_step [u, u] s2)"
  have s3: "run_batch dma_step [u, u] s2 = Some s3 \<and> t < length (ts_pthreads s3) \<and> snd (ts_pthreads s3 ! t) = INSIDE (DT_LOOP c src dst r) \<and>
     u < length (ts_pthreads s3) \<and> snd (ts_pthreads s3 ! u) = INSIDE (DT_LOOP c (dd_src_addr d) (dd_dst_addr d) (dd_length d)) \<and>
     c < length (ds_channels s3) \<and> dc_state (dma_ch s3 c) = DMA_CH_STATE_RUNNING \<and> dc_desc (dma_ch s3 c) = d \<and> ds_mem s3 = ds_mem s \<and>
     dc_transferred (dma_ch s3 c) = 0"
    using f2 by (simp add: s3_def run_batch_def dma_step_def thread_wrapper_def thread_wrapper_enter_def thread_timestamp_ms_def upd_thread_def
        set_phase_def upd_ch_def dma_thread_start_def Let_def)
  with old_thread_finishes [of t s3 c src dst r] assms(7-10) obtain s4 where s4: "run_batch dma_step (replicate 6 t) s3 = Some s4"
    "dc_state (dma_ch s4 c) = DMA_CH_STATE_COMPLETE" "dc_desc (dma_ch s4 c) = d" "dc_transferred (dma_ch s4 c) = r"
    "ds_mem s4 = mem_write (ds_mem s) dst (mem_read (ds_mem s) src r)" "ts_pthreads s4 ! u = ts_pthreads s3 ! u"
    using f2(3) by auto
  have "run_batch dma_step ([u, u] @ replicate 6 t) s2 = Some s4" using s3 s4(1) by (simp add: run_batch_def fold_option_append del: append.simps)
  with cfg start s3 s4 show ?thesis by (auto simp: s2_def u_def)
qed

lemma dma_reconfigured_transfer_lost_witness:
  "\<exists>s1 s2 s3 d. dma_config_channel 0 (Some (copy_desc 300 400 8)) s1 = (RET_OK, s2) \<and> dc_state (dma_ch s3 0) = DMA_CH_STATE_COMPLETE \<and>
     dc_desc (dma_ch s3 0) = copy_desc 300 400 8 \<and> ds_mem s3 400 = ds_mem s1 400 \<and> ds_mem s1 400 \<noteq> ds_mem s1 300"
proof -
  define ch where "ch = (zero_channel 0)\<lparr>dc_is_allocated := True, dc_state := DMA_CH_STATE_PAUSED, dc_thread_id := 1\<rparr>"
  define s where "s = dma_boot\<lparr>ds_channels := (ds_channels dma_boot)[0 := ch], ts_pthreads := [(31, INSIDE (DT_LOOP 0 100 200 8))]\<rparr>"
  have b: "ds_initialized dma_boot" "length (ds_channels dma_boot) = DMA_MAX_CHANNELS" "ds_mem dma_boot = (\<lambda>a. of_nat a)"
    by (simp_all add: dma_boot_def dma_init_def thread_manager_init_def blank_dma_def)
  obtain i where "can_start i dma_boot"
    using dma_boot_idle by (auto simp: can_start_def dma_idle_def dma_boot_def dma_init_def thread_manager_init_def blank_dma_def)
  then have i: "can_start i s" by (simp add: can_start_def s_def find_free_slot_def find_thread_by_id_def)
  have f: "dma_check 0 s = RET_OK" "length (ds_channels s) = DMA_MAX_CHANNELS" "dc_state (dma_ch s 0) = DMA_CH_STATE_PAUSED"
    "ts_pthreads s = [(31, INSIDE (DT_LOOP 0 100 200 8))]" "ds_mem s = (\<lambda>a. of_nat a)"
    using b by (simp_all add: s_def dma_check_def ch_def DMA_MAX_CHANNELS_def)
  from dma_reconfigured_transfer_lost [OF f(1,2) i f(3), of 0 100 200 8 "copy_desc 300 400 8"] f(4,5)
  show ?thesis by (force simp: mem_write_def)
qed

end
