(* ===== verification/Ufs.thy ===== *)
theory Ufs
  imports Ftl
begin

text \<open>
  The UFS target, \<open>src/protocol/ufs/ufs_target.c\<close> and \<open>include/protocol/ufs_target.h\<close>: SCSI commands over the
  FTL, with health data, power modes and retries.  The data buffer is the list of bytes that really is
  behind the pointer, \<open>None\<close> being \<open>NULL\<close>; the length a caller states is an argument of its own.  An outer
  \<open>None\<close> is undefined behaviour: an access outside of the buffer or through \<open>NULL\<close>, or what the FTL leaves undefined.
\<close>

section \<open>Data\<close>

definition UFS_SECTOR_SIZE :: nat where "UFS_SECTOR_SIZE = 512"
definition UFS_MAX_RETRY_COUNT :: nat where "UFS_MAX_RETRY_COUNT = 3"
definition UFS_TEMP_WARNING_THRESHOLD :: int where "UFS_TEMP_WARNING_THRESHOLD = 70"
definition UFS_TEMP_CRITICAL_THRESHOLD :: int where "UFS_TEMP_CRITICAL_THRESHOLD = 85"
definition UFS_LIFETIME_WARNING_PERCENT :: u32 where "UFS_LIFETIME_WARNING_PERCENT = 80"

abbreviation (input) UFS_STATUS_GOOD :: u8 where "UFS_STATUS_GOOD \<equiv> 0x00"
abbreviation (input) UFS_STATUS_CHECK_CONDITION :: u8 where "UFS_STATUS_CHECK_CONDITION \<equiv> 0x02"
abbreviation (input) SCSI_OP_TEST_UNIT_READY :: u8 where "SCSI_OP_TEST_UNIT_READY \<equiv> 0x00"
abbreviation (input) SCSI_OP_INQUIRY :: u8 where "SCSI_OP_INQUIRY \<equiv> 0x12"
abbreviation (input) SCSI_OP_READ_10 :: u8 where "SCSI_OP_READ_10 \<equiv> 0x28"
abbreviation (input) SCSI_OP_WRITE_10 :: u8 where "SCSI_OP_WRITE_10 \<equiv> 0x2A"
abbreviation (input) SCSI_OP_READ_CAPACITY_10 :: u8 where "SCSI_OP_READ_CAPACITY_10 \<equiv> 0x25"
abbreviation (input) SCSI_OP_SYNCHRONIZE_CACHE :: u8 where "SCSI_OP_SYNCHRONIZE_CACHE \<equiv> 0x35"
abbreviation (input) SCSI_OP_UNMAP :: u8 where "SCSI_OP_UNMAP \<equiv> 0x42"

text \<open>The parts of a UPIU header that the target writes; the others stay as the caller set them.\<close>

record upiu_header =
  uh_trans_type :: u8
  uh_flags :: u8
  uh_lun :: u8
  uh_task_id :: u8
  uh_iid :: u8
  uh_data_segment_len :: u32
  uh_scsi_status :: u8
  uh_service_code :: u8

record ufs_cmd_request =
  ur_header :: upiu_header
  ur_cdb :: "u8 list"

record ufs_cmd_response =
  up_header :: upiu_header
  up_sense_data :: "u8 list"

text \<open>Power modes are the values of the enumeration, since a caller can pass others.\<close>

abbreviation (input) UFS_POWER_MODE_ACTIVE :: nat where "UFS_POWER_MODE_ACTIVE \<equiv> 0"
abbreviation (input) UFS_POWER_MODE_IDLE :: nat where "UFS_POWER_MODE_IDLE \<equiv> 1"
abbreviation (input) UFS_POWER_MODE_SLEEP :: nat where "UFS_POWER_MODE_SLEEP \<equiv> 2"
abbreviation (input) UFS_POWER_MODE_POWER_DOWN :: nat where "UFS_POWER_MODE_POWER_DOWN \<equiv> 3"

record ufs_health_info =
  uf_temperature :: int
  uf_lifetime_used_percent :: u32
  uf_total_erase_count :: u32
  uf_power_on_count :: u32
  uf_power_on_minutes :: u32
  uf_unsafe_shutdown_count :: u32
  uf_temperature_warning :: bool
  uf_lifetime_warning :: bool
  uf_write_protected :: bool

record ufs_error_stats =
  ue_total_cmd_count :: u32
  ue_success_count :: u32
  ue_retry_count :: u32
  ue_failure_count :: u32
  ue_media_error_count :: u32
  ue_timeout_error_count :: u32

record ufs_sys =
  us_initialized :: bool
  us_power_mode :: nat
  us_health :: ufs_health_info
  us_error_stats :: ufs_error_stats
  us_ftl :: ftl_dev

definition zero_error_stats :: ufs_error_stats where
  "zero_error_stats = \<lparr>ue_total_cmd_count = 0, ue_success_count = 0, ue_retry_count = 0, ue_failure_count = 0,
     ue_media_error_count = 0, ue_timeout_error_count = 0\<rparr>"

text \<open>The variables of the module as the program starts.\<close>

definition ufs_start :: "ftl_dev \<Rightarrow> ufs_sys" where
  "ufs_start f = \<lparr>us_initialized = False, us_power_mode = UFS_POWER_MODE_ACTIVE,
     us_health = \<lparr>uf_temperature = 25, uf_lifetime_used_percent = 0, uf_total_erase_count = 0, uf_power_on_count = 0,
       uf_power_on_minutes = 0, uf_unsafe_shutdown_count = 0, uf_temperature_warning = False, uf_lifetime_warning = False,
       uf_write_protected = False\<rparr>,
     us_error_stats = zero_error_stats, us_ftl = f\<rparr>"

definition ufs_inquiry :: "u8 list" where
  "ufs_inquiry = [0x00, 0x00, 0x06, 0x02, 31, 0, 0, 0] @ map of_char ''FTLFW  '' @ [0] @ map of_char ''UFS-SSD-SIM   '' @ [0, 0] @
     map of_char ''1.0 ''"

text \<open>What a command gives back.\<close>

type_synonym ufs_result = "ret_code \<times> ufs_cmd_response \<times> u8 list option \<times> ufs_sys"

section \<open>Parts of commands\<close>

definition cdb_get_lba_10 :: "u8 list \<Rightarrow> u32" where
  "cdb_get_lba_10 cdb = push_bit 24 (ucast (cdb ! 2)) OR push_bit 16 (ucast (cdb ! 3)) OR push_bit 8 (ucast (cdb ! 4)) OR ucast (cdb ! 5)"

definition cdb_get_length_10 :: "u8 list \<Rightarrow> u16" where
  "cdb_get_length_10 cdb = push_bit 8 (ucast (cdb ! 7)) OR ucast (cdb ! 8)"

definition set_response_good :: "ufs_cmd_response \<Rightarrow> ufs_cmd_response" where
  "set_response_good p = p\<lparr>up_header := (up_header p)\<lparr>uh_scsi_status := UFS_STATUS_GOOD\<rparr>, up_sense_data := replicate 18 0\<rparr>"

definition set_response_check_condition :: "u8 \<Rightarrow> u8 \<Rightarrow> u8 \<Rightarrow> ufs_cmd_response \<Rightarrow> ufs_cmd_response" where
  "set_response_check_condition sense_key asc ascq p =
     p\<lparr>up_header := (up_header p)\<lparr>uh_scsi_status := UFS_STATUS_CHECK_CONDITION\<rparr>,
       up_sense_data := (replicate 18 0)[0 := 0x70, 2 := sense_key, 7 := 10, 12 := asc, 13 := ascq]\<rparr>"

definition set_segment_len :: "nat \<Rightarrow> ufs_cmd_response \<Rightarrow> ufs_cmd_response" where
  "set_segment_len n p = p\<lparr>up_header := (up_header p)\<lparr>uh_data_segment_len := of_nat n\<rparr>\<rparr>"

text \<open>Writing and reading at an offset of the buffer.\<close>

definition buf_put :: "nat \<Rightarrow> u8 list \<Rightarrow> u8 list option \<Rightarrow> u8 list option option" where
  "buf_put off bs data =
     (case data of
        None \<Rightarrow> None
      | Some b \<Rightarrow> if off + length bs \<le> length b then Some (Some (take off b @ bs @ drop (off + length bs) b)) else None)"

definition buf_page :: "nat \<Rightarrow> u8 list \<Rightarrow> u8 list option" where
  "buf_page off b = (if off + NAND_PAGE_SIZE \<le> length b then Some (take NAND_PAGE_SIZE (drop off b)) else None)"

section \<open>Commands\<close>

definition handle_test_unit_ready :: "ufs_cmd_response \<Rightarrow> ufs_sys \<Rightarrow> ret_code \<times> ufs_cmd_response" where
  "handle_test_unit_ready p s =
     (RET_OK, if us_initialized s then set_response_good p else set_response_check_condition 0x02 0x04 0x01 p)"

definition handle_inquiry :: "ufs_cmd_response \<Rightarrow> u8 list option \<Rightarrow> nat \<Rightarrow> ufs_sys \<Rightarrow> ufs_result option" where
  "handle_inquiry p data data_len s =
     (let copy_len = (if length ufs_inquiry > data_len then data_len else length ufs_inquiry) in
      do {
        data \<leftarrow> buf_put 0 (take copy_len ufs_inquiry) data;
        Some (RET_OK, set_response_good (set_segment_len copy_len p), data, s)
      })"

definition capacity_bytes :: "u64 \<Rightarrow> u8 list" where
  "capacity_bytes total_sectors =
     (let last_lba = (ucast (total_sectors - 1) :: u32) in
      [ucast (drop_bit 24 last_lba), ucast (drop_bit 16 last_lba), ucast (drop_bit 8 last_lba), ucast last_lba, 0, 0,
       of_nat (UFS_SECTOR_SIZE div 256), of_nat UFS_SECTOR_SIZE])"

definition total_sectors_of :: "ftl_stats \<Rightarrow> u64" where
  "total_sectors_of st = of_nat (fst_total_lpns st) * of_nat (4096 div UFS_SECTOR_SIZE)"

definition handle_read_capacity :: "ufs_cmd_response \<Rightarrow> u8 list option \<Rightarrow> nat \<Rightarrow> ufs_sys \<Rightarrow> ufs_result option" where
  "handle_read_capacity p data data_len s =
     (case ftl_get_stats (us_ftl s) True of
        (RET_OK, Some stats) \<Rightarrow>
          if 8 \<le> data_len
          then do {
            data \<leftarrow> buf_put 0 (capacity_bytes (total_sectors_of stats)) data;
            Some (RET_OK, set_response_good (set_segment_len 8 p), data, s)
          }
          else Some (RET_OK, set_response_good p, data, s)
      | _ \<Rightarrow> Some (RET_ERR_INTERNAL, set_response_check_condition 0x04 0x00 0x00 p, data, s))"

text \<open>The first page, the number of bytes and the number of pages of a read or write.\<close>

definition rw_lpn :: "u8 list \<Rightarrow> nat" where
  "rw_lpn cdb = unat (cdb_get_lba_10 cdb) div 8"

definition rw_bytes :: "u8 list \<Rightarrow> nat" where
  "rw_bytes cdb = unat (cdb_get_length_10 cdb) * UFS_SECTOR_SIZE"

definition rw_pages :: "u8 list \<Rightarrow> nat" where
  "rw_pages cdb = (rw_bytes cdb + 4095) div 4096"

text \<open>
  The pointer handed to the FTL for page \<open>i\<close> is not \<open>NULL\<close> unless the buffer is and \<open>i\<close> is 0; a larger offset
  from \<open>NULL\<close> is undefined.
\<close>

definition ufs_read_body :: "nat \<Rightarrow> nat \<Rightarrow> u8 list option \<times> ufs_sys \<Rightarrow> (ret_code, u8 list option \<times> ufs_sys) ctl option" where
  "ufs_read_body lpn i = (\<lambda>(data, s).
     if data = None \<and> 0 < i then None
     else
       let (ret, out, f) = ftl_read (us_ftl s) (u32_add lpn i) (data \<noteq> None); s = s\<lparr>us_ftl := f\<rparr> in
       do {
         data \<leftarrow> (case out of Some bs \<Rightarrow> buf_put (i * 4096) bs data | None \<Rightarrow> Some data);
         Some (if ret \<noteq> RET_OK then Leave ret (data, s) else Next (data, s))
       })"

definition handle_read_10 :: "ufs_cmd_request \<Rightarrow> ufs_cmd_response \<Rightarrow> u8 list option \<Rightarrow> nat \<Rightarrow> ufs_sys \<Rightarrow> ufs_result option" where
  "handle_read_10 q p data data_len s =
     (let cdb = ur_cdb q in
      if data_len < rw_bytes cdb then Some (RET_ERR_PARAM, set_response_check_condition 0x05 0x20 0x00 p, data, s)
      else do {
        r \<leftarrow> for_each [0..<rw_pages cdb] (ufs_read_body (rw_lpn cdb)) (data, s);
        Some (case r of
                Leave ret (data, s) \<Rightarrow> (ret, set_response_check_condition 0x03 0x11 0x00 p, data, s)
              | Next (data, s) \<Rightarrow> (RET_OK, set_response_good (set_segment_len (rw_bytes cdb) p), data, s))
      })"

definition ufs_write_body :: "nat \<Rightarrow> u8 list option \<Rightarrow> nat \<Rightarrow> ufs_sys \<Rightarrow> (ret_code, ufs_sys) ctl option" where
  "ufs_write_body lpn data i s =
     do {
       page \<leftarrow> (case data of None \<Rightarrow> if i = 0 then Some None else None | Some b \<Rightarrow> map_option Some (buf_page (i * 4096) b));
       (ret, f) \<leftarrow> ftl_write (us_ftl s) (u32_add lpn i) page;
       Some (if ret \<noteq> RET_OK then Leave ret (s\<lparr>us_ftl := f\<rparr>) else Next (s\<lparr>us_ftl := f\<rparr>))
     }"

definition handle_write_10 :: "ufs_cmd_request \<Rightarrow> ufs_cmd_response \<Rightarrow> u8 list option \<Rightarrow> nat \<Rightarrow> ufs_sys \<Rightarrow> ufs_result option" where
  "handle_write_10 q p data data_len s =
     (let cdb = ur_cdb q in
      if uf_write_protected (us_health s) then Some (RET_OK, set_response_check_condition 0x07 0x27 0x00 p, data, s)
      else if data_len < rw_bytes cdb then Some (RET_ERR_PARAM, set_response_check_condition 0x05 0x20 0x00 p, data, s)
      else do {
        r \<leftarrow> for_each [0..<rw_pages cdb] (ufs_write_body (rw_lpn cdb) data) s;
        Some (case r of
                Leave ret s \<Rightarrow> (ret, set_response_check_condition 0x03 0x0C 0x00 p, data, s)
              | Next s \<Rightarrow> (RET_OK, set_response_good p, data, s))
      })"

definition handle_synchronize_cache :: "ufs_cmd_response \<Rightarrow> ret_code \<times> ufs_cmd_response" where
  "handle_synchronize_cache p = (RET_OK, set_response_good p)"

definition handle_unmap :: "ufs_cmd_response \<Rightarrow> ret_code \<times> ufs_cmd_response" where
  "handle_unmap p = (RET_OK, set_response_good p)"

section \<open>The interface\<close>

definition ufs_target_init :: "ufs_sys \<Rightarrow> ret_code \<times> ufs_sys" where
  "ufs_target_init s = (if us_initialized s then (RET_OK, s) else (RET_OK, s\<lparr>us_initialized := True\<rparr>))"

definition ufs_target_deinit :: "ufs_sys \<Rightarrow> ufs_sys" where
  "ufs_target_deinit s = s\<lparr>us_initialized := False\<rparr>"

definition ufs_dispatch :: "ufs_cmd_request \<Rightarrow> ufs_cmd_response \<Rightarrow> u8 list option \<Rightarrow> nat \<Rightarrow> ufs_sys \<Rightarrow> ufs_result option" where
  "ufs_dispatch q p data data_len s =
     (let op = ur_cdb q ! 0 in
      if op = SCSI_OP_TEST_UNIT_READY then (case handle_test_unit_ready p s of (ret, p) \<Rightarrow> Some (ret, p, data, s))
      else if op = SCSI_OP_INQUIRY then handle_inquiry p data data_len s
      else if op = SCSI_OP_READ_CAPACITY_10 then handle_read_capacity p data data_len s
      else if op = SCSI_OP_READ_10 then handle_read_10 q p data data_len s
      else if op = SCSI_OP_WRITE_10 then handle_write_10 q p data data_len s
      else if op = SCSI_OP_SYNCHRONIZE_CACHE then (case handle_synchronize_cache p of (ret, p) \<Rightarrow> Some (ret, p, data, s))
      else if op = SCSI_OP_UNMAP then (case handle_unmap p of (ret, p) \<Rightarrow> Some (ret, p, data, s))
      else Some (RET_ERR_PARAM, set_response_check_condition 0x05 0x20 0x00 p, data, s))"

definition ufs_target_process_cmd :: "ufs_cmd_request option \<Rightarrow> ufs_cmd_response option \<Rightarrow> u8 list option \<Rightarrow> nat \<Rightarrow> ufs_sys \<Rightarrow>
    (ret_code \<times> ufs_cmd_response option \<times> u8 list option \<times> ufs_sys) option" where
  "ufs_target_process_cmd request response data data_len s =
     (case (request, response) of
        (Some q, Some p) \<Rightarrow> do { (ret, p, data, s) \<leftarrow> ufs_dispatch q p data data_len s; Some (ret, Some p, data, s) }
      | _ \<Rightarrow> Some (RET_ERR_PARAM, response, data, s))"

definition ufs_target_get_capacity :: "bool \<Rightarrow> bool \<Rightarrow> ufs_sys \<Rightarrow> ret_code \<times> (u64 \<times> nat) option" where
  "ufs_target_get_capacity has_total has_size s =
     (if \<not> has_total \<or> \<not> has_size then (RET_ERR_PARAM, None)
      else (case ftl_get_stats (us_ftl s) True of
              (RET_OK, Some stats) \<Rightarrow> (RET_OK, Some (total_sectors_of stats, UFS_SECTOR_SIZE))
            | _ \<Rightarrow> (RET_ERR_INTERNAL, None)))"

definition ufs_target_set_power_mode :: "nat \<Rightarrow> ufs_sys \<Rightarrow> ret_code \<times> ufs_sys" where
  "ufs_target_set_power_mode mode s =
     (if \<not> us_initialized s then (RET_ERR_NOT_INIT, s)
      else
        let s = s\<lparr>us_power_mode := mode\<rparr> in
        if mode \<in> {UFS_POWER_MODE_ACTIVE, UFS_POWER_MODE_IDLE, UFS_POWER_MODE_SLEEP} then (RET_OK, s)
        else if mode = UFS_POWER_MODE_POWER_DOWN then (RET_OK, s\<lparr>us_initialized := False\<rparr>)
        else (RET_ERR_PARAM, s))"

definition ufs_target_get_power_mode :: "ufs_sys \<Rightarrow> nat" where
  "ufs_target_get_power_mode s = us_power_mode s"

definition ufs_target_get_health_info :: "bool \<Rightarrow> ufs_sys \<Rightarrow> ret_code \<times> ufs_health_info option \<times> ufs_sys" where
  "ufs_target_get_health_info has_info s =
     (if \<not> has_info then (RET_ERR_PARAM, None, s)
      else let s = s\<lparr>us_health := (us_health s)\<lparr>uf_total_erase_count := 0\<rparr>\<rparr> in (RET_OK, Some (us_health s), s))"

definition ufs_target_get_error_stats :: "bool \<Rightarrow> ufs_sys \<Rightarrow> ret_code \<times> ufs_error_stats option" where
  "ufs_target_get_error_stats has_stats s = (if \<not> has_stats then (RET_ERR_PARAM, None) else (RET_OK, Some (us_error_stats s)))"

definition ufs_target_reset_error_stats :: "ufs_sys \<Rightarrow> ret_code \<times> ufs_sys" where
  "ufs_target_reset_error_stats s = (RET_OK, s\<lparr>us_error_stats := zero_error_stats\<rparr>)"

definition ufs_target_set_write_protect :: "bool \<Rightarrow> ufs_sys \<Rightarrow> ret_code \<times> ufs_sys" where
  "ufs_target_set_write_protect enable s = (RET_OK, s\<lparr>us_health := (us_health s)\<lparr>uf_write_protected := enable\<rparr>\<rparr>)"

definition ufs_target_get_write_protect :: "ufs_sys \<Rightarrow> bool" where
  "ufs_target_get_write_protect s = uf_write_protected (us_health s)"

definition ufs_target_trigger_background_ops :: "ufs_sys \<Rightarrow> ret_code" where
  "ufs_target_trigger_background_ops s = (if \<not> us_initialized s then RET_ERR_NOT_INIT else RET_OK)"

definition ufs_target_health_monitor_process :: "ufs_sys \<Rightarrow> ret_code \<times> ufs_sys" where
  "ufs_target_health_monitor_process s =
     (let h = us_health s; h = h\<lparr>uf_power_on_minutes := uf_power_on_minutes h + 1\<rparr>;
          h = (if UFS_TEMP_CRITICAL_THRESHOLD \<le> uf_temperature h then h\<lparr>uf_temperature_warning := True\<rparr>
               else if UFS_TEMP_WARNING_THRESHOLD \<le> uf_temperature h then h\<lparr>uf_temperature_warning := True\<rparr>
               else h\<lparr>uf_temperature_warning := False\<rparr>);
          h = (if UFS_LIFETIME_WARNING_PERCENT \<le> uf_lifetime_used_percent h then h\<lparr>uf_lifetime_warning := True\<rparr> else h) in
      (RET_OK, s\<lparr>us_health := h\<rparr>))"

definition upd_ufs_stats :: "(ufs_error_stats \<Rightarrow> ufs_error_stats) \<Rightarrow> ufs_sys \<Rightarrow> ufs_sys" where
  "upd_ufs_stats f s = s\<lparr>us_error_stats := f (us_error_stats s)\<rparr>"

text \<open>The rounds of the retry loop, by the number that is left; a response that is \<open>NULL\<close> is followed after a failure.\<close>

fun retry_rounds :: "nat \<Rightarrow> ufs_cmd_request option \<Rightarrow> ufs_cmd_response option \<Rightarrow> u8 list option \<Rightarrow> nat \<Rightarrow> ufs_sys \<Rightarrow>
    (ret_code \<times> ufs_cmd_response option \<times> u8 list option \<times> ufs_sys) option" where
  "retry_rounds n request response data data_len s =
     do {
       (ret, response, data, s) \<leftarrow> ufs_target_process_cmd request response data data_len s;
       p \<leftarrow> response;
       let status = uh_scsi_status (up_header p);
       if ret = RET_OK \<and> status = UFS_STATUS_GOOD
       then Some (RET_OK, response, data, upd_ufs_stats (\<lambda>e. e\<lparr>ue_success_count := ue_success_count e + 1\<rparr>) s)
       else
         let s' = (if status = UFS_STATUS_CHECK_CONDITION then upd_ufs_stats (\<lambda>e. e\<lparr>ue_retry_count := ue_retry_count e + 1\<rparr>) s else s) in
         if status = UFS_STATUS_CHECK_CONDITION \<and> 1 < n then retry_rounds (n - 1) request response data data_len s'
         else Some (ret, response, data, upd_ufs_stats (\<lambda>e. e\<lparr>ue_failure_count := ue_failure_count e + 1\<rparr>) s')
     }"

declare retry_rounds.simps [simp del]

definition ufs_target_process_cmd_with_retry :: "ufs_cmd_request option \<Rightarrow> ufs_cmd_response option \<Rightarrow> u8 list option \<Rightarrow> nat \<Rightarrow> ufs_sys \<Rightarrow>
    (ret_code \<times> ufs_cmd_response option \<times> u8 list option \<times> ufs_sys) option" where
  "ufs_target_process_cmd_with_retry = retry_rounds UFS_MAX_RETRY_COUNT"

end
