(* ===== verification/UfsFlow.thy ===== *)
theory UfsFlow
  imports Ufs FtlHost
begin

text \<open>
  The UFS target over the FTL: data of whole pages goes through it, a transfer that ends within a page leaves the
  caller's buffer, and the retry loop.
\<close>

section \<open>Pages of a buffer\<close>

definition buffer_page :: "u8 list \<Rightarrow> nat \<Rightarrow> u8 list" where
  "buffer_page b i = take 4096 (drop (i * 4096) b)"

lemma buf_page_fits: "Suc i * 4096 \<le> length b \<Longrightarrow> buf_page (i * 4096) b = Some (buffer_page b i)"
  by (simp add: buf_page_def buffer_page_def NAND_PAGE_SIZE_def)

lemma length_buffer_page: "Suc i * 4096 \<le> length b \<Longrightarrow> length (buffer_page b i) = NAND_PAGE_SIZE"
  by (simp add: buffer_page_def NAND_PAGE_SIZE_def)

lemma take_pages:
  assumes "n * 4096 \<le> length a" "n * 4096 \<le> length b" "\<And>i. i < n \<Longrightarrow> buffer_page a i = buffer_page b i"
  shows "take (n * 4096) a = take (n * 4096) b"
  using assms
proof (induction n)
  case (Suc n)
  have "take (Suc n * 4096) c = take (n * 4096) c @ buffer_page c n" for c
    by (simp add: buffer_page_def take_add [symmetric] add.commute)
  with Suc show ?case by simp
qed simp

lemma buf_put_fits:
  "off + length bs \<le> length b \<Longrightarrow> buf_put off bs (Some b) = Some (Some (take off b @ bs @ drop (off + length bs) b))"
  by (simp add: buf_put_def)

section \<open>Whole pages\<close>

definition ufs_writes :: "u8 list \<Rightarrow> u8 list \<Rightarrow> (nat \<times> u8 list) list" where
  "ufs_writes cdb b = map (\<lambda>i. (rw_lpn cdb + i, buffer_page b i)) [0..<rw_pages cdb]"

lemma ufs_write_loop:
  assumes "\<And>i. i \<in> set is \<Longrightarrow> lpn + i < FTL_TOTAL_LPNS \<and> Suc i * 4096 \<le> length b"
    and "write_all ftl_wr (us_ftl s) (map (\<lambda>i. (lpn + i, buffer_page b i)) is) = Some f"
  shows "for_each is (ufs_write_body lpn (Some b)) s = Some (Next (s\<lparr>us_ftl := f\<rparr>))"
  using assms
proof (induction "is" arbitrary: s)
  case (Cons i "is")
  then have i: "lpn + i < FTL_TOTAL_LPNS" "Suc i * 4096 \<le> length b" by simp_all
  then have add: "u32_add lpn i = lpn + i" by (simp add: u32_add_small ftl_bounds)
  from Cons.prems(2) obtain f1 where f1: "ftl_wr (us_ftl s) (lpn + i) (buffer_page b i) = Some f1"
    "write_all ftl_wr f1 (map (\<lambda>i. (lpn + i, buffer_page b i)) is) = Some f" by (auto split: bind_splits)
  from f1(1) have "ftl_write (us_ftl s) (lpn + i) (Some (buffer_page b i)) = Some (RET_OK, f1)"
    by (auto simp: ftl_wr_def split: if_splits option.splits)
  then have "ufs_write_body lpn (Some b) i s = Some (Next (s\<lparr>us_ftl := f1\<rparr>))"
    using buf_page_fits [OF i(2)] by (simp add: ufs_write_body_def add)
  with Cons.IH [of "s\<lparr>us_ftl := f1\<rparr>"] Cons.prems(1) f1(2) show ?case by simp
qed simp

lemma ufs_written_pages:
  assumes "ftl_ready s" "write_all ftl_wr s (ufs_writes cdb b) = Some f" "i < rw_pages cdb"
  shows "logical f (rw_lpn cdb + i) = Some (buffer_page b i)"
  using range_written [OF assms(1) assms(2) [unfolded ufs_writes_def] assms(3)] .

lemma put_page:
  assumes "Suc n * 4096 \<le> length b" "length p = 4096"
  shows "length (take (n * 4096) b @ p @ drop (n * 4096 + 4096) b) = length b"
    and "buffer_page (take (n * 4096) b @ p @ drop (n * 4096 + 4096) b) n = p"
    and "i < n \<Longrightarrow> buffer_page (take (n * 4096) b @ p @ drop (n * 4096 + 4096) b) i = buffer_page b i"
    and "drop (Suc n * 4096) (take (n * 4096) b @ p @ drop (n * 4096 + 4096) b) = drop (Suc n * 4096) b"
proof -
  show "length (take (n * 4096) b @ p @ drop (n * 4096 + 4096) b) = length b" using assms by simp
  have m: "min (length b) (n * 4096) = n * 4096" using assms(1) by simp
  show "buffer_page (take (n * 4096) b @ p @ drop (n * 4096 + 4096) b) n = p"
    using assms by (simp add: buffer_page_def m)
  show "drop (Suc n * 4096) (take (n * 4096) b @ p @ drop (n * 4096 + 4096) b) = drop (Suc n * 4096) b"
    using assms by (simp add: m add.commute)
  assume "i < n"
  then have "Suc i * 4096 \<le> n * 4096" by (intro mult_le_mono1) simp
  then show "buffer_page (take (n * 4096) b @ p @ drop (n * 4096 + 4096) b) i = buffer_page b i"
    using assms(1) by (simp add: buffer_page_def m drop_take)
qed

lemma ufs_read_loop:
  assumes inv: "ftl_inv (us_ftl s)" and n: "lpn + n \<le> FTL_TOTAL_LPNS" and len: "n * 4096 \<le> length b"
    and P: "\<And>i. i < n \<Longrightarrow> logical (us_ftl s) (lpn + i) = Some (P i) \<and> length (P i) = 4096"
  shows "\<exists>b' f. for_each [0..<n] (ufs_read_body lpn) (Some b, s) = Some (Next (Some b', s\<lparr>us_ftl := f\<rparr>)) \<and> ftl_inv f \<and>
     logical f = logical (us_ftl s) \<and> length b' = length b \<and> (\<forall>i<n. buffer_page b' i = P i) \<and> drop (n * 4096) b' = drop (n * 4096) b"
  using n len P
proof (induction n)
  case 0
  show ?case using inv by (auto intro!: exI [of _ b] exI [of _ "us_ftl s"])
next
  case (Suc n)
  then obtain b1 f1 where s1: "for_each [0..<n] (ufs_read_body lpn) (Some b, s) = Some (Next (Some b1, s\<lparr>us_ftl := f1\<rparr>))" "ftl_inv f1"
    "logical f1 = logical (us_ftl s)" "length b1 = length b" "\<forall>i<n. buffer_page b1 i = P i" "drop (n * 4096) b1 = drop (n * 4096) b"
    by auto
  have lpn: "lpn + n < FTL_TOTAL_LPNS" using Suc.prems(1) by simp
  then have add: "u32_add lpn n = lpn + n" by (simp add: u32_add_small ftl_bounds)
  have Pn: "logical (us_ftl s) (lpn + n) = Some (P n)" "length (P n) = 4096" using Suc.prems(3) [of n] by simp_all
  obtain f where f: "ftl_read f1 (lpn + n) True = (RET_OK, Some (P n), f)" "ftl_inv f" "logical f = logical f1"
    using ftl_read_facts [OF s1(2) lpn] Pn s1(3) by (auto split: prod.splits)
  have fit: "Suc n * 4096 \<le> length b1" using Suc.prems(2) s1(4) by simp
  define b2 where "b2 = take (n * 4096) b1 @ P n @ drop (n * 4096 + 4096) b1"
  note put = put_page [OF fit Pn(2), folded b2_def]
  have "buf_put (n * 4096) (P n) (Some b1) = Some (Some b2)"
    using fit by (simp add: buf_put_fits b2_def Pn(2))
  then have "ufs_read_body lpn n (Some b1, s\<lparr>us_ftl := f1\<rparr>) = Some (Next (Some b2, s\<lparr>us_ftl := f\<rparr>))"
    by (simp add: ufs_read_body_def add f(1))
  with s1(1) have "for_each [0..<Suc n] (ufs_read_body lpn) (Some b, s) = Some (Next (Some b2, s\<lparr>us_ftl := f\<rparr>))"
    by (simp add: for_each_append)
  moreover have "buffer_page b2 i = P i" if "i < Suc n" for i
    using that put(2,3) s1(5) by (cases "i = n") auto
  moreover have "drop (Suc n * 4096) b2 = drop (Suc n * 4096) b"
    using put(4) arg_cong [OF s1(6), of "drop 4096"] by (simp add: add.commute)
  ultimately show ?case using f s1(3,4) put(1) by auto
qed

lemma rw_pages_whole: "rw_bytes cdb = n * 4096 \<Longrightarrow> rw_pages cdb = n"
  by (simp add: rw_pages_def)

lemma ufs_write_10_stores:
  assumes "rw_bytes (ur_cdb w) = n * 4096" "n * 4096 \<le> length b" "n * 4096 \<le> data_len" "rw_lpn (ur_cdb w) + n \<le> FTL_TOTAL_LPNS"
    and "\<not> uf_write_protected (us_health s)" "write_all ftl_wr (us_ftl s) (ufs_writes (ur_cdb w) b) = Some f"
  shows "handle_write_10 w p (Some b) data_len s = Some (RET_OK, set_response_good p, Some b, s\<lparr>us_ftl := f\<rparr>)"
proof -
  have "Suc i * 4096 \<le> length b" if "i < n" for i
    using that mult_le_mono1 [of "Suc i" n 4096] assms(2) by simp
  then have "for_each [0..<n] (ufs_write_body (rw_lpn (ur_cdb w)) (Some b)) s = Some (Next (s\<lparr>us_ftl := f\<rparr>))"
    by (intro ufs_write_loop) (use assms(4,6) in \<open>auto simp: ufs_writes_def rw_pages_whole [OF assms(1)]\<close>)
  then show ?thesis using assms(1,3,5) by (simp add: handle_write_10_def rw_pages_whole Let_def)
qed

definition ufs_good :: "ufs_cmd_response \<Rightarrow> bool" where
  "ufs_good p \<longleftrightarrow> uh_scsi_status (up_header p) = UFS_STATUS_GOOD \<and> up_sense_data p = replicate 18 0"

lemma ufs_good_set [simp]: "ufs_good (set_response_good p)"
  by (simp add: ufs_good_def set_response_good_def)

text \<open>C23: a WRITE(10) of whole pages followed by a READ(10) of the same blocks returns the bytes written, through
  the FTL and the flash: both commands report success, the read fills exactly the bytes asked for and leaves the
  rest of its buffer alone.\<close>

theorem ufs_write_then_read:
  assumes "ur_cdb w ! 0 = SCSI_OP_WRITE_10" "ur_cdb r ! 0 = SCSI_OP_READ_10"
    and "rw_lpn (ur_cdb r) = rw_lpn (ur_cdb w)" "rw_bytes (ur_cdb r) = n * 4096" "rw_bytes (ur_cdb w) = n * 4096"
    and "rw_lpn (ur_cdb w) + n \<le> FTL_TOTAL_LPNS"
    and "n * 4096 \<le> length b" "n * 4096 \<le> wlen" "n * 4096 \<le> length b2" "n * 4096 \<le> rlen"
    and "\<not> uf_write_protected (us_health s)" "ftl_ready (us_ftl s)"
    and "write_all ftl_wr (us_ftl s) (ufs_writes (ur_cdb w) b) = Some f"
  shows "\<exists>p1 p2 b3 f2. ufs_target_process_cmd (Some w) (Some p) (Some b) wlen s = Some (RET_OK, Some p1, Some b, s\<lparr>us_ftl := f\<rparr>) \<and>
     ufs_good p1 \<and>
     ufs_target_process_cmd (Some r) (Some q) (Some b2) rlen (s\<lparr>us_ftl := f\<rparr>) = Some (RET_OK, Some p2, Some b3, s\<lparr>us_ftl := f2\<rparr>) \<and>
     ufs_good p2 \<and> uh_data_segment_len (up_header p2) = of_nat (n * 4096) \<and>
     take (n * 4096) b3 = take (n * 4096) b \<and> drop (n * 4096) b3 = drop (n * 4096) b2 \<and> length b3 = length b2"
proof -
  let ?s = "s\<lparr>us_ftl := f\<rparr>"
  have pages: "rw_pages (ur_cdb w) = n" by (rule rw_pages_whole [OF assms(5)])
  have inv: "ftl_inv (us_ftl ?s)" using host.write_all_ok [OF assms(12,13)] by (simp add: ftl_ready_def)
  have fits: "Suc i * 4096 \<le> length b" if "i < n" for i
    using that mult_le_mono1 [of "Suc i" n 4096] assms(7) by simp
  have P: "logical (us_ftl ?s) (rw_lpn (ur_cdb r) + i) = Some (buffer_page b i) \<and> length (buffer_page b i) = 4096" if "i < n" for i
    using ufs_written_pages [OF assms(12,13), of i] length_buffer_page [OF fits [OF that]] that
    by (simp add: pages assms(3) NAND_PAGE_SIZE_def)
  have lim: "rw_lpn (ur_cdb r) + n \<le> FTL_TOTAL_LPNS" using assms(3,6) by simp
  from ufs_read_loop [OF inv lim assms(9) P] obtain b3 f2 where
    rd: "for_each [0..<n] (ufs_read_body (rw_lpn (ur_cdb r))) (Some b2, ?s) = Some (Next (Some b3, s\<lparr>us_ftl := f2\<rparr>))"
      "length b3 = length b2" "\<forall>i<n. buffer_page b3 i = buffer_page b i" "drop (n * 4096) b3 = drop (n * 4096) b2"
    by auto
  have "take (n * 4096) b3 = take (n * 4096) b"
    by (rule take_pages) (use assms(7,9) rd(2,3) in simp_all)
  moreover have "ufs_target_process_cmd (Some w) (Some p) (Some b) wlen s = Some (RET_OK, Some (set_response_good p), Some b, ?s)"
    using ufs_write_10_stores [OF assms(5,7,8,6,11,13)] by (simp add: ufs_target_process_cmd_def ufs_dispatch_def assms(1))
  moreover have "ufs_target_process_cmd (Some r) (Some q) (Some b2) rlen ?s =
      Some (RET_OK, Some (set_response_good (set_segment_len (n * 4096) q)), Some b3, s\<lparr>us_ftl := f2\<rparr>)"
    using rd(1) assms(4,10)
    by (simp add: ufs_target_process_cmd_def ufs_dispatch_def assms(2) handle_read_10_def rw_pages_whole Let_def)
  moreover have "uh_data_segment_len (up_header (set_response_good (set_segment_len (n * 4096) q))) = of_nat (n * 4096)"
    by (simp add: set_response_good_def set_segment_len_def)
  ultimately show ?thesis using rd(2,4) ufs_good_set by blast
qed

definition example_cdb :: "u8 \<Rightarrow> u8 \<Rightarrow> u8 list" where
  "example_cdb op sectors = [op, 0, 0, 0, 0, 0, 0, 0, sectors, 0, 0, 0, 0, 0, 0, 0]"

definition example_header :: upiu_header where
  "example_header = \<lparr>uh_trans_type = 1, uh_flags = 0, uh_lun = 0, uh_task_id = 0, uh_iid = 0, uh_data_segment_len = 0,
     uh_scsi_status = 0, uh_service_code = 0\<rparr>"

definition example_ufs_cmd :: "u8 \<Rightarrow> u8 \<Rightarrow> ufs_cmd_request" where
  "example_ufs_cmd op sectors = \<lparr>ur_header = example_header, ur_cdb = example_cdb op sectors\<rparr>"

definition example_ufs_response :: ufs_cmd_response where
  "example_ufs_response = \<lparr>up_header = example_header, up_sense_data = replicate 18 0\<rparr>"

lemma unat_byte_16: "take_bit 16 (unat (k :: u8)) = unat k"
  by (rule take_bit_nat_eq_self) (rule order_less_le_trans [OF unsigned_less], simp)

lemma example_cdb_facts:
  "example_cdb op k ! 0 = op" "rw_lpn (example_cdb op k) = 0" "rw_bytes (example_cdb op k) = unat k * 512"
  by (simp_all add: example_cdb_def rw_lpn_def rw_bytes_def cdb_get_lba_10_def cdb_get_length_10_def UFS_SECTOR_SIZE_def
      unsigned_ucast_eq unat_byte_16)

lemma ufs_write_then_read_witness:
  "\<exists>f p1 p2 b3 f2. ufs_target_process_cmd (Some (example_ufs_cmd 0x2A 8)) (Some example_ufs_response) (Some (replicate 4096 7)) 4096
       (ufs_start example_ftl) = Some (RET_OK, Some p1, Some (replicate 4096 7), (ufs_start example_ftl)\<lparr>us_ftl := f\<rparr>) \<and>
     ufs_target_process_cmd (Some (example_ufs_cmd 0x28 8)) (Some example_ufs_response) (Some (replicate 4096 0)) 4096
       ((ufs_start example_ftl)\<lparr>us_ftl := f\<rparr>) = Some (RET_OK, Some p2, Some b3, (ufs_start example_ftl)\<lparr>us_ftl := f2\<rparr>) \<and>
     b3 = replicate 4096 7"
proof -
  let ?w = "example_ufs_cmd 0x2A 8" and ?r = "example_ufs_cmd 0x28 8" and ?b = "replicate 4096 7 :: u8 list"
  have c: "ur_cdb ?w ! 0 = 0x2A" "ur_cdb ?r ! 0 = 0x28" "rw_lpn (ur_cdb ?w) = 0" "rw_lpn (ur_cdb ?r) = 0"
    "rw_bytes (ur_cdb ?w) = 1 * 4096" "rw_bytes (ur_cdb ?r) = 1 * 4096"
    by (simp_all add: example_ufs_cmd_def example_cdb_facts)
  have "0 < FTL_TOTAL_LPNS" "length (buffer_page ?b 0) = NAND_PAGE_SIZE" by (simp_all add: ftl_bounds buffer_page_def NAND_PAGE_SIZE_def)
  then obtain f where f: "ftl_wr example_ftl 0 (buffer_page ?b 0) = Some f" by (rule example_ftl_write)
  have w: "write_all ftl_wr (us_ftl (ufs_start example_ftl)) (ufs_writes (ur_cdb ?w) ?b) = Some f"
    by (simp add: ufs_start_def ufs_writes_def rw_pages_whole [OF c(5)] c f)
  have s: "\<not> uf_write_protected (us_health (ufs_start example_ftl))" "ftl_ready (us_ftl (ufs_start example_ftl))"
    by (simp_all add: ufs_start_def example_ftl_facts)
  have lim: "rw_lpn (ur_cdb ?w) + 1 \<le> FTL_TOTAL_LPNS" by (simp add: c ftl_bounds)
  have lpn: "rw_lpn (ur_cdb ?r) = rw_lpn (ur_cdb ?w)" by (simp add: c)
  from ufs_write_then_read [OF c(1,2) lpn c(6,5) lim _ _ _ _ s w, of 4096 "replicate 4096 0" 4096 example_ufs_response example_ufs_response]
  obtain p1 p2 b3 f2 where "ufs_target_process_cmd (Some ?w) (Some example_ufs_response) (Some ?b) 4096 (ufs_start example_ftl) =
      Some (RET_OK, Some p1, Some ?b, (ufs_start example_ftl)\<lparr>us_ftl := f\<rparr>)"
    "ufs_target_process_cmd (Some ?r) (Some example_ufs_response) (Some (replicate 4096 0)) 4096 ((ufs_start example_ftl)\<lparr>us_ftl := f\<rparr>) =
      Some (RET_OK, Some p2, Some b3, (ufs_start example_ftl)\<lparr>us_ftl := f2\<rparr>)"
    "take 4096 b3 = take 4096 ?b" "length b3 = length (replicate 4096 (0 :: u8))" by auto
  moreover from this(3,4) have "b3 = ?b" by simp
  ultimately show ?thesis by blast
qed

section \<open>Transfers that end within a page\<close>

lemma partial_last_page:
  assumes "\<not> 4096 dvd rw_bytes cdb"
  obtains m where "rw_pages cdb = Suc m" "rw_bytes cdb < m * 4096 + 4096"
proof -
  have "rw_bytes cdb mod 4096 \<noteq> 0" using assms by (simp add: dvd_eq_mod_eq_0)
  then have "rw_bytes cdb + 4095 = Suc (rw_bytes cdb div 4096) * 4096 + (rw_bytes cdb mod 4096 - 1)"
    using div_mult_mod_eq [of "rw_bytes cdb" 4096] by simp
  moreover have "rw_bytes cdb mod 4096 - 1 < 4096" by (rule less_imp_diff_less) simp
  ultimately have "rw_pages cdb = Suc (rw_bytes cdb div 4096)" unfolding rw_pages_def by (metis div_mult_self3 div_less add_0_right zero_neq_numeral)
  moreover have "rw_bytes cdb < rw_bytes cdb div 4096 * 4096 + 4096"
    using div_mult_mod_eq [of "rw_bytes cdb" 4096] mod_less_divisor [of 4096 "rw_bytes cdb"] by simp
  ultimately show thesis by (rule that)
qed

lemma logical_length: "logical s lpn = Some bs \<Longrightarrow> length bs = NAND_PAGE_SIZE"
  by (auto simp: logical_def ppn_page_def chip_page_def page_data_def split: if_splits)

text \<open>A page that is read without error.\<close>

lemma ufs_read_body_Next:
  assumes "ftl_inv (us_ftl s)" "ufs_read_body lpn i (Some b, s) = Some (Next (d, s'))"
  shows "i * 4096 + 4096 \<le> length b" "ftl_inv (us_ftl s')" "\<exists>b'. d = Some b' \<and> length b' = length b"
proof -
  obtain ret out f where f: "ftl_read (us_ftl s) (u32_add lpn i) True = (ret, out, f)" by (metis prod.exhaust)
  with assms(2) have ok: "ret = RET_OK" by (auto simp: ufs_read_body_def Let_def split: option.splits bind_splits if_splits)
  then have "u32_add lpn i < FTL_TOTAL_LPNS" using f by (auto simp: ftl_read_def split: if_splits)
  from ftl_read_facts [OF assms(1) this] ok f obtain bs where bs: "out = Some bs" "length bs = 4096" "ftl_inv f"
    using logical_length by (fastforce simp: NAND_PAGE_SIZE_def split: option.splits)
  with assms(2) f ok show "i * 4096 + 4096 \<le> length b" "ftl_inv (us_ftl s')" "\<exists>b'. d = Some b' \<and> length b' = length b"
    by (auto simp: ufs_read_body_def buf_put_def Let_def split: if_splits)
qed

lemma ufs_read_steps_keep:
  assumes "ftl_inv (us_ftl s)" "for_each [0..<m] (ufs_read_body lpn) (Some b, s) = Some (Next (d, s'))"
  shows "ftl_inv (us_ftl s') \<and> (\<exists>b'. d = Some b' \<and> length b' = length b)"
  using assms(2)
proof (induction m arbitrary: d s')
  case 0
  with assms(1) show ?case by auto
next
  case (Suc m)
  then obtain d1 s1 where 1: "for_each [0..<m] (ufs_read_body lpn) (Some b, s) = Some (Next (d1, s1))"
    "ufs_read_body lpn m (d1, s1) = Some (Next (d, s'))"
    by (auto simp: for_each_append split: option.splits ctl.splits)
  from Suc.IH [OF 1(1)] obtain b1 where b1: "ftl_inv (us_ftl s1)" "d1 = Some b1" "length b1 = length b" by blast
  with ufs_read_body_Next [of s1 lpn m b1 d s'] 1(2) show ?case by auto
qed

text \<open>A loop is left with an error only.\<close>

lemma for_each_leave_not_ok:
  assumes "\<And>i s r s'. body i s = Some (Leave r s') \<Longrightarrow> r \<noteq> RET_OK" "for_each xs body s = Some (Leave r s')"
  shows "r \<noteq> RET_OK"
  using assms(2) by (induction xs arbitrary: s) (auto split: option.splits ctl.splits dest: assms(1))

lemma body_leave_not_ok:
  "ufs_read_body lpn i r = Some (Leave ret r') \<Longrightarrow> ret \<noteq> RET_OK"
  "ufs_write_body lpn d i s = Some (Leave ret s') \<Longrightarrow> ret \<noteq> RET_OK"
  by (auto simp: ufs_read_body_def ufs_write_body_def Let_def split: if_splits bind_splits prod.splits option.splits)

lemma read_leave_not_ok: "for_each xs (ufs_read_body lpn) s \<noteq> Some (Leave RET_OK s')"
proof
  assume "for_each xs (ufs_read_body lpn) s = Some (Leave RET_OK s')"
  then have "RET_OK \<noteq> RET_OK" by (rule for_each_leave_not_ok [rotated]) (rule body_leave_not_ok)
  then show False by simp
qed

lemma write_leave_not_ok: "for_each xs (ufs_write_body lpn d) s \<noteq> Some (Leave RET_OK s')"
proof
  assume "for_each xs (ufs_write_body lpn d) s = Some (Leave RET_OK s')"
  then have "RET_OK \<noteq> RET_OK" by (rule for_each_leave_not_ok [rotated]) (rule body_leave_not_ok)
  then show False by simp
qed

text \<open>A transfer that does not end at a page boundary is carried out page by page all the same: with a buffer of
  exactly the bytes of the transfer, no READ(10) or WRITE(10) of such a length reports success without having
  accessed memory behind the buffer.\<close>

theorem ufs_partial_page_overruns:
  assumes "ur_cdb q ! 0 \<in> {SCSI_OP_READ_10, SCSI_OP_WRITE_10}" "\<not> 4096 dvd rw_bytes (ur_cdb q)" "length b = rw_bytes (ur_cdb q)"
    and "ftl_inv (us_ftl s)" "\<not> uf_write_protected (us_health s)"
  shows "ufs_target_process_cmd (Some q) p (Some b) len s \<noteq> Some (RET_OK, p', d, s')"
proof -
  let ?lpn = "rw_lpn (ur_cdb q)"
  obtain m where m: "rw_pages (ur_cdb q) = Suc m" "length b < m * 4096 + 4096"
    using partial_last_page [OF assms(2)] assms(3) by metis
  have wr: "for_each [0..<Suc m] (ufs_write_body ?lpn (Some b)) s \<noteq> Some (Next s1)" for s1
    using m(2) by (auto simp: for_each_append ufs_write_body_def buf_page_def NAND_PAGE_SIZE_def split: option.splits ctl.splits)
  have rd: "for_each [0..<Suc m] (ufs_read_body ?lpn) (Some b, s) \<noteq> Some (Next r1)" for r1
  proof
    assume "for_each [0..<Suc m] (ufs_read_body ?lpn) (Some b, s) = Some (Next r1)"
    then obtain d2 s2 where 2: "for_each [0..<m] (ufs_read_body ?lpn) (Some b, s) = Some (Next (d2, s2))"
      "ufs_read_body ?lpn m (d2, s2) = Some (Next r1)"
      by (auto simp: for_each_append split: option.splits ctl.splits)
    from ufs_read_steps_keep [OF assms(4) 2(1)] obtain b2 where "ftl_inv (us_ftl s2)" "d2 = Some b2" "length b2 = length b" by blast
    with ufs_read_body_Next(1) [of s2 ?lpn m b2 "fst r1" "snd r1"] 2(2) m(2) show False by simp
  qed
  have r10: "handle_read_10 q x (Some b) len s \<noteq> Some (RET_OK, y)" for x y
  proof (cases "for_each [0..<Suc m] (ufs_read_body ?lpn) (Some b, s)")
    case (Some c)
    with rd read_leave_not_ok [of "[0..<Suc m]" ?lpn "(Some b, s)"] show ?thesis
      by (cases c; cases y) (auto simp: handle_read_10_def Let_def m(1) simp del: upt_Suc split: if_splits)
  qed (simp add: handle_read_10_def Let_def m(1) del: upt_Suc)
  have w10: "handle_write_10 q x (Some b) len s \<noteq> Some (RET_OK, y)" for x y
  proof (cases "for_each [0..<Suc m] (ufs_write_body ?lpn (Some b)) s")
    case (Some c)
    with wr write_leave_not_ok [of "[0..<Suc m]" ?lpn "Some b" s] show ?thesis
      by (cases c; cases y) (auto simp: handle_write_10_def Let_def m(1) assms(5) simp del: upt_Suc split: if_splits)
  qed (simp add: handle_write_10_def Let_def m(1) assms(5) del: upt_Suc)
  show ?thesis
  proof (cases p)
    case (Some x)
    from assms(1) show ?thesis
    proof
      assume "ur_cdb q ! 0 = SCSI_OP_READ_10"
      with Some r10 [of x] show ?thesis
        by (cases "handle_read_10 q x (Some b) len s") (auto simp: ufs_target_process_cmd_def ufs_dispatch_def)
    next
      assume "ur_cdb q ! 0 \<in> {SCSI_OP_WRITE_10}"
      with Some w10 [of x] show ?thesis
        by (cases "handle_write_10 q x (Some b) len s") (auto simp: ufs_target_process_cmd_def ufs_dispatch_def)
    qed
  qed (simp add: ufs_target_process_cmd_def)
qed

lemma ufs_partial_page_overruns_witness:
  "\<forall>p' d s'. ufs_target_process_cmd (Some (example_ufs_cmd 0x2A 1)) (Some example_ufs_response) (Some (replicate 512 7)) 512
     (ufs_start example_ftl) \<noteq> Some (RET_OK, p', d, s')"
proof -
  let ?q = "example_ufs_cmd 0x2A 1"
  have q: "ur_cdb ?q ! 0 = 0x2A" "rw_bytes (ur_cdb ?q) = 512" by (simp_all add: example_ufs_cmd_def example_cdb_facts)
  have d: "\<not> (4096 :: nat) dvd 512" by (rule nat_dvd_not_less) simp_all
  have s: "ftl_inv (us_ftl (ufs_start example_ftl))" "\<not> uf_write_protected (us_health (ufs_start example_ftl))"
    using example_ftl_facts(1) by (simp_all add: ufs_start_def ftl_ready_def)
  show ?thesis
    by (intro allI ufs_partial_page_overruns) (simp_all add: q d s)
qed

section \<open>Retries\<close>

text \<open>
  A command that ends in CHECK CONDITION in every round is carried out three times, and the counters say three
  retries and one failure.
\<close>

lemma unsupported_command_retries:
  assumes "ur_cdb q ! 0 \<notin> {0x00, 0x12, 0x25, 0x28, 0x2A, 0x35, 0x42}"
  obtains p' s' where "ufs_target_process_cmd_with_retry (Some q) (Some p) d len s = Some (RET_ERR_PARAM, Some p', d, s')"
    "uh_scsi_status (up_header p') = UFS_STATUS_CHECK_CONDITION"
    "ue_retry_count (us_error_stats s') = ue_retry_count (us_error_stats s) + 3"
    "ue_failure_count (us_error_stats s') = ue_failure_count (us_error_stats s) + 1"
    "us_ftl s' = us_ftl s"
proof -
  have c: "ufs_target_process_cmd (Some q) (Some p) d len s = Some (RET_ERR_PARAM, Some (set_response_check_condition 0x05 0x20 0x00 p), d, s)"
    for p s
    using assms by (auto simp: ufs_target_process_cmd_def ufs_dispatch_def Let_def)
  have st: "uh_scsi_status (up_header (set_response_check_condition a b e p)) = 2" for a b e p
    by (simp add: set_response_check_condition_def)
  define r where "r p = set_response_check_condition 0x05 0x20 0x00 p" for p
  define up where "up s = upd_ufs_stats (\<lambda>e. e\<lparr>ue_retry_count := ue_retry_count e + 1\<rparr>) s" for s
  define fl where "fl s = upd_ufs_stats (\<lambda>e. e\<lparr>ue_failure_count := ue_failure_count e + 1\<rparr>) s" for s
  have step: "retry_rounds n (Some q) (Some p) d len s =
      (if 1 < n then retry_rounds (n - 1) (Some q) (Some (r p)) d len (up s) else Some (RET_ERR_PARAM, Some (r p), d, fl (up s)))" for n p s
    by (subst retry_rounds.simps) (simp add: c st r_def up_def fl_def Let_def)
  have "ufs_target_process_cmd_with_retry (Some q) (Some p) d len s = retry_rounds 3 (Some q) (Some p) d len s"
    by (simp add: ufs_target_process_cmd_with_retry_def UFS_MAX_RETRY_COUNT_def)
  also have "\<dots> = Some (RET_ERR_PARAM, Some (r (r (r p))), d, fl (up (up (up s))))"
    by (subst step, simp, subst step, simp, subst step, simp)
  finally show thesis
    by (rule that) (simp_all add: r_def up_def fl_def st upd_ufs_stats_def)
qed

end
