(* ===== verification/Manager.thy ===== *)
theory Manager
  imports MsgQueue
begin

text \<open>
  The firmware manager, \<open>modules/manager/manager.c\<close> and \<open>manager.h\<close>: the states of the modules, the watchdog over
  their heartbeats, error reports that arrive through the manager's message queue, recovery, temperature and power
  management.  Enumerations that a caller hands in are numbers, since the code tests them; \<open>manager_register_module\<close>
  copies a structure without a test, and the model takes the enumerations in it as valid.  Printing is left out.
\<close>

section \<open>Data\<close>

datatype module_state =
    MODULE_STATE_UNINIT | MODULE_STATE_INIT | MODULE_STATE_READY | MODULE_STATE_RUNNING | MODULE_STATE_ERROR | MODULE_STATE_RESET

definition module_state_of :: "nat \<Rightarrow> module_state option" where
  "module_state_of n =
     (if n < 6
      then Some ([MODULE_STATE_UNINIT, MODULE_STATE_INIT, MODULE_STATE_READY, MODULE_STATE_RUNNING, MODULE_STATE_ERROR, MODULE_STATE_RESET] ! n)
      else None)"

datatype health_status = HEALTH_STATUS_UNKNOWN | HEALTH_STATUS_HEALTHY | HEALTH_STATUS_WARNING | HEALTH_STATUS_CRITICAL

definition health_status_of :: "nat \<Rightarrow> health_status option" where
  "health_status_of n =
     (if n < 4 then Some ([HEALTH_STATUS_UNKNOWN, HEALTH_STATUS_HEALTHY, HEALTH_STATUS_WARNING, HEALTH_STATUS_CRITICAL] ! n) else None)"

fun health_value :: "health_status \<Rightarrow> nat" where
  "health_value HEALTH_STATUS_UNKNOWN = 0"
| "health_value HEALTH_STATUS_HEALTHY = 1"
| "health_value HEALTH_STATUS_WARNING = 2"
| "health_value HEALTH_STATUS_CRITICAL = 3"

text \<open>The order of the values, used for the worst state of all modules.\<close>

instantiation health_status :: linorder
begin

definition less_eq_health_status :: "health_status \<Rightarrow> health_status \<Rightarrow> bool" where
  "less_eq_health_status a b \<longleftrightarrow> health_value a \<le> health_value b"

definition less_health_status :: "health_status \<Rightarrow> health_status \<Rightarrow> bool" where
  "less_health_status a b \<longleftrightarrow> health_value a < health_value b"

instance
proof
  fix x y :: health_status
  show "x \<le> y \<Longrightarrow> y \<le> x \<Longrightarrow> x = y"
    by (cases x; cases y) (simp_all add: less_eq_health_status_def)
qed (auto simp: less_eq_health_status_def less_health_status_def)

end

abbreviation (input) MODULE_NAND :: nat where "MODULE_NAND \<equiv> 0"
abbreviation (input) MODULE_FTL :: nat where "MODULE_FTL \<equiv> 1"
abbreviation (input) MODULE_HOST_IF :: nat where "MODULE_HOST_IF \<equiv> 2"
abbreviation (input) MODULE_MANAGER :: nat where "MODULE_MANAGER \<equiv> 3"
abbreviation (input) MODULE_LOG :: nat where "MODULE_LOG \<equiv> 4"

record module_info =
  mi_module_id :: nat
  mi_state :: module_state
  mi_health :: health_status
  mi_error_count :: u32
  mi_warning_count :: u32
  mi_uptime_ms :: u64
  mi_last_heartbeat_ms :: u64
  mi_msg_queue_count :: u32

datatype temp_state = TEMP_STATE_NORMAL | TEMP_STATE_WARNING | TEMP_STATE_CRITICAL | TEMP_STATE_SHUTDOWN

text \<open>Temperatures are only stored and compared, so they are integers.\<close>

record thermal_config =
  tc_warning_threshold :: int
  tc_critical_threshold :: int
  tc_shutdown_threshold :: int
  tc_normal_threshold :: int
  tc_thermal_throttling :: bool

record thermal_state =
  th_current_temp :: int
  th_max_temp :: int
  th_state :: temp_state
  th_throttling_count :: u32
  th_total_throttling_ms :: u64

datatype power_state =
  POWER_STATE_ACTIVE | POWER_STATE_IDLE | POWER_STATE_STANDBY | POWER_STATE_SLEEP | POWER_STATE_DEEP_SLEEP

definition power_state_of :: "nat \<Rightarrow> power_state option" where
  "power_state_of n =
     (if n < 5
      then Some ([POWER_STATE_ACTIVE, POWER_STATE_IDLE, POWER_STATE_STANDBY, POWER_STATE_SLEEP, POWER_STATE_DEEP_SLEEP] ! n)
      else None)"

record power_config =
  pc_idle_timeout_ms :: u32
  pc_standby_timeout_ms :: u32
  pc_sleep_timeout_ms :: u32
  pc_power_management :: bool

record power_state_info =
  ps_current_state :: power_state
  ps_target_state :: power_state
  ps_last_activity_ms :: u64
  ps_power_state_changes :: u32
  ps_total_active_ms :: u64
  ps_total_idle_ms :: u64

record firmware_config =
  fc_heartbeat_interval_ms :: u32
  fc_health_check_interval_ms :: u32
  fc_watchdog_timeout_ms :: u32
  fc_max_error_count :: u32
  fc_auto_recovery :: bool
  fc_thermal :: thermal_config
  fc_power :: power_config

record firmware_stats =
  sf_total_uptime_ms :: u64
  sf_total_errors :: u32
  sf_total_recoveries :: u32
  sf_reset_count :: u32
  sf_power_on_count :: u32
  sf_overall_health :: health_status
  sf_thermal :: thermal_state
  sf_power :: power_state_info

text \<open>The manager's structure, the counter that stands for the clock, and the message queues.\<close>

record manager_sys =
  mg_config :: firmware_config
  mg_stats :: firmware_stats
  mg_modules :: "nat \<Rightarrow> module_info"
  mg_thermal :: thermal_state
  mg_power :: power_state_info
  mg_is_initialized :: bool
  mg_is_running :: bool
  mg_clock :: u64
  mg_mq :: mq_state

definition zero_thermal :: thermal_state where
  "zero_thermal = \<lparr>th_current_temp = 0, th_max_temp = 0, th_state = TEMP_STATE_NORMAL, th_throttling_count = 0, th_total_throttling_ms = 0\<rparr>"

definition zero_power :: power_state_info where
  "zero_power = \<lparr>ps_current_state = POWER_STATE_ACTIVE, ps_target_state = POWER_STATE_ACTIVE, ps_last_activity_ms = 0,
     ps_power_state_changes = 0, ps_total_active_ms = 0, ps_total_idle_ms = 0\<rparr>"

abbreviation upd_module :: "nat \<Rightarrow> (module_info \<Rightarrow> module_info) \<Rightarrow> manager_sys \<Rightarrow> manager_sys" where
  "upd_module i f s \<equiv> s\<lparr>mg_modules := (mg_modules s)(i := f (mg_modules s i))\<rparr>"

abbreviation upd_fw_stats :: "(firmware_stats \<Rightarrow> firmware_stats) \<Rightarrow> manager_sys \<Rightarrow> manager_sys" where
  "upd_fw_stats f s \<equiv> s\<lparr>mg_stats := f (mg_stats s)\<rparr>"

section \<open>Health and errors\<close>

definition manager_timestamp_ms :: "manager_sys \<Rightarrow> u64 \<times> manager_sys" where
  "manager_timestamp_ms s = (mg_clock s, s\<lparr>mg_clock := mg_clock s + 1\<rparr>)"

definition age_of :: "u64 \<Rightarrow> u64 \<Rightarrow> u64" where
  "age_of then_ms now = (if then_ms \<le> now then now - then_ms else 0)"

definition check_module_health :: "nat \<Rightarrow> manager_sys \<Rightarrow> health_status \<times> manager_sys" where
  "check_module_health module_id s =
     (if MODULE_MAX \<le> module_id then (HEALTH_STATUS_UNKNOWN, s)
      else
        let info = mg_modules s module_id; (now, s) = manager_timestamp_ms s in
        if ucast (fc_watchdog_timeout_ms (mg_config s)) < age_of (mi_last_heartbeat_ms info) now then (HEALTH_STATUS_CRITICAL, s)
        else if mi_error_count info = 0 then (HEALTH_STATUS_HEALTHY, s)
        else if mi_error_count info < fc_max_error_count (mg_config s) then (HEALTH_STATUS_WARNING, s)
        else (HEALTH_STATUS_CRITICAL, s))"

definition calc_overall_health :: "manager_sys \<Rightarrow> health_status" where
  "calc_overall_health s =
     fold (\<lambda>i overall.
             if mi_state (mg_modules s i) = MODULE_STATE_UNINIT then overall
             else if overall < mi_health (mg_modules s i) then mi_health (mg_modules s i)
             else overall)
       [0..<MODULE_MAX] HEALTH_STATUS_HEALTHY"

definition auto_recover_module :: "nat \<Rightarrow> manager_sys \<Rightarrow> ret_code \<times> manager_sys" where
  "auto_recover_module module_id s =
     (if MODULE_MAX \<le> module_id then (RET_ERR_PARAM, s)
      else
        let s = upd_module module_id (\<lambda>m. m\<lparr>mi_state := MODULE_STATE_RESET\<rparr>) s;
            s = upd_module module_id (\<lambda>m. m\<lparr>mi_error_count := 0\<rparr>) s;
            s = upd_module module_id (\<lambda>m. m\<lparr>mi_health := HEALTH_STATUS_HEALTHY\<rparr>) s;
            s = upd_module module_id (\<lambda>m. m\<lparr>mi_state := MODULE_STATE_READY\<rparr>) s in
        (RET_OK, upd_fw_stats (\<lambda>t. t\<lparr>sf_total_recoveries := sf_total_recoveries t + 1\<rparr>) s))"

text \<open>The error code and the text of a report are printed only.\<close>

definition process_error_report :: "nat \<Rightarrow> manager_sys \<Rightarrow> manager_sys" where
  "process_error_report module_id s =
     (if MODULE_MAX \<le> module_id then s
      else
        let s = upd_module module_id (\<lambda>m. m\<lparr>mi_error_count := mi_error_count m + 1\<rparr>) s;
            s = upd_fw_stats (\<lambda>t. t\<lparr>sf_total_errors := sf_total_errors t + 1\<rparr>) s;
            (health, s) = check_module_health module_id s;
            s = upd_module module_id (\<lambda>m. m\<lparr>mi_health := health\<rparr>) s in
        if fc_auto_recovery (mg_config s) \<and> fc_max_error_count (mg_config s) \<le> mi_error_count (mg_modules s module_id)
        then snd (auto_recover_module module_id s)
        else s)"

definition health_check_body :: "u64 \<Rightarrow> nat \<Rightarrow> manager_sys \<Rightarrow> manager_sys" where
  "health_check_body now i s =
     (if mi_state (mg_modules s i) = MODULE_STATE_UNINIT then s
      else
        let s = (if mi_state (mg_modules s i) = MODULE_STATE_RUNNING
                 then upd_module i (\<lambda>m. m\<lparr>mi_uptime_ms := mi_uptime_ms m + 1\<rparr>) s else s);
            s = upd_module i (\<lambda>m. m\<lparr>mi_msg_queue_count := msg_queue_get_count (mg_mq s) i\<rparr>) s in
        if mi_state (mg_modules s i) = MODULE_STATE_RUNNING \<and>
           ucast (fc_watchdog_timeout_ms (mg_config s)) < age_of (mi_last_heartbeat_ms (mg_modules s i)) now
        then process_error_report i s
        else s)"

definition process_health_check :: "manager_sys \<Rightarrow> manager_sys" where
  "process_health_check s =
     (let (now, s) = manager_timestamp_ms s;
          s = fold (health_check_body now) [0..<MODULE_MAX] s;
          s = upd_fw_stats (\<lambda>t. t\<lparr>sf_overall_health := calc_overall_health s\<rparr>) s in
      upd_fw_stats (\<lambda>t. t\<lparr>sf_total_uptime_ms := sf_total_uptime_ms t + 1\<rparr>) s)"

section \<open>Temperature and power\<close>

definition process_thermal_management :: "manager_sys \<Rightarrow> manager_sys" where
  "process_thermal_management s =
     (let t = mg_thermal s; c = fc_thermal (mg_config s);
          t = (if tc_shutdown_threshold c \<le> th_current_temp t then
                 (if th_state t \<noteq> TEMP_STATE_SHUTDOWN then t\<lparr>th_state := TEMP_STATE_SHUTDOWN\<rparr> else t)
               else if tc_critical_threshold c \<le> th_current_temp t then
                 let t = (if th_state t \<noteq> TEMP_STATE_CRITICAL
                          then t\<lparr>th_state := TEMP_STATE_CRITICAL, th_throttling_count := th_throttling_count t + 1\<rparr> else t) in
                 t\<lparr>th_total_throttling_ms := th_total_throttling_ms t + 1\<rparr>
               else if tc_warning_threshold c \<le> th_current_temp t then
                 (if th_state t \<noteq> TEMP_STATE_WARNING then t\<lparr>th_state := TEMP_STATE_WARNING\<rparr> else t)
               else if th_current_temp t \<le> tc_normal_threshold c then
                 (if th_state t \<noteq> TEMP_STATE_NORMAL then t\<lparr>th_state := TEMP_STATE_NORMAL\<rparr> else t)
               else t);
          t = (if th_max_temp t < th_current_temp t then t\<lparr>th_max_temp := th_current_temp t\<rparr> else t) in
      s\<lparr>mg_thermal := t\<rparr>)"

definition enter_power_state :: "power_state \<Rightarrow> power_state_info \<Rightarrow> power_state_info" where
  "enter_power_state st p =
     (if ps_current_state p \<noteq> st
      then p\<lparr>ps_current_state := st, ps_power_state_changes := ps_power_state_changes p + 1\<rparr> else p)"

definition process_power_management :: "manager_sys \<Rightarrow> manager_sys" where
  "process_power_management s =
     (let c = fc_power (mg_config s) in
      if \<not> pc_power_management c then s
      else
        let (now, s) = manager_timestamp_ms s; p = mg_power s;
            idle_time = age_of (ps_last_activity_ms p) now;
            p = (if ucast (pc_sleep_timeout_ms c) \<le> idle_time then enter_power_state POWER_STATE_SLEEP p
                 else if ucast (pc_standby_timeout_ms c) \<le> idle_time then enter_power_state POWER_STATE_STANDBY p
                 else if ucast (pc_idle_timeout_ms c) \<le> idle_time then enter_power_state POWER_STATE_IDLE p
                 else p);
            p = (if ps_current_state p = POWER_STATE_ACTIVE then p\<lparr>ps_total_active_ms := ps_total_active_ms p + 1\<rparr>
                 else p\<lparr>ps_total_idle_ms := ps_total_idle_ms p + 1\<rparr>) in
        s\<lparr>mg_power := p\<rparr>)"

section \<open>The interface\<close>

definition blank_module :: "nat \<Rightarrow> module_info" where
  "blank_module i = \<lparr>mi_module_id = i, mi_state = MODULE_STATE_UNINIT, mi_health = HEALTH_STATUS_UNKNOWN, mi_error_count = 0,
     mi_warning_count = 0, mi_uptime_ms = 0, mi_last_heartbeat_ms = 0, mi_msg_queue_count = 0\<rparr>"

definition default_thermal :: "thermal_config \<Rightarrow> thermal_config" where
  "default_thermal c =
     (if tc_warning_threshold c = 0
      then \<lparr>tc_warning_threshold = 70, tc_critical_threshold = 80, tc_shutdown_threshold = 90, tc_normal_threshold = 60,
            tc_thermal_throttling = True\<rparr>
      else c)"

definition default_power :: "power_config \<Rightarrow> power_config" where
  "default_power c =
     (if pc_idle_timeout_ms c = 0
      then \<lparr>pc_idle_timeout_ms = 5000, pc_standby_timeout_ms = 30000, pc_sleep_timeout_ms = 60000, pc_power_management = True\<rparr>
      else c)"

definition manager_init :: "firmware_config option \<Rightarrow> manager_sys \<Rightarrow> ret_code \<times> manager_sys" where
  "manager_init config s =
     (case config of
        None \<Rightarrow> (RET_ERR_PARAM, s)
      | Some c \<Rightarrow>
          (RET_OK, \<lparr>mg_config = c\<lparr>fc_thermal := default_thermal (fc_thermal c), fc_power := default_power (fc_power c)\<rparr>,
             mg_stats = \<lparr>sf_total_uptime_ms = 0, sf_total_errors = 0, sf_total_recoveries = 0, sf_reset_count = 0,
               sf_power_on_count = 1, sf_overall_health = HEALTH_STATUS_UNKNOWN, sf_thermal = zero_thermal, sf_power = zero_power\<rparr>,
             mg_modules = blank_module, mg_thermal = zero_thermal\<lparr>th_current_temp := 25, th_max_temp := 25\<rparr>,
             mg_power = zero_power, mg_is_initialized = True, mg_is_running = False, mg_clock = mg_clock s, mg_mq = mg_mq s\<rparr>))"

definition manager_deinit :: "manager_sys \<Rightarrow> ret_code \<times> manager_sys" where
  "manager_deinit s =
     (if \<not> mg_is_initialized s then (RET_ERR_NOT_INIT, s)
      else (RET_OK, s\<lparr>mg_is_initialized := False, mg_is_running := False\<rparr>))"

definition ready_module :: "nat \<Rightarrow> manager_sys \<Rightarrow> manager_sys" where
  "ready_module i s =
     (let s = upd_module i (\<lambda>m. m\<lparr>mi_state := MODULE_STATE_INIT\<rparr>) s in upd_module i (\<lambda>m. m\<lparr>mi_state := MODULE_STATE_READY\<rparr>) s)"

definition manager_init_all_modules :: "manager_sys \<Rightarrow> ret_code \<times> manager_sys" where
  "manager_init_all_modules s =
     (if \<not> mg_is_initialized s then (RET_ERR_NOT_INIT, s)
      else
        let s = ready_module MODULE_LOG s; s = ready_module MODULE_NAND s; s = ready_module MODULE_FTL s;
            s = ready_module MODULE_HOST_IF s in
        (RET_OK, upd_fw_stats (\<lambda>t. t\<lparr>sf_overall_health := HEALTH_STATUS_HEALTHY\<rparr>) s))"

definition start_body :: "nat \<Rightarrow> manager_sys \<Rightarrow> manager_sys" where
  "start_body i s =
     (if mi_state (mg_modules s i) = MODULE_STATE_READY
      then let s = upd_module i (\<lambda>m. m\<lparr>mi_state := MODULE_STATE_RUNNING, mi_health := HEALTH_STATUS_HEALTHY\<rparr>) s;
               (now, s) = manager_timestamp_ms s in
           upd_module i (\<lambda>m. m\<lparr>mi_last_heartbeat_ms := now\<rparr>) s
      else s)"

definition manager_start_all_modules :: "manager_sys \<Rightarrow> ret_code \<times> manager_sys" where
  "manager_start_all_modules s =
     (if \<not> mg_is_initialized s then (RET_ERR_NOT_INIT, s)
      else (RET_OK, (fold start_body [0..<MODULE_MAX] s)\<lparr>mg_is_running := True\<rparr>))"

definition stop_body :: "nat \<Rightarrow> manager_sys \<Rightarrow> manager_sys" where
  "stop_body i s =
     (if mi_state (mg_modules s i) = MODULE_STATE_RUNNING
      then upd_module i (\<lambda>m. m\<lparr>mi_state := MODULE_STATE_READY\<rparr>) s else s)"

definition manager_stop_all_modules :: "manager_sys \<Rightarrow> ret_code \<times> manager_sys" where
  "manager_stop_all_modules s =
     (if \<not> mg_is_initialized s then (RET_ERR_NOT_INIT, s)
      else (RET_OK, (fold stop_body [0..<MODULE_MAX] s)\<lparr>mg_is_running := False\<rparr>))"

text \<open>
  The loop over the manager's messages.  A message that names a module beyond the last one as its source is
  ignored; following a bad pointer of the queue has no defined result.
\<close>

definition dispatch_message :: "message \<Rightarrow> manager_sys \<Rightarrow> manager_sys" where
  "dispatch_message m s =
     (if hdr_type (msg_hdr m) = MSG_TYPE_MGR_ERROR_REPORT then process_error_report (hdr_src_module (msg_hdr m)) s else s)"

partial_function (option) manager_messages :: "manager_sys \<Rightarrow> manager_sys option" where
  "manager_messages s =
     (if 0 < msg_queue_get_count (mg_mq s) MODULE_MANAGER
      then (case msg_queue_recv (mg_mq s) MODULE_MANAGER True of
              None \<Rightarrow> None
            | Some (ret, msg, q) \<Rightarrow>
                (case msg of
                   Some m \<Rightarrow> if ret = RET_OK then manager_messages (dispatch_message m (s\<lparr>mg_mq := q\<rparr>)) else Some (s\<lparr>mg_mq := q\<rparr>)
                 | None \<Rightarrow> Some (s\<lparr>mg_mq := q\<rparr>)))
      else Some s)"

definition publish :: "manager_sys \<Rightarrow> manager_sys" where
  "publish s = upd_fw_stats (\<lambda>t. t\<lparr>sf_thermal := mg_thermal s, sf_power := mg_power s\<rparr>) s"

definition manager_process :: "manager_sys \<Rightarrow> (ret_code \<times> manager_sys) option" where
  "manager_process s =
     (if \<not> mg_is_initialized s then Some (RET_ERR_NOT_INIT, s)
      else do {
        s \<leftarrow> manager_messages s;
        Some (RET_OK, publish (process_power_management (process_thermal_management (process_health_check s))))
      })"

definition manager_register_module :: "nat \<Rightarrow> module_info option \<Rightarrow> manager_sys \<Rightarrow> ret_code \<times> manager_sys" where
  "manager_register_module module_id info s =
     (if MODULE_MAX \<le> module_id then (RET_ERR_PARAM, s)
      else (case info of
              None \<Rightarrow> (RET_ERR_PARAM, s)
            | Some m \<Rightarrow> if \<not> mg_is_initialized s then (RET_ERR_NOT_INIT, s) else (RET_OK, upd_module module_id (\<lambda>_. m) s)))"

definition manager_update_module_state :: "nat \<Rightarrow> nat \<Rightarrow> manager_sys \<Rightarrow> ret_code \<times> manager_sys" where
  "manager_update_module_state module_id state s =
     (if MODULE_MAX \<le> module_id then (RET_ERR_PARAM, s)
      else (case module_state_of state of
              None \<Rightarrow> (RET_ERR_PARAM, s)
            | Some st \<Rightarrow> if \<not> mg_is_initialized s then (RET_ERR_NOT_INIT, s)
                         else (RET_OK, upd_module module_id (\<lambda>m. m\<lparr>mi_state := st\<rparr>) s)))"

definition manager_update_module_health :: "nat \<Rightarrow> nat \<Rightarrow> manager_sys \<Rightarrow> ret_code \<times> manager_sys" where
  "manager_update_module_health module_id health s =
     (if MODULE_MAX \<le> module_id then (RET_ERR_PARAM, s)
      else (case health_status_of health of
              None \<Rightarrow> (RET_ERR_PARAM, s)
            | Some h \<Rightarrow> if \<not> mg_is_initialized s then (RET_ERR_NOT_INIT, s)
                        else let s = upd_module module_id (\<lambda>m. m\<lparr>mi_health := h\<rparr>) s in
                             (RET_OK, upd_fw_stats (\<lambda>t. t\<lparr>sf_overall_health := calc_overall_health s\<rparr>) s)))"

text \<open>The payload of an error report: module, code, 128 bytes of text of which the last stays zero, time; the union has 256 bytes.\<close>

definition error_payload :: "nat \<Rightarrow> u32 \<Rightarrow> u8 list option \<Rightarrow> u32 \<Rightarrow> u8 list" where
  "error_payload module_id code error_msg t =
     (let txt = (case error_msg of None \<Rightarrow> [] | Some cs \<Rightarrow> take 127 (takeWhile (\<lambda>b. b \<noteq> 0) cs)) in
      u32_bytes (of_nat module_id) @ u32_bytes code @ txt @ replicate (128 - length txt) 0 @ u32_bytes t @ replicate 116 0)"

definition error_message :: "nat \<Rightarrow> u32 \<Rightarrow> u8 list option \<Rightarrow> u32 \<Rightarrow> message" where
  "error_message module_id code error_msg t =
     \<lparr>msg_hdr = \<lparr>hdr_type = MSG_TYPE_MGR_ERROR_REPORT, hdr_priority = MSG_PRIORITY_HIGH, hdr_src_module = module_id,
        hdr_dst_module = MODULE_MANAGER, hdr_msg_id = 0, hdr_timestamp = 0, hdr_data_len = 0\<rparr>,
      msg_data = error_payload module_id code error_msg t\<rparr>"

definition manager_report_error :: "nat \<Rightarrow> u32 \<Rightarrow> u8 list option \<Rightarrow> manager_sys \<Rightarrow> (ret_code \<times> manager_sys) option" where
  "manager_report_error module_id error_code error_msg s =
     (if MODULE_MAX \<le> module_id then Some (RET_ERR_PARAM, s)
      else if \<not> mg_is_initialized s then Some (RET_ERR_NOT_INIT, s)
      else
        let (now, s) = manager_timestamp_ms s in
        do {
          (ret, q) \<leftarrow> msg_queue_send (mg_mq s) (Some (error_message module_id error_code error_msg (ucast now)));
          Some (ret, s\<lparr>mg_mq := q\<rparr>)
        })"

definition manager_send_heartbeat :: "nat \<Rightarrow> manager_sys \<Rightarrow> ret_code \<times> manager_sys" where
  "manager_send_heartbeat module_id s =
     (if MODULE_MAX \<le> module_id then (RET_ERR_PARAM, s)
      else if \<not> mg_is_initialized s then (RET_ERR_NOT_INIT, s)
      else let (now, s) = manager_timestamp_ms s in (RET_OK, upd_module module_id (\<lambda>m. m\<lparr>mi_last_heartbeat_ms := now\<rparr>) s))"

definition manager_get_module_info :: "nat \<Rightarrow> bool \<Rightarrow> manager_sys \<Rightarrow> ret_code \<times> module_info option" where
  "manager_get_module_info module_id has_info s =
     (if MODULE_MAX \<le> module_id then (RET_ERR_PARAM, None)
      else if \<not> has_info then (RET_ERR_PARAM, None)
      else if \<not> mg_is_initialized s then (RET_ERR_NOT_INIT, None)
      else (RET_OK, Some (mg_modules s module_id)))"

definition manager_get_stats :: "bool \<Rightarrow> manager_sys \<Rightarrow> ret_code \<times> firmware_stats option" where
  "manager_get_stats has_stats s =
     (if \<not> has_stats then (RET_ERR_PARAM, None)
      else if \<not> mg_is_initialized s then (RET_ERR_NOT_INIT, None)
      else (RET_OK, Some (mg_stats s)))"

definition manager_update_temperature :: "int \<Rightarrow> manager_sys \<Rightarrow> ret_code \<times> manager_sys" where
  "manager_update_temperature temperature s =
     (if \<not> mg_is_initialized s then (RET_ERR_NOT_INIT, s)
      else (RET_OK, process_thermal_management (s\<lparr>mg_thermal := (mg_thermal s)\<lparr>th_current_temp := temperature\<rparr>\<rparr>)))"

definition manager_get_thermal_state :: "bool \<Rightarrow> manager_sys \<Rightarrow> ret_code \<times> thermal_state option" where
  "manager_get_thermal_state has_state s =
     (if \<not> has_state then (RET_ERR_PARAM, None)
      else if \<not> mg_is_initialized s then (RET_ERR_NOT_INIT, None)
      else (RET_OK, Some (mg_thermal s)))"

definition manager_get_temp_state :: "manager_sys \<Rightarrow> temp_state" where
  "manager_get_temp_state s = (if \<not> mg_is_initialized s then TEMP_STATE_NORMAL else th_state (mg_thermal s))"

definition manager_set_power_state :: "nat \<Rightarrow> manager_sys \<Rightarrow> ret_code \<times> manager_sys" where
  "manager_set_power_state state s =
     (case power_state_of state of
        None \<Rightarrow> (RET_ERR_PARAM, s)
      | Some st \<Rightarrow>
          if \<not> mg_is_initialized s then (RET_ERR_NOT_INIT, s)
          else
            let p = mg_power s;
                s = s\<lparr>mg_power := p\<lparr>ps_target_state := st, ps_current_state := st, ps_power_state_changes := ps_power_state_changes p + 1\<rparr>\<rparr>;
                (now, s) = manager_timestamp_ms s in
            (RET_OK, s\<lparr>mg_power := (mg_power s)\<lparr>ps_last_activity_ms := now\<rparr>\<rparr>))"

definition manager_get_power_state :: "manager_sys \<Rightarrow> power_state" where
  "manager_get_power_state s = (if \<not> mg_is_initialized s then POWER_STATE_ACTIVE else ps_current_state (mg_power s))"

definition manager_report_activity :: "manager_sys \<Rightarrow> ret_code \<times> manager_sys" where
  "manager_report_activity s =
     (if \<not> mg_is_initialized s then (RET_ERR_NOT_INIT, s)
      else
        let (now, s) = manager_timestamp_ms s;
            s = s\<lparr>mg_power := (mg_power s)\<lparr>ps_last_activity_ms := now\<rparr>\<rparr> in
        (RET_OK, s\<lparr>mg_power := enter_power_state POWER_STATE_ACTIVE (mg_power s)\<rparr>))"

definition manager_get_power_state_info :: "bool \<Rightarrow> manager_sys \<Rightarrow> ret_code \<times> power_state_info option" where
  "manager_get_power_state_info has_info s =
     (if \<not> has_info then (RET_ERR_PARAM, None)
      else if \<not> mg_is_initialized s then (RET_ERR_NOT_INIT, None)
      else (RET_OK, Some (mg_power s)))"

end
