(* ===== verification/ManagerFlow.thy ===== *)
theory ManagerFlow
  imports Manager
begin

text \<open>
  What the manager promises: the loop over its queue handles every message once, in the order of the queue; the
  watchdog; the hysteresis of the temperature states; and the invariants of its histories.
\<close>

section \<open>The loop over the messages\<close>

lemma recv_rep:
  assumes "mq_rep s Q" "i < MODULE_MAX" "q_is_initialized (mq_queues s i)" "Q i = m # ms"
  shows "\<exists>s'. msg_queue_recv s i True = Some (RET_OK, Some m, s') \<and> mq_rep s' (Q(i := ms)) \<and>
     (\<forall>j. q_is_initialized (mq_queues s' j) = q_is_initialized (mq_queues s j))"
proof -
  obtain own where own: "mq_inv s own" "\<And>i. i < MODULE_MAX \<Longrightarrow> queue_ok s i (own i)"
    "\<And>i. i < MODULE_MAX \<Longrightarrow> Q i = contents (mq_heap s) (own i)"
    using mq_rep_queue [OF assms(1)] by metis
  with assms(2,4) obtain a as where Cons: "own i = a # as" by (cases "own i") auto
  with own(2) [OF assms(2)] have ok: "queue_ok s i (a # as)" by simp
  from recv_takes [OF ok assms(2,3)] obtain q' where s': "msg_queue_recv s i True =
      Some (RET_OK, Some (node_msg (the (mq_heap s a))),
            s\<lparr>mq_heap := (mq_heap s)(a := None), mq_queues := (mq_queues s)(i := q')\<rparr>)"
    "queue_ok (s\<lparr>mq_heap := (mq_heap s)(a := None), mq_queues := (mq_queues s)(i := q')\<rparr>) i as" "q_is_initialized q'"
    by blast
  have "mq_rep (s\<lparr>mq_heap := (mq_heap s)(a := None), mq_queues := (mq_queues s)(i := q')\<rparr>)
      (Q(i := contents ((mq_heap s)(a := None)) as))"
    using mq_rep_update [OF own(1,3) assms(2) s'(2)] Cons by auto
  moreover have "contents ((mq_heap s)(a := None)) as = contents (mq_heap s) as"
    using ok by (auto simp: contents_def queue_ok_def)
  ultimately show ?thesis
    using s' own(3) [OF assms(2)] Cons ok assms(3,4) by (auto simp: queue_ok_def)
qed

lemma get_count_rep:
  assumes "mq_rep s Q" "i < MODULE_MAX" "q_is_initialized (mq_queues s i)"
  shows "0 < msg_queue_get_count s i \<longleftrightarrow> Q i \<noteq> []"
proof -
  obtain own where own: "\<And>i. i < MODULE_MAX \<Longrightarrow> queue_ok s i (own i)" "\<And>i. i < MODULE_MAX \<Longrightarrow> Q i = contents (mq_heap s) (own i)"
    using mq_rep_queue [OF assms(1)] by metis
  show ?thesis
    using queue_ok_nonempty_iff [OF own(1) [OF assms(2)]] own(2) [OF assms(2)] assms(2,3)
    by (auto simp: msg_queue_get_count_def word_gt_0 contents_def)
qed

text \<open>A report changes one module, two counters and the clock.\<close>

definition recovers :: "firmware_config \<Rightarrow> module_info \<Rightarrow> bool" where
  "recovers c m \<longleftrightarrow> fc_auto_recovery c \<and> fc_max_error_count c \<le> mi_error_count m + 1"

definition module_health :: "firmware_config \<Rightarrow> u64 \<Rightarrow> module_info \<Rightarrow> health_status" where
  "module_health c now m =
     (if ucast (fc_watchdog_timeout_ms c) < age_of (mi_last_heartbeat_ms m) now then HEALTH_STATUS_CRITICAL
      else if mi_error_count m = 0 then HEALTH_STATUS_HEALTHY
      else if mi_error_count m < fc_max_error_count c then HEALTH_STATUS_WARNING
      else HEALTH_STATUS_CRITICAL)"

lemma check_module_health_eq:
  "i < MODULE_MAX \<Longrightarrow> check_module_health i s =
     (module_health (mg_config s) (mg_clock s) (mg_modules s i), s\<lparr>mg_clock := mg_clock s + 1\<rparr>)"
  by (simp add: check_module_health_def manager_timestamp_ms_def module_health_def)

definition reported_module :: "firmware_config \<Rightarrow> u64 \<Rightarrow> module_info \<Rightarrow> module_info" where
  "reported_module c now m =
     (if recovers c m then m\<lparr>mi_state := MODULE_STATE_READY, mi_health := HEALTH_STATUS_HEALTHY, mi_error_count := 0\<rparr>
      else let m = m\<lparr>mi_error_count := mi_error_count m + 1\<rparr> in m\<lparr>mi_health := module_health c now m\<rparr>)"

definition reported_stats :: "bool \<Rightarrow> firmware_stats \<Rightarrow> firmware_stats" where
  "reported_stats r t = t\<lparr>sf_total_errors := sf_total_errors t + 1, sf_total_recoveries := sf_total_recoveries t + (if r then 1 else 0)\<rparr>"

lemma process_error_report_eq:
  assumes "i < MODULE_MAX"
  shows "process_error_report i s =
     s\<lparr>mg_modules := (mg_modules s)(i := reported_module (mg_config s) (mg_clock s) (mg_modules s i)),
       mg_stats := reported_stats (recovers (mg_config s) (mg_modules s i)) (mg_stats s), mg_clock := mg_clock s + 1\<rparr>"
  using assms
  by (cases "recovers (mg_config s) (mg_modules s i)")
    (auto intro!: manager_sys.equality module_info.equality firmware_stats.equality
      simp: process_error_report_def check_module_health_eq auto_recover_module_def reported_module_def reported_stats_def
      recovers_def Let_def fun_eq_iff)

lemma process_error_report_beyond: "MODULE_MAX \<le> i \<Longrightarrow> process_error_report i s = s"
  by (simp add: process_error_report_def)

text \<open>Error handling does not see the queues.\<close>

lemma process_error_report_mq [simp]:
  "mg_mq (process_error_report i s) = mg_mq s"
  "process_error_report i (s\<lparr>mg_mq := q\<rparr>) = (process_error_report i s)\<lparr>mg_mq := q\<rparr>"
  by (cases "i < MODULE_MAX"; simp add: process_error_report_eq process_error_report_beyond)+

lemma dispatch_message_mq [simp]:
  "mg_mq (dispatch_message m s) = mg_mq s"
  "dispatch_message m (s\<lparr>mg_mq := q\<rparr>) = (dispatch_message m s)\<lparr>mg_mq := q\<rparr>"
  by (simp_all add: dispatch_message_def)

lemma fold_dispatch_mq [simp]:
  "fold dispatch_message ms (s\<lparr>mg_mq := q\<rparr>) = (fold dispatch_message ms s)\<lparr>mg_mq := q\<rparr>"
  by (induction ms arbitrary: s) simp_all

lemma manager_module_range: "MODULE_MANAGER < MODULE_MAX"
  by (simp add: MODULE_MAX_def)

lemma manager_messages_drains:
  assumes "mq_rep (mg_mq s) Q" "q_is_initialized (mq_queues (mg_mq s) MODULE_MANAGER)"
  shows "\<exists>q. manager_messages s = Some ((fold dispatch_message (Q MODULE_MANAGER) s)\<lparr>mg_mq := q\<rparr>) \<and>
     mq_rep q (Q(MODULE_MANAGER := [])) \<and> (\<forall>j. q_is_initialized (mq_queues q j) = q_is_initialized (mq_queues (mg_mq s) j))"
  using assms
proof (induction "Q MODULE_MANAGER" arbitrary: s Q)
  case Nil
  then have "\<not> 0 < msg_queue_get_count (mg_mq s) MODULE_MANAGER"
    using get_count_rep [OF Nil.prems(1) manager_module_range Nil.prems(2)] by simp
  then have "manager_messages s = Some s" by (subst manager_messages.simps) simp
  moreover have "Q(MODULE_MANAGER := []) = Q" using Nil.hyps by (simp add: fun_eq_iff)
  ultimately show ?case using Nil by (intro exI [of _ "mg_mq s"]) simp
next
  case (Cons m ms)
  from recv_rep [OF Cons.prems(1) manager_module_range Cons.prems(2) Cons.hyps(2) [symmetric]] obtain q where
    q: "msg_queue_recv (mg_mq s) MODULE_MANAGER True = Some (RET_OK, Some m, q)" "mq_rep q (Q(MODULE_MANAGER := ms))"
      "\<forall>j. q_is_initialized (mq_queues q j) = q_is_initialized (mq_queues (mg_mq s) j)" by blast
  have "0 < msg_queue_get_count (mg_mq s) MODULE_MANAGER"
    using get_count_rep [OF Cons.prems(1) manager_module_range Cons.prems(2)] by (simp flip: Cons.hyps(2))
  then have step: "manager_messages s = manager_messages (dispatch_message m (s\<lparr>mg_mq := q\<rparr>))"
    by (subst manager_messages.simps) (simp add: q(1))
  note IH = Cons.hyps(1) [of "Q(MODULE_MANAGER := ms)" "dispatch_message m (s\<lparr>mg_mq := q\<rparr>)"]
  from IH q Cons.prems(2) obtain q2 where
    "manager_messages (dispatch_message m (s\<lparr>mg_mq := q\<rparr>)) =
       Some ((fold dispatch_message ms (dispatch_message m (s\<lparr>mg_mq := q\<rparr>)))\<lparr>mg_mq := q2\<rparr>)"
    "mq_rep q2 (Q(MODULE_MANAGER := []))" "\<forall>j. q_is_initialized (mq_queues q2 j) = q_is_initialized (mq_queues q j)"
    by auto
  with step q(3) Cons.hyps(2) show ?case by (intro exI [of _ q2]) (auto simp flip: Cons.hyps(2))
qed

lemma manager_process_drains':
  assumes "mg_is_initialized s" "mq_rep (mg_mq s) Q" "q_is_initialized (mq_queues (mg_mq s) MODULE_MANAGER)"
  shows "\<exists>q. manager_process s = Some (RET_OK, publish (process_power_management (process_thermal_management
        (process_health_check ((fold dispatch_message (Q MODULE_MANAGER) s)\<lparr>mg_mq := q\<rparr>))))) \<and>
     mq_rep q (Q(MODULE_MANAGER := []))"
  using manager_messages_drains [OF assms(2,3)] assms(1) by (auto simp: manager_process_def)

text \<open>C24: with well-formed queues a call of manager_process returns; the loop takes every message of the manager's
  queue, the most urgent first and each priority in the order of arrival, handles it exactly once and leaves that queue empty and the other
  queues as they were; then come the health check, temperature and power.\<close>

theorem manager_process_drains:
  assumes "mg_is_initialized s" "mq_rep (mg_mq s) Q" "q_is_initialized (mq_queues (mg_mq s) MODULE_MANAGER)"
  shows "\<exists>q. manager_process s = Some (RET_OK, publish (process_power_management (process_thermal_management
        (process_health_check ((fold dispatch_message (Q MODULE_MANAGER) s)\<lparr>mg_mq := q\<rparr>))))) \<and>
     mq_rep q (Q(MODULE_MANAGER := []))"
  using assms by (rule manager_process_drains')

section \<open>The watchdog\<close>

definition watchdog_fires :: "firmware_config \<Rightarrow> u64 \<Rightarrow> module_info \<Rightarrow> bool" where
  "watchdog_fires c now m \<longleftrightarrow>
     mi_state m = MODULE_STATE_RUNNING \<and> ucast (fc_watchdog_timeout_ms c) < age_of (mi_last_heartbeat_ms m) now"

text \<open>A module after the bookkeeping of one health check.\<close>

definition checked_module :: "u32 \<Rightarrow> module_info \<Rightarrow> module_info" where
  "checked_module n m =
     m\<lparr>mi_uptime_ms := mi_uptime_ms m + (if mi_state m = MODULE_STATE_RUNNING then 1 else 0), mi_msg_queue_count := n\<rparr>"

lemma health_check_body_eq:
  assumes "i < MODULE_MAX"
  shows "health_check_body now i s =
     (let m = mg_modules s i; c = mg_config s; m1 = checked_module (msg_queue_get_count (mg_mq s) i) m in
      if mi_state m = MODULE_STATE_UNINIT then s
      else if watchdog_fires c now m then process_error_report i (upd_module i (\<lambda>_. m1) s)
      else upd_module i (\<lambda>_. m1) s)"
  using assms
  by (cases "mi_state (mg_modules s i)")
    (simp_all add: health_check_body_def checked_module_def watchdog_fires_def Let_def)

text \<open>What one check leaves alone.\<close>

lemma health_check_body_frame:
  assumes "i < MODULE_MAX"
  shows "mg_config (health_check_body now i s) = mg_config s" "mg_mq (health_check_body now i s) = mg_mq s"
    "mg_thermal (health_check_body now i s) = mg_thermal s" "mg_power (health_check_body now i s) = mg_power s"
    "mg_is_initialized (health_check_body now i s) = mg_is_initialized s" "mg_is_running (health_check_body now i s) = mg_is_running s"
    "j \<noteq> i \<Longrightarrow> mg_modules (health_check_body now i s) j = mg_modules s j"
    "mg_clock (health_check_body now i s) \<in> {mg_clock s, mg_clock s + 1}"
  using assms by (simp_all add: health_check_body_eq process_error_report_eq Let_def)

lemma health_checks_frame:
  assumes "\<forall>i\<in>set is. i < MODULE_MAX"
  shows "mg_config (fold (health_check_body now) is s) = mg_config s" "mg_mq (fold (health_check_body now) is s) = mg_mq s"
    "mg_thermal (fold (health_check_body now) is s) = mg_thermal s" "mg_power (fold (health_check_body now) is s) = mg_power s"
    "mg_is_initialized (fold (health_check_body now) is s) = mg_is_initialized s"
    "mg_is_running (fold (health_check_body now) is s) = mg_is_running s"
    "j \<notin> set is \<Longrightarrow> mg_modules (fold (health_check_body now) is s) j = mg_modules s j"
    "unat (mg_clock s) + length is < 2 ^ 64 \<Longrightarrow> mg_clock s \<le> mg_clock (fold (health_check_body now) is s)"
proof -
  have A: "mg_config (fold (health_check_body now) is s) = mg_config s \<and> mg_mq (fold (health_check_body now) is s) = mg_mq s \<and>
    mg_thermal (fold (health_check_body now) is s) = mg_thermal s \<and> mg_power (fold (health_check_body now) is s) = mg_power s \<and>
    mg_is_initialized (fold (health_check_body now) is s) = mg_is_initialized s \<and>
    mg_is_running (fold (health_check_body now) is s) = mg_is_running s \<and>
    (j \<notin> set is \<longrightarrow> mg_modules (fold (health_check_body now) is s) j = mg_modules s j)"
    using assms by (induction "is" arbitrary: s) (simp_all add: health_check_body_frame)
  have B: "mg_clock s \<le> mg_clock (fold (health_check_body now) is s)" if "unat (mg_clock s) + length is < 2 ^ 64"
    using assms that
  proof (induction "is" arbitrary: s)
    case (Cons i "is")
    let ?s = "health_check_body now i s"
    have "unat (mg_clock s + 1) = Suc (unat (mg_clock s))" using Cons.prems(2) by (simp add: unat_word_ariths)
    then have "mg_clock s \<le> mg_clock ?s" "unat (mg_clock ?s) + length is < 2 ^ 64"
      using health_check_body_frame(8) [of i now s] Cons.prems by (auto simp: word_le_nat_alt)
    with Cons.IH [of ?s] Cons.prems(1) show ?case by (auto intro: order_trans)
  qed simp
  from A B show "mg_config (fold (health_check_body now) is s) = mg_config s" "mg_mq (fold (health_check_body now) is s) = mg_mq s"
    "mg_thermal (fold (health_check_body now) is s) = mg_thermal s" "mg_power (fold (health_check_body now) is s) = mg_power s"
    "mg_is_initialized (fold (health_check_body now) is s) = mg_is_initialized s"
    "mg_is_running (fold (health_check_body now) is s) = mg_is_running s"
    "j \<notin> set is \<Longrightarrow> mg_modules (fold (health_check_body now) is s) j = mg_modules s j"
    "unat (mg_clock s) + length is < 2 ^ 64 \<Longrightarrow> mg_clock s \<le> mg_clock (fold (health_check_body now) is s)" by blast+
qed

text \<open>The overall health is the worst of the modules in use, and healthy without any.\<close>

lemma calc_overall_health_Max:
  "calc_overall_health s =
     Max (insert HEALTH_STATUS_HEALTHY ((\<lambda>i. mi_health (mg_modules s i)) ` {i. i < MODULE_MAX \<and> mi_state (mg_modules s i) \<noteq> MODULE_STATE_UNINIT}))"
proof -
  let ?f = "\<lambda>i overall. if mi_state (mg_modules s i) = MODULE_STATE_UNINIT then overall
             else if overall < mi_health (mg_modules s i) then mi_health (mg_modules s i) else overall"
  have "fold ?f [0..<n] HEALTH_STATUS_HEALTHY =
    Max (insert HEALTH_STATUS_HEALTHY ((\<lambda>i. mi_health (mg_modules s i)) ` {i. i < n \<and> mi_state (mg_modules s i) \<noteq> MODULE_STATE_UNINIT}))" for n
  proof (induction n)
    case (Suc n)
    let ?g = "\<lambda>i. mi_health (mg_modules s i)" and ?S = "\<lambda>n. {i. i < n \<and> mi_state (mg_modules s i) \<noteq> MODULE_STATE_UNINIT}"
    have fin: "finite (?g ` ?S n)" by simp
    show ?case
    proof (cases "mi_state (mg_modules s n) = MODULE_STATE_UNINIT")
      case True
      then have "?S (Suc n) = ?S n" by (auto simp: less_Suc_eq)
      with Suc True show ?thesis by simp
    next
      case False
      then have "?S (Suc n) = insert n (?S n)" by (auto simp: less_Suc_eq)
      then have "Max (insert HEALTH_STATUS_HEALTHY (?g ` ?S (Suc n))) = max (?g n) (Max (insert HEALTH_STATUS_HEALTHY (?g ` ?S n)))"
        using Max_insert [of "insert HEALTH_STATUS_HEALTHY (?g ` ?S n)" "?g n"] by (simp add: insert_commute)
      moreover have "fold ?f [0..<Suc n] HEALTH_STATUS_HEALTHY = max (?g n) (fold ?f [0..<n] HEALTH_STATUS_HEALTHY)"
        using False by (cases "fold ?f [0..<n] HEALTH_STATUS_HEALTHY < ?g n") (auto simp: max.absorb3 max.absorb2 not_less)
      ultimately show ?thesis by (simp only: Suc)
    qed
  qed simp
  then show ?thesis by (simp add: calc_overall_health_def)
qed

lemma calc_overall_health_ge:
  assumes "i < MODULE_MAX" "mi_state (mg_modules s i) \<noteq> MODULE_STATE_UNINIT" "mi_health (mg_modules s i) = HEALTH_STATUS_CRITICAL"
  shows "calc_overall_health s = HEALTH_STATUS_CRITICAL"
proof -
  have "HEALTH_STATUS_CRITICAL \<le> calc_overall_health s"
    unfolding calc_overall_health_Max using assms by (intro Max_ge) (auto intro!: image_eqI [where x = i])
  then show ?thesis by (cases "calc_overall_health s") (simp_all add: less_eq_health_status_def)
qed

text \<open>C25: the watchdog.  A running module whose last heartbeat is older than the timeout is found by the next
  manager_process: its error count goes up, and either it stays running and is critical, as is the overall health, or, when that is its
  last permitted error and recovery is on, it is set back to READY with a clean account, where the watchdog no longer looks at it.\<close>

theorem manager_watchdog:
  assumes "mg_is_initialized s" "mq_rep (mg_mq s) Q" "q_is_initialized (mq_queues (mg_mq s) MODULE_MANAGER)" "Q MODULE_MANAGER = []"
    and "i < MODULE_MAX" "mi_state (mg_modules s i) = MODULE_STATE_RUNNING"
    and "mi_last_heartbeat_ms (mg_modules s i) \<le> mg_clock s"
    and "ucast (fc_watchdog_timeout_ms (mg_config s)) < mg_clock s - mi_last_heartbeat_ms (mg_modules s i)"
    and "unat (mg_clock s) + 6 < 2 ^ 64"
  shows "\<exists>s'. manager_process s = Some (RET_OK, s') \<and>
     (if fc_auto_recovery (mg_config s) \<and> fc_max_error_count (mg_config s) \<le> mi_error_count (mg_modules s i) + 1
      then mi_state (mg_modules s' i) = MODULE_STATE_READY \<and> mi_error_count (mg_modules s' i) = 0 \<and>
        mi_health (mg_modules s' i) = HEALTH_STATUS_HEALTHY
      else mi_state (mg_modules s' i) = MODULE_STATE_RUNNING \<and>
        mi_error_count (mg_modules s' i) = mi_error_count (mg_modules s i) + 1 \<and>
        mi_health (mg_modules s' i) = HEALTH_STATUS_CRITICAL \<and> sf_overall_health (mg_stats s') = HEALTH_STATUS_CRITICAL)"
proof -
  let ?m = "mg_modules s i" and ?c = "mg_config s" and ?now = "mg_clock s"
  from manager_process_drains' [OF assms(1-3)] assms(4) obtain q where
    p: "manager_process s = Some (RET_OK, publish (process_power_management (process_thermal_management (process_health_check (s\<lparr>mg_mq := q\<rparr>)))))"
    by auto
  define t where "t = s\<lparr>mg_mq := q, mg_clock := ?now + 1\<rparr>"
  define a where "a = fold (health_check_body ?now) [0..<i] t"
  define b where "b = health_check_body ?now i a"
  define e where "e = fold (health_check_body ?now) [Suc i..<MODULE_MAX] b"
  have split: "[0..<MODULE_MAX] = [0..<i] @ i # [Suc i..<MODULE_MAX]"
    using assms(5) by (metis upt_add_eq_append upt_conv_Cons le_add_diff_inverse less_imp_le_nat zero_le)
  then have fold: "fold (health_check_body ?now) [0..<MODULE_MAX] t = e" by (simp add: e_def b_def a_def)
  have clock1: "unat (?now + 1) = Suc (unat ?now)" using assms(9) by (simp add: unat_word_ariths)
  have A: "mg_config a = ?c" "mg_modules a i = ?m" "?now + 1 \<le> mg_clock a"
    using health_checks_frame(1) [of "[0..<i]" ?now t] health_checks_frame(8) [of "[0..<i]" t ?now] health_checks_frame(7) [of "[0..<i]" i ?now t] assms(5,9) clock1 by (simp_all add: a_def t_def MODULE_MAX_def)
  have fires: "watchdog_fires ?c ?now ?m" using assms(6-8) by (simp add: watchdog_fires_def age_of_def)
  have B: "mg_modules b i = reported_module ?c (mg_clock a) (checked_module (msg_queue_get_count (mg_mq a) i) ?m)"
    using assms(5,6) fires A by (simp add: b_def health_check_body_eq process_error_report_eq Let_def)
  have E: "mg_modules e i = mg_modules b i"
    unfolding e_def by (rule health_checks_frame(7)) auto
  have late: "ucast (fc_watchdog_timeout_ms ?c) < age_of (mi_last_heartbeat_ms ?m) (mg_clock a)"
  proof -
    have le: "unat ?now \<le> unat (mg_clock a)" using A(3) clock1 by (simp add: word_le_nat_alt)
    with assms(7) have hb: "mi_last_heartbeat_ms ?m \<le> mg_clock a" by (simp add: word_le_nat_alt)
    have "?now - mi_last_heartbeat_ms ?m \<le> mg_clock a - mi_last_heartbeat_ms ?m"
      using le assms(7) hb by (simp add: word_le_nat_alt unat_sub)
    with assms(8) hb show ?thesis by (simp add: age_of_def)
  qed
  define s' where "s' = publish (process_power_management (process_thermal_management (process_health_check (s\<lparr>mg_mq := q\<rparr>))))"
  have m': "mg_modules s' = mg_modules e" and o: "sf_overall_health (mg_stats s') = calc_overall_health e"
    by (simp_all add: s'_def publish_def process_power_management_def process_thermal_management_def process_health_check_def
        manager_timestamp_ms_def fold [unfolded t_def] Let_def)
  show ?thesis
  proof (cases "recovers ?c ?m")
    case True
    then have "mg_modules s' i = (checked_module (msg_queue_get_count (mg_mq a) i) ?m)
        \<lparr>mi_state := MODULE_STATE_READY, mi_health := HEALTH_STATUS_HEALTHY, mi_error_count := 0\<rparr>"
      by (simp add: m' E B reported_module_def recovers_def checked_module_def)
    with p True show ?thesis by (simp add: recovers_def s'_def)
  next
    case False
    then have m: "mi_state (mg_modules s' i) = MODULE_STATE_RUNNING"
      "mi_error_count (mg_modules s' i) = mi_error_count ?m + 1" "mi_health (mg_modules s' i) = HEALTH_STATUS_CRITICAL"
      using late assms(6) by (auto simp: m' E B reported_module_def recovers_def checked_module_def module_health_def Let_def)
    then have "sf_overall_health (mg_stats s') = HEALTH_STATUS_CRITICAL"
      using calc_overall_health_ge [OF assms(5), of e] by (simp add: o m')
    with p m False show ?thesis by (auto simp: recovers_def s'_def)
  qed
qed

section \<open>Temperature\<close>

text \<open>The state a reading calls for, and the readings that call for no change.\<close>

definition thermal_class :: "thermal_config \<Rightarrow> int \<Rightarrow> temp_state" where
  "thermal_class c t =
     (if tc_shutdown_threshold c \<le> t then TEMP_STATE_SHUTDOWN
      else if tc_critical_threshold c \<le> t then TEMP_STATE_CRITICAL
      else if tc_warning_threshold c \<le> t then TEMP_STATE_WARNING
      else TEMP_STATE_NORMAL)"

definition in_band :: "thermal_config \<Rightarrow> int \<Rightarrow> bool" where
  "in_band c t \<longleftrightarrow> tc_normal_threshold c < t \<and> t < tc_warning_threshold c"

definition temp_run :: "int list \<Rightarrow> manager_sys \<Rightarrow> manager_sys" where
  "temp_run ts s = fold (\<lambda>t s. snd (manager_update_temperature t s)) ts s"

lemma thermal_step:
  assumes "c = fc_thermal (mg_config s)" "tc_normal_threshold c < tc_warning_threshold c"
    "tc_warning_threshold c \<le> tc_critical_threshold c" "tc_critical_threshold c \<le> tc_shutdown_threshold c" "mg_is_initialized s"
  shows "mg_config (snd (manager_update_temperature t s)) = mg_config s" "mg_is_initialized (snd (manager_update_temperature t s))"
    "th_state (mg_thermal (snd (manager_update_temperature t s))) = (if in_band c t then th_state (mg_thermal s) else thermal_class c t)"
    "th_max_temp (mg_thermal (snd (manager_update_temperature t s))) = max (th_max_temp (mg_thermal s)) t"
    "th_current_temp (mg_thermal (snd (manager_update_temperature t s))) = t"
  using assms
  by (auto simp: manager_update_temperature_def process_thermal_management_def thermal_class_def in_band_def max_def Let_def)

text \<open>C26: after any sequence of temperature readings the temperature state is the one that the last reading outside of
  the band between the normal and the warning threshold calls for, and the state from before where all of them lie in the band; the
  recorded maximum is the maximum of the readings.\<close>

theorem manager_temperature_hysteresis:
  assumes "mg_is_initialized s" "tc_normal_threshold (fc_thermal (mg_config s)) < tc_warning_threshold (fc_thermal (mg_config s))"
    "tc_warning_threshold (fc_thermal (mg_config s)) \<le> tc_critical_threshold (fc_thermal (mg_config s))"
    "tc_critical_threshold (fc_thermal (mg_config s)) \<le> tc_shutdown_threshold (fc_thermal (mg_config s))"
  shows "th_state (mg_thermal (temp_run ts s)) =
     (case filter (\<lambda>t. \<not> in_band (fc_thermal (mg_config s)) t) ts of
        [] \<Rightarrow> th_state (mg_thermal s)
      | x # xs \<Rightarrow> thermal_class (fc_thermal (mg_config s)) (last (x # xs))) \<and>
     th_max_temp (mg_thermal (temp_run ts s)) = fold max ts (th_max_temp (mg_thermal s))"
proof -
  let ?c = "fc_thermal (mg_config s)"
  have "mg_config (temp_run ts s) = mg_config s \<and> mg_is_initialized (temp_run ts s) \<and>
    th_state (mg_thermal (temp_run ts s)) =
      (if filter (\<lambda>t. \<not> in_band ?c t) ts = [] then th_state (mg_thermal s)
       else thermal_class ?c (last (filter (\<lambda>t. \<not> in_band ?c t) ts))) \<and>
    th_max_temp (mg_thermal (temp_run ts s)) = fold max ts (th_max_temp (mg_thermal s))"
  proof (induction ts rule: rev_induct)
    case Nil
    then show ?case using assms(1) by (simp add: temp_run_def)
  next
    case (snoc t ts)
    define r where "r = temp_run ts s"
    have run: "temp_run (ts @ [t]) s = snd (manager_update_temperature t r)" by (simp add: temp_run_def r_def)
    note IH = snoc.IH [folded r_def]
    from IH have c: "?c = fc_thermal (mg_config r)" by simp
    note st = thermal_step [OF c assms(2-4), of t]
    show ?case unfolding run using st IH by (cases "in_band ?c t") (auto simp: max.commute)
  qed
  then show ?thesis by (cases "filter (\<lambda>t. \<not> in_band ?c t) ts") auto
qed

section \<open>Histories\<close>

text \<open>The state at program start; any operation of the other modules on the queues is a step of the system too.\<close>

definition manager_boot :: "mq_state \<Rightarrow> manager_sys" where
  "manager_boot q =
     \<lparr>mg_config = \<lparr>fc_heartbeat_interval_ms = 0, fc_health_check_interval_ms = 0, fc_watchdog_timeout_ms = 0, fc_max_error_count = 0,
        fc_auto_recovery = False,
        fc_thermal = \<lparr>tc_warning_threshold = 0, tc_critical_threshold = 0, tc_shutdown_threshold = 0, tc_normal_threshold = 0,
          tc_thermal_throttling = False\<rparr>,
        fc_power = \<lparr>pc_idle_timeout_ms = 0, pc_standby_timeout_ms = 0, pc_sleep_timeout_ms = 0, pc_power_management = False\<rparr>\<rparr>,
      mg_stats = \<lparr>sf_total_uptime_ms = 0, sf_total_errors = 0, sf_total_recoveries = 0, sf_reset_count = 0, sf_power_on_count = 0,
        sf_overall_health = HEALTH_STATUS_UNKNOWN, sf_thermal = zero_thermal, sf_power = zero_power\<rparr>,
      mg_modules = (\<lambda>_. blank_module 0), mg_thermal = zero_thermal, mg_power = zero_power, mg_is_initialized = False,
      mg_is_running = False, mg_clock = 0, mg_mq = q\<rparr>"

text \<open>With recovery on, an error account stays below its limit.\<close>

definition errors_bounded :: "firmware_config \<Rightarrow> module_info \<Rightarrow> bool" where
  "errors_bounded c m \<longleftrightarrow> (fc_auto_recovery c \<and> 0 < fc_max_error_count c \<longrightarrow> mi_error_count m < fc_max_error_count c)"

inductive manager_step :: "manager_sys \<Rightarrow> manager_sys \<Rightarrow> bool" where
  m_init_null: "manager_step s (snd (manager_init None s))"
| m_deinit: "manager_step s (snd (manager_deinit s))"
| m_init_all: "manager_step s (snd (manager_init_all_modules s))"
| m_start_all: "manager_step s (snd (manager_start_all_modules s))"
| m_stop_all: "manager_step s (snd (manager_stop_all_modules s))"
| m_process: "manager_process s = Some (r, s') \<Longrightarrow> manager_step s s'"
| m_set_state: "manager_step s (snd (manager_update_module_state i n s))"
| m_set_health: "manager_step s (snd (manager_update_module_health i n s))"
| m_report: "manager_report_error i code cs s = Some (r, s') \<Longrightarrow> manager_step s s'"
| m_heartbeat: "manager_step s (snd (manager_send_heartbeat i s))"
| m_power: "manager_step s (snd (manager_set_power_state n s))"
| m_activity: "manager_step s (snd (manager_report_activity s))"
| m_queues: "mq_exec p (mg_mq s) = Some q \<Longrightarrow> manager_step s (s\<lparr>mg_mq := q\<rparr>)"

text \<open>
  Histories carry two records of the past: the modules that were registered since the last initialisation
  with an error account at or above the limit, since the registration copies any account, and the
  temperatures reported since then, latest first.
\<close>

inductive manager_reachable :: "nat set \<Rightarrow> int list \<Rightarrow> manager_sys \<Rightarrow> bool" where
  boot: "manager_reachable {} [0] (manager_boot (mq_boot\<lparr>mq_malloc_fails := f\<rparr>))"
| init: "manager_reachable R ts s \<Longrightarrow> manager_reachable {} [25] (snd (manager_init (Some c) s))"
| step: "manager_reachable R ts s \<Longrightarrow> manager_step s s' \<Longrightarrow> manager_reachable R ts s'"
| register: "manager_reachable R ts s \<Longrightarrow>
     manager_reachable (if errors_bounded (mg_config s) m then R else insert i R) ts (snd (manager_register_module i (Some m) s))"
| temperature: "manager_reachable R ts s \<Longrightarrow>
     manager_reachable R (if mg_is_initialized s then t # ts else ts) (snd (manager_update_temperature t s))"

definition manager_ok :: "nat set \<Rightarrow> int list \<Rightarrow> manager_sys \<Rightarrow> bool" where
  "manager_ok R ts s \<longleftrightarrow> (mg_is_running s \<longrightarrow> mg_is_initialized s) \<and>
     ts \<noteq> [] \<and> th_current_temp (mg_thermal s) = hd ts \<and> th_max_temp (mg_thermal s) = Max (set ts) \<and>
     (\<forall>i<MODULE_MAX. i \<notin> R \<longrightarrow> errors_bounded (mg_config s) (mg_modules s i))"

definition manager_inv :: "nat set \<Rightarrow> int list \<Rightarrow> manager_sys \<Rightarrow> bool" where
  "manager_inv R ts s \<longleftrightarrow> (\<exists>own. mq_inv (mg_mq s) own) \<and> manager_ok R ts s"

lemma manager_inv_rep: "manager_inv R ts s \<Longrightarrow> \<exists>Q. mq_rep (mg_mq s) Q"
proof -
  assume "manager_inv R ts s"
  then obtain own where "mq_inv (mg_mq s) own" by (auto simp: manager_inv_def)
  then have "mq_rep (mg_mq s) (\<lambda>i. contents (mq_heap (mg_mq s)) (own i))" unfolding mq_rep_def by blast
  then show ?thesis by blast
qed

lemma manager_ok_mq [simp]: "manager_ok R ts (s\<lparr>mg_mq := q\<rparr>) = manager_ok R ts s" "manager_ok R ts (s\<lparr>mg_clock := t\<rparr>) = manager_ok R ts s"
  "manager_ok R ts (s\<lparr>mg_power := p\<rparr>) = manager_ok R ts s" "manager_ok R ts (s\<lparr>mg_stats := st\<rparr>) = manager_ok R ts s"
  by (simp_all add: manager_ok_def)

lemma manager_ok_module:
  assumes "manager_ok R ts s" "errors_bounded (mg_config s) (mg_modules s i) \<Longrightarrow> errors_bounded (mg_config s) m"
  shows "i < MODULE_MAX \<Longrightarrow> manager_ok R ts (s\<lparr>mg_modules := (mg_modules s)(i := m)\<rparr>)"
  using assms by (auto simp: manager_ok_def)

lemma errors_bounded_fields [simp]:
  "errors_bounded c (m\<lparr>mi_state := a\<rparr>) = errors_bounded c m" "errors_bounded c (m\<lparr>mi_health := h\<rparr>) = errors_bounded c m"
  "errors_bounded c (m\<lparr>mi_last_heartbeat_ms := t\<rparr>) = errors_bounded c m" "errors_bounded c (checked_module n m) = errors_bounded c m"
  by (simp_all add: errors_bounded_def checked_module_def)

lemma reported_module_bounded: "errors_bounded c (reported_module c now m)"
  by (auto simp: errors_bounded_def reported_module_def recovers_def Let_def not_le)

lemma manager_ok_report [simp]: "manager_ok R ts s \<Longrightarrow> manager_ok R ts (process_error_report i s)"
  by (cases "i < MODULE_MAX")
    (auto simp: process_error_report_eq process_error_report_beyond manager_ok_def reported_module_bounded)

lemma manager_ok_dispatch: "manager_ok R ts s \<Longrightarrow> manager_ok R ts (fold dispatch_message ms s)"
  by (induction ms arbitrary: s) (simp_all add: dispatch_message_def)

lemma manager_ok_health_body: "i < MODULE_MAX \<Longrightarrow> manager_ok R ts s \<Longrightarrow> manager_ok R ts (health_check_body now i s)"
  by (auto simp: health_check_body_eq Let_def intro!: manager_ok_report manager_ok_module)

lemma manager_ok_health: "manager_ok R ts s \<Longrightarrow> manager_ok R ts (process_health_check s)"
proof -
  assume ok: "manager_ok R ts s"
  have "manager_ok R ts (fold (health_check_body now) is r)" if "\<forall>i\<in>set is. i < MODULE_MAX" "manager_ok R ts r" for now "is" r
    using that by (induction "is" arbitrary: r) (simp_all add: manager_ok_health_body)
  from this [of "[0..<MODULE_MAX]"] ok show ?thesis by (simp add: process_health_check_def manager_timestamp_ms_def Let_def)
qed

lemma thermal_fields:
  "th_current_temp (mg_thermal (process_thermal_management s)) = th_current_temp (mg_thermal s)"
  "th_max_temp (mg_thermal (process_thermal_management s)) = max (th_max_temp (mg_thermal s)) (th_current_temp (mg_thermal s))"
  "mg_is_running (process_thermal_management s) = mg_is_running s" "mg_is_initialized (process_thermal_management s) = mg_is_initialized s"
  "mg_config (process_thermal_management s) = mg_config s" "mg_modules (process_thermal_management s) = mg_modules s"
  by (simp_all add: process_thermal_management_def Let_def)

lemma manager_ok_thermal: "manager_ok R ts s \<Longrightarrow> manager_ok R ts (process_thermal_management s)"
  by (auto simp: manager_ok_def thermal_fields max_def Max_ge antisym)

lemma manager_ok_temperature:
  "manager_ok R ts s \<Longrightarrow>
   manager_ok R (t # ts) (process_thermal_management (s\<lparr>mg_thermal := (mg_thermal s)\<lparr>th_current_temp := t\<rparr>\<rparr>))"
  by (auto simp: manager_ok_def thermal_fields max.commute)

lemma manager_ok_power: "manager_ok R ts s \<Longrightarrow> manager_ok R ts (process_power_management s)"
  by (simp add: process_power_management_def manager_timestamp_ms_def Let_def)

lemma manager_mq_frame [simp]:
  "mg_mq (process_health_check s) = mg_mq s" "mg_mq (process_thermal_management s) = mg_mq s"
  "mg_mq (process_power_management s) = mg_mq s" "mg_mq (publish s) = mg_mq s"
  using health_checks_frame(2) [of "[0..<MODULE_MAX]"]
  by (simp_all add: process_health_check_def process_thermal_management_def process_power_management_def publish_def
      manager_timestamp_ms_def Let_def)

lemma manager_messages_defined:
  assumes "mq_rep (mg_mq s) Q"
  shows "\<exists>ms q Q'. manager_messages s = Some ((fold dispatch_message ms s)\<lparr>mg_mq := q\<rparr>) \<and> mq_rep q Q'"
proof (cases "q_is_initialized (mq_queues (mg_mq s) MODULE_MANAGER)")
  case True
  with manager_messages_drains [OF assms] show ?thesis by blast
next
  case False
  then have "manager_messages s = Some s" by (subst manager_messages.simps) (simp add: msg_queue_get_count_def)
  with assms show ?thesis by (intro exI [of _ "[]"] exI [of _ "mg_mq s"]) auto
qed

lemma manager_process_defined:
  assumes "manager_inv R ts s"
  shows "\<exists>r s'. manager_process s = Some (r, s') \<and> manager_inv R ts s'"
proof (cases "mg_is_initialized s")
  case True
  from manager_inv_rep [OF assms] obtain Q where "mq_rep (mg_mq s) Q" by blast
  from manager_messages_defined [OF this] obtain ms q Q' where
    m: "manager_messages s = Some ((fold dispatch_message ms s)\<lparr>mg_mq := q\<rparr>)" "mq_rep q Q'" by blast
  let ?s = "process_health_check ((fold dispatch_message ms s)\<lparr>mg_mq := q\<rparr>)"
  have "manager_ok R ts ?s" using assms by (intro manager_ok_health) (simp add: manager_inv_def manager_ok_dispatch)
  then have "manager_ok R ts (process_thermal_management ?s)" by (rule manager_ok_thermal)
  with m(2) have "manager_inv R ts (publish (process_power_management (process_thermal_management ?s)))"
    unfolding mq_rep_def by (auto simp: manager_inv_def publish_def manager_ok_power)
  with m(1) True show ?thesis by (simp add: manager_process_def)
next
  case False
  with assms show ?thesis by (simp add: manager_process_def)
qed

lemma manager_report_defined:
  assumes "manager_inv R ts s"
  shows "\<exists>r s'. manager_report_error i code cs s = Some (r, s') \<and> manager_inv R ts s'"
proof -
  from assms obtain own where own: "mq_inv (mg_mq s) own" by (auto simp: manager_inv_def)
  from send_defined [OF own, of "Some (error_message i code cs (ucast (mg_clock s)))" False] obtain r q own' where
    "msg_queue_send (mg_mq s) (Some (error_message i code cs (ucast (mg_clock s)))) = Some (r, q)" "mq_inv q own'"
    by (auto simp: mq_keeps_def)
  with assms show ?thesis
    by (cases "i < MODULE_MAX"; cases "mg_is_initialized s")
      (auto simp: manager_report_error_def manager_timestamp_ms_def manager_inv_def not_less)
qed

lemma manager_ok_folds:
  "manager_ok R ts s \<Longrightarrow> manager_ok R ts (fold start_body [0..<MODULE_MAX] s) \<and>
     mg_is_initialized (fold start_body [0..<MODULE_MAX] s) = mg_is_initialized s \<and> mg_mq (fold start_body [0..<MODULE_MAX] s) = mg_mq s"
  "manager_ok R ts s \<Longrightarrow> manager_ok R ts (fold stop_body [0..<MODULE_MAX] s) \<and>
     mg_is_initialized (fold stop_body [0..<MODULE_MAX] s) = mg_is_initialized s \<and> mg_mq (fold stop_body [0..<MODULE_MAX] s) = mg_mq s"
proof -
  have "manager_ok R ts (start_body i r) \<and> mg_is_initialized (start_body i r) = mg_is_initialized r \<and> mg_mq (start_body i r) = mg_mq r"
    "manager_ok R ts (stop_body i r) \<and> mg_is_initialized (stop_body i r) = mg_is_initialized r \<and> mg_mq (stop_body i r) = mg_mq r"
    if "i < MODULE_MAX" "manager_ok R ts r" for i r
    using that by (auto simp: start_body_def stop_body_def manager_timestamp_ms_def manager_ok_def errors_bounded_def Let_def)
  note b = this
  have "manager_ok R ts (fold start_body is r) \<and> mg_is_initialized (fold start_body is r) = mg_is_initialized r \<and>
      mg_mq (fold start_body is r) = mg_mq r" if "\<forall>i\<in>set is. i < MODULE_MAX" "manager_ok R ts r" for "is" r
    using that by (induction "is" arbitrary: r) (simp_all add: b)
  moreover have "manager_ok R ts (fold stop_body is r) \<and> mg_is_initialized (fold stop_body is r) = mg_is_initialized r \<and>
      mg_mq (fold stop_body is r) = mg_mq r" if "\<forall>i\<in>set is. i < MODULE_MAX" "manager_ok R ts r" for "is" r
    using that by (induction "is" arbitrary: r) (simp_all add: b)
  ultimately show "manager_ok R ts s \<Longrightarrow> manager_ok R ts (fold start_body [0..<MODULE_MAX] s) \<and>
     mg_is_initialized (fold start_body [0..<MODULE_MAX] s) = mg_is_initialized s \<and> mg_mq (fold start_body [0..<MODULE_MAX] s) = mg_mq s"
  "manager_ok R ts s \<Longrightarrow> manager_ok R ts (fold stop_body [0..<MODULE_MAX] s) \<and>
     mg_is_initialized (fold stop_body [0..<MODULE_MAX] s) = mg_is_initialized s \<and> mg_mq (fold stop_body [0..<MODULE_MAX] s) = mg_mq s"
    by simp_all
qed

lemma manager_step_inv:
  assumes "manager_step s s'" "manager_inv R ts s"
  shows "manager_inv R ts s'"
  using assms
proof cases
  case m_init_null
  with assms(2) show ?thesis by (simp add: manager_init_def)
next
  case m_deinit
  with assms(2) show ?thesis by (auto simp: manager_inv_def manager_ok_def manager_deinit_def)
next
  case m_init_all
  with assms(2) show ?thesis
    by (auto simp: manager_inv_def manager_ok_def manager_init_all_modules_def ready_module_def Let_def)
next
  case m_start_all
  have "manager_ok R ts s" using assms(2) by (simp add: manager_inv_def)
  from manager_ok_folds(1) [OF this] show ?thesis
    using assms(2) m_start_all by (auto simp: manager_start_all_modules_def manager_inv_def manager_ok_def)
next
  case m_stop_all
  have "manager_ok R ts s" using assms(2) by (simp add: manager_inv_def)
  from manager_ok_folds(2) [OF this] show ?thesis
    using assms(2) m_stop_all by (auto simp: manager_stop_all_modules_def manager_inv_def manager_ok_def)
next
  case (m_process r)
  with manager_process_defined [OF assms(2)] show ?thesis by auto
next
  case (m_set_state i n)
  with assms(2) show ?thesis by (auto simp: manager_update_module_state_def manager_inv_def manager_ok_def split: option.splits)
next
  case (m_set_health i n)
  with assms(2) show ?thesis
    by (auto simp: manager_update_module_health_def manager_inv_def manager_ok_def Let_def split: option.splits)
next
  case (m_report i code cs r)
  with manager_report_defined [OF assms(2), of i code cs] show ?thesis by auto
next
  case (m_heartbeat i)
  with assms(2) show ?thesis by (auto simp: manager_send_heartbeat_def manager_timestamp_ms_def manager_inv_def manager_ok_def)
next
  case (m_power n)
  with assms(2) show ?thesis
    by (auto simp: manager_set_power_state_def manager_timestamp_ms_def manager_inv_def Let_def split: option.splits)
next
  case m_activity
  with assms(2) show ?thesis by (auto simp: manager_report_activity_def manager_timestamp_ms_def manager_inv_def Let_def)
next
  case (m_queues p q)
  from assms(2) obtain own where "mq_inv (mg_mq s) own" by (auto simp: manager_inv_def)
  from mq_exec_defined [OF this, of p] m_queues assms(2) show ?thesis by (auto simp: manager_inv_def mq_keeps_def)
qed

lemma manager_reachable_inv: "manager_reachable R ts s \<Longrightarrow> manager_inv R ts s"
proof (induction rule: manager_reachable.induct)
  case (boot f)
  have "mq_inv (mq_boot\<lparr>mq_malloc_fails := f\<rparr>) (\<lambda>_. [])"
    by (simp add: mq_inv_def queue_ok_def mq_boot_def)
  then show ?case by (auto simp: manager_inv_def manager_ok_def manager_boot_def zero_thermal_def errors_bounded_def)
next
  case (init R ts s c)
  then show ?case by (auto simp: manager_inv_def manager_ok_def manager_init_def errors_bounded_def blank_module_def)
next
  case (step R ts s s')
  then show ?case by (blast intro: manager_step_inv)
next
  case (register R ts s m i)
  then show ?case by (auto simp: manager_register_module_def manager_inv_def manager_ok_def)
next
  case (temperature R ts s t)
  then show ?case using manager_ok_temperature by (auto simp: manager_update_temperature_def manager_inv_def)
qed

text \<open>C27: whatever the manager and the other modules do from program start, and whenever malloc fails, the
  recorded maximum is the largest of the temperatures reported since the last initialisation, 25 degrees
  included (before the first one, 0); with recovery on and a limit above zero, the error account of every
  module is below the limit, unless the module was registered since then with an account that is not,
  and a report for a module brings also such an account below it; only an initialised manager is
  running; and manager_process and manager_report_error always return.\<close>

theorem manager_histories_are_safe:
  assumes "manager_reachable R ts s"
  shows "(mg_is_running s \<longrightarrow> mg_is_initialized s) \<and>
     th_current_temp (mg_thermal s) = hd ts \<and> th_max_temp (mg_thermal s) = Max (set ts) \<and>
     (fc_auto_recovery (mg_config s) \<and> 0 < fc_max_error_count (mg_config s) \<and> i < MODULE_MAX \<longrightarrow>
        (i \<in> R \<or> mi_error_count (mg_modules s i) < fc_max_error_count (mg_config s)) \<and>
        mi_error_count (mg_modules (process_error_report i s) i) < fc_max_error_count (mg_config s)) \<and>
     manager_process s \<noteq> None \<and> manager_report_error j code cs s \<noteq> None"
proof -
  note inv = manager_reachable_inv [OF assms]
  have "errors_bounded (mg_config s) (mg_modules (process_error_report i s) i)" if "i < MODULE_MAX"
    using that reported_module_bounded by (auto simp: process_error_report_eq)
  then show ?thesis
    using inv manager_process_defined [OF inv] manager_report_defined [OF inv, of j code cs]
    by (auto simp: manager_inv_def manager_ok_def errors_bounded_def)
qed

section \<open>A manager to try the properties on\<close>

definition example_queues :: mq_state where
  "example_queues = snd (msg_queue_init mq_boot MODULE_MANAGER 8)"

definition example_config :: firmware_config where
  "example_config = (mg_config (manager_boot mq_boot))\<lparr>fc_watchdog_timeout_ms := 10, fc_max_error_count := 3, fc_auto_recovery := True\<rparr>"

definition example_manager :: manager_sys where
  "example_manager = upd_module MODULE_FTL (\<lambda>m. m\<lparr>mi_state := MODULE_STATE_RUNNING\<rparr>)
     ((snd (manager_init (Some example_config) (manager_boot example_queues)))\<lparr>mg_clock := 100\<rparr>)"

lemma example_queues_facts:
  "mq_rep example_queues (\<lambda>_. [])" "q_is_initialized (mq_queues example_queues MODULE_MANAGER)"
  "q_count (mq_queues example_queues MODULE_MANAGER) < q_max_size (mq_queues example_queues MODULE_MANAGER)"
  "mq_malloc_fails example_queues = (\<lambda>_. False)"
proof -
  have r: "msg_queue_init mq_boot MODULE_MANAGER 8 = (fst (msg_queue_init mq_boot MODULE_MANAGER 8), example_queues)"
    by (simp add: example_queues_def)
  note f = msg_queue_init_rep [OF mq_rep_boot manager_module_range _ r]
  show "mq_rep example_queues (\<lambda>_. [])" "q_is_initialized (mq_queues example_queues MODULE_MANAGER)"
    "q_count (mq_queues example_queues MODULE_MANAGER) < q_max_size (mq_queues example_queues MODULE_MANAGER)"
    using f(2-5) by (simp_all add: fun_upd_idem)
  show "mq_malloc_fails example_queues = (\<lambda>_. False)" using f(6) by (simp add: mq_boot_def)
qed

lemma example_manager_facts:
  "mg_is_initialized example_manager" "mg_mq example_manager = example_queues" "mg_clock example_manager = 100"
  "mi_state (mg_modules example_manager 1) = MODULE_STATE_RUNNING" "mi_last_heartbeat_ms (mg_modules example_manager 1) = 0"
  "mi_error_count (mg_modules example_manager 1) = 0" "fc_watchdog_timeout_ms (mg_config example_manager) = 10"
  "fc_max_error_count (mg_config example_manager) = 3"
  "fc_thermal (mg_config example_manager) = \<lparr>tc_warning_threshold = 70, tc_critical_threshold = 80, tc_shutdown_threshold = 90,
     tc_normal_threshold = 60, tc_thermal_throttling = True\<rparr>"
  "th_max_temp (mg_thermal example_manager) = 25"
  by (simp_all add: example_manager_def manager_init_def manager_boot_def example_config_def blank_module_def default_thermal_def)

lemma manager_process_drains_witness:
  "\<exists>s1 q. manager_report_error 1 7 None example_manager = Some (RET_OK, s1) \<and>
     manager_process s1 = Some (RET_OK, publish (process_power_management (process_thermal_management
        (process_health_check ((process_error_report 1 s1)\<lparr>mg_mq := q\<rparr>))))) \<and> mq_rep q (\<lambda>_. [])"
proof -
  let ?m = "error_message 1 7 None 100"
  have dst: "MODULE_MANAGER = hdr_dst_module (msg_hdr ?m)" by (simp add: error_message_def)
  have alloc: "\<not> mq_malloc_fails example_queues (mq_brk example_queues)" by (simp add: example_queues_facts(4))
  from send_rep [OF example_queues_facts(1) dst manager_module_range example_queues_facts(2,3) alloc] obtain q1 i t where
    q1: "msg_queue_send example_queues (Some ?m) = Some (RET_OK, q1)" "mq_rep q1 ((\<lambda>_. [])(MODULE_MANAGER := [stamp i t ?m]))"
      "q_is_initialized (mq_queues q1 MODULE_MANAGER)"
    by (auto simp: enqueue_prio_def)
  define s1 where "s1 = example_manager\<lparr>mg_clock := 101, mg_mq := q1\<rparr>"
  have rep: "manager_report_error 1 7 None example_manager = Some (RET_OK, s1)"
    using q1(1) by (simp add: manager_report_error_def MODULE_MAX_def example_manager_facts manager_timestamp_ms_def s1_def)
  have "mg_is_initialized s1" "mg_mq s1 = q1" by (simp_all add: s1_def example_manager_facts)
  with manager_process_drains [of s1 "(\<lambda>_. [])(MODULE_MANAGER := [stamp i t ?m])"] q1(2,3) obtain q where
    "manager_process s1 = Some (RET_OK, publish (process_power_management (process_thermal_management
        (process_health_check ((dispatch_message (stamp i t ?m) s1)\<lparr>mg_mq := q\<rparr>)))))" "mq_rep q (\<lambda>_. [])"
    by (auto simp: fun_upd_idem)
  with rep show ?thesis by (intro exI [of _ s1] exI [of _ q]) (simp add: dispatch_message_def stamp_def error_message_def)
qed

lemma manager_watchdog_witness:
  "\<exists>s'. manager_process example_manager = Some (RET_OK, s') \<and> mi_state (mg_modules s' 1) = MODULE_STATE_RUNNING \<and>
     mi_error_count (mg_modules s' 1) = 1 \<and> sf_overall_health (mg_stats s') = HEALTH_STATUS_CRITICAL"
proof -
  have "\<not> (3 :: u32) \<le> 1" by (simp add: word_le_nat_alt)
  with manager_watchdog [of example_manager "\<lambda>_. []" 1] example_queues_facts(1,2) show ?thesis
    by (auto simp: example_manager_facts MODULE_MAX_def simp del: One_nat_def)
qed

lemma manager_temperature_hysteresis_witness:
  "th_state (mg_thermal (temp_run [75, 65, 85, 65] example_manager)) = TEMP_STATE_CRITICAL \<and>
   th_max_temp (mg_thermal (temp_run [75, 65, 85, 65] example_manager)) = 85"
  using manager_temperature_hysteresis [of example_manager "[75, 65, 85, 65]"]
  by (simp add: example_manager_facts in_band_def thermal_class_def)

text \<open>A module is registered with five errors, where the limit is three, and the temperature rises.\<close>

lemma manager_histories_are_safe_witness:
  "\<exists>s. s = snd (manager_update_temperature 40 (snd (manager_register_module 2 (Some ((blank_module 2)\<lparr>mi_error_count := 5\<rparr>))
       (snd (manager_init (Some example_config) (manager_boot (mq_boot\<lparr>mq_malloc_fails := (\<lambda>_. True)\<rparr>))))))) \<and>
     mi_error_count (mg_modules s 2) = 5 \<and> mi_error_count (mg_modules (process_error_report 2 s) 2) < 3 \<and>
     mi_error_count (mg_modules s 3) < 3 \<and> th_max_temp (mg_thermal s) = 40 \<and> manager_process s \<noteq> None"
proof -
  let ?i = "snd (manager_init (Some example_config) (manager_boot (mq_boot\<lparr>mq_malloc_fails := (\<lambda>_. True)\<rparr>)))"
  let ?m = "(blank_module 2)\<lparr>mi_error_count := 5\<rparr>"
  let ?r = "snd (manager_register_module 2 (Some ?m) ?i)"
  let ?s = "snd (manager_update_temperature 40 ?r)"
  have i: "mg_is_initialized ?i" "fc_auto_recovery (mg_config ?i)" "fc_max_error_count (mg_config ?i) = 3"
    by (simp_all add: manager_init_def example_config_def)
  have r: "?r = upd_module 2 (\<lambda>_. ?m) ?i" using i(1) by (simp add: manager_register_module_def MODULE_MAX_def)
  have s: "mg_config ?s = mg_config ?i" "mg_modules ?s 2 = ?m" "mg_is_initialized ?r"
    using i(1) unfolding r by (simp_all add: manager_update_temperature_def thermal_fields)
  have "\<not> errors_bounded (mg_config ?i) ?m" using i by (simp add: errors_bounded_def word_less_nat_alt)
  moreover have b: "manager_reachable {} [25] ?i" by (rule manager_reachable.init [OF manager_reachable.boot])
  moreover note manager_reachable.register [OF b, of ?m 2]
  ultimately have "manager_reachable (insert 2 {}) [25] ?r" by (simp only: if_False)
  from manager_reachable.temperature [OF this, of 40] have h: "manager_reachable (insert 2 {}) [40, 25] ?s"
    using s(3) by (simp only: if_True)
  define t where "t = ?s"
  have "fc_auto_recovery (mg_config t)" "fc_max_error_count (mg_config t) = 3" "mi_error_count (mg_modules t 2) = 5"
    using s(1,2) i(2,3) by (simp_all only: t_def) simp
  with manager_histories_are_safe [OF h [folded t_def], where i = 2] manager_histories_are_safe [OF h [folded t_def], where i = 3]
  show ?thesis by (intro exI [of _ t] conjI) (auto simp: t_def [symmetric] MODULE_MAX_def)
qed

text \<open>
  A module that the manager has set to a deep sleep by hand is woken to a lighter state by the automatic
  management once the idle timeout has passed.
\<close>

lemma automatic_management_leaves_deep_sleep:
  assumes "pc_power_management (fc_power (mg_config s))" "ps_current_state (mg_power s) = POWER_STATE_DEEP_SLEEP"
    and "ucast (pc_idle_timeout_ms (fc_power (mg_config s))) \<le> age_of (ps_last_activity_ms (mg_power s)) (mg_clock s)"
  shows "ps_current_state (mg_power (process_power_management s)) \<in> {POWER_STATE_IDLE, POWER_STATE_STANDBY, POWER_STATE_SLEEP}"
  using assms by (auto simp: process_power_management_def manager_timestamp_ms_def enter_power_state_def Let_def)

end
