(* ===== verification/Wire.thy ===== *)
theory Wire
  imports NvmeIo
begin

text \<open>
  What the transports of NVMe commands share: little-endian fields in memory, the layout of the 64 bytes of a command
  and of the 16 bytes of a completion, pointers into the memory of a guest, and what sockets answer.
\<close>

section \<open>Little-endian fields\<close>

definition word_bytes :: "nat \<Rightarrow> nat \<Rightarrow> u8 list" where
  "word_bytes k n = map (\<lambda>i. of_nat (n div 256 ^ i)) [0..<k]"

definition word_at :: "(nat \<Rightarrow> u8) \<Rightarrow> nat \<Rightarrow> nat \<Rightarrow> nat" where
  "word_at m off k = (\<Sum>i<k. unat (m (off + i)) * 256 ^ i)"

lemma length_word_bytes [simp]: "length (word_bytes k n) = k"
  by (simp add: word_bytes_def)

lemma word_at_cong: "(\<And>i. i < k \<Longrightarrow> m (off + i) = m' (off + i)) \<Longrightarrow> word_at m off k = word_at m' off k"
  by (simp add: word_at_def)

text \<open>What \<open>word_bytes\<close> writes \<open>word_at\<close> reads.\<close>

lemma base_256_digits: "(\<Sum>i<k. (n div 256 ^ i mod 256) * 256 ^ i) = n mod 256 ^ k" for n :: nat
proof (induction k)
  case (Suc k)
  have "n mod 256 ^ Suc k = 256 ^ k * (n div 256 ^ k mod 256) + n mod 256 ^ k"
    using mod_mult2_eq [of n "256 ^ k" 256] by (simp add: mult.commute)
  with Suc show ?case by (simp add: mult.commute)
qed simp

lemma word_at_bytes:
  assumes "n < 256 ^ k" "\<And>i. i < k \<Longrightarrow> m (off + i) = word_bytes k n ! i"
  shows "word_at m off k = n"
proof -
  have "word_at m off k = (\<Sum>i<k. (n div 256 ^ i mod 256) * 256 ^ i)"
    unfolding word_at_def using assms(2) by (intro sum.cong) (simp_all add: word_bytes_def unsigned_of_nat take_bit_eq_mod)
  then show ?thesis using assms(1) by (simp add: base_256_digits)
qed

lemma word_at_less: "word_at m off k < 256 ^ k"
proof (induction k)
  case (Suc k)
  have "unat (m (off + k)) < 2 ^ LENGTH(8)" by (rule unsigned_less)
  then have "unat (m (off + k)) * 256 ^ k \<le> 255 * 256 ^ k" by (intro mult_le_mono1) simp
  moreover have "word_at m off (Suc k) = word_at m off k + unat (m (off + k)) * 256 ^ k" by (simp add: word_at_def)
  ultimately have "word_at m off (Suc k) < 256 ^ k + 255 * 256 ^ k" using Suc by linarith
  then show ?case by simp
qed (simp add: word_at_def)

lemma mem_read_append: "mem_read m off (a + b) = mem_read m off a @ mem_read m (off + a) b"
  using upt_add_eq_append [of off "off + a" b] by (simp add: mem_read_def add.assoc)

lemma mem_read_cong: "(\<And>i. i < n \<Longrightarrow> m (off + i) = bs ! i) \<Longrightarrow> length bs = n \<Longrightarrow> mem_read m off n = bs"
  by (rule nth_equalityI) simp_all

lemma u32_small: "n < 2 ^ 32 \<Longrightarrow> unat (of_nat n :: u32) = n"
  by (simp add: unsigned_of_nat take_bit_nat_eq_self)

lemma bind_SomeE: "Option.bind f g = Some y \<Longrightarrow> (\<And>x. f = Some x \<Longrightarrow> g x = Some y \<Longrightarrow> P) \<Longrightarrow> P"
  by (cases f) auto

lemma block_number_small: "unat slba + i < 2 ^ 32 \<Longrightarrow> unat (ucast (slba + of_nat i) :: u32) = unat slba + i" for slba :: u64
proof -
  assume a: "unat slba + i < 2 ^ 32"
  have "unat (slba + of_nat i) = (unat slba + i) mod 2 ^ 64" by (simp add: unat_word_ariths unsigned_of_nat take_bit_eq_mod mod_simps)
  also have "\<dots> = unat slba + i" using a by (intro mod_less) simp
  finally show ?thesis using a by (simp add: unsigned_ucast_eq take_bit_nat_eq_self)
qed

text \<open>Pages of 4096 bytes: their addresses, and one after another in a buffer.\<close>

lemma page_aligned: "a AND 0xFFF = 0 \<Longrightarrow> a AND NOT 0xFFF = a" for a :: u64
proof -
  assume "a AND 0xFFF = 0"
  moreover have "a = (a AND NOT 0xFFF) OR (a AND 0xFFF)" by (rule bit_eqI) (auto simp: bit_simps)
  ultimately show ?thesis by simp
qed

lemma page_of_mem_write:
  assumes "length b = 4096"
  shows "mem_read (mem_write m (k * 4096) b) (i * 4096) 4096 = (if i = k then b else mem_read m (i * 4096) 4096)"
proof (cases i k rule: linorder_cases)
  case less
  then have "Suc i * 4096 \<le> k * 4096" by (intro mult_le_mono1) simp
  with less show ?thesis by (simp add: mem_read_write_disjoint)
next
  case greater
  then have "Suc k * 4096 \<le> i * 4096" by (intro mult_le_mono1) simp
  with greater assms show ?thesis by (simp add: mem_read_write_disjoint)
qed (simp add: assms mem_read_write_same)

section \<open>Commands and completions\<close>

definition command_at :: "(nat \<Rightarrow> u8) \<Rightarrow> nat \<Rightarrow> nvme_command" where
  "command_at m off =
     \<lparr>nc_opcode = m off, nc_flags = m (off + 1), nc_cid = of_nat (word_at m (off + 2) 2), nc_nsid = of_nat (word_at m (off + 4) 4),
      nc_mptr = of_nat (word_at m (off + 16) 8), nc_prp1 = of_nat (word_at m (off + 24) 8), nc_prp2 = of_nat (word_at m (off + 32) 8),
      nc_cdw10 = of_nat (word_at m (off + 40) 4), nc_cdw11 = of_nat (word_at m (off + 44) 4), nc_cdw12 = of_nat (word_at m (off + 48) 4),
      nc_cdw13 = of_nat (word_at m (off + 52) 4), nc_cdw14 = of_nat (word_at m (off + 56) 4), nc_cdw15 = of_nat (word_at m (off + 60) 4)\<rparr>"

lemma command_at_cong:
  assumes "\<And>i. i < 64 \<Longrightarrow> m (off + i) = m' (off + i)"
  shows "command_at m off = command_at m' off"
proof -
  have "word_at m (off + k) n = word_at m' (off + k) n" if "k + n \<le> 64" for k n
    using that assms by (intro word_at_cong) (simp add: add.assoc)
  with assms [of 0] assms [of 1] show ?thesis unfolding command_at_def by (simp del: add_2_eq_Suc')
qed

definition completion_bytes :: "nvme_completion \<Rightarrow> u8 list" where
  "completion_bytes cpl =
     word_bytes 4 (unat (cp_dw0 cpl)) @ word_bytes 4 (unat (cp_rsvd1 cpl)) @ word_bytes 2 (unat (cp_sqhd cpl)) @
     word_bytes 2 (unat (cp_sqid cpl)) @ word_bytes 2 (unat (cp_cid cpl)) @ word_bytes 2 (unat (cp_status cpl))"

lemma length_completion_bytes [simp]: "length (completion_bytes cpl) = 16"
  by (simp add: completion_bytes_def)

section \<open>Memory of the guest and sockets\<close>

text \<open>A pointer into a mapping of guest memory: the object of memory, the position in it, and how many bytes of the
  mapping follow.\<close>

type_synonym hva = "nat \<times> nat \<times> nat"

text \<open>\<open>mmap\<close> fails with an error number or gives an object of memory.\<close>

datatype map_answer = Map_failed nat | Mapped nat

text \<open>What \<open>recvmsg\<close> or \<open>recv\<close> returns: bytes with descriptors, or nothing.\<close>

datatype sock_answer = Got "u8 list" "int list" | No_data

text \<open>Bytes put over those of an array.\<close>

definition put_at :: "nat \<Rightarrow> u8 list \<Rightarrow> u8 list \<Rightarrow> u8 list" where
  "put_at off bs l = take off l @ bs @ drop (off + length bs) l"

lemma length_put_at: "off + length bs \<le> length l \<Longrightarrow> length (put_at off bs l) = length l"
  by (simp add: put_at_def)

end
