(* ===== verification/Tcp.thy ===== *)
theory Tcp
  imports Wire
begin

text \<open>
  The NVMe/TCP target, \<open>src/protocol/nvme/nvme_tcp_target.c\<close> and \<open>include/protocol/nvme_tcp_target.h\<close>: connections with
  their receive buffers, the framing of PDUs, the command capsules over the NVMe controller and the FTL, data in both
  directions.  A receive buffer is the 65536 bytes that \<open>malloc\<close> gave, of which the first \<open>tn_recv_len\<close> have been
  received; the bytes behind them are what earlier PDUs left.  Sockets are the environment: streams say what each
  \<open>send\<close> and \<open>recv\<close> returns, the bytes sent are logged with their descriptor, and the answers of \<open>select\<close>,
  \<open>accept\<close>, \<open>socket\<close>, \<open>bind\<close> and \<open>listen\<close> are arguments.  An outer \<open>None\<close> is an access outside of a buffer, what the FTL
  leaves undefined, or a \<open>send\<close> that asks to be repeated for ever.  Log lines are left out.
\<close>

section \<open>Constants and data\<close>

definition NVME_TCP_DEFAULT_PORT :: u16 where "NVME_TCP_DEFAULT_PORT = 4420"
definition NVME_TCP_MAX_CONNECTIONS :: nat where "NVME_TCP_MAX_CONNECTIONS = 4"
definition NVME_TCP_BUFFER_SIZE :: nat where "NVME_TCP_BUFFER_SIZE = 65536"
definition NVME_TCP_DEFAULT_MAXH2CDATA :: u32 where "NVME_TCP_DEFAULT_MAXH2CDATA = 8192"
definition NVME_TCP_DEFAULT_MAXR2T :: u32 where "NVME_TCP_DEFAULT_MAXR2T = 1"
definition NVME_TCP_MAX_IO_SIZE :: nat where "NVME_TCP_MAX_IO_SIZE = 1048576"
definition NVME_TCP_DATA_FLAGS_LAST_PDU :: u8 where "NVME_TCP_DATA_FLAGS_LAST_PDU = 4"

abbreviation (input) NVME_TCP_PDU_ICREQ :: u8 where "NVME_TCP_PDU_ICREQ \<equiv> 0x00"
abbreviation (input) NVME_TCP_PDU_ICRESP :: u8 where "NVME_TCP_PDU_ICRESP \<equiv> 0x01"
abbreviation (input) NVME_TCP_PDU_H2C_TERM_REQ :: u8 where "NVME_TCP_PDU_H2C_TERM_REQ \<equiv> 0x02"
abbreviation (input) NVME_TCP_PDU_C2H_TERM_REQ :: u8 where "NVME_TCP_PDU_C2H_TERM_REQ \<equiv> 0x03"
abbreviation (input) NVME_TCP_PDU_CAPSULE_CMD :: u8 where "NVME_TCP_PDU_CAPSULE_CMD \<equiv> 0x04"
abbreviation (input) NVME_TCP_PDU_CAPSULE_RESP :: u8 where "NVME_TCP_PDU_CAPSULE_RESP \<equiv> 0x05"
abbreviation (input) NVME_TCP_PDU_H2CDATA :: u8 where "NVME_TCP_PDU_H2CDATA \<equiv> 0x06"
abbreviation (input) NVME_TCP_PDU_C2HDATA :: u8 where "NVME_TCP_PDU_C2HDATA \<equiv> 0x07"
abbreviation (input) NVME_TCP_PDU_R2T :: u8 where "NVME_TCP_PDU_R2T \<equiv> 0x09"

datatype tcp_conn_state =
    NVME_TCP_CONN_NEW | NVME_TCP_CONN_READY | NVME_TCP_CONN_ACTIVE | NVME_TCP_CONN_TERMINATING | NVME_TCP_CONN_CLOSED

text \<open>The data buffer of a connection is either \<open>NULL\<close> or the buffer for writes that all connections share.\<close>

record tcp_conn =
  tn_sockfd :: int
  tn_state :: tcp_conn_state
  tn_maxh2cdata :: u32
  tn_maxr2t :: u32
  tn_hdgst_enable :: bool
  tn_ddgst_enable :: bool
  tn_cpda :: u8
  tn_hpda :: u8
  tn_recv_buffer :: "(nat \<Rightarrow> u8) option"
  tn_recv_len :: nat
  tn_has_data_buffer :: bool
  tn_data_len :: u32
  tn_data_total :: u32
  tn_pending_cmd_id :: u16
  tn_pending_sqid :: u16
  tn_pending_slba :: u64
  tn_pending_opcode :: u8
  tn_qid :: u16
  tn_last_activity_ms :: u64

record tcp_target_config =
  tg_port :: u16
  tg_subnqn :: "string option"
  tg_maxh2cdata :: u32

text \<open>What one call of the library returns: some bytes (at most as many as were asked for), try again, or an error.\<close>

datatype send_answer = Sent nat | Send_again | Send_error
datatype recv_answer = Received "u8 list" | Recv_again | Recv_error

record tcp_sys =
  tp_config :: tcp_target_config
  tp_conns :: "nat \<Rightarrow> tcp_conn"
  tp_listen_fd :: int
  tp_running :: bool
  tp_io_write_buf :: "nat \<Rightarrow> u8"
  tp_io_read_buf :: "nat \<Rightarrow> u8"
  tp_nvme :: nvme_sys
  tp_sent :: "(int \<times> u8 list) list"
  tp_send :: "nat \<Rightarrow> send_answer"
  tp_send_count :: nat
  tp_recv :: "nat \<Rightarrow> recv_answer"
  tp_recv_count :: nat
  tp_malloc_fails :: "nat \<Rightarrow> bool"
  tp_malloc_count :: nat

definition upd_conn :: "nat \<Rightarrow> (tcp_conn \<Rightarrow> tcp_conn) \<Rightarrow> tcp_sys \<Rightarrow> tcp_sys" where
  "upd_conn c f s = s\<lparr>tp_conns := (tp_conns s)(c := f (tp_conns s c))\<rparr>"

definition zero_conn :: tcp_conn where
  "zero_conn = \<lparr>tn_sockfd = 0, tn_state = NVME_TCP_CONN_NEW, tn_maxh2cdata = 0, tn_maxr2t = 0, tn_hdgst_enable = False,
     tn_ddgst_enable = False, tn_cpda = 0, tn_hpda = 0, tn_recv_buffer = None, tn_recv_len = 0, tn_has_data_buffer = False,
     tn_data_len = 0, tn_data_total = 0, tn_pending_cmd_id = 0, tn_pending_sqid = 0, tn_pending_slba = 0, tn_pending_opcode = 0,
     tn_qid = 0, tn_last_activity_ms = 0\<rparr>"

definition tcp_malloc :: "tcp_sys \<Rightarrow> bool \<times> tcp_sys" where
  "tcp_malloc s = (\<not> tp_malloc_fails s (tp_malloc_count s), s\<lparr>tp_malloc_count := tp_malloc_count s + 1\<rparr>)"

section \<open>Sending\<close>

text \<open>The bytes that are left go to \<open>send\<close> until all are taken or an error comes back.\<close>

partial_function (option) tcp_send_all :: "int \<Rightarrow> u8 list \<Rightarrow> tcp_sys \<Rightarrow> (bool \<times> tcp_sys) option" where
  "tcp_send_all fd bs s =
     (if bs = [] then Some (True, s)
      else
        let a = tp_send s (tp_send_count s); s = s\<lparr>tp_send_count := tp_send_count s + 1\<rparr> in
        (case a of
           Send_error \<Rightarrow> Some (False, s)
         | Send_again \<Rightarrow> tcp_send_all fd bs s
         | Sent n \<Rightarrow> let k = max 1 n in tcp_send_all fd (drop k bs) (s\<lparr>tp_sent := tp_sent s @ [(fd, take k bs)]\<rparr>)))"

text \<open>The common header: type, flags, length of the header, offset of the data, total length.\<close>

definition pdu_hdr :: "u8 \<Rightarrow> u8 \<Rightarrow> nat \<Rightarrow> nat \<Rightarrow> u8 list" where
  "pdu_hdr ty flags hlen plen = [ty, flags, of_nat hlen, of_nat hlen] @ word_bytes 4 plen"

definition nvme_tcp_send_capsule_resp :: "nat \<Rightarrow> nvme_completion \<Rightarrow> tcp_sys \<Rightarrow> (ret_code \<times> tcp_sys) option" where
  "nvme_tcp_send_capsule_resp c cpl s =
     do {
       (sent, s) \<leftarrow> tcp_send_all (tn_sockfd (tp_conns s c))
                      (pdu_hdr NVME_TCP_PDU_CAPSULE_RESP 0 24 24 @ completion_bytes (cpl\<lparr>cp_status := cp_status cpl AND 0x7FFF\<rparr>)) s;
       Some (if sent then RET_OK else RET_ERR_INTERNAL, s)
     }"

definition c2hdata_pdu :: "u16 \<Rightarrow> u8 list \<Rightarrow> nat \<Rightarrow> bool \<Rightarrow> u8 list" where
  "c2hdata_pdu cccid data data_offset last_pdu =
     pdu_hdr NVME_TCP_PDU_C2HDATA (if last_pdu then NVME_TCP_DATA_FLAGS_LAST_PDU else 0) 24 (24 + length data) @
     word_bytes 2 (unat cccid) @ [0, 0] @ word_bytes 4 data_offset @ word_bytes 4 (length data) @ [0, 0, 0, 0] @ data"

definition nvme_tcp_send_c2hdata :: "nat \<Rightarrow> u16 \<Rightarrow> u8 list \<Rightarrow> nat \<Rightarrow> bool \<Rightarrow> tcp_sys \<Rightarrow> (ret_code \<times> tcp_sys) option" where
  "nvme_tcp_send_c2hdata c cccid data data_offset last_pdu s =
     (let (got, s) = tcp_malloc s in
      if \<not> got then Some (RET_ERR_NO_SPACE, s)
      else do {
        (sent, s) \<leftarrow> tcp_send_all (tn_sockfd (tp_conns s c)) (c2hdata_pdu cccid data data_offset last_pdu) s;
        Some (if sent then RET_OK else RET_ERR_INTERNAL, s)
      })"

definition nvme_tcp_send_r2t :: "nat \<Rightarrow> u16 \<Rightarrow> u16 \<Rightarrow> nat \<Rightarrow> nat \<Rightarrow> tcp_sys \<Rightarrow> (ret_code \<times> tcp_sys) option" where
  "nvme_tcp_send_r2t c cccid ttag off len s =
     do {
       (sent, s) \<leftarrow> tcp_send_all (tn_sockfd (tp_conns s c))
          (pdu_hdr NVME_TCP_PDU_R2T 0 24 24 @ word_bytes 2 (unat cccid) @ word_bytes 2 (unat ttag) @ word_bytes 4 off @
           word_bytes 4 len @ [0, 0, 0, 0]) s;
       Some (if sent then RET_OK else RET_ERR_INTERNAL, s)
     }"

text \<open>
  Data in chunks, each of its own PDU; what a chunk returns is not looked at.  The list holds the bytes that
  are there, \<open>data_len\<close> is the number the caller states: a chunk beyond the bytes is undefined.
\<close>

function c2hdata_chunks :: "nat \<Rightarrow> u16 \<Rightarrow> u8 list \<Rightarrow> nat \<Rightarrow> nat \<Rightarrow> nat \<Rightarrow> tcp_sys \<Rightarrow> tcp_sys option" where
  "c2hdata_chunks c cid data data_len chunk_size off s =
     (if data_len \<le> off \<or> chunk_size = 0 then Some s
      else
        let this_chunk = (if data_len - off < chunk_size then data_len - off else chunk_size) in
        if length data < off + this_chunk then None
        else do {
          (ret, s) \<leftarrow> nvme_tcp_send_c2hdata c cid (take this_chunk (drop off data)) off (data_len \<le> off + this_chunk) s;
          c2hdata_chunks c cid data data_len chunk_size (off + this_chunk) s
        })"
  by pat_completeness auto
termination
  by (relation "measure (\<lambda>(c, cid, data, data_len, chunk_size, off, s). data_len - off)") auto

declare c2hdata_chunks.simps [simp del]

definition nvme_tcp_send_c2hdata_chunks :: "nat \<Rightarrow> u16 \<Rightarrow> u8 list \<Rightarrow> nat \<Rightarrow> tcp_sys \<Rightarrow> (ret_code \<times> tcp_sys) option" where
  "nvme_tcp_send_c2hdata_chunks c cid data data_len s =
     (let m = tn_maxh2cdata (tp_conns s c); chunk_size = (if 0 < m then unat m else 8192) in
      map_option (\<lambda>s. (RET_OK, s)) (c2hdata_chunks c cid data data_len chunk_size 0 s))"

definition nvme_tcp_send_completion :: "nat \<Rightarrow> u16 \<Rightarrow> u16 \<Rightarrow> u16 \<Rightarrow> tcp_sys \<Rightarrow> tcp_sys option" where
  "nvme_tcp_send_completion c cid sqid status s =
     map_option snd (nvme_tcp_send_capsule_resp c (blank_completion\<lparr>cp_cid := cid, cp_sqid := sqid, cp_status := status\<rparr>) s)"

section \<open>Connections\<close>

definition find_free_conn :: "tcp_sys \<Rightarrow> nat option" where
  "find_free_conn s = find (\<lambda>c. tn_state (tp_conns s c) = NVME_TCP_CONN_CLOSED) [0..<NVME_TCP_MAX_CONNECTIONS]"

definition close_connection :: "nat \<Rightarrow> tcp_sys \<Rightarrow> tcp_sys" where
  "close_connection c = upd_conn c (\<lambda>n.
     n\<lparr>tn_sockfd := (if 0 \<le> tn_sockfd n then -1 else tn_sockfd n), tn_recv_buffer := None, tn_has_data_buffer := False,
       tn_state := NVME_TCP_CONN_CLOSED, tn_recv_len := 0, tn_data_len := 0, tn_data_total := 0\<rparr>)"

definition clear_data :: "nat \<Rightarrow> tcp_sys \<Rightarrow> tcp_sys" where
  "clear_data c = upd_conn c (\<lambda>n. n\<lparr>tn_has_data_buffer := False, tn_data_len := 0, tn_data_total := 0\<rparr>)"

text \<open>\<open>n\<close> bytes at an offset of the receive buffer, and a copy into the shared buffer for writes.\<close>

definition recv_bytes :: "nat \<Rightarrow> nat \<Rightarrow> nat \<Rightarrow> tcp_sys \<Rightarrow> u8 list option" where
  "recv_bytes c off n s =
     (case tn_recv_buffer (tp_conns s c) of
        None \<Rightarrow> None
      | Some m \<Rightarrow> if off + n \<le> NVME_TCP_BUFFER_SIZE then Some (mem_read m off n) else None)"

definition store_write_data :: "nat \<Rightarrow> u8 list \<Rightarrow> tcp_sys \<Rightarrow> tcp_sys option" where
  "store_write_data off bs s =
     (if off + length bs \<le> NVME_TCP_MAX_IO_SIZE then Some (s\<lparr>tp_io_write_buf := mem_write (tp_io_write_buf s) off bs\<rparr>) else None)"

definition icresp_pdu :: "nat \<Rightarrow> u8 \<Rightarrow> u32 \<Rightarrow> u8 list" where
  "icresp_pdu pfv cpda maxh2c =
     pdu_hdr NVME_TCP_PDU_ICRESP 0 128 128 @ word_bytes 2 pfv @ [cpda, 0] @ word_bytes 4 (unat maxh2c) @ replicate 112 0"

definition nvme_tcp_handle_icreq :: "nat \<Rightarrow> (nat \<Rightarrow> u8) \<Rightarrow> tcp_sys \<Rightarrow> (ret_code \<times> tcp_sys) option" where
  "nvme_tcp_handle_icreq c pdu s =
     (let pfv = word_at pdu 8 2; maxr2t = (of_nat (word_at pdu 12 4) :: u32);
          s = upd_conn c (\<lambda>n. n\<lparr>tn_hpda := pdu 10, tn_hdgst_enable := bit (pdu 11) 0, tn_ddgst_enable := bit (pdu 11) 1,
                tn_maxr2t := (if 0 < maxr2t then maxr2t else NVME_TCP_DEFAULT_MAXR2T),
                tn_maxh2cdata := NVME_TCP_DEFAULT_MAXH2CDATA, tn_cpda := 0\<rparr>) s in
      do {
        (sent, s) \<leftarrow> tcp_send_all (tn_sockfd (tp_conns s c)) (icresp_pdu pfv 0 NVME_TCP_DEFAULT_MAXH2CDATA) s;
        Some (if sent then (RET_OK, upd_conn c (\<lambda>n. n\<lparr>tn_state := NVME_TCP_CONN_READY\<rparr>) s) else (RET_ERR_INTERNAL, s))
      })"

section \<open>Command capsules\<close>

text \<open>The 64 bytes of a command behind the common header.\<close>

definition capsule_command :: "(nat \<Rightarrow> u8) \<Rightarrow> nvme_command" where
  "capsule_command m = command_at m 8"

abbreviation upd_ftl :: "ftl_dev \<Rightarrow> tcp_sys \<Rightarrow> tcp_sys" where
  "upd_ftl f s \<equiv> s\<lparr>tp_nvme := (tp_nvme s)\<lparr>nv_ftl := f\<rparr>\<rparr>"

text \<open>Page \<open>i\<close> of a transfer at block \<open>slba\<close>, with its number cut to 32 bits.\<close>

definition tcp_lpn :: "u64 \<Rightarrow> nat \<Rightarrow> nat" where
  "tcp_lpn slba i = unat (ucast (slba + of_nat i) :: u32)"

definition tcp_write_body :: "u64 \<Rightarrow> nat \<Rightarrow> tcp_sys \<Rightarrow> (u16, tcp_sys) ctl option" where
  "tcp_write_body slba i s =
     (if NVME_TCP_MAX_IO_SIZE < (i + 1) * 4096 then None
      else do {
        (ret, f) \<leftarrow> ftl_write (nv_ftl (tp_nvme s)) (tcp_lpn slba i) (Some (mem_read (tp_io_write_buf s) (i * 4096) 4096));
        Some (if ret \<noteq> RET_OK then Leave 0x0006 (upd_ftl f s) else Next (upd_ftl f s))
      })"

definition tcp_write_pages :: "u64 \<Rightarrow> nat \<Rightarrow> tcp_sys \<Rightarrow> (u16 \<times> tcp_sys) option" where
  "tcp_write_pages slba n s =
     do {
       r \<leftarrow> for_each [0..<n] (tcp_write_body slba) s;
       Some (case r of Leave st s \<Rightarrow> (st, s) | Next s \<Rightarrow> (0, s))
     }"

definition tcp_trim_body :: "nat \<Rightarrow> u16 \<times> tcp_sys \<Rightarrow> (u16 \<times> tcp_sys) option" where
  "tcp_trim_body r = (\<lambda>(st, s).
     let len = (of_nat (word_at (tp_io_write_buf s) (r * 16 + 4) 4) + 1 :: u32); slba = word_at (tp_io_write_buf s) (r * 16 + 8) 8 in
     do {
       (ret, f) \<leftarrow> ftl_trim (nv_ftl (tp_nvme s)) (slba mod 2 ^ 32) (unat len);
       Some (if ret \<noteq> RET_OK then 0x0006 else st, upd_ftl f s)
     })"

definition tcp_trim_ranges :: "nat \<Rightarrow> tcp_sys \<Rightarrow> (u16 \<times> tcp_sys) option" where
  "tcp_trim_ranges nr s = fold_option tcp_trim_body [0..<nr] (0, s)"

text \<open>Inline data: where it lies in the receive buffer and how long it is; at most the transfer is copied.\<close>

definition take_inline :: "nat \<Rightarrow> nat option \<Rightarrow> nat \<Rightarrow> nat \<Rightarrow> tcp_sys \<Rightarrow> tcp_sys option" where
  "take_inline c data data_len transfer_len s =
     (case data of
        None \<Rightarrow> Some s
      | Some off \<Rightarrow>
          if data_len = 0 then Some s
          else
            let copy_len = (if data_len < transfer_len then data_len else transfer_len) in
            do {
              bs \<leftarrow> recv_bytes c off copy_len s;
              s \<leftarrow> store_write_data 0 bs s;
              Some (upd_conn c (\<lambda>n. n\<lparr>tn_data_len := of_nat copy_len\<rparr>) s)
            })"

definition begin_transfer :: "nat \<Rightarrow> u16 \<Rightarrow> u16 \<Rightarrow> u8 \<Rightarrow> nat \<Rightarrow> tcp_sys \<Rightarrow> tcp_sys" where
  "begin_transfer c cid sqid op transfer_len = upd_conn c (\<lambda>n.
     n\<lparr>tn_has_data_buffer := True, tn_data_len := 0, tn_data_total := of_nat transfer_len, tn_pending_cmd_id := cid,
       tn_pending_sqid := sqid, tn_pending_opcode := op\<rparr>)"

definition capsule_write :: "nat \<Rightarrow> nvme_command \<Rightarrow> nat option \<Rightarrow> nat \<Rightarrow> tcp_sys \<Rightarrow> (ret_code \<times> tcp_sys) option" where
  "capsule_write c cmd data data_len s =
     (let cid = nc_cid cmd; sqid = tn_qid (tp_conns s c); slba = nvme_slba cmd; nlb = nvme_nlb cmd; transfer_len = nlb * 4096 in
      if NVME_TCP_MAX_IO_SIZE < transfer_len
      then map_option (\<lambda>s. (RET_ERR_PARAM, s)) (nvme_tcp_send_completion c cid sqid 0x0006 s)
      else do {
        let s = upd_conn c (\<lambda>n. n\<lparr>tn_pending_slba := slba\<rparr>) (begin_transfer c cid sqid NVME_IO_WRITE transfer_len s);
        s \<leftarrow> take_inline c data data_len transfer_len s;
        let got = unat (tn_data_len (tp_conns s c));
        if got < transfer_len
        then map_option (\<lambda>(ret, s). (RET_OK, s)) (nvme_tcp_send_r2t c cid 0 got (transfer_len - got) s)
        else do {
          (ws, s) \<leftarrow> tcp_write_pages slba nlb s;
          s \<leftarrow> nvme_tcp_send_completion c cid sqid ws s;
          Some (RET_OK, clear_data c s)
        }
      })"

text \<open>The number of ranges, in 8 bits.\<close>

definition dsm_ranges :: "nvme_command \<Rightarrow> nat" where
  "dsm_ranges cmd = (unat (nc_cdw10 cmd AND 0xFF) + 1) mod 256"

definition capsule_dataset_mgmt :: "nat \<Rightarrow> nvme_command \<Rightarrow> nat option \<Rightarrow> nat \<Rightarrow> tcp_sys \<Rightarrow> (ret_code \<times> tcp_sys) option" where
  "capsule_dataset_mgmt c cmd data data_len s =
     (let cid = nc_cid cmd; sqid = tn_qid (tp_conns s c); nr = dsm_ranges cmd; transfer_len = nr * 16 in
      do {
        s \<leftarrow> store_write_data 0 (replicate transfer_len 0) s;
        let s = begin_transfer c cid sqid NVME_IO_DATASET_MGMT transfer_len s;
        s \<leftarrow> take_inline c data data_len transfer_len s;
        let got = unat (tn_data_len (tp_conns s c));
        if got < transfer_len
        then map_option (\<lambda>(ret, s). (RET_OK, s)) (nvme_tcp_send_r2t c cid 0 got (transfer_len - got) s)
        else do {
          (ds, s) \<leftarrow> tcp_trim_ranges nr s;
          s \<leftarrow> nvme_tcp_send_completion c cid sqid ds s;
          Some (RET_OK, clear_data c s)
        }
      })"

definition upd_nvme_regs :: "(nvme_ctrl_regs \<Rightarrow> nvme_ctrl_regs) \<Rightarrow> tcp_sys \<Rightarrow> tcp_sys" where
  "upd_nvme_regs f s = s\<lparr>tp_nvme := upd_regs f (tp_nvme s)\<rparr>"

definition fabric_connect :: "nat \<Rightarrow> nat option \<Rightarrow> nat \<Rightarrow> nvme_completion \<Rightarrow> tcp_sys \<Rightarrow> (nvme_completion \<times> tcp_sys) option" where
  "fabric_connect c data data_len cpl s =
     do {
       qid \<leftarrow> (case data of
                Some off \<Rightarrow> if 18 \<le> data_len
                             then do { bs \<leftarrow> recv_bytes c (off + 16) 2 s;
                                       let q = unat (bs ! 0) + 256 * unat (bs ! 1);
                                       Some (if q = 0xFFFF then 0 else q) }
                             else Some 0
              | None \<Rightarrow> Some 0);
       Some (cpl\<lparr>cp_dw0 := 1, cp_status := 0\<rparr>, upd_conn c (\<lambda>n. n\<lparr>tn_qid := of_nat qid\<rparr>) s)
     }"

definition fabric_property_set :: "nvme_command \<Rightarrow> nvme_completion \<Rightarrow> tcp_sys \<Rightarrow> nvme_completion \<times> tcp_sys" where
  "fabric_property_set cmd cpl s =
     (let off = nc_cdw11 cmd; value = (push_bit 32 (ucast (nc_cdw13 cmd)) OR ucast (nc_cdw12 cmd) :: u64);
          s = (if off = 0x14 then
                 upd_nvme_regs (\<lambda>r. r\<lparr>r_cc := ucast value, r_csts := (if bit value 0 then r_csts r OR 1 else r_csts r AND NOT 1)\<rparr>) s
               else if off = 0x24 then upd_nvme_regs (\<lambda>r. r\<lparr>r_aqa := ucast value\<rparr>) s
               else if off = 0x28 then upd_nvme_regs (\<lambda>r. r\<lparr>r_asq := value\<rparr>) s
               else if off = 0x30 then upd_nvme_regs (\<lambda>r. r\<lparr>r_acq := value\<rparr>) s
               else s) in
      (cpl\<lparr>cp_status := 0\<rparr>, s))"

definition fabric_property_get :: "nvme_command \<Rightarrow> nvme_completion \<Rightarrow> tcp_sys \<Rightarrow> nvme_completion" where
  "fabric_property_get cmd cpl s =
     (let off = nc_cdw11 cmd; r = nvme_ctrl_get_regs (tp_nvme s);
          value = (if off = 0x00 then r_cap r
                   else if off = 0x08 then ucast (r_vs r)
                   else if off = 0x14 then ucast (r_cc r)
                   else if off = 0x1C then ucast (r_csts r)
                   else if off = 0x24 then ucast (r_aqa r)
                   else if off = 0x28 then r_asq r
                   else if off = 0x30 then r_acq r
                   else 0) in
      cpl\<lparr>cp_dw0 := ucast value, cp_rsvd1 := ucast (drop_bit 32 value), cp_status := 0\<rparr>)"

text \<open>The type of a fabrics command is the byte behind the command identifier.\<close>

definition capsule_fabric :: "nat \<Rightarrow> nvme_command \<Rightarrow> nat option \<Rightarrow> nat \<Rightarrow> tcp_sys \<Rightarrow> (ret_code \<times> tcp_sys) option" where
  "capsule_fabric c cmd data data_len s =
     (let fctype = (ucast (nc_nsid cmd) :: u8);
          cpl = blank_completion\<lparr>cp_cid := nc_cid cmd, cp_sqid := tn_qid (tp_conns s c)\<rparr> in
      do {
        (cpl, s) \<leftarrow> (if fctype = 0x01 then fabric_connect c data data_len cpl s
                      else if fctype = 0x00 then Some (fabric_property_set cmd cpl s)
                      else if fctype = 0x04 then Some (fabric_property_get cmd cpl s, s)
                      else Some (cpl\<lparr>cp_status := 0\<rparr>, s));
        (ret, s) \<leftarrow> nvme_tcp_send_capsule_resp c cpl s;
        Some (RET_OK, s)
      })"

definition identify_data :: "nvme_command \<Rightarrow> nvme_sys \<Rightarrow> u8 list option" where
  "identify_data cmd s =
     (let cns = (ucast (nc_cdw10 cmd) :: u8) in
      if cns = 0x01 then nvme_ctrl_fill_identify_controller (replicate 4096 0) 4096 s
      else if cns = 0x00 then nvme_ctrl_fill_identify_namespace (replicate 4096 0) 4096 (nc_nsid cmd)
      else if cns \<in> {0x02, 0x10, 0x11, 0x12} then Some (0x01 # replicate 4095 0)
      else if cns = 0x03 then Some ([0x02, 0x10, 0, 0] @ map (\<lambda>i. of_nat (i + 1)) [0..<16] @ replicate 4076 0)
      else Some (replicate 4096 0))"

definition capsule_identify :: "nat \<Rightarrow> nvme_command \<Rightarrow> tcp_sys \<Rightarrow> (ret_code \<times> tcp_sys) option" where
  "capsule_identify c cmd s =
     do {
       d \<leftarrow> identify_data cmd (tp_nvme s);
       (ret, s) \<leftarrow> nvme_tcp_send_c2hdata_chunks c (nc_cid cmd) d 4096 s;
       s \<leftarrow> nvme_tcp_send_completion c (nc_cid cmd) (tn_qid (tp_conns s c)) 0 s;
       Some (RET_OK, s)
     }"

definition log_page_len :: "nvme_command \<Rightarrow> nat" where
  "log_page_len cmd = (unat (drop_bit 16 (nc_cdw10 cmd) AND 0xFFFF) + 1) * 4"

definition capsule_get_log_page :: "nat \<Rightarrow> nvme_command \<Rightarrow> tcp_sys \<Rightarrow> (ret_code \<times> tcp_sys) option" where
  "capsule_get_log_page c cmd s =
     (let lid = (ucast (nc_cdw10 cmd) :: u8); log_len = log_page_len cmd in
      do {
        d \<leftarrow> (if lid = 0x02
               then do { b \<leftarrow> nvme_ctrl_fill_smart_log (Some (replicate 4096 0)) (if log_len < 512 then log_len else 512) (tp_nvme s); b }
               else Some (replicate 4096 0));
        (ret, s) \<leftarrow> nvme_tcp_send_c2hdata_chunks c (nc_cid cmd) d log_len s;
        s \<leftarrow> nvme_tcp_send_completion c (nc_cid cmd) (tn_qid (tp_conns s c)) 0 s;
        Some (RET_OK, s)
      })"

definition tcp_zeroes_body :: "u64 \<Rightarrow> nat \<Rightarrow> tcp_sys \<Rightarrow> (u16, tcp_sys) ctl option" where
  "tcp_zeroes_body slba i s =
     do {
       (ret, f) \<leftarrow> ftl_write (nv_ftl (tp_nvme s)) (tcp_lpn slba i) (Some zero_page);
       Some (if ret \<noteq> RET_OK then Leave 0x0006 (upd_ftl f s) else Next (upd_ftl f s))
     }"

text \<open>A page that cannot be read is sent as zeros.\<close>

definition tcp_read_body :: "u64 \<Rightarrow> nat \<Rightarrow> tcp_sys \<Rightarrow> tcp_sys" where
  "tcp_read_body slba i s =
     (let (ret, out, f) = ftl_read (nv_ftl (tp_nvme s)) (tcp_lpn slba i) True; s = upd_ftl f s;
          m = (case out of Some bs \<Rightarrow> mem_write (tp_io_read_buf s) (i * 4096) bs | None \<Rightarrow> tp_io_read_buf s);
          m = (if ret \<noteq> RET_OK then mem_write m (i * 4096) zero_page else m) in
      s\<lparr>tp_io_read_buf := m\<rparr>)"

definition capsule_zeroes :: "nvme_command \<Rightarrow> nvme_completion \<times> tcp_sys \<Rightarrow> (nvme_completion \<times> tcp_sys) option" where
  "capsule_zeroes cmd = (\<lambda>(cpl, s).
     do {
       r \<leftarrow> for_each [0..<nvme_nlb cmd] (tcp_zeroes_body (nvme_slba cmd)) s;
       Some (case r of Leave st s \<Rightarrow> (cpl\<lparr>cp_status := st\<rparr>, s) | Next s \<Rightarrow> (cpl\<lparr>cp_status := 0\<rparr>, s))
     })"

definition capsule_read :: "nat \<Rightarrow> nvme_command \<Rightarrow> nvme_completion \<times> tcp_sys \<Rightarrow> (nvme_completion \<times> tcp_sys) option" where
  "capsule_read c cmd = (\<lambda>(cpl, s).
     let nlb = nvme_nlb cmd; transfer_len = nlb * 4096 in
     if transfer_len \<le> NVME_TCP_MAX_IO_SIZE
     then do {
       let s = fold (tcp_read_body (nvme_slba cmd)) [0..<nlb] s;
       (ret, s) \<leftarrow> nvme_tcp_send_c2hdata_chunks c (nc_cid cmd) (mem_read (tp_io_read_buf s) 0 transfer_len) transfer_len s;
       Some (cpl, s)
     }
     else Some (cpl\<lparr>cp_status := 0x0006\<rparr>, s))"

text \<open>All other commands go to the controller, whose status is replaced by success when it is not success.\<close>

definition capsule_other :: "nat \<Rightarrow> nvme_command \<Rightarrow> tcp_sys \<Rightarrow> (ret_code \<times> tcp_sys) option" where
  "capsule_other c cmd s =
     (let sqid = tn_qid (tp_conns s c) in
      do {
        (cpl, v) \<leftarrow> (if sqid = 0 then Some (nvme_ctrl_process_admin_cmd cmd (tp_nvme s)) else nvme_ctrl_process_io_cmd cmd (tp_nvme s));
        let s = s\<lparr>tp_nvme := v\<rparr>;
        let cpl = (if cp_status cpl AND 0x7FFE \<noteq> 0 then cpl\<lparr>cp_status := 0\<rparr> else cpl);
        (cpl, s) \<leftarrow> (if nc_opcode cmd = NVME_IO_WRITE_ZEROES \<and> sqid \<noteq> 0 then capsule_zeroes cmd (cpl, s) else Some (cpl, s));
        (cpl, s) \<leftarrow> (if nc_opcode cmd = NVME_IO_READ then capsule_read c cmd (cpl, s) else Some (cpl, s));
        (ret, s) \<leftarrow> nvme_tcp_send_capsule_resp c cpl s;
        Some (RET_OK, s)
      })"

definition nvme_tcp_handle_capsule_cmd :: "nat \<Rightarrow> (nat \<Rightarrow> u8) \<Rightarrow> nat option \<Rightarrow> nat \<Rightarrow> tcp_sys \<Rightarrow> (ret_code \<times> tcp_sys) option" where
  "nvme_tcp_handle_capsule_cmd c pdu data data_len s =
     (let cmd = capsule_command pdu; op = nc_opcode cmd; sqid = tn_qid (tp_conns s c) in
      if op = NVME_IO_WRITE then capsule_write c cmd data data_len s
      else if op = NVME_IO_DATASET_MGMT \<and> sqid \<noteq> 0 then capsule_dataset_mgmt c cmd data data_len s
      else if op = 0x7F then capsule_fabric c cmd data data_len s
      else if op = NVME_ADMIN_IDENTIFY then capsule_identify c cmd s
      else if op = NVME_ADMIN_GET_LOG_PAGE \<and> sqid = 0 then capsule_get_log_page c cmd s
      else capsule_other c cmd s)"

section \<open>Data from the host\<close>

text \<open>The fields of the header are 32-bit words, with the wrap-around of the code.\<close>

definition copy_h2cdata :: "nat \<Rightarrow> u32 \<Rightarrow> u32 \<Rightarrow> nat option \<Rightarrow> tcp_sys \<Rightarrow> tcp_sys option" where
  "copy_h2cdata c datao datal data s =
     (case data of
        None \<Rightarrow> Some s
      | Some off \<Rightarrow>
          if datal = 0 then Some s
          else
            let total = tn_data_total (tp_conns s c);
                copy_len = (if datal < total - datao then datal else total - datao) in
            if datao + copy_len \<le> total
            then do {
              bs \<leftarrow> recv_bytes c off (unat copy_len) s;
              s \<leftarrow> store_write_data (unat datao) bs s;
              Some (upd_conn c (\<lambda>n. n\<lparr>tn_data_len := tn_data_len n + copy_len\<rparr>) s)
            }
            else Some s)"

definition finish_transfer :: "nat \<Rightarrow> tcp_sys \<Rightarrow> tcp_sys option" where
  "finish_transfer c s =
     (let n = tp_conns s c in
      do {
        (status, s) \<leftarrow>
          (if tn_pending_opcode n = NVME_IO_WRITE then tcp_write_pages (tn_pending_slba n) (unat (tn_data_total n) div 4096) s
           else if tn_pending_opcode n = NVME_IO_DATASET_MGMT then tcp_trim_ranges (unat (tn_data_total n) div 16) s
           else Some (0, s));
        (ret, s) \<leftarrow> nvme_tcp_send_capsule_resp c
                       (blank_completion\<lparr>cp_cid := tn_pending_cmd_id n, cp_sqid := tn_pending_sqid n, cp_status := status\<rparr>) s;
        Some (clear_data c s)
      })"

definition nvme_tcp_handle_h2cdata :: "nat \<Rightarrow> (nat \<Rightarrow> u8) \<Rightarrow> nat option \<Rightarrow> tcp_sys \<Rightarrow> (ret_code \<times> tcp_sys) option" where
  "nvme_tcp_handle_h2cdata c pdu data s =
     (let datao = of_nat (word_at pdu 12 4); datal = of_nat (word_at pdu 16 4);
          last = (pdu 1 AND NVME_TCP_DATA_FLAGS_LAST_PDU \<noteq> 0) in
      if \<not> tn_has_data_buffer (tp_conns s c) \<or> tn_data_total (tp_conns s c) = 0 then Some (RET_ERR_PARAM, s)
      else do {
        s \<leftarrow> copy_h2cdata c datao datal data s;
        s \<leftarrow> (if last \<and> tn_data_total (tp_conns s c) \<le> tn_data_len (tp_conns s c) then finish_transfer c s else Some s);
        Some (RET_OK, s)
      })"

section \<open>The loop over the PDUs\<close>

definition dispatch_pdu :: "nat \<Rightarrow> (nat \<Rightarrow> u8) \<Rightarrow> nat \<Rightarrow> tcp_sys \<Rightarrow> tcp_sys option" where
  "dispatch_pdu c m plen s =
     (let ty = m 0; pdo = unat (m 3); data_len = (if pdo < plen then plen - pdo else 0);
          data = (if 0 < pdo \<and> pdo < plen then Some pdo else None) in
      if ty = NVME_TCP_PDU_ICREQ then map_option snd (nvme_tcp_handle_icreq c m s)
      else if ty = NVME_TCP_PDU_CAPSULE_CMD then map_option snd (nvme_tcp_handle_capsule_cmd c m data data_len s)
      else if ty = NVME_TCP_PDU_H2CDATA then map_option snd (nvme_tcp_handle_h2cdata c m data s)
      else if ty = NVME_TCP_PDU_H2C_TERM_REQ \<or> ty = NVME_TCP_PDU_C2H_TERM_REQ
      then Some (upd_conn c (\<lambda>n. n\<lparr>tn_state := NVME_TCP_CONN_TERMINATING\<rparr>) s)
      else Some s)"

text \<open>What is removed for an ICReq is at most the size of its structure.\<close>

definition consumed :: "u8 \<Rightarrow> nat \<Rightarrow> nat" where
  "consumed ty plen = (if ty = NVME_TCP_PDU_ICREQ \<and> 128 < plen then 128 else plen)"

definition shift_buffer :: "nat \<Rightarrow> nat \<Rightarrow> nat \<Rightarrow> tcp_sys \<Rightarrow> tcp_sys" where
  "shift_buffer c k n = upd_conn c (\<lambda>x.
     x\<lparr>tn_recv_len := n, tn_recv_buffer := map_option (\<lambda>m a. if a < n then m (a + k) else m a) (tn_recv_buffer x)\<rparr>)"

text \<open>\<open>n\<close> is the number of bytes received, which every round lowers.\<close>

function pdu_loop :: "nat \<Rightarrow> nat \<Rightarrow> tcp_sys \<Rightarrow> (ret_code \<times> tcp_sys) option" where
  "pdu_loop c n s =
     (if n < 8 then Some (RET_OK, s)
      else (case tn_recv_buffer (tp_conns s c) of
              None \<Rightarrow> None
            | Some m \<Rightarrow>
                let plen = word_at m 4 4 in
                if plen = 0 \<or> NVME_TCP_BUFFER_SIZE < plen then Some (RET_ERR_INTERNAL, s)
                else if n < plen then Some (RET_OK, s)
                else (case dispatch_pdu c m plen s of
                        None \<Rightarrow> None
                      | Some s \<Rightarrow> let k = consumed (m 0) plen in pdu_loop c (n - k) (shift_buffer c k (n - k) s))))"
  by pat_completeness auto
termination
  by (relation "measure (\<lambda>(c, n, s). n)") (auto simp: consumed_def)

declare pdu_loop.simps [simp del]

definition nvme_tcp_process_pdu :: "nat \<Rightarrow> tcp_sys \<Rightarrow> (ret_code \<times> tcp_sys) option" where
  "nvme_tcp_process_pdu c s =
     (let n = tn_recv_len (tp_conns s c); a = tp_recv s (tp_recv_count s); s = s\<lparr>tp_recv_count := tp_recv_count s + 1\<rparr> in
      case a of
        Recv_again \<Rightarrow> Some (RET_OK, s)
      | Recv_error \<Rightarrow> Some (RET_ERR_INTERNAL, s)
      | Received bs \<Rightarrow>
          let bs = take (NVME_TCP_BUFFER_SIZE - n) bs in
          if bs = [] then Some (RET_ERR_INTERNAL, s)
          else (case tn_recv_buffer (tp_conns s c) of
                  None \<Rightarrow> None
                | Some m \<Rightarrow> pdu_loop c (n + length bs)
                    (upd_conn c (\<lambda>x. x\<lparr>tn_recv_buffer := Some (mem_write m n bs), tn_recv_len := n + length bs\<rparr>) s)))"

section \<open>The target\<close>

definition DEFAULT_SUBNQN :: string where
  "DEFAULT_SUBNQN = ''nqn.2026-08.io.ftlfw:subsystem''"

text \<open>The answers of \<open>socket\<close>, \<open>bind\<close> and \<open>listen\<close>.\<close>

definition nvme_tcp_target_init :: "tcp_target_config option \<Rightarrow> int \<Rightarrow> bool \<Rightarrow> bool \<Rightarrow> tcp_sys \<Rightarrow> ret_code \<times> tcp_sys" where
  "nvme_tcp_target_init config fd bind_ok listen_ok s =
     (case config of
        None \<Rightarrow> (RET_ERR_PARAM, s)
      | Some g \<Rightarrow>
          let g = g\<lparr>tg_subnqn := Some (case tg_subnqn g of None \<Rightarrow> DEFAULT_SUBNQN | Some q \<Rightarrow> q),
                    tg_port := (if tg_port g = 0 then NVME_TCP_DEFAULT_PORT else tg_port g),
                    tg_maxh2cdata := (if tg_maxh2cdata g = 0 then NVME_TCP_DEFAULT_MAXH2CDATA else tg_maxh2cdata g)\<rparr>;
              s = s\<lparr>tp_config := g,
                    tp_conns := (\<lambda>c. if c < NVME_TCP_MAX_CONNECTIONS
                                      then zero_conn\<lparr>tn_sockfd := -1, tn_state := NVME_TCP_CONN_CLOSED\<rparr> else tp_conns s c),
                    tp_listen_fd := fd\<rparr> in
          if fd < 0 then (RET_ERR_INTERNAL, s)
          else if \<not> bind_ok \<or> \<not> listen_ok then (RET_ERR_INTERNAL, s\<lparr>tp_listen_fd := -1\<rparr>)
          else (RET_OK, s\<lparr>tp_running := True\<rparr>))"

definition nvme_tcp_target_deinit :: "tcp_sys \<Rightarrow> ret_code \<times> tcp_sys" where
  "nvme_tcp_target_deinit s =
     (let s = s\<lparr>tp_running := False\<rparr>;
          s = fold (\<lambda>c s. if tn_state (tp_conns s c) \<noteq> NVME_TCP_CONN_CLOSED then close_connection c s else s) [0..<NVME_TCP_MAX_CONNECTIONS] s in
      (RET_OK, if 0 \<le> tp_listen_fd s then s\<lparr>tp_listen_fd := -1\<rparr> else s))"

text \<open>
  What the library says in one call of the event loop: the time, whether \<open>select\<close> succeeded, which descriptors it
  found ready, the answer of \<open>accept\<close>, and what a freshly allocated buffer holds.
\<close>

record tcp_events =
  ev_now :: u64
  ev_select_ok :: bool
  ev_ready :: "int \<Rightarrow> bool"
  ev_accept :: int
  ev_fresh :: "nat \<Rightarrow> u8"

definition open_conn :: "tcp_sys \<Rightarrow> nat \<Rightarrow> bool" where
  "open_conn s c \<longleftrightarrow> tn_state (tp_conns s c) \<noteq> NVME_TCP_CONN_CLOSED \<and> 0 \<le> tn_sockfd (tp_conns s c)"

definition accept_connection :: "tcp_events \<Rightarrow> tcp_sys \<Rightarrow> tcp_sys" where
  "accept_connection e s =
     (if ev_accept e < 0 then s
      else (case find_free_conn s of
              None \<Rightarrow> s
            | Some c \<Rightarrow>
                let (got, s) = tcp_malloc s;
                    s = upd_conn c (\<lambda>_. zero_conn\<lparr>tn_sockfd := ev_accept e, tn_state := NVME_TCP_CONN_NEW,
                          tn_last_activity_ms := ev_now e, tn_recv_buffer := (if got then Some (ev_fresh e) else None)\<rparr>) s in
                if got then s else upd_conn c (\<lambda>n. n\<lparr>tn_sockfd := -1, tn_state := NVME_TCP_CONN_CLOSED\<rparr>) s))"

definition serve_connection :: "tcp_events \<Rightarrow> int set \<Rightarrow> nat \<Rightarrow> tcp_sys \<Rightarrow> tcp_sys option" where
  "serve_connection e watched c s =
     (if \<not> open_conn s c then Some s
      else if tn_sockfd (tp_conns s c) \<in> watched \<and> ev_ready e (tn_sockfd (tp_conns s c))
      then do {
        let s = upd_conn c (\<lambda>n. n\<lparr>tn_last_activity_ms := ev_now e\<rparr>) s;
        (ret, s) \<leftarrow> nvme_tcp_process_pdu c s;
        Some (if ret \<noteq> RET_OK then close_connection c s else s)
      }
      else Some s)"

definition nvme_tcp_target_process :: "tcp_events \<Rightarrow> tcp_sys \<Rightarrow> tcp_sys option" where
  "nvme_tcp_target_process e s =
     (if \<not> tp_running s \<or> tp_listen_fd s < 0 then Some s
      else if \<not> ev_select_ok e then Some s
      else
        let watched = insert (tp_listen_fd s) (set (map (\<lambda>c. tn_sockfd (tp_conns s c)) (filter (open_conn s) [0..<NVME_TCP_MAX_CONNECTIONS])));
            s = (if ev_ready e (tp_listen_fd s) then accept_connection e s else s) in
        fold_option (serve_connection e watched) [0..<NVME_TCP_MAX_CONNECTIONS] s)"

end
