(* ===== verification/TcpFlow.thy ===== *)
theory TcpFlow
  imports Tcp FtlHost NvmeHistory
begin

text \<open>
  The NVMe/TCP target in use: what sending delivers, that a handler leaves everything of the other connections but
  their write data alone, writes in chunks, and what the shared buffer and the 32-bit offsets allow.
\<close>

section \<open>Sending\<close>

text \<open>Between two states only bytes were sent.\<close>

definition only_sent :: "tcp_sys \<Rightarrow> tcp_sys \<Rightarrow> bool" where
  "only_sent s s' \<longleftrightarrow>
     s' = s\<lparr>tp_sent := tp_sent s', tp_send_count := tp_send_count s', tp_malloc_count := tp_malloc_count s'\<rparr>"

definition delivered :: "int \<Rightarrow> u8 list \<Rightarrow> tcp_sys \<Rightarrow> tcp_sys \<Rightarrow> bool" where
  "delivered fd bs s s' \<longleftrightarrow>
     (\<exists>l k j. s' = s\<lparr>tp_sent := tp_sent s @ l, tp_send_count := k, tp_malloc_count := j\<rparr> \<and> (\<forall>x\<in>set l. fst x = fd) \<and>
        concat (map snd l) = bs)"

text \<open>A socket that takes bytes whenever it is asked to.\<close>

definition sends :: "tcp_sys \<Rightarrow> bool" where
  "sends s \<longleftrightarrow> (\<forall>i. \<exists>n. tp_send s i = Sent n)"

definition sent_to :: "int \<Rightarrow> tcp_sys \<Rightarrow> u8 list" where
  "sent_to fd s = concat (map snd (filter (\<lambda>x. fst x = fd) (tp_sent s)))"

lemma only_sent_refl [simp]: "only_sent s s"
  by (simp add: only_sent_def)

lemma only_sent_trans: "only_sent s s1 \<Longrightarrow> only_sent s1 s2 \<Longrightarrow> only_sent s s2"
  by (cases s; cases s1; cases s2) (simp add: only_sent_def)

lemma delivered_trans: "delivered fd a s s1 \<Longrightarrow> delivered fd b s1 s2 \<Longrightarrow> delivered fd (a @ b) s s2"
proof -
  assume "delivered fd a s s1" "delivered fd b s1 s2"
  then obtain l k j l' k' j' where
    1: "s1 = s\<lparr>tp_sent := tp_sent s @ l, tp_send_count := k, tp_malloc_count := j\<rparr>" "\<forall>x\<in>set l. fst x = fd" "concat (map snd l) = a" and
    2: "s2 = s1\<lparr>tp_sent := tp_sent s1 @ l', tp_send_count := k', tp_malloc_count := j'\<rparr>" "\<forall>x\<in>set l'. fst x = fd" "concat (map snd l') = b"
    unfolding delivered_def by blast
  show ?thesis
    unfolding delivered_def
    by (rule exI [of _ "l @ l'"], rule exI [of _ k'], rule exI [of _ j']) (use 1 2 in auto)
qed

lemma delivered_refl: "delivered fd [] s s"
  unfolding delivered_def by (rule exI [of _ "[]"], rule exI [of _ "tp_send_count s"], rule exI [of _ "tp_malloc_count s"]) simp

lemma delivered_only: "delivered fd bs s s' \<Longrightarrow> only_sent s s'"
  by (auto simp: delivered_def only_sent_def)

lemma only_sent_fields:
  assumes "only_sent s s'"
  shows "tp_conns s' = tp_conns s" "tp_nvme s' = tp_nvme s" "tp_io_write_buf s' = tp_io_write_buf s" "tp_io_read_buf s' = tp_io_read_buf s"
    "tp_recv s' = tp_recv s" "tp_recv_count s' = tp_recv_count s" "tp_send s' = tp_send s" "tp_running s' = tp_running s"
    "tp_listen_fd s' = tp_listen_fd s" "tp_malloc_fails s' = tp_malloc_fails s" "sends s' = sends s"
  by (subst assms [unfolded only_sent_def], simp add: sends_def)+

lemma delivered_sent_to:
  assumes "delivered fd bs s s'"
  shows "sent_to fd s' = sent_to fd s @ bs" and "fd' \<noteq> fd \<Longrightarrow> sent_to fd' s' = sent_to fd' s"
proof -
  obtain l k j where l: "s' = s\<lparr>tp_sent := tp_sent s @ l, tp_send_count := k, tp_malloc_count := j\<rparr>" "\<forall>x\<in>set l. fst x = fd"
    "concat (map snd l) = bs" using assms by (auto simp: delivered_def)
  then have "filter (\<lambda>x. fst x = fd) l = l" by (simp add: filter_id_conv)
  then show "sent_to fd s' = sent_to fd s @ bs" using l by (simp add: sent_to_def)
  assume "fd' \<noteq> fd"
  then have "filter (\<lambda>x. fst x = fd') l = []" using l(2) by (auto simp: filter_empty_conv)
  then show "sent_to fd' s' = sent_to fd' s" using l(1) by (simp add: sent_to_def)
qed

lemma tcp_send_all_only:
  assumes "tcp_send_all fd bs s = Some r"
  shows "only_sent s (snd r)"
proof (rule tcp_send_all.raw_induct [where P = "\<lambda>fd bs s r. only_sent s (snd r)", OF _ assms], goal_cases)
  case (1 loop fd bs s r)
  have c: "only_sent s (s\<lparr>tp_send_count := k\<rparr>)" "only_sent s (s\<lparr>tp_send_count := k, tp_sent := x\<rparr>)" for k x
    by (simp_all add: only_sent_def)
  show ?case
  proof (cases "bs = []")
    case True
    then show ?thesis using 1(2) by auto
  next
    case False
    then show ?thesis using 1(2) c
      by (auto simp: Let_def split: send_answer.splits dest!: 1(1) intro: only_sent_trans)
  qed
qed

lemma tcp_send_all_sends:
  assumes "sends s"
  shows "\<exists>s'. tcp_send_all fd bs s = Some (True, s') \<and> delivered fd bs s s'"
  using assms
proof (induction bs arbitrary: s rule: length_induct)
  case (1 bs)
  show ?case
  proof (cases "bs = []")
    case True
    then show ?thesis using delivered_refl [of fd s] by (subst tcp_send_all.simps) simp
  next
    case False
    obtain n where n: "tp_send s (tp_send_count s) = Sent n" using 1(2) by (auto simp: sends_def)
    let ?k = "max 1 n"
    let ?s = "s\<lparr>tp_send_count := tp_send_count s + 1, tp_sent := tp_sent s @ [(fd, take ?k bs)]\<rparr>"
    have "length (drop ?k bs) < length bs" using False by (cases bs) auto
    moreover have "sends ?s" using 1(2) by (simp add: sends_def)
    ultimately obtain s' where s': "tcp_send_all fd (drop ?k bs) ?s = Some (True, s')" "delivered fd (drop ?k bs) ?s s'"
      using 1(1) by blast
    have "delivered fd (take ?k bs) s ?s"
      unfolding delivered_def
      by (rule exI [of _ "[(fd, take ?k bs)]"], rule exI [of _ "tp_send_count s + 1"], rule exI [of _ "tp_malloc_count s"]) simp
    from delivered_trans [OF this s'(2)] have "delivered fd bs s s'" by simp
    then show ?thesis using s'(1) False n by (subst tcp_send_all.simps) (auto simp: Let_def)
  qed
qed

lemma send_all_sends:
  assumes "sends s"
  obtains s' where "tcp_send_all fd bs s = Some (True, s')" "delivered fd bs s s'" "only_sent s s'"
  using tcp_send_all_sends [OF assms, of fd bs] delivered_only by blast

section \<open>What a handler keeps\<close>

text \<open>
  A connection that is being served keeps its socket and its buffer, does not become closed, has no more bytes
  received than before, and no transfer larger than the buffer for writes.  The other connections are not touched.
\<close>

definition same_link :: "tcp_conn \<Rightarrow> tcp_conn \<Rightarrow> bool" where
  "same_link n n' \<longleftrightarrow>
     tn_sockfd n' = tn_sockfd n \<and> (tn_recv_buffer n' = None \<longleftrightarrow> tn_recv_buffer n = None) \<and> tn_recv_len n' \<le> tn_recv_len n \<and>
     (tn_state n \<noteq> NVME_TCP_CONN_CLOSED \<longrightarrow> tn_state n' \<noteq> NVME_TCP_CONN_CLOSED) \<and>
     (unat (tn_data_total n) \<le> NVME_TCP_MAX_IO_SIZE \<longrightarrow> unat (tn_data_total n') \<le> NVME_TCP_MAX_IO_SIZE)"

definition conns_keep :: "nat \<Rightarrow> tcp_sys \<Rightarrow> tcp_sys \<Rightarrow> bool" where
  "conns_keep c s s' \<longleftrightarrow>
     (\<forall>d. d \<noteq> c \<longrightarrow> tp_conns s' d = tp_conns s d) \<and> same_link (tp_conns s c) (tp_conns s' c) \<and>
     tp_running s' = tp_running s \<and> tp_listen_fd s' = tp_listen_fd s"

named_theorems tcp_keeps

lemma conns_keep_trans: "conns_keep c s s1 \<Longrightarrow> conns_keep c s1 s2 \<Longrightarrow> conns_keep c s s2"
  by (auto simp: conns_keep_def same_link_def)

lemma conns_keep_same:
  "tp_conns s' = tp_conns s \<Longrightarrow> tp_running s' = tp_running s \<Longrightarrow> tp_listen_fd s' = tp_listen_fd s \<Longrightarrow> conns_keep c s s'"
  by (simp add: conns_keep_def same_link_def)

lemma conns_keep_refl [tcp_keeps]: "conns_keep c s s"
  by (simp add: conns_keep_same)

lemma conns_keep_upd: "same_link (tp_conns s c) (f (tp_conns s c)) \<Longrightarrow> conns_keep c s (upd_conn c f s)"
  by (simp add: conns_keep_def upd_conn_def)

lemma only_sent_keep: "only_sent s s' \<Longrightarrow> conns_keep c s s'"
  by (rule conns_keep_same) (simp_all add: only_sent_fields)

lemma capsule_resp_only: "nvme_tcp_send_capsule_resp c cpl s = Some r \<Longrightarrow> only_sent s (snd r)"
  by (auto simp: nvme_tcp_send_capsule_resp_def split: bind_splits dest!: tcp_send_all_only)

lemma r2t_only: "nvme_tcp_send_r2t c cid ttag off len s = Some r \<Longrightarrow> only_sent s (snd r)"
  by (auto simp: nvme_tcp_send_r2t_def split: bind_splits dest!: tcp_send_all_only)

lemma completion_only: "nvme_tcp_send_completion c cid sqid st s = Some s' \<Longrightarrow> only_sent s s'"
  by (auto simp: nvme_tcp_send_completion_def dest!: capsule_resp_only)

lemma only_sent_malloc: "only_sent s (s\<lparr>tp_malloc_count := k\<rparr>)"
  by (simp add: only_sent_def)

lemma c2hdata_only: "nvme_tcp_send_c2hdata c cid data off l s = Some r \<Longrightarrow> only_sent s (snd r)"
  by (auto simp: nvme_tcp_send_c2hdata_def tcp_malloc_def split: bind_splits if_splits dest!: tcp_send_all_only
      intro: only_sent_trans only_sent_malloc)

lemma c2hdata_chunks_only: "c2hdata_chunks c cid data n k off s = Some s' \<Longrightarrow> only_sent s s'"
proof (induction c cid data n k off s rule: c2hdata_chunks.induct)
  case (1 c cid data n k off s)
  show ?case
  proof (cases "n \<le> off \<or> k = 0")
    case True
    then show ?thesis using "1.prems" by (subst (asm) c2hdata_chunks.simps) auto
  next
    case False
    let ?k = "if n - off < k then n - off else k"
    from "1.prems" False obtain ret s1 where s1: "\<not> length data < off + ?k"
      "nvme_tcp_send_c2hdata c cid (take ?k (drop off data)) off (n \<le> off + ?k) s = Some (ret, s1)"
      "c2hdata_chunks c cid data n k (off + ?k) s1 = Some s'"
      by (subst (asm) c2hdata_chunks.simps) (auto simp: Let_def split: bind_splits if_splits)
    from "1.IH" [OF False refl s1(1,2) refl s1(3)] c2hdata_only [OF s1(2)] show ?thesis
      by (auto intro: only_sent_trans)
  qed
qed

lemma chunks_only: "nvme_tcp_send_c2hdata_chunks c cid data n s = Some r \<Longrightarrow> only_sent s (snd r)"
  by (auto simp: nvme_tcp_send_c2hdata_chunks_def Let_def dest!: c2hdata_chunks_only)

lemmas sends_only = capsule_resp_only r2t_only completion_only chunks_only

lemmas sends_keep [tcp_keeps] = sends_only [THEN only_sent_keep]

lemma upd_ftl_keep: "conns_keep c s (upd_ftl f s)"
  by (simp add: conns_keep_same)

lemma store_write_keep [tcp_keeps]: "store_write_data off bs s = Some s' \<Longrightarrow> conns_keep c s s'"
  by (auto simp: store_write_data_def conns_keep_same split: if_splits)

lemma for_each_keep:
  assumes "\<And>x s r. body x s = Some r \<Longrightarrow> (case r of Leave y s' \<Rightarrow> conns_keep c s s' | Next s' \<Rightarrow> conns_keep c s s')"
  shows "for_each xs body s = Some r \<Longrightarrow> (case r of Leave y s' \<Rightarrow> conns_keep c s s' | Next s' \<Rightarrow> conns_keep c s s')"
proof (induction xs arbitrary: s)
  case Nil
  then show ?case by (auto simp: conns_keep_refl)
next
  case (Cons x xs)
  then show ?case
    using assms [of x s] by (fastforce split: option.splits ctl.splits intro: conns_keep_trans)
qed

lemma tcp_write_pages_keep [tcp_keeps]: "tcp_write_pages slba n s = Some r \<Longrightarrow> conns_keep c s (snd r)"
proof -
  assume "tcp_write_pages slba n s = Some r"
  then obtain q where q: "for_each [0..<n] (tcp_write_body slba) s = Some q" "r = (case q of Leave st s \<Rightarrow> (st, s) | Next s \<Rightarrow> (0, s))"
    by (auto simp: tcp_write_pages_def split: bind_splits)
  have "case q of Leave y s' \<Rightarrow> conns_keep c s s' | Next s' \<Rightarrow> conns_keep c s s'"
    by (rule for_each_keep [OF _ q(1)]) (auto simp: tcp_write_body_def upd_ftl_keep split: if_splits bind_splits)
  then show ?thesis using q(2) by (auto split: ctl.splits)
qed

lemma tcp_trim_body_keep: "tcp_trim_body x (st, s) = Some r \<Longrightarrow> conns_keep c s (snd r)"
  by (auto simp: tcp_trim_body_def Let_def upd_ftl_keep split: bind_splits)

lemma tcp_trim_ranges_keep [tcp_keeps]: "tcp_trim_ranges n s = Some r \<Longrightarrow> conns_keep c s (snd r)"
proof -
  have "conns_keep c s0 (snd r)" if "fold_option tcp_trim_body xs (st, s) = Some r" "conns_keep c s0 s" for xs st s s0 r
    using that
  proof (induction xs arbitrary: st s)
    case (Cons x xs)
    then obtain st1 s1 where s1: "tcp_trim_body x (st, s) = Some (st1, s1)" "fold_option tcp_trim_body xs (st1, s1) = Some r"
      by (auto split: bind_splits)
    with conns_keep_trans [OF Cons.prems(2) tcp_trim_body_keep [OF s1(1)]] Cons.IH show ?case by simp
  qed auto
  moreover assume "tcp_trim_ranges n s = Some r"
  ultimately show ?thesis by (auto simp: tcp_trim_ranges_def conns_keep_refl)
qed

lemma zeroes_keep [tcp_keeps]: "capsule_zeroes cmd (cpl, s) = Some r \<Longrightarrow> conns_keep c s (snd r)"
proof -
  assume "capsule_zeroes cmd (cpl, s) = Some r"
  then obtain q where q: "for_each [0..<nvme_nlb cmd] (tcp_zeroes_body (nvme_slba cmd)) s = Some q"
    "r = (case q of Leave st s \<Rightarrow> (cpl\<lparr>cp_status := st\<rparr>, s) | Next s \<Rightarrow> (cpl\<lparr>cp_status := 0\<rparr>, s))"
    by (auto simp: capsule_zeroes_def split: bind_splits)
  have "case q of Leave y s' \<Rightarrow> conns_keep c s s' | Next s' \<Rightarrow> conns_keep c s s'"
    by (rule for_each_keep [OF _ q(1)]) (auto simp: tcp_zeroes_body_def upd_ftl_keep split: if_splits bind_splits)
  then show ?thesis using q(2) by (auto split: ctl.splits)
qed

lemma read_pages_keep: "conns_keep c s (fold (tcp_read_body slba) xs s)"
proof (induction xs arbitrary: s)
  case (Cons x xs)
  have "conns_keep c s (tcp_read_body slba x s)"
    by (rule conns_keep_same) (simp_all add: tcp_read_body_def Let_def split: prod.splits)
  with Cons show ?case by (auto intro: conns_keep_trans)
qed (simp add: conns_keep_refl)

lemma read_keep [tcp_keeps]: "capsule_read c cmd (cpl, s) = Some r \<Longrightarrow> conns_keep c s (snd r)"
  using read_pages_keep [of c s "nvme_slba cmd" "[0..<nvme_nlb cmd]"]
  by (auto simp: capsule_read_def Let_def conns_keep_refl split: if_splits bind_splits dest!: sends_keep(4) [of _ _ _ _ _ _ c]
      intro: conns_keep_trans)

lemma data_len_keep: "conns_keep c s (upd_conn c (\<lambda>n. n\<lparr>tn_data_len := x n\<rparr>) s)"
  "conns_keep c s (upd_conn c (\<lambda>n. n\<lparr>tn_data_len := x n, tn_pending_slba := y\<rparr>) s)"
  "conns_keep c s (upd_conn c (\<lambda>n. n\<lparr>tn_pending_slba := y\<rparr>) s)" "conns_keep c s (upd_conn c (\<lambda>n. n\<lparr>tn_qid := q\<rparr>) s)"
  by (rule conns_keep_upd, simp add: same_link_def)+

lemma take_inline_keep [tcp_keeps]: "take_inline c data n m s = Some s' \<Longrightarrow> conns_keep c s s'"
  by (auto simp: take_inline_def Let_def conns_keep_refl split: if_splits bind_splits option.splits dest!: store_write_keep [of _ _ _ _ c]
      intro: conns_keep_trans data_len_keep)

lemma begin_transfer_keep: "m \<le> NVME_TCP_MAX_IO_SIZE \<Longrightarrow> conns_keep c s (begin_transfer c cid sqid op m s)"
  by (simp add: begin_transfer_def conns_keep_upd same_link_def unsigned_of_nat NVME_TCP_MAX_IO_SIZE_def take_bit_nat_eq_self)

lemma clear_data_keep: "conns_keep c s (clear_data c s)"
  by (simp add: clear_data_def conns_keep_upd same_link_def)

lemma capsule_write_keep [tcp_keeps]:
  assumes "capsule_write c cmd data n s = Some r"
  shows "conns_keep c s (snd r)"
proof (cases "NVME_TCP_MAX_IO_SIZE < nvme_nlb cmd * 4096")
  case True
  with assms show ?thesis by (auto simp: capsule_write_def Let_def intro: sends_keep)
next
  case False
  define s1 where "s1 = upd_conn c (\<lambda>n. n\<lparr>tn_pending_slba := nvme_slba cmd\<rparr>)
    (begin_transfer c (nc_cid cmd) (tn_qid (tp_conns s c)) NVME_IO_WRITE (nvme_nlb cmd * 4096) s)"
  have k1: "conns_keep c s s1"
    unfolding s1_def by (rule conns_keep_trans [OF begin_transfer_keep data_len_keep(3)]) (use False in simp)
  from assms False obtain s2 where s2: "take_inline c data n (nvme_nlb cmd * 4096) s1 = Some s2"
    by (auto simp: capsule_write_def Let_def s1_def split: bind_splits)
  have k2: "conns_keep c s s2" by (rule conns_keep_trans [OF k1 take_inline_keep [OF s2]])
  show ?thesis
  proof (cases "unat (tn_data_len (tp_conns s2 c)) < nvme_nlb cmd * 4096")
    case True
    with assms False s2 show ?thesis
      by (auto simp: capsule_write_def Let_def s1_def dest!: sends_keep(2) [of _ _ _ _ _ _ _ c] intro: conns_keep_trans [OF k2])
  next
    case no: False
    with assms False s2 obtain ws s3 s4 where s3: "tcp_write_pages (nvme_slba cmd) (nvme_nlb cmd) s2 = Some (ws, s3)"
      "nvme_tcp_send_completion c (nc_cid cmd) (tn_qid (tp_conns s c)) ws s3 = Some s4" "r = (RET_OK, clear_data c s4)"
      by (auto simp: capsule_write_def Let_def s1_def split: bind_splits)
    have k3: "conns_keep c s s3" using conns_keep_trans [OF k2 tcp_write_pages_keep [OF s3(1)]] by simp
    show ?thesis
      using conns_keep_trans [OF conns_keep_trans [OF k3 sends_keep(3) [OF s3(2)]] clear_data_keep] s3(3) by simp
  qed
qed

lemma dsm_ranges_bound: "dsm_ranges cmd * 16 \<le> NVME_TCP_MAX_IO_SIZE"
proof -
  have "dsm_ranges cmd < 256" by (simp add: dsm_ranges_def)
  then show ?thesis by (simp add: NVME_TCP_MAX_IO_SIZE_def)
qed

lemma capsule_dataset_mgmt_keep [tcp_keeps]:
  assumes "capsule_dataset_mgmt c cmd data n s = Some r"
  shows "conns_keep c s (snd r)"
proof -
  let ?m = "dsm_ranges cmd * 16"
  from assms obtain s0 where s0: "store_write_data 0 (replicate ?m 0) s = Some s0"
    by (auto simp: capsule_dataset_mgmt_def Let_def split: bind_splits)
  define s1 where "s1 = begin_transfer c (nc_cid cmd) (tn_qid (tp_conns s c)) NVME_IO_DATASET_MGMT ?m s0"
  have k1: "conns_keep c s s1"
    unfolding s1_def by (rule conns_keep_trans [OF store_write_keep [OF s0] begin_transfer_keep]) (rule dsm_ranges_bound)
  from assms s0 obtain s2 where s2: "take_inline c data n ?m s1 = Some s2"
    by (auto simp: capsule_dataset_mgmt_def Let_def s1_def split: bind_splits)
  have k2: "conns_keep c s s2" by (rule conns_keep_trans [OF k1 take_inline_keep [OF s2]])
  show ?thesis
  proof (cases "unat (tn_data_len (tp_conns s2 c)) < ?m")
    case True
    with assms s0 s2 show ?thesis
      by (auto simp: capsule_dataset_mgmt_def Let_def s1_def dest!: sends_keep(2) [of _ _ _ _ _ _ _ c] intro: conns_keep_trans [OF k2])
  next
    case no: False
    with assms s0 s2 obtain ds s3 s4 where s3: "tcp_trim_ranges (dsm_ranges cmd) s2 = Some (ds, s3)"
      "nvme_tcp_send_completion c (nc_cid cmd) (tn_qid (tp_conns s c)) ds s3 = Some s4" "r = (RET_OK, clear_data c s4)"
      by (auto simp: capsule_dataset_mgmt_def Let_def s1_def split: bind_splits)
    have k3: "conns_keep c s s3" using conns_keep_trans [OF k2 tcp_trim_ranges_keep [OF s3(1)]] by simp
    show ?thesis
      using conns_keep_trans [OF conns_keep_trans [OF k3 sends_keep(3) [OF s3(2)]] clear_data_keep] s3(3) by simp
  qed
qed

lemma capsule_fabric_keep [tcp_keeps]:
  assumes "capsule_fabric c cmd data n s = Some r"
  shows "conns_keep c s (snd r)"
proof -
  let ?cpl = "blank_completion\<lparr>cp_cid := nc_cid cmd, cp_sqid := tn_qid (tp_conns s c)\<rparr>"
  let ?t = "ucast (nc_nsid cmd) :: u8"
  from assms obtain cpl s1 ret s2 where
    q: "(if ?t = 0x01 then fabric_connect c data n ?cpl s
         else if ?t = 0x00 then Some (fabric_property_set cmd ?cpl s)
         else if ?t = 0x04 then Some (fabric_property_get cmd ?cpl s, s)
         else Some (?cpl\<lparr>cp_status := 0\<rparr>, s)) = Some (cpl, s1)"
    and fin: "nvme_tcp_send_capsule_resp c cpl s1 = Some (ret, s2)" "r = (RET_OK, s2)"
    unfolding capsule_fabric_def Let_def by (elim bind_SomeE) (auto split: prod.splits elim!: bind_SomeE)
  have ps: "conns_keep c s (snd (fabric_property_set cmd ?cpl s))"
    by (simp add: fabric_property_set_def Let_def conns_keep_same upd_nvme_regs_def)
  have pc: "conns_keep c s s'" if "fabric_connect c data n ?cpl s = Some (x, s')" for x s'
    using that by (auto simp: fabric_connect_def data_len_keep split: bind_splits)
  consider "?t = 1" | "?t = 0" | "?t = 4" | "?t \<noteq> 1" "?t \<noteq> 0" "?t \<noteq> 4" by blast
  then have "conns_keep c s s1"
  proof cases
    case 1
    with q show ?thesis by (simp add: pc)
  next
    case 2
    with q have "fabric_property_set cmd ?cpl s = (cpl, s1)" by simp
    with ps show ?thesis by simp
  qed (use q in \<open>simp_all add: conns_keep_refl\<close>)
  then show ?thesis using sends_keep(1) [OF fin(1)] fin(2) by (auto intro: conns_keep_trans)
qed

lemma send_pages_keep:
  assumes "do { (ret, s1) \<leftarrow> nvme_tcp_send_c2hdata_chunks c cid d m s;
      s2 \<leftarrow> nvme_tcp_send_completion c cid (tn_qid (tp_conns s1 c)) 0 s1; Some (RET_OK, s2) } = Some r"
  shows "conns_keep c s (snd r)"
proof -
  from assms obtain ret s1 s2 where "nvme_tcp_send_c2hdata_chunks c cid d m s = Some (ret, s1)"
    "nvme_tcp_send_completion c cid (tn_qid (tp_conns s1 c)) 0 s1 = Some s2" "r = (RET_OK, s2)"
    by (auto split: bind_splits)
  then show ?thesis by (auto dest!: sends_keep(3,4) [of _ _ _ _ _ _ c] intro: conns_keep_trans)
qed

lemma capsule_identify_keep [tcp_keeps]: "capsule_identify c cmd s = Some r \<Longrightarrow> conns_keep c s (snd r)"
  by (cases "identify_data cmd (tp_nvme s)") (auto simp: capsule_identify_def intro: send_pages_keep)

lemma capsule_get_log_page_keep [tcp_keeps]:
  assumes "capsule_get_log_page c cmd s = Some r"
  shows "conns_keep c s (snd r)"
proof -
  from assms obtain d where
    "do { (ret, s1) \<leftarrow> nvme_tcp_send_c2hdata_chunks c (nc_cid cmd) d (log_page_len cmd) s;
      s2 \<leftarrow> nvme_tcp_send_completion c (nc_cid cmd) (tn_qid (tp_conns s1 c)) 0 s1; Some (RET_OK, s2) } = Some r"
    unfolding capsule_get_log_page_def Let_def by (rule bind_SomeE) auto
  then show ?thesis by (rule send_pages_keep)
qed

lemma capsule_other_keep [tcp_keeps]:
  assumes "capsule_other c cmd s = Some r"
  shows "conns_keep c s (snd r)"
proof -
  obtain cpl v where p: "(if tn_qid (tp_conns s c) = 0 then Some (nvme_ctrl_process_admin_cmd cmd (tp_nvme s))
      else nvme_ctrl_process_io_cmd cmd (tp_nvme s)) = Some (cpl, v)"
    using assms by (fastforce simp: capsule_other_def Let_def split: bind_splits)
  define s1 where "s1 = s\<lparr>tp_nvme := v\<rparr>"
  define cpl1 where "cpl1 = (if cp_status cpl AND 0x7FFE \<noteq> 0 then cpl\<lparr>cp_status := 0\<rparr> else cpl)"
  have k1: "conns_keep c s s1" by (simp add: conns_keep_same s1_def)
  from assms p obtain cpl2 s2 cpl3 s3 ret s4 where
    z: "(if nc_opcode cmd = NVME_IO_WRITE_ZEROES \<and> tn_qid (tp_conns s c) \<noteq> 0 then capsule_zeroes cmd (cpl1, s1) else Some (cpl1, s1)) = Some (cpl2, s2)"
    and rd: "(if nc_opcode cmd = NVME_IO_READ then capsule_read c cmd (cpl2, s2) else Some (cpl2, s2)) = Some (cpl3, s3)"
    and fin: "nvme_tcp_send_capsule_resp c cpl3 s3 = Some (ret, s4)" "r = (RET_OK, s4)"
    unfolding capsule_other_def Let_def p s1_def cpl1_def by (elim bind_SomeE) (auto split: prod.splits elim!: bind_SomeE)
  have "conns_keep c s1 s2" using z zeroes_keep [of cmd cpl1 s1 "(cpl2, s2)" c] by (auto split: if_splits simp: conns_keep_refl)
  moreover have "conns_keep c s2 s3" using rd read_keep [of c cmd cpl2 s2 "(cpl3, s3)"] by (auto split: if_splits simp: conns_keep_refl)
  moreover have "conns_keep c s3 s4" using sends_keep(1) [OF fin(1)] by simp
  ultimately show ?thesis using k1 fin(2) by (auto intro: conns_keep_trans)
qed

lemma capsule_cmd_keep: "nvme_tcp_handle_capsule_cmd c pdu data n s = Some r \<Longrightarrow> conns_keep c s (snd r)"
  unfolding nvme_tcp_handle_capsule_cmd_def Let_def by (auto split: if_splits intro: tcp_keeps)

lemma icreq_keep: "nvme_tcp_handle_icreq c pdu s = Some r \<Longrightarrow> conns_keep c s (snd r)"
proof -
  let ?u = "\<lambda>n. n\<lparr>tn_hpda := pdu 10, tn_hdgst_enable := bit (pdu 11) 0, tn_ddgst_enable := bit (pdu 11) 1,
    tn_maxr2t := (if 0 < (of_nat (word_at pdu 12 4) :: u32) then of_nat (word_at pdu 12 4) else NVME_TCP_DEFAULT_MAXR2T),
    tn_maxh2cdata := NVME_TCP_DEFAULT_MAXH2CDATA, tn_cpda := 0\<rparr>"
  assume "nvme_tcp_handle_icreq c pdu s = Some r"
  then obtain sent s1 where s1: "tcp_send_all (tn_sockfd (tp_conns (upd_conn c ?u s) c))
      (icresp_pdu (word_at pdu 8 2) 0 NVME_TCP_DEFAULT_MAXH2CDATA) (upd_conn c ?u s) = Some (sent, s1)"
    "r = (if sent then (RET_OK, upd_conn c (\<lambda>n. n\<lparr>tn_state := NVME_TCP_CONN_READY\<rparr>) s1) else (RET_ERR_INTERNAL, s1))"
    unfolding nvme_tcp_handle_icreq_def Let_def by (elim bind_SomeE) auto
  have "conns_keep c s (upd_conn c ?u s)" by (rule conns_keep_upd) (simp add: same_link_def)
  moreover have "conns_keep c (upd_conn c ?u s) s1" using only_sent_keep [OF tcp_send_all_only [OF s1(1)]] by simp
  moreover have "conns_keep c s1 (upd_conn c (\<lambda>n. n\<lparr>tn_state := NVME_TCP_CONN_READY\<rparr>) s1)"
    by (rule conns_keep_upd) (simp add: same_link_def)
  ultimately show ?thesis using s1(2) by (auto intro: conns_keep_trans)
qed

lemma copy_h2cdata_keep: "copy_h2cdata c datao datal data s = Some s' \<Longrightarrow> conns_keep c s s'"
  by (auto simp: copy_h2cdata_def Let_def conns_keep_refl split: option.splits if_splits bind_splits dest!: store_write_keep [of _ _ _ _ c]
      intro: conns_keep_trans data_len_keep)

lemma finish_transfer_keep:
  assumes "finish_transfer c s = Some s'"
  shows "conns_keep c s s'"
proof -
  let ?n = "tp_conns s c"
  from assms obtain st s1 ret s2 where
    q: "(if tn_pending_opcode ?n = NVME_IO_WRITE then tcp_write_pages (tn_pending_slba ?n) (unat (tn_data_total ?n) div 4096) s
           else if tn_pending_opcode ?n = NVME_IO_DATASET_MGMT then tcp_trim_ranges (unat (tn_data_total ?n) div 16) s
           else Some (0, s)) = Some (st, s1)"
    and fin: "nvme_tcp_send_capsule_resp c (blank_completion\<lparr>cp_cid := tn_pending_cmd_id ?n, cp_sqid := tn_pending_sqid ?n,
       cp_status := st\<rparr>) s1 = Some (ret, s2)" "s' = clear_data c s2"
    unfolding finish_transfer_def Let_def by (elim bind_SomeE) (auto split: prod.splits elim!: bind_SomeE)
  have "conns_keep c s (snd (st, s1))"
    using q by (auto split: if_splits simp: conns_keep_refl intro: tcp_keeps dest!: tcp_write_pages_keep [of _ _ _ _ c] tcp_trim_ranges_keep [of _ _ _ c])
  then show ?thesis using sends_keep(1) [OF fin(1), of c] clear_data_keep [of c s2] unfolding fin(2) snd_conv by (blast intro: conns_keep_trans)
qed

lemma h2cdata_keep: "nvme_tcp_handle_h2cdata c pdu data s = Some r \<Longrightarrow> conns_keep c s (snd r)"
proof (cases "\<not> tn_has_data_buffer (tp_conns s c) \<or> tn_data_total (tp_conns s c) = 0")
  case True
  moreover assume "nvme_tcp_handle_h2cdata c pdu data s = Some r"
  ultimately show ?thesis by (auto simp: nvme_tcp_handle_h2cdata_def conns_keep_refl)
next
  case False
  assume "nvme_tcp_handle_h2cdata c pdu data s = Some r"
  with False obtain s1 s2 where "copy_h2cdata c (of_nat (word_at pdu 12 4)) (of_nat (word_at pdu 16 4)) data s = Some s1"
    "(if pdu 1 AND NVME_TCP_DATA_FLAGS_LAST_PDU \<noteq> 0 \<and> tn_data_total (tp_conns s1 c) \<le> tn_data_len (tp_conns s1 c)
      then finish_transfer c s1 else Some s1) = Some s2" "r = (RET_OK, s2)"
    unfolding nvme_tcp_handle_h2cdata_def Let_def if_not_P [OF False] by (elim bind_SomeE) auto
  then show ?thesis
    by (auto split: if_splits dest!: copy_h2cdata_keep finish_transfer_keep intro: conns_keep_trans)
qed

lemma dispatch_keep:
  assumes "dispatch_pdu c m n s = Some s'"
  shows "conns_keep c s s'"
proof -
  have t: "conns_keep c s (upd_conn c (\<lambda>n. n\<lparr>tn_state := NVME_TCP_CONN_TERMINATING\<rparr>) s)"
    by (rule conns_keep_upd) (simp add: same_link_def)
  show ?thesis
    using assms unfolding dispatch_pdu_def Let_def
    by (auto split: if_splits simp: conns_keep_refl t dest!: icreq_keep capsule_cmd_keep h2cdata_keep)
qed

lemma pdu_loop_keep: "pdu_loop c n s = Some r \<Longrightarrow> n \<le> tn_recv_len (tp_conns s c) \<Longrightarrow> conns_keep c s (snd r)"
proof (induction c n s rule: pdu_loop.induct)
  case (1 c n s)
  show ?case
  proof (cases "8 \<le> n \<and> (\<exists>m. tn_recv_buffer (tp_conns s c) = Some m \<and>
      \<not> (word_at m 4 4 = 0 \<or> NVME_TCP_BUFFER_SIZE < word_at m 4 4) \<and> \<not> n < word_at m 4 4)")
    case False
    then show ?thesis using "1.prems"(1) by (subst (asm) pdu_loop.simps) (auto simp: Let_def conns_keep_refl split: if_splits option.splits)
  next
    case True
    then obtain m where m: "\<not> n < 8" "tn_recv_buffer (tp_conns s c) = Some m"
      "\<not> (word_at m 4 4 = 0 \<or> NVME_TCP_BUFFER_SIZE < word_at m 4 4)" "\<not> n < word_at m 4 4" by auto
    let ?k = "consumed (m 0) (word_at m 4 4)"
    from "1.prems"(1) m obtain s1 where s1: "dispatch_pdu c m (word_at m 4 4) s = Some s1"
      "pdu_loop c (n - ?k) (shift_buffer c ?k (n - ?k) s1) = Some r"
      by (subst (asm) pdu_loop.simps) (auto simp: Let_def split: option.splits)
    have d: "conns_keep c s s1" by (rule dispatch_keep [OF s1(1)])
    have "tn_recv_len (tp_conns (shift_buffer c ?k (n - ?k) s1) c) = n - ?k" by (simp add: shift_buffer_def upd_conn_def)
    then have "conns_keep c (shift_buffer c ?k (n - ?k) s1) (snd r)"
      using "1.IH" [OF m(1,2) refl m(3,4) s1(1) refl s1(2)] by simp
    moreover have "conns_keep c s (shift_buffer c ?k (n - ?k) s1)"
      using d "1.prems"(2) by (auto simp: conns_keep_def same_link_def shift_buffer_def upd_conn_def)
    ultimately show ?thesis by (blast intro: conns_keep_trans)
  qed
qed

section \<open>Connections over time\<close>

definition tcp_conn_ok :: "tcp_conn \<Rightarrow> bool" where
  "tcp_conn_ok n \<longleftrightarrow>
     (if tn_state n = NVME_TCP_CONN_CLOSED then tn_sockfd n < 0 \<and> tn_recv_buffer n = None \<and> \<not> tn_has_data_buffer n
      else 0 \<le> tn_sockfd n \<and> tn_recv_buffer n \<noteq> None) \<and>
     tn_recv_len n \<le> NVME_TCP_BUFFER_SIZE \<and> unat (tn_data_total n) \<le> NVME_TCP_MAX_IO_SIZE"

lemma process_conn_ok:
  assumes "nvme_tcp_process_pdu c s = Some (ret, s')" "tcp_conn_ok (tp_conns s c)" "tn_state (tp_conns s c) \<noteq> NVME_TCP_CONN_CLOSED"
  shows "tcp_conn_ok (tp_conns s' c)" "d \<noteq> c \<Longrightarrow> tp_conns s' d = tp_conns s d" "tp_running s' = tp_running s" "tp_listen_fd s' = tp_listen_fd s"
proof -
  let ?a = "tp_recv s (tp_recv_count s)" and ?n = "tn_recv_len (tp_conns s c)"
  let ?s = "s\<lparr>tp_recv_count := tp_recv_count s + 1\<rparr>"
  have "tcp_conn_ok (tp_conns s' c) \<and> (d \<noteq> c \<longrightarrow> tp_conns s' d = tp_conns s d) \<and> tp_running s' = tp_running s \<and> tp_listen_fd s' = tp_listen_fd s"
  proof (cases "\<exists>bs. ?a = Received bs \<and> take (NVME_TCP_BUFFER_SIZE - ?n) bs \<noteq> []")
    case False
    then have "s' = ?s" using assms(1)
      by (auto simp: nvme_tcp_process_pdu_def Let_def split: recv_answer.splits if_splits)
    then show ?thesis using assms(2) by simp
  next
    case True
    then obtain bs where bs: "?a = Received bs" "take (NVME_TCP_BUFFER_SIZE - ?n) bs \<noteq> []" by auto
    obtain m where m: "tn_recv_buffer (tp_conns s c) = Some m" using assms(2,3) by (auto simp: tcp_conn_ok_def)
    define p where "p = take (NVME_TCP_BUFFER_SIZE - ?n) bs"
    define s1 where "s1 = upd_conn c (\<lambda>x. x\<lparr>tn_recv_buffer := Some (mem_write m ?n p), tn_recv_len := ?n + length p\<rparr>) ?s"
    have "pdu_loop c (?n + length p) s1 = Some (ret, s')"
      using assms(1) bs m by (simp add: nvme_tcp_process_pdu_def Let_def p_def s1_def)
    from pdu_loop_keep [OF this] have k: "conns_keep c s1 s'" by (simp add: s1_def upd_conn_def)
    have "?n + length p \<le> NVME_TCP_BUFFER_SIZE" using assms(2) by (auto simp: p_def tcp_conn_ok_def)
    with assms(2,3) have "tcp_conn_ok (tp_conns s1 c)" "tn_state (tp_conns s1 c) \<noteq> NVME_TCP_CONN_CLOSED"
      by (simp_all add: s1_def upd_conn_def tcp_conn_ok_def)
    with k have "tcp_conn_ok (tp_conns s' c)" by (auto simp: conns_keep_def same_link_def tcp_conn_ok_def)
    moreover have "tp_running s' = tp_running s \<and> tp_listen_fd s' = tp_listen_fd s" using k by (simp add: conns_keep_def s1_def upd_conn_def)
    moreover have "d \<noteq> c \<longrightarrow> tp_conns s' d = tp_conns s d" using k by (simp add: conns_keep_def s1_def upd_conn_def)
    ultimately show ?thesis by blast
  qed
  then show "tcp_conn_ok (tp_conns s' c)" "d \<noteq> c \<Longrightarrow> tp_conns s' d = tp_conns s d" "tp_running s' = tp_running s" "tp_listen_fd s' = tp_listen_fd s"
    by simp_all
qed

lemma close_connection_ok:
  "tcp_conn_ok (tp_conns s c) \<Longrightarrow> tcp_conn_ok (tp_conns (close_connection c s) c)"
  "d \<noteq> c \<Longrightarrow> tp_conns (close_connection c s) d = tp_conns s d"
  by (simp_all add: close_connection_def upd_conn_def tcp_conn_ok_def split: if_splits)

definition tcp_conns_ok :: "tcp_sys \<Rightarrow> bool" where
  "tcp_conns_ok s \<longleftrightarrow> (\<forall>c<NVME_TCP_MAX_CONNECTIONS. tcp_conn_ok (tp_conns s c))"

lemma conns_ok_at: "tcp_conns_ok s \<Longrightarrow> c < NVME_TCP_MAX_CONNECTIONS \<Longrightarrow> tcp_conn_ok (tp_conns s' c) \<Longrightarrow>
    (\<And>d. d \<noteq> c \<Longrightarrow> tp_conns s' d = tp_conns s d) \<Longrightarrow> tcp_conns_ok s'"
  unfolding tcp_conns_ok_def by metis

lemma serve_ok:
  assumes "serve_connection e w c s = Some s'" "tcp_conns_ok s" "c < NVME_TCP_MAX_CONNECTIONS"
  shows "tcp_conns_ok s'"
proof (cases "open_conn s c \<and> tn_sockfd (tp_conns s c) \<in> w \<and> ev_ready e (tn_sockfd (tp_conns s c))")
  case False
  then show ?thesis using assms(1,2) by (auto simp: serve_connection_def split: if_splits)
next
  case True
  define s1 where "s1 = upd_conn c (\<lambda>n. n\<lparr>tn_last_activity_ms := ev_now e\<rparr>) s"
  from True assms(1) obtain ret s2 where r: "nvme_tcp_process_pdu c s1 = Some (ret, s2)"
    "s' = (if ret \<noteq> RET_OK then close_connection c s2 else s2)"
    by (auto simp: serve_connection_def s1_def split: bind_splits)
  have ok: "tcp_conn_ok (tp_conns s1 c)" "tn_state (tp_conns s1 c) \<noteq> NVME_TCP_CONN_CLOSED" "\<And>d. d \<noteq> c \<Longrightarrow> tp_conns s1 d = tp_conns s d"
    using assms(2,3) True by (simp_all add: s1_def upd_conn_def tcp_conns_ok_def tcp_conn_ok_def open_conn_def)
  note p = process_conn_ok [OF r(1) ok(1,2)]
  have "tcp_conns_ok s2" by (rule conns_ok_at [OF assms(2,3) p(1)]) (simp add: p(2) ok(3))
  moreover have "tcp_conns_ok (close_connection c s2)"
    by (rule conns_ok_at [OF \<open>tcp_conns_ok s2\<close> assms(3)]) (simp_all add: close_connection_ok p(1))
  ultimately show ?thesis using r(2) by simp
qed

lemma accept_ok: "tcp_conns_ok s \<Longrightarrow> tcp_conns_ok (accept_connection e s)"
  by (auto simp: accept_connection_def tcp_conns_ok_def tcp_malloc_def upd_conn_def zero_conn_def tcp_conn_ok_def Let_def
      NVME_TCP_MAX_IO_SIZE_def split: option.splits)

lemma target_process_ok:
  assumes "nvme_tcp_target_process e s = Some s'" "tcp_conns_ok s"
  shows "tcp_conns_ok s'"
proof -
  have keep: "tcp_conns_ok s'" if "fold_option (serve_connection e w) cs s1 = Some s'" "tcp_conns_ok s1"
    "\<forall>c\<in>set cs. c < NVME_TCP_MAX_CONNECTIONS" for w cs s1
    using that by (induction cs arbitrary: s1) (auto split: bind_splits intro: serve_ok)
  show ?thesis
  proof (cases "tp_running s \<and> 0 \<le> tp_listen_fd s \<and> ev_select_ok e")
    case True
    with assms(1) obtain w where "fold_option (serve_connection e w) [0..<NVME_TCP_MAX_CONNECTIONS]
        (if ev_ready e (tp_listen_fd s) then accept_connection e s else s) = Some s'"
      by (fastforce simp: nvme_tcp_target_process_def Let_def)
    then show ?thesis by (rule keep) (simp_all add: assms(2) accept_ok)
  next
    case False
    with assms show ?thesis by (auto simp: nvme_tcp_target_process_def split: if_splits)
  qed
qed

text \<open>Calls of the target; between them the controller and the FTL change in any way.\<close>

datatype tcp_call =
    Tcp_init tcp_target_config int bool bool
  | Tcp_deinit
  | Tcp_events tcp_events
  | Tcp_other nvme_sys

fun tcp_step :: "tcp_call \<Rightarrow> tcp_sys \<Rightarrow> tcp_sys option" where
  "tcp_step (Tcp_init g fd b l) s = Some (snd (nvme_tcp_target_init (Some g) fd b l s))"
| "tcp_step Tcp_deinit s = Some (snd (nvme_tcp_target_deinit s))"
| "tcp_step (Tcp_events e) s = nvme_tcp_target_process e s"
| "tcp_step (Tcp_other v) s = Some (s\<lparr>tp_nvme := v\<rparr>)"

inductive tcp_history :: "tcp_sys \<Rightarrow> bool" where
  tcp_start: "tcp_history (snd (nvme_tcp_target_init (Some g) fd b l s))"
| tcp_call: "tcp_history s \<Longrightarrow> tcp_step call s = Some s' \<Longrightarrow> tcp_history s'"

lemma init_conns_ok: "tcp_conns_ok (snd (nvme_tcp_target_init (Some g) fd b l s))"
  by (simp add: nvme_tcp_target_init_def Let_def tcp_conns_ok_def tcp_conn_ok_def zero_conn_def)

lemma deinit_conns_ok:
  assumes "tcp_conns_ok s"
  shows "tcp_conns_ok (snd (nvme_tcp_target_deinit s))"
proof -
  let ?f = "\<lambda>c s. if tn_state (tp_conns s c) \<noteq> NVME_TCP_CONN_CLOSED then close_connection c s else s"
  have "tcp_conns_ok s1 \<Longrightarrow> \<forall>c\<in>set cs. c < NVME_TCP_MAX_CONNECTIONS \<Longrightarrow> tcp_conns_ok (fold ?f cs s1)" for cs s1
  proof (induction cs arbitrary: s1)
    case (Cons c cs)
    then have "tcp_conns_ok (?f c s1)"
      using conns_ok_at [of s1 c "close_connection c s1"] by (simp add: close_connection_ok tcp_conns_ok_def)
    with Cons show ?case by simp
  qed simp
  from this [of "s\<lparr>tp_running := False\<rparr>" "[0..<NVME_TCP_MAX_CONNECTIONS]"] assms show ?thesis
    by (simp add: nvme_tcp_target_deinit_def Let_def tcp_conns_ok_def)
qed

lemma tcp_history_ok: "tcp_history s \<Longrightarrow> tcp_conns_ok s"
proof (induction rule: tcp_history.induct)
  case (tcp_call s call s')
  then show ?case
    by (cases call) (auto simp: init_conns_ok deinit_conns_ok target_process_ok, simp add: tcp_conns_ok_def)
qed (rule init_conns_ok)

text \<open>C29: in every history a connection is closed exactly when it has no socket and no receive buffer, holds at
  most as many received bytes as its buffer has room for and no transfer larger than the buffer for writes; serving
  one connection leaves the others as they are.\<close>

theorem tcp_connections_well_formed:
  assumes "tcp_history s" "c < NVME_TCP_MAX_CONNECTIONS"
  shows "(tn_state (tp_conns s c) = NVME_TCP_CONN_CLOSED \<longleftrightarrow> tn_sockfd (tp_conns s c) < 0) \<and>
     (tn_state (tp_conns s c) = NVME_TCP_CONN_CLOSED \<longleftrightarrow> tn_recv_buffer (tp_conns s c) = None) \<and>
     tn_recv_len (tp_conns s c) \<le> NVME_TCP_BUFFER_SIZE \<and> unat (tn_data_total (tp_conns s c)) \<le> NVME_TCP_MAX_IO_SIZE \<and>
     (\<forall>e w s' d. serve_connection e w c s = Some s' \<longrightarrow> d \<noteq> c \<longrightarrow> tp_conns s' d = tp_conns s d)"
proof -
  have ok: "tcp_conn_ok (tp_conns s c)" using tcp_history_ok [OF assms(1)] assms(2) by (simp add: tcp_conns_ok_def)
  have "tp_conns s' d = tp_conns s d" if "serve_connection e w c s = Some s'" "d \<noteq> c" for e w s' d
    using that ok process_conn_ok(2) [of c "upd_conn c (\<lambda>n. n\<lparr>tn_last_activity_ms := ev_now e\<rparr>) s" _ _ d]
    by (fastforce simp: serve_connection_def open_conn_def upd_conn_def tcp_conn_ok_def close_connection_ok split: if_splits bind_splits)
  with ok show ?thesis by (auto simp: tcp_conn_ok_def split: if_splits)
qed

definition fresh_tcp :: "nvme_sys \<Rightarrow> tcp_sys" where
  "fresh_tcp v = \<lparr>tp_config = \<lparr>tg_port = 0, tg_subnqn = None, tg_maxh2cdata = 0\<rparr>, tp_conns = (\<lambda>_. zero_conn), tp_listen_fd = 0,
     tp_running = False, tp_io_write_buf = (\<lambda>_. 0), tp_io_read_buf = (\<lambda>_. 0), tp_nvme = v, tp_sent = [],
     tp_send = (\<lambda>_. Sent 1024), tp_send_count = 0, tp_recv = (\<lambda>_. Recv_again), tp_recv_count = 0,
     tp_malloc_fails = (\<lambda>_. False), tp_malloc_count = 0\<rparr>"

definition listening_tcp :: "nvme_sys \<Rightarrow> tcp_sys" where
  "listening_tcp v = snd (nvme_tcp_target_init (Some \<lparr>tg_port = 0, tg_subnqn = None, tg_maxh2cdata = 0\<rparr>) 3 True True (fresh_tcp v))"

definition connected_tcp :: "nvme_sys \<Rightarrow> tcp_sys" where
  "connected_tcp v = the (nvme_tcp_target_process \<lparr>ev_now = 5, ev_select_ok = True, ev_ready = (\<lambda>fd. fd = 3), ev_accept = 7,
     ev_fresh = (\<lambda>_. 0)\<rparr> (listening_tcp v))"

lemma NVME_TCP_MAX_CONNECTIONS_upt: "[0..<NVME_TCP_MAX_CONNECTIONS] = [0, 1, 2, 3]"
  by (simp add: NVME_TCP_MAX_CONNECTIONS_def upt_rec)

lemma connections_pos [simp]: "0 < NVME_TCP_MAX_CONNECTIONS" "NVME_TCP_MAX_CONNECTIONS \<noteq> 0" "1 < NVME_TCP_MAX_CONNECTIONS" "Suc 0 < NVME_TCP_MAX_CONNECTIONS" "2 < NVME_TCP_MAX_CONNECTIONS"
  "3 < NVME_TCP_MAX_CONNECTIONS"
  by (simp_all add: NVME_TCP_MAX_CONNECTIONS_def)

lemma connected_tcp_process: "nvme_tcp_target_process \<lparr>ev_now = 5, ev_select_ok = True, ev_ready = (\<lambda>fd. fd = 3), ev_accept = 7,
     ev_fresh = (\<lambda>_. 0)\<rparr> (listening_tcp v) = Some (connected_tcp v)"
  by (simp add: connected_tcp_def nvme_tcp_target_process_def listening_tcp_def nvme_tcp_target_init_def fresh_tcp_def
      NVME_TCP_MAX_CONNECTIONS_upt accept_connection_def find_free_conn_def tcp_malloc_def upd_conn_def serve_connection_def
      open_conn_def zero_conn_def Let_def)

lemma tcp_connections_well_formed_witness:
  "tcp_history (connected_tcp nvme_boot) \<and> tn_state (tp_conns (connected_tcp nvme_boot) 0) = NVME_TCP_CONN_NEW \<and>
   tn_recv_buffer (tp_conns (connected_tcp nvme_boot) 0) \<noteq> None \<and> tn_recv_buffer (tp_conns (connected_tcp nvme_boot) 1) = None"
proof -
  have h: "tcp_history (connected_tcp nvme_boot)"
    by (rule tcp_call [OF _ connected_tcp_process [unfolded tcp_step.simps(3) [symmetric]]]) (simp add: listening_tcp_def tcp_start)
  have st: "tn_state (tp_conns (connected_tcp nvme_boot) 0) = NVME_TCP_CONN_NEW" "tn_state (tp_conns (connected_tcp nvme_boot) 1) = NVME_TCP_CONN_CLOSED"
    by (simp_all add: connected_tcp_def nvme_tcp_target_process_def listening_tcp_def nvme_tcp_target_init_def fresh_tcp_def
      NVME_TCP_MAX_CONNECTIONS_upt accept_connection_def find_free_conn_def tcp_malloc_def upd_conn_def serve_connection_def
      open_conn_def zero_conn_def Let_def del: One_nat_def)
  from tcp_connections_well_formed [OF h connections_pos(1)] tcp_connections_well_formed [OF h connections_pos(3)] st h
  show ?thesis by (metis tcp_conn_state.distinct(7))
qed

end
