(* ===== verification/TcpData.thy ===== *)
theory TcpData
  imports TcpFlow UfsFlow
begin

text \<open>
  Data over the NVMe/TCP target: writes whose data arrives in chunks, what the write buffer that all connections share
  does to two of them, and offsets that wrap around.
\<close>

section \<open>One chunk\<close>

definition stored :: "nat \<Rightarrow> nat \<Rightarrow> u8 list \<Rightarrow> tcp_sys \<Rightarrow> tcp_sys" where
  "stored c off d s = upd_conn c (\<lambda>n. n\<lparr>tn_data_len := tn_data_len n + of_nat (length d)\<rparr>)
     (s\<lparr>tp_io_write_buf := mem_write (tp_io_write_buf s) off d\<rparr>)"

lemma copy_chunk:
  assumes buf: "tn_recv_buffer (tp_conns s c) = Some m" "mem_read m src (length d) = d" "src + length d \<le> NVME_TCP_BUFFER_SIZE"
    and d: "d \<noteq> []" and fit: "off + length d \<le> unat (tn_data_total (tp_conns s c))" "unat (tn_data_total (tp_conns s c)) \<le> NVME_TCP_MAX_IO_SIZE"
  shows "copy_h2cdata c (of_nat off) (of_nat (length d)) (Some src) s = Some (stored c off d s)"
proof -
  let ?t = "tn_data_total (tp_conns s c)" and ?o = "of_nat off :: u32" and ?l = "of_nat (length d) :: u32"
  have o: "unat ?o = off" "unat ?l = length d" using fit by (simp_all add: u32_small NVME_TCP_MAX_IO_SIZE_def)
  have "?o \<le> ?t" using fit o by (simp add: word_le_nat_alt)
  then have rest: "unat (?t - ?o) = unat ?t - off" using o by (simp add: unat_sub)
  have le: "?l \<le> ?t - ?o" using fit(1) o rest by (simp add: word_le_nat_alt)
  have copy: "(if ?l < ?t - ?o then ?l else ?t - ?o) = ?l" using le by auto
  have sum: "unat (?o + ?l) = off + length d"
    using fit o by (simp flip: of_nat_add add: u32_small NVME_TCP_MAX_IO_SIZE_def)
  have "?l \<noteq> 0" using o d by (metis length_0_conv unat_0)
  moreover have "?o + ?l \<le> ?t" using fit(1) sum by (simp add: word_le_nat_alt)
  ultimately show ?thesis
    using buf fit o by (simp add: copy_h2cdata_def Let_def copy recv_bytes_def store_write_data_def stored_def)
qed

text \<open>A PDU with data of the host for an offset of its transfer.\<close>

definition h2c_chunk :: "u8 list \<Rightarrow> nat \<Rightarrow> bool \<Rightarrow> bool" where
  "h2c_chunk p off fin \<longleftrightarrow>
     24 < length p \<and> length p \<le> NVME_TCP_BUFFER_SIZE \<and> p ! 0 = NVME_TCP_PDU_H2CDATA \<and> p ! 3 = 24 \<and>
     (p ! 1 AND NVME_TCP_DATA_FLAGS_LAST_PDU \<noteq> 0 \<longleftrightarrow> fin) \<and>
     word_at ((!) p) 4 4 = length p \<and> word_at ((!) p) 12 4 = off \<and> word_at ((!) p) 16 4 = length p - 24"

definition received :: "nat \<Rightarrow> u8 list \<Rightarrow> tcp_sys \<Rightarrow> tcp_sys" where
  "received c p s = upd_conn c (\<lambda>x. x\<lparr>tn_recv_buffer := map_option (\<lambda>m. mem_write m 0 p) (tn_recv_buffer x), tn_recv_len := length p\<rparr>)
     (s\<lparr>tp_recv_count := tp_recv_count s + 1\<rparr>)"

lemma process_one_pdu:
  assumes "tn_recv_len (tp_conns s c) = 0" "tn_recv_buffer (tp_conns s c) = Some m" "tp_recv s (tp_recv_count s) = Received p"
    and p: "8 \<le> length p" "length p \<le> NVME_TCP_BUFFER_SIZE" "word_at ((!) p) 4 4 = length p" "p ! 0 \<noteq> NVME_TCP_PDU_ICREQ"
    and d: "dispatch_pdu c (mem_write m 0 p) (length p) (received c p s) = Some s'"
  shows "nvme_tcp_process_pdu c s = Some (RET_OK, shift_buffer c (length p) 0 s')"
proof -
  let ?m = "mem_write m 0 p"
  have at: "word_at ?m 4 4 = length p"
    unfolding p(3) [symmetric] using p(1) by (intro word_at_cong) (simp add: mem_write_def)
  have ne: "p \<noteq> []" using p(1) by auto
  then have ty: "?m 0 = p ! 0" by (simp add: mem_write_def)
  have "nvme_tcp_process_pdu c s = pdu_loop c (length p) (received c p s)"
    using assms(1-3) p(2) ne by (simp add: nvme_tcp_process_pdu_def Let_def received_def upd_conn_def NVME_TCP_BUFFER_SIZE_def)
  also have "\<dots> = pdu_loop c 0 (shift_buffer c (length p) 0 s')"
    using assms(2) p(1,2,4) d ne
    by (subst pdu_loop.simps) (simp add: received_def upd_conn_def Let_def at ty consumed_def)
  also have "\<dots> = Some (RET_OK, shift_buffer c (length p) 0 s')" by (subst pdu_loop.simps) simp
  finally show ?thesis .
qed

lemma snd_bind: "map_option snd (Option.bind x (\<lambda>s. Some (a, s))) = x"
  by (cases x) simp_all

lemma dispatch_chunk:
  assumes h: "h2c_chunk p off fin" and m: "m = mem_write m0 0 p" "tn_recv_buffer (tp_conns s c) = Some m"
    and n: "tn_has_data_buffer (tp_conns s c)" "off + (length p - 24) \<le> unat (tn_data_total (tp_conns s c))"
      "unat (tn_data_total (tp_conns s c)) \<le> NVME_TCP_MAX_IO_SIZE"
  shows "dispatch_pdu c m (length p) s =
     (let s1 = stored c off (drop 24 p) s in
      if fin \<and> tn_data_total (tp_conns s1 c) \<le> tn_data_len (tp_conns s1 c) then finish_transfer c s1 else Some s1)"
proof -
  have len: "24 < length p" "length p \<le> NVME_TCP_BUFFER_SIZE" using h by (simp_all add: h2c_chunk_def)
  have at: "m i = p ! i" if "i < length p" for i using that m(1) by (simp add: mem_write_def)
  have at3: "m 0 = p ! 0" "m 1 = p ! 1" "m 3 = p ! 3" by (rule at; use len in linarith)+
  have f: "m 0 = 6" "m 1 = p ! 1" "m 3 = 24" "word_at m 12 4 = off" "word_at m 16 4 = length p - 24"
    using h len at3 word_at_cong [of 4 m 12 "(!) p"] word_at_cong [of 4 m 16 "(!) p"] at
    by (simp_all add: h2c_chunk_def)
  have rd: "mem_read m 24 (length (drop 24 p)) = drop 24 p" by (rule mem_read_cong) (simp_all add: at)
  have "copy_h2cdata c (of_nat off) (of_nat (length (drop 24 p))) (Some 24) s = Some (stored c off (drop 24 p) s)"
    by (rule copy_chunk [OF m(2) rd]) (use len n in simp_all)
  moreover have "tn_data_total (tp_conns s c) \<noteq> 0"
    using n(2) len by (metis add_is_0 le_zero_eq unat_0 zero_less_diff not_less_zero)
  moreover have "(p ! 1 AND NVME_TCP_DATA_FLAGS_LAST_PDU \<noteq> 0) = fin" using h by (simp add: h2c_chunk_def)
  ultimately show ?thesis
    using len n(1) by (simp add: dispatch_pdu_def Let_def f nvme_tcp_handle_h2cdata_def snd_bind del: One_nat_def)
qed

section \<open>Writes in chunks\<close>

lemma tcp_write_loop:
  assumes "\<And>i. i \<in> set is \<Longrightarrow> (i + 1) * 4096 \<le> NVME_TCP_MAX_IO_SIZE"
    and "write_all ftl_wr (nv_ftl (tp_nvme s)) (map (\<lambda>i. (tcp_lpn slba i, mem_read (tp_io_write_buf s) (i * 4096) 4096)) is) = Some f"
  shows "for_each is (tcp_write_body slba) s = Some (Next (upd_ftl f s))"
  using assms
proof (induction "is" arbitrary: s)
  case (Cons i "is")
  from Cons.prems(2) obtain f1 where f1: "ftl_wr (nv_ftl (tp_nvme s)) (tcp_lpn slba i) (mem_read (tp_io_write_buf s) (i * 4096) 4096) = Some f1"
    "write_all ftl_wr f1 (map (\<lambda>i. (tcp_lpn slba i, mem_read (tp_io_write_buf s) (i * 4096) 4096)) is) = Some f"
    by (auto split: bind_splits)
  from f1(1) have "ftl_write (nv_ftl (tp_nvme s)) (tcp_lpn slba i) (Some (mem_read (tp_io_write_buf s) (i * 4096) 4096)) = Some (RET_OK, f1)"
    by (auto simp: ftl_wr_def split: if_splits option.splits)
  then have "tcp_write_body slba i s = Some (Next (upd_ftl f1 s))"
    using Cons.prems(1) [of i] by (simp add: tcp_write_body_def)
  with Cons.IH [of "upd_ftl f1 s"] Cons.prems(1) f1(2) show ?case by simp
qed simp

definition tcp_writes :: "u64 \<Rightarrow> u8 list \<Rightarrow> (nat \<times> u8 list) list" where
  "tcp_writes slba b = map (\<lambda>i. (tcp_lpn slba i, buffer_page b i)) [0..<length b div 4096]"

lemma buffer_page_mem:
  assumes "mem_read m 0 (length b) = b" "Suc i * 4096 \<le> length b"
  shows "mem_read m (i * 4096) 4096 = buffer_page b i"
proof (rule mem_read_cong)
  show "length (buffer_page b i) = 4096" using assms(2) by (simp add: buffer_page_def)
  fix j :: nat
  assume "j < 4096"
  then have "i * 4096 + j < length b" using assms(2) by simp
  then have "m (i * 4096 + j) = b ! (i * 4096 + j)" using assms(1) nth_mem_read [of "i * 4096 + j" "length b" m 0] by simp
  then show "m (i * 4096 + j) = buffer_page b i ! j" using \<open>j < 4096\<close> assms(2) by (simp add: buffer_page_def)
qed

lemma tcp_write_pages_all:
  assumes b: "mem_read (tp_io_write_buf s) 0 (length b) = b" "length b = n * 4096" "length b \<le> NVME_TCP_MAX_IO_SIZE"
    and w: "write_all ftl_wr (nv_ftl (tp_nvme s)) (tcp_writes slba b) = Some f"
  shows "tcp_write_pages slba n s = Some (0, upd_ftl f s)"
proof -
  have le: "Suc i * 4096 \<le> length b" if "i < n" for i
    using that mult_le_mono1 [of "Suc i" n 4096] b(2) by simp
  have "map (\<lambda>i. (tcp_lpn slba i, mem_read (tp_io_write_buf s) (i * 4096) 4096)) [0..<n] = tcp_writes slba b"
    using buffer_page_mem [OF b(1) le] b(2) by (simp add: tcp_writes_def)
  then have "for_each [0..<n] (tcp_write_body slba) s = Some (Next (upd_ftl f s))"
    by (intro tcp_write_loop) (use w le b(3) in \<open>fastforce+\<close>)
  then show ?thesis by (simp add: tcp_write_pages_def)
qed

definition resp_pdu :: "u16 \<Rightarrow> u16 \<Rightarrow> u16 \<Rightarrow> u8 list" where
  "resp_pdu cid sqid st = pdu_hdr NVME_TCP_PDU_CAPSULE_RESP 0 24 24 @
     completion_bytes (blank_completion\<lparr>cp_cid := cid, cp_sqid := sqid, cp_status := st\<rparr>)"

definition r2t_pdu :: "u16 \<Rightarrow> nat \<Rightarrow> u8 list" where
  "r2t_pdu cid n = pdu_hdr NVME_TCP_PDU_R2T 0 24 24 @ word_bytes 2 (unat cid) @ word_bytes 2 0 @ word_bytes 4 0 @ word_bytes 4 n @ [0, 0, 0, 0]"

text \<open>An open write: what was asked for, how much has arrived, and where its data stands.\<close>

definition write_open :: "nat \<Rightarrow> int \<Rightarrow> u16 \<Rightarrow> u16 \<Rightarrow> u64 \<Rightarrow> nat \<Rightarrow> u8 list \<Rightarrow> tcp_sys \<Rightarrow> bool" where
  "write_open c fd cid sqid slba t b s \<longleftrightarrow>
     (let n = tp_conns s c in
      tn_sockfd n = fd \<and> tn_recv_len n = 0 \<and> tn_recv_buffer n \<noteq> None \<and> tn_has_data_buffer n \<and> tn_data_total n = of_nat t \<and>
      tn_data_len n = of_nat (length b) \<and> tn_pending_cmd_id n = cid \<and> tn_pending_sqid n = sqid \<and> tn_pending_slba n = slba \<and>
      tn_pending_opcode n = NVME_IO_WRITE \<and> mem_read (tp_io_write_buf s) 0 (length b) = b)"

primrec tcp_rounds :: "nat \<Rightarrow> nat \<Rightarrow> tcp_sys \<Rightarrow> tcp_sys option" where
  "tcp_rounds c 0 s = Some s"
| "tcp_rounds c (Suc k) s =
     (case nvme_tcp_process_pdu c s of Some (RET_OK, s) \<Rightarrow> tcp_rounds c k s | _ \<Rightarrow> None)"

fun h2c_stream :: "nat \<Rightarrow> u8 list list \<Rightarrow> bool" where
  "h2c_stream off [] \<longleftrightarrow> True"
| "h2c_stream off (p # ps) \<longleftrightarrow> h2c_chunk p off (ps = []) \<and> h2c_stream (off + (length p - 24)) ps"

definition h2c_payload :: "u8 list list \<Rightarrow> u8 list" where
  "h2c_payload ps = concat (map (drop 24) ps)"

lemma finish_write:
  assumes o: "write_open c fd cid sqid slba (length b) b (s\<lparr>tp_conns := (tp_conns s)(c := (tp_conns s c)\<lparr>tn_recv_len := 0\<rparr>)\<rparr>)"
    and b: "length b = n * 4096" "length b \<le> NVME_TCP_MAX_IO_SIZE"
    and w: "write_all ftl_wr (nv_ftl (tp_nvme s)) (tcp_writes slba b) = Some f" and "sends s"
  obtains s1 where "finish_transfer c s = Some (clear_data c s1)" "delivered fd (resp_pdu cid sqid 0) (upd_ftl f s) s1"
proof -
  have "mem_read (tp_io_write_buf s) 0 (length b) = b" using o by (simp add: write_open_def Let_def)
  note p = tcp_write_pages_all [OF this b w]
  have tot: "unat (tn_data_total (tp_conns s c)) div 4096 = n"
    using o b by (simp add: write_open_def Let_def u32_small NVME_TCP_MAX_IO_SIZE_def del: of_nat_mult)
  have "sends (upd_ftl f s)" using assms(5) by (simp add: sends_def)
  then obtain s1 where s1: "tcp_send_all fd (resp_pdu cid sqid 0) (upd_ftl f s) = Some (True, s1)" "delivered fd (resp_pdu cid sqid 0) (upd_ftl f s) s1"
    by (rule send_all_sends)
  then have "finish_transfer c s = Some (clear_data c s1)"
    using o p tot by (simp add: finish_transfer_def write_open_def Let_def nvme_tcp_send_capsule_resp_def resp_pdu_def)
  with s1(2) that show thesis by blast
qed

lemma stored_open:
  assumes "write_open c fd cid sqid slba t b s" "length b + length d \<le> t" "t \<le> NVME_TCP_MAX_IO_SIZE"
  shows "write_open c fd cid sqid slba t (b @ d) (shift_buffer c k 0 (stored c (length b) d (received c p s)))"
proof -
  have "mem_read (mem_write (tp_io_write_buf s) (length b) d) 0 (length b + length d) = b @ d"
    using assms(1) mem_read_append [of "mem_write (tp_io_write_buf s) (length b) d" 0 "length b" "length d"]
    by (simp add: mem_read_write_same mem_read_write_disjoint write_open_def Let_def)
  then show ?thesis
    using assms(1) by (auto simp: write_open_def Let_def shift_buffer_def stored_def received_def upd_conn_def)
qed

lemma stored_rest:
  "tp_nvme (stored c off d (received c p s)) = tp_nvme s" "tp_recv (stored c off d (received c p s)) = tp_recv s"
  "tp_recv_count (stored c off d (received c p s)) = Suc (tp_recv_count s)" "tp_sent (stored c off d (received c p s)) = tp_sent s"
  "tp_send (stored c off d (received c p s)) = tp_send s" "tp_nvme (shift_buffer c k n s) = tp_nvme s" "tp_recv (shift_buffer c k n s) = tp_recv s"
  "tp_recv_count (shift_buffer c k n s) = tp_recv_count s" "tp_sent (shift_buffer c k n s) = tp_sent s" "tp_send (shift_buffer c k n s) = tp_send s"
  by (simp_all add: stored_def received_def shift_buffer_def upd_conn_def)

lemma chunk_dispatched:
  assumes o: "write_open c fd cid sqid slba t b s" and h: "h2c_chunk p (length b) fin"
    and t: "length b + (length p - 24) \<le> t" "t \<le> NVME_TCP_MAX_IO_SIZE" and m: "tn_recv_buffer (tp_conns s c) = Some m"
  shows "dispatch_pdu c (mem_write m 0 p) (length p) (received c p s) =
     (let s1 = stored c (length b) (drop 24 p) (received c p s) in
      if fin \<and> length b + (length p - 24) = t then finish_transfer c s1 else Some s1)"
proof -
  let ?r = "received c p s" and ?s1 = "stored c (length b) (drop 24 p) (received c p s)"
  have tot: "unat (tn_data_total (tp_conns ?r c)) = t"
    using o t by (simp add: write_open_def Let_def received_def upd_conn_def u32_small NVME_TCP_MAX_IO_SIZE_def)
  have "tn_data_len (tp_conns ?s1 c) = of_nat (length b + (length p - 24))"
    using o by (simp add: write_open_def Let_def received_def stored_def upd_conn_def)
  then have got: "unat (tn_data_len (tp_conns ?s1 c)) = length b + (length p - 24)"
    using t by (simp add: u32_small NVME_TCP_MAX_IO_SIZE_def del: of_nat_add)
  have tot1: "unat (tn_data_total (tp_conns ?s1 c)) = t" using tot by (simp add: stored_def upd_conn_def)
  have le: "tn_data_total (tp_conns ?s1 c) \<le> tn_data_len (tp_conns ?s1 c) \<longleftrightarrow> length b + (length p - 24) = t"
    using t(1) by (auto simp: word_le_nat_alt tot1 got)
  have "dispatch_pdu c (mem_write m 0 p) (length p) ?r =
     (let s1 = stored c (length b) (drop 24 p) ?r in
      if fin \<and> tn_data_total (tp_conns s1 c) \<le> tn_data_len (tp_conns s1 c) then finish_transfer c s1 else Some s1)"
    by (rule dispatch_chunk [OF h refl]) (use o t tot m in \<open>auto simp: received_def upd_conn_def write_open_def Let_def\<close>)
  then show ?thesis by (simp add: Let_def le)
qed

lemma chunk_stored:
  assumes o: "write_open c fd cid sqid slba t b s" and h: "h2c_chunk p (length b) False"
    and t: "length b + (length p - 24) \<le> t" "t \<le> NVME_TCP_MAX_IO_SIZE" and r: "tp_recv s (tp_recv_count s) = Received p"
  shows "nvme_tcp_process_pdu c s = Some (RET_OK, shift_buffer c (length p) 0 (stored c (length b) (drop 24 p) (received c p s)))"
proof -
  obtain m where m: "tn_recv_len (tp_conns s c) = 0" "tn_recv_buffer (tp_conns s c) = Some m" using o by (auto simp: write_open_def Let_def)
  show ?thesis
    by (rule process_one_pdu [OF m r]) (use h chunk_dispatched [OF o h t m(2)] in \<open>simp_all add: h2c_chunk_def Let_def\<close>)
qed

lemma last_chunk_stored:
  assumes o: "write_open c fd cid sqid slba t b s" and h: "h2c_chunk p (length b) True"
    and t: "length b + (length p - 24) = t" "t = n * 4096" "t \<le> NVME_TCP_MAX_IO_SIZE" and r: "tp_recv s (tp_recv_count s) = Received p"
    and w: "write_all ftl_wr (nv_ftl (tp_nvme s)) (tcp_writes slba (b @ drop 24 p)) = Some f" and "sends s"
  shows "\<exists>s'. nvme_tcp_process_pdu c s = Some (RET_OK, s') \<and> nv_ftl (tp_nvme s') = f \<and> sent_to fd s' = sent_to fd s @ resp_pdu cid sqid 0 \<and>
     \<not> tn_has_data_buffer (tp_conns s' c)"
proof -
  obtain m where m: "tn_recv_len (tp_conns s c) = 0" "tn_recv_buffer (tp_conns s c) = Some m" using o by (auto simp: write_open_def Let_def)
  let ?s1 = "stored c (length b) (drop 24 p) (received c p s)" and ?b = "b @ drop 24 p"
  have len: "length ?b = t" using t by simp
  have "write_open c fd cid sqid slba t ?b (shift_buffer c 0 0 ?s1)" by (rule stored_open [OF o]) (use t in simp_all)
  then have o1: "write_open c fd cid sqid slba (length ?b) ?b (?s1\<lparr>tp_conns := (tp_conns ?s1)(c := (tp_conns ?s1 c)\<lparr>tn_recv_len := 0\<rparr>)\<rparr>)"
    unfolding len by (auto simp: write_open_def Let_def shift_buffer_def upd_conn_def)
  obtain s2 where s2: "finish_transfer c ?s1 = Some (clear_data c s2)" "delivered fd (resp_pdu cid sqid 0) (upd_ftl f ?s1) s2"
    by (rule finish_write [OF o1, of n f]) (use t w len assms(8) in \<open>simp_all add: stored_rest sends_def\<close>)
  have "length b + (length p - 24) \<le> t" using t by simp
  note d = chunk_dispatched [OF o h this t(3) m(2)]
  have "nvme_tcp_process_pdu c s = Some (RET_OK, shift_buffer c (length p) 0 (clear_data c s2))"
    by (rule process_one_pdu [OF m r]) (use h d s2(1) t in \<open>simp_all add: h2c_chunk_def Let_def\<close>)
  moreover have "nv_ftl (tp_nvme s2) = f" using only_sent_fields(2) [OF delivered_only [OF s2(2)]] by simp
  moreover have "sent_to fd s2 = sent_to fd s @ resp_pdu cid sqid 0"
    using delivered_sent_to(1) [OF s2(2)] by (simp add: sent_to_def stored_rest)
  ultimately show ?thesis by (auto simp: stored_rest clear_data_def upd_conn_def sent_to_def shift_buffer_def)
qed

lemma chunks_stored:
  assumes "write_open c fd cid sqid slba t b s" "h2c_stream (length b) ps" "ps \<noteq> []"
    and "length b + length (h2c_payload ps) = t" "t = n * 4096" "t \<le> NVME_TCP_MAX_IO_SIZE"
    and "\<And>i. i < length ps \<Longrightarrow> tp_recv s (tp_recv_count s + i) = Received (ps ! i)" and "sends s"
    and "write_all ftl_wr (nv_ftl (tp_nvme s)) (tcp_writes slba (b @ h2c_payload ps)) = Some f"
  shows "\<exists>s'. tcp_rounds c (length ps) s = Some s' \<and> nv_ftl (tp_nvme s') = f \<and> sent_to fd s' = sent_to fd s @ resp_pdu cid sqid 0 \<and>
     \<not> tn_has_data_buffer (tp_conns s' c)"
  using assms
proof (induction ps arbitrary: b s)
  case (Cons p ps)
  have r: "tp_recv s (tp_recv_count s) = Received p" using Cons.prems(7) [of 0] by simp
  show ?case
  proof (cases "ps = []")
    case True
    from last_chunk_stored [OF Cons.prems(1) _ _ Cons.prems(5,6) r _ Cons.prems(8), of f] True Cons.prems(2,4,9)
    show ?thesis by (auto simp: h2c_payload_def)
  next
    case False
    let ?s1 = "shift_buffer c (length p) 0 (stored c (length b) (drop 24 p) (received c p s))"
    have le: "length b + (length p - 24) \<le> t" using Cons.prems(4) by (simp add: h2c_payload_def)
    have step: "nvme_tcp_process_pdu c s = Some (RET_OK, ?s1)"
      by (rule chunk_stored [OF Cons.prems(1) _ le Cons.prems(6) r]) (use Cons.prems(2) False in simp)
    have o: "write_open c fd cid sqid slba t (b @ drop 24 p) ?s1"
      by (rule stored_open [OF Cons.prems(1) _ Cons.prems(6)]) (use le in simp)
    have "\<exists>s'. tcp_rounds c (length ps) ?s1 = Some s' \<and> nv_ftl (tp_nvme s') = f \<and> sent_to fd s' = sent_to fd ?s1 @ resp_pdu cid sqid 0 \<and>
        \<not> tn_has_data_buffer (tp_conns s' c)"
    proof (rule Cons.IH [OF o _ False _ Cons.prems(5,6)])
      show "tp_recv ?s1 (tp_recv_count ?s1 + i) = Received (ps ! i)" if "i < length ps" for i
        using Cons.prems(7) [of "Suc i"] that by (simp add: stored_rest)
    qed (use Cons.prems(2,4,8,9) in \<open>simp_all add: h2c_payload_def stored_rest sends_def\<close>)
    then show ?thesis by (simp add: step sent_to_def stored_rest)
  qed
qed simp

text \<open>A write command without data of its own.\<close>

definition write_capsule :: "u8 list \<Rightarrow> bool" where
  "write_capsule p \<longleftrightarrow>
     length p = 72 \<and> p ! 0 = NVME_TCP_PDU_CAPSULE_CMD \<and> p ! 3 = 72 \<and> word_at ((!) p) 4 4 = 72 \<and>
     nc_opcode (capsule_command ((!) p)) = NVME_IO_WRITE"

lemma capsule_command_cong: "(\<And>i. i < 72 \<Longrightarrow> m i = m' i) \<Longrightarrow> capsule_command m = capsule_command m'"
  unfolding capsule_command_def by (rule command_at_cong) simp

lemma write_capsule_opens:
  assumes n: "tn_recv_len (tp_conns s c) = 0" "tn_recv_buffer (tp_conns s c) = Some m" and p: "write_capsule p"
    and r: "tp_recv s (tp_recv_count s) = Received p" and "sends s"
    and cmd: "cmd = capsule_command ((!) p)" "0 < nvme_nlb cmd" "nvme_nlb cmd * 4096 \<le> NVME_TCP_MAX_IO_SIZE"
  obtains s' where "nvme_tcp_process_pdu c s = Some (RET_OK, s')"
    "write_open c (tn_sockfd (tp_conns s c)) (nc_cid cmd) (tn_qid (tp_conns s c)) (nvme_slba cmd) (nvme_nlb cmd * 4096) [] s'"
    "sent_to (tn_sockfd (tp_conns s c)) s' = sent_to (tn_sockfd (tp_conns s c)) s @ r2t_pdu (nc_cid cmd) (nvme_nlb cmd * 4096)"
    "tp_nvme s' = tp_nvme s" "tp_recv s' = tp_recv s" "tp_recv_count s' = Suc (tp_recv_count s)" "sends s'"
proof -
  let ?fd = "tn_sockfd (tp_conns s c)" and ?q = "tn_qid (tp_conns s c)" and ?t = "nvme_nlb cmd * 4096"
  let ?r = "received c p s" and ?m = "mem_write m 0 p"
  define s1 where "s1 = upd_conn c (\<lambda>n. n\<lparr>tn_pending_slba := nvme_slba cmd\<rparr>) (begin_transfer c (nc_cid cmd) ?q NVME_IO_WRITE ?t ?r)"
  have s1: "tp_nvme s1 = tp_nvme s" "tp_recv s1 = tp_recv s" "tp_recv_count s1 = Suc (tp_recv_count s)" "tp_sent s1 = tp_sent s"
    "tp_send s1 = tp_send s" "tn_sockfd (tp_conns s1 c) = ?fd" "tn_data_len (tp_conns s1 c) = 0"
    by (simp_all add: s1_def begin_transfer_def received_def upd_conn_def)
  then have "sends s1" using assms(5) by (simp add: sends_def)
  then obtain s2 where s2: "tcp_send_all ?fd (r2t_pdu (nc_cid cmd) ?t) s1 = Some (True, s2)" "delivered ?fd (r2t_pdu (nc_cid cmd) ?t) s1 s2"
    "only_sent s1 s2" by (rule send_all_sends)
  have at: "?m i = p ! i" if "i < 72" for i using that p by (simp add: mem_write_def write_capsule_def)
  have h: "?m 0 = 4" "?m 3 = 72" using p at [of 0] at [of 3] by (simp_all add: write_capsule_def)
  have c: "capsule_command ?m = cmd" unfolding cmd(1) by (rule capsule_command_cong) (rule at)
  have "capsule_write c cmd None 0 ?r = Some (RET_OK, s2)"
    using cmd(2,3) s2(1) s1(6,7)
    by (simp add: capsule_write_def Let_def take_inline_def nvme_tcp_send_r2t_def r2t_pdu_def s1_def [symmetric])
      (simp add: s1_def received_def upd_conn_def begin_transfer_def r2t_pdu_def)
  then have "dispatch_pdu c ?m (length p) ?r = Some s2"
    using p cmd(1) by (simp add: dispatch_pdu_def h Let_def write_capsule_def nvme_tcp_handle_capsule_cmd_def c)
  then have "nvme_tcp_process_pdu c s = Some (RET_OK, shift_buffer c (length p) 0 s2)"
    by (rule process_one_pdu [OF n r, rotated 4]) (use p in \<open>simp_all add: write_capsule_def NVME_TCP_BUFFER_SIZE_def\<close>)
  moreover have "write_open c ?fd (nc_cid cmd) ?q (nvme_slba cmd) ?t [] (shift_buffer c (length p) 0 s2)"
    using n by (simp add: write_open_def Let_def shift_buffer_def upd_conn_def only_sent_fields [OF s2(3)] mem_read_def)
      (simp add: s1_def begin_transfer_def received_def upd_conn_def)
  moreover have "sent_to ?fd s2 = sent_to ?fd s @ r2t_pdu (nc_cid cmd) ?t"
    using delivered_sent_to(1) [OF s2(2)] s1(4) by (simp add: sent_to_def)
  moreover have "sends s2" using only_sent_fields(11) [OF s2(3)] \<open>sends s1\<close> by simp
  ultimately show thesis
    by (intro that [of "shift_buffer c (length p) 0 s2"])
      (simp_all add: stored_rest sent_to_def sends_def only_sent_fields [OF s2(3)] s1)
qed

lemma tcp_lpn_small: "unat slba + n \<le> FTL_TOTAL_LPNS \<Longrightarrow> i < n \<Longrightarrow> tcp_lpn slba i = unat slba + i"
  unfolding tcp_lpn_def by (rule block_number_small) (simp add: ftl_bounds)

lemma tcp_written_pages:
  assumes "ftl_ready s" "write_all ftl_wr s (tcp_writes slba b) = Some f" "length b = n * 4096" "unat slba + n \<le> FTL_TOTAL_LPNS" "i < n"
  shows "logical f (unat slba + i) = Some (buffer_page b i)"
proof -
  have w: "tcp_writes slba b = map (\<lambda>i. (unat slba + i, buffer_page b i)) [0..<n]"
    using assms(3,4) by (auto simp: tcp_writes_def tcp_lpn_small)
  show ?thesis by (rule range_written [OF assms(1) assms(2) [unfolded w] assms(5)])
qed

text \<open>C28: a write command whose data arrives in any number of consecutive chunks, one PDU per round, is answered by one
  R2T for all of its bytes and, after the last chunk, by one successful completion; the pages of the FTL then hold
  the payload of the chunks in their order.\<close>

theorem tcp_write_stores:
  assumes "tn_sockfd (tp_conns s c) = fd" "tn_recv_len (tp_conns s c) = 0" "tn_recv_buffer (tp_conns s c) \<noteq> None" "sends s"
    and "write_capsule p" "capsule_command ((!) p) = cmd" "nvme_nlb cmd = n" "0 < n" "n * 4096 \<le> NVME_TCP_MAX_IO_SIZE"
    and "unat (nvme_slba cmd) + n \<le> FTL_TOTAL_LPNS"
    and "h2c_stream 0 ps" "h2c_payload ps = b" "length b = n * 4096"
    and "\<forall>i\<le>length ps. tp_recv s (tp_recv_count s + i) = Received ((p # ps) ! i)"
    and "ftl_ready (nv_ftl (tp_nvme s))" "write_all ftl_wr (nv_ftl (tp_nvme s)) (tcp_writes (nvme_slba cmd) b) = Some f"
  shows "\<exists>s'. tcp_rounds c (Suc (length ps)) s = Some s' \<and> nv_ftl (tp_nvme s') = f \<and>
     sent_to fd s' = sent_to fd s @ r2t_pdu (nc_cid cmd) (n * 4096) @ resp_pdu (nc_cid cmd) (tn_qid (tp_conns s c)) 0 \<and>
     (\<forall>i<n. logical f (unat (nvme_slba cmd) + i) = Some (buffer_page b i))"
proof -
  obtain m where m: "tn_recv_buffer (tp_conns s c) = Some m" using assms(3) by auto
  have r: "tp_recv s (tp_recv_count s) = Received p" using assms(14) by (auto dest: spec [of _ 0])
  from assms(6-9) have cmd: "cmd = capsule_command ((!) p)" "0 < nvme_nlb cmd" "nvme_nlb cmd * 4096 \<le> NVME_TCP_MAX_IO_SIZE" by auto
  obtain s1 where s1: "nvme_tcp_process_pdu c s = Some (RET_OK, s1)"
    "write_open c fd (nc_cid cmd) (tn_qid (tp_conns s c)) (nvme_slba cmd) (n * 4096) [] s1"
    "sent_to fd s1 = sent_to fd s @ r2t_pdu (nc_cid cmd) (n * 4096)"
    "tp_nvme s1 = tp_nvme s" "tp_recv s1 = tp_recv s" "tp_recv_count s1 = Suc (tp_recv_count s)" "sends s1"
    using write_capsule_opens [OF assms(2) m assms(5) r assms(4) cmd] unfolding assms(1,7) by blast
  have ne: "ps \<noteq> []" using assms(8,12,13) by (auto simp: h2c_payload_def)
  have "\<exists>s'. tcp_rounds c (length ps) s1 = Some s' \<and> nv_ftl (tp_nvme s') = f \<and>
     sent_to fd s' = sent_to fd s1 @ resp_pdu (nc_cid cmd) (tn_qid (tp_conns s c)) 0 \<and> \<not> tn_has_data_buffer (tp_conns s' c)"
  proof (rule chunks_stored [OF s1(2) _ ne _ refl assms(9)])
    show "tp_recv s1 (tp_recv_count s1 + i) = Received (ps ! i)" if "i < length ps" for i
      using assms(14) [rule_format, of "Suc i"] that by (simp add: s1)
  qed (use assms(11-13,16) s1 in simp_all)
  then show ?thesis using s1(1,3) tcp_written_pages [OF assms(15,16,13,10)] by auto
qed

definition h2c_pdu :: "u16 \<Rightarrow> nat \<Rightarrow> u8 list \<Rightarrow> bool \<Rightarrow> u8 list" where
  "h2c_pdu cid off d fin =
     pdu_hdr NVME_TCP_PDU_H2CDATA (if fin then NVME_TCP_DATA_FLAGS_LAST_PDU else 0) 24 (24 + length d) @
     word_bytes 2 (unat cid) @ [0, 0] @ word_bytes 4 off @ word_bytes 4 (length d) @ [0, 0, 0, 0] @ d"

lemma h2c_pdu_chunk:
  assumes "off < 2 ^ 32" "d \<noteq> []" "24 + length d \<le> NVME_TCP_BUFFER_SIZE"
  shows "h2c_chunk (h2c_pdu cid off d fin) off fin" "drop 24 (h2c_pdu cid off d fin) = d" "length (h2c_pdu cid off d fin) = 24 + length d"
proof -
  let ?p = "h2c_pdu cid off d fin"
  show len: "length ?p = 24 + length d" and "drop 24 ?p = d" by (simp_all add: h2c_pdu_def pdu_hdr_def word_bytes_def)
  have at: "word_at ((!) ?p) 4 4 = 24 + length d" "word_at ((!) ?p) 12 4 = off" "word_at ((!) ?p) 16 4 = length d"
    by (rule word_at_bytes; use assms in \<open>simp add: h2c_pdu_def pdu_hdr_def nth_append NVME_TCP_BUFFER_SIZE_def nth_Cons'\<close>)+
  have "?p ! 0 = 6" "?p ! 3 = 24" "(?p ! 1 AND NVME_TCP_DATA_FLAGS_LAST_PDU \<noteq> 0) = fin"
    by (simp_all add: h2c_pdu_def pdu_hdr_def NVME_TCP_DATA_FLAGS_LAST_PDU_def)
  with at len assms show "h2c_chunk ?p off fin" by (simp add: h2c_chunk_def)
qed

definition write_pdu :: "u8 list" where
  "write_pdu = pdu_hdr NVME_TCP_PDU_CAPSULE_CMD 0 72 72 @ [NVME_IO_WRITE, 0] @ word_bytes 2 9 @ replicate 60 0"

lemma write_pdu_facts:
  "write_capsule write_pdu" "nvme_nlb (capsule_command ((!) write_pdu)) = 1" "nvme_slba (capsule_command ((!) write_pdu)) = 0"
  "nc_cid (capsule_command ((!) write_pdu)) = 9"
proof -
  have "write_pdu ! j = 0" if "12 \<le> j" "j < 72" for j
  proof -
    have "length (take 12 write_pdu) = 12" "drop 12 write_pdu = replicate 60 0"
      by (simp_all add: write_pdu_def pdu_hdr_def word_bytes_def)
    then obtain h where h: "write_pdu = h @ replicate 60 0" "length h = 12" by (metis append_take_drop_id)
    show ?thesis unfolding h(1) using h(2) that by (auto simp: nth_append)
  qed
  then have z: "word_at ((!) write_pdu) k 4 = 0" if "12 \<le> k" "k + 4 \<le> 72" for k
    using that by (intro word_at_bytes) (simp_all add: word_bytes_def)
  have "word_at ((!) write_pdu) 4 4 = 72" "word_at ((!) write_pdu) 10 2 = 9"
    by (rule word_at_bytes; simp add: write_pdu_def pdu_hdr_def nth_append nth_Cons')+
  moreover have "length write_pdu = 72" "write_pdu ! 0 = 4" "write_pdu ! 3 = 72" "write_pdu ! 8 = 1"
    by (simp_all add: write_pdu_def pdu_hdr_def nth_append nth_Cons')
  ultimately show "write_capsule write_pdu" "nvme_nlb (capsule_command ((!) write_pdu)) = 1" "nvme_slba (capsule_command ((!) write_pdu)) = 0"
    "nc_cid (capsule_command ((!) write_pdu)) = 9"
    using z by (simp_all add: write_capsule_def capsule_command_def command_at_def nvme_nlb_def nvme_slba_def)
qed

definition chunked_write :: tcp_sys where
  "chunked_write = (connected_tcp nvme_boot)\<lparr>tp_recv :=
     (\<lambda>i. Received ([write_pdu, h2c_pdu 9 0 (replicate 2048 1) False, h2c_pdu 9 2048 (replicate 2048 2) True] ! i)), tp_recv_count := 0\<rparr>"

lemma connected_conn:
  "tp_conns (connected_tcp v) 0 = zero_conn\<lparr>tn_sockfd := 7, tn_state := NVME_TCP_CONN_NEW, tn_last_activity_ms := 5,
     tn_recv_buffer := Some (\<lambda>_. 0)\<rparr>" "tp_nvme (connected_tcp v) = v" "sends (connected_tcp v)" "tp_sent (connected_tcp v) = []"
  by (simp_all add: connected_tcp_def nvme_tcp_target_process_def listening_tcp_def nvme_tcp_target_init_def fresh_tcp_def
      NVME_TCP_MAX_CONNECTIONS_upt accept_connection_def find_free_conn_def tcp_malloc_def upd_conn_def serve_connection_def
      open_conn_def zero_conn_def Let_def sends_def)

lemma tcp_write_stores_witness:
  "\<exists>s'. tcp_rounds 0 3 chunked_write = Some s' \<and>
     logical (nv_ftl (tp_nvme s')) 0 = Some (replicate 2048 1 @ replicate 2048 2) \<and>
     sent_to 7 s' = r2t_pdu 9 4096 @ resp_pdu 9 0 0"
proof -
  let ?cmd = "capsule_command ((!) write_pdu)" and ?b = "replicate 2048 1 @ replicate 2048 2 :: u8 list"
  let ?ps = "[h2c_pdu 9 0 (replicate 2048 1) False, h2c_pdu 9 2048 (replicate 2048 2) True]"
  have page: "buffer_page ?b 0 = ?b" "length ?b = 1 * 4096" by (simp_all add: buffer_page_def)
  have ch: "h2c_chunk (h2c_pdu 9 0 (replicate 2048 1) False) 0 False" "h2c_chunk (h2c_pdu 9 2048 (replicate 2048 2) True) 2048 True"
    "length (h2c_pdu 9 0 (replicate 2048 1) False) = 2072" "drop 24 (h2c_pdu 9 0 (replicate 2048 1) False) = replicate 2048 1"
    "drop 24 (h2c_pdu 9 2048 (replicate 2048 2) True) = replicate 2048 2"
    by (simp_all add: h2c_pdu_chunk NVME_TCP_BUFFER_SIZE_def)
  have ps: "h2c_stream 0 ?ps" "h2c_payload ?ps = ?b" by (simp_all add: ch h2c_payload_def)
  have "0 < FTL_TOTAL_LPNS" "length ?b = NAND_PAGE_SIZE" by (simp_all add: ftl_bounds NAND_PAGE_SIZE_def)
  then obtain f where f: "ftl_wr example_ftl 0 ?b = Some f" by (rule example_ftl_write)
  have "tcp_lpn 0 0 = 0" by (simp add: tcp_lpn_def)
  then have w: "write_all ftl_wr (nv_ftl (tp_nvme chunked_write)) (tcp_writes (nvme_slba ?cmd) ?b) = Some f"
    using f page by (simp add: chunked_write_def connected_conn nvme_boot_ftl tcp_writes_def write_pdu_facts)
  have c: "tn_sockfd (tp_conns chunked_write 0) = 7" "tn_recv_len (tp_conns chunked_write 0) = 0" "tn_recv_buffer (tp_conns chunked_write 0) \<noteq> None"
    "sends chunked_write" "ftl_ready (nv_ftl (tp_nvme chunked_write))" "tn_qid (tp_conns chunked_write 0) = 0" "sent_to 7 chunked_write = []"
    using connected_conn(3) [of nvme_boot]
    by (simp_all add: chunked_write_def connected_conn zero_conn_def sends_def nvme_boot_ftl example_ftl_facts sent_to_def)
  have r: "\<forall>i\<le>length ?ps. tp_recv chunked_write (tp_recv_count chunked_write + i) = Received ((write_pdu # ?ps) ! i)"
    by (simp add: chunked_write_def)
  have lim: "unat (nvme_slba ?cmd) + 1 \<le> FTL_TOTAL_LPNS" "1 * 4096 \<le> NVME_TCP_MAX_IO_SIZE"
    by (simp_all add: write_pdu_facts ftl_bounds NVME_TCP_MAX_IO_SIZE_def)
  from tcp_write_stores [OF c(1-4) write_pdu_facts(1) refl write_pdu_facts(2) zero_less_one lim(2,1) ps page(2) r c(5) w]
  show ?thesis unfolding c(6,7) write_pdu_facts(3,4) by (simp add: page(1) numeral_3_eq_3 del: tcp_rounds.simps) blast
qed

section \<open>Two writes at the same time\<close>

text \<open>C30: the buffer for writes belongs to all connections.  While one connection waits for the rest of its data, a
  chunk of another one overwrites what it has received; its last chunk then stores the other connection's bytes in
  its pages and reports success.\<close>

theorem tcp_writes_share_buffer:
  assumes "a \<noteq> b" "write_open a fd cid sqid slba (n * 4096) x s" "write_open b fd2 cid2 sqid2 slba2 t [] s"
    and "h2c_chunk pb 0 False" "length pb - 24 = length x" "length x \<le> t" "t \<le> NVME_TCP_MAX_IO_SIZE"
    and "h2c_chunk pa (length x) True" "length x + (length pa - 24) = n * 4096" "n * 4096 \<le> NVME_TCP_MAX_IO_SIZE"
    and "tp_recv s (tp_recv_count s) = Received pb" "tp_recv s (Suc (tp_recv_count s)) = Received pa" "sends s"
    and "unat slba + n \<le> FTL_TOTAL_LPNS" "ftl_ready (nv_ftl (tp_nvme s))"
    and "write_all ftl_wr (nv_ftl (tp_nvme s)) (tcp_writes slba (drop 24 pb @ drop 24 pa)) = Some f"
  shows "\<exists>s1 s2. nvme_tcp_process_pdu b s = Some (RET_OK, s1) \<and> nvme_tcp_process_pdu a s1 = Some (RET_OK, s2) \<and>
     sent_to fd s2 = sent_to fd s @ resp_pdu cid sqid 0 \<and> nv_ftl (tp_nvme s2) = f \<and>
     (\<forall>i<n. logical f (unat slba + i) = Some (buffer_page (drop 24 pb @ drop 24 pa) i))"
proof -
  let ?y = "drop 24 pb"
  let ?s1 = "shift_buffer b (length pb) 0 (stored b 0 ?y (received b pb s))"
  have y: "length ?y = length x" using assms(5) by simp
  have step: "nvme_tcp_process_pdu b s = Some (RET_OK, ?s1)"
    using chunk_stored [OF assms(3), of pb] assms(4-7,11) by simp
  have "mem_read (mem_write (tp_io_write_buf s) 0 ?y) 0 (length ?y) = ?y" by (rule mem_read_write_same) simp
  then have o: "write_open a fd cid sqid slba (n * 4096) ?y ?s1"
    using assms(1,2) y by (auto simp: write_open_def Let_def shift_buffer_def stored_def received_def upd_conn_def)
  have "\<exists>s2. nvme_tcp_process_pdu a ?s1 = Some (RET_OK, s2) \<and> nv_ftl (tp_nvme s2) = f \<and> sent_to fd s2 = sent_to fd ?s1 @ resp_pdu cid sqid 0 \<and>
      \<not> tn_has_data_buffer (tp_conns s2 a)"
    by (rule last_chunk_stored [OF o _ _ refl assms(10)]) (use assms(8,9,12,13,16) y in \<open>simp_all add: stored_rest sends_def\<close>)
  moreover have "logical f (unat slba + i) = Some (buffer_page (?y @ drop 24 pa) i)" if "i < n" for i
    by (rule tcp_written_pages [OF assms(15,16) _ assms(14) that]) (use assms(9) y in simp)
  ultimately show ?thesis using step by (auto simp: sent_to_def stored_rest)
qed

definition two_writes :: tcp_sys where
  "two_writes = (connected_tcp nvme_boot)\<lparr>tp_conns := (\<lambda>c. zero_conn\<lparr>tn_sockfd := 7 + int c, tn_state := NVME_TCP_CONN_READY,
       tn_recv_buffer := Some (\<lambda>_. 0), tn_has_data_buffer := True, tn_data_total := 4096, tn_data_len := (if c = 0 then 2048 else 0),
       tn_pending_cmd_id := 9, tn_pending_opcode := NVME_IO_WRITE\<rparr>),
     tp_io_write_buf := (\<lambda>_. 1),
     tp_recv := (\<lambda>i. Received (if i = 0 then h2c_pdu 9 0 (replicate 2048 2) False else h2c_pdu 9 2048 (replicate 2048 3) True)),
     tp_recv_count := 0\<rparr>"

lemma tcp_writes_share_buffer_witness:
  "\<exists>s1 s2. write_open 0 7 9 0 0 4096 (replicate 2048 1) two_writes \<and>
     nvme_tcp_process_pdu 1 two_writes = Some (RET_OK, s1) \<and> nvme_tcp_process_pdu 0 s1 = Some (RET_OK, s2) \<and>
     sent_to 7 s2 = resp_pdu 9 0 0 \<and> logical (nv_ftl (tp_nvme s2)) 0 = Some (replicate 2048 2 @ replicate 2048 3)"
proof -
  let ?x = "replicate 2048 1 :: u8 list"
  let ?pb = "h2c_pdu 9 0 (replicate 2048 2) False" and ?pa = "h2c_pdu 9 2048 (replicate 2048 3) True"
  let ?b = "replicate 2048 2 @ replicate 2048 3 :: u8 list"
  have page: "buffer_page ?b 0 = ?b" by (simp add: buffer_page_def)
  have p: "h2c_chunk ?pb 0 False" "h2c_chunk ?pa (length ?x) True" "length ?pb - 24 = length ?x" "length ?x + (length ?pa - 24) = 1 * 4096"
    "drop 24 ?pb @ drop 24 ?pa = ?b"
    by (simp_all add: h2c_pdu_chunk NVME_TCP_BUFFER_SIZE_def)
  have "mem_read (\<lambda>_. 1) 0 2048 = ?x" by (simp add: mem_read_def map_replicate_const)
  then have o: "write_open 0 7 9 0 0 (1 * 4096) ?x two_writes" "write_open 1 8 9 0 0 4096 [] two_writes"
    by (simp_all add: write_open_def two_writes_def zero_conn_def Let_def mem_read_def)
  have "0 < FTL_TOTAL_LPNS" "length ?b = NAND_PAGE_SIZE" by (simp_all add: ftl_bounds NAND_PAGE_SIZE_def)
  then obtain f where f: "ftl_wr example_ftl 0 ?b = Some f" by (rule example_ftl_write)
  have "tcp_lpn 0 0 = 0" by (simp add: tcp_lpn_def)
  then have w: "write_all ftl_wr (nv_ftl (tp_nvme two_writes)) (tcp_writes 0 (drop 24 ?pb @ drop 24 ?pa)) = Some f"
    unfolding p(5) using f page by (simp add: two_writes_def connected_conn nvme_boot_ftl tcp_writes_def)
  have s: "sends two_writes" "ftl_ready (nv_ftl (tp_nvme two_writes))" "sent_to 7 two_writes = []"
    using connected_conn(3) [of nvme_boot]
    by (simp_all add: two_writes_def connected_conn sends_def nvme_boot_ftl example_ftl_facts sent_to_def)
  have r: "tp_recv two_writes (tp_recv_count two_writes) = Received ?pb" "tp_recv two_writes (Suc (tp_recv_count two_writes)) = Received ?pa"
    by (simp_all add: two_writes_def)
  have lim: "unat (0 :: u64) + 1 \<le> FTL_TOTAL_LPNS" "1 * 4096 \<le> NVME_TCP_MAX_IO_SIZE" "length ?x \<le> 4096" "4096 \<le> NVME_TCP_MAX_IO_SIZE"
    by (simp_all add: ftl_bounds NVME_TCP_MAX_IO_SIZE_def)
  from tcp_writes_share_buffer [OF zero_neq_one o p(1,3) lim(3,4) p(2,4) lim(2) r s(1) lim(1) s(2) w] o(1)
  show ?thesis unfolding s(3) p(5) by (simp add: page) blast
qed

section \<open>Offsets that wrap around\<close>

text \<open>C31: a PDU of data whose offset lies beyond the transfer and whose offset and length add up to more than 32 bits
  passes the check of the length and is copied behind the buffer for writes.\<close>

theorem tcp_offset_wraps:
  assumes "tn_has_data_buffer (tp_conns s c)" "0 < tn_data_total (tp_conns s c)" "unat (tn_data_total (tp_conns s c)) \<le> NVME_TCP_MAX_IO_SIZE"
    and "unat (tn_data_total (tp_conns s c)) < word_at pdu 12 4" "word_at pdu 12 4 < 2 ^ 32" "word_at pdu 16 4 < 2 ^ 32"
    and "2 ^ 32 \<le> word_at pdu 12 4 + word_at pdu 16 4"
  shows "nvme_tcp_handle_h2cdata c pdu (Some off) s = None"
proof -
  let ?t = "tn_data_total (tp_conns s c)" and ?o = "of_nat (word_at pdu 12 4) :: u32" and ?l = "of_nat (word_at pdu 16 4) :: u32"
  let ?k = "if ?l < ?t - ?o then ?l else ?t - ?o"
  have o: "unat ?o = word_at pdu 12 4" "unat ?l = word_at pdu 16 4" using assms(5,6) by (simp_all add: u32_small)
  have rest: "unat (?t - ?o) = 2 ^ 32 + unat ?t - unat ?o"
    using assms(4) by (simp add: unat_sub_if' o)
  have k: "unat ?k = min (unat ?l) (2 ^ 32 + unat ?t - unat ?o)" by (auto simp: word_less_nat_alt rest)
  have wrap: "2 ^ 32 \<le> unat ?o + unat ?k" "unat ?o + unat ?k \<le> 2 ^ 32 + unat ?t" using assms(4,5,7) o k by auto
  have "unat (?o + ?k) = unat ?o + unat ?k - 2 ^ 32"
    using wrap assms(5) o unsigned_less [of ?k] by (simp add: unat_plus_if')
  then have "?o + ?k \<le> ?t" using wrap(2) by (simp add: word_le_nat_alt)
  moreover have "?l \<noteq> 0" using o assms(5,7) by (metis add.right_neutral linorder_not_le unat_0)
  moreover have "do { bs \<leftarrow> recv_bytes c off (unat ?k) s; s \<leftarrow> store_write_data (unat ?o) bs s; Some (g s) } = None" for g :: "tcp_sys \<Rightarrow> tcp_sys"
  proof (cases "recv_bytes c off (unat ?k) s")
    case (Some bs)
    then have "length bs = unat ?k" by (auto simp: recv_bytes_def simp del: unsigned_of_nat split: option.splits if_splits)
    then have "store_write_data (unat ?o) bs s = None" using wrap(1) by (simp add: store_write_data_def NVME_TCP_MAX_IO_SIZE_def)
    then show ?thesis using Some by simp
  qed simp
  ultimately have "copy_h2cdata c ?o ?l (Some off) s = None"
    unfolding copy_h2cdata_def Let_def option.case by (simp only: if_True if_False simp_thms)
  then show ?thesis using assms(1,2) by (auto simp: nvme_tcp_handle_h2cdata_def)
qed

lemma tcp_offset_wraps_witness:
  "\<exists>pdu. nvme_tcp_handle_h2cdata 0 pdu (Some 24) two_writes = None \<and> pdu 3 = 24"
proof -
  let ?p = "h2c_pdu 9 4294967295 [1] False"
  have at: "word_at ((!) ?p) 12 4 = 4294967295" "word_at ((!) ?p) 16 4 = 1"
    using h2c_pdu_chunk(1,3) [of 4294967295 "[1]" 9 False] by (simp_all add: h2c_chunk_def NVME_TCP_BUFFER_SIZE_def)
  have "nvme_tcp_handle_h2cdata 0 ((!) ?p) (Some 24) two_writes = None"
    by (rule tcp_offset_wraps) (simp_all add: at, simp_all add: two_writes_def NVME_TCP_MAX_IO_SIZE_def)
  moreover have "?p ! 3 = 24" by (simp add: h2c_pdu_def pdu_hdr_def)
  ultimately show ?thesis by blast
qed

end
