(* ===== verification/Vfio.thy ===== *)
theory Vfio
  imports Wire
begin

text \<open>
  The vfio-user device, \<open>src/protocol/nvme/vfio_user_nvme.c\<close> and \<open>include/protocol/vfio_user_nvme.h\<close>: the messages of
  the protocol, the PCI configuration space, BAR 0 with registers, doorbells and the MSI-X table, the queues in guest
  memory and the transfer of data along PRP entries.  Guest memory is a set of objects of bytes; a mapping is an object,
  where it starts in it and how long it is, and a pointer into it knows how many bytes follow.  What the kernel
  answers (\<open>recvmsg\<close>, \<open>mmap\<close>, \<open>select\<close>, \<open>accept\<close>, \<open>socket\<close>, \<open>bind\<close>, \<open>listen\<close>) is the environment's; messages sent,
  descriptors closed and interrupts raised are logged.  An outer \<open>None\<close> is an access outside of a buffer or a mapping, a
  division by zero, what the FTL leaves undefined, or a loop that does not end.  The messages that go to the log are left
  out.
\<close>

section \<open>Constants and data\<close>

definition NVME_MAX_IO_QUEUES :: nat where "NVME_MAX_IO_QUEUES = 4"
definition VFIO_MAX_QUEUES :: nat where "VFIO_MAX_QUEUES = 1 + NVME_MAX_IO_QUEUES"
definition VFIO_PAGE_SIZE :: nat where "VFIO_PAGE_SIZE = 4096"
definition VFIO_USER_MAX_DMA_REGIONS :: nat where "VFIO_USER_MAX_DMA_REGIONS = 16"
definition VFIO_USER_MAX_PAYLOAD_SIZE :: nat where "VFIO_USER_MAX_PAYLOAD_SIZE = 8192"
definition VFIO_USER_NVME_MAX_IO_SIZE :: nat where "VFIO_USER_NVME_MAX_IO_SIZE = 1024 * 1024"
definition VFIO_PCI_CONFIG_SIZE :: nat where "VFIO_PCI_CONFIG_SIZE = 256"
definition VFIO_BAR0_SIZE :: nat where "VFIO_BAR0_SIZE = 0x10000"
definition VFIO_BAR0_NVME_REGS_SIZE :: nat where "VFIO_BAR0_NVME_REGS_SIZE = 4096"
definition VFIO_BAR0_DOORBELL_OFFSET :: nat where "VFIO_BAR0_DOORBELL_OFFSET = 0x1000"
definition VFIO_BAR0_MSIX_TABLE_OFFSET :: nat where "VFIO_BAR0_MSIX_TABLE_OFFSET = 0x2000"
definition VFIO_BAR0_MSIX_PBA_OFFSET :: nat where "VFIO_BAR0_MSIX_PBA_OFFSET = 0x3000"
definition VFIO_MSIX_VECTOR_COUNT :: nat where "VFIO_MSIX_VECTOR_COUNT = 1"
definition VFIO_REGION_COUNT :: nat where "VFIO_REGION_COUNT = 9"
definition VFIO_IRQ_COUNT :: nat where "VFIO_IRQ_COUNT = 3"
definition VFIO_USER_NVME_DEFAULT_SOCKET :: string where "VFIO_USER_NVME_DEFAULT_SOCKET = ''/tmp/ftl-vfio-user.sock''"

abbreviation (input) VFIO_REGION_BAR0 :: nat where "VFIO_REGION_BAR0 \<equiv> 0"
abbreviation (input) VFIO_REGION_PCI_CONFIG :: nat where "VFIO_REGION_PCI_CONFIG \<equiv> 7"
abbreviation (input) VFIO_IRQ_INTX :: nat where "VFIO_IRQ_INTX \<equiv> 0"
abbreviation (input) VFIO_IRQ_MSI :: nat where "VFIO_IRQ_MSI \<equiv> 1"
abbreviation (input) VFIO_IRQ_MSIX :: nat where "VFIO_IRQ_MSIX \<equiv> 2"

abbreviation (input) VFU_VERSION :: u16 where "VFU_VERSION \<equiv> 1"
abbreviation (input) VFU_DMA_MAP :: u16 where "VFU_DMA_MAP \<equiv> 2"
abbreviation (input) VFU_DMA_UNMAP :: u16 where "VFU_DMA_UNMAP \<equiv> 3"
abbreviation (input) VFU_DEVICE_GET_INFO :: u16 where "VFU_DEVICE_GET_INFO \<equiv> 4"
abbreviation (input) VFU_DEVICE_GET_REGION_INFO :: u16 where "VFU_DEVICE_GET_REGION_INFO \<equiv> 5"
abbreviation (input) VFU_DEVICE_GET_REGION_IO_FDS :: u16 where "VFU_DEVICE_GET_REGION_IO_FDS \<equiv> 6"
abbreviation (input) VFU_DEVICE_GET_IRQ_INFO :: u16 where "VFU_DEVICE_GET_IRQ_INFO \<equiv> 7"
abbreviation (input) VFU_DEVICE_SET_IRQS :: u16 where "VFU_DEVICE_SET_IRQS \<equiv> 8"
abbreviation (input) VFU_REGION_READ :: u16 where "VFU_REGION_READ \<equiv> 9"
abbreviation (input) VFU_REGION_WRITE :: u16 where "VFU_REGION_WRITE \<equiv> 10"
abbreviation (input) VFU_DMA_READ :: u16 where "VFU_DMA_READ \<equiv> 11"
abbreviation (input) VFU_DMA_WRITE :: u16 where "VFU_DMA_WRITE \<equiv> 12"
abbreviation (input) VFU_DEVICE_RESET :: u16 where "VFU_DEVICE_RESET \<equiv> 13"

definition VFU_MSG_FLAG_REPLY :: u32 where "VFU_MSG_FLAG_REPLY = 0x1"
definition VFU_MSG_FLAG_NO_REPLY :: u32 where "VFU_MSG_FLAG_NO_REPLY = 0x10"
definition NVME_SC_DATA_XFER_ERROR :: u16 where "NVME_SC_DATA_XFER_ERROR = 0x0004"

text \<open>Two codes of \<open>errno.h\<close>.\<close>

definition ENOMEM :: nat where "ENOMEM = 12"
definition EINVAL :: nat where "EINVAL = 22"

record vfio_queue =
  vq_sq_base :: u64
  vq_cq_base :: u64
  vq_sq_size :: u16
  vq_cq_size :: u16
  vq_sq_head :: u16
  vq_sq_tail :: u16
  vq_cq_head :: u16
  vq_cq_tail :: u16
  vq_cq_phase :: bool
  vq_valid :: bool

text \<open>A mapping: the addresses of the guest, the object of memory behind it and where it starts there, its descriptor.\<close>

record dma_region =
  dr_iova :: u64
  dr_size :: u64
  dr_offset :: u64
  dr_object :: nat
  dr_base :: nat
  dr_fd :: int

record vfu_msg_hdr =
  vh_id :: u16
  vh_command :: u16
  vh_size :: nat
  vh_flags :: u32
  vh_error :: u32

record vfio_config =
  vg_socket_path :: string
  vg_max_queues :: u32

record vfio_sys =
  vs_socket_fd :: int
  vs_conn_fd :: int
  vs_running :: bool
  vs_connected :: bool
  vs_regions :: "dma_region list"
  vs_msix_evtfd :: int
  vs_msix_enabled :: bool
  vs_msix_table :: "u8 list"
  vs_msix_pba :: "u8 list"
  vs_pci_config :: "u8 list"
  vs_nvme_regs :: "u8 list"
  vs_config :: vfio_config
  vs_req_id :: u16
  vs_command :: u16
  vs_no_reply :: bool
  vs_queues :: "nat \<Rightarrow> vfio_queue"
  vs_io_read_buf :: "nat \<Rightarrow> u8"
  vs_io_write_buf :: "nat \<Rightarrow> u8"
  vs_mem :: "nat \<Rightarrow> nat \<Rightarrow> u8"
  vs_nvme :: nvme_sys
  vs_sent :: "(int \<times> u8 list) list"
  vs_closed :: "int list"
  vs_irqs :: "int list"
  vs_recv :: "nat \<Rightarrow> sock_answer"
  vs_recv_count :: nat

definition upd_vq :: "nat \<Rightarrow> (vfio_queue \<Rightarrow> vfio_queue) \<Rightarrow> vfio_sys \<Rightarrow> vfio_sys" where
  "upd_vq q f s = s\<lparr>vs_queues := (vs_queues s)(q := f (vs_queues s q))\<rparr>"

definition upd_vregs :: "(nvme_ctrl_regs \<Rightarrow> nvme_ctrl_regs) \<Rightarrow> vfio_sys \<Rightarrow> vfio_sys" where
  "upd_vregs f s = s\<lparr>vs_nvme := upd_regs f (vs_nvme s)\<rparr>"

text \<open>\<open>close\<close> of a descriptor.\<close>

definition close_fd :: "int \<Rightarrow> vfio_sys \<Rightarrow> vfio_sys" where
  "close_fd fd s = s\<lparr>vs_closed := vs_closed s @ [fd]\<rparr>"

section \<open>Addresses of the guest\<close>

definition region_has :: "u64 \<Rightarrow> dma_region \<Rightarrow> bool" where
  "region_has gpa r \<longleftrightarrow> dr_iova r \<le> gpa \<and> gpa < dr_iova r + dr_size r"

definition region_hva :: "u64 \<Rightarrow> dma_region \<Rightarrow> hva" where
  "region_hva gpa r =
     (let d = unat (gpa - dr_iova r) in (dr_object r, dr_base r + d, unat (dr_size r) - d))"

definition gpa_to_hva :: "vfio_sys \<Rightarrow> u64 \<Rightarrow> hva option" where
  "gpa_to_hva s gpa =
     (if gpa = 0 \<or> gpa = 0xCCCCCCCCCCCCCCCC \<or> 0xFFFFFFFF < gpa then None
      else map_option (region_hva gpa) (find (region_has gpa) (vs_regions s)))"

definition read_guest :: "hva \<Rightarrow> nat \<Rightarrow> nat \<Rightarrow> vfio_sys \<Rightarrow> u8 list option" where
  "read_guest h off n s =
     (case h of (ob, pos, room) \<Rightarrow> if off + n \<le> room then Some (mem_read (vs_mem s ob) (pos + off) n) else None)"

definition write_guest :: "hva \<Rightarrow> nat \<Rightarrow> u8 list \<Rightarrow> vfio_sys \<Rightarrow> vfio_sys option" where
  "write_guest h off bs s =
     (case h of (ob, pos, room) \<Rightarrow>
        if off + length bs \<le> room then Some (s\<lparr>vs_mem := (vs_mem s)(ob := mem_write (vs_mem s ob) (pos + off) bs)\<rparr>) else None)"

section \<open>Transfers along PRP entries\<close>

definition prp_chunk :: "u64 \<Rightarrow> nat \<Rightarrow> nat" where
  "prp_chunk cur rest = min (VFIO_PAGE_SIZE - unat (cur AND 0xFFF)) rest"

definition prp2_is_list :: "u64 \<Rightarrow> nat \<Rightarrow> bool" where
  "prp2_is_list prp1 len \<longleftrightarrow> VFIO_PAGE_SIZE - unat (prp1 AND 0xFFF) + VFIO_PAGE_SIZE < len"

lemma prp_chunk_pos: "0 < rest \<Longrightarrow> 0 < prp_chunk cur rest"
proof -
  have "cur AND 0xFFF \<le> 0xFFF" by (rule word_and_le1)
  then have "unat (cur AND 0xFFF) \<le> 0xFFF" by (simp add: word_le_nat_alt)
  then show "0 < rest \<Longrightarrow> 0 < prp_chunk cur rest" by (simp add: prp_chunk_def VFIO_PAGE_SIZE_def)
qed

text \<open>Entry \<open>i\<close> of the list at \<open>prp2\<close>; an address that is not mapped ends the transfer.\<close>

definition prp_entry :: "vfio_sys \<Rightarrow> u64 \<Rightarrow> nat \<Rightarrow> u64 option option" where
  "prp_entry s prp2 i =
     (case gpa_to_hva s prp2 of
        None \<Rightarrow> Some None
      | Some h \<Rightarrow> map_option (\<lambda>bs. Some (of_nat (word_at ((!) bs) 0 8))) (read_guest h (i * 8) 8 s))"

function prp_read_loop :: "vfio_sys \<Rightarrow> u64 \<Rightarrow> bool \<Rightarrow> nat \<Rightarrow> nat \<Rightarrow> u64 \<Rightarrow> nat \<Rightarrow> (nat \<Rightarrow> u8) \<Rightarrow> (ret_code \<times> (nat \<Rightarrow> u8)) option" where
  "prp_read_loop s prp2 is_list len off cur pages m =
     (if len \<le> off then Some (RET_OK, m)
      else (case gpa_to_hva s (cur AND NOT 0xFFF) of
              None \<Rightarrow> Some (RET_ERR_PARAM, m)
            | Some h \<Rightarrow>
                (case read_guest h (unat (cur AND 0xFFF)) (prp_chunk cur (len - off)) s of
                   None \<Rightarrow> None
                 | Some bs \<Rightarrow>
                     let m = mem_write m off bs; off' = off + prp_chunk cur (len - off) in
                     if len \<le> off' then Some (RET_OK, m)
                     else if is_list
                     then (case prp_entry s prp2 pages of
                             None \<Rightarrow> None
                           | Some None \<Rightarrow> Some (RET_ERR_PARAM, m)
                           | Some (Some a) \<Rightarrow> prp_read_loop s prp2 is_list len off' a (pages + 1) m)
                     else if pages = 0 then prp_read_loop s prp2 is_list len off' prp2 (pages + 1) m
                     else Some (RET_OK, m))))"
  by pat_completeness auto
termination
  by (relation "measure (\<lambda>(s, prp2, is_list, len, off, cur, pages, m). len - off)") (auto simp: prp_chunk_pos intro!: diff_less_mono2)

declare prp_read_loop.simps [simp del]

definition prp_read_data :: "u64 \<Rightarrow> u64 \<Rightarrow> nat \<Rightarrow> (nat \<Rightarrow> u8) \<Rightarrow> vfio_sys \<Rightarrow> (ret_code \<times> (nat \<Rightarrow> u8)) option" where
  "prp_read_data prp1 prp2 len m s = prp_read_loop s prp2 (prp2_is_list prp1 len) len 0 prp1 0 m"

text \<open>In the other direction the list is read from the memory as it is after the pages written so far.\<close>

function prp_write_loop :: "u64 \<Rightarrow> bool \<Rightarrow> u8 list \<Rightarrow> nat \<Rightarrow> u64 \<Rightarrow> nat \<Rightarrow> vfio_sys \<Rightarrow> (ret_code \<times> vfio_sys) option" where
  "prp_write_loop prp2 is_list data off cur pages s =
     (if length data \<le> off then Some (RET_OK, s)
      else (case gpa_to_hva s (cur AND NOT 0xFFF) of
              None \<Rightarrow> Some (RET_ERR_PARAM, s)
            | Some h \<Rightarrow>
                (case write_guest h (unat (cur AND 0xFFF)) (take (prp_chunk cur (length data - off)) (drop off data)) s of
                   None \<Rightarrow> None
                 | Some s \<Rightarrow>
                     let off' = off + prp_chunk cur (length data - off) in
                     if length data \<le> off' then Some (RET_OK, s)
                     else if is_list
                     then (case prp_entry s prp2 pages of
                             None \<Rightarrow> None
                           | Some None \<Rightarrow> Some (RET_ERR_PARAM, s)
                           | Some (Some a) \<Rightarrow> prp_write_loop prp2 is_list data off' a (pages + 1) s)
                     else if pages = 0 then prp_write_loop prp2 is_list data off' prp2 (pages + 1) s
                     else Some (RET_OK, s))))"
  by pat_completeness auto
termination
  by (relation "measure (\<lambda>(prp2, is_list, data, off, cur, pages, s). length data - off)") (auto simp: prp_chunk_pos intro!: diff_less_mono2)

declare prp_write_loop.simps [simp del]

definition prp_write_data :: "u64 \<Rightarrow> u64 \<Rightarrow> u8 list \<Rightarrow> vfio_sys \<Rightarrow> (ret_code \<times> vfio_sys) option" where
  "prp_write_data prp1 prp2 data s = prp_write_loop prp2 (prp2_is_list prp1 (length data)) data 0 prp1 0 s"

section \<open>Messages\<close>

text \<open>Exactly \<open>need\<close> more bytes, or failure.\<close>

function recv_exact :: "nat \<Rightarrow> vfio_sys \<Rightarrow> u8 list option \<times> vfio_sys" where
  "recv_exact need s =
     (if need = 0 then (Some [], s)
      else
        let a = vs_recv s (vs_recv_count s); s = s\<lparr>vs_recv_count := vs_recv_count s + 1\<rparr> in
        (case a of
           No_data \<Rightarrow> (None, s)
         | Got bs fds \<Rightarrow>
             let bs = take need bs in
             if bs = [] then (None, s)
             else (let (r, s) = recv_exact (need - length bs) s in (map_option (\<lambda>rest. bs @ rest) r, s))))"
  by pat_completeness auto
termination
  by (relation "measure (\<lambda>(need, s). need)") auto

declare recv_exact.simps [simp del]

definition vfu_header :: "u8 list \<Rightarrow> vfu_msg_hdr" where
  "vfu_header bs =
     (let m = (!) bs in
      \<lparr>vh_id = of_nat (word_at m 0 2), vh_command = of_nat (word_at m 2 2), vh_size = word_at m 4 4,
       vh_flags = of_nat (word_at m 8 4), vh_error = of_nat (word_at m 12 4)\<rparr>)"

text \<open>The header and the payload, or failure; and the descriptors that came with the first bytes.\<close>

definition vfu_recv_msg :: "vfio_sys \<Rightarrow> (vfu_msg_hdr \<times> u8 list) option \<times> int list \<times> vfio_sys" where
  "vfu_recv_msg s =
     (let a = vs_recv s (vs_recv_count s); s = s\<lparr>vs_recv_count := vs_recv_count s + 1\<rparr> in
      case a of
        No_data \<Rightarrow> (None, [], s)
      | Got bs sent_fds \<Rightarrow>
          let bs = take 16 bs in
          if bs = [] then (None, [], s)
          else
            let (rest, s) = recv_exact (16 - length bs) s in
            (case rest of
               None \<Rightarrow> (None, [], s)
             | Some rest \<Rightarrow>
                 let h = vfu_header (bs @ rest); fds = take VFIO_USER_MAX_DMA_REGIONS sent_fds in
                 if vh_size h < 16 \<or> VFIO_USER_MAX_PAYLOAD_SIZE < vh_size h - 16 then (None, fds, s)
                 else
                   let (p, s) = recv_exact (vh_size h - 16) s in
                   (map_option (\<lambda>p. (h, p)) p, fds, s)))"

definition vfu_send_msg :: "u32 \<Rightarrow> nat \<Rightarrow> u8 list \<Rightarrow> vfio_sys \<Rightarrow> vfio_sys" where
  "vfu_send_msg flags errno_val payload s =
     (if vs_no_reply s \<and> flags AND VFU_MSG_FLAG_REPLY \<noteq> 0 then s
      else s\<lparr>vs_sent := vs_sent s @
        [(vs_conn_fd s, word_bytes 2 (unat (vs_req_id s)) @ word_bytes 2 (unat (vs_command s)) @ word_bytes 4 (16 + length payload) @
           word_bytes 4 (unat flags) @ word_bytes 4 errno_val @ payload)]\<rparr>)"

definition vfu_send_reply :: "u8 list \<Rightarrow> vfio_sys \<Rightarrow> vfio_sys" where
  "vfu_send_reply payload = vfu_send_msg VFU_MSG_FLAG_REPLY 0 payload"

definition vfu_send_error :: "nat \<Rightarrow> vfio_sys \<Rightarrow> vfio_sys" where
  "vfu_send_error errno_val = vfu_send_msg VFU_MSG_FLAG_REPLY errno_val []"

section \<open>Configuration space, registers and queues\<close>

definition pci_config_image :: "u8 list" where
  "pci_config_image =
     fold (\<lambda>(off, bs). put_at off bs)
       [(0x00, word_bytes 2 0x1B36), (0x02, word_bytes 2 0x0010), (0x04, word_bytes 2 0x0006), (0x06, word_bytes 2 0x0010),
        (0x08, [0x01, 0x02, 0x08, 0x01]), (0x0C, [0x10, 0x00, 0x00, 0x00]), (0x10, word_bytes 4 0xFFFF000C),
        (0x14, word_bytes 4 0), (0x28, word_bytes 2 0x1B36), (0x2A, word_bytes 2 0x0010), (0x34, [0x40]),
        (0x3C, [0xFF, 0x01, 0x00, 0x00]), (0x40, [0x11, 0x00]), (0x42, word_bytes 2 0), (0x44, word_bytes 4 0x2000),
        (0x48, word_bytes 4 0x3000)]
       (replicate VFIO_PCI_CONFIG_SIZE 0)"

definition init_pci_config :: "vfio_sys \<Rightarrow> vfio_sys" where
  "init_pci_config s = s\<lparr>vs_pci_config := pci_config_image\<rparr>"

definition init_nvme_regs :: "vfio_sys \<Rightarrow> vfio_sys" where
  "init_nvme_regs s =
     s\<lparr>vs_nvme_regs := put_at 8 (word_bytes 4 (unat NVME_VERSION))
         (put_at 0 (word_bytes 8 0x02F003FF) (replicate VFIO_BAR0_NVME_REGS_SIZE 0))\<rparr>"

definition zero_vq :: vfio_queue where
  "zero_vq = \<lparr>vq_sq_base = 0, vq_cq_base = 0, vq_sq_size = 0, vq_cq_size = 0, vq_sq_head = 0, vq_sq_tail = 0, vq_cq_head = 0,
     vq_cq_tail = 0, vq_cq_phase = False, vq_valid = False\<rparr>"

definition reset_queue_state :: "vfio_sys \<Rightarrow> vfio_sys" where
  "reset_queue_state s = s\<lparr>vs_queues := (\<lambda>_. zero_vq)\<rparr>"

text \<open>The sizes are 16-bit words: 65536 entries become none.\<close>

definition update_admin_queue_from_regs :: "vfio_sys \<Rightarrow> vfio_sys" where
  "update_admin_queue_from_regs s =
     (let r = nvme_ctrl_get_regs (vs_nvme s);
          sq = ucast (r_aqa r AND 0xFFFF) + 1; cq = ucast (drop_bit 16 (r_aqa r) AND 0xFFFF) + 1;
          sb = r_asq r AND NOT 0xFFF; cb = r_acq r AND NOT 0xFFF in
      upd_vq 0 (\<lambda>_. \<lparr>vq_sq_base = sb, vq_cq_base = cb, vq_sq_size = sq, vq_cq_size = cq, vq_sq_head = 0, vq_sq_tail = 0,
        vq_cq_head = 0, vq_cq_tail = 0, vq_cq_phase = True, vq_valid = (0 < sq \<and> 0 < cq \<and> sb \<noteq> 0 \<and> cb \<noteq> 0)\<rparr>) s)"

definition trigger_msix_interrupt :: "vfio_sys \<Rightarrow> vfio_sys" where
  "trigger_msix_interrupt s =
     (if vs_msix_enabled s \<and> 0 \<le> vs_msix_evtfd s then s\<lparr>vs_irqs := vs_irqs s @ [vs_msix_evtfd s]\<rparr> else s)"

section \<open>Commands\<close>

type_synonym vfio_result = "(nvme_completion \<times> vfio_sys) option"

definition vfio_admin :: "nvme_command \<Rightarrow> vfio_sys \<Rightarrow> nvme_completion \<times> vfio_sys" where
  "vfio_admin cmd s = (let (cpl, v) = nvme_ctrl_process_admin_cmd cmd (vs_nvme s) in (cpl, s\<lparr>vs_nvme := v\<rparr>))"

definition vfio_identify_data :: "nvme_command \<Rightarrow> nvme_sys \<Rightarrow> u8 list option" where
  "vfio_identify_data cmd v =
     (let cns = (ucast (nc_cdw10 cmd) :: u8) in
      if cns = 0x01 then nvme_ctrl_fill_identify_controller (replicate 4096 0) 4096 v
      else if cns = 0x00 then nvme_ctrl_fill_identify_namespace (replicate 4096 0) 4096 (nc_nsid cmd)
      else if cns \<in> {0x02, 0x10} then Some ([1, 0, 0, 0] @ replicate 4092 0)
      else Some (replicate 4096 0))"

text \<open>What the transfer returns is not looked at.\<close>

definition vfio_identify :: "nvme_command \<Rightarrow> nvme_completion \<Rightarrow> vfio_sys \<Rightarrow> vfio_result" where
  "vfio_identify cmd cpl s =
     do {
       d \<leftarrow> vfio_identify_data cmd (vs_nvme s);
       (ret, s) \<leftarrow> prp_write_data (nc_prp1 cmd) (nc_prp2 cmd) d s;
       Some (cpl\<lparr>cp_status := 0\<rparr>, s)
     }"

definition vfio_get_log_page :: "nvme_command \<Rightarrow> nvme_completion \<Rightarrow> vfio_sys \<Rightarrow> vfio_result" where
  "vfio_get_log_page cmd cpl s =
     (let lid = (ucast (nc_cdw10 cmd) :: u8); log_len = (unat (drop_bit 16 (nc_cdw10 cmd) AND 0xFFFF) + 1) * 4 in
      do {
        d \<leftarrow> (if lid = NVME_LOG_SMART_HEALTH
               then do { b \<leftarrow> nvme_ctrl_fill_smart_log (Some (replicate 4096 0)) (if log_len < 512 then log_len else 512) (vs_nvme s); b }
               else Some (replicate 4096 0));
        (ret, s) \<leftarrow> prp_write_data (nc_prp1 cmd) (nc_prp2 cmd) (take log_len d) s;
        Some (cpl\<lparr>cp_status := 0\<rparr>, s)
      })"

text \<open>The number of a queue is the low half of dword 10, its size the high half plus one, in 16 bits.\<close>

definition cmd_qid :: "nvme_command \<Rightarrow> nat" where
  "cmd_qid cmd = unat (nc_cdw10 cmd AND 0xFFFF)"

definition cmd_qsize :: "nvme_command \<Rightarrow> u16" where
  "cmd_qsize cmd = ucast (drop_bit 16 (nc_cdw10 cmd)) + 1"

definition io_qid :: "nat \<Rightarrow> bool" where
  "io_qid q \<longleftrightarrow> 0 < q \<and> q < VFIO_MAX_QUEUES"

definition vfio_create_iosq :: "nvme_command \<Rightarrow> vfio_sys \<Rightarrow> nvme_completion \<times> vfio_sys" where
  "vfio_create_iosq cmd s =
     (let q = cmd_qid cmd in
      vfio_admin cmd (if io_qid q then upd_vq q (\<lambda>x. x\<lparr>vq_sq_base := nc_prp1 cmd AND NOT 0xFFF, vq_sq_size := cmd_qsize cmd, vq_sq_head := 0,
        vq_sq_tail := 0, vq_valid := (0 < vq_cq_size x)\<rparr>) s else s))"

definition vfio_create_iocq :: "nvme_command \<Rightarrow> vfio_sys \<Rightarrow> nvme_completion \<times> vfio_sys" where
  "vfio_create_iocq cmd s =
     (let q = cmd_qid cmd in
      vfio_admin cmd (if io_qid q then upd_vq q (\<lambda>x. x\<lparr>vq_cq_base := nc_prp1 cmd AND NOT 0xFFF, vq_cq_size := cmd_qsize cmd, vq_cq_head := 0,
        vq_cq_tail := 0, vq_cq_phase := True, vq_valid := (0 < vq_sq_size x)\<rparr>) s else s))"

definition vfio_delete_iosq :: "nvme_command \<Rightarrow> vfio_sys \<Rightarrow> nvme_completion \<times> vfio_sys" where
  "vfio_delete_iosq cmd s =
     (let q = cmd_qid cmd in
      vfio_admin cmd (if io_qid q then upd_vq q (\<lambda>x. x\<lparr>vq_sq_size := 0, vq_valid := False\<rparr>) s else s))"

definition vfio_delete_iocq :: "nvme_command \<Rightarrow> vfio_sys \<Rightarrow> nvme_completion \<times> vfio_sys" where
  "vfio_delete_iocq cmd s =
     (let q = cmd_qid cmd in
      vfio_admin cmd (if io_qid q then upd_vq q (\<lambda>x. x\<lparr>vq_cq_size := 0, vq_valid := False\<rparr>) s else s))"

definition vfio_admin_command :: "nvme_command \<Rightarrow> nvme_completion \<Rightarrow> vfio_sys \<Rightarrow> vfio_result" where
  "vfio_admin_command cmd cpl s =
     (let op = nc_opcode cmd in
      if op = NVME_ADMIN_IDENTIFY then vfio_identify cmd cpl s
      else if op = NVME_ADMIN_GET_LOG_PAGE then vfio_get_log_page cmd cpl s
      else if op = NVME_ADMIN_CREATE_IOSQ then Some (vfio_create_iosq cmd s)
      else if op = NVME_ADMIN_CREATE_IOCQ then Some (vfio_create_iocq cmd s)
      else if op = NVME_ADMIN_DELETE_IOSQ then Some (vfio_delete_iosq cmd s)
      else if op = NVME_ADMIN_DELETE_IOCQ then Some (vfio_delete_iocq cmd s)
      else Some (vfio_admin cmd s))"

abbreviation vfio_ftl :: "ftl_dev \<Rightarrow> vfio_sys \<Rightarrow> vfio_sys" where
  "vfio_ftl f s \<equiv> s\<lparr>vs_nvme := (vs_nvme s)\<lparr>nv_ftl := f\<rparr>\<rparr>"

text \<open>A page that cannot be read is replaced by zeros.\<close>

definition vfio_read_body :: "nvme_command \<Rightarrow> nat \<Rightarrow> vfio_sys \<Rightarrow> vfio_sys" where
  "vfio_read_body cmd i s =
     (let (ret, out, f) = ftl_read (nv_ftl (vs_nvme s)) (nvme_lpn cmd i) True; s = vfio_ftl f s;
          m = (case out of Some bs \<Rightarrow> mem_write (vs_io_read_buf s) (i * VFIO_PAGE_SIZE) bs | None \<Rightarrow> vs_io_read_buf s);
          m = (if ret \<noteq> RET_OK then mem_write m (i * VFIO_PAGE_SIZE) zero_page else m) in
      s\<lparr>vs_io_read_buf := m\<rparr>)"

definition vfio_io_read :: "nvme_command \<Rightarrow> nvme_completion \<Rightarrow> vfio_sys \<Rightarrow> vfio_result" where
  "vfio_io_read cmd cpl s =
     (let n = nvme_nlb cmd; transfer_len = n * VFIO_PAGE_SIZE in
      if VFIO_USER_NVME_MAX_IO_SIZE < transfer_len then Some (cpl\<lparr>cp_status := NVME_SC_INTERNAL_ERROR\<rparr>, s)
      else if VFIO_PAGE_SIZE < transfer_len \<and> gpa_to_hva s (nc_prp2 cmd) = None
      then Some (cpl\<lparr>cp_status := NVME_SC_DATA_XFER_ERROR\<rparr>, s)
      else
        let s = fold (vfio_read_body cmd) [0..<n] s in
        do {
          (ret, s) \<leftarrow> prp_write_data (nc_prp1 cmd) (nc_prp2 cmd) (mem_read (vs_io_read_buf s) 0 transfer_len) s;
          Some (cpl\<lparr>cp_status := (if ret \<noteq> RET_OK then NVME_SC_DATA_XFER_ERROR else NVME_SC_SUCCESS)\<rparr>, s)
        })"

definition vfio_write_body :: "nvme_command \<Rightarrow> (nat \<Rightarrow> u8 list) \<Rightarrow> nat \<Rightarrow> vfio_sys \<Rightarrow> (u16, vfio_sys) ctl option" where
  "vfio_write_body cmd page i s =
     do {
       (ret, f) \<leftarrow> ftl_write (nv_ftl (vs_nvme s)) (nvme_lpn cmd i) (Some (page i));
       Some (if ret \<noteq> RET_OK then Leave NVME_SC_INTERNAL_ERROR (vfio_ftl f s) else Next (vfio_ftl f s))
     }"

definition vfio_write_pages :: "nvme_command \<Rightarrow> (nat \<Rightarrow> u8 list) \<Rightarrow> nvme_completion \<Rightarrow> vfio_sys \<Rightarrow> vfio_result" where
  "vfio_write_pages cmd page cpl s =
     do {
       r \<leftarrow> for_each [0..<nvme_nlb cmd] (vfio_write_body cmd page) s;
       Some (case r of Leave st s \<Rightarrow> (cpl\<lparr>cp_status := st\<rparr>, s) | Next s \<Rightarrow> (cpl\<lparr>cp_status := NVME_SC_SUCCESS\<rparr>, s))
     }"

definition vfio_io_write :: "nvme_command \<Rightarrow> nvme_completion \<Rightarrow> vfio_sys \<Rightarrow> vfio_result" where
  "vfio_io_write cmd cpl s =
     (let transfer_len = nvme_nlb cmd * VFIO_PAGE_SIZE in
      if VFIO_USER_NVME_MAX_IO_SIZE < transfer_len then Some (cpl\<lparr>cp_status := NVME_SC_INTERNAL_ERROR\<rparr>, s)
      else do {
        (ret, m) \<leftarrow> prp_read_data (nc_prp1 cmd) (nc_prp2 cmd) transfer_len (vs_io_write_buf s) s;
        let s = s\<lparr>vs_io_write_buf := m\<rparr>;
        if ret \<noteq> RET_OK then Some (cpl\<lparr>cp_status := NVME_SC_DATA_XFER_ERROR\<rparr>, s)
        else vfio_write_pages cmd (\<lambda>i. mem_read m (i * VFIO_PAGE_SIZE) VFIO_PAGE_SIZE) cpl s
      })"

definition vfio_io_write_zeroes :: "nvme_command \<Rightarrow> nvme_completion \<Rightarrow> vfio_sys \<Rightarrow> vfio_result" where
  "vfio_io_write_zeroes cmd cpl s = vfio_write_pages cmd (\<lambda>_. zero_page) cpl s"

definition vfio_trim_body :: "nat \<Rightarrow> nvme_completion \<times> vfio_sys \<Rightarrow> vfio_result" where
  "vfio_trim_body r = (\<lambda>(cpl, s).
     let len = (of_nat (word_at (vs_io_write_buf s) (r * 16 + 4) 4) + 1 :: u32); slba = word_at (vs_io_write_buf s) (r * 16 + 8) 8 in
     do {
       (ret, f) \<leftarrow> ftl_trim (nv_ftl (vs_nvme s)) (slba mod 2 ^ 32) (unat len);
       Some (if ret \<noteq> RET_OK then cpl\<lparr>cp_status := NVME_SC_INTERNAL_ERROR\<rparr> else cpl, vfio_ftl f s)
     })"

definition vfio_io_dataset_mgmt :: "nvme_command \<Rightarrow> nvme_completion \<Rightarrow> vfio_sys \<Rightarrow> vfio_result" where
  "vfio_io_dataset_mgmt cmd cpl s =
     (let nr = (unat (nc_cdw10 cmd AND 0xFF) + 1) mod 256; transfer_len = nr * 16 in
      do {
        (ret, m) \<leftarrow> prp_read_data (nc_prp1 cmd) (nc_prp2 cmd) transfer_len (vs_io_write_buf s) s;
        let s = s\<lparr>vs_io_write_buf := m\<rparr>;
        if ret \<noteq> RET_OK then Some (cpl\<lparr>cp_status := NVME_SC_DATA_XFER_ERROR\<rparr>, s)
        else fold_option vfio_trim_body [0..<nr] (cpl\<lparr>cp_status := NVME_SC_SUCCESS\<rparr>, s)
      })"

definition vfio_io_command :: "nvme_command \<Rightarrow> nvme_completion \<Rightarrow> vfio_sys \<Rightarrow> vfio_result" where
  "vfio_io_command cmd cpl s =
     (let op = nc_opcode cmd in
      if op = NVME_IO_READ then vfio_io_read cmd cpl s
      else if op = NVME_IO_WRITE then vfio_io_write cmd cpl s
      else if op = NVME_IO_WRITE_ZEROES then vfio_io_write_zeroes cmd cpl s
      else if op = NVME_IO_DATASET_MGMT then vfio_io_dataset_mgmt cmd cpl s
      else do { (cpl, v) \<leftarrow> nvme_ctrl_process_io_cmd cmd (vs_nvme s); Some (cpl, s\<lparr>vs_nvme := v\<rparr>) })"

definition process_nvme_command :: "nat \<Rightarrow> nvme_command \<Rightarrow> vfio_sys \<Rightarrow> vfio_result" where
  "process_nvme_command qid cmd s =
     (let cpl = blank_completion\<lparr>cp_cid := nc_cid cmd\<rparr> in
      if qid = 0 then vfio_admin_command cmd cpl s else vfio_io_command cmd cpl s)"

section \<open>Queues\<close>

definition sq_slot :: "vfio_queue \<Rightarrow> u64" where
  "sq_slot q = vq_sq_base q + ucast (vq_sq_head q) * 64"

definition cq_slot :: "vfio_queue \<Rightarrow> u64" where
  "cq_slot q = vq_cq_base q + ucast (vq_cq_tail q) * 16"

definition next_index :: "u16 \<Rightarrow> u16 \<Rightarrow> u16" where
  "next_index i n = (if n \<le> i + 1 then 0 else i + 1)"

definition vq_advance :: "vfio_queue \<Rightarrow> vfio_queue" where
  "vq_advance q =
     q\<lparr>vq_cq_tail := next_index (vq_cq_tail q) (vq_cq_size q),
       vq_cq_phase := (if vq_cq_size q \<le> vq_cq_tail q + 1 then \<not> vq_cq_phase q else vq_cq_phase q),
       vq_sq_head := next_index (vq_sq_head q) (vq_sq_size q)\<rparr>"

definition vq_completion :: "vfio_queue \<Rightarrow> nvme_completion \<Rightarrow> nvme_completion" where
  "vq_completion q cpl =
     cpl\<lparr>cp_sqhd := of_nat ((unat (vq_sq_head q) + 1) mod unat (vq_sq_size q)),
         cp_status := (if vq_cq_phase q then cp_status cpl OR 1 else cp_status cpl AND NOT 1)\<rparr>"

text \<open>
  One round of the loop over the queue: it is done, with or without an entry of the completion queue written
  so far, or it has taken a command, put its completion and goes on.
\<close>

datatype queue_next = Queue_done bool vfio_sys | Queue_again vfio_sys

definition queue_round :: "nat \<Rightarrow> bool \<Rightarrow> vfio_sys \<Rightarrow> queue_next option" where
  "queue_round qid wrote s =
     (if vq_sq_head (vs_queues s qid) = vq_sq_tail (vs_queues s qid) then Some (Queue_done wrote s)
      else (case gpa_to_hva s (sq_slot (vs_queues s qid)) of
              None \<Rightarrow> Some (Queue_done wrote s)
            | Some h \<Rightarrow>
                do {
                  bs \<leftarrow> read_guest h 0 64 s;
                  (cpl, s) \<leftarrow> process_nvme_command qid (command_at ((!) bs) 0) s;
                  (case gpa_to_hva s (cq_slot (vs_queues s qid)) of
                     None \<Rightarrow> Some (Queue_done wrote s)
                   | Some hc \<Rightarrow>
                       do {
                         s \<leftarrow> write_guest hc 0 (completion_bytes (vq_completion (vs_queues s qid) cpl)) s;
                         Some (Queue_again (upd_vq qid vq_advance s))
                       })
                }))"

partial_function (option) queue_loop :: "nat \<Rightarrow> bool \<Rightarrow> vfio_sys \<Rightarrow> (bool \<times> vfio_sys) option" where
  "queue_loop qid wrote s =
     (case queue_round qid wrote s of
        None \<Rightarrow> None
      | Some (Queue_done w s) \<Rightarrow> Some (w, s)
      | Some (Queue_again s) \<Rightarrow> queue_loop qid True s)"

definition process_queue_commands :: "nat \<Rightarrow> vfio_sys \<Rightarrow> vfio_sys option" where
  "process_queue_commands qid s =
     (if VFIO_MAX_QUEUES \<le> qid then Some s
      else
        let q = vs_queues s qid in
        if \<not> vq_valid q \<or> vq_sq_size q = 0 \<or> vq_cq_size q = 0 then Some s
        else do {
          (wrote, s) \<leftarrow> queue_loop qid False s;
          Some (if wrote then trigger_msix_interrupt s else s)
        })"

section \<open>Registers and doorbells\<close>

definition handle_nvme_reg_write :: "nat \<Rightarrow> nat \<Rightarrow> u32 \<Rightarrow> vfio_sys \<Rightarrow> vfio_sys" where
  "handle_nvme_reg_write offset n value s =
     (let s = (if offset + n \<le> VFIO_BAR0_NVME_REGS_SIZE
               then s\<lparr>vs_nvme_regs := put_at offset (take n (word_bytes 4 (unat value))) (vs_nvme_regs s)\<rparr> else s) in
      if offset = NVME_REG_CC then
        (let s = upd_vregs (\<lambda>r. r\<lparr>r_cc := value\<rparr>) s in
         if bit value 0
         then update_admin_queue_from_regs
                ((upd_vregs (\<lambda>r. r\<lparr>r_csts := r_csts r OR 1\<rparr>) s)\<lparr>vs_nvme_regs := put_at NVME_REG_CSTS [1] (vs_nvme_regs s)\<rparr>)
         else upd_vq 0 (\<lambda>q. q\<lparr>vq_sq_head := 0, vq_sq_tail := 0, vq_cq_head := 0, vq_cq_tail := 0, vq_cq_phase := True\<rparr>)
                ((upd_vregs (\<lambda>r. r\<lparr>r_csts := r_csts r AND NOT 1\<rparr>) s)\<lparr>vs_nvme_regs := put_at NVME_REG_CSTS [0] (vs_nvme_regs s)\<rparr>))
      else if offset = NVME_REG_AQA then update_admin_queue_from_regs (upd_vregs (\<lambda>r. r\<lparr>r_aqa := value\<rparr>) s)
      else if offset = NVME_REG_ASQ then update_admin_queue_from_regs (upd_vregs (\<lambda>r. r\<lparr>r_asq := write_half value False (r_asq r)\<rparr>) s)
      else if offset = NVME_REG_ASQ + 4 then update_admin_queue_from_regs (upd_vregs (\<lambda>r. r\<lparr>r_asq := write_half value True (r_asq r)\<rparr>) s)
      else if offset = NVME_REG_ACQ then update_admin_queue_from_regs (upd_vregs (\<lambda>r. r\<lparr>r_acq := write_half value False (r_acq r)\<rparr>) s)
      else if offset = NVME_REG_ACQ + 4 then update_admin_queue_from_regs (upd_vregs (\<lambda>r. r\<lparr>r_acq := write_half value True (r_acq r)\<rparr>) s)
      else s)"

definition handle_doorbell_write :: "nat \<Rightarrow> u32 \<Rightarrow> vfio_sys \<Rightarrow> vfio_sys option" where
  "handle_doorbell_write off value s =
     (let qid = off div 8 mod 2 ^ 16 in
      if VFIO_MAX_QUEUES \<le> qid then Some s
      else if off mod 8 = 0 then
        do {
          let s = upd_vq qid (\<lambda>q. q\<lparr>vq_sq_tail := ucast value\<rparr>) s;
          v \<leftarrow> nvme_ctrl_sq_doorbell (of_nat qid) value (vs_nvme s);
          process_queue_commands qid (s\<lparr>vs_nvme := v\<rparr>)
        }
      else
        do {
          let s = upd_vq qid (\<lambda>q. q\<lparr>vq_cq_head := ucast value\<rparr>) s;
          v \<leftarrow> nvme_ctrl_cq_doorbell (of_nat qid) value (vs_nvme s);
          Some (s\<lparr>vs_nvme := v\<rparr>)
        })"

section \<open>BAR 0 and the configuration space\<close>

text \<open>\<open>count\<close> bytes out of an array at an offset, as far as it has them; the rest of the cleared reply stays zero.\<close>

definition read_part :: "u8 list \<Rightarrow> nat \<Rightarrow> nat \<Rightarrow> u8 list" where
  "read_part l off count = (let bs = take count (drop off l) in bs @ replicate (count - length bs) 0)"

definition bar0_read :: "u64 \<Rightarrow> nat \<Rightarrow> vfio_sys \<Rightarrow> u8 list \<times> vfio_sys" where
  "bar0_read offset count s =
     (let off = unat offset in
      if VFIO_BAR0_SIZE < unat (offset + of_nat count) \<and> VFIO_BAR0_SIZE \<le> off then (replicate count 0, s)
      else if off < VFIO_BAR0_NVME_REGS_SIZE then
        (let s = s\<lparr>vs_nvme_regs := put_at NVME_REG_CSTS [ucast (r_csts (nvme_ctrl_get_regs (vs_nvme s)))] (vs_nvme_regs s)\<rparr> in
         (read_part (vs_nvme_regs s) off count, s))
      else if VFIO_BAR0_MSIX_TABLE_OFFSET \<le> off \<and> off < VFIO_BAR0_MSIX_TABLE_OFFSET + 0x1000
      then (read_part (vs_msix_table s) (off - VFIO_BAR0_MSIX_TABLE_OFFSET) count, s)
      else if VFIO_BAR0_MSIX_PBA_OFFSET \<le> off \<and> off < VFIO_BAR0_MSIX_PBA_OFFSET + 0x1000
      then (read_part (vs_msix_pba s) (off - VFIO_BAR0_MSIX_PBA_OFFSET) count, s)
      else (replicate count 0, s))"

text \<open>The payload of a message lies in a buffer of 8192 bytes.\<close>

definition payload_bytes :: "(nat \<Rightarrow> u8) \<Rightarrow> nat \<Rightarrow> nat \<Rightarrow> u8 list option" where
  "payload_bytes p off n = (if off + n \<le> VFIO_USER_MAX_PAYLOAD_SIZE then Some (mem_read p off n) else None)"

definition bar0_reg_body :: "nat \<Rightarrow> nat \<Rightarrow> (nat \<Rightarrow> u8) \<Rightarrow> nat \<Rightarrow> vfio_sys \<Rightarrow> vfio_sys option" where
  "bar0_reg_body off n p i s =
     do { bs \<leftarrow> payload_bytes p (16 + i) n; Some (handle_nvme_reg_write (off + i) n (of_nat (word_at ((!) bs) 0 n)) s) }"

definition bar0_doorbell_body :: "nat \<Rightarrow> (nat \<Rightarrow> u8) \<Rightarrow> nat \<Rightarrow> vfio_sys \<Rightarrow> vfio_sys option" where
  "bar0_doorbell_body off p i s =
     do { bs \<leftarrow> payload_bytes p (16 + i) 4; handle_doorbell_write (off + i) (of_nat (word_at ((!) bs) 0 4)) s }"

definition word_offsets :: "nat \<Rightarrow> nat list" where
  "word_offsets count = map (\<lambda>k. 4 * k) [0..<count div 4]"

definition bar0_write :: "u64 \<Rightarrow> nat \<Rightarrow> (nat \<Rightarrow> u8) \<Rightarrow> vfio_sys \<Rightarrow> vfio_sys option" where
  "bar0_write offset count p s =
     (let off = unat offset in
      if VFIO_BAR0_SIZE < unat (offset + of_nat count) then Some s
      else if off < VFIO_BAR0_NVME_REGS_SIZE then
        do {
          s \<leftarrow> fold_option (bar0_reg_body off 4 p) (word_offsets count) s;
          if count mod 4 \<noteq> 0 then bar0_reg_body off (count mod 4) p (count - count mod 4) s else Some s
        }
      else if VFIO_BAR0_DOORBELL_OFFSET \<le> off \<and> off < VFIO_BAR0_DOORBELL_OFFSET + 0x1000
      then fold_option (bar0_doorbell_body (off - VFIO_BAR0_DOORBELL_OFFSET) p) (word_offsets count) s
      else if VFIO_BAR0_MSIX_TABLE_OFFSET \<le> off \<and> off < VFIO_BAR0_MSIX_TABLE_OFFSET + 0x1000 then
        (let t = off - VFIO_BAR0_MSIX_TABLE_OFFSET in
         if t + count \<le> length (vs_msix_table s)
         then do { bs \<leftarrow> payload_bytes p 16 count; Some (s\<lparr>vs_msix_table := put_at t bs (vs_msix_table s)\<rparr>) }
         else Some s)
      else Some s)"

text \<open>The copy into the configuration space; the check before it adds in 32 bits.\<close>

definition config_put :: "nat \<Rightarrow> nat \<Rightarrow> (nat \<Rightarrow> u8) \<Rightarrow> vfio_sys \<Rightarrow> vfio_sys option" where
  "config_put off count p s =
     (if count = 0 then Some s
      else if VFIO_PCI_CONFIG_SIZE < off + count then None
      else do { bs \<leftarrow> payload_bytes p 16 count; Some (s\<lparr>vs_pci_config := put_at off bs (vs_pci_config s)\<rparr>) })"

definition config_write_msix :: "vfio_sys \<Rightarrow> vfio_sys" where
  "config_write_msix s =
     (let ctl = (of_nat (word_at ((!) (vs_pci_config s)) 0x42 2) :: u16) AND 0xC000 in
      s\<lparr>vs_msix_enabled := bit ctl 15, vs_pci_config := put_at 0x42 (word_bytes 2 (unat ctl)) (vs_pci_config s)\<rparr>)"

definition config_write_bar0 :: "u32 \<Rightarrow> vfio_sys \<Rightarrow> vfio_sys" where
  "config_write_bar0 value s =
     (let bar = (if value = 0xFFFFFFFF then 0xFFFF000C else (value AND NOT 0xFFFF) OR 0x000C) in
      s\<lparr>vs_pci_config := put_at 0x10 (word_bytes 4 (unat bar)) (vs_pci_config s)\<rparr>)"

definition config_write_bar1 :: "u32 \<Rightarrow> vfio_sys \<Rightarrow> vfio_sys" where
  "config_write_bar1 value s =
     s\<lparr>vs_pci_config := put_at 0x14 (word_bytes 4 (if value = 0xFFFFFFFF then 0 else unat value)) (vs_pci_config s)\<rparr>"

definition pci_config_write :: "u32 \<Rightarrow> u32 \<Rightarrow> (nat \<Rightarrow> u8) \<Rightarrow> vfio_sys \<Rightarrow> vfio_sys option" where
  "pci_config_write offset count p s =
     (let off = unat offset in
      if VFIO_PCI_CONFIG_SIZE < unat (offset + count) then Some s
      else if offset \<le> 0x42 \<and> 0x44 \<le> offset + count then map_option config_write_msix (config_put off (unat count) p s)
      else if offset = 0x10 \<and> count = 4 then Some (config_write_bar0 (of_nat (word_at p 16 4)) s)
      else if offset = 0x14 \<and> count = 4 then Some (config_write_bar1 (of_nat (word_at p 16 4)) s)
      else config_put off (unat count) p s)"

section \<open>Handlers of messages\<close>

definition handle_get_api_version :: "vfio_sys \<Rightarrow> vfio_sys" where
  "handle_get_api_version = vfu_send_reply (word_bytes 4 0)"

definition close_eventfd :: "vfio_sys \<Rightarrow> vfio_sys" where
  "close_eventfd s = (if 0 \<le> vs_msix_evtfd s then (close_fd (vs_msix_evtfd s) s)\<lparr>vs_msix_evtfd := -1\<rparr> else s)"

definition handle_set_reset :: "vfio_sys \<Rightarrow> vfio_sys" where
  "handle_set_reset s =
     vfu_send_reply [] ((close_eventfd (init_pci_config (init_nvme_regs (reset_queue_state s))))\<lparr>vs_msix_enabled := False\<rparr>)"

text \<open>Without a descriptor the object of memory is new and clear.\<close>

definition handle_dma_map :: "map_answer \<Rightarrow> (nat \<Rightarrow> u8) \<Rightarrow> int \<Rightarrow> vfio_sys \<Rightarrow> vfio_sys" where
  "handle_dma_map a p fd s =
     (let iova = of_nat (word_at p 16 8); n = of_nat (word_at p 24 8); offset = of_nat (word_at p 8 8) in
      if VFIO_USER_MAX_DMA_REGIONS \<le> length (vs_regions s) then vfu_send_error ENOMEM (if 0 \<le> fd then close_fd fd s else s)
      else (case a of
              Map_failed e \<Rightarrow> vfu_send_error e (if 0 \<le> fd then close_fd fd s else s)
            | Mapped ob \<Rightarrow>
                let s = (if fd < 0 then s\<lparr>vs_mem := (vs_mem s)(ob := \<lambda>_. 0)\<rparr> else s);
                    r = \<lparr>dr_iova = iova, dr_size = n, dr_offset = offset, dr_object = ob,
                         dr_base = (if fd < 0 then 0 else unat offset), dr_fd = fd\<rparr> in
                vfu_send_reply [] (s\<lparr>vs_regions := vs_regions s @ [r]\<rparr>)))"

text \<open>The last region takes the place of the one that is removed.\<close>

definition remove_region :: "nat \<Rightarrow> dma_region list \<Rightarrow> dma_region list" where
  "remove_region i rs = butlast (rs[i := last rs])"

definition handle_dma_unmap :: "(nat \<Rightarrow> u8) \<Rightarrow> vfio_sys \<Rightarrow> vfio_sys" where
  "handle_dma_unmap p s =
     (let iova = of_nat (word_at p 8 8); n = of_nat (word_at p 16 8) in
      vfu_send_reply []
        (case find (\<lambda>i. dr_iova (vs_regions s ! i) = iova \<and> dr_size (vs_regions s ! i) = n) [0..<length (vs_regions s)] of
           None \<Rightarrow> s
         | Some i \<Rightarrow>
             let fd = dr_fd (vs_regions s ! i); s = (if 0 \<le> fd then close_fd fd s else s) in
             s\<lparr>vs_regions := remove_region i (vs_regions s)\<rparr>))"

definition handle_device_get_info :: "vfio_sys \<Rightarrow> vfio_sys" where
  "handle_device_get_info =
     vfu_send_reply (word_bytes 4 20 @ word_bytes 4 2 @ word_bytes 4 VFIO_REGION_COUNT @ word_bytes 4 VFIO_IRQ_COUNT @ word_bytes 4 0)"

definition handle_device_get_region_info :: "(nat \<Rightarrow> u8) \<Rightarrow> vfio_sys \<Rightarrow> vfio_sys" where
  "handle_device_get_region_info p =
     (let index = word_at p 8 4;
          n = (if index = VFIO_REGION_BAR0 then VFIO_BAR0_SIZE else if index = VFIO_REGION_PCI_CONFIG then VFIO_PCI_CONFIG_SIZE else 0) in
      vfu_send_reply (word_bytes 4 32 @ word_bytes 4 0 @ word_bytes 4 index @ word_bytes 4 0 @ word_bytes 8 n @ word_bytes 8 0))"

definition handle_device_get_irq_info :: "(nat \<Rightarrow> u8) \<Rightarrow> vfio_sys \<Rightarrow> vfio_sys" where
  "handle_device_get_irq_info p =
     (let index = word_at p 8 4;
          n = (if index = VFIO_IRQ_INTX then 1 else if index = VFIO_IRQ_MSIX then VFIO_MSIX_VECTOR_COUNT else 0) in
      vfu_send_reply (word_bytes 4 16 @ word_bytes 4 0 @ word_bytes 4 index @ word_bytes 4 n))"

definition handle_device_set_irqs :: "(nat \<Rightarrow> u8) \<Rightarrow> int \<Rightarrow> vfio_sys \<Rightarrow> vfio_sys" where
  "handle_device_set_irqs p fd s =
     (let index = word_at p 8 4; is_eventfd = bit (p 4) 2; drop_fd = (\<lambda>s. if 0 \<le> fd then close_fd fd s else s) in
      if index = VFIO_IRQ_INTX \<or> index = VFIO_IRQ_MSI then vfu_send_reply [] (drop_fd s)
      else if index \<noteq> VFIO_IRQ_MSIX then vfu_send_error EINVAL (drop_fd s)
      else
        let s = close_eventfd s in
        vfu_send_reply [] (if is_eventfd \<and> 0 \<le> fd then s\<lparr>vs_msix_evtfd := fd\<rparr> else drop_fd (s\<lparr>vs_msix_evtfd := -1\<rparr>)))"

text \<open>The data of the configuration space; the check adds in 64 bits.\<close>

definition config_read :: "u64 \<Rightarrow> nat \<Rightarrow> vfio_sys \<Rightarrow> u8 list option" where
  "config_read offset count s =
     (let off = unat offset;
          n = (if VFIO_PCI_CONFIG_SIZE < unat (offset + of_nat count)
               then if VFIO_PCI_CONFIG_SIZE \<le> off then 0 else VFIO_PCI_CONFIG_SIZE - off else count) in
      if n = 0 then Some []
      else if VFIO_PCI_CONFIG_SIZE < off + n then None
      else Some (take n (drop off (vs_pci_config s))))"

definition handle_region_read :: "(nat \<Rightarrow> u8) \<Rightarrow> vfio_sys \<Rightarrow> vfio_sys option" where
  "handle_region_read p s =
     (let region = word_at p 8 4; offset = of_nat (word_at p 0 8); count = min (word_at p 12 4) VFIO_BAR0_SIZE in
      do {
        (d, s) \<leftarrow> (if region = VFIO_REGION_PCI_CONFIG then map_option (\<lambda>d. (d, s)) (config_read offset count s)
                   else if region = VFIO_REGION_BAR0 then Some (bar0_read offset count s)
                   else Some (replicate count 0, s));
        Some (vfu_send_reply (word_bytes 8 (unat offset) @ word_bytes 4 region @ word_bytes 4 (length d) @ d) s)
      })"

definition handle_region_write :: "(nat \<Rightarrow> u8) \<Rightarrow> vfio_sys \<Rightarrow> vfio_sys option" where
  "handle_region_write p s =
     (let region = word_at p 8 4; offset = of_nat (word_at p 0 8); count = word_at p 12 4 in
      do {
        s \<leftarrow> (if region = VFIO_REGION_PCI_CONFIG then pci_config_write (ucast (offset :: u64)) (of_nat count) p s
               else if region = VFIO_REGION_BAR0 then bar0_write offset count p s
               else Some s);
        Some (vfu_send_reply [] s)
      })"

definition dispatch_message :: "map_answer \<Rightarrow> vfu_msg_hdr \<Rightarrow> (nat \<Rightarrow> u8) \<Rightarrow> int list \<Rightarrow> vfio_sys \<Rightarrow> vfio_sys option" where
  "dispatch_message a h p fds s =
     (let fd = (if fds = [] then -1 else hd fds); c = vh_command h;
          s = s\<lparr>vs_req_id := vh_id h, vs_command := c, vs_no_reply := (vh_flags h AND VFU_MSG_FLAG_NO_REPLY \<noteq> 0)\<rparr> in
      if c = VFU_VERSION then Some (handle_get_api_version s)
      else if c = VFU_DEVICE_RESET then Some (handle_set_reset s)
      else if c = VFU_DMA_MAP then Some (handle_dma_map a p fd s)
      else if c = VFU_DMA_UNMAP then Some (handle_dma_unmap p s)
      else if c = VFU_DEVICE_GET_INFO then Some (handle_device_get_info s)
      else if c = VFU_DEVICE_GET_REGION_INFO then Some (handle_device_get_region_info p s)
      else if c = VFU_DEVICE_GET_REGION_IO_FDS
      then Some (vfu_send_reply (word_bytes 4 16 @ word_bytes 4 0 @ word_bytes 4 0 @ word_bytes 4 0) s)
      else if c = VFU_DEVICE_GET_IRQ_INFO then Some (handle_device_get_irq_info p s)
      else if c = VFU_DEVICE_SET_IRQS then Some (handle_device_set_irqs p fd s)
      else if c = VFU_REGION_READ then handle_region_read p s
      else if c = VFU_REGION_WRITE then handle_region_write p s
      else if c = VFU_DMA_READ \<or> c = VFU_DMA_WRITE then Some (vfu_send_reply [] s)
      else Some (vfu_send_error EINVAL s))"

text \<open>\<open>old\<close> is what the buffer for the payload held before.\<close>

definition handle_connection_messages :: "map_answer \<Rightarrow> (nat \<Rightarrow> u8) \<Rightarrow> vfio_sys \<Rightarrow> (ret_code \<times> vfio_sys) option" where
  "handle_connection_messages a old s =
     (let (r, fds, s) = vfu_recv_msg s; fds = filter (\<lambda>fd. 0 \<le> fd) fds in
      case r of
        None \<Rightarrow> Some (RET_ERR_INTERNAL, fold close_fd fds s)
      | Some (h, bs) \<Rightarrow> map_option (\<lambda>s. (RET_OK, s)) (dispatch_message a h (mem_write old 0 bs) fds s))"

section \<open>The device\<close>

definition vfio_close_connection :: "vfio_sys \<Rightarrow> vfio_sys" where
  "vfio_close_connection s =
     (let s = (if 0 \<le> vs_conn_fd s then (close_fd (vs_conn_fd s) s)\<lparr>vs_conn_fd := -1\<rparr> else s);
          s = fold close_fd (filter (\<lambda>fd. 0 \<le> fd) (map dr_fd (vs_regions s))) s;
          s = (close_eventfd (s\<lparr>vs_regions := []\<rparr>))\<lparr>vs_msix_enabled := False\<rparr> in
      init_pci_config (init_nvme_regs ((reset_queue_state s)\<lparr>vs_connected := False\<rparr>)))"

text \<open>The answers of \<open>socket\<close>, \<open>bind\<close> and \<open>listen\<close>.\<close>

definition vfio_user_nvme_init :: "vfio_config option \<Rightarrow> int \<Rightarrow> bool \<Rightarrow> bool \<Rightarrow> vfio_sys \<Rightarrow> ret_code \<times> vfio_sys" where
  "vfio_user_nvme_init config fd bind_ok listen_ok s =
     (case config of
        None \<Rightarrow> (RET_ERR_PARAM, s)
      | Some g \<Rightarrow>
          let g = g\<lparr>vg_max_queues := (if vg_max_queues g = 0 then 2 else vg_max_queues g),
                    vg_socket_path := (if vg_socket_path g = [] then VFIO_USER_NVME_DEFAULT_SOCKET else vg_socket_path g)\<rparr>;
              s = init_nvme_regs (init_pci_config (reset_queue_state
                    (s\<lparr>vs_config := g, vs_socket_fd := fd, vs_conn_fd := -1, vs_running := False, vs_connected := False, vs_regions := [],
                       vs_msix_evtfd := -1, vs_msix_enabled := False, vs_msix_table := replicate 16 0, vs_msix_pba := replicate 8 0\<rparr>))) in
          if fd < 0 then (RET_ERR_INTERNAL, s)
          else if \<not> bind_ok \<or> \<not> listen_ok then (RET_ERR_INTERNAL, (close_fd fd s)\<lparr>vs_socket_fd := -1\<rparr>)
          else (RET_OK, s\<lparr>vs_running := True\<rparr>))"

definition vfio_user_nvme_deinit :: "vfio_sys \<Rightarrow> ret_code \<times> vfio_sys" where
  "vfio_user_nvme_deinit s =
     (let s = vfio_close_connection (s\<lparr>vs_running := False\<rparr>) in
      (RET_OK, if 0 \<le> vs_socket_fd s then (close_fd (vs_socket_fd s) s)\<lparr>vs_socket_fd := -1\<rparr> else s))"

text \<open>What the kernel says during one call of the event loop.\<close>

record vfio_events =
  ve_select_ok :: bool
  ve_ready :: "int \<Rightarrow> bool"
  ve_accept :: int
  ve_map :: map_answer
  ve_old :: "nat \<Rightarrow> u8"

definition vfio_accept :: "int \<Rightarrow> vfio_sys \<Rightarrow> vfio_sys" where
  "vfio_accept fd s =
     (if fd < 0 then s
      else if vs_connected s then close_fd fd s
      else s\<lparr>vs_conn_fd := fd, vs_connected := True\<rparr>)"

definition vfio_user_nvme_process :: "vfio_events \<Rightarrow> vfio_sys \<Rightarrow> vfio_sys option" where
  "vfio_user_nvme_process e s =
     (if \<not> vs_running s \<or> vs_socket_fd s < 0 then Some s
      else if \<not> ve_select_ok e then Some s
      else
        let watched = insert (vs_socket_fd s) (if vs_connected s \<and> 0 \<le> vs_conn_fd s then {vs_conn_fd s} else {});
            s = (if ve_ready e (vs_socket_fd s) then vfio_accept (ve_accept e) s else s) in
        if vs_connected s \<and> 0 \<le> vs_conn_fd s \<and> vs_conn_fd s \<in> watched \<and> ve_ready e (vs_conn_fd s)
        then do {
          (ret, s) \<leftarrow> handle_connection_messages (ve_map e) (ve_old e) s;
          Some (if ret \<noteq> RET_OK then vfio_close_connection s else s)
        }
        else Some s)"

end
