(* ===== verification/VfioFlow.thy ===== *)
theory VfioFlow
  imports Vfio FtlHost NvmeHistory UfsFlow
begin

text \<open>
  The vfio-user device in use: what a command leaves alone, a write from the queue in guest memory to the flash, the
  tail of a ring that makes the device run for ever, and offsets that wrap around.
\<close>

section \<open>What a command keeps\<close>

text \<open>A queue with entries has its head and its tail inside of the ring.\<close>

definition vq_ok :: "vfio_queue \<Rightarrow> bool" where
  "vq_ok q \<longleftrightarrow> (0 < vq_sq_size q \<longrightarrow> vq_sq_head q < vq_sq_size q) \<and> (0 < vq_cq_size q \<longrightarrow> vq_cq_tail q < vq_cq_size q)"

definition vfio_same :: "vfio_sys \<Rightarrow> vfio_sys \<Rightarrow> bool" where
  "vfio_same s s' \<longleftrightarrow>
     s' = s\<lparr>vs_nvme := vs_nvme s', vs_mem := vs_mem s', vs_io_read_buf := vs_io_read_buf s',
       vs_io_write_buf := vs_io_write_buf s', vs_queues := vs_queues s'\<rparr>"

lemma vfio_same_refl [simp]: "vfio_same s s"
  by (simp add: vfio_same_def)

lemma vfio_same_trans: "vfio_same s s1 \<Longrightarrow> vfio_same s1 s2 \<Longrightarrow> vfio_same s s2"
  by (cases s; cases s1; cases s2) (simp add: vfio_same_def)

lemma vfio_same_upd [simp]:
  "vfio_same s (s\<lparr>vs_nvme := v\<rparr>)" "vfio_same s (s\<lparr>vs_mem := m\<rparr>)" "vfio_same s (s\<lparr>vs_io_read_buf := b\<rparr>)"
  "vfio_same s (s\<lparr>vs_io_write_buf := b\<rparr>)" "vfio_same s (s\<lparr>vs_queues := q\<rparr>)" "vfio_same s (upd_vq i f s)"
  by (simp_all add: vfio_same_def upd_vq_def)

lemma vfio_same_fields:
  assumes "vfio_same s s'"
  shows "vs_regions s' = vs_regions s" "vs_socket_fd s' = vs_socket_fd s" "vs_conn_fd s' = vs_conn_fd s" "vs_running s' = vs_running s"
    "vs_connected s' = vs_connected s" "vs_pci_config s' = vs_pci_config s" "vs_nvme_regs s' = vs_nvme_regs s"
    "vs_msix_table s' = vs_msix_table s" "vs_msix_pba s' = vs_msix_pba s" "vs_msix_evtfd s' = vs_msix_evtfd s"
    "vs_msix_enabled s' = vs_msix_enabled s" "vs_irqs s' = vs_irqs s" "vs_closed s' = vs_closed s" "vs_sent s' = vs_sent s"
  by (subst assms [unfolded vfio_same_def], simp)+

text \<open>The queues a command may change are those of other numbers, and they stay inside of their rings.\<close>

definition vfio_keeps :: "nat \<Rightarrow> vfio_sys \<Rightarrow> vfio_sys \<Rightarrow> bool" where
  "vfio_keeps q s s' \<longleftrightarrow>
     vfio_same s s' \<and> vs_queues s' q = vs_queues s q \<and> ((\<forall>i. vq_ok (vs_queues s i)) \<longrightarrow> (\<forall>i. vq_ok (vs_queues s' i)))"

lemma vfio_keeps_refl [simp]: "vfio_keeps q s s"
  by (simp add: vfio_keeps_def)

lemma vfio_keeps_trans: "vfio_keeps q s s1 \<Longrightarrow> vfio_keeps q s1 s2 \<Longrightarrow> vfio_keeps q s s2"
  by (auto simp: vfio_keeps_def intro: vfio_same_trans)

lemma vfio_keeps_upd [simp]:
  "vfio_keeps q s (s\<lparr>vs_nvme := v\<rparr>)" "vfio_keeps q s (s\<lparr>vs_mem := m\<rparr>)" "vfio_keeps q s (s\<lparr>vs_io_read_buf := b\<rparr>)"
  "vfio_keeps q s (s\<lparr>vs_io_write_buf := b\<rparr>)"
  by (simp_all add: vfio_keeps_def)

lemma vfio_keepsD: "vfio_keeps q s s' \<Longrightarrow> vs_regions s' = vs_regions s" "vfio_keeps q s s' \<Longrightarrow> vs_queues s' q = vs_queues s q"
  by (simp_all add: vfio_keeps_def vfio_same_fields(1) [of s s'])

lemma write_guest_keeps: "write_guest h off bs s = Some s' \<Longrightarrow> vfio_keeps q s s'"
  by (auto simp: write_guest_def split: prod.splits if_splits)

lemma prp_write_step:
  assumes "\<not> length data \<le> off" "gpa_to_hva s (cur AND NOT 0xFFF) = Some h"
    and "write_guest h (unat (cur AND 0xFFF)) (take (prp_chunk cur (length data - off)) (drop off data)) s = Some s1"
    and "off' = off + prp_chunk cur (length data - off)"
  shows "prp_write_loop prp2 l data off cur pages s =
     (if length data \<le> off' then Some (RET_OK, s1)
      else if l
      then (case prp_entry s1 prp2 pages of
              None \<Rightarrow> None
            | Some None \<Rightarrow> Some (RET_ERR_PARAM, s1)
            | Some (Some a) \<Rightarrow> prp_write_loop prp2 l data off' a (pages + 1) s1)
      else if pages = 0 then prp_write_loop prp2 l data off' prp2 (pages + 1) s1
      else Some (RET_OK, s1))"
  unfolding assms(4) by (subst prp_write_loop.simps) (use assms(1-3) in \<open>simp add: Let_def\<close>)

lemma prp_write_loop_keeps: "prp_write_loop prp2 l data off cur pages s = Some r \<Longrightarrow> vfio_keeps q s (snd r)"
proof (induction prp2 l data off cur pages s rule: prp_write_loop.induct)
  case (1 prp2 l data off cur pages s)
  show ?case
  proof (cases "length data \<le> off")
    case True
    then show ?thesis using "1.prems" by (subst (asm) prp_write_loop.simps) auto
  next
    case len: False
    show ?thesis
    proof (cases "gpa_to_hva s (cur AND NOT 0xFFF)")
      case None
      then show ?thesis using "1.prems" len by (subst (asm) prp_write_loop.simps) auto
    next
      case (Some h)
      define o1 where "o1 = off + prp_chunk cur (length data - off)"
      from Some len "1.prems" obtain s1 where
        s1: "write_guest h (unat (cur AND 0xFFF)) (take (prp_chunk cur (length data - off)) (drop off data)) s = Some s1"
        by (subst (asm) prp_write_loop.simps) (auto split: option.splits)
      note ih = "1.IH" [OF len Some s1 o1_def]
      note step = "1.prems" [unfolded prp_write_step [OF len Some s1 o1_def]]
      have "vfio_keeps q s1 (snd r)"
      proof (cases "length data \<le> o1")
        case False
        then show ?thesis using step ih by (auto split: if_splits option.splits)
      qed (use step in auto)
      then show ?thesis by (rule vfio_keeps_trans [OF write_guest_keeps [OF s1]])
    qed
  qed
qed

lemma prp_write_keeps: "prp_write_data prp1 prp2 data s = Some r \<Longrightarrow> vfio_keeps q s (snd r)"
  unfolding prp_write_data_def by (rule prp_write_loop_keeps)

lemma for_each_keeps:
  assumes "\<And>x s r. body x s = Some r \<Longrightarrow> (case r of Leave y s' \<Rightarrow> vfio_keeps q s s' | Next s' \<Rightarrow> vfio_keeps q s s')"
  shows "for_each xs body s = Some r \<Longrightarrow> (case r of Leave y s' \<Rightarrow> vfio_keeps q s s' | Next s' \<Rightarrow> vfio_keeps q s s')"
proof (induction xs arbitrary: s)
  case (Cons x xs)
  then show ?case
    using assms [of x s] by (fastforce split: option.splits ctl.splits intro: vfio_keeps_trans)
qed auto

lemma vfio_write_pages_keeps: "vfio_write_pages cmd page cpl s = Some r \<Longrightarrow> vfio_keeps q s (snd r)"
proof -
  assume "vfio_write_pages cmd page cpl s = Some r"
  then obtain c where c: "for_each [0..<nvme_nlb cmd] (vfio_write_body cmd page) s = Some c"
    "r = (case c of Leave st s \<Rightarrow> (cpl\<lparr>cp_status := st\<rparr>, s) | Next s \<Rightarrow> (cpl\<lparr>cp_status := NVME_SC_SUCCESS\<rparr>, s))"
    by (auto simp: vfio_write_pages_def split: bind_splits)
  have "case c of Leave y s' \<Rightarrow> vfio_keeps q s s' | Next s' \<Rightarrow> vfio_keeps q s s'"
    by (rule for_each_keeps [OF _ c(1)]) (auto simp: vfio_write_body_def split: if_splits bind_splits)
  then show ?thesis using c(2) by (auto split: ctl.splits)
qed

lemma read_pages_keeps: "vfio_keeps q s (fold (vfio_read_body cmd) xs s)"
proof (induction xs arbitrary: s)
  case (Cons x xs)
  have "vfio_keeps q s (vfio_read_body cmd x s)"
    by (auto simp: vfio_read_body_def vfio_keeps_def vfio_same_def Let_def split: prod.splits)
  with Cons show ?case by (auto intro: vfio_keeps_trans)
qed simp

lemma vfio_io_read_keeps: "vfio_io_read cmd cpl s = Some r \<Longrightarrow> vfio_keeps q s (snd r)"
  using read_pages_keeps [of q s cmd "[0..<nvme_nlb cmd]"]
  by (auto simp: vfio_io_read_def Let_def split: if_splits bind_splits dest!: prp_write_keeps [of _ _ _ _ _ q] intro: vfio_keeps_trans)

lemma vfio_io_write_keeps: "vfio_io_write cmd cpl s = Some r \<Longrightarrow> vfio_keeps q s (snd r)"
  by (auto simp: vfio_io_write_def Let_def split: if_splits bind_splits dest!: vfio_write_pages_keeps [of _ _ _ _ _ q]
      intro: vfio_keeps_trans [OF vfio_keeps_upd(4)])

lemma trim_bodies_keep: "fold_option vfio_trim_body xs (cpl, s) = Some r \<Longrightarrow> vfio_keeps q s (snd r)"
proof (induction xs arbitrary: cpl s)
  case (Cons x xs)
  then obtain cpl1 s1 where s1: "vfio_trim_body x (cpl, s) = Some (cpl1, s1)" "fold_option vfio_trim_body xs (cpl1, s1) = Some r"
    by (auto split: bind_splits)
  have "vfio_keeps q s s1" using s1(1) by (auto simp: vfio_trim_body_def Let_def split: bind_splits)
  then show ?case using Cons.IH [OF s1(2)] by (rule vfio_keeps_trans)
qed auto

lemma vfio_dsm_keeps: "vfio_io_dataset_mgmt cmd cpl s = Some r \<Longrightarrow> vfio_keeps q s (snd r)"
  by (auto simp: vfio_io_dataset_mgmt_def Let_def split: if_splits bind_splits dest!: trim_bodies_keep [of _ _ _ _ q]
      intro: vfio_keeps_trans [OF vfio_keeps_upd(4)])

lemma vfio_io_keeps:
  assumes "vfio_io_command cmd cpl s = Some r"
  shows "vfio_keeps q s (snd r)"
proof -
  let ?op = "nc_opcode cmd"
  consider "?op = NVME_IO_READ" | "?op = NVME_IO_WRITE" | "?op = NVME_IO_WRITE_ZEROES" | "?op = NVME_IO_DATASET_MGMT"
    | "?op \<notin> {NVME_IO_READ, NVME_IO_WRITE, NVME_IO_WRITE_ZEROES, NVME_IO_DATASET_MGMT}" by blast
  then show ?thesis
    by cases (use assms in \<open>auto simp: vfio_io_command_def vfio_io_write_zeroes_def split: bind_splits
      dest!: vfio_io_read_keeps [of _ _ _ _ q] vfio_io_write_keeps [of _ _ _ _ q] vfio_write_pages_keeps [of _ _ _ _ _ q] vfio_dsm_keeps [of _ _ _ _ q]\<close>)
qed

lemma vfio_admin_fields:
  "vfio_same s (snd (vfio_admin cmd s))" "vs_queues (snd (vfio_admin cmd s)) = vs_queues s"
  by (simp_all add: vfio_admin_def split: prod.splits)

lemma vfio_admin_keeps:
  assumes "vfio_admin_command cmd cpl s = Some r" "\<forall>i. vq_ok (vs_queues s i)"
  shows "vfio_keeps 0 s (snd r)"
  using assms
proof -
  let ?op = "nc_opcode cmd" and ?q = "cmd_qid cmd"
  have del: "vfio_keeps 0 s (snd (vfio_admin cmd (if io_qid ?q then upd_vq ?q f s else s)))"
    if "\<And>x. vq_ok x \<Longrightarrow> vq_ok (f x)" for f
  proof -
    let ?s = "if io_qid ?q then upd_vq ?q f s else s"
    have "vfio_same s ?s" "vs_queues ?s 0 = vs_queues s 0" "\<forall>i. vq_ok (vs_queues ?s i)"
      using assms(2) that by (auto simp: io_qid_def upd_vq_def vfio_same_def)
    then show ?thesis using vfio_admin_fields(1) [of ?s cmd] vfio_admin_fields(2) [of cmd ?s] by (auto simp: vfio_keeps_def intro: vfio_same_trans)
  qed
  have id: "vfio_keeps 0 s (snd r)" if "vfio_identify cmd cpl s = Some r"
    using that by (auto simp: vfio_identify_def split: bind_splits dest!: prp_write_keeps [of _ _ _ _ _ 0])
  have lg: "vfio_keeps 0 s (snd r)" if "vfio_get_log_page cmd cpl s = Some r"
  proof -
    from that obtain d ret s1 where "prp_write_data (nc_prp1 cmd) (nc_prp2 cmd) d s = Some (ret, s1)" "r = (cpl\<lparr>cp_status := 0\<rparr>, s1)"
      unfolding vfio_get_log_page_def Let_def by (elim bind_SomeE) auto
    then show ?thesis by (auto dest!: prp_write_keeps [of _ _ _ _ _ 0])
  qed
  have ad: "vfio_keeps 0 s (snd (vfio_admin cmd s))"
    using vfio_admin_fields(1) [of s cmd] vfio_admin_fields(2) [of cmd s] by (simp add: vfio_keeps_def)
  have cr: "vfio_keeps 0 s (snd (vfio_create_iosq cmd s))" "vfio_keeps 0 s (snd (vfio_create_iocq cmd s))"
    "vfio_keeps 0 s (snd (vfio_delete_iosq cmd s))" "vfio_keeps 0 s (snd (vfio_delete_iocq cmd s))"
    unfolding vfio_create_iosq_def vfio_create_iocq_def vfio_delete_iosq_def vfio_delete_iocq_def Let_def
    by (rule del, simp add: vq_ok_def)+
  consider "?op = NVME_ADMIN_IDENTIFY" | "?op = NVME_ADMIN_GET_LOG_PAGE" | "?op = NVME_ADMIN_CREATE_IOSQ" | "?op = NVME_ADMIN_CREATE_IOCQ"
    | "?op = NVME_ADMIN_DELETE_IOSQ" | "?op = NVME_ADMIN_DELETE_IOCQ"
    | "?op \<notin> {NVME_ADMIN_IDENTIFY, NVME_ADMIN_GET_LOG_PAGE, NVME_ADMIN_CREATE_IOSQ, NVME_ADMIN_CREATE_IOCQ, NVME_ADMIN_DELETE_IOSQ,
        NVME_ADMIN_DELETE_IOCQ}" by blast
  then show ?thesis by cases (use assms(1) id lg cr ad in \<open>auto simp: vfio_admin_command_def\<close>)
qed

lemma process_nvme_keeps:
  assumes "process_nvme_command q cmd s = Some r" "\<forall>i. vq_ok (vs_queues s i)"
  shows "vfio_keeps q s (snd r)"
  using assms vfio_admin_keeps [of cmd _ s r] vfio_io_keeps [of cmd _ s r q]
  by (auto simp: process_nvme_command_def Let_def split: if_splits)

section \<open>Tails beyond the ring\<close>

lemma next_index_less: "i < n \<Longrightarrow> next_index i n < n"
  by (auto simp: next_index_def word_gt_0_no intro: le_less_trans [OF word_zero_le])

lemma vq_ok_advance: "vq_ok q \<Longrightarrow> vq_ok (vq_advance q)"
  by (simp add: vq_ok_def vq_advance_def next_index_less)

lemma gpa_to_hva_cong: "vs_regions s' = vs_regions s \<Longrightarrow> gpa_to_hva s' = gpa_to_hva s"
  by (simp add: gpa_to_hva_def fun_eq_iff)

text \<open>What a round does to the device, whether or not it is the last one.\<close>

lemma queue_round_cases:
  assumes "queue_round q w s = Some n"
  obtains "n = Queue_done w s"
  | cmd cpl s1 where "process_nvme_command q cmd s = Some (cpl, s1)" "n = Queue_done w s1"
  | cmd cpl s1 h bs s2 where "process_nvme_command q cmd s = Some (cpl, s1)" "write_guest h 0 bs s1 = Some s2"
      "n = Queue_again (upd_vq q vq_advance s2)"
proof (cases "vq_sq_head (vs_queues s q) = vq_sq_tail (vs_queues s q) \<or> gpa_to_hva s (sq_slot (vs_queues s q)) = None")
  case True
  then have "n = Queue_done w s" using assms by (cases "vq_sq_head (vs_queues s q) = vq_sq_tail (vs_queues s q)") (simp_all add: queue_round_def)
  then show thesis by (rule that(1))
next
  case False
  then obtain h where h: "gpa_to_hva s (sq_slot (vs_queues s q)) = Some h" by blast
  define K where "K cpl s1 = (case gpa_to_hva s1 (cq_slot (vs_queues s1 q)) of
       None \<Rightarrow> Some (Queue_done w s1)
     | Some hc \<Rightarrow> do {
         s2 \<leftarrow> write_guest hc 0 (completion_bytes (vq_completion (vs_queues s1 q) cpl)) s1;
         Some (Queue_again (upd_vq q vq_advance s2)) })" for cpl s1
  have "do { bs \<leftarrow> read_guest h 0 64 s; (cpl, s1) \<leftarrow> process_nvme_command q (command_at ((!) bs) 0) s; K cpl s1 } = Some n"
    using assms False unfolding queue_round_def h option.case K_def by simp
  then obtain cmd cpl s1 where s1: "process_nvme_command q cmd s = Some (cpl, s1)" and rest: "K cpl s1 = Some n"
    by (elim bind_SomeE) auto
  show thesis
  proof (cases "gpa_to_hva s1 (cq_slot (vs_queues s1 q))")
    case None
    then have "n = Queue_done w s1" using rest by (simp add: K_def)
    then show thesis by (rule that(2) [OF s1])
  next
    case (Some hc)
    from rest [unfolded K_def this option.case] obtain s2 where
      "write_guest hc 0 (completion_bytes (vq_completion (vs_queues s1 q) cpl)) s1 = Some s2" "n = Queue_again (upd_vq q vq_advance s2)"
      by (elim bind_SomeE) auto
    then show thesis by (rule that(3) [OF s1])
  qed
qed

lemma queue_round_same:
  assumes "queue_round q w s = Some n" "\<forall>i. vq_ok (vs_queues s i)"
  shows "case n of Queue_done x s' \<Rightarrow> vfio_same s s' \<and> (\<forall>i. vq_ok (vs_queues s' i))
     | Queue_again s' \<Rightarrow> vfio_same s s' \<and> (\<forall>i. vq_ok (vs_queues s' i))"
  using assms(1)
proof (cases rule: queue_round_cases)
  case 1
  then show ?thesis using assms(2) by simp
next
  case (2 cmd cpl s1)
  then show ?thesis using process_nvme_keeps [OF 2(1) assms(2)] assms(2) by (simp add: vfio_keeps_def)
next
  case (3 cmd cpl s1 h bs s2)
  have "vfio_keeps q s s1" using process_nvme_keeps [OF 3(1) assms(2)] by simp
  then have "vfio_keeps q s s2" using write_guest_keeps [OF 3(2)] by (rule vfio_keeps_trans)
  then have k: "vfio_same s s2" "\<forall>i. vq_ok (vs_queues s2 i)" using assms(2) by (simp_all add: vfio_keeps_def)
  have "vfio_same s (upd_vq q vq_advance s2)" using k(1) vfio_same_upd(6) by (rule vfio_same_trans)
  moreover have "\<forall>i. vq_ok (vs_queues (upd_vq q vq_advance s2) i)" using k(2) by (simp add: upd_vq_def vq_ok_advance)
  ultimately show ?thesis by (simp add: 3(3))
qed

text \<open>The loop runs for ever when every round takes a command and goes on.\<close>

definition loops_forever :: "nat \<Rightarrow> vfio_sys \<Rightarrow> bool" where
  "loops_forever qid s \<longleftrightarrow> (\<exists>t. t 0 = s \<and> (\<forall>n. queue_round qid (0 < n) (t n) = Some (Queue_again (t (Suc n)))))"

lemma loops_forever_no_result:
  assumes "loops_forever qid s"
  shows "queue_loop qid False s = None"
proof (cases "queue_loop qid False s")
  case (Some r)
  from assms obtain t where t: "t 0 = s" "\<And>n. queue_round qid (0 < n) (t n) = Some (Queue_again (t (Suc n)))"
    by (auto simp: loops_forever_def)
  have "q = qid \<longrightarrow> w = (0 < n) \<longrightarrow> u = t n \<longrightarrow> False" if "queue_loop q w u = Some r" for q w u r n
    using that
  proof (rule queue_loop.raw_induct [where P = "\<lambda>q w u r. \<forall>n. q = qid \<longrightarrow> w = (0 < n) \<longrightarrow> u = t n \<longrightarrow> False", rotated, THEN spec])
    show "\<forall>n. q = qid \<longrightarrow> w = (0 < n) \<longrightarrow> u = t n \<longrightarrow> False"
      if ih: "\<And>q w u r. loop q w u = Some r \<Longrightarrow> \<forall>n. q = qid \<longrightarrow> w = (0 < n) \<longrightarrow> u = t n \<longrightarrow> False"
        and run: "(case queue_round q w u of None \<Rightarrow> None | Some (Queue_done w s) \<Rightarrow> Some (w, s) | Some (Queue_again s) \<Rightarrow> loop q True s) = Some r"
      for loop :: "nat \<Rightarrow> bool \<Rightarrow> vfio_sys \<Rightarrow> (bool \<times> vfio_sys) option" and q w u r
    proof (intro allI impI)
      fix n
      assume "q = qid" "w = (0 < n)" "u = t n"
      with run t(2) [of n] have "loop qid True (t (Suc n)) = Some r" by simp
      from ih [OF this] show False by (auto dest: spec [of _ "Suc n"])
    qed
  qed
  from this [OF Some, of 0] t(1) show ?thesis by simp
qed simp

text \<open>
  A ring of commands that move no data, an entry of which the completions of its queue do not overwrite;
  all entries of both rings are mapped.
\<close>

definition data_commands :: "u8 set" where
  "data_commands = {NVME_IO_READ, NVME_IO_WRITE, NVME_IO_WRITE_ZEROES, NVME_IO_DATASET_MGMT}"

definition quiet_ring :: "nat \<Rightarrow> vfio_sys \<Rightarrow> bool" where
  "quiet_ring qid s \<longleftrightarrow>
     (let q = vs_queues s qid in
      \<forall>i<vq_sq_size q. \<forall>j<vq_cq_size q. \<exists>ob pos room ob' pos' room'.
        gpa_to_hva s (vq_sq_base q + ucast i * 64) = Some (ob, pos, room) \<and> 64 \<le> room \<and>
        nc_opcode (command_at ((!) (mem_read (vs_mem s ob) pos 64)) 0) \<notin> data_commands \<and>
        gpa_to_hva s (vq_cq_base q + ucast j * 16) = Some (ob', pos', room') \<and> 16 \<le> room' \<and>
        (ob' = ob \<longrightarrow> pos' + 16 \<le> pos \<or> pos + 64 \<le> pos'))"

definition endless :: "nat \<Rightarrow> vfio_sys \<Rightarrow> bool" where
  "endless qid s \<longleftrightarrow> 0 < qid \<and> vq_ok (vs_queues s qid) \<and> 0 < vq_sq_size (vs_queues s qid) \<and> 0 < vq_cq_size (vs_queues s qid) \<and>
     vq_sq_size (vs_queues s qid) \<le> vq_sq_tail (vs_queues s qid) \<and> quiet_ring qid s"

lemma quiet_command:
  "0 < qid \<Longrightarrow> nc_opcode cmd \<notin> data_commands \<Longrightarrow> \<exists>cpl. process_nvme_command qid cmd s = Some (cpl, s)"
  by (auto simp: process_nvme_command_def vfio_io_command_def data_commands_def nvme_ctrl_process_io_cmd_def Let_def)

lemma endless_round:
  assumes "endless qid s"
  shows "\<exists>s'. queue_round qid w s = Some (Queue_again s') \<and> endless qid s'"
proof -
  let ?q = "vs_queues s qid"
  have ring: "0 < qid" "vq_ok ?q" "vq_sq_head ?q < vq_sq_size ?q" "vq_cq_tail ?q < vq_cq_size ?q" "vq_sq_head ?q \<noteq> vq_sq_tail ?q"
    using assms by (auto simp: endless_def vq_ok_def)
  have quiet: "quiet_ring qid s" using assms by (simp add: endless_def)
  with ring(3,4) obtain ob pos room ob' pos' room' where
    h: "gpa_to_hva s (sq_slot ?q) = Some (ob, pos, room)" "64 \<le> room"
      "nc_opcode (command_at ((!) (mem_read (vs_mem s ob) pos 64)) 0) \<notin> data_commands"
      "gpa_to_hva s (cq_slot ?q) = Some (ob', pos', room')" "16 \<le> room'"
    unfolding quiet_ring_def Let_def sq_slot_def cq_slot_def by meson
  from quiet_command [OF ring(1) h(3), of s] obtain cpl where
    cpl: "process_nvme_command qid (command_at ((!) (mem_read (vs_mem s ob) pos 64)) 0) s = Some (cpl, s)" by blast
  define bs where "bs = completion_bytes (vq_completion ?q cpl)"
  define s2 where "s2 = s\<lparr>vs_mem := (vs_mem s)(ob' := mem_write (vs_mem s ob') pos' bs)\<rparr>"
  let ?s = "upd_vq qid vq_advance s2"
  have "queue_round qid w s = Some (Queue_again ?s)"
    using ring(5) h cpl by (simp add: queue_round_def read_guest_def write_guest_def s2_def bs_def)
  moreover have "endless qid ?s"
  proof -
    have q': "vs_queues ?s qid = vq_advance ?q" by (simp add: upd_vq_def s2_def)
    have hva: "gpa_to_hva ?s = gpa_to_hva s" by (rule gpa_to_hva_cong) (simp add: upd_vq_def s2_def)
    have mem: "mem_read (vs_mem ?s o1) p 64 = mem_read (vs_mem s o1) p 64"
      if "ob' = o1 \<longrightarrow> pos' + 16 \<le> p \<or> p + 64 \<le> pos'" for o1 p
      using that by (auto simp: upd_vq_def s2_def bs_def mem_read_write_disjoint)
    have "quiet_ring qid ?s"
      unfolding quiet_ring_def Let_def q' hva
    proof (intro allI impI)
      fix i j
      assume "i < vq_sq_size (vq_advance ?q)" "j < vq_cq_size (vq_advance ?q)"
      then have i: "i < vq_sq_size ?q" and j: "j < vq_cq_size ?q" by (simp_all add: vq_advance_def)
      from quiet i ring(4) obtain o1 p1 r1 where
        1: "gpa_to_hva s (vq_sq_base ?q + ucast i * 64) = Some (o1, p1, r1)" "64 \<le> r1"
          "nc_opcode (command_at ((!) (mem_read (vs_mem s o1) p1 64)) 0) \<notin> data_commands"
          "ob' = o1 \<longrightarrow> pos' + 16 \<le> p1 \<or> p1 + 64 \<le> pos'"
        using h(4) unfolding quiet_ring_def Let_def cq_slot_def by fastforce
      from quiet i j obtain o2 p2 r2 where
        2: "gpa_to_hva s (vq_cq_base ?q + ucast j * 16) = Some (o2, p2, r2)" "16 \<le> r2" "o2 = o1 \<longrightarrow> p2 + 16 \<le> p1 \<or> p1 + 64 \<le> p2"
        using 1(1) unfolding quiet_ring_def Let_def by fastforce
      show "\<exists>ob pos room ob' pos' room'.
        gpa_to_hva s (vq_sq_base (vq_advance ?q) + ucast i * 64) = Some (ob, pos, room) \<and> 64 \<le> room \<and>
        nc_opcode (command_at ((!) (mem_read (vs_mem ?s ob) pos 64)) 0) \<notin> data_commands \<and>
        gpa_to_hva s (vq_cq_base (vq_advance ?q) + ucast j * 16) = Some (ob', pos', room') \<and> 16 \<le> room' \<and>
        (ob' = ob \<longrightarrow> pos' + 16 \<le> pos \<or> pos + 64 \<le> pos')"
        by (intro exI [of _ o1] exI [of _ p1] exI [of _ r1] exI [of _ o2] exI [of _ p2] exI [of _ r2])
          (use 1 2 mem [OF 1(4)] in \<open>simp add: vq_advance_def\<close>)
    qed
    then show ?thesis
      using assms ring(2) unfolding endless_def q' by (simp add: vq_ok_advance) (simp add: vq_advance_def)
  qed
  ultimately show ?thesis by blast
qed

lemma endless_loops:
  assumes "endless qid s"
  shows "loops_forever qid s"
proof -
  have "\<exists>t. \<forall>n. (endless qid (t n) \<and> (n = 0 \<longrightarrow> t n = s)) \<and> queue_round qid (0 < n) (t n) = Some (Queue_again (t (Suc n)))"
  proof (rule dependent_nat_choice)
    show "\<exists>x. endless qid x \<and> (0 = (0 :: nat) \<longrightarrow> x = s)" using assms by blast
    show "\<exists>y. (endless qid y \<and> (Suc n = 0 \<longrightarrow> y = s)) \<and> queue_round qid (0 < n) x = Some (Queue_again y)"
      if "endless qid x \<and> (n = 0 \<longrightarrow> x = s)" for x and n :: nat
      using endless_round [of qid x "0 < n"] that by auto
  qed
  then show ?thesis by (auto simp: loops_forever_def)
qed

text \<open>C34: a doorbell may set the tail of a submission queue to a number that is not an entry of its ring.  The head then
  never meets it.  When the controller accepts the doorbell and the rings are mapped and hold commands that move no
  data, such as Flush, every round of the loop is defined, takes a command, delivers its completion and
  is followed by another round, for ever; so the call has no result.\<close>

theorem vfio_tail_beyond_ring_hangs:
  assumes "io_qid qid" "vq_valid (vs_queues s qid)" "vq_ok (vs_queues s qid)"
    and "0 < vq_sq_size (vs_queues s qid)" "0 < vq_cq_size (vs_queues s qid)" "vq_sq_size (vs_queues s qid) \<le> ucast value"
    and "quiet_ring qid s" "nvme_ctrl_sq_doorbell (of_nat qid) value (vs_nvme s) = Some v"
  shows "loops_forever qid ((upd_vq qid (\<lambda>q. q\<lparr>vq_sq_tail := ucast value\<rparr>) s)\<lparr>vs_nvme := v\<rparr>) \<and>
     handle_doorbell_write (qid * 8) value s = None"
proof -
  let ?s = "(upd_vq qid (\<lambda>q. q\<lparr>vq_sq_tail := ucast value\<rparr>) s)\<lparr>vs_nvme := v\<rparr>"
  have qid: "0 < qid" "qid < VFIO_MAX_QUEUES" "qid mod 65536 = qid"
    using assms(1) by (simp_all add: io_qid_def VFIO_MAX_QUEUES_def NVME_MAX_IO_QUEUES_def)
  have hva: "gpa_to_hva ?s = gpa_to_hva s" by (rule gpa_to_hva_cong) (simp add: upd_vq_def)
  have q: "vs_queues ?s qid = (vs_queues s qid)\<lparr>vq_sq_tail := ucast value\<rparr>" "vs_mem ?s = vs_mem s" by (simp_all add: upd_vq_def)
  have "quiet_ring qid ?s" using assms(7) unfolding quiet_ring_def hva q Let_def by (simp add: upd_vq_def)
  then have "endless qid ?s" using assms(3-6) qid(1) by (simp add: endless_def q upd_vq_def) (simp add: vq_ok_def)
  then have f: "loops_forever qid ?s" by (rule endless_loops)
  have "process_queue_commands qid ?s = None"
    using qid(2) assms(2,4,5) loops_forever_no_result [OF f] by (simp add: process_queue_commands_def upd_vq_def word_gt_0)
  with f show ?thesis using qid(2,3) assms(8) by (simp add: handle_doorbell_write_def upd_vq_def)
qed

section \<open>Offsets into the configuration space\<close>

text \<open>The check of a write to the configuration space adds offset and length in 32 bits: with an offset at the
  top of that range the sum wraps to a small number and the copy goes far behind the 256 bytes.\<close>

theorem vfio_config_write_wraps:
  assumes "0x100 \<le> unat offset" "2 ^ 32 \<le> unat offset + unat count" "unat offset + unat count \<le> 2 ^ 32 + VFIO_PCI_CONFIG_SIZE"
  shows "pci_config_write offset count p s = None"
proof -
  have sum: "unat (offset + count) = unat offset + unat count - 2 ^ 32"
    using assms(2) by (simp add: unat_plus_if')
  then have "\<not> VFIO_PCI_CONFIG_SIZE < unat (offset + count)" using assms(3) by simp
  moreover have "\<not> offset \<le> 0x42" "offset \<noteq> 0x10" "offset \<noteq> 0x14" using assms(1) by (auto simp: word_le_nat_alt)
  moreover have "unat offset < 2 ^ LENGTH(32)" by (rule unsigned_less)
  then have "unat count \<noteq> 0" using assms(2) by auto
  ultimately show ?thesis using assms(1) by (simp add: pci_config_write_def config_put_def Let_def VFIO_PCI_CONFIG_SIZE_def)
qed

section \<open>A write from the queue to the flash\<close>

definition guest_page :: "vfio_sys \<Rightarrow> u64 \<Rightarrow> u8 list option" where
  "guest_page s a = (case gpa_to_hva s a of None \<Rightarrow> None | Some h \<Rightarrow> read_guest h 0 VFIO_PAGE_SIZE s)"

text \<open>The pages at \<open>as\<close>, which the PRP entries of a transfer name, hold \<open>bs\<close>.\<close>

definition prp_pages :: "vfio_sys \<Rightarrow> u64 \<Rightarrow> u64 \<Rightarrow> u64 list \<Rightarrow> u8 list list \<Rightarrow> bool" where
  "prp_pages s prp1 prp2 as bs \<longleftrightarrow>
     length bs = length as \<and> as \<noteq> [] \<and> as ! 0 = prp1 \<and> (length as = 2 \<longrightarrow> as ! 1 = prp2) \<and>
     (2 < length as \<longrightarrow> (\<forall>i<length as - 1. prp_entry s prp2 i = Some (Some (as ! (i + 1))))) \<and>
     (\<forall>i<length as. as ! i AND 0xFFF = 0 \<and> guest_page s (as ! i) = Some (bs ! i))"

lemma prp_read_step:
  assumes "off < len" "gpa_to_hva s (cur AND NOT 0xFFF) = Some h"
    and "read_guest h (unat (cur AND 0xFFF)) (prp_chunk cur (len - off)) s = Some bs" "off' = off + prp_chunk cur (len - off)"
  shows "prp_read_loop s prp2 l len off cur pages m =
     (if len \<le> off' then Some (RET_OK, mem_write m off bs)
      else if l
      then (case prp_entry s prp2 pages of
              None \<Rightarrow> None
            | Some None \<Rightarrow> Some (RET_ERR_PARAM, mem_write m off bs)
            | Some (Some a) \<Rightarrow> prp_read_loop s prp2 l len off' a (pages + 1) (mem_write m off bs))
      else if pages = 0 then prp_read_loop s prp2 l len off' prp2 (pages + 1) (mem_write m off bs)
      else Some (RET_OK, mem_write m off bs))"
  unfolding assms(4) by (subst prp_read_loop.simps) (use assms(1-3) in \<open>simp add: Let_def\<close>)

lemma read_guest_length: "read_guest h off n s = Some bs \<Longrightarrow> length bs = n"
  by (cases h) (auto simp: read_guest_def split: if_splits)

lemmas page_of_write = page_of_mem_write [folded VFIO_PAGE_SIZE_def]

text \<open>One page of the transfer: it is the last one, or the loop goes on with the next.\<close>

lemma prp_read_page:
  assumes p: "prp_pages s prp1 prp2 as bs" and k: "k < length as"
  shows "prp_read_loop s prp2 (2 < length as) (length as * VFIO_PAGE_SIZE) (k * VFIO_PAGE_SIZE) (as ! k) k m =
     (let m1 = mem_write m (k * VFIO_PAGE_SIZE) (bs ! k) in
      if length as = Suc k then Some (RET_OK, m1)
      else prp_read_loop s prp2 (2 < length as) (length as * VFIO_PAGE_SIZE) (Suc k * VFIO_PAGE_SIZE) (as ! Suc k) (Suc k) m1)"
    and "length (bs ! k) = VFIO_PAGE_SIZE"
proof -
  let ?n = "length as" and ?o = "k * VFIO_PAGE_SIZE"
  have al: "as ! k AND 0xFFF = 0" "guest_page s (as ! k) = Some (bs ! k)" using p k by (simp_all add: prp_pages_def)
  from al(2) obtain h where h: "gpa_to_hva s (as ! k AND NOT 0xFFF) = Some h" "read_guest h 0 VFIO_PAGE_SIZE s = Some (bs ! k)"
    unfolding page_aligned [OF al(1)] by (auto simp: guest_page_def split: option.splits)
  from h(2) show "length (bs ! k) = VFIO_PAGE_SIZE"
    by (rule read_guest_length)
  have le: "Suc k * VFIO_PAGE_SIZE \<le> ?n * VFIO_PAGE_SIZE" using k by (intro mult_le_mono1) simp
  have off: "?o < ?n * VFIO_PAGE_SIZE" using k by (simp add: VFIO_PAGE_SIZE_def)
  have chunk: "prp_chunk (as ! k) (?n * VFIO_PAGE_SIZE - ?o) = VFIO_PAGE_SIZE" using al(1) le by (simp add: prp_chunk_def)
  have rd: "read_guest h (unat (as ! k AND 0xFFF)) (prp_chunk (as ! k) (?n * VFIO_PAGE_SIZE - ?o)) s = Some (bs ! k)"
    using h(2) al(1) by (simp only: chunk unat_0)
  note step = prp_read_step [OF off h(1) rd refl, of prp2 "2 < ?n" k m]
  have fin: "?n * VFIO_PAGE_SIZE \<le> ?o + VFIO_PAGE_SIZE \<longleftrightarrow> ?n = Suc k"
    using k by (auto simp: VFIO_PAGE_SIZE_def)
  show "prp_read_loop s prp2 (2 < ?n) (?n * VFIO_PAGE_SIZE) ?o (as ! k) k m =
     (let m1 = mem_write m ?o (bs ! k) in
      if ?n = Suc k then Some (RET_OK, m1)
      else prp_read_loop s prp2 (2 < ?n) (?n * VFIO_PAGE_SIZE) (Suc k * VFIO_PAGE_SIZE) (as ! Suc k) (Suc k) m1)"
  proof (cases "?n = Suc k")
    case True
    then show ?thesis using step chunk fin by (simp add: Let_def)
  next
    case False
    then have lt: "Suc k < ?n" using k by simp
    show ?thesis
    proof (cases "2 < ?n")
      case True
      then have "prp_entry s prp2 k = Some (Some (as ! Suc k))" using p lt by (auto simp: prp_pages_def)
      then show ?thesis using step chunk fin True False by (simp add: Let_def add.commute)
    next
      case no: False
      then have "?n = 2" "k = 0" using lt by simp_all
      then show ?thesis using step chunk fin p False by (simp add: Let_def prp_pages_def numeral_2_eq_2)
    qed
  qed
qed

lemma prp_read_pages:
  assumes p: "prp_pages s prp1 prp2 as bs" and k: "k < length as"
  shows "\<exists>m'. prp_read_loop s prp2 (2 < length as) (length as * VFIO_PAGE_SIZE) (k * VFIO_PAGE_SIZE) (as ! k) k m = Some (RET_OK, m') \<and>
     (\<forall>i<length as. mem_read m' (i * VFIO_PAGE_SIZE) VFIO_PAGE_SIZE =
        (if k \<le> i then bs ! i else mem_read m (i * VFIO_PAGE_SIZE) VFIO_PAGE_SIZE))"
  using k
proof (induction "length as - Suc k" arbitrary: k m)
  case 0
  then have "length as = Suc k" by simp
  then show ?case using prp_read_page(1) [OF p 0(2), of m] prp_read_page(2) [OF p 0(2)] by (auto simp: Let_def page_of_write less_Suc_eq)
next
  case (Suc d)
  then have lt: "Suc k < length as" "d = length as - Suc (Suc k)" "length as \<noteq> Suc k" by simp_all
  from Suc.hyps(1) [OF lt(2,1), of "mem_write m (k * VFIO_PAGE_SIZE) (bs ! k)"] show ?case
    using prp_read_page(1) [OF p Suc.prems, of m] prp_read_page(2) [OF p Suc.prems] lt(3) by (auto simp: Let_def page_of_write Suc_le_eq le_less)
qed

lemma prp_read_data_pages:
  assumes p: "prp_pages s prp1 prp2 as bs"
  obtains m' where "prp_read_data prp1 prp2 (length as * VFIO_PAGE_SIZE) m s = Some (RET_OK, m')"
    "\<And>i. i < length as \<Longrightarrow> mem_read m' (i * VFIO_PAGE_SIZE) VFIO_PAGE_SIZE = bs ! i"
proof -
  have a: "0 < length as" "as ! 0 = prp1" "prp1 AND 0xFFF = 0" using p by (auto simp: prp_pages_def)
  then have l: "prp2_is_list prp1 (length as * VFIO_PAGE_SIZE) \<longleftrightarrow> 2 < length as" by (simp add: prp2_is_list_def VFIO_PAGE_SIZE_def)
  from prp_read_pages [OF p a(1), of m] that show thesis by (auto simp: prp_read_data_def l a(2))
qed

lemma vfio_write_loop:
  assumes "write_all ftl_wr (nv_ftl (vs_nvme s)) (map (\<lambda>i. (nvme_lpn cmd i, page i)) is) = Some f"
  shows "for_each is (vfio_write_body cmd page) s = Some (Next (vfio_ftl f s))"
  using assms
proof (induction "is" arbitrary: s)
  case (Cons i "is")
  from Cons.prems obtain f1 where f1: "ftl_wr (nv_ftl (vs_nvme s)) (nvme_lpn cmd i) (page i) = Some f1"
    "write_all ftl_wr f1 (map (\<lambda>i. (nvme_lpn cmd i, page i)) is) = Some f"
    by (auto split: bind_splits)
  from f1(1) have "ftl_write (nv_ftl (vs_nvme s)) (nvme_lpn cmd i) (Some (page i)) = Some (RET_OK, f1)"
    by (auto simp: ftl_wr_def split: if_splits option.splits)
  then have "vfio_write_body cmd page i s = Some (Next (vfio_ftl f1 s))" by (simp add: vfio_write_body_def)
  with Cons.IH [of "vfio_ftl f1 s"] f1(2) show ?case by simp
qed simp

lemma nvme_lpn_small: "unat (nvme_slba cmd) + n \<le> FTL_TOTAL_LPNS \<Longrightarrow> i < n \<Longrightarrow> nvme_lpn cmd i = unat (nvme_slba cmd) + i"
  unfolding nvme_lpn_def by (rule block_number_small) (simp add: ftl_bounds)

lemma vfio_io_write_stores:
  assumes p: "prp_pages s (nc_prp1 cmd) (nc_prp2 cmd) as bs" and n: "nvme_nlb cmd = length as"
    "length as * VFIO_PAGE_SIZE \<le> VFIO_USER_NVME_MAX_IO_SIZE" "unat (nvme_slba cmd) + length as \<le> FTL_TOTAL_LPNS"
    and w: "write_all ftl_wr (nv_ftl (vs_nvme s)) (map (\<lambda>i. (unat (nvme_slba cmd) + i, bs ! i)) [0..<length as]) = Some f"
  obtains m where "vfio_io_write cmd cpl s = Some (cpl\<lparr>cp_status := NVME_SC_SUCCESS\<rparr>, vfio_ftl f (s\<lparr>vs_io_write_buf := m\<rparr>))"
proof -
  obtain m where m: "prp_read_data (nc_prp1 cmd) (nc_prp2 cmd) (length as * VFIO_PAGE_SIZE) (vs_io_write_buf s) s = Some (RET_OK, m)"
    "\<And>i. i < length as \<Longrightarrow> mem_read m (i * VFIO_PAGE_SIZE) VFIO_PAGE_SIZE = bs ! i"
    using prp_read_data_pages [OF p, of "vs_io_write_buf s"] by metis
  let ?page = "\<lambda>i. mem_read m (i * VFIO_PAGE_SIZE) VFIO_PAGE_SIZE"
  have eq: "map (\<lambda>i. (nvme_lpn cmd i, ?page i)) [0..<length as] = map (\<lambda>i. (unat (nvme_slba cmd) + i, bs ! i)) [0..<length as]"
    using n(3) m(2) by (simp add: nvme_lpn_small)
  have "for_each [0..<length as] (vfio_write_body cmd ?page) (s\<lparr>vs_io_write_buf := m\<rparr>) = Some (Next (vfio_ftl f (s\<lparr>vs_io_write_buf := m\<rparr>)))"
    by (rule vfio_write_loop, unfold eq) (use w in simp)
  then have "vfio_io_write cmd cpl s = Some (cpl\<lparr>cp_status := NVME_SC_SUCCESS\<rparr>, vfio_ftl f (s\<lparr>vs_io_write_buf := m\<rparr>))"
    using m(1) n(1,2) by (simp add: vfio_io_write_def Let_def vfio_write_pages_def)
  then show thesis by (rule that)
qed

end
