(* ===== verification/VfioData.thy ===== *)
theory VfioData
  imports VfioFlow
begin

text \<open>
  The vfio-user device from the doorbell to the flash: a write command in a submission queue of the guest, and what holds
  of the device in every history.
\<close>

section \<open>A write command\<close>

text \<open>One command of a queue whose completion can be delivered.\<close>

lemma queue_loop_step:
  assumes "vs_queues s qid = q" "vq_sq_head q \<noteq> vq_sq_tail q" "gpa_to_hva s (sq_slot q) = Some h" "read_guest h 0 64 s = Some b"
    and "process_nvme_command qid (command_at ((!) b) 0) s = Some (cpl, s1)" "vs_queues s1 qid = q"
    and "gpa_to_hva s1 (cq_slot q) = Some hc" "write_guest hc 0 (completion_bytes (vq_completion q cpl)) s1 = Some s2"
  shows "queue_loop qid w s = queue_loop qid True (upd_vq qid vq_advance s2)"
  by (subst queue_loop.simps) (use assms in \<open>simp add: queue_round_def\<close>)

lemma queue_loop_idle: "vq_sq_head (vs_queues s qid) = vq_sq_tail (vs_queues s qid) \<Longrightarrow> queue_loop qid w s = Some (w, s)"
  by (subst queue_loop.simps) (simp add: queue_round_def)

text \<open>The command that waits at the head of the queue.\<close>

lemma queued_write_stores:
  assumes "io_qid qid" "vs_queues s qid = q" "vq_valid q" "0 < vq_sq_size q" "0 < vq_cq_size q"
    and "vq_sq_head q \<noteq> vq_sq_tail q" "next_index (vq_sq_head q) (vq_sq_size q) = vq_sq_tail q"
    and "gpa_to_hva s (sq_slot q) = Some h" "read_guest h 0 64 s = Some b" "command_at ((!) b) 0 = cmd" "nc_opcode cmd = NVME_IO_WRITE"
    and "prp_pages s (nc_prp1 cmd) (nc_prp2 cmd) as bs" "nvme_nlb cmd = length as"
    and "length as * VFIO_PAGE_SIZE \<le> VFIO_USER_NVME_MAX_IO_SIZE" "unat (nvme_slba cmd) + length as \<le> FTL_TOTAL_LPNS"
    and "gpa_to_hva s (cq_slot q) = Some (ob, pos, room)" "16 \<le> room" "ftl_ready (nv_ftl (vs_nvme s))"
    and "write_all ftl_wr (nv_ftl (vs_nvme s)) (map (\<lambda>i. (unat (nvme_slba cmd) + i, bs ! i)) [0..<length as]) = Some f"
  shows "\<exists>s'. process_queue_commands qid s = Some s' \<and> nv_ftl (vs_nvme s') = f \<and>
     (\<forall>i<length as. logical f (unat (nvme_slba cmd) + i) = Some (bs ! i)) \<and>
     mem_read (vs_mem s' ob) pos 16 =
       completion_bytes (vq_completion q (blank_completion\<lparr>cp_cid := nc_cid cmd, cp_status := NVME_SC_SUCCESS\<rparr>)) \<and>
     vs_queues s' qid = vq_advance q \<and>
     vs_irqs s' = vs_irqs s @ (if vs_msix_enabled s \<and> 0 \<le> vs_msix_evtfd s then [vs_msix_evtfd s] else [])"
proof -
  let ?cpl = "blank_completion\<lparr>cp_cid := nc_cid cmd, cp_status := NVME_SC_SUCCESS\<rparr>"
  let ?bytes = "completion_bytes (vq_completion q ?cpl)"
  obtain m where "vfio_io_write cmd (blank_completion\<lparr>cp_cid := nc_cid cmd\<rparr>) s =
      Some ((blank_completion\<lparr>cp_cid := nc_cid cmd\<rparr>)\<lparr>cp_status := NVME_SC_SUCCESS\<rparr>, vfio_ftl f (s\<lparr>vs_io_write_buf := m\<rparr>))"
    using vfio_io_write_stores [OF assms(12-15,19)] by blast
  then have run: "process_nvme_command qid (command_at ((!) b) 0) s = Some (?cpl, vfio_ftl f (s\<lparr>vs_io_write_buf := m\<rparr>))"
    using assms(1,10,11) by (simp add: process_nvme_command_def io_qid_def vfio_io_command_def)
  let ?s1 = "vfio_ftl f (s\<lparr>vs_io_write_buf := m\<rparr>)"
  let ?s2 = "?s1\<lparr>vs_mem := (vs_mem s)(ob := mem_write (vs_mem s ob) pos ?bytes)\<rparr>"
  have hc: "gpa_to_hva ?s1 (cq_slot q) = Some (ob, pos, room)" using gpa_to_hva_cong [of ?s1 s] assms(16) by simp
  have put: "write_guest (ob, pos, room) 0 ?bytes ?s1 = Some ?s2" using assms(17) by (simp add: write_guest_def)
  have "queue_loop qid False s = queue_loop qid True (upd_vq qid vq_advance ?s2)"
    by (rule queue_loop_step [OF assms(2,6,8,9) run _ hc put]) (use assms(2) in simp)
  also have "\<dots> = Some (True, upd_vq qid vq_advance ?s2)"
    by (rule queue_loop_idle) (use assms(2,7) in \<open>simp add: upd_vq_def vq_advance_def\<close>)
  finally have "process_queue_commands qid s = Some (trigger_msix_interrupt (upd_vq qid vq_advance ?s2))"
    using assms(1-5) by (simp add: process_queue_commands_def io_qid_def word_gt_0)
  moreover have "mem_read (mem_write (vs_mem s ob) pos ?bytes) pos 16 = ?bytes" by (rule mem_read_write_same) simp
  ultimately show ?thesis
    using range_written [OF assms(18,19)] assms(2) by (simp add: trigger_msix_interrupt_def upd_vq_def)
qed

text \<open>The doorbell changes the tail of the queue and the controller, not the FTL in it and not the guest's memory.\<close>

lemma sq_doorbell_ftl: "nvme_ctrl_sq_doorbell qid value s = Some v \<Longrightarrow> nv_ftl v = nv_ftl s"
  by (auto simp: nvme_ctrl_sq_doorbell_def Let_def split: if_splits)

lemma prp_pages_cong:
  assumes "vs_regions s' = vs_regions s" "vs_mem s' = vs_mem s"
  shows "prp_pages s' prp1 prp2 as bs = prp_pages s prp1 prp2 as bs"
proof -
  have r: "read_guest h off n s' = read_guest h off n s" for h off n by (cases h) (simp add: read_guest_def assms)
  have "guest_page s' = guest_page s"
    by (simp add: guest_page_def fun_eq_iff gpa_to_hva_cong [OF assms(1)] r split: option.splits)
  moreover have "prp_entry s' = prp_entry s"
    by (simp add: prp_entry_def fun_eq_iff gpa_to_hva_cong [OF assms(1)] r split: option.splits)
  ultimately show ?thesis by (simp add: prp_pages_def)
qed

text \<open>C32: a guest has put a write command into an I/O queue and rings the doorbell of the queue with the entry behind it
  as the new tail: the call returns, has taken the command's pages along the PRP entries and stored them in the FTL,
  which then holds them block by block, has put one successful completion, with the command's number and the phase
  of the ring, at the tail of the completion queue and moved the indices of both rings; an interrupt follows
  when the guest has enabled MSI-X and given an eventfd.\<close>

theorem vfio_write_stores:
  assumes "io_qid qid" "vs_queues s qid = q" "vq_valid q" "0 < vq_sq_size q" "0 < vq_cq_size q"
    and "vq_sq_head q \<noteq> ucast value" "next_index (vq_sq_head q) (vq_sq_size q) = ucast value"
    and "nvme_ctrl_sq_doorbell (of_nat qid) value (vs_nvme s) = Some v"
    and "gpa_to_hva s (sq_slot q) = Some h" "read_guest h 0 64 s = Some b" "command_at ((!) b) 0 = cmd" "nc_opcode cmd = NVME_IO_WRITE"
    and "prp_pages s (nc_prp1 cmd) (nc_prp2 cmd) as bs" "nvme_nlb cmd = length as"
    and "length as * VFIO_PAGE_SIZE \<le> VFIO_USER_NVME_MAX_IO_SIZE" "unat (nvme_slba cmd) + length as \<le> FTL_TOTAL_LPNS"
    and "gpa_to_hva s (cq_slot q) = Some (ob, pos, room)" "16 \<le> room" "ftl_ready (nv_ftl (vs_nvme s))"
    and "write_all ftl_wr (nv_ftl (vs_nvme s)) (map (\<lambda>i. (unat (nvme_slba cmd) + i, bs ! i)) [0..<length as]) = Some f"
  shows "\<exists>s'. handle_doorbell_write (qid * 8) value s = Some s' \<and> nv_ftl (vs_nvme s') = f \<and>
     (\<forall>i<length as. logical f (unat (nvme_slba cmd) + i) = Some (bs ! i)) \<and>
     mem_read (vs_mem s' ob) pos 16 =
       completion_bytes (vq_completion q (blank_completion\<lparr>cp_cid := nc_cid cmd, cp_status := NVME_SC_SUCCESS\<rparr>)) \<and>
     vs_queues s' qid = vq_advance (q\<lparr>vq_sq_tail := ucast value\<rparr>) \<and>
     vs_irqs s' = vs_irqs s @ (if vs_msix_enabled s \<and> 0 \<le> vs_msix_evtfd s then [vs_msix_evtfd s] else [])"
proof -
  define s1 where "s1 = (upd_vq qid (\<lambda>q. q\<lparr>vq_sq_tail := ucast value\<rparr>) s)\<lparr>vs_nvme := v\<rparr>"
  define q1 where "q1 = q\<lparr>vq_sq_tail := ucast value\<rparr>"
  have f: "vs_queues s1 qid = q1" "vs_regions s1 = vs_regions s" "vs_mem s1 = vs_mem s" "vs_nvme s1 = v" "vs_irqs s1 = vs_irqs s"
    "vs_msix_enabled s1 = vs_msix_enabled s" "vs_msix_evtfd s1 = vs_msix_evtfd s"
    using assms(2) by (simp_all add: s1_def q1_def upd_vq_def)
  have q: "vq_valid q1" "0 < vq_sq_size q1" "0 < vq_cq_size q1" "vq_sq_head q1 \<noteq> vq_sq_tail q1"
    "next_index (vq_sq_head q1) (vq_sq_size q1) = vq_sq_tail q1" "sq_slot q1 = sq_slot q" "cq_slot q1 = cq_slot q"
    "vq_completion q1 = vq_completion q"
    using assms(3-7) by (simp_all add: q1_def sq_slot_def cq_slot_def vq_completion_def fun_eq_iff)
  have g: "gpa_to_hva s1 (sq_slot q1) = Some h" "gpa_to_hva s1 (cq_slot q1) = Some (ob, pos, room)"
    using assms(9,17) by (simp_all add: gpa_to_hva_cong [OF f(2)] q(6,7))
  have r: "read_guest h 0 64 s1 = Some b" using assms(10) unfolding read_guest_def f(3) .
  have p: "prp_pages s1 (nc_prp1 cmd) (nc_prp2 cmd) as bs" using assms(13) by (simp add: prp_pages_cong [OF f(2,3)])
  have n: "ftl_ready (nv_ftl (vs_nvme s1))"
    "write_all ftl_wr (nv_ftl (vs_nvme s1)) (map (\<lambda>i. (unat (nvme_slba cmd) + i, bs ! i)) [0..<length as]) = Some f"
    using assms(19,20) sq_doorbell_ftl [OF assms(8)] by (simp_all add: f(4))
  have bell: "handle_doorbell_write (qid * 8) value s = process_queue_commands qid s1"
    using assms(1,8) by (simp add: handle_doorbell_write_def io_qid_def VFIO_MAX_QUEUES_def NVME_MAX_IO_QUEUES_def upd_vq_def s1_def)
  show ?thesis
    using queued_write_stores [OF assms(1) f(1) q(1-5) g(1) r assms(11,12) p assms(14-16) g(2) assms(18) n]
    unfolding bell f(5-7) q(8) unfolding q1_def .
qed

section \<open>A guest\<close>

text \<open>One region of guest memory at \<open>0x10000\<close>: a submission queue with one write command, a completion queue at
  \<open>0x11000\<close> and a page of data at \<open>0x12000\<close>.\<close>

definition guest_memory :: "nat \<Rightarrow> u8" where
  "guest_memory j =
     (if j = 0 then 1 else if j = 2 then 9 else if j = 25 then 0x20 else if j = 26 then 1 else if 0x2000 \<le> j then 7 else 0)"

definition guest_queue :: vfio_queue where
  "guest_queue = \<lparr>vq_sq_base = 0x10000, vq_cq_base = 0x11000, vq_sq_size = 2, vq_cq_size = 2, vq_sq_head = 0, vq_sq_tail = 0,
     vq_cq_head = 0, vq_cq_tail = 0, vq_cq_phase = True, vq_valid = True\<rparr>"

definition vfio_demo :: vfio_sys where
  "vfio_demo = \<lparr>vs_socket_fd = 5, vs_conn_fd = 6, vs_running = True, vs_connected = True,
     vs_regions = [\<lparr>dr_iova = 0x10000, dr_size = 0x10000, dr_offset = 0, dr_object = 0, dr_base = 0, dr_fd = 8\<rparr>],
     vs_msix_evtfd = 7, vs_msix_enabled = True, vs_msix_table = replicate 16 0, vs_msix_pba = replicate 8 0,
     vs_pci_config = pci_config_image, vs_nvme_regs = replicate VFIO_BAR0_NVME_REGS_SIZE 0,
     vs_config = \<lparr>vg_socket_path = VFIO_USER_NVME_DEFAULT_SOCKET, vg_max_queues = 2\<rparr>, vs_req_id = 0, vs_command = 0,
     vs_no_reply = False, vs_queues = (\<lambda>_. zero_vq)(1 := guest_queue), vs_io_read_buf = \<lambda>_. 0, vs_io_write_buf = \<lambda>_. 0,
     vs_mem = (\<lambda>_. guest_memory), vs_nvme = nvme_busy blank_command blank_command, vs_sent = [], vs_closed = [], vs_irqs = [],
     vs_recv = \<lambda>_. No_data, vs_recv_count = 0\<rparr>"

lemma vfio_demo_hva:
  assumes "0x10000 \<le> a" "a < 0x20000"
  shows "gpa_to_hva vfio_demo a = Some (0, unat a - 0x10000, 0x20000 - unat a)"
proof -
  have "\<not> 0xFFFFFFFF < a" "a \<noteq> 0" "a \<noteq> 0xCCCCCCCCCCCCCCCC" using assms by (auto simp: word_less_nat_alt word_le_nat_alt)
  moreover have "unat (a - 0x10000) = unat a - 0x10000" using assms by (simp add: unat_sub word_le_nat_alt)
  ultimately show ?thesis using assms by (simp add: gpa_to_hva_def vfio_demo_def region_has_def region_hva_def Let_def word_le_nat_alt)
qed

definition guest_command :: nvme_command where
  "guest_command = blank_command\<lparr>nc_opcode := NVME_IO_WRITE, nc_cid := 9, nc_prp1 := 0x12000\<rparr>"

lemma guest_command_at: "command_at ((!) (mem_read guest_memory 0 64)) 0 = guest_command"
proof -
  let ?m = "(!) (mem_read guest_memory 0 64)"
  have at: "?m i = guest_memory i" if "i < 64" for i using that by simp
  have "word_at ?m k n = 0" if "27 \<le> k" "k + n \<le> 64" for k n
    unfolding word_at_def by (rule sum.neutral) (use that in \<open>simp add: at guest_memory_def\<close>)
  moreover have "word_at ?m 2 2 = 9" "word_at ?m 4 4 = 0" "word_at ?m 16 8 = 0" "word_at ?m 24 8 = 0x12000"
    by (rule word_at_bytes; simp add: at guest_memory_def word_bytes_def nth_Cons' upt_rec)+
  ultimately show ?thesis
    by (simp add: command_at_def guest_command_def blank_command_def at del: add_2_eq_Suc') (simp add: guest_memory_def)
qed

lemma vfio_demo_fields:
  "vs_queues vfio_demo 1 = guest_queue" "vs_mem vfio_demo 0 = guest_memory" "nv_ftl (vs_nvme vfio_demo) = example_ftl"
  "vs_msix_enabled vfio_demo" "vs_msix_evtfd vfio_demo = 7" "vs_irqs vfio_demo = []" "\<forall>i. vq_ok (vs_queues vfio_demo i)"
  by (simp_all add: vfio_demo_def nvme_busy_facts vq_ok_def guest_queue_def zero_vq_def)

lemma vfio_write_stores_witness:
  "\<exists>s'. handle_doorbell_write (1 * 8) 1 vfio_demo = Some s' \<and> logical (nv_ftl (vs_nvme s')) 0 = Some (replicate 4096 7) \<and>
     mem_read (vs_mem s' 0) 0x1000 16 = [0, 0, 0, 0, 0, 0, 0, 0, 1, 0, 0, 0, 9, 0, 1, 0] \<and> vs_irqs s' = [7]"
proof -
  let ?bs = "[replicate 4096 7 :: u8 list]"
  have c: "nc_opcode guest_command = NVME_IO_WRITE" "nvme_nlb guest_command = length [0x12000 :: u64]" "nvme_slba guest_command = 0"
    "nc_prp1 guest_command = 0x12000" "nc_prp2 guest_command = 0" "nc_cid guest_command = 9"
    by (simp_all add: guest_command_def blank_command_def nvme_nlb_def nvme_slba_def)
  have q: "io_qid 1" "vq_valid guest_queue" "0 < vq_sq_size guest_queue" "0 < vq_cq_size guest_queue"
    "vq_sq_head guest_queue \<noteq> ucast (1 :: u32)"
    "next_index (vq_sq_head guest_queue) (vq_sq_size guest_queue) = ucast (1 :: u32)"
    by (simp_all add: io_qid_def VFIO_MAX_QUEUES_def NVME_MAX_IO_QUEUES_def guest_queue_def next_index_def word_le_nat_alt)
  have h: "gpa_to_hva vfio_demo (sq_slot guest_queue) = Some (0, 0, 0x10000)"
    "gpa_to_hva vfio_demo (cq_slot guest_queue) = Some (0, 0x1000, 0xF000)"
    "gpa_to_hva vfio_demo 0x12000 = Some (0, 0x2000, 0xE000)"
    by (simp_all add: sq_slot_def cq_slot_def guest_queue_def vfio_demo_hva)
  have r: "read_guest (0, 0, 0x10000) 0 64 vfio_demo = Some (mem_read guest_memory 0 64)"
    by (simp add: read_guest_def vfio_demo_fields)
  have "mem_read guest_memory 0x2000 4096 = replicate 4096 7"
    by (rule mem_read_cong) (simp_all add: guest_memory_def)
  then have "guest_page vfio_demo 0x12000 = Some (replicate 4096 7)"
    by (simp add: guest_page_def h read_guest_def vfio_demo_fields VFIO_PAGE_SIZE_def)
  then have p: "prp_pages vfio_demo (nc_prp1 guest_command) (nc_prp2 guest_command) [0x12000] ?bs" by (simp add: prp_pages_def c)
  have lim: "length [0x12000 :: u64] * VFIO_PAGE_SIZE \<le> VFIO_USER_NVME_MAX_IO_SIZE"
    "unat (nvme_slba guest_command) + length [0x12000 :: u64] \<le> FTL_TOTAL_LPNS" "(16 :: nat) \<le> 0xF000"
    by (simp_all add: VFIO_PAGE_SIZE_def VFIO_USER_NVME_MAX_IO_SIZE_def c ftl_bounds)
  have "0 < FTL_TOTAL_LPNS" "length (?bs ! 0) = NAND_PAGE_SIZE" by (simp_all add: ftl_bounds NAND_PAGE_SIZE_def)
  then obtain f where "ftl_wr example_ftl 0 (?bs ! 0) = Some f" by (rule example_ftl_write)
  then have w: "write_all ftl_wr (nv_ftl (vs_nvme vfio_demo))
      (map (\<lambda>i. (unat (nvme_slba guest_command) + i, ?bs ! i)) [0..<length [0x12000 :: u64]]) = Some f"
    by (simp add: vfio_demo_fields c)
  have bytes: "completion_bytes (vq_completion guest_queue (blank_completion\<lparr>cp_cid := 9, cp_status := NVME_SC_SUCCESS\<rparr>)) =
      [0, 0, 0, 0, 0, 0, 0, 0, 1, 0, 0, 0, 9, 0, 1, 0]"
    by (simp add: completion_bytes_def vq_completion_def guest_queue_def blank_completion_def NVME_SC_SUCCESS_def word_bytes_def upt_rec)
  obtain v where d: "nvme_ctrl_sq_doorbell (of_nat 1) 1 (vs_nvme vfio_demo) = Some v"
    by (simp add: nvme_ctrl_sq_doorbell_def vfio_demo_def nvme_busy_def Let_def)
  from vfio_write_stores [OF q(1) vfio_demo_fields(1) q(2-6) d h(1) r guest_command_at c(1) p c(2) lim(1,2) h(2) lim(3) _ w]
  show ?thesis by (auto simp: vfio_demo_fields example_ftl_facts c bytes)
qed

text \<open>The same guest with zeroes in its memory, which are Flush commands, and a tail one too large.\<close>

lemma vfio_tail_beyond_ring_hangs_witness:
  "\<exists>v. nvme_ctrl_sq_doorbell 1 2 (vs_nvme vfio_demo) = Some v \<and>
     loops_forever 1 ((upd_vq 1 (\<lambda>q. q\<lparr>vq_sq_tail := 2\<rparr>) (vfio_demo\<lparr>vs_mem := \<lambda>_ _. 0\<rparr>))\<lparr>vs_nvme := v\<rparr>) \<and>
     handle_doorbell_write (1 * 8) 2 (vfio_demo\<lparr>vs_mem := \<lambda>_ _. 0\<rparr>) = None"
proof -
  let ?s = "vfio_demo\<lparr>vs_mem := \<lambda>_ _. 0\<rparr>"
  have two: "i = 0 \<or> i = 1" if "i < 2" for i :: u16
    using that by (auto simp: word_less_nat_alt word_unat_eq_iff less_2_cases_iff)
  have q: "vs_queues ?s 1 = guest_queue" by (simp add: vfio_demo_fields del: One_nat_def)
  have hva: "gpa_to_hva ?s = gpa_to_hva vfio_demo" by (rule gpa_to_hva_cong) simp
  have cmd: "nc_opcode (command_at ((!) (mem_read (\<lambda>_. 0) p 64)) 0) \<notin> data_commands" for p
    by (simp add: command_at_def data_commands_def)
  have "quiet_ring 1 ?s"
    unfolding quiet_ring_def Let_def q hva
  proof (intro allI impI)
    fix i j
    assume "i < vq_sq_size guest_queue" "j < vq_cq_size guest_queue"
    then have i: "unat i < 2" and j: "unat j < 2" by (auto simp: guest_queue_def word_less_nat_alt)
    define a c :: u64 where "a = 0x10000 + ucast i * 64" and "c = 0x11000 + ucast j * 16"
    have u: "unat a = 0x10000 + unat i * 64" "unat c = 0x11000 + unat j * 16"
      using i j two [of i] two [of j] by (auto simp: a_def c_def word_less_nat_alt simp del: One_nat_def)
    have "gpa_to_hva vfio_demo a = Some (0, unat i * 64, 0x10000 - unat i * 64)"
      "gpa_to_hva vfio_demo c = Some (0, 0x1000 + unat j * 16, 0xF000 - unat j * 16)"
      using i j by (subst vfio_demo_hva; simp add: word_le_nat_alt word_less_nat_alt u)+
    moreover have "64 \<le> 65536 - unat i * 64" "16 \<le> 61440 - unat j * 16" using i j by linarith+
    ultimately show "\<exists>ob pos room ob' pos' room'.
        gpa_to_hva vfio_demo (vq_sq_base guest_queue + ucast i * 64) = Some (ob, pos, room) \<and> 64 \<le> room \<and>
        nc_opcode (command_at ((!) (mem_read (vs_mem ?s ob) pos 64)) 0) \<notin> data_commands \<and>
        gpa_to_hva vfio_demo (vq_cq_base guest_queue + ucast j * 16) = Some (ob', pos', room') \<and> 16 \<le> room' \<and>
        (ob' = ob \<longrightarrow> pos' + 16 \<le> pos \<or> pos + 64 \<le> pos')"
      using i j cmd by (simp add: guest_queue_def a_def c_def)
  qed
  moreover obtain v where d: "nvme_ctrl_sq_doorbell (of_nat 1) 2 (vs_nvme ?s) = Some v"
    by (simp add: nvme_ctrl_sq_doorbell_def vfio_demo_def nvme_busy_def Let_def)
  moreover have "io_qid 1" "vq_valid (vs_queues ?s 1)" "vq_ok (vs_queues ?s 1)" "0 < vq_sq_size (vs_queues ?s 1)"
    "0 < vq_cq_size (vs_queues ?s 1)" "vq_sq_size (vs_queues ?s 1) \<le> ucast (2 :: u32)"
    unfolding q by (simp_all add: io_qid_def VFIO_MAX_QUEUES_def NVME_MAX_IO_QUEUES_def guest_queue_def vq_ok_def)
  ultimately show ?thesis using vfio_tail_beyond_ring_hangs [of 1 ?s 2 v] by (intro exI [of _ v]) (simp del: One_nat_def)
qed

lemma vfio_config_write_wraps_witness: "pci_config_write 0xFFFFFFFF 2 (\<lambda>_. 0) vfio_demo = None"
  by (rule vfio_config_write_wraps) (simp_all add: VFIO_PCI_CONFIG_SIZE_def)

section \<open>Every history\<close>

text \<open>What the handlers of messages rely on and keep; and what they leave alone.\<close>

definition vfio_core :: "vfio_sys \<Rightarrow> bool" where
  "vfio_core s \<longleftrightarrow>
     length (vs_regions s) \<le> VFIO_USER_MAX_DMA_REGIONS \<and> length (vs_pci_config s) = VFIO_PCI_CONFIG_SIZE \<and>
     length (vs_nvme_regs s) = VFIO_BAR0_NVME_REGS_SIZE \<and> length (vs_msix_table s) = 16 \<and> length (vs_msix_pba s) = 8 \<and>
     (\<forall>i. vq_ok (vs_queues s i))"

definition vfio_serves :: "vfio_sys \<Rightarrow> vfio_sys \<Rightarrow> bool" where
  "vfio_serves s s' \<longleftrightarrow>
     (vfio_core s \<longrightarrow> vfio_core s' \<and> vs_connected s' = vs_connected s \<and> vs_conn_fd s' = vs_conn_fd s \<and>
        vs_socket_fd s' = vs_socket_fd s \<and> vs_running s' = vs_running s)"

lemma vfio_serves_refl [simp]: "vfio_serves s s"
  by (simp add: vfio_serves_def)

lemma vfio_serves_trans: "vfio_serves s s1 \<Longrightarrow> vfio_serves s1 s2 \<Longrightarrow> vfio_serves s s2"
  by (simp add: vfio_serves_def)

lemma length_put_all:
  "\<forall>(off, bs)\<in>set xs. off + length bs \<le> length l \<Longrightarrow> length (fold (\<lambda>(off, bs). put_at off bs) xs l) = length l"
  by (induction xs arbitrary: l) (auto simp: length_put_at)

lemma length_pci_config_image [simp]: "length pci_config_image = VFIO_PCI_CONFIG_SIZE"
  unfolding pci_config_image_def
  by (subst length_put_all) (simp_all only: length_replicate, simp add: VFIO_PCI_CONFIG_SIZE_def)

lemma same_serves:
  assumes "(\<forall>i. vq_ok (vs_queues s i)) \<longrightarrow> vfio_same s s' \<and> (\<forall>i. vq_ok (vs_queues s' i))"
  shows "vfio_serves s s'"
  using assms vfio_same_fields [of s s'] by (auto simp: vfio_serves_def vfio_core_def)

lemma queue_loop_serves:
  assumes "queue_loop q w s = Some r"
  shows "(\<forall>i. vq_ok (vs_queues s i)) \<longrightarrow> vfio_same s (snd r) \<and> (\<forall>i. vq_ok (vs_queues (snd r) i))"
proof (rule queue_loop.raw_induct
    [where P = "\<lambda>q w s r. (\<forall>i. vq_ok (vs_queues s i)) \<longrightarrow> vfio_same s (snd r) \<and> (\<forall>i. vq_ok (vs_queues (snd r) i))", OF _ assms],
    intro impI, goal_cases)
  case (1 loop q w s r)
  from 1(2) obtain n where n: "queue_round q w s = Some n" by (auto split: option.splits)
  note same = queue_round_same [OF n 1(3)]
  show ?case
  proof (cases n)
    case (Queue_done x s1)
    then show ?thesis using 1(2) n same by auto
  next
    case (Queue_again s1)
    then have "loop q True s1 = Some r" using 1(2) n by simp
    from 1(1) [OF this] same Queue_again show ?thesis by (auto intro: vfio_same_trans)
  qed
qed

lemma process_queue_serves:
  assumes "process_queue_commands q s = Some s'"
  shows "vfio_serves s s'"
proof (cases "s' = s")
  case False
  with assms obtain wrote s1 where s1: "queue_loop q False s = Some (wrote, s1)" "s' = (if wrote then trigger_msix_interrupt s1 else s1)"
    by (auto simp: process_queue_commands_def Let_def split: if_splits bind_splits)
  have "vfio_serves s s1" using same_serves [OF queue_loop_serves [OF s1(1)]] by simp
  moreover have "vfio_serves s1 s'" by (simp add: s1(2) trigger_msix_interrupt_def vfio_serves_def vfio_core_def)
  ultimately show ?thesis by (rule vfio_serves_trans)
qed simp

lemma put_at_serves [simp]:
  "off + length bs \<le> VFIO_BAR0_NVME_REGS_SIZE \<Longrightarrow> vfio_serves s (s\<lparr>vs_nvme_regs := put_at off bs (vs_nvme_regs s)\<rparr>)"
  "off + length bs \<le> VFIO_PCI_CONFIG_SIZE \<Longrightarrow> vfio_serves s (s\<lparr>vs_pci_config := put_at off bs (vs_pci_config s)\<rparr>)"
  "off + length bs \<le> length (vs_msix_table s) \<Longrightarrow> vfio_serves s (s\<lparr>vs_msix_table := put_at off bs (vs_msix_table s)\<rparr>)"
  by (simp_all add: vfio_serves_def vfio_core_def length_put_at)

lemma upd_vq_serves: "(\<And>q. vq_ok q \<Longrightarrow> vq_ok (f q)) \<Longrightarrow> vfio_serves s (upd_vq i f s)"
  by (rule same_serves) (simp add: upd_vq_def vfio_same_def)

lemma field_serves [simp]:
  "vfio_serves s (s\<lparr>vs_nvme := v\<rparr>)" "vfio_serves s (upd_vregs g s)" "vfio_serves s (s\<lparr>vs_sent := x\<rparr>)" "vfio_serves s (close_fd fd s)"
  "vfio_serves s (s\<lparr>vs_msix_evtfd := e\<rparr>)" "vfio_serves s (s\<lparr>vs_msix_enabled := b\<rparr>)" "vfio_serves s (s\<lparr>vs_mem := m\<rparr>)"
  "vfio_serves s (s\<lparr>vs_req_id := rid, vs_command := c, vs_no_reply := n\<rparr>)" "vfio_serves s (s\<lparr>vs_recv_count := k\<rparr>)"
  by (simp_all add: vfio_serves_def vfio_core_def upd_vregs_def close_fd_def)

lemma init_serves [simp]:
  "vfio_serves s (init_pci_config s)" "vfio_serves s (init_nvme_regs s)" "vfio_serves s (reset_queue_state s)"
  by (simp_all add: vfio_serves_def vfio_core_def init_pci_config_def init_nvme_regs_def reset_queue_state_def length_put_at
      VFIO_BAR0_NVME_REGS_SIZE_def vq_ok_def zero_vq_def)

lemma send_serves [simp]: "vfio_serves s (vfu_send_reply p s)" "vfio_serves s (vfu_send_error e s)"
  by (simp_all add: vfu_send_reply_def vfu_send_error_def vfu_send_msg_def)

lemma admin_queue_serves [simp]: "vfio_serves s (update_admin_queue_from_regs s)"
  unfolding update_admin_queue_from_regs_def Let_def by (rule upd_vq_serves) (simp add: vq_ok_def)

lemma reg_write_serves: "vfio_serves s (handle_nvme_reg_write offset n value s)"
proof -
  define s1 where "s1 = (if offset + n \<le> VFIO_BAR0_NVME_REGS_SIZE
     then s\<lparr>vs_nvme_regs := put_at offset (take n (word_bytes 4 (unat value))) (vs_nvme_regs s)\<rparr> else s)"
  have s: "vfio_serves s s1" by (simp add: s1_def)
  have csts: "vfio_serves x ((upd_vregs g (upd_vregs f x))\<lparr>vs_nvme_regs := put_at NVME_REG_CSTS [b] (vs_nvme_regs (upd_vregs f x))\<rparr>)" for x f g b
    by (simp add: vfio_serves_def vfio_core_def upd_vregs_def length_put_at VFIO_BAR0_NVME_REGS_SIZE_def)
  have clear: "vfio_serves x (upd_vq 0 (\<lambda>q. q\<lparr>vq_sq_head := 0, vq_sq_tail := 0, vq_cq_head := 0, vq_cq_tail := 0, vq_cq_phase := True\<rparr>) x)" for x
    by (rule upd_vq_serves) (simp add: vq_ok_def)
  have "vfio_serves s1 (handle_nvme_reg_write offset n value s)"
    unfolding handle_nvme_reg_write_def s1_def [symmetric] Let_def
    by (auto intro: vfio_serves_trans [OF csts] vfio_serves_trans [OF field_serves(2)] admin_queue_serves clear)
  with s show ?thesis by (rule vfio_serves_trans)
qed

lemma doorbell_serves:
  assumes "handle_doorbell_write off value s = Some s'"
  shows "vfio_serves s s'"
proof -
  have up: "vfio_serves s (upd_vq q (\<lambda>q. q\<lparr>vq_sq_tail := x\<rparr>) s)" "vfio_serves s (upd_vq q (\<lambda>q. q\<lparr>vq_cq_head := x\<rparr>) s)" for q x
    by (rule upd_vq_serves; simp add: vq_ok_def)+
  have run: "vfio_serves s s'" if "process_queue_commands q ((upd_vq i f s)\<lparr>vs_nvme := v\<rparr>) = Some s'" "vfio_serves s (upd_vq i f s)" for q i f v
    using that(2) vfio_serves_trans [OF field_serves(1) process_queue_serves [OF that(1)]] by (rule vfio_serves_trans)
  have set: "vfio_serves s ((upd_vq i f s)\<lparr>vs_nvme := v\<rparr>)" if "vfio_serves s (upd_vq i f s)" for i f v
    using that field_serves(1) by (rule vfio_serves_trans)
  from assms show ?thesis
    by (auto simp: handle_doorbell_write_def Let_def up set split: if_splits bind_splits dest: run)
qed

lemma fold_serves:
  assumes "\<And>x s s'. f x s = Some s' \<Longrightarrow> vfio_serves s s'"
  shows "fold_option f xs s = Some s' \<Longrightarrow> vfio_serves s s'"
proof (induction xs arbitrary: s)
  case (Cons x xs)
  then obtain s1 where "f x s = Some s1" "fold_option f xs s1 = Some s'" by (auto split: bind_splits)
  then show ?case using assms Cons.IH by (blast intro: vfio_serves_trans)
qed simp

lemma length_payload_bytes: "payload_bytes p off n = Some bs \<Longrightarrow> length bs = n"
  by (auto simp: payload_bytes_def split: if_splits)

lemma bar0_write_serves:
  assumes "bar0_write offset count p s = Some s'"
  shows "vfio_serves s s'"
proof -
  have reg: "vfio_serves s s'" if "bar0_reg_body off n p i s = Some s'" for off n i s s'
    using that by (auto simp: bar0_reg_body_def reg_write_serves split: bind_splits)
  have db: "vfio_serves s s'" if "bar0_doorbell_body off p i s = Some s'" for off i s s'
    using that by (auto simp: bar0_doorbell_body_def split: bind_splits intro: doorbell_serves)
  have regs: "vfio_serves s s'" if "fold_option (bar0_reg_body off n p) xs s = Some s'" for off n xs s s'
    using that by (rule fold_serves [rotated]) (rule reg)
  have dbs: "vfio_serves s s'" if "fold_option (bar0_doorbell_body off p) xs s = Some s'" for off xs s s'
    using that by (rule fold_serves [rotated]) (rule db)
  from assms show ?thesis
    by (auto simp: bar0_write_def Let_def split: if_splits bind_splits dest!: regs dbs reg
        dest: length_payload_bytes intro: vfio_serves_trans)
qed

lemma config_put_serves: "config_put off n p s = Some s' \<Longrightarrow> vfio_serves s s'"
  by (auto simp: config_put_def split: if_splits bind_splits dest: length_payload_bytes)

lemma config_write_serves:
  assumes "pci_config_write offset count p s = Some s'"
  shows "vfio_serves s s'"
proof -
  have m: "vfio_serves s (config_write_msix s)" "vfio_serves s (config_write_bar0 v s)" "vfio_serves s (config_write_bar1 v s)" for s v
    by (simp_all add: vfio_serves_def vfio_core_def config_write_msix_def config_write_bar0_def config_write_bar1_def Let_def
        length_put_at VFIO_PCI_CONFIG_SIZE_def)
  from assms show ?thesis
    by (auto simp: pci_config_write_def Let_def m split: if_splits dest!: config_put_serves intro: vfio_serves_trans [OF _ m(1)])
qed

lemma close_eventfd_serves [simp]: "vfio_serves s (close_eventfd s)"
  by (simp add: close_eventfd_def vfio_serves_def vfio_core_def close_fd_def)

lemma dma_map_serves: "vfio_serves s (handle_dma_map a p fd s)"
  by (auto simp: handle_dma_map_def Let_def vfio_serves_def vfio_core_def vfu_send_reply_def vfu_send_error_def vfu_send_msg_def
      close_fd_def split: map_answer.splits)

lemma dma_unmap_serves: "vfio_serves s (handle_dma_unmap p s)"
  by (auto simp: handle_dma_unmap_def Let_def vfio_serves_def vfio_core_def vfu_send_reply_def vfu_send_msg_def
      close_fd_def remove_region_def split: option.splits)

lemma set_irqs_serves: "vfio_serves s (handle_device_set_irqs p fd s)"
  by (auto simp: handle_device_set_irqs_def close_eventfd_def Let_def vfio_serves_def vfio_core_def vfu_send_reply_def vfu_send_error_def
      vfu_send_msg_def close_fd_def)

lemma region_serves:
  "handle_region_read p s = Some s' \<Longrightarrow> vfio_serves s s'" "handle_region_write p s = Some s' \<Longrightarrow> vfio_serves s s'"
proof -
  have b: "vfio_serves s s1" if "bar0_read offset count s = (d, s1)" for offset count d s1
    using that by (auto simp: bar0_read_def Let_def VFIO_BAR0_NVME_REGS_SIZE_def split: if_splits)
  show "handle_region_read p s = Some s' \<Longrightarrow> vfio_serves s s'"
    by (auto simp: handle_region_read_def Let_def split: if_splits bind_splits prod.splits dest!: b
        intro: vfio_serves_trans [OF _ send_serves(1)])
  show "handle_region_write p s = Some s' \<Longrightarrow> vfio_serves s s'"
    by (auto simp: handle_region_write_def Let_def split: if_splits bind_splits dest!: config_write_serves bar0_write_serves
        intro: vfio_serves_trans [OF _ send_serves(1)])
qed

lemma reset_serves: "vfio_serves s (handle_set_reset s)"
  unfolding handle_set_reset_def
  by (rule vfio_serves_trans [OF init_serves(3) vfio_serves_trans [OF init_serves(2) vfio_serves_trans [OF init_serves(1)
      vfio_serves_trans [OF close_eventfd_serves vfio_serves_trans [OF field_serves(6) send_serves(1)]]]]])

lemma dispatch_serves:
  assumes "dispatch_message a h p fds s = Some s'"
  shows "vfio_serves s s'"
proof -
  let ?s = "s\<lparr>vs_req_id := vh_id h, vs_command := vh_command h, vs_no_reply := (vh_flags h AND VFU_MSG_FLAG_NO_REPLY \<noteq> 0)\<rparr>"
  have "vfio_serves ?s s'"
    using assms
    by (auto simp: dispatch_message_def Let_def handle_get_api_version_def reset_serves dma_map_serves dma_unmap_serves handle_device_get_info_def
        handle_device_get_region_info_def handle_device_get_irq_info_def set_irqs_serves split: if_splits dest: region_serves)
  with field_serves(8) show ?thesis by (rule vfio_serves_trans)
qed

text \<open>The register image with the capabilities and the version in it, as \<open>init_nvme_regs\<close> builds it.\<close>

definition initial_regs :: "u8 list" where
  "initial_regs = put_at 8 (word_bytes 4 (unat NVME_VERSION)) (put_at 0 (word_bytes 8 0x02F003FF) (replicate VFIO_BAR0_NVME_REGS_SIZE 0))"

text \<open>The connection: there is one when its descriptor is not negative; what is as at the start without one.\<close>

definition vfio_inv :: "vfio_sys \<Rightarrow> bool" where
  "vfio_inv s \<longleftrightarrow>
     vfio_core s \<and> (vs_connected s \<longleftrightarrow> 0 \<le> vs_conn_fd s) \<and>
     (\<not> vs_connected s \<longrightarrow> vs_regions s = [] \<and> vs_msix_evtfd s < 0 \<and> \<not> vs_msix_enabled s \<and>
        vs_queues s = (\<lambda>_. zero_vq) \<and> vs_pci_config s = pci_config_image \<and> vs_nvme_regs s = initial_regs)"

lemma recv_exact_serves: "vfio_serves s (snd (recv_exact n s))"
proof (induction n s rule: recv_exact.induct)
  case (1 n s)
  show ?case
  proof (cases "n = 0")
    case False
    let ?s = "s\<lparr>vs_recv_count := vs_recv_count s + 1\<rparr>"
    show ?thesis
    proof (cases "vs_recv s (vs_recv_count s)")
      case (Got bs fds)
      show ?thesis
      proof (cases "take n bs = []")
        case no: False
        have "vfio_serves ?s (snd (recv_exact (n - length (take n bs)) ?s))"
          using 1 [OF False refl refl Got refl no] by simp
        with field_serves(9) have "vfio_serves s (snd (recv_exact (n - length (take n bs)) ?s))" by (rule vfio_serves_trans)
        then show ?thesis using False Got no by (subst recv_exact.simps) (auto simp: Let_def split: prod.splits)
      qed (subst recv_exact.simps, use False Got in \<open>simp add: Let_def\<close>)
    qed (subst recv_exact.simps, use False in \<open>simp add: Let_def\<close>)
  qed (subst recv_exact.simps, simp)
qed

lemma recv_serves:
  assumes "vfu_recv_msg s = (r, fds, s')"
  shows "vfio_serves s s'"
proof -
  have a: "vfio_serves s s2" if "recv_exact n (s\<lparr>vs_recv_count := k\<rparr>) = (x, s2)" for n k x s2
    using vfio_serves_trans [OF field_serves(9) recv_exact_serves [of "s\<lparr>vs_recv_count := k\<rparr>" n]] that by simp
  have b: "vfio_serves s3 s2" if "recv_exact n s3 = (x, s2)" for n s3 x s2
    using recv_exact_serves [of s3 n] that by simp
  from assms show ?thesis
    by (auto simp: vfu_recv_msg_def Let_def split: sock_answer.splits if_splits prod.splits option.splits
        dest: a intro: vfio_serves_trans [OF a b])
qed

lemma fold_close_serves: "vfio_serves s (fold close_fd fds s)"
  by (induction fds arbitrary: s) (auto intro: vfio_serves_trans [OF field_serves(4)])

lemma messages_serves:
  assumes "handle_connection_messages a old s = Some (ret, s')"
  shows "vfio_serves s s'"
  using assms
  by (auto simp: handle_connection_messages_def Let_def split: prod.splits option.splits
      dest!: recv_serves dispatch_serves intro: vfio_serves_trans fold_close_serves)

lemma close_connection_inv:
  assumes "vfio_core s" "vs_connected s \<longleftrightarrow> 0 \<le> vs_conn_fd s"
  shows "vfio_inv (vfio_close_connection s)"
proof -
  let ?s1 = "if 0 \<le> vs_conn_fd s then (close_fd (vs_conn_fd s) s)\<lparr>vs_conn_fd := -1\<rparr> else s"
  define s2 where "s2 = fold close_fd (filter (\<lambda>fd. 0 \<le> fd) (map dr_fd (vs_regions ?s1))) ?s1"
  have f: "fold close_fd xs x = x\<lparr>vs_closed := vs_closed x @ xs\<rparr>" for xs x
    by (induction xs arbitrary: x) (simp_all add: close_fd_def)
  show ?thesis
    using assms unfolding vfio_close_connection_def Let_def f
    by (simp add: vfio_inv_def vfio_core_def init_pci_config_def init_nvme_regs_def reset_queue_state_def close_eventfd_def close_fd_def
        initial_regs_def length_put_at VFIO_BAR0_NVME_REGS_SIZE_def vq_ok_def) (simp add: zero_vq_def)
qed

lemma vfio_process_inv:
  assumes "vfio_inv s" "vfio_user_nvme_process e s = Some s'"
  shows "vfio_inv s'"
proof -
  define s1 where "s1 = (if ve_ready e (vs_socket_fd s) then vfio_accept (ve_accept e) s else s)"
  have inv: "vfio_inv s1"
    using assms(1) by (auto simp: s1_def vfio_accept_def vfio_inv_def vfio_core_def close_fd_def)
  have step: "vfio_inv x" if "vs_connected s1" "handle_connection_messages a old s1 = Some (ret, s2)"
      "x = (if ret \<noteq> RET_OK then vfio_close_connection s2 else s2)" for a old ret s2 x
    using messages_serves [OF that(2)] inv that(1,3) close_connection_inv [of s2] by (auto simp: vfio_serves_def vfio_inv_def)
  from assms(2) consider "s' = s" | "s' = s1"
    | ret s2 where "vs_connected s1" "handle_connection_messages (ve_map e) (ve_old e) s1 = Some (ret, s2)"
        "s' = (if ret \<noteq> RET_OK then vfio_close_connection s2 else s2)"
    unfolding vfio_user_nvme_process_def Let_def s1_def [symmetric] by (auto split: if_splits bind_splits)
  then show ?thesis by cases (use assms(1) inv step in blast)+
qed

text \<open>The calls of the program around the device; the first one is \<open>vfio_user_nvme_init\<close>.\<close>

datatype vfio_call =
    Vfio_init "vfio_config option" int bool bool
  | Vfio_process vfio_events
  | Vfio_deinit

fun vfio_exec :: "vfio_call \<Rightarrow> vfio_sys \<Rightarrow> vfio_sys option" where
  "vfio_exec (Vfio_init g fd b l) s = Some (snd (vfio_user_nvme_init g fd b l s))"
| "vfio_exec (Vfio_process e) s = vfio_user_nvme_process e s"
| "vfio_exec Vfio_deinit s = Some (snd (vfio_user_nvme_deinit s))"

lemma vfio_init_inv: "vfio_inv (snd (vfio_user_nvme_init (Some g) fd b l s))"
  by (simp add: vfio_user_nvme_init_def Let_def vfio_inv_def vfio_core_def init_pci_config_def init_nvme_regs_def reset_queue_state_def
      close_fd_def initial_regs_def length_put_at VFIO_BAR0_NVME_REGS_SIZE_def vq_ok_def) (simp add: zero_vq_def)

lemma vfio_exec_inv:
  assumes "vfio_exec c s = Some s'" "vfio_inv s"
  shows "vfio_inv s'"
proof (cases c)
  case (Vfio_init g fd b l)
  then show ?thesis using assms vfio_init_inv by (cases g) (auto simp: vfio_user_nvme_init_def [of None])
next
  case Vfio_deinit
  have "vfio_inv (vfio_close_connection (s\<lparr>vs_running := False\<rparr>))"
    using assms(2) by (intro close_connection_inv) (auto simp: vfio_inv_def vfio_core_def)
  then show ?thesis
    using assms(1) Vfio_deinit by (auto simp: vfio_user_nvme_deinit_def Let_def vfio_inv_def vfio_core_def close_fd_def split: if_splits)
qed (use assms vfio_process_inv in auto)

text \<open>C33: whatever the driver sends and the kernel answers, after every history that starts with \<open>vfio_user_nvme_init\<close>
  at most 16 regions are mapped, the configuration space, the register image and the MSI-X tables have the sizes the
  accesses are checked against, and there is a connection exactly when its descriptor is not negative.  The indices that
  the device itself moves, the heads of the submission queues and the tails of the completion queues, are entries of
  their rings; the ones that the guest sets by doorbells need not be.  Without a connection there is no mapping, no
  eventfd and no enabled interrupt, all queues are cleared, and the configuration space and the register image are as
  at the start; the MSI-X table and the registers of the controller may hold what an earlier connection left.\<close>

theorem vfio_histories_well_formed:
  assumes "fold_option vfio_exec cs (snd (vfio_user_nvme_init (Some g) fd b l s)) = Some s'"
  shows "length (vs_regions s') \<le> VFIO_USER_MAX_DMA_REGIONS \<and> length (vs_pci_config s') = VFIO_PCI_CONFIG_SIZE \<and>
     length (vs_nvme_regs s') = VFIO_BAR0_NVME_REGS_SIZE \<and> length (vs_msix_table s') = 16 \<and> length (vs_msix_pba s') = 8 \<and>
     (\<forall>q. (0 < vq_sq_size (vs_queues s' q) \<longrightarrow> vq_sq_head (vs_queues s' q) < vq_sq_size (vs_queues s' q)) \<and>
          (0 < vq_cq_size (vs_queues s' q) \<longrightarrow> vq_cq_tail (vs_queues s' q) < vq_cq_size (vs_queues s' q))) \<and>
     (vs_connected s' \<longleftrightarrow> 0 \<le> vs_conn_fd s') \<and>
     (\<not> vs_connected s' \<longrightarrow> vs_regions s' = [] \<and> vs_msix_evtfd s' < 0 \<and> \<not> vs_msix_enabled s' \<and>
        vs_queues s' = (\<lambda>_. zero_vq) \<and> vs_pci_config s' = pci_config_image \<and> vs_nvme_regs s' = initial_regs)"
proof -
  have "vfio_inv s'"
    by (rule fold_option_invariant [OF _ _ assms]) (auto intro: vfio_exec_inv vfio_init_inv)
  then show ?thesis by (simp add: vfio_inv_def vfio_core_def vq_ok_def)
qed

text \<open>A driver connects, and the connection breaks while the first message is read.\<close>

definition demo_events :: vfio_events where
  "demo_events = \<lparr>ve_select_ok = True, ve_ready = \<lambda>fd. True, ve_accept = 6, ve_map = Map_failed 12, ve_old = \<lambda>_. 0\<rparr>"

lemma vfio_histories_well_formed_witness:
  "\<exists>s1 s2. fold_option vfio_exec [Vfio_process demo_events] (snd (vfio_user_nvme_init (Some (vs_config vfio_demo)) 5 True True vfio_demo)) = Some s1 \<and>
     vs_connected s1 \<and> 0 \<le> vs_conn_fd s1 \<and>
     fold_option vfio_exec [Vfio_process demo_events, Vfio_process (demo_events\<lparr>ve_accept := -1\<rparr>)]
       (snd (vfio_user_nvme_init (Some (vs_config vfio_demo)) 5 True True vfio_demo)) = Some s2 \<and>
     \<not> vs_connected s2 \<and> vs_regions s2 = [] \<and> vs_msix_evtfd s2 < 0 \<and> vs_pci_config s2 = pci_config_image"
proof -
  let ?s = "snd (vfio_user_nvme_init (Some (vs_config vfio_demo)) 5 True True vfio_demo)"
  have i: "vs_running ?s" "vs_socket_fd ?s = 5" "\<not> vs_connected ?s" "vs_recv ?s = (\<lambda>_. No_data)"
    by (simp_all add: vfio_user_nvme_init_def Let_def vfio_demo_def init_nvme_regs_def init_pci_config_def reset_queue_state_def)
  then have p: "vfio_exec (Vfio_process demo_events) ?s = Some (?s\<lparr>vs_conn_fd := 6, vs_connected := True\<rparr>)"
    by (simp add: vfio_user_nvme_process_def demo_events_def vfio_accept_def Let_def)
  let ?s1 = "?s\<lparr>vs_conn_fd := 6, vs_connected := True\<rparr>"
  have "handle_connection_messages (Map_failed 12) (\<lambda>_. 0) ?s1 = Some (RET_ERR_INTERNAL, ?s1\<lparr>vs_recv_count := vs_recv_count ?s1 + 1\<rparr>)"
    by (simp add: handle_connection_messages_def vfu_recv_msg_def i(4) Let_def)
  then have q: "vfio_exec (Vfio_process (demo_events\<lparr>ve_accept := -1\<rparr>)) ?s1 = Some (vfio_close_connection (?s1\<lparr>vs_recv_count := vs_recv_count ?s1 + 1\<rparr>))"
    by (simp add: vfio_user_nvme_process_def demo_events_def vfio_accept_def Let_def i)
  let ?s2 = "vfio_close_connection (?s1\<lparr>vs_recv_count := vs_recv_count ?s1 + 1\<rparr>)"
  have r: "fold_option vfio_exec [Vfio_process demo_events] ?s = Some ?s1"
    "fold_option vfio_exec [Vfio_process demo_events, Vfio_process (demo_events\<lparr>ve_accept := -1\<rparr>)] ?s = Some ?s2"
    using p q by simp_all
  have "\<not> vs_connected ?s2"
    by (simp add: vfio_close_connection_def Let_def init_nvme_regs_def init_pci_config_def)
  with vfio_histories_well_formed [OF r(1)] vfio_histories_well_formed [OF r(2)] r show ?thesis by simp
qed

end
