(* ===== verification/Vhost.thy ===== *)
theory Vhost
  imports Wire
begin

text \<open>
  The vhost-user device, \<open>src/protocol/nvme/vhost_user_nvme.c\<close> and \<open>include/protocol/vhost_user_nvme.h\<close>: the messages
  of the protocol, the table of memory regions, the image of the registers, and the vrings, whose descriptors hold a
  command and room for its completion.  Guest memory, pointers into it, sockets and logs are as in \<open>Vfio\<close>.  An outer
  \<open>None\<close> is an access outside of a buffer or a mapping, a division by zero, or what the FTL leaves undefined.  The
  messages that go to the log are left out.
\<close>

section \<open>Constants and data\<close>

definition VHOST_USER_NVME_DEFAULT_SOCKET :: string where "VHOST_USER_NVME_DEFAULT_SOCKET = ''/tmp/ftl-vhost-user.sock''"
definition VHOST_USER_NVME_MAX_QUEUES :: nat where "VHOST_USER_NVME_MAX_QUEUES = 8"
definition VHOST_USER_MAX_MEM_REGIONS :: nat where "VHOST_USER_MAX_MEM_REGIONS = 16"
definition VHOST_USER_NVME_REG_SIZE :: nat where "VHOST_USER_NVME_REG_SIZE = 4096"
definition VHOST_USER_MAX_PAYLOAD_SIZE :: nat where "VHOST_USER_MAX_PAYLOAD_SIZE = 4096"
definition VHOST_USER_NVME_MAX_IO_SIZE :: nat where "VHOST_USER_NVME_MAX_IO_SIZE = 1024 * 1024"

abbreviation (input) VHOST_USER_GET_FEATURES :: u32 where "VHOST_USER_GET_FEATURES \<equiv> 1"
abbreviation (input) VHOST_USER_SET_FEATURES :: u32 where "VHOST_USER_SET_FEATURES \<equiv> 2"
abbreviation (input) VHOST_USER_SET_OWNER :: u32 where "VHOST_USER_SET_OWNER \<equiv> 3"
abbreviation (input) VHOST_USER_RESET_OWNER :: u32 where "VHOST_USER_RESET_OWNER \<equiv> 4"
abbreviation (input) VHOST_USER_SET_MEM_TABLE :: u32 where "VHOST_USER_SET_MEM_TABLE \<equiv> 5"
abbreviation (input) VHOST_USER_SET_VRING_NUM :: u32 where "VHOST_USER_SET_VRING_NUM \<equiv> 8"
abbreviation (input) VHOST_USER_SET_VRING_ADDR :: u32 where "VHOST_USER_SET_VRING_ADDR \<equiv> 9"
abbreviation (input) VHOST_USER_SET_VRING_BASE :: u32 where "VHOST_USER_SET_VRING_BASE \<equiv> 10"
abbreviation (input) VHOST_USER_GET_VRING_BASE :: u32 where "VHOST_USER_GET_VRING_BASE \<equiv> 11"
abbreviation (input) VHOST_USER_SET_VRING_KICK :: u32 where "VHOST_USER_SET_VRING_KICK \<equiv> 12"
abbreviation (input) VHOST_USER_SET_VRING_CALL :: u32 where "VHOST_USER_SET_VRING_CALL \<equiv> 13"
abbreviation (input) VHOST_USER_GET_PROTOCOL_FEATURES :: u32 where "VHOST_USER_GET_PROTOCOL_FEATURES \<equiv> 15"
abbreviation (input) VHOST_USER_SET_PROTOCOL_FEATURES :: u32 where "VHOST_USER_SET_PROTOCOL_FEATURES \<equiv> 16"
abbreviation (input) VHOST_USER_GET_QUEUE_NUM :: u32 where "VHOST_USER_GET_QUEUE_NUM \<equiv> 17"
abbreviation (input) VHOST_USER_SET_VRING_ENABLE :: u32 where "VHOST_USER_SET_VRING_ENABLE \<equiv> 18"
abbreviation (input) VHOST_USER_GET_CONFIG :: u32 where "VHOST_USER_GET_CONFIG \<equiv> 24"
abbreviation (input) VHOST_USER_SET_CONFIG :: u32 where "VHOST_USER_SET_CONFIG \<equiv> 25"

definition VHOST_USER_F_PROTOCOL_FEATURES :: u64 where "VHOST_USER_F_PROTOCOL_FEATURES = 2 ^ 30"
definition VHOST_USER_PROTOCOL_F_CONFIG :: u64 where "VHOST_USER_PROTOCOL_F_CONFIG = 2"
definition VHOST_USER_PROTOCOL_F_REPLY_ACK :: u64 where "VHOST_USER_PROTOCOL_F_REPLY_ACK = 8"
definition VHOST_USER_PROTOCOL_F_STATUS :: u64 where "VHOST_USER_PROTOCOL_F_STATUS = 128"
definition VHOST_USER_FLAG_REPLY :: u32 where "VHOST_USER_FLAG_REPLY = 4"
definition VHOST_USER_FLAG_NEED_REPLY :: u32 where "VHOST_USER_FLAG_NEED_REPLY = 8"

record vhost_msg_hdr =
  uh_request :: u32
  uh_flags :: u32
  uh_size :: u32

text \<open>A region: the addresses of the guest; the mapping, an object of memory and where it starts there, or no mapping;
  the descriptor.\<close>

record mem_region =
  mr_gpa :: u64
  mr_size :: u64
  mr_mmap_offset :: u64
  mr_mapping :: "(nat \<times> nat) option"
  mr_fd :: int

record vhost_vring =
  vr_num :: u32
  vr_desc_addr :: u64
  vr_avail_addr :: u64
  vr_used_addr :: u64
  vr_base :: u32
  vr_kick_fd :: int
  vr_call_fd :: int
  vr_enabled :: bool
  vr_last_avail :: u16
  vr_used_idx :: u16

record vhost_config =
  ug_socket_path :: string
  ug_max_queues :: u32

record vhost_sys =
  us_socket_fd :: int
  us_conn_fd :: int
  us_running :: bool
  us_connected :: bool
  us_features :: u64
  us_protocol_features :: u64
  us_owner_set :: bool
  us_regions :: "nat \<Rightarrow> mem_region"
  us_region_count :: nat
  us_vrings :: "nat \<Rightarrow> vhost_vring"
  us_regs :: "u8 list"
  us_config :: vhost_config
  us_io_read_buf :: "nat \<Rightarrow> u8"
  us_io_write_buf :: "nat \<Rightarrow> u8"
  us_mem :: "nat \<Rightarrow> nat \<Rightarrow> u8"
  us_nvme :: nvme_sys
  us_sent :: "(int \<times> u8 list) list"
  us_closed :: "int list"
  us_calls :: "int list"
  us_recv :: "nat \<Rightarrow> sock_answer"
  us_recv_count :: nat

definition upd_vring :: "nat \<Rightarrow> (vhost_vring \<Rightarrow> vhost_vring) \<Rightarrow> vhost_sys \<Rightarrow> vhost_sys" where
  "upd_vring i f s = s\<lparr>us_vrings := (us_vrings s)(i := f (us_vrings s i))\<rparr>"

definition upd_region :: "nat \<Rightarrow> (mem_region \<Rightarrow> mem_region) \<Rightarrow> vhost_sys \<Rightarrow> vhost_sys" where
  "upd_region i f s = s\<lparr>us_regions := (us_regions s)(i := f (us_regions s i))\<rparr>"

definition upd_hregs :: "(nvme_ctrl_regs \<Rightarrow> nvme_ctrl_regs) \<Rightarrow> vhost_sys \<Rightarrow> vhost_sys" where
  "upd_hregs f s = s\<lparr>us_nvme := upd_regs f (us_nvme s)\<rparr>"

definition vhost_close_fd :: "int \<Rightarrow> vhost_sys \<Rightarrow> vhost_sys" where
  "vhost_close_fd fd s = (if 0 \<le> fd then s\<lparr>us_closed := us_closed s @ [fd]\<rparr> else s)"

section \<open>Addresses of the guest\<close>

text \<open>The address of a region without a mapping is counted from the null pointer: it is null for the first byte and a
  pointer to nothing for the others.\<close>

definition gpa_to_hva :: "vhost_sys \<Rightarrow> u64 \<Rightarrow> hva option" where
  "gpa_to_hva s gpa =
     (case find (\<lambda>i. let r = us_regions s i in mr_gpa r \<le> gpa \<and> gpa < mr_gpa r + mr_size r) [0..<us_region_count s] of
        None \<Rightarrow> None
      | Some i \<Rightarrow>
          let r = us_regions s i; d = unat (gpa - mr_gpa r) in
          (case mr_mapping r of
             Some (ob, base) \<Rightarrow> Some (ob, base + d, unat (mr_size r) - d)
           | None \<Rightarrow> if d = 0 then None else Some (0, 0, 0)))"

definition read_guest :: "hva \<Rightarrow> nat \<Rightarrow> nat \<Rightarrow> vhost_sys \<Rightarrow> u8 list option" where
  "read_guest h off n s =
     (case h of (ob, pos, room) \<Rightarrow> if off + n \<le> room then Some (mem_read (us_mem s ob) (pos + off) n) else None)"

definition write_guest :: "hva \<Rightarrow> nat \<Rightarrow> u8 list \<Rightarrow> vhost_sys \<Rightarrow> vhost_sys option" where
  "write_guest h off bs s =
     (case h of (ob, pos, room) \<Rightarrow>
        if off + length bs \<le> room then Some (s\<lparr>us_mem := (us_mem s)(ob := mem_write (us_mem s ob) (pos + off) bs)\<rparr>) else None)"

section \<open>Transfers along PRP entries\<close>

definition prp_chunk :: "u64 \<Rightarrow> nat \<Rightarrow> nat" where
  "prp_chunk cur rest = min (4096 - unat (cur AND 0xFFF)) rest"

lemma vhost_chunk_pos: "0 < rest \<Longrightarrow> 0 < prp_chunk cur rest"
proof -
  have "cur AND 0xFFF \<le> 0xFFF" by (rule word_and_le1)
  then have "unat (cur AND 0xFFF) \<le> 0xFFF" by (simp add: word_le_nat_alt)
  then show "0 < rest \<Longrightarrow> 0 < prp_chunk cur rest" by (simp add: prp_chunk_def)
qed

text \<open>Where the transfer goes on after \<open>off\<close> bytes: at an address, nowhere, or it fails.\<close>

datatype prp_next = Next_page u64 | Stop_here | Unmapped

definition prp_next_page :: "vhost_sys \<Rightarrow> u64 \<Rightarrow> u64 \<Rightarrow> nat \<Rightarrow> prp_next option" where
  "prp_next_page s prp1 prp2 off =
     (let first = 4096 - unat (prp1 AND 0xFFF) in
      if prp2 AND 0xFFF = 0 \<and> first < off then
        (case gpa_to_hva s prp2 of
           None \<Rightarrow> Some Unmapped
         | Some h \<Rightarrow> map_option (\<lambda>bs. Next_page (of_nat (word_at ((!) bs) 0 8))) (read_guest h ((off - first) div 4096 * 8) 8 s))
      else if off = first then Some (Next_page prp2)
      else Some Stop_here)"

function prp_read_loop :: "vhost_sys \<Rightarrow> u64 \<Rightarrow> u64 \<Rightarrow> nat \<Rightarrow> nat \<Rightarrow> u64 \<Rightarrow> (nat \<Rightarrow> u8) \<Rightarrow> (ret_code \<times> (nat \<Rightarrow> u8)) option" where
  "prp_read_loop s prp1 prp2 len off cur m =
     (if len \<le> off then Some (RET_OK, m)
      else (case gpa_to_hva s (cur AND NOT 0xFFF) of
              None \<Rightarrow> Some (RET_ERR_PARAM, m)
            | Some h \<Rightarrow>
                (case read_guest h (unat (cur AND 0xFFF)) (prp_chunk cur (len - off)) s of
                   None \<Rightarrow> None
                 | Some bs \<Rightarrow>
                     let m = mem_write m off bs; off' = off + prp_chunk cur (len - off) in
                     if len \<le> off' then Some (RET_OK, m)
                     else (case prp_next_page s prp1 prp2 off' of
                             None \<Rightarrow> None
                           | Some Unmapped \<Rightarrow> Some (RET_ERR_PARAM, m)
                           | Some Stop_here \<Rightarrow> Some (RET_OK, m)
                           | Some (Next_page a) \<Rightarrow> prp_read_loop s prp1 prp2 len off' a m))))"
  by pat_completeness auto
termination
  by (relation "measure (\<lambda>(s, prp1, prp2, len, off, cur, m). len - off)") (auto simp: vhost_chunk_pos intro!: diff_less_mono2)

declare prp_read_loop.simps [simp del]

definition prp_read_data :: "u64 \<Rightarrow> u64 \<Rightarrow> nat \<Rightarrow> (nat \<Rightarrow> u8) \<Rightarrow> vhost_sys \<Rightarrow> (ret_code \<times> (nat \<Rightarrow> u8)) option" where
  "prp_read_data prp1 prp2 len m s = prp_read_loop s prp1 prp2 len 0 prp1 m"

text \<open>In the other direction the list is read from the memory as it is after the pages written so far.\<close>

function prp_write_loop :: "u64 \<Rightarrow> u64 \<Rightarrow> u8 list \<Rightarrow> nat \<Rightarrow> u64 \<Rightarrow> vhost_sys \<Rightarrow> (ret_code \<times> vhost_sys) option" where
  "prp_write_loop prp1 prp2 data off cur s =
     (if length data \<le> off then Some (RET_OK, s)
      else (case gpa_to_hva s (cur AND NOT 0xFFF) of
              None \<Rightarrow> Some (RET_ERR_PARAM, s)
            | Some h \<Rightarrow>
                (case write_guest h (unat (cur AND 0xFFF)) (take (prp_chunk cur (length data - off)) (drop off data)) s of
                   None \<Rightarrow> None
                 | Some s \<Rightarrow>
                     let off' = off + prp_chunk cur (length data - off) in
                     if length data \<le> off' then Some (RET_OK, s)
                     else (case prp_next_page s prp1 prp2 off' of
                             None \<Rightarrow> None
                           | Some Unmapped \<Rightarrow> Some (RET_ERR_PARAM, s)
                           | Some Stop_here \<Rightarrow> Some (RET_OK, s)
                           | Some (Next_page a) \<Rightarrow> prp_write_loop prp1 prp2 data off' a s))))"
  by pat_completeness auto
termination
  by (relation "measure (\<lambda>(prp1, prp2, data, off, cur, s). length data - off)") (auto simp: vhost_chunk_pos intro!: diff_less_mono2)

declare prp_write_loop.simps [simp del]

definition prp_write_data :: "u64 \<Rightarrow> u64 \<Rightarrow> u8 list \<Rightarrow> vhost_sys \<Rightarrow> (ret_code \<times> vhost_sys) option" where
  "prp_write_data prp1 prp2 data s = prp_write_loop prp1 prp2 data 0 prp1 s"

section \<open>Messages\<close>

definition vhost_header :: "u8 list \<Rightarrow> vhost_msg_hdr" where
  "vhost_header bs =
     (let m = (!) bs in
      \<lparr>uh_request = of_nat (word_at m 0 4), uh_flags = of_nat (word_at m 4 4), uh_size = of_nat (word_at m 8 4)\<rparr>)"

text \<open>One call of \<open>recvmsg\<close> for header and payload together; the size in the header is not looked at.\<close>

definition vu_recv_msg :: "vhost_sys \<Rightarrow> (vhost_msg_hdr \<times> u8 list) option \<times> int list \<times> vhost_sys" where
  "vu_recv_msg s =
     (let a = us_recv s (us_recv_count s); s = s\<lparr>us_recv_count := us_recv_count s + 1\<rparr> in
      case a of
        No_data \<Rightarrow> (None, [], s)
      | Got bs sent_fds \<Rightarrow>
          let bs = take (12 + VHOST_USER_MAX_PAYLOAD_SIZE) bs in
          if bs = [] then (None, [], s)
          else
            let fds = take VHOST_USER_MAX_MEM_REGIONS sent_fds in
            if length bs < 12 then (None, fds, s) else (Some (vhost_header bs, drop 12 bs), fds, s))"

definition vu_send_msg :: "u32 \<Rightarrow> u32 \<Rightarrow> u8 list \<Rightarrow> vhost_sys \<Rightarrow> vhost_sys" where
  "vu_send_msg request flags payload s =
     s\<lparr>us_sent := us_sent s @
       [(us_conn_fd s, word_bytes 4 (unat request) @ word_bytes 4 (unat flags) @ word_bytes 4 (length payload) @ payload)]\<rparr>"

definition vu_send_reply :: "u32 \<Rightarrow> u8 list \<Rightarrow> vhost_sys \<Rightarrow> vhost_sys" where
  "vu_send_reply request payload = vu_send_msg request VHOST_USER_FLAG_REPLY payload"

section \<open>Registers\<close>

definition init_nvme_regs :: "vhost_sys \<Rightarrow> vhost_sys" where
  "init_nvme_regs s =
     s\<lparr>us_regs := put_at 8 (word_bytes 4 (unat NVME_VERSION))
         (put_at 0 (word_bytes 8 0x0000000F000001FF) (replicate VHOST_USER_NVME_REG_SIZE 0))\<rparr>"

text \<open>The copy of \<open>n\<close> of the four bytes of \<open>value\<close> into the image; the check before it adds in 32 bits.\<close>

definition reg_put :: "u32 \<Rightarrow> u32 \<Rightarrow> u32 \<Rightarrow> vhost_sys \<Rightarrow> vhost_sys option" where
  "reg_put offset n value s =
     (if n = 0 \<or> VHOST_USER_NVME_REG_SIZE < unat (offset + n) then Some s
      else if 4 < n \<or> VHOST_USER_NVME_REG_SIZE < unat offset + unat n then None
      else Some (s\<lparr>us_regs := put_at (unat offset) (take (unat n) (word_bytes 4 (unat value))) (us_regs s)\<rparr>))"

definition reg_doorbell :: "u32 \<Rightarrow> u32 \<Rightarrow> vhost_sys \<Rightarrow> vhost_sys option" where
  "reg_doorbell doorbell_offset value s =
     (let qid = of_nat (unat doorbell_offset div 8) in
      do {
        v \<leftarrow> (if unat doorbell_offset mod 8 = 0 then nvme_ctrl_sq_doorbell qid value (us_nvme s)
              else nvme_ctrl_cq_doorbell qid value (us_nvme s));
        Some (s\<lparr>us_nvme := v\<rparr>)
      })"

definition reg_enable :: "u32 \<Rightarrow> vhost_sys \<Rightarrow> vhost_sys" where
  "reg_enable value s =
     (let s = upd_hregs (\<lambda>r. r\<lparr>r_cc := value\<rparr>) s in
      if bit value 0
      then (upd_hregs (\<lambda>r. r\<lparr>r_csts := r_csts r OR 1\<rparr>) s)\<lparr>us_regs := put_at NVME_REG_CSTS [1] (us_regs s)\<rparr>
      else (upd_hregs (\<lambda>r. r\<lparr>r_csts := r_csts r AND NOT 1\<rparr>) s)\<lparr>us_regs := put_at NVME_REG_CSTS [0] (us_regs s)\<rparr>)"

definition handle_reg_write :: "u32 \<Rightarrow> u32 \<Rightarrow> u32 \<Rightarrow> vhost_sys \<Rightarrow> vhost_sys option" where
  "handle_reg_write offset n value s =
     (let off = unat offset in
      do {
        s \<leftarrow> reg_put offset n value s;
        if off = NVME_REG_CC then Some (reg_enable value s)
        else if off = NVME_REG_AQA then Some (upd_hregs (\<lambda>r. r\<lparr>r_aqa := value\<rparr>) s)
        else if off = NVME_REG_ASQ then Some (if n = 4 then upd_hregs (\<lambda>r. r\<lparr>r_asq := write_half value False (r_asq r)\<rparr>) s else s)
        else if off = NVME_REG_ASQ + 4 then Some (upd_hregs (\<lambda>r. r\<lparr>r_asq := write_half value True (r_asq r)\<rparr>) s)
        else if off = NVME_REG_ACQ then Some (if n = 4 then upd_hregs (\<lambda>r. r\<lparr>r_acq := write_half value False (r_acq r)\<rparr>) s else s)
        else if off = NVME_REG_ACQ + 4 then Some (upd_hregs (\<lambda>r. r\<lparr>r_acq := write_half value True (r_acq r)\<rparr>) s)
        else if 0x1000 \<le> offset then reg_doorbell (offset - 0x1000) value s
        else Some s
      })"

section \<open>Handlers of messages\<close>

definition handle_get_features :: "vhost_sys \<Rightarrow> vhost_sys" where
  "handle_get_features = vu_send_reply VHOST_USER_GET_FEATURES (word_bytes 8 (unat VHOST_USER_F_PROTOCOL_FEATURES))"

definition handle_set_features :: "(nat \<Rightarrow> u8) \<Rightarrow> vhost_sys \<Rightarrow> vhost_sys" where
  "handle_set_features p s = s\<lparr>us_features := of_nat (word_at p 0 8)\<rparr>"

definition handle_set_owner :: "vhost_sys \<Rightarrow> vhost_sys" where
  "handle_set_owner s = s\<lparr>us_owner_set := True\<rparr>"

definition handle_reset_owner :: "vhost_sys \<Rightarrow> vhost_sys" where
  "handle_reset_owner s = s\<lparr>us_owner_set := False\<rparr>"

definition drop_region :: "nat \<Rightarrow> vhost_sys \<Rightarrow> vhost_sys" where
  "drop_region i s =
     upd_region i (\<lambda>r. r\<lparr>mr_mapping := None, mr_fd := (if 0 \<le> mr_fd r then -1 else mr_fd r)\<rparr>)
       (vhost_close_fd (mr_fd (us_regions s i)) s)"

definition drop_regions :: "vhost_sys \<Rightarrow> vhost_sys" where
  "drop_regions s = (fold drop_region [0..<us_region_count s] s)\<lparr>us_region_count := 0\<rparr>"

text \<open>Region \<open>i\<close> of the table; the count goes up only when it is mapped.\<close>

definition map_region :: "(nat \<Rightarrow> map_answer) \<Rightarrow> (nat \<Rightarrow> u8) \<Rightarrow> int list \<Rightarrow> nat \<Rightarrow> vhost_sys \<Rightarrow> vhost_sys" where
  "map_region a p fds i s =
     (let fd = (if i < length fds then fds ! i else -1); e = 8 + 32 * i;
          s = upd_region i (\<lambda>r. r\<lparr>mr_gpa := of_nat (word_at p e 8), mr_size := of_nat (word_at p (e + 8) 8),
                mr_mmap_offset := of_nat (word_at p (e + 24) 8)\<rparr>) s in
      if fd < 0 then s
      else (case a i of
              Map_failed _ \<Rightarrow> vhost_close_fd fd s
            | Mapped ob \<Rightarrow>
                (upd_region i (\<lambda>r. r\<lparr>mr_mapping := Some (ob, unat (mr_mmap_offset r)), mr_fd := fd\<rparr>) s)
                  \<lparr>us_region_count := us_region_count s + 1\<rparr>))"

definition handle_set_mem_table :: "(nat \<Rightarrow> map_answer) \<Rightarrow> (nat \<Rightarrow> u8) \<Rightarrow> int list \<Rightarrow> vhost_sys \<Rightarrow> vhost_sys" where
  "handle_set_mem_table a p fds s =
     fold (map_region a p fds) [0..<min (word_at p 0 4) VHOST_USER_MAX_MEM_REGIONS] (drop_regions s)"

text \<open>A message about a vring starts with its index; others than the eight are left alone.\<close>

definition on_vring :: "(nat \<Rightarrow> u8) \<Rightarrow> (vhost_vring \<Rightarrow> vhost_vring) \<Rightarrow> vhost_sys \<Rightarrow> vhost_sys" where
  "on_vring p f s = (let index = word_at p 0 4 in if index < VHOST_USER_NVME_MAX_QUEUES then upd_vring index f s else s)"

definition handle_set_vring_num :: "(nat \<Rightarrow> u8) \<Rightarrow> vhost_sys \<Rightarrow> vhost_sys" where
  "handle_set_vring_num p = on_vring p (\<lambda>v. v\<lparr>vr_num := of_nat (word_at p 4 4)\<rparr>)"

definition handle_set_vring_addr :: "(nat \<Rightarrow> u8) \<Rightarrow> vhost_sys \<Rightarrow> vhost_sys" where
  "handle_set_vring_addr p = on_vring p (\<lambda>v. v\<lparr>vr_desc_addr := of_nat (word_at p 8 8), vr_avail_addr := of_nat (word_at p 16 8),
     vr_used_addr := of_nat (word_at p 24 8)\<rparr>)"

definition handle_set_vring_base :: "(nat \<Rightarrow> u8) \<Rightarrow> vhost_sys \<Rightarrow> vhost_sys" where
  "handle_set_vring_base p = on_vring p (\<lambda>v. v\<lparr>vr_base := of_nat (word_at p 4 4), vr_last_avail := of_nat (word_at p 4 4)\<rparr>)"

definition handle_get_vring_base :: "(nat \<Rightarrow> u8) \<Rightarrow> vhost_sys \<Rightarrow> vhost_sys" where
  "handle_get_vring_base p s =
     (let index = word_at p 0 4; base = (if index < VHOST_USER_NVME_MAX_QUEUES then unat (vr_base (us_vrings s index)) else 0) in
      vu_send_reply VHOST_USER_GET_VRING_BASE (word_bytes 4 index @ word_bytes 4 base) s)"

definition handle_set_vring_kick :: "(nat \<Rightarrow> u8) \<Rightarrow> int \<Rightarrow> vhost_sys \<Rightarrow> vhost_sys" where
  "handle_set_vring_kick p fd s =
     (let index = word_at p 0 4 in
      if index < VHOST_USER_NVME_MAX_QUEUES
      then upd_vring index (\<lambda>v. v\<lparr>vr_kick_fd := fd\<rparr>) (vhost_close_fd (vr_kick_fd (us_vrings s index)) s)
      else vhost_close_fd fd s)"

definition handle_set_vring_call :: "(nat \<Rightarrow> u8) \<Rightarrow> int \<Rightarrow> vhost_sys \<Rightarrow> vhost_sys" where
  "handle_set_vring_call p fd s =
     (let index = word_at p 0 4 in
      if index < VHOST_USER_NVME_MAX_QUEUES
      then upd_vring index (\<lambda>v. v\<lparr>vr_call_fd := fd\<rparr>) (vhost_close_fd (vr_call_fd (us_vrings s index)) s)
      else vhost_close_fd fd s)"

definition handle_set_vring_enable :: "(nat \<Rightarrow> u8) \<Rightarrow> vhost_sys \<Rightarrow> vhost_sys" where
  "handle_set_vring_enable p = on_vring p (\<lambda>v. v\<lparr>vr_enabled := (word_at p 4 4 \<noteq> 0)\<rparr>)"

definition handle_get_protocol_features :: "vhost_sys \<Rightarrow> vhost_sys" where
  "handle_get_protocol_features = vu_send_reply VHOST_USER_GET_PROTOCOL_FEATURES
     (word_bytes 8 (unat (VHOST_USER_PROTOCOL_F_CONFIG OR VHOST_USER_PROTOCOL_F_REPLY_ACK OR VHOST_USER_PROTOCOL_F_STATUS)))"

definition handle_set_protocol_features :: "(nat \<Rightarrow> u8) \<Rightarrow> vhost_sys \<Rightarrow> vhost_sys" where
  "handle_set_protocol_features p s = s\<lparr>us_protocol_features := of_nat (word_at p 0 8)\<rparr>"

text \<open>How many bytes \<open>GET_CONFIG\<close> copies; it subtracts and adds in 32 bits.\<close>

definition config_len :: "u32 \<Rightarrow> u32 \<Rightarrow> u32" where
  "config_len offset n =
     (let n = (if of_nat VHOST_USER_NVME_REG_SIZE < n then of_nat VHOST_USER_NVME_REG_SIZE else n) in
      if of_nat VHOST_USER_NVME_REG_SIZE < offset + n then of_nat VHOST_USER_NVME_REG_SIZE - offset else n)"

definition handle_get_config :: "(nat \<Rightarrow> u8) \<Rightarrow> vhost_sys \<Rightarrow> vhost_sys option" where
  "handle_get_config p s =
     (let offset = of_nat (word_at p 0 4); n = config_len offset (of_nat (word_at p 4 4)) in
      if n \<noteq> 0 \<and> VHOST_USER_NVME_REG_SIZE < unat offset + unat n then None
      else Some (vu_send_reply VHOST_USER_GET_CONFIG
        (word_bytes 4 (unat offset) @ word_bytes 4 (unat n) @ word_bytes 4 0 @ take (unat n) (drop (unat offset) (us_regs s)) @ [0, 0, 0, 0]) s))"

definition handle_set_config :: "(nat \<Rightarrow> u8) \<Rightarrow> vhost_sys \<Rightarrow> vhost_sys option" where
  "handle_set_config p s =
     (let offset = of_nat (word_at p 0 4); n = of_nat (word_at p 4 4) in
      handle_reg_write offset n (if n \<le> 4 then of_nat (word_at p 12 (unat n)) else 0) s)"

section \<open>Commands\<close>

text \<open>A buffer of a descriptor: 64 bytes of a command, then 16 bytes for its completion, whose last two are the status.\<close>

definition put_completion :: "hva \<Rightarrow> nvme_completion \<Rightarrow> vhost_sys \<Rightarrow> vhost_sys option" where
  "put_completion h cpl s = write_guest h 64 (completion_bytes cpl) s"

definition put_status :: "hva \<Rightarrow> u16 \<Rightarrow> vhost_sys \<Rightarrow> vhost_sys option" where
  "put_status h st s = write_guest h 78 (word_bytes 2 (unat st)) s"

definition vhost_identify_data :: "nvme_command \<Rightarrow> nvme_sys \<Rightarrow> u8 list option" where
  "vhost_identify_data cmd v =
     (let cns = (ucast (nc_cdw10 cmd) :: u8) in
      if cns = 0x01 then nvme_ctrl_fill_identify_controller (replicate 4096 0) 4096 v
      else if cns = 0x00 then nvme_ctrl_fill_identify_namespace (replicate 4096 0) 4096 (nc_nsid cmd)
      else Some (replicate 4096 0))"

text \<open>What the transfer returns is not looked at.\<close>

definition vhost_identify :: "hva \<Rightarrow> nvme_command \<Rightarrow> vhost_sys \<Rightarrow> vhost_sys option" where
  "vhost_identify h cmd s =
     do {
       d \<leftarrow> vhost_identify_data cmd (us_nvme s);
       (ret, s) \<leftarrow> prp_write_data (nc_prp1 cmd) (nc_prp2 cmd) d s;
       put_status h 0 s
     }"

definition vhost_get_log_page :: "hva \<Rightarrow> nvme_command \<Rightarrow> vhost_sys \<Rightarrow> vhost_sys option" where
  "vhost_get_log_page h cmd s =
     (let lid = (ucast (nc_cdw10 cmd) :: u8); log_len = (unat (drop_bit 16 (nc_cdw10 cmd) AND 0xFFFF) + 1) * 4 in
      do {
        d \<leftarrow> (if lid = 0x02
               then do { b \<leftarrow> nvme_ctrl_fill_smart_log (Some (replicate 4096 0)) (if log_len < 512 then log_len else 512) (us_nvme s); b }
               else Some (replicate 4096 0));
        (ret, s) \<leftarrow> prp_write_data (nc_prp1 cmd) (nc_prp2 cmd) (take log_len d) s;
        put_status h 0 s
      })"

definition vhost_admin_command :: "hva \<Rightarrow> nvme_command \<Rightarrow> vhost_sys \<Rightarrow> vhost_sys option" where
  "vhost_admin_command h cmd s =
     (let op = nc_opcode cmd in
      if op = NVME_ADMIN_IDENTIFY then vhost_identify h cmd s
      else if op = NVME_ADMIN_GET_LOG_PAGE then vhost_get_log_page h cmd s
      else (let (cpl, v) = nvme_ctrl_process_admin_cmd cmd (us_nvme s) in put_completion h cpl (s\<lparr>us_nvme := v\<rparr>)))"

abbreviation vhost_ftl :: "ftl_dev \<Rightarrow> vhost_sys \<Rightarrow> vhost_sys" where
  "vhost_ftl f s \<equiv> s\<lparr>us_nvme := (us_nvme s)\<lparr>nv_ftl := f\<rparr>\<rparr>"

text \<open>A page that cannot be read is replaced by zeros.\<close>

definition vhost_read_body :: "nvme_command \<Rightarrow> nat \<Rightarrow> vhost_sys \<Rightarrow> vhost_sys" where
  "vhost_read_body cmd i s =
     (let (ret, out, f) = ftl_read (nv_ftl (us_nvme s)) (nvme_lpn cmd i) True; s = vhost_ftl f s;
          m = (case out of Some bs \<Rightarrow> mem_write (us_io_read_buf s) (i * 4096) bs | None \<Rightarrow> us_io_read_buf s);
          m = (if ret \<noteq> RET_OK then mem_write m (i * 4096) zero_page else m) in
      s\<lparr>us_io_read_buf := m\<rparr>)"

definition vhost_io_read :: "hva \<Rightarrow> nvme_command \<Rightarrow> vhost_sys \<Rightarrow> vhost_sys option" where
  "vhost_io_read h cmd s =
     (let n = nvme_nlb cmd; transfer_len = n * 4096 in
      if VHOST_USER_NVME_MAX_IO_SIZE < transfer_len then put_status h 0x0006 s
      else
        let s = fold (vhost_read_body cmd) [0..<n] s in
        do {
          (ret, s) \<leftarrow> prp_write_data (nc_prp1 cmd) (nc_prp2 cmd) (mem_read (us_io_read_buf s) 0 transfer_len) s;
          put_status h 0 s
        })"

definition vhost_write_body :: "nvme_command \<Rightarrow> (nat \<Rightarrow> u8 list) \<Rightarrow> nat \<Rightarrow> vhost_sys \<Rightarrow> (u16, vhost_sys) ctl option" where
  "vhost_write_body cmd page i s =
     do {
       (ret, f) \<leftarrow> ftl_write (nv_ftl (us_nvme s)) (nvme_lpn cmd i) (Some (page i));
       Some (if ret \<noteq> RET_OK then Leave 0x0006 (vhost_ftl f s) else Next (vhost_ftl f s))
     }"

definition vhost_write_pages :: "hva \<Rightarrow> nvme_command \<Rightarrow> (nat \<Rightarrow> u8 list) \<Rightarrow> vhost_sys \<Rightarrow> vhost_sys option" where
  "vhost_write_pages h cmd page s =
     do {
       r \<leftarrow> for_each [0..<nvme_nlb cmd] (vhost_write_body cmd page) s;
       (case r of Leave st s \<Rightarrow> put_status h st s | Next s \<Rightarrow> put_status h 0 s)
     }"

definition vhost_io_write :: "hva \<Rightarrow> nvme_command \<Rightarrow> vhost_sys \<Rightarrow> vhost_sys option" where
  "vhost_io_write h cmd s =
     (let transfer_len = nvme_nlb cmd * 4096 in
      if VHOST_USER_NVME_MAX_IO_SIZE < transfer_len then put_status h 0x0006 s
      else do {
        (ret, m) \<leftarrow> prp_read_data (nc_prp1 cmd) (nc_prp2 cmd) transfer_len (us_io_write_buf s) s;
        let s = s\<lparr>us_io_write_buf := m\<rparr>;
        if ret \<noteq> RET_OK then put_status h 0x0006 s else vhost_write_pages h cmd (\<lambda>i. mem_read m (i * 4096) 4096) s
      })"

definition vhost_io_write_zeroes :: "hva \<Rightarrow> nvme_command \<Rightarrow> vhost_sys \<Rightarrow> vhost_sys option" where
  "vhost_io_write_zeroes h cmd s = vhost_write_pages h cmd (\<lambda>_. zero_page) s"

definition vhost_trim_body :: "nat \<Rightarrow> u16 \<times> vhost_sys \<Rightarrow> (u16 \<times> vhost_sys) option" where
  "vhost_trim_body r = (\<lambda>(st, s).
     let len = (of_nat (word_at (us_io_write_buf s) (r * 16 + 4) 4) + 1 :: u32); slba = word_at (us_io_write_buf s) (r * 16 + 8) 8 in
     do {
       (ret, f) \<leftarrow> ftl_trim (nv_ftl (us_nvme s)) (slba mod 2 ^ 32) (unat len);
       Some (if ret \<noteq> RET_OK then 0x0006 else st, vhost_ftl f s)
     })"

definition vhost_io_dataset_mgmt :: "hva \<Rightarrow> nvme_command \<Rightarrow> vhost_sys \<Rightarrow> vhost_sys option" where
  "vhost_io_dataset_mgmt h cmd s =
     (let nr = (unat (nc_cdw10 cmd AND 0xFF) + 1) mod 256; transfer_len = nr * 16 in
      do {
        (ret, m) \<leftarrow> prp_read_data (nc_prp1 cmd) (nc_prp2 cmd) transfer_len (us_io_write_buf s) s;
        let s = s\<lparr>us_io_write_buf := m\<rparr>;
        if ret \<noteq> RET_OK then put_status h 0x0006 s
        else do { (st, s) \<leftarrow> fold_option vhost_trim_body [0..<nr] (0, s); put_status h st s }
      })"

definition vhost_io_command :: "hva \<Rightarrow> nvme_command \<Rightarrow> vhost_sys \<Rightarrow> vhost_sys option" where
  "vhost_io_command h cmd s =
     (let op = nc_opcode cmd in
      if op = NVME_IO_READ then vhost_io_read h cmd s
      else if op = NVME_IO_WRITE then vhost_io_write h cmd s
      else if op = NVME_IO_WRITE_ZEROES then vhost_io_write_zeroes h cmd s
      else if op = NVME_IO_DATASET_MGMT then vhost_io_dataset_mgmt h cmd s
      else do { (cpl, v) \<leftarrow> nvme_ctrl_process_io_cmd cmd (us_nvme s); put_completion h cpl (s\<lparr>us_nvme := v\<rparr>) })"

text \<open>The completion is cleared in place before the command is run.\<close>

definition process_nvme_command :: "nat \<Rightarrow> hva \<Rightarrow> vhost_sys \<Rightarrow> vhost_sys option" where
  "process_nvme_command qid h s =
     do {
       bs \<leftarrow> read_guest h 0 64 s;
       let cmd = command_at ((!) bs) 0;
       s \<leftarrow> put_completion h (blank_completion\<lparr>cp_cid := nc_cid cmd, cp_sqid := of_nat qid\<rparr>) s;
       if qid = 0 then vhost_admin_command h cmd s else vhost_io_command h cmd s
     }"

section \<open>Vrings\<close>

datatype kick_answer = Kicked | Not_kicked | Kick_failed

text \<open>The slot of a counter in a ring; a ring without entries divides by zero.\<close>

definition ring_slot :: "u16 \<Rightarrow> vhost_vring \<Rightarrow> nat option" where
  "ring_slot i v = (if vr_num v = 0 then None else Some (unat i mod unat (vr_num v)))"

definition avail_entry :: "hva \<Rightarrow> vhost_vring \<Rightarrow> vhost_sys \<Rightarrow> nat option" where
  "avail_entry ha v s =
     do { k \<leftarrow> ring_slot (vr_last_avail v) v; bs \<leftarrow> read_guest ha (4 + 2 * k) 2 s; Some (word_at ((!) bs) 0 2) }"

definition put_used :: "nat \<Rightarrow> hva \<Rightarrow> nat \<Rightarrow> vhost_sys \<Rightarrow> vhost_sys option" where
  "put_used q hu desc_idx s =
     do {
       k \<leftarrow> ring_slot (vr_used_idx (us_vrings s q)) (us_vrings s q);
       s \<leftarrow> write_guest hu (4 + 8 * k) (word_bytes 4 desc_idx @ word_bytes 4 16) s;
       let s = upd_vring q (\<lambda>v. v\<lparr>vr_used_idx := vr_used_idx v + 1\<rparr>) s;
       write_guest hu 2 (word_bytes 2 (unat (vr_used_idx (us_vrings s q)))) s
     }"

definition vring_call :: "nat \<Rightarrow> vhost_sys \<Rightarrow> vhost_sys" where
  "vring_call q s =
     (let fd = vr_call_fd (us_vrings s q) in if 0 \<le> fd then s\<lparr>us_calls := us_calls s @ [fd]\<rparr> else s)"

definition next_avail :: "nat \<Rightarrow> vhost_sys \<Rightarrow> vhost_sys" where
  "next_avail q = upd_vring q (\<lambda>v. v\<lparr>vr_last_avail := vr_last_avail v + 1\<rparr>)"

text \<open>The entry of the available ring that is next.\<close>

definition serve_avail :: "nat \<Rightarrow> hva \<Rightarrow> hva \<Rightarrow> hva \<Rightarrow> vhost_sys \<Rightarrow> vhost_sys option" where
  "serve_avail q hdesc ha hu s =
     do {
       d \<leftarrow> avail_entry ha (us_vrings s q) s;
       bs \<leftarrow> read_guest hdesc (16 * d) 8 s;
       (case gpa_to_hva s (of_nat (word_at ((!) bs) 0 8)) of
          None \<Rightarrow> Some (next_avail q s)
        | Some h \<Rightarrow>
            do {
              s \<leftarrow> process_nvme_command q h s;
              s \<leftarrow> put_used q hu d s;
              Some (vring_call q (next_avail q s))
            })
     }"

partial_function (option) vring_loop :: "nat \<Rightarrow> u16 \<Rightarrow> hva \<Rightarrow> hva \<Rightarrow> hva \<Rightarrow> vhost_sys \<Rightarrow> vhost_sys option" where
  "vring_loop q avail_idx hdesc ha hu s =
     (if vr_last_avail (us_vrings s q) = avail_idx then Some s
      else do { s \<leftarrow> serve_avail q hdesc ha hu s; vring_loop q avail_idx hdesc ha hu s })"

definition process_vring :: "kick_answer \<Rightarrow> nat \<Rightarrow> vhost_sys \<Rightarrow> vhost_sys option" where
  "process_vring k q s =
     (let v = us_vrings s q in
      if \<not> vr_enabled v \<or> vr_kick_fd v < 0 then Some s
      else if k = Kick_failed then Some s
      else (case (gpa_to_hva s (vr_desc_addr v), gpa_to_hva s (vr_avail_addr v), gpa_to_hva s (vr_used_addr v)) of
              (Some hdesc, Some ha, Some hu) \<Rightarrow>
                do { bs \<leftarrow> read_guest ha 2 2 s; vring_loop q (of_nat (word_at ((!) bs) 0 2)) hdesc ha hu s }
            | _ \<Rightarrow> Some s))"

section \<open>Messages and connections\<close>

definition dispatch_message :: "(nat \<Rightarrow> map_answer) \<Rightarrow> vhost_msg_hdr \<Rightarrow> (nat \<Rightarrow> u8) \<Rightarrow> int list \<Rightarrow> vhost_sys \<Rightarrow> vhost_sys option" where
  "dispatch_message a h p fds s =
     (let r = uh_request h; fd = (if fds = [] then -1 else fds ! 0) in
      if r = VHOST_USER_GET_FEATURES then Some (handle_get_features s)
      else if r = VHOST_USER_SET_FEATURES then Some (handle_set_features p s)
      else if r = VHOST_USER_SET_OWNER then Some (handle_set_owner s)
      else if r = VHOST_USER_RESET_OWNER then Some (handle_reset_owner s)
      else if r = VHOST_USER_SET_MEM_TABLE then Some (handle_set_mem_table a p fds s)
      else if r = VHOST_USER_SET_VRING_NUM then Some (handle_set_vring_num p s)
      else if r = VHOST_USER_SET_VRING_ADDR then Some (handle_set_vring_addr p s)
      else if r = VHOST_USER_SET_VRING_BASE then Some (handle_set_vring_base p s)
      else if r = VHOST_USER_GET_VRING_BASE then Some (handle_get_vring_base p s)
      else if r = VHOST_USER_SET_VRING_KICK then Some (handle_set_vring_kick p fd s)
      else if r = VHOST_USER_SET_VRING_CALL then Some (handle_set_vring_call p fd s)
      else if r = VHOST_USER_SET_VRING_ENABLE then Some (handle_set_vring_enable p s)
      else if r = VHOST_USER_GET_PROTOCOL_FEATURES then Some (handle_get_protocol_features s)
      else if r = VHOST_USER_SET_PROTOCOL_FEATURES then Some (handle_set_protocol_features p s)
      else if r = VHOST_USER_GET_CONFIG then handle_get_config p s
      else if r = VHOST_USER_SET_CONFIG then handle_set_config p s
      else if r = VHOST_USER_GET_QUEUE_NUM
      then Some (vu_send_reply VHOST_USER_GET_QUEUE_NUM (word_bytes 4 (unat (ug_max_queues (us_config s)))) s)
      else Some (if uh_flags h AND VHOST_USER_FLAG_NEED_REPLY \<noteq> 0 then vu_send_reply r [] s else s))"

text \<open>\<open>old\<close> is what the buffer for the payload held before.\<close>

definition handle_connection_messages :: "(nat \<Rightarrow> map_answer) \<Rightarrow> (nat \<Rightarrow> u8) \<Rightarrow> vhost_sys \<Rightarrow> (ret_code \<times> vhost_sys) option" where
  "handle_connection_messages a old s =
     (let (r, fds, s) = vu_recv_msg s in
      case r of
        None \<Rightarrow> Some (RET_ERR_INTERNAL, fold vhost_close_fd fds s)
      | Some (h, bs) \<Rightarrow> map_option (\<lambda>s. (RET_OK, s)) (dispatch_message a h (mem_write old 0 bs) fds s))"

definition close_vring :: "nat \<Rightarrow> vhost_sys \<Rightarrow> vhost_sys" where
  "close_vring i s =
     (let v = us_vrings s i in
      upd_vring i (\<lambda>v. v\<lparr>vr_kick_fd := (if 0 \<le> vr_kick_fd v then -1 else vr_kick_fd v),
          vr_call_fd := (if 0 \<le> vr_call_fd v then -1 else vr_call_fd v), vr_enabled := False, vr_last_avail := 0, vr_used_idx := 0\<rparr>)
        (vhost_close_fd (vr_call_fd v) (vhost_close_fd (vr_kick_fd v) s)))"

definition vhost_close_connection :: "vhost_sys \<Rightarrow> vhost_sys" where
  "vhost_close_connection s =
     (let s = (if 0 \<le> us_conn_fd s then (vhost_close_fd (us_conn_fd s) s)\<lparr>us_conn_fd := -1\<rparr> else s);
          s = fold close_vring [0..<VHOST_USER_NVME_MAX_QUEUES] (drop_regions s) in
      init_nvme_regs (s\<lparr>us_connected := False, us_owner_set := False, us_features := 0, us_protocol_features := 0\<rparr>))"

section \<open>The device\<close>

definition zero_region :: mem_region where
  "zero_region = \<lparr>mr_gpa = 0, mr_size = 0, mr_mmap_offset = 0, mr_mapping = None, mr_fd = -1\<rparr>"

definition zero_vring :: vhost_vring where
  "zero_vring = \<lparr>vr_num = 0, vr_desc_addr = 0, vr_avail_addr = 0, vr_used_addr = 0, vr_base = 0, vr_kick_fd = -1, vr_call_fd = -1,
     vr_enabled = False, vr_last_avail = 0, vr_used_idx = 0\<rparr>"

text \<open>The answers of \<open>socket\<close>, \<open>bind\<close> and \<open>listen\<close>.\<close>

definition vhost_user_nvme_init :: "vhost_config option \<Rightarrow> int \<Rightarrow> bool \<Rightarrow> bool \<Rightarrow> vhost_sys \<Rightarrow> ret_code \<times> vhost_sys" where
  "vhost_user_nvme_init config fd bind_ok listen_ok s =
     (case config of
        None \<Rightarrow> (RET_ERR_PARAM, s)
      | Some g \<Rightarrow>
          let g = g\<lparr>ug_max_queues := (if ug_max_queues g = 0 then 2 else ug_max_queues g),
                    ug_socket_path := (if ug_socket_path g = [] then VHOST_USER_NVME_DEFAULT_SOCKET else ug_socket_path g)\<rparr>;
              s = init_nvme_regs (s\<lparr>us_config := g, us_socket_fd := fd, us_conn_fd := -1, us_running := False, us_connected := False,
                    us_features := 0, us_protocol_features := 0, us_owner_set := False, us_regions := (\<lambda>_. zero_region),
                    us_region_count := 0, us_vrings := (\<lambda>_. zero_vring)\<rparr>) in
          if fd < 0 then (RET_ERR_INTERNAL, s)
          else if \<not> bind_ok \<or> \<not> listen_ok then (RET_ERR_INTERNAL, (vhost_close_fd fd s)\<lparr>us_socket_fd := -1\<rparr>)
          else (RET_OK, s\<lparr>us_running := True\<rparr>))"

definition vhost_user_nvme_deinit :: "vhost_sys \<Rightarrow> ret_code \<times> vhost_sys" where
  "vhost_user_nvme_deinit s =
     (let s = vhost_close_connection (s\<lparr>us_running := False\<rparr>) in
      (RET_OK, if 0 \<le> us_socket_fd s then (vhost_close_fd (us_socket_fd s) s)\<lparr>us_socket_fd := -1\<rparr> else s))"

text \<open>What the kernel says during one call of the event loop.\<close>

record vhost_events =
  ue_select_ok :: bool
  ue_ready :: "int \<Rightarrow> bool"
  ue_accept :: int
  ue_map :: "nat \<Rightarrow> map_answer"
  ue_old :: "nat \<Rightarrow> u8"
  ue_kick :: "nat \<Rightarrow> kick_answer"

definition vhost_accept :: "int \<Rightarrow> vhost_sys \<Rightarrow> vhost_sys" where
  "vhost_accept fd s =
     (if fd < 0 then s
      else if us_connected s then vhost_close_fd fd s
      else s\<lparr>us_conn_fd := fd, us_connected := True\<rparr>)"

definition vhost_messages :: "vhost_events \<Rightarrow> vhost_sys \<Rightarrow> vhost_sys option" where
  "vhost_messages e s =
     do {
       (ret, s) \<leftarrow> handle_connection_messages (ue_map e) (ue_old e) s;
       Some (if ret \<noteq> RET_OK then vhost_close_connection s else s)
     }"

definition vhost_user_nvme_process :: "vhost_events \<Rightarrow> vhost_sys \<Rightarrow> vhost_sys option" where
  "vhost_user_nvme_process e s =
     (if \<not> us_running s \<or> us_socket_fd s < 0 then Some s
      else if \<not> ue_select_ok e then Some s
      else
        let watched = insert (us_socket_fd s) (if us_connected s \<and> 0 \<le> us_conn_fd s then {us_conn_fd s} else {});
            s = (if ue_ready e (us_socket_fd s) then vhost_accept (ue_accept e) s else s) in
        do {
          s \<leftarrow> (if us_connected s \<and> 0 \<le> us_conn_fd s \<and> us_conn_fd s \<in> watched \<and> ue_ready e (us_conn_fd s)
                 then vhost_messages e s else Some s);
          fold_option (\<lambda>i s. if vr_enabled (us_vrings s i) then process_vring (ue_kick e i) i s else Some s)
            [0..<VHOST_USER_NVME_MAX_QUEUES] s
        })"

end
