(* ===== verification/VhostFlow.thy ===== *)
theory VhostFlow
  imports Vhost FtlHost NvmeHistory
begin

text \<open>
  The vhost-user device in use: a write command from a vring to the flash, what becomes of transfers with a list of PRP
  entries, and requests for registers beyond the image.
\<close>

section \<open>Pages of a transfer\<close>

lemma vhost_hva_cong:
  assumes "us_regions s' = us_regions s" "us_region_count s' = us_region_count s"
  shows "gpa_to_hva s' = gpa_to_hva s"
  unfolding fun_eq_iff gpa_to_hva_def assms by simp

definition vhost_page :: "vhost_sys \<Rightarrow> u64 \<Rightarrow> u8 list option" where
  "vhost_page s a = (case gpa_to_hva s a of None \<Rightarrow> None | Some h \<Rightarrow> read_guest h 0 4096 s)"

definition list_entry :: "vhost_sys \<Rightarrow> u64 \<Rightarrow> nat \<Rightarrow> u64 option" where
  "list_entry s prp2 i =
     (case gpa_to_hva s prp2 of
        None \<Rightarrow> None
      | Some h \<Rightarrow> map_option (\<lambda>bs. of_nat (word_at ((!) bs) 0 8)) (read_guest h (i * 8) 8 s))"

text \<open>The pages the code takes for a transfer: the one at PRP1, the one at PRP2, and from there on the entries of the
  list at PRP2 but for its first one.\<close>

definition vhost_pages :: "vhost_sys \<Rightarrow> u64 \<Rightarrow> u64 \<Rightarrow> u64 list \<Rightarrow> u8 list list \<Rightarrow> bool" where
  "vhost_pages s prp1 prp2 as bs \<longleftrightarrow>
     length bs = length as \<and> as \<noteq> [] \<and> as ! 0 = prp1 \<and> (1 < length as \<longrightarrow> as ! 1 = prp2) \<and>
     (\<forall>i<length as. 2 \<le> i \<longrightarrow> list_entry s prp2 (i - 1) = Some (as ! i)) \<and>
     (\<forall>i<length as. as ! i AND 0xFFF = 0 \<and> vhost_page s (as ! i) = Some (bs ! i))"

lemma vhost_read_length: "read_guest h off n s = Some bs \<Longrightarrow> length bs = n"
  by (cases h) (auto simp: read_guest_def split: if_splits)

lemma vhost_next_page:
  assumes p: "vhost_pages s prp1 prp2 as bs" and k: "Suc k < length as"
  shows "prp_next_page s prp1 prp2 (Suc k * 4096) = Some (Next_page (as ! Suc k))"
proof -
  have a1: "prp1 AND 0xFFF = 0" using p k by (auto simp: vhost_pages_def)
  show ?thesis
  proof (cases "k = 0")
    case True
    then show ?thesis using p k a1 by (simp add: prp_next_page_def vhost_pages_def)
  next
    case False
    then have "1 < length as" using k by simp
    with p have "prp2 AND 0xFFF = 0" by (fastforce simp: vhost_pages_def)
    moreover have "list_entry s prp2 k = Some (as ! Suc k)" using p k False by (auto simp: vhost_pages_def)
    ultimately show ?thesis
      using a1 False by (auto simp: prp_next_page_def list_entry_def split: option.splits)
  qed
qed

text \<open>One page of the transfer: it is the last one, or the loop goes on with the next.\<close>

lemma vhost_read_page:
  assumes p: "vhost_pages s prp1 prp2 as bs" and k: "k < length as"
  shows "prp_read_loop s prp1 prp2 (length as * 4096) (k * 4096) (as ! k) m =
     (let m1 = mem_write m (k * 4096) (bs ! k) in
      if length as = Suc k then Some (RET_OK, m1)
      else prp_read_loop s prp1 prp2 (length as * 4096) (Suc k * 4096) (as ! Suc k) m1)"
    and "length (bs ! k) = 4096"
proof -
  let ?n = "length as" and ?o = "k * 4096"
  have al: "as ! k AND 0xFFF = 0" "vhost_page s (as ! k) = Some (bs ! k)" using p k by (simp_all add: vhost_pages_def)
  from al(2) obtain h where h: "gpa_to_hva s (as ! k AND NOT 0xFFF) = Some h" "read_guest h 0 4096 s = Some (bs ! k)"
    unfolding page_aligned [OF al(1)] by (auto simp: vhost_page_def split: option.splits)
  from h(2) show "length (bs ! k) = 4096" by (rule vhost_read_length)
  have le: "Suc k * 4096 \<le> ?n * 4096" using k by (intro mult_le_mono1) simp
  then have chunk: "prp_chunk (as ! k) (?n * 4096 - ?o) = 4096" "\<not> ?n * 4096 \<le> ?o"
    using al(1) k by (simp_all add: prp_chunk_def)
  have rd: "read_guest h (unat (as ! k AND 0xFFF)) (prp_chunk (as ! k) (?n * 4096 - ?o)) s = Some (bs ! k)"
    using h(2) al(1) by (simp only: chunk unat_0)
  have fin: "?n * 4096 \<le> ?o + 4096 \<longleftrightarrow> ?n = Suc k" using k by auto
  have nxt: "prp_next_page s prp1 prp2 (?o + 4096) = Some (Next_page (as ! Suc k))" if "?n \<noteq> Suc k"
    using vhost_next_page [OF p, of k] k that by (simp add: add.commute)
  show "prp_read_loop s prp1 prp2 (?n * 4096) ?o (as ! k) m =
     (let m1 = mem_write m ?o (bs ! k) in
      if ?n = Suc k then Some (RET_OK, m1)
      else prp_read_loop s prp1 prp2 (?n * 4096) (Suc k * 4096) (as ! Suc k) m1)"
    by (subst prp_read_loop.simps, unfold h(1) option.case rd)
      (use chunk fin nxt in \<open>simp add: Let_def add.commute\<close>)
qed

lemma vhost_read_pages:
  assumes p: "vhost_pages s prp1 prp2 as bs" and k: "k < length as"
  shows "\<exists>m'. prp_read_loop s prp1 prp2 (length as * 4096) (k * 4096) (as ! k) m = Some (RET_OK, m') \<and>
     (\<forall>i<length as. mem_read m' (i * 4096) 4096 = (if k \<le> i then bs ! i else mem_read m (i * 4096) 4096))"
  using k
proof (induction "length as - Suc k" arbitrary: k m)
  case 0
  then have "length as = Suc k" by simp
  then show ?case using vhost_read_page(1) [OF p 0(2), of m] vhost_read_page(2) [OF p 0(2)] by (auto simp: Let_def page_of_mem_write less_Suc_eq)
next
  case (Suc d)
  then have lt: "Suc k < length as" "d = length as - Suc (Suc k)" "length as \<noteq> Suc k" by simp_all
  from Suc.hyps(1) [OF lt(2,1), of "mem_write m (k * 4096) (bs ! k)"] show ?case
    using vhost_read_page(1) [OF p Suc.prems, of m] vhost_read_page(2) [OF p Suc.prems] lt(3)
    by (auto simp: Let_def page_of_mem_write Suc_le_eq le_less)
qed

lemma vhost_read_data:
  assumes p: "vhost_pages s prp1 prp2 as bs"
  obtains m' where "prp_read_data prp1 prp2 (length as * 4096) m s = Some (RET_OK, m')"
    "\<And>i. i < length as \<Longrightarrow> mem_read m' (i * 4096) 4096 = bs ! i"
proof -
  have a: "0 < length as" "as ! 0 = prp1" using p by (auto simp: vhost_pages_def)
  from vhost_read_pages [OF p a(1), of m] that show thesis by (auto simp: prp_read_data_def a(2))
qed

section \<open>A write command\<close>

lemma vhost_write_loop:
  assumes "write_all ftl_wr (nv_ftl (us_nvme s)) (map (\<lambda>i. (nvme_lpn cmd i, page i)) is) = Some f"
  shows "for_each is (vhost_write_body cmd page) s = Some (Next (vhost_ftl f s))"
  using assms
proof (induction "is" arbitrary: s)
  case (Cons i "is")
  from Cons.prems obtain f1 where f1: "ftl_wr (nv_ftl (us_nvme s)) (nvme_lpn cmd i) (page i) = Some f1"
    "write_all ftl_wr f1 (map (\<lambda>i. (nvme_lpn cmd i, page i)) is) = Some f"
    by (auto split: bind_splits)
  from f1(1) have "ftl_write (nv_ftl (us_nvme s)) (nvme_lpn cmd i) (Some (page i)) = Some (RET_OK, f1)"
    by (auto simp: ftl_wr_def split: if_splits option.splits)
  then have "vhost_write_body cmd page i s = Some (Next (vhost_ftl f1 s))" by (simp add: vhost_write_body_def)
  with Cons.IH [of "vhost_ftl f1 s"] f1(2) show ?case by simp
qed simp

lemma vhost_lpn_small: "unat (nvme_slba cmd) + n \<le> FTL_TOTAL_LPNS \<Longrightarrow> i < n \<Longrightarrow> nvme_lpn cmd i = unat (nvme_slba cmd) + i"
  unfolding nvme_lpn_def by (rule block_number_small) (simp add: ftl_bounds)

text \<open>The status written into a completion that was cleared before.\<close>

lemma status_put:
  "mem_read (mem_write (mem_write m pos (completion_bytes (blank_completion\<lparr>cp_cid := c, cp_sqid := q\<rparr>))) (pos + 14) [0, 0]) pos 16 =
     completion_bytes (blank_completion\<lparr>cp_cid := c, cp_sqid := q\<rparr>)"
proof (rule mem_read_cong)
  let ?c = "completion_bytes (blank_completion\<lparr>cp_cid := c, cp_sqid := q\<rparr>)"
  have "?c ! 14 = 0" "?c ! 15 = 0" by (simp_all add: completion_bytes_def blank_completion_def word_bytes_def nth_append)
  then show "mem_write (mem_write m pos ?c) (pos + 14) [0, 0] (pos + i) = ?c ! i" if "i < 16" for i
    using that by (cases "i = 14 \<or> i = 15") (auto simp: mem_write_def)
qed simp

lemma vhost_io_write_stores:
  assumes p: "vhost_pages s (nc_prp1 cmd) (nc_prp2 cmd) as bs" and n: "nvme_nlb cmd = length as"
    "length as * 4096 \<le> VHOST_USER_NVME_MAX_IO_SIZE" "unat (nvme_slba cmd) + length as \<le> FTL_TOTAL_LPNS"
    and w: "write_all ftl_wr (nv_ftl (us_nvme s)) (map (\<lambda>i. (unat (nvme_slba cmd) + i, bs ! i)) [0..<length as]) = Some f"
  obtains m where "vhost_io_write h cmd s = put_status h 0 (vhost_ftl f (s\<lparr>us_io_write_buf := m\<rparr>))"
proof -
  obtain m where m: "prp_read_data (nc_prp1 cmd) (nc_prp2 cmd) (length as * 4096) (us_io_write_buf s) s = Some (RET_OK, m)"
    "\<And>i. i < length as \<Longrightarrow> mem_read m (i * 4096) 4096 = bs ! i"
    using vhost_read_data [OF p, of "us_io_write_buf s"] by metis
  let ?page = "\<lambda>i. mem_read m (i * 4096) 4096"
  have eq: "map (\<lambda>i. (nvme_lpn cmd i, ?page i)) [0..<length as] = map (\<lambda>i. (unat (nvme_slba cmd) + i, bs ! i)) [0..<length as]"
    using n(3) m(2) by (simp add: vhost_lpn_small)
  have "for_each [0..<length as] (vhost_write_body cmd ?page) (s\<lparr>us_io_write_buf := m\<rparr>) = Some (Next (vhost_ftl f (s\<lparr>us_io_write_buf := m\<rparr>)))"
    by (rule vhost_write_loop, unfold eq) (use w in simp)
  then have "vhost_io_write h cmd s = put_status h 0 (vhost_ftl f (s\<lparr>us_io_write_buf := m\<rparr>))"
    using m(1) n(1,2) by (simp add: vhost_io_write_def Let_def vhost_write_pages_def)
  then show thesis by (rule that)
qed

text \<open>A write command in the buffer of a descriptor.\<close>

definition write_at :: "vhost_sys \<Rightarrow> hva \<Rightarrow> nvme_command \<Rightarrow> bool" where
  "write_at s h cmd \<longleftrightarrow>
     (\<exists>b. read_guest h 0 64 s = Some b \<and> command_at ((!) b) 0 = cmd) \<and> nc_opcode cmd = NVME_IO_WRITE \<and> 80 \<le> snd (snd h)"

text \<open>The state after the completion is cleared.\<close>

definition cleared :: "nat \<Rightarrow> hva \<Rightarrow> nvme_command \<Rightarrow> vhost_sys \<Rightarrow> vhost_sys" where
  "cleared q h cmd s =
     s\<lparr>us_mem := (us_mem s)(fst h := mem_write (us_mem s (fst h)) (fst (snd h) + 64)
        (completion_bytes (blank_completion\<lparr>cp_cid := nc_cid cmd, cp_sqid := of_nat q\<rparr>)))\<rparr>"

lemma process_write_command:
  assumes "q \<noteq> 0" "write_at s h cmd" "vhost_pages (cleared q h cmd s) (nc_prp1 cmd) (nc_prp2 cmd) as bs" "nvme_nlb cmd = length as"
    and "length as * 4096 \<le> VHOST_USER_NVME_MAX_IO_SIZE" "unat (nvme_slba cmd) + length as \<le> FTL_TOTAL_LPNS"
    and "write_all ftl_wr (nv_ftl (us_nvme s)) (map (\<lambda>i. (unat (nvme_slba cmd) + i, bs ! i)) [0..<length as]) = Some f"
  obtains m mem where "process_nvme_command q h s = Some (vhost_ftl f (s\<lparr>us_io_write_buf := m, us_mem := mem\<rparr>))"
    "mem_read (mem (fst h)) (fst (snd h) + 64) 16 = completion_bytes (blank_completion\<lparr>cp_cid := nc_cid cmd, cp_sqid := of_nat q\<rparr>)"
    "\<And>ob. ob \<noteq> fst h \<Longrightarrow> mem ob = us_mem s ob"
proof -
  obtain ob pos room where h: "h = (ob, pos, room)" by (cases h)
  let ?c = "completion_bytes (blank_completion\<lparr>cp_cid := nc_cid cmd, cp_sqid := of_nat q\<rparr>)"
  let ?s1 = "cleared q h cmd s"
  obtain b where b: "read_guest h 0 64 s = Some b" "command_at ((!) b) 0 = cmd" "nc_opcode cmd = NVME_IO_WRITE" "80 \<le> room"
    using assms(2) by (auto simp: write_at_def h)
  have c: "put_completion h (blank_completion\<lparr>cp_cid := nc_cid cmd, cp_sqid := of_nat q\<rparr>) s = Some ?s1"
    using b(4) by (simp add: put_completion_def write_guest_def h cleared_def)
  have "nv_ftl (us_nvme ?s1) = nv_ftl (us_nvme s)" by (simp add: cleared_def)
  then obtain m where m: "vhost_io_write h cmd ?s1 = put_status h 0 (vhost_ftl f (?s1\<lparr>us_io_write_buf := m\<rparr>))"
    using vhost_io_write_stores [OF assms(3-6), of f h] assms(7) by metis
  let ?mem = "(us_mem ?s1)(ob := mem_write (us_mem ?s1 ob) (pos + 78) [0, 0])"
  have "put_status h 0 (vhost_ftl f (?s1\<lparr>us_io_write_buf := m\<rparr>)) = Some (vhost_ftl f (s\<lparr>us_io_write_buf := m, us_mem := ?mem\<rparr>))"
    using b(4) by (simp add: put_status_def write_guest_def h cleared_def word_bytes_def upt_rec)
  moreover have "process_nvme_command q h s = vhost_io_write h cmd ?s1"
    using assms(1) b(1-3) c by (simp add: process_nvme_command_def Let_def vhost_io_command_def)
  ultimately have "process_nvme_command q h s = Some (vhost_ftl f (s\<lparr>us_io_write_buf := m, us_mem := ?mem\<rparr>))" using m by simp
  moreover have "mem_read (?mem (fst h)) (fst (snd h) + 64) 16 = ?c"
    using status_put [of "us_mem s ob" "pos + 64" "of_nat q" "nc_cid cmd"] by (simp add: h cleared_def add.assoc)
  moreover have "?mem x = us_mem s x" if "x \<noteq> fst h" for x using that by (simp add: h cleared_def)
  ultimately show thesis by (rule that)
qed

text \<open>One descriptor waits in the available ring of a vring; the three rings and the buffer are mapped.\<close>

definition one_waits :: "nat \<Rightarrow> hva \<Rightarrow> nat \<Rightarrow> hva \<Rightarrow> vhost_sys \<Rightarrow> bool" where
  "one_waits q hu d h s \<longleftrightarrow>
     (let v = us_vrings s q in
      vr_enabled v \<and> 0 \<le> vr_kick_fd v \<and> vr_num v \<noteq> 0 \<and> gpa_to_hva s (vr_used_addr v) = Some hu \<and>
      4 + 8 * (unat (vr_used_idx v) mod unat (vr_num v)) + 8 \<le> snd (snd hu) \<and>
      (\<exists>hdesc ha bs a.
         gpa_to_hva s (vr_desc_addr v) = Some hdesc \<and> gpa_to_hva s (vr_avail_addr v) = Some ha \<and>
         read_guest ha 2 2 s = Some (word_bytes 2 (unat (vr_last_avail v + 1))) \<and> avail_entry ha v s = Some d \<and>
         read_guest hdesc (16 * d) 8 s = Some bs \<and> word_at ((!) bs) 0 8 = a \<and> gpa_to_hva s (of_nat a) = Some h))"

text \<open>The used ring after one more element.\<close>

lemma put_used_puts:
  assumes "vr_num (us_vrings s q) \<noteq> 0" "hu = (ou, pu, ru)"
    and "4 + 8 * (unat (vr_used_idx (us_vrings s q)) mod unat (vr_num (us_vrings s q))) + 8 \<le> ru"
  obtains mem where "put_used q hu d s = Some (upd_vring q (\<lambda>v. v\<lparr>vr_used_idx := vr_used_idx v + 1\<rparr>) (s\<lparr>us_mem := mem\<rparr>))"
    "mem_read (mem ou) (pu + 2) 2 = word_bytes 2 (unat (vr_used_idx (us_vrings s q) + 1))"
    "mem_read (mem ou) (pu + (4 + 8 * (unat (vr_used_idx (us_vrings s q)) mod unat (vr_num (us_vrings s q))))) 8 = word_bytes 4 d @ word_bytes 4 16"
    "\<And>ob. ob \<noteq> ou \<Longrightarrow> mem ob = us_mem s ob"
proof -
  define k where "k = unat (vr_used_idx (us_vrings s q)) mod unat (vr_num (us_vrings s q))"
  let ?e = "word_bytes 4 d @ word_bytes 4 16" and ?i = "word_bytes 2 (unat (vr_used_idx (us_vrings s q) + 1))"
  let ?m1 = "mem_write (us_mem s ou) (pu + (4 + 8 * k)) ?e"
  let ?mem = "(us_mem s)(ou := mem_write ?m1 (pu + 2) ?i)"
  have "put_used q hu d s = Some (upd_vring q (\<lambda>v. v\<lparr>vr_used_idx := vr_used_idx v + 1\<rparr>) (s\<lparr>us_mem := ?mem\<rparr>))"
    using assms(1,3) by (simp add: put_used_def ring_slot_def k_def [symmetric] write_guest_def assms(2) upd_vring_def Let_def add.assoc)
  moreover have "mem_read (?mem ou) (pu + 2) 2 = ?i" by (simp add: mem_read_write_same)
  moreover have "mem_read (?mem ou) (pu + (4 + 8 * k)) 8 = ?e" by (simp add: mem_read_write_disjoint mem_read_write_same)
  moreover have "?mem ob = us_mem s ob" if "ob \<noteq> ou" for ob using that by simp
  ultimately show thesis unfolding k_def by (rule that)
qed

text \<open>The call with one write command in the ring.\<close>

lemma vhost_run:
  assumes "q \<noteq> 0" "k \<noteq> Kick_failed" "one_waits q hu d h s" "write_at s h cmd" "nvme_nlb cmd = length as"
    and "vhost_pages (cleared q h cmd s) (nc_prp1 cmd) (nc_prp2 cmd) as bs"
    and "length as * 4096 \<le> VHOST_USER_NVME_MAX_IO_SIZE" "unat (nvme_slba cmd) + length as \<le> FTL_TOTAL_LPNS"
    and "ftl_ready (nv_ftl (us_nvme s))"
    and "write_all ftl_wr (nv_ftl (us_nvme s)) (map (\<lambda>i. (unat (nvme_slba cmd) + i, bs ! i)) [0..<length as]) = Some f"
    and "us_vrings s q = v" "hu = (ou, pu, ru)" "h = (ob, pos, room)" "ob \<noteq> ou"
  shows "\<exists>s'. process_vring k q s = Some s' \<and> nv_ftl (us_nvme s') = f \<and>
     (\<forall>i<length as. logical f (unat (nvme_slba cmd) + i) = Some (bs ! i)) \<and>
     mem_read (us_mem s' ob) (pos + 64) 16 = completion_bytes (blank_completion\<lparr>cp_cid := nc_cid cmd, cp_sqid := of_nat q\<rparr>) \<and>
     mem_read (us_mem s' ou) (pu + 2) 2 = word_bytes 2 (unat (vr_used_idx v + 1)) \<and>
     mem_read (us_mem s' ou) (pu + (4 + 8 * (unat (vr_used_idx v) mod unat (vr_num v)))) 8 = word_bytes 4 d @ word_bytes 4 16 \<and>
     us_vrings s' q = v\<lparr>vr_used_idx := vr_used_idx v + 1, vr_last_avail := vr_last_avail v + 1\<rparr> \<and>
     us_calls s' = us_calls s @ (if 0 \<le> vr_call_fd v then [vr_call_fd v] else [])"
proof -
  obtain hdesc ha bs0 where w: "vr_enabled v" "0 \<le> vr_kick_fd v" "vr_num v \<noteq> 0" "gpa_to_hva s (vr_used_addr v) = Some hu"
    "4 + 8 * (unat (vr_used_idx v) mod unat (vr_num v)) + 8 \<le> ru"
    "gpa_to_hva s (vr_desc_addr v) = Some hdesc" "gpa_to_hva s (vr_avail_addr v) = Some ha"
    "read_guest ha 2 2 s = Some (word_bytes 2 (unat (vr_last_avail v + 1)))" "avail_entry ha v s = Some d"
    "read_guest hdesc (16 * d) 8 s = Some bs0" "gpa_to_hva s (of_nat (word_at ((!) bs0) 0 8)) = Some h"
    using assms(3) unfolding one_waits_def Let_def assms(11,12) by auto
  obtain m mem where p: "process_nvme_command q h s = Some (vhost_ftl f (s\<lparr>us_io_write_buf := m, us_mem := mem\<rparr>))"
    "mem_read (mem (fst h)) (fst (snd h) + 64) 16 = completion_bytes (blank_completion\<lparr>cp_cid := nc_cid cmd, cp_sqid := of_nat q\<rparr>)"
    "\<And>x. x \<noteq> fst h \<Longrightarrow> mem x = us_mem s x"
    using process_write_command [OF assms(1,4,6,5,7,8,10)] by blast
  let ?s1 = "vhost_ftl f (s\<lparr>us_io_write_buf := m, us_mem := mem\<rparr>)"
  have v1: "us_vrings ?s1 q = v" using assms(11) by simp
  obtain mem2 where u: "put_used q hu d ?s1 = Some (upd_vring q (\<lambda>v. v\<lparr>vr_used_idx := vr_used_idx v + 1\<rparr>) (?s1\<lparr>us_mem := mem2\<rparr>))"
    "mem_read (mem2 ou) (pu + 2) 2 = word_bytes 2 (unat (vr_used_idx v + 1))"
    "mem_read (mem2 ou) (pu + (4 + 8 * (unat (vr_used_idx v) mod unat (vr_num v)))) 8 = word_bytes 4 d @ word_bytes 4 16"
    "\<And>x. x \<noteq> ou \<Longrightarrow> mem2 x = mem x"
    by (rule put_used_puts [of ?s1 q hu ou pu ru d]) (use v1 w(3,5) assms(12) in simp_all)
  let ?s2 = "upd_vring q (\<lambda>v. v\<lparr>vr_used_idx := vr_used_idx v + 1\<rparr>) (?s1\<lparr>us_mem := mem2\<rparr>)"
  let ?s3 = "vring_call q (next_avail q ?s2)"
  have serve: "serve_avail q hdesc ha hu s = Some ?s3"
    using w(9-11) p(1) u(1) assms(11) by (simp add: serve_avail_def)
  have idx: "of_nat (word_at ((!) (word_bytes 2 (unat (vr_last_avail v + 1)))) 0 2) = vr_last_avail v + 1"
  proof -
    have "unat (vr_last_avail v + 1) < 2 ^ LENGTH(16)" by (rule unsigned_less)
    then have "word_at ((!) (word_bytes 2 (unat (vr_last_avail v + 1)))) 0 2 = unat (vr_last_avail v + 1)"
      by (intro word_at_bytes) simp_all
    then show ?thesis by simp
  qed
  have s3: "us_vrings ?s3 q = v\<lparr>vr_used_idx := vr_used_idx v + 1, vr_last_avail := vr_last_avail v + 1\<rparr>"
    "us_nvme ?s3 = us_nvme ?s1" "us_mem ?s3 = mem2" "us_calls ?s3 = us_calls s @ (if 0 \<le> vr_call_fd v then [vr_call_fd v] else [])"
    using assms(11) by (simp_all add: vring_call_def next_avail_def upd_vring_def Let_def)
  have "vring_loop q (vr_last_avail v + 1) hdesc ha hu s = vring_loop q (vr_last_avail v + 1) hdesc ha hu ?s3"
    by (subst vring_loop.simps) (simp add: serve assms(11))
  also have "\<dots> = Some ?s3" by (subst vring_loop.simps) (use s3(1) in simp)
  finally have run: "process_vring k q s = Some ?s3"
    using assms(2) w(1,2,4,6-8) assms(11) by (simp add: process_vring_def Let_def idx)
  have "mem_read (mem2 ob) (pos + 64) 16 = completion_bytes (blank_completion\<lparr>cp_cid := nc_cid cmd, cp_sqid := of_nat q\<rparr>)"
    using p(2) u(4) assms(13,14) by simp
  then show ?thesis
    using run s3 u(2,3) range_written [OF assms(9,10)] by (intro exI [of _ ?s3]) simp
qed

text \<open>One write command waits in a vring.  The call takes its pages, the one at PRP1, the one at PRP2 and then the
  entries of the list at PRP2 from the second on, stores them in the FTL, which then holds them block by block,
  completes the command with success in its buffer, puts its descriptor into the used ring and signals the call
  descriptor once.\<close>

theorem vhost_write_stores:
  assumes "q \<noteq> 0" "k \<noteq> Kick_failed" "one_waits q hu d h s" "write_at s h cmd" "nvme_nlb cmd = length as"
    and "vhost_pages (cleared q h cmd s) (nc_prp1 cmd) (nc_prp2 cmd) as bs"
    and "length as * 4096 \<le> VHOST_USER_NVME_MAX_IO_SIZE" "unat (nvme_slba cmd) + length as \<le> FTL_TOTAL_LPNS"
    and "ftl_ready (nv_ftl (us_nvme s))"
    and "write_all ftl_wr (nv_ftl (us_nvme s)) (map (\<lambda>i. (unat (nvme_slba cmd) + i, bs ! i)) [0..<length as]) = Some f"
    and "us_vrings s q = v" "hu = (ou, pu, ru)" "h = (ob, pos, room)" "ob \<noteq> ou"
  shows "\<exists>s'. process_vring k q s = Some s' \<and> nv_ftl (us_nvme s') = f \<and>
     (\<forall>i<length as. logical f (unat (nvme_slba cmd) + i) = Some (bs ! i)) \<and>
     mem_read (us_mem s' ob) (pos + 64) 16 = completion_bytes (blank_completion\<lparr>cp_cid := nc_cid cmd, cp_sqid := of_nat q\<rparr>) \<and>
     mem_read (us_mem s' ou) (pu + 2) 2 = word_bytes 2 (unat (vr_used_idx v + 1)) \<and>
     mem_read (us_mem s' ou) (pu + (4 + 8 * (unat (vr_used_idx v) mod unat (vr_num v)))) 8 = word_bytes 4 d @ word_bytes 4 16 \<and>
     us_vrings s' q = v\<lparr>vr_used_idx := vr_used_idx v + 1, vr_last_avail := vr_last_avail v + 1\<rparr> \<and>
     us_calls s' = us_calls s @ (if 0 \<le> vr_call_fd v then [vr_call_fd v] else [])"
  by (rule vhost_run [OF assms])

text \<open>For a write of more than two pages PRP2 is the address of a list of pages, but the code takes it for the
  second page: block \<open>slba + 1\<close> then holds the list itself instead of the page its first entry names, and the command
  is completed with success.\<close>

theorem vhost_prp_list_stored:
  assumes "q \<noteq> 0" "k \<noteq> Kick_failed" "one_waits q (ou, pu, ru) d (ob, pos, room) s" "write_at s (ob, pos, room) cmd" "nvme_nlb cmd = length as"
    and "vhost_pages (cleared q (ob, pos, room) cmd s) (nc_prp1 cmd) (nc_prp2 cmd) as bs" "2 < length as"
    and "length as * 4096 \<le> VHOST_USER_NVME_MAX_IO_SIZE" "unat (nvme_slba cmd) + length as \<le> FTL_TOTAL_LPNS"
    and "ftl_ready (nv_ftl (us_nvme s))" "ob \<noteq> ou"
    and "write_all ftl_wr (nv_ftl (us_nvme s)) (map (\<lambda>i. (unat (nvme_slba cmd) + i, bs ! i)) [0..<length as]) = Some f"
    and "list_entry (cleared q (ob, pos, room) cmd s) (nc_prp2 cmd) 0 = Some a"
    and "vhost_page (cleared q (ob, pos, room) cmd s) a = Some c"
    and "vhost_page (cleared q (ob, pos, room) cmd s) (nc_prp2 cmd) \<noteq> Some c"
  shows "\<exists>s'. process_vring k q s = Some s' \<and>
     logical (nv_ftl (us_nvme s')) (unat (nvme_slba cmd) + 1) = vhost_page (cleared q (ob, pos, room) cmd s) (nc_prp2 cmd) \<and>
     logical (nv_ftl (us_nvme s')) (unat (nvme_slba cmd) + 1) \<noteq> Some c \<and>
     mem_read (us_mem s' ob) (pos + 64) 16 = completion_bytes (blank_completion\<lparr>cp_cid := nc_cid cmd, cp_sqid := of_nat q\<rparr>)"
proof -
  obtain s' where s': "process_vring k q s = Some s'" "nv_ftl (us_nvme s') = f"
    "\<forall>i<length as. logical f (unat (nvme_slba cmd) + i) = Some (bs ! i)"
    "mem_read (us_mem s' ob) (pos + 64) 16 = completion_bytes (blank_completion\<lparr>cp_cid := nc_cid cmd, cp_sqid := of_nat q\<rparr>)"
    using range_written [OF assms(10,12)] vhost_run [OF assms(1-6,8-10,12) refl refl refl assms(11)] by blast
  have "vhost_page (cleared q (ob, pos, room) cmd s) (nc_prp2 cmd) = Some (bs ! 1)"
    using assms(6,7) by (auto simp: vhost_pages_def dest: spec [of _ 1])
  moreover have "logical f (unat (nvme_slba cmd) + 1) = Some (bs ! 1)" by (rule s'(3) [rule_format]) (use assms(7) in simp)
  ultimately show ?thesis using s'(1,2,4) assms(15) by (intro exI [of _ s']) simp
qed

section \<open>Registers beyond the image\<close>

text \<open>A request for registers that lie behind the image of 4096 bytes is not refused: the length that is left
  wraps around in 32 bits and the copy goes out of bounds.\<close>

theorem vhost_get_config_beyond:
  assumes "VHOST_USER_NVME_REG_SIZE < word_at p 0 4"
  shows "handle_get_config p s = None"
proof -
  have lt: "word_at p 0 4 < 2 ^ 32" using word_at_less [of p 0 4] by simp
  let ?o = "of_nat (word_at p 0 4) :: u32" and ?n = "of_nat (word_at p 4 4) :: u32"
  have o: "unat ?o = word_at p 0 4" using lt by (rule u32_small)
  let ?k = "if 4096 < ?n then 4096 else ?n"
  have k: "config_len ?o ?n = (if 4096 < ?o + ?k then 4096 - ?o else ?k)"
    by (simp add: config_len_def VHOST_USER_NVME_REG_SIZE_def)
  have "config_len ?o ?n \<noteq> 0 \<and> VHOST_USER_NVME_REG_SIZE < unat ?o + unat (config_len ?o ?n)"
  proof (cases "4096 < ?o + ?k")
    case True
    have "unat (4096 - ?o) = 2 ^ 32 + 4096 - unat ?o"
      using assms lt o by (simp add: unat_sub_if' VHOST_USER_NVME_REG_SIZE_def)
    then show ?thesis unfolding k if_P [OF True] using lt o by (auto simp: VHOST_USER_NVME_REG_SIZE_def)
  next
    case False
    then have "?k \<noteq> 0" using assms o by (auto simp: word_less_nat_alt VHOST_USER_NVME_REG_SIZE_def)
    then show ?thesis unfolding k if_not_P [OF False] using assms o by simp
  qed
  then show ?thesis by (simp add: handle_get_config_def Let_def)
qed

lemma vhost_get_config_beyond_witness: "handle_get_config (\<lambda>_. 0xFF) s = None"
  by (rule vhost_get_config_beyond) (simp add: word_at_def VHOST_USER_NVME_REG_SIZE_def lessThan_nat_numeral)

section \<open>A guest\<close>

text \<open>Two regions: at \<open>0x10000\<close> the buffer of a descriptor, pages of data and a list of pages, at \<open>0x20000\<close> the rings.  The
  command is a write of \<open>nb + 1\<close> pages.\<close>

definition buffer_memory :: "u8 \<Rightarrow> nat \<Rightarrow> u8" where
  "buffer_memory nb j =
     (if j < 0x2000
      then (if j = 0 then 1 else if j = 2 then 9 else if j = 25 then 0x20 else if j = 26 then 1 else if j = 33 then 0x30
            else if j = 34 then 1 else if j = 48 then nb else 0)
      else if j < 0x3000 then 7
      else if j < 0x4000
      then (if j = 0x3001 then 0x40 else if j = 0x3002 then 1 else if j = 0x3009 then 0x50 else if j = 0x300A then 1 else 0)
      else if j < 0x5000 then 8 else 9)"

definition ring_memory :: "nat \<Rightarrow> u8" where
  "ring_memory j = (if j = 2 \<or> j = 0x102 then 1 else 0)"

definition demo_vring :: vhost_vring where
  "demo_vring = \<lparr>vr_num = 4, vr_desc_addr = 0x20000, vr_avail_addr = 0x20100, vr_used_addr = 0x20200, vr_base = 0, vr_kick_fd = 4,
     vr_call_fd = 5, vr_enabled = True, vr_last_avail = 0, vr_used_idx = 0\<rparr>"

definition vhost_demo :: "u8 \<Rightarrow> vhost_sys" where
  "vhost_demo nb = \<lparr>us_socket_fd = 2, us_conn_fd = 3, us_running = True, us_connected = True, us_features = 0, us_protocol_features = 0,
     us_owner_set = True,
     us_regions = (\<lambda>i. if i = 0 then \<lparr>mr_gpa = 0x10000, mr_size = 0x10000, mr_mmap_offset = 0, mr_mapping = Some (0, 0), mr_fd = 6\<rparr>
        else \<lparr>mr_gpa = 0x20000, mr_size = 0x1000, mr_mmap_offset = 0, mr_mapping = Some (1, 0), mr_fd = 7\<rparr>),
     us_region_count = 2, us_vrings = (\<lambda>_. zero_vring)(1 := demo_vring), us_regs = replicate VHOST_USER_NVME_REG_SIZE 0,
     us_config = \<lparr>ug_socket_path = VHOST_USER_NVME_DEFAULT_SOCKET, ug_max_queues = 2\<rparr>, us_io_read_buf = \<lambda>_. 0,
     us_io_write_buf = \<lambda>_. 0, us_mem = (\<lambda>ob. if ob = 0 then buffer_memory nb else ring_memory), us_nvme = nvme_boot, us_sent = [],
     us_closed = [], us_calls = [], us_recv = \<lambda>_. No_data, us_recv_count = 0\<rparr>"

lemma vhost_demo_fields:
  "us_vrings (vhost_demo nb) 1 = demo_vring" "us_mem (vhost_demo nb) 0 = buffer_memory nb" "us_mem (vhost_demo nb) 1 = ring_memory"
  "nv_ftl (us_nvme (vhost_demo nb)) = example_ftl" "us_calls (vhost_demo nb) = []"
  by (simp_all add: vhost_demo_def nvme_boot_ftl)

lemma vhost_demo_hva:
  "0x10000 \<le> a \<Longrightarrow> a < 0x20000 \<Longrightarrow> gpa_to_hva (vhost_demo nb) a = Some (0, unat a - 0x10000, 0x20000 - unat a)"
  "0x20000 \<le> a \<Longrightarrow> a < 0x21000 \<Longrightarrow> gpa_to_hva (vhost_demo nb) a = Some (1, unat a - 0x20000, 0x21000 - unat a)"
proof -
  have u: "[0..<2] = [0, Suc 0]" by (simp add: upt_rec)
  show "0x10000 \<le> a \<Longrightarrow> a < 0x20000 \<Longrightarrow> gpa_to_hva (vhost_demo nb) a = Some (0, unat a - 0x10000, 0x20000 - unat a)"
    by (simp add: gpa_to_hva_def vhost_demo_def u Let_def unat_sub word_le_nat_alt)
  show "0x20000 \<le> a \<Longrightarrow> a < 0x21000 \<Longrightarrow> gpa_to_hva (vhost_demo nb) a = Some (1, unat a - 0x20000, 0x21000 - unat a)"
    by (simp add: gpa_to_hva_def vhost_demo_def u Let_def unat_sub word_le_nat_alt word_less_nat_alt)
qed

definition demo_command :: "u8 \<Rightarrow> nvme_command" where
  "demo_command nb = blank_command\<lparr>nc_opcode := NVME_IO_WRITE, nc_cid := 9, nc_prp1 := 0x12000, nc_prp2 := 0x13000, nc_cdw12 := ucast nb\<rparr>"

lemma demo_command_at: "command_at ((!) (mem_read (buffer_memory nb) 0 64)) 0 = demo_command nb"
proof -
  let ?m = "(!) (mem_read (buffer_memory nb) 0 64)"
  have at: "?m i = buffer_memory nb i" if "i < 64" for i using that by simp
  have z: "word_at ?m k n = 0" if "35 \<le> k" "k + n \<le> 48 \<or> (49 \<le> k \<and> k + n \<le> 64)" for k n
    unfolding word_at_def by (rule sum.neutral) (use that in \<open>auto simp: at buffer_memory_def\<close>)
  have "word_at ?m 2 2 = 9" "word_at ?m 4 4 = 0" "word_at ?m 16 8 = 0" "word_at ?m 24 8 = 0x12000" "word_at ?m 32 8 = 0x13000"
    by (rule word_at_bytes; simp add: at buffer_memory_def word_bytes_def nth_Cons' upt_rec)+
  moreover have "word_at ?m 48 4 = unat nb"
  proof (rule word_at_bytes)
    have "unat nb < 2 ^ LENGTH(8)" by (rule unsigned_less)
    then show "unat nb < 256 ^ 4" "\<And>i. i < 4 \<Longrightarrow> ?m (48 + i) = word_bytes 4 (unat nb) ! i"
      by (auto simp: at buffer_memory_def word_bytes_def nth_Cons' upt_rec)
  qed
  ultimately show ?thesis
    by (simp add: command_at_def demo_command_def blank_command_def at z del: add_2_eq_Suc') (simp add: buffer_memory_def)
qed

text \<open>The pages of the transfer when it has one page, and when it has three.\<close>

lemma demo_pages:
  "vhost_pages (cleared 1 (0, 0, 0x10000) (demo_command nb) (vhost_demo nb)) 0x12000 0x13000 [0x12000] [replicate 4096 7]"
  "vhost_pages (cleared 1 (0, 0, 0x10000) (demo_command nb) (vhost_demo nb)) 0x12000 0x13000 [0x12000, 0x13000, 0x15000]
     [replicate 4096 7, mem_read (buffer_memory nb) 0x3000 4096, replicate 4096 9]"
  "list_entry (cleared 1 (0, 0, 0x10000) (demo_command nb) (vhost_demo nb)) 0x13000 0 = Some 0x14000"
  "vhost_page (cleared 1 (0, 0, 0x10000) (demo_command nb) (vhost_demo nb)) 0x14000 = Some (replicate 4096 8)"
  "vhost_page (cleared 1 (0, 0, 0x10000) (demo_command nb) (vhost_demo nb)) 0x13000 = Some (mem_read (buffer_memory nb) 0x3000 4096)"
proof -
  define s where "s = cleared 1 (0, 0, 0x10000) (demo_command nb) (vhost_demo nb)"
  have hva: "gpa_to_hva s = gpa_to_hva (vhost_demo nb)" by (rule vhost_hva_cong) (simp_all add: s_def cleared_def)
  have mem: "mem_read (us_mem s 0) off n = mem_read (buffer_memory nb) off n" if "80 \<le> off" for off n
    using that by (simp add: s_def cleared_def vhost_demo_fields mem_read_write_disjoint)
  let ?s = "cleared 1 (0, 0, 0x10000) (demo_command nb) (vhost_demo nb)"
  have page: "vhost_page s a = Some (mem_read (buffer_memory nb) (unat a - 0x10000) 4096)" if "0x11000 \<le> a" "a \<le> 0x1F000" for a
    using that by (simp add: vhost_page_def hva vhost_demo_hva read_guest_def mem word_le_nat_alt word_less_nat_alt)
  have c: "mem_read (buffer_memory nb) 0x2000 4096 = replicate 4096 7" "mem_read (buffer_memory nb) 0x4000 4096 = replicate 4096 8"
    "mem_read (buffer_memory nb) 0x5000 4096 = replicate 4096 9"
    by (rule mem_read_cong; simp add: buffer_memory_def)+
  have entry: "word_at ((!) (mem_read (buffer_memory nb) 0x3000 8)) 0 8 = 0x14000" "word_at ((!) (mem_read (buffer_memory nb) 0x3008 8)) 0 8 = 0x15000"
    by (rule word_at_bytes; simp add: buffer_memory_def word_bytes_def nth_Cons' upt_rec)+
  have l: "list_entry s 0x13000 0 = Some 0x14000" "list_entry s 0x13000 1 = Some 0x15000"
    using entry by (simp_all add: list_entry_def hva vhost_demo_hva read_guest_def mem)
  show "vhost_page ?s 0x14000 = Some (replicate 4096 8)" "vhost_page ?s 0x13000 = Some (mem_read (buffer_memory nb) 0x3000 4096)"
    by (fold s_def) (simp_all add: page c)
  show "vhost_pages ?s 0x12000 0x13000 [0x12000] [replicate 4096 7]"
    by (fold s_def) (simp add: vhost_pages_def page c)
  show "list_entry ?s 0x13000 0 = Some 0x14000" by (fold s_def) (rule l(1))
  have pg: "vhost_page s 0x12000 = Some (replicate 4096 7)" "vhost_page s 0x13000 = Some (mem_read (buffer_memory nb) 0x3000 4096)"
    "vhost_page s 0x15000 = Some (replicate 4096 9)" by (simp_all add: page c)
  show "vhost_pages ?s 0x12000 0x13000 [0x12000, 0x13000, 0x15000] [replicate 4096 7, mem_read (buffer_memory nb) 0x3000 4096, replicate 4096 9]"
    unfolding s_def [symmetric] vhost_pages_def using l pg by (auto simp: less_Suc_eq numeral_3_eq_3 numeral_2_eq_2)
qed

lemma one_waitsI:
  assumes "us_vrings s q = v" "vr_enabled v" "0 \<le> vr_kick_fd v" "vr_num v \<noteq> 0" "gpa_to_hva s (vr_used_addr v) = Some hu"
    and "4 + 8 * (unat (vr_used_idx v) mod unat (vr_num v)) + 8 \<le> snd (snd hu)"
    and "gpa_to_hva s (vr_desc_addr v) = Some hdesc" "gpa_to_hva s (vr_avail_addr v) = Some ha"
    and "read_guest ha 2 2 s = Some (word_bytes 2 (unat (vr_last_avail v + 1)))" "avail_entry ha v s = Some d"
    and "read_guest hdesc (16 * d) 8 s = Some bs" "word_at ((!) bs) 0 8 = a" "gpa_to_hva s (of_nat a) = Some h"
  shows "one_waits q hu d h s"
  unfolding one_waits_def Let_def assms(1) using assms(2-) by blast

lemma demo_waits: "one_waits 1 (1, 0x200, 0xE00) 0 (0, 0, 0x10000) (vhost_demo nb)"
proof (rule one_waitsI [OF vhost_demo_fields(1)])
  show "gpa_to_hva (vhost_demo nb) (vr_desc_addr demo_vring) = Some (1, 0, 0x1000)"
    "gpa_to_hva (vhost_demo nb) (vr_avail_addr demo_vring) = Some (1, 0x100, 0xF00)"
    "gpa_to_hva (vhost_demo nb) (vr_used_addr demo_vring) = Some (1, 0x200, 0xE00)"
    by (simp_all add: vhost_demo_hva demo_vring_def)
  show "gpa_to_hva (vhost_demo nb) (of_nat 0x10000) = Some (0, 0, 0x10000)" by (simp add: vhost_demo_hva)
  have two: "[0..<2] = [0, 1 :: nat]" by (simp add: upt_rec)
  have m: "mem_read ring_memory 0x102 2 = [1, 0]" "mem_read ring_memory 0x104 2 = [0, 0]"
    unfolding mem_read_def two by (simp_all add: ring_memory_def)
  have g: "read_guest (1, 0x100, 0xF00) off 2 (vhost_demo nb) = Some (mem_read ring_memory (0x100 + off) 2)" if "off < 0x100" for off
    using that vhost_demo_fields(3) [of nb] unfolding read_guest_def by (simp del: One_nat_def)
  have w: "word_bytes 2 1 = [1, 0]" unfolding word_bytes_def two by simp
  show "read_guest (1, 0x100, 0xF00) 2 2 (vhost_demo nb) = Some (word_bytes 2 (unat (vr_last_avail demo_vring + 1)))"
    by (subst g) (simp_all add: demo_vring_def m w del: One_nat_def)
  have z: "word_at ((!) [0, 0 :: u8]) 0 2 = 0"
    unfolding word_at_def by (rule sum.neutral) (auto simp: less_Suc_eq numeral_2_eq_2)
  have "ring_slot (vr_last_avail demo_vring) demo_vring = Some 0" by (simp add: ring_slot_def demo_vring_def)
  then show "avail_entry (1, 0x100, 0xF00) demo_vring (vhost_demo nb) = Some 0"
    unfolding avail_entry_def by (simp add: g m z del: One_nat_def)
  show "read_guest (1, 0, 0x1000) (16 * 0) 8 (vhost_demo nb) = Some (mem_read ring_memory 0 8)"
    using vhost_demo_fields(3) by (simp add: read_guest_def)
  show "word_at ((!) (mem_read ring_memory 0 8)) 0 8 = 0x10000"
    by (rule word_at_bytes) (simp_all add: ring_memory_def word_bytes_def nth_Cons' upt_rec)
qed (simp_all add: demo_vring_def)

lemma demo_write: "write_at (vhost_demo nb) (0, 0, 0x10000) (demo_command nb)"
proof -
  have "read_guest (0, 0, 0x10000) 0 64 (vhost_demo nb) = Some (mem_read (buffer_memory nb) 0 64)"
    unfolding read_guest_def by (simp add: vhost_demo_fields)
  moreover have "nc_opcode (demo_command nb) = NVME_IO_WRITE" by (simp add: demo_command_def)
  ultimately show ?thesis unfolding write_at_def using demo_command_at [of nb] by auto
qed

lemma vhost_write_stores_witness:
  "\<exists>s'. process_vring Kicked 1 (vhost_demo 0) = Some s' \<and> logical (nv_ftl (us_nvme s')) 0 = Some (replicate 4096 7) \<and>
     mem_read (us_mem s' 1) 0x204 8 = word_bytes 4 0 @ word_bytes 4 16 \<and> us_calls s' = [5]"
proof -
  let ?bs = "[replicate 4096 7 :: u8 list]"
  have c: "nvme_nlb (demo_command 0) = length [0x12000 :: u64]" "nc_prp1 (demo_command 0) = 0x12000" "nc_prp2 (demo_command 0) = 0x13000"
    "nvme_slba (demo_command 0) = 0"
    by (simp_all add: demo_command_def blank_command_def nvme_nlb_def nvme_slba_def)
  have p: "vhost_pages (cleared 1 (0, 0, 0x10000) (demo_command 0) (vhost_demo 0)) (nc_prp1 (demo_command 0)) (nc_prp2 (demo_command 0)) [0x12000] ?bs"
    unfolding c by (rule demo_pages(1))
  have lim: "length [0x12000 :: u64] * 4096 \<le> VHOST_USER_NVME_MAX_IO_SIZE"
    "unat (nvme_slba (demo_command 0)) + length [0x12000 :: u64] \<le> FTL_TOTAL_LPNS"
    by (simp_all add: VHOST_USER_NVME_MAX_IO_SIZE_def c ftl_bounds)
  have ready: "ftl_ready (nv_ftl (us_nvme (vhost_demo 0)))" by (simp add: vhost_demo_fields example_ftl_facts)
  have "0 < FTL_TOTAL_LPNS" "length (?bs ! 0) = NAND_PAGE_SIZE" by (simp_all add: ftl_bounds NAND_PAGE_SIZE_def)
  then obtain f where "ftl_wr example_ftl 0 (?bs ! 0) = Some f" by (rule example_ftl_write)
  then have w: "write_all ftl_wr (nv_ftl (us_nvme (vhost_demo 0)))
      (map (\<lambda>i. (unat (nvme_slba (demo_command 0)) + i, ?bs ! i)) [0..<length [0x12000 :: u64]]) = Some f"
    by (simp add: vhost_demo_fields c)
  have v: "vr_used_idx demo_vring = 0" "vr_num demo_vring = 4" "vr_call_fd demo_vring = 5" by (simp_all add: demo_vring_def)
  have k: "Kicked \<noteq> Kick_failed" by simp
  from vhost_write_stores [OF one_neq_zero k demo_waits demo_write c(1) p lim ready w vhost_demo_fields(1) refl refl zero_neq_one]
  obtain s' where "process_vring Kicked 1 (vhost_demo 0) = Some s'" "nv_ftl (us_nvme s') = f"
    "\<forall>i<length [0x12000 :: u64]. logical f (unat (nvme_slba (demo_command 0)) + i) = Some (?bs ! i)"
    "mem_read (us_mem s' 1) (0x200 + (4 + 8 * (unat (vr_used_idx demo_vring) mod unat (vr_num demo_vring)))) 8 = word_bytes 4 0 @ word_bytes 4 16"
    "us_calls s' = us_calls (vhost_demo 0) @ (if 0 \<le> vr_call_fd demo_vring then [vr_call_fd demo_vring] else [])"
    by (elim exE conjE) blast
  then show ?thesis by (intro exI [of _ s']) (simp add: c v vhost_demo_fields del: One_nat_def)
qed

end
